(* ===== verification/Nexus_Prelude.thy ===== *)
theory Nexus_Prelude
  imports Complex_Main "HOL-Library.Word"
begin

text \<open>
  Shared vocabulary of the development: machine integers, the outcome of a C function, the
  operations that thread a state through calls which may fail, and the list lemmas the
  components use.

  A C function of the code base returns an integer code and writes its results through
  pointers, while it changes the objects it was given. It is modelled as an operation
  \<open>'s \<Rightarrow> ('e, 'a) outcome \<times> 's\<close>: the outcome is \<open>Ok\<close> of the results, \<open>Err\<close> of the error code,
  or \<open>Fault\<close> where the C text has undefined behaviour (an index outside an array, a division by
  zero); the state component is what the objects look like afterwards, also after an error.
  The idiom \<^verbatim>\<open>ret = f(...); if (ret != SUCCESS) return ret;\<close> is \<open>seq\<close>.
\<close>

section \<open>Machine integers\<close>

unbundle bit_operations_syntax

type_synonym byte = "8 word"
type_synonym u16 = "16 word"
type_synonym u32 = "32 word"
type_synonym u64 = "64 word"

abbreviation (input) UINT64_MAX :: u64 where "UINT64_MAX \<equiv> 18446744073709551615"
abbreviation (input) INT64_MAX :: int where "INT64_MAX \<equiv> 9223372036854775807"
abbreviation (input) INT_MAX :: int where "INT_MAX \<equiv> 2147483647"

text \<open>Little-endian layout of the low \<open>n\<close> bytes of a number, and back.\<close>

fun le_enc :: "nat \<Rightarrow> nat \<Rightarrow> byte list" where
  "le_enc 0 v = []"
| "le_enc (Suc n) v = of_nat v # le_enc n (v div 256)"

fun le_dec :: "byte list \<Rightarrow> nat" where
  "le_dec [] = 0"
| "le_dec (b # bs) = unat b + 256 * le_dec bs"

text \<open>The big-endian layout.\<close>

definition be_enc :: "nat \<Rightarrow> nat \<Rightarrow> byte list" where
  "be_enc n v = rev (le_enc n v)"

definition be_dec :: "byte list \<Rightarrow> nat" where
  "be_dec bs = le_dec (rev bs)"

section \<open>Outcomes and operations\<close>

datatype ('e, 'a) outcome = Ok 'a | Err 'e | Fault

type_synonym ('s, 'e, 'a) op = "'s \<Rightarrow> ('e, 'a) outcome \<times> 's"

definition ret :: "'a \<Rightarrow> ('s, 'e, 'a) op" where
  "ret a = (\<lambda>s. (Ok a, s))"

definition fail :: "'e \<Rightarrow> ('s, 'e, 'a) op" where
  "fail e = (\<lambda>s. (Err e, s))"

definition fault :: "('s, 'e, 'a) op" where
  "fault = (\<lambda>s. (Fault, s))"

definition seq :: "('s, 'e, 'a) op \<Rightarrow> ('a \<Rightarrow> ('s, 'e, 'b) op) \<Rightarrow> ('s, 'e, 'b) op" where
  "seq m k = (\<lambda>s. case m s of
       (Ok a, s') \<Rightarrow> k a s'
     | (Err e, s') \<Rightarrow> (Err e, s')
     | (Fault, s') \<Rightarrow> (Fault, s'))"

text \<open>\<open>if (!b) return e;\<close>\<close>

definition ensure :: "bool \<Rightarrow> 'e \<Rightarrow> ('s, 'e, unit) op" where
  "ensure b e = (if b then ret () else fail e)"

definition get :: "('s, 'e, 's) op" where
  "get = (\<lambda>s. (Ok s, s))"

definition modify :: "('s \<Rightarrow> 's) \<Rightarrow> ('s, 'e, unit) op" where
  "modify f = (\<lambda>s. (Ok (), f s))"

text \<open>A call whose return code is ignored.\<close>

definition ignore :: "('s, 'e, 'a) op \<Rightarrow> ('s, 'e, unit) op" where
  "ignore m = (\<lambda>s. case m s of (Fault, s') \<Rightarrow> (Fault, s') | (_, s') \<Rightarrow> (Ok (), s'))"

text \<open>A call followed, on an error only, by a clean-up whose own code is ignored.\<close>

definition on_err :: "('s, 'e, 'a) op \<Rightarrow> ('s, 'e, unit) op \<Rightarrow> ('s, 'e, 'a) op" where
  "on_err m c = (\<lambda>s. case m s of
       (Err e, s') \<Rightarrow> (case c s' of (Fault, s'') \<Rightarrow> (Fault, s'') | (_, s'') \<Rightarrow> (Err e, s''))
     | r \<Rightarrow> r)"

text \<open>A function whose object pointer may be NULL, in which case it returns \<open>e\<close>.\<close>

definition nonnull :: "'e \<Rightarrow> ('s, 'e, 'a) op \<Rightarrow> ('s option, 'e, 'a) op" where
  "nonnull e m = (\<lambda>s. case s of None \<Rightarrow> (Err e, None)
     | Some x \<Rightarrow> (case m x of (r, x') \<Rightarrow> (r, Some x')))"

named_theorems op_simps \<open>unfolding of the operation combinators\<close>

lemma ret_apply [op_simps, simp]: "ret a s = (Ok a, s)"
  by (simp add: ret_def)

lemma fail_apply [op_simps, simp]: "fail e s = (Err e, s)"
  by (simp add: fail_def)

lemma fault_apply [op_simps, simp]: "fault s = (Fault, s)"
  by (simp add: fault_def)

lemma get_apply [op_simps, simp]: "get s = (Ok s, s)"
  by (simp add: get_def)

lemma modify_apply [op_simps, simp]: "modify f s = (Ok (), f s)"
  by (simp add: modify_def)

lemma ensure_apply [op_simps, simp]: "ensure b e s = (if b then (Ok (), s) else (Err e, s))"
  by (simp add: ensure_def)

lemma seq_Ok [op_simps, simp]: "m s = (Ok a, s') \<Longrightarrow> seq m k s = k a s'"
  by (simp add: seq_def)

lemma seq_Err [op_simps, simp]: "m s = (Err e, s') \<Longrightarrow> seq m k s = (Err e, s')"
  by (simp add: seq_def)

lemma seq_Fault [op_simps, simp]: "m s = (Fault, s') \<Longrightarrow> seq m k s = (Fault, s')"
  by (simp add: seq_def)

lemma seq_Ok_iff:
  "seq m k s = (Ok b, s'') \<longleftrightarrow> (\<exists>a s'. m s = (Ok a, s') \<and> k a s' = (Ok b, s''))"
  by (auto simp: seq_def split: prod.splits outcome.splits)

lemma seq_Fault_iff:
  "fst (seq m k s) = Fault \<longleftrightarrow>
     fst (m s) = Fault \<or> (\<exists>a s'. m s = (Ok a, s') \<and> fst (k a s') = Fault)"
  by (auto simp: seq_def split: prod.splits outcome.splits)

lemma seq_assoc: "seq (seq m k) l = seq m (\<lambda>a. seq (k a) l)"
  by (rule ext) (simp add: seq_def split: prod.splits outcome.splits)

lemma seq_ret [simp]: "seq (ret a) k = k a"
  by (rule ext) simp

lemma nonnull_None [op_simps, simp]: "nonnull e m None = (Err e, None)"
  by (simp add: nonnull_def)

lemma nonnull_Some [op_simps, simp]:
  "nonnull e m (Some x) = (case m x of (r, x') \<Rightarrow> (r, Some x'))"
  by (simp add: nonnull_def)

section \<open>Little-endian lemmas\<close>

lemma unat_bound: "unat (w :: 'a::len word) < 2 ^ LENGTH('a)"
  by simp

lemma byte_256: "(256 :: byte) = 0"
  by simp

lemma length_le_enc [simp]: "length (le_enc n v) = n"
  by (induction n arbitrary: v) auto

lemma le_dec_enc: "le_dec (le_enc n v) = v mod 256 ^ n"
proof (induction n arbitrary: v)
  case 0
  then show ?case by simp
next
  case (Suc n)
  have "v mod (256 * 256 ^ n) = v mod 256 + 256 * (v div 256 mod 256 ^ n)"
    by (simp add: mod_mult2_eq)
  then show ?case
    by (simp add: Suc unat_of_nat)
qed

lemma le_enc_dec: "length bs = n \<Longrightarrow> le_enc n (le_dec bs) = bs"
proof (induction bs arbitrary: n)
  case Nil
  then show ?case by simp
next
  case (Cons b bs)
  have small: "unat b < 256"
    using unat_bound [of b] by simp
  have "(of_nat (unat b + 256 * le_dec bs) :: byte) = b"
    unfolding of_nat_add of_nat_mult of_nat_numeral byte_256 by simp
  moreover have "(unat b + 256 * le_dec bs) div 256 = le_dec bs"
    using small by simp
  ultimately show ?case
    using Cons by auto
qed

lemma le_dec_less: "le_dec bs < 256 ^ length bs"
proof (induction bs)
  case Nil
  then show ?case by simp
next
  case (Cons b bs)
  have "unat b < 256"
    using unat_bound [of b] by simp
  then show ?case using Cons by simp
qed

lemma length_be_enc [simp]: "length (be_enc n v) = n"
  by (simp add: be_enc_def)

lemma be_dec_enc: "be_dec (be_enc n v) = v mod 256 ^ n"
  by (simp add: be_dec_def be_enc_def le_dec_enc)

lemma be_enc_dec: "length bs = n \<Longrightarrow> be_enc n (be_dec bs) = bs"
  by (simp add: be_dec_def be_enc_def le_enc_dec)

lemma be_dec_less: "be_dec bs < 256 ^ length bs"
  using le_dec_less [of "rev bs"] by (simp add: be_dec_def)

lemma le_dec_enc_u32 [simp]: "le_dec (le_enc 4 (unat (w :: u32))) = unat w"
  using unat_bound [of w] by (simp add: le_dec_enc)

lemma le_dec_enc_u64 [simp]: "le_dec (le_enc 8 (unat (w :: u64))) = unat w"
  using unat_bound [of w] by (simp add: le_dec_enc)

lemma be_dec_enc_word:
  assumes "LENGTH('a::len) = 8 * n"
  shows "be_dec (be_enc n (unat (w :: 'a word))) = unat w"
proof -
  have "unat w < 256 ^ n"
    using unat_bound [of w] by (simp add: assms power_mult)
  then show ?thesis by (simp add: be_dec_enc)
qed

text \<open>An integer field of one, two, four or eight bytes, read back.\<close>

lemma be_dec_enc_byte [simp]: "be_dec (be_enc (Suc 0) (unat (w :: byte))) = unat w"
  by (rule be_dec_enc_word) simp

lemma be_dec_enc_u16 [simp]: "be_dec (be_enc 2 (unat (w :: u16))) = unat w"
  by (rule be_dec_enc_word) simp

lemma be_dec_enc_u32 [simp]: "be_dec (be_enc 4 (unat (w :: u32))) = unat w"
  by (rule be_dec_enc_word) simp

lemma be_dec_enc_u64 [simp]: "be_dec (be_enc 8 (unat (w :: u64))) = unat w"
  by (rule be_dec_enc_word) simp

section \<open>Conversions between widths\<close>

lemma unat_of_nat_u32: "n < 4294967296 \<Longrightarrow> unat (of_nat n :: u32) = n"
  by (simp add: unat_of_nat)

lemma unat_of_nat_u64: "n < 18446744073709551616 \<Longrightarrow> unat (of_nat n :: u64) = n"
  by (simp add: unat_of_nat)

lemma unat_ucast_u64: "unat (ucast (a :: u32) :: u64) = unat a"
  using unat_bound [of a] by (simp add: unsigned_ucast_eq take_bit_nat_eq_self)

lemma sint_u64_nat: "n < 2 ^ 63 \<Longrightarrow> sint (of_nat n :: u64) = int n"
  by (simp add: sint_uint unsigned_of_nat take_bit_nat_eq_self signed_take_bit_int_eq_self)

lemma sint_u64_unat: "unat (w :: u64) < 2 ^ 63 \<Longrightarrow> sint w = int (unat w)"
  using sint_u64_nat [of "unat w"] by simp

end
