(* ===== verification/Sa_Util.thy ===== *)
theory Sa_Util
  imports Nexus_Prelude
begin

text \<open>
  The parts of libsautil the other libraries build on: the bit-reversal table
  (\<^verbatim>\<open>reverse.c\<close>), the bounded string copy (\<^verbatim>\<open>sastring.c\<close>) and the
  guarded allocator (\<^verbatim>\<open>mem.c\<close>).
\<close>

section \<open>The bit-reversal table\<close>

definition ff_reverse :: "byte list" where
  "ff_reverse = [
   0x00,0x80,0x40,0xC0,0x20,0xA0,0x60,0xE0,0x10,0x90,0x50,0xD0,0x30,0xB0,0x70,0xF0,
   0x08,0x88,0x48,0xC8,0x28,0xA8,0x68,0xE8,0x18,0x98,0x58,0xD8,0x38,0xB8,0x78,0xF8,
   0x04,0x84,0x44,0xC4,0x24,0xA4,0x64,0xE4,0x14,0x94,0x54,0xD4,0x34,0xB4,0x74,0xF4,
   0x0C,0x8C,0x4C,0xCC,0x2C,0xAC,0x6C,0xEC,0x1C,0x9C,0x5C,0xDC,0x3C,0xBC,0x7C,0xFC,
   0x02,0x82,0x42,0xC2,0x22,0xA2,0x62,0xE2,0x12,0x92,0x52,0xD2,0x32,0xB2,0x72,0xF2,
   0x0A,0x8A,0x4A,0xCA,0x2A,0xAA,0x6A,0xEA,0x1A,0x9A,0x5A,0xDA,0x3A,0xBA,0x7A,0xFA,
   0x06,0x86,0x46,0xC6,0x26,0xA6,0x66,0xE6,0x16,0x96,0x56,0xD6,0x36,0xB6,0x76,0xF6,
   0x0E,0x8E,0x4E,0xCE,0x2E,0xAE,0x6E,0xEE,0x1E,0x9E,0x5E,0xDE,0x3E,0xBE,0x7E,0xFE,
   0x01,0x81,0x41,0xC1,0x21,0xA1,0x61,0xE1,0x11,0x91,0x51,0xD1,0x31,0xB1,0x71,0xF1,
   0x09,0x89,0x49,0xC9,0x29,0xA9,0x69,0xE9,0x19,0x99,0x59,0xD9,0x39,0xB9,0x79,0xF9,
   0x05,0x85,0x45,0xC5,0x25,0xA5,0x65,0xE5,0x15,0x95,0x55,0xD5,0x35,0xB5,0x75,0xF5,
   0x0D,0x8D,0x4D,0xCD,0x2D,0xAD,0x6D,0xED,0x1D,0x9D,0x5D,0xDD,0x3D,0xBD,0x7D,0xFD,
   0x03,0x83,0x43,0xC3,0x23,0xA3,0x63,0xE3,0x13,0x93,0x53,0xD3,0x33,0xB3,0x73,0xF3,
   0x0B,0x8B,0x4B,0xCB,0x2B,0xAB,0x6B,0xEB,0x1B,0x9B,0x5B,0xDB,0x3B,0xBB,0x7B,0xFB,
   0x07,0x87,0x47,0xC7,0x27,0xA7,0x67,0xE7,0x17,0x97,0x57,0xD7,0x37,0xB7,0x77,0xF7,
   0x0F,0x8F,0x4F,0xCF,0x2F,0xAF,0x6F,0xEF,0x1F,0x9F,0x5F,0xDF,0x3F,0xBF,0x7F,0xFF]"

text \<open>\<open>ff_reverse[b]\<close> for a byte \<open>b\<close>; the table covers every byte.\<close>

abbreviation rev8 :: "byte \<Rightarrow> byte" where
  "rev8 b \<equiv> ff_reverse ! unat b"

section \<open>Bounded string copy\<close>

text \<open>
  What \<^verbatim>\<open>dst\<close> holds after \<^verbatim>\<open>sa_strlcpy(dst, src, size)\<close>: at most
  \<open>size - 1\<close> characters. The C loop pre-increments \<open>len\<close> and stops at \<open>size\<close> or at the end
  of the source.
\<close>

fun sa_strlcpy_loop :: "nat \<Rightarrow> nat \<Rightarrow> string \<Rightarrow> string" where
  "sa_strlcpy_loop len sz [] = []"
| "sa_strlcpy_loop len sz (c # src) =
     (if len + 1 < sz then c # sa_strlcpy_loop (len + 1) sz src else [])"

definition sa_strlcpy :: "string \<Rightarrow> nat \<Rightarrow> string" where
  "sa_strlcpy src sz = sa_strlcpy_loop 0 sz src"

section \<open>The guarded allocator\<close>

text \<open>
  The allocator refuses requests above a configured maximum, asks the platform for the others
  and turns a request for nothing into one for a single byte. What the platform grants is a
  parameter.
\<close>

record heap =
  max_alloc_size :: nat
  platform_alloc :: "nat \<Rightarrow> bool"

definition sa_max_alloc :: "nat \<Rightarrow> heap \<Rightarrow> heap" where
  "sa_max_alloc n h = h\<lparr>max_alloc_size := n\<rparr>"

definition sa_malloc :: "heap \<Rightarrow> nat \<Rightarrow> bool" where
  "sa_malloc h sz =
     (if max_alloc_size h < sz then False
      else if sz \<noteq> 0 then platform_alloc h sz
      else 1 \<le> max_alloc_size h \<and> platform_alloc h 1)"

text \<open>Whether \<^verbatim>\<open>sa_realloc(ptr, n)\<close> succeeds; \<^verbatim>\<open>sa_strdup\<close> obtains its copy from it.\<close>

definition sa_realloc :: "heap \<Rightarrow> nat \<Rightarrow> bool" where
  "sa_realloc h sz = (\<not> max_alloc_size h < sz \<and> platform_alloc h (if sz = 0 then 1 else sz))"

text \<open>\<^verbatim>\<open>sa_calloc\<close>, which refuses a product that does not fit \<^verbatim>\<open>size_t\<close>.\<close>

definition sa_calloc :: "heap \<Rightarrow> nat \<Rightarrow> nat \<Rightarrow> bool" where
  "sa_calloc hp nmemb sz \<longleftrightarrow> nmemb * sz < 2 ^ 64 \<and> sa_malloc hp (nmemb * sz)"

text \<open>The characters of a C string end before its first NUL.\<close>

definition cstr :: "byte list \<Rightarrow> byte list" where
  "cstr t = takeWhile (\<lambda>b. b \<noteq> 0) t"

definition sa_strdup :: "heap \<Rightarrow> byte list \<Rightarrow> byte list option" where
  "sa_strdup h t = (if sa_realloc h (length (cstr t) + 1) then Some (cstr t) else None)"

section \<open>Markers\<close>

text \<open>\<^verbatim>\<open>MAKE_MARKER\<close> on a little-endian host: the first character is the low byte.\<close>

definition MAKE_MARKER :: "char \<Rightarrow> char \<Rightarrow> char \<Rightarrow> char \<Rightarrow> u32" where
  "MAKE_MARKER a b c d =
     of_char a OR push_bit 8 (of_char b) OR push_bit 16 (of_char c) OR push_bit 24 (of_char d)"

section \<open>Lemmas\<close>

lemma length_ff_reverse: "length ff_reverse = 256"
  unfolding ff_reverse_def by simp

lemma sa_strlcpy_loop_eq: "sa_strlcpy_loop len sz src = take (sz - 1 - len) src"
proof (induction src arbitrary: len)
  case Nil
  then show ?case by simp
next
  case (Cons c src)
  have "sz - 1 - len = Suc (sz - 1 - (len + 1))" if "len + 1 < sz"
    using that by simp
  with Cons show ?case by auto
qed

lemma sa_strlcpy_eq: "sa_strlcpy src sz = take (sz - 1) src"
  by (simp add: sa_strlcpy_def sa_strlcpy_loop_eq)

text \<open>The table, entry by entry, reverses the order of the eight bits.\<close>

definition bit_reverse8 :: "nat \<Rightarrow> nat" where
  "bit_reverse8 v =
     128 * (v mod 2) + 64 * (v div 2 mod 2) + 32 * (v div 4 mod 2) + 16 * (v div 8 mod 2) +
     8 * (v div 16 mod 2) + 4 * (v div 32 mod 2) + 2 * (v div 64 mod 2) + v div 128 mod 2"

lemma upt_256: "[0..<256] = 0 # 1 # [2..<256]"
  by (simp add: upt_rec)

lemma ff_reverse_table: "map unat ff_reverse = map bit_reverse8 [0..<256]"
  by (simp add: ff_reverse_def bit_reverse8_def upt_256)

lemma ff_reverse_nth: "i < 256 \<Longrightarrow> unat (ff_reverse ! i) = bit_reverse8 i"
proof -
  assume i: "i < 256"
  have "map unat ff_reverse ! i = map bit_reverse8 [0..<256] ! i"
    by (simp only: ff_reverse_table)
  then show ?thesis using i by (simp add: length_ff_reverse)
qed

lemma bit_reverse8_invol_table: "map bit_reverse8 (map unat ff_reverse) = [0..<256]"
  by (simp add: ff_reverse_def bit_reverse8_def upt_256)

lemma bit_reverse8_invol: "i < 256 \<Longrightarrow> bit_reverse8 (bit_reverse8 i) = i"
proof -
  assume i: "i < 256"
  have "map bit_reverse8 (map unat ff_reverse) ! i = [0..<256] ! i"
    by (simp only: bit_reverse8_invol_table)
  then show ?thesis using i by (simp add: length_ff_reverse ff_reverse_nth)
qed

lemma bit_reverse8_less: "bit_reverse8 v < 256"
proof -
  have b: "x mod 2 \<le> 1" for x :: nat by simp
  show ?thesis
    using b [of v] b [of "v div 2"] b [of "v div 4"] b [of "v div 8"] b [of "v div 16"]
      b [of "v div 32"] b [of "v div 64"] b [of "v div 128"]
    unfolding bit_reverse8_def by linarith
qed

lemma byte_less_256: "unat (b :: byte) < 256"
  using unat_bound [of b] by simp

lemma rev8_rev8 [simp]: "rev8 (rev8 b) = b"
proof -
  have "unat (rev8 (rev8 b)) = bit_reverse8 (bit_reverse8 (unat b))"
    by (simp add: ff_reverse_nth byte_less_256 bit_reverse8_less)
  also have "\<dots> = unat b"
    by (rule bit_reverse8_invol) (rule byte_less_256)
  finally show ?thesis by (simp only: unsigned_word_eqI)
qed

lemma rev8_0 [simp]: "ff_reverse ! 0 = 0"
  by (simp add: ff_reverse_def)

end
