(* ===== verification/C_Stdio.thy ===== *)
theory C_Stdio
  imports Nexus_Prelude
begin

text \<open>
  The part of the C library's streams that the container libraries call: \<^verbatim>\<open>fopen\<close>,
  \<^verbatim>\<open>fclose\<close>, \<^verbatim>\<open>fread\<close>, \<^verbatim>\<open>fwrite\<close>, \<^verbatim>\<open>fseeko\<close>, \<^verbatim>\<open>ftello\<close>,
  \<^verbatim>\<open>fstat\<close>, \<^verbatim>\<open>ftruncate\<close>, \<^verbatim>\<open>remove\<close> (named through the macros of
  \<^verbatim>\<open>libsautil/compat.h\<close>).

  An open stream carries the bytes of its file, the position, the access its mode grants and
  the largest size the device lets the file grow to, which is where writes fall short. A disk
  maps paths to file contents; a path may refuse reading or writing. A stream that can write
  hands its bytes to the disk when it is closed, so a second opening of the same path sees the
  bytes of the last close.
\<close>

section \<open>Streams and disks\<close>

record cfile =
  fpath :: string
  fdata :: "byte list"
  fpos :: nat
  freadable :: bool
  fwritable :: bool
  fcap :: nat

record disk =
  dfiles :: "string \<Rightarrow> byte list option"
  dreadable :: "string \<Rightarrow> bool"
  dwritable :: "string \<Rightarrow> bool"
  dcap :: nat

datatype seek_origin = SEEK_SET | SEEK_CUR | SEEK_END

text \<open>Bytes \<open>bs\<close> stored from offset \<open>p\<close>; a gap before \<open>p\<close> reads as zeros.\<close>

definition patch :: "byte list \<Rightarrow> nat \<Rightarrow> byte list \<Rightarrow> byte list" where
  "patch d p bs =
     (if bs = [] then d
      else take p d @ replicate (p - length d) 0 @ bs @ drop (p + length bs) d)"

definition fread :: "nat \<Rightarrow> cfile \<Rightarrow> byte list \<times> cfile" where
  "fread n f =
     (if freadable f
      then let bs = take n (drop (fpos f) (fdata f)) in (bs, f\<lparr>fpos := fpos f + length bs\<rparr>)
      else ([], f))"

definition fwrite :: "byte list \<Rightarrow> cfile \<Rightarrow> nat \<times> cfile" where
  "fwrite bs f =
     (if fwritable f
      then let ws = take (fcap f - fpos f) bs
           in (length ws, f\<lparr>fdata := patch (fdata f) (fpos f) ws, fpos := fpos f + length ws\<rparr>)
      else (0, f))"

text \<open>The seek result: \<open>True\<close> for the return value 0.\<close>

definition fseek :: "int \<Rightarrow> seek_origin \<Rightarrow> cfile \<Rightarrow> bool \<times> cfile" where
  "fseek off org f =
     (let base = (case org of SEEK_SET \<Rightarrow> 0 | SEEK_CUR \<Rightarrow> int (fpos f)
                            | SEEK_END \<Rightarrow> int (length (fdata f)));
          target = base + off
      in if target < 0 \<or> INT64_MAX < target then (False, f)
         else (True, f\<lparr>fpos := nat target\<rparr>))"

text \<open>\<^verbatim>\<open>ftello\<close> fails with -1 when the offset does not fit its signed result.\<close>

definition ftell :: "cfile \<Rightarrow> int" where
  "ftell f = (if int (fpos f) \<le> INT64_MAX then int (fpos f) else - 1)"

definition ftruncate :: "int \<Rightarrow> cfile \<Rightarrow> bool \<times> cfile" where
  "ftruncate n f =
     (if fwritable f \<and> 0 \<le> n \<and> nat n \<le> max (fcap f) (length (fdata f))
      then (True, f\<lparr>fdata := take (nat n) (fdata f) @ replicate (nat n - length (fdata f)) 0\<rparr>)
      else (False, f))"

definition fstat_size :: "cfile \<Rightarrow> u64" where
  "fstat_size f = of_nat (length (fdata f))"

datatype open_mode = RB | WB | RplusB

definition fopen :: "string \<Rightarrow> open_mode \<Rightarrow> disk \<Rightarrow> cfile option \<times> disk" where
  "fopen name m d = (case m of
       RB \<Rightarrow> (case dfiles d name of
           Some bs \<Rightarrow> if dreadable d name
              then (Some \<lparr>fpath = name, fdata = bs, fpos = 0, freadable = True,
                          fwritable = False, fcap = dcap d\<rparr>, d)
              else (None, d)
         | None \<Rightarrow> (None, d))
     | WB \<Rightarrow> if dwritable d name
         then (Some \<lparr>fpath = name, fdata = [], fpos = 0, freadable = False,
                     fwritable = True, fcap = dcap d\<rparr>,
               d\<lparr>dfiles := (dfiles d)(name \<mapsto> [])\<rparr>)
         else (None, d)
     | RplusB \<Rightarrow> (case dfiles d name of
           Some bs \<Rightarrow> if dreadable d name \<and> dwritable d name
              then (Some \<lparr>fpath = name, fdata = bs, fpos = 0, freadable = True,
                          fwritable = True, fcap = dcap d\<rparr>, d)
              else (None, d)
         | None \<Rightarrow> (None, d)))"

definition fclose :: "cfile \<Rightarrow> disk \<Rightarrow> disk" where
  "fclose f d = (if fwritable f then d\<lparr>dfiles := (dfiles d)(fpath f \<mapsto> fdata f)\<rparr> else d)"

definition remove_path :: "string \<Rightarrow> disk \<Rightarrow> bool \<times> disk" where
  "remove_path name d =
     (if dfiles d name \<noteq> None \<and> dwritable d name
      then (True, d\<lparr>dfiles := (dfiles d)(name := None)\<rparr>) else (False, d))"

section \<open>Lemmas on stored bytes\<close>

lemma patch_Nil [simp]: "patch d p [] = d"
  by (simp add: patch_def)

lemma length_patch: "length (patch d p bs) = (if bs = [] then length d else max (length d) (p + length bs))"
  by (auto simp: patch_def)

lemma patch_at_end: "patch d (length d) bs = d @ bs"
  by (simp add: patch_def)

lemma patch_inside:
  "p + length bs \<le> length d \<Longrightarrow> patch d p bs = take p d @ bs @ drop (p + length bs) d"
  by (auto simp: patch_def)

text \<open>Two consecutive writes store the concatenation.\<close>

lemma patch_patch_append:
  "patch (patch d p xs) (p + length xs) ys = patch d p (xs @ ys)"
proof (cases "xs = [] \<or> ys = []")
  case True
  then show ?thesis by auto
next
  case False
  let ?pre = "take p d @ replicate (p - length d) 0"
  have pre: "length ?pre = p" by simp
  have "patch d p xs = ?pre @ xs @ drop (p + length xs) d"
    using False by (simp add: patch_def)
  then have t: "take (p + length xs) (patch d p xs) = ?pre @ xs"
    and dr: "drop (p + length xs + length ys) (patch d p xs) = drop (p + length xs + length ys) d"
    and ln: "p + length xs \<le> length (patch d p xs)"
    using pre by (simp_all add: add.commute)
  show ?thesis
    using False ln by (simp add: patch_def [of "patch d p xs"] t dr) (simp add: patch_def add.assoc)
qed

lemma take_patch: "p \<le> length d \<Longrightarrow> take p (patch d p bs) = take p d"
  by (simp add: patch_def)

lemma read_patch_same:
  "p \<le> length d \<Longrightarrow> take (length bs) (drop p (patch d p bs)) = bs"
  by (simp add: patch_def)

text \<open>A write leaves the bytes of a disjoint field in place.\<close>

lemma bytes_at_patch_below:
  "q + n \<le> p \<Longrightarrow> p \<le> length d \<Longrightarrow> take n (drop q (patch d p bs)) = take n (drop q d)"
  by (simp add: patch_def drop_append take_drop flip: take_add) 

lemma bytes_at_patch_above:
  "p + length bs \<le> q \<Longrightarrow> p \<le> length d \<Longrightarrow> drop q (patch d p bs) = drop q d"
  by (simp add: patch_def drop_append)

end
