(* ===== verification/Dsf_Types.thy ===== *)
theory Dsf_Types
  imports Sa_Util C_Stdio
begin

text \<open>
  Constants, enumerations, the file-information structure and the checked arithmetic of
  \<^verbatim>\<open>libdsf/include/libdsf/dsf.h\<close> and \<^verbatim>\<open>libdsf/src/dsf_types.h\<close>.
  The \<^verbatim>\<open>double\<close> field \<^verbatim>\<open>duration_seconds\<close> is the exact quotient, a rational; the C
  code stores the nearest double.
\<close>

section \<open>Enumerations and constants\<close>

datatype dsf_file_mode =
  DSF_FILE_MODE_CLOSED | DSF_FILE_MODE_READ | DSF_FILE_MODE_WRITE | DSF_FILE_MODE_MODIFY

datatype dsf_error =
    DSF_ERROR_ALREADY_OPEN | DSF_ERROR_NOT_OPEN | DSF_ERROR_OPEN_READ | DSF_ERROR_OPEN_WRITE
  | DSF_ERROR_INVALID_FILE | DSF_ERROR_INVALID_CHUNK | DSF_ERROR_INVALID_DSF
  | DSF_ERROR_INVALID_VERSION | DSF_ERROR_UNSUPPORTED_COMPRESSION | DSF_ERROR_UNEXPECTED_EOF
  | DSF_ERROR_READ | DSF_ERROR_WRITE | DSF_ERROR_SEEK | DSF_ERROR_END_OF_DATA
  | DSF_ERROR_MAX_FILE_SIZE | DSF_ERROR_FILE_NOT_FOUND | DSF_ERROR_CANNOT_CREATE_FILE
  | DSF_ERROR_CONVERSION_FAILED | DSF_ERROR_GENERIC
  | DSF_ERROR_NO_CHANNEL_INFO | DSF_ERROR_INVALID_CHANNELS | DSF_ERROR_CHANNELS_INCORRECT
  | DSF_ERROR_INVALID_SAMPLE_RATE | DSF_ERROR_INVALID_BIT_DEPTH | DSF_ERROR_INVALID_BLOCK_SIZE
  | DSF_ERROR_INVALID_ARG | DSF_ERROR_OUT_OF_MEMORY | DSF_ERROR_BUFFER_TOO_SMALL
  | DSF_ERROR_INVALID_MODE | DSF_ERROR_OPERATION_NOT_ALLOWED
  | DSF_ERROR_NO_METADATA | DSF_ERROR_INVALID_METADATA

abbreviation (input) DSF_ERROR_INVALID_PARAMETER :: dsf_error where
  "DSF_ERROR_INVALID_PARAMETER \<equiv> DSF_ERROR_INVALID_ARG"

fun dsf_error_code :: "dsf_error \<Rightarrow> int" where
  "dsf_error_code DSF_ERROR_ALREADY_OPEN = -1"
| "dsf_error_code DSF_ERROR_NOT_OPEN = -2"
| "dsf_error_code DSF_ERROR_OPEN_READ = -3"
| "dsf_error_code DSF_ERROR_OPEN_WRITE = -4"
| "dsf_error_code DSF_ERROR_INVALID_FILE = -10"
| "dsf_error_code DSF_ERROR_INVALID_CHUNK = -11"
| "dsf_error_code DSF_ERROR_INVALID_DSF = -12"
| "dsf_error_code DSF_ERROR_INVALID_VERSION = -13"
| "dsf_error_code DSF_ERROR_UNSUPPORTED_COMPRESSION = -14"
| "dsf_error_code DSF_ERROR_UNEXPECTED_EOF = -15"
| "dsf_error_code DSF_ERROR_READ = -20"
| "dsf_error_code DSF_ERROR_WRITE = -21"
| "dsf_error_code DSF_ERROR_SEEK = -22"
| "dsf_error_code DSF_ERROR_END_OF_DATA = -23"
| "dsf_error_code DSF_ERROR_MAX_FILE_SIZE = -24"
| "dsf_error_code DSF_ERROR_FILE_NOT_FOUND = -25"
| "dsf_error_code DSF_ERROR_CANNOT_CREATE_FILE = -26"
| "dsf_error_code DSF_ERROR_CONVERSION_FAILED = -27"
| "dsf_error_code DSF_ERROR_GENERIC = -28"
| "dsf_error_code DSF_ERROR_NO_CHANNEL_INFO = -30"
| "dsf_error_code DSF_ERROR_INVALID_CHANNELS = -31"
| "dsf_error_code DSF_ERROR_CHANNELS_INCORRECT = -32"
| "dsf_error_code DSF_ERROR_INVALID_SAMPLE_RATE = -33"
| "dsf_error_code DSF_ERROR_INVALID_BIT_DEPTH = -34"
| "dsf_error_code DSF_ERROR_INVALID_BLOCK_SIZE = -35"
| "dsf_error_code DSF_ERROR_INVALID_ARG = -40"
| "dsf_error_code DSF_ERROR_OUT_OF_MEMORY = -41"
| "dsf_error_code DSF_ERROR_BUFFER_TOO_SMALL = -42"
| "dsf_error_code DSF_ERROR_INVALID_MODE = -43"
| "dsf_error_code DSF_ERROR_OPERATION_NOT_ALLOWED = -44"
| "dsf_error_code DSF_ERROR_NO_METADATA = -50"
| "dsf_error_code DSF_ERROR_INVALID_METADATA = -51"

definition DSF_MAX_CHANNELS :: nat where "DSF_MAX_CHANNELS = 7"
definition DSF_BLOCK_SIZE_PER_CHANNEL :: nat where "DSF_BLOCK_SIZE_PER_CHANNEL = 4096"

abbreviation (input) DSF_SAMPLE_FREQ_64FS :: u32 where "DSF_SAMPLE_FREQ_64FS \<equiv> 2822400"
abbreviation (input) DSF_SAMPLE_FREQ_128FS :: u32 where "DSF_SAMPLE_FREQ_128FS \<equiv> 5644800"
abbreviation (input) DSF_SAMPLE_FREQ_256FS :: u32 where "DSF_SAMPLE_FREQ_256FS \<equiv> 11289600"
abbreviation (input) DSF_SAMPLE_FREQ_512FS :: u32 where "DSF_SAMPLE_FREQ_512FS \<equiv> 22579200"

abbreviation (input) DSF_FORMAT_VERSION :: u32 where "DSF_FORMAT_VERSION \<equiv> 1"
abbreviation (input) DSF_FORMAT_DSD_RAW :: u32 where "DSF_FORMAT_DSD_RAW \<equiv> 0"
abbreviation (input) DSF_MAX_STR_SIZE :: nat where "DSF_MAX_STR_SIZE \<equiv> 4096"
abbreviation (input) DSF_MIN_FILE_SIZE :: u64 where "DSF_MIN_FILE_SIZE \<equiv> 92"
abbreviation (input) DSF_DSD_CHUNK_SIZE :: u64 where "DSF_DSD_CHUNK_SIZE \<equiv> 28"
abbreviation (input) DSF_FMT_CHUNK_SIZE :: u64 where "DSF_FMT_CHUNK_SIZE \<equiv> 52"
abbreviation (input) DSF_DATA_CHUNK_HEADER_SIZE :: u64 where "DSF_DATA_CHUNK_HEADER_SIZE \<equiv> 12"
abbreviation (input) DSF_MAX_REASONABLE_CHUNK_SIZE :: u64 where
  "DSF_MAX_REASONABLE_CHUNK_SIZE \<equiv> 10737418240"
abbreviation (input) DSF_MAX_REASONABLE_METADATA_SIZE :: u64 where
  "DSF_MAX_REASONABLE_METADATA_SIZE \<equiv> 104857600"

definition DSF_DSD_CHUNK_ID :: u32 where
  "DSF_DSD_CHUNK_ID = MAKE_MARKER (CHR ''D'') (CHR ''S'') (CHR ''D'') (CHR '' '')"
definition DSF_FMT_CHUNK_ID :: u32 where
  "DSF_FMT_CHUNK_ID = MAKE_MARKER (CHR ''f'') (CHR ''m'') (CHR ''t'') (CHR '' '')"
definition DSF_DATA_CHUNK_ID :: u32 where
  "DSF_DATA_CHUNK_ID = MAKE_MARKER (CHR ''d'') (CHR ''a'') (CHR ''t'') (CHR ''a'')"

definition dsf_is_valid_chunk_id :: "u32 \<Rightarrow> bool" where
  "dsf_is_valid_chunk_id chunk_id \<longleftrightarrow>
     chunk_id = DSF_DSD_CHUNK_ID \<or> chunk_id = DSF_FMT_CHUNK_ID \<or> chunk_id = DSF_DATA_CHUNK_ID"

section \<open>The file information structure\<close>

record dsf_file_info =
  file_size :: u64
  metadata_offset :: u64
  format_version :: u32
  format_id :: u32
  channel_type :: u32
  channel_count :: u32
  sampling_frequency :: u32
  bits_per_sample :: u32
  sample_count :: u64
  block_size_per_channel :: u32
  audio_data_size :: u64
  audio_data_offset :: u64
  duration_seconds :: rat
  bit_rate :: u32

text \<open>What \<^verbatim>\<open>memset(info, 0, sizeof(dsf_file_info_t))\<close> leaves.\<close>

definition zero_info :: dsf_file_info where
  "zero_info = \<lparr>file_size = 0, metadata_offset = 0, format_version = 0, format_id = 0,
     channel_type = 0, channel_count = 0, sampling_frequency = 0, bits_per_sample = 0,
     sample_count = 0, block_size_per_channel = 0, audio_data_size = 0, audio_data_offset = 0,
     duration_seconds = 0, bit_rate = 0\<rparr>"

section \<open>Validation and checked arithmetic\<close>

definition dsf_is_valid_sample_rate :: "u32 \<Rightarrow> bool" where
  "dsf_is_valid_sample_rate rate \<longleftrightarrow>
     rate = DSF_SAMPLE_FREQ_64FS \<or> rate = DSF_SAMPLE_FREQ_128FS \<or>
     rate = DSF_SAMPLE_FREQ_256FS \<or> rate = DSF_SAMPLE_FREQ_512FS"

definition dsf_is_valid_channel_type :: "u32 \<Rightarrow> bool" where
  "dsf_is_valid_channel_type type \<longleftrightarrow> 1 \<le> type \<and> type \<le> 7"

definition dsf_is_valid_bits_per_sample :: "u32 \<Rightarrow> bool" where
  "dsf_is_valid_bits_per_sample bits \<longleftrightarrow> bits = 1 \<or> bits = 8"

text \<open>\<open>None\<close> is the return value 1 (overflow); \<open>Some r\<close> is 0 with \<open>*result = r\<close>.\<close>

definition dsf_uint64_add_overflow :: "u64 \<Rightarrow> u64 \<Rightarrow> u64 option" where
  "dsf_uint64_add_overflow a b = (if UINT64_MAX - b < a then None else Some (a + b))"

definition dsf_uint64_mul_overflow :: "u64 \<Rightarrow> u64 \<Rightarrow> u64 option" where
  "dsf_uint64_mul_overflow a b =
     (if a \<noteq> 0 \<and> UINT64_MAX div a < b then None else Some (a * b))"

definition dsf_uint64_sub_underflow :: "u64 \<Rightarrow> u64 \<Rightarrow> u64 option" where
  "dsf_uint64_sub_underflow a b = (if a < b then None else Some (a - b))"

text \<open>On a platform where \<^verbatim>\<open>size_t\<close> is 64 bits wide the test never fires.\<close>

definition dsf_uint64_to_sizet :: "u64 \<Rightarrow> nat option" where
  "dsf_uint64_to_sizet v = (if UINT64_MAX < v then None else Some (unat v))"

definition dsf_calculate_audio_data_size :: "u32 \<Rightarrow> u64 \<Rightarrow> u32 \<Rightarrow> u64" where
  "dsf_calculate_audio_data_size chans samples bits =
     (if bits = 1 then
        (if UINT64_MAX - 7 < samples then 0
         else let bytes_per_channel = (samples + 8 - 1) div 8 in
           if UINT64_MAX - of_nat DSF_BLOCK_SIZE_PER_CHANNEL + 1 < bytes_per_channel then 0
           else let blocks = (bytes_per_channel + of_nat DSF_BLOCK_SIZE_PER_CHANNEL - 1)
                               div of_nat DSF_BLOCK_SIZE_PER_CHANNEL in
             (case dsf_uint64_mul_overflow blocks (of_nat DSF_BLOCK_SIZE_PER_CHANNEL) of
                None \<Rightarrow> 0
              | Some block_bytes \<Rightarrow>
                  (case dsf_uint64_mul_overflow block_bytes (ucast chans) of
                     None \<Rightarrow> 0 | Some total_size \<Rightarrow> total_size)))
      else (case dsf_uint64_mul_overflow samples (ucast chans) of
              None \<Rightarrow> 0 | Some total_size \<Rightarrow> total_size))"

definition dsf_calculate_duration :: "u64 \<Rightarrow> u32 \<Rightarrow> rat" where
  "dsf_calculate_duration samples rate =
     (if rate = 0 then 0 else of_nat (unat samples) / of_nat (unat rate))"

definition dsf_calculate_bit_rate :: "u32 \<Rightarrow> u32 \<Rightarrow> u32 \<Rightarrow> u32" where
  "dsf_calculate_bit_rate chans rate bits = chans * rate * bits"

definition dsf_sample_rate_to_string :: "u32 \<Rightarrow> string" where
  "dsf_sample_rate_to_string rate =
     (if rate = DSF_SAMPLE_FREQ_64FS then ''2.8224 MHz (DSD64)''
      else if rate = DSF_SAMPLE_FREQ_128FS then ''5.6448 MHz (DSD128)''
      else if rate = DSF_SAMPLE_FREQ_256FS then ''11.2896 MHz (DSD256)''
      else if rate = DSF_SAMPLE_FREQ_512FS then ''22.5792 MHz (DSD512)''
      else ''Unknown'')"

definition dsf_channel_type_to_string :: "u32 \<Rightarrow> string" where
  "dsf_channel_type_to_string type =
     (if type = 1 then ''Mono'' else if type = 2 then ''Stereo''
      else if type = 3 then ''3 Channels'' else if type = 4 then ''Quad''
      else if type = 5 then ''4 Channels'' else if type = 6 then ''5 Channels''
      else if type = 7 then ''5.1 Channels'' else ''Unknown'')"

section \<open>Lemmas\<close>

lemma u64_bound: "unat (a :: u64) < 18446744073709551616"
  using unat_bound [of a] by simp

lemma u32_bound: "unat (a :: u32) < 4294967296"
  using unat_bound [of a] by simp

lemma unat_UINT64_MAX_minus: "unat (UINT64_MAX - b) = 18446744073709551615 - unat b"
proof -
  have "b \<le> UINT64_MAX"
    using u64_bound [of b] by (simp add: word_le_nat_alt)
  then show ?thesis by (simp add: unat_sub)
qed

lemma dsf_uint64_add_overflow_eq:
  "dsf_uint64_add_overflow a b =
     (if unat a + unat b < 2 ^ 64 then Some (a + b) else None)"
  using u64_bound [of a] u64_bound [of b]
  by (auto simp: dsf_uint64_add_overflow_def word_less_nat_alt unat_UINT64_MAX_minus)

lemma dsf_uint64_add_overflow_Some:
  "dsf_uint64_add_overflow a b = Some c \<longleftrightarrow>
     unat a + unat b < 2 ^ 64 \<and> c = a + b \<and> unat c = unat a + unat b"
  by (auto simp: dsf_uint64_add_overflow_eq unat_word_ariths)

lemma dsf_uint64_mul_overflow_eq:
  "dsf_uint64_mul_overflow a b =
     (if unat a * unat b < 2 ^ 64 then Some (a * b) else None)"
proof (cases "a = 0")
  case True
  then show ?thesis by (simp add: dsf_uint64_mul_overflow_def)
next
  case False
  then have pos: "0 < unat a" by (simp add: unat_gt_0)
  have "UINT64_MAX div a < b \<longleftrightarrow> 18446744073709551615 div unat a < unat b"
    by (simp add: word_less_nat_alt unat_div)
  also have "\<dots> \<longleftrightarrow> 18446744073709551615 < unat a * unat b"
    using pos by (simp add: div_less_iff_less_mult mult.commute)
  finally show ?thesis
    using False by (auto simp: dsf_uint64_mul_overflow_def)
qed

lemma dsf_uint64_mul_overflow_Some:
  "dsf_uint64_mul_overflow a b = Some c \<longleftrightarrow>
     unat a * unat b < 2 ^ 64 \<and> c = a * b \<and> unat c = unat a * unat b"
  by (auto simp: dsf_uint64_mul_overflow_eq unat_word_ariths)

lemma dsf_uint64_sub_underflow_Some:
  "dsf_uint64_sub_underflow a b = Some c \<longleftrightarrow>
     unat b \<le> unat a \<and> c = a - b \<and> unat c = unat a - unat b"
  by (auto simp: dsf_uint64_sub_underflow_def word_less_nat_alt unat_sub word_le_nat_alt)

lemma dsf_uint64_to_sizet_Some [simp]: "dsf_uint64_to_sizet v = Some (unat v)"
  using u64_bound [of v] by (simp add: dsf_uint64_to_sizet_def word_less_nat_alt)

text \<open>The audio size of \<open>samples\<close> samples: whole blocks of every channel for 1-bit audio, and 0 for
  a size that does not fit 64 bits.\<close>

lemma calc_size_dsd:
  "unat (dsf_calculate_audio_data_size chans samples 1) =
     (let n = ((unat samples + 7) div 8 + 4095) div 4096 * 4096 * unat chans in
      if unat samples + 7 < 2 ^ 64 \<and> n < 2 ^ 64 then n else 0)"
proof (cases "unat samples + 7 < 2 ^ 64")
  case False
  then have "UINT64_MAX - 7 < samples" by (simp add: word_less_nat_alt)
  then show ?thesis using False by (simp add: dsf_calculate_audio_data_size_def)
next
  case True
  let ?n = "unat samples"
  define bytes :: u64 where "bytes = (samples + 8 - 1) div 8"
  define blocks :: u64 where "blocks = (bytes + of_nat DSF_BLOCK_SIZE_PER_CHANNEL - 1) div of_nat DSF_BLOCK_SIZE_PER_CHANNEL"
  have "samples + 8 - 1 = samples + 7" by simp
  then have b: "unat bytes = (?n + 7) div 8"
    using True unfolding bytes_def by (simp add: unat_div unat_word_ariths)
  have lt: "(?n + 7) div 8 < 2 ^ 61" using True by simp
  have "bytes + of_nat DSF_BLOCK_SIZE_PER_CHANNEL - 1 = bytes + 4095" by (simp add: DSF_BLOCK_SIZE_PER_CHANNEL_def)
  then have bl: "unat blocks = ((?n + 7) div 8 + 4095) div 4096"
    using lt unfolding blocks_def by (simp add: unat_div unat_word_ariths b DSF_BLOCK_SIZE_PER_CHANNEL_def)
  have small: "((?n + 7) div 8 + 4095) div 4096 * 4096 < 2 ^ 64" using lt by simp
  have m1: "dsf_uint64_mul_overflow blocks (of_nat DSF_BLOCK_SIZE_PER_CHANNEL) = Some (blocks * of_nat DSF_BLOCK_SIZE_PER_CHANNEL)"
    and ub: "unat (blocks * of_nat DSF_BLOCK_SIZE_PER_CHANNEL) = ((?n + 7) div 8 + 4095) div 4096 * 4096"
    using small by (simp_all add: dsf_uint64_mul_overflow_eq bl DSF_BLOCK_SIZE_PER_CHANNEL_def unat_word_ariths)
  have g1: "\<not> UINT64_MAX - 7 < samples" using True by (simp add: word_less_nat_alt)
  have g2: "\<not> UINT64_MAX - of_nat DSF_BLOCK_SIZE_PER_CHANNEL + 1 < bytes"
    using lt by (simp add: word_less_nat_alt b DSF_BLOCK_SIZE_PER_CHANNEL_def)
  have "dsf_calculate_audio_data_size chans samples 1 =
      (case dsf_uint64_mul_overflow (blocks * of_nat DSF_BLOCK_SIZE_PER_CHANNEL) (ucast chans) of None \<Rightarrow> 0 | Some t \<Rightarrow> t)"
    unfolding dsf_calculate_audio_data_size_def Let_def bytes_def [symmetric] blocks_def [symmetric]
    by (simp only: g1 g2 m1 if_False if_True option.case simp_thms)
  then show ?thesis
    using True ub
    by (simp add: Let_def dsf_uint64_mul_overflow_eq unat_ucast_u64 unat_word_ariths)
qed

lemma calc_size_bytes:
  assumes "bits \<noteq> 1"
  shows "unat (dsf_calculate_audio_data_size chans samples bits) =
     (if unat samples * unat chans < 2 ^ 64 then unat samples * unat chans else 0)"
  using assms
  by (simp add: dsf_calculate_audio_data_size_def dsf_uint64_mul_overflow_eq unat_ucast_u64
      unat_word_ariths)
end
