(* ===== verification/Byte_Stream.thy ===== *)
theory Byte_Stream
  imports C_Stdio
begin

text \<open>
  The interface between a container library's chunk code and its I/O layer. A stream has
  contents and a position; \<open>put s d p\<close> is \<open>s\<close> with contents \<open>d\<close> and position \<open>p\<close> and nothing else
  changed. The laws say what a read, a write, a seek and a position query do on an open stream
  when the bytes are there, respectively when there is room. The lemmas proved from them carry
  the proofs of the chunk code: consecutive writes store the concatenation, consecutive reads
  take it apart, and the save--seek--write--restore idiom patches a field in place.
\<close>

definition bytes_at :: "nat \<Rightarrow> nat \<Rightarrow> byte list \<Rightarrow> byte list" where
  "bytes_at p n d = take n (drop p d)"

lemma length_bytes_at: "p + n \<le> length d \<Longrightarrow> length (bytes_at p n d) = n"
  by (simp add: bytes_at_def)

lemma bytes_at_append_left: "p + n \<le> length d \<Longrightarrow> bytes_at p n (d @ e) = bytes_at p n d"
  by (simp add: bytes_at_def)

lemma bytes_at_append_right: "bytes_at (length d + p) n (d @ e) = bytes_at p n e"
  by (simp add: bytes_at_def)

lemma bytes_at_0: "bytes_at 0 n d = take n d"
  by (simp add: bytes_at_def)

lemma bytes_at_split: "bytes_at p (m + n) d = bytes_at p m d @ bytes_at (p + m) n d"
  by (simp add: bytes_at_def take_add drop_drop add.commute)

lemma bytes_at_patch_same: "p \<le> length d \<Longrightarrow> length bs = n \<Longrightarrow> bytes_at p n (patch d p bs) = bs"
  by (auto simp: bytes_at_def read_patch_same)

lemma bytes_at_patch_disjoint:
  "p \<le> length d \<Longrightarrow> q + n \<le> p \<or> p + length bs \<le> q \<Longrightarrow>
     bytes_at q n (patch d p bs) = bytes_at q n d"
  by (auto simp: bytes_at_def bytes_at_patch_below bytes_at_patch_above)

text \<open>The idiom of the header updates: remember the position, go to the field, write it, return;
  when the write fails, return to the position all the same and report the failure.\<close>

definition patch_field ::
  "('s, 'e, 'p) op \<Rightarrow> ('s, 'e, 'q) op \<Rightarrow> ('s, 'e, unit) op \<Rightarrow> ('p \<Rightarrow> ('s, 'e, 'q) op) \<Rightarrow>
   ('s, 'e, unit) op" where
  "patch_field tell goto wr restore =
     seq tell (\<lambda>saved. seq goto (\<lambda>_. seq (on_err wr (ignore (restore saved))) (\<lambda>_.
       seq (restore saved) (\<lambda>_. ret ()))))"

locale byte_stream =
  fixes is_open :: "'s \<Rightarrow> bool"
    and contents :: "'s \<Rightarrow> byte list"
    and position :: "'s \<Rightarrow> nat"
    and put :: "'s \<Rightarrow> byte list \<Rightarrow> nat \<Rightarrow> 's"
    and can_read :: "'s \<Rightarrow> bool"
    and can_write :: "'s \<Rightarrow> nat \<Rightarrow> bool"
    and rd :: "nat \<Rightarrow> ('s, 'e, byte list) op"
    and wr :: "byte list \<Rightarrow> ('s, 'e, unit) op"
    and seek_to :: "nat \<Rightarrow> ('s, 'e, 'q) op"
    and tell :: "('s, 'e, u64) op"
    and read_error :: 'e
    and write_error :: 'e
  assumes at_open: "is_open (put s d p) = is_open s"
    and at_contents: "is_open s \<Longrightarrow> contents (put s d p) = d"
    and at_position: "is_open s \<Longrightarrow> position (put s d p) = p"
    and at_can_read: "can_read (put s d p) = can_read s"
    and at_can_write: "can_write (put s d p) n = can_write s n"
    and at_at: "put (put s d p) d' p' = put s d' p'"
    and at_id: "is_open s \<Longrightarrow> put s (contents s) (position s) = s"
    and can_write_mono: "can_write s n \<Longrightarrow> m \<le> n \<Longrightarrow> can_write s m"
    and rd_ok: "is_open s \<Longrightarrow> can_read s \<Longrightarrow> position s + n \<le> length (contents s) \<Longrightarrow>
      rd n s = (Ok (bytes_at (position s) n (contents s)), put s (contents s) (position s + n))"
    and rd_short: "is_open s \<Longrightarrow> can_read s \<Longrightarrow> length (contents s) < position s + n \<Longrightarrow> 0 < n \<Longrightarrow>
      rd n s = (Err read_error, put s (contents s) (max (position s) (length (contents s))))"
    and wr_ok: "is_open s \<Longrightarrow> can_write s (position s + length bs) \<Longrightarrow>
      wr bs s = (Ok (), put s (patch (contents s) (position s) bs) (position s + length bs))"
    and wr_full: "is_open s \<Longrightarrow> \<not> can_write s (position s + length bs) \<Longrightarrow> bs \<noteq> [] \<Longrightarrow>
      \<exists>k < length bs. wr bs s =
        (Err write_error, put s (patch (contents s) (position s) (take k bs)) (position s + k))"
    and seek_ok: "is_open s \<Longrightarrow> int p \<le> INT64_MAX \<Longrightarrow>
      \<exists>q. seek_to p s = (Ok q, put s (contents s) p)"
    and tell_ok: "is_open s \<Longrightarrow> int (position s) \<le> INT64_MAX \<Longrightarrow>
      tell s = (Ok (of_nat (position s)), s)"
begin

text \<open>One field after another: the bytes end up side by side.\<close>

lemma wr_wr:
  assumes "is_open s" "can_write s (position s + length xs + length ys)"
  shows "seq (wr xs) (\<lambda>_. wr ys) s = wr (xs @ ys) s"
proof -
  have "can_write s (position s + length xs)"
    using assms(2) by (rule can_write_mono) simp
  then show ?thesis
    using assms
    by (simp add: wr_ok at_open at_can_write at_contents at_position at_at
        patch_patch_append add.assoc)
qed

lemma wr_seq:
  assumes "is_open s" "can_write s (position s + length xs)"
  shows "seq (wr xs) k s =
    k () (put s (patch (contents s) (position s) xs) (position s + length xs))"
  using assms by (simp add: wr_ok)

lemma rd_after_at:
  assumes "is_open s" "can_read s" "p + n \<le> length d"
  shows "rd n (put s d p) = (Ok (bytes_at p n d), put s d (p + n))"
  using assms by (simp add: rd_ok at_open at_can_read at_contents at_position at_at)

lemma rd_short_at:
  assumes "is_open s" "can_read s" "length d < p + n" "0 < n"
  shows "rd n (put s d p) = (Err read_error, put s d (max p (length d)))"
  using assms by (simp add: rd_short at_open at_can_read at_contents at_position at_at)

lemma wr_after_at:
  assumes "is_open s" "can_write s (p + length bs)"
  shows "wr bs (put s d p) = (Ok (), put s (patch d p bs) (p + length bs))"
  using assms by (simp add: wr_ok at_open at_can_write at_contents at_position at_at)

lemma tell_at:
  assumes "is_open s" "int p \<le> INT64_MAX"
  shows "tell (put s d p) = (Ok (of_nat p), put s d p)"
  using assms by (simp add: tell_ok at_open at_position)

lemma seek_after_at:
  assumes "is_open s" "int q \<le> INT64_MAX"
  shows "\<exists>r. seek_to q (put s d p) = (Ok r, put s d q)"
  using seek_ok [of "put s d p" q] assms by (simp add: at_open at_contents at_at)

text \<open>Patching a field keeps the position and changes the field's bytes only.\<close>

lemma patch_field_ok:
  assumes "is_open s" "can_write s (off + length bs)"
    and "int (position s) \<le> INT64_MAX" "int off \<le> INT64_MAX"
    and restore: "restore (of_nat (position s)) = seek_to (position s)"
  shows "patch_field tell (seek_to off) (wr bs) restore s =
    (Ok (), put s (patch (contents s) off bs) (position s))"
proof -
  obtain q where q: "seek_to off s = (Ok q, put s (contents s) off)"
    using seek_ok assms by blast
  obtain r where r: "seek_to (position s) (put s (patch (contents s) off bs) (off + length bs)) =
      (Ok r, put s (patch (contents s) off bs) (position s))"
    using seek_after_at assms by blast
  have w: "on_err (wr bs) c (put s (contents s) off) =
      (Ok (), put s (patch (contents s) off bs) (off + length bs))" for c
    using assms by (simp add: on_err_def wr_after_at)
  show ?thesis
    using assms(1,3) by (simp add: patch_field_def tell_ok q w r restore)
qed

text \<open>When the device refuses the write, the error is reported and the position is restored.\<close>

lemma patch_field_full:
  assumes "is_open s" "\<not> can_write s (off + length bs)" "bs \<noteq> []"
    and "int (position s) \<le> INT64_MAX" "int off \<le> INT64_MAX"
    and restore: "restore (of_nat (position s)) = seek_to (position s)"
  shows "\<exists>k < length bs. patch_field tell (seek_to off) (wr bs) restore s =
    (Err write_error, put s (patch (contents s) off (take k bs)) (position s))"
proof -
  obtain q where q: "seek_to off s = (Ok q, put s (contents s) off)"
    using seek_ok assms by blast
  obtain k where k: "k < length bs" and w: "wr bs (put s (contents s) off) =
      (Err write_error, put s (patch (contents s) off (take k bs)) (off + k))"
    using wr_full [of "put s (contents s) off" bs] assms
    by (auto simp: at_open at_can_write at_contents at_position at_at)
  obtain r where r: "seek_to (position s) (put s (patch (contents s) off (take k bs)) (off + k)) =
      (Ok r, put s (patch (contents s) off (take k bs)) (position s))"
    using seek_after_at assms by blast
  have "on_err (wr bs) (ignore (seek_to (position s))) (put s (contents s) off) =
      (Err write_error, put s (patch (contents s) off (take k bs)) (position s))"
    by (simp add: on_err_def ignore_def w r)
  then show ?thesis
    using assms(1,4) k by (auto simp: patch_field_def tell_ok q restore)
qed

lemmas stream_simps = rd_after_at rd_short_at wr_after_at tell_at at_open at_contents
  at_position at_can_read at_can_write at_at

end

end
