(* ===== verification/Dsf_Io.thy ===== *)
theory Dsf_Io
  imports Dsf_Types Byte_Stream Sa_Util
begin

text \<open>
  \<^verbatim>\<open>libdsf/src/dsf_io.c\<close>: the I/O handle and its operations, over the streams of
  \<open>C_Stdio\<close>. A \<^verbatim>\<open>dsf_io_t *\<close> is a \<open>dsf_io option\<close>, with \<open>None\<close> for NULL. Output pointers
  are the results of an operation, so a test of such a pointer against NULL has no counterpart;
  where NULL means that a result is not wanted (\<^verbatim>\<open>new_pos\<close> of \<^verbatim>\<open>dsf_io_seek\<close>) the
  operation takes a flag.
\<close>

section \<open>The I/O handle\<close>

record dsf_io =
  io_file :: "cfile option"
  io_filename :: string
  io_mode :: dsf_file_mode

type_synonym 'a io_op = "(dsf_io option, dsf_error, 'a) op"

text \<open>\<^verbatim>\<open>if (!io || !io->file) return DSF_ERROR_INVALID_PARAMETER;\<close>, then a body on the stream.\<close>

definition on_file :: "(cfile, dsf_error, 'a) op \<Rightarrow> 'a io_op" where
  "on_file m = nonnull DSF_ERROR_INVALID_PARAMETER (\<lambda>io.
     case io_file io of
       None \<Rightarrow> (Err DSF_ERROR_INVALID_PARAMETER, io)
     | Some f \<Rightarrow> (case m f of (r, f') \<Rightarrow> (r, io\<lparr>io_file := Some f'\<rparr>)))"

section \<open>File operations\<close>

definition io_open :: "open_mode \<Rightarrow> dsf_file_mode \<Rightarrow> string option \<Rightarrow> (disk, dsf_error, dsf_io) op" where
  "io_open om m filename = (\<lambda>d. case filename of
       None \<Rightarrow> (Err DSF_ERROR_INVALID_PARAMETER, d)
     | Some name \<Rightarrow> (case fopen name om d of
         (None, d') \<Rightarrow> (Err DSF_ERROR_GENERIC, d')
       | (Some f, d') \<Rightarrow> (Ok \<lparr>io_file = Some f, io_filename = sa_strlcpy name DSF_MAX_STR_SIZE,
                             io_mode = m\<rparr>, d')))"

definition dsf_io_open_write :: "string option \<Rightarrow> (disk, dsf_error, dsf_io) op" where
  "dsf_io_open_write = io_open WB DSF_FILE_MODE_WRITE"

definition dsf_io_open_read :: "string option \<Rightarrow> (disk, dsf_error, dsf_io) op" where
  "dsf_io_open_read = io_open RB DSF_FILE_MODE_READ"

definition dsf_io_open_modify :: "string option \<Rightarrow> (disk, dsf_error, dsf_io) op" where
  "dsf_io_open_modify = io_open RplusB DSF_FILE_MODE_MODIFY"

text \<open>Closing truncates the file to the current position in the WRITE and MODIFY modes.\<close>

definition dsf_io_close :: "(dsf_io option \<times> disk, dsf_error, unit) op" where
  "dsf_io_close = (\<lambda>(io, d). case io of
       None \<Rightarrow> (Err DSF_ERROR_INVALID_PARAMETER, (None, d))
     | Some x \<Rightarrow>
         (if io_mode x = DSF_FILE_MODE_WRITE \<or> io_mode x = DSF_FILE_MODE_MODIFY then
            (case io_file x of
               None \<Rightarrow> (Ok (), (Some x, d))
             | Some f \<Rightarrow>
                 (if ftell f < 0 then (Err DSF_ERROR_GENERIC, (Some x, fclose f d))
                  else (case ftruncate (ftell f) f of
                      (False, f') \<Rightarrow> (Err DSF_ERROR_GENERIC, (Some x, fclose f' d))
                    | (True, f') \<Rightarrow> (Ok (), (Some (x\<lparr>io_file := None\<rparr>), fclose f' d)))))
          else (case io_file x of
               None \<Rightarrow> (Ok (), (Some x, d))
             | Some f \<Rightarrow> (Ok (), (Some x, fclose f d)))))"

definition dsf_io_remove_file :: "(dsf_io option \<times> disk, dsf_error, unit) op" where
  "dsf_io_remove_file = (\<lambda>(io, d). case io of
       None \<Rightarrow> (Err DSF_ERROR_INVALID_PARAMETER, (None, d))
     | Some x \<Rightarrow>
         (let filename = sa_strlcpy (io_filename x) DSF_MAX_STR_SIZE in
          case dsf_io_close (io, d) of
            (Ok _, (io', d')) \<Rightarrow>
              (case remove_path filename d' of
                 (True, d'') \<Rightarrow> (Ok (), (io', d''))
               | (False, d'') \<Rightarrow> (Err DSF_ERROR_GENERIC, (io', d'')))
          | r \<Rightarrow> r))"

definition dsf_io_get_filename :: "nat \<Rightarrow> string io_op" where
  "dsf_io_get_filename buffer_size = nonnull DSF_ERROR_INVALID_PARAMETER (\<lambda>io.
     if buffer_size = 0 then (Err DSF_ERROR_INVALID_PARAMETER, io)
     else (Ok (sa_strlcpy (io_filename io) buffer_size), io))"

definition dsf_io_is_file_open :: "bool io_op" where
  "dsf_io_is_file_open = nonnull DSF_ERROR_INVALID_PARAMETER (\<lambda>io. (Ok (io_file io \<noteq> None), io))"

section \<open>Position operations\<close>

definition dsf_io_seek :: "int \<Rightarrow> seek_origin \<Rightarrow> bool \<Rightarrow> u64 option io_op" where
  "dsf_io_seek offset origin want_pos = on_file (\<lambda>f.
     case fseek offset origin f of
       (False, f') \<Rightarrow> (Err DSF_ERROR_GENERIC, f')
     | (True, f') \<Rightarrow>
         (if want_pos then
            (if ftell f' < 0 then (Err DSF_ERROR_GENERIC, f')
             else (Ok (Some (of_int (ftell f'))), f'))
          else (Ok None, f')))"

definition dsf_io_get_position :: "u64 io_op" where
  "dsf_io_get_position = on_file (\<lambda>f.
     if ftell f < 0 then (Err DSF_ERROR_GENERIC, f) else (Ok (of_int (ftell f)), f))"

definition dsf_io_set_position :: "u64 \<Rightarrow> unit io_op" where
  "dsf_io_set_position pos = on_file (\<lambda>f.
     case fseek (sint pos) SEEK_SET f of
       (False, f') \<Rightarrow> (Err DSF_ERROR_GENERIC, f')
     | (True, f') \<Rightarrow> (Ok (), f'))"

definition dsf_io_get_file_size :: "u64 io_op" where
  "dsf_io_get_file_size = on_file (\<lambda>f. (Ok (fstat_size f), f))"

definition dsf_io_claim_extra_size :: "u64 \<Rightarrow> unit io_op" where
  "dsf_io_claim_extra_size extra_bytes = on_file (\<lambda>f.
     if ftell f < 0 then (Err DSF_ERROR_GENERIC, f)
     else (case ftruncate (sint (fstat_size f + extra_bytes)) f of
         (False, f') \<Rightarrow> (Err DSF_ERROR_GENERIC, f')
       | (True, f') \<Rightarrow> (case fseek (ftell f) SEEK_SET f' of
             (False, f'') \<Rightarrow> (Err DSF_ERROR_GENERIC, f'')
           | (True, f'') \<Rightarrow> (Ok (), f''))))"

section \<open>Bytes and integers\<close>

definition dsf_io_read_bytes :: "nat \<Rightarrow> byte list io_op" where
  "dsf_io_read_bytes num_bytes = on_file (\<lambda>f. case fread num_bytes f of
     (bs, f') \<Rightarrow> (if length bs \<noteq> num_bytes then (Err DSF_ERROR_READ, f') else (Ok bs, f')))"

text \<open>The result is the number of bytes written.\<close>

definition dsf_io_write_bytes :: "byte list \<Rightarrow> nat io_op" where
  "dsf_io_write_bytes buffer = on_file (\<lambda>f. case fwrite buffer f of
     (k, f') \<Rightarrow> (if k \<noteq> length buffer then (Err DSF_ERROR_WRITE, f') else (Ok k, f')))"

text \<open>An integer field is read or written by one call of \<^verbatim>\<open>fread\<close> or \<^verbatim>\<open>fwrite\<close> on its
  bytes; \<^verbatim>\<open>sa_le2ne\<close> makes them little-endian on every host.\<close>

definition io_read_le :: "nat \<Rightarrow> nat io_op" where
  "io_read_le n = on_file (\<lambda>f. case fread n f of
     (bs, f') \<Rightarrow> (if length bs \<noteq> n then (Err DSF_ERROR_READ, f') else (Ok (le_dec bs), f')))"

definition io_write_le :: "nat \<Rightarrow> nat \<Rightarrow> unit io_op" where
  "io_write_le n v = on_file (\<lambda>f. case fwrite (le_enc n v) f of
     (k, f') \<Rightarrow> (if k \<noteq> n then (Err DSF_ERROR_WRITE, f') else (Ok (), f')))"

definition dsf_io_read_uint8 :: "byte io_op" where
  "dsf_io_read_uint8 = seq (io_read_le 1) (\<lambda>v. ret (of_nat v))"

definition dsf_io_write_uint8 :: "byte \<Rightarrow> unit io_op" where
  "dsf_io_write_uint8 v = io_write_le 1 (unat v)"

definition dsf_io_read_uint16_le :: "u16 io_op" where
  "dsf_io_read_uint16_le = seq (io_read_le 2) (\<lambda>v. ret (of_nat v))"

definition dsf_io_write_uint16_le :: "u16 \<Rightarrow> unit io_op" where
  "dsf_io_write_uint16_le v = io_write_le 2 (unat v)"

definition dsf_io_read_uint32_le :: "u32 io_op" where
  "dsf_io_read_uint32_le = seq (io_read_le 4) (\<lambda>v. ret (of_nat v))"

definition dsf_io_write_uint32_le :: "u32 \<Rightarrow> unit io_op" where
  "dsf_io_write_uint32_le v = io_write_le 4 (unat v)"

definition dsf_io_read_int32_le :: "int io_op" where
  "dsf_io_read_int32_le = seq (io_read_le 4) (\<lambda>v. ret (sint (of_nat v :: u32)))"

definition dsf_io_write_int32_le :: "int \<Rightarrow> unit io_op" where
  "dsf_io_write_int32_le v = io_write_le 4 (unat (of_int v :: u32))"

definition dsf_io_read_uint64_le :: "u64 io_op" where
  "dsf_io_read_uint64_le = seq (io_read_le 8) (\<lambda>v. ret (of_nat v))"

definition dsf_io_write_uint64_le :: "u64 \<Rightarrow> unit io_op" where
  "dsf_io_write_uint64_le v = io_write_le 8 (unat v)"

definition dsf_io_read_chunk_id :: "u32 io_op" where
  "dsf_io_read_chunk_id = nonnull DSF_ERROR_INVALID_PARAMETER (\<lambda>io.
     case dsf_io_read_uint32_le (Some io) of (r, io') \<Rightarrow> (r, the io'))"

definition dsf_io_write_chunk_id :: "u32 \<Rightarrow> unit io_op" where
  "dsf_io_write_chunk_id chunk_id = nonnull DSF_ERROR_INVALID_PARAMETER (\<lambda>io.
     case dsf_io_write_uint32_le chunk_id (Some io) of (r, io') \<Rightarrow> (r, the io'))"

section \<open>The byte-stream interface on DSF handles\<close>

definition io_contents :: "dsf_io option \<Rightarrow> byte list" where
  "io_contents s = (case s of Some io \<Rightarrow> (case io_file io of Some f \<Rightarrow> fdata f | None \<Rightarrow> [])
     | None \<Rightarrow> [])"

definition io_position :: "dsf_io option \<Rightarrow> nat" where
  "io_position s = (case s of Some io \<Rightarrow> (case io_file io of Some f \<Rightarrow> fpos f | None \<Rightarrow> 0)
     | None \<Rightarrow> 0)"

definition io_put :: "dsf_io option \<Rightarrow> byte list \<Rightarrow> nat \<Rightarrow> dsf_io option" where
  "io_put s d p = map_option (\<lambda>io. io\<lparr>io_file :=
     map_option (\<lambda>f. f\<lparr>fdata := d, fpos := p\<rparr>) (io_file io)\<rparr>) s"

definition io_is_open :: "dsf_io option \<Rightarrow> bool" where
  "io_is_open s \<longleftrightarrow> (\<exists>io f. s = Some io \<and> io_file io = Some f)"

definition io_can_read :: "dsf_io option \<Rightarrow> bool" where
  "io_can_read s \<longleftrightarrow> (\<forall>io f. s = Some io \<longrightarrow> io_file io = Some f \<longrightarrow> freadable f)"

definition io_can_write :: "dsf_io option \<Rightarrow> nat \<Rightarrow> bool" where
  "io_can_write s n \<longleftrightarrow>
     (\<forall>io f. s = Some io \<longrightarrow> io_file io = Some f \<longrightarrow> fwritable f \<and> n \<le> fcap f)"

text \<open>The reads and writes of the interface: a field of \<open>n\<close> bytes, as the integer operations
  move it.\<close>

definition io_rd :: "nat \<Rightarrow> byte list io_op" where
  "io_rd n = dsf_io_read_bytes n"

definition io_wr :: "byte list \<Rightarrow> unit io_op" where
  "io_wr bs = seq (dsf_io_write_bytes bs) (\<lambda>_. ret ())"

lemmas io_view_defs = io_contents_def io_position_def io_put_def io_is_open_def
  io_can_read_def io_can_write_def

lemma io_rd_eq:
  "io_rd n (Some io) = (case io_file io of None \<Rightarrow> (Err DSF_ERROR_INVALID_PARAMETER, Some io)
     | Some f \<Rightarrow> (case fread n f of (bs, f') \<Rightarrow>
         ((if length bs \<noteq> n then Err DSF_ERROR_READ else Ok bs),
          Some (io\<lparr>io_file := Some f'\<rparr>))))"
  by (simp add: io_rd_def dsf_io_read_bytes_def on_file_def split: option.split prod.split)

lemma io_wr_eq:
  "io_wr bs (Some io) = (case io_file io of None \<Rightarrow> (Err DSF_ERROR_INVALID_PARAMETER, Some io)
     | Some f \<Rightarrow> (case fwrite bs f of (k, f') \<Rightarrow>
         ((if k \<noteq> length bs then Err DSF_ERROR_WRITE else Ok ()),
          Some (io\<lparr>io_file := Some f'\<rparr>))))"
  by (simp add: io_wr_def dsf_io_write_bytes_def on_file_def seq_def split: option.split prod.split)

interpretation dsf_stream: byte_stream io_is_open io_contents io_position io_put io_can_read
  io_can_write io_rd io_wr "\<lambda>p. dsf_io_seek (int p) SEEK_SET True" dsf_io_get_position
  DSF_ERROR_READ DSF_ERROR_WRITE
proof (unfold_locales, goal_cases)
  case (6 s d p d' p')
  then show ?case
    by (cases s) (auto simp: io_put_def option.map_comp comp_def)
next
  case (9 s n)
  then show ?case
    by (auto simp: io_view_defs io_rd_eq fread_def bytes_at_def Let_def)
next
  case (10 s n)
  then show ?case
    by (auto simp: io_view_defs io_rd_eq fread_def Let_def max_def)
next
  case (11 s bs)
  then show ?case
    by (auto simp: io_view_defs io_wr_eq fwrite_def Let_def)
next
  case (12 s bs)
  then obtain io f where s: "s = Some io" "io_file io = Some f"
    and no: "\<not> (fwritable f \<and> fpos f + length bs \<le> fcap f)"
    by (auto simp: io_view_defs)
  let ?k = "if fwritable f then fcap f - fpos f else 0"
  have "?k < length bs" using no 12(3) by (auto simp flip: length_greater_0_conv)
  moreover have "io_wr bs s = (Err DSF_ERROR_WRITE,
      io_put s (patch (io_contents s) (io_position s) (take ?k bs)) (io_position s + ?k))"
    using s \<open>?k < length bs\<close> by (auto simp: io_wr_eq io_view_defs fwrite_def Let_def)
  ultimately show ?case by blast
qed (auto simp: io_view_defs dsf_io_seek_def dsf_io_get_position_def on_file_def fseek_def ftell_def
      split: option.splits)

section \<open>Integer fields through the interface\<close>

lemma io_read_le_eq: "io_read_le n = seq (io_rd n) (\<lambda>bs. ret (le_dec bs))"
  by (rule ext) (auto simp: io_read_le_def io_rd_def dsf_io_read_bytes_def on_file_def seq_def
      nonnull_def split: option.split prod.split)

lemma io_write_le_eq: "io_write_le n v = io_wr (le_enc n v)"
  by (rule ext) (auto simp: io_write_le_def io_wr_def dsf_io_write_bytes_def on_file_def seq_def
      nonnull_def split: option.split prod.split)

named_theorems dsf_io_fields \<open>integer reads and writes as byte reads and writes\<close>

lemma dsf_io_read_uint32_le_eq [dsf_io_fields]:
  "dsf_io_read_uint32_le = seq (io_rd 4) (\<lambda>bs. ret (of_nat (le_dec bs)))"
  by (simp only: dsf_io_read_uint32_le_def io_read_le_eq seq_assoc seq_ret)

lemma dsf_io_read_uint64_le_eq [dsf_io_fields]:
  "dsf_io_read_uint64_le = seq (io_rd 8) (\<lambda>bs. ret (of_nat (le_dec bs)))"
  by (simp only: dsf_io_read_uint64_le_def io_read_le_eq seq_assoc seq_ret)

lemma dsf_io_write_uint32_le_eq [dsf_io_fields]:
  "dsf_io_write_uint32_le v = io_wr (le_enc 4 (unat v))"
  by (simp add: dsf_io_write_uint32_le_def io_write_le_eq)

lemma dsf_io_write_uint64_le_eq [dsf_io_fields]:
  "dsf_io_write_uint64_le v = io_wr (le_enc 8 (unat v))"
  by (simp add: dsf_io_write_uint64_le_def io_write_le_eq)

lemma dsf_io_write_bytes_eq:
  assumes "io_is_open s" "io_can_write s (io_position s + length bs)"
  shows "dsf_io_write_bytes bs s = (Ok (length bs),
    io_put s (patch (io_contents s) (io_position s) bs) (io_position s + length bs))"
  using assms by (auto simp: io_view_defs dsf_io_write_bytes_def on_file_def fwrite_def Let_def)

lemma dsf_io_read_bytes_eq: "dsf_io_read_bytes n = io_rd n"
  by (simp add: io_rd_def)

end
