(* ===== verification/Dsf_Chunks.thy ===== *)
theory Dsf_Chunks
  imports Dsf_Io
begin

text \<open>
  \<^verbatim>\<open>libdsf/src/dsf_chunks.c\<close>: reading, writing and patching the DSD, fmt and data
  chunks and the metadata block, and the whole-file validation. A chunk handle is the I/O handle.
\<close>

section \<open>Chunk file operations\<close>

text \<open>\<^verbatim>\<open>if (!chunk) return DSF_ERROR_INVALID_PARAMETER;\<close>\<close>

definition on_chunk :: "'a io_op \<Rightarrow> 'a io_op" where
  "on_chunk m = (\<lambda>s. if s = None then (Err DSF_ERROR_INVALID_PARAMETER, s) else m s)"

definition dsf_chunk_file_close :: "(dsf_io option \<times> disk, dsf_error, unit) op" where
  "dsf_chunk_file_close = (\<lambda>(chunk, d). case chunk of
       None \<Rightarrow> (Err DSF_ERROR_INVALID_PARAMETER, (None, d))
     | Some x \<Rightarrow> (case dsf_io_close (chunk, d) of (r, (_, d')) \<Rightarrow> (r, (None, d'))))"

definition dsf_chunk_file_get_position :: "u64 io_op" where
  "dsf_chunk_file_get_position = on_chunk dsf_io_get_position"

definition chunk_file_open ::
  "heap \<Rightarrow> (string option \<Rightarrow> (disk, dsf_error, dsf_io) op) \<Rightarrow> string option \<Rightarrow>
   (disk, dsf_error, dsf_io) op" where
  "chunk_file_open hp opn filename = (\<lambda>d. case filename of
       None \<Rightarrow> (Err DSF_ERROR_INVALID_PARAMETER, d)
     | Some _ \<Rightarrow> if \<not> sa_malloc hp 4112 then (Err DSF_ERROR_OUT_OF_MEMORY, d)
                 else opn filename d)"

definition dsf_chunk_file_open_modify :: "heap \<Rightarrow> string option \<Rightarrow> (disk, dsf_error, dsf_io) op" where
  "dsf_chunk_file_open_modify hp = chunk_file_open hp dsf_io_open_modify"

definition dsf_chunk_file_open_read :: "heap \<Rightarrow> string option \<Rightarrow> (disk, dsf_error, dsf_io) op" where
  "dsf_chunk_file_open_read hp = chunk_file_open hp dsf_io_open_read"

definition dsf_chunk_file_open_write :: "heap \<Rightarrow> string option \<Rightarrow> (disk, dsf_error, dsf_io) op" where
  "dsf_chunk_file_open_write hp = chunk_file_open hp dsf_io_open_write"

definition dsf_chunk_file_read_bytes :: "nat \<Rightarrow> byte list io_op" where
  "dsf_chunk_file_read_bytes num_bytes = on_chunk (dsf_io_read_bytes num_bytes)"

definition dsf_chunk_file_seek :: "int \<Rightarrow> seek_origin \<Rightarrow> bool \<Rightarrow> u64 option io_op" where
  "dsf_chunk_file_seek offset origin want_pos = on_chunk (dsf_io_seek offset origin want_pos)"

definition dsf_chunk_file_write_bytes :: "byte list \<Rightarrow> nat io_op" where
  "dsf_chunk_file_write_bytes buffer = on_chunk (dsf_io_write_bytes buffer)"

definition dsf_chunk_file_get_size :: "u64 io_op" where
  "dsf_chunk_file_get_size = on_chunk dsf_io_get_file_size"

definition dsf_chunk_file_get_filename :: "nat \<Rightarrow> string io_op" where
  "dsf_chunk_file_get_filename buffer_size = on_chunk (dsf_io_get_filename buffer_size)"

section \<open>DSD chunk\<close>

text \<open>The results are the total file size and the metadata offset.\<close>

definition dsf_chunk_read_dsd_header :: "(u64 \<times> u64) io_op" where
  "dsf_chunk_read_dsd_header = on_chunk (
     seq dsf_io_read_uint32_le (\<lambda>chunk_id.
     seq (ensure (chunk_id = DSF_DSD_CHUNK_ID) DSF_ERROR_INVALID_DSF) (\<lambda>_.
     seq dsf_io_read_uint64_le (\<lambda>chunk_size.
     seq (ensure (chunk_size = DSF_DSD_CHUNK_SIZE) DSF_ERROR_INVALID_CHUNK) (\<lambda>_.
     seq dsf_io_read_uint64_le (\<lambda>file_size.
     seq dsf_io_read_uint64_le (\<lambda>metadata_offset.
     ret (file_size, metadata_offset))))))))"

definition dsf_chunk_write_dsd_header :: "u64 \<Rightarrow> u64 \<Rightarrow> unit io_op" where
  "dsf_chunk_write_dsd_header fsize moffset = on_chunk (
     seq (dsf_io_write_uint32_le DSF_DSD_CHUNK_ID) (\<lambda>_.
     seq (dsf_io_write_uint64_le DSF_DSD_CHUNK_SIZE) (\<lambda>_.
     seq (dsf_io_write_uint64_le fsize) (\<lambda>_.
     seq (dsf_io_write_uint64_le moffset) (\<lambda>_.
     ret ())))))"

text \<open>The four updates of a header field share the idiom \<open>patch_field\<close>. The saved position, a
  \<^verbatim>\<open>uint64_t\<close>, is passed to the seek as an \<^verbatim>\<open>int64_t\<close>.\<close>

definition seek_abs :: "u64 \<Rightarrow> u64 option io_op" where
  "seek_abs p = dsf_io_seek (sint p) SEEK_SET True"

definition dsf_chunk_update_file_size :: "u64 \<Rightarrow> unit io_op" where
  "dsf_chunk_update_file_size fsize = on_chunk (
     patch_field dsf_io_get_position (dsf_io_seek 12 SEEK_SET True)
       (dsf_io_write_uint64_le fsize) seek_abs)"

definition dsf_chunk_update_metadata_offset :: "u64 \<Rightarrow> unit io_op" where
  "dsf_chunk_update_metadata_offset moffset = on_chunk (
     patch_field dsf_io_get_position (dsf_io_seek 20 SEEK_SET True)
       (dsf_io_write_uint64_le moffset) seek_abs)"

text \<open>The size of the data chunk counts its 12-byte header; the sum is checked after the seek,
  and a refused sum also returns to the saved position.\<close>

definition dsf_chunk_update_data_size :: "u64 \<Rightarrow> unit io_op" where
  "dsf_chunk_update_data_size data_size = on_chunk (
     patch_field dsf_io_get_position (dsf_io_seek (28 + 52 + 4) SEEK_SET True)
       (case dsf_uint64_add_overflow DSF_DATA_CHUNK_HEADER_SIZE data_size of
          None \<Rightarrow> fail DSF_ERROR_INVALID_DSF
        | Some chunk_size \<Rightarrow> dsf_io_write_uint64_le chunk_size) seek_abs)"

definition dsf_chunk_update_sample_count :: "u64 \<Rightarrow> unit io_op" where
  "dsf_chunk_update_sample_count samples = on_chunk (
     patch_field dsf_io_get_position (dsf_io_seek (28 + 36) SEEK_SET True)
       (dsf_io_write_uint64_le samples) seek_abs)"

section \<open>fmt chunk\<close>

text \<open>Reading the chunk fills a \<^verbatim>\<open>dsf_file_info_t\<close> field by field, also when it stops with an
  error half way: the state is the chunk handle and the structure.\<close>

type_synonym 'a fmt_op = "(dsf_io option \<times> dsf_file_info, dsf_error, 'a) op"

definition rd_fmt :: "'a io_op \<Rightarrow> 'a fmt_op" where
  "rd_fmt m = (\<lambda>(s, info). case m s of (r, s') \<Rightarrow> (r, (s', info)))"

definition set_info :: "(dsf_file_info \<Rightarrow> dsf_file_info) \<Rightarrow> unit fmt_op" where
  "set_info g = modify (\<lambda>(s, info). (s, g info))"

definition dsf_chunk_read_fmt :: "unit fmt_op" where
  "dsf_chunk_read_fmt = (\<lambda>st. if fst st = None then (Err DSF_ERROR_INVALID_PARAMETER, st) else
     seq (set_info (\<lambda>_. zero_info)) (\<lambda>_.
     seq (rd_fmt dsf_io_read_uint32_le) (\<lambda>chunk_id.
     seq (ensure (chunk_id = DSF_FMT_CHUNK_ID) DSF_ERROR_INVALID_CHUNK) (\<lambda>_.
     seq (rd_fmt dsf_io_read_uint64_le) (\<lambda>chunk_size.
     seq (ensure (chunk_size = DSF_FMT_CHUNK_SIZE) DSF_ERROR_INVALID_CHUNK) (\<lambda>_.
     seq (rd_fmt dsf_io_read_uint32_le) (\<lambda>version.
     seq (set_info (\<lambda>i. i\<lparr>format_version := version\<rparr>)) (\<lambda>_.
     seq (ensure (version = DSF_FORMAT_VERSION) DSF_ERROR_INVALID_VERSION) (\<lambda>_.
     seq (rd_fmt dsf_io_read_uint32_le) (\<lambda>fid.
     seq (set_info (\<lambda>i. i\<lparr>format_id := fid\<rparr>)) (\<lambda>_.
     seq (ensure (fid = DSF_FORMAT_DSD_RAW) DSF_ERROR_UNSUPPORTED_COMPRESSION) (\<lambda>_.
     seq (rd_fmt dsf_io_read_uint32_le) (\<lambda>ctype.
     seq (set_info (\<lambda>i. i\<lparr>channel_type := ctype\<rparr>)) (\<lambda>_.
     seq (ensure (dsf_is_valid_channel_type ctype) DSF_ERROR_INVALID_CHANNELS) (\<lambda>_.
     seq (rd_fmt dsf_io_read_uint32_le) (\<lambda>ccount.
     seq (set_info (\<lambda>i. i\<lparr>channel_count := ccount\<rparr>)) (\<lambda>_.
     seq (ensure (\<not> (ccount < 1 \<or> of_nat DSF_MAX_CHANNELS < ccount)) DSF_ERROR_INVALID_CHANNELS) (\<lambda>_.
     seq (rd_fmt dsf_io_read_uint32_le) (\<lambda>freq.
     seq (set_info (\<lambda>i. i\<lparr>sampling_frequency := freq\<rparr>)) (\<lambda>_.
     seq (ensure (dsf_is_valid_sample_rate freq) DSF_ERROR_INVALID_SAMPLE_RATE) (\<lambda>_.
     seq (rd_fmt dsf_io_read_uint32_le) (\<lambda>bits.
     seq (set_info (\<lambda>i. i\<lparr>bits_per_sample := bits\<rparr>)) (\<lambda>_.
     seq (ensure (dsf_is_valid_bits_per_sample bits) DSF_ERROR_INVALID_BIT_DEPTH) (\<lambda>_.
     seq (rd_fmt dsf_io_read_uint64_le) (\<lambda>samples.
     seq (set_info (\<lambda>i. i\<lparr>sample_count := samples\<rparr>)) (\<lambda>_.
     seq (rd_fmt dsf_io_read_uint32_le) (\<lambda>block_size.
     seq (set_info (\<lambda>i. i\<lparr>block_size_per_channel := block_size\<rparr>)) (\<lambda>_.
     seq (ensure (block_size = of_nat DSF_BLOCK_SIZE_PER_CHANNEL) DSF_ERROR_INVALID_BLOCK_SIZE) (\<lambda>_.
     seq (rd_fmt dsf_io_read_uint32_le) (\<lambda>reserved.
     set_info (\<lambda>i. i\<lparr>
       audio_data_size := dsf_calculate_audio_data_size ccount samples bits,
       duration_seconds := dsf_calculate_duration samples freq,
       bit_rate := dsf_calculate_bit_rate ccount freq bits\<rparr>)))))))))))))))))))))))))))))) st)"

definition dsf_chunk_write_fmt :: "dsf_file_info \<Rightarrow> unit io_op" where
  "dsf_chunk_write_fmt info = on_chunk (
     seq (ensure (format_version info = DSF_FORMAT_VERSION) DSF_ERROR_INVALID_VERSION) (\<lambda>_.
     seq (ensure (format_id info = DSF_FORMAT_DSD_RAW) DSF_ERROR_UNSUPPORTED_COMPRESSION) (\<lambda>_.
     seq (ensure (dsf_is_valid_channel_type (channel_type info)) DSF_ERROR_INVALID_CHANNELS) (\<lambda>_.
     seq (ensure (\<not> (channel_count info < 1 \<or> of_nat DSF_MAX_CHANNELS < channel_count info))
            DSF_ERROR_INVALID_CHANNELS) (\<lambda>_.
     seq (ensure (dsf_is_valid_sample_rate (sampling_frequency info)) DSF_ERROR_INVALID_SAMPLE_RATE) (\<lambda>_.
     seq (ensure (dsf_is_valid_bits_per_sample (bits_per_sample info)) DSF_ERROR_INVALID_BIT_DEPTH) (\<lambda>_.
     seq (ensure (block_size_per_channel info = of_nat DSF_BLOCK_SIZE_PER_CHANNEL)
            DSF_ERROR_INVALID_BLOCK_SIZE) (\<lambda>_.
     seq (dsf_io_write_uint32_le DSF_FMT_CHUNK_ID) (\<lambda>_.
     seq (dsf_io_write_uint64_le DSF_FMT_CHUNK_SIZE) (\<lambda>_.
     seq (dsf_io_write_uint32_le (format_version info)) (\<lambda>_.
     seq (dsf_io_write_uint32_le (format_id info)) (\<lambda>_.
     seq (dsf_io_write_uint32_le (channel_type info)) (\<lambda>_.
     seq (dsf_io_write_uint32_le (channel_count info)) (\<lambda>_.
     seq (dsf_io_write_uint32_le (sampling_frequency info)) (\<lambda>_.
     seq (dsf_io_write_uint32_le (bits_per_sample info)) (\<lambda>_.
     seq (dsf_io_write_uint64_le (sample_count info)) (\<lambda>_.
     seq (dsf_io_write_uint32_le (block_size_per_channel info)) (\<lambda>_.
     seq (dsf_io_write_uint32_le 0) (\<lambda>_.
     ret ())))))))))))))))))))"

section \<open>data chunk\<close>

text \<open>The results are the data size and the offset of the audio data.\<close>

definition dsf_chunk_read_data_header :: "(u64 \<times> u64) io_op" where
  "dsf_chunk_read_data_header = on_chunk (
     seq dsf_io_read_uint32_le (\<lambda>chunk_id.
     seq (ensure (chunk_id = DSF_DATA_CHUNK_ID) DSF_ERROR_INVALID_CHUNK) (\<lambda>_.
     seq dsf_io_read_uint64_le (\<lambda>chunk_size.
     seq (ensure (\<not> chunk_size < DSF_DATA_CHUNK_HEADER_SIZE) DSF_ERROR_INVALID_CHUNK) (\<lambda>_.
     seq (ensure (\<not> DSF_MAX_REASONABLE_CHUNK_SIZE < chunk_size) DSF_ERROR_INVALID_CHUNK) (\<lambda>_.
     case dsf_uint64_sub_underflow chunk_size DSF_DATA_CHUNK_HEADER_SIZE of
       None \<Rightarrow> fail DSF_ERROR_INVALID_CHUNK
     | Some data_size \<Rightarrow>
         seq dsf_io_get_position (\<lambda>data_offset. ret (data_size, data_offset))))))))"

definition dsf_chunk_write_data_header :: "u64 \<Rightarrow> u64 io_op" where
  "dsf_chunk_write_data_header data_size = on_chunk (
     case dsf_uint64_add_overflow DSF_DATA_CHUNK_HEADER_SIZE data_size of
       None \<Rightarrow> fail DSF_ERROR_INVALID_CHUNK
     | Some chunk_size \<Rightarrow>
         seq (ensure (\<not> DSF_MAX_REASONABLE_CHUNK_SIZE < chunk_size) DSF_ERROR_INVALID_CHUNK) (\<lambda>_.
         seq (dsf_io_write_uint32_le DSF_DATA_CHUNK_ID) (\<lambda>_.
         seq (dsf_io_write_uint64_le chunk_size) (\<lambda>_.
         dsf_io_get_position))))"

definition dsf_chunk_read_audio_data :: "nat \<Rightarrow> byte list io_op" where
  "dsf_chunk_read_audio_data num_bytes = on_chunk (dsf_io_read_bytes num_bytes)"

definition dsf_chunk_write_audio_data :: "byte list \<Rightarrow> nat io_op" where
  "dsf_chunk_write_audio_data buffer = on_chunk (dsf_io_write_bytes buffer)"

section \<open>Metadata\<close>

text \<open>The results are the metadata size and the buffer.\<close>

definition dsf_chunk_read_metadata :: "heap \<Rightarrow> u64 \<Rightarrow> (u64 \<times> byte list) io_op" where
  "dsf_chunk_read_metadata hp moffset = on_chunk (
     seq (ensure (moffset \<noteq> 0) DSF_ERROR_NO_METADATA) (\<lambda>_.
     seq dsf_io_get_file_size (\<lambda>file_size.
     seq (ensure (\<not> file_size \<le> moffset) DSF_ERROR_INVALID_METADATA) (\<lambda>_.
     case dsf_uint64_sub_underflow file_size moffset of
       None \<Rightarrow> fail DSF_ERROR_INVALID_METADATA
     | Some sz \<Rightarrow>
         seq (ensure (sz \<noteq> 0) DSF_ERROR_NO_METADATA) (\<lambda>_.
         seq (ensure (\<not> DSF_MAX_REASONABLE_METADATA_SIZE < sz) DSF_ERROR_INVALID_METADATA) (\<lambda>_.
         case dsf_uint64_to_sizet sz of
           None \<Rightarrow> fail DSF_ERROR_INVALID_METADATA
         | Some size_to_alloc \<Rightarrow>
             seq (ensure (sa_malloc hp size_to_alloc) DSF_ERROR_OUT_OF_MEMORY) (\<lambda>_.
             seq (dsf_io_seek (sint moffset) SEEK_SET False) (\<lambda>_.
             seq (dsf_io_read_bytes size_to_alloc) (\<lambda>buffer.
             ret (sz, buffer))))))))))"

text \<open>The result is the offset the metadata was written at. \<open>Fault\<close> where the C code would read
  beyond the metadata buffer.\<close>

definition dsf_chunk_write_metadata :: "byte list option \<Rightarrow> u64 \<Rightarrow> u64 io_op" where
  "dsf_chunk_write_metadata metadata_buffer metadata_size = on_chunk (
     case metadata_buffer of
       None \<Rightarrow> fail DSF_ERROR_INVALID_PARAMETER
     | Some buffer \<Rightarrow>
         seq (ensure (metadata_size \<noteq> 0) DSF_ERROR_INVALID_PARAMETER) (\<lambda>_.
         seq (ensure (\<not> DSF_MAX_REASONABLE_METADATA_SIZE < metadata_size)
                DSF_ERROR_INVALID_METADATA) (\<lambda>_.
         case dsf_uint64_to_sizet metadata_size of
           None \<Rightarrow> fail DSF_ERROR_INVALID_METADATA
         | Some size_to_write \<Rightarrow>
             seq dsf_io_get_position (\<lambda>metadata_offset.
             if length buffer < size_to_write then fault
             else seq (dsf_io_write_bytes (take size_to_write buffer)) (\<lambda>bytes_written.
               seq (ensure (bytes_written = size_to_write) DSF_ERROR_WRITE) (\<lambda>_.
               ret metadata_offset))))))"

section \<open>Whole-file validation\<close>

definition dsf_chunk_validate_file :: "unit io_op" where
  "dsf_chunk_validate_file = on_chunk (
     seq (dsf_io_seek 0 SEEK_SET False) (\<lambda>_.
     seq dsf_io_get_file_size (\<lambda>actual_file_size.
     seq (ensure (\<not> actual_file_size < DSF_MIN_FILE_SIZE) DSF_ERROR_INVALID_FILE) (\<lambda>_.
     seq dsf_chunk_read_dsd_header (\<lambda>(file_size, metadata_offset).
     seq (ensure (\<not> (file_size \<noteq> actual_file_size \<and>
            (actual_file_size < file_size \<or> 4096 < actual_file_size - file_size)))
            DSF_ERROR_INVALID_FILE) (\<lambda>_.
     seq (ensure (\<not> (0 < metadata_offset \<and> actual_file_size \<le> metadata_offset))
            DSF_ERROR_INVALID_METADATA) (\<lambda>_.
     seq (ensure (\<not> (0 < metadata_offset \<and> metadata_offset < DSF_MIN_FILE_SIZE))
            DSF_ERROR_INVALID_METADATA) (\<lambda>_.
     seq (\<lambda>s. case dsf_chunk_read_fmt (s, zero_info) of
            (Ok _, (s', info)) \<Rightarrow> (Ok info, s')
          | (Err e, (s', _)) \<Rightarrow> (Err e, s')
          | (Fault, (s', _)) \<Rightarrow> (Fault, s')) (\<lambda>info.
     seq dsf_chunk_read_data_header (\<lambda>(data_size, data_offset).
     seq (ensure (data_offset =
            DSF_DSD_CHUNK_SIZE + DSF_FMT_CHUNK_SIZE + DSF_DATA_CHUNK_HEADER_SIZE)
            DSF_ERROR_INVALID_FILE) (\<lambda>_.
     case dsf_uint64_add_overflow data_offset data_size of
       None \<Rightarrow> fail DSF_ERROR_INVALID_FILE
     | Some audio_end_offset \<Rightarrow>
         seq (ensure (\<not> actual_file_size < audio_end_offset) DSF_ERROR_INVALID_FILE) (\<lambda>_.
         let expected_min_size = data_offset + data_size in
         seq (ensure (\<not> (0 < metadata_offset \<and> metadata_offset < audio_end_offset))
                DSF_ERROR_INVALID_FILE) (\<lambda>_.
         seq (ensure (\<not> (0 < metadata_offset \<and> actual_file_size < metadata_offset))
                DSF_ERROR_INVALID_METADATA) (\<lambda>_.
         seq (ensure (\<not> file_size < expected_min_size) DSF_ERROR_INVALID_FILE) (\<lambda>_.
         let calculated_size = dsf_calculate_audio_data_size
               (channel_count info) (sample_count info) (bits_per_sample info);
             tolerance = ucast (of_nat DSF_BLOCK_SIZE_PER_CHANNEL * channel_count info) :: u64 in
         seq (ensure (calculated_size \<noteq> 0) DSF_ERROR_INVALID_FILE) (\<lambda>_.
         if data_size < calculated_size then
           ensure (\<not> tolerance < calculated_size - data_size) DSF_ERROR_INVALID_FILE
         else if calculated_size < data_size then
           ensure (\<not> tolerance < data_size - calculated_size) DSF_ERROR_INVALID_FILE
         else ret ()))))))))))))))))"

definition dsf_chunk_read_id :: "u32 io_op" where
  "dsf_chunk_read_id = on_chunk dsf_io_read_uint32_le"

definition dsf_chunk_write_id :: "u32 \<Rightarrow> unit io_op" where
  "dsf_chunk_write_id chunk_id = on_chunk (dsf_io_write_uint32_le chunk_id)"

section \<open>Reading and writing one field\<close>

text \<open>All states of an open handle have the form \<open>io_put s d p\<close>.\<close>

lemma io_put_not_None [simp]: "io_is_open s \<Longrightarrow> io_put s d p \<noteq> None"
  by (auto simp: io_is_open_def io_put_def)

lemma on_chunk_put [simp]: "io_is_open s \<Longrightarrow> on_chunk m (io_put s d p) = m (io_put s d p)"
  by (simp add: on_chunk_def)

lemma on_chunk_None [simp]: "on_chunk m None = (Err DSF_ERROR_INVALID_PARAMETER, None)"
  by (simp add: on_chunk_def)

lemma on_chunk_open: "io_is_open s \<Longrightarrow> on_chunk m s = m s"
  by (auto simp: on_chunk_def io_is_open_def)

named_theorems field_steps \<open>one field read or written on a state in normal form\<close>

lemma read_u32_put [field_steps]:
  "io_is_open s \<Longrightarrow> io_can_read s \<Longrightarrow> p + 4 \<le> length d \<Longrightarrow>
   dsf_io_read_uint32_le (io_put s d p) =
     (Ok (of_nat (le_dec (bytes_at p 4 d))), io_put s d (p + 4))"
  by (simp add: dsf_io_fields dsf_stream.rd_after_at)

lemma read_u64_put [field_steps]:
  "io_is_open s \<Longrightarrow> io_can_read s \<Longrightarrow> p + 8 \<le> length d \<Longrightarrow>
   dsf_io_read_uint64_le (io_put s d p) =
     (Ok (of_nat (le_dec (bytes_at p 8 d))), io_put s d (p + 8))"
  by (simp add: dsf_io_fields dsf_stream.rd_after_at)

lemma write_u32_put [field_steps]:
  "io_is_open s \<Longrightarrow> io_can_write s (p + 4) \<Longrightarrow>
   dsf_io_write_uint32_le v (io_put s d p) =
     (Ok (), io_put s (patch d p (le_enc 4 (unat v))) (p + 4))"
  by (simp add: dsf_io_fields dsf_stream.wr_after_at)

lemma write_u64_put [field_steps]:
  "io_is_open s \<Longrightarrow> io_can_write s (p + 8) \<Longrightarrow>
   dsf_io_write_uint64_le v (io_put s d p) =
     (Ok (), io_put s (patch d p (le_enc 8 (unat v))) (p + 8))"
  by (simp add: dsf_io_fields dsf_stream.wr_after_at)

lemma get_position_put [field_steps]:
  "io_is_open s \<Longrightarrow> int p \<le> INT64_MAX \<Longrightarrow>
   dsf_io_get_position (io_put s d p) = (Ok (of_nat p), io_put s d p)"
  by (rule dsf_stream.tell_at)

lemma get_file_size_put [field_steps]:
  "io_is_open s \<Longrightarrow> dsf_io_get_file_size (io_put s d p) = (Ok (of_nat (length d)), io_put s d p)"
  by (auto simp: dsf_io_get_file_size_def on_file_def io_is_open_def io_put_def fstat_size_def)

lemma seek_put [field_steps]:
  "io_is_open s \<Longrightarrow> 0 \<le> q \<Longrightarrow> q \<le> INT64_MAX \<Longrightarrow>
   dsf_io_seek q SEEK_SET want (io_put s d p) =
     (Ok (if want then Some (of_int q) else None), io_put s d (nat q))"
  by (auto simp: dsf_io_seek_def on_file_def io_is_open_def io_put_def fseek_def ftell_def)

lemma read_bytes_put [field_steps]:
  "io_is_open s \<Longrightarrow> io_can_read s \<Longrightarrow> p + n \<le> length d \<Longrightarrow>
   dsf_io_read_bytes n (io_put s d p) = (Ok (bytes_at p n d), io_put s d (p + n))"
  by (simp add: dsf_io_read_bytes_eq dsf_stream.rd_after_at)

lemma read_bytes_short_put [field_steps]:
  "io_is_open s \<Longrightarrow> io_can_read s \<Longrightarrow> length d < p + n \<Longrightarrow> 0 < n \<Longrightarrow>
   dsf_io_read_bytes n (io_put s d p) = (Err DSF_ERROR_READ, io_put s d (max p (length d)))"
  by (simp add: dsf_io_read_bytes_eq dsf_stream.rd_short_at)

lemma write_bytes_put [field_steps]:
  "io_is_open s \<Longrightarrow> io_can_write s (p + length bs) \<Longrightarrow>
   dsf_io_write_bytes bs (io_put s d p) = (Ok (length bs), io_put s (patch d p bs) (p + length bs))"
  by (simp add: dsf_io_write_bytes_eq dsf_stream.stream_simps)

lemma can_write_le: "io_can_write s n \<Longrightarrow> m \<le> n \<Longrightarrow> io_can_write s m"
  by (rule dsf_stream.can_write_mono)

lemma patch_patch: "q = p + length xs \<Longrightarrow> patch (patch d p xs) q ys = patch d p (xs @ ys)"
  by (simp add: patch_patch_append)

section \<open>The layout of the three chunks\<close>

definition dsd_bytes :: "u64 \<Rightarrow> u64 \<Rightarrow> byte list" where
  "dsd_bytes fsize moffset =
     le_enc 4 (unat DSF_DSD_CHUNK_ID) @ le_enc 8 28 @ le_enc 8 (unat fsize) @ le_enc 8 (unat moffset)"

definition fmt_bytes :: "dsf_file_info \<Rightarrow> byte list" where
  "fmt_bytes info =
     le_enc 4 (unat DSF_FMT_CHUNK_ID) @ le_enc 8 52 @ le_enc 4 (unat (format_version info)) @
     le_enc 4 (unat (format_id info)) @ le_enc 4 (unat (channel_type info)) @
     le_enc 4 (unat (channel_count info)) @ le_enc 4 (unat (sampling_frequency info)) @
     le_enc 4 (unat (bits_per_sample info)) @ le_enc 8 (unat (sample_count info)) @
     le_enc 4 (unat (block_size_per_channel info)) @ le_enc 4 0"

definition data_bytes :: "u64 \<Rightarrow> byte list" where
  "data_bytes chunk_size = le_enc 4 (unat DSF_DATA_CHUNK_ID) @ le_enc 8 (unat chunk_size)"

lemma length_chunk_bytes [simp]:
  "length (dsd_bytes a b) = 28" "length (fmt_bytes i) = 52" "length (data_bytes c) = 12"
  by (simp_all add: dsd_bytes_def fmt_bytes_def data_bytes_def)

text \<open>The parameters every layer insists on.\<close>

definition valid_fmt :: "dsf_file_info \<Rightarrow> bool" where
  "valid_fmt i \<longleftrightarrow> format_version i = DSF_FORMAT_VERSION \<and> format_id i = DSF_FORMAT_DSD_RAW \<and>
     dsf_is_valid_channel_type (channel_type i) \<and>
     \<not> (channel_count i < 1 \<or> of_nat DSF_MAX_CHANNELS < channel_count i) \<and>
     dsf_is_valid_sample_rate (sampling_frequency i) \<and>
     dsf_is_valid_bits_per_sample (bits_per_sample i) \<and>
     block_size_per_channel i = of_nat DSF_BLOCK_SIZE_PER_CHANNEL"

lemma write_dsd_header_put:
  assumes "io_is_open s" "io_can_write s (p + 28)"
  shows "dsf_chunk_write_dsd_header fsize moffset (io_put s d p) =
    (Ok (), io_put s (patch d p (dsd_bytes fsize moffset)) (28 + p))"
  using assms can_write_le [OF assms(2)]
  by (simp add: dsf_chunk_write_dsd_header_def dsd_bytes_def field_steps patch_patch)

lemma write_fmt_put:
  assumes "io_is_open s" "io_can_write s (p + 52)" "valid_fmt info"
  shows "dsf_chunk_write_fmt info (io_put s d p) =
    (Ok (), io_put s (patch d p (fmt_bytes info)) (52 + p))"
  using assms can_write_le [OF assms(2)]
  by (simp add: dsf_chunk_write_fmt_def fmt_bytes_def valid_fmt_def field_steps patch_patch)

lemma write_data_header_put:
  assumes "io_is_open s" "io_can_write s (p + 12)" "int (p + 12) \<le> INT64_MAX"
    and "unat data_size \<le> 10737418228"
  shows "dsf_chunk_write_data_header data_size (io_put s d p) =
    (Ok (of_nat (12 + p)), io_put s (patch d p (data_bytes (12 + data_size))) (12 + p))"
proof -
  have "dsf_uint64_add_overflow DSF_DATA_CHUNK_HEADER_SIZE data_size = Some (12 + data_size)"
    and "unat (12 + data_size) = 12 + unat data_size"
    using assms(4) by (simp_all add: dsf_uint64_add_overflow_eq unat_word_ariths)
  then show ?thesis
    using assms can_write_le [OF assms(2)]
    by (simp add: dsf_chunk_write_data_header_def data_bytes_def field_steps patch_patch
        word_less_nat_alt)
qed

section \<open>Reading the chunks back\<close>

lemma bytes_at_of_bytes_at: "bytes_at p n d = bs \<Longrightarrow> q + m \<le> n \<Longrightarrow> bytes_at (p + q) m d = bytes_at q m bs"
  by (auto simp: bytes_at_def drop_take add.commute min_def)

lemma bytes_at_head: "bytes_at p n d = bs \<Longrightarrow> m \<le> n \<Longrightarrow> bytes_at p m d = bytes_at 0 m bs"
  using bytes_at_of_bytes_at [of p n d bs 0 m] by simp

lemma read_dsd_header_put:
  assumes "io_is_open s" "io_can_read s" "p + 28 \<le> length d"
    and sl: "bytes_at p 28 d = dsd_bytes fsize moffset"
  shows "dsf_chunk_read_dsd_header (io_put s d p) = (Ok (fsize, moffset), io_put s d (28 + p))"
proof -
  have "bytes_at p 4 d = le_enc 4 (unat DSF_DSD_CHUNK_ID)" "bytes_at (p + 4) 8 d = le_enc 8 28"
    "bytes_at (p + 12) 8 d = le_enc 8 (unat fsize)" "bytes_at (p + 20) 8 d = le_enc 8 (unat moffset)"
    by (simp_all add: bytes_at_head [OF sl] bytes_at_of_bytes_at [OF sl] dsd_bytes_def)
       (simp_all add: bytes_at_def)
  then show ?thesis
    using assms(1-3)
    by (simp add: dsf_chunk_read_dsd_header_def field_steps add.commute le_dec_enc [of 8 28])
qed

lemma rd_fmt_apply [simp]: "rd_fmt m (s, i) = (case m s of (r, s') \<Rightarrow> (r, (s', i)))"
  by (simp add: rd_fmt_def)

lemma set_info_apply [simp]: "set_info g (s, i) = (Ok (), (s, g i))"
  by (simp add: set_info_def)

text \<open>What reading the chunk of \<open>info\<close> puts into the structure.\<close>

definition fmt_info :: "dsf_file_info \<Rightarrow> dsf_file_info" where
  "fmt_info i = i\<lparr>file_size := 0, metadata_offset := 0, audio_data_offset := 0,
     audio_data_size :=
       dsf_calculate_audio_data_size (channel_count i) (sample_count i) (bits_per_sample i),
     duration_seconds := dsf_calculate_duration (sample_count i) (sampling_frequency i),
     bit_rate :=
       dsf_calculate_bit_rate (channel_count i) (sampling_frequency i) (bits_per_sample i)\<rparr>"

lemma read_fmt_put:
  assumes "io_is_open s" "io_can_read s" "p + 52 \<le> length d"
    and sl: "bytes_at p 52 d = fmt_bytes info" and valid: "valid_fmt info"
  shows "dsf_chunk_read_fmt (io_put s d p, i0) = (Ok (), (io_put s d (52 + p), fmt_info info))"
proof -
  have "bytes_at p 4 d = le_enc 4 (unat DSF_FMT_CHUNK_ID)" "bytes_at (p + 4) 8 d = le_enc 8 52"
    "bytes_at (p + 12) 4 d = le_enc 4 (unat (format_version info))"
    "bytes_at (p + 16) 4 d = le_enc 4 (unat (format_id info))"
    "bytes_at (p + 20) 4 d = le_enc 4 (unat (channel_type info))"
    "bytes_at (p + 24) 4 d = le_enc 4 (unat (channel_count info))"
    "bytes_at (p + 28) 4 d = le_enc 4 (unat (sampling_frequency info))"
    "bytes_at (p + 32) 4 d = le_enc 4 (unat (bits_per_sample info))"
    "bytes_at (p + 36) 8 d = le_enc 8 (unat (sample_count info))"
    "bytes_at (p + 44) 4 d = le_enc 4 (unat (block_size_per_channel info))"
    by (simp_all add: bytes_at_head [OF sl] bytes_at_of_bytes_at [OF sl] fmt_bytes_def)
       (simp_all add: bytes_at_def)
  then have "(of_nat (le_dec (bytes_at p 4 d)) :: u32) = DSF_FMT_CHUNK_ID"
    "(of_nat (le_dec (bytes_at (p + 4) 8 d)) :: u64) = 52"
    "(of_nat (le_dec (bytes_at (p + 12) 4 d)) :: u32) = format_version info"
    "(of_nat (le_dec (bytes_at (p + 16) 4 d)) :: u32) = format_id info"
    "(of_nat (le_dec (bytes_at (p + 20) 4 d)) :: u32) = channel_type info"
    "(of_nat (le_dec (bytes_at (p + 24) 4 d)) :: u32) = channel_count info"
    "(of_nat (le_dec (bytes_at (p + 28) 4 d)) :: u32) = sampling_frequency info"
    "(of_nat (le_dec (bytes_at (p + 32) 4 d)) :: u32) = bits_per_sample info"
    "(of_nat (le_dec (bytes_at (p + 36) 8 d)) :: u64) = sample_count info"
    "(of_nat (le_dec (bytes_at (p + 44) 4 d)) :: u32) = block_size_per_channel info"
    by (simp_all add: le_dec_enc [of 8 52])
  then show ?thesis
    using assms(1-3) valid
    by (simp add: dsf_chunk_read_fmt_def valid_fmt_def field_steps add.commute
        fmt_info_def zero_info_def)
qed

lemma read_data_header_put:
  assumes "io_is_open s" "io_can_read s" "p + 12 \<le> length d" "int (p + 12) \<le> INT64_MAX"
    and sl: "bytes_at p 12 d = data_bytes chunk_size"
    and "12 \<le> unat chunk_size" "unat chunk_size \<le> 10737418240"
  shows "dsf_chunk_read_data_header (io_put s d p) =
    (Ok (chunk_size - 12, of_nat (12 + p)), io_put s d (12 + p))"
proof -
  have "bytes_at p 4 d = le_enc 4 (unat DSF_DATA_CHUNK_ID)"
    "bytes_at (p + 4) 8 d = le_enc 8 (unat chunk_size)"
    by (simp_all add: bytes_at_head [OF sl] bytes_at_of_bytes_at [OF sl] data_bytes_def)
       (simp_all add: bytes_at_def)
  moreover have "\<not> chunk_size < 12" "\<not> 10737418240 < chunk_size"
    using assms(6,7) by (simp_all add: word_less_nat_alt)
  ultimately show ?thesis
    using assms(1-4)
    by (simp add: dsf_chunk_read_data_header_def field_steps add.commute
        dsf_uint64_sub_underflow_def)
qed

section \<open>The updates patch their field\<close>

lemma seek_abs_of_nat:
  "int p \<le> INT64_MAX \<Longrightarrow> seek_abs (of_nat p) = dsf_io_seek (int p) SEEK_SET True"
  by (simp add: seek_abs_def signed_of_nat signed_take_bit_int_eq_self)

lemma patch_field_put:
  assumes "io_is_open s" "io_can_write s (off + length bs)"
    and "int p \<le> INT64_MAX" "int off \<le> INT64_MAX"
  shows "patch_field dsf_io_get_position (dsf_io_seek (int off) SEEK_SET True) (io_wr bs) seek_abs
      (io_put s d p) = (Ok (), io_put s (patch d off bs) p)"
  using dsf_stream.patch_field_ok [of "io_put s d p" off bs seek_abs] assms
  by (simp add: dsf_stream.stream_simps seek_abs_of_nat)

lemma update_file_size_put:
  assumes "io_is_open s" "io_can_write s 20" "int p \<le> INT64_MAX"
  shows "dsf_chunk_update_file_size v (io_put s d p) =
    (Ok (), io_put s (patch d 12 (le_enc 8 (unat v))) p)"
  using patch_field_put [of s 12 "le_enc 8 (unat v)" p d] assms
  by (simp add: dsf_chunk_update_file_size_def dsf_io_fields)

lemma update_metadata_offset_put:
  assumes "io_is_open s" "io_can_write s 28" "int p \<le> INT64_MAX"
  shows "dsf_chunk_update_metadata_offset v (io_put s d p) =
    (Ok (), io_put s (patch d 20 (le_enc 8 (unat v))) p)"
  using patch_field_put [of s 20 "le_enc 8 (unat v)" p d] assms
  by (simp add: dsf_chunk_update_metadata_offset_def dsf_io_fields)

lemma update_sample_count_put:
  assumes "io_is_open s" "io_can_write s 72" "int p \<le> INT64_MAX"
  shows "dsf_chunk_update_sample_count v (io_put s d p) =
    (Ok (), io_put s (patch d 64 (le_enc 8 (unat v))) p)"
  using patch_field_put [of s 64 "le_enc 8 (unat v)" p d] assms
  by (simp add: dsf_chunk_update_sample_count_def dsf_io_fields)

lemma update_data_size_put:
  assumes "io_is_open s" "io_can_write s 92" "int p \<le> INT64_MAX" "unat v + 12 < 2 ^ 64"
  shows "dsf_chunk_update_data_size v (io_put s d p) =
    (Ok (), io_put s (patch d 84 (le_enc 8 (12 + unat v))) p)"
proof -
  have "dsf_uint64_add_overflow DSF_DATA_CHUNK_HEADER_SIZE v = Some (12 + v)"
    "unat (12 + v) = 12 + unat v"
    using assms(4) by (simp_all add: dsf_uint64_add_overflow_eq unat_word_ariths)
  then show ?thesis
    using patch_field_put [of s 84 "le_enc 8 (12 + unat v)" p d] assms
    by (simp add: dsf_chunk_update_data_size_def dsf_io_fields)
qed

lemma dsf_chunk_write_metadata_put:
  assumes "io_is_open s" "io_can_write s (p + length bs)" "int p \<le> INT64_MAX"
    and "length bs = unat msize" "0 < unat msize" "unat msize \<le> 104857600"
  shows "dsf_chunk_write_metadata (Some bs) msize (io_put s d p) =
    (Ok (of_nat p), io_put s (patch d p bs) (p + length bs))"
proof -
  have "msize \<noteq> 0" "\<not> 104857600 < msize"
    using assms(5,6) by (auto simp: word_less_nat_alt unat_gt_0)
  then show ?thesis
    using assms(1-4) by (simp add: dsf_chunk_write_metadata_def field_steps)
qed

section \<open>What a successful read has checked\<close>

lemma read_fmt_Ok:
  assumes "dsf_chunk_read_fmt (s, i0) = (Ok u, (s', i))"
  shows "valid_fmt i \<and> i = fmt_info i"
  using assms
  by (auto simp: dsf_chunk_read_fmt_def seq_Ok_iff set_info_def rd_fmt_def valid_fmt_def
      fmt_info_def zero_info_def split: if_splits prod.splits)

end
