(* ===== verification/Dsf_File.thy ===== *)
theory Dsf_File
  imports Dsf_Chunks
begin

text \<open>
  \<^verbatim>\<open>libdsf/src/dsf.c\<close>: the file handle and its life cycle, the getters, audio input and
  output with the block buffers, and the metadata. A \<^verbatim>\<open>dsf_t *\<close> is a \<open>dsf option\<close>, with
  \<open>None\<close> for NULL. Functions that open, close or delete files also thread the disk; functions
  that set an output parameter on their error paths thread that parameter as a cell of the state.
  Array accesses are checked: one outside its array is \<open>Fault\<close>.
\<close>

section \<open>The handle\<close>

record dsf =
  h_io :: "dsf_io option"
  h_mode :: dsf_file_mode
  h_info :: dsf_file_info
  samples_written :: u64
  bytes_written :: u64
  metadata_buffer :: "byte list option"
  metadata_size :: u64
  metadata_modified :: bool
  channel_buffers :: "byte list list"
  bytes_buffered :: nat
  read_buffer :: "byte list"
  read_buffer_pos :: nat
  read_buffer_valid :: nat
  scratch_buffer :: "byte list"

type_synonym 'a dsf_op = "(dsf, dsf_error, 'a) op"
type_synonym 'a api_op = "(dsf option, dsf_error, 'a) op"
type_synonym 'a file_op = "(dsf option \<times> disk, dsf_error, 'a) op"

abbreviation (input) cc :: "dsf \<Rightarrow> nat" where
  "cc x \<equiv> unat (channel_count (h_info x))"

text \<open>A call on the chunk handle of the file handle.\<close>

definition on_io :: "'a io_op \<Rightarrow> 'a dsf_op" where
  "on_io m = (\<lambda>x. case m (h_io x) of (r, io') \<Rightarrow> (r, x\<lparr>h_io := io'\<rparr>))"

definition upd_info :: "(dsf_file_info \<Rightarrow> dsf_file_info) \<Rightarrow> dsf \<Rightarrow> dsf" where
  "upd_info g x = x\<lparr>h_info := g (h_info x)\<rparr>"

text \<open>A call of a public function on a handle known not to be NULL.\<close>

definition on_handle :: "'a api_op \<Rightarrow> 'a dsf_op" where
  "on_handle m = (\<lambda>x. case m (Some x) of (r, Some x') \<Rightarrow> (r, x') | (r, None) \<Rightarrow> (r, x))"

abbreviation (input) nonnull_handle :: "'a dsf_op \<Rightarrow> 'a api_op" where
  "nonnull_handle \<equiv> nonnull DSF_ERROR_INVALID_PARAMETER"

section \<open>Bounded loops and copies\<close>

text \<open>\<^verbatim>\<open>for (i = 0; i < n; i++)\<close> over a state, with \<open>None\<close> for undefined behaviour.\<close>

primrec for_opt :: "nat list \<Rightarrow> (nat \<Rightarrow> 'a \<Rightarrow> 'a option) \<Rightarrow> 'a \<Rightarrow> 'a option" where
  "for_opt [] f a = Some a"
| "for_opt (i # is) f a = (case f i a of None \<Rightarrow> None | Some a' \<Rightarrow> for_opt is f a')"

definition copy_at :: "byte list \<Rightarrow> nat \<Rightarrow> byte list \<Rightarrow> nat \<Rightarrow> byte list option" where
  "copy_at dst off src n =
     (if off + n \<le> length dst \<and> n \<le> length src
      then Some (take off dst @ take n src @ drop (off + n) dst) else None)"

definition store_at :: "byte list \<Rightarrow> nat \<Rightarrow> byte \<Rightarrow> byte list option" where
  "store_at dst off b = (if off < length dst then Some (dst[off := b]) else None)"

section \<open>Internal helpers\<close>

definition dsf_reset_file_state :: "dsf \<Rightarrow> dsf" where
  "dsf_reset_file_state x = x\<lparr>
     h_io := None, h_mode := DSF_FILE_MODE_CLOSED, h_info := zero_info,
     samples_written := 0, bytes_written := 0,
     metadata_buffer := None, metadata_size := 0, metadata_modified := False,
     bytes_buffered := 0,
     channel_buffers := replicate DSF_MAX_CHANNELS (replicate DSF_BLOCK_SIZE_PER_CHANNEL 0),
     read_buffer_pos := 0, read_buffer_valid := 0\<rparr>"

text \<open>Filling \<^verbatim>\<open>handle->info\<close> from the fmt chunk.\<close>

definition read_fmt_into_info :: "unit dsf_op" where
  "read_fmt_into_info = (\<lambda>x. case dsf_chunk_read_fmt (h_io x, h_info x) of
     (r, (io', info')) \<Rightarrow> (r, x\<lparr>h_io := io', h_info := info'\<rparr>))"

definition recount_samples :: "u64 \<Rightarrow> unit dsf_op" where
  "recount_samples data_size = (\<lambda>x.
     if bits_per_sample (h_info x) = 1 then
       (if channel_count (h_info x) = 0 then (Err DSF_ERROR_INVALID_CHANNELS, x)
        else let bytes_per_channel = data_size div ucast (channel_count (h_info x));
                 blocks_per_channel = bytes_per_channel div of_nat DSF_BLOCK_SIZE_PER_CHANNEL in
          case dsf_uint64_mul_overflow blocks_per_channel (of_nat DSF_BLOCK_SIZE_PER_CHANNEL) of
            None \<Rightarrow> (Err DSF_ERROR_INVALID_CHUNK, x)
          | Some samples_per_block \<Rightarrow>
              (case dsf_uint64_mul_overflow samples_per_block 8 of
                 None \<Rightarrow> (Err DSF_ERROR_INVALID_CHUNK, x)
               | Some temp_samples \<Rightarrow>
                   (Ok (), upd_info (\<lambda>i. i\<lparr>sample_count := temp_samples\<rparr>) x)))
     else (Ok (), x))"

text \<open>A failed metadata read leaves the handle without metadata and is not an error.\<close>

definition load_metadata :: "heap \<Rightarrow> u64 \<Rightarrow> unit dsf_op" where
  "load_metadata hp moffset = (\<lambda>x. case dsf_chunk_read_metadata hp moffset (h_io x) of
       (Ok (sz, buf), io') \<Rightarrow> (Ok (), x\<lparr>h_io := io', metadata_size := sz, metadata_buffer := Some buf\<rparr>)
     | (Err e, io') \<Rightarrow> (Ok (), x\<lparr>h_io := io', metadata_size := 0, metadata_buffer := None\<rparr>)
     | (Fault, io') \<Rightarrow> (Fault, x\<lparr>h_io := io'\<rparr>))"

definition dsf_read_file_structure :: "heap \<Rightarrow> unit dsf_op" where
  "dsf_read_file_structure hp = (\<lambda>x. if h_io x = None then (Err DSF_ERROR_INVALID_PARAMETER, x) else
     seq (on_io dsf_chunk_read_dsd_header) (\<lambda>(fsize, moffset).
     seq (modify (upd_info (\<lambda>i. i\<lparr>file_size := fsize, metadata_offset := moffset\<rparr>))) (\<lambda>_.
     seq read_fmt_into_info (\<lambda>_.
     seq (on_io dsf_chunk_read_data_header) (\<lambda>(data_size, data_offset).
     seq (modify (upd_info (\<lambda>i. i\<lparr>audio_data_offset := data_offset\<rparr>))) (\<lambda>_.
     seq (\<lambda>x. if data_size \<noteq> audio_data_size (h_info x)
            then recount_samples data_size (upd_info (\<lambda>i. i\<lparr>audio_data_size := data_size\<rparr>) x)
            else (Ok (), x)) (\<lambda>_.
     (\<lambda>x. if 0 < moffset \<and> h_mode x \<noteq> DSF_FILE_MODE_WRITE
           then load_metadata hp moffset x else (Ok (), x)))))))) x)"

definition dsf_write_file_structure :: "unit dsf_op" where
  "dsf_write_file_structure = (\<lambda>x. if h_io x = None then (Err DSF_ERROR_INVALID_PARAMETER, x) else
     seq (on_io (dsf_chunk_write_dsd_header 0 0)) (\<lambda>_.
     seq (\<lambda>x. on_io (dsf_chunk_write_fmt (h_info x)) x) (\<lambda>_.
     seq (on_io (dsf_chunk_write_data_header 0)) (\<lambda>data_offset.
     modify (upd_info (\<lambda>i. i\<lparr>audio_data_offset := data_offset\<rparr>))))) x)"

section \<open>Life cycle\<close>

text \<open>What \<^verbatim>\<open>sa_calloc\<close> returns: a handle of zero bytes.\<close>

definition zero_handle :: dsf where
  "zero_handle = \<lparr>h_io = None, h_mode = DSF_FILE_MODE_CLOSED, h_info = zero_info,
     samples_written = 0, bytes_written = 0, metadata_buffer = None, metadata_size = 0,
     metadata_modified = False,
     channel_buffers = replicate DSF_MAX_CHANNELS (replicate DSF_BLOCK_SIZE_PER_CHANNEL 0),
     bytes_buffered = 0,
     read_buffer = replicate (DSF_BLOCK_SIZE_PER_CHANNEL * DSF_MAX_CHANNELS) 0,
     read_buffer_pos = 0, read_buffer_valid = 0,
     scratch_buffer = replicate (DSF_BLOCK_SIZE_PER_CHANNEL * DSF_MAX_CHANNELS) 0\<rparr>"

text \<open>\<^verbatim>\<open>sizeof(dsf_t)\<close> is 86184 on an LP64 platform.\<close>

definition dsf_alloc :: "heap \<Rightarrow> (dsf_error, dsf) outcome" where
  "dsf_alloc hp = (if \<not> sa_malloc hp 86184 then Err DSF_ERROR_OUT_OF_MEMORY
     else Ok (dsf_reset_file_state zero_handle))"

definition dsf_free :: "unit api_op" where
  "dsf_free = (\<lambda>handle. case handle of
       None \<Rightarrow> (Err DSF_ERROR_INVALID_PARAMETER, None)
     | Some x \<Rightarrow> if h_mode x \<noteq> DSF_FILE_MODE_CLOSED then (Err DSF_ERROR_NOT_OPEN, handle)
                 else (Ok (), None))"

definition dsf_create ::
  "heap \<Rightarrow> string option \<Rightarrow> u32 \<Rightarrow> u32 \<Rightarrow> u32 \<Rightarrow> u32 \<Rightarrow> unit file_op" where
  "dsf_create hp filename rate ctype ccount bits = (\<lambda>(handle, d). case (handle, filename) of
       (None, _) \<Rightarrow> (Err DSF_ERROR_INVALID_PARAMETER, (handle, d))
     | (Some x, None) \<Rightarrow> (Err DSF_ERROR_INVALID_PARAMETER, (handle, d))
     | (Some x, Some name) \<Rightarrow>
         (if h_mode x \<noteq> DSF_FILE_MODE_CLOSED then (Err DSF_ERROR_ALREADY_OPEN, (handle, d))
          else if \<not> dsf_is_valid_sample_rate rate then (Err DSF_ERROR_INVALID_SAMPLE_RATE, (handle, d))
          else if \<not> dsf_is_valid_channel_type ctype then (Err DSF_ERROR_INVALID_CHANNELS, (handle, d))
          else if ccount < 1 \<or> of_nat DSF_MAX_CHANNELS < ccount
            then (Err DSF_ERROR_INVALID_CHANNELS, (handle, d))
          else if \<not> dsf_is_valid_bits_per_sample bits
            then (Err DSF_ERROR_INVALID_BIT_DEPTH, (handle, d))
          else (case dsf_chunk_file_open_write hp filename d of
              (Ok io, d') \<Rightarrow>
                (let x1 = x\<lparr>h_io := Some io, h_info := zero_info\<lparr>
                       format_version := DSF_FORMAT_VERSION, format_id := DSF_FORMAT_DSD_RAW,
                       channel_type := ctype, channel_count := ccount, sampling_frequency := rate,
                       bits_per_sample := bits, sample_count := 0,
                       block_size_per_channel := of_nat DSF_BLOCK_SIZE_PER_CHANNEL\<rparr>\<rparr> in
                 case dsf_write_file_structure x1 of
                   (Ok _, x2) \<Rightarrow> (Ok (), (Some (x2\<lparr>h_mode := DSF_FILE_MODE_WRITE,
                       samples_written := 0, bytes_written := 0\<rparr>), d'))
                 | (Err e, x2) \<Rightarrow> (case dsf_chunk_file_close (h_io x2, d') of
                       (_, (_, d'')) \<Rightarrow> (Err e, (Some (x2\<lparr>h_io := None\<rparr>), d'')))
                 | (Fault, x2) \<Rightarrow> (Fault, (Some x2, d')))
            | (Err e, d') \<Rightarrow> (Err e, (handle, d'))
            | (Fault, d') \<Rightarrow> (Fault, (handle, d')))))"

text \<open>\<^verbatim>\<open>dsf_open\<close> and \<^verbatim>\<open>dsf_open_modify\<close> differ in the opening and in the mode they set.\<close>

definition open_with ::
  "heap \<Rightarrow> (heap \<Rightarrow> string option \<Rightarrow> (disk, dsf_error, dsf_io) op) \<Rightarrow> dsf_file_mode \<Rightarrow>
   string option \<Rightarrow> unit file_op" where
  "open_with hp opn m filename = (\<lambda>(handle, d). case (handle, filename) of
       (None, _) \<Rightarrow> (Err DSF_ERROR_INVALID_PARAMETER, (handle, d))
     | (Some x, None) \<Rightarrow> (Err DSF_ERROR_INVALID_PARAMETER, (handle, d))
     | (Some x, Some name) \<Rightarrow>
         (if h_mode x \<noteq> DSF_FILE_MODE_CLOSED then (Err DSF_ERROR_ALREADY_OPEN, (handle, d))
          else (case opn hp filename d of
              (Ok io, d') \<Rightarrow>
                (case dsf_read_file_structure hp (x\<lparr>h_io := Some io\<rparr>) of
                   (Ok _, x2) \<Rightarrow> (Ok (), (Some (x2\<lparr>h_mode := m\<rparr>), d'))
                 | (Err e, x2) \<Rightarrow> (case dsf_chunk_file_close (h_io x2, d') of
                       (_, (_, d'')) \<Rightarrow> (Err e, (Some (x2\<lparr>h_io := None\<rparr>), d'')))
                 | (Fault, x2) \<Rightarrow> (Fault, (Some x2, d')))
            | (Err e, d') \<Rightarrow> (Err e, (handle, d'))
            | (Fault, d') \<Rightarrow> (Fault, (handle, d')))))"

definition dsf_open :: "heap \<Rightarrow> string option \<Rightarrow> unit file_op" where
  "dsf_open hp = open_with hp dsf_chunk_file_open_read DSF_FILE_MODE_READ"

definition dsf_open_modify :: "heap \<Rightarrow> string option \<Rightarrow> unit file_op" where
  "dsf_open_modify hp = open_with hp dsf_chunk_file_open_modify DSF_FILE_MODE_MODIFY"

section \<open>Block output\<close>

text \<open>One iteration of the loop that lines the channel blocks up in the scratch buffer.\<close>

definition assemble_channel :: "dsf \<Rightarrow> nat \<Rightarrow> bool \<Rightarrow> nat \<Rightarrow> nat \<Rightarrow> byte list \<Rightarrow> byte list option" where
  "assemble_channel x bytes_to_write pad_to_block block_bytes ch scratch =
     (if ch < length (channel_buffers x) then
        (case copy_at scratch (ch * block_bytes) (channel_buffers x ! ch) bytes_to_write of
           None \<Rightarrow> None
         | Some scratch' \<Rightarrow>
             (if pad_to_block \<and> bytes_to_write < DSF_BLOCK_SIZE_PER_CHANNEL
              then copy_at scratch' (ch * block_bytes + bytes_to_write)
                     (replicate (DSF_BLOCK_SIZE_PER_CHANNEL - bytes_to_write) 0)
                     (DSF_BLOCK_SIZE_PER_CHANNEL - bytes_to_write)
              else Some scratch'))
      else None)"

definition dsf_write_block_group :: "nat \<Rightarrow> bool \<Rightarrow> unit dsf_op" where
  "dsf_write_block_group bytes_to_write pad_to_block = (\<lambda>x.
     let block_bytes = (if pad_to_block then DSF_BLOCK_SIZE_PER_CHANNEL else bytes_to_write);
         total_bytes = block_bytes * cc x in
     case for_opt [0..<cc x] (assemble_channel x bytes_to_write pad_to_block block_bytes)
            (scratch_buffer x) of
       None \<Rightarrow> (Fault, x)
     | Some scratch \<Rightarrow>
         (if length scratch < total_bytes then (Fault, x\<lparr>scratch_buffer := scratch\<rparr>)
          else (case on_io (dsf_chunk_write_audio_data (take total_bytes scratch))
                       (x\<lparr>scratch_buffer := scratch\<rparr>) of
              (Ok written, x') \<Rightarrow> (Ok (), x'\<lparr>bytes_written := bytes_written x' + of_nat written\<rparr>)
            | (Err e, x') \<Rightarrow> (Err e, x')
            | (Fault, x') \<Rightarrow> (Fault, x'))))"

text \<open>One input byte of one channel, reversed, into its channel buffer.\<close>

definition deinterleave_channel :: "byte list \<Rightarrow> nat \<Rightarrow> nat \<Rightarrow> dsf \<Rightarrow> dsf option" where
  "deinterleave_channel buffer input_pos ch x =
     (if input_pos + ch < length buffer \<and> ch < length (channel_buffers x) then
        (case store_at (channel_buffers x ! ch) (bytes_buffered x) (rev8 (buffer ! (input_pos + ch))) of
           None \<Rightarrow> None
         | Some b \<Rightarrow> Some (x\<lparr>channel_buffers := (channel_buffers x)[ch := b]\<rparr>))
      else None)"

text \<open>The loop over the bytes of a channel; the first argument counts the iterations left. The
  result carries \<^verbatim>\<open>total_written\<close>, also when a block could not be written.\<close>

fun dsf_write_loop ::
  "nat \<Rightarrow> byte list \<Rightarrow> nat \<Rightarrow> nat \<Rightarrow> dsf \<Rightarrow> (dsf_error, unit) outcome \<times> nat \<times> dsf" where
  "dsf_write_loop 0 buffer input_pos written_total x = (Ok (), written_total, x)"
| "dsf_write_loop (Suc n) buffer input_pos written_total x =
     (case for_opt [0..<cc x] (deinterleave_channel buffer input_pos) x of
        None \<Rightarrow> (Fault, written_total, x)
      | Some x1 \<Rightarrow>
          (let x2 = x1\<lparr>bytes_buffered := bytes_buffered x1 + 1\<rparr> in
           if bytes_buffered x2 = DSF_BLOCK_SIZE_PER_CHANNEL then
             (case dsf_write_block_group DSF_BLOCK_SIZE_PER_CHANNEL False x2 of
                (Ok _, x3) \<Rightarrow> dsf_write_loop n buffer (input_pos + cc x)
                    (written_total + DSF_BLOCK_SIZE_PER_CHANNEL * cc x) (x3\<lparr>bytes_buffered := 0\<rparr>)
              | (Err e, x3) \<Rightarrow> (Err e, written_total, x3)
              | (Fault, x3) \<Rightarrow> (Fault, written_total, x3))
           else dsf_write_loop n buffer (input_pos + cc x) written_total x2))"

text \<open>The accounting after the loop.\<close>

definition account_samples :: "nat \<Rightarrow> dsf \<Rightarrow> dsf" where
  "account_samples bytes_per_channel x =
     (let sw = samples_written x +
            (if bits_per_sample (h_info x) = 1 then of_nat (bytes_per_channel * 8)
             else of_nat bytes_per_channel) in
      upd_info (\<lambda>i. i\<lparr>sample_count := sw, audio_data_size := bytes_written x,
          duration_seconds := dsf_calculate_duration sw (sampling_frequency i),
          bit_rate := dsf_calculate_bit_rate (channel_count i) (sampling_frequency i)
            (bits_per_sample i)\<rparr>)
        (x\<lparr>samples_written := sw\<rparr>))"

text \<open>The second component of the state is \<^verbatim>\<open>*bytes_written\<close>.\<close>

definition dsf_write_audio_data ::
  "byte list option \<Rightarrow> nat \<Rightarrow> (dsf option \<times> nat, dsf_error, unit) op" where
  "dsf_write_audio_data buffer num_bytes = (\<lambda>(handle, cell). case (handle, buffer) of
       (None, _) \<Rightarrow> (Err DSF_ERROR_INVALID_PARAMETER, (handle, cell))
     | (Some x, None) \<Rightarrow> (Err DSF_ERROR_INVALID_PARAMETER, (handle, cell))
     | (Some x, Some buf) \<Rightarrow>
         (if h_mode x \<noteq> DSF_FILE_MODE_WRITE then (Err DSF_ERROR_INVALID_MODE, (handle, cell))
          else if h_io x = None then (Err DSF_ERROR_NOT_OPEN, (handle, cell))
          else if cc x = 0 then (Fault, (handle, cell))
          else if num_bytes mod cc x \<noteq> 0 then (Err DSF_ERROR_INVALID_PARAMETER, (handle, cell))
          else (case dsf_write_loop (num_bytes div cc x) buf 0 0 x of
              (Ok _, written_total, x') \<Rightarrow> (Ok (), (Some (account_samples (num_bytes div cc x) x'), written_total))
            | (Err e, written_total, x') \<Rightarrow> (Err e, (Some x', written_total))
            | (Fault, written_total, x') \<Rightarrow> (Fault, (Some x', cell)))))"

definition dsf_flush_audio_data :: "unit api_op" where
  "dsf_flush_audio_data = nonnull_handle (\<lambda>x.
     if h_mode x \<noteq> DSF_FILE_MODE_WRITE then (Err DSF_ERROR_INVALID_MODE, x)
     else if h_io x = None then (Err DSF_ERROR_NOT_OPEN, x)
     else if 0 < bytes_buffered x then
       seq (dsf_write_block_group (bytes_buffered x) True) (\<lambda>_.
         modify (\<lambda>x. upd_info (\<lambda>i. i\<lparr>audio_data_size := bytes_written x\<rparr>)
           (x\<lparr>bytes_buffered := 0\<rparr>))) x
     else (Ok (), x))"

section \<open>Finishing and closing\<close>

definition dsf_finalize :: "unit api_op" where
  "dsf_finalize = nonnull_handle (\<lambda>x.
     if h_mode x \<noteq> DSF_FILE_MODE_WRITE \<and> h_mode x \<noteq> DSF_FILE_MODE_MODIFY
     then (Err DSF_ERROR_INVALID_MODE, x)
     else if h_io x = None then (Err DSF_ERROR_NOT_OPEN, x)
     else
     seq (\<lambda>x. if h_mode x = DSF_FILE_MODE_WRITE \<and> 0 < bytes_buffered x
            then on_handle dsf_flush_audio_data x else (Ok (), x)) (\<lambda>_.
     seq (on_io dsf_chunk_file_get_position) (\<lambda>current_pos.
     let data_size = current_pos -
           (DSF_DSD_CHUNK_SIZE + DSF_FMT_CHUNK_SIZE + DSF_DATA_CHUNK_HEADER_SIZE) in
     seq (on_io (dsf_chunk_update_data_size data_size)) (\<lambda>_.
     seq (modify (upd_info (\<lambda>i. i\<lparr>audio_data_size := data_size\<rparr>))) (\<lambda>_.
     seq (\<lambda>x. on_io (dsf_chunk_update_sample_count (sample_count (h_info x))) x) (\<lambda>_.
     seq (\<lambda>x. if metadata_buffer x \<noteq> None \<and> 0 < metadata_size x
            then on_io (dsf_chunk_write_metadata (metadata_buffer x) (metadata_size x)) x
            else (Ok 0, x)) (\<lambda>moffset.
     seq (on_io dsf_chunk_file_get_position) (\<lambda>fsize.
     seq (on_io (dsf_chunk_update_file_size fsize)) (\<lambda>_.
     seq (if 0 < moffset then on_io (dsf_chunk_update_metadata_offset moffset) else ret ()) (\<lambda>_.
     modify (upd_info (\<lambda>i. i\<lparr>file_size := fsize, metadata_offset := moffset\<rparr>))))))))))) x)"

definition dsf_close :: "unit file_op" where
  "dsf_close = (\<lambda>(handle, d). case handle of
       None \<Rightarrow> (Err DSF_ERROR_INVALID_PARAMETER, (handle, d))
     | Some x \<Rightarrow>
         (if h_mode x = DSF_FILE_MODE_CLOSED then (Ok (), (handle, d))
          else if h_io x = None then (Err DSF_ERROR_NOT_OPEN, (handle, d))
          else (case dsf_chunk_file_close (h_io x, d) of
             (r, (_, d')) \<Rightarrow> (r, (Some (dsf_reset_file_state x), d')))))"

definition dsf_remove_file :: "unit file_op" where
  "dsf_remove_file = (\<lambda>(handle, d). case handle of
       None \<Rightarrow> (Err DSF_ERROR_INVALID_PARAMETER, (handle, d))
     | Some x \<Rightarrow>
         (if h_io x = None then (Err DSF_ERROR_INVALID_PARAMETER, (handle, d))
          else (case dsf_chunk_file_get_filename DSF_MAX_STR_SIZE (h_io x) of
              (Ok filename, io') \<Rightarrow>
                (case dsf_close (Some (x\<lparr>h_io := io'\<rparr>), d) of
                   (Ok _, (handle', d')) \<Rightarrow>
                     (case remove_path filename d' of
                        (True, d'') \<Rightarrow> (Ok (), (handle', d''))
                      | (False, d'') \<Rightarrow> (Err DSF_ERROR_GENERIC, (handle', d'')))
                 | r \<Rightarrow> r)
            | (Err e, io') \<Rightarrow> (Err e, (Some (x\<lparr>h_io := io'\<rparr>), d))
            | (Fault, io') \<Rightarrow> (Fault, (Some (x\<lparr>h_io := io'\<rparr>), d)))))"

section \<open>File properties\<close>

text \<open>The getters of an open file share one guard.\<close>

definition getter :: "(dsf \<Rightarrow> 'a) \<Rightarrow> 'a api_op" where
  "getter g = nonnull_handle (\<lambda>x.
     if h_mode x = DSF_FILE_MODE_CLOSED then (Err DSF_ERROR_NOT_OPEN, x) else (Ok (g x), x))"

definition dsf_get_file_info :: "dsf_file_info api_op" where
  "dsf_get_file_info = getter h_info"

definition dsf_get_file_mode :: "dsf_file_mode api_op" where
  "dsf_get_file_mode = nonnull_handle (\<lambda>x. (Ok (h_mode x), x))"

definition dsf_get_filename :: "nat \<Rightarrow> string api_op" where
  "dsf_get_filename buffer_size = nonnull_handle (\<lambda>x.
     if h_io x = None then (Err DSF_ERROR_NOT_OPEN, x)
     else on_io (dsf_chunk_file_get_filename buffer_size) x)"

definition dsf_get_channel_count :: "u32 api_op" where
  "dsf_get_channel_count = getter (\<lambda>x. channel_count (h_info x))"

definition dsf_get_channel_type :: "u32 api_op" where
  "dsf_get_channel_type = getter (\<lambda>x. channel_type (h_info x))"

definition dsf_get_bits_per_sample :: "u32 api_op" where
  "dsf_get_bits_per_sample = getter (\<lambda>x. bits_per_sample (h_info x))"

definition dsf_get_sample_rate :: "u32 api_op" where
  "dsf_get_sample_rate = getter (\<lambda>x. sampling_frequency (h_info x))"

definition dsf_get_sample_count :: "u64 api_op" where
  "dsf_get_sample_count = getter (\<lambda>x. sample_count (h_info x))"

definition dsf_get_audio_data_size :: "u64 api_op" where
  "dsf_get_audio_data_size = getter (\<lambda>x. audio_data_size (h_info x))"

definition dsf_get_file_size :: "u64 api_op" where
  "dsf_get_file_size = getter (\<lambda>x. file_size (h_info x))"

definition dsf_get_duration :: "rat api_op" where
  "dsf_get_duration = getter (\<lambda>x. duration_seconds (h_info x))"

section \<open>Block input\<close>

text \<open>One byte of the conversion: source \<open>ch * 4096 + byte_in_block\<close>, destination
  \<open>byte_in_block * channel_count + ch\<close>.\<close>

definition convert_byte :: "byte list \<Rightarrow> nat \<Rightarrow> nat \<Rightarrow> nat \<Rightarrow> byte list \<Rightarrow> byte list option" where
  "convert_byte dsf_data ccount byte_in_block ch dsdiff_data =
     (let src_offset = ch * DSF_BLOCK_SIZE_PER_CHANNEL + byte_in_block;
          dst_offset = byte_in_block * ccount + ch in
      if src_offset < length dsf_data
      then store_at dsdiff_data dst_offset (rev8 (dsf_data ! src_offset)) else None)"

definition dsf_convert_block_to_byte_interleaved ::
  "byte list \<Rightarrow> byte list \<Rightarrow> nat \<Rightarrow> byte list option" where
  "dsf_convert_block_to_byte_interleaved dsf_data dsdiff_data ccount =
     for_opt [0..<DSF_BLOCK_SIZE_PER_CHANNEL] (\<lambda>byte_in_block.
       for_opt [0..<ccount] (convert_byte dsf_data ccount byte_in_block)) dsdiff_data"

text \<open>The file bytes go to the scratch buffer, the converted ones to the read buffer.\<close>

definition dsf_read_and_buffer_block_group :: "unit dsf_op" where
  "dsf_read_and_buffer_block_group = (\<lambda>x.
     let block_group_size = DSF_BLOCK_SIZE_PER_CHANNEL * cc x in
     if length (scratch_buffer x) < block_group_size then (Fault, x)
     else (case on_io (dsf_chunk_read_audio_data block_group_size) x of
         (Ok bs, x') \<Rightarrow>
           (let x1 = x'\<lparr>scratch_buffer := bs @ drop (length bs) (scratch_buffer x')\<rparr> in
            if length bs = 0 then (Err DSF_ERROR_END_OF_DATA, x1)
            else (case dsf_convert_block_to_byte_interleaved (scratch_buffer x1) (read_buffer x1) (cc x1) of
                None \<Rightarrow> (Fault, x1)
              | Some rb \<Rightarrow> (Ok (), x1\<lparr>read_buffer := rb, read_buffer_pos := 0,
                                        read_buffer_valid := length bs\<rparr>)))
       | (Err e, x') \<Rightarrow> (Err e, x')
       | (Fault, x') \<Rightarrow> (Fault, x')))"

text \<open>A refill that succeeds leaves something to copy, which is why the read loop ends.\<close>

lemma refill_valid:
  "dsf_read_and_buffer_block_group x = (Ok u, x') \<Longrightarrow>
     read_buffer_pos x' = 0 \<and> 0 < read_buffer_valid x'"
  by (auto simp: dsf_read_and_buffer_block_group_def Let_def
      split: if_splits prod.splits outcome.splits option.splits)

text \<open>The read loop; \<open>out\<close> is the filled part of the caller's buffer, so its length is
  \<^verbatim>\<open>total_read\<close>.\<close>

function dsf_read_loop ::
  "nat \<Rightarrow> byte list \<Rightarrow> dsf \<Rightarrow> (dsf_error, unit) outcome \<times> byte list \<times> dsf" where
  "dsf_read_loop num_bytes out x =
     (if length out < num_bytes then
        (if read_buffer_pos x < read_buffer_valid x then
           (let available = read_buffer_valid x - read_buffer_pos x;
                needed = num_bytes - length out;
                to_copy = (if available < needed then available else needed) in
            if length (read_buffer x) < read_buffer_pos x + to_copy then (Fault, out, x)
            else dsf_read_loop num_bytes
                   (out @ take to_copy (drop (read_buffer_pos x) (read_buffer x)))
                   (x\<lparr>read_buffer_pos := read_buffer_pos x + to_copy\<rparr>))
         else (case dsf_read_and_buffer_block_group x of
             (Ok _, x') \<Rightarrow> dsf_read_loop num_bytes out x'
           | (Err e, x') \<Rightarrow>
               (if e = DSF_ERROR_END_OF_DATA then (Ok (), out, x') else (Err e, out, x'))
           | (Fault, x') \<Rightarrow> (Fault, out, x')))
      else (Ok (), out, x))"
  by pat_completeness auto
termination
  by (relation "measures [\<lambda>(n, out, x). n - length out,
                          \<lambda>(n, out, x). if read_buffer_pos x < read_buffer_valid x then 0 else 1]")
     (auto simp: Let_def dest: refill_valid [OF sym])

declare dsf_read_loop.simps [simp del]

text \<open>The second component of the state is the filled part of \<^verbatim>\<open>buffer\<close>, whose length is
  \<^verbatim>\<open>*bytes_read\<close>; \<open>given\<close> says whether the caller's buffer pointer is not NULL.\<close>

definition dsf_read_audio_data :: "bool \<Rightarrow> nat \<Rightarrow> (dsf option \<times> byte list, dsf_error, unit) op" where
  "dsf_read_audio_data given num_bytes = (\<lambda>(handle, out). case handle of
       None \<Rightarrow> (Err DSF_ERROR_INVALID_PARAMETER, (handle, out))
     | Some x \<Rightarrow>
         (if \<not> given then (Err DSF_ERROR_INVALID_PARAMETER, (handle, out))
          else if h_mode x \<noteq> DSF_FILE_MODE_READ \<and> h_mode x \<noteq> DSF_FILE_MODE_MODIFY
            then (Err DSF_ERROR_INVALID_MODE, (handle, []))
          else if h_io x = None then (Err DSF_ERROR_NOT_OPEN, (handle, []))
          else (case dsf_read_loop num_bytes [] x of (r, out', x') \<Rightarrow> (r, (Some x', out')))))"

section \<open>Positions in the audio data\<close>

definition drop_read_buffer :: "dsf \<Rightarrow> dsf" where
  "drop_read_buffer x = x\<lparr>read_buffer_pos := 0, read_buffer_valid := 0\<rparr>"

definition dsf_seek_to_audio_start :: "unit api_op" where
  "dsf_seek_to_audio_start = nonnull_handle (\<lambda>x.
     if h_mode x \<noteq> DSF_FILE_MODE_READ \<and> h_mode x \<noteq> DSF_FILE_MODE_MODIFY
     then (Err DSF_ERROR_INVALID_MODE, x)
     else if h_io x = None then (Err DSF_ERROR_NOT_OPEN, x)
     else seq (on_io (dsf_chunk_file_seek (sint (audio_data_offset (h_info x))) SEEK_SET True)) (\<lambda>_.
            modify drop_read_buffer) x)"

text \<open>The offsets are computed in \<^verbatim>\<open>uint64_t\<close> and stored in an \<^verbatim>\<open>int64_t\<close>.\<close>

definition dsf_seek_audio_data :: "int \<Rightarrow> seek_origin \<Rightarrow> unit api_op" where
  "dsf_seek_audio_data byte_offset origin = nonnull_handle (\<lambda>x.
     if h_mode x \<noteq> DSF_FILE_MODE_READ \<and> h_mode x \<noteq> DSF_FILE_MODE_MODIFY
     then (Err DSF_ERROR_INVALID_MODE, x)
     else if h_io x = None then (Err DSF_ERROR_NOT_OPEN, x)
     else seq (on_io (case origin of
              SEEK_SET \<Rightarrow> dsf_chunk_file_seek
                (sint (audio_data_offset (h_info x) + of_int byte_offset)) SEEK_SET True
            | SEEK_CUR \<Rightarrow> dsf_chunk_file_seek byte_offset SEEK_CUR True
            | SEEK_END \<Rightarrow> dsf_chunk_file_seek
                (sint (audio_data_offset (h_info x) + audio_data_size (h_info x) +
                   of_int byte_offset)) SEEK_SET True)) (\<lambda>_.
            modify drop_read_buffer) x)"

definition dsf_get_audio_position :: "u64 api_op" where
  "dsf_get_audio_position = nonnull_handle (\<lambda>x.
     if h_mode x \<noteq> DSF_FILE_MODE_READ \<and> h_mode x \<noteq> DSF_FILE_MODE_MODIFY
     then (Err DSF_ERROR_INVALID_MODE, x)
     else if h_io x = None then (Err DSF_ERROR_NOT_OPEN, x)
     else seq (on_io dsf_chunk_file_get_position) (\<lambda>file_pos.
            (\<lambda>x. (Ok (if file_pos < audio_data_offset (h_info x) then 0
                       else file_pos - audio_data_offset (h_info x)), x))) x)"

section \<open>Metadata\<close>

definition dsf_has_metadata :: "bool api_op" where
  "dsf_has_metadata = getter (\<lambda>x. metadata_buffer x \<noteq> None \<and> 0 < metadata_size x)"

definition dsf_get_metadata_size :: "u64 api_op" where
  "dsf_get_metadata_size = getter metadata_size"

definition dsf_read_metadata :: "heap \<Rightarrow> (byte list \<times> u64) api_op" where
  "dsf_read_metadata hp = nonnull_handle (\<lambda>x.
     if h_mode x = DSF_FILE_MODE_CLOSED then (Err DSF_ERROR_NOT_OPEN, x)
     else (case metadata_buffer x of
         None \<Rightarrow> (Err DSF_ERROR_NO_METADATA, x)
       | Some buf \<Rightarrow>
           (if metadata_size x = 0 then (Err DSF_ERROR_NO_METADATA, x)
            else (case dsf_uint64_to_sizet (metadata_size x) of
                None \<Rightarrow> (Err DSF_ERROR_INVALID_METADATA, x)
              | Some size_to_alloc \<Rightarrow>
                  (if \<not> sa_malloc hp size_to_alloc then (Err DSF_ERROR_OUT_OF_MEMORY, x)
                   else if length buf < size_to_alloc then (Fault, x)
                   else (Ok (take size_to_alloc buf, metadata_size x), x))))))"

definition dsf_write_metadata :: "heap \<Rightarrow> byte list option \<Rightarrow> u64 \<Rightarrow> unit api_op" where
  "dsf_write_metadata hp buffer sz = nonnull_handle (\<lambda>x.
     case buffer of
       None \<Rightarrow> (Err DSF_ERROR_INVALID_PARAMETER, x)
     | Some buf \<Rightarrow>
         (if sz = 0 then (Err DSF_ERROR_INVALID_PARAMETER, x)
          else if h_mode x \<noteq> DSF_FILE_MODE_WRITE \<and> h_mode x \<noteq> DSF_FILE_MODE_MODIFY
            then (Err DSF_ERROR_INVALID_MODE, x)
          else if DSF_MAX_REASONABLE_METADATA_SIZE < sz then (Err DSF_ERROR_INVALID_METADATA, x)
          else (case dsf_uint64_to_sizet sz of
              None \<Rightarrow> (Err DSF_ERROR_INVALID_METADATA, x)
            | Some size_to_alloc \<Rightarrow>
                (if \<not> sa_malloc hp size_to_alloc then (Err DSF_ERROR_OUT_OF_MEMORY, x)
                 else if length buf < size_to_alloc then (Fault, x)
                 else (Ok (), x\<lparr>metadata_buffer := Some (take size_to_alloc buf),
                                 metadata_size := sz, metadata_modified := True\<rparr>)))))"

section \<open>Validation and messages\<close>

definition dsf_validate :: "unit api_op" where
  "dsf_validate = nonnull_handle (\<lambda>x.
     if h_mode x = DSF_FILE_MODE_CLOSED \<or> h_io x = None then (Err DSF_ERROR_NOT_OPEN, x)
     else on_io dsf_chunk_validate_file x)"

definition dsf_error_strings :: "(int \<times> string) list" where
  "dsf_error_strings = [
     (0, ''Success''),
     (-1, ''File already open''), (-2, ''File not open''),
     (-3, ''File is open for reading''), (-4, ''File is open for writing''),
     (-10, ''Invalid DSF file''), (-11, ''Invalid chunk structure''),
     (-12, ''Invalid DSF format''), (-13, ''Invalid DSF version''),
     (-14, ''Unsupported compression''), (-15, ''Unexpected end of file''),
     (-20, ''Read error''), (-21, ''Write error''), (-22, ''Seek error''),
     (-23, ''End of sound data reached''), (-24, ''Maximum file size exceeded''),
     (-25, ''File not found''), (-26, ''Cannot create file''),
     (-27, ''String conversion failed''), (-28, ''Generic error''),
     (-30, ''No channel information''), (-31, ''Invalid number of channels''),
     (-32, ''Channel identifiers incorrect''), (-33, ''Invalid sample rate''),
     (-34, ''Invalid bits per sample''), (-35, ''Invalid block size''),
     (-40, ''Invalid argument''), (-41, ''Out of memory''), (-42, ''Buffer too small''),
     (-43, ''Invalid file mode''), (-44, ''Operation not allowed in current state''),
     (-50, ''No metadata''), (-51, ''Invalid metadata'')]"

definition dsf_error_string :: "int \<Rightarrow> string" where
  "dsf_error_string code =
     (case map_of dsf_error_strings code of None \<Rightarrow> ''Unknown error'' | Some msg \<Rightarrow> msg)"

end
