(* ===== verification/Dsf_Audio.thy ===== *)
theory Dsf_Audio
  imports Dsf_File
begin

text \<open>
  The block layout of DSF audio, as a specification, and the proof that the buffered writer and
  the block reader of \<open>Dsf_File\<close> implement it. The specification speaks of the byte-interleaved
  stream only: \<open>block_of c ys\<close> is the block group of one group's worth of stream bytes,
  \<open>blocks c xs\<close> the concatenated block groups of the whole groups in \<open>xs\<close>.
\<close>

section \<open>Loops\<close>

lemma for_opt_append:
  "for_opt (xs @ ys) f a = (case for_opt xs f a of None \<Rightarrow> None | Some b \<Rightarrow> for_opt ys f b)"
  by (induction xs arbitrary: a) (auto split: option.splits)

text \<open>The loop rule: a state function that each iteration advances.\<close>

lemma for_opt_steps:
  assumes "\<And>i. i < n \<Longrightarrow> f i (st i) = Some (st (Suc i))"
  shows "for_opt [0..<n] f (st 0) = Some (st n)"
  using assms by (induction n) (auto simp: for_opt_append)

lemma for_opt_steps_from:
  assumes "a = st 0" "\<And>i. i < n \<Longrightarrow> f i (st i) = Some (st (Suc i))" "b = st n"
  shows "for_opt [0..<n] f a = Some b"
  using for_opt_steps [of n f st] assms by simp

section \<open>The layout\<close>

abbreviation (input) B :: nat where "B \<equiv> DSF_BLOCK_SIZE_PER_CHANNEL"

definition block_of :: "nat \<Rightarrow> byte list \<Rightarrow> byte list" where
  "block_of c ys = map (\<lambda>k. rev8 (ys ! (k mod B * c + k div B))) [0..<B * c]"

function blocks :: "nat \<Rightarrow> byte list \<Rightarrow> byte list" where
  "blocks c xs = (if c = 0 \<or> length xs < B * c then []
     else block_of c (take (B * c) xs) @ blocks c (drop (B * c) xs))"
  by pat_completeness auto
termination
  by (relation "measure (\<lambda>(c, xs). length xs)") (auto simp: DSF_BLOCK_SIZE_PER_CHANNEL_def)

declare blocks.simps [simp del]

lemma B_pos [simp]: "0 < B"
  by (simp add: DSF_BLOCK_SIZE_PER_CHANNEL_def)

lemma length_block_of [simp]: "length (block_of c ys) = B * c"
  by (simp add: block_of_def)

lemma block_index: "ch < c \<Longrightarrow> i < B \<Longrightarrow> ch * B + i < B * c"
proof -
  assume a: "ch < c" "i < B"
  then have "ch * B + i < Suc ch * B" by simp
  also have "\<dots> \<le> c * B" using a by (intro mult_le_mono1) simp
  finally show ?thesis by (simp add: mult.commute)
qed

lemma stream_index: "ch < c \<Longrightarrow> i < n \<Longrightarrow> i * c + ch < n * (c :: nat)"
proof -
  assume a: "ch < c" "i < n"
  then have "i * c + ch < Suc i * c" by simp
  also have "\<dots> \<le> n * c" using a by (intro mult_le_mono1) simp
  finally show ?thesis .
qed

lemma nth_block_of:
  "ch < c \<Longrightarrow> i < B \<Longrightarrow> block_of c ys ! (ch * B + i) = rev8 (ys ! (i * c + ch))"
  by (simp add: block_of_def block_index)

lemma blocks_short: "length xs < B * c \<Longrightarrow> blocks c xs = []"
  by (simp add: blocks.simps)

lemma blocks_cons:
  "0 < c \<Longrightarrow> length ys = B * c \<Longrightarrow> blocks c (ys @ xs) = block_of c ys @ blocks c xs"
  by (simp add: blocks.simps [of c "ys @ xs"])

lemma blocks_append:
  assumes "0 < c" "B * c dvd length pre"
  shows "blocks c (pre @ xs) = blocks c pre @ blocks c xs"
  using assms
proof (induction c pre rule: blocks.induct)
  case (1 c pre)
  show ?case
  proof (cases "length pre < B * c")
    case True
    with "1.prems" have "pre = []"
      using dvd_imp_le [of "B * c" "length pre"] by (cases pre) auto
    then show ?thesis using True by (simp add: blocks_short)
  next
    case False
    define hd_part where "hd_part = take (B * c) pre"
    define tl_part where "tl_part = drop (B * c) pre"
    have pre: "pre = hd_part @ tl_part" and len: "length hd_part = B * c"
      using False by (simp_all add: hd_part_def tl_part_def)
    have "B * c dvd length tl_part"
      using "1.prems" False by (simp add: tl_part_def dvd_minus_self)
    then have "blocks c (tl_part @ xs) = blocks c tl_part @ blocks c xs"
      using "1.IH" "1.prems" False unfolding tl_part_def by simp
    then show ?thesis
      using len "1.prems" by (simp add: pre blocks_cons)
  qed
qed

lemma length_blocks: "0 < c \<Longrightarrow> length (blocks c xs) = length xs div (B * c) * (B * c)"
proof (induction c xs rule: blocks.induct)
  case (1 c xs)
  show ?case
  proof (cases "length xs < B * c")
    case True
    then show ?thesis by (simp add: blocks_short)
  next
    case False
    then have "length xs div (B * c) = Suc ((length xs - B * c) div (B * c))"
      using "1.prems" by (simp add: le_div_geq)
    then show ?thesis
      using "1.IH" "1.prems" False by (simp add: blocks.simps [of c xs])
  qed
qed

lemma length_blocks_dvd: "0 < c \<Longrightarrow> B * c dvd length xs \<Longrightarrow> length (blocks c xs) = length xs"
  by (simp add: length_blocks)

section \<open>The block reader inverts the layout\<close>

definition unblock :: "nat \<Rightarrow> byte list \<Rightarrow> nat \<Rightarrow> byte" where
  "unblock c d k = rev8 (d ! (k mod c * B + k div c))"

lemma store_next:
  "k < length e \<Longrightarrow> store_at (map g [0..<k] @ drop k e) k (g k) =
     Some (map g [0..<Suc k] @ drop (Suc k) e)"
  by (simp add: store_at_def list_update_append Cons_nth_drop_Suc [symmetric])

lemma convert_byte_step:
  assumes "ch < c" "i < B" "B * c \<le> length d" "B * c \<le> length e"
  shows "convert_byte d c i ch (map (unblock c d) [0..<i * c + ch] @ drop (i * c + ch) e) =
    Some (map (unblock c d) [0..<Suc (i * c + ch)] @ drop (Suc (i * c + ch)) e)"
proof -
  have "ch * B + i < length d" and "i * c + ch < length e"
    using assms block_index [of ch c i] stream_index [of ch c i B] by simp_all
  moreover have "rev8 (d ! (ch * B + i)) = unblock c d (i * c + ch)"
    using assms(1) by (simp add: unblock_def)
  ultimately show ?thesis
    by (simp add: convert_byte_def Let_def store_next del: upt_Suc)
qed

lemma convert_block:
  assumes "B * c \<le> length d" "B * c \<le> length e"
  shows "dsf_convert_block_to_byte_interleaved d e c =
    Some (map (unblock c d) [0..<B * c] @ drop (B * c) e)"
proof -
  let ?st = "\<lambda>k. map (unblock c d) [0..<k] @ drop k e"
  have inner: "for_opt [0..<c] (convert_byte d c i) (?st (i * c)) = Some (?st (Suc i * c))"
    if "i < B" for i
    by (rule for_opt_steps_from [where st = "\<lambda>ch. ?st (i * c + ch)"])
       (use convert_byte_step [OF _ that assms] in \<open>simp_all add: add.commute\<close>)
  show ?thesis
    unfolding dsf_convert_block_to_byte_interleaved_def
    by (rule for_opt_steps_from [where st = "\<lambda>i. ?st (i * c)"]) (simp_all add: inner del: upt_Suc)
qed

lemma unblock_block_of:
  assumes "0 < c" "length ys = B * c"
  shows "map (unblock c (block_of c ys @ tail)) [0..<B * c] = ys"
proof (rule nth_equalityI)
  fix k
  assume "k < length (map (unblock c (block_of c ys @ tail)) [0..<B * c])"
  then have k: "k < B * c" by simp
  then have "k div c < B" using assms(1) by (simp add: div_less_iff_less_mult)
  moreover have "k mod c < c" using assms(1) by simp
  ultimately have "(block_of c ys @ tail) ! (k mod c * B + k div c) = rev8 (ys ! k)"
    using block_index [of "k mod c" c "k div c"] by (simp add: nth_append nth_block_of)
  then show "map (unblock c (block_of c ys @ tail)) [0..<B * c] ! k = ys ! k"
    using k by (simp add: unblock_def)
qed (simp add: assms)

section \<open>Writing one block group\<close>

text \<open>The sizes of the arrays of a handle and the range of the channel count.\<close>

definition shape :: "dsf \<Rightarrow> bool" where
  "shape x \<longleftrightarrow> length (channel_buffers x) = DSF_MAX_CHANNELS \<and>
     (\<forall>b \<in> set (channel_buffers x). length b = B) \<and>
     length (scratch_buffer x) = B * DSF_MAX_CHANNELS \<and>
     length (read_buffer x) = B * DSF_MAX_CHANNELS"

definition channels_ok :: "dsf \<Rightarrow> bool" where
  "channels_ok x \<longleftrightarrow> 0 < cc x \<and> cc x \<le> DSF_MAX_CHANNELS"

text \<open>The first \<open>r\<close> bytes of every channel buffer are the stream bytes \<open>pend\<close>.\<close>

definition holds :: "dsf \<Rightarrow> nat \<Rightarrow> byte list \<Rightarrow> bool" where
  "holds x r pend \<longleftrightarrow> length pend = r * cc x \<and>
     (\<forall>ch < cc x. \<forall>i < r. channel_buffers x ! ch ! i = rev8 (pend ! (i * cc x + ch)))"

lemma shape_buffer: "shape x \<Longrightarrow> ch < DSF_MAX_CHANNELS \<Longrightarrow> length (channel_buffers x ! ch) = B"
  by (simp add: shape_def)

lemma concat_blocks:
  assumes "\<And>ch. ch < c \<Longrightarrow> length (f ch) = n" "0 < n"
  shows "concat (map f [0..<c]) = map (\<lambda>k. f (k div n) ! (k mod n)) [0..<n * c]"
  using assms(1)
proof (induction c)
  case 0
  then show ?case by simp
next
  case (Suc c)
  have "map (\<lambda>k. f (k div n) ! (k mod n)) [n * c..<n * c + n] = map ((!) (f c)) [0..<n]"
    using assms(2) by (intro nth_equalityI) simp_all
  also have "\<dots> = f c" using Suc.prems [of c] map_nth [of "f c"] by simp
  finally have "map (\<lambda>k. f (k div n) ! (k mod n)) [0..<n * c + n] =
      map (\<lambda>k. f (k div n) ! (k mod n)) [0..<n * c] @ f c"
    by (simp add: upt_add_eq_append [of 0])
  with Suc show ?case by (simp add: add.commute)
qed

lemma copy_next:
  "length pre = k \<Longrightarrow> k + n \<le> length e \<Longrightarrow> n \<le> length src \<Longrightarrow>
     copy_at (pre @ drop k e) k src n = Some ((pre @ take n src) @ drop (k + n) e)"
  by (simp add: copy_at_def add.commute)

text \<open>One padded channel block.\<close>

definition padded :: "dsf \<Rightarrow> nat \<Rightarrow> nat \<Rightarrow> byte list" where
  "padded x r ch = take r (channel_buffers x ! ch) @ replicate (B - r) 0"

lemma length_padded: "shape x \<Longrightarrow> ch < DSF_MAX_CHANNELS \<Longrightarrow> r \<le> B \<Longrightarrow> length (padded x r ch) = B"
  by (simp add: padded_def shape_buffer)

lemma length_concat_padded:
  "shape x \<Longrightarrow> n \<le> DSF_MAX_CHANNELS \<Longrightarrow> r \<le> B \<Longrightarrow>
     length (concat (map (padded x r) [0..<n])) = n * B"
  by (induction n) (simp_all add: length_padded)

lemma assemble_step:
  assumes "shape x" "channels_ok x" "r \<le> B" "pad \<or> r = B" "ch < cc x"
  shows "assemble_channel x r pad B ch
      (concat (map (padded x r) [0..<ch]) @ drop (ch * B) (scratch_buffer x)) =
    Some (concat (map (padded x r) [0..<Suc ch]) @ drop (Suc ch * B) (scratch_buffer x))"
proof -
  let ?pre = "concat (map (padded x r) [0..<ch])"
  have ch: "ch < DSF_MAX_CHANNELS" and pre: "length ?pre = ch * B"
    using assms by (auto simp: channels_ok_def length_concat_padded)
  have "Suc ch * B \<le> DSF_MAX_CHANNELS * B" using ch by (intro mult_le_mono1) simp
  then have room: "ch * B + B \<le> length (scratch_buffer x)"
    using assms(1) by (simp add: shape_def mult.commute)
  have cb: "ch < length (channel_buffers x)" using ch assms(1) by (simp add: shape_def)
  have "copy_at (?pre @ drop (ch * B) (scratch_buffer x)) (ch * B) (channel_buffers x ! ch) r =
      Some ((?pre @ take r (channel_buffers x ! ch)) @ drop (ch * B + r) (scratch_buffer x))"
    using room assms ch pre by (intro copy_next) (simp_all add: shape_buffer)
  moreover have "copy_at ((?pre @ take r (channel_buffers x ! ch)) @
        drop (ch * B + r) (scratch_buffer x)) (ch * B + r) (replicate (B - r) 0) (B - r) =
      Some (((?pre @ take r (channel_buffers x ! ch)) @ take (B - r) (replicate (B - r) 0)) @
        drop (ch * B + r + (B - r)) (scratch_buffer x))"
    using room assms ch pre by (intro copy_next) (simp_all add: shape_buffer)
  moreover have "ch * B + r + (B - r) = Suc ch * B" using assms(3) by simp
  ultimately show ?thesis
    using assms(3,4) cb by (auto simp: assemble_channel_def padded_def add.commute)
qed

lemma assemble_all:
  assumes "shape x" "channels_ok x" "r \<le> B" "pad \<or> r = B"
  shows "for_opt [0..<cc x] (assemble_channel x r pad B) (scratch_buffer x) =
    Some (concat (map (padded x r) [0..<cc x]) @ drop (cc x * B) (scratch_buffer x))"
  by (rule for_opt_steps_from [where st =
        "\<lambda>n. concat (map (padded x r) [0..<n]) @ drop (n * B) (scratch_buffer x)"])
     (use assemble_step [OF assms] in \<open>simp_all del: upt_Suc\<close>)

lemma padded_is_block:
  assumes "shape x" "channels_ok x" "r \<le> B" "holds x r pend"
  shows "concat (map (padded x r) [0..<cc x]) = block_of (cc x) (pend @ replicate ((B - r) * cc x) 0)"
proof -
  let ?ys = "pend @ replicate ((B - r) * cc x) 0"
  have len: "length (padded x r ch) = B" if "ch < cc x" for ch
    using that assms by (auto simp: channels_ok_def length_padded)
  have "padded x r ch ! i = rev8 (?ys ! (i * cc x + ch))" if "ch < cc x" "i < B" for ch i
  proof (cases "i < r")
    case True
    then show ?thesis
      using that assms stream_index [of ch "cc x" i r]
      by (auto simp: padded_def holds_def nth_append channels_ok_def shape_buffer)
  next
    case False
    have "r * cc x \<le> i * cc x + ch" using False by (simp add: trans_le_add1)
    moreover have "i * cc x + ch < B * cc x" using that by (rule stream_index)
    ultimately show ?thesis
      using False that assms
      by (auto simp: padded_def holds_def nth_append channels_ok_def shape_buffer diff_mult_distrib)
  qed
  then have "map (\<lambda>k. padded x r (k div B) ! (k mod B)) [0..<B * cc x] = block_of (cc x) ?ys"
    by (auto simp: block_of_def div_less_iff_less_mult mult.commute)
  then show ?thesis using concat_blocks [of "cc x" "padded x r" B, OF len] by simp
qed

text \<open>A block group that the device takes is appended; one that it refuses is an error that
  leaves the number of buffered bytes as it is.\<close>

lemma write_block_group_ok:
  assumes "shape x" "channels_ok x" "r \<le> B" "pad \<or> r = B" "holds x r pend"
    and io: "h_io x = io_put s d (length d)" "io_is_open s"
    and room: "io_can_write s (length d + B * cc x)"
  shows "\<exists>sc. length sc = B * DSF_MAX_CHANNELS \<and> dsf_write_block_group r pad x =
    (Ok (), x\<lparr>scratch_buffer := sc, bytes_written := bytes_written x + of_nat (B * cc x),
       h_io := io_put s (d @ block_of (cc x) (pend @ replicate ((B - r) * cc x) 0))
                 (length d + B * cc x)\<rparr>)"
proof -
  let ?blk = "block_of (cc x) (pend @ replicate ((B - r) * cc x) 0)"
  let ?sc = "?blk @ drop (cc x * B) (scratch_buffer x)"
  have bb: "(if pad then B else r) = B" using assms(4) by auto
  have as: "for_opt [0..<cc x] (assemble_channel x r pad B) (scratch_buffer x) = Some ?sc"
    using assemble_all [OF assms(1-4)] padded_is_block [OF assms(1-3,5)] by simp
  have "B * cc x \<le> B * DSF_MAX_CHANNELS" using assms(2) by (simp add: channels_ok_def)
  then have len: "length ?sc = B * DSF_MAX_CHANNELS"
    using assms(1) by (simp add: shape_def mult.commute)
  have "dsf_chunk_write_audio_data ?blk (io_put s d (length d)) =
      (Ok (B * cc x), io_put s (d @ ?blk) (length d + B * cc x))"
    using io room by (simp add: dsf_chunk_write_audio_data_def field_steps patch_at_end)
  then have "dsf_write_block_group r pad x =
    (Ok (), x\<lparr>scratch_buffer := ?sc, bytes_written := bytes_written x + of_nat (B * cc x),
       h_io := io_put s (d @ ?blk) (length d + B * cc x)\<rparr>)"
    by (simp add: dsf_write_block_group_def bb as on_io_def io)
  then show ?thesis using len by blast
qed

lemma write_block_group_full:
  assumes "shape x" "channels_ok x" "r \<le> B" "pad \<or> r = B" "holds x r pend"
    and io: "h_io x = io_put s d (length d)" "io_is_open s"
    and room: "\<not> io_can_write s (length d + B * cc x)"
  shows "\<exists>io' sc. dsf_write_block_group r pad x =
    (Err DSF_ERROR_WRITE, x\<lparr>scratch_buffer := sc, h_io := io'\<rparr>)"
proof -
  let ?blk = "block_of (cc x) (pend @ replicate ((B - r) * cc x) 0)"
  let ?sc = "?blk @ drop (cc x * B) (scratch_buffer x)"
  have bb: "(if pad then B else r) = B" using assms(4) by auto
  have as: "for_opt [0..<cc x] (assemble_channel x r pad B) (scratch_buffer x) = Some ?sc"
    using assemble_all [OF assms(1-4)] padded_is_block [OF assms(1-3,5)] by simp
  have "?blk \<noteq> []"
    using assms(2) length_block_of [of "cc x"] by (auto simp: channels_ok_def simp flip: length_greater_0_conv)
  then obtain io' where "io_wr ?blk (io_put s d (length d)) = (Err DSF_ERROR_WRITE, io')"
    using dsf_stream.wr_full [of "io_put s d (length d)" ?blk] io room
    by (auto simp: dsf_stream.stream_simps)
  then have "dsf_io_write_bytes ?blk (io_put s d (length d)) = (Err DSF_ERROR_WRITE, io')"
    by (auto simp: io_wr_def seq_def split: prod.splits outcome.splits)
  then have "dsf_write_block_group r pad x =
      (Err DSF_ERROR_WRITE, x\<lparr>scratch_buffer := ?sc, h_io := io'\<rparr>)"
    using io by (simp add: dsf_write_block_group_def bb as on_io_def dsf_chunk_write_audio_data_def)
  then show ?thesis by blast
qed

section \<open>Taking one frame into the channel buffers\<close>

definition put_frame :: "byte list \<Rightarrow> nat \<Rightarrow> nat \<Rightarrow> dsf \<Rightarrow> dsf" where
  "put_frame buf ip n x = x\<lparr>channel_buffers := map (\<lambda>ch.
     if ch < n then (channel_buffers x ! ch)[bytes_buffered x := rev8 (buf ! (ip + ch))]
     else channel_buffers x ! ch) [0..<length (channel_buffers x)]\<rparr>"

lemma deinterleave_step:
  assumes "shape x" "bytes_buffered x < B" "ip + n < length buf" "n < DSF_MAX_CHANNELS"
  shows "deinterleave_channel buf ip n (put_frame buf ip n x) = Some (put_frame buf ip (Suc n) x)"
proof -
  have "length (channel_buffers x) = DSF_MAX_CHANNELS" using assms(1) by (simp add: shape_def)
  moreover have "(map f [0..<m])[n := v] = map (\<lambda>ch. if ch = n then v else f ch) [0..<m]"
    for f m and v :: "byte list"
    by (rule nth_equalityI) (auto simp: nth_list_update)
  ultimately show ?thesis
    using assms
    by (auto simp: deinterleave_channel_def put_frame_def store_at_def shape_buffer less_Suc_eq)
qed

lemma deinterleave_all:
  assumes "shape x" "channels_ok x" "bytes_buffered x < B" "ip + cc x \<le> length buf"
  shows "for_opt [0..<cc x] (deinterleave_channel buf ip) x = Some (put_frame buf ip (cc x) x)"
proof (rule for_opt_steps_from [where st = "\<lambda>n. put_frame buf ip n x"])
  show "x = put_frame buf ip 0 x"
    by (simp add: put_frame_def map_nth)
  fix n assume "n < cc x"
  then show "deinterleave_channel buf ip n (put_frame buf ip n x) = Some (put_frame buf ip (Suc n) x)"
    using assms by (intro deinterleave_step) (auto simp: channels_ok_def)
qed simp

lemma shape_put_frame: "shape x \<Longrightarrow> shape (put_frame buf ip n x)"
  by (auto simp: shape_def put_frame_def)

lemma holds_put_frame:
  assumes "shape x" "channels_ok x" "bytes_buffered x < B" "ip + cc x \<le> length buf"
    and "holds x (bytes_buffered x) pend"
  shows "holds (put_frame buf ip (cc x) x) (Suc (bytes_buffered x)) (pend @ bytes_at ip (cc x) buf)"
proof -
  let ?r = "bytes_buffered x" and ?c = "cc x"
  have "channel_buffers (put_frame buf ip ?c x) ! ch ! i =
      rev8 ((pend @ bytes_at ip ?c buf) ! (i * ?c + ch))" if "ch < ?c" "i < Suc ?r" for ch i
  proof -
    have ch: "ch < DSF_MAX_CHANNELS" "ch < length (channel_buffers x)"
      using that assms by (auto simp: channels_ok_def shape_def)
    show ?thesis
    proof (cases "i < ?r")
      case True
      then have "i * ?c + ch < length pend"
        using that assms(5) stream_index [of ch ?c i ?r] by (simp add: holds_def)
      then show ?thesis
        using True that ch assms(5) by (simp add: put_frame_def holds_def nth_append)
    next
      case False
      with that have "i = ?r" by simp
      then show ?thesis
        using that ch assms
        by (simp add: put_frame_def holds_def nth_append bytes_at_def shape_buffer)
    qed
  qed
  moreover have "length (pend @ bytes_at ip ?c buf) = Suc ?r * ?c"
    using assms(4,5) by (simp add: holds_def length_bytes_at add.commute)
  ultimately show ?thesis by (simp add: holds_def put_frame_def)
qed

section \<open>The buffered writer refines the layout\<close>

text \<open>The abstraction of a handle in WRITE mode: \<open>xs\<close> is the stream written so far. The whole
  groups of it are in the file after the header, the rest is in the channel buffers.\<close>

definition emitted :: "nat \<Rightarrow> nat \<Rightarrow> nat" where
  "emitted c n = n div (B * c) * (B * c)"

definition writing :: "dsf_io option \<Rightarrow> byte list \<Rightarrow> dsf \<Rightarrow> byte list \<Rightarrow> bool" where
  "writing s hdr x xs \<longleftrightarrow> shape x \<and> channels_ok x \<and> io_is_open s \<and> bytes_buffered x < B \<and>
     bytes_written x = of_nat (emitted (cc x) (length xs)) \<and>
     (\<exists>pre pend. xs = pre @ pend \<and> B * cc x dvd length pre \<and> holds x (bytes_buffered x) pend \<and>
       h_io x = io_put s (hdr @ blocks (cc x) pre) (length hdr + length pre))"

text \<open>What a write of audio leaves alone.\<close>

definition same_file :: "dsf \<Rightarrow> dsf \<Rightarrow> bool" where
  "same_file x y \<longleftrightarrow> h_info y = h_info x \<and> h_mode y = h_mode x \<and>
     samples_written y = samples_written x \<and> metadata_buffer y = metadata_buffer x \<and>
     metadata_size y = metadata_size x \<and> read_buffer_pos y = read_buffer_pos x \<and>
     read_buffer_valid y = read_buffer_valid x"

lemma same_file_trans: "same_file x y \<Longrightarrow> same_file y z \<Longrightarrow> same_file x z"
  by (simp add: same_file_def)

lemma same_file_refl [simp]: "same_file x x"
  by (simp add: same_file_def)

lemma emitted_split:
  "0 < c \<Longrightarrow> B * c dvd n \<Longrightarrow> m < B * c \<Longrightarrow> emitted c (n + m) = n"
  by (auto simp: emitted_def elim!: dvdE)

lemma writingI:
  assumes "shape x" "channels_ok x" "io_is_open s" "bytes_buffered x < B"
    and "B * cc x dvd length pre" "holds x (bytes_buffered x) pend"
    and "bytes_written x = of_nat (length pre)"
    and "h_io x = io_put s (hdr @ blocks (cc x) pre) (length hdr + length pre)"
  shows "writing s hdr x (pre @ pend)"
proof -
  have "length pend < B * cc x"
    using assms(2,4,6) by (simp add: holds_def channels_ok_def)
  then have "emitted (cc x) (length (pre @ pend)) = length pre"
    using assms(2,5) by (simp add: emitted_split channels_ok_def)
  with assms show ?thesis unfolding writing_def by auto
qed

lemma writingE:
  assumes "writing s hdr x xs"
  obtains pre pend where "xs = pre @ pend" "shape x" "channels_ok x" "io_is_open s"
    "bytes_buffered x < B" "B * cc x dvd length pre" "holds x (bytes_buffered x) pend"
    "emitted (cc x) (length xs) = length pre" "bytes_written x = of_nat (length pre)"
    "h_io x = io_put s (hdr @ blocks (cc x) pre) (length hdr + length pre)"
proof -
  from assms obtain pre pend where w: "xs = pre @ pend" "shape x" "channels_ok x" "io_is_open s"
    "bytes_buffered x < B" "B * cc x dvd length pre" "holds x (bytes_buffered x) pend"
    "bytes_written x = of_nat (emitted (cc x) (length xs))"
    "h_io x = io_put s (hdr @ blocks (cc x) pre) (length hdr + length pre)"
    unfolding writing_def by blast
  then have "emitted (cc x) (length xs) = length pre"
    by (simp add: emitted_split channels_ok_def holds_def)
  with w that show ?thesis by simp
qed

text \<open>The state after one frame went into the channel buffers.\<close>

definition take_frame :: "byte list \<Rightarrow> nat \<Rightarrow> dsf \<Rightarrow> dsf" where
  "take_frame buf ip x = (put_frame buf ip (cc x) x)\<lparr>bytes_buffered := Suc (bytes_buffered x)\<rparr>"

lemma take_frame_same:
  "channel_count (h_info (take_frame buf ip x)) = channel_count (h_info x)"
  "h_io (take_frame buf ip x) = h_io x" "same_file x (take_frame buf ip x)"
  "bytes_written (take_frame buf ip x) = bytes_written x"
  "bytes_buffered (take_frame buf ip x) = Suc (bytes_buffered x)"
  "channels_ok (take_frame buf ip x) = channels_ok x"
  "shape x \<Longrightarrow> shape (take_frame buf ip x)"
  using shape_put_frame [of x buf ip "cc x"]
  by (auto simp: take_frame_def put_frame_def same_file_def channels_ok_def shape_def)

lemma holds_take_frame:
  assumes "shape x" "channels_ok x" "bytes_buffered x < B" "ip + cc x \<le> length buf"
    and "holds x (bytes_buffered x) pend"
  shows "holds (take_frame buf ip x) (Suc (bytes_buffered x)) (pend @ bytes_at ip (cc x) buf)"
  using holds_put_frame [OF assms] by (simp add: take_frame_def holds_def)

lemma write_loop_Suc:
  assumes "shape x" "channels_ok x" "bytes_buffered x < B" "ip + cc x \<le> length buf"
  shows "dsf_write_loop (Suc n) buf ip t x =
    (if Suc (bytes_buffered x) = B
     then (case dsf_write_block_group B False (take_frame buf ip x) of
         (Ok _, x3) \<Rightarrow> dsf_write_loop n buf (ip + cc x) (t + B * cc x) (x3\<lparr>bytes_buffered := 0\<rparr>)
       | (Err e, x3) \<Rightarrow> (Err e, t, x3)
       | (Fault, x3) \<Rightarrow> (Fault, t, x3))
     else dsf_write_loop n buf (ip + cc x) t (take_frame buf ip x))"
proof -
  have "(put_frame buf ip (cc x) x)\<lparr>bytes_buffered := bytes_buffered (put_frame buf ip (cc x) x) + 1\<rparr>
      = take_frame buf ip x" "bytes_buffered (put_frame buf ip (cc x) x) = bytes_buffered x"
    by (simp_all add: take_frame_def put_frame_def)
  then show ?thesis
    using deinterleave_all [OF assms] by (simp add: Let_def take_frame_same)
qed

text \<open>A frame that does not complete a block group stays in the buffers.\<close>

lemma writing_buffered:
  assumes "writing s hdr x xs" "ip + cc x \<le> length buf" "Suc (bytes_buffered x) \<noteq> B"
  shows "writing s hdr (take_frame buf ip x) (xs @ bytes_at ip (cc x) buf)"
  using assms(1)
proof (cases rule: writingE)
  case (1 pre pend)
  have "writing s hdr (take_frame buf ip x) (pre @ (pend @ bytes_at ip (cc x) buf))"
    by (rule writingI) (use 1 assms(2,3) in \<open>simp_all add: take_frame_same holds_take_frame\<close>)
  then show ?thesis using 1 by simp
qed

text \<open>A frame that completes a block group sends it to the file.\<close>

lemma writing_group:
  assumes w: "writing s hdr x xs" and ip: "ip + cc x \<le> length buf"
    and full: "Suc (bytes_buffered x) = B"
    and room: "io_can_write s (length hdr + length xs + cc x)"
  shows "\<exists>x3. dsf_write_block_group B False (take_frame buf ip x) = (Ok (), x3) \<and>
    writing s hdr (x3\<lparr>bytes_buffered := 0\<rparr>) (xs @ bytes_at ip (cc x) buf) \<and> same_file x x3 \<and>
    emitted (cc x) (length xs + cc x) = emitted (cc x) (length xs) + B * cc x"
  using w
proof (cases rule: writingE)
  case (1 pre pend)
  let ?c = "cc x" and ?y = "take_frame buf ip x" and ?ys = "pend @ bytes_at ip (cc x) buf"
  have c: "0 < ?c" using 1 by (simp add: channels_ok_def)
  have "length pend = bytes_buffered x * ?c" using 1 by (simp add: holds_def)
  then have "length ?ys = Suc (bytes_buffered x) * ?c"
    using ip by (simp add: length_bytes_at)
  then have lys: "length ?ys = B * ?c" by (simp only: full)
  have lpre: "length (blocks ?c pre) = length pre" using c 1(6) by (rule length_blocks_dvd)
  have sum: "length pre + B * ?c = length xs + ?c" using lys ip 1(1) by (simp add: length_bytes_at)
  have bl: "blocks ?c pre @ block_of ?c ?ys = blocks ?c (pre @ ?ys)"
    using c 1(6) lys blocks_cons [of ?c ?ys "[]"] by (simp add: blocks_append blocks_short)
  have h: "holds ?y B ?ys" using holds_take_frame [of x ip buf pend] 1 ip full by simp
  have io: "h_io ?y = io_put s (hdr @ blocks ?c pre) (length (hdr @ blocks ?c pre))"
    using 1 lpre by (simp add: take_frame_same)
  have rm: "io_can_write s (length (hdr @ blocks ?c pre) + B * cc ?y)"
    using room sum lpre by (simp add: take_frame_same add.assoc)
  obtain sc where sc: "length sc = B * DSF_MAX_CHANNELS"
    and wb: "dsf_write_block_group B False ?y = (Ok (), ?y\<lparr>scratch_buffer := sc,
       bytes_written := bytes_written ?y + of_nat (B * cc ?y),
       h_io := io_put s ((hdr @ blocks ?c pre) @ block_of (cc ?y) (?ys @ replicate ((B - B) * cc ?y) 0))
                 (length (hdr @ blocks ?c pre) + B * cc ?y)\<rparr>)" (is "_ = (Ok (), ?x3)")
    using write_block_group_ok [OF _ _ order.refl _ h io 1(4) rm] 1 by (auto simp: take_frame_same)
  have "writing s hdr (?x3\<lparr>bytes_buffered := 0\<rparr>) ((pre @ ?ys) @ [])"
  proof (rule writingI)
    show "shape (?x3\<lparr>bytes_buffered := 0\<rparr>)"
      using take_frame_same(7) [OF 1(2), of buf ip] sc by (simp add: shape_def)
    show "h_io (?x3\<lparr>bytes_buffered := 0\<rparr>) =
        io_put s (hdr @ blocks (cc (?x3\<lparr>bytes_buffered := 0\<rparr>)) (pre @ ?ys)) (length hdr + length (pre @ ?ys))"
      using bl lys lpre by (simp add: take_frame_same add.assoc)
  qed (use 1 lys c in \<open>simp_all add: take_frame_same holds_def channels_ok_def\<close>)
  moreover have "emitted ?c (length xs + ?c) = emitted ?c (length xs) + B * ?c"
  proof -
    have "emitted ?c (length pre + B * ?c + 0) = length pre + B * ?c"
      using c 1(6) by (intro emitted_split) simp_all
    then show ?thesis using 1(8) by (simp only: sum add_0_right)
  qed
  moreover have "same_file x ?x3" using take_frame_same(3) [of x buf ip] by (simp add: same_file_def)
  ultimately show ?thesis using wb 1(1) by auto
qed

lemma writing_emitted:
  "writing s hdr x xs \<Longrightarrow> bytes_buffered x * cc x + emitted (cc x) (length xs) = length xs"
  by (elim writingE) (auto simp: holds_def)

lemma writing_next:
  assumes w: "writing s hdr x xs" and ip: "ip + cc x \<le> length buf"
    and room: "io_can_write s (length hdr + length xs + cc x)"
  shows "\<exists>t' x'. dsf_write_loop (Suc n) buf ip t x = dsf_write_loop n buf (ip + cc x) t' x' \<and>
    t' + emitted (cc x) (length xs) = t + emitted (cc x) (length xs + cc x) \<and>
    writing s hdr x' (xs @ bytes_at ip (cc x) buf) \<and> same_file x x'"
proof (cases "Suc (bytes_buffered x) = B")
  case True
  obtain x3 where g: "dsf_write_block_group B False (take_frame buf ip x) = (Ok (), x3)"
    "writing s hdr (x3\<lparr>bytes_buffered := 0\<rparr>) (xs @ bytes_at ip (cc x) buf)" "same_file x x3"
    "emitted (cc x) (length xs + cc x) = emitted (cc x) (length xs) + B * cc x"
    using writing_group [OF w ip True room] by blast
  have "dsf_write_loop (Suc n) buf ip t x =
      dsf_write_loop n buf (ip + cc x) (t + B * cc x) (x3\<lparr>bytes_buffered := 0\<rparr>)"
    using w by (elim writingE) (simp only: write_loop_Suc ip True g simp_thms if_True prod.case outcome.case)
  moreover have "same_file x (x3\<lparr>bytes_buffered := 0\<rparr>)" using g(3) by (simp add: same_file_def)
  ultimately show ?thesis using g(2,4) by (intro exI conjI) auto
next
  case False
  have w': "writing s hdr (take_frame buf ip x) (xs @ bytes_at ip (cc x) buf)"
    using w ip False by (rule writing_buffered)
  have "emitted (cc x) (length xs) = emitted (cc x) (length xs + cc x)"
    using writing_emitted [OF w] writing_emitted [OF w'] ip
    by (simp add: take_frame_same length_bytes_at)
  moreover have "dsf_write_loop (Suc n) buf ip t x =
      dsf_write_loop n buf (ip + cc x) t (take_frame buf ip x)"
    using w by (elim writingE) (simp only: write_loop_Suc ip False simp_thms if_False)
  ultimately show ?thesis using w' take_frame_same(3) by (intro exI conjI) auto
qed

text \<open>The whole loop: it never fails on a device with room, and the file then represents the
  stream with the caller's bytes appended.\<close>

lemma write_loop_ok:
  assumes "writing s hdr x xs" "ip + n * cc x \<le> length buf"
    and "io_can_write s (length hdr + length xs + n * cc x)"
  shows "\<exists>t' x'. dsf_write_loop n buf ip t x = (Ok (), t', x') \<and>
    t' + emitted (cc x) (length xs) = t + emitted (cc x) (length xs + n * cc x) \<and>
    writing s hdr x' (xs @ bytes_at ip (n * cc x) buf) \<and> same_file x x'"
  using assms
proof (induction n arbitrary: x xs ip t)
  case 0
  then show ?case by (simp add: bytes_at_def)
next
  case (Suc n)
  let ?c = "cc x"
  have ip: "ip + ?c \<le> length buf" and ip': "ip + ?c + n * ?c \<le> length buf"
    using Suc.prems(2) by simp_all
  have rm: "io_can_write s (length hdr + length xs + ?c)"
    by (rule can_write_le [OF Suc.prems(3)]) simp
  obtain t1 x1 where 1: "dsf_write_loop (Suc n) buf ip t x = dsf_write_loop n buf (ip + ?c) t1 x1"
    "t1 + emitted ?c (length xs) = t + emitted ?c (length xs + ?c)"
    "writing s hdr x1 (xs @ bytes_at ip ?c buf)" "same_file x x1"
    using writing_next [OF Suc.prems(1) ip rm] by blast
  have c: "cc x1 = ?c" using 1(4) by (simp add: same_file_def)
  obtain t2 x2 where 2: "dsf_write_loop n buf (ip + ?c) t1 x1 = (Ok (), t2, x2)"
    "t2 + emitted ?c (length xs + ?c) = t1 + emitted ?c (length xs + ?c + n * ?c)"
    "writing s hdr x2 ((xs @ bytes_at ip ?c buf) @ bytes_at (ip + ?c) (n * ?c) buf)" "same_file x1 x2"
    using Suc.IH [OF 1(3), of "ip + ?c" t1] ip ip' Suc.prems(3)
    by (auto simp: c length_bytes_at add.assoc)
  have "same_file x x2" using 1(4) 2(4) by (rule same_file_trans)
  moreover have "writing s hdr x2 (xs @ bytes_at ip (Suc n * ?c) buf)"
    using 2(3) by (simp add: bytes_at_split)
  moreover have "dsf_write_loop (Suc n) buf ip t x = (Ok (), t2, x2)" by (simp only: 1(1) 2(1))
  moreover have "t2 + emitted ?c (length xs) = t + emitted ?c (length xs + Suc n * ?c)"
    using 1(2) 2(2) by (simp add: add.assoc)
  ultimately show ?case by blast
qed

end
