(* ===== verification/Dsf_Session.thy ===== *)
theory Dsf_Session
  imports Dsf_Audio
begin

text \<open>
  Whole sessions on a DSF file: creating it, writing audio and metadata, finalising and closing,
  opening it again and reading. The specification of a finished file is \<open>dsf_image\<close>, a function of
  the format, the byte-interleaved stream and the metadata.
\<close>

section \<open>The image of a file\<close>

definition dsf_header :: "dsf_file_info \<Rightarrow> u64 \<Rightarrow> u64 \<Rightarrow> u64 \<Rightarrow> byte list" where
  "dsf_header i fsize moffset csize = dsd_bytes fsize moffset @ fmt_bytes i @ data_bytes csize"

text \<open>The stream, filled up with zero bytes to whole block groups.\<close>

definition padding :: "nat \<Rightarrow> nat \<Rightarrow> nat" where
  "padding g n = (if n mod g = 0 then 0 else g - n mod g)"

definition pad_groups :: "nat \<Rightarrow> byte list \<Rightarrow> byte list" where
  "pad_groups c xs = xs @ replicate (padding (B * c) (length xs)) 0"

definition stream_samples :: "dsf_file_info \<Rightarrow> nat \<Rightarrow> nat" where
  "stream_samples i n =
     n div unat (channel_count i) * (if bits_per_sample i = 1 then 8 else 1)"

abbreviation (input) info_channels :: "dsf_file_info \<Rightarrow> nat" where
  "info_channels i \<equiv> unat (channel_count i)"

definition audio_bytes :: "dsf_file_info \<Rightarrow> byte list \<Rightarrow> byte list" where
  "audio_bytes i xs = blocks (info_channels i) (pad_groups (info_channels i) xs)"

definition meta_bytes :: "byte list option \<Rightarrow> byte list" where
  "meta_bytes m = (case m of None \<Rightarrow> [] | Some bs \<Rightarrow> bs)"

definition meta_offset :: "dsf_file_info \<Rightarrow> byte list \<Rightarrow> byte list option \<Rightarrow> nat" where
  "meta_offset i xs m = (case m of None \<Rightarrow> 0 | Some bs \<Rightarrow> 92 + length (audio_bytes i xs))"

definition image_size :: "dsf_file_info \<Rightarrow> byte list \<Rightarrow> byte list option \<Rightarrow> nat" where
  "image_size i xs m = 92 + length (audio_bytes i xs) + length (meta_bytes m)"

definition dsf_image :: "dsf_file_info \<Rightarrow> byte list \<Rightarrow> byte list option \<Rightarrow> byte list" where
  "dsf_image i xs m =
     dsf_header (i\<lparr>sample_count := of_nat (stream_samples i (length xs))\<rparr>)
       (of_nat (image_size i xs m)) (of_nat (meta_offset i xs m))
       (of_nat (12 + length (audio_bytes i xs))) @
     audio_bytes i xs @ meta_bytes m"

section \<open>Lemmas on headers and padding\<close>

lemma length_dsf_header [simp]: "length (dsf_header i f m c) = 92"
  by (simp add: dsf_header_def)

lemma length_dsf_image: "length (dsf_image i xs m) = image_size i xs m"
  by (simp add: dsf_image_def image_size_def)

text \<open>Replacing a piece of the same length.\<close>

lemma patch_piece:
  "p = length a \<Longrightarrow> length b' = length b \<Longrightarrow> patch (a @ b @ r) p b' = a @ b' @ r"
  by (auto simp: patch_def)

lemma patch_file_size:
  "patch (dsf_header i f m c @ r) 12 (le_enc 8 (unat f')) = dsf_header i f' m c @ r"
  using patch_piece [of 12 "le_enc 4 (unat DSF_DSD_CHUNK_ID) @ le_enc 8 28" "le_enc 8 (unat f')"
      "le_enc 8 (unat f)" "le_enc 8 (unat m) @ fmt_bytes i @ data_bytes c @ r"]
  by (simp add: dsf_header_def dsd_bytes_def)

lemma patch_metadata_offset:
  "patch (dsf_header i f m c @ r) 20 (le_enc 8 (unat m')) = dsf_header i f m' c @ r"
  using patch_piece [of 20 "le_enc 4 (unat DSF_DSD_CHUNK_ID) @ le_enc 8 28 @ le_enc 8 (unat f)"
      "le_enc 8 (unat m')" "le_enc 8 (unat m)" "fmt_bytes i @ data_bytes c @ r"]
  by (simp add: dsf_header_def dsd_bytes_def)

lemma patch_sample_count:
  "patch (dsf_header i f m c @ r) 64 (le_enc 8 (unat n)) =
     dsf_header (i\<lparr>sample_count := n\<rparr>) f m c @ r"
  using patch_piece [of 64 "dsd_bytes f m @ le_enc 4 (unat DSF_FMT_CHUNK_ID) @ le_enc 8 52 @
      le_enc 4 (unat (format_version i)) @ le_enc 4 (unat (format_id i)) @
      le_enc 4 (unat (channel_type i)) @ le_enc 4 (unat (channel_count i)) @
      le_enc 4 (unat (sampling_frequency i)) @ le_enc 4 (unat (bits_per_sample i))"
      "le_enc 8 (unat n)" "le_enc 8 (unat (sample_count i))"
      "le_enc 4 (unat (block_size_per_channel i)) @ le_enc 4 0 @ data_bytes c @ r"]
  by (simp add: dsf_header_def fmt_bytes_def)

lemma patch_data_size:
  "patch (dsf_header i f m c @ r) 84 (le_enc 8 (unat c')) = dsf_header i f m c' @ r"
  using patch_piece [of 84 "dsd_bytes f m @ fmt_bytes i @ le_enc 4 (unat DSF_DATA_CHUNK_ID)"
      "le_enc 8 (unat c')" "le_enc 8 (unat c)" r]
  by (simp add: dsf_header_def data_bytes_def)

lemmas header_patches = patch_file_size patch_metadata_offset patch_sample_count patch_data_size

lemma length_pad_groups_dvd: "0 < c \<Longrightarrow> B * c dvd length (pad_groups c xs)"
proof -
  assume "0 < c"
  then have "0 < B * c" by simp
  then have "length xs mod (B * c) < B * c" by simp
  moreover have "length xs = length xs div (B * c) * (B * c) + length xs mod (B * c)"
    by (rule div_mult_mod_eq [symmetric])
  ultimately have "length xs + (B * c - length xs mod (B * c)) = (length xs div (B * c) + 1) * (B * c)"
    by (simp add: algebra_simps)
  then show ?thesis
    by (auto simp: pad_groups_def padding_def mod_eq_0_iff_dvd simp del: mult_Suc)
qed

lemma pad_groups_prefix: "take (length xs) (pad_groups c xs) = xs"
  by (simp add: pad_groups_def)

lemma length_audio_bytes:
  "0 < info_channels i \<Longrightarrow> length (audio_bytes i xs) = length (pad_groups (info_channels i) xs)"
  by (simp add: audio_bytes_def length_blocks_dvd length_pad_groups_dvd)

lemma blocks_one: "0 < c \<Longrightarrow> length ys = B * c \<Longrightarrow> blocks c ys = block_of c ys"
  using blocks_cons [of c ys "[]"] by (simp add: blocks_short)

text \<open>Padding a pending tail completes the groups before it.\<close>

lemma audio_bytes_split:
  assumes "0 < info_channels i" "B * info_channels i dvd length pre"
    and "0 < length pend" "length pend < B * info_channels i"
  shows "audio_bytes i (pre @ pend) = blocks (info_channels i) pre @
    block_of (info_channels i) (pend @ replicate (B * info_channels i - length pend) 0)"
proof -
  let ?c = "info_channels i"
  have "length (pre @ pend) mod (B * ?c) = length pend"
    using assms(2,4) by (auto elim!: dvdE)
  then have "padding (B * ?c) (length (pre @ pend)) = B * ?c - length pend"
    using assms(3) by (simp add: padding_def)
  then have "pad_groups ?c (pre @ pend) = pre @ (pend @ replicate (B * ?c - length pend) 0)"
    by (simp add: pad_groups_def)
  then show ?thesis
    using assms by (simp add: audio_bytes_def blocks_append blocks_one)
qed

lemma audio_bytes_whole:
  "B * info_channels i dvd length xs \<Longrightarrow> audio_bytes i xs = blocks (info_channels i) xs"
  by (simp add: audio_bytes_def pad_groups_def padding_def mod_eq_0_iff_dvd)

section \<open>Creating a file\<close>

definition new_info :: "u32 \<Rightarrow> u32 \<Rightarrow> u32 \<Rightarrow> u32 \<Rightarrow> dsf_file_info" where
  "new_info rate ctype ccount bits = zero_info\<lparr>
     format_version := DSF_FORMAT_VERSION, format_id := DSF_FORMAT_DSD_RAW,
     channel_type := ctype, channel_count := ccount, sampling_frequency := rate,
     bits_per_sample := bits, block_size_per_channel := of_nat DSF_BLOCK_SIZE_PER_CHANNEL,
     audio_data_offset := 92\<rparr>"

text \<open>The stream that \<^verbatim>\<open>fopen\<close> returns for writing.\<close>

definition write_stream :: "string \<Rightarrow> nat \<Rightarrow> dsf_io option" where
  "write_stream name cap = Some \<lparr>io_file = Some \<lparr>fpath = name, fdata = [], fpos = 0,
     freadable = False, fwritable = True, fcap = cap\<rparr>,
     io_filename = sa_strlcpy name DSF_MAX_STR_SIZE, io_mode = DSF_FILE_MODE_WRITE\<rparr>"

lemma write_stream_view [simp]:
  "io_is_open (write_stream name cap)"
  "io_can_write (write_stream name cap) n \<longleftrightarrow> n \<le> cap"
  by (simp_all add: write_stream_def io_view_defs)

text \<open>The header that a new file starts with.\<close>

abbreviation (input) start_header :: "dsf_file_info \<Rightarrow> byte list" where
  "start_header i \<equiv> dsf_header i 0 0 12"

lemma write_file_structure_put:
  assumes "h_io x = io_put s [] 0" "io_is_open s" "io_can_write s 92" "valid_fmt (h_info x)"
  shows "dsf_write_file_structure x = (Ok (), x\<lparr>h_io := io_put s (start_header (h_info x)) 92,
    h_info := (h_info x)\<lparr>audio_data_offset := 92\<rparr>\<rparr>)"
proof -
  have "io_can_write s 28" "io_can_write s 80"
    using assms(3) by (simp_all add: can_write_le)
  then show ?thesis
    using assms
    by (simp add: dsf_write_file_structure_def on_io_def write_dsd_header_put write_fmt_put
        write_data_header_put patch_patch upd_info_def)
       (simp add: dsf_header_def patch_def)
qed

lemma fmt_bytes_offset: "fmt_bytes (i\<lparr>audio_data_offset := n\<rparr>) = fmt_bytes i"
  by (simp add: fmt_bytes_def)

lemma create_ok:
  assumes "h_mode x = DSF_FILE_MODE_CLOSED" "valid_fmt (new_info rate ctype ccount bits)"
    and "sa_malloc hp 4112" "dwritable d name" "92 \<le> dcap d"
  shows "dsf_create hp (Some name) rate ctype ccount bits (Some x, d) =
    (Ok (), (Some (x\<lparr>h_io := io_put (write_stream name (dcap d))
                       (start_header (new_info rate ctype ccount bits)) 92,
               h_info := new_info rate ctype ccount bits, h_mode := DSF_FILE_MODE_WRITE,
               samples_written := 0, bytes_written := 0\<rparr>),
      d\<lparr>dfiles := (dfiles d)(name \<mapsto> [])\<rparr>))"
proof -
  let ?s = "write_stream name (dcap d)"
  let ?i = "zero_info\<lparr>format_version := DSF_FORMAT_VERSION, format_id := DSF_FORMAT_DSD_RAW,
     channel_type := ctype, channel_count := ccount, sampling_frequency := rate,
     bits_per_sample := bits, sample_count := 0,
     block_size_per_channel := of_nat DSF_BLOCK_SIZE_PER_CHANNEL\<rparr>"
  have i: "?i\<lparr>audio_data_offset := 92\<rparr> = new_info rate ctype ccount bits"
    by (simp add: new_info_def zero_info_def)
  have "valid_fmt ?i"
    using assms(2) by (simp add: valid_fmt_def new_info_def)
  moreover have "dsf_is_valid_sample_rate rate" "dsf_is_valid_channel_type ctype"
    "\<not> (ccount < 1 \<or> of_nat DSF_MAX_CHANNELS < ccount)" "dsf_is_valid_bits_per_sample bits"
    using assms(2) by (simp_all add: valid_fmt_def new_info_def)
  moreover have "?s = io_put ?s [] 0"
    by (simp add: write_stream_def io_put_def)
  moreover have "dsf_chunk_file_open_write hp (Some name) d =
      (Ok (the ?s), d\<lparr>dfiles := (dfiles d)(name \<mapsto> [])\<rparr>)"
    using assms(3,4) by (simp add: dsf_chunk_file_open_write_def chunk_file_open_def
        dsf_io_open_write_def io_open_def fopen_def write_stream_def)
  moreover have "Some (the ?s) = ?s" by (simp add: write_stream_def)
  moreover have "start_header ?i = start_header (new_info rate ctype ccount bits)"
    by (simp add: dsf_header_def fmt_bytes_offset flip: i)
  ultimately show ?thesis
    using assms(1,5) write_file_structure_put [of "x\<lparr>h_io := ?s, h_info := ?i\<rparr>" ?s]
    by (simp add: dsf_create_def i)
qed

section \<open>A file being written\<close>

text \<open>The handle represents a recording in format \<open>i\<close> of the stream \<open>xs\<close> with metadata \<open>m\<close>.\<close>

definition same_format :: "dsf_file_info \<Rightarrow> dsf_file_info \<Rightarrow> bool" where
  "same_format i j \<longleftrightarrow> format_version j = format_version i \<and> format_id j = format_id i \<and>
     channel_type j = channel_type i \<and> channel_count j = channel_count i \<and>
     sampling_frequency j = sampling_frequency i \<and> bits_per_sample j = bits_per_sample i \<and>
     block_size_per_channel j = block_size_per_channel i"

definition meta_ok :: "byte list option \<Rightarrow> u64 \<Rightarrow> bool" where
  "meta_ok m sz \<longleftrightarrow> (case m of None \<Rightarrow> sz = 0
     | Some bs \<Rightarrow> length bs = unat sz \<and> 0 < length bs \<and> length bs \<le> 104857600)"

definition has_meta :: "dsf \<Rightarrow> byte list option \<Rightarrow> bool" where
  "has_meta x m \<longleftrightarrow> metadata_buffer x = m \<and> meta_ok m (metadata_size x)"

definition recording ::
  "dsf_io option \<Rightarrow> dsf_file_info \<Rightarrow> dsf \<Rightarrow> byte list \<Rightarrow> byte list option \<Rightarrow> bool" where
  "recording s i x xs m \<longleftrightarrow> h_mode x = DSF_FILE_MODE_WRITE \<and> valid_fmt i \<and>
     writing s (start_header i) x xs \<and> same_format i (h_info x) \<and> has_meta x m \<and>
     samples_written x = of_nat (stream_samples i (length xs)) \<and>
     sample_count (h_info x) = samples_written x"

lemma valid_channels: "valid_fmt i \<Longrightarrow> 0 < info_channels i \<and> info_channels i \<le> DSF_MAX_CHANNELS"
  by (auto simp: valid_fmt_def DSF_MAX_CHANNELS_def word_less_nat_alt not_less)

lemma io_open_not_None: "io_is_open s \<Longrightarrow> s \<noteq> None"
  by (auto simp: io_is_open_def)

lemma io_put_Some [simp]: "io_is_open s \<Longrightarrow> \<exists>y. io_put s d p = Some y"
  by (auto simp: io_is_open_def io_put_def)

lemma recording_start:
  assumes "shape x" "bytes_buffered x = 0" "has_meta x None" "valid_fmt i" "io_is_open s"
  shows "recording s (i\<lparr>sample_count := 0\<rparr>) (x\<lparr>h_io := io_put s (start_header (i\<lparr>sample_count := 0\<rparr>)) 92,
    h_info := i\<lparr>sample_count := 0\<rparr>, h_mode := DSF_FILE_MODE_WRITE, samples_written := 0,
    bytes_written := 0\<rparr>) [] None"
proof -
  let ?i = "i\<lparr>sample_count := 0\<rparr>"
  let ?x = "x\<lparr>h_io := io_put s (start_header ?i) 92, h_info := ?i,
    h_mode := DSF_FILE_MODE_WRITE, samples_written := 0, bytes_written := 0\<rparr>"
  have "writing s (start_header ?i) ?x ([] @ [])"
    by (rule writingI) (use assms valid_channels [OF assms(4)] in
        \<open>simp_all add: shape_def channels_ok_def holds_def blocks_short\<close>)
  then show ?thesis
    using assms(3,4)
    by (simp add: recording_def same_format_def has_meta_def meta_ok_def valid_fmt_def stream_samples_def)
qed

text \<open>Writing audio appends to the stream. The reported count is what reached the file.\<close>

lemma write_audio_ok:
  assumes rec: "recording s i x xs m" and len: "n * info_channels i \<le> length buf"
    and room: "io_can_write s (92 + length xs + n * info_channels i)"
  shows "\<exists>x'. dsf_write_audio_data (Some buf) (n * info_channels i) (Some x, cell) =
      (Ok (), (Some x', emitted (info_channels i) (length xs + n * info_channels i) -
                        emitted (info_channels i) (length xs))) \<and>
    recording s i x' (xs @ take (n * info_channels i) buf) m"
proof -
  let ?c = "info_channels i"
  have c: "cc x = ?c" "0 < ?c"
    using rec valid_channels [of i] by (auto simp: recording_def same_format_def)
  have w: "writing s (start_header i) x xs" using rec by (simp add: recording_def)
  then have io: "h_io x \<noteq> None" by (elim writingE) (simp add: io_put_not_None)
  obtain t x1 where l: "dsf_write_loop n buf 0 0 x = (Ok (), t, x1)"
    and t: "t + emitted ?c (length xs) = emitted ?c (length xs + n * ?c)"
    and w1: "writing s (start_header i) x1 (xs @ take (n * ?c) buf)" and sf: "same_file x x1"
    using write_loop_ok [OF w, of 0 n buf 0] len room c by (auto simp: bytes_at_0 add.assoc)
  let ?x2 = "account_samples n x1"
  have acc: "shape ?x2 = shape x1" "channels_ok ?x2 = channels_ok x1" "cc ?x2 = cc x1"
    "bytes_buffered ?x2 = bytes_buffered x1" "bytes_written ?x2 = bytes_written x1"
    "h_io ?x2 = h_io x1" "h_mode ?x2 = h_mode x1" "holds ?x2 = holds x1"
    "has_meta ?x2 = has_meta x1" "same_format i (h_info ?x2) = same_format i (h_info x1)"
    "sample_count (h_info ?x2) = samples_written ?x2"
    "samples_written ?x2 = samples_written x1 +
       of_nat (n * (if bits_per_sample (h_info x1) = 1 then 8 else 1))"
    by (auto simp: account_samples_def Let_def upd_info_def shape_def channels_ok_def holds_def
        has_meta_def same_format_def fun_eq_iff)
  have "writing s (start_header i) ?x2 (xs @ take (n * ?c) buf)"
    using w1 by (simp add: writing_def acc)
  moreover have "samples_written ?x2 = of_nat (stream_samples i (length (xs @ take (n * ?c) buf)))"
  proof -
    have "bits_per_sample (h_info x1) = bits_per_sample i"
      using sf rec by (simp add: same_file_def recording_def same_format_def)
    moreover have "samples_written x1 = of_nat (stream_samples i (length xs))"
      using sf rec by (simp add: same_file_def recording_def)
    ultimately show ?thesis
      using c(2) len by (simp add: acc(12) stream_samples_def min_absorb2 algebra_simps)
  qed
  ultimately have r2: "recording s i ?x2 (xs @ take (n * ?c) buf) m"
    using rec sf by (simp add: recording_def acc same_file_def has_meta_def)
  have "dsf_write_audio_data (Some buf) (n * ?c) (Some x, cell) = (Ok (), (Some ?x2, t))"
    using rec io c l by (simp add: dsf_write_audio_data_def recording_def)
  moreover have "t = emitted ?c (length xs + n * ?c) - emitted ?c (length xs)" using t by simp
  ultimately show ?thesis using r2 by blast
qed

lemma write_metadata_ok:
  assumes rec: "recording s i x xs m" and hp: "sa_malloc hp (length bs)"
    and bs: "0 < length bs" "length bs \<le> 104857600"
  shows "\<exists>x'. dsf_write_metadata hp (Some bs) (of_nat (length bs)) (Some x) = (Ok (), Some x') \<and>
    recording s i x' xs (Some bs)"
proof -
  have u: "unat (of_nat (length bs) :: u64) = length bs"
    using bs(2) by (simp add: unat_of_nat_u64)
  then have "(of_nat (length bs) :: u64) \<noteq> 0" "\<not> (104857600 :: u64) < of_nat (length bs)"
    using bs by (auto simp: word_less_nat_alt simp del: of_nat_eq_0_iff) 
  then show ?thesis
    using rec hp bs u
    by (auto simp: dsf_write_metadata_def recording_def has_meta_def meta_ok_def writing_def shape_def
        channels_ok_def holds_def)
qed

section \<open>Finalising\<close>

lemma flush_ok:
  assumes rec: "recording s i x xs m" and room: "io_can_write s (92 + length (audio_bytes i xs))"
    and pend: "0 < bytes_buffered x"
  shows "\<exists>x'. on_handle dsf_flush_audio_data x = (Ok (), x') \<and> h_mode x' = h_mode x \<and>
    same_format i (h_info x') \<and> has_meta x' m \<and>
    sample_count (h_info x') = sample_count (h_info x) \<and> bytes_buffered x' = 0 \<and> shape x' \<and>
    h_io x' = io_put s (start_header i @ audio_bytes i xs) (92 + length (audio_bytes i xs))"
proof -
  let ?c = "info_channels i" and ?r = "bytes_buffered x"
  have c: "cc x = ?c" "0 < ?c"
    using rec valid_channels [of i] by (auto simp: recording_def same_format_def)
  from rec have "writing s (start_header i) x xs" by (simp add: recording_def)
  then show ?thesis
  proof (cases rule: writingE)
    case (1 pre pd)
    have lpd: "length pd = ?r * ?c" using 1 c by (simp add: holds_def)
    then have lp: "0 < length pd" "length pd < B * ?c" using pend 1(5) c(2) by simp_all
    have rep: "(B - ?r) * ?c = B * ?c - length pd" by (simp add: lpd diff_mult_distrib)
    have au: "audio_bytes i xs = blocks ?c pre @ block_of ?c (pd @ replicate ((B - ?r) * ?c) 0)"
      unfolding rep 1(1) using audio_bytes_split [OF c(2) _ lp, of pre] 1(6) c by simp
    have lpre: "length (blocks ?c pre) = length pre"
      using length_blocks_dvd [OF c(2)] 1(6) c by simp
    have la: "length (audio_bytes i xs) = length pre + B * ?c" by (simp add: au lpre)
    have "h_io x = io_put s (start_header i @ blocks ?c pre) (length (start_header i @ blocks ?c pre))"
      using 1 c lpre by simp
    moreover have "io_can_write s (length (start_header i @ blocks ?c pre) + B * cc x)"
      using room la lpre c by (simp add: add.assoc)
    ultimately obtain sc where "length sc = B * DSF_MAX_CHANNELS"
      "dsf_write_block_group ?r True x = (Ok (), x\<lparr>scratch_buffer := sc,
         bytes_written := bytes_written x + of_nat (B * cc x),
         h_io := io_put s ((start_header i @ blocks ?c pre) @
             block_of (cc x) (pd @ replicate ((B - ?r) * cc x) 0))
           (length (start_header i @ blocks ?c pre) + B * cc x)\<rparr>)"
      using write_block_group_ok [of x ?r True pd s "start_header i @ blocks ?c pre"] 1 by auto
    then show ?thesis
      using rec pend 1(2-10) c lpre
      by (auto simp: on_handle_def dsf_flush_audio_data_def recording_def upd_info_def au
          same_format_def has_meta_def shape_def add.assoc)
  qed
qed

lemma flushed:
  assumes rec: "recording s i x xs m" and none: "bytes_buffered x = 0"
  shows "h_io x = io_put s (start_header i @ audio_bytes i xs) (92 + length (audio_bytes i xs))"
proof -
  have c: "cc x = info_channels i" "0 < info_channels i"
    using rec valid_channels [of i] by (auto simp: recording_def same_format_def)
  from rec have "writing s (start_header i) x xs" by (simp add: recording_def)
  then show ?thesis
    using none c by (elim writingE) (auto simp: holds_def audio_bytes_whole length_blocks_dvd)
qed

text \<open>The part of \<^verbatim>\<open>dsf_finalize\<close> after the flush, on a handle whose file ends with the
  audio.\<close>

lemma finalize_fields:
  assumes io: "h_io x = io_put s (start_header i @ A) (92 + length A)" "io_is_open s"
    and m: "has_meta x m"
    and room: "io_can_write s (92 + length A + length (meta_bytes m))"
    and small: "92 + length A + length (meta_bytes m) < 2 ^ 63"
    and w: "h_mode x = DSF_FILE_MODE_WRITE" "bytes_buffered x = 0"
  shows "dsf_finalize (Some x) = (Ok (), Some (x\<lparr>
      h_io := io_put s (dsf_header (i\<lparr>sample_count := sample_count (h_info x)\<rparr>)
            (of_nat (92 + length A + length (meta_bytes m)))
            (case m of None \<Rightarrow> 0 | Some bs \<Rightarrow> of_nat (92 + length A))
            (of_nat (12 + length A)) @ A @ meta_bytes m) (92 + length A + length (meta_bytes m)),
      h_info := (h_info x)\<lparr>audio_data_size := of_nat (length A),
        file_size := of_nat (92 + length A + length (meta_bytes m)),
        metadata_offset := (case m of None \<Rightarrow> 0 | Some bs \<Rightarrow> of_nat (92 + length A))\<rparr>\<rparr>))"
proof -
  have cw: "io_can_write s n" if "n \<le> 92" for n
    using that by (intro can_write_le [OF room]) simp
  have u: "unat (of_nat n :: u64) = n" if "n \<le> 92 + length A" for n
    using that small by (simp add: unat_of_nat_u64)
  have ds: "(of_nat (92 + length A) :: u64) - 92 = of_nat (length A)" by simp
  have vs: "dsf_chunk_update_data_size (of_nat (length A)) (io_put s (dsf_header i 0 0 12 @ A) p) =
      (Ok (), io_put s (dsf_header i 0 0 (of_nat (12 + length A)) @ A) p)" if "p = 92 + length A" for p
    using update_data_size_put [of s p "of_nat (length A)" "dsf_header i 0 0 12 @ A"] io(2) cw small
      patch_data_size [of i 0 0 12 A "of_nat (12 + length A)"] u [of "12 + length A"] u [of "length A"] that
    by simp
  have nz: "(0 :: u64) < of_nat (92 + length A)"
    using u [of "92 + length A"] by (simp add: word_less_nat_alt)
  note steps = on_io_def dsf_chunk_file_get_position_def field_steps vs
    update_sample_count_put update_file_size_put update_metadata_offset_put
    dsf_chunk_write_metadata_put header_patches upd_info_def
  show ?thesis
  proof (cases m)
    case None
    then have "metadata_buffer x = None" using m by (simp add: has_meta_def)
    then show ?thesis
      using io w cw small None unfolding dsf_finalize_def Let_def
      by (simp add: steps ds meta_bytes_def del: of_nat_add)
  next
    case (Some bs)
    have "metadata_buffer x = Some bs" "length bs = unat (metadata_size x)" "0 < metadata_size x"
      "length bs \<le> 104857600" "io_can_write s (92 + length A + length bs)"
      using m room Some
      by (auto simp: has_meta_def meta_ok_def word_less_nat_alt meta_bytes_def
          simp flip: length_greater_0_conv)
    moreover have "patch (h @ A) (92 + length A) bs = h @ A @ bs" if "length h = 92" for h
      using patch_at_end [of "h @ A" bs] that by simp
    ultimately show ?thesis
      using io w cw small Some nz unfolding dsf_finalize_def Let_def
      by (simp add: steps ds meta_bytes_def word_less_nat_alt add.assoc del: of_nat_add)
  qed
qed

text \<open>A finished recording: the file is the image, the position is its end.\<close>

definition finished ::
  "dsf_io option \<Rightarrow> dsf_file_info \<Rightarrow> dsf \<Rightarrow> byte list \<Rightarrow> byte list option \<Rightarrow> bool" where
  "finished s i x xs m \<longleftrightarrow> h_mode x = DSF_FILE_MODE_WRITE \<and> shape x \<and> io_is_open s \<and>
     h_io x = io_put s (dsf_image i xs m) (image_size i xs m) \<and>
     file_size (h_info x) = of_nat (image_size i xs m) \<and>
     metadata_offset (h_info x) = of_nat (meta_offset i xs m) \<and>
     audio_data_size (h_info x) = of_nat (length (audio_bytes i xs))"

lemma finalize_ok:
  assumes rec: "recording s i x xs m" and room: "io_can_write s (image_size i xs m)"
    and small: "image_size i xs m < 2 ^ 63"
  shows "\<exists>x'. dsf_finalize (Some x) = (Ok (), Some x') \<and> finished s i x' xs m"
proof -
  let ?A = "audio_bytes i xs"
  have op: "io_is_open s" and sh: "shape x" and io: "h_io x \<noteq> None"
    using rec by (auto simp: recording_def writing_def)
  have fin: "\<exists>x'. dsf_finalize (Some y) = (Ok (), Some x') \<and> finished s i x' xs m"
    if y: "h_io y = io_put s (start_header i @ ?A) (92 + length ?A)" "has_meta y m"
      "h_mode y = DSF_FILE_MODE_WRITE" "bytes_buffered y = 0" "shape y"
      "sample_count (h_info y) = of_nat (stream_samples i (length xs))" for y
    using finalize_fields [OF y(1) op y(2) _ _ y(3,4)] room small y op
    by (cases m) (simp_all add: finished_def dsf_image_def image_size_def meta_offset_def shape_def
        meta_bytes_def)
  show ?thesis
  proof (cases "bytes_buffered x = 0")
    case True
    then show ?thesis
      using fin [of x] flushed [OF rec] rec sh by (simp add: recording_def)
  next
    case False
    have "io_can_write s (92 + length ?A)"
      by (rule can_write_le [OF room]) (simp add: image_size_def)
    then obtain x1 where x1: "on_handle dsf_flush_audio_data x = (Ok (), x1)" "h_mode x1 = h_mode x"
      "has_meta x1 m" "sample_count (h_info x1) = sample_count (h_info x)" "bytes_buffered x1 = 0"
      "shape x1" "h_io x1 = io_put s (start_header i @ ?A) (92 + length ?A)"
      using flush_ok [OF rec] False by auto
    have "dsf_finalize (Some x) = dsf_finalize (Some x1)"
      using rec x1 op False io by (auto simp: dsf_finalize_def recording_def)
    then show ?thesis using fin [of x1] x1 rec by (simp add: recording_def)
  qed
qed

section \<open>Closing\<close>

lemma close_write_ok:
  assumes "h_mode x = DSF_FILE_MODE_WRITE" "h_io x = io_put (write_stream name cap) d (length d)"
    and "length d < 2 ^ 63"
  shows "dsf_close (Some x, dk) =
    (Ok (), (Some (dsf_reset_file_state x), dk\<lparr>dfiles := (dfiles dk)(name \<mapsto> d)\<rparr>))"
  using assms
  by (simp add: dsf_close_def dsf_chunk_file_close_def dsf_io_close_def write_stream_def io_put_def
      ftell_def ftruncate_def fclose_def)

section \<open>Opening a finished file\<close>

definition read_stream :: "string \<Rightarrow> byte list \<Rightarrow> nat \<Rightarrow> dsf_io option" where
  "read_stream name d cap = Some \<lparr>io_file = Some \<lparr>fpath = name, fdata = d, fpos = 0,
     freadable = True, fwritable = False, fcap = cap\<rparr>,
     io_filename = sa_strlcpy name DSF_MAX_STR_SIZE, io_mode = DSF_FILE_MODE_READ\<rparr>"

lemma read_stream_view [simp]:
  "io_is_open (read_stream name d cap)" "io_can_read (read_stream name d cap)"
  "io_put (read_stream name d cap) d 0 = read_stream name d cap"
  by (simp_all add: read_stream_def io_view_defs)

lemma header_pieces:
  assumes "d = dsf_header i f m c @ r"
  shows "bytes_at 0 28 d = dsd_bytes f m" "bytes_at 28 52 d = fmt_bytes i"
    "bytes_at 80 12 d = data_bytes c"
  using assms by (simp_all add: dsf_header_def bytes_at_def)

text \<open>What \<^verbatim>\<open>dsf_read_file_structure\<close> makes of a well-formed header: the fmt fields, the size and
  offset of the data, and the metadata when there is an offset.\<close>

definition opened_info :: "dsf_file_info \<Rightarrow> u64 \<Rightarrow> dsf_file_info" where
  "opened_info i dsize = (let j = (fmt_info i)\<lparr>audio_data_offset := 92\<rparr> in
     if dsize \<noteq> audio_data_size j then
       (if bits_per_sample i = 1 then j\<lparr>audio_data_size := dsize, sample_count :=
          dsize div ucast (channel_count i) div of_nat B * of_nat B * 8\<rparr>
        else j\<lparr>audio_data_size := dsize\<rparr>)
     else j)"

lemma recount_ok:
  assumes "0 < info_channels (h_info x)" "unat dsize \<le> 10737418240"
  shows "recount_samples dsize x = (Ok (), upd_info (\<lambda>i. if bits_per_sample i = 1
    then i\<lparr>sample_count := dsize div ucast (channel_count i) div of_nat B * of_nat B * 8\<rparr> else i) x)"
proof -
  let ?b = "dsize div ucast (channel_count (h_info x)) div of_nat B"
  have "unat ?b \<le> unat dsize"
    by (simp add: unat_div le_trans [OF div_le_dividend])
  then have b: "unat ?b \<le> 10737418240" using assms(2) by simp
  then have m: "unat ?b * 4096 < 2 ^ 64" and m8: "unat ?b * 4096 * 8 < 2 ^ 64" by simp_all
  then have "unat (?b * of_nat B) = unat ?b * 4096"
    by (simp add: DSF_BLOCK_SIZE_PER_CHANNEL_def unat_word_ariths)
  with m m8 have "dsf_uint64_mul_overflow ?b (of_nat B) = Some (?b * of_nat B)"
    "dsf_uint64_mul_overflow (?b * of_nat B) 8 = Some (?b * of_nat B * 8)"
    by (simp_all add: dsf_uint64_mul_overflow_eq DSF_BLOCK_SIZE_PER_CHANNEL_def)
  moreover have "channel_count (h_info x) \<noteq> 0" using assms(1) by auto
  ultimately show ?thesis by (simp add: recount_samples_def upd_info_def)
qed

lemma read_file_structure_ok:
  assumes io: "h_io x = io_put s d 0" "io_is_open s" "io_can_read s"
    and d: "d = dsf_header i f mo c @ r" and valid: "valid_fmt i"
    and c: "12 \<le> unat c" "unat c \<le> 10737418240"
  shows "dsf_read_file_structure hp x =
    (if 0 < mo \<and> h_mode x \<noteq> DSF_FILE_MODE_WRITE then load_metadata hp mo else ret ())
      (x\<lparr>h_io := io_put s d 92, h_info := opened_info i (c - 12)\<rparr>)"
proof -
  have len: "92 \<le> length d" by (simp add: d)
  have "unat (c - 12) \<le> 10737418240"
    using c by (simp add: unat_sub word_le_nat_alt)
  then have rc: "recount_samples (c - 12) y = (Ok (), upd_info (\<lambda>i. if bits_per_sample i = 1
      then i\<lparr>sample_count := (c - 12) div ucast (channel_count i) div of_nat B * of_nat B * 8\<rparr> else i) y)"
    if "channel_count (h_info y) = channel_count i" for y
    using recount_ok [of y] valid_channels [OF valid] that by simp
  have k: "channel_count (fmt_info i) = channel_count i" "bits_per_sample (fmt_info i) = bits_per_sample i"
    by (simp_all add: fmt_info_def)
  show ?thesis
    using io len valid c header_pieces [OF d]
    by (simp add: dsf_read_file_structure_def on_io_def read_dsd_header_put read_fmt_into_info_def
        read_fmt_put read_data_header_put rc upd_info_def opened_info_def Let_def k)
qed

text \<open>The size recorded in the data chunk agrees with the one computed from the sample count.\<close>

lemma round_up_4096:
  "(n + 4095) div 4096 * 4096 = n + (if n mod 4096 = 0 then 0 else 4096 - n mod 4096 :: nat)"
proof -
  define q r where "q = n div 4096" and "r = n mod 4096"
  have n: "n = r + q * 4096" and r: "r < 4096" by (simp_all add: q_def r_def)
  have "(n + 4095) div 4096 = q + (r + 4095) div 4096"
    unfolding n using div_mult_self1 [of 4096 "r + 4095" q] by (simp add: ac_simps)
  moreover have "(r + 4095) div 4096 = (if r = 0 then 0 else 1)"
    using r by (simp add: le_div_geq)
  ultimately show ?thesis using n r unfolding r_def [symmetric] by simp
qed

lemma length_pad_groups:
  assumes "length xs = n * c" "0 < c"
  shows "length (pad_groups c xs) = (n + 4095) div 4096 * 4096 * c"
proof -
  have m: "n * c mod (4096 * c) = n mod 4096 * c" by (simp add: mod_mult_mult2)
  have "(n + 4095) div 4096 * 4096 * c =
      n * c + (if n mod 4096 = 0 then 0 else 4096 - n mod 4096) * c"
    by (simp only: round_up_4096 add_mult_distrib)
  then show ?thesis
    using assms
    by (auto simp: pad_groups_def padding_def DSF_BLOCK_SIZE_PER_CHANNEL_def m diff_mult_distrib)
qed

lemma calc_image_size:
  assumes valid: "valid_fmt i" and xs: "info_channels i dvd length xs"
    and small: "length (audio_bytes i xs) \<le> 10737418228"
  shows "unat (dsf_calculate_audio_data_size (channel_count i) (of_nat (stream_samples i (length xs)))
      (bits_per_sample i)) = (if bits_per_sample i = 1 then length (audio_bytes i xs) else length xs)"
proof -
  let ?c = "info_channels i" and ?A = "length (audio_bytes i xs)"
  obtain n where n: "length xs = n * ?c" using xs by (metis dvd_div_mult_self)
  have c: "0 < ?c" using valid_channels [OF valid] by simp
  have A: "?A = (n + 4095) div 4096 * 4096 * ?c"
    using c n by (simp add: length_audio_bytes length_pad_groups)
  have "n * ?c \<le> (n + 4095) div 4096 * 4096 * ?c" unfolding round_up_4096 by simp
  then have nc: "n * ?c \<le> 10737418228" unfolding A [symmetric] using small by (rule le_trans)
  moreover have "n \<le> n * ?c" using c by simp
  ultimately have "n \<le> 10737418228" by (rule le_trans [rotated])
  then have n8: "n * 8 < 18446744073709551600" by simp
  show ?thesis
  proof (cases "bits_per_sample i = 1")
    case True
    then have s: "stream_samples i (length xs) = n * 8" using c n by (simp add: stream_samples_def)
    have "unat (of_nat (n * 8) :: u64) = n * 8" using n8 by (intro unat_of_nat_u64) simp
    moreover have "(n * 8 + 7) div 8 = n" by simp
    ultimately show ?thesis
      using n8 small calc_size_dsd [of "channel_count i" "of_nat (n * 8)"] A True s by (simp add: Let_def)
  next
    case False
    then have s: "stream_samples i (length xs) = n" using c n by (simp add: stream_samples_def)
    have "unat (of_nat n :: u64) = n" using n8 by (intro unat_of_nat_u64) simp
    then show ?thesis
      using calc_size_bytes [OF False, of "channel_count i" "of_nat n"] nc False s n by simp
  qed
qed

lemma opened_image_info:
  assumes valid: "valid_fmt i" and xs: "info_channels i dvd length xs"
    and small: "length (audio_bytes i xs) \<le> 10737418228"
    and j: "j = i\<lparr>sample_count := of_nat (stream_samples i (length xs))\<rparr>"
  shows "opened_info j (of_nat (length (audio_bytes i xs))) =
    (fmt_info j)\<lparr>audio_data_offset := 92, audio_data_size := of_nat (length (audio_bytes i xs))\<rparr>"
proof (cases "bits_per_sample i = 1")
  case False
  then show ?thesis by (simp add: opened_info_def j Let_def)
next
  case True
  let ?A = "length (audio_bytes i xs)"
  have "unat (of_nat ?A :: u64) = ?A" using small by (intro unat_of_nat_u64) simp
  then have "dsf_calculate_audio_data_size (channel_count i) (of_nat (stream_samples i (length xs))) 1 = of_nat ?A"
    using calc_image_size [OF valid xs small] True by (metis unsigned_word_eqI)
  then show ?thesis
    using True by (simp add: opened_info_def j Let_def fmt_info_def)
qed

text \<open>Metadata is everything from its offset to the end of the file.\<close>

lemma read_metadata_put:
  assumes "io_is_open s" "io_can_read s" "d = front @ bs" "0 < length front"
    and "0 < length bs" "length bs \<le> 104857600" "length d < 2 ^ 63" "sa_malloc hp (length bs)"
  shows "dsf_chunk_read_metadata hp (of_nat (length front)) (io_put s d p) =
    (Ok (of_nat (length bs), bs), io_put s d (length d))"
proof -
  have u: "unat (of_nat n :: u64) = n" if "n \<le> length d" for n
    using that assms(7) by (intro unat_of_nat_u64) simp
  have lf: "length front \<le> length d" and lb: "length bs \<le> length d" and ld: "length d = length front + length bs"
    using assms(3) by simp_all
  have nz: "(of_nat (length front) :: u64) \<noteq> 0" "(of_nat (length bs) :: u64) \<noteq> 0"
    using u [OF lf] u [OF lb] assms(4,5) by (metis unat_0 less_irrefl)+
  have le: "\<not> (of_nat (length d) :: u64) \<le> of_nat (length front)"
    and mx: "\<not> (104857600 :: u64) < of_nat (length bs)"
    using u [OF lf] u [OF lb] u [OF order.refl] ld assms(5,6)
    by (simp_all add: word_le_nat_alt word_less_nat_alt)
  have sub: "dsf_uint64_sub_underflow (of_nat (length d)) (of_nat (length front)) =
      Some (of_nat (length bs))"
    using u [OF lf] u [OF order.refl] ld by (simp add: dsf_uint64_sub_underflow_def word_less_nat_alt)
  have "bytes_at (length front) (length bs) d = bs" by (simp add: assms(3) bytes_at_def)
  then show ?thesis
    using assms(1,2,7,8) nz le mx sub u [OF lb] ld
    by (simp add: dsf_chunk_read_metadata_def field_steps sint_u64_nat)
qed

text \<open>The handle after opening an image for reading.\<close>

definition opened ::
  "string \<Rightarrow> nat \<Rightarrow> dsf_file_info \<Rightarrow> dsf \<Rightarrow> byte list \<Rightarrow> byte list option \<Rightarrow> dsf" where
  "opened name cap i x xs m = x\<lparr>
     h_io := io_put (read_stream name (dsf_image i xs m) cap) (dsf_image i xs m)
       (if m = None then 92 else image_size i xs m),
     h_mode := DSF_FILE_MODE_READ,
     h_info := (fmt_info (i\<lparr>sample_count := of_nat (stream_samples i (length xs))\<rparr>))\<lparr>
       audio_data_offset := 92, audio_data_size := of_nat (length (audio_bytes i xs))\<rparr>,
     metadata_buffer := m, metadata_size := of_nat (length (meta_bytes m))\<rparr>"

lemma open_image_ok:
  assumes x: "h_mode x = DSF_FILE_MODE_CLOSED" "metadata_buffer x = None" "metadata_size x = 0"
    and hp: "sa_malloc hp 4112" "\<And>bs. m = Some bs \<Longrightarrow> sa_malloc hp (length bs)"
    and d: "dfiles dk name = Some (dsf_image i xs m)" "dreadable dk name"
    and i: "valid_fmt i" "info_channels i dvd length xs"
    and A: "length (audio_bytes i xs) \<le> 10737418228"
    and m: "\<And>bs. m = Some bs \<Longrightarrow> 0 < length bs \<and> length bs \<le> 104857600"
  shows "dsf_open hp (Some name) (Some x, dk) = (Ok (), (Some (opened name (dcap dk) i x xs m), dk))"
proof -
  let ?img = "dsf_image i xs m" and ?A = "audio_bytes i xs"
  let ?s = "read_stream name ?img (dcap dk)"
  let ?j = "i\<lparr>sample_count := of_nat (stream_samples i (length xs))\<rparr>"
  let ?x1 = "x\<lparr>h_io := io_put ?s ?img 92, h_info := (fmt_info ?j)\<lparr>audio_data_offset := 92,
       audio_data_size := of_nat (length ?A)\<rparr>\<rparr>"
  have opn: "dsf_chunk_file_open_read hp (Some name) dk = (Ok (the ?s), dk)" and "Some (the ?s) = ?s"
    using hp(1) d by (simp_all add: dsf_chunk_file_open_read_def chunk_file_open_def
        dsf_io_open_read_def io_open_def fopen_def read_stream_def)
  have c12: "unat (of_nat (12 + length ?A) :: u64) = 12 + length ?A"
    using A by (intro unat_of_nat_u64) simp
  have rs: "dsf_read_file_structure hp (x\<lparr>h_io := ?s\<rparr>) =
      (if 0 < (of_nat (meta_offset i xs m) :: u64) then load_metadata hp (of_nat (meta_offset i xs m))
       else ret ()) ?x1"
  proof -
    have "h_io (x\<lparr>h_io := ?s\<rparr>) = io_put ?s ?img 0" by simp
    note R = read_file_structure_ok [OF this _ _ dsf_image_def, of hp]
    show ?thesis
      using R x(1) i(1) c12 A opened_image_info [OF i A refl]
      by (simp add: valid_fmt_def)
  qed
  have "dsf_read_file_structure hp (x\<lparr>h_io := ?s\<rparr>) =
      (Ok (), (opened name (dcap dk) i x xs m)\<lparr>h_mode := DSF_FILE_MODE_CLOSED\<rparr>)"
  proof (cases m)
    case None
    then show ?thesis
      using rs x by (simp add: meta_offset_def opened_def meta_bytes_def)
  next
    case (Some bs)
    have bs: "0 < length bs" "length bs \<le> 104857600" "sa_malloc hp (length bs)"
      using m hp(2) Some by auto
    have mo: "meta_offset i xs m = 92 + length ?A" by (simp add: meta_offset_def Some)
    have img: "?img = take (92 + length ?A) ?img @ bs" "length (take (92 + length ?A) ?img) = 92 + length ?A"
      by (simp_all add: dsf_image_def Some meta_bytes_def)
    have sz: "length ?img = image_size i xs m" "image_size i xs m < 2 ^ 63"
      using A bs by (simp_all add: length_dsf_image image_size_def meta_bytes_def Some)
    have "dsf_chunk_read_metadata hp (of_nat (92 + length ?A)) (io_put ?s ?img 92) =
        (Ok (of_nat (length bs), bs), io_put ?s ?img (image_size i xs m))"
      using read_metadata_put [of ?s ?img "take (92 + length ?A) ?img" bs hp 92] img sz bs by simp
    moreover have "0 < (of_nat (92 + length ?A) :: u64)"
    proof -
      have "unat (of_nat (92 + length ?A) :: u64) = 92 + length ?A"
        using A by (intro unat_of_nat_u64) simp
      then show ?thesis by (simp add: word_less_nat_alt)
    qed
    ultimately show ?thesis
      using rs x Some unfolding mo by (simp add: load_metadata_def opened_def meta_bytes_def)
  qed
  then show ?thesis
    using x(1) opn \<open>Some (the ?s) = ?s\<close> by (simp add: dsf_open_def open_with_def opened_def)
qed

end
