(* ===== verification/Dsf_Reader.thy ===== *)
theory Dsf_Reader
  imports Dsf_Session
begin

text \<open>
  The buffered reader: the abstraction of a handle to the stream bytes it has still to deliver,
  and the proof that \<^verbatim>\<open>dsf_read_audio_data\<close> delivers them in order.
\<close>

section \<open>The stream left to read\<close>

text \<open>\<open>ys\<close> is what the read buffer still holds, followed by the block groups from the file position
  on; \<open>post\<close> is what follows them in the file.\<close>

definition reading :: "dsf_io option \<Rightarrow> byte list \<Rightarrow> byte list \<Rightarrow> dsf \<Rightarrow> byte list \<Rightarrow> bool" where
  "reading s d post x ys \<longleftrightarrow> shape x \<and> channels_ok x \<and> io_is_open s \<and> io_can_read s \<and>
     read_buffer_pos x \<le> read_buffer_valid x \<and> read_buffer_valid x \<le> B * cc x \<and>
     (\<exists>pre vs. ys = bytes_at (read_buffer_pos x) (read_buffer_valid x - read_buffer_pos x)
                     (read_buffer x) @ vs \<and>
        B * cc x dvd length vs \<and> d = pre @ blocks (cc x) vs @ post \<and>
        h_io x = io_put s d (length pre))"

lemma blocks_Nil [simp]: "blocks c [] = []"
  by (cases "c = 0") (simp_all add: blocks.simps)

text \<open>What reading leaves alone.\<close>

definition same_source :: "dsf \<Rightarrow> dsf \<Rightarrow> bool" where
  "same_source x y \<longleftrightarrow> h_info y = h_info x \<and> h_mode y = h_mode x \<and>
     metadata_buffer y = metadata_buffer x \<and> metadata_size y = metadata_size x \<and>
     bytes_buffered y = bytes_buffered x"

lemma same_source_trans: "same_source x y \<Longrightarrow> same_source y z \<Longrightarrow> same_source x z"
  by (simp add: same_source_def)

lemma same_source_refl [simp]: "same_source x x"
  by (simp add: same_source_def)

text \<open>Taking bytes out of the buffer.\<close>

lemma reading_advance:
  assumes "reading s d post x ys" "k \<le> read_buffer_valid x - read_buffer_pos x"
  shows "take k (drop (read_buffer_pos x) (read_buffer x)) = take k ys"
    and "k \<le> length ys" "read_buffer_pos x + k \<le> length (read_buffer x)"
    and "reading s d post (x\<lparr>read_buffer_pos := read_buffer_pos x + k\<rparr>) (drop k ys)"
proof -
  obtain pre vs where ys: "ys = bytes_at (read_buffer_pos x) (read_buffer_valid x - read_buffer_pos x)
        (read_buffer x) @ vs"
    and R: "shape x" "channels_ok x" "io_is_open s" "io_can_read s"
      "read_buffer_pos x \<le> read_buffer_valid x" "read_buffer_valid x \<le> B * cc x"
      "B * cc x dvd length vs" "d = pre @ blocks (cc x) vs @ post" "h_io x = io_put s d (length pre)"
    using assms(1) unfolding reading_def by blast
  have "B * cc x \<le> length (read_buffer x)"
    using R(1,2) by (simp add: shape_def channels_ok_def)
  then have v: "read_buffer_valid x \<le> length (read_buffer x)" using R(6) by simp
  show "read_buffer_pos x + k \<le> length (read_buffer x)" using v assms(2) R(5) by simp
  show "k \<le> length ys" using v assms(2) R(5) by (simp add: ys bytes_at_def)
  show "take k (drop (read_buffer_pos x) (read_buffer x)) = take k ys"
    using v assms(2) R(5) by (simp add: ys bytes_at_def)
  have "drop k ys = bytes_at (read_buffer_pos x + k) (read_buffer_valid x - (read_buffer_pos x + k))
      (read_buffer x) @ vs"
    using v assms(2) R(5) by (simp add: ys bytes_at_def drop_take add.commute)
  then show "reading s d post (x\<lparr>read_buffer_pos := read_buffer_pos x + k\<rparr>) (drop k ys)"
    unfolding reading_def using R assms(2) by (auto simp: shape_def channels_ok_def)
qed

text \<open>Refilling an empty buffer.\<close>

lemma reading_refill:
  assumes rd: "reading s d post x ys" and empty: "read_buffer_pos x = read_buffer_valid x"
    and ys: "ys \<noteq> []"
  shows "\<exists>x'. dsf_read_and_buffer_block_group x = (Ok (), x') \<and> reading s d post x' ys \<and>
    same_source x x' \<and> read_buffer_pos x' < read_buffer_valid x'"
proof -
  let ?g = "B * cc x"
  obtain pre where R: "shape x" "channels_ok x" "io_is_open s" "io_can_read s"
      "?g dvd length ys" "d = pre @ blocks (cc x) ys @ post" "h_io x = io_put s d (length pre)"
    using rd empty unfolding reading_def by (auto simp: bytes_at_def)
  have c: "0 < cc x" "?g \<le> B * DSF_MAX_CHANNELS" using R(2) by (simp_all add: channels_ok_def)
  have g: "?g \<le> length ys" using R(5) ys by (simp add: dvd_imp_le)
  define us vs where "us = take ?g ys" and "vs = drop ?g ys"
  have us: "length us = ?g" and vs: "?g dvd length vs" and uv: "ys = us @ vs"
    using g R(5) by (simp_all add: us_def vs_def dvd_minus_self)
  let ?blk = "block_of (cc x) us"
  have d: "d = pre @ ?blk @ blocks (cc x) vs @ post"
    using c(1) us by (simp add: R(6) uv blocks_cons)
  have rdb: "dsf_chunk_read_audio_data ?g (io_put s d (length pre)) =
      (Ok ?blk, io_put s d (length (pre @ ?blk)))"
    using R(3,4) d by (simp add: dsf_chunk_read_audio_data_def field_steps bytes_at_def)
  let ?sc = "?blk @ drop ?g (scratch_buffer x)"
  let ?rb = "us @ drop ?g (read_buffer x)"
  have cv: "dsf_convert_block_to_byte_interleaved ?sc (read_buffer x) (cc x) = Some ?rb"
    using convert_block [of "cc x" ?sc "read_buffer x"] R(1) c us
    by (simp add: unblock_block_of shape_def)
  have lsc: "?g \<le> length (scratch_buffer x)" using R(1) c by (simp add: shape_def)
  have ne: "?blk \<noteq> []" using c by (simp flip: length_greater_0_conv)
  let ?x' = "x\<lparr>h_io := io_put s d (length (pre @ ?blk)), scratch_buffer := ?sc, read_buffer := ?rb,
    read_buffer_pos := 0, read_buffer_valid := ?g\<rparr>"
  have "dsf_read_and_buffer_block_group x = (Ok (), ?x')"
    using lsc ne c cv rdb R(7)
    by (simp add: dsf_read_and_buffer_block_group_def on_io_def Let_def)
  moreover have "reading s d post ?x' ys"
  proof -
    have "shape ?x'" using R(1) c us by (simp add: shape_def)
    moreover have "ys = bytes_at 0 ?g ?rb @ vs" using us uv by (simp add: bytes_at_def)
    moreover have "d = (pre @ ?blk) @ blocks (cc x) vs @ post" using d by simp
    ultimately show ?thesis
      unfolding reading_def using R(2-4) vs by (auto simp: channels_ok_def)
  qed
  ultimately show ?thesis using c by (auto simp: same_source_def)
qed

section \<open>The read loop\<close>

lemma read_loop_full: "length out = n \<Longrightarrow> dsf_read_loop n out x = (Ok (), out, x)"
  by (simp add: dsf_read_loop.simps)

text \<open>One pass through the loop, when there is something left.\<close>

lemma read_loop_copy:
  assumes "reading s d post x ys" "length out < n" "read_buffer_pos x < read_buffer_valid x"
    and "k = min (read_buffer_valid x - read_buffer_pos x) (n - length out)"
  shows "dsf_read_loop n out x =
    dsf_read_loop n (out @ take k ys) (x\<lparr>read_buffer_pos := read_buffer_pos x + k\<rparr>)"
proof -
  have kk: "(if read_buffer_valid x - read_buffer_pos x < n - length out
      then read_buffer_valid x - read_buffer_pos x else n - length out) = k"
    using assms(4) by (simp add: min_def)
  have "k \<le> read_buffer_valid x - read_buffer_pos x" using assms(4) by simp
  from reading_advance [OF assms(1) this] show ?thesis
    using assms(2,3) unfolding dsf_read_loop.simps [of n out x] Let_def kk by simp
qed

lemma read_loop_refill:
  assumes "dsf_read_and_buffer_block_group x = (Ok (), x')" "length out < n"
    and "\<not> read_buffer_pos x < read_buffer_valid x"
  shows "dsf_read_loop n out x = dsf_read_loop n out x'"
  using assms by (simp add: dsf_read_loop.simps [of n out x])

text \<open>The loop gets to the end of the request or of the stream, whichever is first; progress is
  measured by the bytes still wanted.\<close>

lemma read_loop_step:
  assumes z: "reading s d post z ys" "read_buffer_pos z < read_buffer_valid z" "length out < n"
  shows "\<exists>k z'. 0 < k \<and> k \<le> n - length out \<and> k \<le> length ys \<and>
    dsf_read_loop n out z = dsf_read_loop n (out @ take k ys) z' \<and>
    reading s d post z' (drop k ys) \<and> same_source z z'"
proof -
  define k where "k = min (read_buffer_valid z - read_buffer_pos z) (n - length out)"
  have k: "k \<le> read_buffer_valid z - read_buffer_pos z" "0 < k" "k \<le> n - length out"
    using z by (simp_all add: k_def)
  show ?thesis
    using reading_advance(2,4) [OF z(1) k(1)] k read_loop_copy [OF z(1,3,2) k_def]
    by (intro exI conjI) (assumption | simp add: same_source_def)+
qed

lemma read_loop_progress:
  assumes rd: "reading s d post x ys" and lt: "length out < n" and ys: "ys \<noteq> []"
  shows "\<exists>k z'. 0 < k \<and> k \<le> n - length out \<and> k \<le> length ys \<and>
    dsf_read_loop n out x = dsf_read_loop n (out @ take k ys) z' \<and>
    reading s d post z' (drop k ys) \<and> same_source x z'"
proof (cases "read_buffer_pos x < read_buffer_valid x")
  case True
  then show ?thesis using read_loop_step [OF rd] lt by blast
next
  case False
  then have "read_buffer_pos x = read_buffer_valid x" using rd by (simp add: reading_def)
  then obtain x1 where x1: "dsf_read_and_buffer_block_group x = (Ok (), x1)"
    "reading s d post x1 ys" "same_source x x1" "read_buffer_pos x1 < read_buffer_valid x1"
    using reading_refill [OF rd _ ys] by blast
  then show ?thesis
    using read_loop_step [OF x1(2,4) lt] read_loop_refill [OF x1(1) lt False]
      same_source_trans [OF x1(3)] by auto
qed

lemma read_loop_reaches:
  assumes "reading s d post x ys" "length out \<le> n"
  shows "\<exists>x'. dsf_read_loop n out x = dsf_read_loop n (out @ take (n - length out) ys) x' \<and>
    reading s d post x' (drop (n - length out) ys) \<and> same_source x x'"
  using assms
proof (induction "n - length out" arbitrary: out x ys rule: less_induct)
  case less
  show ?case
  proof (cases "length out = n \<or> ys = []")
    case True
    then show ?thesis using less.prems by auto
  next
    case False
    then obtain k z where k: "0 < k" "k \<le> n - length out" "k \<le> length ys"
      and z: "dsf_read_loop n out x = dsf_read_loop n (out @ take k ys) z"
        "reading s d post z (drop k ys)" "same_source x z"
      using read_loop_progress [OF less.prems(1), of out n] less.prems(2) by auto
    let ?o = "out @ take k ys"
    have lo: "length ?o = length out + k" using k by simp
    have "n - length ?o < n - length out" "length ?o \<le> n" using lo k less.prems(2) by auto
    then obtain x' where x': "dsf_read_loop n ?o z =
        dsf_read_loop n (?o @ take (n - length ?o) (drop k ys)) x'"
      "reading s d post x' (drop (n - length ?o) (drop k ys))" "same_source z x'"
      using less.hyps [OF _ z(2)] by blast
    have "?o @ take (n - length ?o) (drop k ys) = out @ take (n - length out) ys"
      using k lo by (simp flip: take_add)
    moreover have "drop (n - length ?o) (drop k ys) = drop (n - length out) ys"
      using k lo by simp
    ultimately have "dsf_read_loop n out x = dsf_read_loop n (out @ take (n - length out) ys) x'"
      "reading s d post x' (drop (n - length out) ys)"
      using x'(1,2) z(1) by (simp_all only:)
    then show ?thesis using same_source_trans [OF z(3) x'(3)] by blast
  qed
qed

lemma read_loop_delivers:
  assumes "reading s d post x ys" "n \<le> length ys"
  shows "\<exists>x'. dsf_read_loop n [] x = (Ok (), take n ys, x') \<and>
    reading s d post x' (drop n ys) \<and> same_source x x'"
  using read_loop_reaches [OF assms(1), of "[]" n] assms(2) by (auto simp: read_loop_full)

text \<open>At the end of the groups the next refill runs into what follows them.\<close>

lemma refill_short:
  assumes rd: "reading s d post x []" and short: "length post < B * cc x"
  shows "\<exists>x'. dsf_read_and_buffer_block_group x = (Err DSF_ERROR_READ, x') \<and> same_source x x' \<and>
    \<not> read_buffer_pos x < read_buffer_valid x"
proof -
  let ?g = "B * cc x"
  obtain pre where R: "shape x" "channels_ok x" "io_is_open s" "io_can_read s"
      "d = pre @ post" "h_io x = io_put s d (length pre)" "read_buffer_valid x \<le> ?g"
      "bytes_at (read_buffer_pos x) (read_buffer_valid x - read_buffer_pos x) (read_buffer x) = []"
    using rd unfolding reading_def by auto
  have g: "0 < ?g" "?g \<le> length (scratch_buffer x)" "?g \<le> length (read_buffer x)"
    using R(1,2) by (simp_all add: channels_ok_def shape_def)
  have "dsf_chunk_read_audio_data ?g (io_put s d (length pre)) =
      (Err DSF_ERROR_READ, io_put s d (length d))"
    using R(3-5) short g(1) by (simp add: dsf_chunk_read_audio_data_def field_steps)
  moreover have "\<not> read_buffer_pos x < read_buffer_valid x"
    using R(7,8) g(3) by (auto simp: bytes_at_def)
  ultimately show ?thesis
    using g(2) R(1,6)
    by (auto simp: dsf_read_and_buffer_block_group_def on_io_def Let_def same_source_def)
qed

lemma read_loop_exhausts:
  assumes rd: "reading s d post x ys" and n: "length ys < n" and short: "length post < B * cc x"
  shows "\<exists>x'. dsf_read_loop n [] x = (Err DSF_ERROR_READ, ys, x') \<and> same_source x x'"
proof -
  obtain x1 where x1: "dsf_read_loop n [] x = dsf_read_loop n ys x1" "reading s d post x1 []"
    "same_source x x1"
    using read_loop_reaches [OF rd, of "[]" n] n by auto
  have "length post < B * cc x1" using short x1(3) by (simp add: same_source_def)
  then obtain x2 where "dsf_read_and_buffer_block_group x1 = (Err DSF_ERROR_READ, x2)"
    "same_source x1 x2" "\<not> read_buffer_pos x1 < read_buffer_valid x1"
    using refill_short [OF x1(2)] by blast
  then show ?thesis
    using x1(1) n same_source_trans [OF x1(3)] by (auto simp: dsf_read_loop.simps [of n ys x1])
qed

section \<open>Reading an opened image\<close>

lemma seek_start_ok:
  assumes "h_mode x = DSF_FILE_MODE_READ \<or> h_mode x = DSF_FILE_MODE_MODIFY"
    and "h_io x = io_put s d p" "io_is_open s" "audio_data_offset (h_info x) = 92"
  shows "dsf_seek_to_audio_start (Some x) =
    (Ok (), Some (x\<lparr>h_io := io_put s d 92, read_buffer_pos := 0, read_buffer_valid := 0\<rparr>))"
  using assms
  by (auto simp: dsf_seek_to_audio_start_def on_io_def dsf_chunk_file_seek_def field_steps
      drop_read_buffer_def)

text \<open>Seeking to a block group boundary.\<close>

lemma seek_group_ok:
  assumes "h_mode x = DSF_FILE_MODE_READ \<or> h_mode x = DSF_FILE_MODE_MODIFY"
    and "h_io x = io_put s d p" "io_is_open s" "audio_data_offset (h_info x) = 92"
    and "92 + n < 2 ^ 63"
  shows "dsf_seek_audio_data (int n) SEEK_SET (Some x) =
    (Ok (), Some (x\<lparr>h_io := io_put s d (92 + n), read_buffer_pos := 0, read_buffer_valid := 0\<rparr>))"
proof -
  have "sint (92 + of_nat n :: u64) = 92 + int n"
    using sint_u64_nat [of "92 + n"] assms(5) by simp
  then show ?thesis
    using assms
    by (auto simp: dsf_seek_audio_data_def on_io_def dsf_chunk_file_seek_def field_steps
        drop_read_buffer_def nat_add_distrib)
qed

lemma reading_image:
  assumes "shape x" "valid_fmt i" "cc x = info_channels i" "k * (B * info_channels i) \<le> length (audio_bytes i xs)"
    and "io_is_open s" "io_can_read s" "d = dsf_image i xs m"
    and "h_io x = io_put s d (92 + k * (B * info_channels i))"
    and "read_buffer_pos x = 0" "read_buffer_valid x = 0"
  shows "reading s d (meta_bytes m) x (drop (k * (B * info_channels i)) (pad_groups (info_channels i) xs))"
proof -
  let ?c = "info_channels i" and ?ys = "pad_groups (info_channels i) xs"
  let ?k = "k * (B * ?c)"
  have c: "0 < ?c" "?c \<le> DSF_MAX_CHANNELS" using valid_channels [OF assms(2)] by simp_all
  have k: "?k \<le> length ?ys" using assms(4) c by (simp add: length_audio_bytes)
  have dv: "B * ?c dvd length (take ?k ?ys)" "B * ?c dvd length (drop ?k ?ys)"
    using k length_pad_groups_dvd [OF c(1), of xs] by (simp_all add: min_absorb2 dvd_diff_nat)
  have bl: "blocks ?c ?ys = blocks ?c (take ?k ?ys) @ blocks ?c (drop ?k ?ys)"
    using blocks_append [OF c(1) dv(1), of "drop ?k ?ys"] by simp
  obtain h where h: "length h = 92" "d = h @ blocks ?c ?ys @ meta_bytes m"
    using assms(7) length_dsf_header unfolding dsf_image_def audio_bytes_def by blast
  have "d = (h @ blocks ?c (take ?k ?ys)) @ blocks ?c (drop ?k ?ys) @ meta_bytes m"
    by (simp add: h bl)
  moreover have "length (h @ blocks ?c (take ?k ?ys)) = 92 + ?k"
    using length_blocks_dvd [OF c(1) dv(1)] k h(1) by (simp add: min_absorb2)
  ultimately show ?thesis
    unfolding reading_def using assms c dv(2) by (auto simp: channels_ok_def bytes_at_def)
qed

end
