(* ===== verification/Op_Frames.thy ===== *)
theory Op_Frames
  imports Nexus_Prelude
begin

text \<open>
  Two ways of stating that an operation is safe whatever its input: \<open>framed R\<close>, it never has
  undefined behaviour and relates the states before and after by \<open>R\<close>; and \<open>safe I\<close>, from a state
  that satisfies \<open>I\<close> it never has undefined behaviour and ends, with success or with an error,
  in a state that satisfies \<open>I\<close>. Both go through the combinators by the rules collected here.
\<close>

section \<open>Frames\<close>

definition framed :: "('s \<Rightarrow> 's \<Rightarrow> bool) \<Rightarrow> ('s, 'e, 'a) op \<Rightarrow> bool" where
  "framed R m \<longleftrightarrow> (\<forall>s. fst (m s) \<noteq> Fault \<and> R s (snd (m s)))"

named_theorems framed_intros \<open>operations and combinators that respect a frame\<close>

lemma framedI: "(\<And>s r s'. m s = (r, s') \<Longrightarrow> r \<noteq> Fault \<and> R s s') \<Longrightarrow> framed R m"
  by (simp add: framed_def) (metis prod.collapse)

lemma framedD: "framed R m \<Longrightarrow> m s = (r, s') \<Longrightarrow> r \<noteq> Fault \<and> R s s'"
  unfolding framed_def by (metis fst_conv snd_conv)

locale op_frame =
  fixes R :: "'s \<Rightarrow> 's \<Rightarrow> bool"
  assumes frame_refl: "R s s"
    and frame_trans: "R s t \<Longrightarrow> R t u \<Longrightarrow> R s u"
begin

lemma framed_ret: "framed R (ret a)"
  by (simp add: framed_def frame_refl)

lemma framed_fail: "framed R (fail e)"
  by (simp add: framed_def frame_refl)

lemma framed_ensure: "framed R (ensure b e)"
  by (simp add: framed_def frame_refl)

lemma framed_seq:
  assumes "framed R m" "\<And>a. framed R (k a)"
  shows "framed R (seq m k)"
proof (rule framedI)
  fix s r s'
  assume run: "seq m k s = (r, s')"
  obtain r1 s1 where m: "m s = (r1, s1)" by fastforce
  have 1: "r1 \<noteq> Fault \<and> R s s1" using assms(1) m by (rule framedD)
  show "r \<noteq> Fault \<and> R s s'"
  proof (cases r1)
    case (Ok a)
    then have "k a s1 = (r, s')" using run m by simp
    then have "r \<noteq> Fault \<and> R s1 s'" using assms(2) by (rule framedD [rotated])
    then show ?thesis using 1 frame_trans by blast
  qed (use run m 1 in auto)
qed

lemma framed_ignore: "framed R m \<Longrightarrow> framed R (ignore m)"
  by (auto simp: framed_def ignore_def split: prod.splits outcome.splits) (metis fst_conv snd_conv)+

lemma framed_on_err:
  assumes "framed R m" "framed R c"
  shows "framed R (on_err m c)"
proof (rule framedI)
  fix s r s'
  assume run: "on_err m c s = (r, s')"
  obtain r1 s1 where m: "m s = (r1, s1)" by fastforce
  have 1: "r1 \<noteq> Fault \<and> R s s1" using assms(1) m by (rule framedD)
  obtain r2 s2 where c: "c s1 = (r2, s2)" by fastforce
  have 2: "r2 \<noteq> Fault \<and> R s1 s2" using assms(2) c by (rule framedD)
  show "r \<noteq> Fault \<and> R s s'"
    using run m c 1 2 frame_trans [of s s1 s2]
    by (cases r1; cases r2) (auto simp: on_err_def)
qed

lemmas frame_rules = framed_ret framed_fail framed_ensure framed_seq framed_ignore framed_on_err

end

lemma framed_if: "framed R m \<Longrightarrow> framed R n \<Longrightarrow> framed R (if b then m else n)"
  by simp

lemma framed_case_option:
  "framed R m \<Longrightarrow> (\<And>a. framed R (k a)) \<Longrightarrow> framed R (case x of None \<Rightarrow> m | Some a \<Rightarrow> k a)"
  by (cases x) simp_all

lemma framed_case_prod: "(\<And>a b. framed R (k a b)) \<Longrightarrow> framed R (case p of (a, b) \<Rightarrow> k a b)"
  by (cases p) simp

lemmas [framed_intros] = framed_if framed_case_option framed_case_prod

section \<open>Invariants\<close>

definition safe :: "('s \<Rightarrow> bool) \<Rightarrow> ('s, 'e, 'a) op \<Rightarrow> bool" where
  "safe I m \<longleftrightarrow> (\<forall>s. I s \<longrightarrow> fst (m s) \<noteq> Fault \<and> I (snd (m s)))"

named_theorems safe_intros \<open>operations and combinators that keep an invariant\<close>

lemma safeI: "(\<And>s r s'. I s \<Longrightarrow> m s = (r, s') \<Longrightarrow> r \<noteq> Fault \<and> I s') \<Longrightarrow> safe I m"
  by (simp add: safe_def) (metis prod.collapse)

lemma safeD: "safe I m \<Longrightarrow> I s \<Longrightarrow> m s = (r, s') \<Longrightarrow> r \<noteq> Fault \<and> I s'"
  unfolding safe_def by (metis fst_conv snd_conv)

lemma safe_ret [safe_intros]: "safe I (ret a)"
  by (simp add: safe_def)

lemma safe_modify: "(\<And>s. I s \<Longrightarrow> I (f s)) \<Longrightarrow> safe I (modify f)"
  by (simp add: safe_def)

lemma safe_seq [safe_intros]:
  "safe I m \<Longrightarrow> (\<And>a. safe I (k a)) \<Longrightarrow> safe I (seq m k)"
  unfolding safe_def seq_def
  by (auto split: prod.splits outcome.splits)

lemma safe_if [safe_intros]: "safe I m \<Longrightarrow> safe I n \<Longrightarrow> safe I (if b then m else n)"
  by simp

text \<open>An operation that looks at the state before it acts.\<close>

lemma safe_look: "(\<And>s. I s \<Longrightarrow> safe I (f s)) \<Longrightarrow> safe I (\<lambda>s. f s s)"
  by (simp add: safe_def)

end
