(* ===== verification/Dsf_Handle.thy ===== *)
theory Dsf_Handle
  imports Dsf_Reader Op_Frames
begin

text \<open>
  The invariant of a DSF handle: which part of the I/O handle an operation may change, the
  invariant of the file handle, and the proof that every public call keeps it and has no
  undefined behaviour.
\<close>

section \<open>What I/O operations keep of their handle\<close>

definition file_kept :: "cfile \<Rightarrow> cfile \<Rightarrow> bool" where
  "file_kept f g \<longleftrightarrow> fpath g = fpath f \<and> freadable g = freadable f \<and> fwritable g = fwritable f \<and>
     fcap g = fcap f \<and> (\<not> fwritable f \<longrightarrow> fdata g = fdata f)"

definition io_kept :: "dsf_io option \<Rightarrow> dsf_io option \<Rightarrow> bool" where
  "io_kept s t \<longleftrightarrow> rel_option (\<lambda>io io'. io_filename io' = io_filename io \<and> io_mode io' = io_mode io \<and>
     rel_option file_kept (io_file io) (io_file io')) s t"

lemma file_kept_refl [simp]: "file_kept f f"
  by (simp add: file_kept_def)

lemma file_kept_trans: "file_kept f g \<Longrightarrow> file_kept g h \<Longrightarrow> file_kept f h"
  by (auto simp: file_kept_def)

interpretation io_frame: op_frame io_kept
proof
  show "io_kept s s" for s
    by (auto simp: io_kept_def intro!: option.rel_refl)
  show "io_kept s u" if "io_kept s t" "io_kept t u" for s t u
    using that file_kept_trans
    by (auto simp: io_kept_def option.rel_sel dest!: option.collapse)
qed

lemmas [framed_intros] = io_frame.frame_rules

lemma framed_on_file:
  assumes "\<And>f. fst (m f) \<noteq> Fault \<and> file_kept f (snd (m f))"
  shows "framed io_kept (on_file m)"
proof (rule framedI)
  fix s r s'
  assume run: "on_file m s = (r, s')"
  show "r \<noteq> Fault \<and> io_kept s s'"
  proof (cases s)
    case None
    then show ?thesis using run by (auto simp: on_file_def io_kept_def)
  next
    case (Some io)
    show ?thesis
    proof (cases "io_file io")
      case None
      then show ?thesis using run Some io_frame.frame_refl by (auto simp: on_file_def)
    next
      case (Some f)
      then show ?thesis
        using run \<open>s = Some io\<close> assms [of f]
        by (auto simp: on_file_def io_kept_def split: prod.splits)
    qed
  qed
qed

lemma framed_file_ops [framed_intros]:
  "framed io_kept (dsf_io_seek off org want)" "framed io_kept dsf_io_get_position"
  "framed io_kept dsf_io_get_file_size" "framed io_kept (dsf_io_read_bytes n)"
  "framed io_kept (dsf_io_write_bytes bs)" "framed io_kept (io_read_le n)"
  "framed io_kept (io_write_le n v)"
  unfolding dsf_io_seek_def dsf_io_get_position_def dsf_io_get_file_size_def dsf_io_read_bytes_def
    dsf_io_write_bytes_def io_read_le_def io_write_le_def
  by (rule framed_on_file;
      auto simp: file_kept_def fseek_def fread_def fwrite_def Let_def split: prod.splits)+

lemma framed_on_chunk [framed_intros]: "framed io_kept m \<Longrightarrow> framed io_kept (on_chunk m)"
  by (auto simp: framed_def on_chunk_def io_frame.frame_refl)

lemma framed_nonnull [framed_intros]:
  "framed io_kept (nonnull e (\<lambda>io. if b then (Err e', io) else (Ok (g io), io)))"
  by (auto simp: framed_def nonnull_def io_frame.frame_refl split: option.split)

lemma framed_fields [framed_intros]:
  "framed io_kept dsf_io_read_uint32_le" "framed io_kept dsf_io_read_uint64_le"
  "framed io_kept (dsf_io_write_uint32_le v)" "framed io_kept (dsf_io_write_uint64_le w)"
  unfolding dsf_io_read_uint32_le_def dsf_io_read_uint64_le_def dsf_io_write_uint32_le_def
    dsf_io_write_uint64_le_def
  by (intro framed_intros)+

lemma framed_patch_field [framed_intros]:
  "framed io_kept t \<Longrightarrow> framed io_kept g \<Longrightarrow> framed io_kept w \<Longrightarrow> (\<And>p. framed io_kept (r p)) \<Longrightarrow>
     framed io_kept (patch_field t g w r)"
  unfolding patch_field_def by (intro framed_intros)

lemma framed_chunk_ops [framed_intros]:
  "framed io_kept dsf_chunk_read_dsd_header" "framed io_kept (dsf_chunk_write_dsd_header a b)"
  "framed io_kept (dsf_chunk_update_file_size a)" "framed io_kept (dsf_chunk_update_metadata_offset a)"
  "framed io_kept (dsf_chunk_update_data_size a)" "framed io_kept (dsf_chunk_update_sample_count a)"
  "framed io_kept (dsf_chunk_write_fmt i)" "framed io_kept dsf_chunk_read_data_header"
  "framed io_kept (dsf_chunk_write_data_header a)" "framed io_kept (dsf_chunk_read_audio_data n)"
  "framed io_kept (dsf_chunk_write_audio_data bs)" "framed io_kept (dsf_chunk_read_metadata hp a)"
  "framed io_kept (dsf_chunk_file_seek off org want)" "framed io_kept dsf_chunk_file_get_position"
  unfolding dsf_chunk_read_dsd_header_def dsf_chunk_write_dsd_header_def
    dsf_chunk_update_file_size_def dsf_chunk_update_metadata_offset_def
    dsf_chunk_update_data_size_def dsf_chunk_update_sample_count_def seek_abs_def
    dsf_chunk_write_fmt_def dsf_chunk_read_data_header_def dsf_chunk_write_data_header_def
    dsf_chunk_read_audio_data_def dsf_chunk_write_audio_data_def dsf_chunk_read_metadata_def
    dsf_chunk_file_seek_def dsf_chunk_file_get_position_def
  by (intro framed_intros)+

text \<open>Reading the fmt chunk also fills the information structure, whatever the outcome.\<close>

definition fmt_kept :: "dsf_io option \<times> dsf_file_info \<Rightarrow> dsf_io option \<times> dsf_file_info \<Rightarrow> bool" where
  "fmt_kept p q \<longleftrightarrow> io_kept (fst p) (fst q)"

interpretation fmt_frame: op_frame fmt_kept
  by unfold_locales (auto simp: fmt_kept_def io_frame.frame_refl intro: io_frame.frame_trans)

lemmas [framed_intros] = fmt_frame.frame_rules

lemma framed_rd_fmt [framed_intros]: "framed io_kept m \<Longrightarrow> framed fmt_kept (rd_fmt m)"
  by (auto simp: framed_def rd_fmt_def fmt_kept_def split: prod.splits) (metis fst_conv snd_conv)+

lemma framed_set_info [framed_intros]: "framed fmt_kept (set_info g)"
  by (auto simp: framed_def set_info_def fmt_kept_def io_frame.frame_refl)

lemma framed_fmt_guard:
  "framed fmt_kept m \<Longrightarrow>
     framed fmt_kept (\<lambda>st. if fst st = None then (Err DSF_ERROR_INVALID_PARAMETER, st) else m st)"
  by (auto simp: framed_def fmt_kept_def io_frame.frame_refl)

lemma framed_read_fmt [framed_intros]: "framed fmt_kept dsf_chunk_read_fmt"
  unfolding dsf_chunk_read_fmt_def by (rule framed_fmt_guard) (intro framed_intros)

lemma framed_validate [framed_intros]: "framed io_kept dsf_chunk_validate_file"
proof -
  have "framed io_kept (\<lambda>s. case dsf_chunk_read_fmt (s, zero_info) of
            (Ok _, (s', info)) \<Rightarrow> (Ok info, s')
          | (Err e, (s', _)) \<Rightarrow> (Err e, s')
          | (Fault, (s', _)) \<Rightarrow> (Fault, s'))"
    using framedD [OF framed_read_fmt]
    by (intro framedI) (fastforce simp: fmt_kept_def split: prod.splits outcome.splits)
  then show ?thesis
    unfolding dsf_chunk_validate_file_def Let_def by (intro framed_intros)
qed

section \<open>The invariant of the file handle\<close>

definition meta_len :: "dsf \<Rightarrow> bool" where
  "meta_len x \<longleftrightarrow> (\<forall>bs. metadata_buffer x = Some bs \<longrightarrow> length bs = unat (metadata_size x))"

definition handle_ok :: "dsf \<Rightarrow> bool" where
  "handle_ok x \<longleftrightarrow> shape x \<and> bytes_buffered x \<le> B \<and> meta_len x \<and>
     (h_mode x \<noteq> DSF_FILE_MODE_WRITE \<longrightarrow> bytes_buffered x = 0) \<and>
     (if h_mode x = DSF_FILE_MODE_CLOSED
      then h_io x = None \<and> metadata_buffer x = None \<and> metadata_size x = 0 \<and>
        read_buffer_pos x = 0 \<and> read_buffer_valid x = 0
      else io_is_open (h_io x) \<and> valid_fmt (h_info x) \<and>
        read_buffer_pos x \<le> read_buffer_valid x \<and> read_buffer_valid x \<le> B * cc x)"

lemma io_kept_open: "io_kept s t \<Longrightarrow> io_is_open t = io_is_open s \<and> (t = None) = (s = None)"
  by (cases s; cases t) (auto simp: io_kept_def io_is_open_def option.rel_sel)

lemma handle_channels: "handle_ok x \<Longrightarrow> h_mode x \<noteq> DSF_FILE_MODE_CLOSED \<Longrightarrow> channels_ok x"
  using valid_channels by (auto simp: handle_ok_def channels_ok_def)

lemma safe_on_io [safe_intros]: "framed io_kept m \<Longrightarrow> safe handle_ok (on_io m)"
proof (rule safeI)
  fix x r y
  assume m: "framed io_kept m" and x: "handle_ok x" and run: "on_io m x = (r, y)"
  obtain io where io: "m (h_io x) = (r, io)" "y = x\<lparr>h_io := io\<rparr>"
    using run by (auto simp: on_io_def split: prod.splits)
  then have "r \<noteq> Fault \<and> io_kept (h_io x) io" using m framedD by metis
  then show "r \<noteq> Fault \<and> handle_ok y"
    using x io io_kept_open [of "h_io x" io]
    by (auto simp: handle_ok_def shape_def meta_len_def)
qed

lemma safe_upd_info:
  "(\<And>i. valid_fmt i \<Longrightarrow> valid_fmt (g i) \<and> channel_count (g i) = channel_count i) \<Longrightarrow>
     safe handle_ok (modify (upd_info g))"
  by (rule safe_modify) (auto simp: handle_ok_def upd_info_def shape_def meta_len_def)

section \<open>Opening\<close>

text \<open>What the functions that read or write the file structure keep of a handle, whose mode is
  still CLOSED while its I/O handle is already open.\<close>

definition opens_to :: "dsf \<Rightarrow> dsf \<Rightarrow> bool" where
  "opens_to x y \<longleftrightarrow> shape y = shape x \<and> h_mode y = h_mode x \<and> bytes_buffered y = bytes_buffered x \<and>
     read_buffer_pos y = read_buffer_pos x \<and> read_buffer_valid y = read_buffer_valid x \<and>
     (meta_len x \<longrightarrow> meta_len y) \<and> io_kept (h_io x) (h_io y)"

interpretation open_frame: op_frame opens_to
  by unfold_locales (auto simp: opens_to_def io_frame.frame_refl intro: io_frame.frame_trans)

lemmas [framed_intros] = open_frame.frame_rules

lemma framed_on_io [framed_intros]: "framed io_kept m \<Longrightarrow> framed opens_to (on_io m)"
  by (rule framedI)
     (auto simp: on_io_def opens_to_def shape_def meta_len_def split: prod.splits dest: framedD)

lemma framed_upd_info [framed_intros]: "framed opens_to (modify (upd_info g))"
  by (auto simp: framed_def opens_to_def upd_info_def shape_def meta_len_def io_frame.frame_refl)

lemma framed_read_fmt_into_info [framed_intros]: "framed opens_to read_fmt_into_info"
  by (rule framedI)
     (auto simp: read_fmt_into_info_def opens_to_def shape_def meta_len_def fmt_kept_def
       split: prod.splits dest!: framedD [OF framed_read_fmt])

lemma framed_recount [framed_intros]: "framed opens_to (recount_samples n)"
  by (rule framedI)
     (auto simp: recount_samples_def Let_def opens_to_def upd_info_def shape_def meta_len_def
       io_frame.frame_refl split: if_splits option.splits)

lemma read_bytes_length: "dsf_io_read_bytes n s = (Ok bs, t) \<Longrightarrow> length bs = n"
  by (auto simp: dsf_io_read_bytes_def on_file_def nonnull_def
      split: if_splits option.splits prod.splits)

lemma read_metadata_length:
  "dsf_chunk_read_metadata hp n s = (Ok (sz, buf), t) \<Longrightarrow> length buf = unat sz"
  by (auto simp: dsf_chunk_read_metadata_def on_chunk_def seq_Ok_iff
      split: if_splits option.splits dest: read_bytes_length)

lemma framed_load_metadata [framed_intros]: "framed opens_to (load_metadata hp n)"
proof (rule framedI)
  fix x r y
  assume run: "load_metadata hp n x = (r, y)"
  obtain q io where q: "dsf_chunk_read_metadata hp n (h_io x) = (q, io)" by fastforce
  moreover have "q \<noteq> Fault \<and> io_kept (h_io x) io"
    using q by (rule framedD [rotated]) (intro framed_intros)
  ultimately show "r \<noteq> Fault \<and> opens_to x y"
    using run read_metadata_length [of hp n "h_io x"]
    by (cases q) (auto simp: load_metadata_def opens_to_def shape_def meta_len_def)
qed

lemma framed_read_structure: "framed opens_to (dsf_read_file_structure hp)"
proof -
  have guard: "framed opens_to (\<lambda>x. if h_io x = None then (Err DSF_ERROR_INVALID_PARAMETER, x) else m x)"
    if "framed opens_to m" for m :: "unit dsf_op"
    using that by (auto simp: framed_def open_frame.frame_refl)
  have branch: "framed opens_to (\<lambda>x. if b x then m x else (Ok (), x))"
    if "framed opens_to m" for b and m :: "unit dsf_op"
    using that by (auto simp: framed_def open_frame.frame_refl)
  have "framed opens_to (\<lambda>x. recount_samples n (upd_info g x))" for n g
    using framedD [OF framed_recount, of n "upd_info g _"] open_frame.frame_trans
      framed_upd_info [of g, unfolded framed_def modify_def]
    by (intro framedI) (auto, blast)
  then show ?thesis
    unfolding dsf_read_file_structure_def by (intro guard branch framed_intros)
qed

lemma framed_write_structure: "framed opens_to dsf_write_file_structure"
proof -
  have guard: "framed opens_to (\<lambda>x. if h_io x = None then (Err DSF_ERROR_INVALID_PARAMETER, x) else m x)"
    if "framed opens_to m" for m :: "unit dsf_op"
    using that by (auto simp: framed_def open_frame.frame_refl)
  have "framed opens_to (\<lambda>x. on_io (dsf_chunk_write_fmt (h_info x)) x)"
    using framed_on_io [OF framed_chunk_ops(7)] by (auto simp: framed_def)
  then show ?thesis
    unfolding dsf_write_file_structure_def by (intro guard framed_intros)
qed

lemma seq_Err_iff:
  "seq m k s = (Err e, s'') \<longleftrightarrow>
     m s = (Err e, s'') \<or> (\<exists>a s'. m s = (Ok a, s') \<and> k a s' = (Err e, s''))"
  by (auto simp: seq_def split: prod.splits outcome.splits)

lemma valid_fmt_upd [simp]:
  "valid_fmt (i\<lparr>sample_count := a\<rparr>) = valid_fmt i" "valid_fmt (i\<lparr>audio_data_size := a\<rparr>) = valid_fmt i"
  "valid_fmt (i\<lparr>audio_data_offset := a\<rparr>) = valid_fmt i" "valid_fmt (i\<lparr>file_size := a\<rparr>) = valid_fmt i"
  "valid_fmt (i\<lparr>metadata_offset := a\<rparr>) = valid_fmt i" "valid_fmt (i\<lparr>duration_seconds := q\<rparr>) = valid_fmt i"
  "valid_fmt (i\<lparr>bit_rate := w\<rparr>) = valid_fmt i"
  by (simp_all add: valid_fmt_def)

lemma load_metadata_no_Err: "load_metadata hp n x \<noteq> (Err e, y)"
  by (auto simp: load_metadata_def split: prod.splits outcome.splits)

lemma load_metadata_info: "load_metadata hp n x = (r, y) \<Longrightarrow> h_info y = h_info x"
  by (auto simp: load_metadata_def split: prod.splits outcome.splits)

lemma recount_valid: "recount_samples n x = (r, y) \<Longrightarrow> valid_fmt (h_info x) \<Longrightarrow> valid_fmt (h_info y)"
  by (auto simp: recount_samples_def Let_def upd_info_def split: if_splits option.splits)

lemma recount_meta:
  "recount_samples n x = (r, y) \<Longrightarrow>
     metadata_buffer y = metadata_buffer x \<and> metadata_size y = metadata_size x"
  by (auto simp: recount_samples_def Let_def upd_info_def split: if_splits option.splits)

lemma read_structure_Ok:
  "dsf_read_file_structure hp x = (Ok u, y) \<Longrightarrow> valid_fmt (h_info y)"
  by (auto simp: dsf_read_file_structure_def seq_Ok_iff on_io_def upd_info_def
      read_fmt_into_info_def dest!: read_fmt_Ok load_metadata_info recount_valid
      split: if_splits prod.splits)
    (metis valid_fmt_upd(3))+

lemma read_structure_Err:
  "dsf_read_file_structure hp x = (Err e, y) \<Longrightarrow>
     metadata_buffer y = metadata_buffer x \<and> metadata_size y = metadata_size x"
  by (auto simp: dsf_read_file_structure_def seq_Err_iff on_io_def upd_info_def
      load_metadata_no_Err read_fmt_into_info_def dest!: recount_meta
      split: if_splits prod.splits)

lemma write_structure_info:
  "dsf_write_file_structure x = (r, y) \<Longrightarrow>
     valid_fmt (h_info y) = valid_fmt (h_info x) \<and> channel_count (h_info y) = channel_count (h_info x) \<and>
     metadata_buffer y = metadata_buffer x \<and> metadata_size y = metadata_size x"
  by (auto simp: dsf_write_file_structure_def seq_def on_io_def upd_info_def
      split: if_splits prod.splits outcome.splits)


section \<open>Calls that open a file\<close>

lemma close_closes: "dsf_chunk_file_close (s, d) = (r, (t, d')) \<Longrightarrow> r \<noteq> Fault \<and> t = None"
  by (auto simp: dsf_chunk_file_close_def dsf_io_close_def
      split: option.splits prod.splits if_splits bool.splits)

lemma chunk_open_open:
  "dsf_chunk_file_open_write hp n d = (q, d') \<Longrightarrow> q \<noteq> Fault \<and> (\<forall>io. q = Ok io \<longrightarrow> io_is_open (Some io))"
  "dsf_chunk_file_open_read hp n d = (q, d') \<Longrightarrow> q \<noteq> Fault \<and> (\<forall>io. q = Ok io \<longrightarrow> io_is_open (Some io))"
  "dsf_chunk_file_open_modify hp n d = (q, d') \<Longrightarrow> q \<noteq> Fault \<and> (\<forall>io. q = Ok io \<longrightarrow> io_is_open (Some io))"
  by (auto simp: dsf_chunk_file_open_write_def dsf_chunk_file_open_read_def
      dsf_chunk_file_open_modify_def chunk_file_open_def dsf_io_open_write_def dsf_io_open_read_def
      dsf_io_open_modify_def io_open_def io_is_open_def
      split: option.splits if_splits prod.splits)

lemma opens_to_ok:
  assumes "handle_ok x" "h_mode x = DSF_FILE_MODE_CLOSED" "opens_to (x\<lparr>h_io := Some io, h_info := j\<rparr>) y"
    and "io_is_open (Some io)"
  shows "shape y" "bytes_buffered y = 0" "h_mode y = DSF_FILE_MODE_CLOSED" "meta_len y"
    "read_buffer_pos y = 0" "read_buffer_valid y = 0" "io_is_open (h_io y)"
  using assms io_kept_open [of "Some io" "h_io y"]
  by (auto simp: opens_to_def handle_ok_def shape_def meta_len_def)

lemma open_with_ok:
  assumes x: "handle_ok x"
    and opn: "\<And>q d'. opn hp n d = (q, d') \<Longrightarrow> q \<noteq> Fault \<and> (\<forall>io. q = Ok io \<longrightarrow> io_is_open (Some io))"
    and m: "m = DSF_FILE_MODE_READ \<or> m = DSF_FILE_MODE_MODIFY"
    and run: "open_with hp opn m n (Some x, d) = (r, (h, d'))"
  shows "r \<noteq> Fault \<and> (\<exists>y. h = Some y \<and> handle_ok y)"
proof (cases "n = None \<or> h_mode x \<noteq> DSF_FILE_MODE_CLOSED")
  case True
  then show ?thesis using run x by (auto simp: open_with_def split: option.splits if_splits)
next
  case False
  then obtain name where n: "n = Some name" and cl: "h_mode x = DSF_FILE_MODE_CLOSED" by auto
  obtain q d1 where q: "opn hp n d = (q, d1)" by fastforce
  show ?thesis
  proof (cases q)
    case (Ok io)
    then have io: "io_is_open (Some io)" using opn q by blast
    let ?x1 = "x\<lparr>h_io := Some io\<rparr>"
    obtain r1 y where s: "dsf_read_file_structure hp ?x1 = (r1, y)" by fastforce
    then have r1: "r1 \<noteq> Fault" and fr: "opens_to ?x1 y"
      using framedD [OF framed_read_structure] by blast+
    have "opens_to (x\<lparr>h_io := Some io, h_info := h_info x\<rparr>) y" using fr by simp
    note y = opens_to_ok [OF x cl this io]
    obtain r2 t d2 where c: "dsf_chunk_file_close (h_io y, d1) = (r2, (t, d2))" by (metis prod.exhaust)
    show ?thesis
    proof (cases r1)
      case (Ok u)
      then have "valid_fmt (h_info y)" using s read_structure_Ok by blast
      then show ?thesis
        using run n cl q \<open>q = Ok io\<close> s Ok y m
        by (auto simp: open_with_def handle_ok_def shape_def meta_len_def)
    next
      case (Err e)
      then have "metadata_buffer y = None" "metadata_size y = 0"
        using s read_structure_Err x cl by (fastforce simp: handle_ok_def)+
      then show ?thesis
        using run n cl q \<open>q = Ok io\<close> s Err y c
        by (auto simp: open_with_def handle_ok_def shape_def meta_len_def)
    qed (use r1 in simp)
  next
    case (Err e)
    then show ?thesis using run n cl q x by (auto simp: open_with_def)
  qed (use opn q in blast)
qed

lemma create_safe:
  assumes x: "handle_ok x"
    and run: "dsf_create hp n rate ctype ccount bits (Some x, d) = (r, (h, d'))"
  shows "r \<noteq> Fault \<and> (\<exists>y. h = Some y \<and> handle_ok y)"
proof (cases "n = None \<or> h_mode x \<noteq> DSF_FILE_MODE_CLOSED \<or>
    \<not> valid_fmt (new_info rate ctype ccount bits)")
  case True
  then show ?thesis
    using run x by (auto simp: dsf_create_def valid_fmt_def new_info_def split: option.splits if_splits)
next
  case False
  then obtain name where n: "n = Some name" and cl: "h_mode x = DSF_FILE_MODE_CLOSED"
    and valid: "valid_fmt (new_info rate ctype ccount bits)" by auto
  have guards: "dsf_is_valid_sample_rate rate" "dsf_is_valid_channel_type ctype"
    "\<not> (ccount < 1 \<or> of_nat DSF_MAX_CHANNELS < ccount)" "dsf_is_valid_bits_per_sample bits"
    using valid by (simp_all add: valid_fmt_def new_info_def)
  let ?i = "zero_info\<lparr>format_version := DSF_FORMAT_VERSION, format_id := DSF_FORMAT_DSD_RAW,
     channel_type := ctype, channel_count := ccount, sampling_frequency := rate,
     bits_per_sample := bits, sample_count := 0,
     block_size_per_channel := of_nat DSF_BLOCK_SIZE_PER_CHANNEL\<rparr>"
  have vi: "valid_fmt ?i" using valid by (simp add: valid_fmt_def new_info_def)
  obtain q d1 where q: "dsf_chunk_file_open_write hp n d = (q, d1)" by fastforce
  show ?thesis
  proof (cases q)
    case (Ok io)
    then have io: "io_is_open (Some io)" using chunk_open_open(1) q by blast
    let ?x1 = "x\<lparr>h_io := Some io, h_info := ?i\<rparr>"
    obtain r1 y where s: "dsf_write_file_structure ?x1 = (r1, y)" by fastforce
    then have r1: "r1 \<noteq> Fault" and fr: "opens_to ?x1 y"
      using framedD [OF framed_write_structure] by blast+
    note y = opens_to_ok [OF x cl fr io]
    have inf: "valid_fmt (h_info y)" "metadata_buffer y = None" "metadata_size y = 0"
      using write_structure_info [OF s] vi x cl by (simp_all add: handle_ok_def)
    obtain r2 t d2 where c: "dsf_chunk_file_close (h_io y, d1) = (r2, (t, d2))" by (metis prod.exhaust)
    show ?thesis
      using run n cl q Ok s y inf c r1 guards
      by (cases r1) (auto simp: dsf_create_def Let_def handle_ok_def shape_def meta_len_def)
  next
    case (Err e)
    then show ?thesis using run n cl q x guards by (auto simp: dsf_create_def)
  qed (use chunk_open_open(1) q in blast)
qed


section \<open>Calls that move audio\<close>

lemma shape_upd [simp]:
  "shape (x\<lparr>bytes_buffered := n\<rparr>) = shape x" "shape (x\<lparr>h_io := io\<rparr>) = shape x"
  "shape (x\<lparr>h_info := i\<rparr>) = shape x" "shape (x\<lparr>h_mode := m\<rparr>) = shape x"
  "shape (x\<lparr>bytes_written := w\<rparr>) = shape x" "shape (x\<lparr>samples_written := w\<rparr>) = shape x"
  "shape (x\<lparr>read_buffer_pos := n\<rparr>) = shape x" "shape (x\<lparr>read_buffer_valid := n\<rparr>) = shape x"
  "shape (x\<lparr>metadata_buffer := b\<rparr>) = shape x" "shape (x\<lparr>metadata_size := w\<rparr>) = shape x"
  "shape (x\<lparr>metadata_modified := u\<rparr>) = shape x"
  by (simp_all add: shape_def)

text \<open>What writing and reading audio keep of a handle.\<close>

definition moves_to :: "dsf \<Rightarrow> dsf \<Rightarrow> bool" where
  "moves_to x y \<longleftrightarrow> (shape x \<longrightarrow> shape y) \<and> h_mode y = h_mode x \<and> h_info y = h_info x \<and>
     metadata_buffer y = metadata_buffer x \<and> metadata_size y = metadata_size x \<and>
     io_kept (h_io x) (h_io y)"

interpretation move_frame: op_frame moves_to
  by unfold_locales (auto simp: moves_to_def io_frame.frame_refl intro: io_frame.frame_trans)

lemma moves_to_ok:
  assumes "handle_ok x" "moves_to x y" "bytes_buffered y \<le> B"
    and "h_mode x \<noteq> DSF_FILE_MODE_WRITE \<Longrightarrow> bytes_buffered y = 0"
    and "h_mode x \<noteq> DSF_FILE_MODE_CLOSED \<Longrightarrow> read_buffer_pos y \<le> read_buffer_valid y"
    and "h_mode x \<noteq> DSF_FILE_MODE_CLOSED \<Longrightarrow> read_buffer_valid y \<le> B * cc y"
    and "h_mode x = DSF_FILE_MODE_CLOSED \<Longrightarrow> read_buffer_pos y = 0 \<and> read_buffer_valid y = 0"
  shows "handle_ok y"
  using assms io_kept_open [of "h_io x" "h_io y"]
  by (auto simp: handle_ok_def moves_to_def meta_len_def)

lemma block_group_moves:
  assumes "shape x" "channels_ok x" "k \<le> B" "pad \<or> k = B"
    and run: "dsf_write_block_group k pad x = (r, y)"
  shows "r \<noteq> Fault \<and> moves_to x y \<and> bytes_buffered y = bytes_buffered x \<and>
    read_buffer_pos y = read_buffer_pos x \<and> read_buffer_valid y = read_buffer_valid x"
proof -
  let ?sc = "concat (map (padded x k) [0..<cc x]) @ drop (cc x * B) (scratch_buffer x)"
  have bb: "(if pad then B else k) = B" using assms(4) by auto
  have c: "cc x \<le> DSF_MAX_CHANNELS" using assms(2) by (simp add: channels_ok_def)
  have len: "length ?sc = B * DSF_MAX_CHANNELS"
  proof -
    have "cc x * B \<le> DSF_MAX_CHANNELS * B" using c by (rule mult_le_mono1)
    then show ?thesis
      using assms(1,3) c by (simp add: length_concat_padded shape_def mult.commute)
  qed
  have le: "\<not> length ?sc < B * cc x" unfolding len using c by simp
  let ?bs = "take (B * cc x) ?sc"
  obtain q io where q: "dsf_chunk_write_audio_data ?bs (h_io x) = (q, io)" by fastforce
  have "q \<noteq> Fault \<and> io_kept (h_io x) io"
    using framed_chunk_ops(11) q by (rule framedD)
  then show ?thesis
    using run assemble_all [OF assms(1-4)] le q len assms(1)
    by (cases q) (auto simp: dsf_write_block_group_def bb on_io_def moves_to_def shape_def)
qed

lemma take_frame_moves:
  "shape x \<Longrightarrow> moves_to x (take_frame buf ip x)"
  using shape_put_frame [of x buf ip "cc x"]
  by (auto simp: moves_to_def take_frame_def put_frame_def shape_def io_frame.frame_refl)

lemma write_loop_moves:
  assumes "shape x" "channels_ok x" "bytes_buffered x < B" "ip + n * cc x \<le> length buf"
    and "dsf_write_loop n buf ip t x = (r, t', y)"
  shows "r \<noteq> Fault \<and> moves_to x y \<and> bytes_buffered y \<le> B \<and>
    (r = Ok () \<longrightarrow> bytes_buffered y < B) \<and>
    read_buffer_pos y = read_buffer_pos x \<and> read_buffer_valid y = read_buffer_valid x"
  using assms
proof (induction n arbitrary: x ip t)
  case 0
  then show ?case by (auto simp: move_frame.frame_refl)
next
  case (Suc n)
  let ?x1 = "take_frame buf ip x"
  have ip: "ip + cc x \<le> length buf" and ip': "ip + cc x + n * cc x \<le> length buf"
    using Suc.prems(4) by simp_all
  have x1: "shape ?x1" "channels_ok ?x1" "moves_to x ?x1" "cc ?x1 = cc x"
    "read_buffer_pos ?x1 = read_buffer_pos x" "read_buffer_valid ?x1 = read_buffer_valid x"
    "bytes_buffered ?x1 = Suc (bytes_buffered x)"
    using Suc.prems(1,2) take_frame_moves take_frame_same(1,5,6) [of buf ip x] take_frame_same(7) [of x buf ip]
    by (simp_all add: take_frame_def put_frame_def)
  note step = write_loop_Suc [OF Suc.prems(1-3) ip, of n t]
  show ?case
  proof (cases "Suc (bytes_buffered x) = B")
    case False
    then have "dsf_write_loop n buf (ip + cc x) t ?x1 = (r, t', y)"
      using Suc.prems(5) step by (simp only: if_False)
    from Suc.IH [OF x1(1,2) _ _ this] have "r \<noteq> Fault \<and> moves_to ?x1 y \<and> bytes_buffered y \<le> B \<and>
        (r = Ok () \<longrightarrow> bytes_buffered y < B) \<and> read_buffer_pos y = read_buffer_pos x \<and>
        read_buffer_valid y = read_buffer_valid x"
      using x1(4-7) ip' False Suc.prems(3) by simp
    then show ?thesis using move_frame.frame_trans [OF x1(3)] by blast
  next
    case True
    obtain q x3 where q: "dsf_write_block_group B False ?x1 = (q, x3)" by fastforce
    have x3: "q \<noteq> Fault" "moves_to ?x1 x3" "bytes_buffered x3 = B"
      "read_buffer_pos x3 = read_buffer_pos x" "read_buffer_valid x3 = read_buffer_valid x"
      using block_group_moves [OF x1(1,2) _ _ q] x1 True by simp_all
    have m3: "moves_to x x3" using move_frame.frame_trans x1(3) x3(2) .
    show ?thesis
    proof (cases q)
      case (Ok u)
      let ?z = "x3\<lparr>bytes_buffered := 0\<rparr>"
      have run: "dsf_write_loop n buf (ip + cc x) (t + B * cc x) ?z = (r, t', y)"
        using Suc.prems(5) unfolding step
        by (simp only: True q Ok if_True simp_thms prod.case outcome.case)
      have z: "shape ?z" "channels_ok ?z" "cc ?z = cc x" "moves_to x ?z"
        using m3 Suc.prems(1,2) by (simp_all add: moves_to_def channels_ok_def)
      have "bytes_buffered ?z < B" by simp
      from Suc.IH [OF z(1,2) this _ run] show ?thesis
        using z(3) ip' x3(4,5) move_frame.frame_trans [OF z(4)] by auto
    next
      case (Err e)
      then have "r = Err e" "y = x3"
        using Suc.prems(5) unfolding step
        by (simp_all only: True q Err if_True simp_thms prod.case outcome.case prod.inject)
      then show ?thesis using m3 x3 by simp
    qed (use x3 in simp)
  qed
qed

section \<open>Public calls keep the invariant\<close>

definition api_safe :: "'a api_op \<Rightarrow> bool" where
  "api_safe m \<longleftrightarrow> (\<forall>x r h. handle_ok x \<longrightarrow> m (Some x) = (r, h) \<longrightarrow>
     r \<noteq> Fault \<and> (\<exists>y. h = Some y \<and> handle_ok y))"

lemma api_safe_nonnull: "safe handle_ok m \<Longrightarrow> api_safe (nonnull_handle m)"
  by (auto simp: api_safe_def split: prod.splits dest: safeD)

lemma safe_on_handle [safe_intros]: "api_safe m \<Longrightarrow> safe handle_ok (on_handle m)"
  by (rule safeI) (fastforce simp: api_safe_def on_handle_def split: prod.splits option.splits)

lemma safe_guard [safe_intros]: "safe I m \<Longrightarrow> safe I (\<lambda>x. if b x then (Err e, x) else m x)"
  by (simp add: safe_def)

lemma safe_branch [safe_intros]: "safe I m \<Longrightarrow> safe I (\<lambda>x. if b x then m x else (Ok a, x))"
  by (simp add: safe_def)

lemma safe_answer [safe_intros]: "safe I (\<lambda>x. (Ok (g x), x))"
  by (simp add: safe_def)

lemma write_audio_safe:
  assumes x: "handle_ok x" and bb: "bytes_buffered x < B"
    and run: "dsf_write_audio_data (Some buf) (length buf) (Some x, cell) = (r, (h, cell'))"
  shows "r \<noteq> Fault \<and> (\<exists>y. h = Some y \<and> handle_ok y)"
proof (cases "h_mode x = DSF_FILE_MODE_WRITE")
  case False
  then show ?thesis using run x by (auto simp: dsf_write_audio_data_def)
next
  case True
  then have ch: "channels_ok x" and io: "h_io x \<noteq> None"
    using x handle_channels [OF x] by (auto simp: handle_ok_def io_is_open_def)
  have sh: "shape x" using x by (simp add: handle_ok_def)
  let ?n = "length buf div cc x"
  have c: "cc x \<noteq> 0" and n: "0 + ?n * cc x \<le> length buf" using ch by (simp_all add: channels_ok_def)
  obtain q t y where l: "dsf_write_loop ?n buf 0 0 x = (q, t, y)" by (metis prod.exhaust)
  from write_loop_moves [OF sh ch bb n l] have y: "q \<noteq> Fault" "moves_to x y" "bytes_buffered y \<le> B"
    "read_buffer_pos y = read_buffer_pos x" "read_buffer_valid y = read_buffer_valid x" by simp_all
  have cy: "cc y = cc x" using y(2) by (simp add: moves_to_def)
  have ok: "handle_ok y"
    using x y(2,3) by (rule moves_to_ok) (use x y(4,5) cy True in \<open>simp_all add: handle_ok_def\<close>)
  then have acc: "handle_ok (account_samples ?n y)"
    by (simp add: account_samples_def Let_def upd_info_def handle_ok_def meta_len_def)
  show ?thesis
  proof (cases "length buf mod cc x = 0")
    case False
    then show ?thesis using run True io c x by (auto simp: dsf_write_audio_data_def)
  next
    case aligned: True
    have "dsf_write_audio_data (Some buf) (length buf) (Some x, cell) =
        (case q of Ok _ \<Rightarrow> (Ok (), (Some (account_samples ?n y), t))
         | Err e \<Rightarrow> (Err e, (Some y, t)) | Fault \<Rightarrow> (Fault, (Some y, cell)))"
      using True io c aligned l by (auto simp: dsf_write_audio_data_def split: outcome.split)
    then show ?thesis using run y(1) ok acc by (cases q) auto
  qed
qed

lemma safe_flush [safe_intros]: "api_safe dsf_flush_audio_data"
  unfolding dsf_flush_audio_data_def
proof (rule api_safe_nonnull, rule safeI)
  fix x r y
  let ?body = "\<lambda>x. seq (dsf_write_block_group (bytes_buffered x) True) (\<lambda>_.
         modify (\<lambda>x. upd_info (\<lambda>i. i\<lparr>audio_data_size := bytes_written x\<rparr>)
           (x\<lparr>bytes_buffered := 0\<rparr>))) x"
  assume x: "handle_ok x" and run: "(if h_mode x \<noteq> DSF_FILE_MODE_WRITE then (Err DSF_ERROR_INVALID_MODE, x)
     else if h_io x = None then (Err DSF_ERROR_NOT_OPEN, x)
     else if 0 < bytes_buffered x then ?body x else (Ok (), x)) = (r, y)"
  show "r \<noteq> Fault \<and> handle_ok y"
  proof (cases "h_mode x = DSF_FILE_MODE_WRITE \<and> h_io x \<noteq> None \<and> 0 < bytes_buffered x")
    case False
    then show ?thesis using run x by (auto split: if_splits)
  next
    case True
    have ch: "channels_ok x" using x True by (intro handle_channels) simp_all
    obtain q z where q: "dsf_write_block_group (bytes_buffered x) True x = (q, z)" by fastforce
    have z: "q \<noteq> Fault" "moves_to x z" "bytes_buffered z = bytes_buffered x"
      "read_buffer_pos z = read_buffer_pos x" "read_buffer_valid z = read_buffer_valid x"
      using block_group_moves [OF _ ch _ _ q] x by (simp_all add: handle_ok_def)
    have cz: "cc z = cc x" "h_mode z = DSF_FILE_MODE_WRITE" using z(2) True by (simp_all add: moves_to_def)
    have ok: "handle_ok z"
      using x z(2) by (rule moves_to_ok) (use x z(3-5) cz True in \<open>simp_all add: handle_ok_def\<close>)
    then have "handle_ok (upd_info (\<lambda>i. i\<lparr>audio_data_size := w\<rparr>) (z\<lparr>bytes_buffered := 0\<rparr>))" for w
      using cz(2) by (simp add: upd_info_def handle_ok_def meta_len_def)
    then show ?thesis using run True q z(1) ok by (cases q) auto
  qed
qed

lemma safe_write_metadata_chunk [safe_intros]:
  "safe handle_ok (\<lambda>x. if metadata_buffer x \<noteq> None \<and> 0 < metadata_size x
     then on_io (dsf_chunk_write_metadata (metadata_buffer x) (metadata_size x)) x else (Ok 0, x))"
proof (rule safeI)
  fix x r y
  assume x: "handle_ok x" and run: "(if metadata_buffer x \<noteq> None \<and> 0 < metadata_size x
     then on_io (dsf_chunk_write_metadata (metadata_buffer x) (metadata_size x)) x else (Ok 0, x)) = (r, y)"
  have fr: "framed io_kept (dsf_chunk_write_metadata (Some bs) (metadata_size x))"
    if "metadata_buffer x = Some bs" for bs
  proof -
    have "\<not> length bs < unat (metadata_size x)" using x that by (simp add: handle_ok_def meta_len_def)
    then show ?thesis
      unfolding dsf_chunk_write_metadata_def option.case dsf_uint64_to_sizet_Some
      by (simp only: if_False) (intro framed_intros)
  qed
  show "r \<noteq> Fault \<and> handle_ok y"
    using run x safeD [OF safe_on_io [OF fr] x]
    by (cases "metadata_buffer x") (auto split: if_splits)
qed

lemma safe_look_info:
  "(\<And>i. safe handle_ok (f i)) \<Longrightarrow> safe handle_ok (\<lambda>x. f (h_info x) x)"
  by (simp add: safe_def)

lemma safe_upd_sizes [safe_intros]:
  "safe handle_ok (modify (upd_info (\<lambda>i. i\<lparr>audio_data_size := a\<rparr>)))"
  "safe handle_ok (modify (upd_info (\<lambda>i. i\<lparr>file_size := a, metadata_offset := b\<rparr>)))"
  by (rule safe_upd_info; simp)+

lemma safe_finalize [safe_intros]: "api_safe dsf_finalize"
  unfolding dsf_finalize_def Let_def
  by (intro api_safe_nonnull safe_intros framed_intros safe_look_info
      [of "\<lambda>i. on_io (dsf_chunk_update_sample_count (sample_count i))"])

lemma refill_moves:
  assumes x: "shape x" "channels_ok x" and run: "dsf_read_and_buffer_block_group x = (r, y)"
  shows "r \<noteq> Fault \<and> moves_to x y \<and> bytes_buffered y = bytes_buffered x \<and>
    (if r = Ok () then read_buffer_pos y = 0 \<and> read_buffer_valid y = B * cc x
     else read_buffer_pos y = read_buffer_pos x \<and> read_buffer_valid y = read_buffer_valid x)"
proof -
  let ?g = "B * cc x"
  have g: "0 < ?g" "?g \<le> B * DSF_MAX_CHANNELS" using x(2) by (simp_all add: channels_ok_def)
  obtain q io where q: "dsf_chunk_read_audio_data ?g (h_io x) = (q, io)" by fastforce
  have fr: "q \<noteq> Fault \<and> io_kept (h_io x) io" using framed_chunk_ops(10) q by (rule framedD)
  have len: "length (scratch_buffer x) = B * DSF_MAX_CHANNELS" "length (read_buffer x) = B * DSF_MAX_CHANNELS"
    using x(1) by (simp_all add: shape_def)
  show ?thesis
  proof (cases q)
    case (Ok bs)
    then have lb: "length bs = ?g"
      using q by (auto simp: dsf_chunk_read_audio_data_def on_chunk_def dest: read_bytes_length split: if_splits)
    let ?sc = "bs @ drop (length bs) (scratch_buffer x)"
    let ?rb = "map (unblock (cc x) ?sc) [0..<?g] @ drop ?g (read_buffer x)"
    have cv: "dsf_convert_block_to_byte_interleaved ?sc (read_buffer x) (cc x) = Some ?rb"
      using g len lb by (intro convert_block) simp_all
    have "dsf_read_and_buffer_block_group x = (Ok (), x\<lparr>h_io := io, scratch_buffer := ?sc,
        read_buffer := ?rb, read_buffer_pos := 0, read_buffer_valid := ?g\<rparr>)"
      using q Ok g len cv lb
      by (simp add: dsf_read_and_buffer_block_group_def on_io_def Let_def)
    then show ?thesis
      using run fr x(1) g len lb by (auto simp: moves_to_def shape_def)
  next
    case (Err e)
    then have "dsf_read_and_buffer_block_group x = (Err e, x\<lparr>h_io := io\<rparr>)"
      using q g len by (simp add: dsf_read_and_buffer_block_group_def on_io_def Let_def)
    then show ?thesis using run fr by (auto simp: moves_to_def)
  qed (use fr in simp)
qed

lemma read_loop_moves:
  assumes "shape x" "channels_ok x" "read_buffer_pos x \<le> read_buffer_valid x"
    "read_buffer_valid x \<le> B * cc x" "dsf_read_loop n out x = (r, out', y)"
  shows "r \<noteq> Fault \<and> moves_to x y \<and> bytes_buffered y = bytes_buffered x \<and>
    read_buffer_pos y \<le> read_buffer_valid y \<and> read_buffer_valid y \<le> B * cc x"
  using assms
proof (induction n out x rule: dsf_read_loop.induct)
  case (1 n out x)
  show ?case
  proof (cases "length out < n")
    case False
    then show ?thesis using "1.prems" by (auto simp: dsf_read_loop.simps [of n out x] move_frame.frame_refl)
  next
    case lt: True
    show ?thesis
    proof (cases "read_buffer_pos x < read_buffer_valid x")
      case True
      define k where "k = (if read_buffer_valid x - read_buffer_pos x < n - length out
        then read_buffer_valid x - read_buffer_pos x else n - length out)"
      let ?z = "x\<lparr>read_buffer_pos := read_buffer_pos x + k\<rparr>"
      have k: "read_buffer_pos x + k \<le> read_buffer_valid x" using True by (auto simp: k_def)
      have "B * cc x \<le> length (read_buffer x)"
        using "1.prems"(1,2) by (simp add: shape_def channels_ok_def)
      then have nf: "\<not> length (read_buffer x) < read_buffer_pos x + k"
        using k "1.prems"(4) by simp
      have run: "dsf_read_loop n (out @ take k (drop (read_buffer_pos x) (read_buffer x))) ?z = (r, out', y)"
        using "1.prems"(5) lt True nf unfolding dsf_read_loop.simps [of n out x] Let_def k_def [symmetric]
        by simp
      have z: "shape ?z" "channels_ok ?z" "read_buffer_pos ?z \<le> read_buffer_valid ?z"
        "read_buffer_valid ?z \<le> B * cc ?z" "moves_to x ?z"
        using "1.prems"(1-4) k by (simp_all add: channels_ok_def moves_to_def io_frame.frame_refl)
      have "r \<noteq> Fault \<and> moves_to ?z y \<and> bytes_buffered y = bytes_buffered ?z \<and>
          read_buffer_pos y \<le> read_buffer_valid y \<and> read_buffer_valid y \<le> B * cc ?z"
        using "1.IH"(1) [OF lt True refl refl k_def nf z(1-4) run] .
      then show ?thesis using move_frame.frame_trans [OF z(5)] by simp
    next
      case False
      obtain q x1 where q: "dsf_read_and_buffer_block_group x = (q, x1)" by fastforce
      note m = refill_moves [OF "1.prems"(1,2) q]
      have cc1: "cc x1 = cc x" "shape x1" "channels_ok x1"
        using m "1.prems"(1,2) by (auto simp: moves_to_def channels_ok_def)
      show ?thesis
      proof (cases q)
        case (Ok u)
        have run: "dsf_read_loop n out x1 = (r, out', y)"
          using "1.prems"(5) lt False q Ok by (simp add: dsf_read_loop.simps [of n out x])
        have p: "read_buffer_pos x1 \<le> read_buffer_valid x1" "read_buffer_valid x1 \<le> B * cc x1"
          using m Ok cc1 by simp_all
        have q': "(Ok u, x1) = dsf_read_and_buffer_block_group x" using q Ok by simp
        from "1.IH"(2) [OF lt False q' _ cc1(2,3) p run]
        show ?thesis using m cc1 move_frame.frame_trans by (metis (no_types, lifting))
      next
        case (Err e)
        then show ?thesis
          using "1.prems" lt False q m by (auto simp: dsf_read_loop.simps [of n out x] split: if_splits)
      qed (use m in simp)
    qed
  qed
qed


lemma read_audio_safe:
  assumes x: "handle_ok x" and run: "dsf_read_audio_data given n (Some x, out) = (r, (h, out'))"
  shows "r \<noteq> Fault \<and> (\<exists>y. h = Some y \<and> handle_ok y)"
proof (cases "given \<and> (h_mode x = DSF_FILE_MODE_READ \<or> h_mode x = DSF_FILE_MODE_MODIFY)")
  case False
  then show ?thesis using run x by (auto simp: dsf_read_audio_data_def split: if_splits)
next
  case True
  then have nc: "h_mode x \<noteq> DSF_FILE_MODE_CLOSED" and nw: "h_mode x \<noteq> DSF_FILE_MODE_WRITE" by auto
  have ch: "channels_ok x" using x nc by (rule handle_channels)
  have ok: "shape x" "read_buffer_pos x \<le> read_buffer_valid x" "read_buffer_valid x \<le> B * cc x"
    "bytes_buffered x = 0" "io_is_open (h_io x)"
    using x nc nw by (simp_all add: handle_ok_def)
  obtain q o' y where l: "dsf_read_loop n [] x = (q, o', y)" by (metis prod.exhaust)
  from read_loop_moves [OF ok(1) ch ok(2,3) l]
  have y: "q \<noteq> Fault" "moves_to x y" "bytes_buffered y = 0"
    "read_buffer_pos y \<le> read_buffer_valid y" "read_buffer_valid y \<le> B * cc x"
    using ok(4) by simp_all
  have "cc y = cc x" using y(2) by (simp add: moves_to_def)
  then have "handle_ok y"
    using x y(2) by (intro moves_to_ok [of x y]) (use y(3-5) nc in simp_all)
  moreover have "h_io x \<noteq> None" using ok(5) by (auto simp: io_is_open_def)
  ultimately show ?thesis using run True l y(1) by (auto simp: dsf_read_audio_data_def split: if_splits)
qed

lemma safe_drop_read_buffer [safe_intros]: "safe handle_ok (modify drop_read_buffer)"
  by (rule safe_modify) (simp add: drop_read_buffer_def handle_ok_def meta_len_def)

lemma safe_seeks [safe_intros]:
  "api_safe dsf_seek_to_audio_start" "api_safe (dsf_seek_audio_data off org)"
  "api_safe dsf_get_audio_position" "api_safe dsf_validate"
proof -
  show "api_safe dsf_seek_to_audio_start"
    unfolding dsf_seek_to_audio_start_def
    by (intro api_safe_nonnull safe_guard safe_look_info
        [of "\<lambda>i. seq (on_io (dsf_chunk_file_seek (sint (audio_data_offset i)) SEEK_SET True)) (\<lambda>_.
            modify drop_read_buffer)"] safe_intros framed_intros)
  show "api_safe (dsf_seek_audio_data off org)"
    unfolding dsf_seek_audio_data_def
    by (cases org; simp only: seek_origin.case;
        intro api_safe_nonnull safe_guard safe_look_info [of "\<lambda>i. seq (on_io (dsf_chunk_file_seek
            (sint (audio_data_offset i + of_int off)) SEEK_SET True)) (\<lambda>_. modify drop_read_buffer)"]
          safe_look_info [of "\<lambda>i. seq (on_io (dsf_chunk_file_seek
            (sint (audio_data_offset i + audio_data_size i + of_int off)) SEEK_SET True)) (\<lambda>_. modify drop_read_buffer)"]
          safe_intros framed_intros)
  show "api_safe dsf_get_audio_position"
    unfolding dsf_get_audio_position_def
    by (intro api_safe_nonnull safe_guard safe_seq safe_answer safe_on_io framed_intros)
  show "api_safe dsf_validate"
    unfolding dsf_validate_def
    by (intro api_safe_nonnull safe_guard safe_on_io framed_intros)
qed

lemma write_metadata_safe:
  assumes x: "handle_ok x"
    and run: "dsf_write_metadata hp (Some bs) (of_nat (length bs)) (Some x) = (r, h)"
    and len: "length bs < 2 ^ 64"
  shows "r \<noteq> Fault \<and> (\<exists>y. h = Some y \<and> handle_ok y)"
proof -
  have u: "unat (of_nat (length bs) :: u64) = length bs" using len by (intro unat_of_nat_u64) simp
  have "handle_ok (x\<lparr>metadata_buffer := Some bs, metadata_size := of_nat (length bs), metadata_modified := True\<rparr>)"
    if "h_mode x = DSF_FILE_MODE_WRITE \<or> h_mode x = DSF_FILE_MODE_MODIFY"
    using x that u by (auto simp: handle_ok_def meta_len_def)
  then show ?thesis
    using run x u by (auto simp: dsf_write_metadata_def split: if_splits)
qed

lemma reset_ok: "handle_ok x \<Longrightarrow> handle_ok (dsf_reset_file_state x)"
  by (auto simp: handle_ok_def dsf_reset_file_state_def shape_def meta_len_def)

lemma new_handle_ok: "handle_ok (dsf_reset_file_state zero_handle)"
  by (simp add: handle_ok_def dsf_reset_file_state_def zero_handle_def shape_def meta_len_def)

lemma close_safe:
  assumes x: "handle_ok x" and run: "dsf_close (Some x, d) = (r, (h, d'))"
  shows "r \<noteq> Fault \<and> (\<exists>y. h = Some y \<and> handle_ok y \<and> h_mode y = DSF_FILE_MODE_CLOSED)"
proof (cases "h_mode x = DSF_FILE_MODE_CLOSED")
  case True
  then show ?thesis using run x by (auto simp: dsf_close_def)
next
  case False
  then have "h_io x \<noteq> None" using x by (auto simp: handle_ok_def io_is_open_def)
  moreover obtain q t d1 where c: "dsf_chunk_file_close (h_io x, d) = (q, (t, d1))" by (metis prod.exhaust)
  moreover have "q \<noteq> Fault" using close_closes c by blast
  ultimately show ?thesis
    using run False reset_ok [OF x] by (auto simp: dsf_close_def dsf_reset_file_state_def)
qed

lemma remove_safe:
  assumes x: "handle_ok x" and run: "dsf_remove_file (Some x, d) = (r, (h, d'))"
  shows "r \<noteq> Fault \<and> (\<exists>y. h = Some y \<and> handle_ok y)"
proof (cases "h_io x")
  case None
  then show ?thesis using run x by (auto simp: dsf_remove_file_def)
next
  case (Some io)
  then have fn: "dsf_chunk_file_get_filename DSF_MAX_STR_SIZE (h_io x) =
      (Ok (sa_strlcpy (io_filename io) DSF_MAX_STR_SIZE), h_io x)"
    by (simp add: dsf_chunk_file_get_filename_def on_chunk_def dsf_io_get_filename_def)
  obtain q y d1 where c: "dsf_close (Some x, d) = (q, (y, d1))" by (metis prod.exhaust)
  have same: "x\<lparr>h_io := Some io\<rparr> = x" unfolding Some [symmetric] by simp
  show ?thesis
    using run Some fn c close_safe [OF x c]
    by (auto simp: dsf_remove_file_def same split: outcome.splits prod.splits bool.splits)
qed

end
