(* ===== verification/Dsf_Lifecycle.thy ===== *)
theory Dsf_Lifecycle
  imports Dsf_Handle
begin

text \<open>
  The state machine of the public calls of libdsf on one handle and a disk. Every reachable
  handle satisfies the invariant of \<open>Dsf_Handle\<close>, and no call has undefined behaviour as long as
  no block was lost to a full device.
\<close>

section \<open>The state machine of the public calls\<close>

text \<open>The calls that change a handle or the disk, with the caller keeping its side of the contract:
  the size it passes is the size of its buffer.\<close>

datatype dsf_call =
    Call_create string u32 u32 u32 u32 | Call_open string | Call_open_modify string
  | Call_write "byte list" | Call_flush | Call_finalize
  | Call_read nat | Call_seek_start | Call_seek int seek_origin | Call_position
  | Call_write_metadata "byte list" | Call_validate | Call_close | Call_remove

definition lift_api :: "'a api_op \<Rightarrow> dsf \<times> disk \<Rightarrow> (dsf_error, unit) outcome \<times> (dsf \<times> disk)" where
  "lift_api m = (\<lambda>(x, d). case m (Some x) of
       (Ok _, h) \<Rightarrow> (Ok (), (the h, d)) | (Err e, h) \<Rightarrow> (Err e, (the h, d))
     | (Fault, h) \<Rightarrow> (Fault, (the h, d)))"

definition lift_file :: "unit file_op \<Rightarrow> dsf \<times> disk \<Rightarrow> (dsf_error, unit) outcome \<times> (dsf \<times> disk)" where
  "lift_file m = (\<lambda>(x, d). case m (Some x, d) of (r, (h, d')) \<Rightarrow> (r, (the h, d')))"

fun perform :: "heap \<Rightarrow> dsf_call \<Rightarrow> dsf \<times> disk \<Rightarrow> (dsf_error, unit) outcome \<times> (dsf \<times> disk)" where
  "perform hp (Call_create n rate ctype ccount bits) = lift_file (dsf_create hp (Some n) rate ctype ccount bits)"
| "perform hp (Call_open n) = lift_file (dsf_open hp (Some n))"
| "perform hp (Call_open_modify n) = lift_file (dsf_open_modify hp (Some n))"
| "perform hp (Call_write bs) = lift_api (\<lambda>h. case dsf_write_audio_data (Some bs) (length bs) (h, 0) of
     (r, (h', _)) \<Rightarrow> (r, h'))"
| "perform hp Call_flush = lift_api dsf_flush_audio_data"
| "perform hp Call_finalize = lift_api dsf_finalize"
| "perform hp (Call_read n) = lift_api (\<lambda>h. case dsf_read_audio_data True n (h, []) of (r, (h', _)) \<Rightarrow> (r, h'))"
| "perform hp Call_seek_start = lift_api dsf_seek_to_audio_start"
| "perform hp (Call_seek off org) = lift_api (dsf_seek_audio_data off org)"
| "perform hp Call_position = lift_api dsf_get_audio_position"
| "perform hp (Call_write_metadata bs) = lift_api (dsf_write_metadata hp (Some bs) (of_nat (length bs)))"
| "perform hp Call_validate = lift_api dsf_validate"
| "perform hp Call_close = lift_file dsf_close"
| "perform hp Call_remove = lift_file dsf_remove_file"

text \<open>A C buffer has fewer than \<open>2^64\<close> bytes, and a handle that lost a block to a full device is
  not written to again.\<close>

definition allowed :: "dsf_call \<Rightarrow> dsf \<Rightarrow> bool" where
  "allowed c x \<longleftrightarrow> (case c of Call_write bs \<Rightarrow> bytes_buffered x < DSF_BLOCK_SIZE_PER_CHANNEL
     | Call_write_metadata bs \<Rightarrow> length bs < 2 ^ 64 | _ \<Rightarrow> True)"

inductive dsf_step :: "heap \<Rightarrow> dsf \<times> disk \<Rightarrow> dsf_call \<Rightarrow> dsf \<times> disk \<Rightarrow> bool" for hp where
  dsf_step: "allowed c (fst st) \<Longrightarrow> perform hp c st = (r, st') \<Longrightarrow> r \<noteq> Fault \<Longrightarrow> dsf_step hp st c st'"

inductive dsf_reach :: "heap \<Rightarrow> dsf \<times> disk \<Rightarrow> bool" for hp where
  reach_alloc: "dsf_alloc hp = Ok x \<Longrightarrow> dsf_reach hp (x, d)"
| reach_step: "dsf_reach hp st \<Longrightarrow> dsf_step hp st c st' \<Longrightarrow> dsf_reach hp st'"

inductive_cases dsf_stepE: "dsf_step hp st c st'"

lemma lift_api_safe:
  "api_safe m \<Longrightarrow> handle_ok x \<Longrightarrow> lift_api m (x, d) = (r, (y, d')) \<Longrightarrow> r \<noteq> Fault \<and> handle_ok y"
  by (auto simp: lift_api_def api_safe_def split: prod.splits outcome.splits) fastforce+

lemma lift_api_run:
  assumes "\<And>r h. m (Some x) = (r, h) \<Longrightarrow> r \<noteq> Fault \<and> (\<exists>y. h = Some y \<and> handle_ok y)"
    and "lift_api m (x, d) = (r, (y, d'))"
  shows "r \<noteq> Fault \<and> handle_ok y"
proof -
  obtain q h where "m (Some x) = (q, h)" by fastforce
  then show ?thesis using assms(1) assms(2) by (cases q) (fastforce simp: lift_api_def)+
qed

lemma lift_file_run:
  assumes "\<And>r h d'. m (Some x, d) = (r, (h, d')) \<Longrightarrow> r \<noteq> Fault \<and> (\<exists>y. h = Some y \<and> handle_ok y)"
    and "lift_file m (x, d) = (r, (y, d'))"
  shows "r \<noteq> Fault \<and> handle_ok y"
  using assms by (auto simp: lift_file_def split: prod.splits)

lemma perform_safe:
  assumes x: "handle_ok x" and ok: "allowed c x" and run: "perform hp c (x, d) = (r, (y, d'))"
  shows "r \<noteq> Fault \<and> handle_ok y"
proof (cases c)
  case (Call_create n rate ctype ccount bits)
  then show ?thesis using run create_safe [OF x] by (intro lift_file_run) auto
next
  case (Call_open n)
  have "r \<noteq> Fault \<and> (\<exists>y. h = Some y \<and> handle_ok y)" if "dsf_open hp (Some n) (Some x, d) = (r, (h, d'))" for r h d'
    by (rule open_with_ok [OF x chunk_open_open(2) _ that [unfolded dsf_open_def]]) simp_all
  then show ?thesis using run Call_open by (intro lift_file_run) auto
next
  case (Call_open_modify n)
  have "r \<noteq> Fault \<and> (\<exists>y. h = Some y \<and> handle_ok y)" if "dsf_open_modify hp (Some n) (Some x, d) = (r, (h, d'))" for r h d'
    by (rule open_with_ok [OF x chunk_open_open(3) _ that [unfolded dsf_open_modify_def]]) simp_all
  then show ?thesis using run Call_open_modify by (intro lift_file_run) auto
next
  case (Call_write bs)
  then have "bytes_buffered x < B" using ok by (simp add: allowed_def)
  then show ?thesis
    using run Call_write write_audio_safe [OF x]
    by (intro lift_api_run [of "\<lambda>h. case dsf_write_audio_data (Some bs) (length bs) (h, 0) of
         (r, (h', _)) \<Rightarrow> (r, h')" x]) (auto split: prod.splits)
next
  case (Call_read n)
  then show ?thesis
    using run read_audio_safe [OF x]
    by (intro lift_api_run [of "\<lambda>h. case dsf_read_audio_data True n (h, []) of (r, (h', _)) \<Rightarrow> (r, h')" x])
       (auto split: prod.splits)
next
  case (Call_write_metadata bs)
  then have len: "length bs < 2 ^ 64" using ok by (simp add: allowed_def)
  show ?thesis
    using run Call_write_metadata write_metadata_safe [OF x _ len]
    by (intro lift_api_run [of "dsf_write_metadata hp (Some bs) (of_nat (length bs))" x]) auto
next
  case Call_close
  then show ?thesis using run close_safe [OF x] by (intro lift_file_run [of dsf_close x d]) fastforce+
next
  case Call_remove
  then show ?thesis using run remove_safe [OF x] by (intro lift_file_run [of dsf_remove_file x d]) auto
next
  case (Call_seek off org)
  then show ?thesis using run lift_api_safe [OF safe_seeks(2) x] by simp
qed (use run x safe_flush safe_finalize safe_seeks(1,3,4) in \<open>auto dest: lift_api_safe\<close>)

lemma reach_ok: "dsf_reach hp st \<Longrightarrow> handle_ok (fst st)"
proof (induction rule: dsf_reach.induct)
  case (reach_alloc x d)
  then show ?case using new_handle_ok by (auto simp: dsf_alloc_def split: if_splits)
next
  case (reach_step st c st')
  from reach_step.hyps(2) obtain r where "allowed c (fst st)" "perform hp c st = (r, st')"
    by (cases rule: dsf_stepE) auto
  then show ?case
    using reach_step.IH perform_safe [of "fst st" c hp "snd st" r "fst st'" "snd st'"] by simp
qed

end
