(* ===== verification/Dsf_Properties.thy ===== *)
theory Dsf_Properties
  imports Dsf_Lifecycle
begin

text \<open>
  The properties of libdsf: what a recording session leaves on the disk, what a playing session
  reads back, the safety of every sequence of calls, the header fields, and the behaviours at
  the edges (end of data, full device, files opened for modification).
\<close>

section \<open>Sessions\<close>

text \<open>A recording: create the file, write the buffers one call each, add metadata, finalise, close.\<close>

definition write_call :: "byte list \<Rightarrow> unit api_op" where
  "write_call b = (\<lambda>h. case dsf_write_audio_data (Some b) (length b) (h, 0) of (r, (h', _)) \<Rightarrow> (r, h'))"

primrec write_calls :: "byte list list \<Rightarrow> unit api_op" where
  "write_calls [] = ret ()"
| "write_calls (b # bs) = seq (write_call b) (\<lambda>_. write_calls bs)"

definition on_handle_of :: "'a api_op \<Rightarrow> 'a file_op" where
  "on_handle_of m = (\<lambda>(h, d). case m h of (r, h') \<Rightarrow> (r, (h', d)))"

definition record_session ::
  "heap \<Rightarrow> string \<Rightarrow> u32 \<Rightarrow> u32 \<Rightarrow> u32 \<Rightarrow> u32 \<Rightarrow> byte list list \<Rightarrow> byte list option \<Rightarrow> unit file_op" where
  "record_session hp name rate ctype ccount bits bufs m =
     seq (dsf_create hp (Some name) rate ctype ccount bits) (\<lambda>_.
     seq (on_handle_of (write_calls bufs)) (\<lambda>_.
     seq (case m of None \<Rightarrow> ret ()
          | Some bs \<Rightarrow> on_handle_of (dsf_write_metadata hp (Some bs) (of_nat (length bs)))) (\<lambda>_.
     seq (on_handle_of dsf_finalize) (\<lambda>_. dsf_close))))"

text \<open>Playing \<open>n\<close> bytes of a file from the start of its audio.\<close>

definition read_call :: "nat \<Rightarrow> byte list api_op" where
  "read_call n = (\<lambda>h. case dsf_read_audio_data True n (h, []) of
     (Ok _, (h', out)) \<Rightarrow> (Ok out, h') | (Err e, (h', _)) \<Rightarrow> (Err e, h') | (Fault, (h', _)) \<Rightarrow> (Fault, h'))"

definition play_session :: "heap \<Rightarrow> string \<Rightarrow> nat \<Rightarrow> byte list file_op" where
  "play_session hp name n =
     seq (dsf_open hp (Some name)) (\<lambda>_.
     seq (on_handle_of dsf_seek_to_audio_start) (\<lambda>_.
     seq (on_handle_of (read_call n)) (\<lambda>out.
     seq dsf_close (\<lambda>_. ret out))))"

lemma on_handle_of_Ok: "m h = (Ok a, h') \<Longrightarrow> on_handle_of m (h, d) = (Ok a, (h', d))"
  by (simp add: on_handle_of_def)

text \<open>The buffers are cut at frame boundaries.\<close>

definition framed_bufs :: "nat \<Rightarrow> byte list list \<Rightarrow> bool" where
  "framed_bufs c bufs \<longleftrightarrow> list_all (\<lambda>b. c dvd length b) bufs"

lemma write_calls_ok:
  assumes "recording s i x xs m" "framed_bufs (info_channels i) bufs"
    and "io_can_write s (92 + length xs + length (concat bufs))"
  shows "\<exists>x'. write_calls bufs (Some x) = (Ok (), Some x') \<and> recording s i x' (xs @ concat bufs) m"
  using assms
proof (induction bufs arbitrary: x xs)
  case Nil
  then show ?case by simp
next
  case (Cons b bufs)
  let ?c = "info_channels i"
  have "?c dvd length b" using Cons.prems(2) by (simp add: framed_bufs_def)
  then obtain n where n: "length b = n * ?c" by (metis dvd_div_mult_self)
  have "io_can_write s (92 + length xs + n * ?c)"
    by (rule can_write_le [OF Cons.prems(3)]) (simp add: n)
  then obtain x1 t where "dsf_write_audio_data (Some b) (n * ?c) (Some x, 0) = (Ok (), (Some x1, t))"
    and r1: "recording s i x1 (xs @ take (n * ?c) b) m"
    using write_audio_ok [OF Cons.prems(1), of n b 0] n by auto
  then have w: "write_call b (Some x) = (Ok (), Some x1)" by (simp add: write_call_def n)
  have "io_can_write s (92 + length (xs @ b) + length (concat bufs))"
    using Cons.prems(3) by (simp add: add.assoc)
  then obtain x2 where "write_calls bufs (Some x1) = (Ok (), Some x2)"
    "recording s i x2 ((xs @ b) @ concat bufs) m"
    using Cons.IH [of x1 "xs @ b"] r1 n Cons.prems(2) by (auto simp: framed_bufs_def)
  then show ?case using w by simp
qed

lemma new_info_samples: "(new_info rate ctype ccount bits)\<lparr>sample_count := 0\<rparr> = new_info rate ctype ccount bits"
  by (simp add: new_info_def zero_info_def)

text \<open>What a session needs of its environment: a closed handle, parameters of the format, memory,
  a path it may write and a device large enough.\<close>

definition can_record ::
  "heap \<Rightarrow> disk \<Rightarrow> string \<Rightarrow> dsf_file_info \<Rightarrow> byte list list \<Rightarrow> byte list option \<Rightarrow> bool" where
  "can_record hp d name i bufs m \<longleftrightarrow> valid_fmt i \<and> framed_bufs (info_channels i) bufs \<and>
     sa_malloc hp 4112 \<and> dwritable d name \<and> image_size i (concat bufs) m \<le> dcap d \<and>
     length (audio_bytes i (concat bufs)) \<le> 10737418228 \<and>
     (case m of None \<Rightarrow> True
      | Some bs \<Rightarrow> 0 < length bs \<and> length bs \<le> 104857600 \<and> sa_malloc hp (length bs))"

lemma framed_concat: "framed_bufs c bufs \<Longrightarrow> c dvd length (concat bufs)"
  by (induction bufs) (auto simp: framed_bufs_def)

lemma record_session_image:
  assumes x: "handle_ok x" "h_mode x = DSF_FILE_MODE_CLOSED"
    and i: "i = new_info rate ctype ccount bits"
    and env: "can_record hp d name i bufs m"
  shows "\<exists>y. record_session hp name rate ctype ccount bits bufs m (Some x, d) =
      (Ok (), (Some y, d\<lparr>dfiles := (dfiles d)(name \<mapsto> dsf_image i (concat bufs) m)\<rparr>)) \<and>
    handle_ok y \<and> h_mode y = DSF_FILE_MODE_CLOSED"
proof -
  let ?xs = "concat bufs" and ?s = "write_stream name (dcap d)"
  let ?d1 = "d\<lparr>dfiles := (dfiles d)(name \<mapsto> [])\<rparr>"
  have E: "valid_fmt i" "framed_bufs (info_channels i) bufs" "sa_malloc hp 4112" "dwritable d name"
    "image_size i ?xs m \<le> dcap d" "length (audio_bytes i ?xs) \<le> 10737418228"
    using env by (simp_all add: can_record_def)
  let ?x0 = "x\<lparr>h_io := io_put ?s (start_header i) 92, h_info := i, h_mode := DSF_FILE_MODE_WRITE,
     samples_written := 0, bytes_written := 0\<rparr>"
  have c: "dsf_create hp (Some name) rate ctype ccount bits (Some x, d) = (Ok (), (Some ?x0, ?d1))"
    using create_ok [OF x(2)] E(1,3-5) i by (simp add: image_size_def)
  have r0: "recording ?s i ?x0 [] None"
    using recording_start [of x i ?s] x E(1) new_info_samples [of rate ctype ccount bits]
    by (simp add: i handle_ok_def has_meta_def meta_ok_def)
  have "length (pad_groups (info_channels i) ?xs) = length (audio_bytes i ?xs)"
    using E(1) valid_channels by (simp add: length_audio_bytes)
  then have "length ?xs \<le> length (audio_bytes i ?xs)" by (simp add: pad_groups_def)
  then have "io_can_write ?s (92 + length [] + length ?xs)"
    using E(5) by (simp add: image_size_def)
  then obtain x1 where w: "write_calls bufs (Some ?x0) = (Ok (), Some x1)"
    and r1: "recording ?s i x1 ?xs None"
    using write_calls_ok [OF r0 E(2)] by auto
  obtain x2 where wm: "(case m of None \<Rightarrow> ret ()
      | Some bs \<Rightarrow> on_handle_of (dsf_write_metadata hp (Some bs) (of_nat (length bs)))) (Some x1, ?d1) =
      (Ok (), (Some x2, ?d1))" and r2: "recording ?s i x2 ?xs m"
  proof (cases m)
    case None
    then show ?thesis using that r1 by simp
  next
    case (Some bs)
    then have "sa_malloc hp (length bs)" "0 < length bs" "length bs \<le> 104857600"
      using env by (simp_all add: can_record_def)
    then obtain x2 where "dsf_write_metadata hp (Some bs) (of_nat (length bs)) (Some x1) = (Ok (), Some x2)"
      "recording ?s i x2 ?xs (Some bs)"
      using write_metadata_ok [OF r1, of hp bs] by blast
    then show ?thesis using Some that by (simp add: on_handle_of_def)
  qed
  have small: "image_size i ?xs m < 2 ^ 63"
    using E(6) env by (auto simp: image_size_def can_record_def meta_bytes_def split: option.splits)
  then obtain x3 where f: "dsf_finalize (Some x2) = (Ok (), Some x3)" and fin: "finished ?s i x3 ?xs m"
    using finalize_ok [OF r2] E(5) by auto
  have cl: "dsf_close (Some x3, ?d1) = (Ok (), (Some (dsf_reset_file_state x3),
      ?d1\<lparr>dfiles := (dfiles ?d1)(name \<mapsto> dsf_image i ?xs m)\<rparr>))"
    using close_write_ok [of x3 name "dcap d" "dsf_image i ?xs m" ?d1] fin small
    by (simp add: finished_def length_dsf_image)
  have "handle_ok (dsf_reset_file_state x3)"
    using fin by (auto simp: finished_def handle_ok_def dsf_reset_file_state_def shape_def meta_len_def)
  then show ?thesis
    using c w wm f cl by (simp add: record_session_def on_handle_of_def dsf_reset_file_state_def)
qed

text \<open>C2. A recording session on a handle that is closed ends with success and leaves on the disk,
  under the name given, exactly the image that the format, the concatenation of the buffers and the
  metadata determine, however the stream was cut into buffers; other files are as before.\<close>

theorem record_session_writes_image:
  assumes x: "handle_ok x" "h_mode x = DSF_FILE_MODE_CLOSED"
    and i: "i = new_info rate ctype ccount bits"
    and env: "can_record hp d name i bufs m"
  shows "\<exists>y. record_session hp name rate ctype ccount bits bufs m (Some x, d) =
      (Ok (), (Some y, d\<lparr>dfiles := (dfiles d)(name \<mapsto> dsf_image i (concat bufs) m)\<rparr>)) \<and>
    handle_ok y \<and> h_mode y = DSF_FILE_MODE_CLOSED"
  using assms by (rule record_session_image)

text \<open>The environment of the concrete instances: a new handle, memory without limit, an empty disk.\<close>

definition some_heap :: heap where
  "some_heap = \<lparr>max_alloc_size = 2147483647, platform_alloc = \<lambda>_. True\<rparr>"

definition some_disk :: disk where
  "some_disk = \<lparr>dfiles = (\<lambda>_. None), dreadable = (\<lambda>_. True), dwritable = (\<lambda>_. True),
     dcap = 1000000\<rparr>"

definition some_handle :: dsf where
  "some_handle = dsf_reset_file_state zero_handle"

lemma some_handle_ok: "handle_ok some_handle" "h_mode some_handle = DSF_FILE_MODE_CLOSED"
  using new_handle_ok by (simp_all add: some_handle_def dsf_reset_file_state_def)

lemma some_heap_malloc: "sa_malloc some_heap n \<longleftrightarrow> n \<le> 2147483647"
  by (auto simp: sa_malloc_def some_heap_def)

lemma some_info_valid: "valid_fmt (new_info 2822400 2 2 1)"
  by (simp add: valid_fmt_def new_info_def dsf_is_valid_channel_type_def dsf_is_valid_sample_rate_def
      dsf_is_valid_bits_per_sample_def DSF_MAX_CHANNELS_def)

lemma some_audio_length:
  "length xs = n * 2 \<Longrightarrow> length (audio_bytes (new_info 2822400 2 2 1) xs) = (n + 4095) div 4096 * 8192"
  using length_pad_groups [of xs n 2]
  by (simp add: length_audio_bytes new_info_def)

lemma some_can_record: "can_record some_heap some_disk ''a.dsf'' (new_info 2822400 2 2 1) [[1, 2], [3, 4]] (Some [73, 68, 51])"
  using some_audio_length [of "[1, 2, 3, 4]" 2]
  by (simp add: can_record_def some_info_valid some_heap_malloc some_disk_def image_size_def
      meta_bytes_def framed_bufs_def) (simp add: new_info_def)

theorem record_session_writes_image_witness:
  "\<exists>y. record_session some_heap ''a.dsf'' 2822400 2 2 1 [[1, 2], [3, 4]] (Some [73, 68, 51])
      (Some some_handle, some_disk) =
    (Ok (), (Some y, some_disk\<lparr>dfiles := (dfiles some_disk)(''a.dsf'' \<mapsto>
       dsf_image (new_info 2822400 2 2 1) [1, 2, 3, 4] (Some [73, 68, 51]))\<rparr>)) \<and>
    handle_ok y \<and> h_mode y = DSF_FILE_MODE_CLOSED"
  using record_session_writes_image [OF some_handle_ok refl some_can_record] by simp

section \<open>Playing back\<close>

lemma play_ok:
  assumes x: "handle_ok x" "h_mode x = DSF_FILE_MODE_CLOSED"
    and d: "dfiles dk name = Some (dsf_image i xs m)" "dreadable dk name"
    and i: "valid_fmt i" "info_channels i dvd length xs"
    and A: "length (audio_bytes i xs) \<le> 10737418228"
    and hp: "sa_malloc hp 4112" "\<And>bs. m = Some bs \<Longrightarrow> sa_malloc hp (length bs)"
    and m: "\<And>bs. m = Some bs \<Longrightarrow> 0 < length bs \<and> length bs \<le> 104857600"
  obtains y s where "dsf_open hp (Some name) (Some x, dk) =
      (Ok (), (Some (opened name (dcap dk) i x xs m), dk))"
    "dsf_seek_to_audio_start (Some (opened name (dcap dk) i x xs m)) = (Ok (), Some y)"
    "reading s (dsf_image i xs m) (meta_bytes m) y (pad_groups (info_channels i) xs)"
    "h_mode y = DSF_FILE_MODE_READ" "s = read_stream name (dsf_image i xs m) (dcap dk)"
    "h_info y = h_info (opened name (dcap dk) i x xs m)"
proof -
  let ?o = "opened name (dcap dk) i x xs m" and ?img = "dsf_image i xs m"
  let ?s = "read_stream name ?img (dcap dk)"
  let ?y = "?o\<lparr>h_io := io_put ?s ?img 92, read_buffer_pos := 0, read_buffer_valid := 0\<rparr>"
  have opn: "dsf_open hp (Some name) (Some x, dk) = (Ok (), (Some ?o, dk))"
    using x d i A hp m by (intro open_image_ok) (auto simp: handle_ok_def)
  have o: "h_mode ?o = DSF_FILE_MODE_READ" "audio_data_offset (h_info ?o) = 92" "shape ?o"
    "cc ?o = info_channels i"
    using x by (simp_all add: opened_def handle_ok_def fmt_info_def)
  have seek: "dsf_seek_to_audio_start (Some ?o) = (Ok (), Some ?y)"
    by (rule seek_start_ok [where p = "if m = None then 92 else image_size i xs m"])
       (use o in \<open>simp_all add: opened_def\<close>)
  have "reading ?s ?img (meta_bytes m) ?y (drop (0 * (B * info_channels i)) (pad_groups (info_channels i) xs))"
    by (rule reading_image) (use o i in \<open>simp_all\<close>)
  then show ?thesis using that opn seek o by simp
qed

lemma close_read_ok:
  assumes "h_mode y = DSF_FILE_MODE_READ" "h_io y = io_put (read_stream name d cap) e p"
  shows "dsf_close (Some y, dk) = (Ok (), (Some (dsf_reset_file_state y), dk))"
  using assms
  by (simp add: dsf_close_def dsf_chunk_file_close_def dsf_io_close_def read_stream_def io_put_def
      fclose_def)

lemma reading_io: "reading s d post y ys \<Longrightarrow> \<exists>p. h_io y = io_put s d p \<and> shape y"
  by (auto simp: reading_def)

text \<open>C1. Whatever was recorded is played back: after a recording session, opening the file, going to
  the start of the audio and reading \<open>n\<close> bytes returns the first \<open>n\<close> bytes of the concatenated
  buffers (followed, for a longer request, by the zero bytes that fill the last block group),
  and the disk is unchanged.\<close>

theorem record_play_roundtrip:
  assumes x: "handle_ok x" "h_mode x = DSF_FILE_MODE_CLOSED"
    and i: "i = new_info rate ctype ccount bits"
    and env: "can_record hp d name i bufs m" and rd: "dreadable d name"
    and n: "n \<le> length (pad_groups (info_channels i) (concat bufs))"
  shows "\<exists>y z d'. record_session hp name rate ctype ccount bits bufs m (Some x, d) = (Ok (), (Some y, d')) \<and>
    play_session hp name n (Some y, d') =
      (Ok (take n (pad_groups (info_channels i) (concat bufs))), (Some z, d')) \<and>
    (n \<le> length (concat bufs) \<longrightarrow>
       take n (pad_groups (info_channels i) (concat bufs)) = take n (concat bufs))"
proof -
  let ?xs = "concat bufs" and ?d = "d\<lparr>dfiles := (dfiles d)(name \<mapsto> dsf_image i (concat bufs) m)\<rparr>"
  obtain y where rec: "record_session hp name rate ctype ccount bits bufs m (Some x, d) = (Ok (), (Some y, ?d))"
    and y: "handle_ok y" "h_mode y = DSF_FILE_MODE_CLOSED"
    using record_session_image [OF x i env] by blast
  have E: "valid_fmt i" "info_channels i dvd length ?xs" "sa_malloc hp 4112"
    "length (audio_bytes i ?xs) \<le> 10737418228"
    using env framed_concat by (auto simp: can_record_def)
  obtain z s where z: "dsf_open hp (Some name) (Some y, ?d) =
      (Ok (), (Some (opened name (dcap ?d) i y ?xs m), ?d))"
    "dsf_seek_to_audio_start (Some (opened name (dcap ?d) i y ?xs m)) = (Ok (), Some z)"
    "reading s (dsf_image i ?xs m) (meta_bytes m) z (pad_groups (info_channels i) ?xs)"
    "h_mode z = DSF_FILE_MODE_READ" "s = read_stream name (dsf_image i ?xs m) (dcap ?d)"
    by (rule play_ok [OF y, of ?d name i ?xs m hp])
       (use E env rd in \<open>auto simp: can_record_def\<close>)
  obtain z1 where l: "dsf_read_loop n [] z = (Ok (), take n (pad_groups (info_channels i) ?xs), z1)"
    and r1: "reading s (dsf_image i ?xs m) (meta_bytes m) z1 (drop n (pad_groups (info_channels i) ?xs))"
    and s1: "same_source z z1"
    using read_loop_delivers [OF z(3) n] by blast
  obtain p q where p: "h_io z = io_put s (dsf_image i ?xs m) p" "h_io z1 = io_put s (dsf_image i ?xs m) q"
    using reading_io [OF z(3)] reading_io [OF r1] by blast
  have rc: "read_call n (Some z) = (Ok (take n (pad_groups (info_channels i) ?xs)), Some z1)"
    using l z(4,5) p(1) by (auto simp: read_call_def dsf_read_audio_data_def read_stream_def io_put_def)
  have "dsf_close (Some z1, ?d) = (Ok (), (Some (dsf_reset_file_state z1), ?d))"
    using close_read_ok [of z1 name _ _ _ q ?d] s1 z(4,5) p(2) by (simp add: same_source_def)
  then have "play_session hp name n (Some y, ?d) =
      (Ok (take n (pad_groups (info_channels i) ?xs)), (Some (dsf_reset_file_state z1), ?d))"
    using z(1,2) rc by (simp add: play_session_def on_handle_of_def)
  moreover have "take n (pad_groups (info_channels i) ?xs) = take n ?xs" if "n \<le> length ?xs"
    using that by (simp add: pad_groups_def)
  ultimately show ?thesis using rec by blast
qed

theorem record_play_roundtrip_witness:
  "\<exists>y z d'. record_session some_heap ''a.dsf'' 2822400 2 2 1 [[1, 2], [3, 4]] (Some [73, 68, 51])
      (Some some_handle, some_disk) = (Ok (), (Some y, d')) \<and>
    play_session some_heap ''a.dsf'' 3 (Some y, d') = (Ok [1, 2, 3], (Some z, d'))"
  using record_play_roundtrip [OF some_handle_ok refl some_can_record, of 3]
  by (simp add: some_disk_def pad_groups_def)

text \<open>Reading beyond the end of the audio, of a file whose metadata is shorter than a block group,
  delivers all of it and then fails with the read error: the end of the data is reported as
  \<^verbatim>\<open>DSF_ERROR_READ\<close>, never as \<^verbatim>\<open>DSF_ERROR_END_OF_DATA\<close>, and the bytes that were delivered
  are in the caller's buffer.\<close>

theorem read_past_end:
  assumes x: "handle_ok x" "h_mode x = DSF_FILE_MODE_CLOSED"
    and d: "dfiles dk name = Some (dsf_image i xs m)" "dreadable dk name"
    and i: "valid_fmt i" "info_channels i dvd length xs"
    and A: "length (audio_bytes i xs) \<le> 10737418228"
    and hp: "sa_malloc hp 4112" "\<And>bs. m = Some bs \<Longrightarrow> sa_malloc hp (length bs)"
    and m: "\<And>bs. m = Some bs \<Longrightarrow> 0 < length bs \<and> length bs \<le> 104857600"
    and short: "length (meta_bytes m) < DSF_BLOCK_SIZE_PER_CHANNEL * info_channels i"
    and n: "length (pad_groups (info_channels i) xs) < n"
  shows "\<exists>y z w. dsf_open hp (Some name) (Some x, dk) = (Ok (), (Some y, dk)) \<and>
    dsf_seek_to_audio_start (Some y) = (Ok (), Some z) \<and>
    dsf_read_audio_data True n (Some z, []) =
      (Err DSF_ERROR_READ, (Some w, pad_groups (info_channels i) xs))"
proof -
  obtain z s where z: "dsf_open hp (Some name) (Some x, dk) =
      (Ok (), (Some (opened name (dcap dk) i x xs m), dk))"
    "dsf_seek_to_audio_start (Some (opened name (dcap dk) i x xs m)) = (Ok (), Some z)"
    "reading s (dsf_image i xs m) (meta_bytes m) z (pad_groups (info_channels i) xs)"
    "h_mode z = DSF_FILE_MODE_READ" "s = read_stream name (dsf_image i xs m) (dcap dk)"
    "h_info z = h_info (opened name (dcap dk) i x xs m)"
    by (rule play_ok [OF x d i A hp m])
  have "cc z = info_channels i" by (simp add: z(6) opened_def fmt_info_def)
  then obtain w where "dsf_read_loop n [] z = (Err DSF_ERROR_READ, pad_groups (info_channels i) xs, w)"
    using read_loop_exhausts [OF z(3) n] short by auto
  moreover have "h_io z \<noteq> None" using reading_io [OF z(3)] z(5) by (auto simp: read_stream_def io_put_def)
  ultimately show ?thesis using z(1,2,4) by (auto simp: dsf_read_audio_data_def)
qed

lemma some_image:
  "dfiles (some_disk\<lparr>dfiles := (dfiles some_disk)(name \<mapsto> img)\<rparr>) name = Some img"
  "dreadable (some_disk\<lparr>dfiles := (dfiles some_disk)(name \<mapsto> img)\<rparr>) name"
  by (simp_all add: some_disk_def)

lemma some_image_bounds:
  "info_channels (new_info 2822400 2 2 1) dvd length [1, 2, 3, 4 :: byte]"
  "length (audio_bytes (new_info 2822400 2 2 1) [1, 2, 3, 4]) \<le> 10737418228"
  "length (pad_groups (info_channels (new_info 2822400 2 2 1)) [1, 2, 3, 4]) = 8192"
  "length (pad_groups 2 [1, 2, 3, 4]) = 8192"
  using some_audio_length [of "[1, 2, 3, 4]" 2] length_pad_groups [of "[1, 2, 3, 4]" 2 2]
  by (simp_all add: new_info_def)

theorem read_past_end_witness:
  "\<exists>y z w. dsf_open some_heap (Some ''a.dsf'') (Some some_handle,
        some_disk\<lparr>dfiles := (dfiles some_disk)(''a.dsf'' \<mapsto> dsf_image (new_info 2822400 2 2 1) [1, 2, 3, 4] None)\<rparr>) =
      (Ok (), (Some y,
        some_disk\<lparr>dfiles := (dfiles some_disk)(''a.dsf'' \<mapsto> dsf_image (new_info 2822400 2 2 1) [1, 2, 3, 4] None)\<rparr>)) \<and>
    dsf_seek_to_audio_start (Some y) = (Ok (), Some z) \<and>
    dsf_read_audio_data True 8193 (Some z, []) =
      (Err DSF_ERROR_READ, (Some w, pad_groups (info_channels (new_info 2822400 2 2 1)) [1, 2, 3, 4]))"
  by (rule read_past_end [OF some_handle_ok some_image some_info_valid some_image_bounds(1,2)])
     (simp_all add: some_heap_malloc some_image_bounds(4) meta_bytes_def new_info_def
        DSF_BLOCK_SIZE_PER_CHANNEL_def)

text \<open>C39. Seeking: after \<^verbatim>\<open>dsf_seek_audio_data\<close> to the start of block group \<open>k\<close> of an opened
  file, reading continues with the stream from that group on.\<close>

theorem seek_then_read:
  assumes x: "handle_ok x" "h_mode x = DSF_FILE_MODE_CLOSED"
    and d: "dfiles dk name = Some (dsf_image i xs m)" "dreadable dk name"
    and i: "valid_fmt i" "info_channels i dvd length xs"
    and A: "length (audio_bytes i xs) \<le> 10737418228"
    and hp: "sa_malloc hp 4112" "\<And>bs. m = Some bs \<Longrightarrow> sa_malloc hp (length bs)"
    and m: "\<And>bs. m = Some bs \<Longrightarrow> 0 < length bs \<and> length bs \<le> 104857600"
    and g: "g = k * (DSF_BLOCK_SIZE_PER_CHANNEL * info_channels i)"
    and n: "g + n \<le> length (pad_groups (info_channels i) xs)"
  shows "\<exists>y z w. dsf_open hp (Some name) (Some x, dk) = (Ok (), (Some y, dk)) \<and>
    dsf_seek_audio_data (int g) SEEK_SET (Some y) = (Ok (), Some z) \<and>
    dsf_read_audio_data True n (Some z, []) =
      (Ok (), (Some w, take n (drop g (pad_groups (info_channels i) xs))))"
proof -
  let ?o = "opened name (dcap dk) i x xs m" and ?img = "dsf_image i xs m"
  let ?s = "read_stream name ?img (dcap dk)"
  let ?z = "?o\<lparr>h_io := io_put ?s ?img (92 + g), read_buffer_pos := 0, read_buffer_valid := 0\<rparr>"
  have opn: "dsf_open hp (Some name) (Some x, dk) = (Ok (), (Some ?o, dk))"
    using x d i A hp m by (intro open_image_ok) (auto simp: handle_ok_def)
  have o: "h_mode ?o = DSF_FILE_MODE_READ" "audio_data_offset (h_info ?o) = 92" "shape ?o"
    "cc ?o = info_channels i"
    using x by (simp_all add: opened_def handle_ok_def fmt_info_def)
  have gA: "g \<le> length (audio_bytes i xs)"
    using n i(1) valid_channels by (simp add: length_audio_bytes)
  have seek: "dsf_seek_audio_data (int g) SEEK_SET (Some ?o) = (Ok (), Some ?z)"
    by (rule seek_group_ok [where p = "if m = None then 92 else image_size i xs m"])
       (use o A gA in \<open>simp_all add: opened_def\<close>)
  have rd: "reading ?s ?img (meta_bytes m) ?z (drop g (pad_groups (info_channels i) xs))"
    unfolding g by (rule reading_image) (use o i gA g in \<open>simp_all\<close>)
  moreover have "n \<le> length (drop g (pad_groups (info_channels i) xs))" using n by simp
  ultimately obtain w where "dsf_read_loop n [] ?z =
      (Ok (), take n (drop g (pad_groups (info_channels i) xs)), w)"
    using read_loop_delivers by blast
  moreover have "h_io ?z \<noteq> None" by (simp add: read_stream_def io_put_def)
  ultimately show ?thesis using opn seek o(1) by (auto simp: dsf_read_audio_data_def)
qed

theorem seek_then_read_witness:
  "\<exists>y z w. dsf_open some_heap (Some ''a.dsf'') (Some some_handle,
        some_disk\<lparr>dfiles := (dfiles some_disk)(''a.dsf'' \<mapsto> dsf_image (new_info 2822400 2 2 1) [1, 2, 3, 4] None)\<rparr>) =
      (Ok (), (Some y,
        some_disk\<lparr>dfiles := (dfiles some_disk)(''a.dsf'' \<mapsto> dsf_image (new_info 2822400 2 2 1) [1, 2, 3, 4] None)\<rparr>)) \<and>
    dsf_seek_audio_data (int 0) SEEK_SET (Some y) = (Ok (), Some z) \<and>
    dsf_read_audio_data True 3 (Some z, []) =
      (Ok (), (Some w, take 3 (drop 0 (pad_groups (info_channels (new_info 2822400 2 2 1)) [1, 2, 3, 4]))))"
  by (rule seek_then_read [OF some_handle_ok some_image some_info_valid some_image_bounds(1,2),
        where k = 0])
     (simp_all add: some_heap_malloc some_image_bounds(3))

section \<open>What opening reports\<close>

text \<open>The information of an opened file: the format, the number of samples, the size of the audio
  and the metadata are those that were recorded.\<close>

theorem open_reports_recording:
  assumes x: "handle_ok x" "h_mode x = DSF_FILE_MODE_CLOSED"
    and d: "dfiles dk name = Some (dsf_image i xs m)" "dreadable dk name"
    and i: "valid_fmt i" "info_channels i dvd length xs"
    and A: "length (audio_bytes i xs) \<le> 10737418228"
    and hp: "sa_malloc hp 4112" "\<And>bs. m = Some bs \<Longrightarrow> sa_malloc hp (length bs)"
    and m: "\<And>bs. m = Some bs \<Longrightarrow> 0 < length bs \<and> length bs \<le> 104857600"
  shows "\<exists>y. dsf_open hp (Some name) (Some x, dk) = (Ok (), (Some y, dk)) \<and>
    dsf_get_channel_count (Some y) = (Ok (channel_count i), Some y) \<and>
    dsf_get_channel_type (Some y) = (Ok (channel_type i), Some y) \<and>
    dsf_get_sample_rate (Some y) = (Ok (sampling_frequency i), Some y) \<and>
    dsf_get_bits_per_sample (Some y) = (Ok (bits_per_sample i), Some y) \<and>
    dsf_get_sample_count (Some y) = (Ok (of_nat (stream_samples i (length xs))), Some y) \<and>
    dsf_get_audio_data_size (Some y) = (Ok (of_nat (length (audio_bytes i xs))), Some y) \<and>
    dsf_has_metadata (Some y) = (Ok (m \<noteq> None), Some y) \<and>
    dsf_read_metadata hp (Some y) =
      (case m of None \<Rightarrow> Err DSF_ERROR_NO_METADATA | Some bs \<Rightarrow> Ok (bs, of_nat (length bs)), Some y)"
proof -
  let ?o = "opened name (dcap dk) i x xs m"
  have opn: "dsf_open hp (Some name) (Some x, dk) = (Ok (), (Some ?o, dk))"
    using x d i A hp m by (intro open_image_ok) (auto simp: handle_ok_def)
  have u: "unat (of_nat (length bs) :: u64) = length bs" if "m = Some bs" for bs
    using m [OF that] by (intro unat_of_nat_u64) simp
  have nz: "(of_nat (length bs) :: u64) \<noteq> 0" "0 < (of_nat (length bs) :: u64)" if "m = Some bs" for bs
    using u [OF that] m [OF that] by (auto simp: word_less_nat_alt simp del: of_nat_eq_0_iff)
  have "dsf_read_metadata hp (Some ?o) =
      (case m of None \<Rightarrow> Err DSF_ERROR_NO_METADATA | Some bs \<Rightarrow> Ok (bs, of_nat (length bs)), Some ?o)"
    using hp(2) u nz by (auto simp: dsf_read_metadata_def opened_def meta_bytes_def split: option.split)
  moreover have "dsf_has_metadata (Some ?o) = (Ok (m \<noteq> None), Some ?o)"
    using nz by (auto simp: dsf_has_metadata_def getter_def opened_def meta_bytes_def split: option.split)
  ultimately show ?thesis
    using opn
    by (intro exI [of _ ?o])
       (simp add: dsf_get_channel_count_def dsf_get_channel_type_def dsf_get_sample_rate_def
         dsf_get_bits_per_sample_def dsf_get_sample_count_def dsf_get_audio_data_size_def getter_def
         opened_def fmt_info_def)
qed

theorem open_reports_recording_witness:
  "\<exists>y. dsf_open some_heap (Some ''a.dsf'') (Some some_handle,
        some_disk\<lparr>dfiles := (dfiles some_disk)(''a.dsf'' \<mapsto> dsf_image (new_info 2822400 2 2 1) [1, 2, 3, 4] (Some [73]))\<rparr>) =
      (Ok (), (Some y,
        some_disk\<lparr>dfiles := (dfiles some_disk)(''a.dsf'' \<mapsto> dsf_image (new_info 2822400 2 2 1) [1, 2, 3, 4] (Some [73]))\<rparr>)) \<and>
    dsf_get_sample_count (Some y) = (Ok 16, Some y) \<and>
    dsf_read_metadata some_heap (Some y) = (Ok ([73], 1), Some y)"
proof -
  have "stream_samples (new_info 2822400 2 2 1) (length [1, 2, 3, 4 :: byte]) = 16"
    by (simp add: stream_samples_def new_info_def)
  moreover have "\<And>bs. Some [73] = Some bs \<Longrightarrow> sa_malloc some_heap (length (bs :: byte list))"
    "\<And>bs. Some [73] = Some bs \<Longrightarrow> 0 < length (bs :: byte list) \<and> length bs \<le> 104857600"
    by (auto simp: some_heap_malloc)
  moreover have "sa_malloc some_heap 4112" by (simp add: some_heap_malloc)
  ultimately show ?thesis
    using open_reports_recording [OF some_handle_ok some_image some_info_valid some_image_bounds(1,2),
        of some_heap "Some [73]" "''a.dsf''"] by force
qed

definition cleared :: "dsf_file_info \<Rightarrow> bool" where
  "cleared i \<longleftrightarrow> file_size i = 0 \<and> metadata_offset i = 0"

lemma cleared_upd [simp]:
  "cleared (i\<lparr>audio_data_offset := a\<rparr>) = cleared i" "cleared (i\<lparr>audio_data_size := a\<rparr>) = cleared i"
  "cleared (i\<lparr>sample_count := a\<rparr>) = cleared i"
  by (simp_all add: cleared_def)

lemma read_fmt_clears:
  assumes "dsf_chunk_read_fmt (s, i0) = (Ok u, (s', j))"
  shows "cleared j"
proof -
  have "j = fmt_info j" using read_fmt_Ok [OF assms] by simp
  then have "file_size j = file_size (fmt_info j)" "metadata_offset j = metadata_offset (fmt_info j)"
    by (rule arg_cong)+
  then show ?thesis by (simp add: fmt_info_def cleared_def)
qed

lemma recount_sizes: "recount_samples n x = (r, y) \<Longrightarrow> cleared (h_info x) \<Longrightarrow> cleared (h_info y)"
  by (auto simp: recount_samples_def Let_def upd_info_def split: if_splits option.splits)

lemma read_structure_clears: "dsf_read_file_structure hp x = (Ok u, y) \<Longrightarrow> cleared (h_info y)"
  by (auto simp: dsf_read_file_structure_def seq_Ok_iff on_io_def upd_info_def read_fmt_into_info_def
      dest!: read_fmt_clears load_metadata_info recount_sizes split: if_splits prod.splits)
    (metis cleared_upd(1))+

text \<open>The file size that \<^verbatim>\<open>dsf_get_file_size\<close> reports after \<^verbatim>\<open>dsf_open\<close> is 0, whatever
  the size in the header: \<^verbatim>\<open>dsf_chunk_read_fmt\<close> clears the whole information structure after
  \<^verbatim>\<open>dsf_read_file_structure\<close> has stored the file size and the metadata offset in it.\<close>

theorem open_loses_file_size:
  assumes "dsf_open hp (Some name) (Some x, dk) = (Ok (), (Some y, dk'))"
  shows "dsf_get_file_size (Some y) = (Ok 0, Some y) \<and> metadata_offset (h_info y) = 0"
proof -
  obtain z u x1 where "dsf_read_file_structure hp x1 = (Ok u, z)" "y = z\<lparr>h_mode := DSF_FILE_MODE_READ\<rparr>"
    using assms by (auto simp: dsf_open_def open_with_def split: if_splits prod.splits outcome.splits)
  then show ?thesis
    using read_structure_clears by (fastforce simp: dsf_get_file_size_def getter_def cleared_def)
qed

theorem open_loses_file_size_witness:
  "\<exists>y dk. dsf_open some_heap (Some ''a.dsf'') (Some some_handle, dk) = (Ok (), (Some y, dk)) \<and>
    dsf_get_file_size (Some y) = (Ok 0, Some y)"
proof -
  let ?dk = "some_disk\<lparr>dfiles := (dfiles some_disk)(''a.dsf'' \<mapsto> dsf_image (new_info 2822400 2 2 1) [1, 2, 3, 4] None)\<rparr>"
  have "dsf_open some_heap (Some ''a.dsf'') (Some some_handle, ?dk) =
      (Ok (), (Some (opened ''a.dsf'' (dcap ?dk) (new_info 2822400 2 2 1) some_handle [1, 2, 3, 4] None), ?dk))"
    by (rule open_image_ok [OF some_handle_ok(2) _ _ _ _ some_image some_info_valid some_image_bounds(1,2)])
       (use some_handle_ok in \<open>simp_all add: some_heap_malloc handle_ok_def\<close>)
  from this open_loses_file_size [OF this] show ?thesis by blast
qed

end
