(* ===== verification/Dsf_Contracts.thy ===== *)
theory Dsf_Contracts
  imports Dsf_Properties
begin

text \<open>
  More properties of libdsf: the safety of every sequence of calls, the contract of single calls
  (writing, the header updates, validation), and the behaviours that surprise (a full device,
  files opened for modification).
\<close>

section \<open>Every sequence of calls\<close>

text \<open>C13. In every reachable state, a call that keeps its side of the contract has no undefined
  behaviour (no access outside an array, no division by zero), returns, and leaves a handle that
  satisfies the invariant.\<close>

theorem dsf_calls_safe:
  assumes "dsf_reach hp (x, d)" "allowed c x"
  shows "\<exists>r y d'. perform hp c (x, d) = (r, (y, d')) \<and> r \<noteq> Fault \<and> handle_ok y"
proof -
  obtain r y d' where "perform hp c (x, d) = (r, (y, d'))" by (metis prod.exhaust)
  then show ?thesis using perform_safe [of x c hp d r y d'] reach_ok [OF assms(1)] assms(2) by simp
qed

lemma some_reach: "dsf_reach some_heap (some_handle, some_disk)"
  by (rule reach_alloc) (simp add: dsf_alloc_def some_heap_malloc some_handle_def)

theorem dsf_calls_safe_witness:
  "\<exists>r y d'. perform some_heap (Call_create ''a.dsf'' 2822400 2 2 1) (some_handle, some_disk) = (r, (y, d')) \<and>
    r \<noteq> Fault \<and> handle_ok y"
  by (rule dsf_calls_safe [OF some_reach]) (simp add: allowed_def)

text \<open>C14. In every reachable state the handle has an open stream exactly when its mode is not CLOSED,
  its format is then valid, the channel buffers hold at most a block, and the read buffer's
  bounds lie inside it.\<close>

theorem dsf_handle_invariant:
  assumes "dsf_reach hp (x, d)"
  shows "(h_mode x = DSF_FILE_MODE_CLOSED \<longleftrightarrow> h_io x = None) \<and>
    (h_mode x \<noteq> DSF_FILE_MODE_CLOSED \<longrightarrow> io_is_open (h_io x) \<and> valid_fmt (h_info x) \<and>
       read_buffer_pos x \<le> read_buffer_valid x \<and> read_buffer_valid x \<le> length (read_buffer x)) \<and>
    bytes_buffered x \<le> DSF_BLOCK_SIZE_PER_CHANNEL"
proof -
  have ok: "handle_ok x" using reach_ok [OF assms] by simp
  have "DSF_BLOCK_SIZE_PER_CHANNEL * cc x \<le> length (read_buffer x)"
    if "h_mode x \<noteq> DSF_FILE_MODE_CLOSED"
    using handle_channels [OF ok that] ok by (simp add: channels_ok_def handle_ok_def shape_def)
  then show ?thesis
    using ok by (cases "h_mode x = DSF_FILE_MODE_CLOSED") (auto simp: handle_ok_def io_is_open_def)
qed

theorem dsf_handle_invariant_witness:
  "\<exists>x d. dsf_reach some_heap (x, d) \<and> h_mode x = DSF_FILE_MODE_WRITE \<and> h_io x \<noteq> None \<and>
    io_is_open (h_io x) \<and> valid_fmt (h_info x) \<and> bytes_buffered x \<le> DSF_BLOCK_SIZE_PER_CHANNEL"
proof -
  obtain x d where run: "perform some_heap (Call_create ''a.dsf'' 2822400 2 2 1) (some_handle, some_disk) =
      (Ok (), (x, d))" and mode: "h_mode x = DSF_FILE_MODE_WRITE"
    using create_ok [OF some_handle_ok(2) some_info_valid, of some_heap some_disk "''a.dsf''"]
    by (simp add: lift_file_def some_heap_malloc some_disk_def)
  have "dsf_step some_heap (some_handle, some_disk) (Call_create ''a.dsf'' 2822400 2 2 1) (x, d)"
    by (rule dsf_step [OF _ run]) (simp_all add: allowed_def)
  then have r: "dsf_reach some_heap (x, d)" by (rule reach_step [OF some_reach])
  from r dsf_handle_invariant [OF r] mode show ?thesis by auto
qed

section \<open>Writing audio\<close>

text \<open>C15. One call of \<^verbatim>\<open>dsf_write_audio_data\<close> on a handle that represents a recording of \<open>xs\<close>
  appends the caller's bytes to the recording; the count it reports is the number of stream
  bytes whose block groups reached the file with this call.\<close>

theorem write_audio_refines_append:
  assumes "recording s i x xs m" "info_channels i dvd length buf"
    and "io_can_write s (92 + length xs + length buf)"
  shows "\<exists>y. dsf_write_audio_data (Some buf) (length buf) (Some x, cell) =
      (Ok (), (Some y, emitted (info_channels i) (length xs + length buf) -
                       emitted (info_channels i) (length xs))) \<and>
    recording s i y (xs @ buf) m"
proof -
  obtain n where n: "length buf = n * info_channels i" using assms(2) by (metis dvd_div_mult_self)
  show ?thesis using write_audio_ok [OF assms(1), of n buf cell] assms(3) n by simp
qed

definition some_recorder :: "nat \<Rightarrow> dsf" where
  "some_recorder cap = some_handle\<lparr>
     h_io := io_put (write_stream ''a.dsf'' cap) (dsf_header (new_info 2822400 2 2 1) 0 0 12) 92,
     h_info := new_info 2822400 2 2 1, h_mode := DSF_FILE_MODE_WRITE,
     samples_written := 0, bytes_written := 0\<rparr>"

lemma some_recording:
  "recording (write_stream ''a.dsf'' cap) (new_info 2822400 2 2 1) (some_recorder cap) [] None"
  using recording_start [of some_handle "new_info 2822400 2 2 1" "write_stream ''a.dsf'' cap"]
    some_handle_ok some_info_valid new_info_samples [of 2822400 2 2 1]
  by (simp add: some_recorder_def handle_ok_def has_meta_def meta_ok_def)

theorem write_audio_refines_append_witness:
  "\<exists>y. dsf_write_audio_data (Some [1, 2, 3, 4]) (length [1, 2, 3, 4 :: byte]) (Some (some_recorder 1000000), 7) = (Ok (), (Some y, 0)) \<and>
    recording (write_stream ''a.dsf'' 1000000) (new_info 2822400 2 2 1) y [1, 2, 3, 4] None"
proof -
  have c: "info_channels (new_info 2822400 2 2 1) = 2" by (simp add: new_info_def)
  show ?thesis
    using write_audio_refines_append [OF some_recording, of "[1, 2, 3, 4]" 1000000 7]
    by (simp add: c emitted_def DSF_BLOCK_SIZE_PER_CHANNEL_def)
qed

lemma write_past_full_buffer:
  assumes "shape y" "channels_ok y" "h_mode y = DSF_FILE_MODE_WRITE" "h_io y \<noteq> None"
    and "bytes_buffered y = B" "length b = cc y"
  shows "fst (dsf_write_audio_data (Some b) (length b) (Some y, cell)) = Fault"
proof -
  have c: "0 < cc y" "0 < length (channel_buffers y)" "length (channel_buffers y ! 0) = B"
    using assms(1,2) by (auto simp: channels_ok_def shape_def DSF_MAX_CHANNELS_def)
  then have "deinterleave_channel b 0 0 y = None"
    using assms(5) by (simp add: deinterleave_channel_def store_at_def)
  then have "for_opt [0..<cc y] (deinterleave_channel b 0) y = None"
    using c(1) by (simp add: upt_conv_Cons)
  then show ?thesis using assms c(1) by (simp add: dsf_write_audio_data_def split: option.split)
qed

text \<open>C31. A block group that the device has no room for: the call fails with
  \<^verbatim>\<open>DSF_ERROR_WRITE\<close> and leaves the channel buffers full, so that the next call of
  \<^verbatim>\<open>dsf_write_audio_data\<close> stores beyond the end of a channel buffer.\<close>

theorem lost_block_then_overflow:
  assumes rec: "recording s i x xs m" and last: "Suc (bytes_buffered x) = DSF_BLOCK_SIZE_PER_CHANNEL"
    and full: "\<not> io_can_write s (92 + length xs + info_channels i)"
    and b: "length b = info_channels i" and b': "length b' = info_channels i"
  shows "\<exists>y. dsf_write_audio_data (Some b) (length b) (Some x, cell) = (Err DSF_ERROR_WRITE, (Some y, 0)) \<and>
    fst (dsf_write_audio_data (Some b') (length b') (Some y, cell')) = Fault"
proof -
  let ?c = "info_channels i" and ?x1 = "take_frame b 0 x"
  have c: "cc x = ?c" "0 < ?c" and mode: "h_mode x = DSF_FILE_MODE_WRITE"
    using rec valid_channels [of i] by (auto simp: recording_def same_format_def)
  have "writing s (start_header i) x xs" using rec by (simp add: recording_def)
  then show ?thesis
  proof (cases rule: writingE)
    case (1 pre pend)
    have lpre: "length (blocks ?c pre) = length pre" using length_blocks_dvd [OF c(2)] 1(6) c by simp
    have ip: "0 + cc x \<le> length b" using b c by simp
    have h: "holds ?x1 B (pend @ bytes_at 0 (cc x) b)"
      using holds_take_frame [OF 1(2,3,5) ip 1(7)] last by simp
    have "length (pend @ bytes_at 0 (cc x) b) = B * ?c" using h c by (simp add: holds_def take_frame_same)
    then have lp: "length pend + ?c = B * ?c" using b c by (simp add: bytes_at_def)
    have io: "h_io ?x1 = io_put s (start_header i @ blocks ?c pre) (length (start_header i @ blocks ?c pre))"
      using 1(10) c lpre by (simp add: take_frame_same)
    have nf: "\<not> io_can_write s (length (start_header i @ blocks ?c pre) + B * cc ?x1)"
      using full lp 1(1) c lpre by (simp add: take_frame_same add.assoc)
    obtain io' sc where wb: "dsf_write_block_group B False ?x1 =
        (Err DSF_ERROR_WRITE, ?x1\<lparr>scratch_buffer := sc, h_io := io'\<rparr>)" (is "_ = (_, ?y)")
      using write_block_group_full [OF _ _ order.refl _ h io 1(4) nf, where pad = False] 1(2,3)
      by (auto simp: take_frame_same)
    have w: "dsf_write_loop (Suc 0) b 0 0 x = (Err DSF_ERROR_WRITE, 0, ?y)"
      unfolding write_loop_Suc [OF 1(2,3,5) ip]
      by (simp only: last wb if_True simp_thms prod.case outcome.case)
    have y: "moves_to ?x1 ?y" "bytes_buffered ?y = B"
      using block_group_moves [OF _ _ order.refl _ wb] 1(2,3) last by (simp_all add: take_frame_same)
    have "shape ?y" "channels_ok ?y" "h_mode ?y = DSF_FILE_MODE_WRITE" "h_io ?y \<noteq> None" "cc ?y = ?c"
      using y(1) 1(2,3) c mode io io_kept_open [of "h_io ?x1" "h_io ?y"] 1(4) take_frame_moves [OF 1(2), of b 0]
      by (auto simp: moves_to_def take_frame_same channels_ok_def)
    then have "fst (dsf_write_audio_data (Some b') (length b') (Some ?y, cell')) = Fault"
      using write_past_full_buffer [of ?y b' cell'] y(2) b' by simp
    moreover have "h_io x \<noteq> None" using 1(4,10) by simp
    then have "dsf_write_audio_data (Some b) (length b) (Some x, cell) = (Err DSF_ERROR_WRITE, (Some ?y, 0))"
      using mode c b w by (simp add: dsf_write_audio_data_def del: dsf_write_loop.simps)
    ultimately show ?thesis by blast
  qed
qed

theorem lost_block_then_overflow_witness:
  "\<exists>x y. dsf_write_audio_data (Some [1, 2]) (length [1, 2 :: byte]) (Some x, 0) = (Err DSF_ERROR_WRITE, (Some y, 0)) \<and>
    fst (dsf_write_audio_data (Some [3, 4]) (length [3, 4 :: byte]) (Some y, 0)) = Fault"
proof -
  let ?i = "new_info 2822400 2 2 1" and ?s = "write_stream ''a.dsf'' 8283"
  let ?xs = "replicate 8190 0 :: byte list"
  have c: "info_channels ?i = 2" by (simp add: new_info_def)
  obtain x where r: "recording ?s ?i x ([] @ take (4095 * 2) ?xs) None"
    using write_audio_ok [OF some_recording, of 4095 ?xs 8283 0] by (auto simp: c)
  then have "writing ?s (start_header ?i) x ?xs" "cc x = 2"
    by (simp_all add: recording_def same_format_def c)
  then have "bytes_buffered x * 2 + emitted 2 8190 = 8190"
    using writing_emitted [of ?s "start_header ?i" x ?xs] by simp
  then have "Suc (bytes_buffered x) = DSF_BLOCK_SIZE_PER_CHANNEL"
    by (simp add: emitted_def DSF_BLOCK_SIZE_PER_CHANNEL_def)
  then show ?thesis
    using lost_block_then_overflow [OF r, of "[1, 2]" "[3, 4]" 0 0] by (auto simp: c)
qed

section \<open>Block conversion\<close>

text \<open>C32. The reader's conversion inverts the layout of the writer: the block group of \<open>ys\<close> is
  converted to \<open>ys\<close>, for every number of channels, and the rest of the output buffer is kept.\<close>

theorem block_conversion_roundtrip:
  assumes "0 < c" "length ys = DSF_BLOCK_SIZE_PER_CHANNEL * c" "DSF_BLOCK_SIZE_PER_CHANNEL * c \<le> length out"
  shows "dsf_convert_block_to_byte_interleaved (block_of c ys @ tail) out c =
    Some (ys @ drop (DSF_BLOCK_SIZE_PER_CHANNEL * c) out)"
  using assms convert_block [of c "block_of c ys @ tail" out] unblock_block_of [of c ys tail] by simp

theorem block_conversion_roundtrip_witness:
  "dsf_convert_block_to_byte_interleaved (block_of 1 (replicate 4096 5) @ []) (replicate 28672 0) 1 =
    Some (replicate 4096 5 @ drop (DSF_BLOCK_SIZE_PER_CHANNEL * 1) (replicate 28672 0))"
  by (rule block_conversion_roundtrip) (simp_all add: DSF_BLOCK_SIZE_PER_CHANNEL_def)

section \<open>Header fields\<close>

text \<open>The four updates of a header field (file size, metadata offset, data size, sample count)
  change the eight bytes of their field and nothing else, and keep the position.\<close>

theorem updates_patch_their_field:
  assumes "io_is_open s" "io_can_write s 92" "int p \<le> INT64_MAX" "unat v + 12 < 2 ^ 64"
  shows "dsf_chunk_update_file_size v (io_put s (dsf_header i f m c @ r) p) =
      (Ok (), io_put s (dsf_header i v m c @ r) p) \<and>
    dsf_chunk_update_metadata_offset v (io_put s (dsf_header i f m c @ r) p) =
      (Ok (), io_put s (dsf_header i f v c @ r) p) \<and>
    dsf_chunk_update_sample_count v (io_put s (dsf_header i f m c @ r) p) =
      (Ok (), io_put s (dsf_header (i\<lparr>sample_count := v\<rparr>) f m c @ r) p) \<and>
    dsf_chunk_update_data_size v (io_put s (dsf_header i f m c @ r) p) =
      (Ok (), io_put s (dsf_header i f m (12 + v) @ r) p)"
proof -
  have u: "unat (12 + v) = 12 + unat v" using assms(4) by (simp add: unat_word_ariths)
  have cw: "io_can_write s n" if "n \<le> 92" for n using can_write_le [OF assms(2) that] .
  show ?thesis
    using assms cw patch_data_size [of i f m c r "12 + v"]
    by (simp add: update_file_size_put update_metadata_offset_put update_sample_count_put
        update_data_size_put header_patches u)
qed

theorem updates_patch_their_field_witness:
  "dsf_chunk_update_file_size 1000 (io_put (write_stream ''a.dsf'' 100)
       (dsf_header (new_info 2822400 2 2 1) 0 0 12 @ [1, 2]) 94) =
     (Ok (), io_put (write_stream ''a.dsf'' 100) (dsf_header (new_info 2822400 2 2 1) 1000 0 12 @ [1, 2]) 94)"
  using updates_patch_their_field [of "write_stream ''a.dsf'' 100" 94 1000 "new_info 2822400 2 2 1" 0 0 12 "[1, 2]"]
  by simp

text \<open>When the device refuses the write of a field, the update reports the error and still
  restores the position it found.\<close>

theorem failed_update_restores_position:
  assumes "io_is_open s" "\<not> io_can_write s 20" "int p \<le> INT64_MAX"
  shows "\<exists>d'. dsf_chunk_update_file_size v (io_put s d p) = (Err DSF_ERROR_WRITE, io_put s d' p)"
proof -
  have "le_enc 8 (unat v) \<noteq> []" by (simp flip: length_greater_0_conv)
  then show ?thesis
    using dsf_stream.patch_field_full [of "io_put s d p" 12 "le_enc 8 (unat v)" seek_abs] assms
    by (auto simp: dsf_chunk_update_file_size_def dsf_io_fields dsf_stream.stream_simps seek_abs_of_nat)
qed

theorem failed_update_restores_position_witness:
  "\<exists>d'. dsf_chunk_update_file_size 5 (io_put (write_stream ''a.dsf'' 15) (replicate 15 0) 15) =
    (Err DSF_ERROR_WRITE, io_put (write_stream ''a.dsf'' 15) d' 15)"
  by (rule failed_update_restores_position) simp_all

text \<open>A fmt chunk that \<^verbatim>\<open>dsf_chunk_write_fmt\<close> wrote is read back as it was: the parameters are
  the same and the derived fields are computed from them.\<close>

theorem fmt_chunk_roundtrip:
  assumes "io_is_open s" "io_can_write s (p + 52)" "io_can_read s" "valid_fmt info" "p \<le> length d"
  shows "\<exists>d'. dsf_chunk_write_fmt info (io_put s d p) = (Ok (), io_put s d' (52 + p)) \<and>
    dsf_chunk_read_fmt (io_put s d' p, j) = (Ok (), (io_put s d' (52 + p), fmt_info info))"
proof -
  let ?d = "patch d p (fmt_bytes info)"
  have "bytes_at p 52 ?d = fmt_bytes info" using assms(5) by (simp add: bytes_at_patch_same)
  moreover have "p + 52 \<le> length ?d" by (auto simp: length_patch simp flip: length_0_conv)
  ultimately show ?thesis
    using write_fmt_put [OF assms(1,2,4)] read_fmt_put [OF assms(1,3) _ _ assms(4)] by blast
qed

definition some_modify_stream :: "dsf_io option" where
  "some_modify_stream = Some \<lparr>io_file = Some \<lparr>fpath = ''a.dsf'', fdata = [], fpos = 0,
     freadable = True, fwritable = True, fcap = 1000\<rparr>, io_filename = ''a.dsf'',
     io_mode = DSF_FILE_MODE_MODIFY\<rparr>"

theorem fmt_chunk_roundtrip_witness:
  "\<exists>d'. dsf_chunk_write_fmt (new_info 2822400 2 2 1) (io_put some_modify_stream [] 0) =
      (Ok (), io_put some_modify_stream d' (52 + 0)) \<and>
    dsf_chunk_read_fmt (io_put some_modify_stream d' 0, zero_info) =
      (Ok (), (io_put some_modify_stream d' (52 + 0), fmt_info (new_info 2822400 2 2 1)))"
  by (rule fmt_chunk_roundtrip) (simp_all add: some_modify_stream_def io_view_defs some_info_valid)

text \<open>Reading a fmt chunk succeeds only with parameters of the format: version 1, raw DSD, a
  known channel type, one to seven channels, a DSD rate, 1 or 8 bits and blocks of 4096 bytes;
  the derived fields then are the ones computed from these.\<close>

theorem read_fmt_accepts_only_valid:
  assumes "dsf_chunk_read_fmt (s, j) = (Ok u, (t, i))"
  shows "format_version i = 1 \<and> format_id i = 0 \<and> 1 \<le> channel_type i \<and> channel_type i \<le> 7 \<and>
    1 \<le> unat (channel_count i) \<and> unat (channel_count i) \<le> 7 \<and>
    sampling_frequency i \<in> {2822400, 5644800, 11289600, 22579200} \<and> bits_per_sample i \<in> {1, 8} \<and>
    block_size_per_channel i = 4096 \<and>
    audio_data_size i =
      dsf_calculate_audio_data_size (channel_count i) (sample_count i) (bits_per_sample i)"
proof -
  have v: "valid_fmt i" and f: "i = fmt_info i" using read_fmt_Ok [OF assms] by simp_all
  have "audio_data_size i = audio_data_size (fmt_info i)" using f by (rule arg_cong)
  then show ?thesis
    using v valid_channels [OF v]
    by (auto simp: valid_fmt_def fmt_info_def dsf_is_valid_channel_type_def dsf_is_valid_sample_rate_def
        dsf_is_valid_bits_per_sample_def DSF_MAX_CHANNELS_def DSF_BLOCK_SIZE_PER_CHANNEL_def)
qed

theorem read_fmt_accepts_only_valid_witness:
  "\<exists>t i. dsf_chunk_read_fmt (io_put some_modify_stream (fmt_bytes (new_info 2822400 2 2 1)) 0, zero_info) =
      (Ok (), (t, i)) \<and> unat (channel_count i) \<le> 7"
proof -
  have "dsf_chunk_read_fmt (io_put some_modify_stream (fmt_bytes (new_info 2822400 2 2 1)) 0, zero_info) =
      (Ok (), (io_put some_modify_stream (fmt_bytes (new_info 2822400 2 2 1)) (52 + 0),
        fmt_info (new_info 2822400 2 2 1)))"
    by (rule read_fmt_put) (simp_all add: some_modify_stream_def io_view_defs some_info_valid bytes_at_def)
  from this read_fmt_accepts_only_valid [OF this] show ?thesis by blast
qed

section \<open>Files opened for modification\<close>

text \<open>The stream that \<^verbatim>\<open>fopen\<close> returns for reading and writing.\<close>

definition modify_stream :: "string \<Rightarrow> byte list \<Rightarrow> nat \<Rightarrow> dsf_io option" where
  "modify_stream name d cap = Some \<lparr>io_file = Some \<lparr>fpath = name, fdata = d, fpos = 0,
     freadable = True, fwritable = True, fcap = cap\<rparr>,
     io_filename = sa_strlcpy name DSF_MAX_STR_SIZE, io_mode = DSF_FILE_MODE_MODIFY\<rparr>"

lemma modify_stream_view [simp]:
  "io_is_open (modify_stream name d cap)" "io_can_read (modify_stream name d cap)"
  "io_put (modify_stream name d cap) d 0 = modify_stream name d cap"
  by (simp_all add: modify_stream_def io_view_defs)

lemma open_modify_stream:
  assumes "dfiles dk name = Some d" "dreadable dk name" "dwritable dk name" "sa_malloc hp 4112"
  shows "dsf_chunk_file_open_modify hp (Some name) dk = (Ok (the (modify_stream name d (dcap dk))), dk)"
    and "Some (the (modify_stream name d (dcap dk))) = modify_stream name d (dcap dk)"
  using assms by (simp_all add: dsf_chunk_file_open_modify_def chunk_file_open_def
      dsf_io_open_modify_def io_open_def fopen_def modify_stream_def)

lemma close_modify_truncates:
  assumes "p \<le> length d" "length d < 2 ^ 63"
  shows "dsf_chunk_file_close (io_put (modify_stream name d0 cap) d p, dk) =
    (Ok (), (None, dk\<lparr>dfiles := (dfiles dk)(name \<mapsto> take p d)\<rparr>))"
  using assms
  by (simp add: dsf_chunk_file_close_def dsf_io_close_def modify_stream_def io_put_def ftell_def
      ftruncate_def fclose_def)

text \<open>C40. \<^verbatim>\<open>dsf_open_modify\<close> on a file that does not start with the DSD marker fails, and destroys
  the file: the close on the error path truncates it to the four bytes that were read.\<close>

theorem open_modify_destroys_foreign_file:
  assumes "h_mode x = DSF_FILE_MODE_CLOSED" "sa_malloc hp 4112"
    and "dfiles dk name = Some d" "dreadable dk name" "dwritable dk name"
    and "4 \<le> length d" "length d < 2 ^ 63" "take 4 d \<noteq> le_enc 4 (unat DSF_DSD_CHUNK_ID)"
  shows "\<exists>y. dsf_open_modify hp (Some name) (Some x, dk) =
    (Err DSF_ERROR_INVALID_DSF, (Some y, dk\<lparr>dfiles := (dfiles dk)(name \<mapsto> take 4 d)\<rparr>))"
proof -
  let ?s = "modify_stream name d (dcap dk)"
  have "(of_nat (le_dec (take 4 d)) :: u32) \<noteq> DSF_DSD_CHUNK_ID"
  proof
    assume "(of_nat (le_dec (take 4 d)) :: u32) = DSF_DSD_CHUNK_ID"
    then have "unat (of_nat (le_dec (take 4 d)) :: u32) = unat DSF_DSD_CHUNK_ID" by simp
    moreover have "le_dec (take 4 d) < 256 ^ 4" using le_dec_less [of "take 4 d"] assms(6) by simp
    ultimately have "le_dec (take 4 d) = unat DSF_DSD_CHUNK_ID" by (simp add: unat_of_nat)
    then show False using le_enc_dec [of "take 4 d" 4] assms(6,8) by simp
  qed
  then have "dsf_chunk_read_dsd_header (io_put ?s d 0) = (Err DSF_ERROR_INVALID_DSF, io_put ?s d 4)"
    using assms(6) 
    by (simp add: dsf_chunk_read_dsd_header_def field_steps bytes_at_def del: modify_stream_view(3))
  then have "dsf_read_file_structure hp (x\<lparr>h_io := ?s\<rparr>) =
      (Err DSF_ERROR_INVALID_DSF, x\<lparr>h_io := io_put ?s d 4\<rparr>)"
    using io_open_not_None [of ?s] by (simp add: dsf_read_file_structure_def on_io_def)
  then show ?thesis
    using assms(1,6,7) open_modify_stream [OF assms(3-5,2)] close_modify_truncates [of 4 d name d "dcap dk" dk]
    by (simp add: dsf_open_modify_def open_with_def)
qed

definition some_text_disk :: disk where
  "some_text_disk = some_disk\<lparr>dfiles := (dfiles some_disk)(''a.txt'' \<mapsto> [72, 101, 108, 108, 111])\<rparr>"

lemma dsd_marker: "DSF_DSD_CHUNK_ID = 541348676"
  by (simp add: DSF_DSD_CHUNK_ID_def MAKE_MARKER_def)

lemma not_dsd: "take 4 [72, 101, 108, 108, 111] \<noteq> le_enc 4 (unat DSF_DSD_CHUNK_ID)"
proof -
  have "le_enc (Suc 3) v = of_nat v # le_enc 3 (v div 256)" for v by (rule le_enc.simps(2))
  then show ?thesis by (simp add: dsd_marker)
qed

theorem open_modify_destroys_foreign_file_witness:
  "\<exists>y. dsf_open_modify some_heap (Some ''a.txt'') (Some some_handle, some_text_disk) =
    (Err DSF_ERROR_INVALID_DSF, (Some y, some_text_disk\<lparr>dfiles := (dfiles some_text_disk)
      (''a.txt'' \<mapsto> take 4 [72, 101, 108, 108, 111])\<rparr>))"
  by (rule open_modify_destroys_foreign_file [OF some_handle_ok(2)])
     (use not_dsd in \<open>simp_all add: some_heap_malloc some_text_disk_def some_disk_def\<close>)

text \<open>Opening a file without metadata for modification and closing it again cuts off its audio: the
  position is at the end of the header when \<^verbatim>\<open>dsf_close\<close> truncates the file to it.\<close>

theorem open_modify_close_drops_audio:
  assumes x: "handle_ok x" "h_mode x = DSF_FILE_MODE_CLOSED" and hp: "sa_malloc hp 4112"
    and d: "dfiles dk name = Some (dsf_image i xs None)" "dreadable dk name" "dwritable dk name"
    and i: "valid_fmt i" and A: "length (audio_bytes i xs) \<le> 10737418228"
  shows "\<exists>y z. dsf_open_modify hp (Some name) (Some x, dk) = (Ok (), (Some y, dk)) \<and>
    dsf_close (Some y, dk) =
      (Ok (), (Some z, dk\<lparr>dfiles := (dfiles dk)(name \<mapsto> take 92 (dsf_image i xs None))\<rparr>))"
proof -
  let ?img = "dsf_image i xs None"
  let ?s = "modify_stream name ?img (dcap dk)"
  have c12: "unat (of_nat (12 + length (audio_bytes i xs)) :: u64) = 12 + length (audio_bytes i xs)"
    using A by (intro unat_of_nat_u64) simp
  have "h_io (x\<lparr>h_io := ?s\<rparr>) = io_put ?s ?img 0" by simp
  note R = read_file_structure_ok [OF this _ _ dsf_image_def, of hp]
  obtain y where y: "dsf_read_file_structure hp (x\<lparr>h_io := ?s\<rparr>) = (Ok (), y)" "h_io y = io_put ?s ?img 92"
    using R c12 A i by (simp add: meta_offset_def)
  let ?y = "y\<lparr>h_mode := DSF_FILE_MODE_MODIFY\<rparr>"
  have "dsf_open_modify hp (Some name) (Some x, dk) = (Ok (), (Some ?y, dk))"
    using x(2) y(1) open_modify_stream [OF d hp] by (simp add: dsf_open_modify_def open_with_def)
  moreover have "92 \<le> length ?img" "length ?img < 2 ^ 63"
    using A by (simp_all add: length_dsf_image image_size_def meta_bytes_def)
  then have "dsf_close (Some ?y, dk) = (Ok (), (Some (dsf_reset_file_state ?y),
      dk\<lparr>dfiles := (dfiles dk)(name \<mapsto> take 92 ?img)\<rparr>))"
    using y(2) close_modify_truncates [of 92 ?img name ?img "dcap dk" dk]
    by (simp add: dsf_close_def)
  ultimately show ?thesis by blast
qed

definition some_image_disk :: disk where
  "some_image_disk = some_disk\<lparr>dfiles := (dfiles some_disk)
     (''a.dsf'' \<mapsto> dsf_image (new_info 2822400 2 2 1) [1, 2, 3, 4] None)\<rparr>"

lemma some_image_disk:
  "dfiles some_image_disk ''a.dsf'' = Some (dsf_image (new_info 2822400 2 2 1) [1, 2, 3, 4] None)"
  "dreadable some_image_disk name" "dwritable some_image_disk name"
  by (simp_all add: some_image_disk_def some_disk_def)

theorem open_modify_close_drops_audio_witness:
  "\<exists>y z. dsf_open_modify some_heap (Some ''a.dsf'') (Some some_handle, some_image_disk) =
      (Ok (), (Some y, some_image_disk)) \<and>
    dsf_close (Some y, some_image_disk) =
      (Ok (), (Some z, some_image_disk\<lparr>dfiles := (dfiles some_image_disk)
       (''a.dsf'' \<mapsto> take 92 (dsf_image (new_info 2822400 2 2 1) [1, 2, 3, 4] None))\<rparr>))"
  by (rule open_modify_close_drops_audio [OF some_handle_ok _ some_image_disk some_info_valid
        some_image_bounds(2)])
     (simp add: some_heap_malloc)

section \<open>Validation\<close>

text \<open>\<^verbatim>\<open>dsf_validate\<close> accepts every finished file that has audio, opened for reading; a
  finished file without audio it rejects, because it takes the computed size 0 for an overflow.\<close>

theorem validate_finished_files:
  assumes x: "h_mode x = DSF_FILE_MODE_READ" "h_io x = io_put s (dsf_image i xs m) p"
    and s: "io_is_open s" "io_can_read s"
    and i: "valid_fmt i" "info_channels i dvd length xs"
    and A: "length (audio_bytes i xs) \<le> 10737418228"
    and m: "\<And>bs. m = Some bs \<Longrightarrow> 0 < length bs \<and> length bs \<le> 104857600"
  shows "fst (dsf_validate (Some x)) = (if xs = [] then Err DSF_ERROR_INVALID_FILE else Ok ())"
proof -
  let ?N = "image_size i xs m" and ?a = "length (audio_bytes i xs)" and ?c = "info_channels i"
  let ?mo = "meta_offset i xs m"
  let ?j = "i\<lparr>sample_count := of_nat (stream_samples i (length xs))\<rparr>"
  let ?calc = "dsf_calculate_audio_data_size (channel_count i) (of_nat (stream_samples i (length xs)))
      (bits_per_sample i)"
  let ?img = "dsf_image i xs m"
  have N: "92 + ?a \<le> ?N" "?N < 2 ^ 63" "?mo = 0 \<or> ?mo = 92 + ?a \<and> ?mo < ?N"
    using A m by (auto simp: image_size_def meta_offset_def meta_bytes_def split: option.splits)
  have u: "unat (of_nat k :: u64) = k" if "k \<le> ?N" for k
    using that N(2) by (intro unat_of_nat_u64) simp
  have c: "0 < ?c" "?c \<le> 7" using valid_channels [OF i(1)] by (simp_all add: DSF_MAX_CHANNELS_def)
  have tol: "unat (ucast (of_nat DSF_BLOCK_SIZE_PER_CHANNEL * channel_count i) :: u64) = 4096 * ?c"
    using c by (simp add: unat_ucast_u64 DSF_BLOCK_SIZE_PER_CHANNEL_def unat_word_ariths)
  have pad: "?a = length xs + padding (4096 * ?c) (length xs)" "padding (4096 * ?c) (length xs) < 4096 * ?c"
    using c by (auto simp: length_audio_bytes pad_groups_def padding_def DSF_BLOCK_SIZE_PER_CHANNEL_def)
  have calc: "unat ?calc = (if bits_per_sample i = 1 then ?a else length xs)"
    by (rule calc_image_size [OF i A])
  have "padding (4096 * ?c) 0 = 0" by (simp add: padding_def)
  then have z: "?calc = 0 \<longleftrightarrow> xs = []"
    using calc pad by (auto simp: unat_eq_zero split: if_splits)
  have "\<not> ucast (of_nat DSF_BLOCK_SIZE_PER_CHANNEL * channel_count i) < of_nat ?a - ?calc"
    "\<not> of_nat ?a < ?calc"
    using calc pad u [of ?a] N(1) tol
    by (auto simp: word_less_nat_alt unat_sub word_le_nat_alt split: if_splits)
  note sizes = this
  have len: "length ?img = ?N" by (rule length_dsf_image)
  note parts = header_pieces [OF dsf_image_def [of i xs m]]
  have vj: "valid_fmt ?j" using i(1) by (simp add: valid_fmt_def)
  have c12: "unat (of_nat (12 + ?a) :: u64) = 12 + ?a" "(of_nat (12 + ?a) :: u64) - 12 = of_nat ?a"
    using u [of "12 + ?a"] N(1) by simp_all
  have ee: "unat (92 + of_nat ?a :: u64) = 92 + ?a" using u [of "92 + ?a"] N(1) by simp
  have ov: "dsf_uint64_add_overflow 92 (of_nat ?a) = Some (92 + of_nat ?a)"
    using u [of ?a] N by (simp add: dsf_uint64_add_overflow_eq)
  have guards: "\<not> (of_nat ?N :: u64) < 92"
    "\<not> (0 < (of_nat ?mo :: u64) \<and> of_nat ?N \<le> (of_nat ?mo :: u64))"
    "\<not> (0 < (of_nat ?mo :: u64) \<and> of_nat ?mo < (92 :: u64))"
    "\<not> (of_nat ?N :: u64) < 92 + of_nat ?a"
    "\<not> (0 < (of_nat ?mo :: u64) \<and> of_nat ?mo < (92 + of_nat ?a :: u64))"
    "\<not> (0 < (of_nat ?mo :: u64) \<and> of_nat ?N < (of_nat ?mo :: u64))"
    using N u [of ?N] u [of ?mo] ee by (auto simp: word_less_nat_alt word_le_nat_alt)
  have rd: "dsf_chunk_read_dsd_header (io_put s ?img 0) = (Ok (of_nat ?N, of_nat ?mo), io_put s ?img (28 + 0))"
    "dsf_chunk_read_fmt (io_put s ?img (28 + 0), zero_info) = (Ok (), (io_put s ?img (52 + 28), fmt_info ?j))"
    "dsf_chunk_read_data_header (io_put s ?img (52 + 28)) =
       (Ok (of_nat (12 + ?a) - 12, of_nat (12 + 80)), io_put s ?img (12 + 80))"
    using read_dsd_header_put [OF s, of 0 ?img] read_fmt_put [OF s, of 28 ?img ?j zero_info, OF _ _ vj]
      read_data_header_put [OF s, of 80 ?img "of_nat (12 + ?a)"] parts len N(1) c12(1) A by simp_all
  have fin: "fst (dsf_chunk_validate_file (io_put s ?img p)) =
      (if xs = [] then Err DSF_ERROR_INVALID_FILE else Ok ())"
    using s len guards rd ov sizes z c12(2)
    by (simp add: dsf_chunk_validate_file_def field_steps fmt_info_def Let_def)
  then show ?thesis
    using x s by (auto simp: dsf_validate_def on_io_def split: prod.splits)
qed

theorem validate_finished_files_witness:
  "fst (dsf_validate (Some (some_handle\<lparr>h_mode := DSF_FILE_MODE_READ,
      h_io := io_put (read_stream ''a.dsf'' [] 0) (dsf_image (new_info 2822400 2 2 1) [1, 2, 3, 4] None) 92\<rparr>))) = Ok ()"
  using validate_finished_files [of "some_handle\<lparr>h_mode := DSF_FILE_MODE_READ,
      h_io := io_put (read_stream ''a.dsf'' [] 0) (dsf_image (new_info 2822400 2 2 1) [1, 2, 3, 4] None) 92\<rparr>"
      "read_stream ''a.dsf'' [] 0" "new_info 2822400 2 2 1" "[1, 2, 3, 4]" None 92]
    some_info_valid some_image_bounds(1,2) by simp

section \<open>Arithmetic\<close>

text \<open>The checked operations report an overflow exactly when the result does not fit 64 bits
  (an underflow exactly when it is negative), and otherwise return the mathematical result.\<close>

theorem checked_arithmetic_exact:
  "map_option unat (dsf_uint64_add_overflow a b) =
     (if unat a + unat b < 2 ^ 64 then Some (unat a + unat b) else None) \<and>
   map_option unat (dsf_uint64_mul_overflow a b) =
     (if unat a * unat b < 2 ^ 64 then Some (unat a * unat b) else None) \<and>
   map_option unat (dsf_uint64_sub_underflow a b) =
     (if unat b \<le> unat a then Some (unat a - unat b) else None)"
  by (auto simp: dsf_uint64_add_overflow_eq dsf_uint64_mul_overflow_eq dsf_uint64_sub_underflow_def
      unat_word_ariths word_less_nat_alt unat_sub word_le_nat_alt)

text \<open>\<^verbatim>\<open>dsf_calculate_audio_data_size\<close> is the size of the block groups that hold the samples
  (for 1-bit audio) or the number of bytes (for 8-bit audio), and 0 when an intermediate result
  does not fit 64 bits.\<close>

theorem audio_data_size_formula:
  "unat (dsf_calculate_audio_data_size chans samples bits) =
     (let n = (if bits = 1 then ((unat samples + 7) div 8 + 4095) div 4096 * 4096 * unat chans
               else unat samples * unat chans) in
      if n < 2 ^ 64 \<and> (if bits = 1 then unat samples + 7 < 2 ^ 64 else True) then n else 0)"
  using calc_size_dsd [of chans samples] calc_size_bytes [of bits chans samples]
  by (cases "bits = 1") (auto simp: Let_def)

section \<open>Messages and support functions\<close>

text \<open>Every error code has a message of its own.\<close>

theorem error_messages_distinct:
  "dsf_error_string (dsf_error_code e) \<noteq> ''Unknown error'' \<and>
   (dsf_error_string (dsf_error_code e) = dsf_error_string (dsf_error_code e') \<longleftrightarrow> e = e')"
proof -
  have inj: "dsf_error_code e = dsf_error_code e' \<longleftrightarrow> e = e'"
    by (cases e; cases e'; simp)
  have dist: "distinct (map snd dsf_error_strings)" "distinct (map fst dsf_error_strings)"
    by (simp_all add: dsf_error_strings_def)
  have un: "''Unknown error'' \<notin> snd ` set dsf_error_strings" by (simp add: dsf_error_strings_def)
  have known: "\<exists>msg. (dsf_error_code e, msg) \<in> set dsf_error_strings" for e
    by (cases e) (auto simp: dsf_error_strings_def)
  obtain s t where st: "(dsf_error_code e, s) \<in> set dsf_error_strings"
    "(dsf_error_code e', t) \<in> set dsf_error_strings" using known by blast
  then have eq: "dsf_error_string (dsf_error_code e) = s" "dsf_error_string (dsf_error_code e') = t"
    using dist(2) by (simp_all add: dsf_error_string_def)
  have "s = t \<longleftrightarrow> dsf_error_code e = dsf_error_code e'"
  proof
    assume "s = t"
    then show "dsf_error_code e = dsf_error_code e'"
      using st dist(1) by (metis eq_snd_iff fst_conv inj_on_eq_iff distinct_map)
  next
    assume "dsf_error_code e = dsf_error_code e'"
    then show "s = t" using eq by simp
  qed
  moreover have "s \<noteq> ''Unknown error''" using st(1) un by force
  ultimately show ?thesis using eq inj by simp
qed

text \<open>The table \<^verbatim>\<open>ff_reverse\<close> reverses the order of the eight bits of a byte, so applying it
  twice gives the byte back.\<close>

theorem ff_reverse_reverses_bits:
  "unat (ff_reverse ! unat b) = bit_reverse8 (unat b) \<and> ff_reverse ! unat (ff_reverse ! unat b) = b"
  using ff_reverse_nth [OF byte_less_256, of b] rev8_rev8 [of b] by simp

text \<open>\<^verbatim>\<open>sa_strlcpy\<close> copies the longest prefix that leaves room for the terminator: with a
  buffer of \<open>sz\<close> bytes at most \<open>sz - 1\<close> characters arrive, and a string that fits arrives whole.\<close>

theorem strlcpy_prefix:
  "sa_strlcpy src sz = take (sz - 1) src \<and> length (sa_strlcpy src sz) \<le> sz - 1 \<and>
   (length src < sz \<longrightarrow> sa_strlcpy src sz = src)"
  by (auto simp: sa_strlcpy_eq)

theorem strlcpy_prefix_witness: "length ''abc'' < 8 \<and> sa_strlcpy ''abc'' 8 = ''abc''"
  using strlcpy_prefix [of "''abc''" 8] by simp

text \<open>After \<^verbatim>\<open>sa_max_alloc(0)\<close> every allocation fails, whatever memory the platform has.\<close>

theorem max_alloc_zero_refuses_all: "\<not> sa_malloc (sa_max_alloc 0 h) n"
  by (simp add: sa_malloc_def sa_max_alloc_def)

end
