(* ===== verification/Get_Bits.thy ===== *)
theory Get_Bits
  imports Nexus_Prelude
begin

text \<open>
  The big-endian bit reader of \<^verbatim>\<open>libsautil/get_bits.h\<close> in its checked configuration
  (\<^verbatim>\<open>CONFIG_SAFE_BITSTREAM_READER\<close> is 1 in every configuration of the tree), with the shifts of
  \<^verbatim>\<open>mathops.h\<close> and the integer logarithm of \<^verbatim>\<open>intmath.h\<close> and \<^verbatim>\<open>log2_tab.c\<close>.

  \<open>gb_buffer\<close> is the memory that may be read at the buffer pointer, padding included; a read
  outside it, and a shift by a negative amount or by the width of its operand, is \<open>Fault\<close>.
  The index is unsigned while a reader is open, and wraps.
\<close>

section \<open>Logarithm and shifts\<close>

definition ff_log2_tab :: "nat list" where
  "ff_log2_tab = [0, 0] @ replicate 2 1 @ replicate 4 2 @ replicate 8 3 @ replicate 16 4 @
     replicate 32 5 @ replicate 64 6 @ replicate 128 7"

definition ff_log2_c :: "u32 \<Rightarrow> nat" where
  "ff_log2_c v0 =
     (let (v1, n1) = (if v0 AND 0xffff0000 \<noteq> 0 then (drop_bit 16 v0, 16) else (v0, 0));
          (v2, n2) = (if v1 AND 0xff00 \<noteq> 0 then (drop_bit 8 v1, n1 + 8) else (v1, n1))
      in n2 + ff_log2_tab ! unat v2)"

abbreviation sa_log2 :: "u32 \<Rightarrow> nat" where
  "sa_log2 \<equiv> ff_log2_c"

text \<open>\<open>None\<close> where the shift distance \<open>32 - s\<close> is not below 32.\<close>

definition NEG_USR32 :: "u32 \<Rightarrow> nat \<Rightarrow> u32 option" where
  "NEG_USR32 a s = (if 0 < s \<and> s \<le> 32 then Some (drop_bit (32 - s) a) else None)"

definition NEG_SSR32 :: "u32 \<Rightarrow> nat \<Rightarrow> int option" where
  "NEG_SSR32 a s = (if 0 < s \<and> s \<le> 32 then Some (sint (signed_drop_bit (32 - s) a)) else None)"

section \<open>The reader\<close>

record get_bit_context =
  gb_buffer :: "byte list"
  gb_index :: u32
  gb_size_in_bits :: u32
  gb_size_in_bits_plus8 :: u32

type_synonym ('e, 'a) gb_op = "(get_bit_context, 'e, 'a) op"

text \<open>\<^verbatim>\<open>SA_RB32\<close>: four bytes, the first one most significant.\<close>

definition SA_RB32 :: "byte list \<Rightarrow> nat \<Rightarrow> u32 option" where
  "SA_RB32 b i = (if i + 4 \<le> length b
     then Some (push_bit 24 (ucast (b ! i)) OR push_bit 16 (ucast (b ! (i + 1))) OR
                push_bit 8 (ucast (b ! (i + 2))) OR ucast (b ! (i + 3))) else None)"

definition of_opt :: "'a option \<Rightarrow> ('s, 'e, 'a) op" where
  "of_opt r = (\<lambda>s. case r of None \<Rightarrow> (Fault, s) | Some a \<Rightarrow> (Ok a, s))"

definition UPDATE_CACHE :: "('e, u32) gb_op" where
  "UPDATE_CACHE = (\<lambda>g. case SA_RB32 (gb_buffer g) (unat (drop_bit 3 (gb_index g))) of
       None \<Rightarrow> (Fault, g)
     | Some w \<Rightarrow> (Ok (push_bit (unat (gb_index g AND 7)) w), g))"

definition SKIP_COUNTER :: "u32 \<Rightarrow> ('e, unit) gb_op" where
  "SKIP_COUNTER num = modify (\<lambda>g. g\<lparr>gb_index :=
     (if gb_size_in_bits_plus8 g > gb_index g + num then gb_index g + num
      else gb_size_in_bits_plus8 g)\<rparr>)"

definition get_bits_count :: "get_bit_context \<Rightarrow> int" where
  "get_bits_count g = sint (gb_index g)"

definition get_bits_left :: "get_bit_context \<Rightarrow> int" where
  "get_bits_left g = sint (gb_size_in_bits g) - get_bits_count g"

definition get_sbits :: "nat \<Rightarrow> ('e, int) gb_op" where
  "get_sbits n =
     seq UPDATE_CACHE (\<lambda>cache. seq (of_opt (NEG_SSR32 cache n)) (\<lambda>tmp.
     seq (SKIP_COUNTER (of_nat n)) (\<lambda>_. ret tmp)))"

definition get_bits :: "nat \<Rightarrow> ('e, u32) gb_op" where
  "get_bits n =
     seq UPDATE_CACHE (\<lambda>cache. seq (of_opt (NEG_USR32 cache n)) (\<lambda>tmp.
     seq (SKIP_COUNTER (of_nat n)) (\<lambda>_. ret tmp)))"

definition show_bits :: "nat \<Rightarrow> ('e, u32) gb_op" where
  "show_bits n = seq UPDATE_CACHE (\<lambda>cache. of_opt (NEG_USR32 cache n))"

definition skip_bits :: "nat \<Rightarrow> ('e, unit) gb_op" where
  "skip_bits n = SKIP_COUNTER (of_nat n)"

definition skip_bits1 :: "('e, unit) gb_op" where
  "skip_bits1 = skip_bits 1"

text \<open>The bit is moved to the top of the byte and down again.\<close>

definition get_bits1 :: "('e, bool) gb_op" where
  "get_bits1 = (\<lambda>g.
     let index = gb_index g; i = unat (drop_bit 3 index) in
     if length (gb_buffer g) \<le> i then (Fault, g)
     else let result = drop_bit 7 (push_bit (unat (index AND 7)) (gb_buffer g ! i));
              index' = (if sint (gb_index g) < sint (gb_size_in_bits_plus8 g) then index + 1 else index)
          in (Ok (result \<noteq> 0), g\<lparr>gb_index := index'\<rparr>))"

text \<open>A failed initialisation leaves a reader of an empty buffer; \<open>False\<close> is
  \<^verbatim>\<open>AVERROR_INVALIDDATA\<close>.\<close>

definition init_get_bits :: "byte list option \<Rightarrow> int \<Rightarrow> bool \<times> get_bit_context" where
  "init_get_bits buffer bit_size =
     (let bad = (bit_size \<ge> INT_MAX - max 7 (64 * 8) \<or> bit_size < 0 \<or> buffer = None);
          sz = (if bad then 0 else of_int bit_size) in
      (\<not> bad, \<lparr>gb_buffer = (if bad then [] else the buffer), gb_index = 0,
                gb_size_in_bits = sz, gb_size_in_bits_plus8 = sz + 8\<rparr>))"

definition init_get_bits8 :: "byte list option \<Rightarrow> int \<Rightarrow> bool \<times> get_bit_context" where
  "init_get_bits8 buffer byte_size =
     (let size' = (if byte_size > INT_MAX div 8 \<or> byte_size < 0 then - 1 else byte_size) in
      init_get_bits buffer (size' * 8))"

section \<open>The logarithm\<close>

lemma length_ff_log2_tab: "length ff_log2_tab = 256"
  by (simp add: ff_log2_tab_def)

lemma ff_log2_tab_bounds:
  assumes "0 < v" "v < 256"
  shows "2 ^ (ff_log2_tab ! v) \<le> v \<and> v < 2 * 2 ^ (ff_log2_tab ! v)"
proof -
  consider "v = 1" | "v \<in> {2..<4}" | "v \<in> {4..<8}" | "v \<in> {8..<16}" | "v \<in> {16..<32}" | "v \<in> {32..<64}"
    | "v \<in> {64..<128}" | "v \<in> {128..<256}" using assms by fastforce
  then show ?thesis by cases (auto simp: ff_log2_tab_def nth_append nth_Cons' simp del: replicate.simps split: if_splits)
qed

lemma and_shifted_mask:
  fixes v :: u32
  assumes "take_bit (a + b) v = v"
  shows "v AND push_bit a (mask b) = 0 \<longleftrightarrow> take_bit a v = v"
proof
  assume z: "v AND push_bit a (mask b) = 0"
  show "take_bit a v = v"
  proof (rule bit_word_eqI)
    fix n assume n: "n < LENGTH(32)"
    have "\<not> (bit v n \<and> a \<le> n \<and> n < a + b)"
      using arg_cong [OF z, of "\<lambda>w. bit w n"] n by (auto simp: bit_simps)
    moreover have "bit v n \<Longrightarrow> n < a + b"
      using arg_cong [OF assms, of "\<lambda>w. bit w n"] by (auto simp: bit_simps)
    ultimately show "bit (take_bit a v) n = bit v n" by (auto simp: bit_simps)
  qed
next
  assume t: "take_bit a v = v"
  show "v AND push_bit a (mask b) = 0"
  proof (rule bit_word_eqI)
    fix n assume n: "n < LENGTH(32)"
    have "bit v n \<Longrightarrow> n < a"
      using arg_cong [OF t, of "\<lambda>w. bit w n"] by (auto simp: bit_simps)
    then show "bit (v AND push_bit a (mask b)) n = bit 0 n" by (auto simp: bit_simps)
  qed
qed

lemma take_bit_u32: "take_bit a v = v \<longleftrightarrow> unat (v :: u32) < 2 ^ a"
  unfolding word_unat_eq_iff unsigned_take_bit_eq by (simp add: take_bit_nat_eq_self_iff)

lemma and_high: "v AND 0xffff0000 = 0 \<longleftrightarrow> unat (v :: u32) < 65536"
proof -
  have "(0xffff0000 :: u32) = push_bit 16 (mask 16)" by (simp add: mask_eq_exp_minus_1 push_bit_eq_mult)
  moreover have "take_bit (16 + 16) v = v" by (simp add: take_bit_word_eq_self)
  ultimately show ?thesis using and_shifted_mask [of 16 16 v] take_bit_u32 [of 16 v] by simp
qed

lemma and_mid: "unat v < 65536 \<Longrightarrow> v AND 0xff00 = 0 \<longleftrightarrow> unat (v :: u32) < 256"
proof -
  assume "unat v < 65536"
  then have "take_bit (8 + 8) v = v" using take_bit_u32 [of 16 v] by simp
  moreover have "(0xff00 :: u32) = push_bit 8 (mask 8)" by (simp add: mask_eq_exp_minus_1 push_bit_eq_mult)
  ultimately show ?thesis using and_shifted_mask [of 8 8 v] take_bit_u32 [of 8 v] by simp
qed

lemma unat_drop_bit_u32: "unat (drop_bit n (v :: u32)) = unat v div 2 ^ n"
  unfolding unat_drop_bit_eq by (simp add: drop_bit_eq_div)

text \<open>One stage of the search.\<close>

lemma log2_stage: "2 ^ l \<le> v div 2 ^ s \<Longrightarrow> v div 2 ^ s < 2 * 2 ^ l \<Longrightarrow> 2 ^ (s + l) \<le> v \<and> v < 2 * (2 ^ (s + l) :: nat)"
proof -
  assume a: "2 ^ l \<le> v div 2 ^ s" and b: "v div 2 ^ s < 2 * 2 ^ l"
  from a have "2 ^ l * 2 ^ s \<le> v" by (simp add: less_eq_div_iff_mult_less_eq)
  moreover from b have "v < 2 * 2 ^ l * 2 ^ s" by (simp add: div_less_iff_less_mult)
  ultimately show ?thesis by (simp add: power_add mult.commute mult.left_commute)
qed

lemma sa_log2_bounds:
  assumes "v \<noteq> 0"
  shows "2 ^ sa_log2 v \<le> unat v \<and> unat v < 2 * 2 ^ sa_log2 v"
proof -
  define s1 where "s1 = (if unat v < 65536 then 0 else 16 :: nat)"
  define v1 where "v1 = drop_bit s1 v"
  define s2 where "s2 = (if unat v1 < 256 then 0 else 8 :: nat)"
  define v2 where "v2 = drop_bit s2 v1"
  have pos: "0 < unat v" using assms by (simp add: unat_gt_0)
  have v: "unat v < 4294967296" using unat_bound [of v] by simp
  have u1: "unat v1 = unat v div 2 ^ s1" by (simp add: v1_def unat_drop_bit_u32)
  have b1: "unat v1 < 65536" "0 < unat v1"
    using v pos by (auto simp: u1 s1_def div_greater_zero_iff div_less_iff_less_mult)
  have u2: "unat v2 = unat v1 div 2 ^ s2" by (simp add: v2_def unat_drop_bit_u32)
  have b2: "unat v2 < 256" "0 < unat v2"
    using b1 by (auto simp: u2 s2_def div_greater_zero_iff div_less_iff_less_mult)
  have "sa_log2 v = s1 + s2 + ff_log2_tab ! unat v2"
    using and_high [of v] and_mid [OF b1(1)] b1
    by (auto simp: ff_log2_c_def s1_def s2_def v1_def v2_def)
  moreover have "2 ^ (ff_log2_tab ! unat v2) \<le> unat v2 \<and> unat v2 < 2 * 2 ^ (ff_log2_tab ! unat v2)"
    using b2 by (intro ff_log2_tab_bounds)
  then have "2 ^ (s2 + ff_log2_tab ! unat v2) \<le> unat v1 \<and> unat v1 < 2 * 2 ^ (s2 + ff_log2_tab ! unat v2)"
    using log2_stage u2 by metis
  then have "2 ^ (s1 + (s2 + ff_log2_tab ! unat v2)) \<le> unat v \<and> unat v < 2 * 2 ^ (s1 + (s2 + ff_log2_tab ! unat v2))"
    using log2_stage u1 by metis
  ultimately show ?thesis by (simp add: add.assoc)
qed

lemma sa_log2_0: "sa_log2 0 = 0"
  by (simp add: ff_log2_c_def ff_log2_tab_def)

lemma sa_log2_unique: "2 ^ l \<le> unat v \<Longrightarrow> unat v < 2 * 2 ^ l \<Longrightarrow> sa_log2 v = l"
proof -
  assume a: "2 ^ l \<le> unat v" and b: "unat v < 2 * 2 ^ l"
  then have "v \<noteq> 0" by auto
  from sa_log2_bounds [OF this] have c: "2 ^ sa_log2 v \<le> unat v" "unat v < 2 * 2 ^ sa_log2 v" by auto
  have "(2 :: nat) ^ l < 2 ^ Suc (sa_log2 v)" "(2 :: nat) ^ sa_log2 v < 2 ^ Suc l"
    using a b c by simp_all
  then have "l < Suc (sa_log2 v)" "sa_log2 v < Suc l" by (simp_all only: power_strict_increasing_iff one_less_numeral_iff semiring_norm)
  then show ?thesis by simp
qed

lemma sa_log2_le: "sa_log2 v \<le> 31"
proof (cases "v = 0")
  case False
  have "(2 :: nat) ^ sa_log2 v < 2 ^ 32"
    using sa_log2_bounds [OF False] unat_bound [of v] by simp
  then have "sa_log2 v < 32" by (simp only: power_strict_increasing_iff one_less_numeral_iff semiring_norm)
  then show ?thesis by simp
qed (simp add: sa_log2_0)

end
