(* ===== verification/Bit_Reader.thy ===== *)
theory Bit_Reader
  imports Get_Bits
begin

text \<open>
  What the bit reader of \<open>Get_Bits\<close> delivers: on an initialised reader every fetch of at most 25
  bits is defined, and its value is the number the next bits of the buffer spell.
\<close>

section \<open>What the reader delivers\<close>

text \<open>
  The reference: the buffer as a stream of bits, the most significant bit of a byte first, and
  \<open>bits_at b j n\<close> the number that the \<open>n\<close> bits from position \<open>j\<close> spell.
\<close>

definition stream_bit :: "byte list \<Rightarrow> nat \<Rightarrow> bool" where
  "stream_bit b j = bit (b ! (j div 8)) (7 - j mod 8)"

definition bits_at :: "byte list \<Rightarrow> nat \<Rightarrow> nat \<Rightarrow> u32" where
  "bits_at b j n = horner_sum of_bool 2 (rev (map (stream_bit b) [j..<j + n]))"

lemma bit_bits_at: "bit (bits_at b j n) k \<longleftrightarrow> k < min 32 n \<and> stream_bit b (j + (n - 1 - k))"
  by (auto simp: bits_at_def bit_horner_sum_bit_word_iff rev_nth)

lemma unat_bits_at: "n < 32 \<Longrightarrow> unat (bits_at b j n) < 2 ^ n"
proof -
  assume "n < 32"
  have "take_bit n (bits_at b j n) = bits_at b j n"
    by (rule bit_word_eqI) (auto simp: bit_simps bit_bits_at)
  then show ?thesis by (simp add: take_bit_u32)
qed

text \<open>
  An initialised reader: the buffer is padded by 64 bytes, and the index never passes the end
  of the data by more than eight bits.
\<close>

definition gb_ok :: "get_bit_context \<Rightarrow> bool" where
  "gb_ok g \<longleftrightarrow> unat (gb_size_in_bits g) + 512 \<le> 8 * length (gb_buffer g) \<and>
     unat (gb_size_in_bits g) + 512 < 2147483648 \<and>
     gb_size_in_bits_plus8 g = gb_size_in_bits g + 8 \<and> gb_index g \<le> gb_size_in_bits_plus8 g"

definition gb_pos :: "get_bit_context \<Rightarrow> nat" where
  "gb_pos g = unat (gb_index g)"

definition gb_end :: "get_bit_context \<Rightarrow> nat" where
  "gb_end g = unat (gb_size_in_bits g)"

text \<open>The reader moved on by \<open>n\<close> bits, clamped at eight bits past the data.\<close>

definition gb_skip :: "nat \<Rightarrow> get_bit_context \<Rightarrow> get_bit_context" where
  "gb_skip n g = g\<lparr>gb_index := of_nat (min (gb_end g + 8) (gb_pos g + n))\<rparr>"

lemma unat_plus8: "gb_ok g \<Longrightarrow> unat (gb_size_in_bits_plus8 g) = gb_end g + 8"
  by (auto simp: gb_ok_def gb_end_def unat_word_ariths)

lemma gb_pos_le: "gb_ok g \<Longrightarrow> gb_pos g \<le> gb_end g + 8"
  using unat_plus8 [of g] by (auto simp: gb_ok_def gb_pos_def word_le_nat_alt)

lemma gb_end_less: "gb_ok g \<Longrightarrow> gb_end g + 512 < 2147483648"
  by (simp add: gb_ok_def gb_end_def)

lemma gb_buffer_len: "gb_ok g \<Longrightarrow> gb_end g + 512 \<le> 8 * length (gb_buffer g)"
  by (simp add: gb_ok_def gb_end_def)

lemma gb_skip_fields [simp]:
  "gb_buffer (gb_skip n g) = gb_buffer g" "gb_end (gb_skip n g) = gb_end g"
  "gb_size_in_bits (gb_skip n g) = gb_size_in_bits g"
  "gb_size_in_bits_plus8 (gb_skip n g) = gb_size_in_bits_plus8 g"
  by (simp_all add: gb_skip_def gb_end_def)

lemma gb_pos_skip: "gb_ok g \<Longrightarrow> gb_pos (gb_skip n g) = min (gb_end g + 8) (gb_pos g + n)"
  using gb_end_less [of g] by (simp add: gb_skip_def gb_pos_def unat_of_nat_u32)

lemma gb_ok_skip [simp]: "gb_ok g \<Longrightarrow> gb_ok (gb_skip n g)"
  using gb_pos_skip [of g n] unat_plus8 [of g]
  by (auto simp: gb_ok_def word_le_nat_alt gb_pos_def)

lemma SKIP_COUNTER_skip:
  assumes "gb_ok g" "n < 2147483648"
  shows "SKIP_COUNTER (of_nat n) g = (Ok (), gb_skip n g)"
proof -
  have p: "gb_pos g + n < 4294967296"
    using gb_pos_le [OF assms(1)] gb_end_less [OF assms(1)] assms(2) by linarith
  have s: "unat (gb_index g + of_nat n) = gb_pos g + n"
    using p by (simp add: gb_pos_def unat_word_ariths unat_of_nat)
  have "gb_index g + of_nat n = of_nat (gb_pos g + n)"
    by (simp add: gb_pos_def)
  moreover have "gb_size_in_bits_plus8 g = of_nat (gb_end g + 8)"
    using unat_plus8 [OF assms(1)] by (metis of_nat_unat ucast_id)
  ultimately show ?thesis
    using s unat_plus8 [OF assms(1)]
    by (auto simp: SKIP_COUNTER_def gb_skip_def word_less_nat_alt min_def)
qed

lemma stream_bit_at: "m < 8 \<Longrightarrow> stream_bit b (8 * i + m) = bit (b ! i) (7 - m)"
  by (simp add: stream_bit_def)

lemma bit_SA_RB32:
  assumes "SA_RB32 b i = Some w" "k < 32"
  shows "bit w (31 - k) = stream_bit b (8 * i + k)"
proof -
  have w: "w = push_bit 24 (ucast (b ! i)) OR push_bit 16 (ucast (b ! (i + 1))) OR
      push_bit 8 (ucast (b ! (i + 2))) OR ucast (b ! (i + 3))"
    using assms(1) by (simp add: SA_RB32_def split: if_splits)
  have hi: "\<not> bit (x :: byte) m" if "8 \<le> m" for x m
    using that bit_imp_le_length [of x m] by auto
  have e: "8 * i + k = 8 * (i + k div 8) + k mod 8" by simp
  have s: "stream_bit b (8 * i + k) = bit (b ! (i + k div 8)) (7 - k mod 8)"
    by (subst e, rule stream_bit_at) simp
  define t where "t = 7 - k mod 8"
  have t: "t < 8" by (simp add: t_def)
  have q: "k div 8 < 4" using assms(2) by simp
  have "k = 8 * (k div 8) + k mod 8" "k mod 8 < 8" by simp_all
  with q have d: "31 - k = 8 * (3 - k div 8) + t" unfolding t_def by linarith
  have s': "stream_bit b (8 * i + k) = bit (b ! (i + k div 8)) t" by (simp only: s t_def)
  from q consider "k div 8 = 0" | "k div 8 = 1" | "k div 8 = 2" | "k div 8 = 3" by linarith
  then show ?thesis
    by cases (use t hi in \<open>simp_all only: s' d\<close>, use t hi in
      \<open>simp_all add: w bit_or_iff bit_push_bit_iff bit_ucast_iff\<close>)
qed

text \<open>The cache holds the next bits of the stream, the first one on top.\<close>

lemma UPDATE_CACHE_bits:
  assumes "gb_ok g"
  obtains w where "UPDATE_CACHE g = (Ok w, g)"
    "\<And>k. k < 25 \<Longrightarrow> bit w (31 - k) = stream_bit (gb_buffer g) (gb_pos g + k)"
proof -
  let ?i = "unat (drop_bit 3 (gb_index g))" and ?r = "unat (gb_index g AND 7)"
  have i: "?i = gb_pos g div 8" by (simp add: gb_pos_def unat_drop_bit_u32)
  have "gb_index g AND 7 = take_bit 3 (gb_index g)" by (simp add: take_bit_eq_mask mask_eq_exp_minus_1)
  then have "?r = take_bit 3 (unat (gb_index g))" by (simp only: unsigned_take_bit_eq)
  then have r: "?r = gb_pos g mod 8" by (simp add: gb_pos_def take_bit_eq_mod)
  have "?i + 4 \<le> length (gb_buffer g)"
    using gb_pos_le [OF assms] gb_buffer_len [OF assms] by (simp add: i)
  then obtain c where c: "SA_RB32 (gb_buffer g) ?i = Some c" by (simp add: SA_RB32_def)
  show ?thesis
  proof
    show "UPDATE_CACHE g = (Ok (push_bit ?r c), g)" by (simp add: UPDATE_CACHE_def c)
  next
    fix k :: nat assume k: "k < 25"
    have rk: "?r + k < 32" using k mod_less_divisor [of 8 "gb_pos g"] by (simp add: r)
    have "bit (push_bit ?r c) (31 - k) = bit c (31 - (?r + k))"
      using rk by (auto simp: bit_simps add.commute)
    also have "\<dots> = stream_bit (gb_buffer g) (8 * ?i + (?r + k))"
      using c rk by (rule bit_SA_RB32)
    also have "8 * ?i + (?r + k) = gb_pos g + k" by (simp add: i r)
    finally show "bit (push_bit ?r c) (31 - k) = stream_bit (gb_buffer g) (gb_pos g + k)" .
  qed
qed

lemma NEG_USR32_bits:
  assumes "0 < n" "n \<le> 25" "\<And>k. k < 25 \<Longrightarrow> bit w (31 - k) = stream_bit b (j + k)"
  shows "NEG_USR32 w n = Some (bits_at b j n)"
proof -
  have "drop_bit (32 - n) w = bits_at b j n"
  proof (rule bit_word_eqI)
    fix k assume "k < LENGTH(32)"
    then have k: "k < 32" by simp
    show "bit (drop_bit (32 - n) w) k = bit (bits_at b j n) k"
    proof (cases "k < n")
      case True
      have "bit w (32 - n + k) = bit w (31 - (n - 1 - k))"
        using True assms(2) by (intro arg_cong [of _ _ "bit w"]) simp
      then show ?thesis using True assms(2) assms(3) [of "n - 1 - k"] k
        by (simp add: bit_simps bit_bits_at)
    next
      case False
      then have "\<not> bit w (32 - n + k)" using assms(2) by (auto dest: bit_imp_le_length)
      then show ?thesis using False by (simp add: bit_simps bit_bits_at)
    qed
  qed
  then show ?thesis using assms by (simp add: NEG_USR32_def)
qed

lemma get_bits_value:
  assumes "gb_ok g" "0 < n" "n \<le> 25"
  shows "(get_bits n g :: ('e, u32) outcome \<times> get_bit_context) =
    (Ok (bits_at (gb_buffer g) (gb_pos g) n), gb_skip n g)"
proof -
  obtain w where w: "UPDATE_CACHE g = ((Ok w, g) :: ('e, u32) outcome \<times> get_bit_context)"
      "\<And>k. k < 25 \<Longrightarrow> bit w (31 - k) = stream_bit (gb_buffer g) (gb_pos g + k)"
    using UPDATE_CACHE_bits [OF assms(1)] by blast
  have "NEG_USR32 w n = Some (bits_at (gb_buffer g) (gb_pos g) n)"
    by (rule NEG_USR32_bits) (use assms w(2) in auto)
  then show ?thesis
    using w(1) assms by (simp add: get_bits_def of_opt_def seq_def SKIP_COUNTER_skip)
qed

lemma gb_ok_index_bounds: "gb_ok g \<Longrightarrow> sint (gb_index g) = int (gb_pos g) \<and>
    sint (gb_size_in_bits_plus8 g) = int (gb_end g + 8) \<and> sint (gb_size_in_bits g) = int (gb_end g)"
proof -
  have small: "sint w = int (unat w)" if "unat w < 2147483648" for w :: u32
  proof -
    have u: "uint w = int (unat w)" by simp
    then have "uint w < 2147483648" using that by linarith
    then have "signed_take_bit 31 (uint w) = uint w" by (intro signed_take_bit_int_eq_self) (auto intro: order_trans [of _ 0])
    then have "sint w = uint w" by (simp add: sint_uint)
    then show ?thesis using u by (rule trans)
  qed
  assume g: "gb_ok g"
  show ?thesis
    using small [of "gb_index g"] small [of "gb_size_in_bits_plus8 g"] small [of "gb_size_in_bits g"]
      gb_pos_le [OF g] gb_end_less [OF g] unat_plus8 [OF g]
    by (auto simp: gb_pos_def gb_end_def)
qed

lemma get_bits_left_ok: "gb_ok g \<Longrightarrow> get_bits_left g = int (gb_end g) - int (gb_pos g)"
  by (simp add: get_bits_left_def get_bits_count_def gb_ok_index_bounds)

lemma NEG_SSR32_bits:
  assumes "0 < n" "n \<le> 25" "\<And>k. k < 25 \<Longrightarrow> bit w (31 - k) = stream_bit b (j + k)"
  shows "NEG_SSR32 w n = Some (signed_take_bit (n - 1) (uint (bits_at b j n)))"
proof -
  have "drop_bit (32 - n) w = bits_at b j n"
    using NEG_USR32_bits [OF assms(1,2), of w b j] assms by (auto simp: NEG_USR32_def)
  then have low: "bit (bits_at b j n) k = bit w (32 - n + k)" for k
    using bit_drop_bit_eq [of "32 - n" w] by (metis comp_apply)
  have "drop_bit (32 - n) (sint w) = signed_take_bit (n - 1) (uint (bits_at b j n))"
  proof (rule bit_eqI)
    fix k
    have "bit (uint (bits_at b j n)) m = bit w (32 - n + m)" for m
      by (simp add: bit_uint_iff low) (use bit_imp_le_length [of w] assms in force)
    moreover have "bit (sint w) (32 - n + k) = bit w (32 - n + min k (n - 1))"
      using assms(1,2) bit_imp_le_length [of w "32 - n + k"]
      by (cases "k < n") (auto simp: bit_sint_iff min_def not_less)
    ultimately show "bit (drop_bit (32 - n) (sint w)) k =
        bit (signed_take_bit (n - 1) (uint (bits_at b j n))) k"
      by (simp add: bit_drop_bit_eq bit_signed_take_bit_iff min.commute)
  qed
  then show ?thesis using assms by (simp add: NEG_SSR32_def sint_signed_drop_bit_eq)
qed

lemma get_sbits_value:
  assumes "gb_ok g" "0 < n" "n \<le> 25"
  shows "(get_sbits n g :: ('e, int) outcome \<times> get_bit_context) =
    (Ok (signed_take_bit (n - 1) (uint (bits_at (gb_buffer g) (gb_pos g) n))), gb_skip n g)"
proof -
  obtain w where w: "UPDATE_CACHE g = ((Ok w, g) :: ('e, u32) outcome \<times> get_bit_context)"
      "\<And>k. k < 25 \<Longrightarrow> bit w (31 - k) = stream_bit (gb_buffer g) (gb_pos g + k)"
    using UPDATE_CACHE_bits [OF assms(1)] by blast
  have "NEG_SSR32 w n = Some (signed_take_bit (n - 1) (uint (bits_at (gb_buffer g) (gb_pos g) n)))"
    by (rule NEG_SSR32_bits) (use assms w(2) in auto)
  then show ?thesis
    using w(1) assms by (simp add: get_sbits_def of_opt_def seq_def SKIP_COUNTER_skip)
qed

lemma get_bits1_value:
  assumes "gb_ok g"
  shows "get_bits1 g = (Ok (stream_bit (gb_buffer g) (gb_pos g)), gb_skip 1 g)"
proof -
  let ?i = "unat (drop_bit 3 (gb_index g))" and ?r = "unat (gb_index g AND 7)"
  have i: "?i = gb_pos g div 8" by (simp add: gb_pos_def unat_drop_bit_u32)
  have "gb_index g AND 7 = take_bit 3 (gb_index g)" by (simp add: take_bit_eq_mask mask_eq_exp_minus_1)
  then have "?r = take_bit 3 (unat (gb_index g))" by (simp only: unsigned_take_bit_eq)
  then have r: "?r = gb_pos g mod 8" by (simp add: gb_pos_def take_bit_eq_mod)
  have len: "?i < length (gb_buffer g)"
    using gb_pos_le [OF assms] gb_buffer_len [OF assms] by (simp add: i)
  have "drop_bit 7 (push_bit ?r x) \<noteq> 0 \<longleftrightarrow> bit x (7 - ?r)" for x :: byte
  proof -
    have "?r < 8" by (simp add: r)
    have "drop_bit 7 (push_bit ?r x) = of_bool (bit x (7 - ?r))"
      by (rule bit_word_eqI) (use \<open>?r < 8\<close> in \<open>auto simp: bit_simps Suc_le_eq\<close>)
    then show ?thesis by simp
  qed
  then have v: "drop_bit 7 (push_bit ?r (gb_buffer g ! ?i)) \<noteq> 0 \<longleftrightarrow> stream_bit (gb_buffer g) (gb_pos g)"
    by (simp add: stream_bit_def i r)
  have "gb_skip 1 g = g\<lparr>gb_index := if sint (gb_index g) < sint (gb_size_in_bits_plus8 g)
      then gb_index g + 1 else gb_index g\<rparr>"
  proof (cases "gb_pos g < gb_end g + 8")
    case True
    then have "word_of_nat (min (gb_end g + 8) (gb_pos g + 1)) = gb_index g + 1"
      by (simp add: gb_pos_def)
    then show ?thesis using True gb_ok_index_bounds [OF assms] by (simp add: gb_skip_def)
  next
    case False
    then have "gb_pos g = gb_end g + 8" using gb_pos_le [OF assms] by simp
    then have "word_of_nat (min (gb_end g + 8) (gb_pos g + 1)) = gb_index g"
      by (metis gb_pos_def le_add1 min.absorb1 of_nat_unat ucast_id)
    then show ?thesis using False gb_ok_index_bounds [OF assms] by (simp add: gb_skip_def)
  qed
  then show ?thesis
    using v len by (simp add: get_bits1_def Let_def)
qed

lemma skip_bits1_value: "gb_ok g \<Longrightarrow> skip_bits1 g = (Ok (), gb_skip 1 g)"
  unfolding skip_bits1_def skip_bits_def by (rule SKIP_COUNTER_skip) auto

lemma init_get_bits8_ok:
  assumes "0 \<le> n" "n \<le> 268435391" "nat n + 64 \<le> length b"
  shows "\<exists>g. init_get_bits8 (Some b) n = (True, g) \<and> gb_ok g \<and> gb_buffer g = b \<and> gb_pos g = 0 \<and>
    gb_end g = 8 * nat n"
proof -
  have "(word_of_int (n * 8) :: u32) = of_nat (8 * nat n)"
    using assms by simp
  moreover have "unat (of_nat (8 * nat n) :: u32) = 8 * nat n"
    using assms by (intro unat_of_nat_u32) simp
  ultimately have "unat (word_of_int (n * 8) :: u32) = 8 * nat n" by simp
  then show ?thesis
    using assms by (simp add: init_get_bits8_def init_get_bits_def Let_def gb_ok_def gb_pos_def gb_end_def)
qed

end
