(* ===== verification/Op_Loops.thy ===== *)
theory Op_Loops
  imports Nexus_Prelude
begin

text \<open>
  Counted loops and array accesses as operations, the focus of an operation on a part of the
  state, and the weakest-precondition rules by which the loops are proved: \<open>wp F m Q E s\<close> says that
  when \<open>m\<close> runs in \<open>s\<close>, a normal result satisfies \<open>Q\<close> and an error \<open>E\<close>, and that it is defined
  unless \<open>F\<close>.
\<close>

section \<open>Operations\<close>

text \<open>\<^verbatim>\<open>for (j = i; j < n; j++) f(j);\<close> where the body leaves \<open>n\<close> alone.\<close>

function for_loop :: "nat \<Rightarrow> nat \<Rightarrow> (nat \<Rightarrow> ('s, 'e, unit) op) \<Rightarrow> ('s, 'e, unit) op" where
  "for_loop i n f = (if i < n then seq (f i) (\<lambda>_. for_loop (Suc i) n f) else ret ())"
  by pat_completeness auto
termination
  by (relation "measure (\<lambda>(i, n, f). n - i)") auto

declare for_loop.simps [simp del]

text \<open>An access outside an array is undefined.\<close>

definition arr_read :: "nat \<Rightarrow> ('a list, 'e, 'a) op" where
  "arr_read i = (\<lambda>xs. if i < length xs then (Ok (xs ! i), xs) else (Fault, xs))"

definition arr_write :: "nat \<Rightarrow> 'a \<Rightarrow> ('a list, 'e, unit) op" where
  "arr_write i v = (\<lambda>xs. if i < length xs then (Ok (), xs[i := v]) else (Fault, xs))"

text \<open>A result of type \<^verbatim>\<open>int\<close>: signed overflow is undefined.\<close>

definition c_int :: "int \<Rightarrow> ('s, 'e, int) op" where
  "c_int v = (if - 2147483648 \<le> v \<and> v \<le> 2147483647 then ret v else fault)"

text \<open>An operation on the part of the state that \<open>g\<close> selects and \<open>p\<close> puts back.\<close>

definition zoom :: "('t \<Rightarrow> 's) \<Rightarrow> ('s \<Rightarrow> 't \<Rightarrow> 't) \<Rightarrow> ('s, 'e, 'a) op \<Rightarrow> ('t, 'e, 'a) op" where
  "zoom g p m = (\<lambda>t. case m (g t) of (r, s) \<Rightarrow> (r, p s t))"

definition on_fst :: "('s, 'e, 'a) op \<Rightarrow> ('s \<times> 't, 'e, 'a) op" where
  "on_fst m = zoom fst (\<lambda>s (_, t). (s, t)) m"

definition on_snd :: "('t, 'e, 'a) op \<Rightarrow> ('s \<times> 't, 'e, 'a) op" where
  "on_snd m = zoom snd (\<lambda>t (s, _). (s, t)) m"

text \<open>A row of an array of arrays.\<close>

definition on_row :: "nat \<Rightarrow> ('s \<times> 'a, 'e, 'r) op \<Rightarrow> ('s \<times> 'a list, 'e, 'r) op" where
  "on_row i m = (\<lambda>(s, xs). if i < length xs
     then (case m (s, xs ! i) of (r, (s', x)) \<Rightarrow> (r, (s', xs[i := x]))) else (Fault, (s, xs)))"

section \<open>Weakest preconditions\<close>

definition wp :: "bool \<Rightarrow> ('s, 'e, 'a) op \<Rightarrow> ('a \<Rightarrow> 's \<Rightarrow> bool) \<Rightarrow> ('e \<Rightarrow> 's \<Rightarrow> bool) \<Rightarrow> 's \<Rightarrow> bool" where
  "wp F m Q E s = (case m s of (Ok a, s') \<Rightarrow> Q a s' | (Err e, s') \<Rightarrow> E e s' | (Fault, s') \<Rightarrow> F)"

named_theorems wp_simps \<open>weakest preconditions of the combinators\<close>

lemma wp_ret [wp_simps]: "wp F (ret a) Q E = Q a"
  by (rule ext) (simp add: wp_def)

lemma wp_Pair [wp_simps]: "wp F (Pair (Ok a)) Q E = Q a" "wp F (Pair (Err e)) Q E = E e"
  by (rule ext, simp add: wp_def)+

lemma wp_fail [wp_simps]: "wp F (fail e) Q E = E e"
  by (rule ext) (simp add: wp_def)

lemma wp_fault [wp_simps]: "wp F fault Q E = (\<lambda>s. F)"
  by (rule ext) (simp add: wp_def)

lemma wp_get [wp_simps]: "wp F get Q E = (\<lambda>s. Q s s)"
  by (rule ext) (simp add: wp_def)

lemma wp_modify [wp_simps]: "wp F (modify f) Q E = (\<lambda>s. Q () (f s))"
  by (rule ext) (simp add: wp_def)

lemma wp_ensure [wp_simps]: "wp F (ensure b e) Q E = (if b then Q () else E e)"
  by (rule ext) (simp add: wp_def)

lemma wp_seq [wp_simps]: "wp F (seq m k) Q E = wp F m (\<lambda>a. wp F (k a) Q E) E"
  by (rule ext) (simp add: wp_def seq_def split: prod.splits outcome.splits)

lemma wp_ignore [wp_simps]: "wp F (ignore m) Q E = wp F m (\<lambda>_. Q ()) (\<lambda>_. Q ())"
  by (rule ext) (simp add: wp_def ignore_def split: prod.splits outcome.splits)

lemma wp_if [wp_simps]: "wp F (if b then m else n) Q E = (if b then wp F m Q E else wp F n Q E)"
  by simp

lemma wp_zoom [wp_simps]:
  "wp F (zoom g p m) Q E t \<longleftrightarrow> wp F m (\<lambda>a s. Q a (p s t)) (\<lambda>e s. E e (p s t)) (g t)"
  by (simp add: wp_def zoom_def split: prod.splits outcome.splits)

lemma wp_on_fst [wp_simps]:
  "wp F (on_fst m) Q E (s, t) \<longleftrightarrow> wp F m (\<lambda>a s. Q a (s, t)) (\<lambda>e s. E e (s, t)) s"
  by (simp add: on_fst_def wp_zoom)

lemma wp_on_snd [wp_simps]:
  "wp F (on_snd m) Q E (s, t) \<longleftrightarrow> wp F m (\<lambda>a t. Q a (s, t)) (\<lambda>e t. E e (s, t)) t"
  by (simp add: on_snd_def wp_zoom)

lemma wp_on_row [wp_simps]:
  "wp F (on_row i m) Q E (s, xs) \<longleftrightarrow> (if i < length xs then
     wp F m (\<lambda>a (s, x). Q a (s, xs[i := x])) (\<lambda>e (s, x). E e (s, xs[i := x])) (s, xs ! i) else F)"
  by (simp add: wp_def on_row_def split: prod.splits outcome.splits)

lemma wp_arr_read [wp_simps]: "wp F (arr_read i) Q E xs \<longleftrightarrow> (if i < length xs then Q (xs ! i) xs else F)"
  by (simp add: wp_def arr_read_def)

lemma wp_arr_write [wp_simps]: "wp F (arr_write i v) Q E xs \<longleftrightarrow> (if i < length xs then Q () (xs[i := v]) else F)"
  by (simp add: wp_def arr_write_def)

lemma wp_c_int [wp_simps]:
  "wp F (c_int v) Q E s \<longleftrightarrow> (if - 2147483648 \<le> v \<and> v \<le> 2147483647 then Q v s else F)"
  by (auto simp: wp_def c_int_def)

lemma wp_mono:
  assumes "wp F m Q E s" "\<And>a s. Q a s \<Longrightarrow> Q' a s" "\<And>e s. E e s \<Longrightarrow> E' e s"
  shows "wp F m Q' E' s"
  using assms by (auto simp: wp_def split: prod.splits outcome.splits)

lemma wp_eqI: "m s = (Ok a, s') \<Longrightarrow> Q a s' \<Longrightarrow> wp F m Q E s"
  by (simp add: wp_def)

lemma wp_OkD: "wp F m Q E s \<Longrightarrow> m s = (Ok a, s') \<Longrightarrow> Q a s'"
  by (simp add: wp_def)

lemma wp_ErrD: "wp F m Q E s \<Longrightarrow> m s = (Err e, s') \<Longrightarrow> E e s'"
  by (simp add: wp_def)

lemma wp_weaken: "wp False m Q E s \<Longrightarrow> wp F m Q E s"
  by (auto simp: wp_def split: prod.splits outcome.splits)

lemma wp_no_fault: "wp False m Q E s \<Longrightarrow> fst (m s) \<noteq> Fault"
  by (auto simp: wp_def split: prod.splits)

lemma wp_total: "wp False m Q (\<lambda>_ _. False) s \<Longrightarrow> \<exists>a s'. m s = (Ok a, s') \<and> Q a s'"
  by (auto simp: wp_def split: prod.splits outcome.splits)

text \<open>The invariant rule of the counted loop.\<close>

lemma wp_for_loop:
  assumes "I i s" "i \<le> n"
    and body: "\<And>j s. i \<le> j \<Longrightarrow> j < n \<Longrightarrow> I j s \<Longrightarrow> wp F (f j) (\<lambda>_. I (Suc j)) E s"
    and post: "\<And>s. I n s \<Longrightarrow> Q () s"
  shows "wp F (for_loop i n f) Q E s"
  using assms(1,2) body
proof (induction "n - i" arbitrary: i s)
  case 0
  then show ?case using post by (simp add: for_loop.simps [of i] wp_def)
next
  case (Suc d)
  then have i: "i < n" by simp
  have "wp F (f i) (\<lambda>_. I (Suc i)) E s" using Suc.prems i by simp
  then have "wp F (f i) (\<lambda>_. wp F (for_loop (Suc i) n f) Q E) E s"
  proof (rule wp_mono)
    fix s' assume "I (Suc i) s'"
    then show "wp F (for_loop (Suc i) n f) Q E s'"
      using Suc.hyps(2) Suc.prems(3) i by (intro Suc.hyps(1)) auto
  qed
  then show ?case using i by (simp add: for_loop.simps [of i] wp_seq)
qed

lemma for_loop_empty [simp]: "n \<le> i \<Longrightarrow> for_loop i n f = ret ()"
  by (simp add: for_loop.simps [of i])

lemma for_loop_unfold: "i < n \<Longrightarrow> for_loop i n f = seq (f i) (\<lambda>_. for_loop (Suc i) n f)"
  by (simp add: for_loop.simps [of i])

end
