(* ===== verification/Dst_Decoder.thy ===== *)
theory Dst_Decoder
  imports Bit_Reader Op_Loops Sa_Util
begin

text \<open>
  The Direct Stream Transfer decoder of \<^verbatim>\<open>libdst/src/decoder.c\<close>, function by function.

  A decoder object is a \<open>dst_decoder\<close>. The helpers that take several pointers act on the tuple
  of the objects they point to: \<open>read_map\<close> on the reader, a table and the map, \<open>read_table\<close> on
  the reader and a table, \<open>ac_get\<close> on the coder and the reader. An array access outside its
  bounds, a read of a map entry that was never written, a signed overflow and a shift by a
  negative amount or by the operand's width are \<open>Fault\<close>.
\<close>

section \<open>Constants and types\<close>

definition DST_MAX_CHANNELS :: nat where
  "DST_MAX_CHANNELS = 6"

definition DST_MAX_ELEMENTS :: nat where
  "DST_MAX_ELEMENTS = 2 * DST_MAX_CHANNELS"

text \<open>C's division truncates; the products are \<^verbatim>\<open>int\<close> and cannot overflow.\<close>

definition DSD_FS44 :: "int \<Rightarrow> int" where
  "DSD_FS44 rate = sgn rate * (\<bar>rate\<bar> div 44100)"

definition DST_SAMPLES_PER_FRAME :: "int \<Rightarrow> int" where
  "DST_SAMPLES_PER_FRAME rate = 588 * DSD_FS44 rate"

text \<open>\<open>DST_ERROR\<close> is the plain \<open>-1\<close> of the argument checks.\<close>

datatype dst_error = DST_ERROR | AVERROR_INVALIDDATA | AVERROR_PATCHWELCOME

record dst_arith_coder =
  ac_a :: u32
  ac_c :: u32

record dst_table =
  tb_elements :: u32
  tb_length :: "u32 list"
  tb_coeff :: "int list list"

record dst_decoder =
  d_status :: "byte list list"
  d_filter :: "u16 list list list"
  d_channels :: int
  d_sample_rate :: int
  d_gb :: get_bit_context
  d_ac :: dst_arith_coder
  d_fsets :: dst_table
  d_probs :: dst_table

definition fsets_code_pred_coeff :: "int list list" where
  "fsets_code_pred_coeff = [[-8, 0, 0], [-16, 8, 0], [-9, -5, 6]]"

definition probs_code_pred_coeff :: "int list list" where
  "probs_code_pred_coeff = [[-8, 0, 0], [-16, 8, 0], [-24, 24, -8]]"

section \<open>The mapping\<close>

text \<open>A map array whose unwritten entries are \<open>None\<close>.\<close>

type_synonym dst_map = "u32 option list"

type_synonym map_state = "get_bit_context \<times> dst_table \<times> dst_map"

definition read_map_entry :: "nat \<Rightarrow> (map_state, dst_error, unit) op" where
  "read_map_entry ch =
     seq get (\<lambda>(_, t, _). seq (on_fst (get_bits (sa_log2 (tb_elements t) + 1))) (\<lambda>v.
     seq (on_snd (on_snd (arr_write ch (Some v)))) (\<lambda>_.
     if v = tb_elements t
     then seq (on_snd (on_fst (modify (\<lambda>t. t\<lparr>tb_elements := tb_elements t + 1\<rparr>)))) (\<lambda>_.
          ensure (tb_elements t + 1 < of_nat DST_MAX_ELEMENTS) AVERROR_INVALIDDATA)
     else ensure (\<not> v > tb_elements t) AVERROR_INVALIDDATA)))"

definition read_map :: "int \<Rightarrow> (map_state, dst_error, unit) op" where
  "read_map channels =
     seq (on_snd (on_fst (modify (\<lambda>t. t\<lparr>tb_elements := 1\<rparr>)))) (\<lambda>_.
     seq (on_snd (on_snd (arr_write 0 (Some 0)))) (\<lambda>_.
     seq (on_fst get_bits1) (\<lambda>b.
     if \<not> b then for_loop 1 (nat channels) read_map_entry
     else on_snd (on_snd (modify (\<lambda>_. replicate DST_MAX_CHANNELS (Some 0)))))))"

section \<open>Golomb codes\<close>

definition get_ur_golomb :: "nat \<Rightarrow> int \<Rightarrow> nat \<Rightarrow> ('e, int) gb_op" where
  "get_ur_golomb k limit esc_len =
     seq UPDATE_CACHE (\<lambda>buf. let log = sa_log2 buf in
     seq (c_int (31 - limit)) (\<lambda>bound.
     if int log > bound
     then if log < k then fault
          else let buf' = drop_bit (log - k) buf + push_bit k (30 - of_nat log) in
               seq (SKIP_COUNTER (of_nat (32 + k - log))) (\<lambda>_. ret (sint buf'))
     else seq (SKIP_COUNTER (of_int limit)) (\<lambda>_.
          seq UPDATE_CACHE (\<lambda>cache. seq (of_opt (NEG_USR32 cache esc_len)) (\<lambda>buf'.
          seq (SKIP_COUNTER (of_nat esc_len)) (\<lambda>_. ret (sint (buf' + of_int limit - 1))))))))"

definition get_sr_golomb_dst :: "nat \<Rightarrow> ('e, int) gb_op" where
  "get_sr_golomb_dst k =
     seq get (\<lambda>g. seq (get_ur_golomb k (get_bits_left g) 0) (\<lambda>v.
     if v \<noteq> 0 then seq get_bits1 (\<lambda>neg. if neg then c_int (- v) else ret v) else ret v))"

section \<open>Coefficient tables\<close>

type_synonym ('e, 'a) row_op = "(get_bit_context \<times> int list, 'e, 'a) op"

text \<open>The two branches of the conditional have the common type \<^verbatim>\<open>unsigned\<close>.\<close>

definition read_uncoded_coeff :: "nat \<Rightarrow> nat \<Rightarrow> bool \<Rightarrow> int \<Rightarrow> ('e, unit) row_op" where
  "read_uncoded_coeff elements coeff_bits is_signed offset =
     for_loop 0 elements (\<lambda>i.
       seq (on_fst (if is_signed then seq (get_sbits coeff_bits) (\<lambda>v. ret (of_int v))
                    else get_bits coeff_bits)) (\<lambda>v.
       on_snd (arr_write i (sint (v + of_int offset :: u32)))))"

text \<open>The linear prediction of coefficient \<open>j\<close>, in unsigned arithmetic.\<close>

fun code_prediction :: "int list \<Rightarrow> int list \<Rightarrow> nat \<Rightarrow> nat \<Rightarrow> u32 option" where
  "code_prediction pred coeff j 0 = Some 0"
| "code_prediction pred coeff j (Suc k) =
     (case code_prediction pred coeff j k of None \<Rightarrow> None
      | Some x \<Rightarrow> if k < length pred \<and> k < j \<and> j - k - 1 < length coeff
          then Some (x + of_int (pred ! k) * of_int (coeff ! (j - k - 1))) else None)"

definition read_coded_coeff ::
  "int list \<Rightarrow> nat \<Rightarrow> nat \<Rightarrow> nat \<Rightarrow> bool \<Rightarrow> int \<Rightarrow> nat \<Rightarrow> (dst_error, unit) row_op" where
  "read_coded_coeff pred method lsb_size coeff_bits is_signed offset j =
     seq (on_snd get) (\<lambda>coeff. seq (of_opt (code_prediction pred coeff j (method + 1))) (\<lambda>x'.
     let x = sint x' in
     seq (on_fst (get_sr_golomb_dst lsb_size)) (\<lambda>c0.
     seq (if x \<ge> 0 then seq (c_int (x + 4)) (\<lambda>y. c_int (c0 - y div 8))
          else seq (c_int (- x)) (\<lambda>y. seq (c_int (y + 3)) (\<lambda>z. c_int (c0 + z div 8)))) (\<lambda>c.
     seq (ensure (is_signed \<or> \<not> (c < offset \<or> c \<ge> offset + 2 ^ coeff_bits)) AVERROR_INVALIDDATA) (\<lambda>_.
     on_snd (arr_write j c))))))"

type_synonym ('e, 'a) table_op = "(get_bit_context \<times> dst_table, 'e, 'a) op"

definition on_length :: "(u32 list, 'e, 'a) op \<Rightarrow> ('e, 'a) table_op" where
  "on_length m = on_snd (zoom tb_length (\<lambda>l t. t\<lparr>tb_length := l\<rparr>) m)"

definition on_coeff_row :: "nat \<Rightarrow> ('e, 'a) row_op \<Rightarrow> ('e, 'a) table_op" where
  "on_coeff_row i m = zoom (\<lambda>(g, t). (g, tb_coeff t)) (\<lambda>(g, c) (_, t). (g, t\<lparr>tb_coeff := c\<rparr>)) (on_row i m)"

definition read_table_element ::
  "int list list \<Rightarrow> nat \<Rightarrow> nat \<Rightarrow> bool \<Rightarrow> int \<Rightarrow> nat \<Rightarrow> (dst_error, unit) table_op" where
  "read_table_element code_pred_coeff length_bits coeff_bits is_signed offset i =
     seq (on_fst (get_bits length_bits)) (\<lambda>v. let len = v + 1 in
     seq (on_length (arr_write i len)) (\<lambda>_.
     seq (on_fst get_bits1) (\<lambda>coded.
     if \<not> coded then on_coeff_row i (read_uncoded_coeff (unat len) coeff_bits is_signed offset)
     else seq (on_fst (get_bits 2)) (\<lambda>m. let method = unat m in
       seq (ensure (method \<noteq> 3) AVERROR_INVALIDDATA) (\<lambda>_.
       seq (on_coeff_row i (read_uncoded_coeff (method + 1) coeff_bits is_signed offset)) (\<lambda>_.
       seq (on_fst (get_bits 3)) (\<lambda>lsb_size.
       on_coeff_row i (for_loop (method + 1) (unat len)
         (read_coded_coeff (code_pred_coeff ! method) method (unat lsb_size) coeff_bits is_signed
            offset)))))))))"

definition read_table ::
  "int list list \<Rightarrow> nat \<Rightarrow> nat \<Rightarrow> bool \<Rightarrow> int \<Rightarrow> (dst_error, unit) table_op" where
  "read_table code_pred_coeff length_bits coeff_bits is_signed offset =
     seq get (\<lambda>(_, t). for_loop 0 (unat (tb_elements t))
       (read_table_element code_pred_coeff length_bits coeff_bits is_signed offset))"

section \<open>The arithmetic coder\<close>

type_synonym ('e, 'a) ac_op = "(dst_arith_coder \<times> get_bit_context, 'e, 'a) op"

definition ac_init :: "('e, unit) ac_op" where
  "ac_init = seq (on_snd (get_bits 12)) (\<lambda>v. on_fst (modify (\<lambda>_. \<lparr>ac_a = 4095, ac_c = v\<rparr>)))"

text \<open>The subdivision of the interval: the decoded bit and the coder before renormalisation.\<close>

definition ac_split :: "int \<Rightarrow> dst_arith_coder \<Rightarrow> bool \<times> dst_arith_coder" where
  "ac_split p ac =
     (let k = drop_bit 8 (ac_a ac) OR (drop_bit 7 (ac_a ac) AND 1);
          q = k * of_int p; a_q = ac_a ac - q; e = (ac_c ac < a_q) in
      (e, if e then ac\<lparr>ac_a := a_q\<rparr> else \<lparr>ac_a = q, ac_c = ac_c ac - a_q\<rparr>))"

definition ac_renorm :: "('e, unit) ac_op" where
  "ac_renorm =
     seq get (\<lambda>(ac, gb). if \<not> ac_a ac < 2048 then ret () else
       let n = 11 - sa_log2 (ac_a ac); left = get_bits_left gb in
       seq (on_fst (modify (\<lambda>ac. ac\<lparr>ac_a := push_bit n (ac_a ac)\<rparr>))) (\<lambda>_.
       if left \<ge> int n
       then seq (on_snd (get_bits n)) (\<lambda>v.
            on_fst (modify (\<lambda>ac. ac\<lparr>ac_c := push_bit n (ac_c ac) OR v\<rparr>)))
       else seq (on_fst (modify (\<lambda>ac. ac\<lparr>ac_c := push_bit n (ac_c ac)\<rparr>))) (\<lambda>_.
            if left > 0
            then seq (on_snd (get_bits (nat left))) (\<lambda>v.
                 on_fst (modify (\<lambda>ac. ac\<lparr>ac_c := ac_c ac OR push_bit (n - nat left) v\<rparr>)))
            else ret ())))"

definition ac_get :: "int \<Rightarrow> ('e, bool) ac_op" where
  "ac_get p =
     seq get (\<lambda>(ac, _). case ac_split p ac of (e, ac') \<Rightarrow>
     seq (on_fst (modify (\<lambda>_. ac'))) (\<lambda>_. seq ac_renorm (\<lambda>_. ret e)))"

definition prob_dst_x_bit :: "int \<Rightarrow> byte" where
  "prob_dst_x_bit c = drop_bit 1 (ff_reverse ! nat (c AND 127)) + 1"

section \<open>The filter tables\<close>

text \<open>The inner loop: the sum of the coefficients, each with the sign of its bit of \<open>k\<close>.\<close>

fun filter_sum :: "int list \<Rightarrow> nat \<Rightarrow> nat \<Rightarrow> nat \<Rightarrow> ('s, 'e, int) op" where
  "filter_sum coeff j k 0 = ret 0"
| "filter_sum coeff j k (Suc l) = seq (filter_sum coeff j k l) (\<lambda>v.
     if j * 8 + l < length coeff
     then seq (c_int ((int (drop_bit l k AND 1) * 2 - 1) * coeff ! (j * 8 + l))) (\<lambda>t. ret (v + t))
     else fault)"

definition filter_total :: "u32 \<Rightarrow> nat \<Rightarrow> nat" where
  "filter_total len j = nat (max 0 (min 8 (sint len - int j * 8)))"

definition filter_entry :: "int list \<Rightarrow> u32 \<Rightarrow> nat \<Rightarrow> nat \<Rightarrow> (u16 list list, dst_error, unit) op" where
  "filter_entry coeff len j k =
     seq (filter_sum coeff j k (filter_total len j)) (\<lambda>v.
     seq (ensure (sint (of_int v :: u16) = v) AVERROR_INVALIDDATA) (\<lambda>_. \<lambda>rows.
       if j < length rows \<and> k < length (rows ! j)
       then (Ok (), rows[j := (rows ! j)[k := of_int v]]) else (Fault, rows)))"

definition build_filter :: "dst_table \<Rightarrow> (u16 list list list, dst_error, unit) op" where
  "build_filter fsets =
     for_loop 0 (unat (tb_elements fsets)) (\<lambda>i. \<lambda>tables.
       if i < length tables \<and> i < length (tb_length fsets) \<and> i < length (tb_coeff fsets)
       then case for_loop 0 16 (\<lambda>j. for_loop 0 256 (filter_entry (tb_coeff fsets ! i)
              (tb_length fsets ! i) j)) (tables ! i) of (r, rows) \<Rightarrow> (r, tables[i := rows])
       else (Fault, tables))"

section \<open>One sample\<close>

text \<open>\<^verbatim>\<open>SA_RL64A\<close> and \<^verbatim>\<open>SA_WL64A\<close> at byte \<open>o\<close> of a status row.\<close>

definition SA_RL64A :: "byte list \<Rightarrow> nat \<Rightarrow> u64" where
  "SA_RL64A b off = of_nat (le_dec (take 8 (drop off b)))"

definition SA_WL64A :: "byte list \<Rightarrow> nat \<Rightarrow> u64 \<Rightarrow> byte list" where
  "SA_WL64A b off v = take off b @ le_enc 8 (unat v) @ drop (off + 8) b"

definition shift_status :: "bool \<Rightarrow> byte list \<Rightarrow> byte list" where
  "shift_status v status =
     (let s1 = SA_WL64A status 8 (push_bit 1 (SA_RL64A status 8) OR (drop_bit 63 (SA_RL64A status 0) AND 1))
      in SA_WL64A s1 0 (push_bit 1 (SA_RL64A s1 0) OR of_bool v))"

text \<open>The sum of the sixteen filter entries that the status bytes select, cut to 16 bits.\<close>

definition filter_predict :: "u16 list list \<Rightarrow> byte list \<Rightarrow> u16" where
  "filter_predict filt status = of_int (\<Sum>x\<leftarrow>[0..<16]. sint (filt ! x ! unat (status ! x)))"

definition sample_prob ::
  "dst_table \<Rightarrow> dst_table \<Rightarrow> bool \<Rightarrow> nat \<Rightarrow> nat \<Rightarrow> u16 \<Rightarrow> u32 \<Rightarrow> int option" where
  "sample_prob fsets probs half felem pelem predict i =
     (if felem \<ge> length (tb_length fsets) then None
      else if \<not> half \<or> i \<ge> tb_length fsets ! felem
      then if pelem < length (tb_length probs) \<and> pelem < length (tb_coeff probs)
           then let index = drop_bit 3 (of_int \<bar>sint predict\<bar>) :: u32;
                    j = unat (min index (tb_length probs ! pelem - 1)) in
                if j < length (tb_coeff probs ! pelem) then Some (tb_coeff probs ! pelem ! j) else None
           else None
      else Some 128)"

text \<open>
  The decoder and the caller's output while a frame is decoded. \<open>DstMaps\<close> are the locals: the
  two maps and the half-probability flags, an unwritten one being \<open>None\<close>.
\<close>

record dst_run =
  r_dec :: dst_decoder
  r_out :: "byte list"
  r_len :: int

record dst_maps =
  map_ch_to_felem :: dst_map
  map_ch_to_pelem :: dst_map
  half_prob :: "bool option list"

definition local_read :: "'a option list \<Rightarrow> nat \<Rightarrow> ('s, 'e, 'a) op" where
  "local_read xs i = of_opt (if i < length xs then xs ! i else None)"

definition on_dec :: "(dst_decoder, 'e, 'a) op \<Rightarrow> (dst_run, 'e, 'a) op" where
  "on_dec m = zoom r_dec (\<lambda>d r. r\<lparr>r_dec := d\<rparr>) m"

definition on_gb :: "('e, 'a) gb_op \<Rightarrow> (dst_run, 'e, 'a) op" where
  "on_gb m = on_dec (zoom d_gb (\<lambda>g d. d\<lparr>d_gb := g\<rparr>) m)"

definition on_ac :: "('e, 'a) ac_op \<Rightarrow> (dst_run, 'e, 'a) op" where
  "on_ac m = on_dec (zoom (\<lambda>d. (d_ac d, d_gb d)) (\<lambda>(a, g) d. d\<lparr>d_ac := a, d_gb := g\<rparr>) m)"

definition on_fsets :: "('e, 'a) table_op \<Rightarrow> (dst_run, 'e, 'a) op" where
  "on_fsets m = on_dec (zoom (\<lambda>d. (d_gb d, d_fsets d)) (\<lambda>(g, t) d. d\<lparr>d_gb := g, d_fsets := t\<rparr>) m)"

definition on_probs :: "('e, 'a) table_op \<Rightarrow> (dst_run, 'e, 'a) op" where
  "on_probs m = on_dec (zoom (\<lambda>d. (d_gb d, d_probs d)) (\<lambda>(g, t) d. d\<lparr>d_gb := g, d_probs := t\<rparr>) m)"

definition decode_sample ::
  "dst_maps \<Rightarrow> u32 \<Rightarrow> nat \<Rightarrow> nat \<Rightarrow> (dst_run, dst_error, unit) op" where
  "decode_sample maps channels i ch =
     seq (local_read (map_ch_to_felem maps) ch) (\<lambda>felem.
     seq get (\<lambda>r. let d = r_dec r in
     if unat felem \<ge> length (d_filter d) \<or> ch \<ge> length (d_status d) then fault else
     let status = d_status d ! ch; predict = filter_predict (d_filter d ! unat felem) status in
     seq (local_read (half_prob maps) ch) (\<lambda>half.
     seq (if \<not> half \<or> unat felem \<ge> length (tb_length (d_fsets d)) \<or>
             of_nat i \<ge> tb_length (d_fsets d) ! unat felem
          then local_read (map_ch_to_pelem maps) ch else ret 0) (\<lambda>pelem.
     seq (of_opt (sample_prob (d_fsets d) (d_probs d) half (unat felem) (unat pelem) predict (of_nat i)))
       (\<lambda>prob.
     seq (on_ac (ac_get prob)) (\<lambda>residual.
     let v = (sint predict < 0) \<noteq> residual;
         pos = unat (of_nat (i div 8) * channels + of_nat ch);
         bitv = (if v then push_bit (7 - i mod 8) 1 else 0) in
     seq (zoom r_out (\<lambda>b r. r\<lparr>r_out := b\<rparr>)
            (seq (arr_read pos) (\<lambda>x. arr_write pos (x OR bitv)))) (\<lambda>_.
     on_dec (modify (\<lambda>d. d\<lparr>d_status := (d_status d)[ch := shift_status v status]\<rparr>)))))))))"

definition decode_samples ::
  "dst_maps \<Rightarrow> u32 \<Rightarrow> u32 \<Rightarrow> (dst_run, dst_error, unit) op" where
  "decode_samples maps channels samples_per_frame =
     for_loop 0 (unat samples_per_frame) (\<lambda>i. for_loop 0 (unat channels) (decode_sample maps channels i))"

section \<open>A frame\<close>

text \<open>\<^verbatim>\<open>memcpy(dsd_output, dst_data + 1, n)\<close>\<close>

definition copy_frame :: "byte list \<Rightarrow> nat \<Rightarrow> (dst_run, 'e, unit) op" where
  "copy_frame data n = (\<lambda>r. if 1 + n \<le> length data \<and> n \<le> length (r_out r)
     then (Ok (), r\<lparr>r_out := take n (drop 1 data) @ drop n (r_out r)\<rparr>) else (Fault, r))"

definition clear_output :: "nat \<Rightarrow> (dst_run, 'e, unit) op" where
  "clear_output n = (\<lambda>r. if n \<le> length (r_out r)
     then (Ok (), r\<lparr>r_out := replicate n 0 @ drop n (r_out r)\<rparr>) else (Fault, r))"

text \<open>A map read into a local array; the array lives in the outcome.\<close>

definition local_map :: "(map_state, dst_error, unit) op \<Rightarrow> (dst_error, dst_map) table_op" where
  "local_map m = (\<lambda>(g, t). case m (g, t, replicate DST_MAX_CHANNELS None) of
       (Ok _, (g', t', mp)) \<Rightarrow> (Ok mp, (g', t'))
     | (Err e, (g', t', mp)) \<Rightarrow> (Err e, (g', t'))
     | (Fault, (g', t', mp)) \<Rightarrow> (Fault, (g', t')))"

text \<open>\<^verbatim>\<open>for (ch = 0; ch < channels; ch++) half_prob[ch] = get_bits1(gb);\<close>\<close>

definition read_half_prob :: "u32 \<Rightarrow> (dst_run, dst_error, bool option list) op" where
  "read_half_prob channels = (\<lambda>r.
     case for_loop 0 (unat channels) (\<lambda>ch. seq (on_fst get_bits1) (\<lambda>b. on_snd (arr_write ch (Some b))))
            (d_gb (r_dec r), replicate DST_MAX_CHANNELS None) of
       (Ok _, (g, hp)) \<Rightarrow> (Ok hp, r\<lparr>r_dec := (r_dec r)\<lparr>d_gb := g\<rparr>\<rparr>)
     | (Err e, (g, hp)) \<Rightarrow> (Err e, r\<lparr>r_dec := (r_dec r)\<lparr>d_gb := g\<rparr>\<rparr>)
     | (Fault, (g, hp)) \<Rightarrow> (Fault, r\<lparr>r_dec := (r_dec r)\<lparr>d_gb := g\<rparr>\<rparr>))"

definition read_maps :: "u32 \<Rightarrow> (dst_run, dst_error, dst_map \<times> dst_map) op" where
  "read_maps channels =
     seq (on_gb get_bits1) (\<lambda>same_map.
     seq (on_fsets (local_map (read_map (sint channels)))) (\<lambda>fmap.
     if same_map
     then seq (on_dec (modify (\<lambda>d. d\<lparr>d_probs := (d_probs d)\<lparr>tb_elements := tb_elements (d_fsets d)\<rparr>\<rparr>)))
            (\<lambda>_. ret (fmap, fmap))
     else seq (on_probs (local_map (read_map (sint channels)))) (\<lambda>pmap. ret (fmap, pmap))))"

text \<open>Segmentation, mapping, half probability and the two tables, whose return codes are dropped.\<close>

definition decode_header :: "u32 \<Rightarrow> (dst_run, dst_error, dst_maps) op" where
  "decode_header channels =
     seq (on_gb get_bits1) (\<lambda>b. seq (ensure b AVERROR_PATCHWELCOME) (\<lambda>_.
     seq (on_gb get_bits1) (\<lambda>b. seq (ensure b AVERROR_PATCHWELCOME) (\<lambda>_.
     seq (on_gb get_bits1) (\<lambda>b. seq (ensure b AVERROR_PATCHWELCOME) (\<lambda>_.
     seq (read_maps channels) (\<lambda>(fmap, pmap).
     seq (read_half_prob channels) (\<lambda>hp.
     seq (ignore (on_fsets (read_table fsets_code_pred_coeff 7 9 True 0))) (\<lambda>_.
     seq (ignore (on_probs (read_table probs_code_pred_coeff 6 7 False 1))) (\<lambda>_.
     seq (on_gb get_bits1) (\<lambda>b. seq (ensure (\<not> b) AVERROR_INVALIDDATA) (\<lambda>_.
     ret \<lparr>map_ch_to_felem = fmap, map_ch_to_pelem = pmap, half_prob = hp\<rparr>))))))))))))"

text \<open>The arithmetic coded data.\<close>

definition on_filter :: "dst_table \<Rightarrow> (dst_run, dst_error, unit) op" where
  "on_filter fsets = on_dec (zoom d_filter (\<lambda>f d. d\<lparr>d_filter := f\<rparr>) (build_filter fsets))"

definition decode_body ::
  "dst_maps \<Rightarrow> u32 \<Rightarrow> u32 \<Rightarrow> nat \<Rightarrow> (dst_run, dst_error, unit) op" where
  "decode_body maps channels samples_per_frame nbytes =
     seq (on_ac ac_init) (\<lambda>_.
     seq get (\<lambda>r. seq (ignore (on_filter (d_fsets (r_dec r)))) (\<lambda>_.
     seq (on_dec (modify (\<lambda>d. d\<lparr>d_status := replicate DST_MAX_CHANNELS (replicate 16 0xAA)\<rparr>))) (\<lambda>_.
     seq (clear_output nbytes) (\<lambda>_.
     seq (on_ac (ac_get (uint (prob_dst_x_bit (tb_coeff (d_fsets (r_dec r)) ! 0 ! 0))))) (\<lambda>_.
     seq (decode_samples maps channels samples_per_frame) (\<lambda>_.
     modify (\<lambda>r. r\<lparr>r_len := sint (of_nat nbytes :: u32)\<rparr>))))))))"

definition decode_coded ::
  "u32 \<Rightarrow> u32 \<Rightarrow> nat \<Rightarrow> (dst_run, dst_error, unit) op" where
  "decode_coded channels samples_per_frame nbytes =
     seq (decode_header channels) (\<lambda>maps. decode_body maps channels samples_per_frame nbytes)"

definition decode_frame :: "byte list \<Rightarrow> int \<Rightarrow> (dst_run, dst_error, unit) op" where
  "decode_frame data frame_size =
     seq get (\<lambda>r.
     let samples_per_frame = of_int (DST_SAMPLES_PER_FRAME (d_sample_rate (r_dec r))) :: u32;
         channels = of_int (d_channels (r_dec r)) :: u32;
         nb_samples = sint (samples_per_frame div 8);
         nbytes = unat (of_int nb_samples * channels) in
     seq (ensure (\<not> frame_size \<le> 1) AVERROR_INVALIDDATA) (\<lambda>_.
     case init_get_bits8 (Some data) frame_size of (good, gb) \<Rightarrow>
     seq (on_gb (modify (\<lambda>_. gb))) (\<lambda>_.
     seq (ensure good AVERROR_INVALIDDATA) (\<lambda>_.
     seq (on_gb get_bits1) (\<lambda>coded.
     if \<not> coded
     then seq (on_gb skip_bits1) (\<lambda>_.
          seq (on_gb (get_bits 6)) (\<lambda>v. seq (ensure (v = 0) AVERROR_INVALIDDATA) (\<lambda>_.
          seq (copy_frame data (min (unat (of_int (frame_size - 1) :: u32)) nbytes)) (\<lambda>_.
          modify (\<lambda>r. r\<lparr>r_len := frame_size\<rparr>)))))
     else decode_coded channels samples_per_frame nbytes)))))"

section \<open>The interface\<close>

text \<open>\<^verbatim>\<open>sa_calloc(1, sizeof(dst_decoder_t))\<close>: all fields zero.\<close>

definition zero_table :: dst_table where
  "zero_table = \<lparr>tb_elements = 0, tb_length = replicate DST_MAX_ELEMENTS 0,
     tb_coeff = replicate DST_MAX_ELEMENTS (replicate 128 0)\<rparr>"

definition zero_decoder :: dst_decoder where
  "zero_decoder = \<lparr>d_status = replicate DST_MAX_CHANNELS (replicate 16 0),
     d_filter = replicate DST_MAX_ELEMENTS (replicate 16 (replicate 256 0)),
     d_channels = 0, d_sample_rate = 0,
     d_gb = \<lparr>gb_buffer = [], gb_index = 0, gb_size_in_bits = 0, gb_size_in_bits_plus8 = 0\<rparr>,
     d_ac = \<lparr>ac_a = 0, ac_c = 0\<rparr>, d_fsets = zero_table, d_probs = zero_table\<rparr>"

text \<open>The caller's pointer variable, \<open>None\<close> when its address is NULL; the new decoder is stored in it.\<close>

definition dst_decoder_init ::
  "heap \<Rightarrow> int \<Rightarrow> int \<Rightarrow> (dst_decoder option option, dst_error, unit) op" where
  "dst_decoder_init hp channel_count rate = (\<lambda>slot. case slot of
       None \<Rightarrow> (Err DST_ERROR, None)
     | Some _ \<Rightarrow> if channel_count > int DST_MAX_CHANNELS then (Err DST_ERROR, Some None)
         else if \<not> sa_malloc hp 110848 then (Err DST_ERROR, Some None)
         else (Ok (), Some (Some (zero_decoder\<lparr>d_channels := channel_count, d_sample_rate := rate\<rparr>))))"

definition dst_decoder_close :: "(dst_decoder option, dst_error, unit) op" where
  "dst_decoder_close = (\<lambda>d. (Ok (), None))"

definition dst_decoder_decode ::
  "byte list option \<Rightarrow> int \<Rightarrow>
     (dst_decoder option \<times> byte list option \<times> int option, dst_error, unit) op" where
  "dst_decoder_decode dst_data frame_size = (\<lambda>s. case (s, dst_data) of
       ((Some d, Some out, Some n), Some data) \<Rightarrow>
         (case decode_frame data frame_size \<lparr>r_dec = d, r_out = out, r_len = n\<rparr> of
           (res, r) \<Rightarrow> (res, (Some (r_dec r), Some (r_out r), Some (r_len r))))
     | _ \<Rightarrow> (Err DST_ERROR, s))"

end
