(* ===== verification/Dst_Tables.thy ===== *)
theory Dst_Tables
  imports Dst_Decoder
begin

text \<open>
  Correctness of the parts of a DST frame that come before the samples: the channel mapping, the
  Golomb codes and the coefficient tables.
\<close>

section \<open>Reading bits\<close>

lemma wp_get_bits [wp_simps]:
  "gb_ok g \<Longrightarrow> 0 < n \<Longrightarrow> n \<le> 25 \<Longrightarrow>
     wp F (get_bits n) Q E g \<longleftrightarrow> Q (bits_at (gb_buffer g) (gb_pos g) n) (gb_skip n g)"
  by (simp add: wp_def get_bits_value)

lemma wp_get_sbits [wp_simps]:
  "gb_ok g \<Longrightarrow> 0 < n \<Longrightarrow> n \<le> 25 \<Longrightarrow> wp F (get_sbits n) Q E g \<longleftrightarrow>
     Q (signed_take_bit (n - 1) (uint (bits_at (gb_buffer g) (gb_pos g) n))) (gb_skip n g)"
  by (simp add: wp_def get_sbits_value)

lemma wp_get_bits1 [wp_simps]:
  "gb_ok g \<Longrightarrow> wp F get_bits1 Q E g \<longleftrightarrow> Q (stream_bit (gb_buffer g) (gb_pos g)) (gb_skip 1 g)"
  by (simp add: wp_def get_bits1_value)

section \<open>The mapping\<close>

definition table_ok :: "dst_table \<Rightarrow> bool" where
  "table_ok t \<longleftrightarrow> length (tb_length t) = 12 \<and> length (tb_coeff t) = 12 \<and>
     (\<forall>row \<in> set (tb_coeff t). length row = 128)"

definition same_tables :: "dst_table \<Rightarrow> dst_table \<Rightarrow> bool" where
  "same_tables t t' \<longleftrightarrow> tb_length t' = tb_length t \<and> tb_coeff t' = tb_coeff t"

text \<open>The entries below \<open>n\<close> name elements of the table.\<close>

definition map_ok :: "dst_table \<Rightarrow> nat \<Rightarrow> dst_map \<Rightarrow> bool" where
  "map_ok t n mp \<longleftrightarrow> length mp = DST_MAX_CHANNELS \<and>
     (\<forall>ch<n. \<exists>v. mp ! ch = Some v \<and> v < tb_elements t)"

lemma small_log2: "unat e < 12 \<Longrightarrow> sa_log2 e + 1 \<le> 25"
proof -
  assume e: "unat e < 12"
  show ?thesis
  proof (cases "e = 0")
    case False
    have "(2 :: nat) ^ sa_log2 e < 2 ^ 4" using sa_log2_bounds [OF False] e by simp
    then have "sa_log2 e < 4" by (simp only: power_strict_increasing_iff one_less_numeral_iff semiring_norm)
    then show ?thesis by simp
  qed (simp add: sa_log2_0)
qed

lemma map_entry_stored:
  assumes "map_ok t ch mp" "ch < 6" "v < e" "tb_elements t \<le> e"
  shows "map_ok (t\<lparr>tb_elements := e\<rparr>) (Suc ch) (mp[ch := Some v])"
  using assms by (auto simp: map_ok_def DST_MAX_CHANNELS_def nth_list_update less_Suc_eq)

lemma unat_Suc_u32: "unat (w :: u32) < 4294967295 \<Longrightarrow> unat (w + 1) = Suc (unat w)"
  by (simp add: unat_word_ariths)

definition map_inv :: "dst_table \<Rightarrow> nat \<Rightarrow> map_state \<Rightarrow> bool" where
  "map_inv t0 ch = (\<lambda>(g, t, mp). gb_ok g \<and> same_tables t0 t \<and> 0 < unat (tb_elements t) \<and>
     unat (tb_elements t) \<le> ch \<and> map_ok t ch mp)"

definition map_err :: "dst_table \<Rightarrow> dst_error \<Rightarrow> map_state \<Rightarrow> bool" where
  "map_err t0 e = (\<lambda>(g, t, mp). e = AVERROR_INVALIDDATA \<and> gb_ok g \<and> same_tables t0 t)"

lemma read_map_entry_inv:
  assumes "map_inv t0 ch s" "ch < 6"
  shows "wp F (read_map_entry ch) (\<lambda>_. map_inv t0 (Suc ch)) (map_err t0) s"
proof -
  obtain g t mp where s: "s = (g, t, mp)" by (cases s) auto
  have I: "gb_ok g" "same_tables t0 t" "0 < unat (tb_elements t)" "unat (tb_elements t) \<le> ch"
    "map_ok t ch mp" "length mp = 6"
    using assms(1) by (auto simp: s map_inv_def map_ok_def DST_MAX_CHANNELS_def)
  have bits: "0 < sa_log2 (tb_elements t) + 1" "sa_log2 (tb_elements t) + 1 \<le> 25"
    using small_log2 I(4) assms(2) by auto
  have suc: "unat (tb_elements t + 1) = Suc (unat (tb_elements t))"
    using I(4) assms(2) by (intro unat_Suc_u32) simp
  let ?v = "bits_at (gb_buffer g) (gb_pos g) (sa_log2 (tb_elements t) + 1)"
  have eq: "map_ok (t\<lparr>tb_elements := tb_elements t + 1\<rparr>) (Suc ch) (mp[ch := Some (tb_elements t)])"
    using I(5) assms(2) by (rule map_entry_stored) (auto simp: word_less_nat_alt word_le_nat_alt suc)
  have lt: "?v < tb_elements t \<Longrightarrow> map_ok t (Suc ch) (mp[ch := Some ?v])"
    using map_entry_stored [OF I(5) assms(2), of ?v "tb_elements t"] by simp
  have lim: "tb_elements t + 1 < 12"
    using I(4) assms(2) by (simp add: word_less_nat_alt suc)
  show ?thesis
    using I bits lim eq lt assms(2) suc
    by (auto simp: s read_map_entry_def wp_simps map_inv_def map_err_def same_tables_def
        DST_MAX_ELEMENTS_def DST_MAX_CHANNELS_def not_less)
qed

lemma read_map_inv:
  assumes "gb_ok g" "channels \<le> 6" "length mp = 6"
  shows "wp F (read_map channels) (\<lambda>_ (g', t', mp'). gb_ok g' \<and> same_tables t t' \<and>
      0 < unat (tb_elements t') \<and> unat (tb_elements t') \<le> 6 \<and> map_ok t' (nat channels) mp')
    (map_err t) (g, t, mp)"
proof -
  let ?t = "t\<lparr>tb_elements := 1\<rparr>"
  have "map_inv t 1 (gb_skip 1 g, ?t, mp[0 := Some 0])"
    using assms by (simp add: map_inv_def same_tables_def map_ok_def DST_MAX_CHANNELS_def)
  then have loop: "wp F (for_loop 1 (nat channels) read_map_entry) (\<lambda>_. map_inv t (max 1 (nat channels)))
      (map_err t) (gb_skip 1 g, ?t, mp[0 := Some 0])"
  proof (cases "1 \<le> nat channels")
    case True
    show ?thesis
      using \<open>map_inv t 1 _\<close> True
      by (rule wp_for_loop [where I = "map_inv t"])
        (use assms(2) True in \<open>auto simp: max_def intro!: read_map_entry_inv\<close>)
  next
    case False
    then show ?thesis using \<open>map_inv t 1 _\<close> by (simp add: wp_def)
  qed
  have "wp F (for_loop 1 (nat channels) read_map_entry) (\<lambda>_ (g', t', mp'). gb_ok g' \<and> same_tables t t' \<and>
      0 < unat (tb_elements t') \<and> unat (tb_elements t') \<le> 6 \<and> map_ok t' (nat channels) mp')
      (map_err t) (gb_skip 1 g, ?t, mp[0 := Some 0])"
    by (rule wp_mono [OF loop]) (use assms(2) in \<open>auto simp: map_inv_def map_ok_def\<close>)
  then show ?thesis
    using assms
    by (auto simp: read_map_def wp_simps same_tables_def map_ok_def DST_MAX_CHANNELS_def)
qed

section \<open>Golomb codes\<close>

text \<open>A Golomb-Rice code: \<open>z\<close> zero bits, a one, and the low \<open>k\<close> bits of the value.\<close>

definition golomb_code :: "byte list \<Rightarrow> nat \<Rightarrow> nat \<Rightarrow> bool" where
  "golomb_code b j z \<longleftrightarrow> (\<forall>i<z. \<not> stream_bit b (j + i)) \<and> stream_bit b (j + z)"

lemma bit_u32_le: "bit (w :: u32) n \<Longrightarrow> 2 ^ n \<le> unat w"
proof (rule ccontr)
  assume b: "bit w n" and "\<not> 2 ^ n \<le> unat w"
  then have "unat w div 2 ^ n = 0" by simp
  moreover have "bit (unat w) n" using b by (simp add: bit_unsigned_iff)
  ultimately show False by (simp add: bit_iff_odd)
qed

lemma golomb_cache_log:
  assumes "\<And>k. k < 25 \<Longrightarrow> bit w (31 - k) = stream_bit b (j + k)" "golomb_code b j z" "z < 25"
  shows "sa_log2 w = 31 - z"
proof (rule sa_log2_unique)
  have "bit w (31 - z)" using assms by (simp add: golomb_code_def)
  then show "2 ^ (31 - z) \<le> unat w" by (rule bit_u32_le)
  have "take_bit (32 - z) w = w"
  proof (rule bit_word_eqI)
    fix n assume "n < LENGTH(32)"
    then have n: "n < 32" by simp
    show "bit (take_bit (32 - z) w) n = bit w n"
    proof (cases "n < 32 - z")
      case False
      then have m: "31 - n < z" using n by simp
      have "31 - (31 - n) = n" using n by simp
      moreover have "\<not> stream_bit b (j + (31 - n))" using m assms(2) by (auto simp: golomb_code_def)
      ultimately have "\<not> bit w n" using assms(1) [of "31 - n"] m assms(3) by simp
      then show ?thesis by (simp add: bit_simps)
    qed (simp add: bit_simps)
  qed
  then have "unat w < 2 ^ (32 - z)" by (simp only: take_bit_u32)
  also have "32 - z = Suc (31 - z)" using assms(3) by simp
  finally show "unat w < 2 * 2 ^ (31 - z)" by simp
qed

lemma horner_zeros: "\<forall>i<z. \<not> P (j + i) \<Longrightarrow> horner_sum of_bool 2 (rev (map P [j..<j + z])) = (0 :: u32)"
proof -
  assume "\<forall>i<z. \<not> P (j + i)"
  then have "map P [j..<j + z] = replicate z False"
    by (intro nth_equalityI) auto
  moreover have "horner_sum of_bool 2 (replicate z False) = (0 :: u32)" by (induction z) auto
  ultimately show ?thesis by simp
qed

lemma golomb_low_bits:
  assumes "golomb_code b j z"
  shows "bits_at b j (z + k + 1) = 2 ^ k + bits_at b (j + z + 1) k"
proof -
  have "[j..<j + z + (k + 1)] = [j..<j + z] @ [j + z..<j + z + (k + 1)]"
    by (rule upt_add_eq_append) simp
  moreover have "[j + z..<j + z + (k + 1)] = (j + z) # [j + z + 1..<j + z + (k + 1)]"
    by (simp only: upt_conv_Cons) simp
  ultimately have "[j..<j + (z + k + 1)] = [j..<j + z] @ [j + z] @ [j + z + 1..<j + z + 1 + k]"
    by (simp add: ac_simps del: upt_Suc)
  then show ?thesis
    using assms horner_zeros [of z "stream_bit b" j]
    by (simp add: bits_at_def golomb_code_def horner_sum_append del: upt_Suc)
qed

lemma golomb_small:
  assumes "z + k + 1 \<le> 25"
  shows "z * 2 ^ k + unat (bits_at b j k) < 2147483648"
proof -
  have "z * 2 ^ k \<le> 25 * 2 ^ 25"
    using assms by (intro mult_le_mono power_increasing) auto
  moreover have "unat (bits_at b j k) < 2 ^ k" using assms by (intro unat_bits_at) simp
  moreover have "2 ^ k \<le> (2 :: nat) ^ 25" using assms by (intro power_increasing) auto
  ultimately show ?thesis by simp
qed

lemma sint_small_u32: "n < 2147483648 \<Longrightarrow> sint (of_nat n :: u32) = int n"
proof -
  assume n: "n < 2147483648"
  then have u: "uint (of_nat n :: u32) = int n" by (simp add: uint_word_of_int_eq unsigned_of_nat take_bit_nat_eq_self)
  moreover have "signed_take_bit 31 (int n) = int n"
    by (rule signed_take_bit_int_eq_self) (use n in auto)
  ultimately show ?thesis by (simp add: sint_uint)
qed

lemma get_ur_golomb_value:
  assumes g: "gb_ok g" and code: "golomb_code (gb_buffer g) (gb_pos g) z" and z: "z + k + 1 \<le> 25"
    and limit: "32 \<le> limit" "limit \<le> 2147483647"
  shows "(get_ur_golomb k limit esc_len g :: ('e, int) outcome \<times> get_bit_context) =
    (Ok (int (z * 2 ^ k + unat (bits_at (gb_buffer g) (gb_pos g + z + 1) k))), gb_skip (z + k + 1) g)"
proof -
  let ?b = "gb_buffer g" and ?j = "gb_pos g"
  let ?low = "bits_at ?b (?j + z + 1) k"
  obtain w where w: "UPDATE_CACHE g = ((Ok w, g) :: ('e, u32) outcome \<times> get_bit_context)"
      "\<And>k. k < 25 \<Longrightarrow> bit w (31 - k) = stream_bit ?b (?j + k)"
    using UPDATE_CACHE_bits [OF g] by blast
  have log: "sa_log2 w = 31 - z"
    using w(2) code by (rule golomb_cache_log) (use z in auto)
  have "NEG_USR32 w (z + k + 1) = Some (bits_at ?b ?j (z + k + 1))"
    by (rule NEG_USR32_bits) (use z w(2) in auto)
  then have top: "drop_bit (31 - z - k) w = 2 ^ k + ?low"
    using z golomb_low_bits [OF code] by (simp add: NEG_USR32_def split: if_splits)
  have "(30 - of_nat (31 - z) :: u32) = of_nat z - 1"
    using z by (simp add: of_nat_diff)
  then have "drop_bit (31 - z - k) w + push_bit k (30 - of_nat (31 - z)) =
      2 ^ k + ?low + (of_nat z - 1) * 2 ^ k"
    by (simp only: top push_bit_eq_mult)
  also have "\<dots> = of_nat (z * 2 ^ k + unat ?low)"
    by (simp add: algebra_simps)
  finally have buf: "drop_bit (31 - z - k) w + push_bit k (30 - of_nat (31 - z)) =
      of_nat (z * 2 ^ k + unat ?low)" .
  have small: "z * 2 ^ k + unat ?low < 2147483648" using z by (rule golomb_small)
  have skip: "32 + k - (31 - z) = z + k + 1" using z by simp
  have sk: "SKIP_COUNTER (of_nat (z + k + 1)) g =
      ((Ok (), gb_skip (z + k + 1) g) :: ('e, unit) outcome \<times> get_bit_context)"
    using z by (intro SKIP_COUNTER_skip [OF g]) simp
  have "c_int (31 - limit) g = ((Ok (31 - limit), g) :: ('e, int) outcome \<times> get_bit_context)"
    "int (31 - z) > 31 - limit" "\<not> 31 - z < k"
    using z limit by (auto simp: c_int_def)
  then show ?thesis
    unfolding get_ur_golomb_def seq_def w(1) prod.case outcome.case Let_def log skip buf
      sint_small_u32 [OF small]
    by (simp only: prod.case outcome.case if_True if_False sk ret_apply)
qed

text \<open>The signed code appends a sign bit to a value other than zero.\<close>

lemma get_sr_golomb_dst_value:
  assumes g: "gb_ok g" and code: "golomb_code (gb_buffer g) (gb_pos g) z" and z: "z + k + 1 \<le> 25"
    and room: "gb_pos g + 32 \<le> gb_end g"
  defines "v \<equiv> int (z * 2 ^ k + unat (bits_at (gb_buffer g) (gb_pos g + z + 1) k))"
  shows "(get_sr_golomb_dst k g :: ('e, int) outcome \<times> get_bit_context) =
    (if v = 0 then (Ok 0, gb_skip (z + k + 1) g)
     else (Ok (if stream_bit (gb_buffer g) (gb_pos g + z + k + 1) then - v else v),
       gb_skip (z + k + 2) g))"
proof -
  let ?g = "gb_skip (z + k + 1) g"
  have left: "get_bits_left g = int (gb_end g) - int (gb_pos g)" by (rule get_bits_left_ok [OF g])
  have ur: "(get_ur_golomb k (get_bits_left g) 0 g :: ('e, int) outcome \<times> get_bit_context) = (Ok v, ?g)"
    unfolding v_def
    by (rule get_ur_golomb_value [OF g code z]) (use left room gb_end_less [OF g] in auto)
  have v: "0 \<le> v" "v \<le> 2147483647"
    using golomb_small [OF z, of "gb_buffer g" "gb_pos g + z + 1"] by (simp_all only: v_def)
  have pos: "gb_pos ?g = gb_pos g + z + k + 1"
    using gb_pos_skip [OF g, of "z + k + 1"] room z by (simp add: min_def)
  have skip: "gb_skip 1 ?g = gb_skip (z + k + 2) g"
    using gb_pos_skip [OF g, of "z + k + 1"] room z by (simp add: gb_skip_def gb_pos_def gb_end_def min_def)
  show ?thesis
    using v ur pos skip
    by (simp add: get_sr_golomb_dst_def seq_def c_int_def get_bits1_value gb_ok_skip [OF g])
qed

section \<open>Coefficient tables\<close>

lemma wp_UPDATE_CACHE:
  fixes E :: "'e \<Rightarrow> get_bit_context \<Rightarrow> bool"
  assumes "gb_ok g" "\<And>w. Q w g"
  shows "wp F UPDATE_CACHE Q E g"
proof -
  obtain w where "UPDATE_CACHE g = ((Ok w, g) :: ('e, u32) outcome \<times> get_bit_context)"
    using UPDATE_CACHE_bits [OF assms(1)] by blast
  then show ?thesis using assms(2) by (simp add: wp_def)
qed

lemma wp_SKIP_COUNTER:
  "gb_ok g \<Longrightarrow> n < 2147483648 \<Longrightarrow> Q () (gb_skip n g) \<Longrightarrow> wp F (SKIP_COUNTER (of_nat n)) Q E g"
  by (simp add: wp_def SKIP_COUNTER_skip)

text \<open>Whatever the stream holds, a Golomb code that is decoded moves the reader forward.\<close>

lemma wlp_get_ur_golomb:
  assumes "gb_ok g" "k < 1073741824" "\<And>v n. Q v (gb_skip n g)"
  shows "wp True (get_ur_golomb k limit 0) Q E g"
  unfolding get_ur_golomb_def wp_seq
proof (rule wp_UPDATE_CACHE [OF assms(1)])
  fix w :: u32
  have skip: "wp True (SKIP_COUNTER m) (\<lambda>_. wp True UPDATE_CACHE
      (\<lambda>c. wp True (of_opt (NEG_USR32 c 0)) (Q' c) E) E) E g" for m and Q' :: "u32 \<Rightarrow> u32 \<Rightarrow> get_bit_context \<Rightarrow> bool"
    by (simp add: wp_def SKIP_COUNTER_def UPDATE_CACHE_def of_opt_def NEG_USR32_def split: option.splits)
  have "wp True (SKIP_COUNTER (of_nat (32 + k - sa_log2 w))) (\<lambda>_. Q v) E g" for v
    by (rule wp_SKIP_COUNTER [OF assms(1)]) (use assms in auto)
  then show "wp True (let log = sa_log2 w in seq (c_int (31 - limit)) (\<lambda>bound.
     if int log > bound
     then if log < k then fault
          else let buf' = drop_bit (log - k) w + push_bit k (30 - of_nat log) in
               seq (SKIP_COUNTER (of_nat (32 + k - log))) (\<lambda>_. ret (sint buf'))
     else seq (SKIP_COUNTER (of_int limit)) (\<lambda>_.
          seq UPDATE_CACHE (\<lambda>cache. seq (of_opt (NEG_USR32 cache 0)) (\<lambda>buf'.
          seq (SKIP_COUNTER (of_nat 0)) (\<lambda>_. ret (sint (buf' + of_int limit - 1)))))))) Q E g"
    unfolding Let_def wp_seq wp_c_int wp_if wp_fault wp_ret by (simp only: skip if_True if_cancel simp_thms split: if_split)
qed

lemma gb_skip_skip: "gb_ok g \<Longrightarrow> gb_skip m (gb_skip n g) = gb_skip (n + m) g"
  using gb_pos_skip [of g n] by (auto simp: gb_skip_def gb_pos_def gb_end_def min_def)

lemma wlp_get_sr_golomb_dst:
  assumes "gb_ok g" "k < 1073741824" "\<And>v n. Q v (gb_skip n g)"
  shows "wp True (get_sr_golomb_dst k) Q E g"
  unfolding get_sr_golomb_dst_def wp_seq wp_get
  by (rule wlp_get_ur_golomb) (use assms in \<open>auto simp: wp_simps gb_skip_skip\<close>)

text \<open>What a stored coefficient satisfies.\<close>

definition coeff_in :: "bool \<Rightarrow> nat \<Rightarrow> int \<Rightarrow> int \<Rightarrow> bool" where
  "coeff_in is_signed coeff_bits offset c \<longleftrightarrow> - 2147483648 \<le> c \<and> c \<le> 2147483647 \<and>
     (is_signed \<or> offset \<le> c \<and> c < offset + 2 ^ coeff_bits)"

definition row_ok :: "bool \<Rightarrow> nat \<Rightarrow> int \<Rightarrow> nat \<Rightarrow> int list \<Rightarrow> bool" where
  "row_ok is_signed coeff_bits offset n row \<longleftrightarrow> length row = 128 \<and>
     (\<forall>j<n. coeff_in is_signed coeff_bits offset (row ! j))"

lemma sint_u32_range: "- 2147483648 \<le> sint (w :: u32) \<and> sint w \<le> 2147483647"
  using sint_ge [of w] sint_lt [of w] by simp

lemma row_ok_store:
  "row_ok sg bits off j row \<Longrightarrow> j < 128 \<Longrightarrow> coeff_in sg bits off c \<Longrightarrow> row_ok sg bits off (Suc j) (row[j := c])"
  by (auto simp: row_ok_def nth_list_update less_Suc_eq)

lemma uncoded_value_in:
  assumes "n \<le> 25" "0 \<le> off" "off \<le> 1"
  shows "coeff_in False n off (sint (bits_at b j n + of_int off))"
proof -
  have u: "unat (bits_at b j n) < 2 ^ n" using assms by (intro unat_bits_at) simp
  also have "2 ^ n \<le> (2 :: nat) ^ 25" using assms by (intro power_increasing) auto
  finally have small: "unat (bits_at b j n) + nat off < 2147483648" using assms by simp
  have "bits_at b j n + of_int off = of_nat (unat (bits_at b j n) + nat off)"
    using assms by simp
  then have "sint (bits_at b j n + of_int off) = int (unat (bits_at b j n) + nat off)"
    using sint_small_u32 [OF small] by simp
  moreover have "int (unat (bits_at b j n)) < 2 ^ n"
    using u by (metis of_nat_less_iff of_nat_numeral of_nat_power)
  ultimately show ?thesis
    using assms sint_u32_range [of "bits_at b j n + of_int off"] by (simp add: coeff_in_def)
qed

lemma read_uncoded_coeff_ok:
  assumes "gb_ok g" "length row = 128" "n \<le> 128" "0 < bits" "bits \<le> 25" "0 \<le> off" "off \<le> 1"
  shows "wp F (read_uncoded_coeff n bits sg off) (\<lambda>_ (g', row'). gb_ok g' \<and> row_ok sg bits off n row') E (g, row)"
  unfolding read_uncoded_coeff_def
proof (rule wp_for_loop [where I = "\<lambda>i (g, row). gb_ok g \<and> row_ok sg bits off i row"])
  fix j s assume j: "j < n" and s: "case s of (g, row) \<Rightarrow> gb_ok g \<and> row_ok sg bits off j row"
  obtain g row where g: "s = (g, row)" "gb_ok g" "row_ok sg bits off j row" using s by auto
  have len: "length row = 128" "j < 128" using g(3) j assms(3) by (auto simp: row_ok_def)
  have u: "sg \<or> coeff_in sg bits off (sint (bits_at (gb_buffer g) (gb_pos g) bits + of_int off))"
    using uncoded_value_in assms by (cases sg) auto
  have c: "coeff_in True bits off (sint (w :: u32))" for w
    using sint_u32_range [of w] by (simp add: coeff_in_def)
  show "wp F (seq (on_fst (if sg then seq (get_sbits bits) (\<lambda>v. ret (of_int v)) else get_bits bits))
      (\<lambda>v. on_snd (arr_write j (sint (v + of_int off :: u32))))) (\<lambda>_ (g, row). gb_ok g \<and> row_ok sg bits off (Suc j) row) E s"
  proof (cases sg)
    case True
    have "row_ok sg bits off (Suc j) (row[j := sint (w :: u32)])" for w
      using c [of w] True by (intro row_ok_store [OF g(3) len(2)]) simp
    then show ?thesis
      by (simp only: g(1) True if_True simp_thms wp_seq wp_on_fst wp_on_snd wp_arr_write wp_ret
          wp_get_sbits [OF g(2) assms(4,5)] len prod.case gb_ok_skip [OF g(2)])
  next
    case False
    then have "row_ok sg bits off (Suc j) (row[j := sint (bits_at (gb_buffer g) (gb_pos g) bits + of_int off)])"
      using u by (intro row_ok_store [OF g(3) len(2)]) simp
    then show ?thesis
      by (simp only: g(1) False if_False if_True simp_thms wp_seq wp_on_fst wp_on_snd wp_arr_write
          wp_get_bits [OF g(2) assms(4,5)] len prod.case gb_ok_skip [OF g(2)])
  qed
qed (use assms in \<open>auto simp: row_ok_def\<close>)

lemma read_coded_coeff_ok:
  assumes "gb_ok g" "row_ok sg bits off j row" "j < 128" "k < 1073741824"
  shows "wp True (read_coded_coeff pred method k bits sg off j)
    (\<lambda>_ (g', row'). gb_ok g' \<and> row_ok sg bits off (Suc j) row')
    (\<lambda>e (g', row'). e = AVERROR_INVALIDDATA \<and> gb_ok g' \<and> length row' = 128) (g, row)"
proof (cases "code_prediction pred row j (method + 1)")
  case None
  then show ?thesis by (simp add: read_coded_coeff_def wp_simps) (simp add: wp_def of_opt_def)
next
  case (Some x)
  have len: "length row = 128" using assms(2) by (simp add: row_ok_def)
  have opt: "wp True (of_opt (Some x)) Q E s = Q x s" for Q E and s :: "get_bit_context \<times> int list"
    by (simp add: wp_def of_opt_def)
  let ?Q = "\<lambda>_ (g', row'). gb_ok g' \<and> row_ok sg bits off (Suc j) row'"
  let ?E = "\<lambda>e (g', row'). e = AVERROR_INVALIDDATA \<and> gb_ok g' \<and> length row' = 128"
  have fin: "wp True (seq (ensure (sg \<or> \<not> (c < off \<or> c \<ge> off + 2 ^ bits)) AVERROR_INVALIDDATA)
      (\<lambda>_. on_snd (arr_write j c))) ?Q ?E (gb_skip n g, row)"
    if "- 2147483648 \<le> c \<and> c \<le> 2147483647" for c n
    using assms(1,3) len that row_ok_store [OF assms(2,3), of c]
    by (cases sg) (simp_all add: wp_seq wp_ensure wp_on_snd wp_arr_write coeff_in_def)
  let ?M = "\<lambda>v. if sint x \<ge> 0 then seq (c_int (sint x + 4)) (\<lambda>y. c_int (v - y div 8))
      else seq (c_int (- sint x)) (\<lambda>y. seq (c_int (y + 3)) (\<lambda>z. c_int (v + z div 8)))"
  have correction: "wp True (?M v) (\<lambda>c s'. s' = s \<and> - 2147483648 \<le> c \<and> c \<le> 2147483647)
      (\<lambda>_ _. False) s" for v and s :: "get_bit_context \<times> int list"
    by (simp add: wp_if wp_seq wp_c_int)
  have rest: "wp True (seq (?M v) (\<lambda>c. seq (ensure (sg \<or> \<not> (c < off \<or> c \<ge> off + 2 ^ bits)) AVERROR_INVALIDDATA)
      (\<lambda>_. on_snd (arr_write j c)))) ?Q ?E (gb_skip n g, row)" for v n
    unfolding wp_seq [of _ "?M v"] by (rule wp_mono [OF correction]) (use fin in auto)
  show ?thesis
    unfolding read_coded_coeff_def wp_seq wp_on_snd wp_get Some opt Let_def
    unfolding wp_on_fst
    by (rule wlp_get_sr_golomb_dst [OF assms(1,4)]) (rule rest [unfolded wp_seq wp_on_snd])
qed

text \<open>The first \<open>n\<close> elements are filled: their lengths and coefficients are in range.\<close>

definition filled :: "nat \<Rightarrow> nat \<Rightarrow> bool \<Rightarrow> int \<Rightarrow> nat \<Rightarrow> dst_table \<Rightarrow> bool" where
  "filled length_bits coeff_bits is_signed offset n t \<longleftrightarrow>
     (\<forall>i<n. 0 < unat (tb_length t ! i) \<and> unat (tb_length t ! i) \<le> 2 ^ length_bits \<and>
        row_ok is_signed coeff_bits offset (unat (tb_length t ! i)) (tb_coeff t ! i))"

lemma wp_on_length: "wp F (on_length m) Q E (g, t) \<longleftrightarrow>
    wp F m (\<lambda>a l. Q a (g, t\<lparr>tb_length := l\<rparr>)) (\<lambda>e l. E e (g, t\<lparr>tb_length := l\<rparr>)) (tb_length t)"
  by (simp add: on_length_def wp_on_snd wp_zoom)

lemma wp_on_coeff_row: "wp F (on_coeff_row i m) Q E (g, t) \<longleftrightarrow> (if i < length (tb_coeff t)
    then wp F m (\<lambda>a (g, row). Q a (g, t\<lparr>tb_coeff := (tb_coeff t)[i := row]\<rparr>))
           (\<lambda>e (g, row). E e (g, t\<lparr>tb_coeff := (tb_coeff t)[i := row]\<rparr>)) (g, tb_coeff t ! i) else F)"
  by (simp add: on_coeff_row_def wp_zoom wp_on_row case_prod_beta' )

lemma table_ok_row: "table_ok t \<Longrightarrow> i < 12 \<Longrightarrow> length (tb_coeff t ! i) = 128"
  by (simp add: table_ok_def)

lemma table_ok_set_row: "table_ok t \<Longrightarrow> length row = 128 \<Longrightarrow> table_ok (t\<lparr>tb_coeff := (tb_coeff t)[i := row]\<rparr>)"
  by (auto simp: table_ok_def dest: set_update_subset_insert [THEN subsetD])

lemma table_ok_set_length: "table_ok t \<Longrightarrow> table_ok (t\<lparr>tb_length := (tb_length t)[i := v]\<rparr>)"
  by (simp add: table_ok_def)

definition element_inv :: "nat \<Rightarrow> nat \<Rightarrow> bool \<Rightarrow> int \<Rightarrow> u32 \<Rightarrow> nat \<Rightarrow> get_bit_context \<times> dst_table \<Rightarrow> bool" where
  "element_inv lb cb sg off els n = (\<lambda>(g, t). gb_ok g \<and> table_ok t \<and> tb_elements t = els \<and> filled lb cb sg off n t)"

definition element_err :: "u32 \<Rightarrow> dst_error \<Rightarrow> get_bit_context \<times> dst_table \<Rightarrow> bool" where
  "element_err els e = (\<lambda>(g, t). e = AVERROR_INVALIDDATA \<and> gb_ok g \<and> table_ok t \<and> tb_elements t = els)"

text \<open>Element \<open>i\<close> after its length and its row have been stored.\<close>

lemma filled_store:
  assumes "filled lb cb sg off i t" "table_ok t" "i < 12" "0 < unat len" "unat len \<le> 2 ^ lb"
    "row_ok sg cb off (unat len) row"
  shows "filled lb cb sg off (Suc i) (t\<lparr>tb_length := (tb_length t)[i := len],
    tb_coeff := (tb_coeff t)[i := row]\<rparr>)"
  using assms by (auto simp: filled_def table_ok_def nth_list_update less_Suc_eq)

lemma read_table_element_inv:
  assumes inv: "element_inv lb cb sg off els i s" and i: "i < 12"
    and p: "0 < lb" "lb \<le> 7" "0 < cb" "cb \<le> 25" "0 \<le> off" "off \<le> 1"
  shows "wp True (read_table_element pred lb cb sg off i)
    (\<lambda>_. element_inv lb cb sg off els (Suc i)) (element_err els) s"
proof -
  obtain g t where s: "s = (g, t)" by fastforce
  have g: "gb_ok g" and t: "table_ok t" "tb_elements t = els" "filled lb cb sg off i t"
    using inv by (auto simp: s element_inv_def)
  let ?len = "bits_at (gb_buffer g) (gb_pos g) lb + 1"
  let ?t = "t\<lparr>tb_length := (tb_length t)[i := ?len]\<rparr>"
  have v: "unat (bits_at (gb_buffer g) (gb_pos g) lb) < 2 ^ lb" using p by (intro unat_bits_at) simp
  have lb: "(2 :: nat) ^ lb \<le> 2 ^ 7" using p by (intro power_increasing) auto
  have len: "unat ?len = Suc (unat (bits_at (gb_buffer g) (gb_pos g) lb))"
    using v lb by (intro unat_Suc_u32) simp
  have len128: "unat ?len \<le> 128" "0 < unat ?len" "unat ?len \<le> 2 ^ lb" using v lb len by auto
  have rows: "length (tb_coeff t) = 12" "length (tb_length t) = 12" "length (tb_coeff t ! i) = 128"
    using t(1) i by (auto simp: table_ok_def)
  let ?Q = "\<lambda>_ (g', row). element_inv lb cb sg off els (Suc i) (g', ?t\<lparr>tb_coeff := (tb_coeff ?t)[i := row]\<rparr>)"
  let ?E = "\<lambda>e (g', row). element_err els e (g', ?t\<lparr>tb_coeff := (tb_coeff ?t)[i := row]\<rparr>)"
  have good: "?Q u (g', row)" if "gb_ok g'" "row_ok sg cb off (unat ?len) row" for u :: unit and g' row
    using that t filled_store [OF t(3,1) i len128(2,3) that(2)]
      table_ok_set_row [OF table_ok_set_length [OF t(1)], of row i ?len]
    by (simp add: element_inv_def row_ok_def)
  have bad: "?E AVERROR_INVALIDDATA (g', row)" if "gb_ok g'" "length row = 128" for g' row
    using that t table_ok_set_row [OF table_ok_set_length [OF t(1)], of row i ?len]
    by (simp add: element_err_def)
  have bad': "element_err els AVERROR_INVALIDDATA (g', ?t)" if "gb_ok g'" for g'
    using that t table_ok_set_length [OF t(1), of i ?len] by (simp add: element_err_def)
  have uncoded: "wp True (read_uncoded_coeff (unat ?len) cb sg off) ?Q ?E (g', tb_coeff t ! i)"
    if "gb_ok g'" for g'
    by (rule wp_mono [OF read_uncoded_coeff_ok [OF that rows(3) len128(1) p(3-6), of _ _ "\<lambda>_ _. False"]])
      (use good in auto)
  have coded: "wp True (for_loop (Suc m) (unat ?len) (read_coded_coeff c m k cb sg off)) ?Q ?E (g', row)"
    if "gb_ok g'" "row_ok sg cb off (Suc m) row" "k < 8" for m k c g' row
  proof (cases "Suc m \<le> unat ?len")
    case True
    show ?thesis
    proof (rule wp_for_loop [where I = "\<lambda>j (g, row). gb_ok g \<and> row_ok sg cb off j row", OF _ True])
      fix j s' assume "j < unat ?len" "case s' of (g, row) \<Rightarrow> gb_ok g \<and> row_ok sg cb off j row"
      moreover obtain g'' row'' where "s' = (g'', row'')" by fastforce
      ultimately show "wp True (read_coded_coeff c m k cb sg off j)
          (\<lambda>_ (g, row). gb_ok g \<and> row_ok sg cb off (Suc j) row) ?E s'"
        using read_coded_coeff_ok [of g'' sg cb off j row'' k c m] len128(1) that(3) bad
        by (auto elim!: wp_mono)
    qed (use that good in auto)
  next
    case False
    then have "row_ok sg cb off (unat ?len) row" using that(2) by (auto simp: row_ok_def)
    then show ?thesis using False good [OF that(1)] by (simp add: wp_ret)
  qed
  let ?k = "\<lambda>g. unat (bits_at (gb_buffer g) (gb_pos g) 3)"
  have k: "?k g < 8" for g using unat_bits_at [of 3 "gb_buffer g" "gb_pos g"] by simp
  have first: "wp True (read_uncoded_coeff (Suc m) cb sg off)
      (\<lambda>_ (g, row). gb_ok g \<and> length row = 128 \<and>
        wp True (for_loop (Suc m) (unat ?len) (read_coded_coeff c m (?k g) cb sg off)) ?Q ?E (gb_skip 3 g, row))
      ?E (g', tb_coeff t ! i)" if "gb_ok g'" "m < 3" for g' m c
    by (rule wp_mono [OF read_uncoded_coeff_ok [OF that(1) rows(3) _ p(3-6), of "Suc m" _ _ "\<lambda>_ _. False"]])
      (use coded k that in \<open>auto simp: row_ok_def\<close>)
  let ?g = "gb_skip 1 (gb_skip lb g)"
  have g': "gb_ok ?g" "gb_ok (gb_skip 2 ?g)" using g by simp_all
  let ?m = "unat (bits_at (gb_buffer ?g) (gb_pos ?g) 2)"
  have m: "?m \<noteq> 3 \<Longrightarrow> ?m < 3" using unat_bits_at [of 2 "gb_buffer ?g" "gb_pos ?g"] by simp
  have step: "wp True (on_coeff_row i (read_uncoded_coeff (?m + 1) cb sg off)) (\<lambda>_. wp True (seq (on_fst (get_bits 3))
      (\<lambda>lsb. on_coeff_row i (for_loop (?m + 1) (unat ?len)
         (read_coded_coeff (pred ! ?m) ?m (unat lsb) cb sg off)))) (\<lambda>_. element_inv lb cb sg off els (Suc i)) (element_err els))
      (element_err els) (gb_skip 2 ?g, ?t)" if "?m \<noteq> 3"
  proof -
    have "wp True (read_uncoded_coeff (Suc ?m) cb sg off) (\<lambda>_ (g, row). wp True (seq (on_fst (get_bits 3))
      (\<lambda>lsb. on_coeff_row i (for_loop (?m + 1) (unat ?len)
         (read_coded_coeff (pred ! ?m) ?m (unat lsb) cb sg off)))) (\<lambda>_. element_inv lb cb sg off els (Suc i))
      (element_err els) (g, ?t\<lparr>tb_coeff := (tb_coeff ?t)[i := row]\<rparr>)) ?E (gb_skip 2 ?g, tb_coeff t ! i)"
      by (rule wp_mono [OF first [OF g'(2) m [OF that], of "pred ! ?m"]])
        (use i rows in \<open>auto simp: wp_seq wp_on_fst wp_get_bits wp_on_coeff_row\<close>)
    then show ?thesis using i rows by (simp add: wp_on_coeff_row)
  qed
  show ?thesis
    using p i rows g g' step uncoded bad'
    by (simp add: s read_table_element_def Let_def wp_seq wp_on_fst wp_get_bits wp_on_length
        wp_arr_write wp_get_bits1 wp_if wp_ensure wp_on_coeff_row [of _ _ "read_uncoded_coeff (unat (bits_at (gb_buffer g) (gb_pos g) lb + 1)) cb sg off"])
qed

lemma read_table_ok:
  assumes "gb_ok g" "table_ok t" "unat (tb_elements t) \<le> 12"
    and p: "0 < lb" "lb \<le> 7" "0 < cb" "cb \<le> 25" "0 \<le> off" "off \<le> 1"
  shows "wp True (read_table pred lb cb sg off)
    (\<lambda>_ (g', t'). gb_ok g' \<and> table_ok t' \<and> tb_elements t' = tb_elements t \<and>
       filled lb cb sg off (unat (tb_elements t)) t')
    (element_err (tb_elements t)) (g, t)"
  unfolding read_table_def wp_seq wp_get prod.case
  by (rule wp_for_loop [where I = "element_inv lb cb sg off (tb_elements t)"])
    (use assms read_table_element_inv [OF _ _ p] in \<open>auto simp: element_inv_def filled_def\<close>)

end
