(* ===== verification/Dst_Coder.thy ===== *)
theory Dst_Coder
  imports Dst_Tables
begin

text \<open>
  The arithmetic decoder: the interval keeps its size, and the code value stays inside it.
\<close>

section \<open>The arithmetic decoder\<close>

definition ac_range :: "dst_arith_coder \<Rightarrow> bool" where
  "ac_range ac \<longleftrightarrow> 2048 \<le> unat (ac_a ac) \<and> unat (ac_a ac) \<le> 4095"

text \<open>The code value lies inside the interval.\<close>

definition ac_inside :: "dst_arith_coder \<Rightarrow> bool" where
  "ac_inside ac \<longleftrightarrow> ac_c ac < ac_a ac"

definition same_reader :: "get_bit_context \<Rightarrow> get_bit_context \<Rightarrow> bool" where
  "same_reader g g' \<longleftrightarrow> gb_ok g' \<and> gb_buffer g' = gb_buffer g \<and> gb_end g' = gb_end g"

lemma same_reader_refl: "gb_ok g \<Longrightarrow> same_reader g g"
  by (simp add: same_reader_def)

lemma same_reader_skip: "gb_ok g \<Longrightarrow> same_reader g (gb_skip n g)"
  by (simp add: same_reader_def)

lemma or_1_u32: "(h :: u32) AND 1 = b \<or> b \<le> 1 \<Longrightarrow> 8 \<le> unat h \<Longrightarrow> unat h \<le> 15 \<Longrightarrow> b \<le> 1 \<Longrightarrow>
    unat h \<le> unat (h OR b) \<and> unat (h OR b) \<le> unat h + 1 \<and> unat (h OR b) \<le> 15"
proof -
  assume h: "8 \<le> unat h" "unat h \<le> 15" and b: "b \<le> 1"
  have "unat b = 0 \<or> unat b = 1" using b by (simp add: word_le_nat_alt) linarith
  then have "b = 0 \<or> b = 1" by (auto simp: word_unat_eq_iff)
  moreover have "unat h = 8 \<or> unat h = 9 \<or> unat h = 10 \<or> unat h = 11 \<or> unat h = 12 \<or> unat h = 13 \<or>
      unat h = 14 \<or> unat h = 15" using h by linarith
  then have "h = 8 \<or> h = 9 \<or> h = 10 \<or> h = 11 \<or> h = 12 \<or> h = 13 \<or> h = 14 \<or> h = 15"
    by (simp add: word_unat_eq_iff)
  ultimately show ?thesis by (elim disjE) simp_all
qed

lemma ac_slot_bounds:
  assumes "ac_range ac"
  defines "k \<equiv> drop_bit 8 (ac_a ac) OR (drop_bit 7 (ac_a ac) AND 1)"
  shows "8 \<le> unat k \<and> unat k \<le> 15 \<and> unat k * 128 < unat (ac_a ac)"
proof -
  let ?a = "unat (ac_a ac)"
  have a: "2048 \<le> ?a" "?a \<le> 4095" using assms(1) by (auto simp: ac_range_def)
  have hi: "unat (drop_bit 8 (ac_a ac)) = ?a div 256" by (simp add: unat_drop_bit_u32)
  have h: "8 \<le> unat (drop_bit 8 (ac_a ac))" "unat (drop_bit 8 (ac_a ac)) \<le> 15" using a by (simp_all add: hi)
  have "drop_bit 7 (ac_a ac) AND 1 \<le> 1" by (rule word_and_le1)
  then have "unat (drop_bit 8 (ac_a ac)) \<le> unat k \<and> unat k \<le> unat (drop_bit 8 (ac_a ac)) + 1 \<and> unat k \<le> 15"
    unfolding k_def by (intro or_1_u32) (use h in auto)
  moreover have "256 * (?a div 256) \<le> ?a" by simp
  ultimately show ?thesis using h hi by linarith
qed

text \<open>The interval is split in two parts that are not empty.\<close>

lemma ac_split_parts:
  assumes "ac_range ac" "1 \<le> p" "p \<le> 128" "ac_split p ac = (e, ac')"
  obtains q where "0 < q" "q < unat (ac_a ac)" "e \<longleftrightarrow> unat (ac_c ac) < unat (ac_a ac) - q"
    "unat (ac_a ac') = (if e then unat (ac_a ac) - q else q)"
    "unat (ac_c ac') = (if e then unat (ac_c ac) else unat (ac_c ac) - (unat (ac_a ac) - q))"
    "q = unat (drop_bit 8 (ac_a ac) OR (drop_bit 7 (ac_a ac) AND 1)) * nat p"
proof -
  define k where "k = drop_bit 8 (ac_a ac) OR (drop_bit 7 (ac_a ac) AND 1)"
  define q where "q = unat k * nat p"
  have k: "8 \<le> unat k" "unat k \<le> 15" "unat k * 128 < unat (ac_a ac)"
    using ac_slot_bounds [OF assms(1)] by (auto simp: k_def)
  have "nat p \<le> 128" using assms(3) by simp
  then have "q \<le> unat k * 128" by (simp add: q_def)
  then have q: "0 < q" "q < unat (ac_a ac)" using k assms(2) by (simp add: q_def, linarith)
  have w: "k * of_int p = of_nat q" using assms(2) by (simp add: q_def)
  have a: "unat (ac_a ac) < 4294967296" using unat_bound [of "ac_a ac"] by simp
  have qw: "unat (of_nat q :: u32) = q" using q a by (intro unat_of_nat_u32) simp
  have sub: "unat (ac_a ac - of_nat q) = unat (ac_a ac) - q"
    using q qw by (subst unat_sub) (auto simp: word_le_nat_alt)
  have e: "e \<longleftrightarrow> unat (ac_c ac) < unat (ac_a ac) - q"
    and ac': "ac' = (if e then ac\<lparr>ac_a := ac_a ac - of_nat q\<rparr>
        else \<lparr>ac_a = of_nat q, ac_c = ac_c ac - (ac_a ac - of_nat q)\<rparr>)"
    using assms(4) by (auto simp: ac_split_def Let_def w word_less_nat_alt sub simp flip: k_def)
  have "\<not> e \<Longrightarrow> unat (ac_c ac - (ac_a ac - of_nat q)) = unat (ac_c ac) - (unat (ac_a ac) - q)"
    using e sub by (subst unat_sub) (auto simp: word_le_nat_alt)
  then show ?thesis
    using that [OF q e] ac' sub qw by (simp add: q_def k_def)
qed

lemma push_bit_unat: "unat (w :: u32) * 2 ^ n < 4294967296 \<Longrightarrow> unat (push_bit n w) = unat w * 2 ^ n"
proof -
  assume "unat w * 2 ^ n < 4294967296"
  moreover have "push_bit n w = of_nat (unat w * 2 ^ n)" by (simp add: push_bit_eq_mult)
  ultimately show ?thesis by (simp only: unat_of_nat_u32)
qed

lemma push_or_unat:
  assumes "unat (w :: u32) * 2 ^ n + 2 ^ n \<le> 4294967296" "unat v < 2 ^ n"
  shows "unat (push_bit n w OR v) = unat w * 2 ^ n + unat v"
proof -
  have v: "take_bit n v = v" using assms(2) by (simp only: take_bit_u32)
  have "push_bit n w AND v = 0"
    by (rule bit_word_eqI, subst v [symmetric]) (auto simp: bit_simps)
  then have "push_bit n w OR v = push_bit n w + v" by (simp add: disjunctive_add_eq_or)
  also have "\<dots> = of_nat (unat w * 2 ^ n + unat v)" by (simp add: push_bit_eq_mult)
  finally show ?thesis using assms by (simp only: unat_of_nat_u32)
qed

text \<open>Renormalisation brings the interval back to at least 2048; the bits past the end read as zero.\<close>

lemma ac_renorm_ok:
  assumes g: "gb_ok g" and a: "0 < unat (ac_a ac)" "unat (ac_a ac) \<le> 4095"
  shows "wp F ac_renorm (\<lambda>_ (ac', g'). ac_range ac' \<and> same_reader g g' \<and> (ac_inside ac \<longrightarrow> ac_inside ac')) E (ac, g)"
proof (cases "ac_a ac < 2048")
  case False
  then show ?thesis
    using a g by (simp add: ac_renorm_def wp_simps ac_range_def same_reader_def word_less_nat_alt)
next
  case True
  define l where "l = sa_log2 (ac_a ac)"
  define n where "n = 11 - l"
  have l: "2 ^ l \<le> unat (ac_a ac)" "unat (ac_a ac) < 2 * 2 ^ l"
    using sa_log2_bounds [of "ac_a ac"] a unfolding l_def by force+
  have "(2 :: nat) ^ l < 2 ^ 11" using l True by (simp add: word_less_nat_alt)
  then have l10: "l < 11" by (simp only: power_strict_increasing_iff one_less_numeral_iff semiring_norm)
  then have n: "0 < n" "n \<le> 11" and ln: "l + n = 11" by (auto simp: n_def)
  have pw: "(2 :: nat) ^ l * 2 ^ n = 2048" by (simp add: ln flip: power_add)
  have lo: "2048 \<le> unat (ac_a ac) * 2 ^ n" using mult_le_mono1 [OF l(1), of "2 ^ n"] by (simp add: pw)
  have "(unat (ac_a ac) + 1) * 2 ^ n \<le> 2 * 2 ^ l * 2 ^ n" using l(2) by (intro mult_le_mono1) simp
  then have hi: "unat (ac_a ac) * 2 ^ n + 2 ^ n \<le> 4096" by (simp add: pw algebra_simps)
  have two: "(1 :: nat) \<le> 2 ^ n" by simp
  have a': "unat (push_bit n (ac_a ac)) = unat (ac_a ac) * 2 ^ n" using hi two by (intro push_bit_unat) linarith
  have range: "ac_range (ac\<lparr>ac_a := push_bit n (ac_a ac), ac_c := c\<rparr>)" for c
    unfolding ac_range_def using lo hi two by (simp add: a', linarith)
  have inside: "ac_inside ac \<longrightarrow> ac_inside (ac\<lparr>ac_a := push_bit n (ac_a ac), ac_c := push_bit n (ac_c ac) OR v\<rparr>)"
    if "unat v < 2 ^ n" for v
  proof
    assume "ac_inside ac"
    then have "unat (ac_c ac) + 1 \<le> unat (ac_a ac)" by (simp add: ac_inside_def word_less_nat_alt)
    then have c: "unat (ac_c ac) * 2 ^ n + 2 ^ n \<le> unat (ac_a ac) * 2 ^ n"
      using mult_le_mono1 [of _ _ "2 ^ n"] by fastforce
    then have "unat (push_bit n (ac_c ac) OR v) = unat (ac_c ac) * 2 ^ n + unat v"
      using hi that by (intro push_or_unat) linarith+
    then show "ac_inside (ac\<lparr>ac_a := push_bit n (ac_a ac), ac_c := push_bit n (ac_c ac) OR v\<rparr>)"
      using c that by (simp add: ac_inside_def word_less_nat_alt a')
  qed
  have full: "unat (bits_at b j n) < 2 ^ n" for b j using n by (intro unat_bits_at) simp
  have part: "unat (push_bit (n - m) (bits_at b j m)) < 2 ^ n" if "m < n" for b j m
  proof -
    have u: "unat (bits_at b j m) < 2 ^ m" using that n by (intro unat_bits_at) simp
    have e: "(2 :: nat) ^ m * 2 ^ (n - m) = 2 ^ n" using that by (simp flip: power_add)
    have lt: "unat (bits_at b j m) * 2 ^ (n - m) < 2 ^ n"
      using u by (metis e mult_less_cancel2 zero_less_numeral zero_less_power)
    moreover have "(2 :: nat) ^ n \<le> 2 ^ 11" using n by (intro power_increasing) auto
    ultimately show ?thesis by (subst push_bit_unat) simp_all
  qed
  have sr: "same_reader g (gb_skip m g)" "same_reader g g" for m
    using g by (simp_all add: same_reader_def)
  have zero: "ac_inside ac \<longrightarrow> ac_inside (ac\<lparr>ac_a := push_bit n (ac_a ac), ac_c := push_bit n (ac_c ac)\<rparr>)"
    using inside [of 0] two by simp
  show ?thesis
    using True n g range sr inside [OF full] inside [OF part] zero
    by (simp add: ac_renorm_def wp_simps Let_def not_le flip: l_def n_def)
qed

lemma ac_get_ok:
  assumes g: "gb_ok g" and ac: "ac_range ac" and p: "1 \<le> p" "p \<le> 128"
  shows "wp F (ac_get p) (\<lambda>e (ac', g'). ac_range ac' \<and> same_reader g g' \<and> e = fst (ac_split p ac) \<and>
    (ac_inside ac \<longrightarrow> ac_inside ac')) E (ac, g)"
proof -
  obtain e ac1 where split: "ac_split p ac = (e, ac1)" by fastforce
  obtain q where q: "0 < q" "q < unat (ac_a ac)" "e \<longleftrightarrow> unat (ac_c ac) < unat (ac_a ac) - q"
    "unat (ac_a ac1) = (if e then unat (ac_a ac) - q else q)"
    "unat (ac_c ac1) = (if e then unat (ac_c ac) else unat (ac_c ac) - (unat (ac_a ac) - q))"
    by (rule ac_split_parts [OF ac p split])
  have a1: "0 < unat (ac_a ac1)" "unat (ac_a ac1) \<le> 4095"
    using q(1,2,4) ac by (auto simp: ac_range_def)
  have in1: "ac_inside ac \<longrightarrow> ac_inside ac1"
    using q by (auto simp: ac_inside_def word_less_nat_alt)
  have "wp F ac_renorm (\<lambda>_ (ac', g'). ac_range ac' \<and> same_reader g g' \<and> e = fst (ac_split p ac) \<and>
      (ac_inside ac \<longrightarrow> ac_inside ac')) E (ac1, g)"
    by (rule wp_mono [OF ac_renorm_ok [OF g a1, of _ "\<lambda>_ _. False"]]) (use in1 split in auto)
  then show ?thesis by (simp add: ac_get_def wp_simps split)
qed

lemma ac_init_ok: "gb_ok g \<Longrightarrow> wp F ac_init (\<lambda>_ (ac', g'). ac_range ac' \<and> same_reader g g' \<and>
    (ac_c ac' = bits_at (gb_buffer g) (gb_pos g) 12)) E (ac, g)"
  by (simp add: ac_init_def wp_simps ac_range_def same_reader_def)

end
