(* ===== verification/Dst_Filter.thy ===== *)
theory Dst_Filter
  imports Dst_Coder
begin

text \<open>
  The tabulated filter computes the dot product of the coefficients and the history bits, and the
  status bytes are the 128-bit shift register of the history.
\<close>

section \<open>The filter tables\<close>

text \<open>The weight of coefficient \<open>l\<close> of a group of eight under the byte \<open>k\<close>.\<close>

definition filter_ref :: "int list \<Rightarrow> u32 \<Rightarrow> nat \<Rightarrow> nat \<Rightarrow> int" where
  "filter_ref coeff len j k =
     (\<Sum>l<filter_total len j. (if bit k l then coeff ! (j * 8 + l) else - coeff ! (j * 8 + l)))"

definition rows_shape :: "u16 list list \<Rightarrow> bool" where
  "rows_shape rows \<longleftrightarrow> length rows = 16 \<and> (\<forall>j<16. length (rows ! j) = 256)"

definition filters_shape :: "u16 list list list \<Rightarrow> bool" where
  "filters_shape tables \<longleftrightarrow> length tables = 12 \<and> (\<forall>i<12. rows_shape (tables ! i))"

definition coeffs_negatable :: "int list \<Rightarrow> bool" where
  "coeffs_negatable coeff \<longleftrightarrow> length coeff = 128 \<and> (\<forall>j<128. \<bar>coeff ! j\<bar> \<le> 2147483647)"

lemma filter_total_le: "j < 16 \<Longrightarrow> j * 8 + filter_total len j \<le> 128"
  by (simp add: filter_total_def)

lemma filter_sum_ok:
  assumes "F \<or> coeffs_negatable coeff" "j * 8 + n \<le> 128"
  shows "wp F (filter_sum coeff j k n) (\<lambda>v s'. s' = s \<and>
    v = (\<Sum>l<n. (if bit k l then coeff ! (j * 8 + l) else - coeff ! (j * 8 + l)))) E s"
  using assms(2)
proof (induction n)
  case 0
  then show ?case by (simp add: wp_simps)
next
  case (Suc n)
  let ?c = "coeff ! (j * 8 + n)"
  have sign: "int (drop_bit n k AND 1) * 2 - 1 = (if bit k n then 1 else - 1)"
    by (simp add: and_one_eq bit_iff_odd_drop_bit mod_2_eq_odd)
  have arg: "(int (drop_bit n k AND 1) * 2 - 1) * ?c = (if bit k n then ?c else - ?c)"
    unfolding sign by simp
  have step: "wp F (if j * 8 + n < length coeff
      then seq (c_int (if bit k n then ?c else - ?c)) (\<lambda>t. ret (v + t)) else fault) Q E s"
    if "Q (v + (if bit k n then ?c else - ?c)) s" for v Q
  proof (cases F)
    case True
    then show ?thesis using that by (simp add: wp_simps)
  next
    case False
    then have "j * 8 + n < length coeff" "- 2147483647 \<le> ?c" "?c \<le> 2147483647"
      using assms(1) Suc.prems by (auto simp: coeffs_negatable_def abs_le_iff minus_le_iff)
    then show ?thesis using that by (simp add: wp_simps)
  qed
  have "wp F (filter_sum coeff j k n) (\<lambda>v s'. s' = s \<and>
      v = (\<Sum>l<n. (if bit k l then coeff ! (j * 8 + l) else - coeff ! (j * 8 + l)))) E s"
    using Suc by simp
  then show ?case
    unfolding filter_sum.simps wp_seq arg
    by (rule wp_mono) (simp add: step [unfolded wp_seq])
qed

text \<open>Entries of a table so far: all rows before \<open>j\<close>, and row \<open>j\<close> up to \<open>k\<close>.\<close>

definition entries_upto :: "int list \<Rightarrow> u32 \<Rightarrow> nat \<Rightarrow> nat \<Rightarrow> u16 list list \<Rightarrow> bool" where
  "entries_upto coeff len j k rows \<longleftrightarrow> rows_shape rows \<and>
     (\<forall>j' k'. j' < 16 \<and> k' < 256 \<and> (j' < j \<or> j' = j \<and> k' < k) \<longrightarrow>
        sint (rows ! j' ! k') = filter_ref coeff len j' k')"

lemma filter_entry_ok:
  assumes "F \<or> coeffs_negatable coeff" "entries_upto coeff len j k rows" "j < 16" "k < 256"
  shows "wp F (filter_entry coeff len j k) (\<lambda>_. entries_upto coeff len j (Suc k)) (\<lambda>_. rows_shape) rows"
proof -
  have shape: "rows_shape rows" "length rows = 16" "length (rows ! j) = 256"
    using assms(2,3) by (auto simp: entries_upto_def rows_shape_def)
  have put: "entries_upto coeff len j (Suc k) (rows[j := (rows ! j)[k := of_int (filter_ref coeff len j k)]])"
    if "sint (of_int (filter_ref coeff len j k) :: u16) = filter_ref coeff len j k"
    using that assms(2,3) shape
    by (auto simp: entries_upto_def rows_shape_def nth_list_update less_Suc_eq)
  have "wp F (filter_sum coeff j k (filter_total len j)) (\<lambda>v s'. s' = rows \<and> v = filter_ref coeff len j k)
      (\<lambda>_. rows_shape) rows"
    unfolding filter_ref_def by (rule filter_sum_ok [OF assms(1) filter_total_le [OF assms(3)]])
  then show ?thesis
    unfolding filter_entry_def wp_seq
    by (rule wp_mono) (use put shape assms(3,4) in \<open>auto simp: wp_def\<close>)
qed

lemma filter_rows_ok:
  assumes "F \<or> coeffs_negatable coeff" "rows_shape rows"
  shows "wp F (for_loop 0 16 (\<lambda>j. for_loop 0 256 (filter_entry coeff len j)))
    (\<lambda>_. entries_upto coeff len 16 0) (\<lambda>_. rows_shape) rows"
proof (rule wp_for_loop [where I = "\<lambda>j. entries_upto coeff len j 0"])
  fix j rows' assume j: "j < 16" and inv: "entries_upto coeff len j 0 rows'"
  show "wp F (for_loop 0 256 (filter_entry coeff len j)) (\<lambda>_. entries_upto coeff len (Suc j) 0) (\<lambda>_. rows_shape) rows'"
    by (rule wp_for_loop [where I = "entries_upto coeff len j"])
      (use inv j filter_entry_ok [OF assms(1)] in \<open>auto simp: entries_upto_def less_Suc_eq\<close>)
qed (use assms(2) in \<open>auto simp: entries_upto_def\<close>)

definition filters_built :: "dst_table \<Rightarrow> nat \<Rightarrow> u16 list list list \<Rightarrow> bool" where
  "filters_built t n tables \<longleftrightarrow> filters_shape tables \<and>
     (\<forall>i<n. entries_upto (tb_coeff t ! i) (tb_length t ! i) 16 0 (tables ! i))"

lemma build_filter_ok:
  assumes "table_ok t" "unat (tb_elements t) \<le> 12" "F \<or> (\<forall>i<unat (tb_elements t). coeffs_negatable (tb_coeff t ! i))"
    "filters_shape tables"
  shows "wp F (build_filter t) (\<lambda>_. filters_built t (unat (tb_elements t))) (\<lambda>_. filters_shape) tables"
  unfolding build_filter_def
proof (rule wp_for_loop [where I = "filters_built t"])
  fix i tables' assume i: "i < unat (tb_elements t)" and inv: "filters_built t i tables'"
  have sh: "filters_shape tables'" "rows_shape (tables' ! i)" "length tables' = 12" "i < 12"
    using inv i assms(2) by (auto simp: filters_built_def filters_shape_def)
  have put: "filters_shape (tables'[i := rows])" if "rows_shape rows" for rows
    using that sh by (auto simp: filters_shape_def nth_list_update)
  have built: "filters_built t (Suc i) (tables'[i := rows])"
    if "entries_upto (tb_coeff t ! i) (tb_length t ! i) 16 0 rows" for rows
    using that inv sh put by (auto simp: filters_built_def nth_list_update less_Suc_eq entries_upto_def)
  have run: "wp F (for_loop 0 16 (\<lambda>j. for_loop 0 256 (filter_entry (tb_coeff t ! i) (tb_length t ! i) j)))
      (\<lambda>_. entries_upto (tb_coeff t ! i) (tb_length t ! i) 16 0) (\<lambda>_. rows_shape) (tables' ! i)"
    by (rule filter_rows_ok) (use assms(3) i sh in auto)
  show "wp F (\<lambda>tables. if i < length tables \<and> i < length (tb_length t) \<and> i < length (tb_coeff t)
       then case for_loop 0 16 (\<lambda>j. for_loop 0 256 (filter_entry (tb_coeff t ! i)
              (tb_length t ! i) j)) (tables ! i) of (r, rows) \<Rightarrow> (r, tables[i := rows])
       else (Fault, tables)) (\<lambda>_. filters_built t (Suc i)) (\<lambda>_. filters_shape) tables'"
    using run sh assms(1) built put
    by (auto simp: wp_def table_ok_def split: prod.splits outcome.splits)
qed (use assms in \<open>auto simp: filters_built_def\<close>)

section \<open>The filter as a dot product\<close>

definition status_bit :: "byte list \<Rightarrow> nat \<Rightarrow> bool" where
  "status_bit s m = bit (s ! (m div 8)) (m mod 8)"

text \<open>The reference: every coefficient, added or subtracted as the history bit says.\<close>

definition fir :: "int list \<Rightarrow> nat \<Rightarrow> byte list \<Rightarrow> int" where
  "fir coeff n status = (\<Sum>m<n. if status_bit status m then coeff ! m else - coeff ! m)"

lemma sum_lessThan_append: "(\<Sum>m<a + b. f m) = (\<Sum>m<a. f m) + (\<Sum>l<(b :: nat). f (a + l) :: int)"
  by (induction b) (simp_all add: add.assoc)

lemma sum_groups_of_8:
  "(\<Sum>x<n. \<Sum>l<min 8 (len - 8 * x). f (8 * x + l)) = (\<Sum>m<min len (8 * n :: nat). f m :: int)"
proof (induction n)
  case (Suc n)
  have "min len (8 * Suc n) = min len (8 * n) + min 8 (len - 8 * n)" by auto
  then have "(\<Sum>m<min len (8 * Suc n). f m) =
      (\<Sum>m<min len (8 * n). f m) + (\<Sum>l<min 8 (len - 8 * n). f (min len (8 * n) + l))"
    by (simp only: sum_lessThan_append)
  also have "(\<Sum>l<min 8 (len - 8 * n). f (min len (8 * n) + l)) = (\<Sum>l<min 8 (len - 8 * n). f (8 * n + l))"
    by (intro sum.cong) (auto simp: min_def)
  finally show ?case using Suc by simp
qed simp

lemma filter_total_nat: "unat len \<le> 128 \<Longrightarrow> filter_total len j = min 8 (unat len - 8 * j)"
proof -
  assume l: "unat len \<le> 128"
  then have "sint len = int (unat len)" using sint_small_u32 [of "unat len"] by simp
  then show ?thesis by (simp add: filter_total_def, linarith)
qed

lemma built_filter_is_fir:
  assumes "entries_upto coeff len 16 0 rows" "unat len \<le> 128" "length status = 16"
  shows "(\<Sum>x\<leftarrow>[0..<16]. sint (rows ! x ! unat (status ! x))) = fir coeff (unat len) status"
proof -
  let ?f = "\<lambda>m. if status_bit status m then coeff ! m else - coeff ! m"
  have "(\<Sum>x\<leftarrow>[0..<16]. sint (rows ! x ! unat (status ! x))) = (\<Sum>x<16. sint (rows ! x ! unat (status ! x)))"
    by (simp add: sum_list_sum_nth atLeast0LessThan)
  also have "\<dots> = (\<Sum>x<16. \<Sum>l<min 8 (unat len - 8 * x). ?f (8 * x + l))"
  proof (rule sum.cong)
    fix x :: nat assume "x \<in> {..<16}"
    then have x: "x < 16" by simp
    have "unat (status ! x) < 256" using unat_bound [of "status ! x"] by simp
    then have "sint (rows ! x ! unat (status ! x)) = filter_ref coeff len x (unat (status ! x))"
      using assms(1) x by (simp add: entries_upto_def)
    also have "\<dots> = (\<Sum>l<min 8 (unat len - 8 * x). ?f (8 * x + l))"
      unfolding filter_ref_def filter_total_nat [OF assms(2)]
      by (rule sum.cong) (auto simp: status_bit_def bit_unsigned_iff mult.commute dest: bit_imp_le_length)
    finally show "sint (rows ! x ! unat (status ! x)) = (\<Sum>l<min 8 (unat len - 8 * x). ?f (8 * x + l))" .
  qed simp
  also have "\<dots> = fir coeff (unat len) status"
    using assms(2) sum_groups_of_8 [where len = "unat len" and f = ?f and n = 16] by (simp add: fir_def min_absorb1)
  finally show ?thesis .
qed

section \<open>The status register\<close>

lemma bit_le_dec: "m < 8 * length bs \<Longrightarrow> bit (le_dec bs) m = bit (bs ! (m div 8)) (m mod 8)"
proof (induction bs arbitrary: m)
  case (Cons b bs)
  let ?v = "unat b + 256 * le_dec bs"
  have small: "unat b < 256" using unat_bound [of b] by simp
  show ?case
  proof (cases "m < 8")
    case True
    have "take_bit 8 ?v = unat b" using small by (simp add: take_bit_eq_mod)
    then have "bit ?v m = bit (unat b) m" using True by (metis bit_take_bit_iff)
    then show ?thesis using True by (auto simp: bit_unsigned_iff dest: bit_imp_le_length)
  next
    case False
    define w where "w = ?v"
    have d: "drop_bit 8 w = le_dec bs" using small by (simp add: drop_bit_eq_div w_def)
    have "bit (drop_bit 8 w) (m - 8) = bit w m" using False by (simp add: bit_drop_bit_eq)
    then have "bit w m = bit (le_dec bs) (m - 8)" by (simp only: d)
    then have "bit ?v m = bit (le_dec bs) (m - 8)" by (simp only: w_def)
    moreover have "m div 8 = Suc ((m - 8) div 8)" "(m - 8) mod 8 = m mod 8"
      using False by (simp_all add: le_div_geq le_mod_geq)
    ultimately show ?thesis using Cons False by simp
  qed
qed simp

lemma bit_le_enc: "i < n \<Longrightarrow> r < 8 \<Longrightarrow> bit (le_enc n v ! i) r = bit v (8 * i + r)"
proof (induction n arbitrary: i v)
  case (Suc n)
  show ?case
  proof (cases i)
    case 0
    then show ?thesis using Suc.prems by (simp add: bit_of_nat_iff)
  next
    case (Suc i')
    have "bit (v div 256) (8 * i' + r) = bit v (8 + (8 * i' + r))"
      using bit_drop_bit_eq [of 8 v] by (simp add: drop_bit_eq_div fun_eq_iff)
    then show ?thesis using Suc.IH Suc.prems \<open>i = Suc i'\<close> by (simp add: add.assoc)
  qed
qed simp

lemma bit_SA_RL64A:
  assumes "off + 8 \<le> length s" "m < 64"
  shows "bit (SA_RL64A s off) m = bit (s ! (off + m div 8)) (m mod 8)"
proof -
  have len: "length (take 8 (drop off s)) = 8" using assms by simp
  have "bit (SA_RL64A s off) m = bit (le_dec (take 8 (drop off s))) m"
    using assms by (simp add: SA_RL64A_def bit_of_nat_iff)
  also have "\<dots> = bit (take 8 (drop off s) ! (m div 8)) (m mod 8)"
    using len assms by (intro bit_le_dec) simp
  also have "take 8 (drop off s) ! (m div 8) = s ! (off + m div 8)"
    using assms len by simp
  finally show ?thesis .
qed

lemma length_SA_WL64A: "off + 8 \<le> length s \<Longrightarrow> length (SA_WL64A s off v) = length s"
  by (simp add: SA_WL64A_def)

lemma bit_SA_WL64A:
  assumes "off + 8 \<le> length s" "i < length s" "r < 8"
  shows "bit (SA_WL64A s off v ! i) r =
    (if off \<le> i \<and> i < off + 8 then bit v (8 * (i - off) + r) else bit (s ! i) r)"
  using assms bit_le_enc [of "i - off" 8 r "unat v"]
  by (auto simp: SA_WL64A_def nth_append bit_unsigned_iff not_less)

lemma length_shift_status: "length s = 16 \<Longrightarrow> length (shift_status v s) = 16"
  by (simp add: shift_status_def Let_def length_SA_WL64A)

text \<open>The register is a shift register of 128 bits.\<close>

lemma status_bit_shift:
  assumes s: "length s = 16" and m: "m < 128"
  shows "status_bit (shift_status v s) m = (if m = 0 then v else status_bit s (m - 1))"
proof -
  define hi where "hi = push_bit 1 (SA_RL64A s 8) OR (drop_bit 63 (SA_RL64A s 0) AND 1)"
  define s1 where "s1 = SA_WL64A s 8 hi"
  define lo where "lo = push_bit 1 (SA_RL64A s1 0) OR of_bool v"
  have s1: "length s1 = 16" using s by (simp add: s1_def length_SA_WL64A)
  have res: "shift_status v s = SA_WL64A s1 0 lo"
    by (simp add: shift_status_def Let_def hi_def s1_def lo_def)
  have rd: "bit (SA_RL64A s off) k = status_bit s (8 * off + k)" if "off + 8 \<le> 16" "k < 64" for off k
    using bit_SA_RL64A [of off s k] that s by (simp add: status_bit_def)
  have s1_low: "s1 ! i = s ! i" if "i < 8" for i using that s by (simp add: s1_def SA_WL64A_def nth_append)
  have rd1: "bit (SA_RL64A s1 0) k = status_bit s k" if "k < 64" for k
    using bit_SA_RL64A [of 0 s1 k] that s1 s1_low [of "k div 8"] by (simp add: status_bit_def)
  show ?thesis
  proof (cases "m < 64")
    case True
    then have td: "m div 8 < 8" by simp
    have "status_bit (shift_status v s) m = bit lo m"
      using m s1 bit_SA_WL64A [of 0 s1 "m div 8" "m mod 8" lo] td
      by (simp add: status_bit_def res)
    also have "\<dots> = (if m = 0 then v else status_bit s (m - 1))"
      using True rd1 [of "m - 1"] unfolding lo_def bit_or_iff bit_push_bit_iff
      by (auto simp: bit_of_bool_iff)
    finally show ?thesis .
  next
    case False
    have d: "8 * (m div 8 - 8) + m mod 8 = m - 64"
    proof -
      have "8 \<le> m div 8" using False by simp
      then have "8 * (m div 8 - 8) + 64 = 8 * (m div 8)" by simp
      moreover have "8 * (m div 8) + m mod 8 = m" by simp
      ultimately show ?thesis by linarith
    qed
    have i: "8 \<le> m div 8" "m div 8 < 16" using False m by simp_all
    have "status_bit (shift_status v s) m = bit (s1 ! (m div 8)) (m mod 8)"
      using i m s1 bit_SA_WL64A [of 0 s1 "m div 8" "m mod 8" lo] by (simp add: status_bit_def res)
    also have "\<dots> = bit hi (m - 64)"
      using i s bit_SA_WL64A [of 8 s "m div 8" "m mod 8" hi] by (simp add: s1_def d)
    also have "\<dots> = status_bit s (m - 1)"
    proof (cases "m = 64")
      case True
      have "bit (drop_bit 63 (SA_RL64A s 0) AND 1) 0 = status_bit s 63"
        using rd [of 0 63] by (simp add: bit_simps)
      then show ?thesis unfolding hi_def bit_or_iff bit_push_bit_iff using True by simp
    next
      case ne: False
      have "\<not> bit (drop_bit 63 (SA_RL64A s 0) AND 1) (m - 64)"
        using ne False by (simp add: bit_simps bit_1_iff)
      moreover have "bit (push_bit 1 (SA_RL64A s 8)) (m - 64) = status_bit s (m - 1)"
        using rd [of 8 "m - 65"] ne False m unfolding bit_push_bit_iff by auto
      ultimately show ?thesis unfolding hi_def bit_or_iff by simp
    qed
    finally show ?thesis using False by simp
  qed
qed

end
