(* ===== verification/Dst_Frame.thy ===== *)
theory Dst_Frame
  imports Dst_Filter
begin

text \<open>
  The sample loop of the decoder refines a reference decoder that keeps the history as bits and
  predicts by a dot product, without tables and without packing.
\<close>

section \<open>The specification of the sample loop\<close>

text \<open>
  The reference decoder keeps, per channel, the bits decoded so far (the last one first), and the
  sequence of all decoded bits; it predicts by the dot product of the history and the coefficients.
\<close>

record spec_state =
  sp_hist :: "nat \<Rightarrow> nat \<Rightarrow> bool"
  sp_ac :: dst_arith_coder
  sp_gb :: get_bit_context
  sp_bits :: "bool list"

definition spec_predict :: "int list \<Rightarrow> nat \<Rightarrow> (nat \<Rightarrow> bool) \<Rightarrow> int" where
  "spec_predict coeff n hist = (\<Sum>m<n. if hist m then coeff ! m else - coeff ! m)"

definition spec_prob :: "dst_table \<Rightarrow> dst_table \<Rightarrow> bool \<Rightarrow> nat \<Rightarrow> nat \<Rightarrow> u16 \<Rightarrow> nat \<Rightarrow> int" where
  "spec_prob fsets probs half felem pelem predict i =
     (if half \<and> i < unat (tb_length fsets ! felem) then 128
      else tb_coeff probs ! pelem !
        min (nat \<bar>sint predict\<bar> div 8) (unat (tb_length probs ! pelem) - 1))"

definition spec_sample ::
  "dst_maps \<Rightarrow> dst_table \<Rightarrow> dst_table \<Rightarrow> nat \<Rightarrow> nat \<Rightarrow> spec_state \<Rightarrow> spec_state" where
  "spec_sample maps fsets probs i ch a =
     (let felem = unat (the (map_ch_to_felem maps ! ch)); pelem = unat (the (map_ch_to_pelem maps ! ch));
          predict = of_int (spec_predict (tb_coeff fsets ! felem) (unat (tb_length fsets ! felem))
            (sp_hist a ch)) :: u16;
          prob = spec_prob fsets probs (the (half_prob maps ! ch)) felem pelem predict i
      in case (ac_get prob (sp_ac a, sp_gb a) :: (dst_error, bool) outcome \<times> dst_arith_coder \<times> get_bit_context) of
           (Ok residual, (ac', gb')) \<Rightarrow>
             (let v = (sint predict < 0) \<noteq> residual in
              a\<lparr>sp_hist := (sp_hist a)(ch := \<lambda>m. if m = 0 then v else sp_hist a ch (m - 1)),
                sp_ac := ac', sp_gb := gb', sp_bits := sp_bits a @ [v]\<rparr>)
         | _ \<Rightarrow> a)"

definition spec_samples ::
  "dst_maps \<Rightarrow> dst_table \<Rightarrow> dst_table \<Rightarrow> nat \<Rightarrow> nat \<Rightarrow> spec_state \<Rightarrow> spec_state" where
  "spec_samples maps fsets probs c n a =
     fold (\<lambda>i. fold (spec_sample maps fsets probs i) [0..<c]) [0..<n] a"

section \<open>What the loop relies on\<close>

definition tables_ready :: "dst_maps \<Rightarrow> nat \<Rightarrow> dst_decoder \<Rightarrow> bool" where
  "tables_ready maps c d \<longleftrightarrow> c \<le> 6 \<and> table_ok (d_fsets d) \<and> table_ok (d_probs d) \<and>
     unat (tb_elements (d_fsets d)) \<le> 12 \<and> unat (tb_elements (d_probs d)) \<le> 12 \<and>
     filled 7 9 True 0 (unat (tb_elements (d_fsets d))) (d_fsets d) \<and>
     filled 6 7 False 1 (unat (tb_elements (d_probs d))) (d_probs d) \<and>
     filters_built (d_fsets d) (unat (tb_elements (d_fsets d))) (d_filter d) \<and>
     map_ok (d_fsets d) c (map_ch_to_felem maps) \<and> map_ok (d_probs d) c (map_ch_to_pelem maps) \<and>
     length (half_prob maps) = 6 \<and> (\<forall>ch<c. half_prob maps ! ch \<noteq> None)"

definition status_shape :: "byte list list \<Rightarrow> bool" where
  "status_shape st \<longleftrightarrow> length st = 6 \<and> (\<forall>ch<6. length (st ! ch) = 16)"

text \<open>Sample \<open>i\<close> of channel \<open>ch\<close> is bit \<open>7 - i mod 8\<close> of byte \<open>i div 8 * c + ch\<close>.\<close>

definition out_bit :: "nat \<Rightarrow> byte list \<Rightarrow> nat \<Rightarrow> nat \<Rightarrow> bool" where
  "out_bit c out i ch = bit (out ! (i div 8 * c + ch)) (7 - i mod 8)"

definition out_holds :: "nat \<Rightarrow> nat \<Rightarrow> byte list \<Rightarrow> bool list \<Rightarrow> bool" where
  "out_holds c n out bits \<longleftrightarrow> n div 8 * c \<le> length out \<and>
     (\<forall>i<n. \<forall>ch<c. out_bit c out i ch = (i * c + ch < length bits \<and> bits ! (i * c + ch)))"

definition sampling :: "dst_maps \<Rightarrow> nat \<Rightarrow> nat \<Rightarrow> dst_run \<Rightarrow> spec_state \<Rightarrow> bool" where
  "sampling maps c n r a \<longleftrightarrow>
     tables_ready maps c (r_dec r) \<and> gb_ok (d_gb (r_dec r)) \<and> ac_range (d_ac (r_dec r)) \<and>
     status_shape (d_status (r_dec r)) \<and> sp_ac a = d_ac (r_dec r) \<and> sp_gb a = d_gb (r_dec r) \<and>
     (\<forall>ch<c. \<forall>m<128. status_bit (d_status (r_dec r) ! ch) m = sp_hist a ch m) \<and>
     out_holds c n (r_out r) (sp_bits a)"

lemma min_word_unat: "unat (min (a :: u32) b) = min (unat a) (unat b)"
  by (simp add: min_def word_le_nat_alt)

lemma sample_prob_spec:
  fixes half :: bool and predict :: u16
  assumes ready: "tables_ready maps c d" and f: "felem < 12" and p: "pelem < tb_elements (d_probs d)"
    and i: "i < 4294967296"
  defines "v \<equiv> spec_prob (d_fsets d) (d_probs d) half felem (unat pelem) predict i"
  shows "sample_prob (d_fsets d) (d_probs d) half felem (unat pelem) predict (of_nat i) = Some v \<and>
    1 \<le> v \<and> v \<le> 128"
proof -
  let ?p = "unat pelem"
  have pe: "?p < unat (tb_elements (d_probs d))" "?p < 12"
    using p ready by (auto simp: tables_ready_def word_less_nat_alt)
  have fl: "filled 6 7 False 1 (unat (tb_elements (d_probs d))) (d_probs d)"
    using ready by (simp add: tables_ready_def)
  have len: "0 < unat (tb_length (d_probs d) ! ?p)" "unat (tb_length (d_probs d) ! ?p) \<le> 64"
    and row: "row_ok False 7 1 (unat (tb_length (d_probs d) ! ?p)) (tb_coeff (d_probs d) ! ?p)"
    using fl pe by (auto simp: filled_def)
  have shapes: "length (tb_length (d_fsets d)) = 12" "length (tb_length (d_probs d)) = 12"
    "length (tb_coeff (d_probs d)) = 12" "length (tb_coeff (d_probs d) ! ?p) = 128"
    using ready pe row by (auto simp: tables_ready_def table_ok_def row_ok_def)
  have one: "unat (tb_length (d_probs d) ! ?p - 1) = unat (tb_length (d_probs d) ! ?p) - 1"
    using len by (subst unat_sub) (auto simp: word_le_nat_alt)
  have "\<bar>sint predict\<bar> \<le> 32768" using sint_ge [of predict] sint_lt [of predict] by auto
  then have idx: "unat (drop_bit 3 (of_int \<bar>sint predict\<bar> :: u32)) = nat \<bar>sint predict\<bar> div 8"
  proof -
    assume s: "\<bar>sint predict\<bar> \<le> 32768"
    have "(of_int \<bar>sint predict\<bar> :: u32) = of_nat (nat \<bar>sint predict\<bar>)" by simp
    moreover have "unat (of_nat (nat \<bar>sint predict\<bar>) :: u32) = nat \<bar>sint predict\<bar>"
      using s by (intro unat_of_nat_u32) simp
    ultimately have "unat (of_int \<bar>sint predict\<bar> :: u32) = nat \<bar>sint predict\<bar>" by (simp only:)
    then show ?thesis unfolding unat_drop_bit_u32 by simp
  qed
  let ?j = "min (nat \<bar>sint predict\<bar> div 8) (unat (tb_length (d_probs d) ! ?p) - 1)"
  have j: "?j < unat (tb_length (d_probs d) ! ?p)" using len by simp
  then have c: "1 \<le> tb_coeff (d_probs d) ! ?p ! ?j" "tb_coeff (d_probs d) ! ?p ! ?j \<le> 128"
    using row by (auto simp: row_ok_def coeff_in_def)
  have j': "unat (min (drop_bit 3 (of_int \<bar>sint predict\<bar> :: u32)) (tb_length (d_probs d) ! ?p - 1)) = ?j"
    unfolding min_word_unat idx one ..
  have i': "(of_nat i \<ge> tb_length (d_fsets d) ! felem) \<longleftrightarrow> \<not> i < unat (tb_length (d_fsets d) ! felem)"
    using i by (simp add: word_le_nat_alt unat_of_nat_u32 not_less)
  have j128: "?j < 128" using j len by linarith
  have in_range: "\<not> length (tb_length (d_fsets d)) \<le> felem"
    "?p < length (tb_length (d_probs d)) \<and> ?p < length (tb_coeff (d_probs d))"
    "?j < length (tb_coeff (d_probs d) ! ?p)"
    using f pe(2) j128 shapes by simp_all
  show ?thesis
  proof (cases "half \<and> i < unat (tb_length (d_fsets d) ! felem)")
    case True
    then have "\<not> (\<not> half \<or> \<not> i < unat (tb_length (d_fsets d) ! felem))" by simp
    then show ?thesis
      unfolding sample_prob_def Let_def i' v_def spec_prob_def if_P [OF True] if_not_P [OF in_range(1)]
      by (simp only: if_False) simp
  next
    case False
    then have T: "\<not> half \<or> \<not> i < unat (tb_length (d_fsets d) ! felem)" by simp
    show ?thesis
      unfolding sample_prob_def Let_def i' j' v_def spec_prob_def if_not_P [OF False]
        if_not_P [OF in_range(1)] if_P [OF T] if_P [OF in_range(2)] if_P [OF in_range(3)]
      using c by blast
  qed
qed

section \<open>One sample refines\<close>

lemma out_position_inj:
  assumes "(ch :: nat) < c" "ch' < c" "i div 8 * c + ch = i' div 8 * c + ch'" "7 - i mod 8 = 7 - i' mod (8 :: nat)"
  shows "i = i' \<and> ch = ch'"
proof -
  have "(i div 8 * c + ch) div c = i div 8" "(i' div 8 * c + ch') div c = i' div 8"
    "(i div 8 * c + ch) mod c = ch" "(i' div 8 * c + ch') mod c = ch'"
    using assms(1,2) by auto
  then have "i div 8 = i' div 8" "ch = ch'" using assms(3) by metis+
  moreover have "i mod 8 < 8" "i' mod 8 < 8" by simp_all
  then have "i mod 8 = i' mod 8" using assms(4) by linarith
  ultimately show ?thesis by (metis div_mult_mod_eq)
qed

lemma out_position_less:
  assumes "ch < c" "i < n" "8 dvd n"
  shows "i div 8 * c + ch < n div 8 * (c :: nat)"
proof -
  have "i div 8 < n div 8" using assms(2,3) by (auto elim!: dvdE simp: less_mult_imp_div_less mult.commute)
  then have "(i div 8 + 1) * c \<le> n div 8 * c" by (intro mult_le_mono1) simp
  then show ?thesis using assms(1) by simp
qed

lemma sample_index_inj: "(ch :: nat) < c \<Longrightarrow> ch' < c \<Longrightarrow> i * c + ch = i' * c + ch' \<Longrightarrow> i = i' \<and> ch = ch'"
  by (metis div_mult_self3 div_mult_self4 mod_mult_self3 mod_less add.commute add_cancel_right_left
      div_less div_mult_self1 gr_implies_not0 mod_mult_self1)

text \<open>Storing the next bit.\<close>

lemma out_holds_store:
  assumes out: "out_holds c n out bits" and k: "length bits = i * c + ch" and i: "i < n" "ch < c" "8 dvd n"
  defines "pos \<equiv> i div 8 * c + ch"
  shows "out_holds c n (out[pos := out ! pos OR (if v then push_bit (7 - i mod 8) 1 else 0)]) (bits @ [v])"
proof -
  have pos: "pos < length out"
    using out out_position_less [OF i(2,1,3)] by (auto simp: out_holds_def pos_def)
  have "out_bit c (out[pos := out ! pos OR (if v then push_bit (7 - i mod 8) 1 else 0)]) i' ch' =
      (i' * c + ch' < length (bits @ [v]) \<and> (bits @ [v]) ! (i' * c + ch'))" if "i' < n" "ch' < c" for i' ch'
  proof (cases "i' = i \<and> ch' = ch")
    case True
    have "\<not> out_bit c out i ch" using out i k by (auto simp: out_holds_def)
    moreover have "bit ((2 :: byte) ^ (7 - i mod 8)) (7 - i mod 8)" by (simp add: bit_exp_iff)
    moreover have "(bits @ [v]) ! (i * c + ch) = v" using k nth_append_length by metis
    ultimately show ?thesis
      using True pos k by (auto simp: out_bit_def pos_def bit_or_iff)
  next
    case False
    have ne: "i' * c + ch' \<noteq> i * c + ch" using False sample_index_inj [OF that(2) i(2)] by blast
    have old: "out_bit c out i' ch' = (i' * c + ch' < length bits \<and> bits ! (i' * c + ch'))"
      using out that by (simp add: out_holds_def)
    have "out_bit c (out[pos := out ! pos OR (if v then push_bit (7 - i mod 8) 1 else 0)]) i' ch' = out_bit c out i' ch'"
    proof (cases "i' div 8 * c + ch' = pos")
      case True
      then have "7 - i' mod 8 \<noteq> 7 - i mod 8"
        using False out_position_inj [OF that(2) i(2), of i' i] unfolding pos_def by blast
      then have "\<not> bit (if v then push_bit (7 - i mod 8) 1 else 0 :: byte) (7 - i' mod 8)"
        by (cases v) (simp_all add: bit_exp_iff)
      then show ?thesis
        unfolding out_bit_def True nth_list_update_eq [OF pos] bit_or_iff by simp
    qed (simp add: out_bit_def)
    then show ?thesis using old ne k by (auto simp: nth_append)
  qed
  then show ?thesis using out by (simp add: out_holds_def)
qed

lemma status_shape_update:
  "status_shape st \<Longrightarrow> ch < 6 \<Longrightarrow> status_shape (st[ch := shift_status v (st ! ch)])"
  by (auto simp: status_shape_def nth_list_update length_shift_status)

lemma history_shift:
  assumes "status_shape st" "\<forall>ch<c. \<forall>m<128. status_bit (st ! ch) m = hist ch m" "ch < c" "c \<le> 6"
  shows "\<forall>ch'<c. \<forall>m<128. status_bit (st[ch := shift_status v (st ! ch)] ! ch') m =
    (hist(ch := \<lambda>m. if m = 0 then v else hist ch (m - 1))) ch' m"
  using assms by (auto simp: status_shape_def nth_list_update status_bit_shift)

lemma spec_predict_fir:
  assumes "tables_ready maps c d" "felem < tb_elements (d_fsets d)" "length status = 16"
    "\<forall>m<128. status_bit status m = hist m"
  shows "filter_predict (d_filter d ! unat felem) status =
    of_int (spec_predict (tb_coeff (d_fsets d) ! unat felem) (unat (tb_length (d_fsets d) ! unat felem)) hist)"
proof -
  let ?f = "unat felem"
  have fe: "?f < unat (tb_elements (d_fsets d))" using assms(2) by (simp add: word_less_nat_alt)
  have len: "unat (tb_length (d_fsets d) ! ?f) \<le> 128"
    using assms(1) fe by (auto simp: tables_ready_def filled_def)
  have "entries_upto (tb_coeff (d_fsets d) ! ?f) (tb_length (d_fsets d) ! ?f) 16 0 (d_filter d ! ?f)"
    using assms(1) fe by (auto simp: tables_ready_def filters_built_def)
  from built_filter_is_fir [OF this len assms(3)]
  have "(\<Sum>x\<leftarrow>[0..<16]. sint (d_filter d ! ?f ! x ! unat (status ! x))) =
      fir (tb_coeff (d_fsets d) ! ?f) (unat (tb_length (d_fsets d) ! ?f)) status" .
  also have "\<dots> = spec_predict (tb_coeff (d_fsets d) ! ?f) (unat (tb_length (d_fsets d) ! ?f)) hist"
    unfolding fir_def spec_predict_def by (rule sum.cong) (use assms(4) len in auto)
  finally show ?thesis by (simp only: filter_predict_def)
qed

text \<open>What the loop leaves alone.\<close>

definition same_frame :: "dst_run \<Rightarrow> dst_run \<Rightarrow> bool" where
  "same_frame r r' \<longleftrightarrow> d_fsets (r_dec r') = d_fsets (r_dec r) \<and> d_probs (r_dec r') = d_probs (r_dec r) \<and>
     d_filter (r_dec r') = d_filter (r_dec r) \<and> d_channels (r_dec r') = d_channels (r_dec r) \<and>
     d_sample_rate (r_dec r') = d_sample_rate (r_dec r) \<and> r_len r' = r_len r \<and>
     length (r_out r') = length (r_out r)"

lemma same_frame_refl: "same_frame r r"
  by (simp add: same_frame_def)

lemma same_frame_trans: "same_frame r s \<Longrightarrow> same_frame s t \<Longrightarrow> same_frame r t"
  by (simp add: same_frame_def)

lemma wp_local_read: "i < length xs \<Longrightarrow> xs ! i = Some v \<Longrightarrow> wp F (local_read xs i) Q E = Q v"
  by (rule ext) (simp add: local_read_def of_opt_def wp_def)

lemma wp_of_opt: "x = Some v \<Longrightarrow> wp F (of_opt x) Q E = Q v"
  by (rule ext) (simp add: of_opt_def wp_def)

lemma decode_sample_refines:
  assumes sim: "sampling maps c n r a" and c: "c = unat channels" and i: "i < n" "ch < c" "8 dvd n"
    and n: "n < 4294967296" and k: "length (sp_bits a) = i * c + ch"
  shows "wp False (decode_sample maps channels i ch)
    (\<lambda>_ r'. same_frame r r' \<and>
       sampling maps c n r' (spec_sample maps (d_fsets (r_dec r)) (d_probs (r_dec r)) i ch a) \<and>
       length (sp_bits (spec_sample maps (d_fsets (r_dec r)) (d_probs (r_dec r)) i ch a)) = i * c + Suc ch)
    E r"
proof -
  let ?d = "r_dec r"
  have ready: "tables_ready maps c ?d" and g: "gb_ok (d_gb ?d)" and ac: "ac_range (d_ac ?d)"
    and st: "status_shape (d_status ?d)" and a: "sp_ac a = d_ac ?d" "sp_gb a = d_gb ?d"
    and hist: "\<forall>ch<c. \<forall>m<128. status_bit (d_status ?d ! ch) m = sp_hist a ch m"
    and out: "out_holds c n (r_out r) (sp_bits a)"
    using sim by (auto simp: sampling_def)
  have c6: "c \<le> 6" "ch < 6" using ready i by (auto simp: tables_ready_def)
  obtain felem where fe: "map_ch_to_felem maps ! ch = Some felem" "felem < tb_elements (d_fsets ?d)"
      "ch < length (map_ch_to_felem maps)"
    using ready i c6 by (auto simp: tables_ready_def map_ok_def DST_MAX_CHANNELS_def)
  obtain pelem where pe: "map_ch_to_pelem maps ! ch = Some pelem" "pelem < tb_elements (d_probs ?d)"
      "ch < length (map_ch_to_pelem maps)"
    using ready i c6 by (auto simp: tables_ready_def map_ok_def DST_MAX_CHANNELS_def)
  obtain half where hp: "half_prob maps ! ch = Some half" "ch < length (half_prob maps)"
    using ready i c6 by (auto simp: tables_ready_def)
  have f12: "unat felem < 12" using fe(2) ready by (auto simp: tables_ready_def word_less_nat_alt)
  have shapes: "\<not> length (d_filter ?d) \<le> unat felem" "\<not> length (d_status ?d) \<le> ch" "length (d_status ?d ! ch) = 16"
    "length (tb_length (d_fsets ?d)) = 12" "length (d_status ?d) = 6"
    using ready st f12 c6 by (auto simp: tables_ready_def filters_built_def filters_shape_def status_shape_def table_ok_def)
  define predict where "predict = filter_predict (d_filter ?d ! unat felem) (d_status ?d ! ch)"
  have predict: "predict = of_int (spec_predict (tb_coeff (d_fsets ?d) ! unat felem)
      (unat (tb_length (d_fsets ?d) ! unat felem)) (sp_hist a ch))"
    unfolding predict_def by (rule spec_predict_fir [OF ready fe(2) shapes(3)]) (use hist i in auto)
  define prob where "prob = spec_prob (d_fsets ?d) (d_probs ?d) half (unat felem) (unat pelem) predict i"
  have prob: "sample_prob (d_fsets ?d) (d_probs ?d) half (unat felem) (unat pelem) predict (of_nat i) = Some prob"
    "1 \<le> prob" "prob \<le> 128"
    using sample_prob_spec [OF ready f12 pe(2), of i half predict] i n by (auto simp: prob_def)
  obtain e ac' gb' where run: "(ac_get prob (d_ac ?d, d_gb ?d) :: (dst_error, bool) outcome \<times> _) = (Ok e, (ac', gb'))"
      and post: "ac_range ac'" "same_reader (d_gb ?d) gb'"
    using wp_total [OF ac_get_ok [OF g ac prob(2,3), of False]] by (auto split: prod.splits)
  define v where "v = ((sint predict < 0) \<noteq> e)"
  define pos where "pos = i div 8 * c + ch"
  have posw: "unat (of_nat (i div 8) * channels + of_nat ch :: u32) = pos"
  proof -
    have "of_nat (i div 8) * channels + of_nat ch = (of_nat pos :: u32)" by (simp add: pos_def c)
    moreover have "i div 8 \<le> 536870911" using i n by simp
    then have "i div 8 * c \<le> 536870911 * 6" using c6 by (intro mult_le_mono)
    then have "pos < 4294967296" using c6 by (simp add: pos_def)
    ultimately show ?thesis by (simp only: unat_of_nat_u32)
  qed
  have poslt: "pos < length (r_out r)"
    using out out_position_less [OF i(2,1,3)] by (auto simp: out_holds_def pos_def)
  define bitv where "bitv = (if v then push_bit (7 - i mod 8) 1 else 0 :: byte)"
  define r' where "r' = r\<lparr>r_dec := ?d\<lparr>d_ac := ac', d_gb := gb',
      d_status := (d_status ?d)[ch := shift_status v (d_status ?d ! ch)]\<rparr>,
      r_out := (r_out r)[pos := r_out r ! pos OR bitv]\<rparr>"
  define a' where "a' = a\<lparr>sp_hist := (sp_hist a)(ch := \<lambda>m. if m = 0 then v else sp_hist a ch (m - 1)),
      sp_ac := ac', sp_gb := gb', sp_bits := sp_bits a @ [v]\<rparr>"
  have spec: "spec_sample maps (d_fsets ?d) (d_probs ?d) i ch a = a'"
    unfolding spec_sample_def Let_def fe(1) pe(1) hp(1) option.sel predict [symmetric] prob_def [symmetric] a run
    by (simp add: a'_def v_def)
  have same: "same_frame r r'" by (simp add: same_frame_def r'_def)
  have "out_holds c n (r_out r') (sp_bits a')"
    using out_holds_store [OF out k i, of v] by (simp add: r'_def a'_def pos_def bitv_def)
  then have good: "sampling maps c n r' a'"
    using ready post status_shape_update [OF st c6(2), of v] history_shift [OF st hist i(2) c6(1), of v]
    by (simp add: sampling_def r'_def a'_def tables_ready_def same_reader_def)
  have len: "length (sp_bits a') = i * c + Suc ch" by (simp add: a'_def k)
  have exec: "decode_sample maps channels i ch r = (Ok (), r')"
  proof -
    have l1: "local_read (map_ch_to_felem maps) ch r = (Ok felem, r)"
      and l2: "local_read (half_prob maps) ch r = (Ok half, r)"
      and l3: "(if \<not> half \<or> unat felem \<ge> length (tb_length (d_fsets ?d)) \<or>
          of_nat i \<ge> tb_length (d_fsets ?d) ! unat felem
        then local_read (map_ch_to_pelem maps) ch else ret 0) r = (Ok (if \<not> half \<or>
          unat felem \<ge> length (tb_length (d_fsets ?d)) \<or> of_nat i \<ge> tb_length (d_fsets ?d) ! unat felem
        then pelem else 0), r)"
      by (simp_all add: local_read_def of_opt_def fe hp pe)
    let ?pe = "if \<not> half \<or> unat felem \<ge> length (tb_length (d_fsets ?d)) \<or>
        of_nat i \<ge> tb_length (d_fsets ?d) ! unat felem then pelem else 0"
    have pe': "sample_prob (d_fsets ?d) (d_probs ?d) half (unat felem) (unat ?pe) predict (of_nat i) = Some prob"
      using prob(1) f12 shapes(4) by (auto simp: sample_prob_def split: if_splits)
    have l4: "of_opt (sample_prob (d_fsets ?d) (d_probs ?d) half (unat felem) (unat ?pe) predict (of_nat i)) r = (Ok prob, r)"
      by (simp only: pe' of_opt_def option.case)
    let ?r1 = "r\<lparr>r_dec := ?d\<lparr>d_ac := ac', d_gb := gb'\<rparr>\<rparr>"
    have l5: "(on_ac (ac_get prob) :: (dst_run, dst_error, bool) op) r = (Ok e, ?r1)"
      by (simp add: on_ac_def on_dec_def zoom_def run)
    let ?r2 = "?r1\<lparr>r_out := (r_out r)[pos := r_out r ! pos OR bitv]\<rparr>"
    have l6: "zoom r_out (\<lambda>b r. r\<lparr>r_out := b\<rparr>) (seq (arr_read pos) (\<lambda>x. arr_write pos (x OR bitv))) ?r1 = (Ok (), ?r2)"
      using poslt by (simp add: zoom_def seq_def arr_read_def arr_write_def)
    have l7: "on_dec (modify (\<lambda>d. d\<lparr>d_status := (d_status d)[ch := shift_status v (d_status ?d ! ch)]\<rparr>)) ?r2 = (Ok (), r')"
      by (simp add: on_dec_def zoom_def r'_def)
    have sh: "\<not> (length (d_filter ?d) \<le> unat felem \<or> length (d_status ?d) \<le> ch)" using shapes by simp
    show ?thesis
      unfolding decode_sample_def Let_def
      by (simp only: seq_Ok l1 get_apply if_not_P [OF sh] predict_def [symmetric] l2 l3 l4 l5
          v_def [symmetric] posw bitv_def [symmetric] l6 l7)
  qed
  show ?thesis using exec same good len by (simp add: spec wp_def)
qed

section \<open>The loop refines\<close>

lemma decode_samples_refines:
  assumes sim: "sampling maps (unat channels) (unat n) r a" and empty: "sp_bits a = []" and n: "8 dvd unat n"
  defines "a' \<equiv> spec_samples maps (d_fsets (r_dec r)) (d_probs (r_dec r)) (unat channels) (unat n) a"
  shows "wp False (decode_samples maps channels n)
    (\<lambda>_ r'. same_frame r r' \<and> sampling maps (unat channels) (unat n) r' a' \<and>
       length (sp_bits a') = unat n * unat channels) E r"
proof -
  let ?F = "d_fsets (r_dec r)" and ?P = "d_probs (r_dec r)" and ?c = "unat channels" and ?n = "unat n"
  have n32: "?n < 4294967296" using unat_bound [of n] by simp
  define J where "J i r' \<longleftrightarrow> same_frame r r' \<and> sampling maps ?c ?n r' (spec_samples maps ?F ?P ?c i a) \<and>
      length (sp_bits (spec_samples maps ?F ?P ?c i a)) = i * ?c" for i r'
  have row: "wp False (for_loop 0 ?c (decode_sample maps channels i)) (\<lambda>_. J (Suc i)) E s"
    if i: "i < ?n" and J: "J i s" for i s
  proof -
    let ?b = "spec_samples maps ?F ?P ?c i a"
    define I where "I ch r' \<longleftrightarrow> same_frame r r' \<and>
        sampling maps ?c ?n r' (fold (spec_sample maps ?F ?P i) [0..<ch] ?b) \<and>
        length (sp_bits (fold (spec_sample maps ?F ?P i) [0..<ch] ?b)) = i * ?c + ch" for ch r'
    show ?thesis
    proof (rule wp_for_loop [where I = I])
      show "I 0 s" using J by (simp add: I_def J_def)
      fix ch s' assume ch: "ch < ?c" and I: "I ch s'"
      have same: "d_fsets (r_dec s') = ?F" "d_probs (r_dec s') = ?P" "same_frame r s'"
        using I by (auto simp: I_def same_frame_def)
      show "wp False (decode_sample maps channels i ch) (\<lambda>_. I (Suc ch)) E s'"
        by (rule wp_mono [OF decode_sample_refines [OF _ refl i ch n n32]])
          (use I same in \<open>auto simp: I_def intro: same_frame_trans\<close>)
    next
      fix s' assume "I ?c s'"
      then show "J (Suc i) s'"
        by (simp add: I_def J_def spec_samples_def add.commute)
    qed simp
  qed
  show ?thesis
    unfolding decode_samples_def
    by (rule wp_for_loop [where I = J]) (use sim empty row in \<open>auto simp: J_def spec_samples_def a'_def same_frame_refl\<close>)
qed

section \<open>The coded frame\<close>

lemma prob_dst_x_bit_range: "1 \<le> uint (prob_dst_x_bit c) \<and> uint (prob_dst_x_bit c) \<le> 128"
proof -
  let ?w = "ff_reverse ! nat (c AND 127)"
  have "unat (drop_bit 1 ?w) < 128"
    using unat_bound [of ?w] unfolding unat_drop_bit_eq by (simp add: drop_bit_eq_div)
  then have u: "unat (prob_dst_x_bit c) = Suc (unat (drop_bit 1 ?w))" "unat (drop_bit 1 ?w) < 128"
    by (simp_all add: prob_dst_x_bit_def unat_word_ariths)
  have "uint (prob_dst_x_bit c) = int (unat (prob_dst_x_bit c))" by simp
  then show ?thesis using u by linarith
qed

text \<open>The header left usable tables: both were read to the end.\<close>

definition header_ok :: "dst_maps \<Rightarrow> nat \<Rightarrow> dst_decoder \<Rightarrow> bool" where
  "header_ok maps c d \<longleftrightarrow> c \<le> 6 \<and> table_ok (d_fsets d) \<and> table_ok (d_probs d) \<and>
     unat (tb_elements (d_fsets d)) \<le> 12 \<and> unat (tb_elements (d_probs d)) \<le> 12 \<and>
     filled 7 9 True 0 (unat (tb_elements (d_fsets d))) (d_fsets d) \<and>
     filled 6 7 False 1 (unat (tb_elements (d_probs d))) (d_probs d) \<and> filters_shape (d_filter d) \<and>
     map_ok (d_fsets d) c (map_ch_to_felem maps) \<and> map_ok (d_probs d) c (map_ch_to_pelem maps) \<and>
     length (half_prob maps) = 6 \<and> (\<forall>ch<c. half_prob maps ! ch \<noteq> None) \<and> gb_ok (d_gb d)"

text \<open>The history before the first sample: the bytes \<^verbatim>\<open>0xAA\<close>.\<close>

definition spec_start :: "dst_decoder \<Rightarrow> spec_state" where
  "spec_start d = (case (seq ac_init (\<lambda>_. ac_get (uint (prob_dst_x_bit (tb_coeff (d_fsets d) ! 0 ! 0)))))
       (d_ac d, d_gb d) :: (dst_error, bool) outcome \<times> dst_arith_coder \<times> get_bit_context of
     (_, (ac, gb)) \<Rightarrow> \<lparr>sp_hist = \<lambda>ch m. odd m, sp_ac = ac, sp_gb = gb, sp_bits = []\<rparr>)"

definition spec_frame :: "dst_maps \<Rightarrow> nat \<Rightarrow> nat \<Rightarrow> dst_decoder \<Rightarrow> bool list" where
  "spec_frame maps c n d = sp_bits (spec_samples maps (d_fsets d) (d_probs d) c n (spec_start d))"

lemma initial_history: "m < 128 \<Longrightarrow> status_bit (replicate 16 0xAA) m = odd m"
proof -
  assume m: "m < 128"
  have "m div 8 < 16" using m by simp
  have "bit (0xAA :: byte) k = odd k" if "k < 8" for k
  proof -
    have "k = 0 \<or> k = 1 \<or> k = 2 \<or> k = 3 \<or> k = 4 \<or> k = 5 \<or> k = 6 \<or> k = 7" using that by linarith
    then show ?thesis by (elim disjE) simp_all
  qed
  moreover have "odd (m mod 8) = odd m" by presburger
  ultimately show ?thesis using \<open>m div 8 < 16\<close> by (simp add: status_bit_def)
qed

lemma cleared_output:
  assumes "n div 8 * c \<le> length out" "8 dvd n"
  shows "out_holds c n (replicate (n div 8 * c) 0 @ drop (n div 8 * c) out) []"
  using assms out_position_less [OF _ _ assms(2), of _ c]
  by (simp add: out_holds_def out_bit_def nth_append)


lemma build_filter_run:
  assumes "header_ok maps c d" "fst (build_filter (d_fsets d) (d_filter d)) = Ok ()"
  obtains f where "build_filter (d_fsets d) (d_filter d) = (Ok (), f)"
    "filters_built (d_fsets d) (unat (tb_elements (d_fsets d))) f"
proof -
  obtain f where f: "build_filter (d_fsets d) (d_filter d) = (Ok (), f)"
    using assms(2) by (metis prod.collapse)
  have "wp True (build_filter (d_fsets d)) (\<lambda>_. filters_built (d_fsets d) (unat (tb_elements (d_fsets d))))
      (\<lambda>_. filters_shape) (d_filter d)"
    by (rule build_filter_ok) (use assms(1) in \<open>auto simp: header_ok_def\<close>)
  from wp_OkD [OF this f] show ?thesis using that f by blast
qed

lemma decode_body_refines:
  assumes hdr: "header_ok maps (unat channels) (r_dec r)" and n: "8 dvd unat n"
    and len: "unat n div 8 * unat channels \<le> length (r_out r)"
    and built: "fst (build_filter (d_fsets (r_dec r)) (d_filter (r_dec r))) = Ok ()"
  shows "\<exists>r'. decode_body maps channels n (unat n div 8 * unat channels) r = (Ok (), r') \<and>
    length (spec_frame maps (unat channels) (unat n) (r_dec r)) = unat n * unat channels \<and>
    (\<forall>i<unat n. \<forall>ch<unat channels. out_bit (unat channels) (r_out r') i ch =
       spec_frame maps (unat channels) (unat n) (r_dec r) ! (i * unat channels + ch)) \<and>
    r_len r' = sint (of_nat (unat n div 8 * unat channels) :: u32) \<and>
    length (r_out r') = length (r_out r)"
proof -
  let ?d = "r_dec r" and ?c = "unat channels" and ?nb = "unat n div 8 * unat channels"
  let ?F = "d_fsets ?d" and ?P = "d_probs ?d"
  define p where "p = uint (prob_dst_x_bit (tb_coeff ?F ! 0 ! 0))"
  have p: "1 \<le> p" "p \<le> 128" using prob_dst_x_bit_range by (simp_all add: p_def)
  obtain f where f: "build_filter ?F (d_filter ?d) = (Ok (), f)" "filters_built ?F (unat (tb_elements ?F)) f"
    by (rule build_filter_run [OF hdr built])
  have g: "gb_ok (d_gb ?d)" using hdr by (simp add: header_ok_def)
  obtain a1 g1 where i1: "(ac_init (d_ac ?d, d_gb ?d) :: (dst_error, unit) outcome \<times> _) = (Ok (), (a1, g1))"
      and a1: "ac_range a1" "gb_ok g1"
    using wp_total [OF ac_init_ok [OF g, where F = False and ac = "d_ac ?d"]] by (auto simp: same_reader_def)
  obtain e a2 g2 where i2: "(ac_get p (a1, g1) :: (dst_error, bool) outcome \<times> _) = (Ok e, (a2, g2))"
      and a2: "ac_range a2" "gb_ok g2"
    using wp_total [OF ac_get_ok [OF a1(2,1) p, where F = False]] by (auto simp: same_reader_def)
  let ?r1 = "r\<lparr>r_dec := ?d\<lparr>d_ac := a1, d_gb := g1\<rparr>\<rparr>"
  let ?r2 = "r\<lparr>r_dec := ?d\<lparr>d_ac := a1, d_gb := g1, d_filter := f\<rparr>\<rparr>"
  let ?r3 = "r\<lparr>r_dec := ?d\<lparr>d_ac := a1, d_gb := g1, d_filter := f, d_status := replicate 6 (replicate 16 0xAA)\<rparr>\<rparr>"
  let ?out = "replicate ?nb 0 @ drop ?nb (r_out r)"
  let ?r4 = "?r3\<lparr>r_out := ?out\<rparr>"
  let ?r5 = "r\<lparr>r_dec := ?d\<lparr>d_ac := a2, d_gb := g2, d_filter := f, d_status := replicate 6 (replicate 16 0xAA)\<rparr>,
    r_out := ?out\<rparr>"
  have s1: "on_ac ac_init r = ((Ok (), ?r1) :: (dst_error, unit) outcome \<times> _)"
    by (simp add: on_ac_def on_dec_def zoom_def i1)
  have s2: "ignore (on_filter ?F) ?r1 = (Ok (), ?r2)"
    by (simp add: on_filter_def on_dec_def zoom_def ignore_def f(1))
  have s3: "on_dec (modify (\<lambda>d. d\<lparr>d_status := replicate DST_MAX_CHANNELS (replicate 16 0xAA)\<rparr>)) ?r2 =
      ((Ok (), ?r3) :: (dst_error, unit) outcome \<times> _)"
    by (simp add: on_dec_def zoom_def DST_MAX_CHANNELS_def)
  have s4: "clear_output ?nb ?r3 = ((Ok (), ?r4) :: (dst_error, unit) outcome \<times> _)"
    using len by (simp add: clear_output_def)
  have s5: "on_ac (ac_get p) ?r4 = ((Ok e, ?r5) :: (dst_error, bool) outcome \<times> _)"
    by (simp add: on_ac_def on_dec_def zoom_def i2)
  have start: "spec_start ?d = \<lparr>sp_hist = \<lambda>ch m. odd m, sp_ac = a2, sp_gb = g2, sp_bits = []\<rparr>"
    by (simp add: spec_start_def i1 i2 flip: p_def)
  have c6: "?c \<le> 6" using hdr by (simp add: header_ok_def)
  have sim: "sampling maps ?c (unat n) ?r5 (spec_start ?d)"
    using hdr a2 f(2) c6 initial_history cleared_output [OF len n]
    by (auto simp: sampling_def start header_ok_def tables_ready_def status_shape_def)
  obtain r6 where s6: "decode_samples maps channels n ?r5 = (Ok (), r6)" and same: "same_frame ?r5 r6"
      and out: "sampling maps ?c (unat n) r6 (spec_samples maps ?F ?P ?c (unat n) (spec_start ?d))"
      and lenb: "length (sp_bits (spec_samples maps ?F ?P ?c (unat n) (spec_start ?d))) = unat n * ?c"
    using wp_total [OF decode_samples_refines [OF sim _ n]] by (auto simp: start)
  have F1: "d_fsets (r_dec ?r1) = ?F" by simp
  have run: "decode_body maps channels n ?nb r = (Ok (), r6\<lparr>r_len := sint (of_nat ?nb :: u32)\<rparr>)"
    unfolding decode_body_def
    by (simp only: seq_Ok s1 get_apply F1 p_def [symmetric] s2 s3 s4 s5 s6 modify_apply)
  have idx: "i * ?c + ch < unat n * ?c" if "i < unat n" "ch < ?c" for i ch
  proof -
    have "(i + 1) * ?c \<le> unat n * ?c" using that by (intro mult_le_mono1) simp
    then show ?thesis using that by simp
  qed
  have "length (r_out r6) = length (r_out r)" using same len by (simp add: same_frame_def)
  then show ?thesis
    using run out lenb idx by (auto simp: spec_frame_def sampling_def out_holds_def)
qed

end
