(* ===== verification/Dst_Object.thy ===== *)
theory Dst_Object
  imports Dst_Frame
begin

text \<open>
  What a call of the decoder does to the decoder object, whatever the input: its tables, its
  status rows and its settings stay well formed, and it fails with two error codes only.
\<close>

section \<open>The decoder object\<close>

definition decoder_ok :: "dst_decoder \<Rightarrow> bool" where
  "decoder_ok d \<longleftrightarrow> status_shape (d_status d) \<and> filters_shape (d_filter d) \<and>
     table_ok (d_fsets d) \<and> table_ok (d_probs d) \<and> 0 \<le> d_channels d \<and> d_channels d \<le> 6 \<and>
     0 \<le> d_sample_rate d \<and> d_sample_rate d \<le> 2147483647"

text \<open>The settings that a call never changes.\<close>

definition run_ok :: "dst_run \<Rightarrow> dst_run \<Rightarrow> bool" where
  "run_ok r r' \<longleftrightarrow> decoder_ok (r_dec r') \<and> gb_ok (d_gb (r_dec r')) \<and>
     d_channels (r_dec r') = d_channels (r_dec r) \<and> d_sample_rate (r_dec r') = d_sample_rate (r_dec r) \<and>
     length (r_out r') = length (r_out r)"

definition dst_errors :: "dst_error \<Rightarrow> bool" where
  "dst_errors e \<longleftrightarrow> e = AVERROR_INVALIDDATA \<or> e = AVERROR_PATCHWELCOME"

definition frame_err :: "dst_run \<Rightarrow> dst_error \<Rightarrow> dst_run \<Rightarrow> bool" where
  "frame_err r e r' \<longleftrightarrow> dst_errors e \<and> run_ok r r'"

lemma wp_on_dec: "wp F (on_dec m) Q E r \<longleftrightarrow>
    wp F m (\<lambda>a d. Q a (r\<lparr>r_dec := d\<rparr>)) (\<lambda>e d. E e (r\<lparr>r_dec := d\<rparr>)) (r_dec r)"
  by (simp add: on_dec_def wp_zoom)

lemma wp_on_gb: "wp F (on_gb m) Q E r \<longleftrightarrow>
    wp F m (\<lambda>a g. Q a (r\<lparr>r_dec := (r_dec r)\<lparr>d_gb := g\<rparr>\<rparr>)) (\<lambda>e g. E e (r\<lparr>r_dec := (r_dec r)\<lparr>d_gb := g\<rparr>\<rparr>))
      (d_gb (r_dec r))"
  by (simp add: on_gb_def wp_on_dec wp_zoom)

lemma wp_on_fsets: "wp F (on_fsets m) Q E r \<longleftrightarrow>
    wp F m (\<lambda>a (g, t). Q a (r\<lparr>r_dec := (r_dec r)\<lparr>d_gb := g, d_fsets := t\<rparr>\<rparr>))
      (\<lambda>e (g, t). E e (r\<lparr>r_dec := (r_dec r)\<lparr>d_gb := g, d_fsets := t\<rparr>\<rparr>)) (d_gb (r_dec r), d_fsets (r_dec r))"
  by (simp add: on_fsets_def wp_on_dec wp_zoom case_prod_beta')

lemma wp_on_probs: "wp F (on_probs m) Q E r \<longleftrightarrow>
    wp F m (\<lambda>a (g, t). Q a (r\<lparr>r_dec := (r_dec r)\<lparr>d_gb := g, d_probs := t\<rparr>\<rparr>))
      (\<lambda>e (g, t). E e (r\<lparr>r_dec := (r_dec r)\<lparr>d_gb := g, d_probs := t\<rparr>\<rparr>)) (d_gb (r_dec r), d_probs (r_dec r))"
  by (simp add: on_probs_def wp_on_dec wp_zoom case_prod_beta')

lemma wp_on_ac: "wp F (on_ac m) Q E r \<longleftrightarrow>
    wp F m (\<lambda>a (c, g). Q a (r\<lparr>r_dec := (r_dec r)\<lparr>d_ac := c, d_gb := g\<rparr>\<rparr>))
      (\<lambda>e (c, g). E e (r\<lparr>r_dec := (r_dec r)\<lparr>d_ac := c, d_gb := g\<rparr>\<rparr>)) (d_ac (r_dec r), d_gb (r_dec r))"
  by (simp add: on_ac_def wp_on_dec wp_zoom case_prod_beta')

lemma wp_local_map: "wp F (local_map m) Q E (g, t) \<longleftrightarrow>
    wp F m (\<lambda>_ (g', t', mp). Q mp (g', t')) (\<lambda>e (g', t', mp). E e (g', t'))
      (g, t, replicate DST_MAX_CHANNELS None)"
  by (simp add: local_map_def wp_def split: prod.splits outcome.splits)

lemma same_tables_ok: "table_ok t \<Longrightarrow> same_tables t t' \<Longrightarrow> table_ok t'"
  by (simp add: table_ok_def same_tables_def)

text \<open>The maps: entries below the channel count name elements of their tables.\<close>

definition maps_good :: "nat \<Rightarrow> dst_map \<times> dst_map \<Rightarrow> dst_decoder \<Rightarrow> bool" where
  "maps_good c = (\<lambda>(fmap, pmap) d. map_ok (d_fsets d) c fmap \<and> map_ok (d_probs d) c pmap \<and>
     unat (tb_elements (d_fsets d)) \<le> 6 \<and> unat (tb_elements (d_probs d)) \<le> 6)"

lemma sint_unat_u32: "unat (w :: u32) < 2147483648 \<Longrightarrow> sint w = int (unat w)"
  using sint_small_u32 [of "unat w"] by simp

lemma local_read_map_ok:
  fixes channels :: u32
  assumes "gb_ok g" "table_ok t" "unat channels \<le> 6"
  shows "wp F (local_map (read_map (sint channels)))
    (\<lambda>mp (g', t'). gb_ok g' \<and> table_ok t' \<and> map_ok t' (unat channels) mp \<and> unat (tb_elements t') \<le> 6)
    (\<lambda>e (g', t'). e = AVERROR_INVALIDDATA \<and> gb_ok g' \<and> table_ok t') (g, t)"
proof -
  have s: "sint channels = int (unat channels)" using assms(3) by (intro sint_unat_u32) simp
  have "wp False (read_map (int (unat channels))) (\<lambda>_ (g', t', mp'). gb_ok g' \<and> same_tables t t' \<and>
      0 < unat (tb_elements t') \<and> unat (tb_elements t') \<le> 6 \<and> map_ok t' (nat (int (unat channels))) mp')
    (map_err t) (g, t, replicate DST_MAX_CHANNELS None)"
  proof (rule read_map_inv)
    show "int (unat channels) \<le> 6" using assms(3) by linarith
  qed (simp_all add: assms(1) DST_MAX_CHANNELS_def)
  then have "wp False (read_map (int (unat channels)))
      (\<lambda>_ (g', t', mp). gb_ok g' \<and> table_ok t' \<and> map_ok t' (unat channels) mp \<and> unat (tb_elements t') \<le> 6)
      (\<lambda>e (g', t', mp). e = AVERROR_INVALIDDATA \<and> gb_ok g' \<and> table_ok t')
      (g, t, replicate DST_MAX_CHANNELS None)"
    by (rule wp_mono) (use same_tables_ok [OF assms(2)] in \<open>auto simp: map_err_def\<close>)
  from wp_weaken [OF this] show ?thesis by (simp only: wp_local_map s prod.case)
qed

lemma map_ok_elements: "map_ok t n mp \<Longrightarrow> tb_elements t' = tb_elements t \<Longrightarrow> map_ok t' n mp"
  by (simp add: map_ok_def)

lemma read_maps_ok:
  assumes r: "decoder_ok (r_dec r)" "gb_ok (d_gb (r_dec r))" and c: "unat channels \<le> 6"
  shows "wp F (read_maps channels) (\<lambda>m r'. run_ok r r' \<and> maps_good (unat channels) m (r_dec r')) (frame_err r) r"
proof -
  let ?r = "r\<lparr>r_dec := (r_dec r)\<lparr>d_gb := gb_skip 1 (d_gb (r_dec r))\<rparr>\<rparr>"
  have t: "table_ok (d_fsets (r_dec r))" "table_ok (d_probs (r_dec r))" "gb_ok (gb_skip 1 (d_gb (r_dec r)))"
    using r by (auto simp: decoder_ok_def)
  have copy: "table_ok (d_probs (r_dec r)\<lparr>tb_elements := n\<rparr>)" for n
    using t(2) by (simp add: table_ok_def)
  have second: "wp F (local_map (read_map (sint channels)))
      (\<lambda>pmap (g, p). run_ok r (?r\<lparr>r_dec := (r_dec ?r)\<lparr>d_fsets := f, d_gb := g, d_probs := p\<rparr>\<rparr>) \<and>
         maps_good (unat channels) (fmap, pmap) ((r_dec ?r)\<lparr>d_fsets := f, d_gb := g, d_probs := p\<rparr>))
      (\<lambda>e (g, p). frame_err r e (?r\<lparr>r_dec := (r_dec ?r)\<lparr>d_fsets := f, d_gb := g, d_probs := p\<rparr>\<rparr>))
      (g', d_probs (r_dec r))"
    if "gb_ok g'" "table_ok f" "map_ok f (unat channels) fmap" "unat (tb_elements f) \<le> 6" for g' f fmap
    by (rule wp_mono [OF local_read_map_ok [OF that(1) t(2) c]])
      (use r that in \<open>auto simp: run_ok_def frame_err_def dst_errors_def decoder_ok_def maps_good_def\<close>)
  have first: "wp F (local_map (read_map (sint channels)))
      (\<lambda>fmap (g, f). wp F (if same then seq (on_dec (modify (\<lambda>d. d\<lparr>d_probs := (d_probs d)\<lparr>tb_elements := tb_elements (d_fsets d)\<rparr>\<rparr>)))
            (\<lambda>_. ret (fmap, fmap))
          else seq (on_probs (local_map (read_map (sint channels)))) (\<lambda>pmap. ret (fmap, pmap)))
        (\<lambda>m r'. run_ok r r' \<and> maps_good (unat channels) m (r_dec r')) (frame_err r)
        (?r\<lparr>r_dec := (r_dec ?r)\<lparr>d_gb := g, d_fsets := f\<rparr>\<rparr>))
      (\<lambda>e (g, f). frame_err r e (?r\<lparr>r_dec := (r_dec ?r)\<lparr>d_gb := g, d_fsets := f\<rparr>\<rparr>))
      (gb_skip 1 (d_gb (r_dec r)), d_fsets (r_dec r))" for same
  proof (rule wp_mono [OF local_read_map_ok [OF t(3,1) c]])
    fix fmap :: dst_map and s :: "get_bit_context \<times> dst_table"
    assume s: "case s of (g', t') \<Rightarrow> gb_ok g' \<and> table_ok t' \<and> map_ok t' (unat channels) fmap \<and> unat (tb_elements t') \<le> 6"
    obtain g f where gf: "s = (g, f)" by fastforce
    show "case s of (g, f) \<Rightarrow> wp F (if same then seq (on_dec (modify (\<lambda>d. d\<lparr>d_probs := (d_probs d)\<lparr>tb_elements := tb_elements (d_fsets d)\<rparr>\<rparr>)))
            (\<lambda>_. ret (fmap, fmap))
          else seq (on_probs (local_map (read_map (sint channels)))) (\<lambda>pmap. ret (fmap, pmap)))
        (\<lambda>m r'. run_ok r r' \<and> maps_good (unat channels) m (r_dec r')) (frame_err r)
        (?r\<lparr>r_dec := (r_dec ?r)\<lparr>d_gb := g, d_fsets := f\<rparr>\<rparr>)"
    proof (cases same)
      case True
      have "map_ok (d_probs (r_dec r)\<lparr>tb_elements := tb_elements f\<rparr>) (unat channels) fmap"
        using s gf by (auto intro: map_ok_elements)
      then show ?thesis
        using True s gf r copy
        by (simp add: wp_seq wp_on_dec wp_modify wp_ret run_ok_def decoder_ok_def maps_good_def)
    next
      case False
      show ?thesis
        using second [of g f fmap] s False
        by (simp add: gf wp_if wp_seq wp_on_probs wp_ret case_prod_beta')
    qed
  qed (use r in \<open>auto simp: frame_err_def dst_errors_def run_ok_def decoder_ok_def\<close>)
  show ?thesis
    using first r(2)
    by (simp add: read_maps_def wp_seq wp_on_gb wp_get_bits1 wp_on_fsets)
qed


lemma read_half_prob_ok:
  assumes r: "decoder_ok (r_dec r)" "gb_ok (d_gb (r_dec r))" and c: "unat channels \<le> 6"
  shows "wp F (read_half_prob channels) (\<lambda>hp r'. run_ok r r' \<and> length hp = 6 \<and> (\<forall>ch<unat channels. hp ! ch \<noteq> None) \<and>
      d_fsets (r_dec r') = d_fsets (r_dec r) \<and> d_probs (r_dec r') = d_probs (r_dec r)) E r"
proof -
  have "wp False (for_loop 0 (unat channels) (\<lambda>ch. seq (on_fst get_bits1) (\<lambda>b. on_snd (arr_write ch (Some b)))))
      (\<lambda>_ (g, hp). gb_ok g \<and> length hp = 6 \<and> (\<forall>ch<unat channels. hp ! ch \<noteq> None)) ((\<lambda>_ _. False) :: dst_error \<Rightarrow> _)
      (d_gb (r_dec r), replicate DST_MAX_CHANNELS None)"
  proof (rule wp_for_loop [where I = "\<lambda>n (g, hp). gb_ok g \<and> length hp = 6 \<and> (\<forall>ch<n. hp ! ch \<noteq> None)"])
    fix j and s :: "get_bit_context \<times> bool option list"
    assume j: "j < unat channels" and s: "case s of (g, hp) \<Rightarrow> gb_ok g \<and> length hp = 6 \<and> (\<forall>ch<j. hp ! ch \<noteq> None)"
    obtain g hp where gh: "s = (g, hp)" by fastforce
    show "wp False (seq (on_fst get_bits1) (\<lambda>b. on_snd (arr_write j (Some b))))
        (\<lambda>_ (g, hp). gb_ok g \<and> length hp = 6 \<and> (\<forall>ch<Suc j. hp ! ch \<noteq> None)) ((\<lambda>_ _. False) :: dst_error \<Rightarrow> _) s"
      using s j c by (auto simp: gh wp_simps nth_list_update less_Suc_eq)
  qed (use r in \<open>auto simp: DST_MAX_CHANNELS_def\<close>)
  from wp_total [OF this] obtain g hp where
    "for_loop 0 (unat channels) (\<lambda>ch. seq (on_fst get_bits1) (\<lambda>b. on_snd (arr_write ch (Some b))))
      (d_gb (r_dec r), replicate DST_MAX_CHANNELS None) = ((Ok (), (g, hp)) :: (dst_error, unit) outcome \<times> _)"
    "gb_ok g" "length hp = 6" "\<forall>ch<unat channels. hp ! ch \<noteq> None"
    by auto
  then show ?thesis
    using r by (simp add: read_half_prob_def wp_def run_ok_def decoder_ok_def)
qed

lemma wp_on_fsets_table:
  assumes r: "decoder_ok (r_dec r)" "gb_ok (d_gb (r_dec r))" "unat (tb_elements (d_fsets (r_dec r))) \<le> 6"
  shows "wp True (ignore (on_fsets (read_table fsets_code_pred_coeff 7 9 True 0)))
    (\<lambda>_ r'. run_ok r r' \<and> d_probs (r_dec r') = d_probs (r_dec r) \<and>
       tb_elements (d_fsets (r_dec r')) = tb_elements (d_fsets (r_dec r))) E r"
  unfolding wp_ignore wp_on_fsets
  by (rule wp_mono [OF read_table_ok])
    (use r in \<open>auto simp: decoder_ok_def run_ok_def element_err_def\<close>)

lemma wp_on_probs_table:
  assumes r: "decoder_ok (r_dec r)" "gb_ok (d_gb (r_dec r))" "unat (tb_elements (d_probs (r_dec r))) \<le> 6"
  shows "wp True (ignore (on_probs (read_table probs_code_pred_coeff 6 7 False 1)))
    (\<lambda>_ r'. run_ok r r' \<and> d_fsets (r_dec r') = d_fsets (r_dec r) \<and>
       tb_elements (d_probs (r_dec r')) = tb_elements (d_probs (r_dec r))) E r"
  unfolding wp_ignore wp_on_probs
  by (rule wp_mono [OF read_table_ok])
    (use r in \<open>auto simp: decoder_ok_def run_ok_def element_err_def\<close>)

lemma run_ok_trans: "run_ok r s \<Longrightarrow> run_ok s t \<Longrightarrow> run_ok r t"
  by (simp add: run_ok_def)

lemma run_okD: "run_ok r s \<Longrightarrow> decoder_ok (r_dec s) \<and> gb_ok (d_gb (r_dec s))"
  by (simp add: run_ok_def)

lemma run_ok_skip: "decoder_ok (r_dec r) \<Longrightarrow> gb_ok (d_gb (r_dec r)) \<Longrightarrow>
    run_ok r (r\<lparr>r_dec := (r_dec r)\<lparr>d_gb := gb_skip n (d_gb (r_dec r))\<rparr>\<rparr>)"
  by (simp add: run_ok_def decoder_ok_def)

text \<open>The header leaves maps and flags the sample loop can use, whatever became of the tables.\<close>

definition header_maps :: "nat \<Rightarrow> dst_maps \<Rightarrow> dst_decoder \<Rightarrow> bool" where
  "header_maps c maps d \<longleftrightarrow> maps_good c (map_ch_to_felem maps, map_ch_to_pelem maps) d \<and>
     length (half_prob maps) = 6 \<and> (\<forall>ch<c. half_prob maps ! ch \<noteq> None)"

lemma maps_good_elements:
  "maps_good c m d \<Longrightarrow> tb_elements (d_fsets d') = tb_elements (d_fsets d) \<Longrightarrow>
     tb_elements (d_probs d') = tb_elements (d_probs d) \<Longrightarrow> maps_good c m d'"
  by (auto simp: maps_good_def map_ok_def)

lemma bit_check:
  assumes "run_ok r0 r" "dst_errors e"
    "\<And>r1. run_ok r0 r1 \<Longrightarrow> d_fsets (r_dec r1) = d_fsets (r_dec r) \<Longrightarrow> d_probs (r_dec r1) = d_probs (r_dec r) \<Longrightarrow>
       wp F k Q (frame_err r0) r1"
  shows "wp F (seq (on_gb get_bits1) (\<lambda>b. seq (ensure (P b) e) (\<lambda>_. k))) Q (frame_err r0) r"
proof -
  let ?r = "r\<lparr>r_dec := (r_dec r)\<lparr>d_gb := gb_skip 1 (d_gb (r_dec r))\<rparr>\<rparr>"
  have r: "decoder_ok (r_dec r)" "gb_ok (d_gb (r_dec r))" using assms(1) by (auto simp: run_ok_def)
  have 1: "run_ok r0 ?r" using assms(1) run_ok_skip [OF r] by (rule run_ok_trans)
  show ?thesis
    using r(2) 1 assms(2,3) by (simp add: wp_seq wp_on_gb wp_get_bits1 wp_ensure frame_err_def)
qed

lemma wp_then: "wp F m R E s \<Longrightarrow> (\<And>a s. R a s \<Longrightarrow> wp F (k a) Q E s) \<Longrightarrow> wp F (seq m k) Q E s"
  unfolding wp_seq by (erule wp_mono)

lemma frame_err_trans: "run_ok r0 r \<Longrightarrow> frame_err r e s \<Longrightarrow> frame_err r0 e s"
  using run_ok_trans by (auto simp: frame_err_def)

lemma decode_header_ok:
  assumes r: "run_ok r0 r" and c: "unat channels \<le> 6"
  shows "wp True (decode_header channels) (\<lambda>maps r'. run_ok r0 r' \<and> header_maps (unat channels) maps (r_dec r'))
    (frame_err r0) r"
  unfolding decode_header_def
proof (rule bit_check [OF r], simp add: dst_errors_def, rule bit_check, assumption, simp add: dst_errors_def,
    rule bit_check, assumption, simp add: dst_errors_def)
  fix r1 assume r1: "run_ok r0 r1"
  have ok1: "decoder_ok (r_dec r1)" "gb_ok (d_gb (r_dec r1))" using run_okD [OF r1] by auto
  show "wp True (seq (read_maps channels) (\<lambda>(fmap, pmap).
     seq (read_half_prob channels) (\<lambda>hp.
     seq (ignore (on_fsets (read_table fsets_code_pred_coeff 7 9 True 0))) (\<lambda>_.
     seq (ignore (on_probs (read_table probs_code_pred_coeff 6 7 False 1))) (\<lambda>_.
     seq (on_gb get_bits1) (\<lambda>b. seq (ensure (\<not> b) AVERROR_INVALIDDATA) (\<lambda>_.
     ret \<lparr>map_ch_to_felem = fmap, map_ch_to_pelem = pmap, half_prob = hp\<rparr>)))))))
     (\<lambda>maps r'. run_ok r0 r' \<and> header_maps (unat channels) maps (r_dec r')) (frame_err r0) r1"
  proof (rule wp_then [OF wp_mono [OF read_maps_ok [OF ok1 c]]])
    fix m :: "dst_map \<times> dst_map" and r2 assume "run_ok r1 r2 \<and> maps_good (unat channels) m (r_dec r2)"
    then have r2: "run_ok r0 r2" "maps_good (unat channels) m (r_dec r2)" using run_ok_trans [OF r1] by auto
    obtain fmap pmap where m: "m = (fmap, pmap)" by fastforce
    have ok2: "decoder_ok (r_dec r2)" "gb_ok (d_gb (r_dec r2))" using run_okD [OF r2(1)] by auto
    show "wp True (case m of (fmap, pmap) \<Rightarrow>
       seq (read_half_prob channels) (\<lambda>hp.
       seq (ignore (on_fsets (read_table fsets_code_pred_coeff 7 9 True 0))) (\<lambda>_.
       seq (ignore (on_probs (read_table probs_code_pred_coeff 6 7 False 1))) (\<lambda>_.
       seq (on_gb get_bits1) (\<lambda>b. seq (ensure (\<not> b) AVERROR_INVALIDDATA) (\<lambda>_.
       ret \<lparr>map_ch_to_felem = fmap, map_ch_to_pelem = pmap, half_prob = hp\<rparr>))))))
       (\<lambda>maps r'. run_ok r0 r' \<and> header_maps (unat channels) maps (r_dec r')) (frame_err r0) r2"
      unfolding m prod.case
    proof (rule wp_then [OF read_half_prob_ok [OF ok2 c]])
      fix hp :: "bool option list" and r3 assume 3: "run_ok r2 r3 \<and> length hp = 6 \<and> (\<forall>ch<unat channels. hp ! ch \<noteq> None) \<and>
          d_fsets (r_dec r3) = d_fsets (r_dec r2) \<and> d_probs (r_dec r3) = d_probs (r_dec r2)"
      let ?maps = "\<lparr>map_ch_to_felem = fmap, map_ch_to_pelem = pmap, half_prob = hp\<rparr>"
      have r3: "run_ok r0 r3" "maps_good (unat channels) m (r_dec r3)"
        using 3 r2 run_ok_trans [of r0 r2 r3] maps_good_elements by auto
      have ok3: "decoder_ok (r_dec r3)" "gb_ok (d_gb (r_dec r3))" "unat (tb_elements (d_fsets (r_dec r3))) \<le> 6"
        using run_okD [OF r3(1)] r3(2) by (auto simp: maps_good_def)
      show "wp True (seq (ignore (on_fsets (read_table fsets_code_pred_coeff 7 9 True 0))) (\<lambda>_.
         seq (ignore (on_probs (read_table probs_code_pred_coeff 6 7 False 1))) (\<lambda>_.
         seq (on_gb get_bits1) (\<lambda>b. seq (ensure (\<not> b) AVERROR_INVALIDDATA) (\<lambda>_. ret ?maps)))))
         (\<lambda>maps r'. run_ok r0 r' \<and> header_maps (unat channels) maps (r_dec r')) (frame_err r0) r3"
      proof (rule wp_then [OF wp_on_fsets_table [OF ok3]], rule wp_then [OF wp_on_probs_table])
        fix r4 r5 :: dst_run and u :: unit
        assume 4: "run_ok r3 r4 \<and> d_probs (r_dec r4) = d_probs (r_dec r3) \<and>
            tb_elements (d_fsets (r_dec r4)) = tb_elements (d_fsets (r_dec r3))"
          and 5: "run_ok r4 r5 \<and> d_fsets (r_dec r5) = d_fsets (r_dec r4) \<and>
            tb_elements (d_probs (r_dec r5)) = tb_elements (d_probs (r_dec r4))"
        have r5: "run_ok r0 r5" "maps_good (unat channels) m (r_dec r5)"
          using 4 5 r3 run_ok_trans [of r0 r3 r4] run_ok_trans [of r0 r4 r5]
          by (auto intro: maps_good_elements [of _ _ "r_dec r3"])
        show "wp True (seq (on_gb get_bits1) (\<lambda>b. seq (ensure (\<not> b) AVERROR_INVALIDDATA) (\<lambda>_. ret ?maps)))
            (\<lambda>maps r'. run_ok r0 r' \<and> header_maps (unat channels) maps (r_dec r')) (frame_err r0) r5"
          by (rule bit_check [OF r5(1)])
            (use 3 r5(2) in \<open>auto simp: dst_errors_def wp_ret header_maps_def m intro: maps_good_elements [of _ _ "r_dec r5"]\<close>)
      next
        fix r4 assume 4: "run_ok r3 r4 \<and> d_probs (r_dec r4) = d_probs (r_dec r3) \<and>
            tb_elements (d_fsets (r_dec r4)) = tb_elements (d_fsets (r_dec r3))"
        then show "decoder_ok (r_dec r4)" "gb_ok (d_gb (r_dec r4))" "unat (tb_elements (d_probs (r_dec r4))) \<le> 6"
          using r3 run_okD by (auto simp: maps_good_def)
      qed
    qed
  qed (use frame_err_trans [OF r1] in auto)
qed

section \<open>The body keeps the decoder well formed\<close>

lemma ac_renorm_reader:
  assumes "gb_ok g"
  shows "wp F ac_renorm (\<lambda>_ (ac', g'). gb_ok g') E (ac, g)"
proof (cases "ac_a ac < 2048")
  case True
  define l where "l = sa_log2 (ac_a ac)"
  have "l < 11"
  proof (cases "ac_a ac = 0")
    case False
    have "(2 :: nat) ^ l < 2 ^ 11"
      using sa_log2_bounds [OF False] True by (simp add: l_def word_less_nat_alt)
    then show ?thesis by (simp only: power_strict_increasing_iff one_less_numeral_iff semiring_norm)
  qed (simp add: l_def sa_log2_0)
  then have "0 < 11 - l" "11 - l \<le> 25" by auto
  then show ?thesis
    using True assms by (simp add: ac_renorm_def wp_simps Let_def flip: l_def)
qed (simp add: ac_renorm_def wp_simps assms)

lemma ac_get_reader:
  assumes "gb_ok g"
  shows "wp F (ac_get p) (\<lambda>_ (ac', g'). gb_ok g') E (ac, g)"
  using ac_renorm_reader [OF assms, of F]
  by (simp add: ac_get_def wp_simps case_prod_beta')

lemma wlp_of_opt: "(\<And>v. Q v s) \<Longrightarrow> wp True (of_opt x) Q E s"
  by (cases x) (simp_all add: of_opt_def wp_def)

lemma wlp_local_read: "(\<And>v. Q v s) \<Longrightarrow> wp True (local_read xs i) Q E s"
  unfolding local_read_def by (rule wlp_of_opt)

lemma decoder_ok_status: "decoder_ok d \<Longrightarrow> ch < 6 \<Longrightarrow>
    decoder_ok (d\<lparr>d_status := (d_status d)[ch := shift_status v (d_status d ! ch)]\<rparr>)"
  using status_shape_update by (simp add: decoder_ok_def)

lemma decoder_ok_coder: "decoder_ok d \<Longrightarrow> decoder_ok (d\<lparr>d_ac := a, d_gb := g\<rparr>)"
  by (simp add: decoder_ok_def)

lemma decode_sample_keeps:
  assumes r: "run_ok r0 r" and ch: "ch < 6"
  shows "wp True (decode_sample maps channels i ch) (\<lambda>_. run_ok r0) (\<lambda>_ _. False) r"
proof -
  have ok: "decoder_ok (r_dec r)" "gb_ok (d_gb (r_dec r))" using run_okD [OF r] by auto
  have st: "ch < length (d_status (r_dec r))" using ok ch by (simp add: decoder_ok_def status_shape_def)
  have store: "wp True (zoom r_out (\<lambda>b r. r\<lparr>r_out := b\<rparr>) (seq (arr_read pos) (\<lambda>x. arr_write pos (x OR bitv))))
      (\<lambda>_. wp True (on_dec (modify (\<lambda>d. d\<lparr>d_status := (d_status d)[ch := shift_status v (d_status (r_dec r) ! ch)]\<rparr>)))
        (\<lambda>_. run_ok r0) (\<lambda>_ _. False)) (\<lambda>_ _. False)
      (r\<lparr>r_dec := (r_dec r)\<lparr>d_ac := a, d_gb := g\<rparr>\<rparr>)" if "gb_ok g" for pos bitv v a g
    using that r ch decoder_ok_status [OF decoder_ok_coder [OF ok(1), where a = a and g = g], OF ch, where v = v]
    by (simp add: wp_zoom wp_seq wp_arr_read wp_arr_write wp_on_dec wp_modify run_ok_def)
  have get: "wp True (on_ac (ac_get prob)) (\<lambda>residual. wp True (zoom r_out (\<lambda>b r. r\<lparr>r_out := b\<rparr>)
        (seq (arr_read (pos residual)) (\<lambda>x. arr_write (pos residual) (x OR bitv residual))))
      (\<lambda>_. wp True (on_dec (modify (\<lambda>d. d\<lparr>d_status := (d_status d)[ch := shift_status (v residual) (d_status (r_dec r) ! ch)]\<rparr>)))
        (\<lambda>_. run_ok r0) (\<lambda>_ _. False)) (\<lambda>_ _. False)) (\<lambda>_ _. False) r" for prob pos bitv v
    unfolding wp_on_ac
    by (rule wp_mono [OF ac_get_reader [OF ok(2), where E = "\<lambda>_ _. False"]]) (use store in auto)
  show ?thesis
    unfolding decode_sample_def wp_seq Let_def
    by (rule wlp_local_read, unfold wp_get, unfold wp_if wp_seq)
      (use st in \<open>auto simp: wp_fault wp_seq wp_if wp_ret intro!: wlp_local_read wlp_of_opt get\<close>)
qed

lemma decode_samples_keeps:
  assumes r: "run_ok r0 r" and c: "unat channels \<le> 6"
  shows "wp True (decode_samples maps channels n) (\<lambda>_. run_ok r0) (\<lambda>_ _. False) r"
  unfolding decode_samples_def
proof (rule wp_for_loop [where I = "\<lambda>_. run_ok r0"])
  fix i s assume "run_ok r0 s"
  then show "wp True (for_loop 0 (unat channels) (decode_sample maps channels i)) (\<lambda>_. run_ok r0) (\<lambda>_ _. False) s"
    by (intro wp_for_loop [where I = "\<lambda>_. run_ok r0"] decode_sample_keeps) (use c in auto)
qed (use r in auto)

lemma build_filter_keeps:
  assumes "decoder_ok d" "unat (tb_elements (d_fsets d)) \<le> 12"
  shows "wp True (build_filter (d_fsets d)) (\<lambda>_. filters_shape) (\<lambda>_. filters_shape) (d_filter d)"
  by (rule wp_mono [OF build_filter_ok]) (use assms in \<open>auto simp: decoder_ok_def filters_built_def\<close>)

lemma run_ok_ac: "run_ok r0 r \<Longrightarrow> gb_ok g \<Longrightarrow> run_ok r0 (r\<lparr>r_dec := (r_dec r)\<lparr>d_ac := a, d_gb := g\<rparr>\<rparr>)"
  by (simp add: run_ok_def decoder_ok_def)

lemma decode_body_keeps:
  assumes r: "run_ok r0 r" and c: "unat channels \<le> 6"
    and els: "unat (tb_elements (d_fsets (r_dec r))) \<le> 6"
  shows "wp True (decode_body maps channels n nb)
    (\<lambda>_ r'. run_ok r0 r' \<and> r_len r' = sint (of_nat nb :: u32)) (\<lambda>_ _. False) r"
  unfolding decode_body_def
proof (rule wp_then [where R = "\<lambda>_ r'. run_ok r0 r' \<and> d_fsets (r_dec r') = d_fsets (r_dec r)"])
  have ok: "gb_ok (d_gb (r_dec r))" using run_okD [OF r] by auto
  show "wp True (on_ac ac_init) (\<lambda>_ r'. run_ok r0 r' \<and> d_fsets (r_dec r') = d_fsets (r_dec r)) (\<lambda>_ _. False) r"
    unfolding wp_on_ac
    by (rule wp_mono [OF ac_init_ok [OF ok, where E = "\<lambda>_ _. False"]]) (use run_ok_ac [OF r] in \<open>auto simp: same_reader_def\<close>)
  fix u :: unit and r1 assume 1: "run_ok r0 r1 \<and> d_fsets (r_dec r1) = d_fsets (r_dec r)"
  let ?p = "uint (prob_dst_x_bit (tb_coeff (d_fsets (r_dec r1)) ! 0 ! 0))"
  show "wp True (seq get (\<lambda>r. seq (ignore (on_filter (d_fsets (r_dec r)))) (\<lambda>_.
     seq (on_dec (modify (\<lambda>d. d\<lparr>d_status := replicate DST_MAX_CHANNELS (replicate 16 0xAA)\<rparr>))) (\<lambda>_.
     seq (clear_output nb) (\<lambda>_.
     seq (on_ac (ac_get (uint (prob_dst_x_bit (tb_coeff (d_fsets (r_dec r)) ! 0 ! 0))))) (\<lambda>_.
     seq (decode_samples maps channels n) (\<lambda>_.
     modify (\<lambda>r. r\<lparr>r_len := sint (of_nat nb :: u32)\<rparr>))))))))
     (\<lambda>_ r'. run_ok r0 r' \<and> r_len r' = sint (of_nat nb :: u32)) (\<lambda>_ _. False) r1"
    unfolding wp_seq [of _ get] wp_get
  proof (rule wp_then [where R = "\<lambda>_. run_ok r0"])
    show "wp True (ignore (on_filter (d_fsets (r_dec r1)))) (\<lambda>_. run_ok r0) (\<lambda>_ _. False) r1"
      unfolding wp_ignore on_filter_def wp_on_dec wp_zoom
      by (rule wp_mono [OF build_filter_keeps]) (use 1 els in \<open>auto simp: run_ok_def decoder_ok_def\<close>)
  next
    fix u :: unit and r2 assume r2: "run_ok r0 r2"
    show "wp True (seq (on_dec (modify (\<lambda>d. d\<lparr>d_status := replicate DST_MAX_CHANNELS (replicate 16 0xAA)\<rparr>))) (\<lambda>_.
     seq (clear_output nb) (\<lambda>_. seq (on_ac (ac_get ?p)) (\<lambda>_. seq (decode_samples maps channels n) (\<lambda>_.
     modify (\<lambda>r. r\<lparr>r_len := sint (of_nat nb :: u32)\<rparr>))))))
     (\<lambda>_ r'. run_ok r0 r' \<and> r_len r' = sint (of_nat nb :: u32)) (\<lambda>_ _. False) r2"
    proof (rule wp_then [where R = "\<lambda>_. run_ok r0"])
      show "wp True (on_dec (modify (\<lambda>d. d\<lparr>d_status := replicate DST_MAX_CHANNELS (replicate 16 0xAA)\<rparr>)))
          (\<lambda>_. run_ok r0) (\<lambda>_ _. False) r2"
        using r2 by (simp add: wp_on_dec wp_modify run_ok_def decoder_ok_def status_shape_def DST_MAX_CHANNELS_def)
    next
      fix u :: unit and r3 assume r3: "run_ok r0 r3"
      have clear: "wp True (clear_output nb) (\<lambda>_. run_ok r0) (\<lambda>_ _. False) r3"
        using r3 by (auto simp: wp_def clear_output_def run_ok_def)
      have coder: "wp True (on_ac (ac_get ?p)) (\<lambda>_. run_ok r0) (\<lambda>_ _. False) r4" if r4: "run_ok r0 r4" for r4
        unfolding wp_on_ac using run_okD [OF r4] run_ok_ac [OF r4]
        by (intro wp_mono [OF ac_get_reader [where E = "\<lambda>_ _. False"]]) auto
      have loop: "wp True (seq (decode_samples maps channels n) (\<lambda>_. modify (\<lambda>r. r\<lparr>r_len := sint (of_nat nb :: u32)\<rparr>)))
          (\<lambda>_ r'. run_ok r0 r' \<and> r_len r' = sint (of_nat nb :: u32)) (\<lambda>_ _. False) r5" if "run_ok r0 r5" for r5
        by (rule wp_then [OF decode_samples_keeps [OF that c]]) (simp add: wp_modify run_ok_def)
      show "wp True (seq (clear_output nb) (\<lambda>_. seq (on_ac (ac_get ?p)) (\<lambda>_. seq (decode_samples maps channels n) (\<lambda>_.
         modify (\<lambda>r. r\<lparr>r_len := sint (of_nat nb :: u32)\<rparr>)))))
         (\<lambda>_ r'. run_ok r0 r' \<and> r_len r' = sint (of_nat nb :: u32)) (\<lambda>_ _. False) r3"
        by (rule wp_then [OF clear], rule wp_then [OF coder], assumption, rule loop)
    qed
  qed
qed

text \<open>The sizes of a frame as the code computes them, for a decoder that \<^verbatim>\<open>dst_decoder_init\<close> accepts.\<close>

definition frame_samples :: "dst_decoder \<Rightarrow> u32" where
  "frame_samples d = of_int (DST_SAMPLES_PER_FRAME (d_sample_rate d))"

definition frame_channels :: "dst_decoder \<Rightarrow> u32" where
  "frame_channels d = of_int (d_channels d)"

definition frame_bytes :: "dst_decoder \<Rightarrow> nat" where
  "frame_bytes d = unat (frame_samples d) div 8 * unat (frame_channels d)"

lemma frame_sizes:
  assumes "decoder_ok d"
  shows "unat (frame_channels d) \<le> 6" "unat (frame_samples d) = 588 * nat (d_sample_rate d div 44100)"
    "unat (of_int (sint (frame_samples d div 8)) * frame_channels d) = frame_bytes d" "frame_bytes d < 2147483648"
proof -
  have c: "0 \<le> d_channels d" "d_channels d \<le> 6" and rt: "0 \<le> d_sample_rate d" "d_sample_rate d \<le> 2147483647"
    using assms by (auto simp: decoder_ok_def)
  have ch: "frame_channels d = of_nat (nat (d_channels d))" using c by (simp add: frame_channels_def)
  have "unat (frame_channels d) = nat (d_channels d)" unfolding ch using c by (intro unat_of_nat_u32) simp
  then show c6: "unat (frame_channels d) \<le> 6" using c by simp
  have spf: "DST_SAMPLES_PER_FRAME (d_sample_rate d) = 588 * (d_sample_rate d div 44100)"
    using rt by (cases "d_sample_rate d = 0") (simp_all add: DST_SAMPLES_PER_FRAME_def DSD_FS44_def)
  have k: "0 \<le> d_sample_rate d div 44100" "d_sample_rate d div 44100 \<le> 48695" using rt by auto
  have fs: "frame_samples d = of_nat (588 * nat (d_sample_rate d div 44100))"
    using k by (simp add: frame_samples_def spf)
  show n: "unat (frame_samples d) = 588 * nat (d_sample_rate d div 44100)"
    unfolding fs using k by (intro unat_of_nat_u32) simp
  have small: "unat (frame_samples d) div 8 \<le> 3579083" using n k by simp
  then have "unat (frame_samples d) div 8 * unat (frame_channels d) \<le> 3579083 * 6"
    using c6 by (rule mult_le_mono)
  then show fb: "frame_bytes d < 2147483648" by (simp add: frame_bytes_def)
  have d8: "unat (frame_samples d div 8) = unat (frame_samples d) div 8" by (simp add: unat_div)
  then have "sint (frame_samples d div 8) = int (unat (frame_samples d) div 8)"
    using sint_unat_u32 [of "frame_samples d div 8"] small by simp
  then have "of_int (sint (frame_samples d div 8)) * frame_channels d = (of_nat (frame_bytes d) :: u32)"
    by (simp add: frame_bytes_def d8)
  then show "unat (of_int (sint (frame_samples d div 8)) * frame_channels d) = frame_bytes d"
    using fb by (simp add: unat_of_nat_u32)
qed

section \<open>A frame\<close>

definition keeps :: "dst_run \<Rightarrow> dst_run \<Rightarrow> bool" where
  "keeps r r' \<longleftrightarrow> decoder_ok (r_dec r') \<and> d_channels (r_dec r') = d_channels (r_dec r) \<and>
     d_sample_rate (r_dec r') = d_sample_rate (r_dec r) \<and> length (r_out r') = length (r_out r)"

lemma run_ok_keeps: "run_ok r r' \<Longrightarrow> keeps r r'"
  by (simp add: run_ok_def keeps_def)

lemma frame_size_gb:
  "decoder_ok d \<Longrightarrow> decoder_ok (d\<lparr>d_gb := g\<rparr>)"
  by (simp add: decoder_ok_def)

lemma init_get_bits8_fails: "268435391 < n \<Longrightarrow> n \<le> 2147483647 \<Longrightarrow> \<exists>g. init_get_bits8 (Some b) n = (False, g)"
  by (simp add: init_get_bits8_def init_get_bits_def Let_def)

definition frame_reader :: "byte list \<Rightarrow> int \<Rightarrow> get_bit_context" where
  "frame_reader data frame_size = gb_skip 1 (snd (init_get_bits8 (Some data) frame_size))"

lemma frame_reader_ok:
  assumes "0 \<le> n" "n \<le> 268435391" "nat n + 64 \<le> length b"
  obtains g where "init_get_bits8 (Some b) n = (True, g)" "gb_ok g" "gb_buffer g = b" "gb_pos g = 0"
    "gb_end g = 8 * nat n" "frame_reader b n = gb_skip 1 g"
  using init_get_bits8_ok [OF assms] by (auto simp: frame_reader_def)

text \<open>What remains of a frame once its first bit has been read.\<close>

definition frame_rest :: "byte list \<Rightarrow> int \<Rightarrow> bool \<Rightarrow> dst_run \<Rightarrow> (dst_error, unit) outcome \<times> dst_run" where
  "frame_rest data frame_size coded r =
     (if coded then decode_coded (frame_channels (r_dec r)) (frame_samples (r_dec r)) (frame_bytes (r_dec r))
      else seq (on_gb skip_bits1) (\<lambda>_. seq (on_gb (get_bits 6)) (\<lambda>v. seq (ensure (v = 0) AVERROR_INVALIDDATA) (\<lambda>_.
           seq (copy_frame data (min (unat (of_int (frame_size - 1) :: u32)) (frame_bytes (r_dec r)))) (\<lambda>_.
           modify (\<lambda>r. r\<lparr>r_len := frame_size\<rparr>)))))) r"

lemma decode_frame_split:
  assumes ok: "decoder_ok (r_dec r)" and n: "2 \<le> n" "n \<le> 268435391" "nat n + 64 \<le> length data"
  shows "decode_frame data n r =
    frame_rest data n (stream_bit data 0) (r\<lparr>r_dec := (r_dec r)\<lparr>d_gb := frame_reader data n\<rparr>\<rparr>)"
proof -
  obtain g where g: "init_get_bits8 (Some data) n = (True, g)" "gb_ok g" "gb_buffer g = data" "gb_pos g = 0"
    "frame_reader data n = gb_skip 1 g"
    using frame_reader_ok [of n data] n by auto
  let ?r1 = "r\<lparr>r_dec := (r_dec r)\<lparr>d_gb := g\<rparr>\<rparr>"
  let ?r2 = "r\<lparr>r_dec := (r_dec r)\<lparr>d_gb := frame_reader data n\<rparr>\<rparr>"
  have s1: "on_gb (modify (\<lambda>_. g)) r = ((Ok (), ?r1) :: (dst_error, unit) outcome \<times> _)"
    by (simp add: on_gb_def on_dec_def zoom_def)
  have s2: "on_gb get_bits1 ?r1 = ((Ok (stream_bit data 0), ?r2) :: (dst_error, bool) outcome \<times> _)"
    using g by (simp add: on_gb_def on_dec_def zoom_def get_bits1_value)
  have same: "frame_channels (r_dec ?r2) = frame_channels (r_dec r)" "frame_samples (r_dec ?r2) = frame_samples (r_dec r)"
    "frame_bytes (r_dec ?r2) = frame_bytes (r_dec r)"
    by (simp_all add: frame_channels_def frame_samples_def frame_bytes_def)
  have sizes: "unat (of_int (sint (frame_samples (r_dec r) div 8)) * frame_channels (r_dec r)) = frame_bytes (r_dec r)"
    by (rule frame_sizes(3) [OF ok])
  have n1: "\<not> n \<le> 1" using n by simp
  show ?thesis
    unfolding decode_frame_def frame_rest_def same Let_def frame_samples_def [symmetric] frame_channels_def [symmetric]
      seq_Ok [where m = get and s = r and k = k for k, OF get_apply]
    by (simp only: seq_Ok get_apply n1 ensure_apply not_False_eq_True if_True g(1) prod.case s1 s2 sizes if_distribR split: if_split)
      simp
qed

lemma keeps_trans_run: "keeps r s \<Longrightarrow> run_ok s t \<Longrightarrow> keeps r t"
  by (simp add: keeps_def run_ok_def)

lemma decode_coded_keeps:
  assumes r: "decoder_ok (r_dec r)" "gb_ok (d_gb (r_dec r))" and c: "unat channels \<le> 6"
  shows "wp True (decode_coded channels n nb) (\<lambda>_ r'. run_ok r r' \<and> r_len r' = sint (of_nat nb :: u32))
    (frame_err r) r"
  unfolding decode_coded_def
proof (rule wp_then [OF decode_header_ok [OF _ c]])
  show "run_ok r r" using r by (simp add: run_ok_def)
  fix maps r' assume h: "run_ok r r' \<and> header_maps (unat channels) maps (r_dec r')"
  show "wp True (decode_body maps channels n nb) (\<lambda>_ r'. run_ok r r' \<and> r_len r' = sint (of_nat nb :: u32)) (frame_err r) r'"
    by (rule wp_mono [OF decode_body_keeps [OF _ c]])
      (use h in \<open>auto simp: header_maps_def maps_good_def\<close>)
qed

lemma uncoded_frame_run:
  assumes g: "gb_ok (d_gb (r_dec r))"
  shows "frame_rest data n False r =
    (let g1 = gb_skip 1 (d_gb (r_dec r)); r1 = r\<lparr>r_dec := (r_dec r)\<lparr>d_gb := gb_skip 6 g1\<rparr>\<rparr>;
         m = min (unat (of_int (n - 1) :: u32)) (frame_bytes (r_dec r)) in
     if bits_at (gb_buffer g1) (gb_pos g1) 6 \<noteq> 0 then (Err AVERROR_INVALIDDATA, r1)
     else if 1 + m \<le> length data \<and> m \<le> length (r_out r)
          then (Ok (), r1\<lparr>r_out := take m (drop 1 data) @ drop m (r_out r), r_len := n\<rparr>)
          else (Fault, r1))"
proof -
  let ?g1 = "gb_skip 1 (d_gb (r_dec r))"
  let ?r1 = "r\<lparr>r_dec := (r_dec r)\<lparr>d_gb := ?g1\<rparr>\<rparr>"
  let ?r2 = "r\<lparr>r_dec := (r_dec r)\<lparr>d_gb := gb_skip 6 ?g1\<rparr>\<rparr>"
  have s1: "on_gb skip_bits1 r = ((Ok (), ?r1) :: (dst_error, unit) outcome \<times> _)"
    using g by (simp add: on_gb_def on_dec_def zoom_def skip_bits1_value)
  have s2: "on_gb (get_bits 6) ?r1 =
      ((Ok (bits_at (gb_buffer ?g1) (gb_pos ?g1) 6), ?r2) :: (dst_error, u32) outcome \<times> _)"
    using g by (simp add: on_gb_def on_dec_def zoom_def get_bits_value)
  have fb: "frame_bytes (r_dec ?r1) = frame_bytes (r_dec r)"
    by (simp add: frame_bytes_def frame_channels_def frame_samples_def)
  show ?thesis
    unfolding frame_rest_def if_False Let_def
    by (simp only: seq_Ok s1 s2) (simp add: seq_def copy_frame_def ensure_def)
qed

lemma decode_frame_keeps:
  assumes ok: "decoder_ok (r_dec r)" and n: "n \<le> 2147483647" "nat n + 64 \<le> length data"
  shows "wp True (decode_frame data n)
    (\<lambda>_ r'. keeps r r' \<and> r_len r' = (if stream_bit data 0 then int (frame_bytes (r_dec r)) else n))
    (\<lambda>e r'. dst_errors e \<and> keeps r r') r"
proof -
  consider "n \<le> 1" | "2 \<le> n" "n \<le> 268435391" | "268435391 < n" by linarith
  then show ?thesis
  proof cases
    case 1
    then show ?thesis
      using ok by (simp add: decode_frame_def Let_def wp_seq wp_get wp_ensure dst_errors_def keeps_def)
  next
    case 3
    then obtain g where "init_get_bits8 (Some data) n = (False, g)"
      using init_get_bits8_fails n(1) by blast
    then show ?thesis
      using 3 ok by (simp add: decode_frame_def Let_def wp_seq wp_get wp_ensure wp_on_gb wp_modify
          dst_errors_def keeps_def frame_size_gb)
  next
    case 2
    let ?r = "r\<lparr>r_dec := (r_dec r)\<lparr>d_gb := frame_reader data n\<rparr>\<rparr>"
    obtain g where "gb_ok g" "frame_reader data n = gb_skip 1 g"
      using frame_reader_ok [of n data] 2 n by auto
    then have ok': "decoder_ok (r_dec ?r)" "gb_ok (d_gb (r_dec ?r))"
      using ok by (simp_all add: frame_size_gb)
    have split: "decode_frame data n r = frame_rest data n (stream_bit data 0) ?r"
      by (rule decode_frame_split [OF ok 2 n(2)])
    have sizes: "frame_bytes (r_dec ?r) = frame_bytes (r_dec r)" "unat (frame_channels (r_dec ?r)) \<le> 6"
      "sint (of_nat (frame_bytes (r_dec r)) :: u32) = int (frame_bytes (r_dec r))"
      using frame_sizes [OF ok] frame_sizes(1) [OF ok'(1)] sint_small_u32 [of "frame_bytes (r_dec r)"]
      by (simp_all add: frame_bytes_def frame_channels_def frame_samples_def)
    show ?thesis
    proof (cases "stream_bit data 0")
      case True
      have "wp True (decode_coded (frame_channels (r_dec ?r)) (frame_samples (r_dec ?r)) (frame_bytes (r_dec ?r)))
          (\<lambda>_ r'. keeps r r' \<and> r_len r' = int (frame_bytes (r_dec r))) (\<lambda>e r'. dst_errors e \<and> keeps r r') ?r"
        by (rule wp_mono [OF decode_coded_keeps [OF ok' sizes(2)]])
          (use sizes in \<open>auto simp: run_ok_def keeps_def frame_err_def\<close>)
      then show ?thesis using True by (simp add: wp_def split frame_rest_def)
    next
      case False
      have len: "m \<le> length out \<Longrightarrow> 1 + m \<le> length data \<Longrightarrow>
          length (take m (drop 1 data) @ drop m out) = length out" for m and out :: "byte list"
        by simp
      define m where "m = min (unat (of_int (n - 1) :: u32)) (frame_bytes (r_dec ?r))"
      have ok6: "decoder_ok (r_dec r\<lparr>d_gb := g\<rparr>)" for g using ok by (rule frame_size_gb)
      show ?thesis
        unfolding wp_def split
        using False len [of m "r_out r"] ok6
        by (simp only: uncoded_frame_run [OF ok'(2), of data n] Let_def m_def [symmetric])
          (auto simp: keeps_def dst_errors_def min_def)
    qed
  qed
qed

lemma header_ok_after:
  assumes run: "decode_header channels r = (Ok maps, r1)"
    and r: "decoder_ok (r_dec r)" "gb_ok (d_gb (r_dec r))" and c: "unat channels \<le> 6"
    and filled: "filled 7 9 True 0 (unat (tb_elements (d_fsets (r_dec r1)))) (d_fsets (r_dec r1))"
      "filled 6 7 False 1 (unat (tb_elements (d_probs (r_dec r1)))) (d_probs (r_dec r1))"
  shows "header_ok maps (unat channels) (r_dec r1) \<and> run_ok r r1"
proof -
  have "run_ok r r" using r by (simp add: run_ok_def)
  from wp_OkD [OF decode_header_ok [OF this c] run]
  have "run_ok r r1" "header_maps (unat channels) maps (r_dec r1)" by auto
  then show ?thesis
    using filled c by (auto simp: header_ok_def run_ok_def decoder_ok_def header_maps_def maps_good_def)
qed

text \<open>Coefficients of at most twelve bits never overflow the 16-bit entries.\<close>

lemma filter_sum_bound:
  assumes "\<forall>j<128. \<bar>coeff ! j\<bar> \<le> 4095" "j * 8 + n \<le> 128" "n \<le> 8"
  shows "\<bar>\<Sum>l<n. (if bit (k :: nat) l then coeff ! (j * 8 + l) else - coeff ! (j * 8 + l))\<bar> \<le> 4095 * int n"
  using assms(2)
proof (induction n)
  case (Suc n)
  have "\<bar>coeff ! (j * 8 + n)\<bar> \<le> 4095" using assms(1) Suc.prems by simp
  then show ?case using Suc by (auto simp: abs_le_iff)
qed simp

end
