(* ===== verification/Dst_Example.thy ===== *)
theory Dst_Example
  imports Dst_Object
begin

text \<open>
  A concrete decoder and a concrete coded frame whose header is evaluated, the inputs at which the
  properties of the decoder are instantiated.
\<close>

section \<open>A small frame\<close>

text \<open>
  A frame of eight bytes for one channel: the flag bits are all ones, then one filter of the single
  coefficient 0 and one table of the single probability 1, both uncoded, and zeros.
\<close>

definition small_frame :: "byte list" where
  "small_frame = 0xFE # replicate 71 0"

definition small_reader :: "nat \<Rightarrow> get_bit_context" where
  "small_reader p = \<lparr>gb_buffer = small_frame, gb_index = of_nat p, gb_size_in_bits = 64, gb_size_in_bits_plus8 = 72\<rparr>"

definition small_decoder :: dst_decoder where
  "small_decoder = zero_decoder\<lparr>d_channels := 1, d_sample_rate := 2822400\<rparr>"

lemma fresh_decoder_ok:
  assumes "0 \<le> c" "c \<le> 6" "0 \<le> rate" "rate \<le> 2147483647"
  shows "decoder_ok (zero_decoder\<lparr>d_channels := c, d_sample_rate := rate\<rparr>)"
  using assms by (simp add: decoder_ok_def zero_decoder_def zero_table_def status_shape_def filters_shape_def
      rows_shape_def table_ok_def DST_MAX_CHANNELS_def DST_MAX_ELEMENTS_def)

lemma small_decoder_ok: "decoder_ok small_decoder"
  unfolding small_decoder_def by (rule fresh_decoder_ok) auto

lemma small_bit: "j < 576 \<Longrightarrow> stream_bit small_frame j \<longleftrightarrow> j < 7"
proof -
  assume j: "j < 576"
  show ?thesis
  proof (cases "j < 8")
    case True
    then have "j = 0 \<or> j = 1 \<or> j = 2 \<or> j = 3 \<or> j = 4 \<or> j = 5 \<or> j = 6 \<or> j = 7" by linarith
    then show ?thesis by (elim disjE) (simp_all add: stream_bit_def small_frame_def)
  next
    case False
    then have "0 < j div 8" "j div 8 < 72" using j by auto
    then show ?thesis using False by (simp add: stream_bit_def small_frame_def nth_Cons')
  qed
qed

lemma small_bits: "7 \<le> j \<Longrightarrow> j + n \<le> 576 \<Longrightarrow> bits_at small_frame j n = 0"
  by (rule bit_word_eqI) (auto simp: bit_bits_at small_bit)

lemma small_reader_facts:
  assumes "p \<le> 72"
  shows "gb_ok (small_reader p)" "gb_pos (small_reader p) = p" "gb_end (small_reader p) = 64"
    "gb_buffer (small_reader p) = small_frame"
  using assms by (simp_all add: small_reader_def gb_ok_def gb_pos_def gb_end_def small_frame_def
      word_le_nat_alt unat_of_nat)

lemma small_skip: "p + n \<le> 72 \<Longrightarrow> gb_skip n (small_reader p) = small_reader (p + n)"
  using small_reader_facts [of p] by (simp add: gb_skip_def min_def) (simp add: small_reader_def)

lemma small_get_bits1: "p < 72 \<Longrightarrow> get_bits1 (small_reader p) = (Ok (p < 7), small_reader (p + 1))"
  using small_reader_facts [of p] small_skip [of p 1] by (simp add: get_bits1_value small_bit)

lemma small_get_bits:
  assumes "7 \<le> p" "p + n \<le> 72" "0 < n" "n \<le> 25"
  shows "get_bits n (small_reader p) = (Ok 0, small_reader (p + n))"
  using assms small_reader_facts [of p] small_skip [of p n] by (simp add: get_bits_value small_bits)

lemma small_get_sbits:
  assumes "7 \<le> p" "p + n \<le> 72" "0 < n" "n \<le> 25"
  shows "get_sbits n (small_reader p) = (Ok 0, small_reader (p + n))"
  using assms small_reader_facts [of p] small_skip [of p n] by (simp add: get_sbits_value small_bits)

lemma small_frame_reader: "frame_reader small_frame 8 = small_reader 1"
proof -
  have "init_get_bits8 (Some small_frame) 8 = (True, small_reader 0)"
    by (simp add: init_get_bits8_def init_get_bits_def Let_def small_reader_def)
  then show ?thesis using small_skip [of 0 1] by (simp add: frame_reader_def)
qed

text \<open>The tables the header leaves.\<close>

definition small_table :: "int \<Rightarrow> dst_table" where
  "small_table c = \<lparr>tb_elements = 1, tb_length = (replicate 12 0)[0 := 1],
     tb_coeff = (replicate 12 (replicate 128 0))[0 := (replicate 128 0)[0 := c]]\<rparr>"

definition small_maps :: dst_maps where
  "small_maps = \<lparr>map_ch_to_felem = replicate 6 (Some 0), map_ch_to_pelem = replicate 6 (Some 0),
     half_prob = (replicate 6 None)[0 := Some True]\<rparr>"

lemma small_read_map:
  "local_map (read_map 1) (small_reader 5, t) =
    ((Ok (replicate 6 (Some 0)), (small_reader 6, t\<lparr>tb_elements := 1\<rparr>)) :: (dst_error, dst_map) outcome \<times> _)"
  by (simp add: local_map_def read_map_def seq_def on_fst_def on_snd_def zoom_def arr_write_def
      DST_MAX_CHANNELS_def small_get_bits1)

lemma small_read_uncoded:
  assumes "7 \<le> p" "p + 9 \<le> 72"
  shows "read_uncoded_coeff (Suc 0) 9 True 0 (small_reader p, row) = (if length row = 0 then (Fault, (small_reader (p + 9), row))
      else (Ok (), (small_reader (p + 9), row[0 := 0])))"
    "read_uncoded_coeff (Suc 0) 7 False 1 (small_reader p, row) = (if length row = 0 then (Fault, (small_reader (p + 7), row))
      else (Ok (), (small_reader (p + 7), row[0 := 1])))"
  using assms
  by (simp_all add: read_uncoded_coeff_def for_loop_unfold seq_def on_fst_def on_snd_def zoom_def arr_write_def
      small_get_sbits small_get_bits)

lemma small_read_table:
  assumes "7 \<le> p" "p + 17 \<le> 72"
  shows "read_table c 7 9 True 0 (small_reader p, zero_table\<lparr>tb_elements := 1\<rparr>) =
      ((Ok (), (small_reader (p + 17), small_table 0)) :: (dst_error, unit) outcome \<times> _)"
    "read_table c 6 7 False 1 (small_reader p, zero_table\<lparr>tb_elements := 1\<rparr>) =
      ((Ok (), (small_reader (p + 14), small_table 1)) :: (dst_error, unit) outcome \<times> _)"
  using assms
  by (simp_all add: read_table_def read_table_element_def for_loop_unfold seq_def on_fst_def on_length_def on_snd_def
      on_coeff_row_def on_row_def zoom_def arr_write_def small_get_bits small_get_bits1 small_read_uncoded Let_def
      zero_table_def DST_MAX_ELEMENTS_def DST_MAX_CHANNELS_def small_table_def add.assoc add.commute)

definition small_run :: "byte list \<Rightarrow> int \<Rightarrow> dst_run" where
  "small_run out l = \<lparr>r_dec = small_decoder\<lparr>d_gb := small_reader 1\<rparr>, r_out = out, r_len = l\<rparr>"

definition small_header :: "byte list \<Rightarrow> int \<Rightarrow> dst_run" where
  "small_header out l = \<lparr>r_dec = small_decoder\<lparr>d_gb := small_reader 39, d_fsets := small_table 0,
     d_probs := small_table 1\<rparr>, r_out = out, r_len = l\<rparr>"

lemma small_fields: "d_fsets small_decoder = zero_table" "d_probs small_decoder = zero_table"
  "d_channels small_decoder = 1" "d_sample_rate small_decoder = 2822400"
  by (simp_all add: small_decoder_def zero_decoder_def)

lemma small_channels: "frame_channels small_decoder = 1"
  by (simp add: frame_channels_def small_fields)

lemma small_half_prob:
  assumes "d_gb (r_dec r) = small_reader 6"
  shows "read_half_prob 1 r = (Ok ((replicate 6 None)[0 := Some True]), r\<lparr>r_dec := (r_dec r)\<lparr>d_gb := small_reader 7\<rparr>\<rparr>)"
  using assms
  by (simp add: read_half_prob_def for_loop_unfold seq_def on_fst_def on_snd_def zoom_def arr_write_def
      DST_MAX_CHANNELS_def small_get_bits1)

lemma small_read_maps:
  assumes "d_gb (r_dec r) = small_reader 4" "d_fsets (r_dec r) = zero_table" "d_probs (r_dec r) = zero_table"
  shows "read_maps 1 r = (Ok (replicate 6 (Some 0), replicate 6 (Some 0)),
    r\<lparr>r_dec := (r_dec r)\<lparr>d_gb := small_reader 6, d_fsets := zero_table\<lparr>tb_elements := 1\<rparr>,
      d_probs := zero_table\<lparr>tb_elements := 1\<rparr>\<rparr>\<rparr>)"
  using assms
  by (simp add: read_maps_def seq_def on_gb_def on_fsets_def on_dec_def zoom_def small_get_bits1 small_read_map)

lemma small_on_gb: "d_gb (r_dec r) = small_reader p \<Longrightarrow> p < 72 \<Longrightarrow>
    on_gb get_bits1 r = (Ok (p < 7), r\<lparr>r_dec := (r_dec r)\<lparr>d_gb := small_reader (p + 1)\<rparr>\<rparr>)"
  by (simp add: on_gb_def on_dec_def zoom_def small_get_bits1)

lemma small_decode_header:
  "decode_header 1 (small_run out l) = (Ok small_maps, small_header out l)"
proof -
  let ?T = "zero_table\<lparr>tb_elements := 1\<rparr>"
  let ?r = "\<lambda>p. \<lparr>r_dec = small_decoder\<lparr>d_gb := small_reader p\<rparr>, r_out = out, r_len = l\<rparr>"
  let ?s = "\<lambda>p f q. \<lparr>r_dec = small_decoder\<lparr>d_gb := small_reader p, d_fsets := f, d_probs := q\<rparr>, r_out = out, r_len = l\<rparr>"
  have b1: "on_gb get_bits1 (?r p) = ((Ok True, ?r (p + 1)) :: (dst_error, bool) outcome \<times> _)" if "p < 7" for p
    using that small_on_gb [of "?r p" p] by simp
  have c1: "on_gb get_bits1 (?r 1) = ((Ok True, ?r 2) :: (dst_error, bool) outcome \<times> _)"
    by (rule b1 [of 1, unfolded one_add_one]) simp
  have n: "2 + 1 = (3 :: nat)" "3 + 1 = (4 :: nat)" "38 + 1 = (39 :: nat)" by simp_all
  have c2: "on_gb get_bits1 (?r 2) = ((Ok True, ?r 3) :: (dst_error, bool) outcome \<times> _)"
    by (rule b1 [of 2, unfolded n]) simp
  have c3: "on_gb get_bits1 (?r 3) = ((Ok True, ?r 4) :: (dst_error, bool) outcome \<times> _)"
    by (rule b1 [of 3, unfolded n]) simp
  have reorder: "small_decoder\<lparr>d_fsets := f, d_probs := q, d_gb := g\<rparr> = small_decoder\<lparr>d_gb := g, d_fsets := f, d_probs := q\<rparr>"
    for f q g by simp
  have b2: "on_gb get_bits1 (?s p f q) = ((Ok False, ?s (p + 1) f q) :: (dst_error, bool) outcome \<times> _)"
    if "7 \<le> p" "p < 72" for p f q
    using that small_on_gb [of "?s p f q" p] by (simp add: reorder)
  have c4: "on_gb get_bits1 (?s 38 f q) = ((Ok False, ?s 39 f q) :: (dst_error, bool) outcome \<times> _)" for f q
    by (rule b2 [of 38, unfolded n]) simp_all
  have m: "read_maps 1 (?r 4) = (Ok (replicate 6 (Some 0), replicate 6 (Some 0)), ?s 6 ?T ?T)"
    using small_read_maps [of "?r 4"] by (simp add: small_fields)
  have h: "read_half_prob 1 (?s 6 ?T ?T) = (Ok ((replicate 6 None)[0 := Some True]), ?s 7 ?T ?T)"
    using small_half_prob [of "?s 6 ?T ?T"] by simp
  have t1: "ignore (on_fsets (read_table fsets_code_pred_coeff 7 9 True 0)) (?s 7 ?T ?T) =
      ((Ok (), ?s 24 (small_table 0) ?T) :: (dst_error, unit) outcome \<times> _)"
    using small_read_table(1) [of 7 fsets_code_pred_coeff]
    by (simp add: ignore_def on_fsets_def on_dec_def zoom_def)
  have t2: "ignore (on_probs (read_table probs_code_pred_coeff 6 7 False 1)) (?s 24 (small_table 0) ?T) =
      ((Ok (), ?s 38 (small_table 0) (small_table 1)) :: (dst_error, unit) outcome \<times> _)"
    using small_read_table(2) [of 24 probs_code_pred_coeff]
    by (simp add: ignore_def on_probs_def on_dec_def zoom_def)
  have e: "small_header out l = ?s 39 (small_table 0) (small_table 1)"
    by (simp add: small_header_def)
  show ?thesis
    unfolding e small_run_def decode_header_def small_maps_def
    by (simp only: seq_Ok c1 c2 c3 ensure_apply if_True m prod.case
        h t1 t2 c4 not_False_eq_True ret_apply)
qed

text \<open>Filters of coefficients below twelve bits are always built.\<close>

lemma sint_u16_small: "\<bar>v\<bar> \<le> 32767 \<Longrightarrow> sint (of_int v :: u16) = v"
proof -
  assume "\<bar>v\<bar> \<le> 32767"
  then have "signed_take_bit 15 v = v" by (intro signed_take_bit_int_eq_self) auto
  then show ?thesis by (simp add: sint_sbintrunc')
qed

lemma filter_entry_total:
  assumes c: "length coeff = 128" "\<forall>j<128. \<bar>coeff ! j\<bar> \<le> 4095" and rows: "rows_shape rows" and j: "j < 16" "k < 256"
  shows "wp False (filter_entry coeff len j k) (\<lambda>_. rows_shape) (\<lambda>_ _. False) rows"
proof -
  have neg: "False \<or> coeffs_negatable coeff" using c by (auto simp: coeffs_negatable_def)
  let ?n = "filter_total len j"
  let ?v = "\<Sum>l<?n. (if bit k l then coeff ! (j * 8 + l) else - coeff ! (j * 8 + l))"
  have "?n \<le> 8" by (simp add: filter_total_def)
  then have "\<bar>?v\<bar> \<le> 4095 * int ?n" using filter_sum_bound [OF c(2) filter_total_le [OF j(1)]] by blast
  then have "\<bar>?v\<bar> \<le> 32767" using \<open>?n \<le> 8\<close> by linarith
  then have fits: "sint (of_int ?v :: u16) = ?v" by (rule sint_u16_small)
  have shape: "j < length rows" "k < length (rows ! j)" using rows j by (auto simp: rows_shape_def)
  have put: "rows_shape (rows[j := (rows ! j)[k := x]])" for x
    using rows j by (auto simp: rows_shape_def nth_list_update)
  show ?thesis
    unfolding filter_entry_def wp_seq
    by (rule wp_mono [OF filter_sum_ok [OF neg filter_total_le [OF j(1)], where E = "\<lambda>_ _. False"]])
      (use fits shape put in \<open>auto simp: wp_def\<close>)
qed

lemma build_filter_total:
  assumes "table_ok t" "unat (tb_elements t) \<le> 12" "filters_shape tables"
    "\<forall>i<unat (tb_elements t). \<forall>j<128. \<bar>tb_coeff t ! i ! j\<bar> \<le> 4095"
  shows "wp False (build_filter t) (\<lambda>_. filters_shape) (\<lambda>_ _. False) tables"
  unfolding build_filter_def
proof (rule wp_for_loop [where I = "\<lambda>_. filters_shape"])
  fix i tables' assume i: "i < unat (tb_elements t)" and inv: "filters_shape tables'"
  have i12: "i < 12" using i assms(2) by simp
  have sh: "rows_shape (tables' ! i)" "length tables' = 12" using inv i12 by (auto simp: filters_shape_def)
  have c: "length (tb_coeff t ! i) = 128" "\<forall>j<128. \<bar>tb_coeff t ! i ! j\<bar> \<le> 4095"
    using assms(1,4) i i12 by (auto simp: table_ok_def)
  have "wp False (for_loop 0 16 (\<lambda>j. for_loop 0 256 (filter_entry (tb_coeff t ! i) (tb_length t ! i) j)))
      (\<lambda>_. rows_shape) (\<lambda>_ _. False) (tables' ! i)"
    by (rule wp_for_loop [where I = "\<lambda>_. rows_shape", OF sh(1)], simp,
        rule wp_for_loop [where I = "\<lambda>_. rows_shape"]) (auto intro: filter_entry_total [OF c])
  then show "wp False (\<lambda>tables. if i < length tables \<and> i < length (tb_length t) \<and> i < length (tb_coeff t)
       then case for_loop 0 16 (\<lambda>j. for_loop 0 256 (filter_entry (tb_coeff t ! i)
              (tb_length t ! i) j)) (tables ! i) of (r, rows) \<Rightarrow> (r, tables[i := rows])
       else (Fault, tables)) (\<lambda>_. filters_shape) (\<lambda>_ _. False) tables'"
    using sh inv assms(1) i12
    by (auto simp: wp_def table_ok_def filters_shape_def nth_list_update split: prod.splits outcome.splits)
qed (use assms in auto)

lemma small_tables: "table_ok (small_table c)" "filled 7 9 True 0 1 (small_table 0)" "filled 6 7 False 1 1 (small_table 1)"
  "unat (tb_elements (small_table c)) = 1"
  by (auto simp: small_table_def table_ok_def filled_def row_ok_def coeff_in_def nth_list_update set_update_subset_insert
      dest!: set_update_subset_insert [THEN subsetD])

lemma small_filters: "fst (build_filter (small_table 0) (d_filter small_decoder)) = Ok ()"
proof -
  have "filters_shape (d_filter small_decoder)" using small_decoder_ok by (simp add: decoder_ok_def)
  moreover have "\<forall>j<128. \<bar>tb_coeff (small_table 0) ! 0 ! j\<bar> \<le> 4095"
    by (auto simp: small_table_def nth_list_update)
  ultimately have "wp False (build_filter (small_table 0)) (\<lambda>_. filters_shape) (\<lambda>_ _. False) (d_filter small_decoder)"
    using small_tables by (intro build_filter_total) auto
  from wp_total [OF this] show ?thesis by auto
qed

end
