(* ===== verification/Dst_Properties.thy ===== *)
theory Dst_Properties
  imports Dst_Example
begin

text \<open>The properties of the DST decoder and of the bit reader it rests on.\<close>

section \<open>Frames\<close>

lemma decode_call:
  "dst_decoder_decode (Some data) n (Some d, Some out, Some l) =
    (case decode_frame data n \<lparr>r_dec = d, r_out = out, r_len = l\<rparr> of
      (res, r) \<Rightarrow> (res, (Some (r_dec r), Some (r_out r), Some (r_len r))))"
  by (simp add: dst_decoder_decode_def)

lemma eight_dvd_samples:
  assumes "decoder_ok d" "even (d_sample_rate d div 44100)"
  shows "8 dvd unat (frame_samples d)"
proof -
  have "0 \<le> d_sample_rate d div 44100"
    using assms(1) by (simp add: decoder_ok_def pos_imp_zdiv_nonneg_iff)
  then have "even (nat (d_sample_rate d div 44100))" using assms(2) by (metis even_nat_iff)
  then obtain m where "nat (d_sample_rate d div 44100) = 2 * m" by (elim evenE)
  then have "unat (frame_samples d) = 8 * (147 * m)" using frame_sizes(2) [OF assms(1)] by simp
  then show ?thesis by simp
qed

text \<open>C12. A coded frame whose header is read to the end, with both tables complete and filters that
  fit their entries, is decoded: the call succeeds and reports the bytes of a frame, and sample
  \<open>i\<close> of channel \<open>ch\<close> is bit \<open>7 - i mod 8\<close> of byte \<open>i div 8 * channels + ch\<close> of the output.
  The samples are those of the reference decoder, which keeps the history of each channel as a
  sequence of bits and predicts by a dot product, without filter tables or status bytes.\<close>

theorem coded_frame_refines:
  assumes d: "decoder_ok d" "even (d_sample_rate d div 44100)"
    and n: "2 \<le> n" "n \<le> 268435391" "nat n + 64 \<le> length data" and coded: "stream_bit data 0"
    and out: "frame_bytes d \<le> length out"
    and header: "decode_header (frame_channels d)
        \<lparr>r_dec = d\<lparr>d_gb := frame_reader data n\<rparr>, r_out = out, r_len = l\<rparr> = (Ok maps, r1)"
    and tables: "filled 7 9 True 0 (unat (tb_elements (d_fsets (r_dec r1)))) (d_fsets (r_dec r1))"
      "filled 6 7 False 1 (unat (tb_elements (d_probs (r_dec r1)))) (d_probs (r_dec r1))"
    and filters: "fst (build_filter (d_fsets (r_dec r1)) (d_filter (r_dec r1))) = Ok ()"
  shows "\<exists>d' out'. dst_decoder_decode (Some data) n (Some d, Some out, Some l) =
      (Ok (), (Some d', Some out', Some (int (frame_bytes d)))) \<and> length out' = length out \<and>
    (\<forall>i<unat (frame_samples d). \<forall>ch<unat (frame_channels d).
       out_bit (unat (frame_channels d)) out' i ch =
       spec_frame maps (unat (frame_channels d)) (unat (frame_samples d)) (r_dec r1) !
         (i * unat (frame_channels d) + ch))"
proof -
  let ?r = "\<lparr>r_dec = d, r_out = out, r_len = l\<rparr>"
  let ?start = "\<lparr>r_dec = d\<lparr>d_gb := frame_reader data n\<rparr>, r_out = out, r_len = l\<rparr>"
  obtain g where "gb_ok g" "frame_reader data n = gb_skip 1 g"
    using frame_reader_ok [of n data] n by auto
  then have ok: "decoder_ok (r_dec ?start)" "gb_ok (d_gb (r_dec ?start))"
    using frame_size_gb [OF d(1)] by simp_all
  note sizes = frame_sizes [OF d(1)]
  have h: "header_ok maps (unat (frame_channels d)) (r_dec r1)" "run_ok ?start r1"
    using header_ok_after [OF header ok sizes(1) tables] by auto
  have len: "unat (frame_samples d) div 8 * unat (frame_channels d) \<le> length (r_out r1)"
    using out h(2) by (simp add: run_ok_def frame_bytes_def)
  from decode_body_refines [OF h(1) eight_dvd_samples [OF d] len filters]
  obtain r2 where body: "decode_body maps (frame_channels d) (frame_samples d) (frame_bytes d) r1 = (Ok (), r2)"
    and bits: "\<forall>i<unat (frame_samples d). \<forall>ch<unat (frame_channels d).
        out_bit (unat (frame_channels d)) (r_out r2) i ch = spec_frame maps (unat (frame_channels d))
          (unat (frame_samples d)) (r_dec r1) ! (i * unat (frame_channels d) + ch)"
    and r2: "r_len r2 = sint (of_nat (frame_bytes d) :: u32)" "length (r_out r2) = length (r_out r1)"
    unfolding frame_bytes_def by blast
  have same: "frame_channels (d\<lparr>d_gb := g\<rparr>) = frame_channels d" "frame_samples (d\<lparr>d_gb := g\<rparr>) = frame_samples d"
    "frame_bytes (d\<lparr>d_gb := g\<rparr>) = frame_bytes d" for g
    by (simp_all add: frame_channels_def frame_samples_def frame_bytes_def)
  have "decode_frame data n ?r = frame_rest data n True ?start"
    using decode_frame_split [of ?r n data] d(1) n coded by simp
  also have "\<dots> = (Ok (), r2)"
    by (simp add: frame_rest_def same decode_coded_def seq_def header body)
  finally have "decode_frame data n ?r = (Ok (), r2)" .
  moreover have "r_len r2 = int (frame_bytes d)" using r2(1) sizes(4) sint_small_u32 by simp
  moreover have "length (r_out r2) = length out" using r2(2) h(2) by (simp add: run_ok_def)
  ultimately show ?thesis using bits by (simp add: decode_call)
qed

theorem coded_frame_refines_witness:
  "\<exists>d' out'. dst_decoder_decode (Some small_frame) 8 (Some small_decoder, Some (replicate 4704 0), Some 0) =
     (Ok (), (Some d', Some out', Some 4704)) \<and> length out' = 4704"
proof -
  have fb: "frame_bytes small_decoder = 4704"
    using frame_sizes(2) [OF small_decoder_ok] by (simp add: frame_bytes_def small_channels small_fields)
  have "\<exists>d' out'. dst_decoder_decode (Some small_frame) 8 (Some small_decoder, Some (replicate 4704 0), Some 0) =
      (Ok (), (Some d', Some out', Some (int (frame_bytes small_decoder)))) \<and>
      length out' = length (replicate 4704 (0 :: byte)) \<and>
    (\<forall>i<unat (frame_samples small_decoder). \<forall>ch<unat (frame_channels small_decoder).
       out_bit (unat (frame_channels small_decoder)) out' i ch =
       spec_frame small_maps (unat (frame_channels small_decoder)) (unat (frame_samples small_decoder))
         (r_dec (small_header (replicate 4704 0) 0)) ! (i * unat (frame_channels small_decoder) + ch))"
    by (rule coded_frame_refines [OF small_decoder_ok])
      (use small_tables small_filters small_bit [of 0] small_decode_header [of "replicate 4704 0" 0] in
        \<open>simp_all add: small_fields small_channels fb small_frame_reader small_run_def small_header_def\<close>,
       simp add: small_frame_def)
  then show ?thesis by (auto simp: fb)
qed

text \<open>C28. Whatever bytes a frame holds, a call that is defined leaves a well-formed decoder with the
  same settings and writes inside the output buffer. It fails with the invalid-data or the
  not-implemented code only, and on success it reports the size of a decoded frame for a coded
  frame and the size of the input for an uncoded one.\<close>

theorem decode_keeps_decoder:
  assumes "decoder_ok d" "n \<le> 2147483647" "nat n + 64 \<le> length data"
    and "dst_decoder_decode (Some data) n (Some d, Some out, Some l) = (res, s')" "res \<noteq> Fault"
  shows "\<exists>d' out' l'. s' = (Some d', Some out', Some l') \<and> decoder_ok d' \<and> d_channels d' = d_channels d \<and>
    d_sample_rate d' = d_sample_rate d \<and> length out' = length out \<and>
    (res = Ok () \<and> l' = (if stream_bit data 0 then int (frame_bytes d) else n) \<or>
     res = Err AVERROR_INVALIDDATA \<or> res = Err AVERROR_PATCHWELCOME)"
proof -
  let ?r = "\<lparr>r_dec = d, r_out = out, r_len = l\<rparr>"
  obtain r' where run: "decode_frame data n ?r = (res, r')" "s' = (Some (r_dec r'), Some (r_out r'), Some (r_len r'))"
    using assms(4) by (auto simp: decode_call split: prod.splits)
  have "wp True (decode_frame data n)
    (\<lambda>_ r'. keeps ?r r' \<and> r_len r' = (if stream_bit data 0 then int (frame_bytes (r_dec ?r)) else n))
    (\<lambda>e r'. dst_errors e \<and> keeps ?r r') ?r"
    by (rule decode_frame_keeps) (use assms in auto)
  then show ?thesis
    using run assms(5) by (cases res) (auto simp: wp_def keeps_def dst_errors_def)
qed

theorem decode_keeps_decoder_witness:
  "\<exists>res d' out' l'. dst_decoder_decode (Some (0 # replicate 71 0)) 8 (Some small_decoder, Some (replicate 4704 0), Some 0)
     = (res, (Some d', Some out', Some l')) \<and> decoder_ok d' \<and> length out' = 4704"
proof -
  let ?data = "0 # replicate 71 (0 :: byte)" and ?out = "replicate 4704 (0 :: byte)"
  obtain res s' where run: "dst_decoder_decode (Some ?data) 8 (Some small_decoder, Some ?out, Some 0) = (res, s')"
    by (rule prod.exhaust)
  obtain g where g: "gb_ok g" "gb_buffer g = ?data" "gb_pos g = 0" "gb_end g = 64" "frame_reader ?data 8 = gb_skip 1 g"
    using frame_reader_ok [of 8 ?data] by auto
  let ?r = "\<lparr>r_dec = small_decoder, r_out = ?out, r_len = 0\<rparr>"
  have sb: "\<not> stream_bit ?data 0" by (simp add: stream_bit_def)
  have fb: "frame_bytes (small_decoder\<lparr>d_gb := h\<rparr>) = 4704" for h
    using frame_sizes(2) [OF small_decoder_ok] small_channels
    by (simp add: frame_bytes_def frame_channels_def frame_samples_def small_fields)
  have "decode_frame ?data 8 ?r = frame_rest ?data 8 False (?r\<lparr>r_dec := small_decoder\<lparr>d_gb := gb_skip 1 g\<rparr>\<rparr>)"
    using decode_frame_split [of ?r 8 ?data] small_decoder_ok sb g(5) by simp
  then have "fst (decode_frame ?data 8 ?r) \<noteq> Fault"
    using uncoded_frame_run [of "?r\<lparr>r_dec := small_decoder\<lparr>d_gb := gb_skip 1 g\<rparr>\<rparr>" ?data 8] g(1)
    by (simp add: Let_def fb)
  then have "res \<noteq> Fault" using run by (auto simp: decode_call split: prod.splits)
  then show ?thesis
    using decode_keeps_decoder [OF small_decoder_ok _ _ run] run by auto
qed

text \<open>An uncoded frame (first bit 0, the six bits after the next one 0) is copied: the output gets
  the bytes after the first one, as many as a frame has or the input holds, and keeps the rest.
  The reported length is the size of the input, one more than any number of bytes copied.\<close>

theorem uncoded_frame_copied:
  assumes d: "decoder_ok d" and n: "2 \<le> n" "n \<le> 268435391" "nat n + 64 \<le> length data"
    and uncoded: "\<not> stream_bit data 0" "bits_at data 2 6 = 0"
    and out: "min (nat n - 1) (frame_bytes d) \<le> length out"
  defines "m \<equiv> min (nat n - 1) (frame_bytes d)"
  shows "\<exists>d'. dst_decoder_decode (Some data) n (Some d, Some out, Some l) =
    (Ok (), (Some d', Some (take m (drop 1 data) @ drop m out), Some n)) \<and> int m < n"
proof -
  let ?r = "\<lparr>r_dec = d, r_out = out, r_len = l\<rparr>"
  obtain g where g: "gb_ok g" "gb_buffer g = data" "gb_pos g = 0" "gb_end g = 8 * nat n"
      "frame_reader data n = gb_skip 1 g"
    using frame_reader_ok [of n data] n by auto
  let ?start = "?r\<lparr>r_dec := d\<lparr>d_gb := gb_skip 1 g\<rparr>\<rparr>"
  have pos: "gb_pos (gb_skip 1 (gb_skip 1 g)) = 2"
    using g n by (simp add: gb_pos_skip)
  have w: "unat (of_int (n - 1) :: u32) = nat n - 1"
  proof -
    have "(of_int (n - 1) :: u32) = of_nat (nat n - 1)" using n by (simp add: of_nat_diff)
    moreover have "unat (of_nat (nat n - 1) :: u32) = nat n - 1" using n by (intro unat_of_nat_u32) simp
    ultimately show ?thesis by (simp only:)
  qed
  then have w': "unat (word_of_int n - 1 :: u32) = nat n - 1" by simp
  have m': "min (nat n - Suc 0) (frame_bytes d) = m" by (simp add: m_def)
  have fb: "frame_bytes (d\<lparr>d_gb := h\<rparr>) = frame_bytes d" for h
    by (simp add: frame_bytes_def frame_channels_def frame_samples_def)
  have "1 + m \<le> length data" "m \<le> length out" "int m < n" using n out by (auto simp: m_def)
  moreover have "decode_frame data n ?r = frame_rest data n False ?start"
    using decode_frame_split [of ?r n data] d n uncoded(1) g(5) by simp
  ultimately show ?thesis
    using uncoded_frame_run [of ?start data n] g(1) uncoded(2) pos
    by (simp add: decode_call Let_def fb w' g(2) m')
qed

theorem uncoded_frame_copied_witness:
  "\<exists>d'. dst_decoder_decode (Some ([0, 1, 2, 3] @ replicate 64 0)) 4
      (Some small_decoder, Some (replicate 4704 9), Some 0) =
    (Ok (), (Some d', Some ([1, 2, 3] @ replicate 4701 9), Some 4)) \<and> (3 :: int) < 4"
proof -
  let ?data = "[0, 1, 2, 3] @ replicate 64 (0 :: byte)"
  have fb: "frame_bytes small_decoder = 4704"
    using frame_sizes(2) [OF small_decoder_ok] by (simp add: frame_bytes_def small_channels small_fields)
  have z: "bits_at ?data 2 6 = 0"
    by (rule bit_word_eqI) (auto simp: bit_bits_at stream_bit_def)
  have "\<not> stream_bit ?data 0" by (simp add: stream_bit_def)
  from uncoded_frame_copied [OF small_decoder_ok _ _ _ this z, of 4 "replicate 4704 9" 0]
  show ?thesis by (simp add: fb)
qed

end
