(* ===== verification/Dst_Contracts.thy ===== *)
theory Dst_Contracts
  imports Dst_Example
begin

text \<open>The contracts of the decoder's parts and of the bit reader, one property each.\<close>

section \<open>The bit reader\<close>

text \<open>C33. On an initialised reader a fetch of \<open>1 \<le> n \<le> 25\<close> bits is defined, yields the number
  that the next \<open>n\<close> bits of the buffer spell, most significant bit first (in two's complement for
  \<^verbatim>\<open>get_sbits\<close>), and advances by \<open>n\<close> bits, stopping eight bits past the data.\<close>

theorem get_bits_spell_stream:
  assumes "gb_ok g" "1 \<le> n" "n \<le> 25"
  shows "(get_bits n g :: (dst_error, u32) outcome \<times> _) = (Ok (bits_at (gb_buffer g) (gb_pos g) n), gb_skip n g) \<and>
    (get_sbits n g :: (dst_error, int) outcome \<times> _) = (Ok (signed_take_bit (n - 1) (uint (bits_at (gb_buffer g) (gb_pos g) n))), gb_skip n g) \<and>
    (get_bits1 g :: (dst_error, bool) outcome \<times> _) = (Ok (stream_bit (gb_buffer g) (gb_pos g)), gb_skip 1 g) \<and>
    unat (bits_at (gb_buffer g) (gb_pos g) n) < 2 ^ n \<and> gb_ok (gb_skip n g) \<and>
    gb_pos (gb_skip n g) = min (gb_end g + 8) (gb_pos g + n)"
  using assms get_bits_value [of g n] get_sbits_value [of g n] get_bits1_value [of g]
    unat_bits_at [of n "gb_buffer g" "gb_pos g"] gb_pos_skip [of g n]
  by simp

theorem get_bits_spell_stream_witness:
  "(get_bits 3 (small_reader 6) :: (dst_error, u32) outcome \<times> _) = (Ok 4, small_reader 9) \<and>
   (get_sbits 3 (small_reader 6) :: (dst_error, int) outcome \<times> _) = (Ok (- 4), small_reader 9)"
proof -
  have g: "gb_ok (small_reader 6)" "gb_pos (small_reader 6) = 6" "gb_buffer (small_reader 6) = small_frame"
    "gb_skip 3 (small_reader 6) = small_reader 9"
    using small_reader_facts [of 6] small_skip [of 6 3] by simp_all
  have "[6..<9] = [6, 7, 8 :: nat]" by (simp add: upt_rec)
  then have b: "bits_at small_frame 6 3 = 4" by (simp add: bits_at_def small_bit)
  have "signed_take_bit 2 (4 :: int) = - 4" by (simp add: signed_take_bit_eq_if_negative)
  then show ?thesis
    using get_bits_spell_stream [of "small_reader 6" 3] g b by simp
qed

text \<open>\<^verbatim>\<open>sa_log2\<close> is the position of the highest bit that is set, and 0 for 0.\<close>

theorem sa_log2_is_log:
  "sa_log2 0 = 0 \<and> sa_log2 v \<le> 31 \<and> (v = 0 \<or> 2 ^ sa_log2 v \<le> unat v \<and> unat v < 2 * 2 ^ sa_log2 v)"
  using sa_log2_0 sa_log2_le [of v] sa_log2_bounds [of v] by blast

section \<open>Golomb codes\<close>

text \<open>C38. A Golomb-Rice code of \<open>z\<close> zeros, a one and \<open>k\<close> bits of value \<open>low\<close> decodes to
  \<open>z * 2 ^ k + low\<close>; a value other than 0 is followed by its sign. At least 32 bits of data have
  to remain, and the code may have 25 bits.\<close>

theorem golomb_code_decoded:
  assumes "gb_ok g" "golomb_code (gb_buffer g) (gb_pos g) z" "z + k + 1 \<le> 25" "gb_pos g + 32 \<le> gb_end g"
  shows "(get_sr_golomb_dst k g :: (dst_error, int) outcome \<times> _) =
    (let low = unat (bits_at (gb_buffer g) (gb_pos g + z + 1) k); v = int (z * 2 ^ k + low) in
     if v = 0 then (Ok 0, gb_skip (z + k + 1) g)
     else (Ok (if stream_bit (gb_buffer g) (gb_pos g + z + k + 1) then - v else v), gb_skip (z + k + 2) g))"
  unfolding Let_def by (rule get_sr_golomb_dst_value [OF assms])

theorem golomb_code_decoded_witness:
  "(get_sr_golomb_dst 2 (small_reader 6) :: (dst_error, int) outcome \<times> _) = (Ok 0, small_reader 9)"
proof -
  have g: "gb_ok (small_reader 6)" "gb_pos (small_reader 6) = 6" "gb_buffer (small_reader 6) = small_frame"
    "gb_end (small_reader 6) = 64" "gb_skip 3 (small_reader 6) = small_reader 9"
    using small_reader_facts [of 6] small_skip [of 6 3] by simp_all
  have "gb_skip (Suc (Suc (Suc 0))) (small_reader 6) = small_reader 9"
    using g(5) by (simp only: numeral_3_eq_3)
  moreover have "golomb_code small_frame 6 0" by (simp add: golomb_code_def small_bit)
  ultimately show ?thesis
    using golomb_code_decoded [of "small_reader 6" 0 2] g by (simp add: small_bits)
qed

text \<open>A table whose data end early is undefined behaviour: once the reader is at the end of the
  frame or past it, \<^verbatim>\<open>get_sr_golomb_dst\<close> takes the escape branch with an escape of 0 bits and
  shifts a 32-bit word by 32.\<close>

theorem golomb_at_end_undefined:
  assumes "gb_ok g" "gb_end g \<le> gb_pos g"
  shows "fst (get_sr_golomb_dst k g :: (dst_error, int) outcome \<times> _) = Fault"
proof -
  have left: "get_bits_left g \<le> 0" "- 8 \<le> get_bits_left g"
    using assms gb_pos_le [of g] by (simp_all add: get_bits_left_ok)
  obtain w where w: "UPDATE_CACHE g = ((Ok w, g) :: (dst_error, u32) outcome \<times> _)"
    using UPDATE_CACHE_bits [OF assms(1)] by blast
  have log: "\<not> int (sa_log2 w) > 31 - get_bits_left g" using sa_log2_le [of w] left by linarith
  have c: "c_int (31 - get_bits_left g) g = ((Ok (31 - get_bits_left g), g) :: (dst_error, int) outcome \<times> _)"
    using left by (simp add: c_int_def)
  have "fst ((get_ur_golomb k (get_bits_left g) 0 :: (dst_error, int) gb_op) g) = Fault"
    unfolding get_ur_golomb_def Let_def
    by (simp only: seq_Ok w c log if_False)
      (simp add: seq_def SKIP_COUNTER_def UPDATE_CACHE_def NEG_USR32_def of_opt_def split: option.splits)
  then obtain g' where "(get_ur_golomb k (get_bits_left g) 0 :: (dst_error, int) gb_op) g = (Fault, g')"
    by (metis prod.collapse)
  then show ?thesis by (simp add: get_sr_golomb_dst_def seq_def)
qed

theorem golomb_at_end_undefined_witness:
  "fst (get_sr_golomb_dst 2 (small_reader 64) :: (dst_error, int) outcome \<times> _) = Fault"
  by (rule golomb_at_end_undefined) (use small_reader_facts [of 64] in auto)

section \<open>The mapping and the tables\<close>

text \<open>C36. \<^verbatim>\<open>read_map\<close> never leaves its arrays, for any data: it succeeds with at most six
  elements and a map whose entries name one of them for every channel, or fails with the
  invalid-data code; lengths and coefficients stay as they were.\<close>

theorem read_map_entries_valid:
  assumes "gb_ok g" "c \<le> 6" "length mp = 6"
  shows "\<exists>res g' t' mp'. read_map c (g, t, mp) = (res, (g', t', mp')) \<and> gb_ok g' \<and>
    tb_length t' = tb_length t \<and> tb_coeff t' = tb_coeff t \<and>
    (res = Ok () \<and> 1 \<le> unat (tb_elements t') \<and> unat (tb_elements t') \<le> 6 \<and>
       (\<forall>ch<nat c. \<exists>v. mp' ! ch = Some v \<and> v < tb_elements t') \<or>
     res = Err AVERROR_INVALIDDATA)"
proof -
  obtain res g' t' mp' where "read_map c (g, t, mp) = (res, (g', t', mp'))" by (metis prod.collapse)
  then show ?thesis
    using read_map_inv [OF assms(1,2,3), of False t]
    by (cases res) (auto simp: wp_def same_tables_def map_ok_def map_err_def)
qed

theorem read_map_entries_valid_witness:
  "\<exists>res g' t' mp'. read_map 2 (small_reader 6, zero_table, replicate 6 None) = (res, (g', t', mp')) \<and> gb_ok g'"
  using read_map_entries_valid [of "small_reader 6" 2 "replicate 6 None" zero_table] small_reader_facts [of 6] by auto

text \<open>A table that is read to the end is in range: every element has between 1 and
  \<open>2 ^ length_bits\<close> coefficients, those of an unsigned table with offset 1 lie between 1 and
  \<open>2 ^ coeff_bits\<close>, and the number of elements does not change. A table that is rejected keeps
  its shape, and the code is the invalid-data one.\<close>

theorem read_table_in_range:
  assumes "gb_ok g" "table_ok t" "unat (tb_elements t) \<le> 12"
    and "0 < lb" "lb \<le> 7" "0 < cb" "cb \<le> 25"
    and run: "read_table pred lb cb False 1 (g, t) = (res, (g', t'))" "res \<noteq> Fault"
  shows "gb_ok g' \<and> table_ok t' \<and> tb_elements t' = tb_elements t \<and>
    (res = Ok () \<and> (\<forall>i<unat (tb_elements t). 1 \<le> unat (tb_length t' ! i) \<and> unat (tb_length t' ! i) \<le> 2 ^ lb \<and>
       (\<forall>j<unat (tb_length t' ! i). 1 \<le> tb_coeff t' ! i ! j \<and> tb_coeff t' ! i ! j \<le> 2 ^ cb)) \<or>
     res = Err AVERROR_INVALIDDATA)"
  using read_table_ok [OF assms(1-3,4-7), of 1 pred False] run
  by (cases res) (auto simp: wp_def element_err_def filled_def row_ok_def coeff_in_def Suc_le_eq
      add.commute [of 1 "2 ^ cb"])

theorem read_table_in_range_witness:
  "(let t = snd (snd (read_table probs_code_pred_coeff 6 7 False 1 (small_reader 24, zero_table\<lparr>tb_elements := 1\<rparr>)))
    in 1 \<le> unat (tb_length t ! 0) \<and> table_ok t)"
proof -
  have run: "read_table probs_code_pred_coeff 6 7 False 1 (small_reader 24, zero_table\<lparr>tb_elements := 1\<rparr>) =
      ((Ok (), (small_reader 38, small_table 1)) :: (dst_error, unit) outcome \<times> _)"
    using small_read_table(2) [of 24 probs_code_pred_coeff] by simp
  have "table_ok (zero_table\<lparr>tb_elements := 1\<rparr>)"
    by (simp add: table_ok_def zero_table_def DST_MAX_ELEMENTS_def DST_MAX_CHANNELS_def)
  from read_table_in_range [OF _ this _ _ _ _ _ run] run show ?thesis
    using small_reader_facts [of 24] by (simp add: Let_def)
qed

section \<open>The arithmetic decoder and the predictor\<close>

text \<open>C37. A step of the arithmetic decoder with a probability from 1 to 128 is defined, decides by
  comparing the code value with the split point, and restores the interval size to between 2048
  and 4095; a code value inside the interval stays inside.\<close>

theorem ac_get_keeps_interval:
  assumes "gb_ok g" "2048 \<le> unat (ac_a ac)" "unat (ac_a ac) \<le> 4095" "1 \<le> p" "p \<le> 128"
  shows "\<exists>ac' g' q. (ac_get p (ac, g) :: (dst_error, bool) outcome \<times> _) = (Ok (unat (ac_c ac) < unat (ac_a ac) - q), (ac', g')) \<and>
    0 < q \<and> q < unat (ac_a ac) \<and> gb_ok g' \<and> 2048 \<le> unat (ac_a ac') \<and> unat (ac_a ac') \<le> 4095 \<and>
    (ac_c ac < ac_a ac \<longrightarrow> ac_c ac' < ac_a ac')"
proof -
  have range: "ac_range ac" using assms by (simp add: ac_range_def)
  obtain e ac1 where split: "ac_split p ac = (e, ac1)" by fastforce
  obtain q where q: "0 < q" "q < unat (ac_a ac)" "e \<longleftrightarrow> unat (ac_c ac) < unat (ac_a ac) - q"
    by (rule ac_split_parts [OF range assms(4,5) split])
  from wp_total [OF ac_get_ok [OF assms(1) range assms(4,5), where F = False]]
  obtain ac' g' where "ac_get p (ac, g) = ((Ok e, (ac', g')) :: (dst_error, bool) outcome \<times> _)" "ac_range ac'"
      "gb_ok g'" "ac_inside ac \<longrightarrow> ac_inside ac'"
    by (auto simp: same_reader_def split)
  then show ?thesis using q by (auto simp: ac_range_def ac_inside_def)
qed

theorem ac_get_keeps_interval_witness:
  "\<exists>e ac' g'. (ac_get 100 (\<lparr>ac_a = 4095, ac_c = 5\<rparr>, small_reader 39) :: (dst_error, bool) outcome \<times> _) = (Ok e, (ac', g')) \<and> ac_c ac' < ac_a ac'"
  using ac_get_keeps_interval [of "small_reader 39" "\<lparr>ac_a = 4095, ac_c = 5\<rparr>" 100] small_reader_facts [of 39]
  by auto

text \<open>C30. The filter tables are an optimisation: when \<^verbatim>\<open>build_filter\<close> succeeds, the sum of the
  sixteen entries that the status bytes select is the sum of the coefficients of the filter, each
  with the sign of its bit of the status.\<close>

theorem filter_tables_are_fir:
  fixes status :: "byte list"
  assumes "table_ok t" "unat (tb_elements t) \<le> 12" "filters_shape tables"
    and "build_filter t tables = (Ok (), tables')" "i < unat (tb_elements t)" "unat (tb_length t ! i) \<le> 128"
    and "length status = 16"
  shows "(\<Sum>x\<leftarrow>[0..<16]. sint (tables' ! i ! x ! unat (status ! x))) =
    (\<Sum>m<unat (tb_length t ! i). if bit (status ! (m div 8)) (m mod 8) then tb_coeff t ! i ! m
       else - tb_coeff t ! i ! m)"
proof -
  have "wp True (build_filter t) (\<lambda>_. filters_built t (unat (tb_elements t))) (\<lambda>_. filters_shape) tables"
    by (rule build_filter_ok) (use assms in auto)
  from wp_OkD [OF this assms(4)]
  have "entries_upto (tb_coeff t ! i) (tb_length t ! i) 16 0 (tables' ! i)"
    using assms(5) by (simp add: filters_built_def)
  from built_filter_is_fir [OF this assms(6,7)] show ?thesis by (simp add: fir_def status_bit_def)
qed

theorem filter_tables_are_fir_witness:
  "\<exists>tables'. build_filter (small_table 0) (d_filter small_decoder) = (Ok (), tables') \<and>
     (\<Sum>x\<leftarrow>[0..<16]. sint (tables' ! 0 ! x ! unat (replicate 16 (0xAA :: byte) ! x))) = 0"
proof -
  obtain tables' where run: "build_filter (small_table 0) (d_filter small_decoder) = (Ok (), tables')"
    using small_filters by (metis prod.collapse)
  have "filters_shape (d_filter small_decoder)" using small_decoder_ok by (simp add: decoder_ok_def)
  from filter_tables_are_fir [OF small_tables(1) _ this run, of 0 "replicate 16 0xAA"]
  show ?thesis using run small_tables(4) by (simp add: small_table_def)
qed

text \<open>The sixteen status bytes of a channel are a shift register of 128 bits: storing a decoded
  bit puts it first and moves every other bit on by one.\<close>

theorem status_is_shift_register:
  assumes "length status = 16"
  shows "length (shift_status v status) = 16 \<and>
    map (status_bit (shift_status v status)) [0..<128] = v # map (status_bit status) [0..<127]"
proof
  show "length (shift_status v status) = 16" by (rule length_shift_status [OF assms])
  show "map (status_bit (shift_status v status)) [0..<128] = v # map (status_bit status) [0..<127]"
  proof (rule nth_equalityI)
    fix m assume "m < length (map (status_bit (shift_status v status)) [0..<128])"
    then have m: "m < 128" by simp
    show "map (status_bit (shift_status v status)) [0..<128] ! m = (v # map (status_bit status) [0..<127]) ! m"
      using m status_bit_shift [OF assms m, of v] by (cases m) simp_all
  qed simp
qed

theorem status_is_shift_register_witness:
  "map (status_bit (shift_status True (replicate 16 0))) [0..<128] = True # map (status_bit (replicate 16 0)) [0..<127]"
  using status_is_shift_register [of "replicate 16 0" True] by simp

section \<open>Arguments, and a table that was not read\<close>

text \<open>\<^verbatim>\<open>dst_decoder_init\<close> yields a well-formed decoder for at most six channels and any rate
  that is not negative, and fails without an object for more channels or when memory runs out.
  A negative channel count is accepted too. A decoding call with a missing argument fails and
  changes nothing, and closing always succeeds.\<close>

theorem decoder_arguments_checked:
  "(dst_decoder_init hp c rate (Some x) = (if c \<le> 6 \<and> sa_malloc hp 110848
      then (Ok (), Some (Some (zero_decoder\<lparr>d_channels := c, d_sample_rate := rate\<rparr>))) else (Err DST_ERROR, Some None))) \<and>
   (decoder_ok (zero_decoder\<lparr>d_channels := c, d_sample_rate := rate\<rparr>) \<longleftrightarrow>
      0 \<le> c \<and> c \<le> 6 \<and> 0 \<le> rate \<and> rate \<le> 2147483647) \<and>
   dst_decoder_decode None n s = (Err DST_ERROR, s) \<and>
   dst_decoder_decode data n (None, out, l) = (Err DST_ERROR, (None, out, l)) \<and>
   dst_decoder_decode data n (d, None, l) = (Err DST_ERROR, (d, None, l)) \<and>
   dst_decoder_decode data n (d, out, None) = (Err DST_ERROR, (d, out, None)) \<and>
   dst_decoder_close d = (Ok (), None)"
proof -
  have "decoder_ok (zero_decoder\<lparr>d_channels := c, d_sample_rate := rate\<rparr>) \<longleftrightarrow>
      0 \<le> c \<and> c \<le> 6 \<and> 0 \<le> rate \<and> rate \<le> 2147483647"
    using fresh_decoder_ok [of c rate] by (auto simp: decoder_ok_def)
  then show ?thesis
    by (auto simp: dst_decoder_init_def dst_decoder_decode_def dst_decoder_close_def DST_MAX_CHANNELS_def
        split: option.splits prod.splits)
qed

text \<open>The decoder goes on after a probability table that \<^verbatim>\<open>read_table\<close> rejected. An element
  that was never read has length 0, and \<open>length - 1\<close> wraps: for a prediction of magnitude 1024 or
  more the probability is then looked up outside the row of 128 coefficients.\<close>

theorem unread_probabilities_overrun:
  assumes "table_ok fsets" "table_ok probs" "felem < 12" "pelem < 12"
    and "tb_length probs ! pelem = 0" "1024 \<le> \<bar>sint predict\<bar>"
  shows "sample_prob fsets probs False felem pelem predict i = None"
proof -
  have "\<bar>sint predict\<bar> \<le> 32768" using sint_ge [of predict] sint_lt [of predict] by auto
  then have u: "unat (of_nat (nat \<bar>sint predict\<bar>) :: u32) = nat \<bar>sint predict\<bar>"
    by (intro unat_of_nat_u32) simp
  have "unat (drop_bit 3 (of_nat (nat \<bar>sint predict\<bar>) :: u32)) = nat \<bar>sint predict\<bar> div 8"
    unfolding unat_drop_bit_u32 u by simp
  moreover have "128 \<le> nat \<bar>sint predict\<bar> div 8" using assms(6) by linarith
  moreover have "(of_int \<bar>sint predict\<bar> :: u32) = of_nat (nat \<bar>sint predict\<bar>)" by simp
  ultimately have big: "128 \<le> unat (drop_bit 3 (of_int \<bar>sint predict\<bar> :: u32))" by (simp only:)
  have "unat (tb_length probs ! pelem - 1) = 4294967295" using assms(5) by (simp add: unsigned_minus_1_eq_mask mask_eq_exp_minus_1)
  moreover have "unat (drop_bit 3 (of_int \<bar>sint predict\<bar> :: u32)) < 4294967296"
    using unat_bound [of "drop_bit 3 (of_int \<bar>sint predict\<bar> :: u32)"] by simp
  ultimately have "128 \<le> unat (min (drop_bit 3 (of_int \<bar>sint predict\<bar> :: u32)) (tb_length probs ! pelem - 1))"
    unfolding min_word_unat using big by linarith
  moreover have "length (tb_coeff probs ! pelem) = 128" using assms(2,4) by (simp add: table_ok_def)
  ultimately show ?thesis unfolding sample_prob_def Let_def by (auto simp: not_less)
qed

theorem unread_probabilities_overrun_witness:
  "sample_prob zero_table zero_table False 0 1 2048 5 = None"
  by (rule unread_probabilities_overrun)
    (simp_all add: table_ok_def zero_table_def DST_MAX_ELEMENTS_def DST_MAX_CHANNELS_def)

end
