(* ===== verification/C_Pointers.thy ===== *)
theory C_Pointers
  imports Op_Loops
begin

text \<open>
  Pointers to objects of the heap that a structure owns. \<open>Dangling\<close> is a pointer whose object was
  freed: using it, and freeing it again, is undefined. An operation on the object behind a
  pointer that may be NULL follows the idiom \<^verbatim>\<open>if (!p) return ERROR;\<close>.
\<close>

datatype 'a ptr = Null | Dangling | Ptr 'a

definition on_ptr :: "'e \<Rightarrow> ('s, 'e, 'a) op \<Rightarrow> ('s ptr, 'e, 'a) op" where
  "on_ptr e m = (\<lambda>p. case p of
       Null \<Rightarrow> (Err e, Null)
     | Dangling \<Rightarrow> (Fault, Dangling)
     | Ptr x \<Rightarrow> (case m x of (r, x') \<Rightarrow> (r, Ptr x')))"

text \<open>\<^verbatim>\<open>if (p) free(p);\<close>\<close>

definition free_ptr :: "('s ptr, 'e, unit) op" where
  "free_ptr = (\<lambda>p. case p of Null \<Rightarrow> (Ok (), Null) | Dangling \<Rightarrow> (Fault, p)
     | Ptr x \<Rightarrow> (Ok (), Dangling))"

text \<open>\<^verbatim>\<open>if (p) { free(p); p = NULL; }\<close>\<close>

definition free_null :: "('s ptr, 'e, unit) op" where
  "free_null = seq free_ptr (\<lambda>_. modify (\<lambda>_. Null))"

text \<open>Reading the object.\<close>

definition deref :: "'a ptr \<Rightarrow> ('s, 'e, 'a) op" where
  "deref p = (\<lambda>s. case p of Ptr x \<Rightarrow> (Ok x, s) | _ \<Rightarrow> (Fault, s))"

lemma on_ptr_simps [op_simps, simp]:
  "on_ptr e m Null = (Err e, Null)"
  "on_ptr e m Dangling = (Fault, Dangling)"
  "on_ptr e m (Ptr x) = (case m x of (r, x') \<Rightarrow> (r, Ptr x'))"
  by (simp_all add: on_ptr_def)

lemma wp_on_ptr [wp_simps]:
  "wp F (on_ptr e m) Q E (Ptr x) = wp F m (\<lambda>a x. Q a (Ptr x)) (\<lambda>e x. E e (Ptr x)) x"
  by (auto simp: wp_def split: prod.splits outcome.splits)

lemma deref_Ptr [op_simps, simp]: "deref (Ptr x) s = (Ok x, s)"
  by (simp add: deref_def)

end
