(* ===== verification/Dsdiff_Types.thy ===== *)
theory Dsdiff_Types
  imports Sa_Util C_Stdio C_Pointers
begin

text \<open>
  Enumerations, markers, channel identifiers and structures of
  \<^verbatim>\<open>libdsdiff/include/libdsdiff/dsdiff.h\<close> and \<^verbatim>\<open>libdsdiff/src/dsdiff_types.h\<close>.
  An enumeration that is read from a file or set by the caller without a check
  (\<^verbatim>\<open>dsdiff_loudspeaker_config_t\<close>, the mark and channel identifiers) is its 32-bit value.
  A text is the contents of its buffer before the terminator.
\<close>

section \<open>Enumerations\<close>

datatype dsdiff_error =
    DSDIFF_ERROR_ALREADY_OPEN | DSDIFF_ERROR_NOT_OPEN | DSDIFF_ERROR_MODE_READ_ONLY
  | DSDIFF_ERROR_MODE_WRITE_ONLY
  | DSDIFF_ERROR_INVALID_FILE | DSDIFF_ERROR_INVALID_VERSION | DSDIFF_ERROR_UNSUPPORTED_COMPRESSION
  | DSDIFF_ERROR_UNEXPECTED_EOF | DSDIFF_ERROR_INVALID_CHUNK
  | DSDIFF_ERROR_READ_FAILED | DSDIFF_ERROR_WRITE_FAILED | DSDIFF_ERROR_SEEK_FAILED
  | DSDIFF_ERROR_END_OF_DATA | DSDIFF_ERROR_MAX_FILE_SIZE | DSDIFF_ERROR_FILE_NOT_FOUND
  | DSDIFF_ERROR_FILE_CREATE_FAILED
  | DSDIFF_ERROR_NO_CHANNEL_INFO | DSDIFF_ERROR_NO_TIMECODE | DSDIFF_ERROR_NO_LSCONFIG
  | DSDIFF_ERROR_NO_COMMENT | DSDIFF_ERROR_NO_EMID | DSDIFF_ERROR_NO_ARTIST | DSDIFF_ERROR_NO_TITLE
  | DSDIFF_ERROR_NO_MARKER | DSDIFF_ERROR_NO_CRC | DSDIFF_ERROR_NO_MANUFACTURER
  | DSDIFF_ERROR_INVALID_ARG | DSDIFF_ERROR_OUT_OF_MEMORY | DSDIFF_ERROR_INVALID_CHANNELS
  | DSDIFF_ERROR_INVALID_TIMECODE | DSDIFF_ERROR_INVALID_MODE | DSDIFF_ERROR_BUFFER_TOO_SMALL
  | DSDIFF_ERROR_POST_CREATE_FORBIDDEN | DSDIFF_ERROR_CHUNK_LOCKED
  | DSDIFF_ERROR_REQUIRES_DSD | DSDIFF_ERROR_REQUIRES_DST | DSDIFF_ERROR_CRC_ALREADY_PRESENT
  | DSDIFF_ERROR_NO_DST_INDEX
  | DSDIFF_ERROR_TRACK_INDEX_INVALID | DSDIFF_ERROR_NO_TRACK_ID3

datatype dsdiff_audio_type = DSDIFF_AUDIO_DSD | DSDIFF_AUDIO_DST | DSDIFF_AUDIO_UNKNOWN

datatype dsdiff_file_mode =
  DSDIFF_FILE_MODE_CLOSED | DSDIFF_FILE_MODE_READ | DSDIFF_FILE_MODE_WRITE | DSDIFF_FILE_MODE_MODIFY

datatype dsdiff_chunk_type =
    DSDIFF_CHUNK_ABSS | DSDIFF_CHUNK_CHNL | DSDIFF_CHUNK_CMPR | DSDIFF_CHUNK_COMT
  | DSDIFF_CHUNK_DIAR | DSDIFF_CHUNK_DIIN | DSDIFF_CHUNK_DITI | DSDIFF_CHUNK_DSD
  | DSDIFF_CHUNK_DST | DSDIFF_CHUNK_DSTC | DSDIFF_CHUNK_DSTF | DSDIFF_CHUNK_DSTI
  | DSDIFF_CHUNK_EMID | DSDIFF_CHUNK_FRM8 | DSDIFF_CHUNK_FRTE | DSDIFF_CHUNK_FS
  | DSDIFF_CHUNK_FVER | DSDIFF_CHUNK_ID3 | DSDIFF_CHUNK_LSCO | DSDIFF_CHUNK_MANF
  | DSDIFF_CHUNK_MARK | DSDIFF_CHUNK_PROP | DSDIFF_CHUNK_SND
  | DSDIFF_CHUNK_MAX | DSDIFF_CHUNK_UNKNOWN

section \<open>Markers and channels\<close>

definition ABSS_FOURCC :: u32 where "ABSS_FOURCC = MAKE_MARKER (CHR ''A'') (CHR ''B'') (CHR ''S'') (CHR ''S'')"
definition CHNL_FOURCC :: u32 where "CHNL_FOURCC = MAKE_MARKER (CHR ''C'') (CHR ''H'') (CHR ''N'') (CHR ''L'')"
definition CMPR_FOURCC :: u32 where "CMPR_FOURCC = MAKE_MARKER (CHR ''C'') (CHR ''M'') (CHR ''P'') (CHR ''R'')"
definition COMT_FOURCC :: u32 where "COMT_FOURCC = MAKE_MARKER (CHR ''C'') (CHR ''O'') (CHR ''M'') (CHR ''T'')"
definition DIAR_FOURCC :: u32 where "DIAR_FOURCC = MAKE_MARKER (CHR ''D'') (CHR ''I'') (CHR ''A'') (CHR ''R'')"
definition DIIN_FOURCC :: u32 where "DIIN_FOURCC = MAKE_MARKER (CHR ''D'') (CHR ''I'') (CHR ''I'') (CHR ''N'')"
definition DITI_FOURCC :: u32 where "DITI_FOURCC = MAKE_MARKER (CHR ''D'') (CHR ''I'') (CHR ''T'') (CHR ''I'')"
definition DSD_FOURCC :: u32 where "DSD_FOURCC = MAKE_MARKER (CHR ''D'') (CHR ''S'') (CHR ''D'') (CHR '' '')"
definition DST_FOURCC :: u32 where "DST_FOURCC = MAKE_MARKER (CHR ''D'') (CHR ''S'') (CHR ''T'') (CHR '' '')"
definition DSTC_FOURCC :: u32 where "DSTC_FOURCC = MAKE_MARKER (CHR ''D'') (CHR ''S'') (CHR ''T'') (CHR ''C'')"
definition DSTF_FOURCC :: u32 where "DSTF_FOURCC = MAKE_MARKER (CHR ''D'') (CHR ''S'') (CHR ''T'') (CHR ''F'')"
definition DSTI_FOURCC :: u32 where "DSTI_FOURCC = MAKE_MARKER (CHR ''D'') (CHR ''S'') (CHR ''T'') (CHR ''I'')"
definition EMID_FOURCC :: u32 where "EMID_FOURCC = MAKE_MARKER (CHR ''E'') (CHR ''M'') (CHR ''I'') (CHR ''D'')"
definition FRM8_FOURCC :: u32 where "FRM8_FOURCC = MAKE_MARKER (CHR ''F'') (CHR ''R'') (CHR ''M'') (CHR ''8'')"
definition FRTE_FOURCC :: u32 where "FRTE_FOURCC = MAKE_MARKER (CHR ''F'') (CHR ''R'') (CHR ''T'') (CHR ''E'')"
definition FS_FOURCC :: u32 where "FS_FOURCC = MAKE_MARKER (CHR ''F'') (CHR ''S'') (CHR '' '') (CHR '' '')"
definition FVER_FOURCC :: u32 where "FVER_FOURCC = MAKE_MARKER (CHR ''F'') (CHR ''V'') (CHR ''E'') (CHR ''R'')"
definition ID3_FOURCC :: u32 where "ID3_FOURCC = MAKE_MARKER (CHR ''I'') (CHR ''D'') (CHR ''3'') (CHR '' '')"
definition LSCO_FOURCC :: u32 where "LSCO_FOURCC = MAKE_MARKER (CHR ''L'') (CHR ''S'') (CHR ''C'') (CHR ''O'')"
definition MANF_FOURCC :: u32 where "MANF_FOURCC = MAKE_MARKER (CHR ''M'') (CHR ''A'') (CHR ''N'') (CHR ''F'')"
definition MARK_FOURCC :: u32 where "MARK_FOURCC = MAKE_MARKER (CHR ''M'') (CHR ''A'') (CHR ''R'') (CHR ''K'')"
definition PROP_FOURCC :: u32 where "PROP_FOURCC = MAKE_MARKER (CHR ''P'') (CHR ''R'') (CHR ''O'') (CHR ''P'')"
definition SND_FOURCC :: u32 where "SND_FOURCC = MAKE_MARKER (CHR ''S'') (CHR ''N'') (CHR ''D'') (CHR '' '')"

definition SLFT_FOURCC :: u32 where "SLFT_FOURCC = MAKE_MARKER (CHR ''S'') (CHR ''L'') (CHR ''F'') (CHR ''T'')"
definition SRGT_FOURCC :: u32 where "SRGT_FOURCC = MAKE_MARKER (CHR ''S'') (CHR ''R'') (CHR ''G'') (CHR ''T'')"
definition MLFT_FOURCC :: u32 where "MLFT_FOURCC = MAKE_MARKER (CHR ''M'') (CHR ''L'') (CHR ''F'') (CHR ''T'')"
definition MRGT_FOURCC :: u32 where "MRGT_FOURCC = MAKE_MARKER (CHR ''M'') (CHR ''R'') (CHR ''G'') (CHR ''T'')"
definition LS_FOURCC :: u32 where "LS_FOURCC = MAKE_MARKER (CHR ''L'') (CHR ''S'') (CHR '' '') (CHR '' '')"
definition RS_FOURCC :: u32 where "RS_FOURCC = MAKE_MARKER (CHR ''R'') (CHR ''S'') (CHR '' '') (CHR '' '')"
definition C_FOURCC :: u32 where "C_FOURCC = MAKE_MARKER (CHR ''C'') (CHR '' '') (CHR '' '') (CHR '' '')"
definition LFE_FOURCC :: u32 where "LFE_FOURCC = MAKE_MARKER (CHR ''L'') (CHR ''F'') (CHR ''E'') (CHR '' '')"

text \<open>The two lists of the header, which its enumerations, arrays and switches are generated from.\<close>

definition DSDIFF_CHUNK_LIST :: "(u32 \<times> dsdiff_chunk_type) list" where
  "DSDIFF_CHUNK_LIST = [
     (ABSS_FOURCC, DSDIFF_CHUNK_ABSS), (CHNL_FOURCC, DSDIFF_CHUNK_CHNL),
     (CMPR_FOURCC, DSDIFF_CHUNK_CMPR), (COMT_FOURCC, DSDIFF_CHUNK_COMT),
     (DIAR_FOURCC, DSDIFF_CHUNK_DIAR), (DIIN_FOURCC, DSDIFF_CHUNK_DIIN),
     (DITI_FOURCC, DSDIFF_CHUNK_DITI), (DSD_FOURCC, DSDIFF_CHUNK_DSD),
     (DST_FOURCC, DSDIFF_CHUNK_DST), (DSTC_FOURCC, DSDIFF_CHUNK_DSTC),
     (DSTF_FOURCC, DSDIFF_CHUNK_DSTF), (DSTI_FOURCC, DSDIFF_CHUNK_DSTI),
     (EMID_FOURCC, DSDIFF_CHUNK_EMID), (FRM8_FOURCC, DSDIFF_CHUNK_FRM8),
     (FRTE_FOURCC, DSDIFF_CHUNK_FRTE), (FS_FOURCC, DSDIFF_CHUNK_FS),
     (FVER_FOURCC, DSDIFF_CHUNK_FVER), (ID3_FOURCC, DSDIFF_CHUNK_ID3),
     (LSCO_FOURCC, DSDIFF_CHUNK_LSCO), (MANF_FOURCC, DSDIFF_CHUNK_MANF),
     (MARK_FOURCC, DSDIFF_CHUNK_MARK), (PROP_FOURCC, DSDIFF_CHUNK_PROP),
     (SND_FOURCC, DSDIFF_CHUNK_SND)]"

definition DSDIFF_CHANNEL_LIST :: "(u32 \<times> u32) list" where
  "DSDIFF_CHANNEL_LIST = [
     (SLFT_FOURCC, 1000), (SRGT_FOURCC, 1001), (MLFT_FOURCC, 1002), (MRGT_FOURCC, 1003),
     (LS_FOURCC, 1004), (RS_FOURCC, 1005), (C_FOURCC, 1006), (LFE_FOURCC, 1007)]"

abbreviation (input) DSDIFF_CHAN_SLFT :: u32 where "DSDIFF_CHAN_SLFT \<equiv> 1000"
abbreviation (input) DSDIFF_CHAN_SRGT :: u32 where "DSDIFF_CHAN_SRGT \<equiv> 1001"
abbreviation (input) DSDIFF_CHAN_MLFT :: u32 where "DSDIFF_CHAN_MLFT \<equiv> 1002"
abbreviation (input) DSDIFF_CHAN_MRGT :: u32 where "DSDIFF_CHAN_MRGT \<equiv> 1003"
abbreviation (input) DSDIFF_CHAN_LS :: u32 where "DSDIFF_CHAN_LS \<equiv> 1004"
abbreviation (input) DSDIFF_CHAN_RS :: u32 where "DSDIFF_CHAN_RS \<equiv> 1005"
abbreviation (input) DSDIFF_CHAN_C :: u32 where "DSDIFF_CHAN_C \<equiv> 1006"
abbreviation (input) DSDIFF_CHAN_LFE :: u32 where "DSDIFF_CHAN_LFE \<equiv> 1007"
abbreviation (input) DSDIFF_CHAN_INVALID :: u32 where "DSDIFF_CHAN_INVALID \<equiv> 9999"

section \<open>Constants\<close>

abbreviation (input) DSDIFF_MAX_STR_SIZE :: nat where "DSDIFF_MAX_STR_SIZE \<equiv> 4096"
abbreviation (input) DSDIFF_MAX_DATA_SIZE :: u64 where "DSDIFF_MAX_DATA_SIZE \<equiv> 9223372036854675807"
abbreviation (input) DSDIFF_FILE_VERSION_15 :: u32 where "DSDIFF_FILE_VERSION_15 \<equiv> 0x01050000"
abbreviation (input) DSDIFF_LS_CONFIG_STEREO :: u32 where "DSDIFF_LS_CONFIG_STEREO \<equiv> 0"
abbreviation (input) DSDIFF_MARK_TRACK_START :: u32 where "DSDIFF_MARK_TRACK_START \<equiv> 0"

section \<open>Structures\<close>

record dsdiff_timecode =
  tc_hours :: u16
  tc_minutes :: byte
  tc_seconds :: byte
  tc_samples :: u32

record dsdiff_marker =
  mk_time :: dsdiff_timecode
  mk_mark_type :: u32
  mk_mark_channel :: u32
  mk_track_flags :: u32
  mk_offset :: int
  mk_text_length :: u32
  mk_marker_text :: "byte list option"

record dsdiff_comment =
  cm_year :: u16
  cm_month :: byte
  cm_day :: byte
  cm_hour :: byte
  cm_minute :: byte
  cm_comment_type :: u16
  cm_comment_ref :: u16
  cm_text_length :: u32
  cm_text :: "byte list option"

record dsdiff_manufacturer =
  mn_man_id :: "byte list"
  mn_data_size :: u32
  mn_data :: "byte list option"

record dsdiff_index =
  ix_offset :: u64
  ix_length :: u32

definition zero_timecode :: dsdiff_timecode where
  "zero_timecode = \<lparr>tc_hours = 0, tc_minutes = 0, tc_seconds = 0, tc_samples = 0\<rparr>"

definition zero_comment :: dsdiff_comment where
  "zero_comment = \<lparr>cm_year = 0, cm_month = 0, cm_day = 0, cm_hour = 0, cm_minute = 0,
     cm_comment_type = 0, cm_comment_ref = 0, cm_text_length = 0, cm_text = None\<rparr>"

definition zero_marker :: dsdiff_marker where
  "zero_marker = \<lparr>mk_time = zero_timecode, mk_mark_type = 0, mk_mark_channel = 0, mk_track_flags = 0,
     mk_offset = 0, mk_text_length = 0, mk_marker_text = None\<rparr>"

section \<open>The markers are distinct\<close>

lemmas fourcc_defs = ABSS_FOURCC_def CHNL_FOURCC_def CMPR_FOURCC_def COMT_FOURCC_def DIAR_FOURCC_def DIIN_FOURCC_def DITI_FOURCC_def DSD_FOURCC_def
  DST_FOURCC_def DSTC_FOURCC_def DSTF_FOURCC_def DSTI_FOURCC_def EMID_FOURCC_def FRM8_FOURCC_def FRTE_FOURCC_def FS_FOURCC_def
  FVER_FOURCC_def ID3_FOURCC_def LSCO_FOURCC_def MANF_FOURCC_def MARK_FOURCC_def PROP_FOURCC_def SND_FOURCC_def SLFT_FOURCC_def
  SRGT_FOURCC_def MLFT_FOURCC_def MRGT_FOURCC_def LS_FOURCC_def RS_FOURCC_def C_FOURCC_def LFE_FOURCC_def

text \<open>Each marker as a number.\<close>

lemma fourcc_values:
  "ABSS_FOURCC = 1397965377"
  "CHNL_FOURCC = 1280198723"
  "CMPR_FOURCC = 1380994371"
  "COMT_FOURCC = 1414352707"
  "DIAR_FOURCC = 1380010308"
  "DIIN_FOURCC = 1313425732"
  "DITI_FOURCC = 1230260548"
  "DSD_FOURCC = 541348676"
  "DST_FOURCC = 542397252"
  "DSTC_FOURCC = 1129599812"
  "DSTF_FOURCC = 1179931460"
  "DSTI_FOURCC = 1230263108"
  "EMID_FOURCC = 1145654597"
  "FRM8_FOURCC = 944591430"
  "FRTE_FOURCC = 1163153990"
  "FS_FOURCC = 538989382"
  "FVER_FOURCC = 1380275782"
  "ID3_FOURCC = 540230729"
  "LSCO_FOURCC = 1329812300"
  "MANF_FOURCC = 1179533645"
  "MARK_FOURCC = 1263681869"
  "PROP_FOURCC = 1347375696"
  "SND_FOURCC = 541347411"
  "SLFT_FOURCC = 1413893203"
  "SRGT_FOURCC = 1413960275"
  "MLFT_FOURCC = 1413893197"
  "MRGT_FOURCC = 1413960269"
  "LS_FOURCC = 538989388"
  "RS_FOURCC = 538989394"
  "C_FOURCC = 538976323"
  "LFE_FOURCC = 541410892"
  by (simp_all add: fourcc_defs MAKE_MARKER_def)

end
