(* ===== verification/Dsdiff_Io.thy ===== *)
theory Dsdiff_Io
  imports Dsdiff_Types Byte_Stream
begin

text \<open>
  \<^verbatim>\<open>libdsdiff/src/dsdiff_io.c\<close>: the I/O handle of the DSDIFF library and its operations over
  the streams of \<open>C_Stdio\<close>. Integers are big-endian; a chunk identifier is moved as it lies in
  memory. The stream of a handle can be a dangling pointer after a failed close. A read into a
  buffer takes the buffer's size; storing more bytes than it holds is \<open>Fault\<close>.
\<close>

section \<open>The I/O handle\<close>

record dsdiff_io =
  dio_file :: "cfile ptr"
  dio_filename :: string
  dio_mode :: dsdiff_file_mode

type_synonym 'a dio_op = "(dsdiff_io option, dsdiff_error, 'a) op"

text \<open>\<^verbatim>\<open>if (!io || !io->file) return DSDIFF_ERROR_INVALID_ARG;\<close>, then a body on the stream.\<close>

definition on_stream :: "(cfile, dsdiff_error, 'a) op \<Rightarrow> 'a dio_op" where
  "on_stream m = nonnull DSDIFF_ERROR_INVALID_ARG
     (zoom dio_file (\<lambda>f io. io\<lparr>dio_file := f\<rparr>) (on_ptr DSDIFF_ERROR_INVALID_ARG m))"

section \<open>File operations\<close>

text \<open>The structure is the caller's; \<open>None\<close> for a failure, after which the caller frees it.\<close>

definition dio_open ::
  "open_mode \<Rightarrow> dsdiff_file_mode \<Rightarrow> dsdiff_error \<Rightarrow> string option \<Rightarrow> (disk, dsdiff_error, dsdiff_io) op" where
  "dio_open om m e filename = (\<lambda>d. case filename of
       None \<Rightarrow> (Err DSDIFF_ERROR_INVALID_ARG, d)
     | Some name \<Rightarrow> (case fopen name om d of
         (None, d') \<Rightarrow> (Err e, d')
       | (Some f, d') \<Rightarrow> (Ok \<lparr>dio_file = Ptr f, dio_filename = sa_strlcpy name DSDIFF_MAX_STR_SIZE,
                             dio_mode = m\<rparr>, d')))"

definition dsdiff_io_open_write :: "string option \<Rightarrow> (disk, dsdiff_error, dsdiff_io) op" where
  "dsdiff_io_open_write = dio_open WB DSDIFF_FILE_MODE_WRITE DSDIFF_ERROR_FILE_CREATE_FAILED"

definition dsdiff_io_open_read :: "string option \<Rightarrow> (disk, dsdiff_error, dsdiff_io) op" where
  "dsdiff_io_open_read = dio_open RB DSDIFF_FILE_MODE_READ DSDIFF_ERROR_FILE_NOT_FOUND"

definition dsdiff_io_open_modify :: "string option \<Rightarrow> (disk, dsdiff_error, dsdiff_io) op" where
  "dsdiff_io_open_modify = dio_open RplusB DSDIFF_FILE_MODE_MODIFY DSDIFF_ERROR_FILE_NOT_FOUND"

text \<open>Closing truncates the file to the current position in the WRITE and MODIFY modes. Only a
  successful close in these modes clears the pointer to the stream.\<close>

definition dsdiff_io_close :: "(dsdiff_io option \<times> disk, dsdiff_error, unit) op" where
  "dsdiff_io_close = (\<lambda>(io, d). case io of
       None \<Rightarrow> (Err DSDIFF_ERROR_INVALID_ARG, (None, d))
     | Some x \<Rightarrow> (case dio_file x of
         Null \<Rightarrow> (Ok (), (Some x, d))
       | Dangling \<Rightarrow> (Fault, (Some x, d))
       | Ptr f \<Rightarrow>
         (if dio_mode x = DSDIFF_FILE_MODE_WRITE \<or> dio_mode x = DSDIFF_FILE_MODE_MODIFY then
            (if ftell f < 0 then (Err DSDIFF_ERROR_SEEK_FAILED, (Some (x\<lparr>dio_file := Dangling\<rparr>), fclose f d))
             else (case ftruncate (ftell f) f of
                 (False, f') \<Rightarrow> (Err DSDIFF_ERROR_WRITE_FAILED, (Some (x\<lparr>dio_file := Dangling\<rparr>), fclose f' d))
               | (True, f') \<Rightarrow> (Ok (), (Some (x\<lparr>dio_file := Null\<rparr>), fclose f' d))))
          else (Ok (), (Some (x\<lparr>dio_file := Dangling\<rparr>), fclose f d)))))"

definition dsdiff_io_get_filename :: "nat \<Rightarrow> string dio_op" where
  "dsdiff_io_get_filename buffer_size = nonnull DSDIFF_ERROR_INVALID_ARG (\<lambda>io.
     if buffer_size = 0 then (Err DSDIFF_ERROR_INVALID_ARG, io)
     else (Ok (sa_strlcpy (dio_filename io) buffer_size), io))"

definition dsdiff_io_is_open :: "bool dio_op" where
  "dsdiff_io_is_open = nonnull DSDIFF_ERROR_INVALID_ARG (\<lambda>io. (Ok (dio_file io \<noteq> Null), io))"

section \<open>Position operations\<close>

definition dsdiff_io_seek :: "int \<Rightarrow> seek_origin \<Rightarrow> bool \<Rightarrow> u64 option dio_op" where
  "dsdiff_io_seek offset origin want_pos = on_stream (\<lambda>f.
     case fseek offset origin f of
       (False, f') \<Rightarrow> (Err DSDIFF_ERROR_SEEK_FAILED, f')
     | (True, f') \<Rightarrow>
         (if want_pos then
            (if ftell f' < 0 then (Err DSDIFF_ERROR_SEEK_FAILED, f')
             else (Ok (Some (of_int (ftell f'))), f'))
          else (Ok None, f')))"

definition dsdiff_io_get_position :: "u64 dio_op" where
  "dsdiff_io_get_position = on_stream (\<lambda>f.
     if ftell f < 0 then (Err DSDIFF_ERROR_SEEK_FAILED, f) else (Ok (of_int (ftell f)), f))"

definition dsdiff_io_set_position :: "u64 \<Rightarrow> unit dio_op" where
  "dsdiff_io_set_position pos = on_stream (\<lambda>f.
     case fseek (sint pos) SEEK_SET f of
       (False, f') \<Rightarrow> (Err DSDIFF_ERROR_SEEK_FAILED, f')
     | (True, f') \<Rightarrow> (Ok (), f'))"

definition dsdiff_io_get_file_size :: "u64 dio_op" where
  "dsdiff_io_get_file_size = on_stream (\<lambda>f. (Ok (fstat_size f), f))"

definition dsdiff_io_preallocate :: "u64 \<Rightarrow> unit dio_op" where
  "dsdiff_io_preallocate extra_bytes = on_stream (\<lambda>f.
     if ftell f < 0 then (Err DSDIFF_ERROR_SEEK_FAILED, f)
     else (case ftruncate (sint (fstat_size f + extra_bytes)) f of
         (False, f') \<Rightarrow> (Err DSDIFF_ERROR_WRITE_FAILED, f')
       | (True, f') \<Rightarrow> (case fseek (ftell f) SEEK_SET f' of
             (False, f'') \<Rightarrow> (Err DSDIFF_ERROR_SEEK_FAILED, f'')
           | (True, f'') \<Rightarrow> (Ok (), f''))))"

section \<open>Bytes\<close>

definition dio_fread :: "nat \<Rightarrow> byte list dio_op" where
  "dio_fread byte_count = on_stream (\<lambda>f. case fread byte_count f of (bs, f') \<Rightarrow> (Ok bs, f'))"

definition dsdiff_io_read_bytes :: "nat \<Rightarrow> nat \<Rightarrow> byte list dio_op" where
  "dsdiff_io_read_bytes buffer_size byte_count = seq (dio_fread byte_count) (\<lambda>bs.
     if buffer_size < length bs then fault
     else if length bs \<noteq> byte_count then fail DSDIFF_ERROR_READ_FAILED else ret bs)"

definition dsdiff_io_write_bytes :: "byte list \<Rightarrow> nat dio_op" where
  "dsdiff_io_write_bytes buffer = on_stream (\<lambda>f. case fwrite buffer f of
     (k, f') \<Rightarrow> if k \<noteq> length buffer then (Err DSDIFF_ERROR_WRITE_FAILED, f') else (Ok k, f'))"

section \<open>Integers\<close>

text \<open>An integer is moved by one call of \<^verbatim>\<open>fread\<close> or \<^verbatim>\<open>fwrite\<close> on its bytes, and
  \<^verbatim>\<open>sa_be2ne\<close> makes them big-endian on every host.\<close>

definition dio_read_be :: "nat \<Rightarrow> nat dio_op" where
  "dio_read_be n = on_stream (\<lambda>f. case fread n f of
     (bs, f') \<Rightarrow> (if length bs \<noteq> n then (Err DSDIFF_ERROR_READ_FAILED, f') else (Ok (be_dec bs), f')))"

definition dio_write_be :: "nat \<Rightarrow> nat \<Rightarrow> unit dio_op" where
  "dio_write_be n v = on_stream (\<lambda>f. case fwrite (be_enc n v) f of
     (k, f') \<Rightarrow> (if k \<noteq> n then (Err DSDIFF_ERROR_WRITE_FAILED, f') else (Ok (), f')))"

definition dsdiff_io_read_uint8 :: "byte dio_op" where
  "dsdiff_io_read_uint8 = seq (dio_read_be 1) (\<lambda>v. ret (of_nat v))"

definition dsdiff_io_write_uint8 :: "byte \<Rightarrow> unit dio_op" where
  "dsdiff_io_write_uint8 v = dio_write_be 1 (unat v)"

definition dsdiff_io_read_uint16_be :: "u16 dio_op" where
  "dsdiff_io_read_uint16_be = seq (dio_read_be 2) (\<lambda>v. ret (of_nat v))"

definition dsdiff_io_write_uint16_be :: "u16 \<Rightarrow> unit dio_op" where
  "dsdiff_io_write_uint16_be v = dio_write_be 2 (unat v)"

definition dsdiff_io_read_uint32_be :: "u32 dio_op" where
  "dsdiff_io_read_uint32_be = seq (dio_read_be 4) (\<lambda>v. ret (of_nat v))"

definition dsdiff_io_write_uint32_be :: "u32 \<Rightarrow> unit dio_op" where
  "dsdiff_io_write_uint32_be v = dio_write_be 4 (unat v)"

definition dsdiff_io_read_int32_be :: "int dio_op" where
  "dsdiff_io_read_int32_be = seq (dio_read_be 4) (\<lambda>v. ret (sint (of_nat v :: u32)))"

definition dsdiff_io_write_int32_be :: "int \<Rightarrow> unit dio_op" where
  "dsdiff_io_write_int32_be v = dio_write_be 4 (unat (of_int v :: u32))"

definition dsdiff_io_read_uint64_be :: "u64 dio_op" where
  "dsdiff_io_read_uint64_be = seq (dio_read_be 8) (\<lambda>v. ret (of_nat v))"

definition dsdiff_io_write_uint64_be :: "u64 \<Rightarrow> unit dio_op" where
  "dsdiff_io_write_uint64_be v = dio_write_be 8 (unat v)"

definition dsdiff_io_read_chunk_id :: "u32 dio_op" where
  "dsdiff_io_read_chunk_id = seq (dsdiff_io_read_bytes 4 4) (\<lambda>bs. ret (of_nat (le_dec bs)))"

definition dsdiff_io_write_chunk_id :: "u32 \<Rightarrow> unit dio_op" where
  "dsdiff_io_write_chunk_id chunk_id = seq (dsdiff_io_write_bytes (le_enc 4 (unat chunk_id))) (\<lambda>_. ret ())"

section \<open>Padding and strings\<close>

definition dsdiff_io_read_pad_byte :: "unit dio_op" where
  "dsdiff_io_read_pad_byte = seq dsdiff_io_read_uint8 (\<lambda>_. ret ())"

definition dsdiff_io_write_pad_byte :: "unit dio_op" where
  "dsdiff_io_write_pad_byte = dsdiff_io_write_uint8 0"

text \<open>\<open>limit\<close> is what \<^verbatim>\<open>*length\<close> holds at the call; the results are its new value and the
  characters.\<close>

definition dsdiff_io_read_pstring :: "u16 \<Rightarrow> nat \<Rightarrow> (u16 \<times> byte list) dio_op" where
  "dsdiff_io_read_pstring limit buffer_size =
     seq dsdiff_io_read_uint8 (\<lambda>len. let str_len = ucast len :: u16 in
     seq (ensure (\<not> str_len > limit) DSDIFF_ERROR_INVALID_ARG) (\<lambda>_.
     seq (ensure (\<not> unat str_len \<ge> buffer_size) DSDIFF_ERROR_INVALID_ARG) (\<lambda>_.
     seq (if str_len > 0 then dsdiff_io_read_bytes buffer_size (unat str_len) else ret []) (\<lambda>bs.
     if (str_len + 1) mod 2 \<noteq> 0 then seq dsdiff_io_read_pad_byte (\<lambda>_. ret (str_len + 2, bs))
     else ret (str_len + 1, bs)))))"

definition dsdiff_io_write_pstring :: "byte list \<Rightarrow> unit dio_op" where
  "dsdiff_io_write_pstring text =
     (let actual_len = length (cstr text); str_len = (if actual_len > 255 then 255 else actual_len) in
     seq (dsdiff_io_write_uint8 (of_nat str_len)) (\<lambda>_.
     seq (if str_len > 0 then seq (dsdiff_io_write_bytes (take str_len (cstr text))) (\<lambda>_. ret ())
          else ret ()) (\<lambda>_.
     if (str_len + 1) mod 2 \<noteq> 0 then dsdiff_io_write_pad_byte else ret ())))"

text \<open>The terminator is stored behind the characters.\<close>

definition dsdiff_io_read_string :: "nat \<Rightarrow> nat \<Rightarrow> byte list dio_op" where
  "dsdiff_io_read_string buffer_size len = (\<lambda>s. if s = None then (Err DSDIFF_ERROR_INVALID_ARG, s) else
     seq (if len > 0 then dsdiff_io_read_bytes buffer_size len else ret []) (\<lambda>bs.
     if len < buffer_size then ret bs else fault) s)"

text \<open>The buffer of \<open>text\<close> ends with the terminator.\<close>

definition dsdiff_io_write_string :: "nat \<Rightarrow> byte list \<Rightarrow> unit dio_op" where
  "dsdiff_io_write_string len text = (\<lambda>s. if s = None then (Err DSDIFF_ERROR_INVALID_ARG, s)
     else if len > 0
     then (if len \<le> length text + 1
           then seq (dsdiff_io_write_bytes (take len (text @ [0]))) (\<lambda>_. ret ()) s else (Fault, s))
     else (Ok (), s))"

section \<open>The byte-stream interface on DSDIFF handles\<close>

definition dio_contents :: "dsdiff_io option \<Rightarrow> byte list" where
  "dio_contents s = (case s of Some io \<Rightarrow> (case dio_file io of Ptr f \<Rightarrow> fdata f | _ \<Rightarrow> [])
     | None \<Rightarrow> [])"

definition dio_position :: "dsdiff_io option \<Rightarrow> nat" where
  "dio_position s = (case s of Some io \<Rightarrow> (case dio_file io of Ptr f \<Rightarrow> fpos f | _ \<Rightarrow> 0)
     | None \<Rightarrow> 0)"

definition dio_put :: "dsdiff_io option \<Rightarrow> byte list \<Rightarrow> nat \<Rightarrow> dsdiff_io option" where
  "dio_put s d p = map_option (\<lambda>io. io\<lparr>dio_file := (case dio_file io of
     Ptr f \<Rightarrow> Ptr (f\<lparr>fdata := d, fpos := p\<rparr>) | q \<Rightarrow> q)\<rparr>) s"

definition dio_is_open :: "dsdiff_io option \<Rightarrow> bool" where
  "dio_is_open s \<longleftrightarrow> (\<exists>io f. s = Some io \<and> dio_file io = Ptr f)"

definition dio_can_read :: "dsdiff_io option \<Rightarrow> bool" where
  "dio_can_read s \<longleftrightarrow> (\<forall>io f. s = Some io \<longrightarrow> dio_file io = Ptr f \<longrightarrow> freadable f)"

definition dio_can_write :: "dsdiff_io option \<Rightarrow> nat \<Rightarrow> bool" where
  "dio_can_write s n \<longleftrightarrow>
     (\<forall>io f. s = Some io \<longrightarrow> dio_file io = Ptr f \<longrightarrow> fwritable f \<and> n \<le> fcap f)"

definition dio_rd :: "nat \<Rightarrow> byte list dio_op" where
  "dio_rd n = dsdiff_io_read_bytes n n"

definition dio_wr :: "byte list \<Rightarrow> unit dio_op" where
  "dio_wr bs = seq (dsdiff_io_write_bytes bs) (\<lambda>_. ret ())"

lemmas dio_view_defs = dio_contents_def dio_position_def dio_put_def dio_is_open_def
  dio_can_read_def dio_can_write_def

lemma on_stream_Some:
  "on_stream m (Some io) = (case dio_file io of Null \<Rightarrow> (Err DSDIFF_ERROR_INVALID_ARG, Some io)
     | Dangling \<Rightarrow> (Fault, Some io)
     | Ptr f \<Rightarrow> (case m f of (r, f') \<Rightarrow> (r, Some (io\<lparr>dio_file := Ptr f'\<rparr>))))"
  by (cases "dio_file io") (simp_all add: on_stream_def zoom_def split: prod.split)

lemma on_stream_None [simp]: "on_stream m None = (Err DSDIFF_ERROR_INVALID_ARG, None)"
  by (simp add: on_stream_def)

lemma dio_rd_eq:
  "dio_rd n (Some io) = (case dio_file io of Null \<Rightarrow> (Err DSDIFF_ERROR_INVALID_ARG, Some io)
     | Dangling \<Rightarrow> (Fault, Some io)
     | Ptr f \<Rightarrow> (case fread n f of (bs, f') \<Rightarrow>
         ((if length bs \<noteq> n then Err DSDIFF_ERROR_READ_FAILED else Ok bs),
          Some (io\<lparr>dio_file := Ptr f'\<rparr>))))"
  by (auto simp: dio_rd_def dsdiff_io_read_bytes_def dio_fread_def seq_def on_stream_Some fread_def Let_def split: ptr.split)

lemma dio_wr_eq:
  "dio_wr bs (Some io) = (case dio_file io of Null \<Rightarrow> (Err DSDIFF_ERROR_INVALID_ARG, Some io)
     | Dangling \<Rightarrow> (Fault, Some io)
     | Ptr f \<Rightarrow> (case fwrite bs f of (k, f') \<Rightarrow>
         ((if k \<noteq> length bs then Err DSDIFF_ERROR_WRITE_FAILED else Ok ()),
          Some (io\<lparr>dio_file := Ptr f'\<rparr>))))"
  by (auto simp: dio_wr_def dsdiff_io_write_bytes_def on_stream_Some seq_def split: ptr.split prod.split)

lemma dio_cases:
  obtains "s = None" | io where "s = Some io" "dio_file io = Null" | io where "s = Some io" "dio_file io = Dangling"
  | io f where "s = Some io" "dio_file io = Ptr f"
  by (metis not_Some_eq ptr.exhaust)

interpretation dsdiff_stream: byte_stream dio_is_open dio_contents dio_position dio_put dio_can_read
  dio_can_write dio_rd dio_wr "\<lambda>p. dsdiff_io_seek (int p) SEEK_SET True" dsdiff_io_get_position
  DSDIFF_ERROR_READ_FAILED DSDIFF_ERROR_WRITE_FAILED
proof (unfold_locales, goal_cases)
  case (1 s d p)
  then show ?case by (cases s rule: dio_cases) (auto simp: dio_view_defs)
next
  case (2 s d p)
  then show ?case by (cases s rule: dio_cases) (auto simp: dio_view_defs)
next
  case (3 s d p)
  then show ?case by (cases s rule: dio_cases) (auto simp: dio_view_defs)
next
  case (4 s d p)
  then show ?case by (cases s rule: dio_cases) (auto simp: dio_view_defs)
next
  case (5 s d p n)
  then show ?case by (cases s rule: dio_cases) (auto simp: dio_view_defs)
next
  case (6 s d p d' p')
  then show ?case by (cases s rule: dio_cases) (auto simp: dio_view_defs)
next
  case (7 s)
  then show ?case by (cases s rule: dio_cases) (auto simp: dio_view_defs)
next
  case (8 s n m)
  then show ?case by (cases s rule: dio_cases) (auto simp: dio_view_defs)
next
  case (9 s n)
  then show ?case
    by (auto simp: dio_view_defs dio_rd_eq fread_def bytes_at_def Let_def)
next
  case (10 s n)
  then show ?case
    by (auto simp: dio_view_defs dio_rd_eq fread_def Let_def max_def)
next
  case (11 s bs)
  then show ?case
    by (auto simp: dio_view_defs dio_wr_eq fwrite_def Let_def)
next
  case (12 s bs)
  then obtain io f where s: "s = Some io" "dio_file io = Ptr f"
    and no: "\<not> (fwritable f \<and> fpos f + length bs \<le> fcap f)"
    by (auto simp: dio_view_defs)
  let ?k = "if fwritable f then fcap f - fpos f else 0"
  have "?k < length bs" using no 12(3) by (auto simp flip: length_greater_0_conv)
  moreover have "dio_wr bs s = (Err DSDIFF_ERROR_WRITE_FAILED,
      dio_put s (patch (dio_contents s) (dio_position s) (take ?k bs)) (dio_position s + ?k))"
    using s \<open>?k < length bs\<close> by (auto simp: dio_wr_eq dio_view_defs fwrite_def Let_def)
  ultimately show ?case by blast
next
  case (13 s p)
  then show ?case by (auto simp: dio_view_defs dsdiff_io_seek_def on_stream_Some fseek_def ftell_def)
next
  case (14 s)
  then show ?case by (auto simp: dio_view_defs dsdiff_io_get_position_def on_stream_Some ftell_def)
qed

end
