(* ===== verification/Dsdiff_Chunks.thy ===== *)
theory Dsdiff_Chunks
  imports Dsdiff_Io
begin

text \<open>
  \<^verbatim>\<open>libdsdiff/src/dsdiff_chunks.c\<close>: reading and writing the chunks of a DSDIFF file. A
  reader that fills variables of its caller is an operation on the chunk handle and these
  variables, which keep what was stored before an error. Where a reader allocates a buffer, the
  requested size is computed at the width of the C expression.
\<close>

section \<open>Access\<close>

type_synonym ('o, 'a) dck_op = "(dsdiff_io option \<times> 'o, dsdiff_error, 'a) op"

text \<open>\<^verbatim>\<open>if (!chunk) return DSDIFF_ERROR_INVALID_ARG;\<close>\<close>

definition on_dchunk :: "'a dio_op \<Rightarrow> 'a dio_op" where
  "on_dchunk m = (\<lambda>s. if s = None then (Err DSDIFF_ERROR_INVALID_ARG, s) else m s)"

definition on_dout :: "('o, 'a) dck_op \<Rightarrow> ('o, 'a) dck_op" where
  "on_dout m = (\<lambda>(s, out). if s = None then (Err DSDIFF_ERROR_INVALID_ARG, (s, out)) else m (s, out))"

definition put_out :: "('o \<Rightarrow> 'o) \<Rightarrow> ('o, unit) dck_op" where
  "put_out f = on_snd (modify f)"

text \<open>A value read into a variable.\<close>

definition read_to :: "'v dio_op \<Rightarrow> ('v \<Rightarrow> 'o \<Rightarrow> 'o) \<Rightarrow> ('o, unit) dck_op" where
  "read_to m upd = seq (on_fst m) (\<lambda>v. put_out (upd v))"

definition dchunk_open ::
  "heap \<Rightarrow> (string option \<Rightarrow> (disk, dsdiff_error, dsdiff_io) op) \<Rightarrow> string option \<Rightarrow>
   (disk, dsdiff_error, dsdiff_io) op" where
  "dchunk_open hp opn filename = (\<lambda>d. if \<not> sa_malloc hp 4112 then (Err DSDIFF_ERROR_OUT_OF_MEMORY, d)
     else opn filename d)"

definition dsdiff_chunk_file_open_modify :: "heap \<Rightarrow> string option \<Rightarrow> (disk, dsdiff_error, dsdiff_io) op" where
  "dsdiff_chunk_file_open_modify hp = dchunk_open hp dsdiff_io_open_modify"

definition dsdiff_chunk_file_open_read :: "heap \<Rightarrow> string option \<Rightarrow> (disk, dsdiff_error, dsdiff_io) op" where
  "dsdiff_chunk_file_open_read hp = dchunk_open hp dsdiff_io_open_read"

definition dsdiff_chunk_file_open_write :: "heap \<Rightarrow> string option \<Rightarrow> (disk, dsdiff_error, dsdiff_io) op" where
  "dsdiff_chunk_file_open_write hp = dchunk_open hp dsdiff_io_open_write"

text \<open>\<^verbatim>\<open>dsdiff_io_seek\<close> takes a position of type \<^verbatim>\<open>uint64_t\<close> as an \<^verbatim>\<open>int64_t\<close>.\<close>

definition seek_set :: "u64 \<Rightarrow> u64 option dio_op" where
  "seek_set pos = dsdiff_io_seek (sint pos) SEEK_SET True"

definition dsdiff_chunk_read_contents :: "nat \<Rightarrow> u64 \<Rightarrow> nat \<Rightarrow> byte list dio_op" where
  "dsdiff_chunk_read_contents buffer_size file_pos byte_count = on_dchunk (
     seq dsdiff_io_get_position (\<lambda>saved_pos.
     seq (seek_set file_pos) (\<lambda>_.
     seq (on_err (dsdiff_io_read_bytes buffer_size byte_count) (ignore (seek_set saved_pos))) (\<lambda>bs.
     seq (seek_set saved_pos) (\<lambda>_. ret bs)))))"

definition dsdiff_chunk_skip :: "unit dio_op" where
  "dsdiff_chunk_skip = on_dchunk (
     seq dsdiff_io_read_uint64_be (\<lambda>chunk_size.
     seq (dsdiff_io_seek (sint chunk_size) SEEK_CUR False) (\<lambda>_.
     if chunk_size mod 2 \<noteq> 0 then dsdiff_io_read_pad_byte else ret ())))"

definition dsdiff_chunk_read_header :: "(dsdiff_chunk_type, unit) dck_op" where
  "dsdiff_chunk_read_header = on_dout (
     seq (put_out (\<lambda>_. DSDIFF_CHUNK_UNKNOWN)) (\<lambda>_.
     read_to dsdiff_io_read_chunk_id (\<lambda>fourcc _. case map_of DSDIFF_CHUNK_LIST fourcc of
         Some chunk_type \<Rightarrow> chunk_type | None \<Rightarrow> DSDIFF_CHUNK_UNKNOWN)))"

section \<open>FRM8, FVER, PROP and FS\<close>

definition dsdiff_chunk_read_frm8_header :: "(u64 \<times> dsdiff_audio_type, unit) dck_op" where
  "dsdiff_chunk_read_frm8_header = on_dout (
     seq (put_out (\<lambda>_. (0, DSDIFF_AUDIO_DSD))) (\<lambda>_.
     seq (read_to dsdiff_io_read_uint64_be (\<lambda>v (_, t). (v, t))) (\<lambda>_.
     seq (on_fst (\<lambda>s. case dsdiff_chunk_read_header (s, DSDIFF_CHUNK_UNKNOWN) of
            (r, (s', ct)) \<Rightarrow> (case r of Ok _ \<Rightarrow> (Ok ct, s') | Err e \<Rightarrow> (Err e, s') | Fault \<Rightarrow> (Fault, s')))) (\<lambda>ct.
     if ct = DSDIFF_CHUNK_DST then put_out (\<lambda>(v, _). (v, DSDIFF_AUDIO_DST))
     else if ct = DSDIFF_CHUNK_DSD then put_out (\<lambda>(v, _). (v, DSDIFF_AUDIO_DSD))
     else fail DSDIFF_ERROR_INVALID_FILE))))"

text \<open>The form type is always \<^verbatim>\<open>DSD\<close>.\<close>

definition dsdiff_chunk_write_frm8_header :: "u64 \<Rightarrow> unit dio_op" where
  "dsdiff_chunk_write_frm8_header chunk_size = on_dchunk (
     seq (dsdiff_io_write_chunk_id FRM8_FOURCC) (\<lambda>_.
     seq (dsdiff_io_write_uint64_be chunk_size) (\<lambda>_.
     dsdiff_io_write_chunk_id DSD_FOURCC)))"

definition dsdiff_chunk_write_fver :: "u32 \<Rightarrow> unit dio_op" where
  "dsdiff_chunk_write_fver version = on_dchunk (
     seq (dsdiff_io_write_chunk_id FVER_FOURCC) (\<lambda>_.
     seq (dsdiff_io_write_uint64_be 4) (\<lambda>_.
     dsdiff_io_write_uint32_be version)))"

definition dsdiff_chunk_read_fver :: "(u32, unit) dck_op" where
  "dsdiff_chunk_read_fver = on_dout (
     seq (put_out (\<lambda>_. 0)) (\<lambda>_.
     seq (on_fst dsdiff_io_read_uint64_be) (\<lambda>chunk_size.
     seq (ensure (chunk_size = 4) DSDIFF_ERROR_INVALID_CHUNK) (\<lambda>_.
     read_to dsdiff_io_read_uint32_be (\<lambda>v _. v)))))"

definition dsdiff_chunk_write_prop_header :: "u64 \<Rightarrow> unit dio_op" where
  "dsdiff_chunk_write_prop_header chunk_size = on_dchunk (
     seq (dsdiff_io_write_chunk_id PROP_FOURCC) (\<lambda>_.
     seq (dsdiff_io_write_uint64_be chunk_size) (\<lambda>_.
     dsdiff_io_write_chunk_id SND_FOURCC)))"

definition dsdiff_chunk_read_prop_header :: "(u64, unit) dck_op" where
  "dsdiff_chunk_read_prop_header = on_dout (
     seq (put_out (\<lambda>_. 0)) (\<lambda>_.
     seq (read_to dsdiff_io_read_uint64_be (\<lambda>v _. v)) (\<lambda>_.
     seq (on_fst dsdiff_io_read_chunk_id) (\<lambda>prop_type.
     ensure (prop_type = SND_FOURCC) DSDIFF_ERROR_INVALID_FILE))))"

definition dsdiff_chunk_write_fs :: "u32 \<Rightarrow> unit dio_op" where
  "dsdiff_chunk_write_fs sample_rate = on_dchunk (
     seq (dsdiff_io_write_chunk_id FS_FOURCC) (\<lambda>_.
     seq (dsdiff_io_write_uint64_be 4) (\<lambda>_.
     dsdiff_io_write_uint32_be sample_rate)))"

definition dsdiff_chunk_read_fs :: "(u32, unit) dck_op" where
  "dsdiff_chunk_read_fs = on_dout (
     seq (put_out (\<lambda>_. 0)) (\<lambda>_.
     seq (on_fst dsdiff_io_read_uint64_be) (\<lambda>chunk_size.
     seq (ensure (chunk_size = 4) DSDIFF_ERROR_INVALID_CHUNK) (\<lambda>_.
     read_to dsdiff_io_read_uint32_be (\<lambda>v _. v)))))"

section \<open>CHNL: channels\<close>

text \<open>The array with designated initialisers: \<open>0\<close> where no channel is named.\<close>

definition channel_code_map :: "nat \<Rightarrow> u32" where
  "channel_code_map i = (case map_of (map (\<lambda>(f, c). (unat c, f)) DSDIFF_CHANNEL_LIST) i of
       Some code \<Rightarrow> code | None \<Rightarrow> if i = 9999 then 0xfeedfeed else 0)"

definition channel_code :: "u32 \<Rightarrow> u32 option" where
  "channel_code channel = (let ch_id = sint channel in
     if 0 \<le> ch_id \<and> ch_id < 10000 \<and> channel_code_map (nat ch_id) \<noteq> 0
     then Some (channel_code_map (nat ch_id))
     else if 0 \<le> ch_id \<and> ch_id \<le> 999
     then let d0 = ch_id div 100; d1 = ch_id mod 100 div 10; d2 = ch_id mod 10 in
          Some (push_bit 24 0x43 OR push_bit 16 (of_int (d0 + 48)) OR push_bit 8 (of_int (d1 + 48)) OR
                of_int (d2 + 48))
     else None)"

definition write_channel :: "u32 option list \<Rightarrow> nat \<Rightarrow> unit dio_op" where
  "write_channel channel_ids i =
     (case (if i < length channel_ids then channel_ids ! i else None) of
        None \<Rightarrow> fault
      | Some channel \<Rightarrow> (case channel_code channel of
          None \<Rightarrow> fail DSDIFF_ERROR_INVALID_ARG | Some code \<Rightarrow> dsdiff_io_write_chunk_id code))"

definition dsdiff_chunk_write_chnl :: "u16 \<Rightarrow> u32 option list ptr \<Rightarrow> unit dio_op" where
  "dsdiff_chunk_write_chnl channel_count channel_ids = on_dchunk (
     if channel_ids = Null then fail DSDIFF_ERROR_INVALID_ARG else
     seq (dsdiff_io_write_chunk_id CHNL_FOURCC) (\<lambda>_.
     seq (dsdiff_io_write_uint64_be (2 + ucast channel_count * 4)) (\<lambda>_.
     seq (dsdiff_io_write_uint16_be channel_count) (\<lambda>_.
     if channel_count = 0 then ret () else
     seq (deref channel_ids) (\<lambda>ids. for_loop 0 (unat channel_count) (write_channel ids))))))"

definition channel_of_code :: "u32 \<Rightarrow> u32" where
  "channel_of_code code = (case map_of DSDIFF_CHANNEL_LIST code of
       Some c \<Rightarrow> c
     | None \<Rightarrow> let b0 = ucast (drop_bit 24 code AND 0xFF) :: byte; b1 = ucast (drop_bit 16 code AND 0xFF) :: byte;
                  b2 = ucast (drop_bit 8 code AND 0xFF) :: byte; b3 = ucast (code AND 0xFF) :: byte in
         if b0 = 0x43 \<and> b1 \<ge> 48 \<and> b1 \<le> 57 \<and> b2 \<ge> 48 \<and> b2 \<le> 57 \<and> b3 \<ge> 48 \<and> b3 \<le> 57
         then of_int ((uint b3 - 48) + 10 * (uint b2 - 48) + 100 * (uint b1 - 48))
         else DSDIFF_CHAN_INVALID)"

fun read_channels :: "nat \<Rightarrow> u32 list dio_op" where
  "read_channels 0 = ret []"
| "read_channels (Suc n) = seq dsdiff_io_read_chunk_id (\<lambda>code.
     seq (read_channels n) (\<lambda>ids. ret (channel_of_code code # ids)))"

definition dsdiff_chunk_read_chnl :: "heap \<Rightarrow> (u16 \<times> u32 option list ptr, unit) dck_op" where
  "dsdiff_chunk_read_chnl hp = on_dout (
     seq (put_out (\<lambda>_. (0, Null))) (\<lambda>_.
     seq (on_fst dsdiff_io_read_uint64_be) (\<lambda>chunk_size.
     seq (on_fst dsdiff_io_read_uint16_be) (\<lambda>num_ch.
     seq (ensure (\<not> (num_ch = 0 \<or> num_ch > 1000 \<or> chunk_size \<noteq> 2 + 4 * ucast num_ch))
       DSDIFF_ERROR_INVALID_CHUNK) (\<lambda>_.
     seq (ensure (sa_malloc hp (unat num_ch * 4)) DSDIFF_ERROR_OUT_OF_MEMORY) (\<lambda>_.
     read_to (read_channels (unat num_ch)) (\<lambda>ids _. (num_ch, Ptr (map Some ids)))))))))"

section \<open>CMPR, ABSS and LSCO\<close>

definition dsdiff_chunk_write_cmpr :: "dsdiff_audio_type \<Rightarrow> byte list \<Rightarrow> unit dio_op" where
  "dsdiff_chunk_write_cmpr compression_type compression_name = on_dchunk (
     let fourcc = (if compression_type = DSDIFF_AUDIO_DST then DST_FOURCC else DSD_FOURCC);
         str_len = length (cstr compression_name);
         chunk_size = 4 + 1 + of_nat str_len + (if str_len mod 2 = 0 then 1 else 0) in
     seq (dsdiff_io_write_chunk_id CMPR_FOURCC) (\<lambda>_.
     seq (dsdiff_io_write_uint64_be chunk_size) (\<lambda>_.
     seq (dsdiff_io_write_chunk_id fourcc) (\<lambda>_.
     dsdiff_io_write_pstring compression_name))))"

text \<open>\<^verbatim>\<open>name_len\<close> is passed to \<^verbatim>\<open>dsdiff_io_read_pstring\<close> without having been set: its
  indeterminate value is the first argument.\<close>

definition dsdiff_chunk_read_cmpr :: "u16 \<Rightarrow> nat \<Rightarrow> (dsdiff_audio_type \<times> byte list, unit) dck_op" where
  "dsdiff_chunk_read_cmpr name_len name_buffer_size = on_dout (
     seq (on_fst dsdiff_io_read_uint64_be) (\<lambda>chunk_size.
     seq (on_fst dsdiff_io_read_chunk_id) (\<lambda>fourcc.
     seq (if fourcc = DSD_FOURCC then put_out (\<lambda>(_, n). (DSDIFF_AUDIO_DSD, n))
          else if fourcc = DST_FOURCC then put_out (\<lambda>(_, n). (DSDIFF_AUDIO_DST, n))
          else fail DSDIFF_ERROR_INVALID_CHUNK) (\<lambda>_.
     read_to (dsdiff_io_read_pstring name_len name_buffer_size) (\<lambda>(_, bs) (t, _). (t, bs))))))"

definition dsdiff_chunk_write_abss :: "dsdiff_timecode \<Rightarrow> unit dio_op" where
  "dsdiff_chunk_write_abss timecode = on_dchunk (
     seq (dsdiff_io_write_chunk_id ABSS_FOURCC) (\<lambda>_.
     seq (dsdiff_io_write_uint64_be 8) (\<lambda>_.
     seq (dsdiff_io_write_uint16_be (tc_hours timecode)) (\<lambda>_.
     seq (dsdiff_io_write_uint8 (tc_minutes timecode)) (\<lambda>_.
     seq (dsdiff_io_write_uint8 (tc_seconds timecode)) (\<lambda>_.
     dsdiff_io_write_uint32_be (tc_samples timecode)))))))"

definition dsdiff_chunk_read_abss :: "(dsdiff_timecode, unit) dck_op" where
  "dsdiff_chunk_read_abss = on_dout (
     seq (on_fst dsdiff_io_read_uint64_be) (\<lambda>chunk_size.
     seq (ensure (chunk_size = 8) DSDIFF_ERROR_INVALID_CHUNK) (\<lambda>_.
     seq (read_to dsdiff_io_read_uint16_be (\<lambda>v t. t\<lparr>tc_hours := v\<rparr>)) (\<lambda>_.
     seq (read_to dsdiff_io_read_uint8 (\<lambda>v t. t\<lparr>tc_minutes := v\<rparr>)) (\<lambda>_.
     seq (read_to dsdiff_io_read_uint8 (\<lambda>v t. t\<lparr>tc_seconds := v\<rparr>)) (\<lambda>_.
     read_to dsdiff_io_read_uint32_be (\<lambda>v t. t\<lparr>tc_samples := v\<rparr>)))))))"

definition dsdiff_chunk_write_lsco :: "u32 \<Rightarrow> unit dio_op" where
  "dsdiff_chunk_write_lsco config = on_dchunk (
     seq (dsdiff_io_write_chunk_id LSCO_FOURCC) (\<lambda>_.
     seq (dsdiff_io_write_uint64_be 2) (\<lambda>_.
     dsdiff_io_write_uint16_be (ucast config))))"

definition dsdiff_chunk_read_lsco :: "(u32, unit) dck_op" where
  "dsdiff_chunk_read_lsco = on_dout (
     seq (on_fst dsdiff_io_read_uint64_be) (\<lambda>chunk_size.
     seq (ensure (chunk_size = 2) DSDIFF_ERROR_INVALID_CHUNK) (\<lambda>_.
     read_to dsdiff_io_read_uint16_be (\<lambda>v _. ucast v))))"

section \<open>Sound data\<close>

text \<open>The variables are the start and the end of the data.\<close>

definition write_data_header :: "u32 \<Rightarrow> u64 \<Rightarrow> (u64 \<times> u64, unit) dck_op" where
  "write_data_header fourcc data_size = on_dout (
     seq (put_out (\<lambda>_. (0, 0))) (\<lambda>_.
     seq (on_fst (dsdiff_io_write_chunk_id fourcc)) (\<lambda>_.
     seq (on_fst (dsdiff_io_write_uint64_be data_size)) (\<lambda>_.
     seq (read_to dsdiff_io_get_position (\<lambda>p (_, e). (p, e))) (\<lambda>_.
     put_out (\<lambda>(p, _). (p, p + data_size)))))))"

definition dsdiff_chunk_write_snd_header :: "u64 \<Rightarrow> (u64 \<times> u64, unit) dck_op" where
  "dsdiff_chunk_write_snd_header = write_data_header DSD_FOURCC"

definition dsdiff_chunk_write_dst_header :: "u64 \<Rightarrow> (u64 \<times> u64, unit) dck_op" where
  "dsdiff_chunk_write_dst_header = write_data_header DST_FOURCC"

definition dsdiff_chunk_write_diin_header :: "u64 \<Rightarrow> (u64 \<times> u64, unit) dck_op" where
  "dsdiff_chunk_write_diin_header = write_data_header DIIN_FOURCC"

text \<open>The variables are the size, the start and the end; the first form also skips the data.\<close>

definition read_data_header :: "(u64 \<times> u64 \<times> u64, unit) dck_op" where
  "read_data_header = on_dout (
     seq (put_out (\<lambda>_. (0, 0, 0))) (\<lambda>_.
     seq (read_to dsdiff_io_read_uint64_be (\<lambda>v (_, p, e). (v, p, e))) (\<lambda>_.
     read_to dsdiff_io_get_position (\<lambda>v (n, _, e). (n, v, e)))))"

definition read_and_skip_data :: "(u64 \<times> u64 \<times> u64, unit) dck_op" where
  "read_and_skip_data = seq read_data_header (\<lambda>_. seq get (\<lambda>(_, chunk_size, _, _).
     seq (read_to (dsdiff_io_seek (sint chunk_size) SEEK_CUR True) (\<lambda>v (n, p, e). (n, p, the v))) (\<lambda>_.
     if chunk_size mod 2 \<noteq> 0 then on_fst dsdiff_io_read_pad_byte else ret ())))"

definition dsdiff_chunk_read_snd_header :: "(u64 \<times> u64 \<times> u64, unit) dck_op" where
  "dsdiff_chunk_read_snd_header = read_and_skip_data"

definition dsdiff_chunk_read_dst_header :: "(u64 \<times> u64 \<times> u64, unit) dck_op" where
  "dsdiff_chunk_read_dst_header = read_data_header"

definition dsdiff_chunk_read_dsti_header :: "(u64 \<times> u64 \<times> u64, unit) dck_op" where
  "dsdiff_chunk_read_dsti_header = read_and_skip_data"

definition dsdiff_chunk_read_diin_header :: "(u64 \<times> u64 \<times> u64, unit) dck_op" where
  "dsdiff_chunk_read_diin_header = read_data_header"

section \<open>DST frames\<close>

definition dsdiff_chunk_write_frte :: "u32 \<Rightarrow> u16 \<Rightarrow> unit dio_op" where
  "dsdiff_chunk_write_frte frame_count frame_rate = on_dchunk (
     seq (dsdiff_io_write_chunk_id FRTE_FOURCC) (\<lambda>_.
     seq (dsdiff_io_write_uint64_be 6) (\<lambda>_.
     seq (dsdiff_io_write_uint32_be frame_count) (\<lambda>_.
     dsdiff_io_write_uint16_be frame_rate))))"

definition dsdiff_chunk_read_frte :: "(u32 \<times> u16, unit) dck_op" where
  "dsdiff_chunk_read_frte = on_dout (
     seq (on_fst dsdiff_io_read_uint64_be) (\<lambda>chunk_size.
     seq (ensure (chunk_size = 6) DSDIFF_ERROR_INVALID_CHUNK) (\<lambda>_.
     seq (read_to dsdiff_io_read_uint32_be (\<lambda>v (_, r). (v, r))) (\<lambda>_.
     read_to dsdiff_io_read_uint16_be (\<lambda>v (c, _). (c, v))))))"

text \<open>A block of \<open>n\<close> bytes from a buffer that may be shorter.\<close>

definition write_block :: "byte list \<Rightarrow> nat \<Rightarrow> nat dio_op" where
  "write_block buffer n = (if n \<le> length buffer then dsdiff_io_write_bytes (take n buffer) else fault)"

definition write_pad_if :: "bool \<Rightarrow> unit dio_op" where
  "write_pad_if odd_size = (if odd_size then dsdiff_io_write_pad_byte else ret ())"

definition read_pad_if :: "bool \<Rightarrow> unit dio_op" where
  "read_pad_if odd_size = (if odd_size then dsdiff_io_read_pad_byte else ret ())"

text \<open>The result is the position of the frame data. The size is cut to 32 bits for the write.\<close>

definition dsdiff_chunk_write_dstf :: "u64 \<Rightarrow> byte list \<Rightarrow> u64 dio_op" where
  "dsdiff_chunk_write_dstf frame_size frame_data = on_dchunk (
     seq (dsdiff_io_write_chunk_id DSTF_FOURCC) (\<lambda>_.
     seq (dsdiff_io_write_uint64_be frame_size) (\<lambda>_.
     seq dsdiff_io_get_position (\<lambda>position.
     seq (write_block frame_data (unat (ucast frame_size :: u32))) (\<lambda>bytes_written.
     seq (ensure (bytes_written = unat frame_size) DSDIFF_ERROR_WRITE_FAILED) (\<lambda>_.
     seq (write_pad_if (frame_size mod 2 \<noteq> 0)) (\<lambda>_. ret position)))))))"

definition dsdiff_chunk_read_dstf :: "nat \<Rightarrow> (u64, byte list) dck_op" where
  "dsdiff_chunk_read_dstf buffer_size = on_dout (
     seq (read_to dsdiff_io_read_uint64_be (\<lambda>v _. v)) (\<lambda>_.
     seq get (\<lambda>(_, frame_size).
     seq (on_fst (dsdiff_io_read_bytes buffer_size (unat (ucast frame_size :: u32)))) (\<lambda>bs.
     seq (ensure (length bs = unat frame_size) DSDIFF_ERROR_UNEXPECTED_EOF) (\<lambda>_.
     seq (on_fst (read_pad_if (frame_size mod 2 \<noteq> 0))) (\<lambda>_. ret bs))))))"

definition dsdiff_chunk_write_dstc :: "u64 \<Rightarrow> byte list \<Rightarrow> unit dio_op" where
  "dsdiff_chunk_write_dstc crc_size crc_data = on_dchunk (
     seq (dsdiff_io_write_chunk_id DSTC_FOURCC) (\<lambda>_.
     seq (dsdiff_io_write_uint64_be crc_size) (\<lambda>_.
     seq (write_block crc_data (unat crc_size)) (\<lambda>bytes_written.
     seq (ensure (bytes_written = unat crc_size) DSDIFF_ERROR_WRITE_FAILED) (\<lambda>_.
     write_pad_if (crc_size mod 2 \<noteq> 0))))))"

definition dsdiff_chunk_get_dstc_size :: "u64 dio_op" where
  "dsdiff_chunk_get_dstc_size = on_dchunk dsdiff_io_read_uint64_be"

definition dsdiff_chunk_read_dstc :: "nat \<Rightarrow> (u64, byte list) dck_op" where
  "dsdiff_chunk_read_dstc buffer_size = on_dout (
     seq (read_to dsdiff_io_read_uint64_be (\<lambda>v _. v)) (\<lambda>_.
     seq get (\<lambda>(_, crc_size).
     seq (on_fst (dsdiff_io_read_bytes buffer_size (unat crc_size))) (\<lambda>bs.
     seq (ensure (length bs = unat crc_size) DSDIFF_ERROR_UNEXPECTED_EOF) (\<lambda>_.
     seq (on_fst (read_pad_if (crc_size mod 2 \<noteq> 0))) (\<lambda>_. ret bs))))))"

section \<open>The DST index\<close>

text \<open>The array is \<open>Null\<close> before the first frame; an element that was never stored is \<open>None\<close>.\<close>

definition write_index_entry :: "dsdiff_index option list \<Rightarrow> nat \<Rightarrow> unit dio_op" where
  "write_index_entry indexes i = (case (if i < length indexes then indexes ! i else None) of
       None \<Rightarrow> fault
     | Some ix \<Rightarrow> seq (dsdiff_io_write_uint64_be (ix_offset ix)) (\<lambda>_.
         dsdiff_io_write_uint32_be (ix_length ix)))"

definition dsdiff_chunk_write_dsti_contents :: "u64 \<Rightarrow> dsdiff_index option list ptr \<Rightarrow> unit dio_op" where
  "dsdiff_chunk_write_dsti_contents frame_count indexes = on_dchunk (
     if indexes = Null then fail DSDIFF_ERROR_INVALID_ARG else
     seq (dsdiff_io_write_chunk_id DSTI_FOURCC) (\<lambda>_.
     seq (dsdiff_io_write_uint64_be (frame_count * 12)) (\<lambda>_.
     seq (deref indexes) (\<lambda>xs. for_loop 0 (unat frame_count) (write_index_entry xs)))))"

fun read_index_entries :: "nat \<Rightarrow> dsdiff_index list dio_op" where
  "read_index_entries 0 = ret []"
| "read_index_entries (Suc n) =
     seq dsdiff_io_read_uint64_be (\<lambda>offset. seq dsdiff_io_read_uint32_be (\<lambda>len.
     seq (read_index_entries n) (\<lambda>xs. ret (\<lparr>ix_offset = offset, ix_length = len\<rparr> # xs))))"

definition dsdiff_chunk_read_dsti_contents :: "u64 \<Rightarrow> u64 \<Rightarrow> dsdiff_index list dio_op" where
  "dsdiff_chunk_read_dsti_contents offset frame_count = on_dchunk (
     seq dsdiff_io_get_position (\<lambda>cur_pos.
     seq (seek_set offset) (\<lambda>_.
     seq (on_err (read_index_entries (unat frame_count)) (ignore (seek_set cur_pos))) (\<lambda>xs.
     seq (seek_set cur_pos) (\<lambda>_. ret xs)))))"

section \<open>Comments\<close>

text \<open>The length of a text that may be absent, at its 32-bit width.\<close>

definition text_len :: "byte list option \<Rightarrow> u32" where
  "text_len text = (case text of None \<Rightarrow> 0 | Some t \<Rightarrow> of_nat (length (cstr t)))"

definition comt_chunk_size :: "dsdiff_comment list \<Rightarrow> u64" where
  "comt_chunk_size comments = 2 + (\<Sum>c\<leftarrow>comments. 14 + ucast (text_len (cm_text c)) +
     (if text_len (cm_text c) mod 2 \<noteq> 0 then 1 else 0))"

definition write_comment :: "dsdiff_comment \<Rightarrow> unit dio_op" where
  "write_comment c = (let n = text_len (cm_text c) in
     seq (dsdiff_io_write_uint16_be (cm_year c)) (\<lambda>_.
     seq (dsdiff_io_write_uint8 (cm_month c)) (\<lambda>_.
     seq (dsdiff_io_write_uint8 (cm_day c)) (\<lambda>_.
     seq (dsdiff_io_write_uint8 (cm_hour c)) (\<lambda>_.
     seq (dsdiff_io_write_uint8 (cm_minute c)) (\<lambda>_.
     seq (dsdiff_io_write_uint16_be (cm_comment_type c)) (\<lambda>_.
     seq (dsdiff_io_write_uint16_be (cm_comment_ref c)) (\<lambda>_.
     seq (dsdiff_io_write_uint32_be n) (\<lambda>_.
     seq (case cm_text c of Some t \<Rightarrow> if n > 0 then dsdiff_io_write_string (unat n) t else ret ()
          | None \<Rightarrow> ret ()) (\<lambda>_.
     write_pad_if (n mod 2 \<noteq> 0)))))))))))"

text \<open>The array has to hold \<open>comment_count\<close> comments.\<close>

definition dsdiff_chunk_write_comt :: "u16 \<Rightarrow> dsdiff_comment list option \<Rightarrow> unit dio_op" where
  "dsdiff_chunk_write_comt comment_count comments = on_dchunk (case comments of
       None \<Rightarrow> fail DSDIFF_ERROR_INVALID_ARG
     | Some cs \<Rightarrow> if length cs < unat comment_count then fault else
         let cs = take (unat comment_count) cs in
         seq (dsdiff_io_write_chunk_id COMT_FOURCC) (\<lambda>_.
         seq (dsdiff_io_write_uint64_be (comt_chunk_size cs)) (\<lambda>_.
         seq (dsdiff_io_write_uint16_be comment_count) (\<lambda>_.
         for_loop 0 (length cs) (\<lambda>i. write_comment (cs ! i))))))"

text \<open>A buffer of \<^verbatim>\<open>sa_malloc(n + 1)\<close> bytes, \<open>n + 1\<close> computed in 32 bits, filled with \<open>n\<close>
  characters and the terminator. A request for nothing yields one byte.\<close>

definition read_text :: "heap \<Rightarrow> u32 \<Rightarrow> byte list dio_op" where
  "read_text hp num_chars =
     seq (ensure (sa_malloc hp (unat (num_chars + 1))) DSDIFF_ERROR_OUT_OF_MEMORY) (\<lambda>_.
     dsdiff_io_read_string (max 1 (unat (num_chars + 1))) (unat num_chars))"

definition read_comment :: "heap \<Rightarrow> dsdiff_comment dio_op" where
  "read_comment hp =
     seq dsdiff_io_read_uint16_be (\<lambda>year. seq dsdiff_io_read_uint8 (\<lambda>month.
     seq dsdiff_io_read_uint8 (\<lambda>day. seq dsdiff_io_read_uint8 (\<lambda>hour.
     seq dsdiff_io_read_uint8 (\<lambda>minute. seq dsdiff_io_read_uint16_be (\<lambda>ctype.
     seq dsdiff_io_read_uint16_be (\<lambda>cref. seq dsdiff_io_read_uint32_be (\<lambda>n.
     seq (if n > 0 then seq (read_text hp n) (\<lambda>t. seq (read_pad_if (n mod 2 \<noteq> 0)) (\<lambda>_. ret (Some t)))
          else ret None) (\<lambda>text.
     ret \<lparr>cm_year = year, cm_month = month, cm_day = day, cm_hour = hour, cm_minute = minute,
          cm_comment_type = ctype, cm_comment_ref = cref, cm_text_length = n, cm_text = text\<rparr>)))))))))"

fun read_comments :: "heap \<Rightarrow> nat \<Rightarrow> dsdiff_comment list dio_op" where
  "read_comments hp 0 = ret []"
| "read_comments hp (Suc n) = seq (read_comment hp) (\<lambda>c. seq (read_comments hp n) (\<lambda>cs. ret (c # cs)))"

definition dsdiff_chunk_read_comt :: "heap \<Rightarrow> (u16 \<times> dsdiff_comment list option, unit) dck_op" where
  "dsdiff_chunk_read_comt hp = on_dout (
     seq (put_out (\<lambda>_. (0, None))) (\<lambda>_.
     seq (on_fst dsdiff_io_read_uint64_be) (\<lambda>chunk_size.
     seq (on_fst dsdiff_io_read_uint16_be) (\<lambda>num.
     if num = 0 then ret () else
     seq (ensure (sa_malloc hp (unat num * 24)) DSDIFF_ERROR_OUT_OF_MEMORY) (\<lambda>_.
     read_to (read_comments hp (unat num)) (\<lambda>cs _. (num, Some cs)))))))"

section \<open>Edited master identifier, artist and title\<close>

definition dsdiff_chunk_write_emid :: "u64 \<Rightarrow> byte list \<Rightarrow> unit dio_op" where
  "dsdiff_chunk_write_emid text_length emid = on_dchunk (
     seq (dsdiff_io_write_chunk_id EMID_FOURCC) (\<lambda>_.
     seq (dsdiff_io_write_uint64_be text_length) (\<lambda>_.
     seq (dsdiff_io_write_string (unat text_length) emid) (\<lambda>_.
     write_pad_if (text_length mod 2 \<noteq> 0)))))"

definition dsdiff_chunk_read_emid :: "heap \<Rightarrow> (byte list option, unit) dck_op" where
  "dsdiff_chunk_read_emid hp = on_dout (
     seq (put_out (\<lambda>_. None)) (\<lambda>_.
     seq (on_fst dsdiff_io_read_uint64_be) (\<lambda>chunk_size. let num_chars = ucast chunk_size :: u32 in
     seq (on_fst (read_text hp num_chars)) (\<lambda>text.
     seq (on_fst (read_pad_if (num_chars mod 2 \<noteq> 0))) (\<lambda>_.
     put_out (\<lambda>_. Some text))))))"

definition write_counted_text :: "u32 \<Rightarrow> u64 \<Rightarrow> byte list \<Rightarrow> unit dio_op" where
  "write_counted_text fourcc text_length text = on_dchunk (
     seq (ensure (\<not> text_length > 0xFFFFFFFF) DSDIFF_ERROR_INVALID_ARG) (\<lambda>_.
     let len32 = ucast text_length :: u32 in
     seq (dsdiff_io_write_chunk_id fourcc) (\<lambda>_.
     seq (dsdiff_io_write_uint64_be (ucast len32 + 4 + ucast (len32 mod 2))) (\<lambda>_.
     seq (dsdiff_io_write_uint32_be len32) (\<lambda>_.
     seq (dsdiff_io_write_string (unat text_length) text) (\<lambda>_.
     write_pad_if (len32 mod 2 \<noteq> 0)))))))"

definition read_counted_text :: "heap \<Rightarrow> (byte list option, unit) dck_op" where
  "read_counted_text hp = on_dout (
     seq (put_out (\<lambda>_. None)) (\<lambda>_.
     seq (on_fst dsdiff_io_read_uint64_be) (\<lambda>chunk_size.
     seq (on_fst dsdiff_io_read_uint32_be) (\<lambda>num_chars.
     seq (on_fst (read_text hp num_chars)) (\<lambda>text.
     seq (on_fst (read_pad_if (num_chars mod 2 \<noteq> 0))) (\<lambda>_.
     put_out (\<lambda>_. Some text)))))))"

definition dsdiff_chunk_write_diar :: "u64 \<Rightarrow> byte list \<Rightarrow> unit dio_op" where
  "dsdiff_chunk_write_diar = write_counted_text DIAR_FOURCC"

definition dsdiff_chunk_read_diar :: "heap \<Rightarrow> (byte list option, unit) dck_op" where
  "dsdiff_chunk_read_diar = read_counted_text"

definition dsdiff_chunk_write_diti :: "u64 \<Rightarrow> byte list \<Rightarrow> unit dio_op" where
  "dsdiff_chunk_write_diti = write_counted_text DITI_FOURCC"

definition dsdiff_chunk_read_diti :: "heap \<Rightarrow> (byte list option, unit) dck_op" where
  "dsdiff_chunk_read_diti = read_counted_text"

section \<open>Markers\<close>

definition dsdiff_chunk_write_mark :: "dsdiff_marker \<Rightarrow> unit dio_op" where
  "dsdiff_chunk_write_mark marker = on_dchunk (
     let n = text_len (mk_marker_text marker);
         size0 = ucast (n + 22) :: u64; chunk_size = (if size0 mod 2 \<noteq> 0 then size0 + 1 else size0) in
     seq (dsdiff_io_write_chunk_id MARK_FOURCC) (\<lambda>_.
     seq (dsdiff_io_write_uint64_be chunk_size) (\<lambda>_.
     seq (dsdiff_io_write_uint16_be (tc_hours (mk_time marker))) (\<lambda>_.
     seq (dsdiff_io_write_uint8 (tc_minutes (mk_time marker))) (\<lambda>_.
     seq (dsdiff_io_write_uint8 (tc_seconds (mk_time marker))) (\<lambda>_.
     seq (dsdiff_io_write_uint32_be (tc_samples (mk_time marker))) (\<lambda>_.
     seq (dsdiff_io_write_int32_be (mk_offset marker)) (\<lambda>_.
     seq (dsdiff_io_write_uint16_be (ucast (mk_mark_type marker))) (\<lambda>_.
     seq (dsdiff_io_write_uint16_be (ucast (mk_mark_channel marker))) (\<lambda>_.
     seq (dsdiff_io_write_uint16_be (ucast (mk_track_flags marker))) (\<lambda>_.
     seq (dsdiff_io_write_uint32_be n) (\<lambda>_.
     seq (dsdiff_io_write_string (unat n)
            (case mk_marker_text marker of Some t \<Rightarrow> t | None \<Rightarrow> [])) (\<lambda>_.
     write_pad_if ((n + 22) mod 2 \<noteq> 0))))))))))))))"

definition set_time :: "(dsdiff_timecode \<Rightarrow> dsdiff_timecode) \<Rightarrow> dsdiff_marker \<Rightarrow> dsdiff_marker" where
  "set_time f m = m\<lparr>mk_time := f (mk_time m)\<rparr>"

definition dsdiff_chunk_read_mark :: "heap \<Rightarrow> (dsdiff_marker, unit) dck_op" where
  "dsdiff_chunk_read_mark hp = on_dout (
     seq (put_out (\<lambda>m. m\<lparr>mk_marker_text := None\<rparr>)) (\<lambda>_.
     seq (on_fst dsdiff_io_read_uint64_be) (\<lambda>chunk_size.
     seq (read_to dsdiff_io_read_uint16_be (\<lambda>v. set_time (\<lambda>t. t\<lparr>tc_hours := v\<rparr>))) (\<lambda>_.
     seq (read_to dsdiff_io_read_uint8 (\<lambda>v. set_time (\<lambda>t. t\<lparr>tc_minutes := v\<rparr>))) (\<lambda>_.
     seq (read_to dsdiff_io_read_uint8 (\<lambda>v. set_time (\<lambda>t. t\<lparr>tc_seconds := v\<rparr>))) (\<lambda>_.
     seq (read_to dsdiff_io_read_uint32_be (\<lambda>v. set_time (\<lambda>t. t\<lparr>tc_samples := v\<rparr>))) (\<lambda>_.
     seq (read_to dsdiff_io_read_int32_be (\<lambda>v m. m\<lparr>mk_offset := v\<rparr>)) (\<lambda>_.
     seq (read_to dsdiff_io_read_uint16_be (\<lambda>v m. m\<lparr>mk_mark_type := ucast v\<rparr>)) (\<lambda>_.
     seq (read_to dsdiff_io_read_uint16_be (\<lambda>v m. m\<lparr>mk_mark_channel := ucast v\<rparr>)) (\<lambda>_.
     seq (read_to dsdiff_io_read_uint16_be (\<lambda>v m. m\<lparr>mk_track_flags := ucast v\<rparr>)) (\<lambda>_.
     seq (on_fst dsdiff_io_read_uint32_be) (\<lambda>n.
     seq (put_out (\<lambda>m. m\<lparr>mk_text_length := n\<rparr>)) (\<lambda>_.
     seq (ensure (ucast (n + 22) = chunk_size \<or> ucast (n + 22 + 1) = chunk_size) DSDIFF_ERROR_INVALID_FILE) (\<lambda>_.
     seq (if n > 0 then read_to (read_text hp n) (\<lambda>t m. m\<lparr>mk_marker_text := Some t\<rparr>) else ret ()) (\<lambda>_.
     if n mod 2 \<noteq> 0 then on_err (on_fst dsdiff_io_read_pad_byte) (put_out (\<lambda>m. m\<lparr>mk_marker_text := None\<rparr>))
     else ret ())))))))))))))))"

section \<open>ID3 tags and manufacturer data\<close>

definition dsdiff_chunk_write_id3 :: "byte list option \<Rightarrow> u32 \<Rightarrow> unit dio_op" where
  "dsdiff_chunk_write_id3 tag_data tag_size = on_dchunk (case tag_data of
       None \<Rightarrow> fail DSDIFF_ERROR_INVALID_ARG
     | Some tag \<Rightarrow> seq (ensure (tag_size \<noteq> 0) DSDIFF_ERROR_INVALID_ARG) (\<lambda>_.
         seq (dsdiff_io_write_chunk_id ID3_FOURCC) (\<lambda>_.
         seq (dsdiff_io_write_uint64_be (ucast tag_size)) (\<lambda>_.
         seq (write_block tag (unat tag_size)) (\<lambda>_.
         write_pad_if (tag_size mod 2 \<noteq> 0))))))"

definition dsdiff_chunk_read_id3 :: "heap \<Rightarrow> (byte list option \<times> u32, unit) dck_op" where
  "dsdiff_chunk_read_id3 hp = on_dout (
     seq (put_out (\<lambda>_. (None, 0))) (\<lambda>_.
     seq (on_fst dsdiff_io_read_uint64_be) (\<lambda>n.
     if n = 0 then ret () else
     seq (ensure (sa_malloc hp (unat n)) DSDIFF_ERROR_OUT_OF_MEMORY) (\<lambda>_.
     seq (on_fst (dsdiff_io_read_bytes (unat n) (unat n))) (\<lambda>tag.
     seq (on_fst (read_pad_if (n mod 2 \<noteq> 0))) (\<lambda>_.
     put_out (\<lambda>_. (Some tag, ucast n))))))))"

text \<open>The variables are the identifier of four bytes, the data and its size. A short read of the
  identifier leaves the bytes that were there.\<close>

definition dsdiff_chunk_read_manf :: "heap \<Rightarrow> (byte list \<times> byte list option \<times> u32, unit) dck_op" where
  "dsdiff_chunk_read_manf hp = on_dout (
     seq (put_out (\<lambda>(id, _, _). (id, None, 0))) (\<lambda>_.
     seq (on_fst dsdiff_io_read_uint64_be) (\<lambda>chunk_size.
     seq (ensure (\<not> chunk_size < 4) DSDIFF_ERROR_INVALID_CHUNK) (\<lambda>_.
     seq (on_fst (dio_fread 4)) (\<lambda>bs.
     seq (put_out (\<lambda>(id, r). (bs @ drop (length bs) id, r))) (\<lambda>_.
     seq (ensure (length bs = 4) DSDIFF_ERROR_READ_FAILED) (\<lambda>_.
     let n = ucast (chunk_size - 4) :: u32 in
     seq (if n > 0 then
            seq (ensure (sa_malloc hp (unat n)) DSDIFF_ERROR_OUT_OF_MEMORY) (\<lambda>_.
            read_to (dsdiff_io_read_bytes (unat n) (unat n)) (\<lambda>d (id, _, _). (id, Some d, n)))
          else ret ()) (\<lambda>_.
     if chunk_size mod 2 \<noteq> 0
     then on_err (on_fst dsdiff_io_read_pad_byte) (put_out (\<lambda>(id, d, k). if d = None then (id, d, k) else (id, None, 0)))
     else ret ()))))))))"

definition dsdiff_chunk_write_manf :: "byte list \<Rightarrow> byte list option \<Rightarrow> u32 \<Rightarrow> unit dio_op" where
  "dsdiff_chunk_write_manf man_id data data_size = on_dchunk (
     seq (dsdiff_io_write_chunk_id MANF_FOURCC) (\<lambda>_.
     seq (dsdiff_io_write_uint64_be (4 + ucast data_size)) (\<lambda>_.
     seq (write_block man_id 4) (\<lambda>_.
     seq (case data of Some d \<Rightarrow> if data_size > 0 then seq (write_block d (unat data_size)) (\<lambda>_. ret ())
            else ret () | None \<Rightarrow> ret ()) (\<lambda>_.
     write_pad_if (data_size mod 2 \<noteq> 0))))))"

end
