(* ===== verification/Dsdiff_Markers.thy ===== *)
theory Dsdiff_Markers
  imports Dsdiff_Types "HOL-Library.Multiset" "HOL-Library.Product_Lexorder"
begin

text \<open>
  \<^verbatim>\<open>libdsdiff/src/dsdiff_markers.c\<close>: the list of markers and its merge sort. The intrusive
  circular list is the sequence of its entries; a pointer into the null-terminated list of the sort
  is the list of the nodes from there on. An entry has the members that
  \<^verbatim>\<open>dsdiff_marker_entry_create\<close> fills in; the other members of the structure are never set and
  never read. The list argument is the address of a member of the handle and not NULL.
\<close>

section \<open>Entries and lists\<close>

record dsdiff_marker_entry =
  me_time :: dsdiff_timecode
  me_mark_type :: u32
  me_marker_text :: "byte list option"
  me_sample_rate :: u32

record dsdiff_marker_list =
  ml_entries :: "dsdiff_marker_entry list"
  ml_count :: u32

definition dsdiff_marker_list_init :: dsdiff_marker_list where
  "dsdiff_marker_list_init = \<lparr>ml_entries = [], ml_count = 0\<rparr>"

definition dsdiff_marker_list_free :: "dsdiff_marker_list \<Rightarrow> dsdiff_marker_list" where
  "dsdiff_marker_list_free ml = ml\<lparr>ml_entries := [], ml_count := 0\<rparr>"

definition dsdiff_marker_list_get_count :: "dsdiff_marker_list \<Rightarrow> u32" where
  "dsdiff_marker_list_get_count ml = ml_count ml"

definition dsdiff_marker_list_is_empty :: "dsdiff_marker_list \<Rightarrow> bool" where
  "dsdiff_marker_list_is_empty ml \<longleftrightarrow> ml_count ml = 0"

text \<open>The copy of a text, and whether memory sufficed; no text needs no copy.\<close>

definition dup_text :: "heap \<Rightarrow> byte list option \<Rightarrow> byte list option option" where
  "dup_text hp text = (case text of None \<Rightarrow> Some None | Some t \<Rightarrow> map_option Some (sa_strdup hp t))"

definition dsdiff_marker_entry_create :: "heap \<Rightarrow> dsdiff_marker \<Rightarrow> u32 \<Rightarrow> dsdiff_marker_entry option" where
  "dsdiff_marker_entry_create hp marker sample_rate =
     (if \<not> sa_malloc hp 64 then None
      else case dup_text hp (mk_marker_text marker) of None \<Rightarrow> None
        | Some text \<Rightarrow> Some \<lparr>me_time = mk_time marker, me_mark_type = mk_mark_type marker,
            me_marker_text = text, me_sample_rate = sample_rate\<rparr>)"

definition dsdiff_marker_create :: "heap \<Rightarrow> dsdiff_marker option" where
  "dsdiff_marker_create hp = (if sa_malloc hp 40 then Some zero_marker else None)"

definition dsdiff_marker_list_add ::
  "heap \<Rightarrow> dsdiff_marker \<Rightarrow> u32 \<Rightarrow> (dsdiff_marker_list, dsdiff_error, unit) op" where
  "dsdiff_marker_list_add hp marker sample_rate = (\<lambda>ml.
     case dsdiff_marker_entry_create hp marker sample_rate of
       None \<Rightarrow> (Err DSDIFF_ERROR_OUT_OF_MEMORY, ml)
     | Some entry \<Rightarrow> (Ok (), ml\<lparr>ml_entries := ml_entries ml @ [entry], ml_count := ml_count ml + 1\<rparr>))"

text \<open>The walk along the list: the entry at \<open>index\<close>, counted from \<open>i\<close> in 32 bits, with the ones
  before and after it.\<close>

fun find_entry ::
  "u32 \<Rightarrow> u32 \<Rightarrow> 'a list \<Rightarrow> ('a list \<times> 'a \<times> 'a list) option" where
  "find_entry index i [] = None"
| "find_entry index i (x # xs) = (if i = index then Some ([], x, xs)
     else map_option (\<lambda>(ys, y, zs). (x # ys, y, zs)) (find_entry index (i + 1) xs))"

definition dsdiff_marker_list_remove :: "u32 \<Rightarrow> (dsdiff_marker_list, dsdiff_error, unit) op" where
  "dsdiff_marker_list_remove index = (\<lambda>ml.
     if index \<ge> ml_count ml then (Err DSDIFF_ERROR_INVALID_ARG, ml)
     else case find_entry index 0 (ml_entries ml) of
         None \<Rightarrow> (Err DSDIFF_ERROR_INVALID_ARG, ml)
       | Some (ys, _, zs) \<Rightarrow> (Ok (), ml\<lparr>ml_entries := ys @ zs, ml_count := ml_count ml - 1\<rparr>))"

text \<open>The caller's marker gets the type, the time and a copy of the text; its other members stay.
  The result is the sample rate of the entry.\<close>

definition dsdiff_marker_list_get ::
  "heap \<Rightarrow> dsdiff_marker_list \<Rightarrow> u32 \<Rightarrow> (dsdiff_marker, dsdiff_error, u32) op" where
  "dsdiff_marker_list_get hp ml index = (\<lambda>marker.
     if index > ml_count ml - 1 then (Err DSDIFF_ERROR_INVALID_ARG, marker)
     else case find_entry index 0 (ml_entries ml) of
         None \<Rightarrow> (Err DSDIFF_ERROR_INVALID_ARG, marker)
       | Some (_, entry, _) \<Rightarrow>
           let m = marker\<lparr>mk_mark_type := me_mark_type entry, mk_time := me_time entry\<rparr> in
           (case dup_text hp (me_marker_text entry) of
              None \<Rightarrow> (Err DSDIFF_ERROR_OUT_OF_MEMORY, m\<lparr>mk_marker_text := None\<rparr>)
            | Some text \<Rightarrow> (Ok (me_sample_rate entry), m\<lparr>mk_marker_text := text\<rparr>)))"

section \<open>Sorting\<close>

definition dsdiff_marker_to_samples :: "dsdiff_timecode \<Rightarrow> u32 \<Rightarrow> u64" where
  "dsdiff_marker_to_samples time sample_rate =
     ucast (tc_hours time) * 3600 * ucast sample_rate +
     ucast (tc_minutes time) * 60 * ucast sample_rate +
     ucast (tc_seconds time) * ucast sample_rate + ucast (tc_samples time)"

definition dsdiff_marker_compare :: "dsdiff_marker_entry \<Rightarrow> dsdiff_marker_entry \<Rightarrow> int" where
  "dsdiff_marker_compare entry1 entry2 =
     (let samples1 = dsdiff_marker_to_samples (me_time entry1) (me_sample_rate entry1);
          samples2 = dsdiff_marker_to_samples (me_time entry2) (me_sample_rate entry2) in
      if samples1 < samples2 then - 1
      else if samples1 > samples2 then 1
      else if me_mark_type entry1 = DSDIFF_MARK_TRACK_START \<and> me_mark_type entry2 \<noteq> DSDIFF_MARK_TRACK_START
      then - 1
      else if me_mark_type entry1 \<noteq> DSDIFF_MARK_TRACK_START \<and> me_mark_type entry2 = DSDIFF_MARK_TRACK_START
      then 1
      else 0)"

fun dsdiff_marker_list_merge ::
  "dsdiff_marker_entry list \<Rightarrow> dsdiff_marker_entry list \<Rightarrow> dsdiff_marker_entry list" where
  "dsdiff_marker_list_merge [] right = right"
| "dsdiff_marker_list_merge left [] = left"
| "dsdiff_marker_list_merge (l # left) (r # right) =
     (if dsdiff_marker_compare l r \<le> 0 then l # dsdiff_marker_list_merge left (r # right)
      else r # dsdiff_marker_list_merge (l # left) right)"

text \<open>The walk of the two pointers. \<open>front\<close> are the nodes up to \<^verbatim>\<open>slow\<close>, \<open>rest\<close> those behind
  it; the third argument are the nodes from \<^verbatim>\<open>fast\<close> on.\<close>

fun split_walk :: "'a list \<Rightarrow> 'a list \<Rightarrow> 'a list \<Rightarrow> 'a list \<times> 'a list" where
  "split_walk front (s # rest) (f1 # f2 # fast) = split_walk (front @ [s]) rest fast"
| "split_walk front rest fast = (front, rest)"

fun dsdiff_marker_list_split :: "'a list \<Rightarrow> 'a list \<times> 'a list" where
  "dsdiff_marker_list_split [] = ([], [])"
| "dsdiff_marker_list_split (x # xs) = split_walk [x] xs xs"

lemma split_walk_parts:
  assumes "length fast \<le> length rest" "split_walk front rest fast = (xs, ys)"
  shows "xs @ ys = front @ rest \<and> length xs = length front + length fast div 2"
  using assms by (induction front rest fast rule: split_walk.induct) auto

text \<open>The halves: the first one has the middle node.\<close>

lemma split_parts:
  assumes "dsdiff_marker_list_split (x # xs) = (ys, zs)"
  shows "ys @ zs = x # xs" "length ys = 1 + length xs div 2"
  using split_walk_parts [of xs xs "[x]" ys zs] assms by simp_all

function dsdiff_marker_list_merge_sort :: "dsdiff_marker_entry list \<Rightarrow> dsdiff_marker_entry list" where
  "dsdiff_marker_list_merge_sort [] = []"
| "dsdiff_marker_list_merge_sort [x] = [x]"
| "dsdiff_marker_list_merge_sort (x # y # xs) =
     (let (left, mid) = dsdiff_marker_list_split (x # y # xs) in
      dsdiff_marker_list_merge (dsdiff_marker_list_merge_sort left) (dsdiff_marker_list_merge_sort mid))"
  by pat_completeness auto
termination
proof (relation "measure length")
  fix x y xs p left mid
  assume "p = dsdiff_marker_list_split (x # y # xs :: dsdiff_marker_entry list)" "(left, mid) = p"
  then have s: "left @ mid = x # y # xs" "length left = 1 + length (y # xs) div 2"
    using split_parts [of x "y # xs" left mid] by simp_all
  then have "length left + length mid = Suc (Suc (length xs))"
    by (metis length_Cons length_append)
  then show "(left, x # y # xs) \<in> measure length" "(mid, x # y # xs) \<in> measure length"
    using s(2) by auto
qed simp

definition dsdiff_marker_list_sort :: "dsdiff_marker_list \<Rightarrow> dsdiff_marker_list" where
  "dsdiff_marker_list_sort ml = (if ml_count ml \<le> 1 then ml
     else ml\<lparr>ml_entries := dsdiff_marker_list_merge_sort (ml_entries ml)\<rparr>)"

section \<open>The sort is the stable sort by time\<close>

text \<open>The key: the samples since the start, and at the same time track starts first.\<close>

definition marker_key :: "dsdiff_marker_entry \<Rightarrow> nat \<times> bool" where
  "marker_key e = (unat (dsdiff_marker_to_samples (me_time e) (me_sample_rate e)),
     me_mark_type e \<noteq> DSDIFF_MARK_TRACK_START)"

lemma compare_le_key: "dsdiff_marker_compare a b \<le> 0 \<longleftrightarrow> marker_key a \<le> marker_key b"
  by (auto simp: dsdiff_marker_compare_def marker_key_def Let_def less_eq_prod_def word_less_nat_alt
      word_le_nat_alt)

lemma mset_merge [simp]: "mset (dsdiff_marker_list_merge xs ys) = mset xs + mset ys"
  by (induction xs ys rule: dsdiff_marker_list_merge.induct) auto

lemma set_merge [simp]: "set (dsdiff_marker_list_merge xs ys) = set xs \<union> set ys"
  by (metis mset_merge set_mset_mset set_mset_union)

lemma sorted_merge:
  "sorted (map marker_key xs) \<Longrightarrow> sorted (map marker_key ys) \<Longrightarrow>
   sorted (map marker_key (dsdiff_marker_list_merge xs ys))"
  by (induction xs ys rule: dsdiff_marker_list_merge.induct) (auto simp: compare_le_key)

lemma filter_merge:
  "sorted (map marker_key xs) \<Longrightarrow> sorted (map marker_key ys) \<Longrightarrow>
   filter (\<lambda>e. k = marker_key e) (dsdiff_marker_list_merge xs ys) =
     filter (\<lambda>e. k = marker_key e) xs @ filter (\<lambda>e. k = marker_key e) ys"
proof (induction xs ys rule: dsdiff_marker_list_merge.induct)
  case (3 l left r right)
  show ?case
  proof (cases "dsdiff_marker_compare l r \<le> 0")
    case False
    then have "marker_key r < marker_key l" by (simp add: compare_le_key)
    then have "filter (\<lambda>e. k = marker_key e) (l # left) = []" if "k = marker_key r"
      using 3(3) that by (auto simp: filter_empty_conv)
    then show ?thesis using 3 False by auto
  qed (use 3 in auto)
qed simp_all

lemma merge_sort_spec:
  "mset (dsdiff_marker_list_merge_sort xs) = mset xs \<and>
   sorted (map marker_key (dsdiff_marker_list_merge_sort xs)) \<and>
   (\<forall>k. filter (\<lambda>e. k = marker_key e) (dsdiff_marker_list_merge_sort xs) = filter (\<lambda>e. k = marker_key e) xs)"
proof (induction xs rule: dsdiff_marker_list_merge_sort.induct)
  case (3 x y xs)
  obtain left mid where split: "dsdiff_marker_list_split (x # y # xs) = (left, mid)" by fastforce
  then have parts: "left @ mid = x # y # xs" by (rule split_parts)
  note l = "3.IH"(1) [OF split [symmetric] refl] and m = "3.IH"(2) [OF split [symmetric] refl]
  have "mset left + mset mid = mset (x # y # xs)" using parts by (metis mset_append)
  moreover have "filter P left @ filter P mid = filter P (x # y # xs)" for P
    using parts by (metis filter_append)
  ultimately show ?case using l m by (simp add: split sorted_merge filter_merge del: filter.simps dsdiff_marker_list_split.simps split_paired_All)
qed simp_all

theorem merge_sort_eq: "dsdiff_marker_list_merge_sort xs = sort_key marker_key xs"
  by (rule properties_for_sort_key [symmetric]) (use merge_sort_spec [of xs] in \<open>simp_all del: split_paired_All\<close>)

end
