(* ===== verification/C_Loops.thy ===== *)
theory C_Loops
  imports Op_Loops "HOL-Library.While_Combinator"
begin

text \<open>
  Loops that need not end. A computation of type \<open>lop\<close> yields \<open>None\<close> when the C code does not
  return. The body of \<open>repeat_lop\<close> is one round of \<^verbatim>\<open>while (1)\<close>: it goes on (\<open>Ok None\<close>),
  leaves the loop with a result (\<open>Ok (Some a)\<close>) or returns an error.
\<close>

type_synonym ('s, 'e, 'a) lop = "'s \<Rightarrow> (('e, 'a) outcome \<times> 's) option"

definition lift :: "('s, 'e, 'a) op \<Rightarrow> ('s, 'e, 'a) lop" where
  "lift m = (\<lambda>s. Some (m s))"

definition lseq :: "('s, 'e, 'a) lop \<Rightarrow> ('a \<Rightarrow> ('s, 'e, 'b) lop) \<Rightarrow> ('s, 'e, 'b) lop" where
  "lseq m k = (\<lambda>s. case m s of None \<Rightarrow> None
     | Some (Ok a, s') \<Rightarrow> k a s'
     | Some (Err e, s') \<Rightarrow> Some (Err e, s')
     | Some (Fault, s') \<Rightarrow> Some (Fault, s'))"

definition lzoom :: "('t \<Rightarrow> 's) \<Rightarrow> ('s \<Rightarrow> 't \<Rightarrow> 't) \<Rightarrow> ('s, 'e, 'a) lop \<Rightarrow> ('t, 'e, 'a) lop" where
  "lzoom g p m = (\<lambda>t. map_option (\<lambda>(r, s). (r, p s t)) (m (g t)))"

text \<open>A call whose return code is looked at: \<open>True\<close> for success.\<close>

definition attempt :: "('s, 'e, 'a) op \<Rightarrow> ('s, 'e, bool) op" where
  "attempt m = (\<lambda>s. case m s of (Ok _, s') \<Rightarrow> (Ok True, s') | (Err _, s') \<Rightarrow> (Ok False, s')
     | (Fault, s') \<Rightarrow> (Fault, s'))"

definition lattempt :: "('s, 'e, 'a) lop \<Rightarrow> ('s, 'e, bool) lop" where
  "lattempt m = (\<lambda>s. map_option (\<lambda>(r, s'). (case r of Ok _ \<Rightarrow> Ok True | Err _ \<Rightarrow> Ok False | Fault \<Rightarrow> Fault, s')) (m s))"

datatype 'r loop_status = Running | Done 'r | Diverged

definition repeat_step ::
  "('s, 'e, 'a option) lop \<Rightarrow> ('e, 'a) outcome loop_status \<times> 's \<Rightarrow> ('e, 'a) outcome loop_status \<times> 's" where
  "repeat_step body = (\<lambda>(_, s). case body s of None \<Rightarrow> (Diverged, s)
     | Some (Ok None, s') \<Rightarrow> (Running, s')
     | Some (Ok (Some a), s') \<Rightarrow> (Done (Ok a), s')
     | Some (Err e, s') \<Rightarrow> (Done (Err e), s')
     | Some (Fault, s') \<Rightarrow> (Done Fault, s'))"

definition repeat_lop :: "('s, 'e, 'a option) lop \<Rightarrow> ('s, 'e, 'a) lop" where
  "repeat_lop body s =
     (case while_option (\<lambda>(st, _). st = Running) (repeat_step body) (Running, s) of
        Some (Done r, s') \<Rightarrow> Some (r, s') | _ \<Rightarrow> None)"

section \<open>Rules\<close>

lemma lift_apply [simp]: "lift m s = Some (m s)"
  by (simp add: lift_def)

lemma lseq_lift [simp]: "lseq (lift m) k s = (case m s of (Ok a, s') \<Rightarrow> k a s'
     | (Err e, s') \<Rightarrow> Some (Err e, s') | (Fault, s') \<Rightarrow> Some (Fault, s'))"
  by (simp add: lseq_def split: prod.splits outcome.splits)

lemma lseq_Ok: "m s = Some (Ok a, s') \<Longrightarrow> lseq m k s = k a s'"
  by (simp add: lseq_def)

lemma attempt_Ok [op_simps]: "m s = (Ok a, s') \<Longrightarrow> attempt m s = (Ok True, s')"
  by (simp add: attempt_def)

lemma attempt_Err [op_simps]: "m s = (Err e, s') \<Longrightarrow> attempt m s = (Ok False, s')"
  by (simp add: attempt_def)

lemma wp_attempt [wp_simps]: "wp F (attempt m) Q E = wp F m (\<lambda>_. Q True) (\<lambda>_. Q False)"
  by (rule ext) (simp add: wp_def attempt_def split: prod.splits outcome.splits)

text \<open>One round of the loop.\<close>

lemma repeat_unfold:
  "repeat_lop body s = (case body s of None \<Rightarrow> None
     | Some (Ok None, s') \<Rightarrow> repeat_lop body s'
     | Some (Ok (Some a), s') \<Rightarrow> Some (Ok a, s')
     | Some (Err e, s') \<Rightarrow> Some (Err e, s')
     | Some (Fault, s') \<Rightarrow> Some (Fault, s'))"
proof -
  let ?W = "while_option (\<lambda>(st, _). st = Running) (repeat_step body)"
  have stop: "?W (st, t) = Some (st, t)" if "st \<noteq> Running" for st t
    using that by (simp add: while_option_unfold)
  have run: "?W (Running, s) = ?W (repeat_step body (Running, s))"
    by (subst while_option_unfold) simp
  consider "body s = None" | s' where "body s = Some (Ok None, s')" | a s' where "body s = Some (Ok (Some a), s')"
    | e s' where "body s = Some (Err e, s')" | s' where "body s = Some (Fault, s')"
    by (metis not_Some_eq outcome.exhaust surj_pair)
  then show ?thesis
  proof cases
    case 1
    then have "repeat_step body (Running, s) = (Diverged, s)" by (simp add: repeat_step_def)
    then show ?thesis using 1 by (simp add: repeat_lop_def run stop)
  next
    case (2 s')
    then have "repeat_step body (Running, s) = (Running, s')" by (simp add: repeat_step_def)
    then show ?thesis using 2 by (simp only: repeat_lop_def run) simp
  next
    case (3 a s')
    then have "repeat_step body (Running, s) = (Done (Ok a), s')" by (simp add: repeat_step_def)
    then show ?thesis using 3 by (simp add: repeat_lop_def run stop)
  next
    case (4 e s')
    then have "repeat_step body (Running, s) = (Done (Err e), s')" by (simp add: repeat_step_def)
    then show ?thesis using 4 by (simp add: repeat_lop_def run stop)
  next
    case (5 s')
    then have "repeat_step body (Running, s) = (Done Fault, s')" by (simp add: repeat_step_def)
    then show ?thesis using 5 by (simp add: repeat_lop_def run stop)
  qed
qed

lemma repeat_continue: "body s = Some (Ok None, s') \<Longrightarrow> repeat_lop body s = repeat_lop body s'"
  by (simp add: repeat_unfold [of body s])

lemma repeat_leave: "body s = Some (Ok (Some a), s') \<Longrightarrow> repeat_lop body s = Some (Ok a, s')"
  by (simp add: repeat_unfold [of body s])

lemma repeat_error: "body s = Some (Err e, s') \<Longrightarrow> repeat_lop body s = Some (Err e, s')"
  by (simp add: repeat_unfold [of body s])

text \<open>A loop that stays inside a set of states never returns.\<close>

lemma repeat_forever:
  assumes "I s" and stay: "\<And>s. I s \<Longrightarrow> \<exists>s'. body s = Some (Ok None, s') \<and> I s'"
  shows "repeat_lop body s = None"
proof -
  let ?b = "\<lambda>(st, _). st = Running" and ?J = "\<lambda>(st :: ('b, 'c) outcome loop_status, s). st = Running \<and> I s"
  have "while_option ?b (repeat_step body) (Running, s) = None"
  proof (rule ccontr)
    assume "while_option ?b (repeat_step body) (Running, s) \<noteq> None"
    then obtain t where t: "while_option ?b (repeat_step body) (Running, s) = Some t" by blast
    have "?J t"
    proof (rule while_option_rule [OF _ t])
      fix p assume "?J p"
      then show "?J (repeat_step body p)"
        using stay [of "snd p"] by (auto simp: repeat_step_def)
    qed (use assms(1) in simp)
    then show False using while_option_stop [OF t] by auto
  qed
  then show ?thesis by (simp add: repeat_lop_def)
qed

text \<open>A loop whose rounds return and decrease a measure returns.\<close>

lemma repeat_returns:
  assumes "I s" and round: "\<And>s. I s \<Longrightarrow> \<exists>r s'. body s = Some (r, s') \<and> (r = Ok None \<longrightarrow> I s' \<and> f s' < (f s :: nat))"
  shows "\<exists>r s'. repeat_lop body s = Some (r, s')"
  using assms(1)
proof (induction "f s" arbitrary: s rule: less_induct)
  case less
  then obtain r s' where r: "body s = Some (r, s')" "r = Ok None \<longrightarrow> I s' \<and> f s' < f s"
    using round by blast
  show ?case
  proof (cases "r = Ok None")
    case True
    then show ?thesis using less.hyps [of s'] r by (simp add: repeat_unfold [of body s])
  qed (use r in \<open>auto simp: repeat_unfold [of body s] split: outcome.splits option.splits\<close>)
qed

end
