(* ===== verification/Dsdiff_State.thy ===== *)
theory Dsdiff_State
  imports Dsdiff_Chunks Dsdiff_Markers C_Loops
begin

text \<open>
  The file handle of \<^verbatim>\<open>libdsdiff/src/dsdiff.c\<close>: its structure, its initialisation and
  clean-up, and the conditions that several operations share. An array that can be dangling after
  an error is a \<open>ptr\<close>; an element of an array that was never stored is \<open>None\<close>.
\<close>

section \<open>The handle\<close>

record dsdiff =
  hd_io :: "dsdiff_io option"
  hd_mode :: dsdiff_file_mode
  hd_format_version :: u32
  hd_file_size_after_finalize :: u64
  hd_channel_count :: u16
  hd_channel_ids :: "u32 option list ptr"
  hd_sample_rate :: u32
  hd_sample_frame_count :: u64
  hd_sample_frame_capacity :: u64
  hd_prop_chunk_size :: u64
  hd_sound_data_size :: u64
  hd_sound_data_start_pos :: u64
  hd_sound_data_end_pos :: u64
  hd_has_timecode :: bool
  hd_start_timecode :: dsdiff_timecode
  hd_timecode_chunk_pos :: u64
  hd_has_loudspeaker_config :: bool
  hd_loudspeaker_config :: u32
  hd_loudspeaker_chunk_pos :: u64
  hd_comment_count :: u16
  hd_comments :: "dsdiff_comment list option"
  hd_comment_chunk_pos :: u64
  hd_id3_tag_size :: u32
  hd_id3_tag :: "byte list option"
  hd_id3_chunk_pos :: u64
  hd_track_id3_count :: u32
  hd_track_id3_tags :: "byte list option list ptr"
  hd_track_id3_sizes :: "u32 list ptr"
  hd_has_manufacturer :: bool
  hd_manufacturer_id :: "byte list"
  hd_manufacturer_data_size :: u32
  hd_manufacturer_data :: "byte list option"
  hd_manufacturer_chunk_pos :: u64
  hd_has_disc_artist :: bool
  hd_disc_artist :: "byte list option"
  hd_has_disc_title :: bool
  hd_disc_title :: "byte list option"
  hd_has_emid :: bool
  hd_emid :: "byte list option"
  hd_diin_chunk_pos :: u64
  hd_diin_file_start :: u64
  hd_diin_file_end :: u64
  hd_markers :: dsdiff_marker_list
  hd_is_dst_format :: bool
  hd_dst_frame_count :: u32
  hd_dst_frame_rate :: u16
  hd_dst_chunk_size :: u64
  hd_dst_data_end :: u64
  hd_has_crc :: bool
  hd_crc_size :: u32
  hd_has_index :: bool
  hd_reserved_index_count :: u32
  hd_indexes :: "dsdiff_index option list ptr"
  hd_index_file_start :: u64
  hd_index_file_end :: u64
  hd_index_file_size :: u64
  hd_channel_chunk_pos :: u64

type_synonym 'a hd_op = "(dsdiff, dsdiff_error, 'a) op"

type_synonym 'a hd_lop = "(dsdiff, dsdiff_error, 'a) lop"

text \<open>The caller's handle, possibly NULL or freed.\<close>

type_synonym 'a dd_op = "(dsdiff ptr, dsdiff_error, 'a) op"

definition on_dsdiff :: "'a hd_op \<Rightarrow> 'a dd_op" where
  "on_dsdiff m = on_ptr DSDIFF_ERROR_INVALID_ARG m"

definition on_dio :: "'a dio_op \<Rightarrow> 'a hd_op" where
  "on_dio m = zoom hd_io (\<lambda>io h. h\<lparr>hd_io := io\<rparr>) m"

text \<open>A chunk reader or writer whose variables are members of the handle.\<close>

definition on_member :: "(dsdiff \<Rightarrow> 'o) \<Rightarrow> ('o \<Rightarrow> dsdiff \<Rightarrow> dsdiff) \<Rightarrow> ('o, 'a) dck_op \<Rightarrow> 'a hd_op" where
  "on_member g p m = zoom (\<lambda>h. (hd_io h, g h)) (\<lambda>(io, out) h. p out (h\<lparr>hd_io := io\<rparr>)) m"

text \<open>A chunk reader or writer whose variables are local and start as \<open>v\<close>.\<close>

definition on_local :: "'o \<Rightarrow> ('o, 'a) dck_op \<Rightarrow> ('a \<times> 'o) hd_op" where
  "on_local v m = (\<lambda>h. case m (hd_io h, v) of
       (Ok a, (io, out)) \<Rightarrow> (Ok (a, out), h\<lparr>hd_io := io\<rparr>)
     | (Err e, (io, out)) \<Rightarrow> (Err e, h\<lparr>hd_io := io\<rparr>)
     | (Fault, (io, out)) \<Rightarrow> (Fault, h\<lparr>hd_io := io\<rparr>))"

text \<open>The chunk type that \<^verbatim>\<open>dsdiff_chunk_read_header\<close> stored, and whether it succeeded.\<close>

definition peek_header :: "(bool \<times> dsdiff_chunk_type) hd_op" where
  "peek_header = on_dio (\<lambda>s. case dsdiff_chunk_read_header (s, DSDIFF_CHUNK_UNKNOWN) of
       (Ok _, (s', ct)) \<Rightarrow> (Ok (True, ct), s')
     | (Err _, (s', ct)) \<Rightarrow> (Ok (False, ct), s')
     | (Fault, (s', ct)) \<Rightarrow> (Fault, s'))"

text \<open>Where the position of the chunk whose identifier was just read is remembered.\<close>

definition remember_pos :: "(u64 \<Rightarrow> dsdiff \<Rightarrow> dsdiff) \<Rightarrow> unit hd_op" where
  "remember_pos p = seq (on_dio dsdiff_io_get_position) (\<lambda>pos. modify (p (pos - 4)))"

definition zero_dsdiff :: dsdiff where
  "zero_dsdiff = \<lparr>hd_io = None, hd_mode = DSDIFF_FILE_MODE_CLOSED, hd_format_version = 0,
     hd_file_size_after_finalize = 0, hd_channel_count = 0, hd_channel_ids = Null, hd_sample_rate = 0,
     hd_sample_frame_count = 0, hd_sample_frame_capacity = 0, hd_prop_chunk_size = 0,
     hd_sound_data_size = 0, hd_sound_data_start_pos = 0, hd_sound_data_end_pos = 0,
     hd_has_timecode = False, hd_start_timecode = zero_timecode, hd_timecode_chunk_pos = 0,
     hd_has_loudspeaker_config = False, hd_loudspeaker_config = 0, hd_loudspeaker_chunk_pos = 0,
     hd_comment_count = 0, hd_comments = None, hd_comment_chunk_pos = 0,
     hd_id3_tag_size = 0, hd_id3_tag = None, hd_id3_chunk_pos = 0,
     hd_track_id3_count = 0, hd_track_id3_tags = Null, hd_track_id3_sizes = Null,
     hd_has_manufacturer = False, hd_manufacturer_id = replicate 4 0, hd_manufacturer_data_size = 0,
     hd_manufacturer_data = None, hd_manufacturer_chunk_pos = 0,
     hd_has_disc_artist = False, hd_disc_artist = None, hd_has_disc_title = False, hd_disc_title = None,
     hd_has_emid = False, hd_emid = None,
     hd_diin_chunk_pos = 0, hd_diin_file_start = 0, hd_diin_file_end = 0,
     hd_markers = dsdiff_marker_list_init,
     hd_is_dst_format = False, hd_dst_frame_count = 0, hd_dst_frame_rate = 0, hd_dst_chunk_size = 0,
     hd_dst_data_end = 0, hd_has_crc = False, hd_crc_size = 0,
     hd_has_index = False, hd_reserved_index_count = 0, hd_indexes = Null,
     hd_index_file_start = 0, hd_index_file_end = 0, hd_index_file_size = 0, hd_channel_chunk_pos = 0\<rparr>"

section \<open>Initialisation and clean-up\<close>

definition free_channel_ids :: "unit hd_op" where
  "free_channel_ids = zoom hd_channel_ids (\<lambda>p h. h\<lparr>hd_channel_ids := p\<rparr>) free_null"

definition dsdiff_init_handle :: "unit hd_op" where
  "dsdiff_init_handle =
     seq (modify (\<lambda>h. h\<lparr>hd_mode := DSDIFF_FILE_MODE_CLOSED, hd_format_version := DSDIFF_FILE_VERSION_15,
       hd_channel_count := 1\<rparr>)) (\<lambda>_.
     seq free_channel_ids (\<lambda>_.
     modify (\<lambda>h. h\<lparr>hd_channel_chunk_pos := 0, hd_sample_rate := 0, hd_is_dst_format := False,
       hd_sample_frame_count := 0, hd_sample_frame_capacity := 0, hd_prop_chunk_size := 0,
       hd_sound_data_size := 0, hd_sound_data_start_pos := 0, hd_sound_data_end_pos := 0,
       hd_has_timecode := False, hd_timecode_chunk_pos := 0,
       hd_has_loudspeaker_config := False, hd_loudspeaker_config := DSDIFF_LS_CONFIG_STEREO,
       hd_loudspeaker_chunk_pos := 0,
       hd_dst_frame_rate := 75, hd_has_crc := False, hd_crc_size := 0, hd_dst_data_end := 0,
       hd_reserved_index_count := 0, hd_indexes := Null, hd_has_index := False,
       hd_comment_count := 0, hd_comments := None, hd_comment_chunk_pos := 0,
       hd_id3_tag_size := 0, hd_id3_tag := None, hd_id3_chunk_pos := 0,
       hd_has_manufacturer := False, hd_manufacturer_id := replicate 4 0, hd_manufacturer_data_size := 0,
       hd_manufacturer_data := None, hd_manufacturer_chunk_pos := 0,
       hd_diin_chunk_pos := 0, hd_diin_file_start := 0, hd_diin_file_end := 0,
       hd_has_disc_artist := False, hd_disc_artist := None, hd_has_disc_title := False, hd_disc_title := None,
       hd_has_emid := False, hd_emid := None,
       hd_markers := dsdiff_marker_list_init, hd_file_size_after_finalize := 0\<rparr>)))"

text \<open>The elements of an array of \<open>n\<close> objects are read one by one before it is freed.\<close>

definition has_elements :: "nat \<Rightarrow> 'a list option \<Rightarrow> ('s, 'e, unit) op" where
  "has_elements n xs = (case xs of None \<Rightarrow> ret () | Some ys \<Rightarrow> if n \<le> length ys then ret () else fault)"

definition free_track_tags :: "unit hd_op" where
  "free_track_tags = (\<lambda>h. (case hd_track_id3_tags h of Null \<Rightarrow> ret ()
     | Dangling \<Rightarrow> fault
     | Ptr tags \<Rightarrow> seq (has_elements (unat (hd_track_id3_count h)) (Some tags)) (\<lambda>_.
         modify (\<lambda>h. h\<lparr>hd_track_id3_tags := Null\<rparr>))) h)"

definition dsdiff_cleanup_handle :: "unit hd_op" where
  "dsdiff_cleanup_handle =
     seq free_channel_ids (\<lambda>_.
     seq (zoom hd_indexes (\<lambda>p h. h\<lparr>hd_indexes := p\<rparr>) free_null) (\<lambda>_.
     seq (\<lambda>h. has_elements (unat (hd_comment_count h)) (hd_comments h) h) (\<lambda>_.
     seq (modify (\<lambda>h. h\<lparr>hd_comments := None, hd_disc_artist := None, hd_disc_title := None,
            hd_emid := None, hd_manufacturer_data := None\<rparr>)) (\<lambda>_.
     seq free_track_tags (\<lambda>_.
     seq (zoom hd_track_id3_sizes (\<lambda>p h. h\<lparr>hd_track_id3_sizes := p\<rparr>) free_null) (\<lambda>_.
     seq (modify (\<lambda>h. h\<lparr>hd_track_id3_count := 0, hd_markers := dsdiff_marker_list_free (hd_markers h)\<rparr>)) (\<lambda>_.
     dsdiff_init_handle)))))))"

section \<open>Shared conditions\<close>

definition dsdiff_is_chunk_writable :: "dsdiff \<Rightarrow> u64 \<Rightarrow> bool" where
  "dsdiff_is_chunk_writable h position \<longleftrightarrow> position = 0 \<or>
     \<not> (hd_mode h = DSDIFF_FILE_MODE_MODIFY \<and>
        (if hd_is_dst_format h then position < hd_dst_data_end h else position < hd_sound_data_end_pos h))"

text \<open>The position is a member of the handle.\<close>

definition dsdiff_verify_write_position :: "(dsdiff \<Rightarrow> u64) \<Rightarrow> unit hd_op" where
  "dsdiff_verify_write_position pos = (\<lambda>h.
     ensure (dsdiff_is_chunk_writable h (pos h)) DSDIFF_ERROR_CHUNK_LOCKED h)"

definition ensure_mode :: "(dsdiff_file_mode \<Rightarrow> bool) \<Rightarrow> dsdiff_error \<Rightarrow> unit hd_op" where
  "ensure_mode P e = (\<lambda>h. ensure (P (hd_mode h)) e h)"

definition is_writing :: "dsdiff_file_mode \<Rightarrow> bool" where
  "is_writing m \<longleftrightarrow> m = DSDIFF_FILE_MODE_WRITE \<or> m = DSDIFF_FILE_MODE_MODIFY"

text \<open>The index is loaded on demand; a failed load leaves no array.\<close>

definition dsdiff_read_index :: "heap \<Rightarrow> unit hd_op" where
  "dsdiff_read_index hp = (\<lambda>h.
     (if \<not> hd_has_index h \<or> hd_dst_frame_count h = 0 \<or> hd_reserved_index_count h \<noteq> 0 then ret ()
      else if \<not> sa_malloc hp (unat (hd_dst_frame_count h) * 16)
      then seq (modify (\<lambda>h. h\<lparr>hd_indexes := Null\<rparr>)) (\<lambda>_. fail DSDIFF_ERROR_OUT_OF_MEMORY)
      else seq (modify (\<lambda>h. h\<lparr>hd_reserved_index_count := hd_dst_frame_count h\<rparr>)) (\<lambda>_.
        seq (on_err (on_dio (dsdiff_chunk_read_dsti_contents (hd_index_file_start h)
               (ucast (hd_dst_frame_count h))))
             (modify (\<lambda>h. h\<lparr>hd_indexes := Null, hd_reserved_index_count := 0\<rparr>))) (\<lambda>xs.
        modify (\<lambda>h. h\<lparr>hd_indexes := Ptr (map Some xs)\<rparr>)))) h)"

section \<open>The arrays of the per-track tags\<close>

text \<open>The elements behind a pointer that may be NULL.\<close>

definition elements :: "'a list ptr \<Rightarrow> 'a list option" where
  "elements p = (case p of Null \<Rightarrow> Some [] | Dangling \<Rightarrow> None | Ptr xs \<Rightarrow> Some xs)"

text \<open>The grown arrays: the old elements and empty new ones.\<close>

definition grown :: "nat \<Rightarrow> nat \<Rightarrow> 'a \<Rightarrow> 'a list \<Rightarrow> 'a list" where
  "grown old_count new_count x xs = take old_count xs @ replicate (new_count - old_count) x"

definition grow_tracks :: "nat \<Rightarrow> byte list option list \<Rightarrow> u32 list \<Rightarrow> dsdiff \<Rightarrow> dsdiff" where
  "grow_tracks new_count tags sizes h = h\<lparr>
     hd_track_id3_tags := Ptr (grown (unat (hd_track_id3_count h)) new_count None tags),
     hd_track_id3_sizes := Ptr (grown (unat (hd_track_id3_count h)) new_count 0 sizes),
     hd_track_id3_count := of_nat new_count\<rparr>"

definition set_track :: "nat \<Rightarrow> byte list option \<Rightarrow> u32 \<Rightarrow> unit hd_op" where
  "set_track i tag n = (\<lambda>h. case (hd_track_id3_tags h, hd_track_id3_sizes h) of
       (Ptr tags, Ptr sizes) \<Rightarrow> if i < length tags \<and> i < length sizes
         then (Ok (), h\<lparr>hd_track_id3_tags := Ptr (tags[i := tag]), hd_track_id3_sizes := Ptr (sizes[i := n])\<rparr>)
         else (Fault, h)
     | _ \<Rightarrow> (Fault, h))"

section \<open>Timecodes\<close>

definition dsdiff_timecode_normalize :: "dsdiff_timecode \<Rightarrow> u32 \<Rightarrow> dsdiff_timecode" where
  "dsdiff_timecode_normalize timecode sample_rate =
     (if sample_rate = 0 then timecode else
      let total_seconds = ucast (tc_samples timecode div sample_rate) + ucast (tc_seconds timecode) :: u64;
          total_minutes = total_seconds div 60 + ucast (tc_minutes timecode);
          total_hours = total_minutes div 60 + ucast (tc_hours timecode)
      in \<lparr>tc_hours = ucast total_hours, tc_minutes = ucast (total_minutes mod 60),
          tc_seconds = ucast (total_seconds mod 60), tc_samples = tc_samples timecode mod sample_rate\<rparr>)"

end
