(* ===== verification/Dsdiff_Parse.thy ===== *)
theory Dsdiff_Parse
  imports Dsdiff_State
begin

text \<open>
  Parsing a DSDIFF file (the section on file parsing of \<^verbatim>\<open>libdsdiff/src/dsdiff.c\<close>): the
  form chunk with its sub-chunks, the property chunk, the DST sound data and the disc information.
  The three loops follow the chunk sizes that the file gives and need not end, so the parsers are
  of type \<open>lop\<close>. The counters of the chunks are unbounded; each counted chunk has at least four
  bytes.
\<close>

section \<open>Disc information\<close>

text \<open>A marker that was read is added to the list; the result of the addition is not looked at.\<close>

definition parse_mark :: "heap \<Rightarrow> unit hd_op" where
  "parse_mark hp = (case dsdiff_marker_create hp of
       None \<Rightarrow> ret ()
     | Some marker \<Rightarrow> seq (on_local marker (dsdiff_chunk_read_mark hp)) (\<lambda>(_, m).
         seq get (\<lambda>h. ignore (zoom hd_markers (\<lambda>ml h. h\<lparr>hd_markers := ml\<rparr>)
           (dsdiff_marker_list_add hp m (hd_sample_rate h))))))"

definition parse_diin_chunk :: "heap \<Rightarrow> dsdiff_chunk_type \<Rightarrow> unit hd_op" where
  "parse_diin_chunk hp chunk_id =
     (if chunk_id = DSDIFF_CHUNK_EMID then
        seq (on_member hd_emid (\<lambda>x h. h\<lparr>hd_emid := x\<rparr>) (dsdiff_chunk_read_emid hp)) (\<lambda>_.
        modify (\<lambda>h. h\<lparr>hd_has_emid := True\<rparr>))
      else if chunk_id = DSDIFF_CHUNK_DIAR then
        seq (on_member hd_disc_artist (\<lambda>x h. h\<lparr>hd_disc_artist := x\<rparr>) (dsdiff_chunk_read_diar hp)) (\<lambda>_.
        modify (\<lambda>h. h\<lparr>hd_has_disc_artist := True\<rparr>))
      else if chunk_id = DSDIFF_CHUNK_DITI then
        seq (on_member hd_disc_title (\<lambda>x h. h\<lparr>hd_disc_title := x\<rparr>) (dsdiff_chunk_read_diti hp)) (\<lambda>_.
        modify (\<lambda>h. h\<lparr>hd_has_disc_title := True\<rparr>))
      else if chunk_id = DSDIFF_CHUNK_MARK then parse_mark hp
      else on_dio dsdiff_chunk_skip)"

definition diin_round :: "heap \<Rightarrow> u64 \<Rightarrow> unit option hd_op" where
  "diin_round hp end_pos =
     seq (on_dio dsdiff_io_get_position) (\<lambda>current_pos.
     if current_pos \<ge> end_pos
     then (if current_pos = end_pos then ret (Some ()) else fail DSDIFF_ERROR_UNEXPECTED_EOF)
     else seq peek_header (\<lambda>(good, chunk_id).
       if \<not> good then ret (Some ())
       else seq (parse_diin_chunk hp chunk_id) (\<lambda>_. ret None)))"

definition dsdiff_parse_diin :: "heap \<Rightarrow> u64 \<Rightarrow> unit hd_lop" where
  "dsdiff_parse_diin hp chunk_size =
     lseq (lift (on_dio dsdiff_io_get_position)) (\<lambda>start_pos.
     repeat_lop (lift (diin_round hp (start_pos + chunk_size))))"

section \<open>Properties\<close>

record prop_counts =
  fs_count :: int
  chnl_count :: int
  cmpr_count :: int
  abss_count :: int
  lsco_count :: int

definition no_props :: prop_counts where
  "no_props = \<lparr>fs_count = 0, chnl_count = 0, cmpr_count = 0, abss_count = 0, lsco_count = 0\<rparr>"

type_synonym prop_state = "dsdiff \<times> prop_counts"

text \<open>The counter is also increased when the chunk could not be read; the function returns then.\<close>

definition counted :: "unit hd_op \<Rightarrow> ('c \<Rightarrow> 'c) \<Rightarrow> (dsdiff \<times> 'c, dsdiff_error, unit) op" where
  "counted m inc = seq (on_fst m) (\<lambda>_. on_snd (modify inc))"

text \<open>The indeterminate \<^verbatim>\<open>name_len\<close> of \<^verbatim>\<open>dsdiff_chunk_read_cmpr\<close> is a parameter.\<close>

definition parse_cmpr :: "u16 \<Rightarrow> unit hd_op" where
  "parse_cmpr name_len =
     seq (on_local (DSDIFF_AUDIO_UNKNOWN, []) (dsdiff_chunk_read_cmpr name_len 256)) (\<lambda>(_, ctype, _).
     seq (ensure (\<not> (ctype \<noteq> DSDIFF_AUDIO_DSD \<and> ctype \<noteq> DSDIFF_AUDIO_DST))
       DSDIFF_ERROR_UNSUPPORTED_COMPRESSION) (\<lambda>_.
     modify (\<lambda>h. h\<lparr>hd_is_dst_format := (ctype = DSDIFF_AUDIO_DST)\<rparr>)))"

definition parse_prop_chunk ::
  "heap \<Rightarrow> u16 \<Rightarrow> dsdiff_chunk_type \<Rightarrow> (prop_state, dsdiff_error, unit) op" where
  "parse_prop_chunk hp name_len chunk_id =
     (if chunk_id = DSDIFF_CHUNK_FS then
        counted (on_member hd_sample_rate (\<lambda>v h. h\<lparr>hd_sample_rate := v\<rparr>) dsdiff_chunk_read_fs)
          (\<lambda>c. c\<lparr>fs_count := fs_count c + 1\<rparr>)
      else if chunk_id = DSDIFF_CHUNK_CHNL then
        counted (seq (remember_pos (\<lambda>p h. h\<lparr>hd_channel_chunk_pos := p\<rparr>)) (\<lambda>_.
          on_member (\<lambda>h. (hd_channel_count h, hd_channel_ids h))
            (\<lambda>(n, ids) h. h\<lparr>hd_channel_count := n, hd_channel_ids := ids\<rparr>) (dsdiff_chunk_read_chnl hp)))
          (\<lambda>c. c\<lparr>chnl_count := chnl_count c + 1\<rparr>)
      else if chunk_id = DSDIFF_CHUNK_CMPR then
        counted (parse_cmpr name_len) (\<lambda>c. c\<lparr>cmpr_count := cmpr_count c + 1\<rparr>)
      else if chunk_id = DSDIFF_CHUNK_ABSS then
        counted (seq (remember_pos (\<lambda>p h. h\<lparr>hd_timecode_chunk_pos := p\<rparr>)) (\<lambda>_.
          seq (on_member hd_start_timecode (\<lambda>t h. h\<lparr>hd_start_timecode := t\<rparr>) dsdiff_chunk_read_abss) (\<lambda>_.
          modify (\<lambda>h. h\<lparr>hd_has_timecode := True\<rparr>)))) (\<lambda>c. c\<lparr>abss_count := abss_count c + 1\<rparr>)
      else if chunk_id = DSDIFF_CHUNK_LSCO then
        counted (seq (remember_pos (\<lambda>p h. h\<lparr>hd_loudspeaker_chunk_pos := p\<rparr>)) (\<lambda>_.
          seq (on_member hd_loudspeaker_config (\<lambda>v h. h\<lparr>hd_loudspeaker_config := v\<rparr>) dsdiff_chunk_read_lsco) (\<lambda>_.
          modify (\<lambda>h. h\<lparr>hd_has_loudspeaker_config := True\<rparr>)))) (\<lambda>c. c\<lparr>lsco_count := lsco_count c + 1\<rparr>)
      else on_fst (on_dio dsdiff_chunk_skip))"

text \<open>The counts are checked only when the loop is left because no further chunk could be read; at
  the end of the property chunk the function has already returned.\<close>

definition check_props :: "prop_counts \<Rightarrow> ('s, dsdiff_error, unit) op" where
  "check_props c =
     seq (ensure (\<not> (fs_count c \<noteq> 1 \<or> chnl_count c \<noteq> 1 \<or> cmpr_count c \<noteq> 1)) DSDIFF_ERROR_INVALID_FILE) (\<lambda>_.
     ensure (\<not> (abss_count c > 1 \<or> lsco_count c > 1)) DSDIFF_ERROR_INVALID_FILE)"

definition prop_round :: "heap \<Rightarrow> u16 \<Rightarrow> u64 \<Rightarrow> (prop_state, dsdiff_error, unit option) op" where
  "prop_round hp name_len end_pos =
     seq (on_fst (on_dio dsdiff_io_get_position)) (\<lambda>current_pos.
     if current_pos \<ge> end_pos
     then (if current_pos = end_pos then ret (Some ()) else fail DSDIFF_ERROR_UNEXPECTED_EOF)
     else seq (on_fst peek_header) (\<lambda>(good, chunk_id).
       if \<not> good then seq get (\<lambda>(_, c). seq (check_props c) (\<lambda>_. ret (Some ())))
       else seq (parse_prop_chunk hp name_len chunk_id) (\<lambda>_. ret None)))"

text \<open>Locals that start with \<open>v\<close> and are dropped.\<close>

definition lop_local :: "'c \<Rightarrow> ('s \<times> 'c, 'e, 'a) lop \<Rightarrow> ('s, 'e, 'a) lop" where
  "lop_local v m = (\<lambda>s. map_option (\<lambda>(r, (s', _)). (r, s')) (m (s, v)))"

definition dsdiff_parse_prop :: "heap \<Rightarrow> u16 \<Rightarrow> u64 \<Rightarrow> unit hd_lop" where
  "dsdiff_parse_prop hp name_len chunk_size =
     lseq (lift (modify (\<lambda>h. h\<lparr>hd_prop_chunk_size := chunk_size\<rparr>))) (\<lambda>_.
     lseq (lift (on_dio dsdiff_io_get_position)) (\<lambda>start_pos.
     lop_local no_props (repeat_lop (lift (prop_round hp name_len (start_pos + chunk_size - 4))))))"

section \<open>DST sound data\<close>

text \<open>After the first frame the function has read the identifier of the next chunk.\<close>

definition dsdiff_parse_dst :: "unit hd_op" where
  "dsdiff_parse_dst =
     seq (on_local (0, 0, 0) dsdiff_chunk_read_dst_header) (\<lambda>(_, _, start_pos, _).
     seq (modify (\<lambda>h. h\<lparr>hd_sound_data_start_pos := start_pos + 22\<rparr>)) (\<lambda>_.
     seq peek_header (\<lambda>(good, chunk_id).
     seq (ensure (good \<and> chunk_id = DSDIFF_CHUNK_FRTE) DSDIFF_ERROR_INVALID_FILE) (\<lambda>_.
     seq (on_member (\<lambda>h. (hd_dst_frame_count h, hd_dst_frame_rate h))
            (\<lambda>(n, r) h. h\<lparr>hd_dst_frame_count := n, hd_dst_frame_rate := r\<rparr>) dsdiff_chunk_read_frte) (\<lambda>_.
     seq get (\<lambda>h. if hd_dst_frame_count h < 2 then ret () else
     seq peek_header (\<lambda>(good, chunk_id).
     seq (ensure (good \<and> chunk_id = DSDIFF_CHUNK_DSTF) DSDIFF_ERROR_INVALID_FILE) (\<lambda>_.
     seq (on_dio dsdiff_chunk_skip) (\<lambda>_.
     seq peek_header (\<lambda>(good, chunk_id).
     if good \<and> chunk_id = DSDIFF_CHUNK_DSTC
     then seq (modify (\<lambda>h. h\<lparr>hd_has_crc := True\<rparr>)) (\<lambda>_.
       seq get (\<lambda>h. case dsdiff_chunk_get_dstc_size (hd_io h) of
           (Ok dstc_size, io) \<Rightarrow> seq (modify (\<lambda>h. h\<lparr>hd_io := io, hd_crc_size := ucast dstc_size\<rparr>)) (\<lambda>_.
             on_dio dsdiff_chunk_skip)
         | (Err _, io) \<Rightarrow> modify (\<lambda>h. h\<lparr>hd_io := io\<rparr>)
         | (Fault, io) \<Rightarrow> fault))
     else ret ()))))))))))"

section \<open>The form chunk\<close>

record frm8_counts =
  frm8_count :: int
  fver_count :: int
  prop_count :: int
  dsd_count :: int
  dst_count :: int
  comt_count :: int
  diin_count :: int
  id3_count :: u32

definition no_chunks :: frm8_counts where
  "no_chunks = \<lparr>frm8_count = 0, fver_count = 0, prop_count = 0, dsd_count = 0, dst_count = 0,
     comt_count = 0, diin_count = 0, id3_count = 0\<rparr>"

type_synonym frm8_state = "dsdiff \<times> frm8_counts"

definition dsdiff_get_format_version :: "dsdiff \<Rightarrow> byte \<times> byte" where
  "dsdiff_get_format_version h =
     (ucast (drop_bit 24 (hd_format_version h) AND 0xFF), ucast (drop_bit 16 (hd_format_version h) AND 0xFF))"

text \<open>Both arrays are reallocated before either result is looked at: when only the second one
  succeeds, the handle is left with a pointer that was given back.\<close>

definition grow_for_track :: "heap \<Rightarrow> u32 \<Rightarrow> unit hd_op" where
  "grow_for_track hp track_idx = (\<lambda>h.
     if \<not> track_idx \<ge> hd_track_id3_count h then (Ok (), h) else
     let new_count = track_idx + 1;
         new_tags = sa_realloc hp (unat new_count * 8); new_sizes = sa_realloc hp (unat new_count * 4) in
     case (elements (hd_track_id3_tags h), elements (hd_track_id3_sizes h)) of
       (Some tags, Some sizes) \<Rightarrow>
         if new_tags \<and> new_sizes then (Ok (), grow_tracks (unat new_count) tags sizes h)
         else (Err DSDIFF_ERROR_OUT_OF_MEMORY, h\<lparr>
           hd_track_id3_tags := (if new_tags then Ptr tags else hd_track_id3_tags h),
           hd_track_id3_sizes := (if new_sizes then Dangling else hd_track_id3_sizes h)\<rparr>)
     | _ \<Rightarrow> (Fault, h))"

definition parse_id3 :: "heap \<Rightarrow> u32 \<Rightarrow> unit hd_op" where
  "parse_id3 hp n =
     (if n = 0 then
        seq (remember_pos (\<lambda>p h. h\<lparr>hd_id3_chunk_pos := p\<rparr>)) (\<lambda>_.
        on_member (\<lambda>h. (hd_id3_tag h, hd_id3_tag_size h)) (\<lambda>(t, k) h. h\<lparr>hd_id3_tag := t, hd_id3_tag_size := k\<rparr>)
          (dsdiff_chunk_read_id3 hp))
      else
        seq (on_local (None, 0) (dsdiff_chunk_read_id3 hp)) (\<lambda>(_, track_tag, track_tag_size).
        if track_tag = None then ret ()
        else seq (grow_for_track hp (n - 1)) (\<lambda>_. set_track (unat (n - 1)) track_tag track_tag_size)))"

definition parse_snd :: "unit hd_op" where
  "parse_snd =
     seq (on_member (\<lambda>h. (hd_sound_data_size h, hd_sound_data_start_pos h, hd_sound_data_end_pos h))
            (\<lambda>(n, p, e) h. h\<lparr>hd_sound_data_size := n, hd_sound_data_start_pos := p, hd_sound_data_end_pos := e\<rparr>)
            dsdiff_chunk_read_snd_header) (\<lambda>_.
     seq get (\<lambda>h. if hd_channel_count h = 0 then fault
       else modify (\<lambda>h. h\<lparr>hd_sample_frame_count := hd_sound_data_size h div ucast (hd_channel_count h)\<rparr>)))"

definition mark_data_end :: "unit hd_op" where
  "mark_data_end = seq (on_dio dsdiff_io_get_position) (\<lambda>p. modify (\<lambda>h. h\<lparr>hd_dst_data_end := p\<rparr>))"

definition parse_dsti :: "unit hd_op" where
  "parse_dsti =
     seq (on_member (\<lambda>h. (hd_index_file_size h, hd_index_file_start h, hd_index_file_end h))
            (\<lambda>(n, p, e) h. h\<lparr>hd_index_file_size := n, hd_index_file_start := p, hd_index_file_end := e\<rparr>)
            dsdiff_chunk_read_dsti_header) (\<lambda>_.
     seq mark_data_end (\<lambda>_. modify (\<lambda>h. h\<lparr>hd_has_index := True\<rparr>)))"

definition parse_comt :: "heap \<Rightarrow> unit hd_op" where
  "parse_comt hp =
     seq (remember_pos (\<lambda>p h. h\<lparr>hd_comment_chunk_pos := p\<rparr>)) (\<lambda>_.
     on_member (\<lambda>h. (hd_comment_count h, hd_comments h)) (\<lambda>(n, cs) h. h\<lparr>hd_comment_count := n, hd_comments := cs\<rparr>)
       (dsdiff_chunk_read_comt hp))"

definition parse_manf :: "heap \<Rightarrow> unit hd_op" where
  "parse_manf hp =
     seq (remember_pos (\<lambda>p h. h\<lparr>hd_manufacturer_chunk_pos := p\<rparr>)) (\<lambda>_.
     seq (on_member (\<lambda>h. (hd_manufacturer_id h, hd_manufacturer_data h, hd_manufacturer_data_size h))
            (\<lambda>(i, d, n) h. h\<lparr>hd_manufacturer_id := i, hd_manufacturer_data := d, hd_manufacturer_data_size := n\<rparr>)
            (dsdiff_chunk_read_manf hp)) (\<lambda>_.
     modify (\<lambda>h. h\<lparr>hd_has_manufacturer := True\<rparr>)))"

text \<open>A chunk of the form: \<open>True\<close> when the loop goes on. A counter is increased in any case.\<close>

definition tried :: "unit hd_lop \<Rightarrow> (frm8_counts \<Rightarrow> frm8_counts) \<Rightarrow> (frm8_state, dsdiff_error, bool) lop" where
  "tried m inc = lseq (lzoom fst (\<lambda>h (_, c). (h, c)) (lattempt m)) (\<lambda>good.
     lseq (lift (on_snd (modify inc))) (\<lambda>_. lift (ret good)))"

definition parse_frm8_chunk ::
  "heap \<Rightarrow> u16 \<Rightarrow> dsdiff_chunk_type \<Rightarrow> (frm8_state, dsdiff_error, bool) lop" where
  "parse_frm8_chunk hp name_len chunk_id =
     (if chunk_id = DSDIFF_CHUNK_FRM8 then
        tried (lift (ret ())) (\<lambda>c. c\<lparr>frm8_count := frm8_count c + 1\<rparr>)
      else if chunk_id = DSDIFF_CHUNK_FVER then
        lseq (tried (lift (on_member hd_format_version (\<lambda>v h. h\<lparr>hd_format_version := v\<rparr>) dsdiff_chunk_read_fver))
               id) (\<lambda>good.
        lseq (lift (\<lambda>s. ensure (\<not> (good \<and> fst (dsdiff_get_format_version (fst s)) \<noteq> 1))
               DSDIFF_ERROR_INVALID_VERSION s)) (\<lambda>_.
        lseq (lift (on_snd (modify (\<lambda>c. c\<lparr>fver_count := fver_count c + 1\<rparr>)))) (\<lambda>_. lift (ret good))))
      else if chunk_id = DSDIFF_CHUNK_PROP then
        tried (lseq (lift (on_local 0 dsdiff_chunk_read_prop_header)) (\<lambda>(_, n). dsdiff_parse_prop hp name_len n))
          (\<lambda>c. c\<lparr>prop_count := prop_count c + 1\<rparr>)
      else if chunk_id = DSDIFF_CHUNK_DIIN then
        tried (lseq (lift (remember_pos (\<lambda>p h. h\<lparr>hd_diin_chunk_pos := p\<rparr>))) (\<lambda>_.
            lseq (lift (on_local (0, 0, 0) dsdiff_chunk_read_diin_header)) (\<lambda>(_, n, _, _).
            dsdiff_parse_diin hp n))) (\<lambda>c. c\<lparr>diin_count := diin_count c + 1\<rparr>)
      else if chunk_id = DSDIFF_CHUNK_DSD then
        tried (lift parse_snd) (\<lambda>c. c\<lparr>dsd_count := dsd_count c + 1\<rparr>)
      else if chunk_id = DSDIFF_CHUNK_DST then
        tried (lift (seq dsdiff_parse_dst (\<lambda>_. mark_data_end))) (\<lambda>c. c\<lparr>dst_count := dst_count c + 1\<rparr>)
      else if chunk_id = DSDIFF_CHUNK_DSTI then
        tried (lift parse_dsti) (\<lambda>c. c\<lparr>dst_count := dst_count c + 1\<rparr>)
      else if chunk_id = DSDIFF_CHUNK_COMT then
        tried (lift (parse_comt hp)) (\<lambda>c. c\<lparr>comt_count := comt_count c + 1\<rparr>)
      else if chunk_id = DSDIFF_CHUNK_ID3 then
        (\<lambda>s. tried (lift (parse_id3 hp (id3_count (snd s)))) (\<lambda>c. c\<lparr>id3_count := id3_count c + 1\<rparr>) s)
      else if chunk_id = DSDIFF_CHUNK_MANF then tried (lift (parse_manf hp)) id
      else tried (lift (on_dio dsdiff_chunk_skip)) id)"

definition frm8_round :: "heap \<Rightarrow> u16 \<Rightarrow> u64 \<Rightarrow> (frm8_state, dsdiff_error, unit option) lop" where
  "frm8_round hp name_len chunk_size = (\<lambda>(h, c). case dsdiff_io_get_position (hd_io h) of
       (Err _, io) \<Rightarrow> Some (Ok (Some ()), (h\<lparr>hd_io := io\<rparr>, c))
     | (Fault, io) \<Rightarrow> Some (Fault, (h\<lparr>hd_io := io\<rparr>, c))
     | (Ok file_pos, io) \<Rightarrow>
         if file_pos > chunk_size then Some (Ok (Some ()), (h\<lparr>hd_io := io\<rparr>, c))
         else lseq (lift (on_fst peek_header)) (\<lambda>(good, chunk_id).
           if \<not> good then lift (ret (Some ()))
           else lseq (parse_frm8_chunk hp name_len chunk_id) (\<lambda>go_on.
             lift (ret (if go_on then None else Some ())))) (h\<lparr>hd_io := io\<rparr>, c))"

text \<open>The loop is left on any error, and the code of the error is dropped.\<close>

definition check_frm8 :: "(frm8_state, dsdiff_error, unit) op" where
  "check_frm8 = seq get (\<lambda>(h, c).
     seq (ensure (frm8_count c = 0) DSDIFF_ERROR_INVALID_FILE) (\<lambda>_.
     seq (ensure (fver_count c = 1) DSDIFF_ERROR_INVALID_FILE) (\<lambda>_.
     seq (ensure (\<not> (prop_count c > 1 \<or> comt_count c > 1 \<or> diin_count c > 1)) DSDIFF_ERROR_INVALID_FILE) (\<lambda>_.
     if \<not> hd_is_dst_format h
     then ensure (\<not> (dsd_count c \<noteq> 1 \<or> dst_count c \<noteq> 0)) DSDIFF_ERROR_INVALID_FILE
     else ensure (\<not> (dst_count c \<noteq> 1 \<or> dsd_count c \<noteq> 0)) DSDIFF_ERROR_INVALID_FILE))))"

definition dsdiff_parse_frm8 :: "heap \<Rightarrow> u16 \<Rightarrow> u64 \<Rightarrow> unit hd_lop" where
  "dsdiff_parse_frm8 hp name_len chunk_size =
     lop_local no_chunks (lseq (repeat_lop (frm8_round hp name_len chunk_size)) (\<lambda>_. lift check_frm8))"

definition dsdiff_parse_file :: "heap \<Rightarrow> u16 \<Rightarrow> unit hd_lop" where
  "dsdiff_parse_file hp name_len =
     lseq (lift (\<lambda>h. if hd_io h = None then (Err DSDIFF_ERROR_INVALID_ARG, h) else (Ok (), h))) (\<lambda>_.
     lseq (lift (on_local DSDIFF_CHUNK_UNKNOWN dsdiff_chunk_read_header)) (\<lambda>(_, chunk_id).
     lseq (lift (ensure (chunk_id = DSDIFF_CHUNK_FRM8) DSDIFF_ERROR_INVALID_FILE)) (\<lambda>_.
     lseq (lift (on_local (0, DSDIFF_AUDIO_UNKNOWN) dsdiff_chunk_read_frm8_header)) (\<lambda>(_, chunk_size, file_type).
     lseq (lift (on_dio dsdiff_io_get_file_size)) (\<lambda>file_size.
     lseq (lift (ensure (\<not> file_size < chunk_size) DSDIFF_ERROR_INVALID_FILE)) (\<lambda>_.
     lseq (lift (if file_type = DSDIFF_AUDIO_DST then modify (\<lambda>h. h\<lparr>hd_is_dst_format := True\<rparr>)
                 else if file_type = DSDIFF_AUDIO_DSD then modify (\<lambda>h. h\<lparr>hd_is_dst_format := False\<rparr>)
                 else fail DSDIFF_ERROR_INVALID_FILE)) (\<lambda>_.
     dsdiff_parse_frm8 hp name_len chunk_size)))))))"

end
