(* ===== verification/Dsdiff_File.thy ===== *)
theory Dsdiff_File
  imports Dsdiff_Parse
begin

text \<open>
  The life cycle of a DSDIFF handle in \<^verbatim>\<open>libdsdiff/src/dsdiff.c\<close>: creating, opening,
  finalising and closing a file, with the seek operations that opening uses. A failing
  \<^verbatim>\<open>dsdiff_create\<close> leaves a freed array of channel identifiers in the handle; a failing
  \<^verbatim>\<open>dsdiff_open\<close> frees the handle.
\<close>

section \<open>Seeking in the sound data\<close>

text \<open>A signed 64-bit result: overflow is undefined.\<close>

definition c_int64 :: "int \<Rightarrow> ('s, 'e, int) op" where
  "c_int64 v = (if - 9223372036854775808 \<le> v \<and> v \<le> INT64_MAX then ret v else fault)"

text \<open>A position \<open>offset\<close> bytes from \<open>base\<close>, not before the start of the file.\<close>

definition offset_pos :: "u64 \<Rightarrow> int \<Rightarrow> u64 hd_op" where
  "offset_pos base byte_offset =
     (if byte_offset \<ge> 0 then ret (base + of_int byte_offset)
      else seq (c_int64 (- byte_offset)) (\<lambda>n. ret (if of_int n > base then 0 else base - of_int n)))"

definition dsdiff_seek_dsd_data :: "int \<Rightarrow> seek_origin \<Rightarrow> unit hd_op" where
  "dsdiff_seek_dsd_data frame_offset origin = seq get (\<lambda>h.
     if hd_is_dst_format h then ret () else
     seq (ensure_mode (\<lambda>m. m \<noteq> DSDIFF_FILE_MODE_CLOSED) DSDIFF_ERROR_NOT_OPEN) (\<lambda>_.
     seq (on_dio dsdiff_io_get_position) (\<lambda>file_pos.
     seq (c_int64 (frame_offset * uint (hd_channel_count h))) (\<lambda>byte_offset.
     seq (case origin of
            SEEK_SET \<Rightarrow> ret (if byte_offset \<ge> 0 then hd_sound_data_start_pos h + of_int byte_offset
                             else hd_sound_data_start_pos h)
          | SEEK_CUR \<Rightarrow> offset_pos file_pos byte_offset
          | SEEK_END \<Rightarrow> offset_pos (hd_sound_data_end_pos h) byte_offset) (\<lambda>pos0.
     let pos1 = (if pos0 < hd_sound_data_start_pos h then hd_sound_data_start_pos h else pos0) in
     if hd_mode h = DSDIFF_FILE_MODE_READ
     then seq (on_dio (seek_set (if pos1 > hd_sound_data_end_pos h then hd_sound_data_end_pos h else pos1)))
            (\<lambda>_. ret ())
     else seq (modify (\<lambda>h. if pos1 > hd_sound_data_end_pos h then h\<lparr>hd_sound_data_end_pos := pos1\<rparr> else h)) (\<lambda>_.
          seq (on_dio (seek_set pos1)) (\<lambda>_. ret ())))))))"

definition dsdiff_seek_dsd_start :: "unit hd_op" where
  "dsdiff_seek_dsd_start = seq get (\<lambda>h.
     if \<not> hd_is_dst_format h then dsdiff_seek_dsd_data 0 SEEK_SET else
     seq (ensure_mode (\<lambda>m. m \<noteq> DSDIFF_FILE_MODE_CLOSED) DSDIFF_ERROR_NOT_OPEN) (\<lambda>_.
     seq (ensure_mode (\<lambda>m. m = DSDIFF_FILE_MODE_READ \<or> m = DSDIFF_FILE_MODE_MODIFY)
       DSDIFF_ERROR_MODE_WRITE_ONLY) (\<lambda>_.
     seq (on_dio (seek_set (hd_sound_data_start_pos h))) (\<lambda>_. ret ()))))"

section \<open>Creating a file\<close>

definition default_channel_ids :: "u16 \<Rightarrow> u32 list" where
  "default_channel_ids channel_count =
     (if channel_count = 2 then [DSDIFF_CHAN_SLFT, DSDIFF_CHAN_SRGT]
      else if channel_count = 5
      then [DSDIFF_CHAN_MLFT, DSDIFF_CHAN_MRGT, DSDIFF_CHAN_C, DSDIFF_CHAN_LS, DSDIFF_CHAN_RS]
      else if channel_count = 6
      then [DSDIFF_CHAN_MLFT, DSDIFF_CHAN_MRGT, DSDIFF_CHAN_C, DSDIFF_CHAN_LFE, DSDIFF_CHAN_LS, DSDIFF_CHAN_RS]
      else replicate (unat channel_count) DSDIFF_CHAN_C)"

definition dsdiff_set_default_channel_ids :: "heap \<Rightarrow> u16 \<Rightarrow> unit hd_op" where
  "dsdiff_set_default_channel_ids hp channel_count =
     seq free_channel_ids (\<lambda>_.
     seq (modify (\<lambda>h. h\<lparr>hd_channel_count := channel_count\<rparr>)) (\<lambda>_.
     seq (ensure (sa_malloc hp (unat channel_count * 4)) DSDIFF_ERROR_OUT_OF_MEMORY) (\<lambda>_.
     modify (\<lambda>h. h\<lparr>hd_channel_ids := Ptr (map Some (default_channel_ids channel_count))\<rparr>))))"

text \<open>An operation of the handle and the disk.\<close>

type_synonym 'a hdd_op = "(dsdiff \<times> disk, dsdiff_error, 'a) op"

definition open_io ::
  "(string option \<Rightarrow> (disk, dsdiff_error, dsdiff_io) op) \<Rightarrow> string \<Rightarrow> unit hdd_op" where
  "open_io opn filename = (\<lambda>(h, d). case opn (Some filename) d of
       (Ok io, d') \<Rightarrow> (Ok (), (h\<lparr>hd_io := Some io\<rparr>, d'))
     | (Err e, d') \<Rightarrow> (Err e, (h, d'))
     | (Fault, d') \<Rightarrow> (Fault, (h, d')))"

definition close_io :: "unit hdd_op" where
  "close_io = zoom (\<lambda>(h, d). (hd_io h, d)) (\<lambda>(io, d) (h, _). (h\<lparr>hd_io := io\<rparr>, d)) dsdiff_io_close"

definition byte_text :: "string \<Rightarrow> byte list" where
  "byte_text s = map of_char s"

definition data_span :: "(u64 \<times> u64, unit) dck_op \<Rightarrow> unit hd_op" where
  "data_span m = on_member (\<lambda>h. (hd_sound_data_start_pos h, hd_sound_data_end_pos h))
     (\<lambda>(p, e) h. h\<lparr>hd_sound_data_start_pos := p, hd_sound_data_end_pos := e\<rparr>) m"

definition write_properties :: "dsdiff_audio_type \<Rightarrow> u16 \<Rightarrow> u32 \<Rightarrow> unit hd_op" where
  "write_properties file_type channel_count sample_rate =
     seq (on_dio dsdiff_io_get_position) (\<lambda>start_chunk_pos.
     seq (on_dio (dsdiff_chunk_write_prop_header 0)) (\<lambda>_.
     seq (on_dio (dsdiff_chunk_write_fs sample_rate)) (\<lambda>_.
     seq (on_dio dsdiff_io_get_position) (\<lambda>p.
     seq (modify (\<lambda>h. h\<lparr>hd_channel_chunk_pos := p\<rparr>)) (\<lambda>_.
     seq (\<lambda>h. on_dio (dsdiff_chunk_write_chnl channel_count (hd_channel_ids h)) h) (\<lambda>_.
     seq (case file_type of
            DSDIFF_AUDIO_DSD \<Rightarrow> on_dio (dsdiff_chunk_write_cmpr DSDIFF_AUDIO_DSD (byte_text ''not compressed''))
          | DSDIFF_AUDIO_DST \<Rightarrow> on_dio (dsdiff_chunk_write_cmpr DSDIFF_AUDIO_DST (byte_text ''DST Encoded''))
          | DSDIFF_AUDIO_UNKNOWN \<Rightarrow> fail DSDIFF_ERROR_INVALID_ARG) (\<lambda>_.
     seq (on_dio dsdiff_io_get_position) (\<lambda>p.
     seq (modify (\<lambda>h. h\<lparr>hd_timecode_chunk_pos := p\<rparr>)) (\<lambda>_.
     seq (\<lambda>h. if hd_has_timecode h then on_dio (dsdiff_chunk_write_abss (hd_start_timecode h)) h
              else (Ok (), h\<lparr>hd_timecode_chunk_pos := 0\<rparr>)) (\<lambda>_.
     seq (on_dio dsdiff_io_get_position) (\<lambda>p.
     seq (modify (\<lambda>h. h\<lparr>hd_loudspeaker_chunk_pos := p\<rparr>)) (\<lambda>_.
     seq (\<lambda>h. if hd_has_loudspeaker_config h then on_dio (dsdiff_chunk_write_lsco (hd_loudspeaker_config h)) h
              else (Ok (), h\<lparr>hd_loudspeaker_chunk_pos := 0\<rparr>)) (\<lambda>_.
     seq (on_dio dsdiff_io_get_position) (\<lambda>end_chunk_pos.
     modify (\<lambda>h. h\<lparr>hd_prop_chunk_size := end_chunk_pos - start_chunk_pos - 12\<rparr>)))))))))))))))"

definition write_sound_header :: "dsdiff_audio_type \<Rightarrow> unit hd_op" where
  "write_sound_header file_type = (case file_type of
       DSDIFF_AUDIO_DSD \<Rightarrow> data_span (dsdiff_chunk_write_snd_header 0)
     | DSDIFF_AUDIO_DST \<Rightarrow>
         seq (modify (\<lambda>h. h\<lparr>hd_sound_data_size := hd_sound_data_size h + (4 + 8 + 4 + 2)\<rparr>)) (\<lambda>_.
         seq (data_span (dsdiff_chunk_write_dst_header 0)) (\<lambda>_.
         \<lambda>h. on_dio (dsdiff_chunk_write_frte (hd_dst_frame_count h) (hd_dst_frame_rate h)) h))
     | DSDIFF_AUDIO_UNKNOWN \<Rightarrow> fail DSDIFF_ERROR_INVALID_ARG)"

definition create_chunks :: "dsdiff_audio_type \<Rightarrow> u16 \<Rightarrow> u32 \<Rightarrow> unit hd_op" where
  "create_chunks file_type channel_count sample_rate =
     seq (modify (\<lambda>h. h\<lparr>hd_mode := DSDIFF_FILE_MODE_WRITE\<rparr>)) (\<lambda>_.
     seq (on_dio (dsdiff_chunk_write_frm8_header 0)) (\<lambda>_.
     seq (\<lambda>h. on_dio (dsdiff_chunk_write_fver (hd_format_version h)) h) (\<lambda>_.
     seq (write_properties file_type channel_count sample_rate) (\<lambda>_.
     seq (write_sound_header file_type) (\<lambda>_.
     modify (\<lambda>h. h\<lparr>hd_sound_data_end_pos := hd_sound_data_start_pos h\<rparr>))))))"

text \<open>The pointers to the closed stream and to the freed identifiers stay in the handle.\<close>

definition create_cleanup :: "unit hdd_op" where
  "create_cleanup =
     seq (\<lambda>(h, d). if hd_mode h \<noteq> DSDIFF_FILE_MODE_CLOSED then ignore close_io (h, d) else (Ok (), (h, d))) (\<lambda>_.
     on_fst (seq (zoom hd_channel_ids (\<lambda>p h. h\<lparr>hd_channel_ids := p\<rparr>) free_ptr) (\<lambda>_.
       modify (\<lambda>h. h\<lparr>hd_markers := dsdiff_marker_list_free (hd_markers h)\<rparr>))))"

definition create_on ::
  "heap \<Rightarrow> string \<Rightarrow> dsdiff_audio_type \<Rightarrow> u16 \<Rightarrow> u32 \<Rightarrow> unit hdd_op" where
  "create_on hp filename file_type channel_count sample_rate =
     seq (on_fst (modify (\<lambda>h. h\<lparr>hd_mode := DSDIFF_FILE_MODE_CLOSED, hd_sample_frame_count := 0,
            hd_prop_chunk_size := 0, hd_sound_data_size := 0, hd_sound_data_start_pos := 0,
            hd_sound_data_end_pos := 0, hd_dst_frame_count := 0,
            hd_is_dst_format := (file_type \<noteq> DSDIFF_AUDIO_DSD), hd_sample_rate := sample_rate,
            hd_sample_frame_capacity := 0\<rparr>))) (\<lambda>_.
     seq (on_fst (dsdiff_set_default_channel_ids hp channel_count)) (\<lambda>_.
     on_err (seq (open_io (dsdiff_chunk_file_open_write hp) filename) (\<lambda>_.
               on_fst (create_chunks file_type channel_count sample_rate)))
       create_cleanup))"

text \<open>The caller's handle and the disk.\<close>

type_synonym 'a dd_file_op = "(dsdiff ptr \<times> disk, dsdiff_error, 'a) op"

text \<open>A handle that is already open is freed.\<close>

definition dsdiff_create ::
  "heap \<Rightarrow> string option \<Rightarrow> dsdiff_audio_type \<Rightarrow> u16 \<Rightarrow> u16 \<Rightarrow> u32 \<Rightarrow> unit dd_file_op" where
  "dsdiff_create hp filename file_type channel_count sample_bits sample_rate = (\<lambda>(p, d).
     case filename of None \<Rightarrow> (Err DSDIFF_ERROR_INVALID_ARG, (p, d))
     | Some name \<Rightarrow>
       if p = Null then (Err DSDIFF_ERROR_INVALID_ARG, (p, d))
       else if channel_count < 1 \<or> channel_count > 1000 then (Err DSDIFF_ERROR_INVALID_CHANNELS, (p, d))
       else if sample_bits \<noteq> 1 then (Err DSDIFF_ERROR_INVALID_ARG, (p, d))
       else if length name = 0 then (Err DSDIFF_ERROR_INVALID_ARG, (p, d))
       else (case p of
           Ptr h \<Rightarrow> if hd_mode h \<noteq> DSDIFF_FILE_MODE_CLOSED then (Err DSDIFF_ERROR_ALREADY_OPEN, (Dangling, d))
             else (case create_on hp name file_type channel_count sample_rate (h, d) of
               (r, (h', d')) \<Rightarrow> (r, (Ptr h', d')))
         | _ \<Rightarrow> (Fault, (p, d))))"

text \<open>The new handle is stored in the caller's variable.\<close>

definition dsdiff_new :: "heap \<Rightarrow> unit dd_op" where
  "dsdiff_new hp = (\<lambda>p. if \<not> sa_malloc hp 432 then (Err DSDIFF_ERROR_OUT_OF_MEMORY, p)
     else case dsdiff_init_handle zero_dsdiff of (r, h) \<Rightarrow> (r, Ptr h))"

section \<open>Opening a file\<close>

text \<open>What follows the opening of the stream; on an error the handle is cleaned up and freed.\<close>

definition open_cleanup :: "unit hdd_op" where
  "open_cleanup =
     seq (\<lambda>(h, d). if hd_mode h \<noteq> DSDIFF_FILE_MODE_CLOSED
            then ignore close_io (h\<lparr>hd_mode := DSDIFF_FILE_MODE_CLOSED\<rparr>, d) else (Ok (), (h, d))) (\<lambda>_.
     on_fst dsdiff_cleanup_handle)"

definition open_on ::
  "(string option \<Rightarrow> (disk, dsdiff_error, dsdiff_io) op) \<Rightarrow> dsdiff_file_mode \<Rightarrow> unit hd_lop \<Rightarrow> string \<Rightarrow>
   (dsdiff \<times> disk, dsdiff_error, unit) lop" where
  "open_on opn mode parse filename =
     lseq (lift (open_io opn filename)) (\<lambda>_.
     lseq (lift (on_fst (modify (\<lambda>h. h\<lparr>hd_mode := mode\<rparr>)))) (\<lambda>_.
     lzoom fst (\<lambda>h (_, d). (h, d)) parse))"

definition open_file ::
  "(string option \<Rightarrow> (disk, dsdiff_error, dsdiff_io) op) \<Rightarrow> dsdiff_file_mode \<Rightarrow> unit hd_lop \<Rightarrow> string option \<Rightarrow>
   (dsdiff ptr \<times> disk, dsdiff_error, unit) lop" where
  "open_file opn mode parse filename = (\<lambda>(p, d).
     case filename of None \<Rightarrow> Some (Err DSDIFF_ERROR_INVALID_ARG, (p, d))
     | Some name \<Rightarrow>
       if p = Null \<or> length name = 0 then Some (Err DSDIFF_ERROR_INVALID_ARG, (p, d))
       else (case p of
           Ptr h \<Rightarrow> (case open_on opn mode parse name (h, d) of
               None \<Rightarrow> None
             | Some (Ok _, (h', d')) \<Rightarrow> Some (Ok (), (Ptr h', d'))
             | Some (Fault, (h', d')) \<Rightarrow> Some (Fault, (Ptr h', d'))
             | Some (Err e, s) \<Rightarrow> (case open_cleanup s of
                 (Fault, (h', d')) \<Rightarrow> Some (Fault, (Ptr h', d'))
               | (_, (h', d')) \<Rightarrow> Some (Err e, (Dangling, d'))))
         | _ \<Rightarrow> Some (Fault, (p, d))))"

definition dsdiff_open :: "heap \<Rightarrow> u16 \<Rightarrow> string option \<Rightarrow> (dsdiff ptr \<times> disk, dsdiff_error, unit) lop" where
  "dsdiff_open hp name_len = open_file (dsdiff_chunk_file_open_read hp) DSDIFF_FILE_MODE_READ
     (lseq (dsdiff_parse_file hp name_len) (\<lambda>_. lift dsdiff_seek_dsd_start))"

definition dsdiff_modify :: "heap \<Rightarrow> u16 \<Rightarrow> string option \<Rightarrow> (dsdiff ptr \<times> disk, dsdiff_error, unit) lop" where
  "dsdiff_modify hp name_len = open_file (dsdiff_chunk_file_open_modify hp) DSDIFF_FILE_MODE_MODIFY
     (lseq (dsdiff_parse_file hp name_len) (\<lambda>_.
      lift (\<lambda>h. seq (on_dio (seek_set (if hd_is_dst_format h then hd_dst_data_end h
                                         else hd_sound_data_end_pos h))) (\<lambda>_. ret ()) h)))"

end
