(* ===== verification/Dsdiff_Codec.thy ===== *)
theory Dsdiff_Codec
  imports Dsdiff_Chunks
begin

text \<open>
  What the chunk layer stores and what it understands. \<open>emits m bs r\<close> says that \<open>m\<close> writes exactly
  the bytes \<open>bs\<close> where there is room for them, \<open>takes m bs v\<close> that \<open>m\<close> reads the bytes \<open>bs\<close> as \<open>v\<close>,
  and \<open>takes_to m bs f\<close> the same of a reader that updates variables. Both go through sequencing, so
  the bytes of a chunk are read off its writer field by field.
\<close>

lemma unat_of_nat_small: "n < 2 ^ LENGTH('a::len) \<Longrightarrow> unat (of_nat n :: 'a word) = n"
  by (simp add: unsigned_of_nat take_bit_nat_eq_self)

section \<open>Emitting and taking bytes\<close>

definition emits :: "'a dio_op \<Rightarrow> byte list \<Rightarrow> 'a \<Rightarrow> bool" where
  "emits m bs r \<longleftrightarrow> (\<forall>s d p. dio_is_open s \<longrightarrow> dio_can_write s (p + length bs) \<longrightarrow>
     m (dio_put s d p) = (Ok r, dio_put s (patch d p bs) (p + length bs)))"

definition takes :: "'a dio_op \<Rightarrow> byte list \<Rightarrow> 'a \<Rightarrow> bool" where
  "takes m bs v \<longleftrightarrow> (\<forall>s d p. dio_is_open s \<longrightarrow> dio_can_read s \<longrightarrow> bytes_at p (length bs) d = bs \<longrightarrow>
     m (dio_put s d p) = (Ok v, dio_put s d (p + length bs)))"

definition takes_to :: "('o, 'a) dck_op \<Rightarrow> byte list \<Rightarrow> ('o \<Rightarrow> 'o) \<Rightarrow> 'a \<Rightarrow> bool" where
  "takes_to m bs f r \<longleftrightarrow> (\<forall>s d p out. dio_is_open s \<longrightarrow> dio_can_read s \<longrightarrow> bytes_at p (length bs) d = bs \<longrightarrow>
     m (dio_put s d p, out) = (Ok r, (dio_put s d (p + length bs), f out)))"

named_theorems emits_intros \<open>what the writers emit\<close>
named_theorems takes_intros \<open>what the readers take\<close>

lemma emitsI:
  "(\<And>s d p. dio_is_open s \<Longrightarrow> dio_can_write s (p + length bs) \<Longrightarrow>
     m (dio_put s d p) = (Ok r, dio_put s (patch d p bs) (p + length bs))) \<Longrightarrow> emits m bs r"
  by (simp add: emits_def)

lemma emitsD:
  "emits m bs r \<Longrightarrow> dio_is_open s \<Longrightarrow> dio_can_write s (p + length bs) \<Longrightarrow>
     m (dio_put s d p) = (Ok r, dio_put s (patch d p bs) (p + length bs))"
  by (simp add: emits_def)

lemma takesI:
  "(\<And>s d p. dio_is_open s \<Longrightarrow> dio_can_read s \<Longrightarrow> bytes_at p (length bs) d = bs \<Longrightarrow>
     m (dio_put s d p) = (Ok v, dio_put s d (p + length bs))) \<Longrightarrow> takes m bs v"
  by (simp add: takes_def)

lemma takesD:
  "takes m bs v \<Longrightarrow> dio_is_open s \<Longrightarrow> dio_can_read s \<Longrightarrow> bytes_at p (length bs) d = bs \<Longrightarrow>
     m (dio_put s d p) = (Ok v, dio_put s d (p + length bs))"
  by (simp add: takes_def)

lemma takes_toI:
  "(\<And>s d p out. dio_is_open s \<Longrightarrow> dio_can_read s \<Longrightarrow> bytes_at p (length bs) d = bs \<Longrightarrow>
     m (dio_put s d p, out) = (Ok r, (dio_put s d (p + length bs), f out))) \<Longrightarrow> takes_to m bs f r"
  by (simp add: takes_to_def)

lemma takes_toD:
  "takes_to m bs f r \<Longrightarrow> dio_is_open s \<Longrightarrow> dio_can_read s \<Longrightarrow> bytes_at p (length bs) d = bs \<Longrightarrow>
     m (dio_put s d p, out) = (Ok r, (dio_put s d (p + length bs), f out))"
  by (simp add: takes_to_def)

lemma bytes_at_appendD:
  assumes "bytes_at p (length (xs @ ys)) d = xs @ ys"
  shows "bytes_at p (length xs) d = xs" "bytes_at (p + length xs) (length ys) d = ys"
proof -
  have "bytes_at p (length xs) d @ bytes_at (p + length xs) (length ys) d = xs @ ys"
    using assms by (simp add: bytes_at_split)
  moreover have "length (bytes_at p (length xs) d) = length xs"
  proof (rule ccontr)
    assume "\<not> ?thesis"
    then have "length d - p < length xs" by (auto simp: bytes_at_def)
    then have "length (bytes_at p (length (xs @ ys)) d) < length (xs @ ys)" by (auto simp: bytes_at_def)
    then show False using assms by simp
  qed
  ultimately show "bytes_at p (length xs) d = xs" "bytes_at (p + length xs) (length ys) d = ys"
    by (metis append_eq_append_conv)+
qed

section \<open>The combinators\<close>

lemma emits_ret [emits_intros]: "emits (ret r) [] r"
  by (rule emitsI) simp

lemma emits_Pair: "emits (Pair (Ok r)) [] r"
  using emits_ret [of r] by (simp add: ret_def)

lemma emits_seq:
  assumes "emits m xs a" "emits (k a) ys b"
  shows "emits (seq m k) (xs @ ys) b"
proof (rule emitsI)
  fix s d p assume o: "dio_is_open s" and w: "dio_can_write s (p + length (xs @ ys))"
  then have "dio_can_write s (p + length xs)"
    by (auto intro: dsdiff_stream.can_write_mono)
  then have 1: "m (dio_put s d p) = (Ok a, dio_put s (patch d p xs) (p + length xs))"
    using assms(1) o by (simp add: emitsD)
  have "k a (dio_put s (patch d p xs) (p + length xs)) =
      (Ok b, dio_put s (patch (patch d p xs) (p + length xs) ys) (p + length xs + length ys))"
    using assms(2) o w by (simp add: emitsD add.assoc)
  then show "seq m k (dio_put s d p) = (Ok b, dio_put s (patch d p (xs @ ys)) (p + length (xs @ ys)))"
    by (simp add: 1 patch_patch_append add.assoc)
qed

lemma emits_ensure [emits_intros]: "b \<Longrightarrow> emits (ensure b e) [] ()"
  by (rule emitsI) simp

lemma dio_put_Some: "dio_is_open s \<Longrightarrow> dio_put s d p \<noteq> None"
  by (auto simp: dio_view_defs)

lemma emits_on_dchunk [emits_intros]: "emits m bs r \<Longrightarrow> emits (on_dchunk m) bs r"
  by (auto intro!: emitsI simp: on_dchunk_def dio_put_Some emitsD)

lemma takes_ret [takes_intros]: "takes (ret v) [] v"
  by (rule takesI) simp

lemma takes_Pair: "takes (Pair (Ok r)) [] r"
  using takes_ret [of r] by (simp add: ret_def)

lemma takes_seq:
  assumes "takes m xs a" "takes (k a) ys b"
  shows "takes (seq m k) (xs @ ys) b"
proof (rule takesI)
  fix s d p assume s: "dio_is_open s" "dio_can_read s" and b: "bytes_at p (length (xs @ ys)) d = xs @ ys"
  note parts = bytes_at_appendD [OF b]
  show "seq m k (dio_put s d p) = (Ok b, dio_put s d (p + length (xs @ ys)))"
    using takesD [OF assms(1) s parts(1)] takesD [OF assms(2) s parts(2)] by (simp add: add.assoc)
qed

lemma takes_ensure [takes_intros]: "b \<Longrightarrow> takes (ensure b e) [] ()"
  by (rule takesI) simp

lemma takes_to_ret [takes_intros]: "takes_to (ret r) [] (\<lambda>x. x) r"
  by (rule takes_toI) simp

lemma takes_to_seq:
  assumes "takes_to m xs f a" "takes_to (k a) ys g b"
  shows "takes_to (seq m k) (xs @ ys) (\<lambda>x. g (f x)) b"
proof (rule takes_toI)
  fix s d p out assume s: "dio_is_open s" "dio_can_read s" and b: "bytes_at p (length (xs @ ys)) d = xs @ ys"
  note parts = bytes_at_appendD [OF b]
  show "seq m k (dio_put s d p, out) = (Ok b, (dio_put s d (p + length (xs @ ys)), g (f out)))"
    using takes_toD [OF assms(1) s parts(1), of out] takes_toD [OF assms(2) s parts(2), of "f out"]
    by (simp add: add.assoc)
qed

lemma takes_to_put_out [takes_intros]: "takes_to (put_out f) [] f ()"
  by (rule takes_toI) (simp add: put_out_def on_snd_def zoom_def)

lemma takes_to_on_fst [takes_intros]: "takes m bs v \<Longrightarrow> takes_to (on_fst m) bs (\<lambda>x. x) v"
  by (auto intro!: takes_toI simp: on_fst_def zoom_def takesD)

lemma takes_to_read_to [takes_intros]: "takes m bs v \<Longrightarrow> takes_to (read_to m upd) bs (upd v) ()"
  using takes_to_seq [OF takes_to_on_fst takes_to_put_out, of m bs v "\<lambda>v. upd v"]
  by (simp add: read_to_def)

lemma takes_to_ensure [takes_intros]: "b \<Longrightarrow> takes_to (ensure b e) [] (\<lambda>x. x) ()"
  by (rule takes_toI) simp

lemma takes_to_on_dout [takes_intros]: "takes_to m bs f r \<Longrightarrow> takes_to (on_dout m) bs f r"
  by (auto intro!: takes_toI simp: on_dout_def dio_put_Some takes_toD)

section \<open>Bytes and integers\<close>

lemma emits_dio_wr: "emits (dio_wr bs) bs ()"
  by (rule emitsI) (simp add: dsdiff_stream.stream_simps)

lemma takes_dio_rd: "takes (dio_rd (length bs)) bs bs"
proof (rule takesI)
  fix s d p assume s: "dio_is_open s" "dio_can_read s" and b: "bytes_at p (length bs) d = bs"
  show "dio_rd (length bs) (dio_put s d p) = (Ok bs, dio_put s d (p + length bs))"
  proof (cases "bs = []")
    case True
    then show ?thesis using s by (auto simp: dio_view_defs dio_rd_eq fread_def)
  next
    case False
    then have "p + length bs \<le> length d"
      using b by (metis bytes_at_def length_drop length_take min.absorb_iff2 nat_le_linear
          add.commute le_diff_conv2 diff_is_0_eq' le_zero_eq length_0_conv)
    then show ?thesis using s b by (simp add: dsdiff_stream.stream_simps)
  qed
qed

lemma emits_write_bytes [emits_intros]: "emits (dsdiff_io_write_bytes bs) bs (length bs)"
proof (rule emitsI)
  fix s d p assume s: "dio_is_open s" "dio_can_write s (p + length bs)"
  then show "dsdiff_io_write_bytes bs (dio_put s d p) = (Ok (length bs), dio_put s (patch d p bs) (p + length bs))"
    using emitsD [OF emits_dio_wr s, of d]
    by (auto simp: dio_wr_def dsdiff_io_write_bytes_def on_stream_Some dio_view_defs seq_def fwrite_def Let_def
        split: if_splits)
qed

lemma takes_read_bytes:
  assumes "length bs = n" "n \<le> buffer_size"
  shows "takes (dsdiff_io_read_bytes buffer_size n) bs bs"
proof (rule takesI)
  fix s d p assume s: "dio_is_open s" "dio_can_read s" and b: "bytes_at p (length bs) d = bs"
  show "dsdiff_io_read_bytes buffer_size n (dio_put s d p) = (Ok bs, dio_put s d (p + length bs))"
    using takesD [OF takes_dio_rd s b] assms
    by (auto simp: dio_rd_def dsdiff_io_read_bytes_def seq_def split: prod.splits outcome.splits if_splits)
qed

lemma write_be_eq: "dio_write_be n v = dio_wr (be_enc n v)"
proof
  fix s show "dio_write_be n v s = dio_wr (be_enc n v) s"
    by (cases s rule: dio_cases)
      (simp_all add: dio_write_be_def dio_wr_eq on_stream_Some dio_wr_def dsdiff_io_write_bytes_def split: prod.splits)
qed

lemma read_be_eq: "dio_read_be n = seq (dio_rd n) (\<lambda>bs. ret (be_dec bs))"
proof
  fix s show "dio_read_be n s = seq (dio_rd n) (\<lambda>bs. ret (be_dec bs)) s"
    by (cases s rule: dio_cases)
      (simp_all add: dio_read_be_def dio_rd_eq on_stream_Some seq_def dio_rd_def dsdiff_io_read_bytes_def dio_fread_def
        fread_def Let_def split: prod.splits)
qed

lemma emits_write_be: "emits (dio_write_be n v) (be_enc n v) ()"
  by (simp add: write_be_eq emits_dio_wr)

lemma takes_read_be: "length bs = n \<Longrightarrow> takes (dio_read_be n) bs (be_dec bs)"
  using takes_seq [OF takes_dio_rd takes_ret, of bs be_dec] by (simp add: read_be_eq ret_def)

lemma takes_read_word:
  assumes "m = seq (dio_read_be n) (\<lambda>v. ret (of_nat v))" "LENGTH('a::len) = 8 * n"
  shows "takes m (be_enc n (unat (w :: 'a word))) w"
proof -
  have "takes m (be_enc n (unat w) @ []) (of_nat (be_dec (be_enc n (unat w))) :: 'a word)"
    unfolding assms(1) by (rule takes_seq [OF takes_read_be takes_ret]) simp
  then show ?thesis using assms(2) by (simp add: be_dec_enc_word)
qed

lemma emits_integers [emits_intros]:
  "emits (dsdiff_io_write_uint8 b) [b] ()"
  "emits (dsdiff_io_write_uint16_be h) (be_enc 2 (unat h)) ()"
  "emits (dsdiff_io_write_uint32_be w) (be_enc 4 (unat w)) ()"
  "emits (dsdiff_io_write_int32_be i) (be_enc 4 (unat (of_int i :: u32))) ()"
  "emits (dsdiff_io_write_uint64_be q) (be_enc 8 (unat q)) ()"
  "emits dsdiff_io_write_pad_byte [0] ()"
  using emits_write_be [of 1 "unat b"] emits_write_be [of 1 "0"]
  by (simp_all add: dsdiff_io_write_uint8_def dsdiff_io_write_uint16_be_def dsdiff_io_write_uint32_be_def
      dsdiff_io_write_int32_be_def dsdiff_io_write_uint64_be_def dsdiff_io_write_pad_byte_def emits_write_be
      be_enc_def [of "Suc 0"])

lemma takes_integers [takes_intros]:
  "takes dsdiff_io_read_uint8 [b] b"
  "takes dsdiff_io_read_uint16_be (be_enc 2 (unat h)) h"
  "takes dsdiff_io_read_uint32_be (be_enc 4 (unat w)) w"
  "takes dsdiff_io_read_uint64_be (be_enc 8 (unat q)) q"
  using takes_read_word [where n = 1, OF dsdiff_io_read_uint8_def, of b]
  by (simp_all add: be_enc_def [of "Suc 0"]
      takes_read_word [where n = 2, OF dsdiff_io_read_uint16_be_def]
      takes_read_word [where n = 4, OF dsdiff_io_read_uint32_be_def]
      takes_read_word [where n = 8, OF dsdiff_io_read_uint64_be_def])

section \<open>Chunk identifiers\<close>

definition id_bytes :: "u32 \<Rightarrow> byte list" where
  "id_bytes c = le_enc 4 (unat c)"

lemma length_id_bytes [simp]: "length (id_bytes c) = 4"
  by (simp add: id_bytes_def)

lemma emits_chunk_id [emits_intros]: "emits (dsdiff_io_write_chunk_id c) (id_bytes c) ()"
proof -
  have "emits (seq (dsdiff_io_write_bytes (id_bytes c)) (\<lambda>_. ret ())) (id_bytes c @ []) ()"
    by (rule emits_seq emits_write_bytes emits_ret)+
  then show ?thesis by (simp add: dsdiff_io_write_chunk_id_def id_bytes_def)
qed

lemma takes_chunk_id [takes_intros]: "takes dsdiff_io_read_chunk_id (id_bytes c) c"
proof -
  have "takes (seq (dsdiff_io_read_bytes 4 4) (\<lambda>bs. ret (of_nat (le_dec bs)))) (id_bytes c @ [])
      (of_nat (le_dec (id_bytes c)) :: u32)"
    by (rule takes_seq [OF takes_read_bytes takes_ret]) simp_all
  then show ?thesis by (simp add: dsdiff_io_read_chunk_id_def id_bytes_def)
qed

lemma takes_to_header:
  assumes "map_of DSDIFF_CHUNK_LIST c = Some ct"
  shows "takes_to dsdiff_chunk_read_header (id_bytes c) (\<lambda>_. ct) ()"
proof -
  have "takes_to dsdiff_chunk_read_header ([] @ id_bytes c)
      (\<lambda>x. case map_of DSDIFF_CHUNK_LIST c of Some chunk_type \<Rightarrow> chunk_type | None \<Rightarrow> DSDIFF_CHUNK_UNKNOWN) ()"
    unfolding dsdiff_chunk_read_header_def
    by (rule takes_to_on_dout takes_to_seq takes_to_put_out takes_to_read_to takes_chunk_id)+
  then show ?thesis using assms by simp
qed

section \<open>Steps of a chunk reader or writer\<close>

lemma takes_to_put_out_seq:
  "takes_to (k ()) ys g b \<Longrightarrow> takes_to (seq (put_out f) k) ys (\<lambda>x. g (f x)) b"
  using takes_to_seq [OF takes_to_put_out, of k ys g b f] by simp

lemma takes_to_ensure_seq:
  "b \<Longrightarrow> takes_to (k ()) ys g r \<Longrightarrow> takes_to (seq (ensure b e) k) ys g r"
  using takes_to_seq [OF takes_to_ensure, of b k ys g r e] by simp

lemma takes_to_seq_last:
  "takes_to m bs f a \<Longrightarrow> takes_to (k a) [] g b \<Longrightarrow> takes_to (seq m k) bs (\<lambda>x. g (f x)) b"
  using takes_to_seq [of m bs f a k "[]"] by simp

lemma emits_seq_last: "emits m bs a \<Longrightarrow> emits (k a) [] b \<Longrightarrow> emits (seq m k) bs b"
  using emits_seq [of m bs a k "[]"] by simp

lemma takes_seq_last: "takes m bs a \<Longrightarrow> takes (k a) [] b \<Longrightarrow> takes (seq m k) bs b"
  using takes_seq [of m bs a k "[]"] by simp

lemma takes_to_true: "b \<Longrightarrow> takes_to m bs f r \<Longrightarrow> takes_to (if b then m else n) bs f r"
  by simp

lemma takes_to_false: "\<not> b \<Longrightarrow> takes_to n bs f r \<Longrightarrow> takes_to (if b then m else n) bs f r"
  by simp

lemma takes_ensure_seq: "b \<Longrightarrow> takes (k ()) ys r \<Longrightarrow> takes (seq (ensure b e) k) ys r"
  using takes_seq [OF takes_ensure, of b k ys r e] by simp

lemma emits_ensure_seq: "b \<Longrightarrow> emits (k ()) ys r \<Longrightarrow> emits (seq (ensure b e) k) ys r"
  using emits_seq [OF emits_ensure, of b k ys r e] by simp

lemma takes_to_cong: "takes_to m bs f r \<Longrightarrow> (\<And>x. f x = g x) \<Longrightarrow> takes_to m bs g r"
  by (simp add: takes_to_def)

lemmas reader_steps = takes_to_on_dout takes_to_put_out_seq takes_to_ensure_seq takes_to_seq takes_to_seq_last
  takes_to_read_to takes_to_on_fst takes_to_put_out takes_to_ret takes_integers takes_chunk_id

lemmas writer_steps = emits_on_dchunk emits_ensure_seq emits_seq emits_seq_last emits_integers emits_chunk_id
  emits_write_bytes emits_ret

section \<open>Chunks of a fixed size\<close>

lemma emits_frm8 [emits_intros]:
  "emits (dsdiff_chunk_write_frm8_header n) (id_bytes FRM8_FOURCC @ be_enc 8 (unat n) @ id_bytes DSD_FOURCC) ()"
  unfolding dsdiff_chunk_write_frm8_header_def by (rule writer_steps)+

lemma emits_fver [emits_intros]:
  "emits (dsdiff_chunk_write_fver v) (id_bytes FVER_FOURCC @ be_enc 8 (unat (4 :: u64)) @ be_enc 4 (unat v)) ()"
  unfolding dsdiff_chunk_write_fver_def by (rule writer_steps)+

lemma takes_fver:
  "takes_to dsdiff_chunk_read_fver (be_enc 8 (unat (4 :: u64)) @ be_enc 4 (unat v)) (\<lambda>_. v) ()"
  unfolding dsdiff_chunk_read_fver_def by (rule reader_steps refl)+

lemma emits_prop [emits_intros]:
  "emits (dsdiff_chunk_write_prop_header n) (id_bytes PROP_FOURCC @ be_enc 8 (unat n) @ id_bytes SND_FOURCC) ()"
  unfolding dsdiff_chunk_write_prop_header_def by (rule writer_steps)+

lemma takes_prop:
  "takes_to dsdiff_chunk_read_prop_header (be_enc 8 (unat n) @ id_bytes SND_FOURCC) (\<lambda>_. n) ()"
  unfolding dsdiff_chunk_read_prop_header_def by (rule reader_steps takes_to_ensure refl)+

lemma emits_fs [emits_intros]:
  "emits (dsdiff_chunk_write_fs r) (id_bytes FS_FOURCC @ be_enc 8 (unat (4 :: u64)) @ be_enc 4 (unat r)) ()"
  unfolding dsdiff_chunk_write_fs_def by (rule writer_steps)+

lemma takes_fs:
  "takes_to dsdiff_chunk_read_fs (be_enc 8 (unat (4 :: u64)) @ be_enc 4 (unat r)) (\<lambda>_. r) ()"
  unfolding dsdiff_chunk_read_fs_def by (rule reader_steps refl)+

definition time_bytes :: "dsdiff_timecode \<Rightarrow> byte list" where
  "time_bytes t = be_enc 2 (unat (tc_hours t)) @ [tc_minutes t] @ [tc_seconds t] @ be_enc 4 (unat (tc_samples t))"

lemma emits_abss [emits_intros]:
  "emits (dsdiff_chunk_write_abss t) (id_bytes ABSS_FOURCC @ be_enc 8 (unat (8 :: u64)) @ time_bytes t) ()"
  unfolding dsdiff_chunk_write_abss_def time_bytes_def by (rule writer_steps)+

lemma takes_abss:
  "takes_to dsdiff_chunk_read_abss (be_enc 8 (unat (8 :: u64)) @ time_bytes t) (\<lambda>_. t) ()"
proof -
  have "takes_to dsdiff_chunk_read_abss (be_enc 8 (unat (8 :: u64)) @ time_bytes t)
      (\<lambda>x. x\<lparr>tc_hours := tc_hours t, tc_minutes := tc_minutes t, tc_seconds := tc_seconds t,
        tc_samples := tc_samples t\<rparr>) ()"
    unfolding dsdiff_chunk_read_abss_def time_bytes_def by (rule takes_to_cong, (rule reader_steps refl)+)
  then show ?thesis by (rule takes_to_cong) simp
qed

lemma emits_lsco [emits_intros]:
  "emits (dsdiff_chunk_write_lsco v)
     (id_bytes LSCO_FOURCC @ be_enc 8 (unat (2 :: u64)) @ be_enc 2 (unat (ucast v :: u16))) ()"
  unfolding dsdiff_chunk_write_lsco_def by (rule writer_steps)+

lemma takes_lsco:
  "takes_to dsdiff_chunk_read_lsco (be_enc 8 (unat (2 :: u64)) @ be_enc 2 (unat (v :: u16))) (\<lambda>_. ucast v) ()"
  unfolding dsdiff_chunk_read_lsco_def by (rule reader_steps refl)+

lemma emits_frte [emits_intros]:
  "emits (dsdiff_chunk_write_frte n r)
     (id_bytes FRTE_FOURCC @ be_enc 8 (unat (6 :: u64)) @ be_enc 4 (unat n) @ be_enc 2 (unat r)) ()"
  unfolding dsdiff_chunk_write_frte_def by (rule writer_steps)+

lemma takes_frte:
  "takes_to dsdiff_chunk_read_frte (be_enc 8 (unat (6 :: u64)) @ be_enc 4 (unat n) @ be_enc 2 (unat r)) (\<lambda>_. (n, r)) ()"
  unfolding dsdiff_chunk_read_frte_def by (rule takes_to_cong, (rule reader_steps refl)+) (simp add: case_prod_beta)

section \<open>Channels\<close>

text \<open>The bytes of a code that is put together from its bytes.\<close>

lemma code_bytes:
  fixes a b c d :: byte
  defines "w \<equiv> push_bit 24 (ucast a) OR push_bit 16 (ucast b) OR push_bit 8 (ucast c) OR ucast d :: u32"
  shows "ucast (drop_bit 24 w AND 0xFF) = a" "ucast (drop_bit 16 w AND 0xFF) = b"
    "ucast (drop_bit 8 w AND 0xFF) = c" "ucast (w AND 0xFF) = d"
proof -
  have m: "(0xFF :: u32) = mask 8" by (simp add: mask_eq_exp_minus_1)
  show "ucast (drop_bit 24 w AND 0xFF) = a" "ucast (drop_bit 16 w AND 0xFF) = b"
    "ucast (drop_bit 8 w AND 0xFF) = c" "ucast (w AND 0xFF) = d"
    unfolding w_def m by (rule bit_word_eqI, auto simp: bit_simps dest: bit_imp_le_length)+
qed

text \<open>A generic identifier has the code of a letter and three digits.\<close>

lemma generic_code:
  assumes "c < 1000"
  shows "channel_code (of_nat c) = Some (push_bit 24 0x43 OR push_bit 16 (of_int (int c div 100 + 48)) OR
    push_bit 8 (of_int (int c mod 100 div 10 + 48)) OR of_int (int c mod 10 + 48))"
proof -
  have s: "sint (of_nat c :: u32) = int c"
    using assms by (simp add: sint_uint unsigned_of_nat take_bit_nat_eq_self signed_take_bit_int_eq_self)
  have "channel_code_map c = 0"
    using assms by (simp add: channel_code_map_def DSDIFF_CHANNEL_LIST_def)
  then show ?thesis using assms by (simp add: channel_code_def s Let_def)
qed

lemma uint_byte: "0 \<le> x \<Longrightarrow> x < 256 \<Longrightarrow> uint (of_int x :: byte) = x"
  by (simp add: uint_word_of_int_eq take_bit_int_eq_self)

lemma generic_round:
  assumes "c < 1000"
  shows "map_option channel_of_code (channel_code (of_nat c)) = Some (of_nat c)"
proof -
  define b0 b1 b2 where "b0 = (of_int (int c div 100 + 48) :: byte)"
    and "b1 = (of_int (int c mod 100 div 10 + 48) :: byte)" and "b2 = (of_int (int c mod 10 + 48) :: byte)"
  define w where "w = (push_bit 24 (ucast (0x43 :: byte)) OR push_bit 16 (ucast b0) OR push_bit 8 (ucast b1) OR ucast b2 :: u32)"
  have rng: "int c div 100 < 10" "int c mod 100 div 10 < 10" "0 \<le> int c div 100" using assms by auto
  have u: "uint b0 = int c div 100 + 48" "uint b1 = int c mod 100 div 10 + 48" "uint b2 = int c mod 10 + 48"
    using rng unfolding b0_def b1_def b2_def by (intro uint_byte; simp)+
  have cast: "(ucast b0 :: u32) = of_int (int c div 100 + 48)" "(ucast b1 :: u32) = of_int (int c mod 100 div 10 + 48)"
     "(ucast b2 :: u32) = of_int (int c mod 10 + 48)"
    unfolding ucast_eq u by simp_all
  have code: "channel_code (of_nat c) = Some w"
    using generic_code [OF assms] by (simp add: w_def cast)
  have le: "48 \<le> b0" "b0 \<le> 57" "48 \<le> b1" "b1 \<le> 57" "48 \<le> b2" "b2 \<le> 57"
    using rng by (simp_all add: word_le_def u)
  note bytes = code_bytes [of "0x43" b0 b1 b2, folded w_def]
  have "w \<noteq> v" if "ucast (drop_bit 24 v AND 0xFF) \<noteq> (0x43 :: byte)" for v
    using bytes(1) that by auto
  then have "map_of DSDIFF_CHANNEL_LIST w = None"
    by (simp add: DSDIFF_CHANNEL_LIST_def fourcc_values)
  then have "channel_of_code w = of_int ((uint b2 - 48) + 10 * (uint b1 - 48) + 100 * (uint b0 - 48))"
    using le by (simp add: channel_of_code_def bytes Let_def)
  also have "(uint b2 - 48) + 10 * (uint b1 - 48) + 100 * (uint b0 - 48) = int c"
  proof -
    have sum: "z + 48 - 48 + 10 * (y + 48 - 48) + 100 * (x + 48 - 48) = n"
      if "100 * x + m = n" "10 * y + r = m" "r = z" for x y z m n r :: int
      using that by simp
    show ?thesis unfolding u
      by (rule sum [OF mult_div_mod_eq mult_div_mod_eq]) (simp add: mod_mod_cancel)
  qed
  finally show ?thesis by (simp add: code)
qed

lemma named_round:
  assumes "1000 \<le> c" "c < 1008"
  shows "map_option channel_of_code (channel_code (of_nat c)) = Some (of_nat c)"
proof -
  consider "c = 1000" | "c = 1001" | "c = 1002" | "c = 1003" | "c = 1004" | "c = 1005" | "c = 1006" | "c = 1007"
    using assms by linarith
  then show ?thesis
    by cases (simp_all add: channel_code_def channel_of_code_def channel_code_map_def DSDIFF_CHANNEL_LIST_def fourcc_values Let_def)
qed

text \<open>Each code is read back as the identifier it was made from.\<close>

lemma channel_code_round:
  assumes "unat c < 1008"
  shows "\<exists>w. channel_code c = Some w \<and> channel_of_code w = c"
  using generic_round [of "unat c"] named_round [of "unat c"] assms
  by (cases "unat c < 1000"; cases "channel_code c") simp_all

definition channels_bytes :: "u32 list \<Rightarrow> byte list" where
  "channels_bytes ids = concat (map (\<lambda>c. id_bytes (the (channel_code c))) ids)"

lemma length_channels_bytes [simp]: "length (channels_bytes ids) = 4 * length ids"
  by (induction ids) (simp_all add: channels_bytes_def)

lemma emits_for_loop:
  assumes "\<And>i. k \<le> i \<Longrightarrow> i < n \<Longrightarrow> emits (f i) (xs i) ()"
  shows "emits (for_loop k n f) (concat (map xs [k..<n])) ()"
  using assms
proof (induction "n - k" arbitrary: k)
  case 0
  then show ?case by (simp add: emits_Pair)
next
  case (Suc m)
  then have k: "k < n" by simp
  have "emits (for_loop (Suc k) n f) (concat (map xs [Suc k..<n])) ()"
    by (rule Suc.hyps(1)) (use Suc in auto)
  then have "emits (seq (f k) (\<lambda>_. for_loop (Suc k) n f)) (xs k @ concat (map xs [Suc k..<n])) ()"
    using Suc.prems [of k] k by (intro emits_seq) auto
  then show ?case using k by (simp add: for_loop_unfold upt_conv_Cons)
qed

lemma map_nth_upt: "map (\<lambda>i. f (xs ! i)) [0..<length xs] = map f xs"
  by (rule nth_equalityI) simp_all

lemma emits_chnl:
  assumes "ids \<noteq> []" "length ids < 2 ^ 16" "\<forall>c \<in> set ids. unat c < 1008"
  shows "emits (dsdiff_chunk_write_chnl (of_nat (length ids)) (Ptr (map Some ids)))
    (id_bytes CHNL_FOURCC @ be_enc 8 (unat (2 + ucast (of_nat (length ids) :: u16) * 4 :: u64)) @
     be_enc 2 (unat (of_nat (length ids) :: u16)) @ channels_bytes ids) ()"
proof -
  let ?n = "of_nat (length ids) :: u16"
  have n: "unat ?n = length ids" "?n \<noteq> 0"
    using assms(1,2) by (simp_all add: unat_of_nat_small word_unat_eq_iff)
  have "emits (write_channel (map Some ids) i) (id_bytes (the (channel_code (ids ! i)))) ()" if "i < length ids" for i
  proof -
    have "unat (ids ! i) < 1008" using assms(3) that by simp
    from channel_code_round [OF this] obtain w where "channel_code (ids ! i) = Some w" by auto
    then show ?thesis using that by (simp add: write_channel_def emits_chunk_id)
  qed
  then have "emits (for_loop 0 (unat ?n) (write_channel (map Some ids)))
      (concat (map (\<lambda>i. id_bytes (the (channel_code (ids ! i)))) [0..<unat ?n])) ()"
    by (intro emits_for_loop) (simp add: n)
  also have "concat (map (\<lambda>i. id_bytes (the (channel_code (ids ! i)))) [0..<unat ?n]) = channels_bytes ids"
    by (simp add: channels_bytes_def n map_nth_upt [of "\<lambda>c. id_bytes (the (channel_code c))"])
  finally have loop: "emits (seq (deref (Ptr (map Some ids))) (\<lambda>ids. for_loop 0 (unat ?n) (write_channel ids)))
      (channels_bytes ids) ()"
    by (simp add: emits_def seq_def)
  show ?thesis
    unfolding dsdiff_chunk_write_chnl_def by (simp only: ptr.distinct n(2) if_False, (rule loop writer_steps)+)
qed

lemma takes_read_channels:
  "\<forall>c \<in> set ids. unat c < 1008 \<Longrightarrow> takes (read_channels (length ids)) (channels_bytes ids) ids"
proof (induction ids)
  case Nil
  then show ?case by (simp add: channels_bytes_def takes_Pair)
next
  case (Cons c ids)
  obtain w where w: "channel_code c = Some w" "channel_of_code w = c"
    using channel_code_round [of c] Cons.prems by auto
  have rest: "takes (read_channels (length ids)) (channels_bytes ids) ids"
    using Cons by simp
  have "takes (read_channels (length (c # ids))) (id_bytes w @ channels_bytes ids @ []) (channel_of_code w # ids)"
    unfolding list.size add_0_right add_Suc_right read_channels.simps
    by (rule takes_seq [OF takes_chunk_id] takes_seq [OF rest] takes_ret)+
  then show ?case by (simp add: w channels_bytes_def)
qed

lemma takes_chnl:
  assumes "ids \<noteq> []" "length ids \<le> 1000" "\<forall>c \<in> set ids. unat c < 1008" "sa_malloc hp (length ids * 4)"
  shows "takes_to (dsdiff_chunk_read_chnl hp)
    (be_enc 8 (unat (2 + ucast (of_nat (length ids) :: u16) * 4 :: u64)) @
     be_enc 2 (unat (of_nat (length ids) :: u16)) @ channels_bytes ids)
    (\<lambda>_. (of_nat (length ids), Ptr (map Some ids))) ()"
proof -
  let ?n = "of_nat (length ids) :: u16"
  have n: "unat ?n = length ids" "?n \<noteq> 0" "\<not> ?n > 1000"
    using assms(1,2) by (simp_all add: unat_of_nat_small word_unat_eq_iff word_less_nat_alt)
  have ids: "takes (read_channels (unat ?n)) (channels_bytes ids) ids"
    using takes_read_channels [OF assms(3)] by (simp add: n)
  have ok: "\<not> (?n = 0 \<or> ?n > 1000 \<or> 2 + ucast ?n * 4 \<noteq> 2 + 4 * (ucast ?n :: u64))"
    using n by (simp add: mult.commute)
  show ?thesis
    unfolding dsdiff_chunk_read_chnl_def
    by (rule takes_to_cong, (rule reader_steps ids ok | simp add: n assms(4); fail)+)
qed

section \<open>Padding and texts\<close>

definition pad_if :: "bool \<Rightarrow> byte list" where
  "pad_if b = (if b then [0] else [])"

lemma emits_pad [emits_intros]: "emits (write_pad_if b) (pad_if b) ()"
  by (cases b) (simp_all add: write_pad_if_def pad_if_def emits_intros emits_Pair)

lemma takes_pad [takes_intros]: "takes (read_pad_if b) (pad_if b) ()"
proof -
  have "takes (seq dsdiff_io_read_uint8 (\<lambda>_. ret ())) ([0] @ []) ()"
    by (rule takes_seq takes_integers takes_ret)+
  then show ?thesis
    by (cases b) (simp_all add: read_pad_if_def pad_if_def dsdiff_io_read_pad_byte_def takes_Pair takes_ret)
qed

text \<open>A C string of \<open>n\<close> characters.\<close>

lemma length_cstr: "length (cstr t) \<le> length t"
  by (simp add: cstr_def length_takeWhile_le)

lemma take_cstr [simp]: "take (length (cstr t)) t = cstr t"
  by (metis cstr_def takeWhile_eq_take)

lemma cstr_cstr [simp]: "cstr (cstr t) = cstr t"
  by (simp add: cstr_def)

lemma emits_string:
  assumes "n = length (cstr t)"
  shows "emits (dsdiff_io_write_string n t) (cstr t) ()"
proof (cases "n = 0")
  case True
  then show ?thesis using assms
    by (auto simp: dsdiff_io_write_string_def emits_def dio_put_Some)
next
  case False
  have w: "emits (seq (dsdiff_io_write_bytes (cstr t)) (\<lambda>_. ret ())) (cstr t @ []) ()"
    by (rule emits_seq emits_write_bytes emits_ret)+
  show ?thesis
    using False assms length_cstr [of t] emitsD [OF w]
    by (auto simp: dsdiff_io_write_string_def emits_def dio_put_Some)
qed

lemma takes_text:
  assumes "length bs = unat n" "n \<noteq> - 1" "sa_malloc hp (unat n + 1)"
  shows "takes (read_text hp n) bs bs"
proof -
  have n: "unat (n + 1) = unat n + 1"
    using assms(2) by (metis Suc_eq_plus1 add.commute unatSuc add_eq_0_iff2 minus_equation_iff)
  have "takes (dsdiff_io_read_string (unat n + 1) (unat n)) bs bs"
  proof (rule takesI)
    fix s d p assume s: "dio_is_open s" "dio_can_read s" "bytes_at p (length bs) d = bs"
    have "takes (dsdiff_io_read_bytes (unat n + 1) (unat n)) bs bs"
      by (rule takes_read_bytes) (simp_all add: assms)
    from takesD [OF this s] have
      "dsdiff_io_read_bytes (Suc (unat n)) (unat n) (dio_put s d p) = (Ok bs, dio_put s d (p + length bs))"
      by simp
    moreover have "0 < unat n \<longleftrightarrow> bs \<noteq> []" unfolding assms(1) [symmetric] by simp
    ultimately show "dsdiff_io_read_string (unat n + 1) (unat n) (dio_put s d p) = (Ok bs, dio_put s d (p + length bs))"
      using s by (auto simp: dsdiff_io_read_string_def dio_put_Some)
  qed
  then show ?thesis
    using assms(3) by (simp add: read_text_def n takes_def)
qed

end
