(* ===== verification/Dsdiff_Forward.thy ===== *)
theory Dsdiff_Forward
  imports Dsdiff_File Dsdiff_Codec
begin

text \<open>
  The parsers move forward. A file is calm when none of its eight-byte numbers is so large that it
  leads back into the file when it is used as a signed offset; on a calm file every operation of the
  parsers leaves the contents alone and the position where it is or further on. With that each loop
  of \<open>Dsdiff_Parse\<close> returns, since a round that goes on has read a chunk identifier.
\<close>

section \<open>Calm files\<close>

definition calm :: "byte list \<Rightarrow> bool" where
  "calm d \<longleftrightarrow> (\<forall>p. p + 8 \<le> length d \<longrightarrow> be_dec (bytes_at p 8 d) + length d < 2 ^ 64)"

definition ahead :: "dsdiff_io option \<Rightarrow> dsdiff_io option \<Rightarrow> bool" where
  "ahead s s' \<longleftrightarrow> (\<exists>p \<ge> dio_position s. s' = dio_put s (dio_contents s) p)"

text \<open>The state of an operation has the stream at \<open>g\<close>.\<close>

definition ready :: "dsdiff_io option \<Rightarrow> bool" where
  "ready s \<longleftrightarrow> dio_is_open s \<and> calm (dio_contents s)"

definition forward :: "('s \<Rightarrow> dsdiff_io option) \<Rightarrow> ('s, 'e, 'a) op \<Rightarrow> bool" where
  "forward g m \<longleftrightarrow> (\<forall>s. ready (g s) \<longrightarrow> ahead (g s) (g (snd (m s))))"

definition lforward :: "('s \<Rightarrow> dsdiff_io option) \<Rightarrow> ('s, 'e, 'a) lop \<Rightarrow> bool" where
  "lforward g m \<longleftrightarrow> (\<forall>s. ready (g s) \<longrightarrow> (\<exists>r s'. m s = Some (r, s') \<and> ahead (g s) (g s')))"

named_theorems forward_intros \<open>operations that move forward\<close>

lemma ahead_refl: "dio_is_open s \<Longrightarrow> ahead s s"
  by (auto simp: ahead_def dsdiff_stream.at_id intro!: exI [of _ "dio_position s"])

lemma ahead_contents: "ahead s s' \<Longrightarrow> dio_is_open s \<Longrightarrow> dio_contents s' = dio_contents s"
  by (auto simp: ahead_def dsdiff_stream.at_contents)

lemma ahead_position: "ahead s s' \<Longrightarrow> dio_is_open s \<Longrightarrow> dio_position s \<le> dio_position s'"
  by (auto simp: ahead_def dsdiff_stream.at_position)

lemma ahead_open: "ahead s s' \<Longrightarrow> dio_is_open s' = dio_is_open s"
  by (auto simp: ahead_def dsdiff_stream.at_open)

lemma ahead_trans:
  assumes "ahead s s'" "ahead s' s''" "dio_is_open s"
  shows "ahead s s''"
proof -
  obtain p where p: "dio_position s \<le> p" "s' = dio_put s (dio_contents s) p" using assms(1) by (auto simp: ahead_def)
  obtain q where "p \<le> q" "s'' = dio_put s (dio_contents s) q"
    using assms(2,3) p by (auto simp: ahead_def dsdiff_stream.at_at dsdiff_stream.at_contents dsdiff_stream.at_position)
  then show ?thesis using p unfolding ahead_def by (intro exI [of _ q]) simp
qed

lemma ahead_ready: "ahead s s' \<Longrightarrow> ready s \<Longrightarrow> ready s'"
  by (simp add: ready_def ahead_open ahead_contents)

lemma ready_open: "ready s \<Longrightarrow> dio_is_open s"
  by (simp add: ready_def)

lemma forwardD: "forward g m \<Longrightarrow> ready (g s) \<Longrightarrow> m s = (r, s') \<Longrightarrow> ahead (g s) (g s')"
  by (metis forward_def snd_conv)

section \<open>The combinators\<close>

lemma forward_same: "(\<And>s. g (snd (m s)) = g s) \<Longrightarrow> forward g m"
  by (simp add: forward_def ahead_refl ready_open)

lemma forward_basic [forward_intros]:
  "forward g (ret a)" "forward g (fail e)" "forward g fault" "forward g (ensure b e)" "forward g get"
  by (rule forward_same; simp)+

lemma forward_modify [forward_intros]: "(\<And>s. g (f s) = g s) \<Longrightarrow> forward g (modify f)"
  by (rule forward_same) simp

lemma forward_seq [forward_intros]:
  assumes "forward g m" "\<And>a. forward g (k a)"
  shows "forward g (seq m k)"
  unfolding forward_def
proof (intro allI impI)
  fix s assume s: "ready (g s)"
  obtain r s' where m: "m s = (r, s')" by fastforce
  have 1: "ahead (g s) (g s')" using assms(1) s m by (rule forwardD)
  have "ahead (g s') (g (snd (k a s')))" for a
    using assms(2) ahead_ready [OF 1 s] by (simp add: forward_def)
  then show "ahead (g s) (g (snd (seq m k s)))"
    using 1 ahead_trans [OF 1 _ ready_open [OF s]] by (cases r) (simp_all add: m)
qed

lemma forward_if [forward_intros]:
  "(b \<Longrightarrow> forward g m) \<Longrightarrow> (\<not> b \<Longrightarrow> forward g n) \<Longrightarrow> forward g (if b then m else n)"
  by simp

lemma forward_prod [forward_intros]: "(\<And>x y. forward g (f x y)) \<Longrightarrow> forward g (case p of (x, y) \<Rightarrow> f x y)"
  by (cases p) simp

lemma forward_option [forward_intros]:
  "forward g m \<Longrightarrow> (\<And>x. forward g (f x)) \<Longrightarrow> forward g (case p of None \<Rightarrow> m | Some x \<Rightarrow> f x)"
  by (cases p) simp_all

lemma forward_on_err [forward_intros]:
  assumes "forward g m" "forward g c"
  shows "forward g (on_err m c)"
  unfolding forward_def
proof (intro allI impI)
  fix s assume s: "ready (g s)"
  obtain r s' where m: "m s = (r, s')" by fastforce
  obtain q s'' where c: "c s' = (q, s'')" by fastforce
  have 1: "ahead (g s) (g s')" using assms(1) s m by (rule forwardD)
  have 2: "ahead (g s') (g s'')" using assms(2) ahead_ready [OF 1 s] c by (rule forwardD)
  show "ahead (g s) (g (snd (on_err m c s)))"
    using 1 ahead_trans [OF 1 2 ready_open [OF s]]
    by (simp add: on_err_def m c split: outcome.split)
qed

lemma forward_ignore [forward_intros]: "forward g m \<Longrightarrow> forward g (ignore m)"
  by (auto simp: forward_def ignore_def split: prod.splits outcome.splits)

lemma forward_on_fst [forward_intros]: "forward (\<lambda>s. s) m \<Longrightarrow> forward fst (on_fst m)"
  by (auto simp: forward_def on_fst_def zoom_def split: prod.splits)

lemma forward_on_snd [forward_intros]: "forward fst (on_snd m)"
  by (rule forward_same) (simp add: on_snd_def zoom_def split: prod.split)

lemma forward_put_out [forward_intros]: "forward fst (put_out f)"
  unfolding put_out_def by (rule forward_on_snd)

lemma forward_read_to [forward_intros]: "forward (\<lambda>s. s) m \<Longrightarrow> forward fst (read_to m upd)"
  unfolding read_to_def by (intro forward_intros)

lemma forward_on_dchunk [forward_intros]: "forward (\<lambda>s. s) m \<Longrightarrow> forward (\<lambda>s. s) (on_dchunk m)"
  by (auto simp: forward_def on_dchunk_def ready_def dio_is_open_def)

lemma forward_on_dout [forward_intros]: "forward fst m \<Longrightarrow> forward fst (on_dout m)"
  by (auto simp: forward_def on_dout_def ready_def dio_is_open_def)

section \<open>Reading\<close>

lemma ahead_Ptr:
  "s = Some io \<Longrightarrow> dio_file io = Ptr f \<Longrightarrow> fpos f \<le> q \<Longrightarrow> ahead s (Some (io\<lparr>dio_file := Ptr (f\<lparr>fpos := q\<rparr>)\<rparr>))"
  unfolding ahead_def by (intro exI [of _ q]) (simp add: dio_view_defs)

lemma ahead_stay: "s = Some io \<Longrightarrow> dio_file io = Ptr f \<Longrightarrow> ahead s (Some (io\<lparr>dio_file := Ptr f\<rparr>))"
  using ahead_Ptr [of s io f "fpos f"] by simp

lemma forward_stream:
  assumes "\<And>f. \<exists>q \<ge> fpos f. snd (m f) = f\<lparr>fpos := q\<rparr>"
  shows "forward (\<lambda>s. s) (on_stream m)"
  unfolding forward_def
proof (intro allI impI)
  fix s assume "ready s"
  then obtain io f where s: "s = Some io" "dio_file io = Ptr f" by (auto simp: ready_def dio_is_open_def)
  obtain q where q: "fpos f \<le> q" "snd (m f) = f\<lparr>fpos := q\<rparr>" using assms by blast
  then have "snd (on_stream m s) = Some (io\<lparr>dio_file := Ptr (f\<lparr>fpos := q\<rparr>)\<rparr>)"
    using s by (cases "m f") (simp add: on_stream_Some)
  then show "ahead s (snd (on_stream m s))" using ahead_Ptr [OF s q(1)] by simp
qed

lemma fread_pos: "\<exists>q \<ge> fpos f. snd (fread n f) = f\<lparr>fpos := q\<rparr>"
proof (cases "freadable f")
  case True
  then show ?thesis by (intro exI [of _ "fpos f + min (length (fdata f) - fpos f) n"]) (simp add: fread_def Let_def)
next
  case False
  then show ?thesis by (intro exI [of _ "fpos f"]) (simp add: fread_def)
qed

lemma forward_fread [forward_intros]: "forward (\<lambda>s. s) (dio_fread n)"
  unfolding dio_fread_def
proof (rule forward_stream)
  fix f show "\<exists>q \<ge> fpos f. snd (case fread n f of (bs, f') \<Rightarrow> (Ok bs, f')) = f\<lparr>fpos := q\<rparr>"
    using fread_pos [of f n] by (cases "fread n f") simp
qed

lemma forward_read_be [forward_intros]: "forward (\<lambda>s. s) (dio_read_be n)"
  unfolding dio_read_be_def
proof (rule forward_stream)
  fix f
  show "\<exists>q \<ge> fpos f. snd (case fread n f of (bs, f') \<Rightarrow>
      if length bs \<noteq> n then (Err DSDIFF_ERROR_READ_FAILED, f') else (Ok (be_dec bs), f')) = f\<lparr>fpos := q\<rparr>"
    using fread_pos [of f n] by (cases "fread n f") simp
qed

lemma forward_get_position [forward_intros]: "forward (\<lambda>s. s) dsdiff_io_get_position"
  unfolding dsdiff_io_get_position_def by (rule forward_stream) (auto intro: exI [of _ "fpos _"])

lemma forward_get_file_size [forward_intros]: "forward (\<lambda>s. s) dsdiff_io_get_file_size"
  unfolding dsdiff_io_get_file_size_def by (rule forward_stream) (auto intro: exI [of _ "fpos _"])

lemma forward_read_bytes [forward_intros]: "forward (\<lambda>s. s) (dsdiff_io_read_bytes b n)"
  unfolding dsdiff_io_read_bytes_def by (intro forward_intros)

lemma forward_integers [forward_intros]:
  "forward (\<lambda>s. s) dsdiff_io_read_uint8" "forward (\<lambda>s. s) dsdiff_io_read_uint16_be"
  "forward (\<lambda>s. s) dsdiff_io_read_uint32_be" "forward (\<lambda>s. s) dsdiff_io_read_int32_be"
  "forward (\<lambda>s. s) dsdiff_io_read_uint64_be" "forward (\<lambda>s. s) dsdiff_io_read_chunk_id"
  "forward (\<lambda>s. s) dsdiff_io_read_pad_byte"
  unfolding dsdiff_io_read_uint8_def dsdiff_io_read_uint16_be_def dsdiff_io_read_uint32_be_def
    dsdiff_io_read_int32_be_def dsdiff_io_read_uint64_be_def dsdiff_io_read_chunk_id_def dsdiff_io_read_pad_byte_def
  by (intro forward_intros)+

lemma forward_read_pad_if [forward_intros]: "forward (\<lambda>s. s) (read_pad_if b)"
  unfolding read_pad_if_def by (intro forward_intros)

lemma forward_read_pstring [forward_intros]: "forward (\<lambda>s. s) (dsdiff_io_read_pstring l b)"
  unfolding dsdiff_io_read_pstring_def Let_def by (intro forward_intros)

lemma forward_read_string [forward_intros]: "forward (\<lambda>s. s) (dsdiff_io_read_string b n)"
proof -
  have "forward (\<lambda>s. s) (seq (if n > 0 then dsdiff_io_read_bytes b n else ret []) (\<lambda>bs. if n < b then ret bs else fault))"
    by (intro forward_intros)
  then show ?thesis
    by (auto simp: forward_def dsdiff_io_read_string_def ready_def dio_is_open_def)
qed

lemma forward_read_text [forward_intros]: "forward (\<lambda>s. s) (read_text hp n)"
  unfolding read_text_def by (intro forward_intros)

section \<open>Skipping\<close>

text \<open>A number that was read from a calm file.\<close>

definition sized :: "dsdiff_io option \<Rightarrow> u64 \<Rightarrow> bool" where
  "sized s v \<longleftrightarrow> unat v + length (dio_contents s) < 2 ^ 64 \<and> dio_position s \<le> length (dio_contents s)"

lemma read_uint64_sized:
  assumes "ready s" "dsdiff_io_read_uint64_be s = (Ok v, s')"
  shows "sized s' v"
proof -
  obtain io f where s: "s = Some io" "dio_file io = Ptr f" using assms(1) by (auto simp: ready_def dio_is_open_def)
  define bs where "bs = take 8 (drop (fpos f) (fdata f))"
  have r: "dio_read_be 8 s = (if freadable f \<and> length bs = 8
      then (Ok (be_dec bs), Some (io\<lparr>dio_file := Ptr (f\<lparr>fpos := fpos f + 8\<rparr>)\<rparr>))
      else (Err DSDIFF_ERROR_READ_FAILED, snd (dio_read_be 8 s)))"
    using s by (auto simp: dio_read_be_def on_stream_Some fread_def bs_def)
  have ok: "length bs = 8" "v = of_nat (be_dec bs)" "s' = Some (io\<lparr>dio_file := Ptr (f\<lparr>fpos := fpos f + 8\<rparr>)\<rparr>)"
    using assms(2) r unfolding dsdiff_io_read_uint64_be_def seq_Ok_iff by (auto split: if_splits)
  have len: "fpos f + 8 \<le> length (fdata f)" using ok(1) by (auto simp: bs_def)
  then have "be_dec bs + length (fdata f) < 2 ^ 64"
    using assms(1) s by (auto simp: ready_def calm_def dio_view_defs bs_def bytes_at_def)
  then show ?thesis using ok len by (simp add: sized_def dio_view_defs unat_of_nat_small)
qed

lemma seek_ahead:
  assumes "ready s" "sized s v"
  shows "ahead s (snd (dsdiff_io_seek (sint v) SEEK_CUR w s))"
proof -
  obtain io f where s: "s = Some io" "dio_file io = Ptr f" using assms(1) by (auto simp: ready_def dio_is_open_def)
  have b: "unat v + length (fdata f) < 18446744073709551616" "fpos f \<le> length (fdata f)"
    using assms(2) s by (simp_all add: sized_def dio_view_defs)
  have "sint v \<ge> 0 \<or> int (fpos f) + sint v < 0"
  proof (cases "unat v < 2 ^ 63")
    case True
    then show ?thesis by (simp add: sint_uint signed_take_bit_int_eq_self uint_nat del: of_nat_unat)
  next
    case False
    have "sint v = int (unat v) - 2 ^ 64"
    proof -
      have "unat v < 2 ^ 64" using unat_bound [of v] by simp
      then have "int (unat v) + 2 ^ 63 = (int (unat v) - 2 ^ 63) + 2 ^ 64" "0 \<le> int (unat v) - 2 ^ 63"
        "int (unat v) - 2 ^ 63 < 2 ^ 64" using False by (simp_all add: linorder_not_less del: of_nat_unat)
      then have "(int (unat v) + 2 ^ 63) mod 2 ^ 64 = int (unat v) - 2 ^ 63"
        by (simp only: mod_add_self2 mod_pos_pos_trivial)
      then show ?thesis
        by (simp add: sint_uint signed_take_bit_eq_take_bit_shift take_bit_eq_mod)
    qed
    moreover have "(2 :: int) ^ 64 = 18446744073709551616" by simp
    ultimately have "int (fpos f) + sint v < 0" using b by linarith
    then show ?thesis ..
  qed
  then consider "dsdiff_io_seek (sint v) SEEK_CUR w s = (Err DSDIFF_ERROR_SEEK_FAILED, Some (io\<lparr>dio_file := Ptr f\<rparr>))"
    | r where "sint v \<ge> 0" "dsdiff_io_seek (sint v) SEEK_CUR w s =
        (r, Some (io\<lparr>dio_file := Ptr (f\<lparr>fpos := nat (int (fpos f) + sint v)\<rparr>)\<rparr>))"
    using s by (fastforce simp: dsdiff_io_seek_def on_stream_Some fseek_def Let_def split: if_splits)
  then show ?thesis
  proof cases
    case 1
    then show ?thesis using ahead_stay [OF s] by simp
  next
    case (2 r)
    then show ?thesis using ahead_Ptr [OF s, of "nat (int (fpos f) + sint v)"] by simp
  qed
qed

lemma seq_ahead:
  assumes m: "forward g m" and k: "\<And>s a s'. ready (g s) \<Longrightarrow> m s = (Ok a, s') \<Longrightarrow> ready (g s') \<Longrightarrow> ahead (g s') (g (snd (k a s')))"
  shows "forward g (seq m k)"
  unfolding forward_def
proof (intro allI impI)
  fix s assume s: "ready (g s)"
  obtain r s' where ms: "m s = (r, s')" by fastforce
  have 1: "ahead (g s) (g s')" using m s ms by (rule forwardD)
  note r = ahead_ready [OF 1 s]
  show "ahead (g s) (g (snd (seq m k s)))"
  proof (cases r)
    case (Ok a)
    then have "ahead (g s') (g (snd (k a s')))" using k [OF s] ms r by simp
    from ahead_trans [OF 1 this ready_open [OF s]] show ?thesis using ms Ok by simp
  qed (use 1 ms in simp_all)
qed

lemma forward_chunk_skip [forward_intros]: "forward (\<lambda>s. s) dsdiff_chunk_skip"
proof -
  have "forward (\<lambda>s. s) (seq dsdiff_io_read_uint64_be (\<lambda>chunk_size.
     seq (dsdiff_io_seek (sint chunk_size) SEEK_CUR False) (\<lambda>_.
     if chunk_size mod 2 \<noteq> 0 then dsdiff_io_read_pad_byte else ret ())))"
  proof (rule seq_ahead)
    fix s v s' assume s: "ready s" "dsdiff_io_read_uint64_be s = (Ok v, s')" "ready s'"
    let ?k = "\<lambda>_. if v mod 2 \<noteq> 0 then dsdiff_io_read_pad_byte else ret ()"
    obtain r t where seek: "dsdiff_io_seek (sint v) SEEK_CUR False s' = (r, t)" by fastforce
    have 1: "ahead s' t" using seek_ahead [OF s(3) read_uint64_sized [OF s(1,2)], of False] seek by simp
    have k: "forward (\<lambda>s. s) (?k ())" by (intro forward_intros)
    have "ahead t (snd (?k () t))"
      using k ahead_ready [OF 1 s(3)] unfolding forward_def by blast
    then show "ahead s' (snd (seq (dsdiff_io_seek (sint v) SEEK_CUR False) ?k s'))"
      using 1 ahead_trans [OF 1 _ ready_open [OF s(3)]] seek by (cases r) simp_all
  qed (rule forward_intros)
  then show ?thesis unfolding dsdiff_chunk_skip_def by (rule forward_on_dchunk)
qed

text \<open>After the header of a data chunk the size is still the number that was read.\<close>

lemma read_data_header_sized:
  assumes "ready s" "read_data_header (s, out) = (Ok u, (s', (n, q)))"
  shows "sized s' n"
proof -
  have s: "s \<noteq> None" using assms(1) by (auto simp: ready_def dio_is_open_def)
  obtain v t where v: "dsdiff_io_read_uint64_be s = (Ok v, t)" and n: "n = v"
    and p: "dsdiff_io_get_position t = (Ok (fst q), s')"
    using assms(2) s
    by (auto simp: read_data_header_def on_dout_def read_to_def put_out_def on_fst_def on_snd_def zoom_def seq_def
        split: prod.splits outcome.splits)
  have t: "ready t" using forwardD [OF forward_integers(5) assms(1) v] assms(1) by (rule ahead_ready)
  then have "s' = t"
    using p by (auto simp: ready_def dio_is_open_def dsdiff_io_get_position_def on_stream_Some split: if_splits)
  then show ?thesis using read_uint64_sized [OF assms(1) v] n by simp
qed

lemma forward_data_header [forward_intros]: "forward fst read_data_header"
  unfolding read_data_header_def by (intro forward_intros)

lemma forward_skip_data [forward_intros]: "forward fst read_and_skip_data"
  unfolding read_and_skip_data_def
proof (rule seq_ahead [OF forward_data_header])
  fix s u s' assume s: "ready (fst s)" "read_data_header s = (Ok u, s')" "ready (fst s')"
  obtain t n q where s': "s' = (t, n, q)" by (metis prod.exhaust)
  have sz: "sized t n" using read_data_header_sized [of "fst s" "snd s" u t n q] s s' by simp
  let ?seek = "read_to (dsdiff_io_seek (sint n) SEEK_CUR True) (\<lambda>v (n, p, e). (n, p, the v))"
  let ?k = "\<lambda>_. if n mod 2 \<noteq> 0 then on_fst dsdiff_io_read_pad_byte else ret ()"
  obtain r s'' where seek: "?seek s' = (r, s'')" by (cases "?seek s'")
  have 1: "ahead t (fst s'')"
    using seek seek_ahead [OF _ sz, of True] s(3) s'
    by (auto simp: read_to_def seq_def on_fst_def on_snd_def put_out_def zoom_def split: prod.splits outcome.splits)
  have k: "forward fst (?k ())" by (intro forward_intros)
  have "ready (fst s'')" using ahead_ready [OF 1] s(3) s' by simp
  then have "ahead (fst s'') (fst (snd (?k () s'')))"
    using k unfolding forward_def by blast
  then have "ahead t (fst (snd (seq ?seek ?k s')))"
    using 1 ahead_trans [OF 1 _ ready_open] s(3) s' seek by (cases r) simp_all
  then show "ahead (fst s') (fst (snd (seq get (\<lambda>(_, chunk_size, _, _).
     seq (read_to (dsdiff_io_seek (sint chunk_size) SEEK_CUR True) (\<lambda>v (n, p, e). (n, p, the v))) (\<lambda>_.
     if chunk_size mod 2 \<noteq> 0 then on_fst dsdiff_io_read_pad_byte else ret ())) s')))"
    using s' by (cases q) simp
qed

section \<open>Chunks\<close>

lemma forward_read_header [forward_intros]: "forward fst dsdiff_chunk_read_header"
  unfolding dsdiff_chunk_read_header_def by (intro forward_intros)

lemma forward_frm8_header [forward_intros]: "forward fst dsdiff_chunk_read_frm8_header"
proof -
  have header: "forward (\<lambda>s. s) (\<lambda>s. case dsdiff_chunk_read_header (s, DSDIFF_CHUNK_UNKNOWN) of
      (r, (s', ct)) \<Rightarrow> (case r of Ok _ \<Rightarrow> (Ok ct, s') | Err e \<Rightarrow> (Err e, s') | Fault \<Rightarrow> (Fault, s')))"
    unfolding forward_def
  proof (intro allI impI)
    fix s assume s: "ready s"
    obtain r s' ct where m: "dsdiff_chunk_read_header (s, DSDIFF_CHUNK_UNKNOWN) = (r, (s', ct))" by (metis prod.exhaust)
    show "ahead s (snd (case dsdiff_chunk_read_header (s, DSDIFF_CHUNK_UNKNOWN) of
      (r, (s', ct)) \<Rightarrow> (case r of Ok _ \<Rightarrow> (Ok ct, s') | Err e \<Rightarrow> (Err e, s') | Fault \<Rightarrow> (Fault, s'))))"
      using forwardD [OF forward_read_header _ m] s m by (cases r) simp_all
  qed
  show ?thesis
    unfolding dsdiff_chunk_read_frm8_header_def by (rule header | intro forward_intros)+
qed

lemma forward_chunks [forward_intros]:
  "forward fst dsdiff_chunk_read_fver" "forward fst dsdiff_chunk_read_prop_header"
  "forward fst dsdiff_chunk_read_fs" "forward fst (dsdiff_chunk_read_cmpr l n)"
  "forward fst dsdiff_chunk_read_abss" "forward fst dsdiff_chunk_read_lsco"
  "forward fst dsdiff_chunk_read_frte" "forward (\<lambda>s. s) dsdiff_chunk_get_dstc_size"
  unfolding dsdiff_chunk_read_fver_def dsdiff_chunk_read_prop_header_def dsdiff_chunk_read_fs_def
    dsdiff_chunk_read_cmpr_def dsdiff_chunk_read_abss_def dsdiff_chunk_read_lsco_def dsdiff_chunk_read_frte_def
    dsdiff_chunk_get_dstc_size_def
  by (intro forward_intros)+

lemma forward_read_channels [forward_intros]: "forward (\<lambda>s. s) (read_channels n)"
  by (induction n) (simp_all only: read_channels.simps, (intro forward_intros)+)

lemma forward_chnl [forward_intros]: "forward fst (dsdiff_chunk_read_chnl hp)"
  unfolding dsdiff_chunk_read_chnl_def by (intro forward_intros)

lemma forward_data_headers [forward_intros]:
  "forward fst dsdiff_chunk_read_snd_header" "forward fst dsdiff_chunk_read_dst_header"
  "forward fst dsdiff_chunk_read_dsti_header" "forward fst dsdiff_chunk_read_diin_header"
  unfolding dsdiff_chunk_read_snd_header_def dsdiff_chunk_read_dst_header_def
    dsdiff_chunk_read_dsti_header_def dsdiff_chunk_read_diin_header_def
  by (intro forward_intros)+

lemma forward_comment [forward_intros]: "forward (\<lambda>s. s) (read_comment hp)"
  unfolding read_comment_def by (intro forward_intros)

lemma forward_comments [forward_intros]: "forward (\<lambda>s. s) (read_comments hp n)"
  by (induction n) (simp_all only: read_comments.simps, (intro forward_intros)+)

lemma forward_tags [forward_intros]:
  "forward fst (dsdiff_chunk_read_comt hp)" "forward fst (dsdiff_chunk_read_emid hp)"
  "forward fst (dsdiff_chunk_read_diar hp)" "forward fst (dsdiff_chunk_read_diti hp)"
  "forward fst (dsdiff_chunk_read_mark hp)" "forward fst (dsdiff_chunk_read_id3 hp)"
  "forward fst (dsdiff_chunk_read_manf hp)"
  unfolding dsdiff_chunk_read_comt_def dsdiff_chunk_read_emid_def dsdiff_chunk_read_diar_def
    dsdiff_chunk_read_diti_def read_counted_text_def dsdiff_chunk_read_mark_def dsdiff_chunk_read_id3_def
    dsdiff_chunk_read_manf_def Let_def
  by (intro forward_intros)+

section \<open>The handle\<close>

lemma forward_on_dio [forward_intros]: "forward (\<lambda>s. s) m \<Longrightarrow> forward hd_io (on_dio m)"
  by (auto simp: forward_def on_dio_def zoom_def split: prod.splits)

lemma forward_on_local [forward_intros]:
  assumes "forward fst m" shows "forward hd_io (on_local v m)"
  unfolding forward_def
proof (intro allI impI)
  fix h :: dsdiff assume s: "ready (hd_io h)"
  obtain r io out where m: "m (hd_io h, v) = (r, (io, out))" by (metis prod.exhaust)
  show "ahead (hd_io h) (hd_io (snd (on_local v m h)))"
    using forwardD [OF assms _ m] s by (cases r) (simp_all add: on_local_def m)
qed

lemma forward_on_member [forward_intros]:
  assumes "forward fst m" "\<And>out h :: dsdiff. hd_io (p out h) = hd_io h"
  shows "forward hd_io (on_member g p m)"
  unfolding forward_def
proof (intro allI impI)
  fix h :: dsdiff assume s: "ready (hd_io h)"
  obtain r io out where m: "m (hd_io h, g h) = (r, (io, out))" by (metis prod.exhaust)
  show "ahead (hd_io h) (hd_io (snd (on_member g p m h)))"
    using forwardD [OF assms(1) _ m] s by (simp add: on_member_def zoom_def m assms(2))
qed

lemma forward_peek [forward_intros]: "forward hd_io peek_header"
  unfolding peek_header_def
proof (rule forward_on_dio, unfold forward_def, intro allI impI)
  fix s assume s: "ready s"
  obtain r s' ct where m: "dsdiff_chunk_read_header (s, DSDIFF_CHUNK_UNKNOWN) = (r, (s', ct))" by (metis prod.exhaust)
  show "ahead s (snd (case dsdiff_chunk_read_header (s, DSDIFF_CHUNK_UNKNOWN) of
       (Ok _, (s', ct)) \<Rightarrow> (Ok (True, ct), s')
     | (Err _, (s', ct)) \<Rightarrow> (Ok (False, ct), s')
     | (Fault, (s', ct)) \<Rightarrow> (Fault, s')))"
    using forwardD [OF forward_read_header _ m] s m by (cases r) simp_all
qed

end
