(* ===== verification/Dsdiff_Terminates.thy ===== *)
theory Dsdiff_Terminates
  imports Dsdiff_Forward
begin

text \<open>
  The parsers of \<open>Dsdiff_Parse\<close> and the opening of a file return on every calm file.
\<close>

section \<open>Loops\<close>

lemma lforwardD: "lforward g m \<Longrightarrow> ready (g s) \<Longrightarrow> \<exists>r s'. m s = Some (r, s') \<and> ahead (g s) (g s')"
  by (simp add: lforward_def)

lemma lforward_lift [forward_intros]: "forward g m \<Longrightarrow> lforward g (lift m)"
  by (auto simp: lforward_def forward_def) (metis prod.collapse)

lemma lforward_lseq [forward_intros]:
  assumes "lforward g m" "\<And>a. lforward g (k a)"
  shows "lforward g (lseq m k)"
  unfolding lforward_def
proof (intro allI impI)
  fix s assume s: "ready (g s)"
  obtain r s' where m: "m s = Some (r, s')" and 1: "ahead (g s) (g s')" using lforwardD [OF assms(1) s] by blast
  show "\<exists>r t. lseq m k s = Some (r, t) \<and> ahead (g s) (g t)"
  proof (cases r)
    case (Ok a)
    obtain q t where k: "k a s' = Some (q, t)" and 2: "ahead (g s') (g t)"
      using lforwardD [OF assms(2) ahead_ready [OF 1 s]] by blast
    show ?thesis using m k Ok ahead_trans [OF 1 2 ready_open [OF s]] by (simp add: lseq_def)
  qed (use m 1 in \<open>simp_all add: lseq_def\<close>)
qed

lemma lforward_if [forward_intros]:
  "(b \<Longrightarrow> lforward g m) \<Longrightarrow> (\<not> b \<Longrightarrow> lforward g n) \<Longrightarrow> lforward g (if b then m else n)"
  by simp

lemma lforward_prod [forward_intros]: "(\<And>x y. lforward g (f x y)) \<Longrightarrow> lforward g (case p of (x, y) \<Rightarrow> f x y)"
  by (cases p) simp

lemma lforward_state: "(\<And>x. lforward g (f x)) \<Longrightarrow> lforward g (\<lambda>s. f s s)"
  by (simp add: lforward_def)

lemma lforward_attempt [forward_intros]: "lforward g m \<Longrightarrow> lforward g (lattempt m)"
  by (fastforce simp: lforward_def lattempt_def)

lemma lforward_zoom [forward_intros]:
  "lforward g m \<Longrightarrow> lforward (\<lambda>s. g (fst s)) (lzoom fst (\<lambda>h (_, c). (h, c)) m)"
  by (fastforce simp: lforward_def lzoom_def)

lemma lforward_local [forward_intros]: "lforward (\<lambda>s. g (fst s)) m \<Longrightarrow> lforward g (lop_local v m)"
  by (fastforce simp: lforward_def lop_local_def)

lemma forward_fst [forward_intros]: "forward g m \<Longrightarrow> forward (\<lambda>s. g (fst s)) (on_fst m)"
  by (auto simp: forward_def on_fst_def zoom_def split: prod.splits)

lemma forward_snd [forward_intros]: "forward (\<lambda>s. g (fst s)) (on_snd m)"
  by (rule forward_same) (simp add: on_snd_def zoom_def split: prod.split)

text \<open>A round that goes on reads something.\<close>

definition advances :: "dsdiff_io option \<Rightarrow> dsdiff_io option \<Rightarrow> bool" where
  "advances s s' \<longleftrightarrow> dio_position s < length (dio_contents s) \<and> dio_position s < dio_position s'"

lemma ahead_advances: "ahead s s' \<Longrightarrow> advances s' s'' \<Longrightarrow> dio_is_open s \<Longrightarrow> advances s s''"
  using ahead_position [of s s'] ahead_contents [of s s'] by (simp add: advances_def)

lemma advances_ahead: "advances s s' \<Longrightarrow> ahead s' s'' \<Longrightarrow> dio_is_open s' \<Longrightarrow> advances s s''"
  using ahead_position [of s' s''] by (simp add: advances_def)

lemma lforward_repeat:
  assumes body: "lforward g body"
    and adv: "\<And>s s'. ready (g s) \<Longrightarrow> body s = Some (Ok None, s') \<Longrightarrow> advances (g s) (g s')"
  shows "lforward g (repeat_lop body)"
  unfolding lforward_def
proof (intro allI impI)
  fix s assume "ready (g s)"
  then show "\<exists>r s'. repeat_lop body s = Some (r, s') \<and> ahead (g s) (g s')"
  proof (induction "length (dio_contents (g s)) - dio_position (g s)" arbitrary: s rule: less_induct)
    case less
    note s = less.prems
    obtain r s' where b: "body s = Some (r, s')" and 1: "ahead (g s) (g s')" using lforwardD [OF body s] by blast
    show ?case
    proof (cases "r = Ok None")
      case True
      have "advances (g s) (g s')" using adv [OF s] b True by simp
      then have "length (dio_contents (g s')) - dio_position (g s') < length (dio_contents (g s)) - dio_position (g s)"
        using ahead_contents [OF 1 ready_open [OF s]] by (auto simp: advances_def)
      from less.hyps [OF this ahead_ready [OF 1 s]] obtain q t where
        t: "repeat_lop body s' = Some (q, t)" and 2: "ahead (g s') (g t)" by blast
      show ?thesis
        using t b True ahead_trans [OF 1 2 ready_open [OF s]] by (simp add: repeat_unfold [of body s])
    next
      case False
      then show ?thesis using b 1 by (auto simp: repeat_unfold [of body s] split: outcome.splits option.splits)
    qed
  qed
qed

section \<open>Chunk identifiers\<close>

lemma read_bytes_advances:
  assumes "ready s" "dsdiff_io_read_bytes b n s = (Ok bs, s')" "0 < n"
  shows "advances s s'"
proof -
  obtain io f where s: "s = Some io" "dio_file io = Ptr f" using assms(1) by (auto simp: ready_def dio_is_open_def)
  then show ?thesis using assms(2,3)
    by (auto simp: dsdiff_io_read_bytes_def dio_fread_def on_stream_Some fread_def Let_def seq_def advances_def
        dio_view_defs split: if_splits)
qed

lemma peek_advances:
  assumes "ready (hd_io h)" "peek_header h = (Ok (True, ct), h')"
  shows "advances (hd_io h) (hd_io h')"
proof -
  have s: "hd_io h \<noteq> None" using assms(1) by (auto simp: ready_def dio_is_open_def)
  obtain x where "dsdiff_chunk_read_header (hd_io h, DSDIFF_CHUNK_UNKNOWN) = (Ok (), (hd_io h', x))"
    using assms(2) by (auto simp: peek_header_def on_dio_def zoom_def split: prod.splits outcome.splits)
  then obtain c where "dsdiff_io_read_chunk_id (hd_io h) = (Ok c, hd_io h')"
    using s by (auto simp: dsdiff_chunk_read_header_def on_dout_def read_to_def put_out_def on_fst_def on_snd_def
        zoom_def seq_def split: prod.splits outcome.splits)
  then obtain bs where "dsdiff_io_read_bytes 4 4 (hd_io h) = (Ok bs, hd_io h')"
    unfolding dsdiff_io_read_chunk_id_def seq_Ok_iff by auto
  from read_bytes_advances [OF assms(1) this] show ?thesis by simp
qed

text \<open>The shape of the three loops: a position, an identifier, a chunk.\<close>

lemma round_advances:
  assumes s: "ready (hd_io h)" and m: "forward hd_io m" "m h = (Ok a, h1)"
    and p: "peek_header h1 = (Ok (True, ct), h2)" and k: "ahead (hd_io h2) s'"
  shows "advances (hd_io h) s'"
proof -
  have 1: "ahead (hd_io h) (hd_io h1)" using m(1) s m(2) by (rule forwardD)
  note r = ahead_ready [OF 1 s]
  have 2: "advances (hd_io h1) (hd_io h2)" using r p by (rule peek_advances)
  have "ready (hd_io h2)" using forwardD [OF forward_peek r p] r by (rule ahead_ready)
  then have "advances (hd_io h1) s'" using 2 k ready_open by (blast intro: advances_ahead)
  then show ?thesis using ahead_advances [OF 1 _ ready_open [OF s]] by blast
qed

section \<open>Disc information\<close>

lemma forward_zoom_other [forward_intros]: "(\<And>x h. g (p x h) = g h) \<Longrightarrow> forward g (zoom q p m)"
  by (rule forward_same) (simp add: zoom_def split: prod.split)

lemma forward_remember [forward_intros]:
  "(\<And>p (h :: dsdiff). hd_io (f p h) = hd_io h) \<Longrightarrow> forward hd_io (remember_pos f)"
  unfolding remember_pos_def by (intro forward_intros) simp

lemma forward_parse_mark [forward_intros]: "forward hd_io (parse_mark hp)"
  unfolding parse_mark_def by (intro forward_intros) simp_all

lemma forward_diin_chunk [forward_intros]: "forward hd_io (parse_diin_chunk hp c)"
  unfolding parse_diin_chunk_def by (intro forward_intros) simp_all

lemma forward_diin_round [forward_intros]: "forward hd_io (diin_round hp e)"
  unfolding diin_round_def by (intro forward_intros)

lemma diin_round_advances:
  assumes "ready (hd_io h)" "diin_round hp e h = (Ok None, h')"
  shows "advances (hd_io h) (hd_io h')"
proof -
  obtain a h1 ct h2 where 1: "on_dio dsdiff_io_get_position h = (Ok a, h1)" "peek_header h1 = (Ok (True, ct), h2)"
    and 2: "parse_diin_chunk hp ct h2 = (Ok (), h')"
    using assms(2) by (auto simp: diin_round_def seq_Ok_iff split: if_splits)
  have f: "forward hd_io (on_dio dsdiff_io_get_position)" by (intro forward_intros)
  have r: "ready (hd_io h2)"
    using forwardD [OF f assms(1) 1(1)] forwardD [OF forward_peek _ 1(2)] assms(1) by (metis ahead_ready)
  show ?thesis
    using assms(1) f 1 forwardD [OF forward_diin_chunk r 2] by (rule round_advances)
qed

lemma lforward_diin [forward_intros]: "lforward hd_io (dsdiff_parse_diin hp n)"
  unfolding dsdiff_parse_diin_def
  by (intro forward_intros lforward_repeat) (auto dest: diin_round_advances)

section \<open>Properties\<close>

lemma forward_counted [forward_intros]: "forward hd_io m \<Longrightarrow> forward (\<lambda>s. hd_io (fst s)) (counted m inc)"
  unfolding counted_def by (intro forward_intros)

lemma forward_parse_cmpr [forward_intros]: "forward hd_io (parse_cmpr l)"
  unfolding parse_cmpr_def by (intro forward_intros) simp_all

lemma forward_prop_chunk [forward_intros]: "forward (\<lambda>s. hd_io (fst s)) (parse_prop_chunk hp l c)"
  unfolding parse_prop_chunk_def by (intro forward_intros) (simp_all split: prod.split)

lemma forward_check_props [forward_intros]: "forward g (check_props c)"
  unfolding check_props_def by (intro forward_intros)

lemma forward_prop_round [forward_intros]: "forward (\<lambda>s. hd_io (fst s)) (prop_round hp l e)"
  unfolding prop_round_def by (intro forward_intros)

lemma on_fst_Ok: "on_fst m s = (Ok a, s') \<longleftrightarrow> m (fst s) = (Ok a, fst s') \<and> snd s' = snd s"
  by (cases s; cases s') (auto simp: on_fst_def zoom_def split: prod.splits)

lemma prop_round_advances:
  assumes "ready (hd_io (fst s))" "prop_round hp l e s = (Ok None, s')"
  shows "advances (hd_io (fst s)) (hd_io (fst s'))"
proof -
  obtain a s1 ct s2 where 1: "on_dio dsdiff_io_get_position (fst s) = (Ok a, fst s1)"
      "peek_header (fst s1) = (Ok (True, ct), fst s2)"
    and 2: "parse_prop_chunk hp l ct s2 = (Ok (), s')"
    using assms(2) by (auto simp: prop_round_def seq_Ok_iff on_fst_Ok split: if_splits)
  have f: "forward hd_io (on_dio dsdiff_io_get_position)" by (intro forward_intros)
  have r: "ready (hd_io (fst s2))"
    using forwardD [OF f assms(1) 1(1)] forwardD [OF forward_peek _ 1(2)] assms(1) by (metis ahead_ready)
  show ?thesis
    using assms(1) f 1 forwardD [OF forward_prop_chunk r 2] by (rule round_advances)
qed

lemma lforward_prop_file [forward_intros]: "lforward hd_io (dsdiff_parse_prop hp l n)"
  unfolding dsdiff_parse_prop_def
  by (intro forward_intros lforward_repeat) (auto dest: prop_round_advances)

section \<open>DST sound data\<close>

lemma get_ahead:
  assumes "\<And>s. ready (g s) \<Longrightarrow> ahead (g s) (g (snd (f s s)))"
  shows "forward g (seq get f)"
  using assms by (simp add: forward_def seq_def get_def)

lemma forward_dst [forward_intros]: "forward hd_io dsdiff_parse_dst"
proof -
  have size: "forward hd_io (seq get (\<lambda>h. case dsdiff_chunk_get_dstc_size (hd_io h) of
      (Ok dstc_size, io) \<Rightarrow> seq (modify (\<lambda>h. h\<lparr>hd_io := io, hd_crc_size := ucast dstc_size\<rparr>)) (\<lambda>_.
        on_dio dsdiff_chunk_skip)
    | (Err _, io) \<Rightarrow> modify (\<lambda>h. h\<lparr>hd_io := io\<rparr>)
    | (Fault, io) \<Rightarrow> fault))"
  proof (rule get_ahead)
    fix h :: dsdiff assume s: "ready (hd_io h)"
    obtain r io where m: "dsdiff_chunk_get_dstc_size (hd_io h) = (r, io)" by fastforce
    have 1: "ahead (hd_io h) io" using forwardD [OF forward_chunks(8) s m] .
    have skip: "forward hd_io (on_dio dsdiff_chunk_skip)" by (intro forward_intros)
    have "ahead io (hd_io (snd (on_dio dsdiff_chunk_skip (h\<lparr>hd_io := io, hd_crc_size := n\<rparr>))))" for n
      using skip [unfolded forward_def, rule_format, of "h\<lparr>hd_io := io, hd_crc_size := n\<rparr>"] ahead_ready [OF 1 s] by simp
    then have "ahead (hd_io h) (hd_io (snd (on_dio dsdiff_chunk_skip (h\<lparr>hd_io := io, hd_crc_size := n\<rparr>))))" for n
      using ahead_trans [OF 1 _ ready_open [OF s]] by blast
    then show "ahead (hd_io h) (hd_io (snd ((case dsdiff_chunk_get_dstc_size (hd_io h) of
        (Ok dstc_size, io) \<Rightarrow> seq (modify (\<lambda>h. h\<lparr>hd_io := io, hd_crc_size := ucast dstc_size\<rparr>)) (\<lambda>_.
          on_dio dsdiff_chunk_skip)
      | (Err _, io) \<Rightarrow> modify (\<lambda>h. h\<lparr>hd_io := io\<rparr>)
      | (Fault, io) \<Rightarrow> fault) h)))"
      using 1 s m by (cases r) (simp_all add: ahead_refl ready_open)
  qed
  show ?thesis
    unfolding dsdiff_parse_dst_def by (rule size | rule forward_intros | simp split: prod.split)+
qed

section \<open>The form\<close>

lemma forward_grow [forward_intros]: "forward hd_io (grow_for_track hp i)"
  by (rule forward_same) (simp add: grow_for_track_def grow_tracks_def Let_def split: option.split)

lemma forward_set_track [forward_intros]: "forward hd_io (set_track i t n)"
  by (rule forward_same) (simp add: set_track_def split: ptr.split)

lemma forward_mark_end [forward_intros]: "forward hd_io mark_data_end"
  unfolding mark_data_end_def by (intro forward_intros) simp

lemma forward_parse_id3 [forward_intros]: "forward hd_io (parse_id3 hp n)"
  unfolding parse_id3_def by (intro forward_intros) (simp_all split: prod.split)

lemma forward_parse_snd [forward_intros]: "forward hd_io parse_snd"
  unfolding parse_snd_def by (intro forward_intros) (simp_all split: prod.split)

lemma forward_parse_dsti [forward_intros]: "forward hd_io parse_dsti"
  unfolding parse_dsti_def by (intro forward_intros) (simp_all split: prod.split)

lemma forward_parse_comt [forward_intros]: "forward hd_io (parse_comt hp)"
  unfolding parse_comt_def by (intro forward_intros) (simp_all split: prod.split)

lemma forward_parse_manf [forward_intros]: "forward hd_io (parse_manf hp)"
  unfolding parse_manf_def by (intro forward_intros) (simp_all split: prod.split)

lemma lforward_tried [forward_intros]: "lforward hd_io m \<Longrightarrow> lforward (\<lambda>s. hd_io (fst s)) (tried m inc)"
  unfolding tried_def by (intro forward_intros)

lemma lforward_frm8_chunk [forward_intros]: "lforward (\<lambda>s. hd_io (fst s)) (parse_frm8_chunk hp l c)"
proof -
  have id3: "lforward (\<lambda>s. hd_io (fst s))
      (\<lambda>s. tried (lift (parse_id3 hp (id3_count (snd s)))) (\<lambda>c. c\<lparr>id3_count := id3_count c + 1\<rparr>) s)"
    by (rule lforward_state) (intro forward_intros)
  have version: "forward (\<lambda>s. hd_io (fst s)) (\<lambda>s. ensure (P (fst s)) e s)" for P and e :: dsdiff_error
    by (rule forward_same) simp
  show ?thesis
    unfolding parse_frm8_chunk_def
    by (rule id3 | rule version | rule forward_intros | simp split: prod.split)+
qed

lemma lseq_Some_Ok:
  "lseq m k s = Some (Ok b, s'') \<longleftrightarrow> (\<exists>a s'. m s = Some (Ok a, s') \<and> k a s' = Some (Ok b, s''))"
  by (auto simp: lseq_def split: option.splits prod.splits outcome.splits)

text \<open>What a round of the form does after the position is known.\<close>

definition frm8_body :: "heap \<Rightarrow> u16 \<Rightarrow> (frm8_state, dsdiff_error, unit option) lop" where
  "frm8_body hp name_len = lseq (lift (on_fst peek_header)) (\<lambda>(good, chunk_id).
     if \<not> good then lift (ret (Some ()))
     else lseq (parse_frm8_chunk hp name_len chunk_id) (\<lambda>go_on.
       lift (ret (if go_on then None else Some ()))))"

lemma frm8_round_eq:
  assumes "dsdiff_io_get_position (hd_io h) = (r, io)"
  shows "frm8_round hp l n (h, c) = (case r of
      Err e \<Rightarrow> Some (Ok (Some ()), (h\<lparr>hd_io := io\<rparr>, c))
    | Fault \<Rightarrow> Some (Fault, (h\<lparr>hd_io := io\<rparr>, c))
    | Ok file_pos \<Rightarrow> if file_pos > n then Some (Ok (Some ()), (h\<lparr>hd_io := io\<rparr>, c))
        else frm8_body hp l (h\<lparr>hd_io := io\<rparr>, c))"
  using assms by (simp add: frm8_round_def frm8_body_def split: outcome.split)

lemma lforward_body: "lforward (\<lambda>s. hd_io (fst s)) (frm8_body hp l)"
  unfolding frm8_body_def by (intro forward_intros)

lemma lforward_frm8_round [forward_intros]: "lforward (\<lambda>s. hd_io (fst s)) (frm8_round hp l n)"
  unfolding lforward_def
proof (intro allI impI)
  fix s :: frm8_state assume s: "ready (hd_io (fst s))"
  obtain h c where hc: "s = (h, c)" by fastforce
  obtain r io where m: "dsdiff_io_get_position (hd_io h) = (r, io)" by fastforce
  have 1: "ahead (hd_io h) io" using forwardD [OF forward_get_position _ m] s hc by simp
  obtain q t where body: "frm8_body hp l (h\<lparr>hd_io := io\<rparr>, c) = Some (q, t)" and 2: "ahead io (hd_io (fst t))"
    using lforwardD [OF lforward_body, of "(h\<lparr>hd_io := io\<rparr>, c)" hp l] ahead_ready [OF 1] s hc by auto
  show "\<exists>r s'. frm8_round hp l n s = Some (r, s') \<and> ahead (hd_io (fst s)) (hd_io (fst s'))"
    using frm8_round_eq [OF m] 1 body ahead_trans [OF 1 2 ready_open] s hc by (cases t) (auto split: outcome.split)
qed

lemma frm8_round_advances:
  assumes "ready (hd_io (fst s))" "frm8_round hp l n s = Some (Ok None, s')"
  shows "advances (hd_io (fst s)) (hd_io (fst s'))"
proof -
  obtain h c where hc: "s = (h, c)" by fastforce
  obtain r io where m: "dsdiff_io_get_position (hd_io h) = (r, io)" by fastforce
  let ?h1 = "h\<lparr>hd_io := io\<rparr>"
  obtain a where a: "r = Ok a" and body: "frm8_body hp l (?h1, c) = Some (Ok None, s')"
    using assms(2) frm8_round_eq [OF m] hc by (auto split: outcome.splits if_splits)
  obtain ct s2 where peek: "on_fst peek_header (?h1, c) = (Ok (True, ct), s2)"
    and chunk: "parse_frm8_chunk hp l ct s2 = Some (Ok True, s')"
    using body by (auto simp: frm8_body_def lseq_Some_Ok simp del: lseq_lift split: if_splits)
  have 1: "on_dio dsdiff_io_get_position h = (Ok a, ?h1)" using m a by (simp add: on_dio_def zoom_def)
  have p: "peek_header ?h1 = (Ok (True, ct), fst s2)" using peek by (simp add: on_fst_Ok)
  have f: "forward hd_io (on_dio dsdiff_io_get_position)" by (intro forward_intros)
  have s: "ready (hd_io h)" using assms(1) hc by simp
  have "ready (hd_io ?h1)" using forwardD [OF f s 1] s by (rule ahead_ready)
  then have r: "ready (hd_io (fst s2))" using forwardD [OF forward_peek _ p] by (metis ahead_ready)
  have "ahead (hd_io (fst s2)) (hd_io (fst s'))"
    using lforwardD [OF lforward_frm8_chunk r, of hp l ct] chunk by auto
  from round_advances [OF s f 1 p this] show ?thesis using hc by simp
qed

lemma forward_check_frm8 [forward_intros]: "forward (\<lambda>s. hd_io (fst s)) check_frm8"
  unfolding check_frm8_def by (intro forward_intros)

lemma lforward_frm8 [forward_intros]: "lforward hd_io (dsdiff_parse_frm8 hp l n)"
  unfolding dsdiff_parse_frm8_def
  by (intro forward_intros lforward_repeat) (auto dest: frm8_round_advances)

lemma lforward_parse_file [forward_intros]: "lforward hd_io (dsdiff_parse_file hp l)"
proof -
  have arg: "forward hd_io (\<lambda>h :: dsdiff. if hd_io h = None then (Err DSDIFF_ERROR_INVALID_ARG, h) else (Ok (), h))"
    by (rule forward_same) simp
  show ?thesis
    unfolding dsdiff_parse_file_def by (rule arg | rule forward_intros | simp)+
qed

section \<open>Opening returns\<close>

lemma open_on_returns:
  assumes "lforward hd_io parse"
    and "\<And>io d'. opn (Some name) d = (Ok io, d') \<Longrightarrow> ready (Some io)"
  shows "\<exists>r s'. open_on opn mode (lseq parse (\<lambda>_. lift k)) name (h, d) = Some (r, s')"
proof (cases "fst (opn (Some name) d)")
  case (Ok io)
  then obtain d' where o: "opn (Some name) d = (Ok io, d')" by (metis prod.collapse)
  let ?h = "h\<lparr>hd_io := Some io, hd_mode := mode\<rparr>"
  obtain r h' where p: "parse ?h = Some (r, h')"
    using lforwardD [OF assms(1), of ?h] assms(2) [OF o] by auto
  have "\<exists>r t. lseq parse (\<lambda>_. lift k) ?h = Some (r, t)"
    using p by (cases r) (auto simp: lseq_def) 
  then show ?thesis
    by (auto simp: open_on_def open_io_def o lzoom_def lseq_def lift_def on_fst_def zoom_def)
qed (auto simp: open_on_def open_io_def lseq_def lift_def split: prod.splits)

lemma open_file_returns:
  assumes "lforward hd_io parse"
    and "\<And>name io d'. filename = Some name \<Longrightarrow> opn (Some name) d = (Ok io, d') \<Longrightarrow> ready (Some io)"
  shows "\<exists>r s'. open_file opn mode (lseq parse (\<lambda>_. lift k)) filename (p, d) = Some (r, s')"
proof (cases filename)
  case (Some name)
  show ?thesis
  proof (cases p)
    case (Ptr h)
    obtain r h' d' where "open_on opn mode (lseq parse (\<lambda>_. lift k)) name (h, d) = Some (r, (h', d'))"
      using open_on_returns [OF assms(1), of opn name d mode k h] assms(2) [OF Some] by (metis prod.exhaust)
    then show ?thesis
      using Some Ptr by (cases r) (auto simp: open_file_def split: prod.split outcome.split)
  qed (use Some in \<open>simp_all add: open_file_def\<close>)
qed (simp add: open_file_def)

end
