(* ===== verification/Dsdiff_Audio.thy ===== *)
theory Dsdiff_Audio
  imports Dsdiff_File
begin

text \<open>
  Reading and writing sound data in \<^verbatim>\<open>libdsdiff/src/dsdiff.c\<close>: uncompressed data by the
  byte, DST frames with their index and check sums. A caller's buffer is its size for a read, and
  its bytes for a write; touching more is \<open>Fault\<close>. The contents of a buffer after a failed read
  are left out.
\<close>

section \<open>Uncompressed data\<close>

text \<open>The result are the bytes read; \<^verbatim>\<open>*bytes_read_out\<close> is their number.\<close>

definition dsdiff_read_dsd_data :: "nat \<Rightarrow> u32 \<Rightarrow> byte list hd_op" where
  "dsdiff_read_dsd_data buffer_size byte_count = seq get (\<lambda>h.
     if hd_is_dst_format h then ret [] else
     seq (ensure_mode (\<lambda>m. m \<noteq> DSDIFF_FILE_MODE_CLOSED) DSDIFF_ERROR_NOT_OPEN) (\<lambda>_.
     seq (ensure_mode (\<lambda>m. m = DSDIFF_FILE_MODE_READ) DSDIFF_ERROR_MODE_WRITE_ONLY) (\<lambda>_.
     if byte_count = 0 then ret [] else
     seq (on_dio dsdiff_io_get_position) (\<lambda>file_pos.
     seq (ensure (file_pos < hd_sound_data_end_pos h) DSDIFF_ERROR_END_OF_DATA) (\<lambda>_.
     let transfer_count = (if file_pos + ucast byte_count > hd_sound_data_end_pos h
           then hd_sound_data_end_pos h - file_pos else ucast byte_count) in
     on_dio (dsdiff_io_read_bytes buffer_size (unat transfer_count)))))))"

text \<open>The result is the number of bytes written.\<close>

definition dsdiff_write_dsd_data :: "byte list \<Rightarrow> u32 \<Rightarrow> u32 hd_op" where
  "dsdiff_write_dsd_data buffer byte_count = seq get (\<lambda>h.
     seq (ensure_mode (\<lambda>m. m \<noteq> DSDIFF_FILE_MODE_CLOSED) DSDIFF_ERROR_NOT_OPEN) (\<lambda>_.
     seq (ensure_mode (\<lambda>m. m = DSDIFF_FILE_MODE_WRITE) DSDIFF_ERROR_MODE_READ_ONLY) (\<lambda>_.
     seq (ensure (\<not> hd_is_dst_format h) DSDIFF_ERROR_REQUIRES_DSD) (\<lambda>_.
     if byte_count = 0 then ret 0 else
     seq (ensure (DSDIFF_MAX_DATA_SIZE \<ge> hd_sound_data_size h + ucast byte_count) DSDIFF_ERROR_MAX_FILE_SIZE) (\<lambda>_.
     seq (\<lambda>h. case on_dio (write_block buffer (unat byte_count)) h of
            (Err _, h') \<Rightarrow> (Err DSDIFF_ERROR_WRITE_FAILED, h') | r \<Rightarrow> r) (\<lambda>n. let bytes_written = of_nat n :: u64 in
     if hd_channel_count h = 0 then fault else
     seq (modify (\<lambda>h. h\<lparr>
            hd_sample_frame_count := hd_sample_frame_count h +
              ucast (ucast (bytes_written div ucast (hd_channel_count h)) :: u32),
            hd_sound_data_size := hd_sound_data_size h + bytes_written,
            hd_sound_data_end_pos := hd_sound_data_end_pos h + bytes_written\<rparr>)) (\<lambda>_.
     ret (ucast bytes_written))))))))"

definition dsdiff_skip_dsd_data :: "u32 \<Rightarrow> u32 hd_op" where
  "dsdiff_skip_dsd_data skip_count = seq get (\<lambda>h.
     seq (ensure_mode (\<lambda>m. m \<noteq> DSDIFF_FILE_MODE_CLOSED) DSDIFF_ERROR_NOT_OPEN) (\<lambda>_.
     seq (ensure_mode (\<lambda>m. m = DSDIFF_FILE_MODE_READ \<or> m = DSDIFF_FILE_MODE_MODIFY)
       DSDIFF_ERROR_MODE_WRITE_ONLY) (\<lambda>_.
     if skip_count = 0 then ret 0 else
     let full = ucast skip_count * ucast (hd_channel_count h) :: u64 in
     seq (on_dio dsdiff_io_get_position) (\<lambda>file_pos.
     seq (ensure (file_pos < hd_sound_data_end_pos h) DSDIFF_ERROR_END_OF_DATA) (\<lambda>_.
     let offset = (if file_pos + full > hd_sound_data_end_pos h then hd_sound_data_end_pos h - file_pos else full) in
     seq (on_dio (dsdiff_io_seek (sint offset) SEEK_CUR True)) (\<lambda>_.
     if hd_channel_count h = 0 then fault
     else ret (ucast (offset div ucast (hd_channel_count h)))))))))"

section \<open>Writing DST frames\<close>

text \<open>The entry of the frame that was just counted; the array grows by 1000 elements at a time.\<close>

definition grow_index :: "heap \<Rightarrow> unit hd_op" where
  "grow_index hp = (\<lambda>h.
     if \<not> hd_dst_frame_count h \<ge> hd_reserved_index_count h then (Ok (), h) else
     let new_capacity = hd_reserved_index_count h + 1000 in
     case elements (hd_indexes h) of None \<Rightarrow> (Fault, h)
     | Some xs \<Rightarrow> if sa_realloc hp (unat new_capacity * 16)
         then (Ok (), h\<lparr>hd_indexes := Ptr (take (unat new_capacity) xs @ replicate (unat new_capacity - length xs) None),
                        hd_reserved_index_count := new_capacity\<rparr>)
         else (Err DSDIFF_ERROR_OUT_OF_MEMORY, h))"

definition store_index :: "u64 \<Rightarrow> u32 \<Rightarrow> unit hd_op" where
  "store_index offset len = (\<lambda>h. let i = unat (hd_dst_frame_count h - 1) in
     case hd_indexes h of
       Ptr xs \<Rightarrow> if i < length xs
         then (Ok (), h\<lparr>hd_indexes := Ptr (xs[i := Some \<lparr>ix_offset = offset, ix_length = len\<rparr>])\<rparr>) else (Fault, h)
     | _ \<Rightarrow> (Fault, h))"

text \<open>The size of a chunk with header and padding, from a 32-bit sum.\<close>

definition padded_size :: "u32 \<Rightarrow> u64" where
  "padded_size n = (let s = ucast (n + 12) :: u64 in if s mod 2 = 1 then s + 1 else s)"

definition dsdiff_write_dst_frame_internal :: "heap \<Rightarrow> byte list \<Rightarrow> u32 \<Rightarrow> unit hd_op" where
  "dsdiff_write_dst_frame_internal hp data frame_size = seq get (\<lambda>h.
     seq (ensure_mode (\<lambda>m. m \<noteq> DSDIFF_FILE_MODE_CLOSED) DSDIFF_ERROR_NOT_OPEN) (\<lambda>_.
     seq (ensure_mode (\<lambda>m. m = DSDIFF_FILE_MODE_WRITE) DSDIFF_ERROR_MODE_READ_ONLY) (\<lambda>_.
     seq (ensure (hd_is_dst_format h) DSDIFF_ERROR_REQUIRES_DST) (\<lambda>_.
     if frame_size = 0 then ret () else
     seq (ensure (\<not> hd_sound_data_size h + ucast frame_size > DSDIFF_MAX_DATA_SIZE) DSDIFF_ERROR_MAX_FILE_SIZE) (\<lambda>_.
     seq (on_dio (dsdiff_chunk_write_dstf (ucast frame_size) data)) (\<lambda>cur_file_pos.
     seq (modify (\<lambda>h. h\<lparr>hd_dst_frame_count := hd_dst_frame_count h + 1,
            hd_sound_data_size := hd_sound_data_size h + padded_size frame_size\<rparr>)) (\<lambda>_.
     seq (grow_index hp) (\<lambda>_. store_index cur_file_pos frame_size))))))))"

definition dsdiff_write_dst_frame :: "heap \<Rightarrow> byte list \<Rightarrow> u32 \<Rightarrow> unit hd_op" where
  "dsdiff_write_dst_frame hp data frame_size = seq get (\<lambda>h.
     seq (ensure (\<not> hd_has_crc h) DSDIFF_ERROR_CRC_ALREADY_PRESENT) (\<lambda>_.
     dsdiff_write_dst_frame_internal hp data frame_size))"

definition dsdiff_write_dst_frame_with_crc ::
  "heap \<Rightarrow> byte list \<Rightarrow> u32 \<Rightarrow> byte list \<Rightarrow> u32 \<Rightarrow> unit hd_op" where
  "dsdiff_write_dst_frame_with_crc hp data frame_size crc_data crc_size =
     seq (modify (\<lambda>h. if hd_dst_frame_count h = 0 then h\<lparr>hd_has_crc := True\<rparr> else h)) (\<lambda>_.
     seq (dsdiff_write_dst_frame_internal hp data frame_size) (\<lambda>_.
     seq get (\<lambda>h. if hd_has_crc h \<and> crc_size > 0
       then seq (on_dio (dsdiff_chunk_write_dstc (ucast crc_size) crc_data)) (\<lambda>_.
            modify (\<lambda>h. h\<lparr>hd_sound_data_size := hd_sound_data_size h + padded_size crc_size\<rparr>))
       else ret ())))"

section \<open>Reading DST frames\<close>

text \<open>After the frame comes the next frame or the end; anything else rewinds to the first frame.\<close>

definition rewind_unless_frame :: "dsdiff_chunk_type \<Rightarrow> unit hd_op" where
  "rewind_unless_frame chunk_id = (\<lambda>h.
     if chunk_id \<noteq> DSDIFF_CHUNK_DSTF then ignore (on_dio (seek_set (hd_sound_data_start_pos h))) h
     else (Ok (), h))"

text \<open>\<^verbatim>\<open>max_frame_size\<close> is not looked at. The result are the bytes of the frame.\<close>

definition dsdiff_read_dst_frame :: "nat \<Rightarrow> byte list hd_op" where
  "dsdiff_read_dst_frame buffer_size =
     seq (on_local 0 (dsdiff_chunk_read_dstf buffer_size)) (\<lambda>(bs, _).
     seq peek_header (\<lambda>(good, chunk_id).
     seq (if good \<and> chunk_id = DSDIFF_CHUNK_DSTC
          then seq (attempt (on_dio dsdiff_chunk_skip)) (\<lambda>good2.
            if good2 then seq peek_header (\<lambda>(_, ct). ret ct) else ret chunk_id)
          else ret chunk_id) (\<lambda>chunk_id.
     seq (rewind_unless_frame chunk_id) (\<lambda>_. ret bs))))"

text \<open>The results are the frame and its check sum, empty when there is none.\<close>

definition dsdiff_read_dst_frame_with_crc :: "nat \<Rightarrow> nat \<Rightarrow> (byte list \<times> byte list) hd_op" where
  "dsdiff_read_dst_frame_with_crc buffer_size crc_buffer_size =
     seq (on_local 0 (dsdiff_chunk_read_dstf buffer_size)) (\<lambda>(bs, n).
     seq peek_header (\<lambda>(good, chunk_id).
     seq (if good \<and> chunk_id = DSDIFF_CHUNK_DSTC
          then (\<lambda>h. case on_local n (dsdiff_chunk_read_dstc crc_buffer_size) h of
             (Ok (crc, _), h') \<Rightarrow> seq peek_header (\<lambda>(_, ct). ret (crc, ct)) h'
           | (Err _, h') \<Rightarrow> (Ok ([], chunk_id), h')
           | (Fault, h') \<Rightarrow> (Fault, h'))
          else ret ([], chunk_id)) (\<lambda>(crc, chunk_id).
     seq (rewind_unless_frame chunk_id) (\<lambda>_. ret (bs, crc)))))"

text \<open>An element of the index array.\<close>

definition index_at :: "u32 \<Rightarrow> dsdiff_index hd_op" where
  "index_at i = (\<lambda>h. case hd_indexes h of
       Ptr xs \<Rightarrow> if unat i < length xs then (case xs ! unat i of Some ix \<Rightarrow> (Ok ix, h) | None \<Rightarrow> (Fault, h))
                 else (Fault, h)
     | _ \<Rightarrow> (Fault, h))"

definition dsdiff_seek_dst_frame :: "u32 \<Rightarrow> unit hd_op" where
  "dsdiff_seek_dst_frame frame_index = seq get (\<lambda>h.
     seq (ensure (hd_has_index h) DSDIFF_ERROR_NO_DST_INDEX) (\<lambda>_.
     seq (ensure (\<not> frame_index \<ge> hd_dst_frame_count h) DSDIFF_ERROR_END_OF_DATA) (\<lambda>_.
     seq (index_at frame_index) (\<lambda>ix.
     seq (on_dio (seek_set (ix_offset ix))) (\<lambda>_. ret ())))))"

definition dsdiff_read_dst_frame_at_index :: "heap \<Rightarrow> u32 \<Rightarrow> nat \<Rightarrow> u32 \<Rightarrow> byte list hd_op" where
  "dsdiff_read_dst_frame_at_index hp frame_index buffer_size max_frame_size =
     seq (dsdiff_read_index hp) (\<lambda>_. seq get (\<lambda>h.
     seq (ensure (hd_has_index h) DSDIFF_ERROR_NO_DST_INDEX) (\<lambda>_.
     seq (ensure (\<not> frame_index \<ge> hd_dst_frame_count h) DSDIFF_ERROR_END_OF_DATA) (\<lambda>_.
     seq (index_at frame_index) (\<lambda>ix.
     seq (ensure (\<not> ix_length ix > max_frame_size) DSDIFF_ERROR_BUFFER_TOO_SMALL) (\<lambda>_.
     on_dio (dsdiff_chunk_read_contents buffer_size (ix_offset ix) (unat (ix_length ix)))))))))"

definition dsdiff_read_dst_frame_at_index_with_crc ::
  "heap \<Rightarrow> u32 \<Rightarrow> nat \<Rightarrow> u32 \<Rightarrow> nat \<Rightarrow> u32 \<Rightarrow> (byte list \<times> byte list) hd_op" where
  "dsdiff_read_dst_frame_at_index_with_crc hp frame_index buffer_size max_frame_size crc_buffer_size max_crc_size =
     seq (dsdiff_read_dst_frame_at_index hp frame_index buffer_size max_frame_size) (\<lambda>bs. seq get (\<lambda>h.
     if \<not> hd_has_crc h then ret (bs, []) else
     seq (ensure (\<not> hd_crc_size h > max_crc_size) DSDIFF_ERROR_BUFFER_TOO_SMALL) (\<lambda>_.
     seq (index_at frame_index) (\<lambda>ix. let frame_length = ucast (ix_length ix) :: u64 in
     seq (on_dio (dsdiff_chunk_read_contents crc_buffer_size
            (ix_offset ix + frame_length + (if frame_length mod 2 \<noteq> 0 then 1 else 0) + 12)
            (unat (hd_crc_size h)))) (\<lambda>crc. ret (bs, crc))))))"

definition dsdiff_get_dst_frame_size :: "heap \<Rightarrow> u32 \<Rightarrow> u32 hd_op" where
  "dsdiff_get_dst_frame_size hp frame_index =
     seq (dsdiff_read_index hp) (\<lambda>_. seq get (\<lambda>h.
     seq (ensure (hd_has_index h) DSDIFF_ERROR_NO_DST_INDEX) (\<lambda>_.
     if frame_index > hd_reserved_index_count h then ret 0
     else seq (index_at frame_index) (\<lambda>ix. ret (ix_length ix)))))"

definition dsdiff_get_dst_max_frame_size :: "u32 hd_op" where
  "dsdiff_get_dst_max_frame_size = (\<lambda>h. if hd_dst_frame_rate h = 0 then (Fault, h)
     else (Ok (ucast (hd_channel_count h) * (hd_sample_rate h div ucast (hd_dst_frame_rate h) div 8) + 1), h))"

section \<open>Finalising and closing\<close>

definition dsdiff_write_index :: "unit hd_op" where
  "dsdiff_write_index = (\<lambda>h.
     if hd_is_dst_format h \<and> hd_dst_frame_count h \<noteq> 0 \<and> hd_mode h \<noteq> DSDIFF_FILE_MODE_MODIFY
     then on_dio (dsdiff_chunk_write_dsti_contents (ucast (hd_dst_frame_count h)) (hd_indexes h)) h
     else (Ok (), h))"

text \<open>A marker that cannot be copied is left out.\<close>

definition write_marker :: "heap \<Rightarrow> nat \<Rightarrow> unit hd_op" where
  "write_marker hp i = (\<lambda>h. case dsdiff_marker_create hp of None \<Rightarrow> (Ok (), h)
     | Some marker \<Rightarrow> (case dsdiff_marker_list_get hp (hd_markers h) (of_nat i) marker of
           (Ok _, m) \<Rightarrow> on_dio (dsdiff_chunk_write_mark m) h
         | _ \<Rightarrow> (Ok (), h)))"

text \<open>The length of a text is taken with \<^verbatim>\<open>strlen\<close>; NULL has none.\<close>

definition write_text :: "(u64 \<Rightarrow> byte list \<Rightarrow> unit dio_op) \<Rightarrow> byte list option \<Rightarrow> unit hd_op" where
  "write_text m text = (case text of None \<Rightarrow> fault
     | Some t \<Rightarrow> on_dio (m (of_nat (length (cstr t))) (cstr t)))"

definition dsdiff_write_diin :: "heap \<Rightarrow> unit hd_op" where
  "dsdiff_write_diin hp = seq get (\<lambda>h.
     seq (ensure_mode is_writing DSDIFF_ERROR_WRITE_FAILED) (\<lambda>_.
     if \<not> (hd_has_emid h \<or> hd_has_disc_artist h \<or> hd_has_disc_title h \<or>
            dsdiff_marker_list_get_count (hd_markers h) > 0) then ret () else
     seq (on_dio dsdiff_io_get_position) (\<lambda>cur_file_pos.
     seq (on_local (0, 0) (dsdiff_chunk_write_diin_header 0)) (\<lambda>_.
     seq (if hd_has_emid h then write_text dsdiff_chunk_write_emid (hd_emid h) else ret ()) (\<lambda>_.
     seq (for_loop 0 (unat (dsdiff_marker_list_get_count (hd_markers h))) (write_marker hp)) (\<lambda>_.
     seq (if hd_has_disc_artist h then write_text dsdiff_chunk_write_diar (hd_disc_artist h) else ret ()) (\<lambda>_.
     seq (if hd_has_disc_title h then write_text dsdiff_chunk_write_diti (hd_disc_title h) else ret ()) (\<lambda>_.
     seq (on_dio dsdiff_io_get_position) (\<lambda>end_file_pos.
     seq (on_dio (seek_set cur_file_pos)) (\<lambda>_.
     seq (on_local (0, 0) (dsdiff_chunk_write_diin_header (end_file_pos - cur_file_pos - 12))) (\<lambda>_.
     seq (on_dio (seek_set end_file_pos)) (\<lambda>_. ret ()))))))))))))"

definition write_if_free :: "(dsdiff \<Rightarrow> bool) \<Rightarrow> (dsdiff \<Rightarrow> u64) \<Rightarrow> (dsdiff \<Rightarrow> unit dio_op) \<Rightarrow> unit hd_op" where
  "write_if_free present pos m = (\<lambda>h.
     if present h \<and> dsdiff_is_chunk_writable h (pos h) then on_dio (m h) h else (Ok (), h))"

definition write_track_tag :: "nat \<Rightarrow> unit hd_op" where
  "write_track_tag i = (\<lambda>h. case hd_track_id3_tags h of
       Ptr tags \<Rightarrow> if i < length tags then (case tags ! i of None \<Rightarrow> (Ok (), h)
           | Some tag \<Rightarrow> (case hd_track_id3_sizes h of
               Ptr sizes \<Rightarrow> if i < length sizes
                 then (if sizes ! i \<noteq> 0 then on_dio (dsdiff_chunk_write_id3 (Some tag) (sizes ! i)) h else (Ok (), h))
                 else (Fault, h)
             | _ \<Rightarrow> (Fault, h)))
         else (Fault, h)
     | _ \<Rightarrow> (Fault, h))"

text \<open>The chunks after the sound data.\<close>

definition write_metadata :: "heap \<Rightarrow> unit hd_op" where
  "write_metadata hp =
     seq (\<lambda>h. on_dio (write_pad_if (hd_sound_data_size h mod 2 \<noteq> 0)) h) (\<lambda>_.
     seq (\<lambda>h. if dsdiff_is_chunk_writable h (hd_diin_chunk_pos h) then dsdiff_write_diin hp h else (Ok (), h)) (\<lambda>_.
     seq dsdiff_write_index (\<lambda>_.
     seq (write_if_free (\<lambda>h. hd_comment_count h \<noteq> 0) hd_comment_chunk_pos
            (\<lambda>h. dsdiff_chunk_write_comt (hd_comment_count h) (hd_comments h))) (\<lambda>_.
     seq (write_if_free (\<lambda>h. hd_id3_tag_size h \<noteq> 0) hd_id3_chunk_pos
            (\<lambda>h. dsdiff_chunk_write_id3 (hd_id3_tag h) (hd_id3_tag_size h))) (\<lambda>_.
     seq (\<lambda>h. for_loop 0 (unat (hd_track_id3_count h)) write_track_tag h) (\<lambda>_.
     write_if_free hd_has_manufacturer hd_manufacturer_chunk_pos
       (\<lambda>h. dsdiff_chunk_write_manf (hd_manufacturer_id h) (hd_manufacturer_data h)
              (hd_manufacturer_data_size h))))))))"

text \<open>The second sound header, in WRITE mode only.\<close>

definition rewrite_sound_header :: "unit hd_op" where
  "rewrite_sound_header = (\<lambda>h.
     if \<not> hd_is_dst_format h then data_span (dsdiff_chunk_write_snd_header (hd_sound_data_size h)) h
     else seq (data_span (dsdiff_chunk_write_dst_header (hd_sound_data_size h))) (\<lambda>_.
       \<lambda>h. on_dio (dsdiff_chunk_write_frte (hd_dst_frame_count h) (hd_dst_frame_rate h)) h) h)"

definition rewrite_headers :: "u64 \<Rightarrow> unit hd_op" where
  "rewrite_headers file_size =
     seq (on_dio (seek_set 0)) (\<lambda>_.
     seq (on_dio (dsdiff_chunk_write_frm8_header file_size)) (\<lambda>_.
     seq (\<lambda>h. on_dio (dsdiff_chunk_write_fver (hd_format_version h)) h) (\<lambda>_.
     seq (on_dio dsdiff_io_get_position) (\<lambda>file_pos.
     seq (\<lambda>h. on_dio (dsdiff_chunk_write_prop_header (hd_prop_chunk_size h)) h) (\<lambda>_.
     seq (\<lambda>h. on_dio (seek_set (hd_channel_chunk_pos h)) h) (\<lambda>_.
     seq (\<lambda>h. on_dio (dsdiff_chunk_write_chnl (hd_channel_count h) (hd_channel_ids h)) h) (\<lambda>_.
     seq (\<lambda>h. on_dio (seek_set (hd_timecode_chunk_pos h)) h) (\<lambda>_.
     seq (\<lambda>h. if hd_has_timecode h
            then seq (modify (\<lambda>h. h\<lparr>hd_start_timecode := dsdiff_timecode_normalize (hd_start_timecode h) (hd_sample_rate h)\<rparr>))
              (\<lambda>_. \<lambda>h. on_dio (dsdiff_chunk_write_abss (hd_start_timecode h)) h) h
            else (Ok (), h)) (\<lambda>_.
     \<lambda>h. if hd_mode h = DSDIFF_FILE_MODE_WRITE
         then seq (on_dio (seek_set (file_pos + 12 + hd_prop_chunk_size h))) (\<lambda>_. rewrite_sound_header) h
         else (Ok (), h))))))))))"

definition dsdiff_finalize :: "heap \<Rightarrow> unit hd_op" where
  "dsdiff_finalize hp =
     seq (ensure_mode (\<lambda>m. m \<noteq> DSDIFF_FILE_MODE_CLOSED) DSDIFF_ERROR_NOT_OPEN) (\<lambda>_.
     \<lambda>h. if \<not> is_writing (hd_mode h) then (Ok (), h) else
       seq (write_metadata hp) (\<lambda>_.
       seq (on_dio dsdiff_io_get_position) (\<lambda>end_file_pos.
       seq (modify (\<lambda>h. h\<lparr>hd_file_size_after_finalize := end_file_pos\<rparr>)) (\<lambda>_.
       seq (rewrite_headers (end_file_pos - 12)) (\<lambda>_.
       seq (\<lambda>h. on_dio (seek_set (hd_file_size_after_finalize h)) h) (\<lambda>_. ret ()))))) h)"

text \<open>The arrays that closing frees, and the handle itself.\<close>

definition close_on :: "unit hdd_op" where
  "close_on =
     seq (\<lambda>(h, d). if hd_io h \<noteq> None then ignore close_io (h, d) else (Ok (), (h, d))) (\<lambda>_.
     on_fst (seq (zoom hd_channel_ids (\<lambda>p h. h\<lparr>hd_channel_ids := p\<rparr>) free_ptr) (\<lambda>_.
       seq (zoom hd_indexes (\<lambda>p h. h\<lparr>hd_indexes := p\<rparr>) free_ptr) (\<lambda>_.
       seq (\<lambda>h. has_elements (unat (hd_comment_count h)) (hd_comments h) h) (\<lambda>_.
       modify (\<lambda>h. h\<lparr>hd_markers := dsdiff_marker_list_free (hd_markers h)\<rparr>))))))"

definition dsdiff_close :: "unit dd_file_op" where
  "dsdiff_close = (\<lambda>(p, d). case p of
       Null \<Rightarrow> (Err DSDIFF_ERROR_INVALID_ARG, (p, d))
     | Dangling \<Rightarrow> (Fault, (p, d))
     | Ptr h \<Rightarrow> if hd_mode h = DSDIFF_FILE_MODE_CLOSED then (Err DSDIFF_ERROR_NOT_OPEN, (p, d))
         else (case close_on (h, d) of (Ok _, (_, d')) \<Rightarrow> (Ok (), (Dangling, d'))
           | (r, (h', d')) \<Rightarrow> (r, (Ptr h', d'))))"

end
