(* ===== verification/Dsdiff_Api.thy ===== *)
theory Dsdiff_Api
  imports Dsdiff_Audio
begin

text \<open>
  The accessors of \<^verbatim>\<open>libdsdiff/src/dsdiff.c\<close>: what a caller asks and sets on a handle
  before and after the sound data. Each one is given on the handle itself; \<open>on_dsdiff\<close> adds the
  check of the caller's pointer. A result is the value stored behind the caller's result pointer,
  which is not NULL; an argument that may be NULL is an option.
\<close>

section \<open>Properties of the file\<close>

text \<open>A getter of a handle that has to be open.\<close>

definition when_open :: "(dsdiff \<Rightarrow> 'a) \<Rightarrow> 'a hd_op" where
  "when_open f = seq (ensure_mode (\<lambda>m. m \<noteq> DSDIFF_FILE_MODE_CLOSED) DSDIFF_ERROR_NOT_OPEN)
     (\<lambda>_ h. (Ok (f h), h))"

definition dsdiff_get_open_mode :: "dsdiff_file_mode hd_op" where
  "dsdiff_get_open_mode = (\<lambda>h. (Ok (hd_mode h), h))"

definition dsdiff_get_audio_type :: "dsdiff_audio_type hd_op" where
  "dsdiff_get_audio_type = when_open (\<lambda>h. if hd_is_dst_format h then DSDIFF_AUDIO_DST else DSDIFF_AUDIO_DSD)"

text \<open>The code of the inner call is dropped; \<open>None\<close> is a buffer that it left alone.\<close>

definition dsdiff_get_filename :: "nat \<Rightarrow> string option hd_op" where
  "dsdiff_get_filename buffer_size =
     seq (ensure (buffer_size \<noteq> 0) DSDIFF_ERROR_INVALID_ARG) (\<lambda>_.
     seq (ensure_mode (\<lambda>m. m \<noteq> DSDIFF_FILE_MODE_CLOSED) DSDIFF_ERROR_NOT_OPEN) (\<lambda>_.
     \<lambda>h. case on_dio (dsdiff_io_get_filename buffer_size) h of
         (Ok name, h') \<Rightarrow> (Ok (Some name), h')
       | (Err _, h') \<Rightarrow> (Ok None, h')
       | (Fault, h') \<Rightarrow> (Fault, h')))"

definition dsdiff_get_channel_count :: "u16 hd_op" where
  "dsdiff_get_channel_count = when_open hd_channel_count"

definition dsdiff_get_sample_bits :: "u16 hd_op" where
  "dsdiff_get_sample_bits = when_open (\<lambda>_. 1)"

definition dsdiff_get_sample_rate :: "u32 hd_op" where
  "dsdiff_get_sample_rate = when_open hd_sample_rate"

definition dsdiff_get_sample_frame_count :: "u64 hd_op" where
  "dsdiff_get_sample_frame_count = when_open hd_sample_frame_count"

definition dsdiff_get_dsd_data_size :: "u64 hd_op" where
  "dsdiff_get_dsd_data_size = when_open hd_sound_data_size"

definition dsdiff_get_dst_frame_count :: "u32 hd_op" where
  "dsdiff_get_dst_frame_count = (\<lambda>h. (Ok (hd_dst_frame_count h), h))"

definition dsdiff_set_dst_frame_rate :: "u16 \<Rightarrow> unit hd_op" where
  "dsdiff_set_dst_frame_rate frame_rate = seq (ensure_mode is_writing DSDIFF_ERROR_INVALID_MODE) (\<lambda>_.
     modify (\<lambda>h. h\<lparr>hd_dst_frame_rate := frame_rate\<rparr>))"

definition dsdiff_get_dst_frame_rate :: "u16 hd_op" where
  "dsdiff_get_dst_frame_rate = (\<lambda>h. (Ok (hd_dst_frame_rate h), h))"

definition dsdiff_has_dst_crc :: "bool hd_op" where
  "dsdiff_has_dst_crc = (\<lambda>h. (Ok (hd_has_crc h), h))"

definition dsdiff_get_dst_crc_size :: "u32 hd_op" where
  "dsdiff_get_dst_crc_size = (\<lambda>h. (Ok (hd_crc_size h), h))"

definition dsdiff_has_dst_index :: "bool hd_op" where
  "dsdiff_has_dst_index = (\<lambda>h. (Ok (hd_has_index h), h))"

section \<open>Channels\<close>

text \<open>The identifiers of the channels; \<open>None\<close> is one that was never stored.\<close>

definition dsdiff_get_channel_ids :: "u32 option list hd_op" where
  "dsdiff_get_channel_ids =
     seq (ensure_mode (\<lambda>m. m \<noteq> DSDIFF_FILE_MODE_CLOSED) DSDIFF_ERROR_NOT_OPEN) (\<lambda>_ h.
     case hd_channel_ids h of
       Null \<Rightarrow> (Err DSDIFF_ERROR_NO_CHANNEL_INFO, h)
     | Dangling \<Rightarrow> (Fault, h)
     | Ptr ids \<Rightarrow> if unat (hd_channel_count h) \<le> length ids
         then (Ok (take (unat (hd_channel_count h)) ids), h) else (Fault, h))"

text \<open>A standard layout of two, five or six channels whose order is wrong.\<close>

definition misordered :: "u32 list \<Rightarrow> bool" where
  "misordered channel_ids =
     (if length channel_ids = 2
      then channel_ids \<noteq> [DSDIFF_CHAN_SLFT, DSDIFF_CHAN_SRGT] \<and>
        (\<forall>c \<in> set channel_ids. c = DSDIFF_CHAN_SLFT \<or> c = DSDIFF_CHAN_SRGT)
      else if length channel_ids = 5
      then channel_ids \<noteq> [DSDIFF_CHAN_MLFT, DSDIFF_CHAN_MRGT, DSDIFF_CHAN_C, DSDIFF_CHAN_LS, DSDIFF_CHAN_RS] \<and>
        (\<forall>c \<in> set [DSDIFF_CHAN_MLFT, DSDIFF_CHAN_MRGT, DSDIFF_CHAN_C, DSDIFF_CHAN_LS, DSDIFF_CHAN_RS].
           c \<in> set channel_ids)
      else if length channel_ids = 6
      then channel_ids \<noteq> [DSDIFF_CHAN_MLFT, DSDIFF_CHAN_MRGT, DSDIFF_CHAN_C, DSDIFF_CHAN_LFE, DSDIFF_CHAN_LS, DSDIFF_CHAN_RS] \<and>
        (\<forall>c \<in> set [DSDIFF_CHAN_MLFT, DSDIFF_CHAN_MRGT, DSDIFF_CHAN_C, DSDIFF_CHAN_LFE, DSDIFF_CHAN_LS, DSDIFF_CHAN_RS].
           c \<in> set channel_ids)
      else False)"

text \<open>The caller's array is \<open>ids\<close>; reading past its end is undefined. The new array is in
  place, with nothing stored in it, when the check of the layout fails.\<close>

definition dsdiff_set_channel_ids :: "heap \<Rightarrow> u32 list option \<Rightarrow> u16 \<Rightarrow> unit hd_op" where
  "dsdiff_set_channel_ids hp ids channel_count = (case ids of
       None \<Rightarrow> fail DSDIFF_ERROR_INVALID_ARG
     | Some ids \<Rightarrow> seq get (\<lambda>h.
         seq (ensure (\<not> (hd_mode h = DSDIFF_FILE_MODE_MODIFY \<and> hd_channel_count h \<noteq> channel_count))
           DSDIFF_ERROR_INVALID_CHANNELS) (\<lambda>_.
         seq free_channel_ids (\<lambda>_.
         seq (modify (\<lambda>h. h\<lparr>hd_channel_count := channel_count\<rparr>)) (\<lambda>_.
         seq (ensure (sa_malloc hp (unat channel_count * 4)) DSDIFF_ERROR_OUT_OF_MEMORY) (\<lambda>_.
         seq (modify (\<lambda>h. h\<lparr>hd_channel_ids := Ptr (replicate (unat channel_count) None)\<rparr>)) (\<lambda>_.
         if length ids < unat channel_count then fault else
         let channel_ids = take (unat channel_count) ids in
         seq (ensure (\<not> misordered channel_ids) DSDIFF_ERROR_INVALID_CHANNELS) (\<lambda>_.
         modify (\<lambda>h. h\<lparr>hd_channel_ids := Ptr (map Some channel_ids)\<rparr>)))))))))"

definition dsdiff_has_loudspeaker_config :: "bool hd_op" where
  "dsdiff_has_loudspeaker_config = (\<lambda>h. (Ok (hd_has_loudspeaker_config h), h))"

definition dsdiff_set_loudspeaker_config :: "u32 \<Rightarrow> unit hd_op" where
  "dsdiff_set_loudspeaker_config loudspeaker_config = seq get (\<lambda>h.
     seq (ensure (\<not> (hd_mode h = DSDIFF_FILE_MODE_MODIFY \<and> \<not> hd_has_loudspeaker_config h))
       DSDIFF_ERROR_NO_LSCONFIG) (\<lambda>_.
     modify (\<lambda>h. h\<lparr>hd_loudspeaker_config := loudspeaker_config, hd_has_loudspeaker_config := True\<rparr>)))"

definition dsdiff_get_loudspeaker_config :: "u32 hd_op" where
  "dsdiff_get_loudspeaker_config = seq get (\<lambda>h.
     seq (ensure (hd_has_loudspeaker_config h) DSDIFF_ERROR_NO_LSCONFIG) (\<lambda>_. ret (hd_loudspeaker_config h)))"

section \<open>The start time\<close>

definition dsdiff_get_start_timecode :: "dsdiff_timecode hd_op" where
  "dsdiff_get_start_timecode = seq get (\<lambda>h.
     seq (ensure_mode (\<lambda>m. m \<noteq> DSDIFF_FILE_MODE_CLOSED) DSDIFF_ERROR_NOT_OPEN) (\<lambda>_.
     seq (ensure (hd_has_timecode h) DSDIFF_ERROR_NO_TIMECODE) (\<lambda>_. ret (hd_start_timecode h))))"

definition dsdiff_set_start_timecode :: "dsdiff_timecode option \<Rightarrow> unit hd_op" where
  "dsdiff_set_start_timecode start_timecode = (case start_timecode of
       None \<Rightarrow> fail DSDIFF_ERROR_INVALID_ARG
     | Some t \<Rightarrow> seq get (\<lambda>h.
         seq (ensure_mode (\<lambda>m. m = DSDIFF_FILE_MODE_CLOSED \<or> m = DSDIFF_FILE_MODE_MODIFY)
           DSDIFF_ERROR_POST_CREATE_FORBIDDEN) (\<lambda>_.
         seq (ensure (\<not> (hd_mode h = DSDIFF_FILE_MODE_MODIFY \<and> \<not> hd_has_timecode h))
           DSDIFF_ERROR_NO_TIMECODE) (\<lambda>_.
         modify (\<lambda>h. h\<lparr>hd_start_timecode := t, hd_has_timecode := True\<rparr>)))))"

definition dsdiff_has_start_timecode :: "bool hd_op" where
  "dsdiff_has_start_timecode = (\<lambda>h. (Ok (hd_has_timecode h), h))"

section \<open>Comments\<close>

definition dsdiff_get_comment_count :: "int hd_op" where
  "dsdiff_get_comment_count = (\<lambda>h. (Ok (uint (hd_comment_count h)), h))"

text \<open>The elements of an array of comments that are in use.\<close>

definition used_comments :: "dsdiff \<Rightarrow> dsdiff_comment list option" where
  "used_comments h = (let n = unat (hd_comment_count h) in case hd_comments h of
       None \<Rightarrow> if n = 0 then Some [] else None
     | Some cs \<Rightarrow> if n \<le> length cs then Some (take n cs) else None)"

definition dsdiff_get_comment :: "int \<Rightarrow> dsdiff_comment hd_op" where
  "dsdiff_get_comment comment_index = (\<lambda>h.
     if comment_index < 0 \<or> comment_index \<ge> uint (hd_comment_count h) then (Err DSDIFF_ERROR_NO_COMMENT, h)
     else case used_comments h of None \<Rightarrow> (Fault, h) | Some cs \<Rightarrow> (Ok (cs ! nat comment_index), h))"

text \<open>A copy of \<open>n\<close> characters of a text in a buffer of \<open>n + 1\<close> bytes, \<open>n + 1\<close> computed in 32
  bits; \<open>None\<close> when memory runs out.\<close>

definition copy_text :: "heap \<Rightarrow> byte list \<Rightarrow> u32 \<Rightarrow> byte list option hd_op" where
  "copy_text hp text n =
     (if \<not> sa_malloc hp (unat (n + 1)) then ret None
      else if length text + 1 < unat n \<or> unat (n + 1) \<noteq> unat n + 1 then fault
      else ret (Some (take (unat n) (text @ [0]))))"

text \<open>The comment is appended without its text before the text is copied; the count is increased
  last.\<close>

definition dsdiff_add_comment :: "heap \<Rightarrow> dsdiff_comment option \<Rightarrow> unit hd_op" where
  "dsdiff_add_comment hp comment = (case comment of
       None \<Rightarrow> fail DSDIFF_ERROR_INVALID_ARG
     | Some c \<Rightarrow>
         seq (ensure_mode is_writing DSDIFF_ERROR_MODE_READ_ONLY) (\<lambda>_.
         seq (dsdiff_verify_write_position hd_comment_chunk_pos) (\<lambda>_.
         seq get (\<lambda>h.
         seq (ensure (sa_malloc hp ((unat (hd_comment_count h) + 1) * 24)) DSDIFF_ERROR_OUT_OF_MEMORY) (\<lambda>_.
         case used_comments h of None \<Rightarrow> fault | Some cs \<Rightarrow>
           seq (modify (\<lambda>h. h\<lparr>hd_comments := Some (cs @ [c\<lparr>cm_text := None\<rparr>])\<rparr>)) (\<lambda>_.
           seq (case cm_text c of
                  Some text \<Rightarrow> if cm_text_length c > 0
                    then seq (copy_text hp text (cm_text_length c)) (\<lambda>copy.
                      seq (ensure (copy \<noteq> None) DSDIFF_ERROR_OUT_OF_MEMORY) (\<lambda>_.
                      modify (\<lambda>h. h\<lparr>hd_comments := Some (cs @ [c\<lparr>cm_text := copy\<rparr>])\<rparr>)))
                    else ret ()
                | None \<Rightarrow> ret ()) (\<lambda>_.
           modify (\<lambda>h. h\<lparr>hd_comment_count := hd_comment_count h + 1\<rparr>))))))))"

definition dsdiff_delete_comment :: "heap \<Rightarrow> int \<Rightarrow> unit hd_op" where
  "dsdiff_delete_comment hp comment_index = (\<lambda>h.
     if comment_index \<ge> uint (hd_comment_count h) \<or> comment_index < 0 then (Ok (), h)
     else if hd_comment_count h > 1 \<and> \<not> sa_malloc hp ((unat (hd_comment_count h) - 1) * 24)
     then (Err DSDIFF_ERROR_OUT_OF_MEMORY, h)
     else case used_comments h of None \<Rightarrow> (Fault, h)
       | Some cs \<Rightarrow> let i = nat comment_index in
           (Ok (), h\<lparr>hd_comments := (if hd_comment_count h > 1 then Some (take i cs @ drop (i + 1) cs) else None),
                     hd_comment_count := hd_comment_count h - 1\<rparr>))"

section \<open>Tags\<close>

text \<open>A copy of \<open>n\<close> bytes of the caller or of the handle, in an array of \<open>n\<close> bytes.\<close>

definition copy_bytes :: "heap \<Rightarrow> byte list option \<Rightarrow> u32 \<Rightarrow> byte list hd_op" where
  "copy_bytes hp data n =
     seq (ensure (sa_malloc hp (unat n)) DSDIFF_ERROR_OUT_OF_MEMORY) (\<lambda>_.
     case data of None \<Rightarrow> fault | Some bs \<Rightarrow> if unat n \<le> length bs then ret (take (unat n) bs) else fault)"

text \<open>A handle without a tag copies from NULL, which is undefined.\<close>

definition dsdiff_get_id3_tag :: "heap \<Rightarrow> (byte list \<times> u32) hd_op" where
  "dsdiff_get_id3_tag hp = seq get (\<lambda>h.
     seq (copy_bytes hp (hd_id3_tag h) (hd_id3_tag_size h)) (\<lambda>bs. ret (bs, hd_id3_tag_size h)))"

definition dsdiff_set_id3_tag :: "heap \<Rightarrow> byte list option \<Rightarrow> u32 \<Rightarrow> unit hd_op" where
  "dsdiff_set_id3_tag hp tag_data tag_size =
     seq (ensure (\<not> (tag_data = None \<or> tag_size = 0)) DSDIFF_ERROR_INVALID_ARG) (\<lambda>_.
     seq (ensure_mode is_writing DSDIFF_ERROR_MODE_READ_ONLY) (\<lambda>_.
     seq (dsdiff_verify_write_position hd_id3_chunk_pos) (\<lambda>_.
     seq (modify (\<lambda>h. h\<lparr>hd_id3_tag := None\<rparr>)) (\<lambda>_.
     seq (copy_bytes hp tag_data tag_size) (\<lambda>bs.
     modify (\<lambda>h. h\<lparr>hd_id3_tag := Some bs, hd_id3_tag_size := tag_size\<rparr>))))))"

definition dsdiff_get_track_id3_count :: "u32 hd_op" where
  "dsdiff_get_track_id3_count = (\<lambda>h. (Ok (hd_track_id3_count h), h))"

text \<open>An element of an array that may be missing or too short.\<close>

definition element :: "'a list ptr \<Rightarrow> u32 \<Rightarrow> 'a hd_op" where
  "element p i = seq (deref p) (\<lambda>xs. if unat i < length xs then ret (xs ! unat i) else fault)"

definition dsdiff_get_track_id3_tag :: "heap \<Rightarrow> u32 \<Rightarrow> (byte list \<times> u32) hd_op" where
  "dsdiff_get_track_id3_tag hp track_index = seq get (\<lambda>h.
     seq (ensure (\<not> track_index \<ge> hd_track_id3_count h) DSDIFF_ERROR_TRACK_INDEX_INVALID) (\<lambda>_.
     seq (element (hd_track_id3_tags h) track_index) (\<lambda>tag.
     seq (ensure (tag \<noteq> None) DSDIFF_ERROR_NO_TRACK_ID3) (\<lambda>_.
     seq (element (hd_track_id3_sizes h) track_index) (\<lambda>n.
     seq (ensure (n \<noteq> 0) DSDIFF_ERROR_NO_TRACK_ID3) (\<lambda>_.
     seq (copy_bytes hp tag n) (\<lambda>bs. ret (bs, n))))))))"

text \<open>The growth of the arrays for \<open>new_count\<close> tracks. When only the first reallocation succeeds,
  its larger array is kept.\<close>

definition extend_tracks :: "heap \<Rightarrow> u32 \<Rightarrow> unit hd_op" where
  "extend_tracks hp new_count = (\<lambda>h.
     if \<not> new_count > hd_track_id3_count h then (Ok (), h)
     else case (elements (hd_track_id3_tags h), elements (hd_track_id3_sizes h)) of
       (Some tags, Some sizes) \<Rightarrow>
         if \<not> sa_realloc hp (unat new_count * 8) then (Err DSDIFF_ERROR_OUT_OF_MEMORY, h)
         else if \<not> sa_realloc hp (unat new_count * 4)
         then (Err DSDIFF_ERROR_OUT_OF_MEMORY, h\<lparr>hd_track_id3_tags := Ptr tags\<rparr>)
         else (Ok (), grow_tracks (unat new_count) tags sizes h)
     | _ \<Rightarrow> (Fault, h))"

definition dsdiff_set_track_id3_tag :: "heap \<Rightarrow> u32 \<Rightarrow> byte list option \<Rightarrow> u32 \<Rightarrow> unit hd_op" where
  "dsdiff_set_track_id3_tag hp track_index tag_data tag_size =
     seq (ensure (\<not> (tag_data = None \<or> tag_size = 0)) DSDIFF_ERROR_INVALID_ARG) (\<lambda>_.
     seq (ensure_mode is_writing DSDIFF_ERROR_MODE_READ_ONLY) (\<lambda>_.
     seq (extend_tracks hp (track_index + 1)) (\<lambda>_.
     seq (on_err (copy_bytes hp tag_data tag_size) (set_track (unat track_index) None 0)) (\<lambda>bs.
     set_track (unat track_index) (Some bs) tag_size))))"

definition dsdiff_clear_track_id3_tag :: "u32 \<Rightarrow> unit hd_op" where
  "dsdiff_clear_track_id3_tag track_index = seq get (\<lambda>h.
     seq (ensure (\<not> track_index \<ge> hd_track_id3_count h) DSDIFF_ERROR_TRACK_INDEX_INVALID) (\<lambda>_.
     set_track (unat track_index) None 0))"

section \<open>Manufacturer data\<close>

definition dsdiff_has_manufacturer :: "bool hd_op" where
  "dsdiff_has_manufacturer = (\<lambda>h. (Ok (hd_has_manufacturer h), h))"

definition dsdiff_get_manufacturer :: "dsdiff_manufacturer hd_op" where
  "dsdiff_get_manufacturer = seq get (\<lambda>h.
     seq (ensure (hd_has_manufacturer h) DSDIFF_ERROR_NO_MANUFACTURER) (\<lambda>_.
     ret \<lparr>mn_man_id = hd_manufacturer_id h, mn_data_size = hd_manufacturer_data_size h,
          mn_data = hd_manufacturer_data h\<rparr>))"

definition dsdiff_set_manufacturer :: "heap \<Rightarrow> dsdiff_manufacturer option \<Rightarrow> unit hd_op" where
  "dsdiff_set_manufacturer hp manufacturer = (case manufacturer of
       None \<Rightarrow> fail DSDIFF_ERROR_INVALID_ARG
     | Some m \<Rightarrow>
         seq (ensure_mode is_writing DSDIFF_ERROR_MODE_READ_ONLY) (\<lambda>_.
         seq (dsdiff_verify_write_position hd_manufacturer_chunk_pos) (\<lambda>_.
         seq (if mn_data_size m > 0 \<and> mn_data m \<noteq> None
              then seq (copy_bytes hp (mn_data m) (mn_data_size m)) (\<lambda>bs. ret (Some bs)) else ret None) (\<lambda>new_data.
         modify (\<lambda>h. h\<lparr>hd_manufacturer_id := mn_man_id m, hd_manufacturer_data := new_data,
           hd_manufacturer_data_size := mn_data_size m, hd_has_manufacturer := True\<rparr>)))))"

section \<open>Markers\<close>

text \<open>The count as a signed number.\<close>

definition dsdiff_get_dsd_marker_count :: "int hd_op" where
  "dsdiff_get_dsd_marker_count = (\<lambda>h. (Ok (sint (dsdiff_marker_list_get_count (hd_markers h))), h))"

text \<open>The state has the caller's marker, which is filled in.\<close>

definition dsdiff_get_dsd_marker ::
  "heap \<Rightarrow> int \<Rightarrow> (dsdiff \<times> dsdiff_marker, dsdiff_error, unit) op" where
  "dsdiff_get_dsd_marker hp marker_index = (\<lambda>(h, marker).
     if marker_index < sint (dsdiff_marker_list_get_count (hd_markers h))
     then seq (on_snd (dsdiff_marker_list_get hp (hd_markers h) (of_int marker_index))) (\<lambda>_. ret ()) (h, marker)
     else (Err DSDIFF_ERROR_NO_MARKER, (h, marker)))"

definition on_markers :: "(dsdiff_marker_list, dsdiff_error, 'a) op \<Rightarrow> 'a hd_op" where
  "on_markers m = zoom hd_markers (\<lambda>ml h. h\<lparr>hd_markers := ml\<rparr>) m"

definition dsdiff_add_dsd_marker :: "heap \<Rightarrow> dsdiff_marker option \<Rightarrow> unit hd_op" where
  "dsdiff_add_dsd_marker hp marker = (case marker of
       None \<Rightarrow> fail DSDIFF_ERROR_INVALID_ARG
     | Some m \<Rightarrow>
         seq (ensure_mode is_writing DSDIFF_ERROR_MODE_READ_ONLY) (\<lambda>_.
         seq (dsdiff_verify_write_position hd_diin_chunk_pos) (\<lambda>_.
         \<lambda>h. on_markers (dsdiff_marker_list_add hp m (hd_sample_rate h)) h)))"

definition dsdiff_delete_dsd_marker :: "int \<Rightarrow> unit hd_op" where
  "dsdiff_delete_dsd_marker marker_index = (\<lambda>h.
     let marker_count = sint (dsdiff_marker_list_get_count (hd_markers h)) in
     if marker_index \<ge> marker_count \<or> marker_index < 0 then (Ok (), h)
     else on_markers (dsdiff_marker_list_remove (of_int marker_index)) h)"

definition dsdiff_sort_dsd_markers :: "unit hd_op" where
  "dsdiff_sort_dsd_markers = modify (\<lambda>h.
     if sint (dsdiff_marker_list_get_count (hd_markers h)) > 1
     then h\<lparr>hd_markers := dsdiff_marker_list_sort (hd_markers h),
            hd_diin_chunk_pos := (if hd_mode h = DSDIFF_FILE_MODE_MODIFY then 0 else hd_diin_chunk_pos h)\<rparr>
     else h)"

section \<open>Edited master identifier, artist and title\<close>

text \<open>The length with the terminator, as a signed number; no text has none.\<close>

definition text_size :: "bool \<Rightarrow> byte list option \<Rightarrow> int" where
  "text_size present text = (case text of
       Some t \<Rightarrow> if present then sint (of_nat (length (cstr t) + 1) :: u32) else 0
     | None \<Rightarrow> 0)"

text \<open>The bytes that are copied into the caller's buffer of \<open>length\<close> bytes.\<close>

definition get_text :: "bool \<Rightarrow> byte list option \<Rightarrow> dsdiff_error \<Rightarrow> u32 \<Rightarrow> byte list hd_op" where
  "get_text present text e buffer_length = (case text of
       Some t \<Rightarrow> if present
         then let copy_size = of_nat (length (cstr t) + 1) :: u32;
                  n = (if copy_size > buffer_length then buffer_length else copy_size)
              in ret (take (unat n) (cstr t @ [0]))
         else fail e
     | None \<Rightarrow> fail e)"

text \<open>The old text is freed before memory for the new one is asked for. A text of 4 GiB would
  leave a copy without terminator.\<close>

definition set_text ::
  "heap \<Rightarrow> (byte list option \<Rightarrow> dsdiff \<Rightarrow> dsdiff) \<Rightarrow> (dsdiff \<Rightarrow> dsdiff) \<Rightarrow> byte list option \<Rightarrow> unit hd_op" where
  "set_text hp store mark_present text = (case text of
       None \<Rightarrow> fail DSDIFF_ERROR_INVALID_ARG
     | Some t \<Rightarrow>
         seq (ensure_mode is_writing DSDIFF_ERROR_MODE_READ_ONLY) (\<lambda>_.
         seq (dsdiff_verify_write_position hd_diin_chunk_pos) (\<lambda>_.
         seq (modify (store None)) (\<lambda>_.
         let copy_size = of_nat (length (cstr t) + 1) :: u32 in
         seq (ensure (sa_malloc hp (unat copy_size)) DSDIFF_ERROR_OUT_OF_MEMORY) (\<lambda>_.
         if unat copy_size \<noteq> length (cstr t) + 1 then fault
         else seq (modify (store (Some (cstr t)))) (\<lambda>_. modify mark_present))))))"

definition dsdiff_has_emid :: "int hd_op" where
  "dsdiff_has_emid = (\<lambda>h. (Ok (text_size (hd_has_emid h) (hd_emid h)), h))"

definition dsdiff_get_emid :: "u32 \<Rightarrow> byte list hd_op" where
  "dsdiff_get_emid n = (\<lambda>h. get_text (hd_has_emid h) (hd_emid h) DSDIFF_ERROR_NO_EMID n h)"

definition dsdiff_set_emid :: "heap \<Rightarrow> byte list option \<Rightarrow> unit hd_op" where
  "dsdiff_set_emid hp emid = set_text hp (\<lambda>t h. h\<lparr>hd_emid := t\<rparr>) (\<lambda>h. h\<lparr>hd_has_emid := True\<rparr>) emid"

definition dsdiff_has_disc_artist :: "int hd_op" where
  "dsdiff_has_disc_artist = (\<lambda>h. (Ok (text_size (hd_has_disc_artist h) (hd_disc_artist h)), h))"

definition dsdiff_get_disc_artist :: "u32 \<Rightarrow> byte list hd_op" where
  "dsdiff_get_disc_artist n = (\<lambda>h. get_text (hd_has_disc_artist h) (hd_disc_artist h) DSDIFF_ERROR_NO_ARTIST n h)"

definition dsdiff_set_disc_artist :: "heap \<Rightarrow> byte list option \<Rightarrow> unit hd_op" where
  "dsdiff_set_disc_artist hp disc_artist =
     set_text hp (\<lambda>t h. h\<lparr>hd_disc_artist := t\<rparr>) (\<lambda>h. h\<lparr>hd_has_disc_artist := True\<rparr>) disc_artist"

definition dsdiff_has_disc_title :: "int hd_op" where
  "dsdiff_has_disc_title = (\<lambda>h. (Ok (text_size (hd_has_disc_title h) (hd_disc_title h)), h))"

definition dsdiff_get_disc_title :: "u32 \<Rightarrow> byte list hd_op" where
  "dsdiff_get_disc_title n = (\<lambda>h. get_text (hd_has_disc_title h) (hd_disc_title h) DSDIFF_ERROR_NO_TITLE n h)"

definition dsdiff_set_disc_title :: "heap \<Rightarrow> byte list option \<Rightarrow> unit hd_op" where
  "dsdiff_set_disc_title hp disc_title =
     set_text hp (\<lambda>t h. h\<lparr>hd_disc_title := t\<rparr>) (\<lambda>h. h\<lparr>hd_has_disc_title := True\<rparr>) disc_title"

section \<open>Error messages\<close>

fun dsdiff_error_code :: "dsdiff_error \<Rightarrow> int" where
  "dsdiff_error_code DSDIFF_ERROR_ALREADY_OPEN = - 1"
| "dsdiff_error_code DSDIFF_ERROR_NOT_OPEN = - 2"
| "dsdiff_error_code DSDIFF_ERROR_MODE_READ_ONLY = - 3"
| "dsdiff_error_code DSDIFF_ERROR_MODE_WRITE_ONLY = - 4"
| "dsdiff_error_code DSDIFF_ERROR_INVALID_FILE = - 10"
| "dsdiff_error_code DSDIFF_ERROR_INVALID_VERSION = - 11"
| "dsdiff_error_code DSDIFF_ERROR_UNSUPPORTED_COMPRESSION = - 12"
| "dsdiff_error_code DSDIFF_ERROR_UNEXPECTED_EOF = - 13"
| "dsdiff_error_code DSDIFF_ERROR_INVALID_CHUNK = - 14"
| "dsdiff_error_code DSDIFF_ERROR_READ_FAILED = - 20"
| "dsdiff_error_code DSDIFF_ERROR_WRITE_FAILED = - 21"
| "dsdiff_error_code DSDIFF_ERROR_SEEK_FAILED = - 22"
| "dsdiff_error_code DSDIFF_ERROR_END_OF_DATA = - 23"
| "dsdiff_error_code DSDIFF_ERROR_MAX_FILE_SIZE = - 24"
| "dsdiff_error_code DSDIFF_ERROR_FILE_NOT_FOUND = - 25"
| "dsdiff_error_code DSDIFF_ERROR_FILE_CREATE_FAILED = - 26"
| "dsdiff_error_code DSDIFF_ERROR_NO_CHANNEL_INFO = - 30"
| "dsdiff_error_code DSDIFF_ERROR_NO_TIMECODE = - 31"
| "dsdiff_error_code DSDIFF_ERROR_NO_LSCONFIG = - 32"
| "dsdiff_error_code DSDIFF_ERROR_NO_COMMENT = - 33"
| "dsdiff_error_code DSDIFF_ERROR_NO_EMID = - 34"
| "dsdiff_error_code DSDIFF_ERROR_NO_ARTIST = - 35"
| "dsdiff_error_code DSDIFF_ERROR_NO_TITLE = - 36"
| "dsdiff_error_code DSDIFF_ERROR_NO_MARKER = - 37"
| "dsdiff_error_code DSDIFF_ERROR_NO_CRC = - 38"
| "dsdiff_error_code DSDIFF_ERROR_NO_MANUFACTURER = - 39"
| "dsdiff_error_code DSDIFF_ERROR_INVALID_ARG = - 40"
| "dsdiff_error_code DSDIFF_ERROR_OUT_OF_MEMORY = - 41"
| "dsdiff_error_code DSDIFF_ERROR_INVALID_CHANNELS = - 42"
| "dsdiff_error_code DSDIFF_ERROR_INVALID_TIMECODE = - 43"
| "dsdiff_error_code DSDIFF_ERROR_INVALID_MODE = - 44"
| "dsdiff_error_code DSDIFF_ERROR_BUFFER_TOO_SMALL = - 45"
| "dsdiff_error_code DSDIFF_ERROR_POST_CREATE_FORBIDDEN = - 50"
| "dsdiff_error_code DSDIFF_ERROR_CHUNK_LOCKED = - 51"
| "dsdiff_error_code DSDIFF_ERROR_REQUIRES_DSD = - 60"
| "dsdiff_error_code DSDIFF_ERROR_REQUIRES_DST = - 61"
| "dsdiff_error_code DSDIFF_ERROR_CRC_ALREADY_PRESENT = - 62"
| "dsdiff_error_code DSDIFF_ERROR_NO_DST_INDEX = - 63"
| "dsdiff_error_code DSDIFF_ERROR_TRACK_INDEX_INVALID = - 70"
| "dsdiff_error_code DSDIFF_ERROR_NO_TRACK_ID3 = - 71"

definition error_messages :: "(dsdiff_error \<times> string) list" where
  "error_messages = [
     (DSDIFF_ERROR_ALREADY_OPEN, ''File already open''),
     (DSDIFF_ERROR_NOT_OPEN, ''File not open''),
     (DSDIFF_ERROR_MODE_READ_ONLY, ''File is open for reading only''),
     (DSDIFF_ERROR_MODE_WRITE_ONLY, ''File is open for writing only''),
     (DSDIFF_ERROR_INVALID_FILE, ''Invalid DSDIFF file''),
     (DSDIFF_ERROR_INVALID_VERSION, ''Invalid DSDIFF version''),
     (DSDIFF_ERROR_UNSUPPORTED_COMPRESSION, ''Unsupported compression type''),
     (DSDIFF_ERROR_UNEXPECTED_EOF, ''Unexpected end of file''),
     (DSDIFF_ERROR_INVALID_CHUNK, ''Invalid chunk structure''),
     (DSDIFF_ERROR_READ_FAILED, ''Read error''),
     (DSDIFF_ERROR_WRITE_FAILED, ''Write error''),
     (DSDIFF_ERROR_SEEK_FAILED, ''Seek error''),
     (DSDIFF_ERROR_END_OF_DATA, ''End of sound data reached''),
     (DSDIFF_ERROR_MAX_FILE_SIZE, ''Maximum file size exceeded''),
     (DSDIFF_ERROR_FILE_NOT_FOUND, ''File not found''),
     (DSDIFF_ERROR_FILE_CREATE_FAILED, ''Cannot create file''),
     (DSDIFF_ERROR_NO_CHANNEL_INFO, ''No channel information''),
     (DSDIFF_ERROR_NO_TIMECODE, ''No timecode information''),
     (DSDIFF_ERROR_NO_LSCONFIG, ''No loudspeaker configuration''),
     (DSDIFF_ERROR_NO_COMMENT, ''No comment at index''),
     (DSDIFF_ERROR_NO_EMID, ''No edited master ID''),
     (DSDIFF_ERROR_NO_ARTIST, ''No disc artist''),
     (DSDIFF_ERROR_NO_TITLE, ''No disc title''),
     (DSDIFF_ERROR_NO_MARKER, ''No marker at index''),
     (DSDIFF_ERROR_NO_CRC, ''No CRC data''),
     (DSDIFF_ERROR_NO_MANUFACTURER, ''No manufacturer data''),
     (DSDIFF_ERROR_INVALID_ARG, ''Invalid argument''),
     (DSDIFF_ERROR_OUT_OF_MEMORY, ''Out of memory''),
     (DSDIFF_ERROR_INVALID_CHANNELS, ''Invalid channel configuration''),
     (DSDIFF_ERROR_INVALID_TIMECODE, ''Invalid timecode''),
     (DSDIFF_ERROR_INVALID_MODE, ''Invalid file mode''),
     (DSDIFF_ERROR_BUFFER_TOO_SMALL, ''Buffer too small''),
     (DSDIFF_ERROR_POST_CREATE_FORBIDDEN, ''Operation not allowed after file creation''),
     (DSDIFF_ERROR_CHUNK_LOCKED, ''Chunk is locked and cannot be modified''),
     (DSDIFF_ERROR_REQUIRES_DSD, ''Operation requires DSD format''),
     (DSDIFF_ERROR_REQUIRES_DST, ''Operation requires DST format''),
     (DSDIFF_ERROR_CRC_ALREADY_PRESENT, ''CRC data already present''),
     (DSDIFF_ERROR_NO_DST_INDEX, ''No DST frame index available'')]"

definition dsdiff_error_string :: "int \<Rightarrow> string" where
  "dsdiff_error_string error_code =
     (if error_code = 0 then ''Success''
      else case map_of (map (\<lambda>(e, s). (dsdiff_error_code e, s)) error_messages) error_code of
          Some s \<Rightarrow> s | None \<Rightarrow> ''Unknown error'')"

end
