(* ===== verification/Dsdiff_Tags.thy ===== *)
theory Dsdiff_Tags
  imports Dsdiff_Codec
begin

text \<open>
  The bytes of the chunks of varying size: compression type, comments, texts, markers, tags and
  manufacturer data, and what reading them back gives. A text is stored up to its terminator; what
  a reader makes of a comment or of a marker that was stored is \<open>stored_comment\<close> and
  \<open>stored_marker\<close>.
\<close>

section \<open>Memory\<close>

text \<open>Requests of up to \<open>k\<close> bytes are granted.\<close>

definition ample :: "heap \<Rightarrow> nat \<Rightarrow> bool" where
  "ample hp k \<longleftrightarrow> (\<forall>n \<le> k. sa_malloc hp n)"

lemma ampleD: "ample hp k \<Longrightarrow> n \<le> k \<Longrightarrow> sa_malloc hp n"
  by (simp add: ample_def)

lemma unat_minus_one_u32: "unat (- 1 :: u32) = 4294967295"
  by (simp add: unsigned_minus_1_eq_mask mask_eq_exp_minus_1)

section \<open>CMPR\<close>

definition pstring_bytes :: "byte list \<Rightarrow> byte list" where
  "pstring_bytes name = [of_nat (length name)] @ name @ pad_if (even (length name))"

lemma emits_cmpr:
  assumes "length (cstr name) \<le> 255"
  shows "emits (dsdiff_chunk_write_cmpr t name)
    (id_bytes CMPR_FOURCC @
     be_enc 8 (unat (4 + 1 + of_nat (length (cstr name)) + (if length (cstr name) mod 2 = 0 then 1 else 0) :: u64)) @
     id_bytes (if t = DSDIFF_AUDIO_DST then DST_FOURCC else DSD_FOURCC) @ pstring_bytes (cstr name)) ()"
proof -
  let ?n = "length (cstr name)"
  have chars: "emits (if ?n > 0 then seq (dsdiff_io_write_bytes (take ?n (cstr name))) (\<lambda>_. ret ()) else ret ()) (cstr name) ()"
  proof (cases "cstr name = []")
    case False
    have "emits (seq (dsdiff_io_write_bytes (cstr name)) (\<lambda>_. ret ())) (cstr name @ []) ()"
      by (rule writer_steps)+
    then show ?thesis using False by simp
  qed (simp add: emits_ret)
  have pad: "emits (if (?n + 1) mod 2 \<noteq> 0 then dsdiff_io_write_pad_byte else ret ()) (pad_if (even ?n)) ()"
  proof -
    have "((?n + 1) mod 2 \<noteq> 0) = even ?n" by presburger
    then show ?thesis using emits_pad [of "even ?n"] by (simp only: write_pad_if_def)
  qed
  have "emits (dsdiff_io_write_pstring name) (pstring_bytes (cstr name)) ()"
    unfolding dsdiff_io_write_pstring_def pstring_bytes_def Let_def using assms
    by (simp only: not_less [symmetric] if_False) (rule writer_steps chars pad)+
  then show ?thesis
    unfolding dsdiff_chunk_write_cmpr_def Let_def by - (rule writer_steps | assumption)+
qed

lemma takes_pstring:
  assumes "length name \<le> unat limit" "length name < buffer_size" "length name \<le> 255"
  shows "\<exists>r. takes (dsdiff_io_read_pstring limit buffer_size) (pstring_bytes name) (r, name)"
proof -
  let ?n = "ucast (of_nat (length name) :: byte) :: u16"
  have n: "unat ?n = length name"
    using assms(3) by (simp add: unsigned_ucast_eq unat_of_nat_small take_bit_nat_eq_self)
  have chars: "takes (if ?n > 0 then dsdiff_io_read_bytes buffer_size (unat ?n) else ret []) name name"
  proof (cases "name = []")
    case True
    then show ?thesis by (simp add: takes_ret)
  next
    case False
    then have "?n > 0" by (metis n length_0_conv unat_eq_0 word_gt_0)
    then show ?thesis using takes_read_bytes [of name "unat ?n" buffer_size] n assms(2) by simp
  qed
  have odd: "(?n + 1) mod 2 \<noteq> 0 \<longleftrightarrow> even (length name)"
  proof -
    have "unat ((?n + 1) mod 2) = (length name + 1) mod 2"
      using assms(3) by (simp only: unat_mod unat_word_ariths n) simp
    moreover have "(length name + 1) mod 2 = 0 \<longleftrightarrow> odd (length name)" by presburger
    ultimately show ?thesis by (metis unat_eq_0)
  qed
  have pad: "takes (if (?n + 1) mod 2 \<noteq> 0 then seq dsdiff_io_read_pad_byte (\<lambda>_. ret (?n + 2, bs)) else ret (?n + 1, bs))
      (pad_if (even (length name))) (if even (length name) then ?n + 2 else ?n + 1, bs)" for bs
  proof (cases "even (length name)")
    case True
    have "takes (seq (read_pad_if True) (\<lambda>_. ret (?n + 2, bs))) (pad_if True @ []) (?n + 2, bs)"
      by (rule takes_seq takes_pad takes_ret)+
    then show ?thesis unfolding odd using True by (simp add: read_pad_if_def)
  next
    case False
    then show ?thesis unfolding odd by (simp add: pad_if_def takes_ret)
  qed
  have "takes (dsdiff_io_read_pstring limit buffer_size) ([of_nat (length name)] @ name @ pad_if (even (length name)))
      (if even (length name) then ?n + 2 else ?n + 1, name)"
    unfolding dsdiff_io_read_pstring_def Let_def
    by (rule takes_seq takes_integers takes_ensure_seq chars pad | simp add: n assms word_le_nat_alt not_less not_le; fail)+
  then show ?thesis unfolding pstring_bytes_def by blast
qed

section \<open>Comments\<close>

text \<open>The characters of a text that may be absent, and a text whose length fits its field.\<close>

definition chars_of :: "byte list option \<Rightarrow> byte list" where
  "chars_of x = (case x of None \<Rightarrow> [] | Some t \<Rightarrow> cstr t)"

definition text_ok :: "byte list option \<Rightarrow> bool" where
  "text_ok x \<longleftrightarrow> length (chars_of x) < 2 ^ 31"

lemma text_len_chars: "text_len x = of_nat (length (chars_of x))"
  by (simp add: text_len_def chars_of_def split: option.split)

lemma unat_text_len: "text_ok x \<Longrightarrow> unat (text_len x) = length (chars_of x)"
  by (simp add: text_len_chars text_ok_def unat_of_nat_small)

lemma odd_text_len: "text_ok x \<Longrightarrow> text_len x mod 2 \<noteq> 0 \<longleftrightarrow> odd (length (chars_of x))"
proof -
  assume "text_ok x"
  then have "unat (text_len x mod 2) = length (chars_of x) mod 2" by (simp add: unat_mod unat_text_len)
  then show ?thesis by (metis even_iff_mod_2_eq_zero unat_eq_0)
qed

definition comment_bytes :: "dsdiff_comment \<Rightarrow> byte list" where
  "comment_bytes c = be_enc 2 (unat (cm_year c)) @ [cm_month c] @ [cm_day c] @ [cm_hour c] @ [cm_minute c] @
     be_enc 2 (unat (cm_comment_type c)) @ be_enc 2 (unat (cm_comment_ref c)) @
     be_enc 4 (unat (text_len (cm_text c))) @ chars_of (cm_text c) @
     pad_if (odd (length (chars_of (cm_text c))))"

text \<open>An empty text comes back as none.\<close>

definition stored_text :: "byte list option \<Rightarrow> byte list option" where
  "stored_text x = (if chars_of x = [] then None else Some (chars_of x))"

definition stored_comment :: "dsdiff_comment \<Rightarrow> dsdiff_comment" where
  "stored_comment c = c\<lparr>cm_text_length := text_len (cm_text c), cm_text := stored_text (cm_text c)\<rparr>"

lemma emits_comment:
  assumes "text_ok (cm_text c)"
  shows "emits (write_comment c) (comment_bytes c) ()"
proof -
  let ?n = "text_len (cm_text c)"
  have chars: "emits (case cm_text c of Some t \<Rightarrow> if ?n > 0 then dsdiff_io_write_string (unat ?n) t else ret ()
      | None \<Rightarrow> ret ()) (chars_of (cm_text c)) ()"
  proof (cases "cm_text c")
    case None
    then show ?thesis by (simp add: chars_of_def emits_ret)
  next
    case (Some t)
    have n: "unat ?n = length (cstr t)"
      using unat_text_len [OF assms] Some by (simp add: chars_of_def)
    then have "?n > 0 \<longleftrightarrow> cstr t \<noteq> []" by (metis length_0_conv unat_eq_0 word_gt_0)
    then show ?thesis using emits_string [of "unat ?n" t] n Some by (simp add: chars_of_def emits_ret)
  qed
  show ?thesis
    unfolding write_comment_def comment_bytes_def Let_def odd_text_len [OF assms, symmetric]
    by (rule writer_steps chars emits_pad)+
qed

lemma takes_comment:
  assumes "text_ok (cm_text c)" "ample hp (2 ^ 31)"
  shows "takes (read_comment hp) (comment_bytes c) (stored_comment c)"
proof -
  let ?n = "text_len (cm_text c)" and ?t = "chars_of (cm_text c)"
  have n: "unat ?n = length ?t" using assms(1) by (rule unat_text_len)
  have small: "length ?t < 2 ^ 31" using assms(1) by (simp add: text_ok_def)
  have chars: "takes (if ?n > 0 then seq (read_text hp ?n) (\<lambda>t. seq (read_pad_if (?n mod 2 \<noteq> 0)) (\<lambda>_. ret (Some t)))
      else ret None) (?t @ pad_if (odd (length ?t))) (stored_text (cm_text c))"
  proof (cases "?t = []")
    case True
    then have "?n = 0" using n by (metis length_0_conv unat_eq_0)
    then show ?thesis using True by (simp add: stored_text_def pad_if_def takes_ret)
  next
    case False
    then have pos: "?n > 0" using n by (metis length_0_conv unat_eq_0 word_gt_0)
    have stored: "takes (read_text hp ?n) ?t ?t"
    proof (rule takes_text)
      show "?n \<noteq> - 1" proof
        assume "?n = - 1"
        then show False using n small by (simp add: unat_minus_one_u32)
      qed
      show "sa_malloc hp (unat ?n + 1)" using assms(2) small by (simp add: n ampleD)
    qed (simp add: n)
    have "takes (seq (read_text hp ?n) (\<lambda>t. seq (read_pad_if (?n mod 2 \<noteq> 0)) (\<lambda>_. ret (Some t))))
        (?t @ pad_if (odd (length ?t)) @ []) (Some ?t)"
      unfolding odd_text_len [OF assms(1), symmetric] by (rule takes_seq stored takes_pad takes_ret)+
    then show ?thesis using pos False by (simp add: stored_text_def)
  qed
  have "takes (read_comment hp) (be_enc 2 (unat (cm_year c)) @ [cm_month c] @ [cm_day c] @ [cm_hour c] @ [cm_minute c] @
      be_enc 2 (unat (cm_comment_type c)) @ be_enc 2 (unat (cm_comment_ref c)) @
      be_enc 4 (unat ?n) @ (?t @ pad_if (odd (length ?t))))
      \<lparr>cm_year = cm_year c, cm_month = cm_month c, cm_day = cm_day c, cm_hour = cm_hour c,
       cm_minute = cm_minute c, cm_comment_type = cm_comment_type c, cm_comment_ref = cm_comment_ref c,
       cm_text_length = ?n, cm_text = stored_text (cm_text c)\<rparr>"
    unfolding read_comment_def
    by (rule takes_seq, rule takes_integers)+ (rule takes_seq_last [OF chars takes_ret])
  moreover have "stored_comment c = \<lparr>cm_year = cm_year c, cm_month = cm_month c, cm_day = cm_day c, cm_hour = cm_hour c,
       cm_minute = cm_minute c, cm_comment_type = cm_comment_type c, cm_comment_ref = cm_comment_ref c,
       cm_text_length = ?n, cm_text = stored_text (cm_text c)\<rparr>"
    by (cases c) (simp add: stored_comment_def)
  ultimately show ?thesis by (simp add: comment_bytes_def)
qed

definition comments_bytes :: "dsdiff_comment list \<Rightarrow> byte list" where
  "comments_bytes cs = concat (map comment_bytes cs)"

lemma takes_comments:
  assumes "\<forall>c \<in> set cs. text_ok (cm_text c)" "ample hp (2 ^ 31)"
  shows "takes (read_comments hp (length cs)) (comments_bytes cs) (map stored_comment cs)"
  using assms(1)
proof (induction cs)
  case Nil
  then show ?case by (simp add: comments_bytes_def takes_Pair takes_ret)
next
  case (Cons c cs)
  have rest: "takes (read_comments hp (length cs)) (comments_bytes cs) (map stored_comment cs)"
    using Cons by simp
  have c: "takes (read_comment hp) (comment_bytes c) (stored_comment c)"
    using Cons.prems assms(2) by (simp add: takes_comment)
  have "takes (read_comments hp (Suc (length cs))) (comment_bytes c @ comments_bytes cs @ [])
      (stored_comment c # map stored_comment cs)"
    unfolding read_comments.simps by (rule takes_seq [OF c] takes_seq [OF rest] takes_ret)+
  then show ?case by (simp add: comments_bytes_def)
qed

lemma emits_comt:
  assumes "length cs < 2 ^ 16" "\<forall>c \<in> set cs. text_ok (cm_text c)"
  shows "emits (dsdiff_chunk_write_comt (of_nat (length cs)) (Some cs))
    (id_bytes COMT_FOURCC @ be_enc 8 (unat (comt_chunk_size cs)) @
     be_enc 2 (unat (of_nat (length cs) :: u16)) @ comments_bytes cs) ()"
proof -
  have n: "unat (of_nat (length cs) :: u16) = length cs"
    using assms(1) by (simp add: unat_of_nat_small)
  have "emits (for_loop 0 (length cs) (\<lambda>i. write_comment (cs ! i)))
      (concat (map (\<lambda>i. comment_bytes (cs ! i)) [0..<length cs])) ()"
    using assms(2) by (intro emits_for_loop emits_comment) simp
  then have loop: "emits (for_loop 0 (length cs) (\<lambda>i. write_comment (cs ! i))) (comments_bytes cs) ()"
    by (simp add: comments_bytes_def map_nth_upt [of comment_bytes])
  have eqs: "take (unat (of_nat (length cs) :: u16)) cs = cs"
    "(length cs < unat (of_nat (length cs) :: u16)) = False" by (simp_all add: n)
  show ?thesis
    unfolding dsdiff_chunk_write_comt_def Let_def option.case eqs if_False by (rule loop writer_steps)+
qed

lemma takes_comt:
  fixes n :: u64
  assumes "cs \<noteq> []" "length cs < 2 ^ 16" "\<forall>c \<in> set cs. text_ok (cm_text c)" "ample hp (2 ^ 31)"
  shows "takes_to (dsdiff_chunk_read_comt hp)
    (be_enc 8 (unat n) @ be_enc 2 (unat (of_nat (length cs) :: u16)) @ comments_bytes cs)
    (\<lambda>_. (of_nat (length cs), Some (map stored_comment cs))) ()"
proof -
  let ?n = "of_nat (length cs) :: u16"
  have n: "unat ?n = length cs" "?n \<noteq> 0"
    using assms(1,2) by (simp_all add: unat_of_nat_small word_unat_eq_iff)
  have cs: "takes (read_comments hp (unat ?n)) (comments_bytes cs) (map stored_comment cs)"
    using takes_comments [OF assms(3,4)] by (simp add: n)
  have mem: "sa_malloc hp (unat ?n * 24)"
    using assms(2,4) by (simp add: n ampleD)
  show ?thesis
    unfolding dsdiff_chunk_read_comt_def
    by (rule takes_to_cong, (rule reader_steps cs n(2) mem takes_to_false refl)+)
qed

section \<open>Identifier, artist and title\<close>

lemma emits_emid:
  "emits (dsdiff_chunk_write_emid (of_nat (length (cstr t))) (cstr t))
     (id_bytes EMID_FOURCC @ be_enc 8 (unat (of_nat (length (cstr t)) :: u64)) @ cstr t @ pad_if (odd (length (cstr t)))) ()"
  if "length (cstr t) < 2 ^ 31"
proof -
  let ?n = "of_nat (length (cstr t)) :: u64"
  have n: "unat ?n = length (cstr t)" using that by (simp add: unat_of_nat_small)
  have odd: "?n mod 2 \<noteq> 0 \<longleftrightarrow> odd (length (cstr t))"
  proof -
    have "unat (?n mod 2) = length (cstr t) mod 2" by (simp add: unat_mod n)
    then show ?thesis by (metis even_iff_mod_2_eq_zero unat_eq_0)
  qed
  have chars: "emits (dsdiff_io_write_string (unat ?n) (cstr t)) (cstr t) ()"
    using emits_string [of "unat ?n" "cstr t"] n by simp
  show ?thesis
    unfolding dsdiff_chunk_write_emid_def odd [symmetric] by (rule writer_steps chars emits_pad)+
qed

lemma takes_emid:
  assumes "length (cstr t) < 2 ^ 31" "ample hp (2 ^ 31)"
  shows "takes_to (dsdiff_chunk_read_emid hp)
     (be_enc 8 (unat (of_nat (length (cstr t)) :: u64)) @ cstr t @ pad_if (odd (length (cstr t)))) (\<lambda>_. Some (cstr t)) ()"
proof -
  let ?n = "of_nat (length (cstr t)) :: u64" let ?m = "ucast ?n :: u32"
  have m: "unat ?m = length (cstr t)"
    using assms(1) by (simp add: unsigned_ucast_eq unat_of_nat_small take_bit_nat_eq_self)
  have odd: "?m mod 2 \<noteq> 0 \<longleftrightarrow> odd (length (cstr t))"
  proof -
    have "unat (?m mod 2) = length (cstr t) mod 2" by (simp only: unat_mod m) simp
    then show ?thesis by (metis even_iff_mod_2_eq_zero unat_eq_0)
  qed
  have stored: "takes (read_text hp ?m) (cstr t) (cstr t)"
  proof (rule takes_text)
    show "?m \<noteq> - 1"
    proof
      assume minus: "?m = - 1"
      show False using m assms(1) unfolding minus unat_minus_one_u32 by simp
    qed
    show "sa_malloc hp (unat ?m + 1)" using assms by (simp only: m) (simp add: ampleD)
  qed (simp only: m)
  show ?thesis
    unfolding dsdiff_chunk_read_emid_def Let_def odd [symmetric]
    by (rule takes_to_cong, (rule reader_steps stored takes_pad refl)+)
qed

section \<open>Artist and title\<close>

text \<open>A text of \<open>n\<close> characters behind its length.\<close>

definition counted_size :: "nat \<Rightarrow> u64" where
  "counted_size n = ucast (of_nat n :: u32) + 4 + ucast (of_nat n mod 2 :: u32)"

definition counted_bytes :: "byte list \<Rightarrow> byte list" where
  "counted_bytes t = be_enc 4 (unat (of_nat (length t) :: u32)) @ t @ pad_if (odd (length t))"

lemma odd_of_nat_u32: "n < 2 ^ 31 \<Longrightarrow> (of_nat n :: u32) mod 2 \<noteq> 0 \<longleftrightarrow> odd n"
proof -
  assume "n < 2 ^ 31"
  then have "unat (of_nat n mod 2 :: u32) = n mod 2" by (simp add: unat_mod unat_of_nat_small)
  then show ?thesis by (metis even_iff_mod_2_eq_zero unat_eq_0)
qed

lemma emits_counted:
  assumes "length (cstr t) < 2 ^ 31"
  shows "emits (write_counted_text c (of_nat (length (cstr t))) (cstr t))
    (id_bytes c @ be_enc 8 (unat (counted_size (length (cstr t)))) @ counted_bytes (cstr t)) ()"
proof -
  let ?n = "of_nat (length (cstr t)) :: u64"
  have n: "unat ?n = length (cstr t)" using assms by (simp add: unat_of_nat_small)
  have cut: "(ucast ?n :: u32) = of_nat (length (cstr t))"
    using assms by (simp add: word_unat_eq_iff unsigned_ucast_eq unat_of_nat_small take_bit_nat_eq_self)
  have small: "\<not> ?n > 0xFFFFFFFF" using assms by (simp add: word_less_nat_alt n)
  have chars: "emits (dsdiff_io_write_string (unat ?n) (cstr t)) (cstr t) ()"
    using emits_string [of "unat ?n" "cstr t"] n by simp
  show ?thesis
    unfolding write_counted_text_def counted_size_def counted_bytes_def Let_def cut odd_of_nat_u32 [OF assms, symmetric]
    by (rule small chars emits_pad writer_steps)+
qed

lemma takes_counted:
  fixes n :: u64
  assumes "length t < 2 ^ 31" "ample hp (2 ^ 31)"
  shows "takes_to (read_counted_text hp) (be_enc 8 (unat n) @ counted_bytes t) (\<lambda>_. Some t) ()"
proof -
  let ?m = "of_nat (length t) :: u32"
  have m: "unat ?m = length t" using assms(1) by (simp add: unat_of_nat_small)
  have stored: "takes (read_text hp ?m) t t"
  proof (rule takes_text)
    show "?m \<noteq> - 1"
    proof
      assume minus: "?m = - 1"
      show False using m assms(1) unfolding minus unat_minus_one_u32 by simp
    qed
    show "sa_malloc hp (unat ?m + 1)" using assms by (simp only: m) (simp add: ampleD)
  qed (simp only: m)
  show ?thesis
    unfolding read_counted_text_def counted_bytes_def odd_of_nat_u32 [OF assms(1), symmetric]
    by (rule takes_to_cong, (rule reader_steps stored takes_pad refl)+)
qed

section \<open>Markers\<close>

definition marker_size :: "dsdiff_marker \<Rightarrow> u64" where
  "marker_size m = (let size0 = ucast (text_len (mk_marker_text m) + 22) :: u64 in
     if size0 mod 2 \<noteq> 0 then size0 + 1 else size0)"

definition marker_bytes :: "dsdiff_marker \<Rightarrow> byte list" where
  "marker_bytes m = be_enc 2 (unat (tc_hours (mk_time m))) @ [tc_minutes (mk_time m)] @ [tc_seconds (mk_time m)] @
     be_enc 4 (unat (tc_samples (mk_time m))) @ be_enc 4 (unat (of_int (mk_offset m) :: u32)) @
     be_enc 2 (unat (ucast (mk_mark_type m) :: u16)) @ be_enc 2 (unat (ucast (mk_mark_channel m) :: u16)) @
     be_enc 2 (unat (ucast (mk_track_flags m) :: u16)) @ be_enc 4 (unat (text_len (mk_marker_text m))) @
     chars_of (mk_marker_text m) @ pad_if (odd (length (chars_of (mk_marker_text m))))"

text \<open>Sixteen bits of the type, the channel and the flags are stored, and 32 of the offset.\<close>

definition stored_marker :: "dsdiff_marker \<Rightarrow> dsdiff_marker" where
  "stored_marker m = m\<lparr>mk_mark_type := ucast (ucast (mk_mark_type m) :: u16),
     mk_mark_channel := ucast (ucast (mk_mark_channel m) :: u16),
     mk_track_flags := ucast (ucast (mk_track_flags m) :: u16),
     mk_offset := sint (of_int (mk_offset m) :: u32),
     mk_text_length := text_len (mk_marker_text m), mk_marker_text := stored_text (mk_marker_text m)\<rparr>"

lemma emits_mark:
  assumes "text_ok (mk_marker_text m)"
  shows "emits (dsdiff_chunk_write_mark m)
    (id_bytes MARK_FOURCC @ be_enc 8 (unat (marker_size m)) @ marker_bytes m) ()"
proof -
  let ?n = "text_len (mk_marker_text m)" and ?t = "chars_of (mk_marker_text m)"
  have n: "unat ?n = length ?t" using assms by (rule unat_text_len)
  have chars: "emits (dsdiff_io_write_string (unat ?n) (case mk_marker_text m of Some t \<Rightarrow> t | None \<Rightarrow> [])) ?t ()"
    unfolding n using emits_string [of "length ?t" "case mk_marker_text m of Some t \<Rightarrow> t | None \<Rightarrow> []"]
    by (auto simp: chars_of_def cstr_def split: option.splits)
  have odd: "(?n + 22) mod 2 \<noteq> 0 \<longleftrightarrow> odd (length ?t)"
  proof -
    have "unat ((?n + 22) mod 2) = (length ?t + 22) mod 2"
      using assms by (simp add: unat_mod unat_word_ariths n text_ok_def)
    moreover have "(length ?t + 22) mod 2 = 0 \<longleftrightarrow> even (length ?t)" by presburger
    ultimately show ?thesis by (metis unat_eq_0)
  qed
  show ?thesis
    unfolding dsdiff_chunk_write_mark_def marker_size_def marker_bytes_def Let_def odd [symmetric]
    by (rule chars emits_pad writer_steps)+
qed

lemma takes_int32 [takes_intros]: "takes dsdiff_io_read_int32_be (be_enc 4 (unat (w :: u32))) (sint w)"
proof -
  have "takes (seq (dio_read_be 4) (\<lambda>v. ret (sint (of_nat v :: u32)))) (be_enc 4 (unat w) @ [])
      (sint (of_nat (be_dec (be_enc 4 (unat w))) :: u32))"
    by (rule takes_seq [OF takes_read_be takes_ret]) simp
  then show ?thesis by (simp add: dsdiff_io_read_int32_be_def be_dec_enc_word)
qed

lemma takes_to_on_err: "takes_to m bs f r \<Longrightarrow> takes_to (on_err m c) bs f r"
  by (simp add: takes_to_def on_err_def)

lemma takes_mark:
  assumes "text_ok (mk_marker_text m)" "ample hp (2 ^ 31)"
  shows "takes_to (dsdiff_chunk_read_mark hp) (be_enc 8 (unat (marker_size m)) @ marker_bytes m) (\<lambda>_. stored_marker m) ()"
proof -
  let ?n = "text_len (mk_marker_text m)" and ?t = "chars_of (mk_marker_text m)"
  have n: "unat ?n = length ?t" using assms(1) by (rule unat_text_len)
  have small: "length ?t < 2 ^ 31" using assms(1) by (simp add: text_ok_def)
  have ok: "ucast (?n + 22) = marker_size m \<or> ucast (?n + 22 + 1) = marker_size m"
  proof -
    have "unat (?n + 22 + 1) = unat (?n + 22) + 1"
      using small by (simp add: unat_word_ariths n)
    then have "(ucast (?n + 22) :: u64) + 1 = ucast (?n + 22 + 1)"
      by (simp add: word_unat_eq_iff unat_word_ariths unsigned_ucast_eq take_bit_nat_eq_self unsigned_less)
    then show ?thesis by (simp add: marker_size_def Let_def)
  qed
  have chars: "takes_to (if ?n > 0 then read_to (read_text hp ?n) (\<lambda>t m. m\<lparr>mk_marker_text := Some t\<rparr>) else ret ()) ?t
      (\<lambda>x. if ?t = [] then x else x\<lparr>mk_marker_text := Some ?t\<rparr>) ()"
  proof (cases "?t = []")
    case True
    then have "?n = 0" using n by (metis length_0_conv unat_eq_0)
    then show ?thesis using True takes_to_ret [of "()"] by simp
  next
    case False
    then have pos: "?n > 0" using n by (metis length_0_conv unat_eq_0 word_gt_0)
    have "takes (read_text hp ?n) ?t ?t"
    proof (rule takes_text)
      show "?n \<noteq> - 1"
      proof
        assume minus: "?n = - 1"
        show False using n small unfolding minus unat_minus_one_u32 by simp
      qed
      show "sa_malloc hp (unat ?n + 1)" using assms(2) small by (simp add: n ampleD)
    qed (simp add: n)
    from takes_to_read_to [OF this, of "\<lambda>t m. m\<lparr>mk_marker_text := Some t\<rparr>"]
    show ?thesis using pos False by simp
  qed
  have pad: "takes_to (if ?n mod 2 \<noteq> 0 then on_err (on_fst dsdiff_io_read_pad_byte)
        (put_out (\<lambda>m. m\<lparr>mk_marker_text := None\<rparr>)) else ret ()) (pad_if (odd (length ?t))) (\<lambda>x. x) ()"
  proof (cases "odd (length ?t)")
    case True
    have "takes dsdiff_io_read_pad_byte [0] ()"
      using takes_pad [of True] by (simp add: read_pad_if_def pad_if_def)
    then show ?thesis
      using True odd_text_len [OF assms(1)] by (simp add: pad_if_def takes_to_on_err takes_to_on_fst)
  next
    case False
    then show ?thesis using odd_text_len [OF assms(1)] takes_to_ret [of "()"] by (simp add: pad_if_def)
  qed
  show ?thesis
    unfolding dsdiff_chunk_read_mark_def marker_bytes_def
    by (rule takes_to_cong, (rule chars pad ok reader_steps takes_int32 refl)+)
      (auto simp: stored_marker_def stored_text_def set_time_def)
qed

section \<open>Writing a chunk and reading it back\<close>

lemma seek_set_put:
  assumes "dio_is_open s" "int q \<le> INT64_MAX"
  shows "seek_set (of_nat q) (dio_put s d p) = (Ok (Some (of_nat q)), dio_put s d q)"
  using assms by (cases s rule: dio_cases)
    (auto simp: dio_view_defs seek_set_def sint_u64_nat dsdiff_io_seek_def on_stream_Some fseek_def ftell_def)

lemma dio_position_put:
  assumes "dio_is_open s" "int p \<le> INT64_MAX"
  shows "dsdiff_io_get_position (dio_put s d p) = (Ok (of_nat p), dio_put s d p)"
  by (rule dsdiff_stream.tell_at [OF assms])

text \<open>Room for \<open>n\<close> bytes at the position, which is not behind the end.\<close>

definition room :: "dsdiff_io option \<Rightarrow> nat \<Rightarrow> bool" where
  "room s n \<longleftrightarrow> dio_is_open s \<and> dio_can_read s \<and> dio_can_write s (dio_position s + n) \<and>
     dio_position s \<le> length (dio_contents s) \<and> int (dio_position s + n) \<le> INT64_MAX"

text \<open>A chunk is written, and from where it starts its identifier and the rest are read.\<close>

definition write_then_read ::
  "unit dio_op \<Rightarrow> ('o, unit) dck_op \<Rightarrow> ('o, dsdiff_chunk_type) dck_op" where
  "write_then_read wr rd =
     seq (on_fst dsdiff_io_get_position) (\<lambda>p.
     seq (on_fst wr) (\<lambda>_.
     seq (on_fst (seek_set p)) (\<lambda>_.
     seq (\<lambda>(s, out). case dsdiff_chunk_read_header (s, DSDIFF_CHUNK_UNKNOWN) of
           (r, (s', ct)) \<Rightarrow> (case r of Ok _ \<Rightarrow> Ok ct | Err e \<Rightarrow> Err e | Fault \<Rightarrow> Fault, (s', out))) (\<lambda>ct.
     seq rd (\<lambda>_. ret ct)))))"

lemma write_then_read_ok:
  assumes wr: "emits wr (id_bytes c @ body) ()" and rd: "takes_to rd body f ()"
    and ct: "map_of DSDIFF_CHUNK_LIST c = Some ct" and room: "room s (4 + length body)"
  shows "\<exists>s'. write_then_read wr rd (s, out) = (Ok ct, (s', f out)) \<and>
    dio_position s' = dio_position s + 4 + length body"
proof -
  let ?d = "dio_contents s" and ?p = "dio_position s"
  let ?d' = "patch ?d ?p (id_bytes c @ body)"
  have s: "dio_is_open s" "dio_can_read s" "?p \<le> length ?d" and w: "dio_can_write s (?p + length (id_bytes c @ body))"
    and p: "int ?p \<le> INT64_MAX"
    using room by (auto simp: room_def add.assoc)
  note at_pos = dsdiff_stream.at_id [OF s(1)]
  have b: "bytes_at ?p (length (id_bytes c @ body)) ?d' = id_bytes c @ body"
    using s(3) by (rule bytes_at_patch_same) simp
  note parts = bytes_at_appendD [OF b]
  have 1: "dsdiff_io_get_position s = (Ok (of_nat ?p), s)"
    using dio_position_put [OF s(1) p, of ?d] at_pos by simp
  have 2: "wr s = (Ok (), dio_put s ?d' (?p + length (id_bytes c @ body)))"
    using emitsD [OF wr s(1) w, of ?d] at_pos by simp
  have 3: "seek_set (of_nat ?p) (dio_put s ?d' (?p + length (id_bytes c @ body))) =
      (Ok (Some (of_nat ?p)), dio_put s ?d' ?p)"
    using s(1) p by (rule seek_set_put)
  have 4: "dsdiff_chunk_read_header (dio_put s ?d' ?p, x) = (Ok (), (dio_put s ?d' (?p + 4), ct))" for x
    using takes_toD [OF takes_to_header [OF ct] s(1,2) parts(1)] by simp
  have 5: "rd (dio_put s ?d' (?p + 4), out) = (Ok (), (dio_put s ?d' (?p + 4 + length body), f out))"
    using takes_toD [OF rd s(1,2), of "?p + 4" ?d'] parts(2) by simp
  have "write_then_read wr rd (s, out) = (Ok ct, (dio_put s ?d' (?p + 4 + length body), f out))"
    unfolding write_then_read_def seq_def on_fst_def zoom_def using 1 2 3 4 5 by simp
  then show ?thesis using dsdiff_stream.at_position [OF s(1)] by blast
qed

end
