(* ===== verification/Dsdiff_Properties.thy ===== *)
theory Dsdiff_Properties
  imports Dsdiff_Api Dsdiff_Tags
begin

text \<open>
  Properties of the chunks and of the metadata of libdsdiff: what is written is read back, the
  markers are sorted, and what becomes of a handle whose files fail.
\<close>

section \<open>Objects for the witnesses\<close>

definition roomy_heap :: heap where
  "roomy_heap = \<lparr>max_alloc_size = 2 ^ 31, platform_alloc = \<lambda>_. True\<rparr>"

definition edited_file :: "dsdiff_io option" where
  "edited_file = Some \<lparr>dio_file = Ptr \<lparr>fpath = ''a.dff'', fdata = [], fpos = 0, freadable = True,
     fwritable = True, fcap = 4096\<rparr>, dio_filename = ''a.dff'', dio_mode = DSDIFF_FILE_MODE_MODIFY\<rparr>"

definition hello_comment :: dsdiff_comment where
  "hello_comment = \<lparr>cm_year = 2024, cm_month = 2, cm_day = 29, cm_hour = 23, cm_minute = 59,
     cm_comment_type = 3, cm_comment_ref = 1, cm_text_length = 0, cm_text = Some [72, 105, 33]\<rparr>"

definition start_marker :: dsdiff_marker where
  "start_marker = \<lparr>mk_time = \<lparr>tc_hours = 1, tc_minutes = 2, tc_seconds = 3, tc_samples = 2822399\<rparr>,
     mk_mark_type = 0, mk_mark_channel = 0x10002, mk_track_flags = 4, mk_offset = - 5, mk_text_length = 9,
     mk_marker_text = Some [65, 0, 66]\<rparr>"

lemma roomy_heap_ample: "ample roomy_heap (2 ^ 31)"
  by (simp add: ample_def sa_malloc_def roomy_heap_def)

lemma edited_file_room: "n \<le> 4096 \<Longrightarrow> room edited_file n"
  by (simp add: room_def edited_file_def dio_view_defs)

section \<open>The sizes of the chunks\<close>

lemma unat_comt_chunk_size:
  assumes "length cs < 2 ^ 16" "\<forall>c \<in> set cs. text_ok (cm_text c)"
  shows "unat (comt_chunk_size cs) = 2 + length (comments_bytes cs)"
proof -
  have each: "14 + ucast (text_len (cm_text c)) + (if text_len (cm_text c) mod 2 \<noteq> 0 then 1 else 0) =
      (of_nat (length (comment_bytes c)) :: u64)" if "text_ok (cm_text c)" for c
  proof -
    have "(ucast (text_len (cm_text c)) :: u64) = of_nat (length (chars_of (cm_text c)))"
      using unat_text_len [OF that] by (metis ucast_eq of_int_of_nat_eq uint_nat)
    then show ?thesis
      using odd_text_len [OF that] by (auto simp: comment_bytes_def pad_if_def)
  qed
  have sum: "comt_chunk_size cs = of_nat (2 + length (comments_bytes cs))"
    using assms(2) by (induction cs) (simp_all add: comt_chunk_size_def comments_bytes_def each [simplified])
  have "length (comments_bytes cs) \<le> length cs * (15 + 2 ^ 31)"
    using assms(2)
  proof (induction cs)
    case (Cons c cs)
    have "length (comment_bytes c) \<le> 15 + 2 ^ 31"
      using Cons.prems by (simp add: comment_bytes_def text_ok_def pad_if_def)
    then show ?case using Cons by (simp add: comments_bytes_def)
  qed (simp add: comments_bytes_def)
  moreover have "length cs * (15 + 2 ^ 31) \<le> 2 ^ 16 * (15 + 2 ^ 31)"
    using assms(1) by (intro mult_right_mono) simp_all
  ultimately have "2 + length (comments_bytes cs) < 2 ^ LENGTH(64)" by simp
  then show ?thesis unfolding sum by (rule unat_of_nat_small)
qed

lemma unat_marker_size:
  assumes "text_ok (mk_marker_text m)"
  shows "unat (marker_size m) = length (marker_bytes m)"
proof -
  let ?n = "text_len (mk_marker_text m)" and ?k = "length (chars_of (mk_marker_text m))"
  have n: "unat ?n = ?k" using assms by (rule unat_text_len)
  have "unat (ucast (?n + 22) :: u64) = ?k + 22"
    using assms by (simp add: unsigned_ucast_eq unat_word_ariths n text_ok_def take_bit_nat_eq_self)
  then have s: "(ucast (?n + 22) :: u64) = of_nat (?k + 22)" using assms
      unat_of_nat_small [of "?k + 22", where 'a = 64] by (simp add: word_unat_eq_iff text_ok_def)
  have more: "of_nat (?k + 22) + 1 = (of_nat (?k + 23) :: u64)" by simp
  have u: "unat (of_nat (?k + 22) + 1 :: u64) = ?k + 23" "unat (of_nat (?k + 22) :: u64) = ?k + 22"
    unfolding more by (rule unat_of_nat_small, use assms in \<open>simp add: text_ok_def\<close>)+
  have "unat (of_nat (?k + 22) mod 2 :: u64) = (?k + 22) mod 2"
    by (simp only: unat_mod u) simp
  moreover have "(?k + 22) mod 2 = 0 \<longleftrightarrow> even ?k" by presburger
  ultimately have "(of_nat (?k + 22) :: u64) mod 2 \<noteq> 0 \<longleftrightarrow> odd ?k" by (metis unat_eq_0)
  then show ?thesis
    unfolding marker_size_def s Let_def by (simp only: u split: if_split) (simp add: marker_bytes_def pad_if_def)
qed

section \<open>Chunks are read back as they were written\<close>

text \<open>C27. Comments that are written as a comment chunk are read back: the same number, each with its
  date, type and reference, its text up to the terminator and the length of that text. The size
  field is the number of bytes between it and the next chunk.\<close>

theorem comments_roundtrip:
  assumes "cs \<noteq> []" "length cs < 2 ^ 16" "\<forall>c \<in> set cs. text_ok (cm_text c)" "ample hp (2 ^ 31)"
    and "room s (14 + length (comments_bytes cs))"
  shows "\<exists>s'. write_then_read (dsdiff_chunk_write_comt (of_nat (length cs)) (Some cs))
      (dsdiff_chunk_read_comt hp) (s, out) =
      (Ok DSDIFF_CHUNK_COMT, (s', (of_nat (length cs), Some (map stored_comment cs)))) \<and>
    dio_position s' = dio_position s + 12 + unat (comt_chunk_size cs)"
proof -
  have list: "map_of DSDIFF_CHUNK_LIST COMT_FOURCC = Some DSDIFF_CHUNK_COMT"
    by (simp add: DSDIFF_CHUNK_LIST_def fourcc_values)
  show ?thesis
    using write_then_read_ok [OF emits_comt [OF assms(2,3)] takes_comt [OF assms(1-4)] list, of s out] assms(2,3,5)
    by (auto simp: unat_comt_chunk_size)
qed

theorem comments_roundtrip_witness:
  "\<exists>s'. write_then_read (dsdiff_chunk_write_comt 1 (Some [hello_comment])) (dsdiff_chunk_read_comt roomy_heap)
      (edited_file, (0, None)) =
      (Ok DSDIFF_CHUNK_COMT, (s', (1, Some [hello_comment\<lparr>cm_text_length := 3\<rparr>]))) \<and> dio_position s' = 32"
proof -
  have bytes: "length (comments_bytes [hello_comment]) = 18" "comt_chunk_size [hello_comment] = 20"
    by (simp_all add: comments_bytes_def comment_bytes_def hello_comment_def chars_of_def cstr_def pad_if_def
        comt_chunk_size_def text_len_def)
  have stored: "stored_comment hello_comment = hello_comment\<lparr>cm_text_length := 3\<rparr>"
    by (simp add: stored_comment_def hello_comment_def stored_text_def chars_of_def cstr_def text_len_def)
  show ?thesis
    using comments_roundtrip [of "[hello_comment]" roomy_heap edited_file "(0, None)"] roomy_heap_ample
      edited_file_room [of 32]
    by (simp add: bytes stored) (simp add: hello_comment_def text_ok_def chars_of_def cstr_def edited_file_def dio_position_def)
qed

text \<open>C34. A marker that is written as a marker chunk is read back with its time and its text, and
  with the low 16 bits of its type, channel and flags and the low 32 bits of its offset. The size
  field is the number of bytes between it and the next chunk, and is even.\<close>

theorem marker_roundtrip:
  assumes "text_ok (mk_marker_text m)" "ample hp (2 ^ 31)" "room s (12 + length (marker_bytes m))"
  shows "(\<exists>s'. write_then_read (dsdiff_chunk_write_mark m) (dsdiff_chunk_read_mark hp) (s, out) =
      (Ok DSDIFF_CHUNK_MARK, (s', stored_marker m)) \<and>
      dio_position s' = dio_position s + 12 + unat (marker_size m)) \<and> even (unat (marker_size m))"
proof -
  have list: "map_of DSDIFF_CHUNK_LIST MARK_FOURCC = Some DSDIFF_CHUNK_MARK"
    by (simp add: DSDIFF_CHUNK_LIST_def fourcc_values)
  have "even (length (marker_bytes m))"
    by (simp add: marker_bytes_def pad_if_def)
  then show ?thesis
    using write_then_read_ok [OF emits_mark [OF assms(1)] takes_mark [OF assms(1,2)] list, of s out] assms(1,3)
    by (auto simp: unat_marker_size)
qed

theorem marker_roundtrip_witness:
  "\<exists>s'. write_then_read (dsdiff_chunk_write_mark start_marker) (dsdiff_chunk_read_mark roomy_heap)
      (edited_file, zero_marker) =
      (Ok DSDIFF_CHUNK_MARK, (s', start_marker\<lparr>mk_mark_channel := 2, mk_text_length := 1, mk_marker_text := Some [65]\<rparr>)) \<and>
    dio_position s' = 36"
proof -
  have bytes: "length (marker_bytes start_marker) = 24" "marker_size start_marker = 24"
    by (simp_all add: marker_bytes_def start_marker_def chars_of_def cstr_def pad_if_def marker_size_def text_len_def)
  have stored: "stored_marker start_marker =
      start_marker\<lparr>mk_mark_channel := 2, mk_text_length := 1, mk_marker_text := Some [65]\<rparr>"
    by (simp add: stored_marker_def start_marker_def stored_text_def chars_of_def cstr_def text_len_def)
  show ?thesis
    using marker_roundtrip [of start_marker roomy_heap edited_file zero_marker] roomy_heap_ample
      edited_file_room [of 36]
    by (simp add: bytes stored) (simp add: start_marker_def text_ok_def chars_of_def cstr_def edited_file_def dio_position_def)
qed

text \<open>Up to 1000 channel identifiers, each a generic or a named one, that are written as a channel
  chunk are read back in order.\<close>

theorem channels_roundtrip:
  assumes "ids \<noteq> []" "length ids \<le> 1000" "\<forall>c \<in> set ids. unat c < 1008" "sa_malloc hp (length ids * 4)"
    and "room s (14 + 4 * length ids)"
  shows "\<exists>s'. write_then_read (dsdiff_chunk_write_chnl (of_nat (length ids)) (Ptr (map Some ids)))
      (dsdiff_chunk_read_chnl hp) (s, out) =
      (Ok DSDIFF_CHUNK_CHNL, (s', (of_nat (length ids), Ptr (map Some ids)))) \<and>
    dio_position s' = dio_position s + 14 + 4 * length ids"
proof -
  have list: "map_of DSDIFF_CHUNK_LIST CHNL_FOURCC = Some DSDIFF_CHUNK_CHNL"
    by (simp add: DSDIFF_CHUNK_LIST_def fourcc_values)
  have wr: "emits (dsdiff_chunk_write_chnl (of_nat (length ids)) (Ptr (map Some ids)))
    (id_bytes CHNL_FOURCC @ be_enc 8 (unat (2 + ucast (of_nat (length ids) :: u16) * 4 :: u64)) @
     be_enc 2 (unat (of_nat (length ids) :: u16)) @ channels_bytes ids) ()"
    using assms by (intro emits_chnl) simp_all
  show ?thesis
    using write_then_read_ok [OF wr takes_chnl [OF assms(1-4)] list, of s out] assms(5)
    by auto
qed

theorem channels_roundtrip_witness:
  "\<exists>s'. write_then_read (dsdiff_chunk_write_chnl 3 (Ptr [Some 1000, Some 7, Some 1007]))
      (dsdiff_chunk_read_chnl roomy_heap) (edited_file, (0, Null)) =
      (Ok DSDIFF_CHUNK_CHNL, (s', (3, Ptr [Some 1000, Some 7, Some 1007]))) \<and> dio_position s' = 26"
  using channels_roundtrip [of "[1000, 7, 1007]" roomy_heap edited_file "(0, Null)"] edited_file_room [of 26]
  by (simp add: roomy_heap_def sa_malloc_def) (simp add: edited_file_def dio_position_def)

section \<open>Markers and times\<close>

text \<open>C25. Sorting the markers of a handle leaves the same markers, stably sorted by their distance
  from the start in samples, a track start before any other marker at the same time.\<close>

theorem markers_sorted:
  assumes "ml_count (hd_markers h) = of_nat (length (ml_entries (hd_markers h)))"
    and "length (ml_entries (hd_markers h)) < 2 ^ 31"
  shows "\<exists>h'. dsdiff_sort_dsd_markers h = (Ok (), h') \<and>
    ml_entries (hd_markers h') = sort_key marker_key (ml_entries (hd_markers h)) \<and>
    ml_count (hd_markers h') = ml_count (hd_markers h)"
proof -
  let ?n = "length (ml_entries (hd_markers h))"
  have s: "sint (ml_count (hd_markers h)) = int ?n" and u: "unat (ml_count (hd_markers h)) = ?n"
    using assms by (simp_all add: sint_uint unsigned_of_nat take_bit_nat_eq_self signed_take_bit_int_eq_self)
  show ?thesis
  proof (cases "?n \<le> 1")
    case True
    then have "sort_key marker_key (ml_entries (hd_markers h)) = ml_entries (hd_markers h)"
      by (cases "ml_entries (hd_markers h)") simp_all
    then show ?thesis using True s
      by (simp add: dsdiff_sort_dsd_markers_def modify_def dsdiff_marker_list_get_count_def)
  next
    case False
    then have "\<not> ml_count (hd_markers h) \<le> 1" using u by (simp add: word_le_nat_alt)
    then show ?thesis using False s
      by (simp add: dsdiff_sort_dsd_markers_def modify_def dsdiff_marker_list_get_count_def
          dsdiff_marker_list_sort_def merge_sort_eq)
  qed
qed

text \<open>A handle with a track start and an index mark at the same time, and an earlier mark.\<close>

definition entry_at :: "u32 \<Rightarrow> byte \<Rightarrow> dsdiff_marker_entry" where
  "entry_at t sec = \<lparr>me_time = \<lparr>tc_hours = 0, tc_minutes = 0, tc_seconds = sec, tc_samples = 0\<rparr>,
     me_mark_type = t, me_marker_text = None, me_sample_rate = 2822400\<rparr>"

theorem markers_sorted_witness:
  "\<exists>h'. dsdiff_sort_dsd_markers (zero_dsdiff\<lparr>hd_markers :=
      \<lparr>ml_entries = [entry_at 4 9, entry_at 0 9, entry_at 1 5], ml_count = 3\<rparr>\<rparr>) = (Ok (), h') \<and>
    ml_entries (hd_markers h') = [entry_at 1 5, entry_at 0 9, entry_at 4 9]"
proof -
  have sorted: "sort_key marker_key [entry_at 4 9, entry_at 0 9, entry_at 1 5] = [entry_at 1 5, entry_at 0 9, entry_at 4 9]"
    by (simp add: marker_key_def entry_at_def dsdiff_marker_to_samples_def less_eq_prod_def)
  show ?thesis
    unfolding sorted [symmetric]
    using markers_sorted [of "zero_dsdiff\<lparr>hd_markers :=
      \<lparr>ml_entries = [entry_at 4 9, entry_at 0 9, entry_at 1 5], ml_count = 3\<rparr>\<rparr>"] by auto
qed

text \<open>The samples from zero to a time of day.\<close>

definition time_samples :: "dsdiff_timecode \<Rightarrow> nat \<Rightarrow> nat" where
  "time_samples t rate =
     ((unat (tc_hours t) * 60 + unat (tc_minutes t)) * 60 + unat (tc_seconds t)) * rate + unat (tc_samples t)"

lemma unat_lt_size: "unat (x :: 'z :: len word) < 2 ^ LENGTH('z)"
  by (rule unsigned_less)

lemma carry_parts:
  fixes h m s n r :: nat
  defines "S \<equiv> n div r + s"
  defines "M \<equiv> S div 60 + m"
  shows "(((M div 60 + h) * 60 + M mod 60) * 60 + S mod 60) * r + n mod r = ((h * 60 + m) * 60 + s) * r + n"
proof -
  have shift: "(q + k) * 60 + z = k * 60 + (q * 60 + z)" for q k z :: nat by simp
  have a: "(M div 60 + h) * 60 + M mod 60 = h * 60 + M"
    using shift [of "M div 60" h "M mod 60"] by simp
  have b: "(h * 60 + M) * 60 + S mod 60 = (h * 60 + m) * 60 + S"
    using shift [of "S div 60" "h * 60 + m" "S mod 60"] by (simp add: M_def ac_simps)
  have c: "(X + S) * r + n mod r = (X + s) * r + n" for X
  proof -
    have "(X + (q + s)) * r + z = (X + s) * r + (q * r + z)" for q z
      by (simp add: algebra_simps)
    from this [of "n div r" "n mod r"] show ?thesis by (simp add: S_def)
  qed
  show ?thesis by (simp only: a b c)
qed

text \<open>Normalising a time keeps the moment it stands for and brings samples, seconds and minutes into
  their ranges, unless the hours no longer fit 16 bits. A sample rate of 0 leaves it alone.\<close>

theorem timecode_normalize_same_moment:
  assumes "rate \<noteq> 0" "time_samples t (unat rate) div unat rate div 3600 < 2 ^ 16"
  defines "t' \<equiv> dsdiff_timecode_normalize t rate"
  shows "time_samples t' (unat rate) = time_samples t (unat rate) \<and> tc_samples t' < rate \<and>
    tc_seconds t' < 60 \<and> tc_minutes t' < 60"
proof -
  define r where "r = unat rate"
  define n s m h where "n = unat (tc_samples t)" and "s = unat (tc_seconds t)" and "m = unat (tc_minutes t)"
    and "h = unat (tc_hours t)"
  define S where "S = n div r + s"
  define M where "M = S div 60 + m"
  have r: "0 < r" using assms(1) by (simp add: r_def unat_gt_0)
  have "n < 2 ^ 32" using unat_lt_size [of "tc_samples t"] by (simp add: n_def)
  then have small: "n div r < 2 ^ 32" by (rule le_less_trans [OF div_le_dividend])
  have small': "s < 256" "m < 256" "h < 65536"
    using unat_lt_size [of "tc_seconds t"] unat_lt_size [of "tc_minutes t"] unat_lt_size [of "tc_hours t"]
    by (simp_all add: s_def m_def h_def)
  have S: "S < 2 ^ 33" and M: "M < 2 ^ 34" using small small' by (auto simp: S_def M_def)
  have w: "ucast (tc_samples t div rate) + ucast (tc_seconds t) = (of_nat S :: u64)"
    by (simp add: S_def n_def s_def r_def unat_div [symmetric])
  have w2: "of_nat S div 60 + ucast (tc_minutes t) = (of_nat M :: u64)"
  proof -
    have "unat (of_nat S div 60 :: u64) = S div 60"
      using S by (simp add: unat_div unat_of_nat_small)
    then have "(of_nat S div 60 :: u64) = of_nat (S div 60)"
      using S by (simp add: word_unat_eq_iff unat_of_nat_small)
    then show ?thesis by (simp add: M_def m_def)
  qed
  have time: "time_samples t r = ((h * 60 + m) * 60 + s) * r + n"
    by (simp add: time_samples_def n_def s_def m_def h_def)
  have "M div 60 + h = time_samples t r div r div 3600"
  proof -
    have d: "time_samples t r div r = (h * 60 + m) * 60 + S"
      using r by (simp add: time S_def)
    have e: "((h * 60 + m) * 60 + S) div 60 = h * 60 + M" by (simp add: M_def)
    have "time_samples t r div r div 3600 = time_samples t r div r div 60 div 60"
      using div_mult2_eq [of "time_samples t r div r" 60 60] by simp
    then show ?thesis by (simp only: d e)
  qed
  then have H: "M div 60 + h < 2 ^ 16" using assms(2) by (simp add: r_def)
  have parts: "unat (tc_hours t') = M div 60 + h" "unat (tc_minutes t') = M mod 60"
    "unat (tc_seconds t') = S mod 60" "unat (tc_samples t') = n mod r"
  proof -
    have "of_nat M div 60 = (of_nat (M div 60) :: u64)"
      using M by (simp add: word_unat_eq_iff unat_div unat_of_nat_small)
    then have "of_nat M div 60 + ucast (tc_hours t) = (of_nat (M div 60 + h) :: u64)"
      by (simp add: h_def)
    then have t': "t' = \<lparr>tc_hours = ucast (of_nat (M div 60 + h) :: u64), tc_minutes = ucast (of_nat M mod 60 :: u64),
        tc_seconds = ucast (of_nat S mod 60 :: u64), tc_samples = tc_samples t mod rate\<rparr>"
      using assms(1) by (simp add: t'_def dsdiff_timecode_normalize_def Let_def w w2)
    have "unat (of_nat M mod 60 :: u64) = M mod 60" "unat (of_nat S mod 60 :: u64) = S mod 60"
      using M S by (simp_all add: unat_mod unat_of_nat_small)
    moreover have "M mod 60 < 256" "S mod 60 < 256" by (rule less_trans [OF mod_less_divisor]; simp)+
    moreover have "unat (of_nat (M div 60 + h) :: u64) = M div 60 + h"
      using H by (intro unat_of_nat_small) simp
    ultimately show "unat (tc_hours t') = M div 60 + h" "unat (tc_minutes t') = M mod 60"
      "unat (tc_seconds t') = S mod 60" "unat (tc_samples t') = n mod r"
      using H by (simp_all add: t' unsigned_ucast_eq take_bit_nat_eq_self unat_mod n_def r_def del: of_nat_add)
  qed
  have "time_samples t' r = (((M div 60 + h) * 60 + M mod 60) * 60 + S mod 60) * r + n mod r"
    by (simp only: time_samples_def parts)
  also have "\<dots> = ((h * 60 + m) * 60 + s) * r + n"
    unfolding M_def S_def by (rule carry_parts)
  finally show ?thesis
    using r by (simp add: r_def [symmetric] time word_less_nat_alt parts)
qed

theorem timecode_normalize_same_moment_witness:
  "dsdiff_timecode_normalize \<lparr>tc_hours = 7, tc_minutes = 59, tc_seconds = 200, tc_samples = 100\<rparr> 75 =
     \<lparr>tc_hours = 8, tc_minutes = 2, tc_seconds = 21, tc_samples = 25\<rparr> \<and>
   time_samples \<lparr>tc_hours = 8, tc_minutes = 2, tc_seconds = 21, tc_samples = 25\<rparr> 75 =
     time_samples \<lparr>tc_hours = 7, tc_minutes = 59, tc_seconds = 200, tc_samples = 100\<rparr> 75"
proof -
  let ?t = "\<lparr>tc_hours = 7, tc_minutes = 59, tc_seconds = 200, tc_samples = 100\<rparr> :: dsdiff_timecode"
  have n: "dsdiff_timecode_normalize ?t 75 = \<lparr>tc_hours = 8, tc_minutes = 2, tc_seconds = 21, tc_samples = 25\<rparr>"
    by (simp add: dsdiff_timecode_normalize_def Let_def)
  have "time_samples ?t (unat (75 :: u32)) div unat (75 :: u32) div 3600 < 2 ^ 16"
    by (simp add: time_samples_def)
  then show ?thesis using timecode_normalize_same_moment [of 75 ?t] n by simp
qed

section \<open>Texts\<close>

text \<open>Reading a text of a length that the file gives overflows its buffer exactly when the length
  is the largest 32-bit number: the request for the characters and the terminator is then for
  nothing, a single byte is obtained, and two bytes of the file suffice to write past it.\<close>

theorem text_overflow_iff:
  assumes "dio_is_open s" "dio_can_read s"
  shows "fst (read_text hp n s) = Fault \<longleftrightarrow>
    n = - 1 \<and> sa_malloc hp 0 \<and> dio_position s + 2 \<le> length (dio_contents s)"
proof -
  obtain io f where s: "s = Some io" "dio_file io = Ptr f" "freadable f"
    using assms by (auto simp: dio_view_defs)
  define k where "k = length (fst (fread (unat n) f))"
  have k: "k = min (length (fdata f) - fpos f) (unat n)"
    using s(3) by (simp add: k_def fread_def Let_def)
  have body: "fst (dsdiff_io_read_string b (unat n) s) = Fault \<longleftrightarrow> b < k \<or> k = unat n \<and> b \<le> unat n" for b
    using s k by (auto simp: dsdiff_io_read_string_def dsdiff_io_read_bytes_def dio_fread_def on_stream_Some
        seq_def k_def simp flip: length_greater_0_conv split: prod.splits if_splits)
  have rd: "fst (read_text hp n s) = Fault \<longleftrightarrow>
      sa_malloc hp (unat (n + 1)) \<and> fst (dsdiff_io_read_string (max 1 (unat (n + 1))) (unat n) s) = Fault"
    by (simp add: read_text_def ensure_def seq_def ret_def fail_def)
  show ?thesis
  proof (cases "n = - 1")
    case True
    have pos: "1 < k \<longleftrightarrow> dio_position s + 2 \<le> length (dio_contents s)"
      using s unfolding k True unat_minus_one_u32 by (auto simp: dio_view_defs)
    have "unat (n + 1) = 0" "unat n = 4294967295" using True unat_minus_one_u32 by simp_all
    then show ?thesis unfolding rd body pos [symmetric] using True by auto
  next
    case False
    then have "unat (n + 1) = unat n + 1"
      by (metis Suc_eq_plus1 add.commute unatSuc add_eq_0_iff2 minus_equation_iff)
    then show ?thesis using False k unfolding rd body by auto
  qed
qed

theorem text_overflow_iff_witness:
  "fst (read_text roomy_heap (- 1) (dio_put edited_file [7, 7] 0)) = Fault"
  using text_overflow_iff [of "dio_put edited_file [7, 7] 0" roomy_heap "- 1"]
  by (simp add: edited_file_def dio_view_defs sa_malloc_def roomy_heap_def)

section \<open>Comments\<close>

lemma unat_of_nat_next: "n + 1 < 2 ^ LENGTH('a::len) \<Longrightarrow> unat (of_nat n + 1 :: 'a word) = n + 1"
  by (metis of_nat_1 of_nat_add unat_of_nat_small)

lemma unat_add_nat: "unat a + n < 2 ^ LENGTH('a::len) \<Longrightarrow> unat (a + of_nat n :: 'a word) = unat a + n"
  using unat_of_nat_small [of "unat a + n", where 'a = 'a] by simp

lemma unat_ucast_wide: "unat (ucast (n :: u32) :: u64) = unat n"
  using unat_lt_size [of n] by (simp add: unsigned_ucast_eq take_bit_nat_eq_self)

lemma uint_eq_int: "unat w = n \<Longrightarrow> uint w = int n"
  by auto

lemma copy_text_ok:
  assumes "length t < 2 ^ 31" "sa_malloc hp (length t + 1)"
  shows "copy_text hp t (of_nat (length t)) h = (Ok (Some t), h)"
proof -
  have "unat (of_nat (length t) :: u32) = length t" "unat (of_nat (length t) + 1 :: u32) = length t + 1"
    by (rule unat_of_nat_small unat_of_nat_next; use assms(1) in simp)+
  then show ?thesis using assms(2) by (simp add: copy_text_def)
qed

lemma used_comments_count: "used_comments h = Some cs \<Longrightarrow> unat (hd_comment_count h) = length cs"
  by (auto simp: used_comments_def Let_def split: option.splits if_splits)

lemma add_comment_ok:
  assumes "is_writing (hd_mode h)" "dsdiff_is_chunk_writable h (hd_comment_chunk_pos h)"
    and "sa_malloc hp ((length cs + 1) * 24)" "used_comments h = Some cs"
    and "cm_text c = Some t" "cm_text_length c = of_nat (length t)" "cm_text_length c > 0"
    and "length t < 2 ^ 31" "sa_malloc hp (length t + 1)"
  shows "dsdiff_add_comment hp (Some c) h =
    (Ok (), h\<lparr>hd_comments := Some (cs @ [c]), hd_comment_count := hd_comment_count h + 1\<rparr>)"
proof -
  have c: "c\<lparr>cm_text := Some t\<rparr> = c" using assms(5) by simp
  note copy = copy_text_ok [OF assms(8,9)]
  show ?thesis
    using assms(1-7) used_comments_count [OF assms(4)]
    by (simp add: dsdiff_add_comment_def ensure_mode_def dsdiff_verify_write_position_def copy c)
qed

text \<open>C26. On a handle open for writing the comments are a list: adding appends the comment with its
  text, which is then found at the last index, and deleting removes the comment at an index.\<close>

theorem comments_refine_list:
  assumes "is_writing (hd_mode h)" "dsdiff_is_chunk_writable h (hd_comment_chunk_pos h)" "ample hp (2 ^ 31)"
    and "used_comments h = Some cs" "length cs < 65535"
    and "cm_text c = Some t" "cm_text_length c = of_nat (length t)" "t \<noteq> []" "length t < 2 ^ 31"
  shows "(\<exists>h'. dsdiff_add_comment hp (Some c) h = (Ok (), h') \<and> used_comments h' = Some (cs @ [c]) \<and>
      dsdiff_get_comment (int (length cs)) h' = (Ok c, h')) \<and>
    (\<forall>i < length cs. \<exists>h'. dsdiff_delete_comment hp (int i) h = (Ok (), h') \<and>
      used_comments h' = Some (take i cs @ drop (i + 1) cs))"
proof
  note n = used_comments_count [OF assms(4)]
  let ?h = "h\<lparr>hd_comments := Some (cs @ [c]), hd_comment_count := hd_comment_count h + 1\<rparr>"
  have n': "unat (hd_comment_count h + 1) = length cs + 1"
    using assms(5) n by (simp add: unat_word_ariths)
  have "unat (cm_text_length c) = length t"
    unfolding assms(7) by (rule unat_of_nat_small) (use assms(9) in simp)
  then have some: "cm_text_length c > 0" using assms(8) by (metis length_0_conv unat_0 word_gt_0)
  have mem: "sa_malloc hp ((length cs + 1) * 24)" "sa_malloc hp (length t + 1)"
    by (rule ampleD [OF assms(3)]; use assms(5,9) in simp)+
  have "dsdiff_add_comment hp (Some c) h = (Ok (), ?h)"
    by (rule add_comment_ok [OF assms(1,2) mem(1) assms(4,6,7) some assms(9) mem(2)])
  moreover have u: "used_comments ?h = Some (cs @ [c])"
    by (simp add: used_comments_def n')
  moreover have "dsdiff_get_comment (int (length cs)) ?h = (Ok c, ?h)"
    using u by (simp add: dsdiff_get_comment_def nth_append uint_eq_int [OF n'])
  ultimately show "\<exists>h'. dsdiff_add_comment hp (Some c) h = (Ok (), h') \<and> used_comments h' = Some (cs @ [c]) \<and>
      dsdiff_get_comment (int (length cs)) h' = (Ok c, h')" by blast
  show "\<forall>i < length cs. \<exists>h'. dsdiff_delete_comment hp (int i) h = (Ok (), h') \<and>
      used_comments h' = Some (take i cs @ drop (i + 1) cs)"
  proof (intro allI impI)
    fix i assume i: "i < length cs"
    have pos: "uint (hd_comment_count h) = int (length cs)" using n by (rule uint_eq_int)
    have more: "hd_comment_count h > 1 \<longleftrightarrow> length cs > 1" using n by (simp add: word_less_nat_alt)
    have n'': "unat (hd_comment_count h - 1) = length cs - 1"
      using n i by (metis One_nat_def diff_Suc_1 gr_implies_not0 unat_eq_zero unat_minus_one)
    have mem: "sa_malloc hp ((length cs - 1) * 24)" using assms(3,5) by (simp add: ampleD)
    let ?h' = "h\<lparr>hd_comments := (if length cs > 1 then Some (take i cs @ drop (i + 1) cs) else None),
      hd_comment_count := hd_comment_count h - 1\<rparr>"
    have "dsdiff_delete_comment hp (int i) h = (Ok (), ?h')"
      using i mem assms(4) by (simp add: dsdiff_delete_comment_def pos more n Let_def)
    moreover have "used_comments ?h' = Some (take i cs @ drop (i + 1) cs)"
      using i by (auto simp: used_comments_def n'' Let_def)
    ultimately show "\<exists>h'. dsdiff_delete_comment hp (int i) h = (Ok (), h') \<and>
        used_comments h' = Some (take i cs @ drop (i + 1) cs)" by blast
  qed
qed

theorem comments_refine_list_witness:
  "\<exists>h'. dsdiff_add_comment roomy_heap (Some (hello_comment\<lparr>cm_text_length := 3\<rparr>))
      (zero_dsdiff\<lparr>hd_mode := DSDIFF_FILE_MODE_WRITE\<rparr>) = (Ok (), h') \<and>
    used_comments h' = Some [hello_comment\<lparr>cm_text_length := 3\<rparr>]"
  using comments_refine_list [of "zero_dsdiff\<lparr>hd_mode := DSDIFF_FILE_MODE_WRITE\<rparr>" roomy_heap "[]"
      "hello_comment\<lparr>cm_text_length := 3\<rparr>" "[72, 105, 33]"] roomy_heap_ample
  by (auto simp: zero_dsdiff_def is_writing_def dsdiff_is_chunk_writable_def used_comments_def hello_comment_def)

section \<open>Sound data\<close>

text \<open>A handle on a file of ten bytes whose bytes from 2 to 8 are the sound data of two channels.\<close>

definition playing :: "nat \<Rightarrow> dsdiff" where
  "playing p = zero_dsdiff\<lparr>hd_io := dio_put edited_file [0, 1, 2, 3, 4, 5, 6, 7, 8, 9] p,
     hd_mode := DSDIFF_FILE_MODE_READ, hd_channel_count := 2, hd_sound_data_start_pos := 2,
     hd_sound_data_end_pos := 8\<rparr>"

lemmas playing_simps = playing_def zero_dsdiff_def edited_file_def dio_view_defs

lemma seek_set_open:
  assumes "dio_is_open s" "unat q < 2 ^ 63"
  shows "seek_set q s = (Ok (Some q), dio_put s (dio_contents s) (unat q))"
proof -
  have "(2 :: nat) ^ 63 = 9223372036854775808" by simp
  then have "int (unat q) \<le> INT64_MAX" using assms(2) by linarith
  from seek_set_put [OF assms(1) this, of "dio_contents s" "dio_position s"]
  show ?thesis by (simp add: dsdiff_stream.at_id [OF assms(1)])
qed

lemma get_position_open:
  assumes "dio_is_open s" "dio_position s < 2 ^ 63"
  shows "dsdiff_io_get_position s = (Ok (of_nat (dio_position s)), s)"
proof -
  have "(2 :: nat) ^ 63 = 9223372036854775808" by simp
  then have "int (dio_position s) \<le> INT64_MAX" using assms(2) by linarith
  from dio_position_put [OF assms(1) this, of "dio_contents s"]
  show ?thesis by (simp add: dsdiff_stream.at_id [OF assms(1)])
qed

lemma on_dio_apply: "m (hd_io h) = (r, s') \<Longrightarrow> on_dio m h = (r, h\<lparr>hd_io := s'\<rparr>)"
  by (simp add: on_dio_def zoom_def)

lemma same_io [simp]: "h\<lparr>hd_io := hd_io h\<rparr> = h"
  by simp

lemma seek_in_data:
  assumes "hd_mode h = DSDIFF_FILE_MODE_READ" "\<not> hd_is_dst_format h" "dio_is_open (hd_io h)"
    and "dio_position (hd_io h) < 2 ^ 63" "hd_sound_data_start_pos h \<le> hd_sound_data_end_pos h"
    and "unat (hd_sound_data_end_pos h) < 2 ^ 63" "off * unat (hd_channel_count h) < 2 ^ 63"
  shows "dsdiff_seek_dsd_data (int off) SEEK_SET h = (Ok (), h\<lparr>hd_io := dio_put (hd_io h) (dio_contents (hd_io h))
    (min (unat (hd_sound_data_end_pos h)) (unat (hd_sound_data_start_pos h) + off * unat (hd_channel_count h)))\<rparr>)"
proof -
  let ?start = "hd_sound_data_start_pos h" and ?fin = "hd_sound_data_end_pos h" and ?cc = "unat (hd_channel_count h)"
  have tell: "on_dio dsdiff_io_get_position h = (Ok (of_nat (dio_position (hd_io h))), h)"
    using on_dio_apply [of dsdiff_io_get_position h, OF get_position_open [OF assms(3,4)]] by simp
  define b where "b = off * ?cc"
  have off: "int off * uint (hd_channel_count h) = int b" by (simp add: b_def)
  have "(2 :: nat) ^ 63 = 9223372036854775808" by simp
  then have max: "int b \<le> INT64_MAX" using assms(7) unfolding b_def by linarith
  have le: "unat ?start \<le> unat ?fin" using assms(5) by (simp add: word_le_nat_alt)
  then have "unat ?start + b < 2 ^ LENGTH(64)" using assms(6,7) unfolding b_def by simp
  then have pos: "unat (?start + of_nat b) = unat ?start + b" by (rule unat_add_nat)
  then have after: "\<not> ?start + of_nat b < ?start" by (simp add: word_less_nat_alt)
  let ?q = "if ?start + of_nat b > ?fin then ?fin else ?start + of_nat b"
  have q: "unat ?q = min (unat ?fin) (unat ?start + b)"
    using pos by (simp add: word_less_nat_alt)
  then have go: "seek_set ?q (hd_io h) = (Ok (Some ?q), dio_put (hd_io h) (dio_contents (hd_io h)) (unat ?q))"
    using assms(6) by (intro seek_set_open [OF assms(3)]) simp
  have c: "c_int64 (int b) s = (Ok (int b), s)" for s using max by (simp add: c_int64_def)
  show ?thesis
    unfolding b_def [symmetric] q [symmetric]
    by (simp add: dsdiff_seek_dsd_data_def ensure_mode_def assms(1,2) tell off c after Let_def on_dio_apply [where h = h and m = "seek_set ?q", OF go] cong: if_cong split del: if_split)
qed

text \<open>A handle that reads seeks to the wanted frame, counted from the start of the sound data, and
  at most to the end of the data; nothing else of the handle changes.\<close>

theorem seek_set_clamped:
  assumes "hd_mode h = DSDIFF_FILE_MODE_READ" "\<not> hd_is_dst_format h" "dio_is_open (hd_io h)"
    and "dio_position (hd_io h) < 2 ^ 63" "hd_sound_data_start_pos h \<le> hd_sound_data_end_pos h"
    and "unat (hd_sound_data_end_pos h) < 2 ^ 63" "off * unat (hd_channel_count h) < 2 ^ 63"
  shows "dsdiff_seek_dsd_data (int off) SEEK_SET h = (Ok (), h\<lparr>hd_io := dio_put (hd_io h) (dio_contents (hd_io h))
    (min (unat (hd_sound_data_end_pos h)) (unat (hd_sound_data_start_pos h) + off * unat (hd_channel_count h)))\<rparr>)"
  using assms by (rule seek_in_data)

theorem seek_set_clamped_witness:
  "dsdiff_seek_dsd_data 2 SEEK_SET (playing 9) = (Ok (), playing 6) \<and>
   dsdiff_seek_dsd_data 7 SEEK_SET (playing 9) = (Ok (), playing 8)"
  using seek_set_clamped [of "playing 9" 2] seek_set_clamped [of "playing 9" 7] by (simp add: playing_simps)

lemma read_in_data:
  assumes "hd_mode h = DSDIFF_FILE_MODE_READ" "\<not> hd_is_dst_format h" "dio_is_open (hd_io h)" "dio_can_read (hd_io h)"
    and "dio_position (hd_io h) < unat (hd_sound_data_end_pos h)" "unat (hd_sound_data_end_pos h) < 2 ^ 63"
    and "unat (hd_sound_data_end_pos h) \<le> length (dio_contents (hd_io h))" "unat n \<le> buffer_size" "n \<noteq> 0"
  defines "k \<equiv> min (unat n) (unat (hd_sound_data_end_pos h) - dio_position (hd_io h))"
  shows "dsdiff_read_dsd_data buffer_size n h =
    (Ok (bytes_at (dio_position (hd_io h)) k (dio_contents (hd_io h))),
     h\<lparr>hd_io := dio_put (hd_io h) (dio_contents (hd_io h)) (dio_position (hd_io h) + k)\<rparr>)"
proof -
  let ?fin = "hd_sound_data_end_pos h" and ?p = "dio_position (hd_io h)"
  have "?p < 2 ^ 63" using assms(5,6) by simp
  then have tell: "on_dio dsdiff_io_get_position h = (Ok (of_nat ?p), h)"
    using on_dio_apply [of dsdiff_io_get_position h, OF get_position_open [OF assms(3)]] by simp
  have p: "unat (of_nat ?p :: u64) = ?p" by (rule unat_of_nat_small) (use assms(5,6) in simp)
  have n: "unat (ucast n :: u64) = unat n" by (rule unat_ucast_wide)
  have "unat (of_nat ?p :: u64) + unat n < 2 ^ LENGTH(64)"
    using unat_lt_size [of n] assms(5,6) p by simp
  from unat_add_nat [OF this] have sum: "unat (of_nat ?p + ucast n :: u64) = ?p + unat n"
    by (simp add: p)
  let ?t = "if of_nat ?p + ucast n > ?fin then ?fin - of_nat ?p else ucast n :: u64"
  have t: "unat ?t = k"
    using assms(5) by (auto simp: word_less_nat_alt sum p n k_def unat_sub word_le_nat_alt)
  have rd: "dsdiff_io_read_bytes buffer_size (unat ?t) (hd_io h) =
      (Ok (bytes_at ?p k (dio_contents (hd_io h))), dio_put (hd_io h) (dio_contents (hd_io h)) (?p + k))"
  proof -
    have "takes (dsdiff_io_read_bytes buffer_size (unat ?t)) (bytes_at ?p k (dio_contents (hd_io h)))
        (bytes_at ?p k (dio_contents (hd_io h)))"
      by (rule takes_read_bytes) (use assms(5,7,8) in \<open>auto simp: t length_bytes_at k_def\<close>)
    from takesD [OF this assms(3,4), of ?p "dio_contents (hd_io h)"] show ?thesis
      using assms(5,7) by (simp add: length_bytes_at k_def dsdiff_stream.at_id [OF assms(3)])
  qed
  have lt: "of_nat ?p < ?fin" using assms(5) by (simp add: word_less_nat_alt p)
  show ?thesis
    by (simp add: dsdiff_read_dsd_data_def ensure_mode_def assms(1,2,9) tell lt Let_def on_dio_apply [where h = h and m = "dsdiff_io_read_bytes buffer_size (unat ?t)", OF rd] split del: if_split)
qed

text \<open>Reading on a handle that reads yields the bytes of the file from the position, as many as
  were asked for and are left before the end of the sound data, and moves on by that number.\<close>

theorem read_dsd_data_bounded:
  assumes "hd_mode h = DSDIFF_FILE_MODE_READ" "\<not> hd_is_dst_format h" "dio_is_open (hd_io h)" "dio_can_read (hd_io h)"
    and "dio_position (hd_io h) < unat (hd_sound_data_end_pos h)" "unat (hd_sound_data_end_pos h) < 2 ^ 63"
    and "unat (hd_sound_data_end_pos h) \<le> length (dio_contents (hd_io h))" "unat n \<le> buffer_size" "n \<noteq> 0"
  defines "k \<equiv> min (unat n) (unat (hd_sound_data_end_pos h) - dio_position (hd_io h))"
  shows "dsdiff_read_dsd_data buffer_size n h =
    (Ok (bytes_at (dio_position (hd_io h)) k (dio_contents (hd_io h))),
     h\<lparr>hd_io := dio_put (hd_io h) (dio_contents (hd_io h)) (dio_position (hd_io h) + k)\<rparr>)"
  unfolding k_def using assms(1-9) by (rule read_in_data)

theorem read_dsd_data_bounded_witness:
  "dsdiff_read_dsd_data 100 4 (playing 3) = (Ok [3, 4, 5, 6], playing 7) \<and>
   dsdiff_read_dsd_data 100 50 (playing 3) = (Ok [3, 4, 5, 6, 7], playing 8)"
  using read_dsd_data_bounded [of "playing 3" 4 100] read_dsd_data_bounded [of "playing 3" 50 100]
  by (simp add: playing_simps bytes_at_def)

end
