(* ===== verification/Dsdiff_Contracts.thy ===== *)
theory Dsdiff_Contracts
  imports Dsdiff_Terminates Dsdiff_Properties
begin

text \<open>
  Properties of opening and creating DSDIFF files: when opening returns, when it does not, and what
  a failed creation leaves behind.
\<close>

section \<open>Opening a file\<close>

lemma dchunk_open_stream:
  assumes "dchunk_open hp (dio_open om m e) (Some name) d = (Ok io, d')" "om = RB \<or> om = RplusB"
  shows "\<exists>bs f. dfiles d name = Some bs \<and> dio_file io = Ptr f \<and> fdata f = bs"
  using assms by (auto simp: dchunk_open_def dio_open_def fopen_def split: if_splits option.splits)

lemma opened_ready:
  assumes "dchunk_open hp (dio_open om m e) (Some name) d = (Ok io, d')" "om = RB \<or> om = RplusB"
    and "\<And>bs. dfiles d name = Some bs \<Longrightarrow> calm bs"
  shows "ready (Some io)"
  using dchunk_open_stream [OF assms(1,2)] assms(3) by (auto simp: ready_def dio_view_defs)

text \<open>C9. Opening a file for reading or for modification returns, whatever the file holds, as long as
  none of its eight-byte numbers leads back into the file as a signed offset; the name and the
  handle are arbitrary.\<close>

theorem opening_returns:
  assumes "\<And>name bs. filename = Some name \<Longrightarrow> dfiles d name = Some bs \<Longrightarrow> calm bs"
  shows "(\<exists>r s. dsdiff_open hp l filename (p, d) = Some (r, s)) \<and>
    (\<exists>r s. dsdiff_modify hp l filename (p, d) = Some (r, s))"
proof
  have r: "ready (Some io)" if "filename = Some name" "dsdiff_chunk_file_open_read hp (Some name) d = (Ok io, d')"
    for name io d'
    using opened_ready [of hp RB DSDIFF_FILE_MODE_READ DSDIFF_ERROR_FILE_NOT_FOUND name d io d'] that assms
    by (auto simp: dsdiff_chunk_file_open_read_def dsdiff_io_open_read_def)
  show "\<exists>r s. dsdiff_open hp l filename (p, d) = Some (r, s)"
    unfolding dsdiff_open_def by (rule open_file_returns [OF lforward_parse_file r])
  have m: "ready (Some io)" if "filename = Some name" "dsdiff_chunk_file_open_modify hp (Some name) d = (Ok io, d')"
    for name io d'
    using opened_ready [of hp RplusB DSDIFF_FILE_MODE_MODIFY DSDIFF_ERROR_FILE_NOT_FOUND name d io d'] that assms
    by (auto simp: dsdiff_chunk_file_open_modify_def dsdiff_io_open_modify_def)
  show "\<exists>r s. dsdiff_modify hp l filename (p, d) = Some (r, s)"
    unfolding dsdiff_modify_def by (rule open_file_returns [OF lforward_parse_file m])
qed

text \<open>A form chunk with the size \<open>n\<close> and a chunk of an unknown type \<open>c\<close> whose size is \<open>v\<close>.\<close>

definition form_with :: "u64 \<Rightarrow> u32 \<Rightarrow> nat \<Rightarrow> byte list" where
  "form_with n c v = id_bytes FRM8_FOURCC @ be_enc 8 (unat n) @ id_bytes DSD_FOURCC @ id_bytes c @ be_enc 8 v"

definition disk_with :: "byte list \<Rightarrow> disk" where
  "disk_with bs = \<lparr>dfiles = [''a.dff'' \<mapsto> bs], dreadable = \<lambda>_. True, dwritable = \<lambda>_. True, dcap = 4096\<rparr>"

lemma le_dec_snoc: "le_dec (bs @ [b]) = le_dec bs + 256 ^ length bs * unat b"
  by (induction bs) simp_all

lemma be_dec_Cons: "be_dec (b # bs) = be_dec bs + 256 ^ length bs * unat b"
  by (simp add: be_dec_def le_dec_snoc)

text \<open>A file of characters of seven bits is calm.\<close>

lemma calm_ascii:
  assumes "\<forall>b \<in> set d. b < 128" "length d < 2 ^ 63"
  shows "calm d"
  unfolding calm_def
proof (intro allI impI)
  fix p assume p: "p + 8 \<le> length d"
  have w: "length (bytes_at p 8 d) = 8" using p by (rule length_bytes_at)
  then obtain b bs where bs: "bytes_at p 8 d = b # bs" "length bs = 7" by (auto simp: length_Suc_conv numeral_eq_Suc)
  have "b \<in> set (bytes_at p 8 d)" by (simp add: bs)
  then have "b \<in> set d" by (auto simp: bytes_at_def dest: in_set_takeD in_set_dropD)
  then have "unat b \<le> 127" using assms(1) by (fastforce simp: word_less_nat_alt)
  moreover have "be_dec bs < 256 ^ 7" using be_dec_less [of bs] bs(2) by simp
  ultimately have "be_dec (bytes_at p 8 d) < 2 ^ 63" using bs(2) by (simp add: bs(1) be_dec_Cons)
  then show "be_dec (bytes_at p 8 d) + length d < 2 ^ 64" using assms(2) by simp
qed

lemma le_enc_4: "le_enc 4 v = [of_nat v, of_nat (v div 256), of_nat (v div 256 div 256), of_nat (v div 256 div 256 div 256)]"
proof -
  have "(4 :: nat) = Suc (Suc (Suc (Suc 0)))" by simp
  then show ?thesis by (simp only: le_enc.simps)
qed

lemma be_enc_8: "be_enc 8 v = rev (le_enc 4 v @ le_enc 4 (v div 256 div 256 div 256 div 256))"
proof -
  have "(8 :: nat) = Suc (Suc (Suc (Suc (Suc (Suc (Suc (Suc 0)))))))" by simp
  then show ?thesis unfolding be_enc_def le_enc_4 by (simp only: le_enc.simps append.simps)
qed

theorem opening_returns_witness:
  "\<exists>r s. dsdiff_open roomy_heap 0 (Some ''a.dff'') (Ptr zero_dsdiff, disk_with (form_with 16 0x4B4E554A 0)) = Some (r, s)"
proof -
  have "\<forall>b \<in> set (form_with 16 0x4B4E554A 0). b < 128"
    by (simp add: form_with_def id_bytes_def fourcc_values be_enc_8 le_enc_4)
  then have "calm (form_with 16 0x4B4E554A 0)" by (rule calm_ascii) (simp add: form_with_def)
  then have "calm bs" if "Some ''a.dff'' = Some name" "dfiles (disk_with (form_with 16 0x4B4E554A 0)) name = Some bs" for name bs
    using that by (simp add: disk_with_def)
  then show ?thesis
    by (rule opening_returns [where filename = "Some ''a.dff''", THEN conjunct1])
qed

text \<open>Reading the identifier of an unknown chunk.\<close>

lemma takes_to_unknown:
  assumes "map_of DSDIFF_CHUNK_LIST c = None"
  shows "takes_to dsdiff_chunk_read_header (id_bytes c) (\<lambda>_. DSDIFF_CHUNK_UNKNOWN) ()"
proof -
  have "takes_to dsdiff_chunk_read_header ([] @ id_bytes c)
      (\<lambda>x. case map_of DSDIFF_CHUNK_LIST c of Some chunk_type \<Rightarrow> chunk_type | None \<Rightarrow> DSDIFF_CHUNK_UNKNOWN) ()"
    unfolding dsdiff_chunk_read_header_def
    by (rule takes_to_on_dout takes_to_seq takes_to_put_out takes_to_read_to takes_chunk_id)+
  then show ?thesis using assms by simp
qed

lemma peek_takes:
  assumes "takes_to dsdiff_chunk_read_header bs (\<lambda>_. ct) ()" "dio_is_open s" "dio_can_read s"
    and "bytes_at p (length bs) d = bs"
  shows "peek_header (h\<lparr>hd_io := dio_put s d p\<rparr>) = (Ok (True, ct), h\<lparr>hd_io := dio_put s d (p + length bs)\<rparr>)"
  using takes_toD [OF assms, of DSDIFF_CHUNK_UNKNOWN] by (simp add: peek_header_def on_dio_def zoom_def)

lemma takes_frm8:
  "takes_to dsdiff_chunk_read_frm8_header (be_enc 8 (unat n) @ id_bytes DSD_FOURCC) (\<lambda>_. (n, DSDIFF_AUDIO_DSD)) ()"
proof -
  let ?m = "\<lambda>s. case dsdiff_chunk_read_header (s, DSDIFF_CHUNK_UNKNOWN) of
      (r, (s', ct)) \<Rightarrow> (case r of Ok _ \<Rightarrow> (Ok ct, s') | Err e \<Rightarrow> (Err e, s') | Fault \<Rightarrow> (Fault, s'))"
  have list: "map_of DSDIFF_CHUNK_LIST DSD_FOURCC = Some DSDIFF_CHUNK_DSD"
    by (simp add: DSDIFF_CHUNK_LIST_def fourcc_values)
  have id: "takes ?m (id_bytes DSD_FOURCC) DSDIFF_CHUNK_DSD"
    using takes_toD [OF takes_to_header [OF list]] by (intro takesI) simp
  show ?thesis
    unfolding dsdiff_chunk_read_frm8_header_def
    by (rule takes_to_cong, (rule id reader_steps takes_to_true [OF refl] takes_to_false | simp; fail)+)
qed

text \<open>Reading through the handle.\<close>

lemma on_local_takes:
  assumes "takes_to m bs f a" "dio_is_open s" "dio_can_read s" "bytes_at p (length bs) d = bs"
  shows "on_local v m (h\<lparr>hd_io := dio_put s d p\<rparr>) = (Ok (a, f v), h\<lparr>hd_io := dio_put s d (p + length bs)\<rparr>)"
  using takes_toD [OF assms, of v] by (simp add: on_local_def)

lemma on_dio_put: "m (dio_put s d p) = (r, s') \<Longrightarrow> on_dio m (h\<lparr>hd_io := dio_put s d p\<rparr>) = (r, h\<lparr>hd_io := s'\<rparr>)"
  by (simp add: on_dio_def zoom_def)

lemma file_size_put:
  assumes "dio_is_open s"
  shows "dsdiff_io_get_file_size (dio_put s d p) = (Ok (of_nat (length d)), dio_put s d p)"
  using assms by (auto simp: dio_view_defs dsdiff_io_get_file_size_def on_stream_Some fstat_size_def)

text \<open>A size of \<open>- 12\<close>.\<close>

lemma skip_back:
  assumes "dio_is_open s" "dio_can_read s" "bytes_at p 8 d = be_enc 8 (2 ^ 64 - 12)" "4 \<le> p" "p < 2 ^ 62"
  shows "dsdiff_chunk_skip (dio_put s d p) = (Ok (), dio_put s d (p - 4))"
proof -
  have v: "unat (0xFFFFFFFFFFFFFFF4 :: u64) = 2 ^ 64 - 12" by simp
  have rd: "dsdiff_io_read_uint64_be (dio_put s d p) = (Ok 0xFFFFFFFFFFFFFFF4, dio_put s d (p + 8))"
    using takesD [OF takes_integers(4) assms(1,2), of p "0xFFFFFFFFFFFFFFF4" d] assms(3) unfolding v by simp
  have "dsdiff_io_seek (- 12) SEEK_CUR False (dio_put s d (p + 8)) = (Ok None, dio_put s d (p - 4))"
    using assms(1,4,5) by (auto simp: dio_view_defs dsdiff_io_seek_def on_stream_Some fseek_def Let_def nat_diff_distrib)
  then show ?thesis
    using rd dio_put_Some [OF assms(1)] by (simp add: dsdiff_chunk_skip_def on_dchunk_def)
qed

lemma form_with_parts:
  "length (form_with n c v) = 28" "bytes_at 0 4 (form_with n c v) = id_bytes FRM8_FOURCC"
  "bytes_at 4 12 (form_with n c v) = be_enc 8 (unat n) @ id_bytes DSD_FOURCC"
  "bytes_at 16 4 (form_with n c v) = id_bytes c" "bytes_at 20 8 (form_with n c v) = be_enc 8 v"
  by (simp_all add: form_with_def bytes_at_def)

text \<open>Each round of the form ends where it began.\<close>

lemma round_again:
  assumes "dio_is_open s" "dio_can_read s" "map_of DSDIFF_CHUNK_LIST c = None" "16 \<le> n"
    and d_def: "d = form_with m c (2 ^ 64 - 12)"
  shows "frm8_round hp l n (h\<lparr>hd_io := dio_put s d 16\<rparr>, k) = Some (Ok None, (h\<lparr>hd_io := dio_put s d 16\<rparr>, k))"
proof -
  let ?h = "\<lambda>p. h\<lparr>hd_io := dio_put s d p\<rparr>"
  have pos: "dsdiff_io_get_position (hd_io (?h 16)) = (Ok (of_nat 16), dio_put s d 16)"
    using dio_position_put [OF assms(1), of 16 d] by simp
  have peek: "peek_header (?h 16) = (Ok (True, DSDIFF_CHUNK_UNKNOWN), ?h 20)"
    using peek_takes [OF takes_to_unknown [OF assms(3)] assms(1,2), of 16 d h] by (simp add: d_def form_with_parts)
  have skip: "on_dio dsdiff_chunk_skip (?h 20) = (Ok (), ?h 16)"
    using on_dio_put [of dsdiff_chunk_skip s d 20] skip_back [OF assms(1,2), of 20 d] by (simp add: d_def form_with_parts)
  show ?thesis
    using frm8_round_eq [OF pos, of hp l n k] assms(4) peek skip
    by (simp add: frm8_body_def on_fst_def zoom_def parse_frm8_chunk_def tried_def lzoom_def lattempt_def lseq_def
        on_snd_def not_less)
qed

text \<open>C20. There are files of 28 bytes that can be read but on which opening never returns: a chunk of
  an unknown type whose size is \<open>- 12\<close> as a signed number is skipped backwards to its own start.\<close>

theorem opening_never_returns:
  assumes "filename = Some name" "name \<noteq> []" "sa_malloc hp 4112" "dreadable d name"
    and "dfiles d name = Some (form_with n c (2 ^ 64 - 12))" "map_of DSDIFF_CHUNK_LIST c = None"
    and "16 \<le> n" "n \<le> 28"
  shows "dsdiff_open hp l filename (Ptr h, d) = None"
proof -
  let ?F = "form_with n c (2 ^ 64 - 12)"
  obtain io f where io: "dsdiff_chunk_file_open_read hp (Some name) d = (Ok io, d)" and f: "dio_file io = Ptr f"
      "freadable f" "fdata f = ?F" "fpos f = 0"
    using assms(3,4,5) by (auto simp: dsdiff_chunk_file_open_read_def dchunk_open_def dsdiff_io_open_read_def
        dio_open_def fopen_def)
  let ?s = "Some io"
  have s: "dio_is_open ?s" "dio_can_read ?s" using f by (simp_all add: dio_view_defs)
  have start: "dio_put ?s ?F 0 = ?s" using f by (cases f) (simp add: dio_put_def)
  define h1 where "h1 = h\<lparr>hd_mode := DSDIFF_FILE_MODE_READ\<rparr>"
  let ?h = "\<lambda>p. h1\<lparr>hd_io := dio_put ?s ?F p\<rparr>"
  have list: "map_of DSDIFF_CHUNK_LIST FRM8_FOURCC = Some DSDIFF_CHUNK_FRM8"
    by (simp add: DSDIFF_CHUNK_LIST_def fourcc_values)
  have id: "on_local DSDIFF_CHUNK_UNKNOWN dsdiff_chunk_read_header (?h 0) = (Ok ((), DSDIFF_CHUNK_FRM8), ?h 4)"
    using on_local_takes [OF takes_to_header [OF list] s, of 0 ?F DSDIFF_CHUNK_UNKNOWN h1] by (simp add: form_with_parts)
  have form: "on_local (0, DSDIFF_AUDIO_UNKNOWN) dsdiff_chunk_read_frm8_header (?h 4) =
      (Ok ((), (n, DSDIFF_AUDIO_DSD)), ?h 16)"
    using on_local_takes [OF takes_frm8 s, of 4 n ?F "(0, DSDIFF_AUDIO_UNKNOWN)" h1] by (simp add: form_with_parts)
  have fsize: "on_dio dsdiff_io_get_file_size (?h 16) = (Ok 28, ?h 16)"
    using on_dio_put [of dsdiff_io_get_file_size ?s ?F 16] file_size_put [OF s(1), of ?F 16] by (simp add: form_with_parts)
  define h2 where "h2 = h1\<lparr>hd_is_dst_format := False\<rparr>"
  have "repeat_lop (frm8_round hp l n) (h2\<lparr>hd_io := dio_put ?s ?F 16\<rparr>, no_chunks) = None"
    by (rule repeat_forever [where I = "\<lambda>x. \<exists>h k. x = (h\<lparr>hd_io := dio_put ?s ?F 16\<rparr>, k)"])
      (use round_again [OF s assms(6,7) refl] in blast)+
  then have frm8: "dsdiff_parse_frm8 hp l n (h2\<lparr>hd_io := dio_put ?s ?F 16\<rparr>) = None"
    by (simp add: dsdiff_parse_frm8_def lop_local_def lseq_def)
  have h2: "h2\<lparr>hd_io := dio_put ?s ?F 16\<rparr> = (?h 16)\<lparr>hd_is_dst_format := False\<rparr>" by (simp add: h2_def)
  have "dsdiff_parse_file hp l (?h 0) = None"
    unfolding dsdiff_parse_file_def lseq_lift
    using s id form fsize frm8 [unfolded h2] assms(8) by (simp add: dio_put_Some not_less)
  moreover have "?h 0 = h\<lparr>hd_io := ?s, hd_mode := DSDIFF_FILE_MODE_READ\<rparr>" 
    unfolding start h1_def by simp
  ultimately show ?thesis
    using assms(1,2) io by (simp add: dsdiff_open_def open_file_def open_on_def open_io_def on_fst_def zoom_def
        lzoom_def lseq_def)
qed

theorem opening_never_returns_witness:
  "dsdiff_open roomy_heap 0 (Some ''a.dff'') (Ptr zero_dsdiff, disk_with (form_with 16 0x4B4E554A (2 ^ 64 - 12))) = None"
  by (rule opening_never_returns [where n = 16 and c = "0x4B4E554A" and name = "''a.dff''"])
    (simp_all add: roomy_heap_def sa_malloc_def disk_with_def DSDIFF_CHUNK_LIST_def fourcc_values)

section \<open>A creation that fails\<close>

lemma create_unwritable:
  assumes "hd_mode h = DSDIFF_FILE_MODE_CLOSED" "hd_channel_ids h \<noteq> Dangling" "sa_malloc hp (unat cc * 4)"
    and "sa_malloc hp 4112" "\<not> dwritable d name"
  shows "\<exists>h'. create_on hp name ty cc rate (h, d) = (Err DSDIFF_ERROR_FILE_CREATE_FAILED, (h', d)) \<and>
    hd_mode h' = DSDIFF_FILE_MODE_CLOSED \<and> hd_channel_ids h' = Dangling"
proof -
  have op: "dsdiff_chunk_file_open_write hp (Some name) d = (Err DSDIFF_ERROR_FILE_CREATE_FAILED, d)"
    using assms(4,5) by (simp add: dsdiff_chunk_file_open_write_def dchunk_open_def dsdiff_io_open_write_def dio_open_def fopen_def)
  show ?thesis
    using assms(1-3) op
    by (cases "hd_channel_ids h") (simp_all add: create_on_def on_fst_def zoom_def dsdiff_set_default_channel_ids_def free_channel_ids_def
        free_null_def free_ptr_def seq_def modify_def ensure_def ret_def on_err_def open_io_def create_cleanup_def)
qed

text \<open>C35. After an attempt to create a file where the device does not let it, the handle is closed but
  still points to the identifiers that were freed: the next attempt, with any valid arguments,
  frees them again.\<close>

theorem failed_create_then_double_free:
  assumes "hd_mode h = DSDIFF_FILE_MODE_CLOSED" "hd_channel_ids h \<noteq> Dangling" "sa_malloc hp (unat cc * 4)"
    and "sa_malloc hp 4112" "\<not> dwritable d name" "name \<noteq> []" "1 \<le> cc" "cc \<le> 1000"
    and "name' \<noteq> []" "1 \<le> cc'" "cc' \<le> 1000"
  shows "\<exists>h'. dsdiff_create hp (Some name) ty cc 1 rate (Ptr h, d) = (Err DSDIFF_ERROR_FILE_CREATE_FAILED, (Ptr h', d)) \<and>
    hd_mode h' = DSDIFF_FILE_MODE_CLOSED \<and>
    fst (dsdiff_create hp' (Some name') ty' cc' 1 rate' (Ptr h', d')) = Fault"
proof -
  obtain h' where c: "create_on hp name ty cc rate (h, d) = (Err DSDIFF_ERROR_FILE_CREATE_FAILED, (h', d))"
    and h': "hd_mode h' = DSDIFF_FILE_MODE_CLOSED" "hd_channel_ids h' = Dangling"
    using create_unwritable [OF assms(1-5), of ty rate] by blast
  have "fst (create_on hp' name' ty' cc' rate' (h', d')) = Fault"
    using h'(2) by (simp add: create_on_def on_fst_def zoom_def dsdiff_set_default_channel_ids_def free_channel_ids_def
        free_null_def free_ptr_def seq_def modify_def)
  then show ?thesis
    using assms c h'(1) by (auto simp: dsdiff_create_def not_less split: prod.split)
qed

theorem failed_create_then_double_free_witness:
  "\<exists>h'. dsdiff_create roomy_heap (Some ''/x'') DSDIFF_AUDIO_DSD 2 1 2822400
      (Ptr zero_dsdiff, (disk_with [])\<lparr>dwritable := \<lambda>_. False\<rparr>) =
      (Err DSDIFF_ERROR_FILE_CREATE_FAILED, (Ptr h', (disk_with [])\<lparr>dwritable := \<lambda>_. False\<rparr>)) \<and>
    hd_mode h' = DSDIFF_FILE_MODE_CLOSED \<and>
    fst (dsdiff_create roomy_heap (Some ''y'') DSDIFF_AUDIO_DSD 2 1 2822400 (Ptr h', disk_with [])) = Fault"
  by (rule failed_create_then_double_free) (simp_all add: zero_dsdiff_def roomy_heap_def sa_malloc_def)

end
