(* ===== verification/Dsdiff_Recording.thy ===== *)
theory Dsdiff_Recording
  imports Dsdiff_Contracts
begin

text \<open>
  Recording: the bytes of the file that creating, writing, finalising and closing leave on the disk.
\<close>

section \<open>The file\<close>

definition form_bytes :: "u64 \<Rightarrow> byte list" where
  "form_bytes n = id_bytes FRM8_FOURCC @ be_enc 8 (unat n) @ id_bytes DSD_FOURCC"

definition version_bytes :: "byte list" where
  "version_bytes = id_bytes FVER_FOURCC @ be_enc 8 (unat (4 :: u64)) @ be_enc 4 (unat DSDIFF_FILE_VERSION_15)"

definition chnl_bytes :: "u32 list \<Rightarrow> byte list" where
  "chnl_bytes ids = id_bytes CHNL_FOURCC @ be_enc 8 (unat (2 + ucast (of_nat (length ids) :: u16) * 4 :: u64)) @
     be_enc 2 (unat (of_nat (length ids) :: u16)) @ channels_bytes ids"

definition cmpr_bytes :: "byte list" where
  "cmpr_bytes = id_bytes CMPR_FOURCC @ be_enc 8 (unat (20 :: u64)) @ id_bytes DSD_FOURCC @
     pstring_bytes (byte_text ''not compressed'')"

definition fs_bytes :: "u32 \<Rightarrow> byte list" where
  "fs_bytes rate = id_bytes FS_FOURCC @ be_enc 8 (unat (4 :: u64)) @ be_enc 4 (unat rate)"

definition snd_bytes :: "u64 \<Rightarrow> byte list" where
  "snd_bytes n = id_bytes DSD_FOURCC @ be_enc 8 (unat n)"

definition prop_head :: "u64 \<Rightarrow> byte list" where
  "prop_head n = id_bytes PROP_FOURCC @ be_enc 8 (unat n) @ id_bytes SND_FOURCC"

lemma length_not_compressed [simp]: "length (pstring_bytes (byte_text ''not compressed'')) = 16"
  by (simp add: pstring_bytes_def byte_text_def pad_if_def)

lemma part_lengths [simp]:
  "length (form_bytes n) = 16" "length version_bytes = 16" "length (chnl_bytes ids) = 14 + 4 * length ids"
  "length cmpr_bytes = 32" "length (fs_bytes rate) = 16" "length (snd_bytes n) = 12" "length (prop_head n) = 16"
  by (simp_all add: form_bytes_def version_bytes_def chnl_bytes_def cmpr_bytes_def fs_bytes_def snd_bytes_def prop_head_def)

lemmas part_defs = form_bytes_def version_bytes_def prop_head_def fs_bytes_def chnl_bytes_def cmpr_bytes_def snd_bytes_def

definition head_bytes :: "u64 \<Rightarrow> u64 \<Rightarrow> u32 \<Rightarrow> u32 list \<Rightarrow> u64 \<Rightarrow> byte list" where
  "head_bytes form_size prop_size rate ids data_size = form_bytes form_size @ version_bytes @
     prop_head prop_size @ fs_bytes rate @ chnl_bytes ids @ cmpr_bytes @ snd_bytes data_size"

definition dff_bytes :: "u32 \<Rightarrow> u32 list \<Rightarrow> byte list \<Rightarrow> byte list" where
  "dff_bytes rate ids data =
     head_bytes (of_nat (110 + 4 * length ids + length data + length (pad_if (odd (length data)))))
       (of_nat (66 + 4 * length ids)) rate ids (of_nat (length data)) @ data @ pad_if (odd (length data))"

lemma length_head_bytes [simp]: "length (head_bytes f p rate ids n) = 122 + 4 * length ids"
  by (simp add: head_bytes_def)

section \<open>Writing at the end\<close>

definition eof :: "dsdiff_io option \<Rightarrow> byte list \<Rightarrow> dsdiff_io option" where
  "eof s d = dio_put s d (length d)"

definition grows :: "dsdiff_io option \<Rightarrow> nat \<Rightarrow> bool" where
  "grows s n \<longleftrightarrow> dio_is_open s \<and> dio_can_write s n \<and> n < 2 ^ 62"

lemma emits_eof:
  assumes "emits m bs r" "grows s n" "length d + length bs \<le> n"
  shows "m (eof s d) = (Ok r, eof s (d @ bs))"
proof -
  have "dio_can_write s (length d + length bs)"
    using assms(2,3) dsdiff_stream.can_write_mono by (auto simp: grows_def)
  then show ?thesis
    using emitsD [OF assms(1), of s "length d" d] assms(2) by (simp add: eof_def grows_def patch_at_end)
qed

lemma on_dio_eof:
  "emits m bs r \<Longrightarrow> hd_io h = eof s d \<Longrightarrow> grows s n \<Longrightarrow> length d + length bs \<le> n \<Longrightarrow>
     on_dio m h = (Ok r, h\<lparr>hd_io := eof s (d @ bs)\<rparr>)"
  by (simp add: on_dio_def zoom_def emits_eof)

lemma position_eof:
  assumes "hd_io h = eof s d" "grows s n" "length d \<le> n"
  shows "on_dio dsdiff_io_get_position h = (Ok (of_nat (length d)), h)"
proof -
  have "int (length d) \<le> INT64_MAX" using assms(2,3) by (simp add: grows_def)
  then show ?thesis
    using assms(1,2) dio_position_put [of s "length d" d]
    by (simp add: on_dio_def zoom_def eof_def grows_def)
qed

lemma data_span_steps:
  assumes "dsdiff_io_write_chunk_id c (hd_io h) = (Ok (), s1)" "dsdiff_io_write_uint64_be v s1 = (Ok (), s2)"
    and "dsdiff_io_get_position s2 = (Ok q, s2)" "hd_io h \<noteq> None"
  shows "data_span (write_data_header c v) h =
    (Ok (), h\<lparr>hd_io := s2, hd_sound_data_start_pos := q, hd_sound_data_end_pos := q + v\<rparr>)"
  using assms by (simp add: data_span_def on_member_def zoom_def write_data_header_def on_dout_def put_out_def on_fst_def
      on_snd_def read_to_def seq_def modify_def)

lemma data_span_eof:
  assumes "hd_io h = eof s d" "grows s n" "length d + 12 \<le> n"
  shows "data_span (write_data_header c v) h = (Ok (), h\<lparr>hd_io := eof s (d @ id_bytes c @ be_enc 8 (unat v)),
    hd_sound_data_start_pos := of_nat (length d + 12), hd_sound_data_end_pos := of_nat (length d + 12) + v\<rparr>)"
proof (rule data_span_steps)
  show "dsdiff_io_write_chunk_id c (hd_io h) = (Ok (), eof s (d @ id_bytes c))"
    unfolding assms(1) by (rule emits_eof [OF emits_chunk_id assms(2)]) (use assms(3) in simp)
  show "dsdiff_io_write_uint64_be v (eof s (d @ id_bytes c)) = (Ok (), eof s (d @ id_bytes c @ be_enc 8 (unat v)))"
    using emits_eof [OF emits_integers(5) assms(2), of "d @ id_bytes c" v] assms(3) by simp
  have "int (length d + 12) \<le> INT64_MAX" using assms(2,3) by (simp add: grows_def)
  then show "dsdiff_io_get_position (eof s (d @ id_bytes c @ be_enc 8 (unat v))) =
      (Ok (of_nat (length d + 12)), eof s (d @ id_bytes c @ be_enc 8 (unat v)))"
    using assms(2) dio_position_put [of s "length d + 12" "d @ id_bytes c @ be_enc 8 (unat v)"]
    by (simp add: eof_def grows_def ac_simps)
  show "hd_io h \<noteq> None" using assms(1,2) by (simp add: eof_def grows_def dio_put_Some)
qed

section \<open>Creating\<close>

definition prop_bytes :: "u64 \<Rightarrow> u32 \<Rightarrow> u32 list \<Rightarrow> byte list" where
  "prop_bytes prop_size rate ids = prop_head prop_size @ fs_bytes rate @ chnl_bytes ids @ cmpr_bytes"

lemma length_prop_bytes [simp]: "length (prop_bytes p rate ids) = 78 + 4 * length ids"
  by (simp add: prop_bytes_def)

definition channels_ok :: "u32 list \<Rightarrow> bool" where
  "channels_ok ids \<longleftrightarrow> ids \<noteq> [] \<and> length ids \<le> 1000 \<and> (\<forall>c \<in> set ids. unat c < 1008)"

lemma emits_not_compressed:
  "emits (dsdiff_chunk_write_cmpr DSDIFF_AUDIO_DSD (byte_text ''not compressed''))
    (id_bytes CMPR_FOURCC @ be_enc 8 (unat (20 :: u64)) @ id_bytes DSD_FOURCC @ pstring_bytes (byte_text ''not compressed'')) ()"
proof -
  have "cstr (byte_text ''not compressed'') = byte_text ''not compressed''" "length (byte_text ''not compressed'') = 14"
    by (simp_all add: cstr_def byte_text_def)
  then show ?thesis using emits_cmpr [of "byte_text ''not compressed''" DSDIFF_AUDIO_DSD] by simp
qed

lemma write_properties_ok:
  assumes h: "hd_io h = eof s d" and g: "grows s n" and room: "length d + 78 + 4 * length ids \<le> n"
    and ids: "channels_ok ids" "hd_channel_ids h = Ptr (map Some ids)"
    and none: "\<not> hd_has_timecode h" "\<not> hd_has_loudspeaker_config h"
  shows "write_properties DSDIFF_AUDIO_DSD (of_nat (length ids)) rate h = (Ok (),
    h\<lparr>hd_io := eof s (d @ prop_bytes 0 rate ids), hd_channel_chunk_pos := of_nat (length d + 32),
      hd_timecode_chunk_pos := 0, hd_loudspeaker_chunk_pos := 0, hd_prop_chunk_size := of_nat (66 + 4 * length ids)\<rparr>)"
proof -
  have chnl: "emits (dsdiff_chunk_write_chnl (of_nat (length ids)) (Ptr (map Some ids)))
    (id_bytes CHNL_FOURCC @ be_enc 8 (unat (2 + ucast (of_nat (length ids) :: u16) * 4 :: u64)) @
     be_enc 2 (unat (of_nat (length ids) :: u16)) @ channels_bytes ids) ()"
    using ids(1) by (intro emits_chnl) (simp_all add: channels_ok_def)
  note steps = on_dio_eof [OF emits_prop _ g] on_dio_eof [OF emits_fs _ g] on_dio_eof [OF chnl _ g]
    on_dio_eof [OF emits_not_compressed _ g] position_eof [OF _ g]
  show ?thesis
    using h room ids(2) none
    by (simp add: write_properties_def steps prop_bytes_def part_defs)
qed

text \<open>A new handle, and one that records: \<open>n\<close> bytes of sound data, \<open>f\<close> frames and the bytes \<open>d\<close> so far.\<close>

definition new_handle :: dsdiff where
  "new_handle = zero_dsdiff\<lparr>hd_format_version := DSDIFF_FILE_VERSION_15, hd_channel_count := 1, hd_dst_frame_rate := 75\<rparr>"

definition rec_handle :: "dsdiff_io option \<Rightarrow> u32 \<Rightarrow> u32 list \<Rightarrow> nat \<Rightarrow> u64 \<Rightarrow> byte list \<Rightarrow> dsdiff" where
  "rec_handle s rate ids n f d = new_handle\<lparr>hd_io := eof s d, hd_mode := DSDIFF_FILE_MODE_WRITE,
     hd_channel_count := of_nat (length ids), hd_channel_ids := Ptr (map Some ids), hd_sample_rate := rate,
     hd_channel_chunk_pos := 64, hd_prop_chunk_size := of_nat (66 + 4 * length ids),
     hd_sound_data_start_pos := of_nat (122 + 4 * length ids),
     hd_sound_data_end_pos := of_nat (122 + 4 * length ids + n), hd_sound_data_size := of_nat n,
     hd_sample_frame_count := f\<rparr>"

lemma dsdiff_new_ok: "sa_malloc hp 432 \<Longrightarrow> dsdiff_new hp p = (Ok (), Ptr new_handle)"
  by (simp add: dsdiff_new_def dsdiff_init_handle_def free_channel_ids_def free_null_def free_ptr_def zoom_def
      new_handle_def zero_dsdiff_def)

text \<open>The stream that creating a file opens.\<close>

definition fresh :: "string \<Rightarrow> nat \<Rightarrow> dsdiff_io" where
  "fresh name cap = \<lparr>dio_file = Ptr \<lparr>fpath = name, fdata = [], fpos = 0, freadable = False, fwritable = True,
     fcap = cap\<rparr>, dio_filename = sa_strlcpy name DSDIFF_MAX_STR_SIZE, dio_mode = DSDIFF_FILE_MODE_WRITE\<rparr>"

lemma fresh_eof: "Some (fresh name cap) = eof (Some (fresh name cap)) []"
  by (simp add: fresh_def eof_def dio_put_def)

lemma fresh_grows: "n \<le> cap \<Longrightarrow> n < 2 ^ 62 \<Longrightarrow> grows (Some (fresh name cap)) n"
  by (simp add: grows_def fresh_def dio_view_defs)

lemma default_channels:
  assumes "1 \<le> cc" "cc \<le> 1000"
  shows "channels_ok (default_channel_ids cc)" "of_nat (length (default_channel_ids cc)) = cc"
proof -
  have "unat cc \<le> 1000" "cc \<noteq> 0" using assms by (auto simp: word_le_nat_alt)
  then show "channels_ok (default_channel_ids cc)" "of_nat (length (default_channel_ids cc)) = cc"
    by (auto simp: channels_ok_def default_channel_ids_def unat_gt_0)
qed

lemma dff_create_ok:
  fixes cc :: u16
  defines "ids \<equiv> default_channel_ids cc"
  assumes "1 \<le> cc" "cc \<le> 1000" "name \<noteq> []" "sa_malloc hp 4112" "sa_malloc hp (unat cc * 4)" "dwritable d name"
    and "122 + 4 * length ids \<le> dcap d"
  shows "dsdiff_create hp (Some name) DSDIFF_AUDIO_DSD cc 1 rate (Ptr new_handle, d) =
    (Ok (), (Ptr (rec_handle (Some (fresh name (dcap d))) rate ids 0 0 (head_bytes 0 0 rate ids 0)),
      d\<lparr>dfiles := (dfiles d)(name \<mapsto> [])\<rparr>))"
proof -
  let ?s = "Some (fresh name (dcap d))"
  note ids = default_channels [OF assms(2,3), folded ids_def]
  have g: "grows ?s (122 + 4 * length ids)"
    using assms(8) ids(1) by (intro fresh_grows) (simp_all add: channels_ok_def)
  have op: "dsdiff_chunk_file_open_write hp (Some name) d = (Ok (fresh name (dcap d)), d\<lparr>dfiles := (dfiles d)(name \<mapsto> [])\<rparr>)"
    using assms(5,7) by (simp add: dsdiff_chunk_file_open_write_def dchunk_open_def dsdiff_io_open_write_def dio_open_def
        fopen_def fresh_def)
  define h where "h = new_handle\<lparr>hd_io := ?s, hd_sample_rate := rate,
     hd_channel_count := of_nat (length ids), hd_channel_ids := Ptr (map Some ids)\<rparr>"
  have io: "hd_io h = eof ?s []" by (simp add: h_def fresh_eof [symmetric])
  have none: "\<not> hd_has_timecode h" "\<not> hd_has_loudspeaker_config h" "hd_channel_ids h = Ptr (map Some ids)"
    "hd_format_version h = DSDIFF_FILE_VERSION_15"
    by (simp_all add: h_def new_handle_def zero_dsdiff_def)
  note steps = on_dio_eof [OF emits_frm8 _ g] on_dio_eof [OF emits_fver _ g] write_properties_ok [OF _ g _ ids(1)]
    data_span_eof [OF _ g]
  have chunks: "create_chunks DSDIFF_AUDIO_DSD (of_nat (length ids)) rate h =
      (Ok (), rec_handle ?s rate ids 0 0 (head_bytes 0 0 rate ids 0))"
    using io none
    by (simp add: create_chunks_def write_sound_header_def dsdiff_chunk_write_snd_header_def steps)
      (simp add: h_def rec_handle_def head_bytes_def prop_bytes_def part_defs new_handle_def zero_dsdiff_def)
  have prepared: "new_handle\<lparr>hd_mode := DSDIFF_FILE_MODE_CLOSED, hd_sample_frame_count := 0, hd_prop_chunk_size := 0,
      hd_sound_data_size := 0, hd_sound_data_start_pos := 0, hd_sound_data_end_pos := 0, hd_dst_frame_count := 0,
      hd_is_dst_format := False, hd_sample_rate := rate, hd_sample_frame_capacity := 0\<rparr> = new_handle\<lparr>hd_sample_rate := rate\<rparr>"
    by (simp add: new_handle_def zero_dsdiff_def)
  have "dsdiff_set_default_channel_ids hp cc (new_handle\<lparr>hd_sample_rate := rate\<rparr>) =
      (Ok (), new_handle\<lparr>hd_sample_rate := rate, hd_channel_count := cc, hd_channel_ids := Ptr (map Some ids)\<rparr>)"
    using assms(6) by (simp add: dsdiff_set_default_channel_ids_def free_channel_ids_def free_null_def free_ptr_def zoom_def
        new_handle_def zero_dsdiff_def ids_def)
  moreover have "new_handle\<lparr>hd_sample_rate := rate, hd_channel_count := cc, hd_channel_ids := Ptr (map Some ids),
      hd_io := ?s\<rparr> = h"
    unfolding h_def ids(2) by simp
  ultimately have "create_on hp name DSDIFF_AUDIO_DSD cc rate (new_handle, d) =
    (Ok (), (rec_handle ?s rate ids 0 0 (head_bytes 0 0 rate ids 0), d\<lparr>dfiles := (dfiles d)(name \<mapsto> [])\<rparr>))"
    using chunks op prepared unfolding ids(2)
    by (simp add: create_on_def on_fst_def zoom_def seq_def modify_def on_err_def open_io_def)
  moreover have "cc \<noteq> 0" "hd_mode new_handle = DSDIFF_FILE_MODE_CLOSED"
    using assms(2) by (auto simp: new_handle_def zero_dsdiff_def)
  ultimately show ?thesis
    using assms(3,4) by (simp add: dsdiff_create_def not_less)
qed

section \<open>Writing\<close>

lemma write_block_ok:
  assumes "length b < 2 ^ 32" "grows s n" "length d + length b \<le> n"
  shows "write_block b (unat (of_nat (length b) :: u32)) (eof s d) = (Ok (length b), eof s (d @ b))"
proof -
  have "unat (of_nat (length b) :: u32) = length b" by (rule unat_of_nat_small) (use assms(1) in simp)
  then show ?thesis using emits_eof [OF emits_write_bytes assms(2,3)] by (simp add: write_block_def)
qed

lemma write_ok:
  assumes "grows s n" "channels_ok ids" "length d + length b \<le> n" "length d = 122 + 4 * length ids + k" "length b < 2 ^ 32"
  shows "\<exists>f'. dsdiff_write_dsd_data b (of_nat (length b)) (rec_handle s rate ids k f d) =
    (Ok (of_nat (length b)), rec_handle s rate ids (k + length b) f' (d @ b))"
proof (cases "b = []")
  case True
  then show ?thesis
    by (intro exI [of _ f]) (simp add: dsdiff_write_dsd_data_def rec_handle_def new_handle_def zero_dsdiff_def ensure_mode_def)
next
  case False
  let ?h = "rec_handle s rate ids k f d"
  have b: "unat (of_nat (length b) :: u32) = length b" by (rule unat_of_nat_small) (use assms(5) in simp)
  then have pos: "(of_nat (length b) :: u32) \<noteq> 0" using False by (metis length_0_conv unat_0)
  have size: "k + length b < 2 ^ 62" using assms(1,3,4) by (simp add: grows_def)
  have cast: "ucast (of_nat (length b) :: u32) = (of_nat (length b) :: u64)"
    using b size by (simp add: word_unat_eq_iff unat_ucast_wide unat_of_nat_small)
  have sum: "unat (of_nat k + of_nat (length b) :: u64) = k + length b"
    using size unat_of_nat_small [of "k + length b", where 'a = 64] by simp
  then have max: "of_nat k + of_nat (length b) \<le> DSDIFF_MAX_DATA_SIZE" using size by (simp add: word_le_nat_alt)
  have cc: "(of_nat (length ids) :: u16) \<noteq> 0"
    using assms(2) unat_of_nat_small [of "length ids", where 'a = 16]
    by (auto simp: channels_ok_def simp flip: unat_eq_0)
  have blk: "on_dio (write_block b (unat (of_nat (length b) :: u32))) ?h = (Ok (length b), ?h\<lparr>hd_io := eof s (d @ b)\<rparr>)"
    using write_block_ok [OF assms(5,1,3)] by (simp add: on_dio_def zoom_def rec_handle_def)
  have fields: "hd_mode ?h = DSDIFF_FILE_MODE_WRITE" "\<not> hd_is_dst_format ?h" "hd_sound_data_size ?h = of_nat k"
    "hd_channel_count ?h = of_nat (length ids)"
    by (simp_all add: rec_handle_def new_handle_def zero_dsdiff_def)
  have cut: "ucast (of_nat (length b) :: u64) = (of_nat (length b) :: u32)"
    using b size assms(5) by (simp add: word_unat_eq_iff unsigned_ucast_eq unat_of_nat_small take_bit_nat_eq_self)
  let ?f = "f + ucast (ucast (of_nat (length b) div ucast (of_nat (length ids) :: u16) :: u64) :: u32)"
  have "dsdiff_write_dsd_data b (of_nat (length b)) ?h =
      (Ok (of_nat (length b)), rec_handle s rate ids (k + length b) ?f (d @ b))"
    using blk fields pos max cc cast cut
    by (simp add: dsdiff_write_dsd_data_def ensure_mode_def Let_def)
      (simp add: rec_handle_def ac_simps)
  then show ?thesis by blast
qed

text \<open>Writing blocks one after the other.\<close>

fun write_blocks :: "byte list list \<Rightarrow> unit hd_op" where
  "write_blocks [] = ret ()"
| "write_blocks (b # bs) = seq (dsdiff_write_dsd_data b (of_nat (length b))) (\<lambda>_. write_blocks bs)"

lemma write_blocks_ok:
  assumes "grows s n" "channels_ok ids" "length d + length (concat bs) \<le> n" "length d = 122 + 4 * length ids + k"
    and "\<forall>b \<in> set bs. length b < 2 ^ 32"
  shows "\<exists>f'. write_blocks bs (rec_handle s rate ids k f d) =
    (Ok (), rec_handle s rate ids (k + length (concat bs)) f' (d @ concat bs))"
  using assms(3-5)
proof (induction bs arbitrary: k f d)
  case Nil
  then show ?case by auto
next
  case (Cons b bs)
  obtain f1 where 1: "dsdiff_write_dsd_data b (of_nat (length b)) (rec_handle s rate ids k f d) =
      (Ok (of_nat (length b)), rec_handle s rate ids (k + length b) f1 (d @ b))"
    using write_ok [OF assms(1,2), of d b k rate f] Cons.prems by auto
  obtain f2 where "write_blocks bs (rec_handle s rate ids (k + length b) f1 (d @ b)) =
      (Ok (), rec_handle s rate ids (k + length b + length (concat bs)) f2 ((d @ b) @ concat bs))"
    using Cons.IH [of "d @ b" "k + length b" f1] Cons.prems by auto
  then show ?case using 1 by (auto simp: add.assoc)
qed

section \<open>Finalising\<close>

lemma patch_mid: "length b = length bs \<Longrightarrow> patch (a @ b @ c) (length a) bs = a @ bs @ c"
  by (cases "bs = []") (simp_all add: patch_def)

lemma emits_mid:
  assumes "emits m bs r" "grows s n" "length (a @ b @ c) \<le> n" "length b = length bs" "p = length a"
  shows "m (dio_put s (a @ b @ c) p) = (Ok r, dio_put s (a @ bs @ c) (p + length bs))"
proof -
  have "dio_can_write s (length a + length bs)"
    using assms(2-4) dsdiff_stream.can_write_mono by (auto simp: grows_def)
  then show ?thesis
    using emitsD [OF assms(1), of s "length a" "a @ b @ c"] assms by (simp add: grows_def patch_mid)
qed

text \<open>The handle while it finalises: the file is \<open>d\<close>, the position \<open>p\<close>, the end \<open>e\<close>.\<close>

definition fin_handle ::
  "dsdiff_io option \<Rightarrow> u32 \<Rightarrow> u32 list \<Rightarrow> nat \<Rightarrow> u64 \<Rightarrow> byte list \<Rightarrow> nat \<Rightarrow> u64 \<Rightarrow> dsdiff" where
  "fin_handle s rate ids n f d p e = (rec_handle s rate ids n f [])\<lparr>hd_io := dio_put s d p, hd_file_size_after_finalize := e\<rparr>"

lemma rec_fin: "rec_handle s rate ids n f d = fin_handle s rate ids n f d (length d) 0"
  by (simp add: fin_handle_def rec_handle_def eof_def new_handle_def zero_dsdiff_def)

lemma odd_u64: "n < 2 ^ 62 \<Longrightarrow> (of_nat n :: u64) mod 2 \<noteq> 0 \<longleftrightarrow> odd n"
proof -
  assume "n < 2 ^ 62"
  then have "unat (of_nat n :: u64) = n" by (intro unat_of_nat_small) simp
  then have "unat (of_nat n mod 2 :: u64) = n mod 2" by (simp only: unat_mod) simp
  then show ?thesis by (metis even_iff_mod_2_eq_zero unat_eq_0)
qed

lemma dff_write_metadata_ok:
  assumes "grows s k" "length d + length (pad_if (odd n)) \<le> k" "n \<le> k"
  shows "write_metadata hp (rec_handle s rate ids n f d) = (Ok (), rec_handle s rate ids n f (d @ pad_if (odd n)))"
proof -
  have odd: "(of_nat n :: u64) mod 2 \<noteq> 0 \<longleftrightarrow> odd n" using assms(1,3) by (intro odd_u64) (simp add: grows_def)
  have pad: "on_dio (write_pad_if (odd n)) (rec_handle s rate ids n f d) = (Ok (), rec_handle s rate ids n f (d @ pad_if (odd n)))"
    using on_dio_eof [OF emits_pad _ assms(1), of "rec_handle s rate ids n f d" d "odd n"] assms(2)
    by (simp add: rec_handle_def)
  let ?h = "rec_handle s rate ids n f (d @ pad_if (odd n))"
  have fields: "hd_sound_data_size (rec_handle s rate ids n f d) = of_nat n" "hd_mode ?h = DSDIFF_FILE_MODE_WRITE"
    "hd_diin_chunk_pos ?h = 0" "\<not> hd_has_emid ?h" "\<not> hd_has_disc_artist ?h" "\<not> hd_has_disc_title ?h"
    "ml_count (hd_markers ?h) = 0" "\<not> hd_is_dst_format ?h" "hd_comment_count ?h = 0" "hd_id3_tag_size ?h = 0"
    "hd_track_id3_count ?h = 0" "\<not> hd_has_manufacturer ?h"
    by (simp_all add: rec_handle_def new_handle_def zero_dsdiff_def dsdiff_marker_list_init_def)
  show ?thesis
    using pad fields odd
    by (simp add: write_metadata_def dsdiff_is_chunk_writable_def dsdiff_write_diin_def ensure_mode_def is_writing_def
        dsdiff_marker_list_get_count_def dsdiff_write_index_def write_if_free_def)
qed

lemma fin_seek:
  assumes "dio_is_open s" "unat q < 2 ^ 63"
  shows "on_dio (seek_set q) (fin_handle s rate ids n f d p e) = (Ok (Some q), fin_handle s rate ids n f d (unat q) e)"
proof -
  have "(2 :: nat) ^ 63 = 9223372036854775808" by simp
  then have "int (unat q) \<le> INT64_MAX" using assms(2) by linarith
  from seek_set_put [OF assms(1) this] show ?thesis by (simp add: on_dio_def zoom_def fin_handle_def)
qed

lemma fin_mid:
  assumes "emits m bs r" "grows s k" "length (a @ b @ c) \<le> k" "length b = length bs" "p = length a"
  shows "on_dio m (fin_handle s rate ids n f (a @ b @ c) p e) = (Ok r, fin_handle s rate ids n f (a @ bs @ c) (p + length bs) e)"
  using emits_mid [OF assms] by (simp add: on_dio_def zoom_def fin_handle_def)

lemma fin_position:
  assumes "dio_is_open s" "p < 2 ^ 62"
  shows "on_dio dsdiff_io_get_position (fin_handle s rate ids n f d p e) = (Ok (of_nat p), fin_handle s rate ids n f d p e)"
  using dio_position_put [OF assms(1), of p] assms(2) by (simp add: on_dio_def zoom_def fin_handle_def)

lemma fin_fields [simp]:
  "hd_mode (fin_handle s rate ids n f d p e) = DSDIFF_FILE_MODE_WRITE"
  "hd_format_version (fin_handle s rate ids n f d p e) = DSDIFF_FILE_VERSION_15"
  "hd_prop_chunk_size (fin_handle s rate ids n f d p e) = of_nat (66 + 4 * length ids)"
  "hd_channel_chunk_pos (fin_handle s rate ids n f d p e) = 64"
  "hd_channel_count (fin_handle s rate ids n f d p e) = of_nat (length ids)"
  "hd_channel_ids (fin_handle s rate ids n f d p e) = Ptr (map Some ids)"
  "hd_timecode_chunk_pos (fin_handle s rate ids n f d p e) = 0"
  "hd_has_timecode (fin_handle s rate ids n f d p e) = False"
  "hd_is_dst_format (fin_handle s rate ids n f d p e) = False"
  "hd_sound_data_size (fin_handle s rate ids n f d p e) = of_nat n"
  "hd_file_size_after_finalize (fin_handle s rate ids n f d p e) = e"
  by (simp_all add: fin_handle_def rec_handle_def new_handle_def zero_dsdiff_def)

lemma head_mid:
  "head_bytes a b r ids c @ t = [] @ form_bytes a @ (version_bytes @ prop_head b @ fs_bytes r @ chnl_bytes ids @ cmpr_bytes @ snd_bytes c @ t)"
  "head_bytes a b r ids c @ t = form_bytes a @ version_bytes @ (prop_head b @ fs_bytes r @ chnl_bytes ids @ cmpr_bytes @ snd_bytes c @ t)"
  "head_bytes a b r ids c @ t = (form_bytes a @ version_bytes) @ prop_head b @ (fs_bytes r @ chnl_bytes ids @ cmpr_bytes @ snd_bytes c @ t)"
  "head_bytes a b r ids c @ t = (form_bytes a @ version_bytes @ prop_head b @ fs_bytes r) @ chnl_bytes ids @ (cmpr_bytes @ snd_bytes c @ t)"
  "head_bytes a b r ids c @ t = (form_bytes a @ version_bytes @ prop_head b @ fs_bytes r @ chnl_bytes ids @ cmpr_bytes) @ snd_bytes c @ t"
  by (simp_all add: head_bytes_def)

lemma rewrite_parts:
  assumes g: "grows s k" and k: "122 + 4 * length ids + length t \<le> k" and ids: "channels_ok ids"
  shows "on_dio (dsdiff_chunk_write_frm8_header a') (fin_handle s rate ids n f (head_bytes a b rate ids c @ t) 0 e) =
      (Ok (), fin_handle s rate ids n f (head_bytes a' b rate ids c @ t) 16 e)" (is ?form)
    and "on_dio (dsdiff_chunk_write_fver DSDIFF_FILE_VERSION_15) (fin_handle s rate ids n f (head_bytes a b rate ids c @ t) 16 e) =
      (Ok (), fin_handle s rate ids n f (head_bytes a b rate ids c @ t) 32 e)" (is ?version)
    and "on_dio (dsdiff_chunk_write_prop_header b') (fin_handle s rate ids n f (head_bytes a b rate ids c @ t) 32 e) =
      (Ok (), fin_handle s rate ids n f (head_bytes a b' rate ids c @ t) 48 e)" (is ?properties)
    and "on_dio (dsdiff_chunk_write_chnl (of_nat (length ids)) (Ptr (map Some ids)))
        (fin_handle s rate ids n f (head_bytes a b rate ids c @ t) 64 e) =
      (Ok (), fin_handle s rate ids n f (head_bytes a b rate ids c @ t) (78 + 4 * length ids) e)" (is ?chnl)
    and "data_span (dsdiff_chunk_write_snd_header c')
        (fin_handle s rate ids n f (head_bytes a b rate ids c @ t) (110 + 4 * length ids) e) =
      (Ok (), (fin_handle s rate ids n f (head_bytes a b rate ids c' @ t) (122 + 4 * length ids) e)
        \<lparr>hd_sound_data_start_pos := of_nat (122 + 4 * length ids), hd_sound_data_end_pos := of_nat (122 + 4 * length ids) + c'\<rparr>)" (is ?snd)
proof -
  note mid = fin_mid [OF _ g]
  show ?form
    unfolding head_mid(1) by (subst mid [OF emits_frm8 [folded form_bytes_def]]) (use k in simp_all)
  show ?version
    unfolding head_mid(2) by (subst mid [OF emits_fver [of DSDIFF_FILE_VERSION_15, folded version_bytes_def]]) (use k in simp_all)
  show ?properties
    unfolding head_mid(3) by (subst mid [OF emits_prop [folded prop_head_def]]) (use k in simp_all)
  have chnl: "emits (dsdiff_chunk_write_chnl (of_nat (length ids)) (Ptr (map Some ids))) (chnl_bytes ids) ()"
    unfolding chnl_bytes_def using ids by (intro emits_chnl) (simp_all add: channels_ok_def)
  show ?chnl
    unfolding head_mid(4) by (subst mid [OF chnl]) (use k in simp_all)
  let ?a = "form_bytes a @ version_bytes @ prop_head b @ fs_bytes rate @ chnl_bytes ids @ cmpr_bytes"
  let ?D = "\<lambda>c. head_bytes a b rate ids c @ t" and ?p = "122 + 4 * length ids"
  have snd: "data_span (write_data_header DSD_FOURCC c') (fin_handle s rate ids n f (?D c) (110 + 4 * length ids) e) =
      (Ok (), (fin_handle s rate ids n f (?D c) (110 + 4 * length ids) e)\<lparr>hd_io := dio_put s (?D c') ?p,
        hd_sound_data_start_pos := of_nat ?p, hd_sound_data_end_pos := of_nat ?p + c'\<rparr>)"
  proof (rule data_span_steps)
    show "dsdiff_io_write_chunk_id DSD_FOURCC (hd_io (fin_handle s rate ids n f (?D c) (110 + 4 * length ids) e)) =
        (Ok (), dio_put s (?D c) (114 + 4 * length ids))"
      using emits_mid [OF emits_chunk_id g, of ?a "id_bytes DSD_FOURCC" "be_enc 8 (unat c) @ t"] k
      by (simp add: fin_handle_def head_bytes_def snd_bytes_def)
    show "dsdiff_io_write_uint64_be c' (dio_put s (?D c) (114 + 4 * length ids)) = (Ok (), dio_put s (?D c') ?p)"
      using emits_mid [OF emits_integers(5) g, of "?a @ id_bytes DSD_FOURCC" "be_enc 8 (unat c)" t] k
      by (simp add: head_bytes_def snd_bytes_def)
    show "dsdiff_io_get_position (dio_put s (?D c') ?p) = (Ok (of_nat ?p), dio_put s (?D c') ?p)"
      using g k by (intro dio_position_put) (simp_all add: grows_def)
    show "hd_io (fin_handle s rate ids n f (?D c) (110 + 4 * length ids) e) \<noteq> None"
      using g by (simp add: fin_handle_def grows_def dio_put_Some)
  qed
  then show ?snd by (simp add: dsdiff_chunk_write_snd_header_def fin_handle_def)
qed

lemma fin_data_pos:
  "(fin_handle s rate ids n f d p e)\<lparr>hd_sound_data_start_pos := of_nat (122 + 4 * length ids),
     hd_sound_data_end_pos := of_nat (122 + 4 * length ids) + of_nat n\<rparr> = fin_handle s rate ids n f d p e"
  by (simp add: fin_handle_def rec_handle_def)

lemma rewrite_headers_ok:
  assumes g: "grows s k" and ids: "channels_ok ids" and k: "122 + 4 * length ids + length t \<le> k" and n: "n < 2 ^ 62"
  shows "rewrite_headers v (fin_handle s rate ids n f (head_bytes 0 0 rate ids 0 @ t) p e) =
    (Ok (), fin_handle s rate ids n f (head_bytes v (of_nat (66 + 4 * length ids)) rate ids (of_nat n) @ t)
       (122 + 4 * length ids) e)"
proof -
  let ?F = "fin_handle s rate ids n f" and ?D = "\<lambda>a b c. head_bytes a b rate ids c @ t"
  have open_s: "dio_is_open s" using g by (simp add: grows_def)
  note parts = rewrite_parts [OF g k ids]
  have len: "length ids \<le> 1000" using ids by (simp add: channels_ok_def)
  have q: "(44 + of_nat (66 + 4 * length ids) :: u64) = of_nat (110 + 4 * length ids)" by simp
  have u: "unat (of_nat (110 + 4 * length ids) :: u64) = 110 + 4 * length ids"
    by (rule unat_of_nat_small) (use len in simp)
  have seek: "on_dio (seek_set 0) (?F d x e) = (Ok (Some 0), ?F d 0 e)"
    "on_dio (seek_set 64) (?F d x e) = (Ok (Some 64), ?F d 64 e)"
    "on_dio (seek_set (of_nat (110 + 4 * length ids))) (?F d x e) =
      (Ok (Some (of_nat (110 + 4 * length ids))), ?F d (110 + 4 * length ids) e)" for d x
    using fin_seek [OF open_s, of 0] fin_seek [OF open_s, of 64] fin_seek [OF open_s, of "of_nat (110 + 4 * length ids)"] u len
    by simp_all
  have pos: "on_dio dsdiff_io_get_position (?F d 32 e) = (Ok 32, ?F d 32 e)" for d
    using fin_position [OF open_s, of 32] by simp
  have snd: "rewrite_sound_header (?F (?D v (of_nat (66 + 4 * length ids)) 0) (110 + 4 * length ids) e) =
      (Ok (), ?F (?D v (of_nat (66 + 4 * length ids)) (of_nat n)) (122 + 4 * length ids) e)"
    using parts(5) fin_data_pos by (simp add: rewrite_sound_header_def)
  show ?thesis
    unfolding rewrite_headers_def
    by (simp add: seek parts(1-4) pos snd q del: of_nat_add)
qed

lemma dff_finalize_ok:
  assumes g: "grows s k" and ids: "channels_ok ids"
    and k: "122 + 4 * length ids + length data + length (pad_if (odd (length data))) \<le> k"
  shows "dsdiff_finalize hp (rec_handle s rate ids (length data) f (head_bytes 0 0 rate ids 0 @ data)) =
    (Ok (), fin_handle s rate ids (length data) f (dff_bytes rate ids data) (length (dff_bytes rate ids data))
       (of_nat (length (dff_bytes rate ids data))))"
proof -
  let ?t = "data @ pad_if (odd (length data))" and ?n = "length data"
  let ?F = "fin_handle s rate ids ?n f" and ?D = "\<lambda>a b c. head_bytes a b rate ids c @ ?t"
  let ?E = "122 + 4 * length ids + length ?t"
  have E: "?E < 2 ^ 62" "?E \<le> k" "dio_is_open s" using g k by (simp_all add: grows_def)
  have meta: "write_metadata hp (rec_handle s rate ids ?n f (head_bytes 0 0 rate ids 0 @ data)) =
      (Ok (), ?F (?D 0 0 0) ?E 0)"
    using dff_write_metadata_ok [OF g, of "head_bytes 0 0 rate ids 0 @ data" ?n hp rate ids f] k
    by (simp add: rec_fin add.assoc)
  have pos: "on_dio dsdiff_io_get_position (?F d p e) = (Ok (of_nat p), ?F d p e)" if "p < 2 ^ 62" for d p e
    using fin_position [OF E(3) that] .
  have upd: "(?F d p e)\<lparr>hd_file_size_after_finalize := e'\<rparr> = ?F d p e'" for d p e e'
    by (simp add: fin_handle_def)
  have n: "?n < 2 ^ 62" using E(1) by simp
  let ?v = "of_nat ?E - 12 :: u64"
  have v: "?v = of_nat (110 + 4 * length ids + length data + length (pad_if (odd (length data))))" by simp
  have heads: "rewrite_headers ?v (?F (?D 0 0 0) ?E (of_nat ?E)) = (Ok (), ?F (dff_bytes rate ids data) (122 + 4 * length ids) (of_nat ?E))"
    using rewrite_headers_ok [OF g ids, of ?t ?n ?v rate f ?E "of_nat ?E"] k n unfolding dff_bytes_def v by simp
  have u: "unat (of_nat ?E :: u64) = ?E" by (rule unat_of_nat_small) (use E(1) in simp)
  have seek: "on_dio (seek_set (of_nat ?E)) (?F d p e) = (Ok (Some (of_nat ?E)), ?F d ?E e)" for d p e
    using fin_seek [OF E(3), of "of_nat ?E"] E(1) u by simp
  have len: "length (dff_bytes rate ids data) = ?E" by (simp add: dff_bytes_def)
  have mode: "hd_mode (rec_handle s rate ids ?n f d) = DSDIFF_FILE_MODE_WRITE" for d by (simp add: rec_fin)
  show ?thesis
    unfolding len dsdiff_finalize_def
    using mode meta pos [OF E(1)] upd heads seek
    by (simp add: ensure_mode_def is_writing_def del: of_nat_add length_append)
qed

section \<open>Recording\<close>

lemma close_ok:
  assumes "int (length d) \<le> INT64_MAX"
  shows "dsdiff_close (Ptr (fin_handle (Some (fresh name cap)) rate ids n f d (length d) e), disk) =
    (Ok (), (Dangling, disk\<lparr>dfiles := (dfiles disk)(name \<mapsto> d)\<rparr>))"
proof -
  let ?h = "fin_handle (Some (fresh name cap)) rate ids n f d (length d) e"
  have io: "hd_io ?h = Some ((fresh name cap)\<lparr>dio_file := Ptr \<lparr>fpath = name, fdata = d, fpos = length d, freadable = False,
      fwritable = True, fcap = cap\<rparr>\<rparr>)"
    by (simp add: fin_handle_def fresh_def dio_put_def)
  have close: "dsdiff_io_close (hd_io ?h, disk) =
      (Ok (), (Some ((fresh name cap)\<lparr>dio_file := Null\<rparr>), disk\<lparr>dfiles := (dfiles disk)(name \<mapsto> d)\<rparr>))"
    using assms unfolding io by (simp add: dsdiff_io_close_def fresh_def ftell_def ftruncate_def fclose_def)
  have fields: "hd_channel_ids ?h = Ptr (map Some ids)" "hd_indexes ?h = Null" "hd_comments ?h = None" "hd_io ?h \<noteq> None"
    by (simp_all add: fin_handle_def rec_handle_def new_handle_def zero_dsdiff_def fresh_def dio_put_def)
  obtain h' where "close_on (?h, disk) = (Ok (), (h', disk\<lparr>dfiles := (dfiles disk)(name \<mapsto> d)\<rparr>))"
    using close fields
    by (simp add: close_on_def close_io_def zoom_def ignore_def on_fst_def seq_def free_ptr_def has_elements_def modify_def)
  then show ?thesis by (simp add: dsdiff_close_def)
qed

text \<open>A new handle, a new file, its blocks of sound data, the end.\<close>

definition record_dsd :: "heap \<Rightarrow> string \<Rightarrow> u16 \<Rightarrow> u32 \<Rightarrow> byte list list \<Rightarrow> unit dd_file_op" where
  "record_dsd hp name cc rate blocks =
     seq (on_fst (dsdiff_new hp)) (\<lambda>_.
     seq (dsdiff_create hp (Some name) DSDIFF_AUDIO_DSD cc 1 rate) (\<lambda>_.
     seq (on_fst (on_dsdiff (write_blocks blocks))) (\<lambda>_.
     seq (on_fst (on_dsdiff (dsdiff_finalize hp))) (\<lambda>_.
     dsdiff_close))))"

lemma recording_leaves:
  assumes "1 \<le> cc" "cc \<le> 1000" "name \<noteq> []" "ample hp 4112" "dwritable d name" "\<forall>b \<in> set blocks. length b < 2 ^ 32"
    and "123 + 4 * unat cc + length (concat blocks) \<le> dcap d" "dcap d < 2 ^ 62"
  shows "record_dsd hp name cc rate blocks (p, d) =
    (Ok (), (Dangling, d\<lparr>dfiles := (dfiles d)(name \<mapsto> dff_bytes rate (default_channel_ids cc) (concat blocks))\<rparr>))"
proof -
  let ?ids = "default_channel_ids cc" and ?data = "concat blocks"
  let ?s = "Some (fresh name (dcap d))" and ?d1 = "d\<lparr>dfiles := (dfiles d)(name \<mapsto> [])\<rparr>"
  note ids = default_channels [OF assms(1,2)]
  have cc: "unat cc \<le> 1000" using assms(2) by (simp add: word_le_nat_alt)
  have len: "length ?ids = unat cc"
    using ids unat_of_nat_small [of "length ?ids", where 'a = 16] by (simp add: channels_ok_def)
  have g: "grows ?s (dcap d)" using assms(8) by (simp add: fresh_grows)
  have new: "dsdiff_new hp p = (Ok (), Ptr new_handle)" using assms(4) by (simp add: dsdiff_new_ok ampleD)
  have mem: "sa_malloc hp 4112" "sa_malloc hp (unat cc * 4)" using assms(4) cc by (simp_all add: ampleD)
  have create: "dsdiff_create hp (Some name) DSDIFF_AUDIO_DSD cc 1 rate (Ptr new_handle, d) =
      (Ok (), (Ptr (rec_handle ?s rate ?ids 0 0 (head_bytes 0 0 rate ?ids 0)), ?d1))"
    using assms(7) len by (intro dff_create_ok assms(1-3,5) mem) simp
  obtain f where blocks: "write_blocks blocks (rec_handle ?s rate ?ids 0 0 (head_bytes 0 0 rate ?ids 0)) =
      (Ok (), rec_handle ?s rate ?ids (length ?data) f (head_bytes 0 0 rate ?ids 0 @ ?data))"
    using write_blocks_ok [OF g ids(1), of "head_bytes 0 0 rate ?ids 0" blocks 0 rate 0] assms(6,7) len by auto
  have fin: "dsdiff_finalize hp (rec_handle ?s rate ?ids (length ?data) f (head_bytes 0 0 rate ?ids 0 @ ?data)) =
      (Ok (), fin_handle ?s rate ?ids (length ?data) f (dff_bytes rate ?ids ?data) (length (dff_bytes rate ?ids ?data))
         (of_nat (length (dff_bytes rate ?ids ?data))))"
    using assms(7) len by (intro dff_finalize_ok [OF g ids(1)]) (simp add: pad_if_def)
  have "length (dff_bytes rate ?ids ?data) \<le> dcap d"
    using assms(7) len by (simp add: dff_bytes_def pad_if_def)
  then have close: "dsdiff_close (Ptr (fin_handle ?s rate ?ids (length ?data) f (dff_bytes rate ?ids ?data)
      (length (dff_bytes rate ?ids ?data)) (of_nat (length (dff_bytes rate ?ids ?data)))), ?d1) =
      (Ok (), (Dangling, d\<lparr>dfiles := (dfiles d)(name \<mapsto> dff_bytes rate ?ids ?data)\<rparr>))"
    using assms(8) by (subst close_ok) simp_all
  show ?thesis
    using new create blocks fin close by (simp add: record_dsd_def on_fst_def zoom_def on_dsdiff_def)
qed

text \<open>C21. Recording leaves on the disk exactly the file of the format: the head with the sizes filled
  in, the blocks one after the other, and a padding byte when their length is odd.\<close>

theorem recorded_file:
  assumes "1 \<le> cc" "cc \<le> 1000" "name \<noteq> []" "ample hp 4112" "dwritable d name" "\<forall>b \<in> set blocks. length b < 2 ^ 32"
    and "123 + 4 * unat cc + length (concat blocks) \<le> dcap d" "dcap d < 2 ^ 62"
  shows "record_dsd hp name cc rate blocks (p, d) =
    (Ok (), (Dangling, d\<lparr>dfiles := (dfiles d)(name \<mapsto> dff_bytes rate (default_channel_ids cc) (concat blocks))\<rparr>))"
  using assms by (rule recording_leaves)

theorem recorded_file_witness:
  "record_dsd roomy_heap ''b.dff'' 2 2822400 [[1, 2], [3, 4, 5]] (Null, disk_with []) =
    (Ok (), (Dangling, (disk_with [])\<lparr>dfiles := (dfiles (disk_with []))(''b.dff'' \<mapsto>
       dff_bytes 2822400 (default_channel_ids 2) (concat [[1, 2], [3, 4, 5]]))\<rparr>))"
  by (rule recorded_file) (simp_all add: roomy_heap_def ample_def sa_malloc_def disk_with_def)

end
