(* ===== verification/Dsdiff_Playing.thy ===== *)
theory Dsdiff_Playing
  imports Dsdiff_Recording
begin

text \<open>
  The chunks of a recorded file, reading through the handle, and the rounds of the loop over the
  property chunk of such a file.
\<close>

section \<open>The chunks of a recorded file\<close>

lemma bytes_at_mid: "p = length a \<Longrightarrow> n = length b \<Longrightarrow> bytes_at p n (a @ b @ c) = b"
  by (simp add: bytes_at_def)

lemma dff_chunks:
  defines "F \<equiv> \<lambda>rate ids data. dff_bytes rate ids data"
  shows "bytes_at 0 4 (F rate ids data) = id_bytes FRM8_FOURCC"
    "bytes_at 4 12 (F rate ids data) =
       be_enc 8 (unat (of_nat (110 + 4 * length ids + length data + length (pad_if (odd (length data)))) :: u64)) @ id_bytes DSD_FOURCC"
    "bytes_at 16 4 (F rate ids data) = id_bytes FVER_FOURCC"
    "bytes_at 20 12 (F rate ids data) = be_enc 8 (unat (4 :: u64)) @ be_enc 4 (unat DSDIFF_FILE_VERSION_15)"
    "bytes_at 32 4 (F rate ids data) = id_bytes PROP_FOURCC"
    "bytes_at 36 12 (F rate ids data) = be_enc 8 (unat (of_nat (66 + 4 * length ids) :: u64)) @ id_bytes SND_FOURCC"
    "bytes_at 48 4 (F rate ids data) = id_bytes FS_FOURCC"
    "bytes_at 52 12 (F rate ids data) = be_enc 8 (unat (4 :: u64)) @ be_enc 4 (unat rate)"
    "bytes_at 64 4 (F rate ids data) = id_bytes CHNL_FOURCC"
    "bytes_at 68 (10 + 4 * length ids) (F rate ids data) =
       be_enc 8 (unat (2 + ucast (of_nat (length ids) :: u16) * 4 :: u64)) @
       be_enc 2 (unat (of_nat (length ids) :: u16)) @ channels_bytes ids"
    "bytes_at (78 + 4 * length ids) 4 (F rate ids data) = id_bytes CMPR_FOURCC"
    "bytes_at (82 + 4 * length ids) 28 (F rate ids data) =
       be_enc 8 (unat (20 :: u64)) @ id_bytes DSD_FOURCC @ pstring_bytes (byte_text ''not compressed'')"
    "bytes_at (110 + 4 * length ids) 4 (F rate ids data) = id_bytes DSD_FOURCC"
    "bytes_at (114 + 4 * length ids) 8 (F rate ids data) = be_enc 8 (unat (of_nat (length data) :: u64))"
    "bytes_at (122 + 4 * length ids) (length data) (F rate ids data) = data"
    "bytes_at (122 + 4 * length ids + length data) (length (pad_if (odd (length data)))) (F rate ids data) =
       pad_if (odd (length data))"
    "length (F rate ids data) = 122 + 4 * length ids + length data + length (pad_if (odd (length data)))"
  unfolding F_def by (simp_all add: dff_bytes_def head_bytes_def part_defs bytes_at_def)

section \<open>Reading through the handle\<close>

text \<open>The handle with the stream \<open>s\<close> on the bytes \<open>d\<close> at the position \<open>p\<close>.\<close>

definition over :: "dsdiff_io option \<Rightarrow> byte list \<Rightarrow> nat \<Rightarrow> dsdiff \<Rightarrow> dsdiff" where
  "over s d p h = h\<lparr>hd_io := dio_put s d p\<rparr>"

definition readable :: "dsdiff_io option \<Rightarrow> bool" where
  "readable s \<longleftrightarrow> dio_is_open s \<and> dio_can_read s"

lemma over_dio: "m (dio_put s d p) = (r, dio_put s d q) \<Longrightarrow> on_dio m (over s d p h) = (r, over s d q h)"
  by (simp add: over_def on_dio_def zoom_def)

lemma over_local:
  assumes "takes_to m bs f a" "readable s" "bytes_at p (length bs) d = bs"
  shows "on_local v m (over s d p h) = (Ok (a, f v), over s d (p + length bs) h)"
  using on_local_takes [OF assms(1) _ _ assms(3)] assms(2) by (simp add: over_def readable_def)

lemma over_member:
  assumes "takes_to m bs f a" "readable s" "bytes_at p (length bs) d = bs"
    and "\<And>x. g (over s d p h) = g h" "\<And>out. u out (over s d (p + length bs) h) = over s d (p + length bs) (u out h)"
  shows "on_member g u m (over s d p h) = (Ok a, over s d (p + length bs) (u (f (g h)) h))"
  using takes_toD [OF assms(1) _ _ assms(3), of s "g h"] assms(2,4,5)
  by (simp add: on_member_def zoom_def over_def readable_def)

lemma over_position:
  assumes "readable s" "p < 2 ^ 62"
  shows "on_dio dsdiff_io_get_position (over s d p h) = (Ok (of_nat p), over s d p h)"
  using dio_position_put [of s p d] assms by (intro over_dio) (simp add: readable_def)

lemma over_peek:
  assumes "map_of DSDIFF_CHUNK_LIST c = Some ct" "readable s" "bytes_at p 4 d = id_bytes c"
  shows "peek_header (over s d p h) = (Ok (True, ct), over s d (p + 4) h)"
  using peek_takes [OF takes_to_header [OF assms(1)], of s p d h] assms(2,3) by (simp add: over_def readable_def)

lemma over_remember:
  assumes "readable s" "p < 2 ^ 62" "4 \<le> p" "\<And>v. u v (over s d p h) = over s d p (u v h)"
  shows "remember_pos u (over s d p h) = (Ok (), over s d p (u (of_nat (p - 4)) h))"
  using over_position [OF assms(1,2), of d h] assms(3,4) by (simp add: remember_pos_def of_nat_diff)

lemma over_fields [simp]:
  "hd_mode (over s d p h) = hd_mode h" "hd_is_dst_format (over s d p h) = hd_is_dst_format h"
  "hd_channel_count (over s d p h) = hd_channel_count h" "hd_sound_data_size (over s d p h) = hd_sound_data_size h"
  "hd_io (over s d p h) = dio_put s d p" "hd_format_version (over s d p h) = hd_format_version h"
  by (simp_all add: over_def)

lemma takes_to_if_put:
  "b \<Longrightarrow> takes_to (k ()) ys g r \<Longrightarrow> takes_to (seq (if b then put_out f else m) k) ys (\<lambda>x. g (f x)) r"
  using takes_to_put_out_seq [of k ys g r f] by simp

lemma takes_cmpr:
  fixes n :: u64
  assumes "length name \<le> unat l" "length name \<le> 255"
  shows "takes_to (dsdiff_chunk_read_cmpr l 256) (be_enc 8 (unat n) @ id_bytes DSD_FOURCC @ pstring_bytes name)
    (\<lambda>_. (DSDIFF_AUDIO_DSD, name)) ()"
proof -
  obtain r where str: "takes (dsdiff_io_read_pstring l 256) (pstring_bytes name) (r, name)"
    using takes_pstring [of name l 256] assms by auto
  show ?thesis
    unfolding dsdiff_chunk_read_cmpr_def
    by (rule takes_to_cong, (rule takes_to_if_put [OF refl] str reader_steps refl)+) (simp add: case_prod_beta)
qed

section \<open>The property chunk\<close>

text \<open>A round of the loop over the properties, and its end.\<close>

lemma prop_round_step:
  assumes "readable s" "p < 2 ^ 62" "unat e < 2 ^ 62" "p < unat e" "map_of DSDIFF_CHUNK_LIST c = Some ct" "bytes_at p 4 d = id_bytes c"
    and "parse_prop_chunk hp l ct (over s d (p + 4) h, k) = (Ok (), s')"
  shows "prop_round hp l e (over s d p h, k) = (Ok None, s')"
proof -
  have "unat (of_nat p :: u64) = p" by (rule unat_of_nat_small) (use assms(2) in simp)
  then have "\<not> of_nat p \<ge> e" using assms(4) by (simp add: word_le_nat_alt)
  then show ?thesis
    using over_position [OF assms(1,2), of d h] over_peek [OF assms(5,1,6), of h] assms(7)
    by (simp add: prop_round_def on_fst_def zoom_def)
qed

lemma prop_round_end:
  assumes "readable s" "p < 2 ^ 62" "e = of_nat p"
  shows "prop_round hp l e (over s d p h, k) = (Ok (Some ()), (over s d p h, k))"
  using over_position [OF assms(1,2), of d h] assms(3) by (simp add: prop_round_def on_fst_def zoom_def)

lemma parse_recorded_prop:
  fixes rate :: u32 and ids :: "u32 list" and data :: "byte list"
  defines "F \<equiv> dff_bytes rate ids data"
  assumes r: "readable s" and ids: "channels_ok ids" and hp: "sa_malloc hp (length ids * 4)" and l: "14 \<le> unat l"
  shows "dsdiff_parse_prop hp l (of_nat (66 + 4 * length ids)) (over s F 48 h) =
    Some (Ok (), over s F (110 + 4 * length ids) (h\<lparr>hd_prop_chunk_size := of_nat (66 + 4 * length ids),
      hd_sample_rate := rate, hd_channel_chunk_pos := 64, hd_channel_count := of_nat (length ids),
      hd_channel_ids := Ptr (map Some ids), hd_is_dst_format := False\<rparr>))"
proof -
  note chunks = dff_chunks [where rate = rate and ids = ids and data = data, folded F_def]
  let ?e = "of_nat (110 + 4 * length ids) :: u64"
  have len: "length ids \<le> 1000" "ids \<noteq> []" "\<forall>c \<in> set ids. unat c < 1008" using ids by (simp_all add: channels_ok_def)
  have e: "unat ?e = 110 + 4 * length ids" by (rule unat_of_nat_small) (use len in simp)
  define h1 where "h1 = h\<lparr>hd_prop_chunk_size := of_nat (66 + 4 * length ids)\<rparr>"
  define h2 where "h2 = h1\<lparr>hd_sample_rate := rate\<rparr>"
  define h3 where "h3 = h2\<lparr>hd_channel_chunk_pos := 64, hd_channel_count := of_nat (length ids), hd_channel_ids := Ptr (map Some ids)\<rparr>"
  define h4 where "h4 = h3\<lparr>hd_is_dst_format := False\<rparr>"
  let ?k1 = "no_props\<lparr>fs_count := 1\<rparr>" let ?k2 = "?k1\<lparr>chnl_count := 1\<rparr>" let ?k3 = "?k2\<lparr>cmpr_count := 1\<rparr>"
  have 1: "prop_round hp l ?e (over s F 48 h1, no_props) = (Ok None, (over s F 64 h2, ?k1))"
  proof (rule prop_round_step [OF r, where c = FS_FOURCC and ct = DSDIFF_CHUNK_FS])
    have "on_member hd_sample_rate (\<lambda>v h. h\<lparr>hd_sample_rate := v\<rparr>) dsdiff_chunk_read_fs (over s F 52 h1) = (Ok (), over s F 64 h2)"
      using over_member [OF takes_fs r, of 52 rate F hd_sample_rate h1 "\<lambda>v h. h\<lparr>hd_sample_rate := v\<rparr>"] chunks
      by (simp add: over_def h2_def)
    then show "parse_prop_chunk hp l DSDIFF_CHUNK_FS (over s F (48 + 4) h1, no_props) = (Ok (), (over s F 64 h2, ?k1))"
      by (simp add: parse_prop_chunk_def counted_def on_fst_def on_snd_def zoom_def no_props_def)
  qed (use e chunks len in \<open>simp_all add: DSDIFF_CHUNK_LIST_def fourcc_values\<close>)
  have 2: "prop_round hp l ?e (over s F 64 h2, ?k1) = (Ok None, (over s F (78 + 4 * length ids) h3, ?k2))"
  proof (rule prop_round_step [OF r, where c = CHNL_FOURCC and ct = DSDIFF_CHUNK_CHNL])
    have pos: "remember_pos (\<lambda>p h. h\<lparr>hd_channel_chunk_pos := p\<rparr>) (over s F 68 h2) =
        (Ok (), over s F 68 (h2\<lparr>hd_channel_chunk_pos := 64\<rparr>))"
      using over_remember [OF r, of 68 "\<lambda>p h. h\<lparr>hd_channel_chunk_pos := p\<rparr>" F h2] by (simp add: over_def)
    have "on_member (\<lambda>h. (hd_channel_count h, hd_channel_ids h)) (\<lambda>(n, ids) h. h\<lparr>hd_channel_count := n, hd_channel_ids := ids\<rparr>)
        (dsdiff_chunk_read_chnl hp) (over s F 68 (h2\<lparr>hd_channel_chunk_pos := 64\<rparr>)) = (Ok (), over s F (78 + 4 * length ids) h3)"
      using over_member [OF takes_chnl [OF len(2,1,3) hp] r, of 68 F "\<lambda>h. (hd_channel_count h, hd_channel_ids h)"
          "h2\<lparr>hd_channel_chunk_pos := 64\<rparr>" "\<lambda>(n, ids) h. h\<lparr>hd_channel_count := n, hd_channel_ids := ids\<rparr>"] chunks
      by (simp add: over_def h3_def case_prod_beta)
    then show "parse_prop_chunk hp l DSDIFF_CHUNK_CHNL (over s F (64 + 4) h2, ?k1) =
        (Ok (), (over s F (78 + 4 * length ids) h3, ?k2))"
      using pos by (simp add: parse_prop_chunk_def counted_def on_fst_def on_snd_def zoom_def no_props_def)
  qed (use e chunks len in \<open>simp_all add: DSDIFF_CHUNK_LIST_def fourcc_values\<close>)
  have 3: "prop_round hp l ?e (over s F (78 + 4 * length ids) h3, ?k2) = (Ok None, (over s F (110 + 4 * length ids) h4, ?k3))"
  proof (rule prop_round_step [OF r, where c = CMPR_FOURCC and ct = DSDIFF_CHUNK_CMPR])
    have "length (byte_text ''not compressed'') = 14" by (simp add: byte_text_def)
    then have "on_local (DSDIFF_AUDIO_UNKNOWN, []) (dsdiff_chunk_read_cmpr l 256) (over s F (82 + 4 * length ids) h3) =
        (Ok ((), (DSDIFF_AUDIO_DSD, byte_text ''not compressed'')), over s F (110 + 4 * length ids) h3)"
      using over_local [OF takes_cmpr [of "byte_text ''not compressed''" l 20] r, of "82 + 4 * length ids" F
          "(DSDIFF_AUDIO_UNKNOWN, [])" h3] l chunks by simp
    then show "parse_prop_chunk hp l DSDIFF_CHUNK_CMPR (over s F (78 + 4 * length ids + 4) h3, ?k2) =
        (Ok (), (over s F (110 + 4 * length ids) h4, ?k3))"
      by (simp add: parse_prop_chunk_def counted_def parse_cmpr_def on_fst_def on_snd_def zoom_def no_props_def h4_def over_def)
  qed (use e chunks len in \<open>simp_all add: DSDIFF_CHUNK_LIST_def fourcc_values\<close>)
  have 4: "prop_round hp l ?e (over s F (110 + 4 * length ids) h4, ?k3) = (Ok (Some ()), (over s F (110 + 4 * length ids) h4, ?k3))"
    by (rule prop_round_end [OF r]) (use len in simp_all)
  have loop: "repeat_lop (lift (prop_round hp l ?e)) (over s F 48 h1, no_props) =
      Some (Ok (), (over s F (110 + 4 * length ids) h4, ?k3))"
    using 1 2 3 4 by (simp add: repeat_continue repeat_leave)
  have pos: "on_dio dsdiff_io_get_position (over s F 48 h1) = (Ok 48, over s F 48 h1)"
    using over_position [OF r, of 48 F h1] by simp
  have e': "48 + of_nat (66 + 4 * length ids) - 4 = ?e" by simp
  have "over s F 48 h\<lparr>hd_prop_chunk_size := of_nat (66 + 4 * length ids)\<rparr> = over s F 48 h1" by (simp add: h1_def over_def)
  then show ?thesis
    using pos loop unfolding dsdiff_parse_prop_def lop_local_def
    by (simp add: e' del: of_nat_add) (simp add: h4_def h3_def h2_def h1_def)
qed

end
