(* ===== verification/Dsdiff_Roundtrip.thy ===== *)
theory Dsdiff_Roundtrip
  imports Dsdiff_Playing
begin

text \<open>
  Opening a recorded file: the rounds of the loop over the chunks of the form, the seek to the
  sound data, and the round trip from the blocks that were written to the bytes that are read.
\<close>

section \<open>The sound data chunk\<close>

lemma seek_forward:
  assumes "dio_is_open s" "q + n < 2 ^ 62"
  shows "dsdiff_io_seek (int n) SEEK_CUR True (dio_put s d q) = (Ok (Some (of_nat (q + n))), dio_put s d (q + n))"
proof -
  obtain io f where s: "s = Some io" "dio_file io = Ptr f" using assms(1) by (auto simp: dio_view_defs split: option.splits ptr.splits)
  have "int q + int n \<le> INT64_MAX" using assms(2) by simp
  then show ?thesis
    using s assms(2) by (simp add: dio_put_def dsdiff_io_seek_def on_stream_Some fseek_def ftell_def Let_def nat_add_distrib)
qed

lemma skip_recorded:
  assumes r: "readable s" and d: "bytes_at p 8 d = be_enc 8 (unat (of_nat n :: u64))"
    "bytes_at (p + 8 + n) (length (pad_if (odd n))) d = pad_if (odd n)" and small: "p + 8 + n < 2 ^ 62"
  shows "dsdiff_chunk_read_snd_header (dio_put s d p, out) =
    (Ok (), (dio_put s d (p + 8 + n + length (pad_if (odd n))), (of_nat n, of_nat (p + 8), of_nat (p + 8 + n))))"
proof -
  have o: "dio_is_open s" "dio_can_read s" using r by (simp_all add: readable_def)
  have rd: "dsdiff_io_read_uint64_be (dio_put s d p) = (Ok (of_nat n), dio_put s d (p + 8))"
    using takesD [OF takes_integers(4) o, of p "of_nat n" d] d(1) by simp
  have pos: "dsdiff_io_get_position (dio_put s d (p + 8)) = (Ok (of_nat (p + 8)), dio_put s d (p + 8))"
    using small by (intro dio_position_put [OF o(1)]) simp
  have n: "unat (of_nat n :: u64) = n" by (rule unat_of_nat_small) (use small in simp)
  have sn: "sint (of_nat n :: u64) = int n" using small by (simp add: signed_of_nat signed_take_bit_int_eq_self)
  have sk: "dsdiff_io_seek (int n) SEEK_CUR True (dio_put s d (p + 8)) =
      (Ok (Some (of_nat (p + 8 + n))), dio_put s d (p + 8 + n))"
    using seek_forward [OF o(1), of "p + 8" n d] small by simp
  have odd: "((of_nat n :: u64) mod 2 \<noteq> 0) = odd n"
    using n by (simp add: word_unat_eq_iff unat_mod odd_iff_mod_2_eq_one)
  have pad: "read_pad_if (odd n) (dio_put s d (p + 8 + n)) = (Ok (), dio_put s d (p + 8 + n + length (pad_if (odd n))))"
    using takesD [OF takes_pad o d(2)] by simp
  have head: "read_data_header (dio_put s d p, out) = (Ok (), (dio_put s d (p + 8), (of_nat n, of_nat (p + 8), 0)))"
    using rd pos o by (simp add: read_data_header_def on_dout_def dio_put_Some put_out_def on_snd_def zoom_def read_to_def on_fst_def)
  show ?thesis
    using head sk pad unfolding read_pad_if_def odd [symmetric]
    by (simp add: dsdiff_chunk_read_snd_header_def read_and_skip_data_def read_to_def on_fst_def zoom_def put_out_def on_snd_def sn
        split: if_splits)
qed

section \<open>The form chunk\<close>

text \<open>A round of the loop over the chunks of the form, and its end.\<close>

lemma frm8_round_step:
  assumes "readable s" "p < 2 ^ 62" "unat n < 2 ^ 62" "p \<le> unat n" "map_of DSDIFF_CHUNK_LIST c = Some ct"
    and "bytes_at p 4 d = id_bytes c" "parse_frm8_chunk hp l ct (over s d (p + 4) h, k) = Some (Ok True, s')"
  shows "frm8_round hp l n (over s d p h, k) = Some (Ok None, s')"
proof -
  have "unat (of_nat p :: u64) = p" by (rule unat_of_nat_small) (use assms(2) in simp)
  then have small: "\<not> of_nat p > n" using assms(4) by (simp add: word_less_nat_alt not_less)
  have pos: "dsdiff_io_get_position (hd_io (over s d p h)) = (Ok (of_nat p), dio_put s d p)"
    using dio_position_put [of s p d] assms(1,2) by (simp add: readable_def)
  have same: "over s d p h\<lparr>hd_io := dio_put s d p\<rparr> = over s d p h" by (simp add: over_def)
  have peek: "on_fst peek_header (over s d p h, k) = (Ok (True, ct), (over s d (p + 4) h, k))"
    using over_peek [OF assms(5,1,6), of h] by (simp add: on_fst_def zoom_def)
  show ?thesis
    using frm8_round_eq [OF pos, of hp l n k] small assms(7) unfolding same frm8_body_def
    by (simp add: lseq_def lift_def peek)
qed

lemma frm8_round_end:
  assumes "readable s" "p < 2 ^ 62" "unat n < p"
  shows "frm8_round hp l n (over s d p h, k) = Some (Ok (Some ()), (over s d p h, k))"
proof -
  have "unat (of_nat p :: u64) = p" by (rule unat_of_nat_small) (use assms(2) in simp)
  then have big: "of_nat p > n" using assms(3) by (simp add: word_less_nat_alt)
  have pos: "dsdiff_io_get_position (hd_io (over s d p h)) = (Ok (of_nat p), dio_put s d p)"
    using dio_position_put [of s p d] assms(1,2) by (simp add: readable_def)
  show ?thesis
    using frm8_round_eq [OF pos, of hp l n k] big by (simp add: over_def)
qed

lemma tried_ok: "m h = Some (Ok a, h') \<Longrightarrow> tried m inc (h, k) = Some (Ok True, (h', inc k))"
  by (simp add: tried_def lzoom_def lattempt_def lseq_def lift_def on_snd_def zoom_def)

lemma parse_frm8_cases:
  "parse_frm8_chunk hp l DSDIFF_CHUNK_PROP =
     tried (lseq (lift (on_local 0 dsdiff_chunk_read_prop_header)) (\<lambda>(_, n). dsdiff_parse_prop hp l n))
       (\<lambda>c. c\<lparr>prop_count := prop_count c + 1\<rparr>)"
  "parse_frm8_chunk hp l DSDIFF_CHUNK_DSD = tried (lift parse_snd) (\<lambda>c. c\<lparr>dsd_count := dsd_count c + 1\<rparr>)"
  by (simp_all add: parse_frm8_chunk_def)

text \<open>The handle after the chunks of a recorded file.\<close>

definition opened :: "u32 \<Rightarrow> u32 list \<Rightarrow> nat \<Rightarrow> dsdiff \<Rightarrow> dsdiff" where
  "opened rate ids n h = h\<lparr>hd_format_version := DSDIFF_FILE_VERSION_15,
     hd_prop_chunk_size := of_nat (66 + 4 * length ids), hd_sample_rate := rate, hd_channel_chunk_pos := 64,
     hd_channel_count := of_nat (length ids), hd_channel_ids := Ptr (map Some ids), hd_is_dst_format := False,
     hd_sound_data_size := of_nat n, hd_sound_data_start_pos := of_nat (122 + 4 * length ids),
     hd_sound_data_end_pos := of_nat (122 + 4 * length ids + n),
     hd_sample_frame_count := of_nat n div of_nat (length ids)\<rparr>"

lemma parse_recorded_form:
  fixes rate :: u32 and ids :: "u32 list" and data :: "byte list"
  defines "F \<equiv> dff_bytes rate ids data"
  assumes r: "readable s" and ids: "channels_ok ids" and hp: "sa_malloc hp (length ids * 4)" and l: "14 \<le> unat l"
    and data: "123 + 4 * length ids + length data < 2 ^ 62"
  shows "dsdiff_parse_frm8 hp l (of_nat (110 + 4 * length ids + length data + length (pad_if (odd (length data)))))
      (over s F 16 h) = Some (Ok (), over s F (length F) (opened rate ids (length data) h))"
proof -
  note chunks = dff_chunks [where rate = rate and ids = ids and data = data, folded F_def]
  let ?n = "length data" and ?pad = "length (pad_if (odd (length data)))"
  let ?k = "length ids"
  let ?size = "of_nat (110 + 4 * ?k + ?n + ?pad) :: u64"
  have len: "?k \<le> 1000" "ids \<noteq> []" using ids by (simp_all add: channels_ok_def)
  have pad: "?pad \<le> 1" by (simp add: pad_if_def)
  have size: "unat ?size = 110 + 4 * ?k + ?n + ?pad" by (rule unat_of_nat_small) (use data pad in simp)
  then have size_small: "unat ?size < 2 ^ 62" using data pad by simp
  define h1 where "h1 = h\<lparr>hd_format_version := DSDIFF_FILE_VERSION_15\<rparr>"
  define h2 where "h2 = h1\<lparr>hd_prop_chunk_size := of_nat (66 + 4 * ?k), hd_sample_rate := rate, hd_channel_chunk_pos := 64,
    hd_channel_count := of_nat ?k, hd_channel_ids := Ptr (map Some ids), hd_is_dst_format := False\<rparr>"
  define h3 where "h3 = h2\<lparr>hd_sound_data_size := of_nat ?n, hd_sound_data_start_pos := of_nat (122 + 4 * ?k),
    hd_sound_data_end_pos := of_nat (122 + 4 * ?k + ?n)\<rparr>"
  let ?c1 = "no_chunks\<lparr>fver_count := 1\<rparr>" let ?c2 = "?c1\<lparr>prop_count := 1\<rparr>" let ?c3 = "?c2\<lparr>dsd_count := 1\<rparr>"
  have 1: "frm8_round hp l ?size (over s F 16 h, no_chunks) = Some (Ok None, (over s F 32 h1, ?c1))"
  proof (rule frm8_round_step [OF r _ size_small, where c = FVER_FOURCC and ct = DSDIFF_CHUNK_FVER])
    have rd: "on_member hd_format_version (\<lambda>v h. h\<lparr>hd_format_version := v\<rparr>) dsdiff_chunk_read_fver (over s F 20 h) =
        (Ok (), over s F 32 h1)"
      using over_member [OF takes_fver r, of 20 DSDIFF_FILE_VERSION_15 F hd_format_version h "\<lambda>v h. h\<lparr>hd_format_version := v\<rparr>"] chunks(4)
      by (simp add: over_def h1_def)
    have major: "fst (dsdiff_get_format_version (over s F 32 h1)) = 1"
      by (simp add: dsdiff_get_format_version_def h1_def)
    have t: "tried (lift (on_member hd_format_version (\<lambda>v h. h\<lparr>hd_format_version := v\<rparr>) dsdiff_chunk_read_fver)) id
        (over s F 20 h, no_chunks) = Some (Ok True, (over s F 32 h1, no_chunks))"
      by (subst tried_ok [where h' = "over s F 32 h1" and a = "()"]) (simp_all add: lift_def rd)
    show "parse_frm8_chunk hp l DSDIFF_CHUNK_FVER (over s F (16 + 4) h, no_chunks) = Some (Ok True, (over s F 32 h1, ?c1))"
      using t major by (simp add: parse_frm8_chunk_def lseq_def lift_def on_snd_def zoom_def no_chunks_def)
  qed (use size chunks(3) in \<open>simp_all add: DSDIFF_CHUNK_LIST_def fourcc_values\<close>)
  have 2: "frm8_round hp l ?size (over s F 32 h1, ?c1) = Some (Ok None, (over s F (110 + 4 * ?k) h2, ?c2))"
  proof (rule frm8_round_step [OF r _ size_small, where c = PROP_FOURCC and ct = DSDIFF_CHUNK_PROP])
    have rd: "on_local 0 dsdiff_chunk_read_prop_header (over s F 36 h1) = (Ok ((), of_nat (66 + 4 * ?k)), over s F 48 h1)"
      using over_local [OF takes_prop r, of 36 "of_nat (66 + 4 * ?k)" F 0 h1] chunks(6) by simp
    have props: "dsdiff_parse_prop hp l (of_nat (66 + 4 * ?k)) (over s F 48 h1) = Some (Ok (), over s F (110 + 4 * ?k) h2)"
      using parse_recorded_prop [OF r ids hp l, of rate data h1] by (simp add: F_def h2_def)
    show "parse_frm8_chunk hp l DSDIFF_CHUNK_PROP (over s F (32 + 4) h1, ?c1) = Some (Ok True, (over s F (110 + 4 * ?k) h2, ?c2))"
      unfolding parse_frm8_cases
      by (subst tried_ok [where h' = "over s F (110 + 4 * ?k) h2" and a = "()"])
        (simp_all add: lseq_def lift_def rd props no_chunks_def del: of_nat_add)
  qed (use size chunks(5) in \<open>simp_all add: DSDIFF_CHUNK_LIST_def fourcc_values\<close>)
  have 3: "frm8_round hp l ?size (over s F (110 + 4 * ?k) h2, ?c2) =
      Some (Ok None, (over s F (length F) (opened rate ids ?n h), ?c3))"
  proof (rule frm8_round_step [OF r _ size_small, where c = DSD_FOURCC and ct = DSDIFF_CHUNK_DSD])
    have rd: "on_member (\<lambda>h. (hd_sound_data_size h, hd_sound_data_start_pos h, hd_sound_data_end_pos h))
        (\<lambda>(n, p, e) h. h\<lparr>hd_sound_data_size := n, hd_sound_data_start_pos := p, hd_sound_data_end_pos := e\<rparr>)
        dsdiff_chunk_read_snd_header (over s F (114 + 4 * ?k) h2) = (Ok (), over s F (length F) h3)"
      using skip_recorded [OF r, of "114 + 4 * ?k" F ?n] chunks(14,16,17) data
      by (simp add: on_member_def zoom_def over_def h3_def ac_simps)
    have cc: "hd_channel_count h3 = of_nat ?k" by (simp add: h3_def h2_def)
    have "unat (of_nat ?k :: u16) = ?k" by (rule unat_of_nat_small) (use len in simp)
    then have nz: "(of_nat ?k :: u16) \<noteq> 0" and u: "ucast (of_nat ?k :: u16) = (of_nat ?k :: u64)"
      using len unat_of_nat_small [of ?k, where 'a = 64] by (auto simp: word_unat_eq_iff unsigned_ucast_eq take_bit_nat_eq_self)
    have "parse_snd (over s F (114 + 4 * ?k) h2) = (Ok (), over s F (length F) (opened rate ids ?n h))"
      using rd cc nz u by (simp add: parse_snd_def) (simp add: over_def opened_def h3_def h2_def h1_def)
    then show "parse_frm8_chunk hp l DSDIFF_CHUNK_DSD (over s F (110 + 4 * ?k + 4) h2, ?c2) =
        Some (Ok True, (over s F (length F) (opened rate ids ?n h), ?c3))"
      unfolding parse_frm8_cases
      by (subst tried_ok [where h' = "over s F (length F) (opened rate ids ?n h)" and a = "()"]) (simp_all add: lift_def no_chunks_def)
  qed (use size len chunks(13) in \<open>simp_all add: DSDIFF_CHUNK_LIST_def fourcc_values\<close>)
  have 4: "frm8_round hp l ?size (over s F (length F) (opened rate ids ?n h), ?c3) =
      Some (Ok (Some ()), (over s F (length F) (opened rate ids ?n h), ?c3))"
    by (rule frm8_round_end [OF r]) (use data pad size chunks(17) in simp_all)
  have loop: "repeat_lop (frm8_round hp l ?size) (over s F 16 h, no_chunks) =
      Some (Ok (), (over s F (length F) (opened rate ids ?n h), ?c3))"
    using 1 2 3 4 by (simp add: repeat_continue repeat_leave)
  have "check_frm8 (over s F (length F) (opened rate ids ?n h), ?c3) = (Ok (), (over s F (length F) (opened rate ids ?n h), ?c3))"
    by (simp add: check_frm8_def no_chunks_def opened_def)
  then show ?thesis
    using loop by (simp add: dsdiff_parse_frm8_def lop_local_def lseq_def lift_def)
qed

section \<open>Opening\<close>

lemma opened_fields [simp]:
  "hd_mode (opened rate ids n h) = hd_mode h" "\<not> hd_is_dst_format (opened rate ids n h)"
  "hd_channel_count (opened rate ids n h) = of_nat (length ids)" "hd_sample_rate (opened rate ids n h) = rate"
  "hd_channel_ids (opened rate ids n h) = Ptr (map Some ids)"
  "hd_sound_data_start_pos (opened rate ids n h) = of_nat (122 + 4 * length ids)"
  "hd_sound_data_end_pos (opened rate ids n h) = of_nat (122 + 4 * length ids + n)"
  "hd_sound_data_size (opened rate ids n h) = of_nat n"
  "hd_sample_frame_count (opened rate ids n h) = of_nat n div of_nat (length ids)"
  by (simp_all add: opened_def)

lemma over_data_fields [simp]:
  "hd_sound_data_start_pos (over s d p h) = hd_sound_data_start_pos h"
  "hd_sound_data_end_pos (over s d p h) = hd_sound_data_end_pos h"
  "hd_sample_frame_count (over s d p h) = hd_sample_frame_count h" "hd_sample_rate (over s d p h) = hd_sample_rate h"
  "hd_channel_ids (over s d p h) = hd_channel_ids h"
  by (simp_all add: over_def)

lemma parse_recorded_file:
  fixes rate :: u32 and ids :: "u32 list" and data :: "byte list"
  defines "F \<equiv> dff_bytes rate ids data"
  assumes r: "readable s" and ids: "channels_ok ids" and hp: "sa_malloc hp (length ids * 4)" and l: "14 \<le> unat l"
    and data: "123 + 4 * length ids + length data < 2 ^ 62"
  shows "dsdiff_parse_file hp l (over s F 0 h) = Some (Ok (), over s F (length F) (opened rate ids (length data) h))"
proof -
  note chunks = dff_chunks [where rate = rate and ids = ids and data = data, folded F_def]
  let ?n = "length data" and ?pad = "length (pad_if (odd (length data)))"
  let ?k = "length ids"
  let ?size = "of_nat (110 + 4 * ?k + ?n + ?pad) :: u64"
  have len: "?k \<le> 1000" using ids by (simp add: channels_ok_def)
  have pad: "?pad \<le> 1" by (simp add: pad_if_def)
  have size: "unat ?size = 110 + 4 * ?k + ?n + ?pad" by (rule unat_of_nat_small) (use data pad in simp)
  have total: "unat (of_nat (length F) :: u64) = length F" by (rule unat_of_nat_small) (use data pad chunks(17) in simp)
  have list: "map_of DSDIFF_CHUNK_LIST FRM8_FOURCC = Some DSDIFF_CHUNK_FRM8"
    by (simp add: DSDIFF_CHUNK_LIST_def fourcc_values)
  have 1: "on_local DSDIFF_CHUNK_UNKNOWN dsdiff_chunk_read_header (over s F 0 h) = (Ok ((), DSDIFF_CHUNK_FRM8), over s F 4 h)"
    using over_local [OF takes_to_header [OF list] r, of 0 F DSDIFF_CHUNK_UNKNOWN h] chunks(1) by simp
  have 2: "on_local (0, DSDIFF_AUDIO_UNKNOWN) dsdiff_chunk_read_frm8_header (over s F 4 h) =
      (Ok ((), (?size, DSDIFF_AUDIO_DSD)), over s F 16 h)"
    using over_local [OF takes_frm8 r, of 4 ?size F "(0, DSDIFF_AUDIO_UNKNOWN)" h] chunks(2) by simp
  have o: "dio_is_open s" using r by (simp add: readable_def)
  have 3: "on_dio dsdiff_io_get_file_size (over s F 16 h) = (Ok (of_nat (length F)), over s F 16 h)"
    by (intro over_dio file_size_put o)
  have 4: "\<not> (of_nat (length F) :: u64) < ?size"
    using total size chunks(17) by (simp add: word_less_nat_alt del: of_nat_add)
  have dsd: "(over s F 16 h)\<lparr>hd_is_dst_format := False\<rparr> = over s F 16 (h\<lparr>hd_is_dst_format := False\<rparr>)"
    by (simp add: over_def)
  have same: "opened rate ids ?n (h\<lparr>hd_is_dst_format := False\<rparr>) = opened rate ids ?n h" by (simp add: opened_def)
  have 5: "dsdiff_parse_frm8 hp l ?size (over s F 16 (h\<lparr>hd_is_dst_format := False\<rparr>)) =
      Some (Ok (), over s F (length F) (opened rate ids ?n h))"
    using parse_recorded_form [OF r ids hp l data, of rate "h\<lparr>hd_is_dst_format := False\<rparr>"] same by (simp add: F_def)
  have io: "hd_io (over s F 0 h) \<noteq> None" using dio_put_Some [OF o] by (simp add: over_def)
  show ?thesis
    unfolding dsdiff_parse_file_def lseq_lift
    using io 1 2 3 4 5 by (simp add: dsd del: of_nat_add)
qed

lemma seek_recorded_start:
  fixes rate :: u32 and ids :: "u32 list" and data :: "byte list"
  defines "F \<equiv> dff_bytes rate ids data"
  assumes r: "readable s" and mode: "hd_mode h = DSDIFF_FILE_MODE_READ"
    and data: "123 + 4 * length ids + length data < 2 ^ 62"
  shows "dsdiff_seek_dsd_start (over s F (length F) (opened rate ids (length data) h)) =
    (Ok (), over s F (122 + 4 * length ids) (opened rate ids (length data) h))"
proof -
  let ?n = "length data" and ?pad = "length (pad_if (odd (length data)))" and ?k = "length ids"
  let ?h = "over s F (length F) (opened rate ids ?n h)"
  have o: "dio_is_open s" using r by (simp add: readable_def)
  have pad: "?pad \<le> 1" by (simp add: pad_if_def)
  have start: "unat (of_nat (122 + 4 * ?k) :: u64) = 122 + 4 * ?k" by (rule unat_of_nat_small) (use data in simp)
  have fin: "unat (of_nat (122 + 4 * ?k + ?n) :: u64) = 122 + 4 * ?k + ?n" by (rule unat_of_nat_small) (use data in simp)
  have F: "length F < 2 ^ 63" using dff_chunks(17) [where rate = rate and ids = ids and data = data] data pad by (simp add: F_def)
  have "dsdiff_seek_dsd_data (int 0) SEEK_SET ?h = (Ok (), ?h\<lparr>hd_io := dio_put (hd_io ?h) (dio_contents (hd_io ?h))
      (min (unat (hd_sound_data_end_pos ?h)) (unat (hd_sound_data_start_pos ?h) + 0 * unat (hd_channel_count ?h)))\<rparr>)"
    by (rule seek_in_data)
      (use o mode start fin F data in \<open>simp_all add: word_le_nat_alt dsdiff_stream.stream_simps del: of_nat_add\<close>)
  then show ?thesis
    using o start fin by (simp add: dsdiff_seek_dsd_start_def dsdiff_stream.stream_simps del: of_nat_add) (simp add: over_def dsdiff_stream.stream_simps)
qed

lemma open_recorded:
  fixes rate :: u32 and ids :: "u32 list" and data :: "byte list"
  defines "F \<equiv> dff_bytes rate ids data"
  assumes "name \<noteq> []" "sa_malloc hp 4112" "dreadable d name" "dfiles d name = Some F"
    and ids: "channels_ok ids" and hp: "sa_malloc hp (length ids * 4)" and l: "14 \<le> unat l"
    and data: "123 + 4 * length ids + length data < 2 ^ 62"
  obtains s where "readable s" "dsdiff_open hp l (Some name) (Ptr h, d) = Some (Ok (),
    (Ptr (over s F (122 + 4 * length ids) (opened rate ids (length data) (h\<lparr>hd_mode := DSDIFF_FILE_MODE_READ\<rparr>))), d))"
proof -
  obtain io f where io: "dsdiff_chunk_file_open_read hp (Some name) d = (Ok io, d)" and f: "dio_file io = Ptr f"
      "freadable f" "fdata f = F" "fpos f = 0"
    using assms(3-5) by (auto simp: dsdiff_chunk_file_open_read_def dchunk_open_def dsdiff_io_open_read_def
        dio_open_def fopen_def)
  let ?s = "Some io"
  have r: "readable ?s" using f by (simp add: readable_def dio_view_defs)
  have start: "dio_put ?s F 0 = ?s" using f by (cases f) (simp add: dio_put_def)
  let ?h = "h\<lparr>hd_mode := DSDIFF_FILE_MODE_READ\<rparr>"
  have h: "h\<lparr>hd_io := ?s, hd_mode := DSDIFF_FILE_MODE_READ\<rparr> = over ?s F 0 ?h" by (simp add: over_def start)
  have parse: "dsdiff_parse_file hp l (over ?s F 0 ?h) = Some (Ok (), over ?s F (length F) (opened rate ids (length data) ?h))"
    using parse_recorded_file [OF r ids hp l data, of rate ?h] by (simp add: F_def)
  have seek: "dsdiff_seek_dsd_start (over ?s F (length F) (opened rate ids (length data) ?h)) =
      (Ok (), over ?s F (122 + 4 * length ids) (opened rate ids (length data) ?h))"
    using seek_recorded_start [OF r _ data, of ?h rate] by (simp add: F_def)
  have "dsdiff_open hp l (Some name) (Ptr h, d) = Some (Ok (),
      (Ptr (over ?s F (122 + 4 * length ids) (opened rate ids (length data) ?h)), d))"
    using assms(2) io parse seek by (simp add: dsdiff_open_def open_file_def open_on_def open_io_def on_fst_def zoom_def
        lzoom_def lseq_def lift_def h)
  with r show thesis by (rule that)
qed

section \<open>The round trip\<close>

lemma read_recorded:
  fixes rate :: u32 and ids :: "u32 list" and data :: "byte list"
  defines "F \<equiv> dff_bytes rate ids data"
  assumes r: "readable s" and mode: "hd_mode h = DSDIFF_FILE_MODE_READ"
    and data: "123 + 4 * length ids + length data < 2 ^ 62" "data \<noteq> []" and n: "n \<noteq> 0" "unat n \<le> buffer_size"
  shows "fst (dsdiff_read_dsd_data buffer_size n (over s F (122 + 4 * length ids) (opened rate ids (length data) h))) =
    Ok (take (unat n) data)"
proof -
  let ?k = "length ids" and ?h = "over s F (122 + 4 * length ids) (opened rate ids (length data) h)"
  have o: "dio_is_open s" "dio_can_read s" using r by (simp_all add: readable_def)
  have fin: "unat (of_nat (122 + 4 * ?k + length data) :: u64) = 122 + 4 * ?k + length data"
    by (rule unat_of_nat_small) (use data in simp)
  have F: "bytes_at (122 + 4 * ?k) (length data) F = data" "122 + 4 * ?k + length data \<le> length F"
    using dff_chunks(15,17) [where rate = rate and ids = ids and data = data] by (simp_all add: F_def)
  have "dsdiff_read_dsd_data buffer_size n ?h =
    (Ok (bytes_at (dio_position (hd_io ?h)) (min (unat n) (unat (hd_sound_data_end_pos ?h) - dio_position (hd_io ?h)))
       (dio_contents (hd_io ?h))),
     ?h\<lparr>hd_io := dio_put (hd_io ?h) (dio_contents (hd_io ?h)) (dio_position (hd_io ?h) +
       min (unat n) (unat (hd_sound_data_end_pos ?h) - dio_position (hd_io ?h)))\<rparr>)"
    by (rule read_in_data) (use o mode fin F data n in \<open>simp_all add: dsdiff_stream.stream_simps del: of_nat_add\<close>)
  moreover have "bytes_at (122 + 4 * ?k) (min (unat n) (length data)) F = take (unat n) data"
    using arg_cong [OF F(1), of "take (unat n)"] by (simp add: bytes_at_def min.commute)
  ultimately show ?thesis
    using o fin by (simp add: dsdiff_stream.stream_simps del: of_nat_add)
qed

text \<open>C3. Round trip: after recording blocks of sound data on a device with room for them, opening
  the file succeeds and gives a handle with the sampling rate, the channel identifiers and the number
  of sample frames of the recording, positioned so that a read returns the first bytes of the
  blocks, as many as were asked for and are there.\<close>

theorem recording_plays_back:
  assumes "1 \<le> cc" "cc \<le> 1000" "name \<noteq> []" "ample hp 4112" "dwritable d name" "dreadable d name"
    and "\<forall>b \<in> set blocks. length b < 2 ^ 32" "concat blocks \<noteq> []"
    and "123 + 4 * unat cc + length (concat blocks) \<le> dcap d" "dcap d < 2 ^ 62" "14 \<le> unat l" "n \<noteq> 0"
  shows "\<exists>d' h'. record_dsd hp name cc rate blocks (p, d) = (Ok (), (Dangling, d')) \<and>
    dsdiff_open hp l (Some name) (Ptr h, d') = Some (Ok (), (Ptr h', d')) \<and>
    hd_sample_rate h' = rate \<and> hd_channel_count h' = cc \<and> hd_channel_ids h' = Ptr (map Some (default_channel_ids cc)) \<and>
    hd_sample_frame_count h' = of_nat (length (concat blocks)) div ucast cc \<and>
    fst (dsdiff_read_dsd_data (unat n) n h') = Ok (take (unat n) (concat blocks))"
proof -
  let ?ids = "default_channel_ids cc" and ?data = "concat blocks"
  let ?d = "d\<lparr>dfiles := (dfiles d)(name \<mapsto> dff_bytes rate ?ids ?data)\<rparr>"
  note ids = default_channels [OF assms(1,2)]
  have cc: "unat cc \<le> 1000" using assms(2) by (simp add: word_le_nat_alt)
  have len: "length ?ids = unat cc"
    using ids unat_of_nat_small [of "length ?ids", where 'a = 16] by (simp add: channels_ok_def)
  have mem: "sa_malloc hp 4112" "sa_malloc hp (length ?ids * 4)" using assms(4) cc len by (simp_all add: ampleD)
  have room: "123 + 4 * length ?ids + length ?data < 2 ^ 62" using assms(9,10) len by simp
  obtain s where s: "readable s" and op: "dsdiff_open hp l (Some name) (Ptr h, ?d) = Some (Ok (),
      (Ptr (over s (dff_bytes rate ?ids ?data) (122 + 4 * length ?ids)
        (opened rate ?ids (length ?data) (h\<lparr>hd_mode := DSDIFF_FILE_MODE_READ\<rparr>))), ?d))"
    using assms(6) by (auto intro: open_recorded [OF assms(3) mem(1) _ _ ids(1) mem(2) assms(11) room, of ?d rate h])
  have rd: "fst (dsdiff_read_dsd_data (unat n) n (over s (dff_bytes rate ?ids ?data) (122 + 4 * length ?ids)
      (opened rate ?ids (length ?data) (h\<lparr>hd_mode := DSDIFF_FILE_MODE_READ\<rparr>)))) = Ok (take (unat n) ?data)"
    by (rule read_recorded [OF s _ room assms(8,12)]) simp_all
  have u: "of_nat (unat cc) = (ucast cc :: u64)" by simp
  show ?thesis
    by (intro exI conjI, rule recording_leaves [OF assms(1-5,7,9,10)], rule op) (use ids(2) rd len u in simp_all)
qed

theorem recording_plays_back_witness:
  "\<exists>d' h'. record_dsd roomy_heap ''b.dff'' 2 2822400 [[1, 2], [3, 4, 5]] (Null, disk_with []) = (Ok (), (Dangling, d')) \<and>
    dsdiff_open roomy_heap 32 (Some ''b.dff'') (Ptr zero_dsdiff, d') = Some (Ok (), (Ptr h', d')) \<and>
    hd_sample_rate h' = 2822400 \<and> hd_channel_count h' = 2 \<and> hd_channel_ids h' = Ptr (map Some (default_channel_ids 2)) \<and>
    hd_sample_frame_count h' = of_nat (length (concat [[1, 2], [3, 4, 5 :: byte]])) div ucast (2 :: u16) \<and>
    fst (dsdiff_read_dsd_data (unat (4 :: u32)) 4 h') = Ok (take (unat (4 :: u32)) (concat [[1, 2], [3, 4, 5]]))"
  by (rule recording_plays_back) (simp_all add: roomy_heap_def ample_def sa_malloc_def disk_with_def)

end
