(* ===== verification/Dsdiff_Handle.thy ===== *)
theory Dsdiff_Handle
  imports Dsdiff_Properties
begin

text \<open>
  What every DSDIFF handle keeps: its arrays are as long as its counts say, so that no sequence of
  accessor calls leaves an array, uses freed memory or frees it twice. Two accessors are undefined on
  some of these handles: asking for the tag when there is none, and for the frame size when the frame
  rate is 0.
\<close>

section \<open>Tidy handles\<close>

text \<open>The arrays of the per-track tags: \<open>n\<close> elements in each, and every tag has the stored size.\<close>

definition tracks_ok :: "nat \<Rightarrow> byte list option list \<Rightarrow> u32 list \<Rightarrow> bool" where
  "tracks_ok n tags sizes \<longleftrightarrow> n \<le> length tags \<and> n \<le> length sizes \<and>
     (\<forall>i < n. case tags ! i of None \<Rightarrow> True | Some bs \<Rightarrow> unat (sizes ! i) \<le> length bs)"

definition tracks_tidy :: "u32 \<Rightarrow> byte list option list ptr \<Rightarrow> u32 list ptr \<Rightarrow> bool" where
  "tracks_tidy n tags sizes \<longleftrightarrow>
     (\<exists>ts ss. elements tags = Some ts \<and> elements sizes = Some ss \<and> tracks_ok (unat n) ts ss)"

definition comments_tidy :: "u16 \<Rightarrow> dsdiff_comment list option \<Rightarrow> bool" where
  "comments_tidy n cs \<longleftrightarrow> (case cs of None \<Rightarrow> n = 0 | Some cs \<Rightarrow> unat n \<le> length cs)"

definition channels_tidy :: "u16 \<Rightarrow> u32 option list ptr \<Rightarrow> bool" where
  "channels_tidy n ids \<longleftrightarrow> (case ids of Null \<Rightarrow> True | Dangling \<Rightarrow> False | Ptr ids \<Rightarrow> unat n \<le> length ids)"

definition tag_tidy :: "u32 \<Rightarrow> byte list option \<Rightarrow> bool" where
  "tag_tidy n tag \<longleftrightarrow> (case tag of None \<Rightarrow> True | Some bs \<Rightarrow> unat n \<le> length bs)"

definition tidy :: "dsdiff \<Rightarrow> bool" where
  "tidy h \<longleftrightarrow> channels_tidy (hd_channel_count h) (hd_channel_ids h) \<and> hd_indexes h \<noteq> Dangling \<and>
     tag_tidy (hd_id3_tag_size h) (hd_id3_tag h) \<and>
     comments_tidy (hd_comment_count h) (hd_comments h) \<and>
     tracks_tidy (hd_track_id3_count h) (hd_track_id3_tags h) (hd_track_id3_sizes h) \<and>
     ml_count (hd_markers h) = of_nat (length (ml_entries (hd_markers h)))"

text \<open>
  Every function of the library that takes an open handle and neither opens, finalises or closes the file nor
  transfers, skips or seeks sound data or DST frames: all setters and getters. The arguments are those of the C
  function, \<open>None\<close> for NULL.
\<close>

datatype dd_call =
    Add_comment "dsdiff_comment option"
  | Delete_comment int
  | Get_comment int
  | Set_id3 "byte list option" u32
  | Set_track_id3 u32 "byte list option" u32
  | Clear_track_id3 u32
  | Get_track_id3 u32
  | Set_manufacturer "dsdiff_manufacturer option"
  | Add_marker "dsdiff_marker option"
  | Delete_marker int
  | Sort_markers
  | Set_emid "byte list option"
  | Set_artist "byte list option"
  | Set_title "byte list option"
  | Set_channels "u32 list option" u16
  | Set_loudspeakers u32
  | Set_timecode "dsdiff_timecode option"
  | Set_frame_rate u16
  | Get_open_mode
  | Get_audio_type
  | Get_filename nat
  | Get_channel_count
  | Get_sample_bits
  | Get_sample_rate
  | Get_sample_frame_count
  | Get_dsd_data_size
  | Get_format_version
  | Get_dst_frame_count
  | Get_dst_frame_rate
  | Get_dst_max_frame_size
  | Has_dst_crc
  | Get_dst_crc_size
  | Has_dst_index
  | Get_channels
  | Has_loudspeakers
  | Get_loudspeakers
  | Has_timecode
  | Get_timecode
  | Get_comment_count
  | Get_id3
  | Get_track_id3_count
  | Has_manufacturer
  | Get_manufacturer
  | Get_marker_count
  | Get_marker int dsdiff_marker
  | Has_emid
  | Get_emid u32
  | Has_artist
  | Get_artist u32
  | Has_title
  | Get_title u32

definition no_result :: "'a hd_op \<Rightarrow> unit hd_op" where
  "no_result m = seq m (\<lambda>_. ret ())"


text \<open>Arguments that keep to the documentation: a buffer has the size that is given for it, a text
  is shorter than 4 GiB. The last track number is left out: its successor is 0.\<close>

definition sized :: "byte list option \<Rightarrow> u32 \<Rightarrow> bool" where
  "sized bs n \<longleftrightarrow> (case bs of None \<Rightarrow> True | Some bs \<Rightarrow> unat n \<le> length bs)"

definition short_text :: "byte list option \<Rightarrow> bool" where
  "short_text t \<longleftrightarrow> (case t of None \<Rightarrow> True | Some bs \<Rightarrow> length (cstr bs) + 1 < 2 ^ 32)"

fun dd_call_ok :: "dd_call \<Rightarrow> bool" where
  "dd_call_ok (Add_comment (Some c)) \<longleftrightarrow> (case cm_text c of None \<Rightarrow> True
     | Some t \<Rightarrow> unat (cm_text_length c) \<le> length t + 1 \<and> cm_text_length c + 1 \<noteq> 0)"
| "dd_call_ok (Set_id3 bs n) \<longleftrightarrow> sized bs n"
| "dd_call_ok (Set_track_id3 i bs n) \<longleftrightarrow> sized bs n \<and> i + 1 \<noteq> 0"
| "dd_call_ok (Set_manufacturer (Some m)) \<longleftrightarrow> sized (mn_data m) (mn_data_size m)"
| "dd_call_ok (Set_emid t) \<longleftrightarrow> short_text t"
| "dd_call_ok (Set_artist t) \<longleftrightarrow> short_text t"
| "dd_call_ok (Set_title t) \<longleftrightarrow> short_text t"
| "dd_call_ok (Set_channels (Some ids) n) \<longleftrightarrow> unat n \<le> length ids"
| "dd_call_ok _ \<longleftrightarrow> True"


section \<open>Each call keeps the handle tidy\<close>

definition keeps :: "'a hd_op \<Rightarrow> bool" where
  "keeps m \<longleftrightarrow> (\<forall>h. tidy h \<longrightarrow> wp False m (\<lambda>_. tidy) (\<lambda>_. tidy) h)"

named_theorems keeps_intros \<open>operations that are defined on tidy handles and keep them tidy\<close>

lemma keepsI: "(\<And>h. tidy h \<Longrightarrow> wp False m (\<lambda>_. tidy) (\<lambda>_. tidy) h) \<Longrightarrow> keeps m"
  by (simp add: keeps_def)


lemma keeps_seq [keeps_intros]: "keeps m \<Longrightarrow> (\<And>a. keeps (k a)) \<Longrightarrow> keeps (seq m k)"
  unfolding keeps_def wp_seq by (blast intro: wp_mono)

lemma keeps_get [keeps_intros]: "(\<And>h. tidy h \<Longrightarrow> keeps (k h)) \<Longrightarrow> keeps (seq get k)"
  unfolding keeps_def wp_seq wp_get by blast

lemma keeps_basic [keeps_intros]:
  "keeps (ret a)" "keeps (fail e)" "keeps (Pair (Ok a))" "keeps (Pair (Err e))" "keeps (ensure b e)"
  by (auto intro!: keepsI simp: wp_simps)

lemma keeps_if [keeps_intros]: "(b \<Longrightarrow> keeps m) \<Longrightarrow> (\<not> b \<Longrightarrow> keeps n) \<Longrightarrow> keeps (if b then m else n)"
  by simp

lemma keeps_option [keeps_intros]:
  "(x = None \<Longrightarrow> keeps m) \<Longrightarrow> (\<And>a. x = Some a \<Longrightarrow> keeps (k a)) \<Longrightarrow> keeps (case x of None \<Rightarrow> m | Some a \<Rightarrow> k a)"
  by (cases x) simp_all

lemma keeps_modify [keeps_intros]: "(\<And>h. tidy h \<Longrightarrow> tidy (f h)) \<Longrightarrow> keeps (modify f)"
  by (auto intro!: keepsI simp: wp_simps)

lemma keeps_query [keeps_intros]: "keeps (\<lambda>h. (Ok (f h), h))"
  by (auto intro!: keepsI simp: wp_def)

lemma keeps_mode [keeps_intros]: "keeps (ensure_mode P e)" "keeps (dsdiff_verify_write_position pos)"
  by (auto intro!: keepsI simp: ensure_mode_def dsdiff_verify_write_position_def wp_def ensure_def ret_def fail_def)

lemma keeps_result [keeps_intros]: "keeps m \<Longrightarrow> keeps (no_result m)"
  unfolding no_result_def by (intro keeps_intros)

lemma keeps_copy [keeps_intros]: "sized data n \<Longrightarrow> data \<noteq> None \<Longrightarrow> keeps (copy_bytes hp data n)"
  unfolding copy_bytes_def by (intro keeps_intros) (auto simp: sized_def)

text \<open>Comments.\<close>

lemma comments_tidy_Some [simp]: "comments_tidy n (Some cs) \<longleftrightarrow> unat n \<le> length cs"
  by (simp add: comments_tidy_def)

lemma comments_tidy_zero: "comments_tidy n None \<longleftrightarrow> n = 0"
  by (simp add: comments_tidy_def)

lemma tidy_comments:
  assumes "tidy h"
  obtains cs where "used_comments h = Some cs" "length cs = unat (hd_comment_count h)"
  using assms that by (cases "hd_comments h") (auto simp: tidy_def comments_tidy_def used_comments_def)

lemma unat_suc_le: "unat (n + 1 :: 'a::len word) \<le> Suc (unat n)"
  using unatSuc [of n] by (cases "1 + n = 0") (simp_all add: add.commute)

lemma keeps_add_comment [keeps_intros]: "dd_call_ok (Add_comment c) \<Longrightarrow> keeps (dsdiff_add_comment hp c)"
proof (cases c)
  case (Some c')
  assume ok: "dd_call_ok (Add_comment c)"
  have copy: "wp False (copy_text hp t (cm_text_length c')) (\<lambda>_ s. s = h) (\<lambda>_ s. s = h) h" if "cm_text c' = Some t" for t h
    using ok that Some unatSuc [of "cm_text_length c'"]
    by (auto simp: copy_text_def wp_simps add.commute)
  show ?thesis
    unfolding Some dsdiff_add_comment_def option.case
  proof (rule keeps_seq [OF keeps_mode(1)], rule keeps_seq [OF keeps_mode(2)], rule keepsI)
    fix h assume h: "tidy h"
    obtain cs where cs: "used_comments h = Some cs" and len: "length cs = unat (hd_comment_count h)"
      using h by (rule tidy_comments)
    have t: "tidy (h\<lparr>hd_comments := Some (cs @ [x])\<rparr>)"
      "tidy (h\<lparr>hd_comments := Some (cs @ [x]), hd_comment_count := hd_comment_count h + 1\<rparr>)" for x
      using h len unat_suc_le [of "hd_comment_count h"] by (simp_all add: tidy_def)
    show "wp False (seq get (\<lambda>h.
         seq (ensure (sa_malloc hp ((unat (hd_comment_count h) + 1) * 24)) DSDIFF_ERROR_OUT_OF_MEMORY) (\<lambda>_.
         case used_comments h of None \<Rightarrow> fault | Some cs \<Rightarrow>
           seq (modify (\<lambda>h. h\<lparr>hd_comments := Some (cs @ [c'\<lparr>cm_text := None\<rparr>])\<rparr>)) (\<lambda>_.
           seq (case cm_text c' of
                  Some text \<Rightarrow> if cm_text_length c' > 0
                    then seq (copy_text hp text (cm_text_length c')) (\<lambda>copy.
                      seq (ensure (copy \<noteq> None) DSDIFF_ERROR_OUT_OF_MEMORY) (\<lambda>_.
                      modify (\<lambda>h. h\<lparr>hd_comments := Some (cs @ [c'\<lparr>cm_text := copy\<rparr>])\<rparr>)))
                    else ret ()
                | None \<Rightarrow> ret ()) (\<lambda>_.
           modify (\<lambda>h. h\<lparr>hd_comment_count := hd_comment_count h + 1\<rparr>)))))) (\<lambda>_. tidy) (\<lambda>_. tidy) h"
      using h t cs
      by (auto simp: wp_simps split: option.split intro!: wp_mono [OF copy])
  qed
qed (simp add: dsdiff_add_comment_def keeps_basic)

lemma keeps_delete_comment [keeps_intros]: "keeps (dsdiff_delete_comment hp i)"
proof (rule keepsI)
  fix h assume h: "tidy h"
  obtain cs where cs: "used_comments h = Some cs" and len: "length cs = unat (hd_comment_count h)"
    using h by (rule tidy_comments)
  show "wp False (dsdiff_delete_comment hp i) (\<lambda>_. tidy) (\<lambda>_. tidy) h"
  proof (cases "i \<ge> uint (hd_comment_count h) \<or> i < 0")
    case False
    let ?n = "hd_comment_count h"
    have "nat i < nat (uint ?n)" using False by (simp only: zless_nat_conj) linarith
    then have n: "?n \<noteq> 0" "nat i < unat ?n" by auto
    have d: "unat (?n - 1) = unat ?n - 1" using n(1) by (simp add: unat_minus_one)
    have "comments_tidy (?n - 1) (if ?n > 1 then Some (take (nat i) cs @ drop (nat i + 1) cs) else None)"
    proof (cases "?n > 1")
      case False
      then have "unat ?n \<le> 1" by (simp add: word_less_nat_alt not_less)
      then have "unat (?n - 1) = 0" using d by simp
      then show ?thesis using False by (simp add: comments_tidy_zero unat_eq_0)
    qed (use d n len in simp)
    then show ?thesis
      using h cs False by (simp add: dsdiff_delete_comment_def wp_def Let_def tidy_def)
  qed (use h in \<open>simp add: dsdiff_delete_comment_def wp_def\<close>)
qed

lemma keeps_get_comment [keeps_intros]: "keeps (dsdiff_get_comment i)"
  proof (rule keepsI)
  fix h assume h: "tidy h"
  then obtain cs where "used_comments h = Some cs" by (rule tidy_comments)
  then show "wp False (dsdiff_get_comment i) (\<lambda>_. tidy) (\<lambda>_. tidy) h"
    using h by (simp add: dsdiff_get_comment_def wp_def)
qed

text \<open>Tags.\<close>

lemma wp_copy_bytes:
  "sized bs n \<Longrightarrow> bs \<noteq> None \<Longrightarrow> wp False (copy_bytes hp bs n) (\<lambda>r s. s = h \<and> sized (Some r) n) (\<lambda>_ s. s = h) h"
  by (auto simp: copy_bytes_def wp_simps sized_def split: option.split)

lemma keeps_set_id3 [keeps_intros]: "sized bs n \<Longrightarrow> keeps (dsdiff_set_id3_tag hp bs n)"
proof (cases bs)
  case (Some d)
  assume bs: "sized bs n"
  have "keeps (seq (modify (\<lambda>h. h\<lparr>hd_id3_tag := None\<rparr>)) (\<lambda>_.
     seq (copy_bytes hp bs n) (\<lambda>bs. modify (\<lambda>h. h\<lparr>hd_id3_tag := Some bs, hd_id3_tag_size := n\<rparr>))))"
  proof (rule keepsI)
    fix h assume h: "tidy h"
    show "wp False (seq (modify (\<lambda>h. h\<lparr>hd_id3_tag := None\<rparr>)) (\<lambda>_.
       seq (copy_bytes hp bs n) (\<lambda>bs. modify (\<lambda>h. h\<lparr>hd_id3_tag := Some bs, hd_id3_tag_size := n\<rparr>)))) (\<lambda>_. tidy) (\<lambda>_. tidy) h"
      unfolding wp_seq wp_modify
      by (rule wp_mono [OF wp_copy_bytes [OF bs]]) (use h Some in \<open>auto simp: tidy_def tag_tidy_def sized_def\<close>)
  qed
  then show ?thesis
    unfolding dsdiff_set_id3_tag_def
    by (intro keeps_seq [OF keeps_basic(5)] keeps_seq [OF keeps_mode(1)] keeps_seq [OF keeps_mode(2)])
qed (auto intro!: keepsI simp: dsdiff_set_id3_tag_def wp_simps)

lemma tracks_ok_grown:
  assumes "tracks_ok n tags sizes" "n \<le> m"
  shows "tracks_ok m (grown n m None tags) (grown n m 0 sizes)"
  using assms by (auto simp: tracks_ok_def grown_def nth_append split: option.split)

lemma tracks_ok_set:
  assumes "tracks_ok n tags sizes" "sized t k"
  shows "tracks_ok n (tags[i := t]) (sizes[i := k])"
  unfolding tracks_ok_def
proof (intro conjI allI impI)
  fix j assume "j < n"
  then show "case tags[i := t] ! j of None \<Rightarrow> True | Some bs \<Rightarrow> unat (sizes[i := k] ! j) \<le> length bs"
    using assms by (cases "i = j") (simp_all add: tracks_ok_def sized_def split: option.splits)
qed (use assms in \<open>simp_all add: tracks_ok_def\<close>)

lemma tidy_tracks:
  assumes "tidy h" "hd_track_id3_count h \<noteq> 0"
  obtains tags sizes where "hd_track_id3_tags h = Ptr tags" "hd_track_id3_sizes h = Ptr sizes"
    "tracks_ok (unat (hd_track_id3_count h)) tags sizes"
proof -
  have "0 < unat (hd_track_id3_count h)" using assms(2) by (simp add: unat_gt_0)
  then show thesis
    using assms(1) that
    by (cases "hd_track_id3_tags h"; cases "hd_track_id3_sizes h")
      (auto simp: tidy_def tracks_tidy_def elements_def tracks_ok_def)
qed

lemma wp_set_track:
  assumes "tidy h" "i < unat (hd_track_id3_count h)" "sized t k"
  shows "wp False (set_track i t k) (\<lambda>_. tidy) (\<lambda>_. tidy) h"
proof -
  have "hd_track_id3_count h \<noteq> 0" using assms(2) by auto
  from tidy_tracks [OF assms(1) this] obtain tags sizes where
    a: "hd_track_id3_tags h = Ptr tags" "hd_track_id3_sizes h = Ptr sizes"
      "tracks_ok (unat (hd_track_id3_count h)) tags sizes" .
  then show ?thesis
    using assms tracks_ok_set [OF a(3) assms(3), of i]
    by (auto simp: set_track_def wp_def tidy_def tracks_tidy_def elements_def tracks_ok_def)
qed

lemma keeps_clear_track [keeps_intros]: "keeps (dsdiff_clear_track_id3_tag i)"
  by (rule keepsI)
    (auto simp: dsdiff_clear_track_id3_tag_def wp_simps not_le word_less_nat_alt sized_def intro!: wp_set_track)

lemma extend_tracks_tidy:
  assumes "tidy h"
  shows "wp False (extend_tracks hp m) (\<lambda>_ h'. tidy h' \<and> m \<le> hd_track_id3_count h') (\<lambda>_. tidy) h"
proof (cases "m > hd_track_id3_count h")
  case True
  obtain tags sizes where a: "elements (hd_track_id3_tags h) = Some tags" "elements (hd_track_id3_sizes h) = Some sizes"
    "tracks_ok (unat (hd_track_id3_count h)) tags sizes"
    using assms by (auto simp: tidy_def tracks_tidy_def)
  have le: "unat (hd_track_id3_count h) \<le> unat m" using True by (simp add: word_less_nat_alt)
  show ?thesis
    using assms a True tracks_ok_grown [OF a(3) le]
    by (auto simp: extend_tracks_def wp_def tidy_def tracks_tidy_def elements_def grow_tracks_def)
qed (use assms in \<open>simp add: extend_tracks_def wp_def not_less\<close>)

lemma wp_on_err:
  assumes "wp False m Q (\<lambda>e s. wp False c (\<lambda>_. E e) (\<lambda>_. E e) s) s"
  shows "wp False (on_err m c) Q E s"
  using assms by (auto simp: wp_def on_err_def split: prod.splits outcome.splits)

lemma keeps_set_track [keeps_intros]:
  assumes "sized bs n" "i + 1 \<noteq> 0"
  shows "keeps (dsdiff_set_track_id3_tag hp i bs n)"
proof (cases "bs = None")
  case False
  have next_i: "unat (i + 1) = unat i + 1" using unatSuc [of i] assms(2) by (simp add: add.commute)
  have store: "wp False (set_track (unat i) t k) (\<lambda>_. tidy) (\<lambda>_. tidy) h"
    if "tidy h" "i + 1 \<le> hd_track_id3_count h" "sized t k" for t k h
    using that next_i by (intro wp_set_track) (simp_all add: word_le_nat_alt)
  have "wp False (seq (on_err (copy_bytes hp bs n) (set_track (unat i) None 0)) (\<lambda>bs. set_track (unat i) (Some bs) n))
      (\<lambda>_. tidy) (\<lambda>_. tidy) h" if "tidy h" "i + 1 \<le> hd_track_id3_count h" for h
    unfolding wp_seq
    by (rule wp_on_err, rule wp_mono [OF wp_copy_bytes [OF assms(1) False, of hp h]])
      (use that store in \<open>auto simp: sized_def\<close>)
  then have k: "keeps (seq (extend_tracks hp (i + 1)) (\<lambda>_.
      seq (on_err (copy_bytes hp bs n) (set_track (unat i) None 0)) (\<lambda>bs. set_track (unat i) (Some bs) n)))"
    unfolding keeps_def wp_seq by (blast intro: wp_mono extend_tracks_tidy)
  show ?thesis
    unfolding dsdiff_set_track_id3_tag_def
    by (rule keeps_seq [OF keeps_basic(5)], rule keeps_seq [OF keeps_mode(1)], rule k)
qed (auto intro!: keepsI simp: dsdiff_set_track_id3_tag_def wp_simps)

lemma keeps_get_track [keeps_intros]: "keeps (dsdiff_get_track_id3_tag hp i)"
proof (rule keepsI)
  fix h assume h: "tidy h"
  show "wp False (dsdiff_get_track_id3_tag hp i) (\<lambda>_. tidy) (\<lambda>_. tidy) h"
  proof (cases "i \<ge> hd_track_id3_count h")
    case False
    then have i: "unat i < unat (hd_track_id3_count h)" by (simp add: not_le word_less_nat_alt)
    then have "hd_track_id3_count h \<noteq> 0" by auto
    from tidy_tracks [OF h this] obtain tags sizes where a: "hd_track_id3_tags h = Ptr tags"
      "hd_track_id3_sizes h = Ptr sizes" "tracks_ok (unat (hd_track_id3_count h)) tags sizes" .
    then have "unat i < length tags" "unat i < length sizes"
      "tags ! unat i = Some bs \<Longrightarrow> sized (Some bs) (sizes ! unat i)" for bs
      using i by (auto simp: tracks_ok_def sized_def split: option.splits)
    then show ?thesis
      using h a False
      by (cases "tags ! unat i")
        (auto simp: dsdiff_get_track_id3_tag_def wp_simps element_def deref_def wp_Pair intro!: wp_mono [OF wp_copy_bytes])
  qed (use h in \<open>simp add: dsdiff_get_track_id3_tag_def wp_simps\<close>)
qed

lemma keeps_manufacturer [keeps_intros]: "dd_call_ok (Set_manufacturer m) \<Longrightarrow> keeps (dsdiff_set_manufacturer hp m)"
  unfolding dsdiff_set_manufacturer_def by (intro keeps_intros) (auto simp: tidy_def)

text \<open>Markers.\<close>

lemma keeps_add_marker [keeps_intros]: "keeps (dsdiff_add_dsd_marker hp m)"
proof -
  have "wp False (on_markers (dsdiff_marker_list_add hp x (hd_sample_rate h))) (\<lambda>_. tidy) (\<lambda>_. tidy) h" if "tidy h" for x h
    using that unfolding on_markers_def wp_zoom
    by (auto simp: dsdiff_marker_list_add_def wp_def tidy_def split: option.split)
  then have "keeps (\<lambda>h. on_markers (dsdiff_marker_list_add hp x (hd_sample_rate h)) h)" for x
    by (simp add: keeps_def wp_def)
  then show ?thesis
    unfolding dsdiff_add_dsd_marker_def by (intro keeps_intros)
qed

lemma find_entry_length: "find_entry k i xs = Some (ys, y, zs) \<Longrightarrow> length xs = Suc (length ys + length zs)"
  by (induction xs arbitrary: i ys) (auto split: if_splits)

lemma keeps_delete_marker [keeps_intros]: "keeps (dsdiff_delete_dsd_marker i)"
proof (rule keepsI)
  fix h assume h: "tidy h"
  let ?k = "of_int i :: u32"
  have "wp False (on_markers (dsdiff_marker_list_remove ?k)) (\<lambda>_. tidy) (\<lambda>_. tidy) h"
  proof (cases "find_entry ?k 0 (ml_entries (hd_markers h))")
    case (Some p)
    then obtain ys y zs where "find_entry ?k 0 (ml_entries (hd_markers h)) = Some (ys, y, zs)" by (cases p) auto
    then show ?thesis
      using h find_entry_length [of ?k 0 "ml_entries (hd_markers h)" ys y zs]
      unfolding on_markers_def wp_zoom by (simp add: dsdiff_marker_list_remove_def wp_def tidy_def)
  qed (use h in \<open>simp add: on_markers_def wp_zoom, simp add: dsdiff_marker_list_remove_def wp_def\<close>)
  then show "wp False (dsdiff_delete_dsd_marker i) (\<lambda>_. tidy) (\<lambda>_. tidy) h"
    using h by (simp add: dsdiff_delete_dsd_marker_def Let_def wp_def)
qed

lemma length_merge_sort: "length (dsdiff_marker_list_merge_sort xs) = length xs"
  by (simp add: merge_sort_eq)

lemma keeps_sort [keeps_intros]: "keeps dsdiff_sort_dsd_markers"
  unfolding dsdiff_sort_dsd_markers_def
  by (intro keeps_intros) (auto simp: tidy_def dsdiff_marker_list_sort_def length_merge_sort)

text \<open>Texts and the rest.\<close>

lemma keeps_set_text:
  assumes "short_text t" "\<And>h x. tidy (store x h) = tidy h" "\<And>h. tidy (mark h) = tidy h"
  shows "keeps (set_text hp store mark t)"
proof (cases t)
  case (Some bs)
  then have "length (cstr bs) + 1 < 2 ^ LENGTH(32)" using assms(1) by (simp add: short_text_def)
  then have "unat (of_nat (length (cstr bs) + 1) :: u32) = length (cstr bs) + 1" by (rule unat_of_nat_small)
  then show ?thesis
    unfolding set_text_def Let_def Some by (simp only: option.case) (intro keeps_intros; simp add: assms)
qed (simp add: set_text_def keeps_basic)

lemma keeps_texts [keeps_intros]:
  "short_text t \<Longrightarrow> keeps (dsdiff_set_emid hp t)" "short_text t \<Longrightarrow> keeps (dsdiff_set_disc_artist hp t)"
  "short_text t \<Longrightarrow> keeps (dsdiff_set_disc_title hp t)"
  unfolding dsdiff_set_emid_def dsdiff_set_disc_artist_def dsdiff_set_disc_title_def
  by (rule keeps_set_text; simp add: tidy_def)+

lemma wp_free_null: "wp F free_null Q E p \<longleftrightarrow> (if p = Dangling then F else Q () Null)"
  by (cases p) (simp_all add: free_null_def free_ptr_def wp_seq wp_modify, simp_all add: wp_def)

lemma wp_free_channels:
  "hd_channel_ids h \<noteq> Dangling \<Longrightarrow> wp F free_channel_ids Q E h = Q () (h\<lparr>hd_channel_ids := Null\<rparr>)"
  by (simp add: free_channel_ids_def wp_zoom wp_free_null)

lemma keeps_channels [keeps_intros]: "dd_call_ok (Set_channels ids n) \<Longrightarrow> keeps (dsdiff_set_channel_ids hp ids n)"
proof (cases ids)
  case (Some xs)
  assume ok: "dd_call_ok (Set_channels ids n)"
  have "wp False (dsdiff_set_channel_ids hp ids n) (\<lambda>_. tidy) (\<lambda>_. tidy) h" if h: "tidy h" for h
  proof -
    have "hd_channel_ids h \<noteq> Dangling" using h by (auto simp: tidy_def channels_tidy_def)
    then show ?thesis
      using h ok by (simp add: dsdiff_set_channel_ids_def Let_def Some wp_simps wp_free_channels)
        (simp add: tidy_def channels_tidy_def)
  qed
  then show ?thesis by (rule keepsI)
qed (simp add: dsdiff_set_channel_ids_def keeps_basic)

lemma keeps_settings [keeps_intros]:
  "keeps (dsdiff_set_loudspeaker_config n)" "keeps (dsdiff_set_start_timecode t)" "keeps (dsdiff_set_dst_frame_rate r)"
  unfolding dsdiff_set_loudspeaker_config_def dsdiff_set_start_timecode_def dsdiff_set_dst_frame_rate_def
  by (intro keeps_intros; simp add: tidy_def)+

text \<open>Getters.\<close>

lemma keeps_open [keeps_intros]: "keeps (when_open f)"
  unfolding when_open_def by (intro keeps_intros)

lemma keeps_text_getters [keeps_intros]: "keeps (dsdiff_get_emid n)" "keeps (dsdiff_get_disc_artist n)" "keeps (dsdiff_get_disc_title n)"
  by (auto intro!: keepsI simp: dsdiff_get_emid_def dsdiff_get_disc_artist_def dsdiff_get_disc_title_def get_text_def Let_def
      wp_def ret_def fail_def split: option.split)

lemma keeps_filename [keeps_intros]: "keeps (dsdiff_get_filename n)"
proof -
  have "keeps (\<lambda>h. case on_dio (dsdiff_io_get_filename n) h of
      (Ok name, h') \<Rightarrow> (Ok (Some name), h') | (Err _, h') \<Rightarrow> (Ok None, h') | (Fault, h') \<Rightarrow> (Fault, h'))"
    by (rule keepsI)
      (auto simp: wp_def on_dio_def zoom_def dsdiff_io_get_filename_def nonnull_def tidy_def split: option.split ptr.split)
  then show ?thesis unfolding dsdiff_get_filename_def by (intro keeps_intros)
qed

lemma keeps_get_channels [keeps_intros]: "keeps dsdiff_get_channel_ids"
proof -
  have "keeps (\<lambda>h. case hd_channel_ids h of
       Null \<Rightarrow> (Err DSDIFF_ERROR_NO_CHANNEL_INFO, h)
     | Dangling \<Rightarrow> (Fault, h)
     | Ptr ids \<Rightarrow> if unat (hd_channel_count h) \<le> length ids
         then (Ok (take (unat (hd_channel_count h)) ids), h) else (Fault, h))"
    by (rule keepsI) (auto simp: wp_def tidy_def channels_tidy_def split: ptr.split)
  then show ?thesis
    unfolding dsdiff_get_channel_ids_def by (rule keeps_seq [OF keeps_mode(1)])
qed

lemma keeps_get_marker [keeps_intros]:
  "keeps (zoom (\<lambda>h. (h, m)) (\<lambda>(h, _) _. h) (dsdiff_get_dsd_marker hp i))"
  by (rule keepsI) (auto simp: wp_zoom dsdiff_get_dsd_marker_def wp_def on_snd_def zoom_def seq_def ret_def
      dsdiff_marker_list_get_def Let_def split: option.split)

lemma keeps_getters [keeps_intros]:
  "keeps dsdiff_get_open_mode" "keeps dsdiff_get_audio_type" "keeps dsdiff_get_channel_count" "keeps dsdiff_get_sample_bits"
  "keeps dsdiff_get_sample_rate" "keeps dsdiff_get_sample_frame_count" "keeps dsdiff_get_dsd_data_size"
  "keeps dsdiff_get_dst_frame_count" "keeps dsdiff_get_dst_frame_rate" "keeps dsdiff_has_dst_crc" "keeps dsdiff_get_dst_crc_size"
  "keeps dsdiff_has_dst_index" "keeps dsdiff_has_loudspeaker_config" "keeps dsdiff_get_loudspeaker_config"
  "keeps dsdiff_has_start_timecode" "keeps dsdiff_get_start_timecode" "keeps dsdiff_get_comment_count"
  "keeps dsdiff_get_track_id3_count" "keeps dsdiff_has_manufacturer" "keeps dsdiff_get_manufacturer"
  "keeps dsdiff_get_dsd_marker_count" "keeps dsdiff_has_emid" "keeps dsdiff_has_disc_artist" "keeps dsdiff_has_disc_title"
  unfolding dsdiff_get_open_mode_def dsdiff_get_audio_type_def dsdiff_get_channel_count_def dsdiff_get_sample_bits_def
    dsdiff_get_sample_rate_def dsdiff_get_sample_frame_count_def dsdiff_get_dsd_data_size_def dsdiff_get_dst_frame_count_def
    dsdiff_get_dst_frame_rate_def dsdiff_has_dst_crc_def dsdiff_get_dst_crc_size_def dsdiff_has_dst_index_def
    dsdiff_has_loudspeaker_config_def dsdiff_get_loudspeaker_config_def dsdiff_has_start_timecode_def
    dsdiff_get_start_timecode_def dsdiff_get_comment_count_def dsdiff_get_track_id3_count_def dsdiff_has_manufacturer_def
    dsdiff_get_manufacturer_def dsdiff_get_dsd_marker_count_def dsdiff_has_emid_def dsdiff_has_disc_artist_def dsdiff_has_disc_title_def
  by (intro keeps_intros)+

section \<open>Sequences of calls\<close>



















text \<open>The last track number cannot be used: the successor of 0xFFFFFFFF is 0, so the arrays do not
  grow and the tag is stored outside them.\<close>

theorem last_track_out_of_range:
  assumes "is_writing (hd_mode h)" "hd_track_id3_count h = 0" "hd_track_id3_tags h = Null"
    and "unat n \<le> length bs" "n \<noteq> 0" "sa_malloc hp (unat n)"
  shows "fst (dsdiff_set_track_id3_tag hp 0xFFFFFFFF (Some bs) n h) = Fault"
  using assms by (simp add: dsdiff_set_track_id3_tag_def ensure_mode_def extend_tracks_def on_err_def copy_bytes_def set_track_def)

theorem last_track_out_of_range_witness:
  "fst (dsdiff_set_track_id3_tag roomy_heap 0xFFFFFFFF (Some [1]) 1 (zero_dsdiff\<lparr>hd_mode := DSDIFF_FILE_MODE_WRITE\<rparr>)) = Fault"
  by (rule last_track_out_of_range) (simp_all add: zero_dsdiff_def is_writing_def roomy_heap_def sa_malloc_def)

end
