(* ===== verification/Pipe_Tracks.thy ===== *)
theory Pipe_Tracks
  imports Sa_Util C_Pointers C_Loops
begin

text \<open>
  \<^verbatim>\<open>libdsdpipe/src/track_select.c\<close>: the set of tracks a pipeline converts, and the parser of
  specifications such as \<^verbatim>\<open>1-3,5,9-7\<close>. A C string is the list of its characters before the NUL. The
  loops over tracks have the counters of the code, of 8 and 32 bits.
\<close>

datatype dsdpipe_error =
    DSDPIPE_ERROR_INVALID_ARG
  | DSDPIPE_ERROR_OUT_OF_MEMORY
  | DSDPIPE_ERROR_TRACK_NOT_FOUND
  | DSDPIPE_ERROR_INVALID_TRACK_SPEC

section \<open>The selection\<close>

text \<open>The array has \<^verbatim>\<open>capacity\<close> elements, \<^verbatim>\<open>count\<close> of them in use.\<close>

record track_selection =
  ts_tracks :: "byte list ptr"
  ts_count :: nat
  ts_capacity :: nat
  ts_current_idx :: nat

type_synonym 'a ts_op = "(track_selection, dsdpipe_error, 'a) op"

abbreviation (input) DSDPIPE_MAX_TRACKS :: nat where "DSDPIPE_MAX_TRACKS \<equiv> 255"

abbreviation (input) INITIAL_CAPACITY :: nat where "INITIAL_CAPACITY \<equiv> 16"

definition dsdpipe_track_selection_init :: "heap \<Rightarrow> unit ts_op" where
  "dsdpipe_track_selection_init hp = (\<lambda>sel.
     if \<not> sa_malloc hp INITIAL_CAPACITY then (Err DSDPIPE_ERROR_OUT_OF_MEMORY, sel\<lparr>ts_tracks := Null\<rparr>)
     else (Ok (), \<lparr>ts_tracks = Ptr (replicate INITIAL_CAPACITY 0), ts_count = 0, ts_capacity = INITIAL_CAPACITY,
                   ts_current_idx = 0\<rparr>))"

definition dsdpipe_track_selection_free :: "unit ts_op" where
  "dsdpipe_track_selection_free =
     seq (zoom ts_tracks (\<lambda>p sel. sel\<lparr>ts_tracks := p\<rparr>) free_null) (\<lambda>_.
     modify (\<lambda>sel. sel\<lparr>ts_count := 0, ts_capacity := 0, ts_current_idx := 0\<rparr>))"

definition dsdpipe_track_selection_clear :: "unit ts_op" where
  "dsdpipe_track_selection_clear = modify (\<lambda>sel. sel\<lparr>ts_count := 0, ts_current_idx := 0\<rparr>)"

text \<open>Reallocating keeps the elements; the new ones are indeterminate, here 0, and not read.\<close>

definition dsdpipe_track_selection_ensure_capacity :: "heap \<Rightarrow> unit ts_op" where
  "dsdpipe_track_selection_ensure_capacity hp = (\<lambda>sel.
     if ts_count sel < ts_capacity sel then (Ok (), sel) else
     let new_capacity = min (ts_capacity sel * 2) DSDPIPE_MAX_TRACKS in
     if ts_count sel \<ge> new_capacity then (Err DSDPIPE_ERROR_INVALID_ARG, sel)
     else case ts_tracks sel of
         Dangling \<Rightarrow> (Fault, sel)
       | p \<Rightarrow> if \<not> sa_realloc hp new_capacity then (Err DSDPIPE_ERROR_OUT_OF_MEMORY, sel)
           else let xs = (case p of Ptr xs \<Rightarrow> xs | _ \<Rightarrow> []) in
             (Ok (), sel\<lparr>ts_tracks := Ptr (take new_capacity (xs @ replicate new_capacity 0)),
                         ts_capacity := new_capacity\<rparr>))"

text \<open>The elements in use; the loop reads them all when the track is not among them.\<close>

definition dsdpipe_track_selection_contains :: "byte \<Rightarrow> bool ts_op" where
  "dsdpipe_track_selection_contains track = (\<lambda>sel.
     if ts_count sel = 0 then (Ok False, sel)
     else case ts_tracks sel of
         Ptr xs \<Rightarrow> if track \<in> set (take (ts_count sel) xs) then (Ok True, sel)
           else if ts_count sel \<le> length xs then (Ok False, sel) else (Fault, sel)
       | _ \<Rightarrow> (Fault, sel))"

definition store_track :: "byte \<Rightarrow> unit ts_op" where
  "store_track track = (\<lambda>sel. case ts_tracks sel of
       Ptr xs \<Rightarrow> if ts_count sel < length xs
         then (Ok (), sel\<lparr>ts_tracks := Ptr (xs[ts_count sel := track]), ts_count := ts_count sel + 1\<rparr>)
         else (Fault, sel)
     | _ \<Rightarrow> (Fault, sel))"

definition dsdpipe_track_selection_add :: "heap \<Rightarrow> byte \<Rightarrow> unit ts_op" where
  "dsdpipe_track_selection_add hp track =
     seq (ensure (track \<noteq> 0) DSDPIPE_ERROR_INVALID_ARG) (\<lambda>_.
     seq (dsdpipe_track_selection_contains track) (\<lambda>found.
     if found then ret ()
     else seq (dsdpipe_track_selection_ensure_capacity hp) (\<lambda>_. store_track track)))"

text \<open>\<^verbatim>\<open>dsdpipe_select_tracks\<close> of \<^verbatim>\<open>dsdpipe.c\<close>; \<open>None\<close> stands for a null array.\<close>

fun add_each :: "heap \<Rightarrow> byte list \<Rightarrow> unit ts_op" where
  "add_each hp [] = ret ()"
| "add_each hp (t # ts) = seq (dsdpipe_track_selection_add hp t) (\<lambda>_. add_each hp ts)"

definition dsdpipe_select_tracks :: "heap \<Rightarrow> byte list option \<Rightarrow> unit ts_op" where
  "dsdpipe_select_tracks hp track_numbers = (case track_numbers of
       None \<Rightarrow> fail DSDPIPE_ERROR_INVALID_ARG
     | Some ts \<Rightarrow> seq (ensure (ts \<noteq> []) DSDPIPE_ERROR_INVALID_ARG) (\<lambda>_.
         seq dsdpipe_track_selection_clear (\<lambda>_. add_each hp ts)))"

section \<open>Scanning\<close>

text \<open>\<^verbatim>\<open>isspace\<close> in the C locale.\<close>

definition c_isspace :: "char \<Rightarrow> bool" where
  "c_isspace c \<longleftrightarrow> c = CHR '' '' \<or> (of_char c :: nat) \<in> {9..13}"

definition c_isdigit :: "char \<Rightarrow> bool" where
  "c_isdigit c \<longleftrightarrow> (of_char c :: nat) \<in> {48..57}"

definition skip_whitespace :: "string \<Rightarrow> string" where
  "skip_whitespace str = dropWhile c_isspace str"

text \<open>\<^verbatim>\<open>v = v * 10 + (*p - '0')\<close> in 32 bits.\<close>

fun scan_digits :: "u32 \<Rightarrow> string \<Rightarrow> u32 \<times> string" where
  "scan_digits v [] = (v, [])"
| "scan_digits v (c # p) = (if c_isdigit c then scan_digits (v * 10 + (of_char c - 48)) p else (v, c # p))"

text \<open>The value and the rest of the text, or \<open>None\<close> when there is no number.\<close>

definition parse_uint :: "string \<Rightarrow> (u32 \<times> string) option" where
  "parse_uint str = (let p = skip_whitespace str in
     case p of [] \<Rightarrow> None | c # _ \<Rightarrow> if c_isdigit c then Some (scan_digits 0 p) else None)"

section \<open>Parsing\<close>

type_synonym 'a ts_lop = "(track_selection, dsdpipe_error, 'a) lop"

text \<open>The loops \<^verbatim>\<open>for (t = start; go_on t; t = next t)\<close> that add a track in each round.\<close>

definition add_while :: "heap \<Rightarrow> ('n \<Rightarrow> bool) \<Rightarrow> ('n \<Rightarrow> 'n) \<Rightarrow> ('n \<Rightarrow> byte) \<Rightarrow> 'n \<Rightarrow> unit ts_lop" where
  "add_while hp go_on nxt track start = lzoom (\<lambda>sel. (sel, start)) (\<lambda>(sel, _) _. sel)
     (repeat_lop (lift (seq get (\<lambda>(_, t).
        if go_on t then seq (on_fst (dsdpipe_track_selection_add hp (track t))) (\<lambda>_.
          seq (on_snd (modify nxt)) (\<lambda>_. ret None))
        else ret (Some ())))))"

text \<open>\<^verbatim>\<open>for (uint8_t t = 1; t <= max_track; t++)\<close>\<close>

definition add_all_tracks :: "heap \<Rightarrow> byte \<Rightarrow> unit ts_lop" where
  "add_all_tracks hp max_track = add_while hp (\<lambda>t. t \<le> max_track) (\<lambda>t. t + 1) (\<lambda>t. t) 1"

text \<open>The two loops over a range have a counter of 32 bits.\<close>

definition add_upwards :: "heap \<Rightarrow> u32 \<Rightarrow> u32 \<Rightarrow> unit ts_lop" where
  "add_upwards hp start stop = add_while hp (\<lambda>t. t \<le> stop) (\<lambda>t. t + 1) ucast start"

definition add_downwards :: "heap \<Rightarrow> u32 \<Rightarrow> u32 \<Rightarrow> unit ts_lop" where
  "add_downwards hp start stop = add_while hp (\<lambda>t. t \<ge> stop) (\<lambda>t. t - 1) ucast start"

definition in_tracks :: "byte \<Rightarrow> u32 \<Rightarrow> bool" where
  "in_tracks max_track n \<longleftrightarrow> \<not> (n = 0 \<or> n > ucast max_track)"

text \<open>An item without the separator: the rest of the text.\<close>

definition parse_item :: "heap \<Rightarrow> byte \<Rightarrow> string \<Rightarrow> string ts_lop" where
  "parse_item hp max_track p = (case parse_uint p of
       None \<Rightarrow> lift (fail DSDPIPE_ERROR_INVALID_TRACK_SPEC)
     | Some (start, p1) \<Rightarrow>
         lseq (lift (ensure (in_tracks max_track start) DSDPIPE_ERROR_TRACK_NOT_FOUND)) (\<lambda>_.
         let p2 = skip_whitespace p1 in
         if take 1 p2 = ''-'' then
           (case parse_uint (skip_whitespace (tl p2)) of
              None \<Rightarrow> lift (fail DSDPIPE_ERROR_INVALID_TRACK_SPEC)
            | Some (stop, p3) \<Rightarrow>
                lseq (lift (ensure (in_tracks max_track stop) DSDPIPE_ERROR_TRACK_NOT_FOUND)) (\<lambda>_.
                lseq (if start \<le> stop then add_upwards hp start stop else add_downwards hp start stop) (\<lambda>_.
                lift (ret p3))))
         else lseq (lift (dsdpipe_track_selection_add hp (ucast start))) (\<lambda>_. lift (ret p2))))"

text \<open>A round of \<^verbatim>\<open>while (*p)\<close>: the selection and the rest of the text.\<close>

definition items_round :: "heap \<Rightarrow> byte \<Rightarrow> (track_selection \<times> string, dsdpipe_error, unit option) lop" where
  "items_round hp max_track = (\<lambda>(sel, p0).
     let p = skip_whitespace p0 in
     if p = [] then Some (Ok (Some ()), (sel, p))
     else case parse_item hp max_track p sel of
         None \<Rightarrow> None
       | Some (Fault, sel') \<Rightarrow> Some (Fault, (sel', p))
       | Some (Err e, sel') \<Rightarrow> Some (Err e, (sel', p))
       | Some (Ok p1, sel') \<Rightarrow> (case skip_whitespace p1 of
             [] \<Rightarrow> Some (Ok None, (sel', []))
           | c # p2 \<Rightarrow> if c = CHR '','' then Some (Ok None, (sel', p2))
               else Some (Err DSDPIPE_ERROR_INVALID_TRACK_SPEC, (sel', c # p2))))"

definition dsdpipe_track_selection_parse :: "heap \<Rightarrow> string option \<Rightarrow> byte \<Rightarrow> unit ts_lop" where
  "dsdpipe_track_selection_parse hp str max_track = (case str of
       None \<Rightarrow> lift (fail DSDPIPE_ERROR_INVALID_ARG)
     | Some s \<Rightarrow>
         lseq (lift dsdpipe_track_selection_clear) (\<lambda>_.
         let p = skip_whitespace s in
         if take 3 p = ''all'' \<and> skip_whitespace (drop 3 p) = [] then add_all_tracks hp max_track
         else lseq (lzoom (\<lambda>sel. (sel, p)) (\<lambda>(sel, _) _. sel) (repeat_lop (items_round hp max_track))) (\<lambda>_.
           lift (\<lambda>sel. ensure (ts_count sel \<noteq> 0) DSDPIPE_ERROR_INVALID_TRACK_SPEC sel))))"

end
