(* ===== verification/Pipe_Select.thy ===== *)
theory Pipe_Select
  imports Pipe_Tracks
begin

text \<open>
  What a track specification selects: the grammar of specifications, the tracks an item stands
  for, and the proof that the parser of \<^verbatim>\<open>track_select.c\<close> accepts exactly that language.
\<close>

section \<open>The selection as a list of numbers\<close>

definition selected :: "track_selection \<Rightarrow> nat list" where
  "selected sel = (case ts_tracks sel of Ptr xs \<Rightarrow> map unat (take (ts_count sel) xs) | _ \<Rightarrow> [])"

definition selection_ok :: "track_selection \<Rightarrow> bool" where
  "selection_ok sel \<longleftrightarrow> (case ts_tracks sel of
       Ptr xs \<Rightarrow> length xs = ts_capacity sel \<and> 0 < ts_capacity sel \<and> ts_capacity sel \<le> DSDPIPE_MAX_TRACKS \<and>
         ts_count sel \<le> ts_capacity sel
     | _ \<Rightarrow> False) \<and> distinct (selected sel) \<and> 0 \<notin> set (selected sel)"

text \<open>Reallocation succeeds up to the largest size the code asks for.\<close>

definition ample :: "heap \<Rightarrow> bool" where
  "ample hp \<longleftrightarrow> (\<forall>n \<le> DSDPIPE_MAX_TRACKS. sa_realloc hp n)"

definition join :: "nat \<Rightarrow> nat list \<Rightarrow> nat list" where
  "join n ns = (if n \<in> set ns then ns else ns @ [n])"

definition first_occurrences :: "nat list \<Rightarrow> nat list" where
  "first_occurrences ns = rev (remdups (rev ns))"

lemma first_occurrences_snoc: "first_occurrences (ns @ [n]) = join n (first_occurrences ns)"
  by (simp add: first_occurrences_def join_def)

lemma fold_join: "fold join ms (first_occurrences ns) = first_occurrences (ns @ ms)"
proof (induction ms arbitrary: ns)
  case (Cons m ms)
  then show ?case using Cons.IH [of "ns @ [m]"] by (simp flip: first_occurrences_snoc)
qed simp

lemma first_occurrences_Nil [simp]: "first_occurrences [] = []"
  by (simp add: first_occurrences_def)

lemma fold_join_Nil: "fold join ms [] = first_occurrences ms"
  using fold_join [of ms "[]"] by simp

lemma distinct_first_occurrences: "distinct (first_occurrences ns)"
  by (simp add: first_occurrences_def)

lemma set_first_occurrences [simp]: "set (first_occurrences ns) = set ns"
  by (simp add: first_occurrences_def)

text \<open>Distinct tracks are at most 255 many.\<close>

lemma full_selection:
  fixes n :: nat
  assumes "distinct ns" "0 \<notin> set ns" "\<forall>n \<in> set ns. n \<le> 255" "length ns \<ge> 255" "0 < n" "n \<le> 255"
  shows "n \<in> set ns"
proof -
  have "set ns \<subseteq> {1..255}" using assms by (auto simp: Suc_le_eq intro: gr0I)
  moreover have "card (set ns) = length ns" using assms by (simp add: distinct_card)
  ultimately have "set ns = {1..255}"
    using assms by (intro card_subset_eq) (auto dest: card_mono [of "{1..255}" "set ns", simplified])
  then show ?thesis using assms by simp
qed

section \<open>Adding tracks\<close>

definition clears_to :: "track_selection \<Rightarrow> track_selection \<Rightarrow> bool" where
  "clears_to sel sel' \<longleftrightarrow> selection_ok sel' \<and> selected sel' = []"

lemma cleared: "selection_ok sel \<Longrightarrow> clears_to sel (sel\<lparr>ts_count := 0, ts_current_idx := 0\<rparr>)"
  by (auto simp: clears_to_def selection_ok_def selected_def split: ptr.splits)

text \<open>The outcome of adding the tracks \<open>ns\<close>: they are joined, or the memory ran out.\<close>

definition added :: "heap \<Rightarrow> track_selection \<Rightarrow> nat list \<Rightarrow> (dsdpipe_error, unit) outcome \<Rightarrow> track_selection \<Rightarrow> bool" where
  "added hp sel ns r sel' \<longleftrightarrow> selection_ok sel' \<and>
     (r = Ok () \<and> selected sel' = fold join ns (selected sel) \<or> r = Err DSDPIPE_ERROR_OUT_OF_MEMORY \<and> \<not> ample hp)"

lemma added_Nil: "selection_ok sel \<Longrightarrow> added hp sel [] (Ok ()) sel"
  by (simp add: added_def)

lemma unat_byte_le: "unat (b :: byte) \<le> 255"
  using unsigned_less [of b, where 'a = nat] by simp

lemma selected_le: "n \<in> set (selected sel) \<Longrightarrow> n \<le> 255"
  by (auto simp: selected_def unat_byte_le split: ptr.splits)

lemma in_selected:
  "ts_tracks sel = Ptr xs \<Longrightarrow> unat t \<in> set (selected sel) \<longleftrightarrow> t \<in> set (take (ts_count sel) xs)"
  by (auto simp: selected_def word_unat_eq_iff [symmetric])

lemma stored:
  assumes "selection_ok sel" "ts_count sel < ts_capacity sel" "unat t \<notin> set (selected sel)" "t \<noteq> 0"
  shows "\<exists>sel'. store_track t sel = (Ok (), sel') \<and> selection_ok sel' \<and> selected sel' = selected sel @ [unat t]"
proof -
  obtain xs where xs: "ts_tracks sel = Ptr xs" "length xs = ts_capacity sel"
    using assms by (auto simp: selection_ok_def split: ptr.splits)
  let ?sel = "sel\<lparr>ts_tracks := Ptr (xs[ts_count sel := t]), ts_count := ts_count sel + 1\<rparr>"
  have "take (Suc (ts_count sel)) (xs[ts_count sel := t]) = take (ts_count sel) xs @ [t]"
    using assms xs by (simp add: take_Suc_conv_app_nth)
  then have s: "selected ?sel = selected sel @ [unat t]"
    using xs by (simp add: selected_def)
  have "unat t \<noteq> 0" using assms by (simp add: unat_eq_zero)
  then have "selection_ok ?sel"
    using assms xs s by (simp add: selection_ok_def)
  then show ?thesis using s xs assms by (auto simp: store_track_def)
qed

lemma grown:
  assumes "selection_ok sel" "ts_count sel < 255"
  shows "\<exists>r sel'. dsdpipe_track_selection_ensure_capacity hp sel = (r, sel') \<and> selection_ok sel' \<and>
    selected sel' = selected sel \<and> (r = Ok () \<and> ts_count sel' < ts_capacity sel' \<or>
      r = Err DSDPIPE_ERROR_OUT_OF_MEMORY \<and> \<not> ample hp)"
proof (cases "ts_count sel < ts_capacity sel")
  case False
  obtain xs where xs: "ts_tracks sel = Ptr xs" "length xs = ts_capacity sel" "ts_count sel = ts_capacity sel"
    "0 < ts_capacity sel"
    using assms False by (auto simp: selection_ok_def split: ptr.splits)
  define n where "n = min (ts_capacity sel * 2) 255"
  have n: "ts_count sel < n" "n \<le> 255" "ts_capacity sel \<le> n" using xs assms by (auto simp: n_def)
  let ?sel = "sel\<lparr>ts_tracks := Ptr (take n (xs @ replicate n 0)), ts_capacity := n\<rparr>"
  have "selected ?sel = selected sel" using xs n by (simp add: selected_def)
  moreover from this have "selection_ok ?sel" using assms n xs by (simp add: selection_ok_def)
  moreover have "\<not> ample hp" if "\<not> sa_realloc hp n" using that n by (auto simp: ample_def)
  ultimately show ?thesis
    using False xs n assms by (auto simp: dsdpipe_track_selection_ensure_capacity_def Let_def simp flip: n_def)
qed (use assms in \<open>simp add: dsdpipe_track_selection_ensure_capacity_def\<close>)

lemma add_track:
  assumes "selection_ok sel" "t \<noteq> 0"
  shows "\<exists>r sel'. dsdpipe_track_selection_add hp t sel = (r, sel') \<and> added hp sel [unat t] r sel'"
proof -
  obtain xs where xs: "ts_tracks sel = Ptr xs" "length xs = ts_capacity sel" "ts_count sel \<le> length xs"
    using assms by (auto simp: selection_ok_def split: ptr.splits)
  have c: "dsdpipe_track_selection_contains t sel = (Ok (unat t \<in> set (selected sel)), sel)"
    using xs by (auto simp: dsdpipe_track_selection_contains_def in_selected)
  show ?thesis
  proof (cases "unat t \<in> set (selected sel)")
    case True
    then show ?thesis using assms c by (simp add: dsdpipe_track_selection_add_def added_def join_def)
  next
    case False
    have "length (selected sel) = ts_count sel" using xs by (simp add: selected_def)
    moreover have "0 < unat t" "unat t \<le> 255"
      using assms by (simp_all add: unat_gt_0 unat_byte_le)
    ultimately have "ts_count sel < 255"
      using False full_selection [of "selected sel" "unat t"] assms selected_le [of _ sel]
      by (metis linorder_not_less selection_ok_def)
    then obtain r sel1 where g: "dsdpipe_track_selection_ensure_capacity hp sel = (r, sel1)" "selection_ok sel1"
      "selected sel1 = selected sel"
      "r = Ok () \<and> ts_count sel1 < ts_capacity sel1 \<or> r = Err DSDPIPE_ERROR_OUT_OF_MEMORY \<and> \<not> ample hp"
      using grown [OF assms(1)] by blast
    from g(4) show ?thesis
    proof
      assume r: "r = Ok () \<and> ts_count sel1 < ts_capacity sel1"
      then obtain sel2 where "store_track t sel1 = (Ok (), sel2)" "selection_ok sel2"
        "selected sel2 = selected sel1 @ [unat t]"
        using stored [of sel1 t] g assms False by auto
      then show ?thesis using assms c g r False by (simp add: dsdpipe_track_selection_add_def added_def join_def)
    next
      assume "r = Err DSDPIPE_ERROR_OUT_OF_MEMORY \<and> \<not> ample hp"
      then show ?thesis using assms c g False by (simp add: dsdpipe_track_selection_add_def added_def)
    qed
  qed
qed

lemma added_trans:
  "\<lbrakk>added hp sel ms (Ok ()) sel1; added hp sel1 ns r sel2\<rbrakk> \<Longrightarrow> added hp sel (ms @ ns) r sel2"
  by (auto simp: added_def)

section \<open>The loops over tracks\<close>

lemma add_while_stop: "\<not> go_on t \<Longrightarrow> add_while hp go_on nxt track t sel = Some (Ok (), sel)"
  by (simp add: add_while_def lzoom_def repeat_leave [where a = "()" and s' = "(sel, t)"])

lemma add_while_Ok:
  "\<lbrakk>go_on t; dsdpipe_track_selection_add hp (track t) sel = (Ok (), sel')\<rbrakk>
     \<Longrightarrow> add_while hp go_on nxt track t sel = add_while hp go_on nxt track (nxt t) sel'"
  unfolding add_while_def lzoom_def
  by (subst repeat_continue [where s' = "(sel', nxt t)"])
    (simp_all add: on_fst_def on_snd_def zoom_def option.map_comp comp_def case_prod_unfold)

lemma add_while_Err:
  "\<lbrakk>go_on t; dsdpipe_track_selection_add hp (track t) sel = (Err e, sel')\<rbrakk>
     \<Longrightarrow> add_while hp go_on nxt track t sel = Some (Err e, sel')"
  unfolding add_while_def lzoom_def
  by (subst repeat_error [where s' = "(sel', t)" and e = e])
    (simp_all add: on_fst_def on_snd_def zoom_def)

text \<open>A loop that counts through the numbers \<open>ns\<close>.\<close>

fun counts :: "('n \<Rightarrow> bool) \<Rightarrow> ('n \<Rightarrow> 'n) \<Rightarrow> ('n \<Rightarrow> byte) \<Rightarrow> 'n \<Rightarrow> nat list \<Rightarrow> bool" where
  "counts go_on nxt track t [] \<longleftrightarrow> \<not> go_on t"
| "counts go_on nxt track t (n # ns) \<longleftrightarrow>
     go_on t \<and> n = unat (track t) \<and> 0 < n \<and> counts go_on nxt track (nxt t) ns"

lemma add_while_counts:
  "\<lbrakk>counts go_on nxt track t ns; selection_ok sel\<rbrakk>
     \<Longrightarrow> \<exists>r sel'. add_while hp go_on nxt track t sel = Some (r, sel') \<and> added hp sel ns r sel'"
proof (induction ns arbitrary: t sel)
  case Nil
  then show ?case by (simp add: add_while_stop added_Nil)
next
  case (Cons n ns)
  then have m: "go_on t" "n = unat (track t)" "track t \<noteq> 0" "counts go_on nxt track (nxt t) ns" by auto
  obtain r sel1 where a: "dsdpipe_track_selection_add hp (track t) sel = (r, sel1)" "added hp sel [n] r sel1"
    using add_track [OF Cons.prems(2) m(3)] m(2) by blast
  from a(2) consider "r = Ok ()" "selection_ok sel1" | "r = Err DSDPIPE_ERROR_OUT_OF_MEMORY" "\<not> ample hp"
    "selection_ok sel1"
    by (auto simp: added_def)
  then show ?case
  proof cases
    case 1
    then obtain r' sel2 where "add_while hp go_on nxt track (nxt t) sel1 = Some (r', sel2)" "added hp sel1 ns r' sel2"
      using Cons.IH m(4) by blast
    then show ?thesis using added_trans [of hp sel "[n]" sel1 ns r' sel2] a m 1 by (simp add: add_while_Ok)
  next
    case 2
    then show ?thesis using a m by (simp add: add_while_Err added_def)
  qed
qed

lemma unat_ucast_track: "(t :: u32) \<le> 255 \<Longrightarrow> unat (ucast t :: byte) = unat t"
  by (simp add: unsigned_ucast_eq word_le_nat_alt take_bit_nat_eq_self)

lemma counts_up:
  assumes "stop \<le> 255" "0 < t"
  shows "counts (\<lambda>t. t \<le> (stop :: u32)) (\<lambda>t. t + 1) ucast t [unat t..<Suc (unat stop)]"
  using assms
proof (induction "Suc (unat stop) - unat t" arbitrary: t)
  case 0
  then show ?case by (simp add: word_le_nat_alt)
next
  case (Suc k)
  then have le: "unat t \<le> unat stop" "unat stop \<le> 255" by (simp_all add: word_le_nat_alt)
  then have s: "unat (t + 1) = Suc (unat t)" by (simp add: unat_word_ariths)
  then have "counts (\<lambda>t. t \<le> stop) (\<lambda>t. t + 1) ucast (t + 1) [Suc (unat t)..<Suc (unat stop)]"
    using Suc.hyps(1) [of "t + 1"] Suc.hyps(2) Suc.prems by (simp add: word_less_nat_alt)
  then show ?case
    using le Suc.prems by (simp add: upt_conv_Cons word_le_nat_alt unat_ucast_track word_less_nat_alt del: upt_Suc)
qed

lemma counts_down:
  assumes "t \<le> 255" "0 < stop"
  shows "counts (\<lambda>t. t \<ge> (stop :: u32)) (\<lambda>t. t - 1) ucast t (rev [unat stop..<Suc (unat t)])"
  using assms
proof (induction "Suc (unat t) - unat stop" arbitrary: t)
  case 0
  then show ?case by (simp add: word_le_nat_alt)
next
  case (Suc k)
  then have le: "unat stop \<le> unat t" "0 < unat stop" "unat t \<le> 255"
    by (simp_all add: word_le_nat_alt word_less_nat_alt)
  then have s: "Suc (unat (t - 1)) = unat t"
    by (subst unat_sub) (simp_all add: word_le_nat_alt)
  have "k = Suc (unat (t - 1)) - unat stop" "t - 1 \<le> 255"
    using s Suc.hyps(2) le by (simp_all add: word_le_nat_alt)
  from Suc.hyps(1) [OF this Suc.prems(2)]
  have "counts (\<lambda>t. t \<ge> stop) (\<lambda>t. t - 1) ucast (t - 1) (rev [unat stop..<unat t])"
    unfolding s .
  moreover have "stop \<le> t" using le by (simp add: word_le_nat_alt)
  ultimately show ?case
    using le Suc.prems by (simp add: unat_ucast_track)
qed

lemma counts_all:
  assumes "m < 255" "0 < t"
  shows "counts (\<lambda>t. t \<le> (m :: byte)) (\<lambda>t. t + 1) (\<lambda>t. t) t [unat t..<Suc (unat m)]"
  using assms
proof (induction "Suc (unat m) - unat t" arbitrary: t)
  case 0
  then show ?case by (simp add: word_le_nat_alt)
next
  case (Suc k)
  then have le: "unat t \<le> unat m" "unat m < 255" by (simp_all add: word_less_nat_alt)
  then have s: "unat (t + 1) = Suc (unat t)" by (simp add: unat_word_ariths)
  then have "counts (\<lambda>t. t \<le> m) (\<lambda>t. t + 1) (\<lambda>t. t) (t + 1) [Suc (unat t)..<Suc (unat m)]"
    using Suc.hyps(1) [of "t + 1"] Suc.hyps(2) Suc.prems by (simp add: word_less_nat_alt)
  then show ?case
    using le Suc.prems by (simp add: upt_conv_Cons word_le_nat_alt word_less_nat_alt del: upt_Suc)
qed

section \<open>The language of specifications\<close>

definition blank :: "string \<Rightarrow> bool" where
  "blank s \<longleftrightarrow> list_all c_isspace s"

definition decimal :: "string \<Rightarrow> nat" where
  "decimal s = foldl (\<lambda>v c. v * 10 + (of_char c - 48)) 0 s"

text \<open>A number between blanks.\<close>

definition number_text :: "nat \<Rightarrow> string \<Rightarrow> bool" where
  "number_text n s \<longleftrightarrow>
     (\<exists>b d b'. s = b @ d @ b' \<and> blank b \<and> blank b' \<and> d \<noteq> [] \<and> list_all c_isdigit d \<and> n = decimal d)"

datatype track_item = Single nat | Range nat nat

fun item_text :: "track_item \<Rightarrow> string \<Rightarrow> bool" where
  "item_text (Single n) s \<longleftrightarrow> number_text n s"
| "item_text (Range m n) s \<longleftrightarrow> (\<exists>s1 s2. s = s1 @ CHR ''-'' # s2 \<and> number_text m s1 \<and> number_text n s2)"

text \<open>Items separated by commas; a comma may stand at the end.\<close>

inductive spec_text :: "track_item list \<Rightarrow> string \<Rightarrow> bool" where
  spec_blank: "blank s \<Longrightarrow> spec_text [] s"
| spec_item: "item_text i s \<Longrightarrow> spec_text [i] s"
| spec_more: "\<lbrakk>item_text i s; spec_text is s'\<rbrakk> \<Longrightarrow> spec_text (i # is) (s @ CHR '','' # s')"

inductive_simps spec_text_Nil: "spec_text [] s"

text \<open>Numbers are read modulo \<open>2 ^ 32\<close>.\<close>

definition wrap :: "nat \<Rightarrow> nat" where
  "wrap n = n mod 2 ^ 32"

fun numbers :: "track_item \<Rightarrow> nat list" where
  "numbers (Single n) = [wrap n]"
| "numbers (Range m n) = [wrap m, wrap n]"

fun expand :: "track_item \<Rightarrow> nat list" where
  "expand (Single n) = [wrap n]"
| "expand (Range m n) = (if wrap m \<le> wrap n then [wrap m..<Suc (wrap n)] else rev [wrap n..<Suc (wrap m)])"

definition in_range :: "byte \<Rightarrow> track_item \<Rightarrow> bool" where
  "in_range max_track i \<longleftrightarrow> (\<forall>n \<in> set (numbers i). 1 \<le> n \<and> n \<le> unat max_track)"

section \<open>Scanning numbers\<close>

lemma space_not_digit: "c_isspace c \<Longrightarrow> \<not> c_isdigit c"
  by (auto simp: c_isspace_def c_isdigit_def)

lemma skip_idem [simp]: "skip_whitespace (skip_whitespace s) = skip_whitespace s"
  by (simp add: skip_whitespace_def)

lemma skip_blank [simp]: "blank b \<Longrightarrow> skip_whitespace (b @ s) = skip_whitespace s"
  by (induction b) (simp_all add: skip_whitespace_def blank_def)

lemma skip_nonblank: "s = [] \<or> \<not> c_isspace (hd s) \<Longrightarrow> skip_whitespace s = s"
  by (cases s) (auto simp: skip_whitespace_def)

lemma skip_split: "\<exists>b. blank b \<and> s = b @ skip_whitespace s"
  unfolding skip_whitespace_def blank_def
  by (metis list_all_iff set_takeWhileD takeWhile_dropWhile_id)

lemma skip_hd: "skip_whitespace s = c # p \<Longrightarrow> \<not> c_isspace c"
  unfolding skip_whitespace_def by (metis hd_dropWhile list.distinct(1) list.sel(1))

lemma parse_uint_skip [simp]: "parse_uint (skip_whitespace s) = parse_uint s"
  by (simp add: parse_uint_def)

lemma scan_digits_eq:
  "scan_digits v s = (foldl (\<lambda>v c. v * 10 + (of_char c - 48)) v (takeWhile c_isdigit s), dropWhile c_isdigit s)"
  by (induction s arbitrary: v) auto

lemma digits_word:
  "list_all c_isdigit d \<Longrightarrow>
     foldl (\<lambda>v c. v * 10 + (of_char c - 48)) (of_nat v :: u32) d = of_nat (foldl (\<lambda>v c. v * 10 + (of_char c - 48)) v d)"
proof (induction d arbitrary: v)
  case (Cons c d)
  have "48 \<le> (of_char c :: nat)" using Cons.prems by (simp add: c_isdigit_def)
  then have "of_nat (of_char c - 48) = (of_char c :: u32) - 48"
    by (simp add: of_nat_diff of_nat_of_char)
  then show ?case using Cons.IH [of "v * 10 + (of_char c - 48)"] Cons.prems by simp
qed simp

lemma digits_taken: "list_all c_isdigit (takeWhile c_isdigit p)"
  by (auto simp: list_all_iff dest: set_takeWhileD)

lemma parse_uint_eq:
  "parse_uint s = (let p = skip_whitespace s; d = takeWhile c_isdigit p in
     if d = [] then None else Some (of_nat (decimal d), dropWhile c_isdigit p))"
proof -
  have "foldl (\<lambda>v c. v * 10 + (of_char c - 48)) (0 :: u32) (takeWhile c_isdigit p) =
    of_nat (decimal (takeWhile c_isdigit p))" for p
    using digits_word [OF digits_taken, of 0 p] by (simp add: decimal_def)
  note dec = this [of "skip_whitespace s"]
  show ?thesis
  proof (cases "skip_whitespace s")
    case (Cons c p)
    then show ?thesis using dec by (auto simp: parse_uint_def scan_digits_eq)
  qed (simp add: parse_uint_def)
qed

text \<open>Where the rest of a text may begin after a number.\<close>

definition stops :: "string \<Rightarrow> bool" where
  "stops s \<longleftrightarrow> s = [] \<or> \<not> c_isspace (hd s) \<and> \<not> c_isdigit (hd s)"

lemma number_parsed:
  assumes "number_text n s" "stops rest"
  shows "\<exists>q. parse_uint (s @ rest) = Some (of_nat n, q) \<and> skip_whitespace q = rest"
proof -
  obtain b d b' where s: "s = b @ d @ b'" "blank b" "blank b'" "d \<noteq> []" "list_all c_isdigit d" "n = decimal d"
    using assms by (auto simp: number_text_def)
  have "\<not> c_isspace (hd d)" using s by (cases d) (auto dest: space_not_digit)
  then have sk: "skip_whitespace (d @ b' @ rest) = d @ b' @ rest"
    using s by (intro skip_nonblank) simp
  have "takeWhile c_isdigit (b' @ rest) = []" "dropWhile c_isdigit (b' @ rest) = b' @ rest"
    using s(3) assms(2) by (cases b'; cases rest; auto simp: blank_def stops_def dest: space_not_digit)+
  then have "takeWhile c_isdigit (d @ b' @ rest) = d" "dropWhile c_isdigit (d @ b' @ rest) = b' @ rest"
    using s(5) by (simp_all add: list_all_iff takeWhile_append2 dropWhile_append2)
  moreover have "skip_whitespace (b' @ rest) = rest"
    using s(3) assms(2) skip_nonblank [of rest] by (auto simp: stops_def)
  ultimately show ?thesis using s sk by (simp add: parse_uint_eq Let_def)
qed

lemma parsed_number:
  assumes "parse_uint s = Some (v, q)"
  shows "\<exists>n t. s = t @ skip_whitespace q \<and> number_text n t \<and> v = of_nat n"
proof -
  define d where "d = takeWhile c_isdigit (skip_whitespace s)"
  have q: "d \<noteq> []" "v = of_nat (decimal d)" "skip_whitespace s = d @ q"
    using assms by (auto simp: parse_uint_eq Let_def d_def split: if_splits)
  obtain b where b: "blank b" "s = b @ d @ q" using skip_split [of s] q by metis
  obtain b' where b': "blank b'" "q = b' @ skip_whitespace q" using skip_split by blast
  have "list_all c_isdigit d" by (simp add: d_def digits_taken)
  then have "number_text (decimal d) (b @ d @ b')" using q b b' by (auto simp: number_text_def)
  moreover have "s = (b @ d @ b') @ skip_whitespace q" using b(2) by (simp only: append_assoc flip: b'(2))
  ultimately show ?thesis using q by blast
qed

end
