(* ===== verification/Pipe_Parse.thy ===== *)
theory Pipe_Parse
  imports Pipe_Select
begin

text \<open>
  The parser of track specifications accepts exactly the language of specifications whose numbers
  name tracks, selects the tracks they stand for, and always returns.
\<close>

section \<open>Numbers modulo \<open>2 ^ 32\<close>\<close>

lemma unat_wrap: "unat (of_nat n :: u32) = wrap n"
  by (simp add: wrap_def unat_of_nat)

lemma in_tracks_wrap:
  "in_tracks m (of_nat n) \<longleftrightarrow> 1 \<le> wrap n \<and> wrap n \<le> unat m"
proof -
  have "unat (ucast m :: u32) = unat m" by (simp add: unsigned_ucast_eq unat_byte_le take_bit_nat_eq_self_iff)
      (use unat_byte_le [of m] in linarith)
  then show ?thesis
    by (auto simp: in_tracks_def word_less_nat_alt unat_wrap unat_eq_zero simp flip: unat_eq_zero)
qed

lemma in_tracks_le: "in_tracks m n \<Longrightarrow> n \<le> 255 \<and> 0 < n"
  using in_tracks_wrap [of m "unat n"] unat_byte_le [of m] unsigned_less [of n, where 'a = nat]
  by (simp add: word_le_nat_alt word_less_nat_alt wrap_def)

lemma track_number:
  assumes "in_tracks m n"
  shows "unat (ucast n :: byte) = unat n" "(ucast n :: byte) \<noteq> 0"
proof -
  show n: "unat (ucast n :: byte) = unat n" using in_tracks_le [OF assms] by (simp add: unat_ucast_track)
  have "0 < unat n" using in_tracks_le [OF assms] by (simp add: word_less_nat_alt)
  then show "(ucast n :: byte) \<noteq> 0" using n by auto
qed

section \<open>Items\<close>

lemma range_added:
  assumes "in_tracks m a" "in_tracks m b" "selection_ok sel"
  shows "\<exists>r sel'. (if a \<le> b then add_upwards hp a b else add_downwards hp a b) sel = Some (r, sel') \<and>
    added hp sel (if unat a \<le> unat b then [unat a..<Suc (unat b)] else rev [unat b..<Suc (unat a)]) r sel'"
  using in_tracks_le [OF assms(1)] in_tracks_le [OF assms(2)] assms(3)
  by (auto simp: add_upwards_def add_downwards_def word_le_nat_alt [symmetric]
      simp del: upt_Suc intro!: add_while_counts counts_up counts_down)

text \<open>The rest of a text after an item.\<close>

definition item_ends :: "string \<Rightarrow> bool" where
  "item_ends s \<longleftrightarrow> s = [] \<or> hd s = CHR '','' "

lemma separators: "\<not> c_isspace CHR '','' " "\<not> c_isdigit CHR '','' " "\<not> c_isspace CHR ''-''" "\<not> c_isdigit CHR ''-''"
  by (simp_all add: c_isspace_def c_isdigit_def)

lemma item_ends_stops: "item_ends s \<Longrightarrow> stops s"
  by (auto simp: item_ends_def stops_def separators)

lemma item_accepted:
  assumes "ample hp" "selection_ok sel" "item_text i s" "in_range m i" "item_ends rest"
  shows "\<exists>q sel'. parse_item hp m (s @ rest) sel = Some (Ok q, sel') \<and> skip_whitespace q = rest \<and>
    selection_ok sel' \<and> selected sel' = fold join (expand i) (selected sel)"
proof (cases i)
  case (Single n)
  then obtain q where q: "parse_uint (s @ rest) = Some (of_nat n, q)" "skip_whitespace q = rest"
    using assms number_parsed item_ends_stops by (metis item_text.simps(1))
  have n: "in_tracks m (of_nat n)" using assms Single by (simp add: in_tracks_wrap in_range_def)
  obtain r sel' where a: "dsdpipe_track_selection_add hp (ucast (of_nat n :: u32)) sel = (r, sel')"
    "added hp sel [wrap n] r sel'"
    using add_track [OF assms(2) track_number(2) [OF n], of hp] track_number(1) [OF n] by (auto simp: unat_wrap)
  have "take 1 rest \<noteq> ''-''" using assms(5) by (cases rest) (auto simp: item_ends_def)
  then show ?thesis
    using q n a assms(1) Single by (auto simp: parse_item_def added_def Let_def lseq_def)
next
  case (Range a b)
  then obtain s1 s2 where s: "s = s1 @ CHR ''-'' # s2" "number_text a s1" "number_text b s2"
    using assms(3) by auto
  then obtain p where p: "parse_uint (s1 @ CHR ''-'' # s2 @ rest) = Some (of_nat a, p)"
    "skip_whitespace p = CHR ''-'' # s2 @ rest"
    using number_parsed [of a s1 "CHR ''-'' # s2 @ rest"] by (auto simp: stops_def separators)
  obtain q where q: "parse_uint (s2 @ rest) = Some (of_nat b, q)" "skip_whitespace q = rest"
    using number_parsed [OF s(3) item_ends_stops [OF assms(5)]] by blast
  have n: "in_tracks m (of_nat a)" "in_tracks m (of_nat b)"
    using assms Range by (simp_all add: in_tracks_wrap in_range_def)
  obtain r sel' where "(if (of_nat a :: u32) \<le> of_nat b then add_upwards hp (of_nat a) (of_nat b)
      else add_downwards hp (of_nat a) (of_nat b)) sel = Some (r, sel')" "added hp sel (expand i) r sel'"
    using range_added [OF n assms(2), of hp] unfolding unat_wrap Range expand.simps by blast
  then show ?thesis
    using s p q n assms(1) by (auto simp: parse_item_def added_def Let_def lseq_def simp del: upt_Suc)
qed

text \<open>What a run of the parser over an item tells.\<close>

lemma item_parsed:
  assumes "selection_ok sel"
  shows "\<exists>r sel'. parse_item hp m p sel = Some (r, sel') \<and> r \<noteq> Fault \<and> selection_ok sel' \<and>
    (\<forall>q. r = Ok q \<longrightarrow> (\<exists>i s. p = s @ skip_whitespace q \<and> item_text i s \<and> in_range m i \<and>
       selected sel' = fold join (expand i) (selected sel)))"
proof (cases "parse_uint p")
  case None
  then show ?thesis using assms by (simp add: parse_item_def)
next
  case (Some vp)
  obtain v p1 where v: "parse_uint p = Some (v, p1)" using Some by (cases vp) auto
  obtain n s where n: "p = s @ skip_whitespace p1" "number_text n s" "v = of_nat n"
    using parsed_number [OF v] by blast
  show ?thesis
  proof (cases "in_tracks m v")
    case False
    then show ?thesis using v assms by (simp add: parse_item_def)
  next
    case v': True
    show ?thesis
    proof (cases "take 1 (skip_whitespace p1) = ''-''")
      case False
      obtain r sel' where a: "dsdpipe_track_selection_add hp (ucast v) sel = (r, sel')" "added hp sel [wrap n] r sel'"
        using add_track [OF assms track_number(2) [OF v'], of hp] track_number(1) [OF v'] n by (auto simp: unat_wrap)
      have "item_text (Single n) s \<and> in_range m (Single n)"
        using n v' by (simp add: in_range_def in_tracks_wrap)
      then have "\<exists>i s. p = s @ skip_whitespace p1 \<and> item_text i s \<and> in_range m i \<and>
          fold join [wrap n] (selected sel) = fold join (expand i) (selected sel)"
        using n(1) by (metis expand.simps(1))
      then show ?thesis using False a v v' by (auto simp: parse_item_def added_def Let_def lseq_def)
    next
      case True
      then obtain p2 where p2: "skip_whitespace p1 = CHR ''-'' # p2" by (cases "skip_whitespace p1") auto
      show ?thesis
      proof (cases "parse_uint p2")
        case None
        then show ?thesis using v v' p2 assms by (simp add: parse_item_def)
      next
        case (Some wq)
        obtain w q where w: "parse_uint p2 = Some (w, q)" using Some by (cases wq) auto
        obtain k s' where k: "p2 = s' @ skip_whitespace q" "number_text k s'" "w = of_nat k"
          using parsed_number [OF w] by blast
        show ?thesis
        proof (cases "in_tracks m w")
          case False
          then show ?thesis using v v' p2 w assms by (simp add: parse_item_def)
        next
          case w': True
          obtain r sel' where a: "(if v \<le> w then add_upwards hp v w else add_downwards hp v w) sel = Some (r, sel')"
            "added hp sel (expand (Range n k)) r sel'"
            using range_added [OF v' w' assms, of hp] unfolding n(3) k(3) unat_wrap expand.simps by blast
          have "item_text (Range n k) (s @ CHR ''-'' # s') \<and> in_range m (Range n k) \<and>
              p = (s @ CHR ''-'' # s') @ skip_whitespace q"
            using n k v' w' p2 by (auto simp: in_range_def in_tracks_wrap)
          then have "\<exists>i s. p = s @ skip_whitespace q \<and> item_text i s \<and> in_range m i \<and>
              fold join (expand (Range n k)) (selected sel) = fold join (expand i) (selected sel)"
            by blast
          then show ?thesis using a v v' p2 w w' by (auto simp: parse_item_def added_def Let_def lseq_def)
        qed
      qed
    qed
  qed
qed

section \<open>The loop over the items\<close>

lemma parse_item_skip: "parse_item hp m (skip_whitespace p) = parse_item hp m p"
  by (simp add: parse_item_def)

lemma number_text_digit: "number_text n s \<Longrightarrow> \<exists>c \<in> set s. c_isdigit c"
  by (auto simp: number_text_def list_all_iff neq_Nil_conv)

lemma item_text_digit: "item_text i s \<Longrightarrow> \<exists>c \<in> set s. c_isdigit c"
  by (cases i) (use number_text_digit in fastforce)+

lemma item_not_blank:
  assumes "item_text i s"
  shows "skip_whitespace (s @ rest) \<noteq> []"
  using item_text_digit [OF assms] by (auto simp: skip_whitespace_def dest: space_not_digit)

lemma blank_iff: "blank s \<longleftrightarrow> skip_whitespace s = []"
  by (auto simp: blank_def skip_whitespace_def list_all_iff)

lemma loop_blank:
  "skip_whitespace p = [] \<Longrightarrow> repeat_lop (items_round hp m) (sel, p) = Some (Ok (), (sel, []))"
  by (rule repeat_leave) (simp add: items_round_def)

lemma loop_accepted:
  "\<lbrakk>spec_text items p; \<forall>i \<in> set items. in_range m i; selection_ok sel; ample hp\<rbrakk> \<Longrightarrow>
     \<exists>sel'. repeat_lop (items_round hp m) (sel, p) = Some (Ok (), (sel', [])) \<and> selection_ok sel' \<and>
       selected sel' = fold join (concat (map expand items)) (selected sel)"
proof (induction arbitrary: sel rule: spec_text.induct)
  case (spec_blank s)
  then show ?case by (simp add: loop_blank blank_iff)
next
  case (spec_item i s)
  obtain q sel' where a: "parse_item hp m s sel = Some (Ok q, sel')" "skip_whitespace q = []" "selection_ok sel'"
    "selected sel' = fold join (expand i) (selected sel)"
    using item_accepted [of hp sel i s m "[]"] spec_item by (auto simp: item_ends_def)
  have "items_round hp m (sel, s) = Some (Ok None, (sel', []))"
    using item_not_blank [OF spec_item(1), of "[]"] a by (simp add: items_round_def parse_item_skip)
  then show ?case using a loop_blank [of "[]" hp m sel'] by (simp add: repeat_continue skip_whitespace_def)
next
  case (spec_more i s is' s')
  obtain q sel1 where a: "parse_item hp m (s @ CHR '','' # s') sel = Some (Ok q, sel1)"
    "skip_whitespace q = CHR '','' # s'" "selection_ok sel1" "selected sel1 = fold join (expand i) (selected sel)"
    using item_accepted [of hp sel i s m "CHR '','' # s'"] spec_more by (auto simp: item_ends_def)
  have "items_round hp m (sel, s @ CHR '','' # s') = Some (Ok None, (sel1, s'))"
    using item_not_blank [OF spec_more(1), of "CHR '','' # s'"] a by (simp add: items_round_def parse_item_skip)
  then show ?case using a spec_more.IH [of sel1] spec_more.prems by (auto simp: repeat_continue)
qed

text \<open>What the loop has selected when it accepts the text \<open>p\<close>.\<close>

definition accepts :: "byte \<Rightarrow> string \<Rightarrow> track_selection \<Rightarrow> track_selection \<Rightarrow> bool" where
  "accepts m p sel sel' \<longleftrightarrow> (\<exists>items. spec_text items p \<and> (\<forall>i \<in> set items. in_range m i) \<and>
     selected sel' = fold join (concat (map expand items)) (selected sel))"

lemma accepts_blank: "skip_whitespace p = [] \<Longrightarrow> accepts m p sel sel"
  unfolding accepts_def by (intro exI [of _ "[]"]) (simp add: spec_text_Nil blank_iff)

lemma accepts_item:
  "\<lbrakk>item_text i p; in_range m i; selected sel' = fold join (expand i) (selected sel)\<rbrakk> \<Longrightarrow> accepts m p sel sel'"
  unfolding accepts_def by (intro exI [of _ "[i]"]) (simp add: spec_item)

lemma accepts_more:
  "\<lbrakk>item_text i s; in_range m i; selected sel1 = fold join (expand i) (selected sel); accepts m p sel1 sel'\<rbrakk>
     \<Longrightarrow> accepts m (s @ CHR '','' # p) sel sel'"
  unfolding accepts_def by (metis (no_types, lifting) spec_more concat.simps(2) fold_append comp_apply list.simps(9) set_ConsD)

text \<open>The loop ends on every text, and a text it accepts is a specification.\<close>

lemma loop_parsed:
  "selection_ok sel \<Longrightarrow>
     \<exists>r sel' p'. repeat_lop (items_round hp m) (sel, p) = Some (r, (sel', p')) \<and> r \<noteq> Fault \<and> selection_ok sel' \<and>
       (r = Ok () \<longrightarrow> accepts m p sel sel')"
proof (induction "length p" arbitrary: p sel rule: less_induct)
  case less
  show ?case
  proof (cases "skip_whitespace p = []")
    case True
    then show ?thesis using less.prems by (simp add: loop_blank accepts_blank)
  next
    case ne: False
    note round = items_round_def parse_item_skip
    obtain r sel1 where a: "parse_item hp m p sel = Some (r, sel1)" "r \<noteq> Fault" "selection_ok sel1"
      "\<forall>q. r = Ok q \<longrightarrow> (\<exists>i s. p = s @ skip_whitespace q \<and> item_text i s \<and> in_range m i \<and>
         selected sel1 = fold join (expand i) (selected sel))"
      using item_parsed [OF less.prems] by blast
    show ?thesis
    proof (cases r)
      case (Err e)
      then have "items_round hp m (sel, p) = Some (Err e, (sel1, skip_whitespace p))"
        using a ne by (simp add: round)
      then show ?thesis using a by (simp add: repeat_error)
    next
      case (Ok q)
      obtain i s where i: "p = s @ skip_whitespace q" "item_text i s" "in_range m i"
        "selected sel1 = fold join (expand i) (selected sel)"
        using a Ok by blast
      consider "skip_whitespace q = []" | c p2 where "skip_whitespace q = c # p2" "c \<noteq> CHR '','' "
        | p2 where "skip_whitespace q = CHR '','' # p2"
        by (metis list.exhaust)
      then show ?thesis
      proof cases
        case 1
        then have "items_round hp m (sel, p) = Some (Ok None, (sel1, []))" using a ne Ok by (simp add: round)
        moreover have "accepts m p sel sel1" using i 1 by (simp add: accepts_item)
        ultimately show ?thesis
          using a loop_blank [of "[]" hp m sel1] by (simp add: repeat_continue skip_whitespace_def)
      next
        case (2 c p2)
        then have "items_round hp m (sel, p) = Some (Err DSDPIPE_ERROR_INVALID_TRACK_SPEC, (sel1, c # p2))"
          using a ne Ok by (simp add: round)
        then show ?thesis using a by (simp add: repeat_error)
      next
        case (3 p2)
        then have "items_round hp m (sel, p) = Some (Ok None, (sel1, p2))" using a ne Ok by (simp add: round)
        moreover have "length p2 < length p" using i(1) 3 by simp
        moreover have "accepts m p sel sel'" if "accepts m p2 sel1 sel'" for sel'
          using accepts_more [OF i(2-4) that] i(1) 3 by simp
        ultimately show ?thesis
          using less.hyps [of p2 sel1] a(3) by (fastforce simp: repeat_continue)
      qed
    qed (use a in simp)
  qed
qed

section \<open>All tracks\<close>

definition all_text :: "string \<Rightarrow> bool" where
  "all_text s \<longleftrightarrow> (\<exists>b b'. s = b @ ''all'' @ b' \<and> blank b \<and> blank b')"

lemma all_text_iff:
  "all_text s \<longleftrightarrow> (let p = skip_whitespace s in take 3 p = ''all'' \<and> skip_whitespace (drop 3 p) = [])"
proof
  assume "all_text s"
  then obtain b b' where s: "s = b @ ''all'' @ b'" "blank b" "blank b'" by (auto simp: all_text_def)
  have "skip_whitespace (''all'' @ b') = ''all'' @ b'"
    by (rule skip_nonblank) (simp add: c_isspace_def)
  then show "let p = skip_whitespace s in take 3 p = ''all'' \<and> skip_whitespace (drop 3 p) = []"
    using s by (simp add: blank_iff)
next
  assume a: "let p = skip_whitespace s in take 3 p = ''all'' \<and> skip_whitespace (drop 3 p) = []"
  obtain b where b: "blank b" "s = b @ skip_whitespace s" using skip_split by blast
  have "skip_whitespace s = ''all'' @ drop 3 (skip_whitespace s)"
    using a append_take_drop_id [of 3 "skip_whitespace s"] by (simp add: Let_def)
  then have "s = b @ ''all'' @ drop 3 (skip_whitespace s)" using b(2) by simp
  then show "all_text s" using a b(1) unfolding all_text_def by (metis blank_iff)
qed

lemma byte_less_255: "(b :: byte) \<noteq> 255 \<Longrightarrow> unat b < 255"
  using unat_byte_le [of b] by (simp add: word_unat_eq_iff)

text \<open>The counter of 8 bits passes 255 and asks for track 0.\<close>

lemma all_255:
  assumes "selection_ok sel" "t \<noteq> 0"
  shows "\<exists>r sel'. add_while hp (\<lambda>t. t \<le> 255) (\<lambda>t. t + 1) (\<lambda>t. t) t sel = Some (r, sel') \<and> selection_ok sel' \<and>
    (r = Err DSDPIPE_ERROR_INVALID_ARG \<and> selected sel' = fold join [unat t..<256] (selected sel) \<or>
     r = Err DSDPIPE_ERROR_OUT_OF_MEMORY \<and> \<not> ample hp)"
  using assms
proof (induction "255 - unat t" arbitrary: t sel rule: less_induct)
  case less
  have go: "t \<le> 255" for t :: byte by (simp add: word_le_nat_alt unat_byte_le)
  obtain r sel1 where a: "dsdpipe_track_selection_add hp t sel = (r, sel1)" "added hp sel [unat t] r sel1"
    using add_track [OF less.prems] by blast
  show ?case
  proof (cases "r = Ok ()")
    case False
    then show ?thesis using a go by (auto simp: added_def add_while_Err)
  next
    case r: True
    show ?thesis
    proof (cases "t = 255")
      case True
      have "dsdpipe_track_selection_add hp 0 sel1 = (Err DSDPIPE_ERROR_INVALID_ARG, sel1)"
        by (simp add: dsdpipe_track_selection_add_def)
      moreover have z: "t + 1 = 0" using True by simp
      ultimately have "add_while hp (\<lambda>t. t \<le> 255) (\<lambda>t. t + 1) (\<lambda>t. t) (t + 1) sel1 =
          Some (Err DSDPIPE_ERROR_INVALID_ARG, sel1)"
        unfolding z by (intro add_while_Err) simp_all
      then have "add_while hp (\<lambda>t. t \<le> 255) (\<lambda>t. t + 1) (\<lambda>t. t) t sel = Some (Err DSDPIPE_ERROR_INVALID_ARG, sel1)"
        using go a(1) r by (simp only: add_while_Ok)
      then show ?thesis using a r True by (simp add: added_def)
    next
      case False
      then have "unat t < 255" by (rule byte_less_255)
      then have s: "unat (t + 1) = Suc (unat t)" by (simp add: unat_word_ariths)
      then have "t + 1 \<noteq> 0" by auto
      moreover have "[unat t..<256] = unat t # [Suc (unat t)..<256]"
        using \<open>unat t < 255\<close> by (simp add: upt_conv_Cons)
      ultimately show ?thesis
        using less.hyps [of "t + 1" sel1] a r go s \<open>unat t < 255\<close> by (auto simp: added_def add_while_Ok)
    qed
  qed
qed

section \<open>The parser\<close>

lemma count_selected: "selection_ok sel \<Longrightarrow> ts_count sel = length (selected sel)"
  by (auto simp: selection_ok_def selected_def split: ptr.splits)

lemma first_occurrences_distinct: "distinct ns \<Longrightarrow> first_occurrences ns = ns"
  by (simp add: first_occurrences_def distinct_remdups_id)

abbreviation (input) emptied :: "track_selection \<Rightarrow> track_selection" where
  "emptied sel \<equiv> sel\<lparr>ts_count := 0, ts_current_idx := 0\<rparr>"

lemma emptied_ok: "selection_ok sel \<Longrightarrow> selection_ok (emptied sel)" "selection_ok sel \<Longrightarrow> selected (emptied sel) = []"
  using cleared [of sel] by (auto simp: clears_to_def)

lemma parse_all:
  assumes "selection_ok sel" "all_text s"
  shows "\<exists>r sel'. dsdpipe_track_selection_parse hp (Some s) m sel = Some (r, sel') \<and> selection_ok sel' \<and>
    (r = (if m = 255 then Err DSDPIPE_ERROR_INVALID_ARG else Ok ()) \<and> selected sel' = [1..<Suc (unat m)] \<or>
     r = Err DSDPIPE_ERROR_OUT_OF_MEMORY \<and> \<not> ample hp)"
proof -
  have p: "dsdpipe_track_selection_parse hp (Some s) m sel = add_all_tracks hp m (emptied sel)"
    using assms(2)
    by (simp add: dsdpipe_track_selection_parse_def dsdpipe_track_selection_clear_def all_text_iff Let_def)
  note ok = emptied_ok [OF assms(1)]
  show ?thesis
  proof (cases "m = 255")
    case True
    then show ?thesis
      using all_255 [OF ok(1), of 1 hp] unfolding p
      by (auto simp: add_all_tracks_def ok(2) fold_join_Nil first_occurrences_distinct simp del: upt_Suc)
  next
    case False
    then have "m < 255" using byte_less_255 [of m] by (simp add: word_less_nat_alt)
    then have "counts (\<lambda>t. t \<le> m) (\<lambda>t. t + 1) (\<lambda>t. t) 1 [1..<Suc (unat m)]"
      using counts_all [of m 1] by (simp del: upt_Suc)
    from add_while_counts [OF this ok(1), of hp] show ?thesis
      using False unfolding p
      by (auto simp: add_all_tracks_def added_def ok(2) fold_join_Nil first_occurrences_distinct simp del: upt_Suc)
  qed
qed

text \<open>The other texts go through the loop.\<close>

lemma parse_items:
  assumes "\<not> all_text s" "repeat_lop (items_round hp m) (emptied sel, skip_whitespace s) = Some (r, (sel', p))"
  shows "dsdpipe_track_selection_parse hp (Some s) m sel =
    Some (if r = Ok () \<and> ts_count sel' = 0 then Err DSDPIPE_ERROR_INVALID_TRACK_SPEC else r, sel')"
  using assms
  by (auto simp: dsdpipe_track_selection_parse_def dsdpipe_track_selection_clear_def all_text_iff Let_def
      lzoom_def lseq_def split: outcome.splits)

lemma number_text_chars: "number_text n s \<Longrightarrow> \<forall>c \<in> set s. c_isspace c \<or> c_isdigit c"
  by (auto simp: number_text_def blank_def list_all_iff)

lemma item_text_chars: "item_text i s \<Longrightarrow> \<forall>c \<in> set s. c_isspace c \<or> c_isdigit c \<or> c = CHR ''-''"
  by (cases i) (use number_text_chars in fastforce)+

lemma spec_text_chars:
  "spec_text items s \<Longrightarrow> \<forall>c \<in> set s. c_isspace c \<or> c_isdigit c \<or> c = CHR ''-'' \<or> c = CHR '','' "
proof (induction rule: spec_text.induct)
  case (spec_blank s)
  then show ?case by (auto simp: blank_def list_all_iff)
next
  case (spec_item i s)
  then show ?case using item_text_chars by blast
next
  case (spec_more i s is' s')
  then show ?case using item_text_chars [OF spec_more(1)] by auto
qed

lemma all_text_no_spec: "all_text s \<Longrightarrow> \<not> spec_text items s"
proof
  assume "all_text s" "spec_text items s"
  then have "CHR ''a'' \<in> set s" by (auto simp: all_text_def)
  then show False
    using bspec [OF spec_text_chars [OF \<open>spec_text items s\<close>], of "CHR ''a''"] by (simp add: c_isspace_def c_isdigit_def)
qed

lemma loop_skip:
  "repeat_lop (items_round hp m) (sel, skip_whitespace s) = repeat_lop (items_round hp m) (sel, s)"
  by (simp add: repeat_unfold [of _ "(sel, skip_whitespace s)"] repeat_unfold [of _ "(sel, s)"] items_round_def)

section \<open>Properties\<close>

definition parse_accepts :: "string \<Rightarrow> byte \<Rightarrow> nat list \<Rightarrow> bool" where
  "parse_accepts s m ns \<longleftrightarrow> all_text s \<and> m \<noteq> 255 \<and> ns = [1..<Suc (unat m)] \<or>
     (\<exists>items. items \<noteq> [] \<and> spec_text items s \<and> (\<forall>i \<in> set items. in_range m i) \<and>
        ns = first_occurrences (concat (map expand items)))"

lemma expand_nonempty: "expand i \<noteq> []"
  by (cases i) auto

lemma items_nonempty:
  "first_occurrences (concat (map expand items)) = [] \<longleftrightarrow> items = []"
proof -
  have "first_occurrences ns = [] \<longleftrightarrow> ns = []" for ns by (simp add: first_occurrences_def)
  then show ?thesis by (cases items) (auto simp: expand_nonempty)
qed

lemma parse_sound:
  assumes "selection_ok sel" "dsdpipe_track_selection_parse hp (Some s) m sel = Some (Ok (), sel')"
  shows "parse_accepts s m (selected sel')"
proof (cases "all_text s")
  case True
  then show ?thesis
    using parse_all [OF assms(1) True, of hp m] assms(2) by (auto simp: parse_accepts_def split: if_splits)
next
  case False
  obtain r sel1 p where l: "repeat_lop (items_round hp m) (emptied sel, s) = Some (r, (sel1, p))"
    "selection_ok sel1" "r = Ok () \<longrightarrow> accepts m s (emptied sel) sel1"
    using loop_parsed [OF emptied_ok(1) [OF assms(1)]] by blast
  have "sel' = sel1" "r = Ok ()" "selected sel1 \<noteq> []"
    using parse_items [of s hp m sel r sel1 p] False l assms(2) by (auto simp: loop_skip count_selected split: if_splits)
  then show ?thesis
    using l emptied_ok(2) [OF assms(1)]
    by (auto simp: parse_accepts_def accepts_def fold_join_Nil items_nonempty)
qed

lemma parse_complete:
  assumes "selection_ok sel" "ample hp" "parse_accepts s m ns"
  shows "\<exists>sel'. dsdpipe_track_selection_parse hp (Some s) m sel = Some (Ok (), sel') \<and> selected sel' = ns"
proof (cases "all_text s")
  case True
  then show ?thesis
    using parse_all [OF assms(1) True, of hp m] assms(2,3) all_text_no_spec [OF True]
    by (auto simp: parse_accepts_def)
next
  case False
  then obtain items where i: "items \<noteq> []" "spec_text items s" "\<forall>i \<in> set items. in_range m i"
    "ns = first_occurrences (concat (map expand items))"
    using assms(3) by (auto simp: parse_accepts_def)
  obtain sel' where l: "repeat_lop (items_round hp m) (emptied sel, s) = Some (Ok (), (sel', []))" "selection_ok sel'"
    "selected sel' = ns"
    using loop_accepted [OF i(2,3) emptied_ok(1) [OF assms(1)] assms(2)] i(4) emptied_ok(2) [OF assms(1)]
    by (auto simp: fold_join_Nil)
  moreover have "ts_count sel' \<noteq> 0" using l i by (simp add: count_selected items_nonempty)
  ultimately show ?thesis
    using parse_items [of s hp m sel "Ok ()" sel' "[]"] False by (simp add: loop_skip)
qed

end
