(* ===== verification/Pipe_Queue.thy ===== *)
theory Pipe_Queue
  imports Sa_Util C_Pointers
begin

text \<open>
  \<^verbatim>\<open>libdsdpipe/src/frame_queue.c\<close>: the bounded queue between the reader thread and the thread
  that processes a track. An operation is the part of the C function that runs under the mutex, from
  locking it, or from waking up in \<^verbatim>\<open>cnd_wait\<close>, to the point where the mutex is given up: the
  caller goes to sleep on a condition variable (\<open>Blocked\<close>), or it leaves with a result and the
  condition variables it has signalled (\<open>Left\<close>). A caller that wakes up runs the same part
  again, since the wait stands in a loop. The operations are given a queue that exists; the NULL test of
  the pointer to it is modelled where the function has a result of its own for it.
\<close>

datatype condvar = NotFull | NotEmpty | TrackStart | TrackDone

datatype wakeup = Signal condvar | Broadcast condvar

datatype 'a critical = Blocked condvar | Left 'a "wakeup list"

text \<open>The functions return -1.\<close>

datatype queue_error = QUEUE_ERROR

section \<open>The queue\<close>

record 'f frame_queue =
  fq_frames :: "'f option list"
  fq_capacity :: nat
  fq_head :: nat
  fq_tail :: nat
  fq_count :: nat
  fq_is_last :: "bool list"
  fq_eof :: bool
  fq_cancelled :: bool

type_synonym ('f, 'a) fq_op = "('f frame_queue, queue_error, 'a) op"

text \<open>
  What the platform does is a parameter: the sizes of the structure and of a pointer, and whether the
  mutex and the condition variables can be initialised.
\<close>

record platform =
  sizeof_queue :: nat
  sizeof_pointer :: nat
  mtx_init_ok :: bool
  not_full_init_ok :: bool
  not_empty_init_ok :: bool

definition dsdpipe_frame_queue_create :: "heap \<Rightarrow> platform \<Rightarrow> nat \<Rightarrow> 'f frame_queue option" where
  "dsdpipe_frame_queue_create hp pf capacity =
     (if capacity = 0 then None
      else if \<not> sa_calloc hp 1 (sizeof_queue pf) then None
      else if \<not> sa_calloc hp capacity (sizeof_pointer pf) then None
      else if \<not> sa_calloc hp capacity 1 then None
      else if \<not> mtx_init_ok pf then None
      else if \<not> not_full_init_ok pf then None
      else if \<not> not_empty_init_ok pf then None
      else Some \<lparr>fq_frames = replicate capacity None, fq_capacity = capacity, fq_head = 0, fq_tail = 0,
                 fq_count = 0, fq_is_last = replicate capacity False, fq_eof = False, fq_cancelled = False\<rparr>)"

section \<open>Adding a frame\<close>

definition put_frame :: "'f \<Rightarrow> bool \<Rightarrow> ('f, unit) fq_op" where
  "put_frame frame is_last = (\<lambda>q.
     if fq_head q < length (fq_frames q) \<and> fq_head q < length (fq_is_last q) \<and> fq_capacity q \<noteq> 0 then
       (Ok (), q\<lparr>fq_frames := (fq_frames q)[fq_head q := Some frame],
                 fq_is_last := (fq_is_last q)[fq_head q := is_last],
                 fq_head := (fq_head q + 1) mod fq_capacity q,
                 fq_count := fq_count q + 1\<rparr>)
     else (Fault, q))"

definition dsdpipe_frame_queue_push :: "'f option \<Rightarrow> bool \<Rightarrow> ('f, unit critical) fq_op" where
  "dsdpipe_frame_queue_push frame is_last = (case frame of
       None \<Rightarrow> fail QUEUE_ERROR
     | Some f \<Rightarrow> seq get (\<lambda>q.
         if fq_count q \<ge> fq_capacity q \<and> \<not> fq_cancelled q then ret (Blocked NotFull)
         else if fq_cancelled q then fail QUEUE_ERROR
         else seq (put_frame f is_last) (\<lambda>_. ret (Left () [Signal NotEmpty]))))"

section \<open>Taking a batch\<close>

definition take_frame :: "('f, 'f option \<times> bool) fq_op" where
  "take_frame = (\<lambda>q.
     if fq_tail q < length (fq_frames q) \<and> fq_tail q < length (fq_is_last q) \<and> fq_capacity q \<noteq> 0 then
       (Ok (fq_frames q ! fq_tail q, fq_is_last q ! fq_tail q),
        q\<lparr>fq_frames := (fq_frames q)[fq_tail q := None],
          fq_is_last := (fq_is_last q)[fq_tail q := False],
          fq_tail := (fq_tail q + 1) mod fq_capacity q,
          fq_count := fq_count q - 1\<rparr>)
     else (Fault, q))"

text \<open>\<^verbatim>\<open>while (popped < max_count && queue->count > 0)\<close>, with \<open>n\<close> frames still wanted.\<close>

fun pop_frames :: "nat \<Rightarrow> ('f, 'f option list \<times> bool) fq_op" where
  "pop_frames 0 = ret ([], False)"
| "pop_frames (Suc n) = seq get (\<lambda>q. if fq_count q = 0 then ret ([], False)
     else seq take_frame (\<lambda>(f, is_last).
       if is_last then ret ([f], True)
       else seq (pop_frames n) (\<lambda>(fs, got_last). ret (f # fs, got_last))))"

definition dsdpipe_frame_queue_pop_batch :: "nat \<Rightarrow> ('f, ('f option list \<times> bool) critical) fq_op" where
  "dsdpipe_frame_queue_pop_batch max_count =
     seq (ensure (max_count \<noteq> 0) QUEUE_ERROR) (\<lambda>_.
     seq get (\<lambda>q.
       if fq_count q = 0 \<and> \<not> fq_cancelled q \<and> \<not> fq_eof q then ret (Blocked NotEmpty)
       else if fq_cancelled q then fail QUEUE_ERROR
       else seq (pop_frames max_count) (\<lambda>(fs, got_last).
         ret (Left (fs, got_last) (if fs \<noteq> [] then [Signal NotFull] else [])))))"

section \<open>State\<close>

definition dsdpipe_frame_queue_signal_eof :: "('f, unit critical) fq_op" where
  "dsdpipe_frame_queue_signal_eof =
     seq (modify (\<lambda>q. q\<lparr>fq_eof := True\<rparr>)) (\<lambda>_. ret (Left () [Broadcast NotEmpty]))"

definition dsdpipe_frame_queue_cancel :: "('f, unit critical) fq_op" where
  "dsdpipe_frame_queue_cancel =
     seq (modify (\<lambda>q. q\<lparr>fq_cancelled := True\<rparr>)) (\<lambda>_. ret (Left () [Broadcast NotFull, Broadcast NotEmpty]))"

definition dsdpipe_frame_queue_is_eof :: "'f frame_queue option \<Rightarrow> bool" where
  "dsdpipe_frame_queue_is_eof queue = (case queue of None \<Rightarrow> True | Some q \<Rightarrow> fq_eof q)"

definition dsdpipe_frame_queue_is_cancelled :: "'f frame_queue option \<Rightarrow> bool" where
  "dsdpipe_frame_queue_is_cancelled queue = (case queue of None \<Rightarrow> True | Some q \<Rightarrow> fq_cancelled q)"

definition dsdpipe_frame_queue_size :: "'f frame_queue option \<Rightarrow> nat" where
  "dsdpipe_frame_queue_size queue = (case queue of None \<Rightarrow> 0 | Some q \<Rightarrow> fq_count q)"

text \<open>\<^verbatim>\<open>while (queue->count > 0)\<close>: the frames whose reference is given up.\<close>

fun drain_frames :: "nat \<Rightarrow> ('f, 'f list) fq_op" where
  "drain_frames 0 = ret []"
| "drain_frames (Suc n) = seq take_frame (\<lambda>(f, _). seq (drain_frames n) (\<lambda>fs.
     ret (case f of None \<Rightarrow> fs | Some x \<Rightarrow> x # fs)))"

definition dsdpipe_frame_queue_reset :: "('f, 'f list) fq_op" where
  "dsdpipe_frame_queue_reset =
     seq get (\<lambda>q.
     seq (drain_frames (fq_count q)) (\<lambda>fs.
     seq (modify (\<lambda>q. q\<lparr>fq_head := 0, fq_tail := 0, fq_eof := False, fq_cancelled := False\<rparr>)) (\<lambda>_.
     ret fs)))"

text \<open>Draining here does not clear the slots, which are freed right after.\<close>

definition skip_frame :: "('f, 'f option) fq_op" where
  "skip_frame = (\<lambda>q.
     if fq_tail q < length (fq_frames q) \<and> fq_capacity q \<noteq> 0 then
       (Ok (fq_frames q ! fq_tail q),
        q\<lparr>fq_tail := (fq_tail q + 1) mod fq_capacity q, fq_count := fq_count q - 1\<rparr>)
     else (Fault, q))"

fun skip_frames :: "nat \<Rightarrow> ('f, 'f list) fq_op" where
  "skip_frames 0 = ret []"
| "skip_frames (Suc n) = seq skip_frame (\<lambda>f. seq (skip_frames n) (\<lambda>fs.
     ret (case f of None \<Rightarrow> fs | Some x \<Rightarrow> x # fs)))"

definition dsdpipe_frame_queue_destroy :: "('f frame_queue ptr, queue_error, 'f list) op" where
  "dsdpipe_frame_queue_destroy = (\<lambda>p. case p of
       Null \<Rightarrow> (Ok [], Null)
     | Dangling \<Rightarrow> (Fault, Dangling)
     | Ptr q \<Rightarrow> (case skip_frames (fq_count q) q of
           (Ok fs, _) \<Rightarrow> (Ok fs, Dangling)
         | (Err e, q') \<Rightarrow> (Err e, Ptr q')
         | (Fault, q') \<Rightarrow> (Fault, Ptr q')))"

end
