(* ===== verification/Pipe_Ring.thy ===== *)
theory Pipe_Ring
  imports Pipe_Queue
begin

text \<open>
  The circular buffer of \<^verbatim>\<open>frame_queue.c\<close> as a bounded first-in-first-out channel: its contents, its
  invariant, and the laws of the channel, stated as a locale and discharged for the code's queue.
\<close>

section \<open>Contents and invariant\<close>

definition slot :: "'f frame_queue \<Rightarrow> nat \<Rightarrow> nat" where
  "slot q i = (fq_tail q + i) mod fq_capacity q"

definition queue_contents :: "'f frame_queue \<Rightarrow> ('f \<times> bool) list" where
  "queue_contents q = map (\<lambda>i. (the (fq_frames q ! slot q i), fq_is_last q ! slot q i)) [0..<fq_count q]"

definition queue_ok :: "'f frame_queue \<Rightarrow> bool" where
  "queue_ok q \<longleftrightarrow> 0 < fq_capacity q \<and> length (fq_frames q) = fq_capacity q \<and> length (fq_is_last q) = fq_capacity q \<and>
     fq_tail q < fq_capacity q \<and> fq_count q \<le> fq_capacity q \<and> fq_head q = slot q (fq_count q) \<and>
     (\<forall>i < fq_count q. fq_frames q ! slot q i \<noteq> None)"

text \<open>Only the contents differ.\<close>

definition same_flags :: "'f frame_queue \<Rightarrow> 'f frame_queue \<Rightarrow> bool" where
  "same_flags q q' \<longleftrightarrow> fq_capacity q' = fq_capacity q \<and> fq_eof q' = fq_eof q \<and> fq_cancelled q' = fq_cancelled q"

lemma same_flags_refl [simp]: "same_flags q q"
  by (simp add: same_flags_def)

lemma same_flags_trans: "\<lbrakk>same_flags q q'; same_flags q' q''\<rbrakk> \<Longrightarrow> same_flags q q''"
  by (simp add: same_flags_def)

lemma length_contents [simp]: "length (queue_contents q) = fq_count q"
  by (simp add: queue_contents_def)

lemma contents_Nil: "fq_count q = 0 \<longleftrightarrow> queue_contents q = []"
  by (metis length_contents length_0_conv)

lemma slot_inj: "\<lbrakk>i < fq_capacity q; j < fq_capacity q; slot q i = slot q j\<rbrakk> \<Longrightarrow> i = j"
proof (induction i j rule: linorder_wlog)
  case (le i j)
  then have "(fq_tail q + j) mod fq_capacity q = (fq_tail q + i) mod fq_capacity q" by (simp add: slot_def)
  then have "fq_capacity q dvd (fq_tail q + j) - (fq_tail q + i)"
    using le.hyps by (simp add: mod_eq_dvd_iff_nat)
  then show ?case using le by (auto dest: dvd_imp_le)
qed simp

lemma create_queue_ok:
  "dsdpipe_frame_queue_create hp pf n = Some q \<Longrightarrow>
     queue_ok q \<and> queue_contents q = [] \<and> fq_capacity q = n \<and> \<not> fq_eof q \<and> \<not> fq_cancelled q"
  by (auto simp: dsdpipe_frame_queue_create_def queue_ok_def slot_def contents_Nil [symmetric] split: if_splits)

section \<open>The laws of the code's queue\<close>

lemma put_frame_law:
  assumes "queue_ok q" "fq_count q < fq_capacity q"
  shows "\<exists>q'. put_frame f l q = (Ok (), q') \<and> queue_ok q' \<and> queue_contents q' = queue_contents q @ [(f, l)] \<and>
    same_flags q q'"
proof -
  let ?h = "slot q (fq_count q)"
  let ?q = "q\<lparr>fq_frames := (fq_frames q)[?h := Some f], fq_is_last := (fq_is_last q)[?h := l],
      fq_head := Suc ?h mod fq_capacity q, fq_count := Suc (fq_count q)\<rparr>"
  have h: "?h < fq_capacity q" using assms by (simp add: queue_ok_def slot_def)
  have ne: "?h \<noteq> slot q i" if "i < fq_count q" for i
    using slot_inj [of i q "fq_count q"] that assms by auto
  have sl: "slot ?q i = slot q i" for i by (simp add: slot_def)
  have "queue_contents ?q = queue_contents q @ [(f, l)]"
    using assms h ne by (simp add: queue_contents_def sl queue_ok_def)
  moreover have "queue_ok ?q"
    using assms h ne by (auto simp: queue_ok_def slot_def less_Suc_eq mod_simps)
  ultimately show ?thesis
    using assms h by (auto simp: put_frame_def queue_ok_def same_flags_def)
qed

lemma take_frame_law:
  assumes "queue_ok q" "queue_contents q = (f, l) # rest"
  shows "\<exists>q'. take_frame q = (Ok (Some f, l), q') \<and> queue_ok q' \<and> queue_contents q' = rest \<and> same_flags q q'"
proof -
  obtain n where n: "fq_count q = Suc n" using assms(2) by (cases "fq_count q") (auto simp: contents_Nil)
  let ?t = "fq_tail q"
  let ?q = "q\<lparr>fq_frames := (fq_frames q)[?t := None], fq_is_last := (fq_is_last q)[?t := False],
      fq_tail := Suc ?t mod fq_capacity q, fq_count := n\<rparr>"
  have t: "?t < fq_capacity q" "slot q 0 = ?t" using assms by (simp_all add: queue_ok_def slot_def)
  have ne: "?t \<noteq> slot q (Suc i)" if "i < n" for i
    using slot_inj [of 0 q "Suc i"] that assms n t by (auto simp: queue_ok_def)
  have sl: "slot ?q i = slot q (Suc i)" for i by (simp add: slot_def mod_simps)
  have c: "queue_contents q = (the (fq_frames q ! ?t), fq_is_last q ! ?t) #
      map (\<lambda>i. (the (fq_frames q ! slot q (Suc i)), fq_is_last q ! slot q (Suc i))) [0..<n]"
    by (simp add: queue_contents_def n t(2) upt_conv_Cons map_Suc_upt [symmetric] comp_def del: upt_Suc)
  have "queue_contents ?q = map (\<lambda>i. (the (fq_frames q ! slot q (Suc i)), fq_is_last q ! slot q (Suc i))) [0..<n]"
    using ne by (simp add: queue_contents_def sl)
  then have "queue_contents ?q = rest" using c assms by simp
  moreover have "queue_ok ?q"
    using assms n t ne by (auto simp: queue_ok_def sl)
  moreover have "fq_frames q ! ?t = Some f" "fq_is_last q ! ?t = l"
    using c assms n t by (auto simp: queue_ok_def)
  moreover have "take_frame q = (Ok (fq_frames q ! ?t, fq_is_last q ! ?t), ?q)"
    using assms(1) n t by (simp add: take_frame_def queue_ok_def)
  moreover have "same_flags q ?q" by (simp add: same_flags_def)
  ultimately show ?thesis by auto
qed

text \<open>The batch a caller gets: up to and with the first last frame, and no more than \<open>n\<close>.\<close>

fun batch_of :: "nat \<Rightarrow> ('f \<times> bool) list \<Rightarrow> ('f \<times> bool) list" where
  "batch_of 0 xs = []"
| "batch_of (Suc n) [] = []"
| "batch_of (Suc n) ((f, l) # xs) = (f, l) # (if l then [] else batch_of n xs)"

lemma batch_of_append: "\<exists>rest. xs = batch_of n xs @ rest"
  by (induction n xs rule: batch_of.induct) auto

lemma batch_of_Nil: "batch_of n xs = [] \<longleftrightarrow> n = 0 \<or> xs = []"
  by (cases "(n, xs)" rule: batch_of.cases) auto

lemma batch_of_last: "\<lbrakk>batch_of n xs = ys @ (f, True) # zs\<rbrakk> \<Longrightarrow> zs = []"
proof (induction n xs arbitrary: ys rule: batch_of.induct)
  case (3 n g l xs)
  then show ?case by (cases ys) (auto split: if_splits)
qed auto

lemma pop_frames_law:
  "queue_ok q \<Longrightarrow> \<exists>q'. pop_frames n q = (Ok (map (Some \<circ> fst) (batch_of n (queue_contents q)), \<exists>f. (f, True) \<in> set (batch_of n (queue_contents q))), q') \<and>
     queue_ok q' \<and> queue_contents q = batch_of n (queue_contents q) @ queue_contents q' \<and> same_flags q q'"
proof (induction n arbitrary: q)
  case 0
  then show ?case by simp
next
  case (Suc n)
  show ?case
  proof (cases "queue_contents q")
    case Nil
    then show ?thesis using Suc.prems by (simp add: contents_Nil)
  next
    case (Cons x rest)
    obtain f l where x: "x = (f, l)" by (cases x)
    obtain q1 where q1: "take_frame q = (Ok (Some f, l), q1)" "queue_ok q1" "queue_contents q1 = rest" "same_flags q q1"
      using take_frame_law [OF Suc.prems] Cons x by blast
    have c: "fq_count q \<noteq> 0" using Cons by (simp add: contents_Nil)
    show ?thesis
    proof (cases l)
      case True
      then show ?thesis using q1 c Cons x by simp
    next
      case False
      obtain q2 where "pop_frames n q1 = (Ok (map (Some \<circ> fst) (batch_of n rest), \<exists>f. (f, True) \<in> set (batch_of n rest)), q2)"
        "queue_ok q2" "rest = batch_of n rest @ queue_contents q2" "same_flags q1 q2"
        using Suc.IH [OF q1(2)] q1(3) by metis
      then show ?thesis using q1 c Cons x False by (auto intro: same_flags_trans)
    qed
  qed
qed

lemma drain_frames_law:
  "queue_ok q \<Longrightarrow> \<exists>q'. drain_frames (fq_count q) q = (Ok (map fst (queue_contents q)), q') \<and> queue_ok q' \<and>
     queue_contents q' = [] \<and> same_flags q q'"
proof (induction "fq_count q" arbitrary: q)
  case 0
  then have "queue_contents q = []" by (simp add: contents_Nil)
  then show ?case using 0 by simp
next
  case (Suc n)
  then obtain f l rest where x: "queue_contents q = (f, l) # rest"
    by (metis Suc_neq_Zero contents_Nil list.exhaust surj_pair)
  obtain q1 where q1: "take_frame q = (Ok (Some f, l), q1)" "queue_ok q1" "queue_contents q1 = rest" "same_flags q q1"
    using take_frame_law [OF Suc.prems] x by blast
  have "Suc (length rest) = fq_count q" using x length_contents [of q] by simp
  then have "n = fq_count q1" using q1(3) Suc.hyps(2) by auto
  then show ?case
    using Suc.hyps(1) [OF _ q1(2)] q1 x Suc.hyps(2) [symmetric] by (auto intro: same_flags_trans)
qed

lemma reset_law:
  assumes "queue_ok q"
  shows "\<exists>q'. dsdpipe_frame_queue_reset q = (Ok (map fst (queue_contents q)), q') \<and> queue_ok q' \<and>
    queue_contents q' = [] \<and> fq_capacity q' = fq_capacity q \<and> \<not> fq_eof q' \<and> \<not> fq_cancelled q'"
proof -
  obtain q1 where q1: "drain_frames (fq_count q) q = (Ok (map fst (queue_contents q)), q1)" "queue_ok q1"
    "queue_contents q1 = []" "same_flags q q1"
    using drain_frames_law [OF assms] by blast
  let ?q = "q1\<lparr>fq_head := 0, fq_tail := 0, fq_eof := False, fq_cancelled := False\<rparr>"
  have z: "fq_count q1 = 0" using q1(3) by (simp add: contents_Nil)
  have "queue_ok ?q" "queue_contents ?q = []" using q1(2) z by (auto simp: queue_ok_def slot_def contents_Nil [symmetric])
  then show ?thesis using q1 by (simp add: dsdpipe_frame_queue_reset_def same_flags_def)
qed

lemma skip_frame_law:
  assumes "queue_ok q" "queue_contents q = (f, l) # rest"
  shows "\<exists>q'. skip_frame q = (Ok (Some f), q') \<and> queue_ok q' \<and> queue_contents q' = rest"
proof -
  obtain n where n: "fq_count q = Suc n" using assms(2) by (cases "fq_count q") (auto simp: contents_Nil)
  let ?t = "fq_tail q"
  let ?q = "q\<lparr>fq_tail := Suc ?t mod fq_capacity q, fq_count := n\<rparr>"
  have t: "?t < fq_capacity q" "slot q 0 = ?t" using assms by (simp_all add: queue_ok_def slot_def)
  have sl: "slot ?q i = slot q (Suc i)" for i by (simp add: slot_def mod_simps)
  have c: "queue_contents q = (the (fq_frames q ! ?t), fq_is_last q ! ?t) # queue_contents ?q"
    by (simp add: queue_contents_def n t(2) sl upt_conv_Cons map_Suc_upt [symmetric] comp_def del: upt_Suc)
  then have "fq_frames q ! ?t = Some f" using assms n t by (auto simp: queue_ok_def)
  moreover have "queue_ok ?q" using assms n t by (auto simp: queue_ok_def sl)
  moreover have "skip_frame q = (Ok (fq_frames q ! ?t), ?q)"
    using assms(1) n t by (simp add: skip_frame_def queue_ok_def)
  ultimately show ?thesis using c assms(2) by auto
qed

lemma skip_frames_law:
  "queue_ok q \<Longrightarrow> \<exists>q'. skip_frames (fq_count q) q = (Ok (map fst (queue_contents q)), q')"
proof (induction "fq_count q" arbitrary: q)
  case 0
  then have "queue_contents q = []" by (simp add: contents_Nil)
  then show ?case using 0 by simp
next
  case (Suc n)
  then obtain f l rest where x: "queue_contents q = (f, l) # rest"
    by (metis Suc_neq_Zero contents_Nil list.exhaust surj_pair)
  obtain q1 where q1: "skip_frame q = (Ok (Some f), q1)" "queue_ok q1" "queue_contents q1 = rest"
    using skip_frame_law [OF Suc.prems] x by blast
  have "Suc (length rest) = fq_count q" using x length_contents [of q] by simp
  then have "n = fq_count q1" using q1(3) Suc.hyps(2) by auto
  then show ?case using Suc.hyps(1) [OF _ q1(2)] q1 x Suc.hyps(2) [symmetric] by auto
qed

lemma destroy_law:
  "queue_ok q \<Longrightarrow> dsdpipe_frame_queue_destroy (Ptr q) = (Ok (map fst (queue_contents q)), Dangling)"
  using skip_frames_law [of q] by (auto simp: dsdpipe_frame_queue_destroy_def)

section \<open>The interface\<close>

text \<open>Calls in any order; one that would block gives up. The frames that went in and that came out.\<close>

datatype 'f channel_call = Push 'f bool | Pop nat

fun serve :: "('f \<Rightarrow> bool \<Rightarrow> 'q \<Rightarrow> (queue_error, unit critical) outcome \<times> 'q) \<Rightarrow>
    (nat \<Rightarrow> 'q \<Rightarrow> (queue_error, ('f option list \<times> bool) critical) outcome \<times> 'q) \<Rightarrow>
    'f channel_call list \<Rightarrow> 'q \<Rightarrow> 'f list \<times> 'f option list \<times> 'q" where
  "serve push pop [] q = ([], [], q)"
| "serve push pop (Push f l # cs) q = (case push f l q of
       (Ok (Left _ _), q') \<Rightarrow> (case serve push pop cs q' of (fs, gs, q'') \<Rightarrow> (f # fs, gs, q''))
     | (_, q') \<Rightarrow> serve push pop cs q')"
| "serve push pop (Pop n # cs) q = (case pop n q of
       (Ok (Left (bs, _) _), q') \<Rightarrow> (case serve push pop cs q' of (fs, gs, q'') \<Rightarrow> (fs, bs @ gs, q''))
     | (_, q') \<Rightarrow> serve push pop cs q')"

locale bounded_channel =
  fixes good :: "'q \<Rightarrow> bool"
    and contents :: "'q \<Rightarrow> ('f \<times> bool) list"
    and capacity :: "'q \<Rightarrow> nat"
    and cancelled :: "'q \<Rightarrow> bool"
    and ended :: "'q \<Rightarrow> bool"
    and push :: "'f \<Rightarrow> bool \<Rightarrow> 'q \<Rightarrow> (queue_error, unit critical) outcome \<times> 'q"
    and pop :: "nat \<Rightarrow> 'q \<Rightarrow> (queue_error, ('f option list \<times> bool) critical) outcome \<times> 'q"
  assumes room_left: "good q \<Longrightarrow> length (contents q) \<le> capacity q"
    and push_cancelled: "\<lbrakk>good q; cancelled q\<rbrakk> \<Longrightarrow> push f l q = (Err QUEUE_ERROR, q)"
    and push_full: "\<lbrakk>good q; \<not> cancelled q; length (contents q) = capacity q\<rbrakk> \<Longrightarrow> push f l q = (Ok (Blocked NotFull), q)"
    and push_room: "\<lbrakk>good q; \<not> cancelled q; length (contents q) < capacity q\<rbrakk> \<Longrightarrow>
      \<exists>q'. push f l q = (Ok (Left () [Signal NotEmpty]), q') \<and> good q' \<and> contents q' = contents q @ [(f, l)] \<and>
        capacity q' = capacity q \<and> ended q' = ended q \<and> cancelled q' = cancelled q"
    and pop_none: "pop 0 q = (Err QUEUE_ERROR, q)"
    and pop_cancelled: "\<lbrakk>good q; cancelled q; n \<noteq> 0\<rbrakk> \<Longrightarrow> pop n q = (Err QUEUE_ERROR, q)"
    and pop_empty: "\<lbrakk>good q; \<not> cancelled q; contents q = []; n \<noteq> 0\<rbrakk> \<Longrightarrow>
      pop n q = (Ok (if ended q then Left ([], False) [] else Blocked NotEmpty), q)"
    and pop_some: "\<lbrakk>good q; \<not> cancelled q; contents q \<noteq> []; n \<noteq> 0; b = batch_of n (contents q)\<rbrakk> \<Longrightarrow>
      \<exists>q'. pop n q = (Ok (Left (map (Some \<circ> fst) b, \<exists>f. (f, True) \<in> set b) [Signal NotFull]), q') \<and> good q' \<and>
        contents q = b @ contents q' \<and> capacity q' = capacity q \<and> ended q' = ended q \<and> cancelled q' = cancelled q"
begin

lemma push_cases:
  assumes "good q"
  obtains "cancelled q" "push f l q = (Err QUEUE_ERROR, q)"
  | "\<not> cancelled q" "length (contents q) = capacity q" "push f l q = (Ok (Blocked NotFull), q)"
  | q' where "\<not> cancelled q" "push f l q = (Ok (Left () [Signal NotEmpty]), q')" "good q'"
      "contents q' = contents q @ [(f, l)]" "capacity q' = capacity q" "ended q' = ended q" "cancelled q' = cancelled q"
  using push_cancelled [OF assms] push_full [OF assms] push_room [OF assms] room_left [OF assms]
  by (metis le_neq_implies_less)

lemma pop_cases:
  assumes "good q" "n \<noteq> 0"
  obtains "cancelled q" "pop n q = (Err QUEUE_ERROR, q)"
  | "\<not> cancelled q" "contents q = []" "\<not> ended q" "pop n q = (Ok (Blocked NotEmpty), q)"
  | "\<not> cancelled q" "contents q = []" "ended q" "pop n q = (Ok (Left ([], False) []), q)"
  | b q' where "\<not> cancelled q" "b = batch_of n (contents q)" "b \<noteq> []"
      "pop n q = (Ok (Left (map (Some \<circ> fst) b, \<exists>f. (f, True) \<in> set b) [Signal NotFull]), q')" "good q'"
      "contents q = b @ contents q'" "capacity q' = capacity q" "ended q' = ended q" "cancelled q' = cancelled q"
proof (cases "cancelled q")
  case True
  then show ?thesis using pop_cancelled [OF assms(1) _ assms(2)] that(1) by blast
next
  case nc: False
  show ?thesis
  proof (cases "contents q = []")
    case True
    then show ?thesis using pop_empty [OF assms(1) nc True assms(2)] that(2,3) nc by (cases "ended q") simp_all
  next
    case False
    then have "batch_of n (contents q) \<noteq> []" using assms(2) by (simp add: batch_of_Nil)
    then show ?thesis using pop_some [OF assms(1) nc False assms(2) refl] that(4) nc by metis
  qed
qed

lemma served_in_order:
  "\<lbrakk>good q; serve push pop cs q = (fs, gs, q')\<rbrakk> \<Longrightarrow>
     good q' \<and> map Some (map fst (contents q) @ fs) = gs @ map Some (map fst (contents q'))"
proof (induction cs arbitrary: q fs gs)
  case (Cons c cs)
  show ?case
  proof (cases c)
    case (Push f l)
    show ?thesis
    proof (rule push_cases [OF Cons.prems(1), of f l])
      fix q1 assume q1: "push f l q = (Ok (Left () [Signal NotEmpty]), q1)" "good q1"
        "contents q1 = contents q @ [(f, l)]"
      then obtain fs' where "serve push pop cs q1 = (fs', gs, q')" "fs = f # fs'"
        using Cons.prems(2) Push by (auto split: prod.splits)
      then show ?thesis using Cons.IH [OF q1(2)] q1 by simp
    qed (use Cons Push in auto)
  next
    case (Pop n)
    show ?thesis
    proof (cases "n = 0")
      case True
      then show ?thesis using Cons Pop by (simp add: pop_none)
    next
      case False
      show ?thesis
      proof (rule pop_cases [OF Cons.prems(1) False])
        fix b q1 assume q1: "pop n q = (Ok (Left (map (Some \<circ> fst) b, \<exists>f. (f, True) \<in> set b) [Signal NotFull]), q1)"
          "good q1" "contents q = b @ contents q1"
        then obtain gs' where "serve push pop cs q1 = (fs, gs', q')" "gs = map (Some \<circ> fst) b @ gs'"
          using Cons.prems(2) Pop by (auto split: prod.splits)
        then show ?thesis using Cons.IH [OF q1(2)] q1 by simp
      next
        assume p: "contents q = []" "pop n q = (Ok (Left ([], False) []), q)"
        then obtain gs' where "serve push pop cs q = (fs, gs', q')" "gs = gs'"
          using Cons.prems(2) Pop by (auto split: prod.splits)
        then show ?thesis using Cons.IH [OF Cons.prems(1)] by simp
      qed (use Cons.IH [OF Cons.prems(1)] Cons.prems Pop in auto)
    qed
  qed
qed simp

end

lemma push_law:
  assumes "queue_ok q" "\<not> fq_cancelled q" "fq_count q < fq_capacity q"
  shows "\<exists>q'. dsdpipe_frame_queue_push (Some f) l q = (Ok (Left () [Signal NotEmpty]), q') \<and> queue_ok q' \<and>
    queue_contents q' = queue_contents q @ [(f, l)] \<and> same_flags q q'"
  using put_frame_law [OF assms(1,3), of f l] assms by (auto simp: dsdpipe_frame_queue_push_def)

lemma pop_law:
  assumes "queue_ok q" "\<not> fq_cancelled q" "queue_contents q \<noteq> []" "n \<noteq> 0" "b = batch_of n (queue_contents q)"
  shows "\<exists>q'. dsdpipe_frame_queue_pop_batch n q = (Ok (Left (map (Some \<circ> fst) b, \<exists>f. (f, True) \<in> set b) [Signal NotFull]), q') \<and>
    queue_ok q' \<and> queue_contents q = b @ queue_contents q' \<and> same_flags q q'"
proof -
  have "b \<noteq> []" using assms by (simp add: batch_of_Nil)
  then show ?thesis
    using pop_frames_law [OF assms(1), of n] assms by (auto simp: dsdpipe_frame_queue_pop_batch_def contents_Nil)
qed

interpretation fq: bounded_channel queue_ok queue_contents fq_capacity fq_cancelled fq_eof
  "\<lambda>f. dsdpipe_frame_queue_push (Some f)" dsdpipe_frame_queue_pop_batch
proof (unfold_locales, goal_cases)
  case (4 q f l)
  then show ?case using push_law [of q f l] by (auto simp: same_flags_def)
next
  case (7 q n)
  then show ?case by (cases n) (auto simp: dsdpipe_frame_queue_pop_batch_def contents_Nil)
next
  case (8 q n b)
  then show ?case using pop_law [of q n b] by (simp add: same_flags_def)
qed (auto simp: queue_ok_def dsdpipe_frame_queue_push_def dsdpipe_frame_queue_pop_batch_def contents_Nil)

end
