(* ===== verification/Pipe_Reader.thy ===== *)
theory Pipe_Reader
  imports Pipe_Queue
begin

text \<open>
  \<^verbatim>\<open>libdsdpipe/src/reader_thread.c\<close> and \<^verbatim>\<open>dsdpipe_process_track\<close> of \<^verbatim>\<open>dsdpipe.c\<close>: the reader
  thread fetches the frames of a track into the queue while the main thread takes them out in batches
  and writes them to the sinks. Each thread is a program counter; a step is the code between two points
  where the other thread can be scheduled: a part that runs under a mutex, a read or write of a shared
  flag outside a mutex, or a call into the source or the sinks. The tests of \<^verbatim>\<open>cancelled\<close> and \<^verbatim>\<open>shutdown\<close> outside the
  mutex race with their writes, which C leaves undefined (\<open>Pipe_Races\<close>); the model takes them to be indivisible. The buffers are numbered in the order in
  which the reader allocates them, so that buffer \<open>n\<close> holds what the \<open>n\<close>-th call of the source's
  \<^verbatim>\<open>read_frame\<close> delivers. The source, the decoder, the sinks and the progress callback are
  parameters. The model is of a pipeline whose sinks take DSD, with or without DST decoding.
\<close>

abbreviation (input) DSDPIPE_OK :: int where "DSDPIPE_OK \<equiv> 0"
abbreviation (input) ERROR_OUT_OF_MEMORY :: int where "ERROR_OUT_OF_MEMORY \<equiv> -2"
abbreviation (input) ERROR_READ :: int where "ERROR_READ \<equiv> -7"
abbreviation (input) ERROR_CANCELLED :: int where "ERROR_CANCELLED \<equiv> -11"

abbreviation (input) DSDPIPE_BATCH_SIZE :: nat where "DSDPIPE_BATCH_SIZE \<equiv> 16"
abbreviation (input) DSDPIPE_FRAME_QUEUE_CAPACITY :: nat where "DSDPIPE_FRAME_QUEUE_CAPACITY \<equiv> 64"

section \<open>The surroundings\<close>

text \<open>What becomes of a batch: there are no buffers for the decoder, decoding fails, the \<open>j\<close>-th frame
  cannot be written, all frames are written, or they are and the progress callback asks to stop.\<close>

datatype batch_outcome =
    Batch_no_buffers
  | Decode_failed int
  | Write_failed nat int
  | Batch_done
  | Batch_stop

record track_env =
  seek_track :: "byte \<Rightarrow> int"
  buffer_alloc :: "nat \<Rightarrow> bool"
  read_frame :: "nat \<Rightarrow> int \<times> bool"
  process_batch :: "nat \<Rightarrow> batch_outcome"

text \<open>The codes of \<^verbatim>\<open>read_frame\<close> that are no error, and the frames that end a track: the code is
  1 or the buffer carries the flag.\<close>

definition read_ok :: "track_env \<Rightarrow> nat \<Rightarrow> bool" where
  "read_ok env n \<longleftrightarrow> fst (read_frame env n) = DSDPIPE_OK \<or> fst (read_frame env n) = 1"

definition is_last_frame :: "track_env \<Rightarrow> nat \<Rightarrow> bool" where
  "is_last_frame env n \<longleftrightarrow> fst (read_frame env n) = 1 \<or> snd (read_frame env n)"

definition read_error :: "track_env \<Rightarrow> nat \<Rightarrow> int" where
  "read_error env n = (if fst (read_frame env n) < 0 then fst (read_frame env n) else ERROR_READ)"

section \<open>The state\<close>

record reader_thread =
  current_track :: byte
  track_started :: bool
  track_pending :: bool
  track_finished :: bool
  last_error :: int
  has_error :: bool
  rt_cancelled :: bool
  rt_shutdown :: bool

text \<open>The points of \<^verbatim>\<open>reader_thread_func\<close>. \<open>R_Finish e eof back\<close> is a section that reports the end
  of the track, with an error or without; the end of the queue is signalled after it (\<open>eof\<close>), and the
  outer loop goes on at once (\<open>back\<close>) or the cancellation is handled first.\<close>

datatype reader_pc =
    R_Top
  | R_Await
  | R_Await_asleep
  | R_Reset byte
  | R_Seek byte
  | R_Test
  | R_Alloc
  | R_Read nat
  | R_Push nat bool
  | R_Push_asleep nat bool
  | R_Finish "int option" bool bool
  | R_Eof bool
  | R_After
  | R_Cancel
  | R_Cancel_queue
  | R_Exit

text \<open>The points of \<^verbatim>\<open>dsdpipe_process_track\<close> from the start of the track on, with the functions of
  the reader it calls.\<close>

datatype main_pc =
    M_Start
  | M_Start_asleep
  | M_Test
  | M_Pop
  | M_Pop_asleep
  | M_Check bool
  | M_Get_error
  | M_Batch "nat list"
  | M_Cleanup
  | M_Cancel_flag
  | M_Cancel_queue
  | M_Wait
  | M_Wait_asleep
  | M_Shutdown
  | M_Shutdown_queue
  | M_Join
  | M_Destroy
  | M_Return
  | M_Done int

text \<open>\<open>delivered\<close> lists the frames the sinks got, \<open>released\<close> the buffers whose reference was given up,
  \<open>popped\<close> the frames the main thread took from the queue; \<open>allocs\<close> counts the buffers and
  \<open>batches\<close> the batches. \<open>returns_at_once\<close> is the code of an early return.\<close>

record sys =
  queue :: "nat frame_queue"
  reader :: reader_thread
  rpc :: reader_pc
  mpc :: main_pc
  allocs :: nat
  batches :: nat
  popped :: "nat list"
  delivered :: "nat list"
  released :: "nat list"
  track_complete :: bool
  main_result :: int
  returns_at_once :: "int option"
  pipe_cancelled :: bool
  faulted :: bool

text \<open>\<^verbatim>\<open>dsdpipe_frame_queue_create\<close> and \<^verbatim>\<open>dsdpipe_reader_thread_create\<close> have succeeded.\<close>

definition reader_created :: reader_thread where
  "reader_created = \<lparr>current_track = 0, track_started = False, track_pending = False, track_finished = False,
     last_error = DSDPIPE_OK, has_error = False, rt_cancelled = False, rt_shutdown = False\<rparr>"

definition track_setup :: "nat frame_queue \<Rightarrow> sys" where
  "track_setup q = \<lparr>queue = q, reader = reader_created, rpc = R_Top, mpc = M_Start, allocs = 0, batches = 0,
     popped = [], delivered = [], released = [], track_complete = False, main_result = DSDPIPE_OK,
     returns_at_once = None, pipe_cancelled = False, faulted = False\<rparr>"

text \<open>Who sleeps on a condition variable; at most one thread does, so that a signal wakes it.\<close>

fun wake_reader :: "condvar \<Rightarrow> reader_pc \<Rightarrow> reader_pc" where
  "wake_reader TrackStart R_Await_asleep = R_Await"
| "wake_reader NotFull (R_Push_asleep n l) = R_Push n l"
| "wake_reader c pc = pc"

fun wake_main :: "condvar \<Rightarrow> main_pc \<Rightarrow> main_pc" where
  "wake_main NotEmpty M_Pop_asleep = M_Pop"
| "wake_main TrackDone M_Start_asleep = M_Start"
| "wake_main TrackDone M_Wait_asleep = M_Wait"
| "wake_main c pc = pc"

fun wakeup_cond :: "wakeup \<Rightarrow> condvar" where
  "wakeup_cond (Signal c) = c"
| "wakeup_cond (Broadcast c) = c"

definition wake :: "wakeup list \<Rightarrow> sys \<Rightarrow> sys" where
  "wake ws s = s\<lparr>rpc := fold (wake_reader \<circ> wakeup_cond) ws (rpc s), mpc := fold (wake_main \<circ> wakeup_cond) ws (mpc s)\<rparr>"

definition on_queue :: "(nat, 'a) fq_op \<Rightarrow> ('a \<Rightarrow> sys \<Rightarrow> sys) \<Rightarrow> (sys \<Rightarrow> sys) \<Rightarrow> sys \<Rightarrow> sys" where
  "on_queue m ok err s = (case m (queue s) of
       (Ok a, q) \<Rightarrow> ok a (s\<lparr>queue := q\<rparr>)
     | (Err _, q) \<Rightarrow> err (s\<lparr>queue := q\<rparr>)
     | (Fault, q) \<Rightarrow> s\<lparr>faulted := True\<rparr>)"

text \<open>A section that always leaves.\<close>

definition queue_section :: "(nat, unit critical) fq_op \<Rightarrow> sys \<Rightarrow> sys" where
  "queue_section m = on_queue m (\<lambda>r s. case r of Left _ ws \<Rightarrow> wake ws s | Blocked _ \<Rightarrow> s) (\<lambda>s. s)"

definition release :: "nat list \<Rightarrow> sys \<Rightarrow> sys" where
  "release ns s = s\<lparr>released := released s @ ns\<rparr>"

section \<open>The reader thread\<close>

text \<open>Waiting for a track, and taking it.\<close>

definition reader_await :: "sys \<Rightarrow> sys" where
  "reader_await s = (let r = reader s in
     if \<not> track_pending r \<and> \<not> rt_shutdown r then s\<lparr>rpc := R_Await_asleep\<rparr>
     else if rt_shutdown r then s\<lparr>rpc := R_Exit\<rparr>
     else s\<lparr>reader := r\<lparr>track_pending := False, track_finished := False, has_error := False,
                         last_error := DSDPIPE_OK\<rparr>,
            rpc := R_Reset (current_track r)\<rparr>)"

definition reader_finish :: "int option \<Rightarrow> bool \<Rightarrow> bool \<Rightarrow> sys \<Rightarrow> sys" where
  "reader_finish e eof back s = (let r = reader s in
     wake [Signal TrackDone]
       (s\<lparr>reader := (case e of None \<Rightarrow> r\<lparr>track_finished := True\<rparr>
            | Some c \<Rightarrow> r\<lparr>has_error := True, last_error := c, track_finished := True\<rparr>),
          rpc := (if eof then R_Eof back else R_After)\<rparr>))"

definition reader_push :: "nat \<Rightarrow> bool \<Rightarrow> sys \<Rightarrow> sys" where
  "reader_push n l = on_queue (dsdpipe_frame_queue_push (Some n) l)
     (\<lambda>r s. case r of
         Blocked _ \<Rightarrow> s\<lparr>rpc := R_Push_asleep n l\<rparr>
       | Left _ ws \<Rightarrow> wake ws (s\<lparr>rpc := (if l then R_Finish None True False else R_Test)\<rparr>))
     (\<lambda>s. release [n] (s\<lparr>rpc := R_Finish None False False\<rparr>))"

fun reader_step_at :: "track_env \<Rightarrow> reader_pc \<Rightarrow> sys \<Rightarrow> sys option" where
  "reader_step_at env R_Top s = Some (s\<lparr>rpc := (if rt_shutdown (reader s) then R_Exit else R_Await)\<rparr>)"
| "reader_step_at env R_Await s = Some (reader_await s)"
| "reader_step_at env R_Await_asleep s = None"
| "reader_step_at env (R_Reset t) s = Some (on_queue dsdpipe_frame_queue_reset
     (\<lambda>fs s. release fs (s\<lparr>rpc := R_Seek t\<rparr>)) (\<lambda>s. s) s)"
| "reader_step_at env (R_Seek t) s = Some (s\<lparr>rpc :=
     (if seek_track env t = DSDPIPE_OK then R_Test else R_Finish (Some (seek_track env t)) True True)\<rparr>)"
| "reader_step_at env R_Test s = Some (s\<lparr>rpc :=
     (if \<not> rt_cancelled (reader s) \<and> \<not> rt_shutdown (reader s) then R_Alloc else R_After)\<rparr>)"
| "reader_step_at env R_Alloc s = Some
     (if buffer_alloc env (allocs s) then s\<lparr>allocs := allocs s + 1, rpc := R_Read (allocs s)\<rparr>
      else s\<lparr>rpc := R_Finish (Some ERROR_OUT_OF_MEMORY) True False\<rparr>)"
| "reader_step_at env (R_Read n) s = Some
     (if read_ok env n then s\<lparr>rpc := R_Push n (is_last_frame env n)\<rparr>
      else release [n] (s\<lparr>rpc := R_Finish (Some (read_error env n)) True False\<rparr>))"
| "reader_step_at env (R_Push n l) s = Some (reader_push n l s)"
| "reader_step_at env (R_Push_asleep n l) s = None"
| "reader_step_at env (R_Finish e eof back) s = Some (reader_finish e eof back s)"
| "reader_step_at env (R_Eof back) s = Some
     ((queue_section dsdpipe_frame_queue_signal_eof s)\<lparr>rpc := (if back then R_Top else R_After)\<rparr>)"
| "reader_step_at env R_After s = Some (s\<lparr>rpc :=
     (if rt_cancelled (reader s) \<or> rt_shutdown (reader s) then R_Cancel else R_Top)\<rparr>)"
| "reader_step_at env R_Cancel s = Some (wake [Signal TrackDone]
     (s\<lparr>reader := (reader s)\<lparr>track_finished := True\<rparr>, rpc := R_Cancel_queue\<rparr>))"
| "reader_step_at env R_Cancel_queue s = Some ((queue_section dsdpipe_frame_queue_cancel s)\<lparr>rpc := R_Top\<rparr>)"
| "reader_step_at env R_Exit s = None"

definition reader_step :: "track_env \<Rightarrow> sys \<Rightarrow> sys option" where
  "reader_step env s = reader_step_at env (rpc s) s"

section \<open>The main thread\<close>

definition dsdpipe_reader_thread_start_track :: "byte \<Rightarrow> sys \<Rightarrow> sys" where
  "dsdpipe_reader_thread_start_track track s = (let r = reader s in
     if \<not> track_finished r \<and> track_started r \<and> \<not> rt_shutdown r then s\<lparr>mpc := M_Start_asleep\<rparr>
     else if rt_shutdown r then s\<lparr>mpc := M_Shutdown, returns_at_once := Some ERROR_READ\<rparr>
     else wake [Signal TrackStart]
       (s\<lparr>reader := r\<lparr>rt_cancelled := False, current_track := track, track_pending := True, track_started := True,
                      track_finished := False\<rparr>,
          mpc := M_Test\<rparr>))"

definition dsdpipe_reader_thread_wait :: "sys \<Rightarrow> sys" where
  "dsdpipe_reader_thread_wait s = (let r = reader s in
     s\<lparr>mpc := (if \<not> track_finished r \<and> track_started r \<and> \<not> rt_shutdown r then M_Wait_asleep else M_Shutdown)\<rparr>)"

definition main_pop :: "sys \<Rightarrow> sys" where
  "main_pop = on_queue (dsdpipe_frame_queue_pop_batch DSDPIPE_BATCH_SIZE)
     (\<lambda>r s. case r of
         Blocked _ \<Rightarrow> s\<lparr>mpc := M_Pop_asleep\<rparr>
       | Left (fs, got_last) ws \<Rightarrow>
           if None \<in> set fs then s\<lparr>faulted := True\<rparr>
           else wake ws (s\<lparr>track_complete := got_last, popped := popped s @ map the fs,
             mpc := (if fs = [] then M_Check False else M_Batch (map the fs))\<rparr>))
     (\<lambda>s. s\<lparr>track_complete := False, mpc := M_Check True\<rparr>)"

text \<open>A failed write gives up the buffers from the failing frame on.\<close>

definition main_batch :: "batch_outcome \<Rightarrow> nat list \<Rightarrow> sys \<Rightarrow> sys" where
  "main_batch outcome ns s0 = (let s = s0\<lparr>batches := batches s0 + 1\<rparr> in case outcome of
       Batch_no_buffers \<Rightarrow> release ns (s\<lparr>mpc := M_Cancel_flag, returns_at_once := Some ERROR_OUT_OF_MEMORY\<rparr>)
     | Decode_failed c \<Rightarrow> release ns (s\<lparr>mpc := M_Cleanup, main_result := c\<rparr>)
     | Write_failed j c \<Rightarrow> release (drop j ns)
         (s\<lparr>mpc := M_Cleanup, main_result := c, delivered := delivered s @ take j ns\<rparr>)
     | Batch_done \<Rightarrow> release ns (s\<lparr>mpc := M_Test, delivered := delivered s @ ns\<rparr>)
     | Batch_stop \<Rightarrow> release ns (s\<lparr>mpc := M_Cleanup, delivered := delivered s @ ns, pipe_cancelled := True,
         main_result := ERROR_CANCELLED\<rparr>))"

fun main_step_at :: "track_env \<Rightarrow> byte \<Rightarrow> main_pc \<Rightarrow> sys \<Rightarrow> sys option" where
  "main_step_at env track M_Start s = Some (dsdpipe_reader_thread_start_track track s)"
| "main_step_at env track M_Start_asleep s = None"
| "main_step_at env track M_Test s = Some (s\<lparr>mpc :=
     (if \<not> pipe_cancelled s \<and> \<not> track_complete s then M_Pop else M_Cleanup)\<rparr>)"
| "main_step_at env track M_Pop s = Some (main_pop s)"
| "main_step_at env track M_Pop_asleep s = None"
| "main_step_at env track (M_Check failed) s = Some
     (if has_error (reader s) then s\<lparr>mpc := M_Get_error\<rparr>
      else s\<lparr>mpc := M_Cleanup, main_result := (if failed then ERROR_READ else DSDPIPE_OK)\<rparr>)"
| "main_step_at env track M_Get_error s = Some (s\<lparr>mpc := M_Cleanup, main_result := last_error (reader s)\<rparr>)"
| "main_step_at env track (M_Batch ns) s = Some (main_batch (process_batch env (batches s)) ns s)"
| "main_step_at env track M_Cleanup s = Some (s\<lparr>mpc :=
     (if main_result s \<noteq> DSDPIPE_OK \<or> pipe_cancelled s then M_Cancel_flag else M_Wait)\<rparr>)"
| "main_step_at env track M_Cancel_flag s = Some
     (s\<lparr>reader := (reader s)\<lparr>rt_cancelled := True\<rparr>, mpc := M_Cancel_queue\<rparr>)"
| "main_step_at env track M_Cancel_queue s = Some ((queue_section dsdpipe_frame_queue_cancel s)\<lparr>mpc := M_Wait\<rparr>)"
| "main_step_at env track M_Wait s = Some (dsdpipe_reader_thread_wait s)"
| "main_step_at env track M_Wait_asleep s = None"
| "main_step_at env track M_Shutdown s = Some (wake [Broadcast TrackStart, Broadcast TrackDone]
     (s\<lparr>reader := (reader s)\<lparr>rt_shutdown := True, rt_cancelled := True\<rparr>, mpc := M_Shutdown_queue\<rparr>))"
| "main_step_at env track M_Shutdown_queue s = Some ((queue_section dsdpipe_frame_queue_cancel s)\<lparr>mpc := M_Join\<rparr>)"
| "main_step_at env track M_Join s = (if rpc s = R_Exit then Some (s\<lparr>mpc := M_Destroy\<rparr>) else None)"
| "main_step_at env track M_Destroy s = Some (case dsdpipe_frame_queue_destroy (Ptr (queue s)) of
       (Ok fs, _) \<Rightarrow> release fs (s\<lparr>mpc := M_Return\<rparr>)
     | _ \<Rightarrow> s\<lparr>faulted := True\<rparr>)"
| "main_step_at env track M_Return s = Some (s\<lparr>mpc := M_Done (case returns_at_once s of
       Some c \<Rightarrow> c | None \<Rightarrow> if pipe_cancelled s then ERROR_CANCELLED else main_result s)\<rparr>)"
| "main_step_at env track (M_Done c) s = None"

definition main_step :: "track_env \<Rightarrow> byte \<Rightarrow> sys \<Rightarrow> sys option" where
  "main_step env track s = main_step_at env track (mpc s) s"

section \<open>Runs\<close>

text \<open>Besides the two threads, a sleeping thread may wake up without a signal, and \<^verbatim>\<open>dsdpipe_cancel\<close> may
  be called from elsewhere at any time.\<close>

datatype event = Reader_runs | Main_runs | Reader_wakes | Main_wakes | Cancel_called

definition dsdpipe_cancel :: "sys \<Rightarrow> sys" where
  "dsdpipe_cancel s = s\<lparr>pipe_cancelled := True\<rparr>"

definition spurious :: "sys \<Rightarrow> sys \<Rightarrow> sys option" where
  "spurious s' s = (if s' = s then None else Some s')"

fun sys_step :: "track_env \<Rightarrow> byte \<Rightarrow> event \<Rightarrow> sys \<Rightarrow> sys option" where
  "sys_step env track Reader_runs s = reader_step env s"
| "sys_step env track Main_runs s = main_step env track s"
| "sys_step env track Reader_wakes s = spurious (wake [Signal TrackStart, Signal NotFull] s) s"
| "sys_step env track Main_wakes s = spurious (wake [Signal NotEmpty, Signal TrackDone] s) s"
| "sys_step env track Cancel_called s = Some (dsdpipe_cancel s)"

text \<open>A schedule names who is next; an event that is not possible is passed over.\<close>

fun run_schedule :: "track_env \<Rightarrow> byte \<Rightarrow> event list \<Rightarrow> sys \<Rightarrow> sys" where
  "run_schedule env track [] s = s"
| "run_schedule env track (e # es) s =
     run_schedule env track es (case sys_step env track e s of None \<Rightarrow> s | Some s' \<Rightarrow> s')"

inductive sys_reachable :: "track_env \<Rightarrow> byte \<Rightarrow> sys \<Rightarrow> sys \<Rightarrow> bool" for env track s where
  reachable_start: "sys_reachable env track s s"
| reachable_step: "\<lbrakk>sys_reachable env track s s'; sys_step env track e s' = Some s''\<rbrakk> \<Longrightarrow> sys_reachable env track s s''"

end
