(* ===== verification/Pipe_Threads.thy ===== *)
theory Pipe_Threads
  imports Pipe_Ring Pipe_Reader
begin

text \<open>
  The invariant of the two threads that convert a track: what holds at each point of the reader and
  of the main thread, and that every step of either keeps it.
\<close>

section \<open>What a track should give\<close>

text \<open>A track has \<open>n\<close> frames and ends with the code \<open>c\<close>: the source cannot seek, a frame is the last
  one, there is no buffer for the next frame, or the next frame cannot be read.\<close>

definition track_spec :: "track_env \<Rightarrow> byte \<Rightarrow> nat \<Rightarrow> int \<Rightarrow> bool" where
  "track_spec env track n c \<longleftrightarrow>
     (if seek_track env track \<noteq> DSDPIPE_OK then n = 0 \<and> c = seek_track env track
      else (\<forall>i < n. buffer_alloc env i \<and> read_ok env i) \<and> (\<forall>i. Suc i < n \<longrightarrow> \<not> is_last_frame env i) \<and>
        (if 0 < n \<and> is_last_frame env (n - 1) then c = DSDPIPE_OK
         else if \<not> buffer_alloc env n then c = ERROR_OUT_OF_MEMORY
         else \<not> read_ok env n \<and> c = read_error env n))"

lemma read_error_nonzero [simp]: "\<not> read_ok env n \<Longrightarrow> read_error env n \<noteq> 0"
  by (auto simp: read_ok_def read_error_def)

lemma track_spec_ok:
  "track_spec env track n DSDPIPE_OK \<Longrightarrow> 0 < n \<and> is_last_frame env (n - 1)"
  by (auto simp: track_spec_def split: if_splits)

section \<open>The invariant\<close>

abbreviation frames_in :: "sys \<Rightarrow> (nat \<times> bool) list" where
  "frames_in s \<equiv> queue_contents (queue s)"

abbreviation queue_ended :: "sys \<Rightarrow> bool" where
  "queue_ended s \<equiv> fq_eof (queue s)"

abbreviation queue_cancelled :: "sys \<Rightarrow> bool" where
  "queue_cancelled s \<equiv> fq_cancelled (queue s)"

text \<open>The frames that have gone through the queue or are in it.\<close>

definition pulled :: "sys \<Rightarrow> nat list" where
  "pulled s = popped s @ map fst (frames_in s)"

abbreviation track_taken :: "sys \<Rightarrow> bool" where
  "track_taken s \<equiv> track_started (reader s) \<and> \<not> track_pending (reader s)"

definition untouched :: "sys \<Rightarrow> bool" where
  "untouched s \<longleftrightarrow> \<not> track_taken s \<and> (track_pending (reader s) \<longrightarrow> track_started (reader s)) \<and>
     \<not> track_finished (reader s) \<and> \<not> has_error (reader s) \<and> \<not> queue_ended s \<and> frames_in s = [] \<and> popped s = [] \<and>
     allocs s = 0"

definition begun :: "sys \<Rightarrow> bool" where
  "begun s \<longleftrightarrow> track_taken s \<and> \<not> track_finished (reader s) \<and> \<not> has_error (reader s) \<and> \<not> queue_ended s"

definition reading :: "track_env \<Rightarrow> byte \<Rightarrow> sys \<Rightarrow> nat \<Rightarrow> bool" where
  "reading env track s n \<longleftrightarrow> begun s \<and> seek_track env track = DSDPIPE_OK \<and> length (pulled s) = n \<and>
     (\<forall>i < n. buffer_alloc env i \<and> read_ok env i \<and> \<not> is_last_frame env i)"

definition over :: "sys \<Rightarrow> bool" where
  "over s \<longleftrightarrow> track_taken s \<and> track_finished (reader s) \<and> (queue_ended s \<or> queue_cancelled s)"

text \<open>The reader has come to an end of the track with the code \<open>c\<close>.\<close>

definition ended_with :: "track_env \<Rightarrow> byte \<Rightarrow> sys \<Rightarrow> int \<Rightarrow> bool" where
  "ended_with env track s c \<longleftrightarrow> track_spec env track (length (pulled s)) c"

definition reader_code :: "sys \<Rightarrow> int" where
  "reader_code s = (if has_error (reader s) then last_error (reader s) else DSDPIPE_OK)"

fun at_reader :: "track_env \<Rightarrow> byte \<Rightarrow> sys \<Rightarrow> reader_pc \<Rightarrow> bool" where
  "at_reader env track s R_Top \<longleftrightarrow> untouched s \<or> over s"
| "at_reader env track s R_Await \<longleftrightarrow> untouched s \<or> over s"
| "at_reader env track s R_Await_asleep \<longleftrightarrow> (untouched s \<or> over s) \<and> \<not> track_pending (reader s) \<and> \<not> rt_shutdown (reader s)"
| "at_reader env track s (R_Reset t) \<longleftrightarrow> t = track \<and> begun s \<and> frames_in s = [] \<and> popped s = [] \<and> allocs s = 0"
| "at_reader env track s (R_Seek t) \<longleftrightarrow> t = track \<and> begun s \<and> frames_in s = [] \<and> popped s = [] \<and> allocs s = 0"
| "at_reader env track s R_Test \<longleftrightarrow> reading env track s (allocs s)"
| "at_reader env track s R_Alloc \<longleftrightarrow> reading env track s (allocs s)"
| "at_reader env track s (R_Read n) \<longleftrightarrow> allocs s = Suc n \<and> buffer_alloc env n \<and> reading env track s n"
| "at_reader env track s (R_Push n l) \<longleftrightarrow> allocs s = Suc n \<and> buffer_alloc env n \<and> reading env track s n \<and>
     read_ok env n \<and> l = is_last_frame env n"
| "at_reader env track s (R_Push_asleep n l) \<longleftrightarrow> allocs s = Suc n \<and> buffer_alloc env n \<and> reading env track s n \<and>
     read_ok env n \<and> l = is_last_frame env n \<and> length (frames_in s) = DSDPIPE_FRAME_QUEUE_CAPACITY \<and> \<not> queue_cancelled s"
| "at_reader env track s (R_Finish e eof back) \<longleftrightarrow> begun s \<and>
     (if eof then ended_with env track s (case e of None \<Rightarrow> DSDPIPE_OK | Some c \<Rightarrow> c) \<and> e \<noteq> Some DSDPIPE_OK
      else e = None \<and> queue_cancelled s)"
| "at_reader env track s (R_Eof back) \<longleftrightarrow> track_taken s \<and> track_finished (reader s) \<and> \<not> queue_ended s \<and>
     ended_with env track s (reader_code s) \<and> (has_error (reader s) \<longrightarrow> last_error (reader s) \<noteq> DSDPIPE_OK)"
| "at_reader env track s R_After \<longleftrightarrow> over s \<or> begun s \<and> rt_cancelled (reader s)"
| "at_reader env track s R_Cancel \<longleftrightarrow> track_taken s \<and> rt_cancelled (reader s)"
| "at_reader env track s R_Cancel_queue \<longleftrightarrow> track_taken s \<and> rt_cancelled (reader s) \<and> track_finished (reader s)"
| "at_reader env track s R_Exit \<longleftrightarrow> over s \<and> rt_shutdown (reader s)"

definition looping :: "track_env \<Rightarrow> sys \<Rightarrow> bool" where
  "looping env s \<longleftrightarrow> track_started (reader s) \<and> \<not> rt_cancelled (reader s) \<and> main_result s = DSDPIPE_OK \<and>
     returns_at_once s = None \<and> (track_complete s \<longleftrightarrow> (\<exists>i \<in> set (popped s). is_last_frame env i))"

text \<open>Why the main thread has left its loop.\<close>

definition settled :: "track_env \<Rightarrow> sys \<Rightarrow> bool" where
  "settled env s \<longleftrightarrow> (\<exists>k. process_batch env k \<noteq> Batch_done) \<or> pipe_cancelled s \<or>
     popped s = delivered s \<and> main_result s = DSDPIPE_OK \<and> (\<exists>i \<in> set (popped s). is_last_frame env i) \<or>
     popped s = delivered s \<and> frames_in s = [] \<and> queue_ended s \<and> has_error (reader s) \<and>
       main_result s = last_error (reader s)"

text \<open>The reader will not wait for room in the queue any more.\<close>

definition no_more_pushes :: "sys \<Rightarrow> bool" where
  "no_more_pushes s \<longleftrightarrow> queue_cancelled s \<or>
     (case rpc s of R_Alloc \<Rightarrow> False | R_Read n \<Rightarrow> False | R_Push n l \<Rightarrow> False | R_Push_asleep n l \<Rightarrow> False | _ \<Rightarrow> True)"

definition leaving :: "track_env \<Rightarrow> sys \<Rightarrow> bool" where
  "leaving env s \<longleftrightarrow> settled env s \<and> track_started (reader s) \<and>
     (if rt_cancelled (reader s) then no_more_pushes s
      else queue_ended s \<or> (\<exists>i \<in> set (popped s). is_last_frame env i))"

fun at_main :: "track_env \<Rightarrow> sys \<Rightarrow> main_pc \<Rightarrow> bool" where
  "at_main env s M_Start \<longleftrightarrow> untouched s \<and> \<not> track_started (reader s) \<and> \<not> rt_cancelled (reader s) \<and>
     main_result s = DSDPIPE_OK \<and> returns_at_once s = None \<and> \<not> track_complete s \<and> delivered s = []"
| "at_main env s M_Start_asleep \<longleftrightarrow> False"
| "at_main env s M_Test \<longleftrightarrow> looping env s \<and> popped s = delivered s"
| "at_main env s M_Pop \<longleftrightarrow> looping env s \<and> popped s = delivered s \<and> \<not> track_complete s"
| "at_main env s M_Pop_asleep \<longleftrightarrow> looping env s \<and> popped s = delivered s \<and> \<not> track_complete s \<and> frames_in s = [] \<and>
     \<not> queue_ended s"
| "at_main env s (M_Check failed) \<longleftrightarrow> \<not> failed \<and> looping env s \<and> popped s = delivered s \<and> \<not> track_complete s \<and>
     frames_in s = [] \<and> queue_ended s"
| "at_main env s M_Get_error \<longleftrightarrow> looping env s \<and> popped s = delivered s \<and> \<not> track_complete s \<and>
     frames_in s = [] \<and> queue_ended s \<and> has_error (reader s)"
| "at_main env s (M_Batch ns) \<longleftrightarrow> looping env s \<and> popped s = delivered s @ ns \<and> ns \<noteq> []"
| "at_main env s M_Cleanup \<longleftrightarrow> settled env s \<and> track_started (reader s) \<and> \<not> rt_cancelled (reader s) \<and>
     returns_at_once s = None \<and> (main_result s = DSDPIPE_OK \<and> \<not> pipe_cancelled s \<longrightarrow>
       queue_ended s \<or> (\<exists>i \<in> set (popped s). is_last_frame env i))"
| "at_main env s M_Cancel_flag \<longleftrightarrow> settled env s \<and> track_started (reader s) \<and> \<not> rt_cancelled (reader s)"
| "at_main env s M_Cancel_queue \<longleftrightarrow> settled env s \<and> track_started (reader s) \<and> rt_cancelled (reader s)"
| "at_main env s M_Wait \<longleftrightarrow> leaving env s"
| "at_main env s M_Wait_asleep \<longleftrightarrow> leaving env s \<and> \<not> track_finished (reader s)"
| "at_main env s M_Shutdown \<longleftrightarrow> settled env s \<and> track_started (reader s) \<and> track_finished (reader s)"
| "at_main env s M_Shutdown_queue \<longleftrightarrow> settled env s \<and> rt_shutdown (reader s)"
| "at_main env s M_Join \<longleftrightarrow> settled env s \<and> rt_shutdown (reader s)"
| "at_main env s M_Destroy \<longleftrightarrow> settled env s \<and> rt_shutdown (reader s) \<and> rpc s = R_Exit"
| "at_main env s M_Return \<longleftrightarrow> settled env s \<and> rt_shutdown (reader s) \<and> rpc s = R_Exit"
| "at_main env s (M_Done c) \<longleftrightarrow> settled env s \<and> rt_shutdown (reader s) \<and> rpc s = R_Exit \<and>
     (pipe_cancelled s \<or> returns_at_once s \<noteq> None \<or> c = main_result s)"

definition in_order :: "sys \<Rightarrow> bool" where
  "in_order s \<longleftrightarrow> pulled s = [0..<length (pulled s)]"

definition flags_ok :: "track_env \<Rightarrow> sys \<Rightarrow> bool" where
  "flags_ok env s \<longleftrightarrow> (\<forall>(i, l) \<in> set (frames_in s). l = is_last_frame env i)"

definition frames_ok :: "track_env \<Rightarrow> byte \<Rightarrow> nat list \<Rightarrow> bool" where
  "frames_ok env track ns \<longleftrightarrow> (ns \<noteq> [] \<longrightarrow> seek_track env track = DSDPIPE_OK) \<and>
     (\<forall>i < length ns. buffer_alloc env i \<and> read_ok env i) \<and> (\<forall>i. Suc i < length ns \<longrightarrow> \<not> is_last_frame env i)"

definition ended_ok :: "track_env \<Rightarrow> byte \<Rightarrow> sys \<Rightarrow> bool" where
  "ended_ok env track s \<longleftrightarrow> (queue_ended s \<longrightarrow> track_taken s \<and> track_finished (reader s) \<and>
     ended_with env track s (reader_code s) \<and> (has_error (reader s) \<longrightarrow> last_error (reader s) \<noteq> DSDPIPE_OK))"

definition queue_inv :: "sys \<Rightarrow> bool" where
  "queue_inv s \<longleftrightarrow> queue_ok (queue s) \<and> fq_capacity (queue s) = DSDPIPE_FRAME_QUEUE_CAPACITY"

definition global_inv :: "track_env \<Rightarrow> byte \<Rightarrow> sys \<Rightarrow> bool" where
  "global_inv env track s \<longleftrightarrow> \<not> faulted s \<and> queue_inv s \<and> in_order s \<and> flags_ok env s \<and> frames_ok env track (pulled s) \<and> ended_ok env track s \<and>
     (\<exists>ns. popped s = delivered s @ ns) \<and>
     (track_started (reader s) \<longrightarrow> current_track (reader s) = track) \<and>
     (rt_shutdown (reader s) \<longrightarrow> rt_cancelled (reader s) \<and> track_taken s \<and> track_finished (reader s)) \<and>
     (queue_cancelled s \<longrightarrow> rt_cancelled (reader s)) \<and>
     (returns_at_once s \<noteq> None \<longrightarrow> (\<exists>k. process_batch env k \<noteq> Batch_done))"

definition threads_inv :: "track_env \<Rightarrow> byte \<Rightarrow> sys \<Rightarrow> bool" where
  "threads_inv env track s \<longleftrightarrow> global_inv env track s \<and> at_reader env track s (rpc s) \<and> at_main env s (mpc s)"

section \<open>Computation rules\<close>

lemma wake_sel [simp]:
  "queue (wake ws s) = queue s" "reader (wake ws s) = reader s" "allocs (wake ws s) = allocs s"
  "batches (wake ws s) = batches s" "popped (wake ws s) = popped s" "delivered (wake ws s) = delivered s"
  "released (wake ws s) = released s" "track_complete (wake ws s) = track_complete s"
  "main_result (wake ws s) = main_result s" "returns_at_once (wake ws s) = returns_at_once s"
  "pipe_cancelled (wake ws s) = pipe_cancelled s" "faulted (wake ws s) = faulted s"
  "rpc (wake ws s) = fold (wake_reader \<circ> wakeup_cond) ws (rpc s)"
  "mpc (wake ws s) = fold (wake_main \<circ> wakeup_cond) ws (mpc s)"
  by (simp_all add: wake_def)

lemma release_sel [simp]:
  "queue (release ns s) = queue s" "reader (release ns s) = reader s" "allocs (release ns s) = allocs s"
  "batches (release ns s) = batches s" "popped (release ns s) = popped s" "delivered (release ns s) = delivered s"
  "released (release ns s) = released s @ ns" "track_complete (release ns s) = track_complete s"
  "main_result (release ns s) = main_result s" "returns_at_once (release ns s) = returns_at_once s"
  "pipe_cancelled (release ns s) = pipe_cancelled s" "faulted (release ns s) = faulted s"
  "rpc (release ns s) = rpc s" "mpc (release ns s) = mpc s"
  by (simp_all add: release_def)

lemma frames_ok_Nil [simp]: "frames_ok env track []"
  by (simp add: frames_ok_def)

lemma queue_flag [simp]:
  "queue_contents (q\<lparr>fq_eof := b\<rparr>) = queue_contents q" "queue_contents (q\<lparr>fq_cancelled := b\<rparr>) = queue_contents q"
  "queue_ok (q\<lparr>fq_eof := b\<rparr>) = queue_ok q" "queue_ok (q\<lparr>fq_cancelled := b\<rparr>) = queue_ok q"
  by (simp_all add: queue_contents_def queue_ok_def slot_def)

lemma signal_eof_step [simp]:
  "queue_section dsdpipe_frame_queue_signal_eof s =
     wake [Broadcast NotEmpty] (s\<lparr>queue := (queue s)\<lparr>fq_eof := True\<rparr>\<rparr>)"
  by (simp add: queue_section_def on_queue_def dsdpipe_frame_queue_signal_eof_def)

lemma cancel_step [simp]:
  "queue_section dsdpipe_frame_queue_cancel s =
     wake [Broadcast NotFull, Broadcast NotEmpty] (s\<lparr>queue := (queue s)\<lparr>fq_cancelled := True\<rparr>\<rparr>)"
  by (simp add: queue_section_def on_queue_def dsdpipe_frame_queue_cancel_def)

text \<open>Which points a wake-up leaves alone.\<close>

lemma wake_reader_other:
  "wake_reader NotEmpty pc = pc" "wake_reader TrackDone pc = pc"
  by (cases pc; simp)+

lemma wake_main_other:
  "wake_main NotFull pc = pc" "wake_main TrackStart pc = pc"
  by (cases pc; simp)+

lemmas wake_other [simp] = wake_reader_other wake_main_other

section \<open>Steps of the reader\<close>

text \<open>What the reader's steps do not disturb.\<close>

definition reader_leaves :: "sys \<Rightarrow> sys \<Rightarrow> bool" where
  "reader_leaves s s' \<longleftrightarrow>
     popped s' = popped s \<and> delivered s' = delivered s \<and> track_complete s' = track_complete s \<and>
     main_result s' = main_result s \<and> returns_at_once s' = returns_at_once s \<and> pipe_cancelled s' = pipe_cancelled s \<and>
     track_started (reader s') = track_started (reader s) \<and> rt_cancelled (reader s') = rt_cancelled (reader s) \<and>
     rt_shutdown (reader s') = rt_shutdown (reader s) \<and> current_track (reader s') = current_track (reader s) \<and>
     (track_started (reader s) \<and> track_finished (reader s) \<longrightarrow> track_finished (reader s')) \<and>
     (queue_ended s \<longrightarrow> queue_ended s' \<and> frames_in s' = frames_in s \<and> has_error (reader s') = has_error (reader s) \<and>
        last_error (reader s') = last_error (reader s)) \<and>
     (rt_cancelled (reader s) \<and> no_more_pushes s \<longrightarrow> no_more_pushes s') \<and>
     (\<not> track_started (reader s) \<and> untouched s \<longrightarrow> untouched s') \<and>
     (rpc s = R_Exit \<longrightarrow> rpc s' = R_Exit) \<and>
     (mpc s' = mpc s \<or> mpc s = M_Pop_asleep \<and> mpc s' = M_Pop \<or> mpc s = M_Wait_asleep \<and> mpc s' = M_Wait \<or>
        mpc s = M_Start_asleep) \<and>
     (mpc s' = M_Pop_asleep \<and> frames_in s = [] \<and> \<not> queue_ended s \<longrightarrow> frames_in s' = [] \<and> \<not> queue_ended s') \<and>
     (mpc s' = M_Wait_asleep \<longrightarrow> track_finished (reader s') = track_finished (reader s))"

lemma reader_leavesD:
  assumes "reader_leaves s s'"
  shows "popped s' = popped s" "delivered s' = delivered s" "track_complete s' = track_complete s"
    "main_result s' = main_result s" "returns_at_once s' = returns_at_once s" "pipe_cancelled s' = pipe_cancelled s"
    "track_started (reader s') = track_started (reader s)" "rt_cancelled (reader s') = rt_cancelled (reader s)"
    "rt_shutdown (reader s') = rt_shutdown (reader s)" "rpc s = R_Exit \<Longrightarrow> rpc s' = R_Exit"
    "\<lbrakk>track_started (reader s); track_finished (reader s)\<rbrakk> \<Longrightarrow> track_finished (reader s')"
    "queue_ended s \<Longrightarrow> queue_ended s'" "queue_ended s \<Longrightarrow> frames_in s' = frames_in s"
    "queue_ended s \<Longrightarrow> has_error (reader s') = has_error (reader s)"
    "queue_ended s \<Longrightarrow> last_error (reader s') = last_error (reader s)"
    "\<lbrakk>rt_cancelled (reader s); no_more_pushes s\<rbrakk> \<Longrightarrow> no_more_pushes s'"
    "\<lbrakk>\<not> track_started (reader s); untouched s\<rbrakk> \<Longrightarrow> untouched s'"
  using assms by (simp_all add: reader_leaves_def)

lemma reader_leaves_mpc:
  assumes "reader_leaves s s'" "mpc s \<noteq> M_Start_asleep"
  obtains "mpc s' = mpc s" "mpc s \<noteq> M_Pop_asleep" "mpc s \<noteq> M_Wait_asleep"
  | "mpc s = M_Pop_asleep" "mpc s' = M_Pop"
  | "mpc s = M_Wait_asleep" "mpc s' = M_Wait"
  | "mpc s = M_Pop_asleep" "mpc s' = M_Pop_asleep" "frames_in s = [] \<and> \<not> queue_ended s \<longrightarrow> frames_in s' = [] \<and> \<not> queue_ended s'"
  | "mpc s = M_Wait_asleep" "mpc s' = M_Wait_asleep" "track_finished (reader s') = track_finished (reader s)"
  using assms unfolding reader_leaves_def by metis

lemma looping_stable: "\<lbrakk>looping env s; reader_leaves s s'\<rbrakk> \<Longrightarrow> looping env s'"
  unfolding looping_def by (frule reader_leavesD) (simp add: reader_leavesD)

lemma settled_stable: "\<lbrakk>settled env s; reader_leaves s s'\<rbrakk> \<Longrightarrow> settled env s'"
  unfolding settled_def by (elim disjE conjE) (simp_all add: reader_leavesD)

lemma leaving_stable: "\<lbrakk>leaving env s; reader_leaves s s'\<rbrakk> \<Longrightarrow> leaving env s'"
  using settled_stable [of env s s'] unfolding leaving_def
  by (auto simp: reader_leavesD split: if_splits)

lemma main_stable:
  assumes "at_main env s (mpc s)" "reader_leaves s s'"
  shows "at_main env s' (mpc s')"
proof -
  note st = looping_stable [OF _ assms(2)] settled_stable [OF _ assms(2)] leaving_stable [OF _ assms(2)]
    reader_leavesD [OF assms(2)]
  have ne: "mpc s \<noteq> M_Start_asleep" using assms(1) by (cases "mpc s") simp_all
  show ?thesis
  proof (rule reader_leaves_mpc [OF assms(2) ne])
    assume "mpc s' = mpc s" "mpc s \<noteq> M_Pop_asleep" "mpc s \<noteq> M_Wait_asleep"
    then show ?thesis using assms(1) by (cases "mpc s") (simp_all add: st, auto simp: st)
  qed (use assms(1) in \<open>simp_all add: st\<close>)
qed

lemma rpc_update [simp]:
  "untouched (s\<lparr>rpc := pc\<rparr>) = untouched s" "begun (s\<lparr>rpc := pc\<rparr>) = begun s"
  "reading env track (s\<lparr>rpc := pc\<rparr>) n = reading env track s n" "over (s\<lparr>rpc := pc\<rparr>) = over s"
  "ended_with env track (s\<lparr>rpc := pc\<rparr>) c = ended_with env track s c" "pulled (s\<lparr>rpc := pc\<rparr>) = pulled s"
  "reader_code (s\<lparr>rpc := pc\<rparr>) = reader_code s" "global_inv env track (s\<lparr>rpc := pc\<rparr>) = global_inv env track s"
  by (simp_all add: untouched_def begun_def reading_def over_def ended_with_def pulled_def reader_code_def
      global_inv_def in_order_def flags_ok_def ended_ok_def queue_inv_def)

lemma at_reader_rpc [simp]: "at_reader env track (s\<lparr>rpc := pc\<rparr>) x = at_reader env track s x"
  by (cases x) simp_all

lemma leaves_rpc:
  assumes "rpc s \<noteq> R_Exit" "rt_cancelled (reader s) \<and> no_more_pushes s \<longrightarrow> no_more_pushes (s\<lparr>rpc := pc\<rparr>)"
  shows "reader_leaves s (s\<lparr>rpc := pc\<rparr>)"
  using assms by (simp add: reader_leaves_def)

lemma no_more_pushes_rpc:
  "no_more_pushes (s\<lparr>rpc := pc\<rparr>) \<longleftrightarrow> queue_cancelled s \<or>
     (case pc of R_Alloc \<Rightarrow> False | R_Read n \<Rightarrow> False | R_Push n l \<Rightarrow> False | R_Push_asleep n l \<Rightarrow> False | _ \<Rightarrow> True)"
  by (simp add: no_more_pushes_def)

text \<open>A step of the reader keeps the invariant if it leaves the main thread alone.\<close>

lemma reader_keeps:
  "\<lbrakk>threads_inv env track s; global_inv env track s'; at_reader env track s' (rpc s'); reader_leaves s s'\<rbrakk>
     \<Longrightarrow> threads_inv env track s'"
  unfolding threads_inv_def using main_stable by blast

lemma threads_invD:
  assumes "threads_inv env track s"
  shows "global_inv env track s" "at_reader env track s (rpc s)" "at_main env s (mpc s)"
  using assms by (simp_all add: threads_inv_def)

lemma globalD:
  assumes "global_inv env track s"
  shows "\<not> faulted s" "queue_ok (queue s)" "fq_capacity (queue s) = 64" "in_order s" "flags_ok env s"
    "ended_ok env track s" "\<exists>ns. popped s = delivered s @ ns"
    "track_started (reader s) \<Longrightarrow> current_track (reader s) = track"
    "rt_shutdown (reader s) \<Longrightarrow> rt_cancelled (reader s) \<and> track_taken s \<and> track_finished (reader s)"
    "queue_cancelled s \<Longrightarrow> rt_cancelled (reader s)"
    "returns_at_once s \<noteq> None \<Longrightarrow> \<exists>k. process_batch env k \<noteq> Batch_done"
    "frames_ok env track (pulled s)"
  using assms by (simp_all add: global_inv_def queue_inv_def)

lemma reader_rpc_step:
  assumes "threads_inv env track s" "rpc s \<noteq> R_Exit" "at_reader env track s pc"
    "rt_cancelled (reader s) \<and> no_more_pushes s \<longrightarrow> no_more_pushes (s\<lparr>rpc := pc\<rparr>)"
  shows "threads_inv env track (s\<lparr>rpc := pc\<rparr>)"
  by (rule reader_keeps [OF assms(1)]) (use assms in \<open>simp_all add: threads_invD leaves_rpc\<close>)

lemma reader_top_inv:
  assumes "threads_inv env track s" "rpc s = R_Top"
  shows "threads_inv env track (s\<lparr>rpc := (if rt_shutdown (reader s) then R_Exit else R_Await)\<rparr>)"
proof (rule reader_rpc_step [OF assms(1)])
  have "untouched s \<or> over s" using threads_invD(2) [OF assms(1)] assms(2) by simp
  then show "at_reader env track s (if rt_shutdown (reader s) then R_Exit else R_Await)"
    using globalD(9) [OF threads_invD(1) [OF assms(1)]] by (auto simp: untouched_def)
qed (simp_all add: assms no_more_pushes_rpc)

lemma reader_seek_inv:
  assumes "threads_inv env track s" "rpc s = R_Seek t"
  shows "threads_inv env track (s\<lparr>rpc := (if seek_track env t = DSDPIPE_OK then R_Test
    else R_Finish (Some (seek_track env t)) True True)\<rparr>)"
proof (rule reader_rpc_step [OF assms(1)])
  have b: "t = track" "begun s" "frames_in s = []" "popped s = []" "allocs s = 0"
    using threads_invD(2) [OF assms(1)] assms(2) by simp_all
  then have "pulled s = []" by (simp add: pulled_def)
  then show "at_reader env track s (if seek_track env t = DSDPIPE_OK then R_Test
    else R_Finish (Some (seek_track env t)) True True)"
    using b by (simp add: reading_def ended_with_def track_spec_def)
qed (simp_all add: assms no_more_pushes_rpc)

lemma reader_test_inv:
  assumes "threads_inv env track s" "rpc s = R_Test"
  shows "threads_inv env track (s\<lparr>rpc :=
    (if \<not> rt_cancelled (reader s) \<and> \<not> rt_shutdown (reader s) then R_Alloc else R_After)\<rparr>)"
proof (rule reader_rpc_step [OF assms(1)])
  have b: "reading env track s (allocs s)" using threads_invD(2) [OF assms(1)] assms(2) by simp
  then have "\<not> rt_shutdown (reader s)"
    using globalD(9) [OF threads_invD(1) [OF assms(1)]] by (auto simp: reading_def begun_def)
  then show "at_reader env track s (if \<not> rt_cancelled (reader s) \<and> \<not> rt_shutdown (reader s) then R_Alloc else R_After)"
    using b by (auto simp: reading_def)
qed (simp_all add: assms no_more_pushes_rpc)

lemma reader_after_inv:
  assumes "threads_inv env track s" "rpc s = R_After"
  shows "threads_inv env track (s\<lparr>rpc :=
    (if rt_cancelled (reader s) \<or> rt_shutdown (reader s) then R_Cancel else R_Top)\<rparr>)"
proof (rule reader_rpc_step [OF assms(1)])
  have b: "over s \<or> begun s \<and> rt_cancelled (reader s)" using threads_invD(2) [OF assms(1)] assms(2) by simp
  then show "at_reader env track s (if rt_cancelled (reader s) \<or> rt_shutdown (reader s) then R_Cancel else R_Top)"
    using globalD(9) [OF threads_invD(1) [OF assms(1)]] by (auto simp: over_def begun_def)
qed (simp_all add: assms no_more_pushes_rpc)

lemma over_taken: "over s \<Longrightarrow> \<not> track_pending (reader s)"
  by (simp add: over_def)

lemma reader_await_inv:
  assumes "threads_inv env track s" "rpc s = R_Await"
  shows "threads_inv env track (reader_await s)"
proof -
  note inv = threads_invD [OF assms(1)]
  have b: "untouched s \<or> over s" using inv(2) assms(2) by simp
  consider "\<not> track_pending (reader s)" "\<not> rt_shutdown (reader s)" | "rt_shutdown (reader s)"
    | "track_pending (reader s)" "\<not> rt_shutdown (reader s)" by blast
  then show ?thesis
  proof cases
    case 1
    then have "threads_inv env track (s\<lparr>rpc := R_Await_asleep\<rparr>)"
      using b by (intro reader_rpc_step [OF assms(1)]) (simp_all add: assms no_more_pushes_rpc)
    then show ?thesis using 1 by (simp add: reader_await_def Let_def)
  next
    case 2
    then have "over s" using b globalD(9) [OF inv(1)] by (auto simp: untouched_def)
    then have "threads_inv env track (s\<lparr>rpc := R_Exit\<rparr>)"
      using 2 by (intro reader_rpc_step [OF assms(1)]) (simp_all add: assms no_more_pushes_rpc)
    then show ?thesis using 2 by (simp add: reader_await_def Let_def)
  next
    case 3
    then have u: "untouched s" using b over_taken by blast
    have "current_track (reader s) = track" "track_started (reader s)"
      using 3 u globalD(8) [OF inv(1)] by (auto simp: untouched_def)
    then have "threads_inv env track (s\<lparr>reader := (reader s)\<lparr>track_pending := False, track_finished := False,
        has_error := False, last_error := DSDPIPE_OK\<rparr>, rpc := R_Reset (current_track (reader s))\<rparr>)"
      using inv(1) u 3 assms(2)
      by (intro reader_keeps [OF assms(1)])
        (simp_all add: global_inv_def queue_inv_def in_order_def flags_ok_def ended_ok_def pulled_def begun_def
          untouched_def reader_leaves_def no_more_pushes_def)
    then show ?thesis using 3 by (simp add: reader_await_def Let_def)
  qed
qed

lemma reader_reset_inv:
  assumes "threads_inv env track s" "rpc s = R_Reset t"
  shows "threads_inv env track (on_queue dsdpipe_frame_queue_reset
    (\<lambda>fs s. release fs (s\<lparr>rpc := R_Seek t\<rparr>)) (\<lambda>s. s) s)"
proof -
  note inv = threads_invD [OF assms(1)]
  have b: "t = track" "begun s" "frames_in s = []" "popped s = []" "allocs s = 0"
    using inv(2) assms(2) by simp_all
  obtain q where q: "dsdpipe_frame_queue_reset (queue s) = (Ok [], q)" "queue_ok q" "queue_contents q = []"
    "fq_capacity q = 64" "\<not> fq_eof q" "\<not> fq_cancelled q"
    using reset_law [OF globalD(2) [OF inv(1)]] b globalD(3) [OF inv(1)] by auto
  have "threads_inv env track (release [] (s\<lparr>queue := q, rpc := R_Seek t\<rparr>))"
    using inv(1) b q assms(2)
    by (intro reader_keeps [OF assms(1)])
      (simp_all add: global_inv_def queue_inv_def in_order_def flags_ok_def ended_ok_def pulled_def begun_def
        untouched_def reader_leaves_def no_more_pushes_def)
  then show ?thesis using q by (simp add: on_queue_def)
qed

lemma reader_alloc_inv:
  assumes "threads_inv env track s" "rpc s = R_Alloc"
  shows "threads_inv env track (if buffer_alloc env (allocs s) then s\<lparr>allocs := allocs s + 1, rpc := R_Read (allocs s)\<rparr>
    else s\<lparr>rpc := R_Finish (Some ERROR_OUT_OF_MEMORY) True False\<rparr>)"
proof -
  note inv = threads_invD [OF assms(1)]
  have b: "reading env track s (allocs s)" using inv(2) assms(2) by simp
  show ?thesis
  proof (cases "buffer_alloc env (allocs s)")
    case True
    then have "threads_inv env track (s\<lparr>allocs := allocs s + 1, rpc := R_Read (allocs s)\<rparr>)"
      using inv(1) b assms(2)
      by (intro reader_keeps [OF assms(1)])
        (auto simp: global_inv_def queue_inv_def in_order_def flags_ok_def ended_ok_def ended_with_def reader_code_def
          pulled_def begun_def reading_def untouched_def reader_leaves_def no_more_pushes_def)
    then show ?thesis using True by simp
  next
    case False
    then have "ended_with env track s ERROR_OUT_OF_MEMORY"
      using b by (auto simp: ended_with_def track_spec_def reading_def)
    then have "threads_inv env track (s\<lparr>rpc := R_Finish (Some ERROR_OUT_OF_MEMORY) True False\<rparr>)"
      using b by (intro reader_rpc_step [OF assms(1)]) (simp_all add: assms(2) no_more_pushes_rpc reading_def)
    then show ?thesis using False by simp
  qed
qed

lemma release_update [simp]:
  "untouched (release ns s) = untouched s" "begun (release ns s) = begun s"
  "reading env track (release ns s) n = reading env track s n" "over (release ns s) = over s"
  "ended_with env track (release ns s) c = ended_with env track s c" "pulled (release ns s) = pulled s"
  "reader_code (release ns s) = reader_code s" "global_inv env track (release ns s) = global_inv env track s"
  by (simp_all add: untouched_def begun_def reading_def over_def ended_with_def pulled_def reader_code_def
      global_inv_def in_order_def flags_ok_def ended_ok_def queue_inv_def)

lemma reader_read_inv:
  assumes "threads_inv env track s" "rpc s = R_Read n"
  shows "threads_inv env track (if read_ok env n then s\<lparr>rpc := R_Push n (is_last_frame env n)\<rparr>
    else release [n] (s\<lparr>rpc := R_Finish (Some (read_error env n)) True False\<rparr>))"
proof -
  note inv = threads_invD [OF assms(1)]
  have b: "allocs s = Suc n" "buffer_alloc env n" "reading env track s n" using inv(2) assms(2) by simp_all
  show ?thesis
  proof (cases "read_ok env n")
    case True
    then have "threads_inv env track (s\<lparr>rpc := R_Push n (is_last_frame env n)\<rparr>)"
      using b by (intro reader_rpc_step [OF assms(1)]) (simp_all add: assms(2) no_more_pushes_rpc no_more_pushes_def)
    then show ?thesis using True by simp
  next
    case False
    then have "ended_with env track s (read_error env n)"
      using b by (auto simp: ended_with_def track_spec_def reading_def)
    then have "threads_inv env track (release [n] (s\<lparr>rpc := R_Finish (Some (read_error env n)) True False\<rparr>))"
      using inv(1) b False assms(2)
      by (intro reader_keeps [OF assms(1)]) (simp_all add: reader_leaves_def no_more_pushes_def reading_def untouched_def)
    then show ?thesis using False by simp
  qed
qed

lemma woken_empty:
  "wake_main NotEmpty m = m \<and> m \<noteq> M_Pop_asleep \<or> m = M_Pop_asleep \<and> wake_main NotEmpty m = M_Pop"
  by (cases m) simp_all

lemma woken_done:
  "wake_main TrackDone m = m \<and> m \<noteq> M_Wait_asleep \<or> m = M_Wait_asleep \<and> wake_main TrackDone m = M_Wait \<or> m = M_Start_asleep"
  by (cases m) simp_all

lemma wake_awake [simp]:
  "wake_main NotEmpty m \<noteq> M_Pop_asleep" "wake_main TrackDone m \<noteq> M_Wait_asleep"
  "wake_main TrackDone m = M_Pop_asleep \<longleftrightarrow> m = M_Pop_asleep" "wake_main NotEmpty m = M_Wait_asleep \<longleftrightarrow> m = M_Wait_asleep"
  by (cases m; simp)+

lemma wake_update [simp]:
  "untouched (wake ws s) = untouched s" "begun (wake ws s) = begun s"
  "reading env track (wake ws s) n = reading env track s n" "over (wake ws s) = over s"
  "ended_with env track (wake ws s) c = ended_with env track s c" "pulled (wake ws s) = pulled s"
  "reader_code (wake ws s) = reader_code s" "global_inv env track (wake ws s) = global_inv env track s"
  by (simp_all add: untouched_def begun_def reading_def over_def ended_with_def pulled_def reader_code_def
      global_inv_def in_order_def flags_ok_def ended_ok_def queue_inv_def)

lemma reader_push_inv:
  assumes "threads_inv env track s" "rpc s = R_Push n l"
  shows "threads_inv env track (reader_push n l s)"
proof -
  note inv = threads_invD [OF assms(1)]
  have b: "allocs s = Suc n" "buffer_alloc env n" "reading env track s n" "read_ok env n" "l = is_last_frame env n"
    using inv(2) assms(2) by simp_all
  show ?thesis
  proof (rule fq.push_cases [OF globalD(2) [OF inv(1)], of n l])
    assume q: "fq_cancelled (queue s)" "dsdpipe_frame_queue_push (Some n) l (queue s) = (Err QUEUE_ERROR, queue s)"
    have "threads_inv env track (release [n] (s\<lparr>rpc := R_Finish None False False\<rparr>))"
      using inv(1) b q(1) assms(2)
      by (intro reader_keeps [OF assms(1)])
        (simp_all add: reader_leaves_def no_more_pushes_def reading_def untouched_def)
    then show ?thesis using q by (simp add: reader_push_def on_queue_def)
  next
    assume q: "\<not> fq_cancelled (queue s)" "length (frames_in s) = fq_capacity (queue s)"
      "dsdpipe_frame_queue_push (Some n) l (queue s) = (Ok (Blocked NotFull), queue s)"
    have "threads_inv env track (s\<lparr>rpc := R_Push_asleep n l\<rparr>)"
      using b q globalD(3) [OF inv(1)]
      by (intro reader_rpc_step [OF assms(1)]) (simp_all add: assms(2) no_more_pushes_rpc no_more_pushes_def)
    then show ?thesis using q by (simp add: reader_push_def on_queue_def)
  next
    fix q' assume q: "\<not> fq_cancelled (queue s)"
      "dsdpipe_frame_queue_push (Some n) l (queue s) = (Ok (Left () [Signal NotEmpty]), q')"
      "queue_ok q'" "queue_contents q' = frames_in s @ [(n, l)]" "fq_capacity q' = fq_capacity (queue s)"
      "fq_eof q' = queue_ended s" "fq_cancelled q' = queue_cancelled s"
    let ?s = "wake [Signal NotEmpty] (s\<lparr>queue := q', rpc := (if l then R_Finish None True False else R_Test)\<rparr>)"
    have p: "pulled ?s = pulled s @ [n]" "length (pulled s) = n" "pulled s = [0..<n]"
      using q(4) b(3) globalD(4) [OF inv(1)] by (simp_all add: pulled_def reading_def in_order_def)
    have "frames_ok env track (pulled s @ [n])"
      using b p(2) by (auto simp: frames_ok_def reading_def less_Suc_eq)
    then have "global_inv env track ?s"
      using inv(1) b q p
      by (auto simp: global_inv_def queue_inv_def in_order_def flags_ok_def ended_ok_def reading_def begun_def)
    moreover have "at_reader env track ?s (rpc ?s)"
      using b p q(6) unfolding b(5)
      by (auto simp: reading_def begun_def ended_with_def track_spec_def less_Suc_eq)
    moreover have "reader_leaves s ?s"
      using b q(1,6,7) assms(2) woken_empty [of "mpc s"]
      by (auto simp: reader_leaves_def no_more_pushes_def reading_def begun_def untouched_def)
    ultimately have "threads_inv env track ?s" by (rule reader_keeps [OF assms(1)])
    then show ?thesis using q by (simp add: reader_push_def on_queue_def)
  qed
qed

lemma reader_finish_inv:
  assumes "threads_inv env track s" "rpc s = R_Finish e eof back"
  shows "threads_inv env track (reader_finish e eof back s)"
proof -
  note inv = threads_invD [OF assms(1)]
  have b: "begun s" "if eof then ended_with env track s (case e of None \<Rightarrow> DSDPIPE_OK | Some c \<Rightarrow> c) \<and> e \<noteq> Some DSDPIPE_OK
      else e = None \<and> queue_cancelled s"
    using inv(2) assms(2) by simp_all
  have g: "global_inv env track (reader_finish e eof back s)"
    using inv(1) b(1)
    by (auto simp: reader_finish_def Let_def global_inv_def queue_inv_def in_order_def flags_ok_def ended_ok_def
        pulled_def begun_def split: option.splits)
  have l: "reader_leaves s (reader_finish e eof back s)"
    using b(1) assms(2) woken_done [of "mpc s"]
    by (auto simp: reader_finish_def Let_def reader_leaves_def no_more_pushes_def begun_def untouched_def split: option.splits)
  have "at_reader env track (reader_finish e eof back s) (rpc (reader_finish e eof back s))"
    using b by (auto simp: reader_finish_def Let_def begun_def over_def ended_with_def pulled_def reader_code_def
        split: option.splits if_splits)
  then show ?thesis by (rule reader_keeps [OF assms(1) g _ l])
qed

lemma reader_eof_inv:
  assumes "threads_inv env track s" "rpc s = R_Eof back"
  shows "threads_inv env track ((queue_section dsdpipe_frame_queue_signal_eof s)\<lparr>rpc := (if back then R_Top else R_After)\<rparr>)"
  using threads_invD [OF assms(1)] assms(2) woken_empty [of "mpc s"]
  by (intro reader_keeps [OF assms(1)])
    (auto simp: global_inv_def queue_inv_def in_order_def flags_ok_def ended_ok_def pulled_def ended_with_def
      reader_code_def over_def reader_leaves_def no_more_pushes_def untouched_def)

lemma reader_cancel_inv:
  assumes "threads_inv env track s" "rpc s = R_Cancel"
  shows "threads_inv env track (wake [Signal TrackDone]
    (s\<lparr>reader := (reader s)\<lparr>track_finished := True\<rparr>, rpc := R_Cancel_queue\<rparr>))"
  using threads_invD [OF assms(1)] assms(2) woken_done [of "mpc s"]
  by (intro reader_keeps [OF assms(1)])
    (auto simp: global_inv_def queue_inv_def in_order_def flags_ok_def ended_ok_def pulled_def ended_with_def
      reader_code_def over_def reader_leaves_def no_more_pushes_def untouched_def)

lemma reader_cancel_queue_inv:
  assumes "threads_inv env track s" "rpc s = R_Cancel_queue"
  shows "threads_inv env track ((queue_section dsdpipe_frame_queue_cancel s)\<lparr>rpc := R_Top\<rparr>)"
  using threads_invD [OF assms(1)] assms(2) woken_empty [of "mpc s"]
  by (intro reader_keeps [OF assms(1)])
    (auto simp: global_inv_def queue_inv_def in_order_def flags_ok_def ended_ok_def pulled_def ended_with_def
      reader_code_def over_def reader_leaves_def no_more_pushes_def untouched_def)

lemma reader_step_inv:
  assumes "threads_inv env track s" "reader_step env s = Some s'"
  shows "threads_inv env track s'"
proof (cases "rpc s")
  case R_Top
  show ?thesis using reader_top_inv [OF assms(1) R_Top] assms(2) R_Top by (simp add: reader_step_def)
next
  case R_Await
  show ?thesis using reader_await_inv [OF assms(1) R_Await] assms(2) R_Await by (simp add: reader_step_def)
next
  case (R_Reset t)
  show ?thesis using reader_reset_inv [OF assms(1) R_Reset] assms(2) R_Reset by (simp add: reader_step_def)
next
  case (R_Seek t)
  show ?thesis using reader_seek_inv [OF assms(1) R_Seek] assms(2) R_Seek by (simp add: reader_step_def)
next
  case R_Test
  show ?thesis using reader_test_inv [OF assms(1) R_Test] assms(2) R_Test by (simp add: reader_step_def)
next
  case R_Alloc
  show ?thesis using reader_alloc_inv [OF assms(1) R_Alloc] assms(2) R_Alloc by (simp add: reader_step_def)
next
  case (R_Read n)
  show ?thesis using reader_read_inv [OF assms(1) R_Read] assms(2) R_Read by (simp add: reader_step_def)
next
  case (R_Push n l)
  show ?thesis using reader_push_inv [OF assms(1) R_Push] assms(2) R_Push by (simp add: reader_step_def)
next
  case (R_Finish e eof bk)
  show ?thesis using reader_finish_inv [OF assms(1) R_Finish] assms(2) R_Finish by (simp add: reader_step_def)
next
  case (R_Eof bk)
  show ?thesis using reader_eof_inv [OF assms(1) R_Eof] assms(2) R_Eof by (simp add: reader_step_def)
next
  case R_After
  show ?thesis using reader_after_inv [OF assms(1) R_After] assms(2) R_After by (simp add: reader_step_def)
next
  case R_Cancel
  show ?thesis using reader_cancel_inv [OF assms(1) R_Cancel] assms(2) R_Cancel by (simp add: reader_step_def)
next
  case R_Cancel_queue
  show ?thesis using reader_cancel_queue_inv [OF assms(1) R_Cancel_queue] assms(2) R_Cancel_queue by (simp add: reader_step_def)
qed (use assms(2) in \<open>simp_all add: reader_step_def\<close>)

end
