(* ===== verification/Pipe_Main.thy ===== *)
theory Pipe_Main
  imports Pipe_Threads
begin

text \<open>The main thread keeps the invariant of \<open>Pipe_Threads\<close>, and so does every event of a run.\<close>

text \<open>What the main thread's steps do not disturb.\<close>

definition main_leaves :: "sys \<Rightarrow> sys \<Rightarrow> bool" where
  "main_leaves s s' \<longleftrightarrow>
     pulled s' = pulled s \<and> allocs s' = allocs s \<and> queue_ended s' = queue_ended s \<and>
     has_error (reader s') = has_error (reader s) \<and> last_error (reader s') = last_error (reader s) \<and>
     track_started (reader s') = track_started (reader s) \<and> track_pending (reader s') = track_pending (reader s) \<and>
     track_finished (reader s') = track_finished (reader s) \<and>
     (rt_cancelled (reader s) \<longrightarrow> rt_cancelled (reader s')) \<and> (rt_shutdown (reader s) \<longrightarrow> rt_shutdown (reader s')) \<and>
     (queue_cancelled s \<longrightarrow> queue_cancelled s') \<and>
     (rpc s' = rpc s \<or> rpc s = R_Await_asleep \<and> rpc s' = R_Await \<or>
        (\<exists>n l. rpc s = R_Push_asleep n l \<and> rpc s' = R_Push n l)) \<and>
     (rpc s' = R_Await_asleep \<longrightarrow> rt_shutdown (reader s') = rt_shutdown (reader s)) \<and>
     (\<forall>n l. rpc s' = R_Push_asleep n l \<longrightarrow> frames_in s' = frames_in s \<and> queue_cancelled s' = queue_cancelled s)"

lemma main_leavesD:
  assumes "main_leaves s s'"
  shows "pulled s' = pulled s" "allocs s' = allocs s" "queue_ended s' = queue_ended s"
    "has_error (reader s') = has_error (reader s)" "last_error (reader s') = last_error (reader s)"
    "track_started (reader s') = track_started (reader s)" "track_pending (reader s') = track_pending (reader s)"
    "track_finished (reader s') = track_finished (reader s)"
    "rt_cancelled (reader s) \<Longrightarrow> rt_cancelled (reader s')" "rt_shutdown (reader s) \<Longrightarrow> rt_shutdown (reader s')"
    "queue_cancelled s \<Longrightarrow> queue_cancelled s'"
  using assms by (simp_all add: main_leaves_def)

lemma pulled_Nil: "pulled s = [] \<longleftrightarrow> popped s = [] \<and> frames_in s = []"
  by (simp add: pulled_def)

lemma reader_view_stable:
  assumes "main_leaves s s'"
  shows "untouched s' = untouched s" "begun s' = begun s" "reading env track s' n = reading env track s n"
    "over s \<Longrightarrow> over s'" "ended_with env track s' c = ended_with env track s c" "reader_code s' = reader_code s"
proof -
  note D = main_leavesD [OF assms]
  have "frames_in s' = [] \<and> popped s' = [] \<longleftrightarrow> frames_in s = [] \<and> popped s = []"
    using pulled_Nil [of s] pulled_Nil [of s'] D(1) by auto
  then show "untouched s' = untouched s" using D by (auto simp: untouched_def)
qed (use main_leavesD [OF assms] in \<open>auto simp: begun_def reading_def over_def ended_with_def reader_code_def\<close>)

lemma reader_stable:
  assumes "at_reader env track s (rpc s)" "main_leaves s s'"
  shows "at_reader env track s' (rpc s')"
proof -
  note D = main_leavesD [OF assms(2)] reader_view_stable [OF assms(2)]
  have empty: "frames_in s' = [] \<and> popped s' = [] \<longleftrightarrow> frames_in s = [] \<and> popped s = []"
    using pulled_Nil [of s] pulled_Nil [of s'] D(1) by auto
  consider "rpc s' = rpc s" | "rpc s = R_Await_asleep" "rpc s' = R_Await"
    | n l where "rpc s = R_Push_asleep n l" "rpc s' = R_Push n l"
    using assms(2) unfolding main_leaves_def by metis
  then show ?thesis
  proof cases
    case 1
    then show ?thesis
      using assms empty by (cases "rpc s") (auto simp: D main_leaves_def split: if_splits option.splits)
  qed (use assms(1) D in auto)
qed

lemma main_keeps:
  "\<lbrakk>threads_inv env track s; global_inv env track s'; at_main env s' (mpc s'); main_leaves s s'\<rbrakk>
     \<Longrightarrow> threads_inv env track s'"
  unfolding threads_inv_def using reader_stable by blast

lemma mpc_update [simp]:
  "untouched (s\<lparr>mpc := pc\<rparr>) = untouched s" "looping env (s\<lparr>mpc := pc\<rparr>) = looping env s"
  "settled env (s\<lparr>mpc := pc\<rparr>) = settled env s" "leaving env (s\<lparr>mpc := pc\<rparr>) = leaving env s"
  "no_more_pushes (s\<lparr>mpc := pc\<rparr>) = no_more_pushes s" "global_inv env track (s\<lparr>mpc := pc\<rparr>) = global_inv env track s"
  by (simp_all add: untouched_def looping_def settled_def leaving_def no_more_pushes_def pulled_def global_inv_def
      in_order_def flags_ok_def ended_ok_def queue_inv_def ended_with_def reader_code_def)

lemma at_main_mpc [simp]: "at_main env (s\<lparr>mpc := pc\<rparr>) x = at_main env s x"
  by (cases x) simp_all

lemma leaves_mpc: "main_leaves s (s\<lparr>mpc := pc\<rparr>)"
  by (simp add: main_leaves_def pulled_def)

lemma main_mpc_step:
  assumes "threads_inv env track s" "at_main env s pc"
  shows "threads_inv env track (s\<lparr>mpc := pc\<rparr>)"
  by (rule main_keeps [OF assms(1) _ _ leaves_mpc]) (use assms(2) threads_invD(1) [OF assms(1)] in simp_all)

text \<open>A track that is finished has been taken.\<close>

lemma finished_taken:
  assumes "threads_inv env track s" "track_finished (reader s)"
  shows "track_taken s"
  using threads_invD(2) [OF assms(1)] assms(2)
  by (cases "rpc s") (auto simp: untouched_def over_def begun_def reading_def)

text \<open>When the queue has ended and is empty, the last frame was taken or there is an error.\<close>

lemma ended_empty:
  assumes "threads_inv env track s" "queue_ended s" "frames_in s = []" "\<forall>i \<in> set (popped s). \<not> is_last_frame env i"
  shows "has_error (reader s) \<and> last_error (reader s) \<noteq> DSDPIPE_OK"
proof (rule ccontr)
  assume n: "\<not> ?thesis"
  have e: "ended_with env track s (reader_code s)" "has_error (reader s) \<longrightarrow> last_error (reader s) \<noteq> DSDPIPE_OK"
    using globalD(6) [OF threads_invD(1) [OF assms(1)]] assms(2) by (simp_all add: ended_ok_def)
  then have "track_spec env track (length (pulled s)) DSDPIPE_OK"
    using n by (auto simp: ended_with_def reader_code_def)
  then have l: "0 < length (pulled s)" "is_last_frame env (length (pulled s) - 1)"
    using track_spec_ok by blast+
  have "pulled s = popped s" using assms(3) by (simp add: pulled_def)
  moreover have "length (pulled s) - 1 \<in> set (pulled s)"
    using l(1) globalD(4) [OF threads_invD(1) [OF assms(1)]] unfolding in_order_def
    by (metis atLeastLessThan_iff diff_less less_numeral_extra(1) set_upt zero_le)
  ultimately show False using l(2) assms(4) by simp
qed

lemma global_inv_main:
  assumes "global_inv env track s" "queue_inv s'" "frames_in s' = frames_in s" "queue_ended s' = queue_ended s"
    "popped s' = popped s" "faulted s' = faulted s" "\<exists>ns. popped s = delivered s' @ ns"
    "has_error (reader s') = has_error (reader s)" "last_error (reader s') = last_error (reader s)"
    "track_started (reader s') = track_started (reader s)" "track_pending (reader s') = track_pending (reader s)"
    "track_finished (reader s') = track_finished (reader s)" "current_track (reader s') = current_track (reader s)"
    "rt_shutdown (reader s') \<Longrightarrow> rt_cancelled (reader s') \<and> track_taken s \<and> track_finished (reader s)"
    "queue_cancelled s' \<Longrightarrow> rt_cancelled (reader s')"
    "returns_at_once s' \<noteq> None \<Longrightarrow> \<exists>k. process_batch env k \<noteq> Batch_done"
  shows "global_inv env track s'"
proof -
  have p: "pulled s' = pulled s" using assms by (simp add: pulled_def)
  have "in_order s'" "flags_ok env s'" "frames_ok env track (pulled s')"
    using assms(1,3) p by (simp_all add: global_inv_def in_order_def flags_ok_def)
  moreover have "ended_ok env track s'"
    using assms(1,4) p by (auto simp: global_inv_def ended_ok_def ended_with_def reader_code_def assms)
  ultimately show ?thesis using assms by (simp add: global_inv_def)
qed

lemma queue_inv: "global_inv env track s \<Longrightarrow> queue_inv s"
  by (simp add: global_inv_def)

lemma queue_inv_cong: "queue s' = queue s \<Longrightarrow> queue_inv s' = queue_inv s"
  by (simp add: queue_inv_def)

lemma queue_inv_cancel: "queue s' = (queue s)\<lparr>fq_cancelled := b\<rparr> \<Longrightarrow> queue_inv s' = queue_inv s"
  by (simp add: queue_inv_def)

lemma main_test_inv:
  assumes "threads_inv env track s" "mpc s = M_Test"
  shows "threads_inv env track (s\<lparr>mpc := (if \<not> pipe_cancelled s \<and> \<not> track_complete s then M_Pop else M_Cleanup)\<rparr>)"
  using threads_invD(3) [OF assms(1)] assms(2)
  by (intro main_mpc_step [OF assms(1)]) (auto simp: looping_def settled_def)

lemma main_pop_inv:
  assumes "threads_inv env track s" "mpc s = M_Pop"
  shows "threads_inv env track (main_pop s)"
proof -
  note inv = threads_invD [OF assms(1)]
  have b: "looping env s" "popped s = delivered s" "\<not> track_complete s" using inv(3) assms(2) by simp_all
  show ?thesis
  proof (rule fq.pop_cases [OF globalD(2) [OF inv(1)], of 16])
    show "(16 :: nat) \<noteq> 0" by simp
  next
    assume "fq_cancelled (queue s)"
    then show ?thesis using globalD(10) [OF inv(1)] b(1) by (simp add: looping_def)
  next
    assume q: "frames_in s = []" "\<not> queue_ended s"
      "dsdpipe_frame_queue_pop_batch 16 (queue s) = (Ok (Blocked NotEmpty), queue s)"
    have "threads_inv env track (s\<lparr>mpc := M_Pop_asleep\<rparr>)" using b q by (intro main_mpc_step [OF assms(1)]) simp
    then show ?thesis using q by (simp add: main_pop_def on_queue_def)
  next
    assume q: "frames_in s = []" "queue_ended s"
      "dsdpipe_frame_queue_pop_batch 16 (queue s) = (Ok (Left ([], False) []), queue s)"
    have "threads_inv env track (s\<lparr>mpc := M_Check False\<rparr>)" using b q by (intro main_mpc_step [OF assms(1)]) simp
    moreover have "main_pop s = s\<lparr>mpc := M_Check False\<rparr>"
      using b(3) q by (simp add: main_pop_def on_queue_def wake_def)
    ultimately show ?thesis by simp
  next
    fix fs q' assume q: "\<not> queue_cancelled s" "fs = batch_of 16 (frames_in s)" "fs \<noteq> []"
      "dsdpipe_frame_queue_pop_batch 16 (queue s) =
        (Ok (Left (map (Some \<circ> fst) fs, \<exists>f. (f, True) \<in> set fs) [Signal NotFull]), q')"
      "queue_ok q'" "frames_in s = fs @ queue_contents q'" "fq_capacity q' = fq_capacity (queue s)"
      "fq_eof q' = queue_ended s" "fq_cancelled q' = queue_cancelled s"
    let ?s = "wake [Signal NotFull] (s\<lparr>queue := q', track_complete := (\<exists>f. (f, True) \<in> set fs),
        popped := popped s @ map fst fs, mpc := M_Batch (map fst fs)\<rparr>)"
    have s: "main_pop s = ?s" using q by (auto simp: main_pop_def on_queue_def comp_def)
    have p: "pulled ?s = pulled s" using q(6) by (simp add: pulled_def)
    have f: "\<forall>(i, l) \<in> set fs. l = is_last_frame env i" "\<forall>(i, l) \<in> set (queue_contents q'). l = is_last_frame env i"
      using globalD(5) [OF inv(1)] q(6) by (auto simp: flags_ok_def)
    have "(\<exists>i \<in> set (map fst fs). is_last_frame env i) \<longleftrightarrow> (\<exists>f. (f, True) \<in> set fs)" using f(1) by force
    then have at: "at_main env ?s (mpc ?s)" using b q(3) by (auto simp: looping_def)
    have "in_order ?s" "ended_ok env track ?s" "frames_ok env track (pulled ?s)"
      using globalD(4,6,12) [OF inv(1)] q(8) unfolding in_order_def ended_ok_def ended_with_def p
      by (auto simp: reader_code_def)
    moreover have "flags_ok env ?s" using f(2) by (simp add: flags_ok_def)
    moreover have "\<exists>ns. popped ?s = delivered ?s @ ns" using b(2) by simp
    ultimately have g: "global_inv env track ?s"
      using inv(1) q(5,7,9) by (simp add: global_inv_def queue_inv_def)
    have l: "main_leaves s ?s"
      using p q(8,9) unfolding main_leaves_def by (cases "rpc s") simp_all
    show ?thesis unfolding s by (rule main_keeps [OF assms(1) g at l])
  qed
qed

lemma main_check_inv:
  assumes "threads_inv env track s" "mpc s = M_Check failed"
  shows "threads_inv env track (if has_error (reader s) then s\<lparr>mpc := M_Get_error\<rparr>
    else s\<lparr>mpc := M_Cleanup, main_result := (if failed then ERROR_READ else DSDPIPE_OK)\<rparr>)"
proof -
  have b: "looping env s" "popped s = delivered s" "\<not> track_complete s" "frames_in s = []" "queue_ended s"
    using threads_invD(3) [OF assms(1)] assms(2) by simp_all
  then have "has_error (reader s)" using ended_empty [OF assms(1)] by (simp add: looping_def)
  then show ?thesis using main_mpc_step [OF assms(1), of M_Get_error] b by simp
qed

lemma main_error_inv:
  assumes "threads_inv env track s" "mpc s = M_Get_error"
  shows "threads_inv env track (s\<lparr>mpc := M_Cleanup, main_result := last_error (reader s)\<rparr>)"
proof -
  note inv = threads_invD [OF assms(1)]
  have b: "looping env s" "popped s = delivered s" "\<not> track_complete s" "frames_in s = []" "queue_ended s"
    "has_error (reader s)" using inv(3) assms(2) by simp_all
  let ?s = "s\<lparr>mpc := M_Cleanup, main_result := last_error (reader s)\<rparr>"
  have "global_inv env track ?s"
    using b globalD [OF inv(1)] queue_inv [OF inv(1)] by (intro global_inv_main [OF inv(1)]) (simp_all add: looping_def queue_inv_def)
  moreover have "at_main env ?s (mpc ?s)" using b by (simp add: looping_def settled_def)
  moreover have "main_leaves s ?s" by (simp add: main_leaves_def pulled_def)
  ultimately show ?thesis by (rule main_keeps [OF assms(1)])
qed

text \<open>The codes of a failed batch are errors.\<close>

definition codes_ok :: "track_env \<Rightarrow> bool" where
  "codes_ok env \<longleftrightarrow> (\<forall>k. case process_batch env k of
     Decode_failed c \<Rightarrow> c \<noteq> DSDPIPE_OK | Write_failed j c \<Rightarrow> c \<noteq> DSDPIPE_OK | _ \<Rightarrow> True)"

lemma main_batch_inv:
  assumes "threads_inv env track s" "mpc s = M_Batch ns" "codes_ok env"
  shows "threads_inv env track (main_batch (process_batch env (batches s)) ns s)"
proof -
  note inv = threads_invD [OF assms(1)]
  let ?o = "process_batch env (batches s)"
  let ?s = "main_batch ?o ns s"
  have b: "looping env s" "popped s = delivered s @ ns" using inv(3) assms(2) by simp_all
  have fields: "queue ?s = queue s" "reader ?s = reader s" "allocs ?s = allocs s" "popped ?s = popped s" "rpc ?s = rpc s"
    "track_complete ?s = track_complete s" "faulted ?s = faulted s"
    by (simp_all add: main_batch_def Let_def split: batch_outcome.splits)
  have "\<exists>ns'. ns = take j ns @ ns'" for j by (metis append_take_drop_id)
  then have "\<exists>ns'. popped s = delivered ?s @ ns'"
    using b(2) by (auto simp: main_batch_def Let_def split: batch_outcome.splits)
  moreover have "returns_at_once ?s \<noteq> None \<Longrightarrow> \<exists>k. process_batch env k \<noteq> Batch_done"
    using globalD(11) [OF inv(1)]
    by (cases ?o) (auto simp: main_batch_def Let_def intro!: exI [of _ "batches s"])
  ultimately have g: "global_inv env track ?s"
    using fields globalD [OF inv(1)] queue_inv [OF inv(1)] by (intro global_inv_main [OF inv(1)]) (simp_all add: queue_inv_def)
  have l: "main_leaves s ?s" by (simp add: main_leaves_def pulled_def fields)
  have o: "?o = Batch_done \<or> (\<exists>k. process_batch env k \<noteq> Batch_done)" by blast
  have c: "case ?o of Decode_failed c \<Rightarrow> c \<noteq> DSDPIPE_OK | Write_failed j c \<Rightarrow> c \<noteq> DSDPIPE_OK | _ \<Rightarrow> True"
    using assms(3) by (simp add: codes_ok_def)
  have "at_main env ?s (mpc ?s)"
    using b o c by (cases ?o) (simp_all add: main_batch_def looping_def settled_def)
  then show ?thesis by (rule main_keeps [OF assms(1) g _ l])
qed

lemma main_cleanup_inv:
  assumes "threads_inv env track s" "mpc s = M_Cleanup"
  shows "threads_inv env track (s\<lparr>mpc := (if main_result s \<noteq> DSDPIPE_OK \<or> pipe_cancelled s then M_Cancel_flag else M_Wait)\<rparr>)"
  using threads_invD(3) [OF assms(1)] assms(2)
  by (intro main_mpc_step [OF assms(1)]) (auto simp: leaving_def)

lemma main_cancel_flag_inv:
  assumes "threads_inv env track s" "mpc s = M_Cancel_flag"
  shows "threads_inv env track (s\<lparr>reader := (reader s)\<lparr>rt_cancelled := True\<rparr>, mpc := M_Cancel_queue\<rparr>)"
proof -
  note inv = threads_invD [OF assms(1)]
  let ?s = "s\<lparr>reader := (reader s)\<lparr>rt_cancelled := True\<rparr>, mpc := M_Cancel_queue\<rparr>"
  have "global_inv env track ?s"
    using globalD [OF inv(1)] queue_inv [OF inv(1)] by (intro global_inv_main [OF inv(1)]) (simp_all add: queue_inv_def)
  moreover have "at_main env ?s (mpc ?s)" using inv(3) assms(2) by (simp add: settled_def)
  moreover have "main_leaves s ?s" by (simp add: main_leaves_def pulled_def)
  ultimately show ?thesis by (rule main_keeps [OF assms(1)])
qed

text \<open>Waking the reader.\<close>

lemma woken_full:
  "wake_reader NotFull r = r \<and> (\<forall>n l. r \<noteq> R_Push_asleep n l) \<or> (\<exists>n l. r = R_Push_asleep n l \<and> wake_reader NotFull r = R_Push n l)"
  by (cases r) simp_all

lemma woken_start:
  "wake_reader TrackStart r = r \<and> r \<noteq> R_Await_asleep \<or> r = R_Await_asleep \<and> wake_reader TrackStart r = R_Await"
  by (cases r) simp_all

lemma reader_awake [simp]:
  "wake_reader NotFull r \<noteq> R_Push_asleep n l" "wake_reader TrackStart r \<noteq> R_Await_asleep"
  "wake_reader TrackStart r = R_Push_asleep n l \<longleftrightarrow> r = R_Push_asleep n l"
  "wake_reader NotFull r = R_Await_asleep \<longleftrightarrow> r = R_Await_asleep" "wake_reader c r = R_Exit \<longleftrightarrow> r = R_Exit"
  by (cases r; simp; fail | cases c; cases r; simp)+

text \<open>Cancelling the queue, at the two points where the main thread does.\<close>

lemma main_queue_cancel:
  assumes "threads_inv env track s" "rt_cancelled (reader s)" "settled env s" "track_started (reader s)"
    "pc = M_Wait \<or> pc = M_Join \<and> rt_shutdown (reader s)"
  shows "threads_inv env track ((queue_section dsdpipe_frame_queue_cancel s)\<lparr>mpc := pc\<rparr>)"
proof -
  note inv = threads_invD [OF assms(1)]
  let ?s = "(queue_section dsdpipe_frame_queue_cancel s)\<lparr>mpc := pc\<rparr>"
  have "global_inv env track ?s"
    using globalD [OF inv(1)] queue_inv [OF inv(1)] assms(2)
    by (intro global_inv_main [OF inv(1)]) (simp_all add: queue_inv_def)
  moreover have "at_main env ?s (mpc ?s)"
    using assms(2-5) by (auto simp: leaving_def settled_def no_more_pushes_def)
  moreover have "main_leaves s ?s"
    using woken_full [of "rpc s"] by (auto simp: main_leaves_def pulled_def)
  ultimately show ?thesis by (rule main_keeps [OF assms(1)])
qed

lemma main_wait_inv:
  assumes "threads_inv env track s" "mpc s = M_Wait"
  shows "threads_inv env track (dsdpipe_reader_thread_wait s)"
  using threads_invD(3) [OF assms(1)] assms(2) globalD(9) [OF threads_invD(1) [OF assms(1)]]
  unfolding dsdpipe_reader_thread_wait_def Let_def
  by (intro main_mpc_step [OF assms(1)]) (auto simp: leaving_def)

lemma main_shutdown_inv:
  assumes "threads_inv env track s" "mpc s = M_Shutdown"
  shows "threads_inv env track (wake [Broadcast TrackStart, Broadcast TrackDone]
     (s\<lparr>reader := (reader s)\<lparr>rt_shutdown := True, rt_cancelled := True\<rparr>, mpc := M_Shutdown_queue\<rparr>))"
proof -
  note inv = threads_invD [OF assms(1)]
  let ?s = "wake [Broadcast TrackStart, Broadcast TrackDone]
     (s\<lparr>reader := (reader s)\<lparr>rt_shutdown := True, rt_cancelled := True\<rparr>, mpc := M_Shutdown_queue\<rparr>)"
  have b: "settled env s" "track_finished (reader s)" using inv(3) assms(2) by simp_all
  have "global_inv env track ?s"
    using globalD [OF inv(1)] queue_inv [OF inv(1)] finished_taken [OF assms(1) b(2)] b(2)
    by (intro global_inv_main [OF inv(1)]) (simp_all add: queue_inv_def)
  moreover have "at_main env ?s (mpc ?s)" using b by (simp add: settled_def)
  moreover have "main_leaves s ?s"
    using woken_start [of "rpc s"] by (auto simp: main_leaves_def pulled_def)
  ultimately show ?thesis by (rule main_keeps [OF assms(1)])
qed

lemma main_destroy_inv:
  assumes "threads_inv env track s" "mpc s = M_Destroy"
  shows "threads_inv env track (case dsdpipe_frame_queue_destroy (Ptr (queue s)) of
       (Ok fs, _) \<Rightarrow> release fs (s\<lparr>mpc := M_Return\<rparr>) | _ \<Rightarrow> s\<lparr>faulted := True\<rparr>)"
proof -
  note inv = threads_invD [OF assms(1)]
  let ?s = "release (map fst (frames_in s)) (s\<lparr>mpc := M_Return\<rparr>)"
  have "global_inv env track ?s" using inv(1) by simp
  moreover have "at_main env ?s (mpc ?s)" using inv(3) assms(2) by (simp add: settled_def)
  moreover have "main_leaves s ?s" by (simp add: main_leaves_def pulled_def)
  ultimately have "threads_inv env track ?s" by (rule main_keeps [OF assms(1)])
  then show ?thesis using destroy_law [OF globalD(2) [OF inv(1)]] by simp
qed

lemma main_start_inv:
  assumes "threads_inv env track s" "mpc s = M_Start"
  shows "threads_inv env track (dsdpipe_reader_thread_start_track track s)"
proof -
  note inv = threads_invD [OF assms(1)]
  have b: "untouched s" "\<not> track_started (reader s)" "\<not> rt_cancelled (reader s)" "main_result s = DSDPIPE_OK"
    "returns_at_once s = None" "\<not> track_complete s" "delivered s = []"
    using inv(3) assms(2) by simp_all
  have sd: "\<not> rt_shutdown (reader s)" using globalD(9) [OF inv(1)] b(3) by blast
  let ?s = "wake [Signal TrackStart] (s\<lparr>reader := (reader s)\<lparr>rt_cancelled := False, current_track := track,
      track_pending := True, track_started := True, track_finished := False\<rparr>, mpc := M_Test\<rparr>)"
  have u: "untouched ?s" "popped s = []" using b(1) by (simp_all add: untouched_def)
  have r: "rpc s = R_Top \<or> rpc s = R_Await \<or> rpc s = R_Await_asleep"
    using inv(2) b(1,2) by (cases "rpc s") (auto simp: begun_def reading_def over_def)
  have "global_inv env track ?s"
    using inv(1) u b sd
    by (simp add: global_inv_def queue_inv_def in_order_def pulled_def flags_ok_def ended_ok_def untouched_def)
  moreover have "at_reader env track ?s (rpc ?s)" using r u(1) by (auto simp del: wake_update)
  moreover have "at_main env ?s (mpc ?s)" using b u(2) by (simp add: looping_def)
  ultimately show ?thesis
    using b sd by (simp add: threads_inv_def dsdpipe_reader_thread_start_track_def Let_def)
qed

lemma main_step_inv:
  assumes "threads_inv env track s" "codes_ok env" "main_step env track s = Some s'"
  shows "threads_inv env track s'"
proof -
  note inv = threads_invD [OF assms(1)]
  note st = assms(3) [unfolded main_step_def]
  show ?thesis
  proof (cases "mpc s")
    case M_Start
    then show ?thesis using main_start_inv [OF assms(1)] st by simp
  next
    case M_Test
    then show ?thesis using main_test_inv [OF assms(1)] st by simp
  next
    case M_Pop
    then show ?thesis using main_pop_inv [OF assms(1)] st by simp
  next
    case (M_Check f)
    then show ?thesis using main_check_inv [OF assms(1) M_Check] st by simp
  next
    case M_Get_error
    then show ?thesis using main_error_inv [OF assms(1)] st by simp
  next
    case (M_Batch ns)
    then show ?thesis using main_batch_inv [OF assms(1) M_Batch assms(2)] st by simp
  next
    case M_Cleanup
    then show ?thesis using main_cleanup_inv [OF assms(1)] st by simp
  next
    case M_Cancel_flag
    then show ?thesis using main_cancel_flag_inv [OF assms(1)] st by simp
  next
    case M_Cancel_queue
    then show ?thesis using main_queue_cancel [OF assms(1), of M_Wait] inv(3) st by simp
  next
    case M_Wait
    then show ?thesis using main_wait_inv [OF assms(1)] st by simp
  next
    case M_Shutdown
    then show ?thesis using main_shutdown_inv [OF assms(1)] st by simp
  next
    case M_Shutdown_queue
    then show ?thesis
      using main_queue_cancel [OF assms(1), of M_Join] inv(3) globalD(9) [OF inv(1)] st by simp
  next
    case M_Join
    then show ?thesis using main_mpc_step [OF assms(1), of M_Destroy] inv(3) st by (simp split: if_splits)
  next
    case M_Destroy
    then show ?thesis using main_destroy_inv [OF assms(1)] st by simp
  next
    case M_Return
    then show ?thesis
      using main_mpc_step [OF assms(1), of "M_Done (case returns_at_once s of
        Some c \<Rightarrow> c | None \<Rightarrow> if pipe_cancelled s then ERROR_CANCELLED else main_result s)"] inv(3) st
      by (auto split: option.splits)
  qed (use st in simp_all)
qed

section \<open>Other events\<close>

lemma cancel_inv:
  assumes "threads_inv env track s"
  shows "threads_inv env track (dsdpipe_cancel s)"
proof -
  note inv = threads_invD [OF assms]
  let ?s = "s\<lparr>pipe_cancelled := True\<rparr>"
  have "at_main env ?s (mpc ?s)"
    using inv(3) by (cases "mpc s") (auto simp: looping_def settled_def leaving_def no_more_pushes_def untouched_def)
  moreover have "global_inv env track ?s"
    using globalD [OF inv(1)] queue_inv [OF inv(1)] by (intro global_inv_main [OF inv(1)]) (simp_all add: queue_inv_def)
  moreover have "main_leaves s ?s" by (simp add: main_leaves_def pulled_def)
  ultimately show ?thesis unfolding dsdpipe_cancel_def by (intro main_keeps [OF assms])
qed

lemma reader_wakes_inv:
  assumes "threads_inv env track s"
  shows "threads_inv env track (wake [Signal TrackStart, Signal NotFull] s)"
proof -
  note inv = threads_invD [OF assms]
  let ?s = "wake [Signal TrackStart, Signal NotFull] s"
  have "at_reader env track ?s (rpc ?s)" using inv(2) by (cases "rpc s") (simp_all add: wake_def)
  moreover have "reader_leaves s ?s"
    by (cases "rpc s") (simp_all add: reader_leaves_def no_more_pushes_def)
  ultimately show ?thesis using inv(1) by (intro reader_keeps [OF assms]) simp_all
qed

lemma main_wakes_inv:
  assumes "threads_inv env track s"
  shows "threads_inv env track (wake [Signal NotEmpty, Signal TrackDone] s)"
proof -
  note inv = threads_invD [OF assms]
  have s: "wake [Signal NotEmpty, Signal TrackDone] s = s\<lparr>mpc := wake_main TrackDone (wake_main NotEmpty (mpc s))\<rparr>"
    by (simp add: wake_def)
  have "at_main env s (wake_main TrackDone (wake_main NotEmpty (mpc s)))"
    using inv(3) by (cases "mpc s") simp_all
  then show ?thesis unfolding s by (rule main_mpc_step [OF assms])
qed

lemma sys_step_inv:
  assumes "threads_inv env track s" "codes_ok env" "sys_step env track e s = Some s'"
  shows "threads_inv env track s'"
proof (cases e)
  case Reader_runs
  then show ?thesis using reader_step_inv [OF assms(1)] assms(3) by simp
next
  case Main_runs
  then show ?thesis using main_step_inv [OF assms(1,2)] assms(3) by simp
next
  case Reader_wakes
  then show ?thesis using reader_wakes_inv [OF assms(1)] assms(3) by (auto simp: spurious_def split: if_splits)
next
  case Main_wakes
  then show ?thesis using main_wakes_inv [OF assms(1)] assms(3) by (auto simp: spurious_def split: if_splits)
next
  case Cancel_called
  then show ?thesis using cancel_inv [OF assms(1)] assms(3) by auto
qed

lemma setup_inv:
  assumes "dsdpipe_frame_queue_create hp pf DSDPIPE_FRAME_QUEUE_CAPACITY = Some q"
  shows "threads_inv env track (track_setup q)"
  using create_queue_ok [OF assms]
  by (simp add: threads_inv_def track_setup_def reader_created_def global_inv_def queue_inv_def in_order_def pulled_def
      flags_ok_def ended_ok_def untouched_def)

lemma reachable_inv:
  assumes "sys_reachable env track s s'" "threads_inv env track s" "codes_ok env"
  shows "threads_inv env track s'"
  using assms by (induction rule: sys_reachable.induct) (auto intro: sys_step_inv)

end
