(* ===== verification/Pipe_Progress.thy ===== *)
theory Pipe_Progress
  imports Pipe_Main "HOL-Library.Multiset"
begin

text \<open>
  What follows from the invariant of the two threads: frames arrive in order, neither thread waits for
  ever, the result of a track is that of its specification, every buffer is given up once, and the
  conversion ends when the track does.
\<close>

section \<open>Order and outcome\<close>

lemma prefix_upt: "xs @ ys = [0..<n] \<Longrightarrow> xs = [0..<length xs]"
  by (metis append_eq_conv_conj length_append le_add1 length_upt minus_nat.diff_0 take_upt plus_nat.add_0)

lemma delivered_prefix:
  assumes "threads_inv env track s"
  shows "\<exists>ns. pulled s = delivered s @ ns" "delivered s = [0..<length (delivered s)]"
proof -
  note inv = threads_invD(1) [OF assms]
  show p: "\<exists>ns. pulled s = delivered s @ ns" using globalD(7) [OF inv] by (auto simp: pulled_def)
  then show "delivered s = [0..<length (delivered s)]"
    using globalD(4) [OF inv] prefix_upt unfolding in_order_def by metis
qed

lemma popped_last:
  assumes "threads_inv env track s" "i \<in> set (popped s)" "is_last_frame env i"
  shows "popped s = pulled s" "track_spec env track (length (popped s)) DSDPIPE_OK"
proof -
  note inv = threads_invD(1) [OF assms(1)]
  have o: "pulled s = [0..<length (pulled s)]" using globalD(4) [OF inv] by (simp add: in_order_def)
  have f: "frames_ok env track (pulled s)" using globalD(12) [OF inv] .
  have i: "i < length (pulled s)"
    using assms(2) o by (metis UnI1 atLeastLessThan_iff pulled_def set_append set_upt)
  then have l: "length (pulled s) = Suc i"
    using f assms(3) unfolding frames_ok_def by (metis Suc_lessI)
  have "popped s = [0..<length (popped s)]" using o prefix_upt unfolding pulled_def by metis
  then have "i < length (popped s)" using assms(2) by (metis atLeastLessThan_iff set_upt)
  then have "length (pulled s) \<le> length (popped s)" using l by simp
  then have e: "frames_in s = []" by (simp add: pulled_def contents_Nil)
  then show "popped s = pulled s" by (simp add: pulled_def)
  then show "track_spec env track (length (popped s)) DSDPIPE_OK"
    using f l assms(3) by (auto simp: track_spec_def frames_ok_def)
qed

lemma outcome:
  assumes "threads_inv env track s" "mpc s = M_Done c" "\<not> pipe_cancelled s" "\<forall>k. process_batch env k = Batch_done"
  shows "track_spec env track (length (delivered s)) c"
proof -
  note inv = threads_invD [OF assms(1)]
  have "returns_at_once s = None" using globalD(11) [OF inv(1)] assms(4) by blast
  then have c: "settled env s" "c = main_result s" using inv(3) assms(2,3) by auto
  from c(1) consider i where "popped s = delivered s" "main_result s = DSDPIPE_OK" "i \<in> set (popped s)" "is_last_frame env i"
    | "popped s = delivered s" "frames_in s = []" "queue_ended s" "has_error (reader s)" "main_result s = last_error (reader s)"
    using assms(3,4) by (auto simp: settled_def)
  then show ?thesis
  proof cases
    case 1
    then show ?thesis using popped_last(2) [OF assms(1)] c(2) by auto
  next
    case 2
    then have "ended_with env track s (last_error (reader s))"
      using globalD(6) [OF inv(1)] by (simp add: ended_ok_def reader_code_def)
    then show ?thesis using 2 c(2) by (simp add: ended_with_def pulled_def)
  qed
qed

text \<open>The specification leaves no choice.\<close>

lemma track_spec_le:
  assumes "track_spec env track n c" "track_spec env track m d"
  shows "m \<le> n"
proof (rule ccontr)
  assume "\<not> m \<le> n"
  then have lt: "n < m" by simp
  then have s: "seek_track env track = DSDPIPE_OK" using assms(2) by (simp add: track_spec_def split: if_split_asm)
  then have m: "\<forall>i < m. buffer_alloc env i \<and> read_ok env i" "\<forall>i. Suc i < m \<longrightarrow> \<not> is_last_frame env i"
    using assms(2) by (simp_all add: track_spec_def)
  have "\<not> (0 < n \<and> is_last_frame env (n - 1))" using m(2) lt by (metis Suc_diff_1)
  then have "\<not> read_ok env n \<or> \<not> buffer_alloc env n" using assms(1) s by (auto simp: track_spec_def split: if_split_asm)
  then show False using m(1) lt by blast
qed

lemma track_spec_unique:
  assumes "track_spec env track n c" "track_spec env track m d"
  shows "n = m" "c = d"
proof -
  show "n = m" using track_spec_le [OF assms] track_spec_le [OF assms(2,1)] by simp
  then show "c = d" using assms by (auto simp: track_spec_def split: if_splits)
qed

section \<open>No deadlock\<close>

lemma some_thread_runs:
  assumes "threads_inv env track s" "\<forall>c. mpc s \<noteq> M_Done c"
  shows "reader_step env s \<noteq> None \<or> main_step env track s \<noteq> None"
proof (rule ccontr)
  assume n: "\<not> ?thesis"
  note inv = threads_invD [OF assms(1)]
  note gl = globalD [OF inv(1)]
  have m: "mpc s = M_Pop_asleep \<or> mpc s = M_Wait_asleep \<or> mpc s = M_Join \<and> rpc s \<noteq> R_Exit"
    using n inv(3) assms(2) by (cases "mpc s") (auto simp: main_step_def)
  have "rpc s = R_Await_asleep \<or> (\<exists>n l. rpc s = R_Push_asleep n l) \<or> rpc s = R_Exit"
    using n by (cases "rpc s") (auto simp: reader_step_def)
  then consider "rpc s = R_Await_asleep" | n l where "rpc s = R_Push_asleep n l" | "rpc s = R_Exit" by blast
  then show False
  proof cases
    case 1
    then have "untouched s \<or> over s" "\<not> track_pending (reader s)" "\<not> rt_shutdown (reader s)" using inv(2) by simp_all
    then show False
      using m inv(3) gl(10) by (auto simp: untouched_def over_def looping_def leaving_def)
  next
    case (2 n l)
    then have r: "reading env track s n" "length (frames_in s) = 64" "\<not> queue_cancelled s" using inv(2) by simp_all
    have "\<forall>i \<in> set (popped s). \<not> is_last_frame env i"
    proof
      fix i assume "i \<in> set (popped s)"
      then have "i < length (pulled s)"
        using gl(4) unfolding in_order_def by (metis UnI1 atLeastLessThan_iff pulled_def set_append set_upt)
      then show "\<not> is_last_frame env i" using r(1) by (simp add: reading_def)
    qed
    moreover have "frames_in s \<noteq> []" using r(2) by (metis list.size(3) zero_neq_numeral)
    ultimately show False
      using m inv(3) r 2 gl(9) by (auto simp: reading_def begun_def leaving_def no_more_pushes_def split: if_splits)
  next
    case 3
    then have "rt_shutdown (reader s)" using inv(2) by simp
    then show False using m inv(3) gl(9) 3 by (auto simp: looping_def)
  qed
qed

section \<open>Every buffer is given up once\<close>

fun held :: "reader_pc \<Rightarrow> nat list" where
  "held (R_Read n) = [n]"
| "held (R_Push n l) = [n]"
| "held (R_Push_asleep n l) = [n]"
| "held _ = []"

fun in_hand :: "main_pc \<Rightarrow> nat list" where
  "in_hand (M_Batch ns) = ns"
| "in_hand _ = []"

fun torn_down :: "main_pc \<Rightarrow> bool" where
  "torn_down M_Return \<longleftrightarrow> True"
| "torn_down (M_Done c) \<longleftrightarrow> True"
| "torn_down _ \<longleftrightarrow> False"

definition queued :: "sys \<Rightarrow> nat list" where
  "queued s = (if torn_down (mpc s) then [] else map fst (frames_in s))"

text \<open>All buffers but those in \<open>lost\<close>, which are never given up, are released or in someone's hands.\<close>

definition accounted :: "nat list \<Rightarrow> sys \<Rightarrow> bool" where
  "accounted lost s \<longleftrightarrow>
     mset (released s @ in_hand (mpc s) @ queued s @ held (rpc s) @ lost) = mset [0..<allocs s]"

lemma held_wake [simp]: "held (wake_reader c r) = held r"
  by (cases c; cases r) simp_all

lemma wake_main_classes [simp]: "in_hand (wake_main c m) = in_hand m" "torn_down (wake_main c m) = torn_down m"
  by (cases c; cases m; simp)+

lemma reader_up:
  assumes "threads_inv env track s" "rpc s \<noteq> R_Exit"
  shows "\<not> torn_down (mpc s)"
  using threads_invD(3) [OF assms(1)] assms(2) by (cases "mpc s") simp_all

lemma push_accounted:
  assumes "threads_inv env track s" "rpc s = R_Push n l" "accounted lost s"
  shows "accounted lost (reader_push n l s)"
proof -
  have up: "\<not> torn_down (mpc s)" using reader_up [OF assms(1)] assms(2) by simp
  show ?thesis
    by (rule fq.push_cases [OF globalD(2) [OF threads_invD(1) [OF assms(1)]], of n l])
      (use up assms(2,3) in \<open>auto simp: reader_push_def on_queue_def accounted_def queued_def\<close>)
qed

lemma reader_accounted:
  assumes "threads_inv env track s" "accounted lost s" "reader_step env s = Some s'"
  shows "accounted lost s'"
proof -
  have up: "\<not> torn_down (mpc s)"
    using assms(3) by (intro reader_up [OF assms(1)]) (auto simp: reader_step_def)
  note d = accounted_def queued_def
  note st = assms(3) [unfolded reader_step_def]
  show ?thesis
  proof (cases "rpc s")
    case (R_Push n l)
    then show ?thesis using push_accounted [OF assms(1) R_Push assms(2)] st by simp
  next
    case (R_Reset t)
    then show ?thesis
      using reset_law [OF globalD(2) [OF threads_invD(1) [OF assms(1)]]] up assms(2) st
      by (auto simp: on_queue_def d ac_simps)
  next
    case R_Await
    then show ?thesis using up assms(2) st by (auto simp: d reader_await_def Let_def)
  next
    case (R_Finish e eof bk)
    then show ?thesis using up assms(2) st by (auto simp: d reader_finish_def Let_def)
  next
    case R_Alloc
    then show ?thesis using up assms(2) st by (auto simp: d simp del: mset_upt split: if_splits)
  qed (use st up assms(2) in \<open>auto simp: d split: if_splits\<close>)
qed

lemma pop_accounted:
  assumes "threads_inv env track s" "mpc s = M_Pop" "accounted lost s"
  shows "accounted lost (main_pop s)"
proof (rule fq.pop_cases [OF globalD(2) [OF threads_invD(1) [OF assms(1)]], of 16])
  fix b q' assume q: "b \<noteq> []"
    "dsdpipe_frame_queue_pop_batch 16 (queue s) =
      (Ok (Left (map (Some \<circ> fst) b, \<exists>f. (f, True) \<in> set b) [Signal NotFull]), q')"
    "frames_in s = b @ queue_contents q'"
  then have "main_pop s = wake [Signal NotFull] (s\<lparr>queue := q', track_complete := (\<exists>f. (f, True) \<in> set b),
      popped := popped s @ map fst b, mpc := M_Batch (map fst b)\<rparr>)"
    by (auto simp: main_pop_def on_queue_def comp_def)
  then show ?thesis using q(3) assms(2,3) by (simp add: accounted_def queued_def add_ac)
qed (use assms(2,3) in \<open>simp_all add: main_pop_def on_queue_def accounted_def queued_def\<close>)

text \<open>A batch whose failing frame is not its first.\<close>

definition fails_at :: "track_env \<Rightarrow> sys \<Rightarrow> nat \<Rightarrow> bool" where
  "fails_at env s j \<longleftrightarrow> (\<exists>ns c. mpc s = M_Batch ns \<and> process_batch env (batches s) = Write_failed j c)"

lemma batch_accounted:
  assumes "accounted lost s" "mpc s = M_Batch ns"
  shows "accounted (case process_batch env (batches s) of Write_failed j c \<Rightarrow> take j ns @ lost | _ \<Rightarrow> lost)
    (main_batch (process_batch env (batches s)) ns s)"
proof (cases "process_batch env (batches s)")
  case (Write_failed j c)
  have "mset ns = mset (take j ns) + mset (drop j ns)" by (metis append_take_drop_id mset_append)
  then show ?thesis using Write_failed assms by (simp add: accounted_def queued_def main_batch_def add_ac)
qed (use assms in \<open>simp_all add: accounted_def queued_def main_batch_def add_ac\<close>)

lemma main_accounted:
  assumes "threads_inv env track s" "accounted lost s" "\<forall>j. fails_at env s j \<longrightarrow> j = 0" "main_step env track s = Some s'"
  shows "accounted lost s'"
proof -
  note d = accounted_def queued_def
  note st = assms(4) [unfolded main_step_def]
  show ?thesis
  proof (cases "mpc s")
    case M_Pop
    then show ?thesis using pop_accounted [OF assms(1)] assms(2) st by simp
  next
    case M_Start
    then show ?thesis using assms(2) st by (auto simp: d dsdpipe_reader_thread_start_track_def Let_def)
  next
    case (M_Batch ns)
    have "j = 0" if "process_batch env (batches s) = Write_failed j c" for j c
      using assms(3) M_Batch that unfolding fails_at_def by blast
    then have "(case process_batch env (batches s) of Write_failed j c \<Rightarrow> take j ns @ lost | _ \<Rightarrow> lost) = lost"
      by (cases "process_batch env (batches s)") auto
    then show ?thesis using batch_accounted [OF assms(2) M_Batch, of env] M_Batch st by simp
  next
    case M_Wait
    then show ?thesis using assms(2) st by (auto simp: d dsdpipe_reader_thread_wait_def Let_def)
  next
    case M_Destroy
    then have "s' = release (map fst (frames_in s)) (s\<lparr>mpc := M_Return\<rparr>)"
      using destroy_law [OF globalD(2) [OF threads_invD(1) [OF assms(1)]]] st by simp
    then show ?thesis using assms(2) M_Destroy by (simp add: d add_ac)
  qed (use st assms(2) in \<open>auto simp: d split: if_splits\<close>)
qed

lemma event_accounted:
  assumes "threads_inv env track s" "accounted lost s" "\<forall>j. fails_at env s j \<longrightarrow> j = 0"
    "sys_step env track e s = Some s'"
  shows "accounted lost s'"
  using assms(4)
  by (cases e) (use assms reader_accounted [OF assms(1,2)] main_accounted [OF assms(1,2,3)] in
    \<open>auto simp: accounted_def queued_def dsdpipe_cancel_def spurious_def split: if_splits\<close>)

text \<open>The points of the loop; once it is left there is no batch any more.\<close>

fun in_loop :: "main_pc \<Rightarrow> bool" where
  "in_loop M_Start \<longleftrightarrow> True"
| "in_loop M_Start_asleep \<longleftrightarrow> True"
| "in_loop M_Test \<longleftrightarrow> True"
| "in_loop M_Pop \<longleftrightarrow> True"
| "in_loop M_Pop_asleep \<longleftrightarrow> True"
| "in_loop (M_Check f) \<longleftrightarrow> True"
| "in_loop M_Get_error \<longleftrightarrow> True"
| "in_loop (M_Batch ns) \<longleftrightarrow> True"
| "in_loop _ \<longleftrightarrow> False"

lemma in_loop_wake [simp]: "in_loop (wake_main c m) = in_loop m"
  by (cases c; cases m) simp_all

lemma in_loop_wakes [simp]: "in_loop (fold (wake_main \<circ> wakeup_cond) ws m) = in_loop m"
  by (induction ws arbitrary: m) simp_all

lemma reader_step_mpc: "reader_step env s = Some s' \<Longrightarrow> in_loop (mpc s') = in_loop (mpc s)"
  by (cases "rpc s")
    (auto simp: reader_step_def reader_await_def reader_push_def reader_finish_def on_queue_def Let_def
      split: prod.splits outcome.splits critical.splits if_splits)

lemma main_step_mpc:
  assumes "main_step env track s = Some s'" "in_loop (mpc s')"
  shows "in_loop (mpc s)" "\<not> fails_at env s j"
  using assms
  by (cases "mpc s"; auto simp: main_step_def dsdpipe_reader_thread_wait_def Let_def fails_at_def main_batch_def
      split: prod.splits outcome.splits if_splits batch_outcome.splits)+

lemma event_mpc:
  assumes "sys_step env track e s = Some s'" "in_loop (mpc s')"
  shows "in_loop (mpc s) \<and> (accounted lost s \<longrightarrow> threads_inv env track s \<longrightarrow> accounted lost s')"
proof (cases "e = Main_runs")
  case True
  then show ?thesis using main_step_mpc [of env track s s'] event_accounted [OF _ _ _ assms(1)] assms by auto
next
  case False
  then have "in_loop (mpc s)"
    using assms reader_step_mpc [of env s s']
    by (cases e) (auto simp: spurious_def dsdpipe_cancel_def split: if_splits)
  moreover have "accounted lost s \<longrightarrow> threads_inv env track s \<longrightarrow> accounted lost s'"
    using False assms(1) reader_accounted [of env track s lost s']
    by (cases e) (auto simp: accounted_def queued_def dsdpipe_cancel_def spurious_def split: if_splits)
  ultimately show ?thesis by blast
qed

lemma loop_accounted:
  assumes "sys_reachable env track s s'" "threads_inv env track s" "codes_ok env" "accounted [] s"
  shows "in_loop (mpc s') \<longrightarrow> accounted [] s'"
  using assms
proof (induction rule: sys_reachable.induct)
  case (reachable_step s' e s'')
  then show ?case using reachable_inv [OF reachable_step(1)] event_mpc by blast
qed simp

lemma after_accounted:
  assumes "sys_reachable env track s s'" "threads_inv env track s" "codes_ok env" "accounted lost s" "\<not> in_loop (mpc s)"
  shows "accounted lost s' \<and> \<not> in_loop (mpc s')"
  using assms
proof (induction rule: sys_reachable.induct)
  case (reachable_step s' e s'')
  then have "\<not> fails_at env s' j" for j by (auto simp: fails_at_def)
  then show ?case
    using reachable_step reachable_inv [OF reachable_step(1)] event_accounted event_mpc by blast
qed simp

lemma reachable_accounted:
  assumes "sys_reachable env track s s'" "threads_inv env track s" "codes_ok env" "accounted [] s"
    "\<forall>k j c. process_batch env k = Write_failed j c \<longrightarrow> j = 0"
  shows "accounted [] s'"
  using assms
proof (induction rule: sys_reachable.induct)
  case (reachable_step s' e s'')
  then have "\<forall>j. fails_at env s' j \<longrightarrow> j = 0" unfolding fails_at_def by blast
  then show ?case using reachable_step reachable_inv [OF reachable_step(1)] event_accounted by blast
qed simp

lemma setup_accounted:
  "dsdpipe_frame_queue_create hp pf n = Some q \<Longrightarrow> accounted [] (track_setup q)"
  using create_queue_ok [of hp pf n q] by (simp add: accounted_def queued_def track_setup_def)

end
