(* ===== verification/Pipe_Ends.thy ===== *)
theory Pipe_Ends
  imports Pipe_Progress
begin

text \<open>
  The conversion of a track of \<open>n\<close> frames takes a bounded number of steps, however the threads are
  scheduled, unless threads are woken without a signal. Each point of a thread has a rank; a step lowers
  the rank of its thread by three or, when the thread goes to sleep, by one; being woken raises it by one.
\<close>

fun reader_rank :: "nat \<Rightarrow> sys \<Rightarrow> reader_pc \<Rightarrow> nat" where
  "reader_rank n s R_Top = (if track_taken s then 12 else 52 + 12 * Suc n)"
| "reader_rank n s R_Await = (if track_taken s then 9 else 49 + 12 * Suc n)"
| "reader_rank n s R_Await_asleep = (if track_taken s then 8 else 48 + 12 * Suc n)"
| "reader_rank n s (R_Reset t) = 46 + 12 * Suc n"
| "reader_rank n s (R_Seek t) = 43 + 12 * Suc n"
| "reader_rank n s R_Test = 40 + 12 * (Suc n - allocs s)"
| "reader_rank n s R_Alloc = 37 + 12 * (Suc n - allocs s)"
| "reader_rank n s (R_Read k) = 46 + 12 * (Suc n - allocs s)"
| "reader_rank n s (R_Push k l) = 43 + 12 * (Suc n - allocs s)"
| "reader_rank n s (R_Push_asleep k l) = 42 + 12 * (Suc n - allocs s)"
| "reader_rank n s (R_Finish e eof b) = 27"
| "reader_rank n s (R_Eof b) = 24"
| "reader_rank n s R_After = 21"
| "reader_rank n s R_Cancel = 18"
| "reader_rank n s R_Cancel_queue = 15"
| "reader_rank n s R_Exit = 0"

fun main_rank :: "nat \<Rightarrow> sys \<Rightarrow> main_pc \<Rightarrow> nat" where
  "main_rank n s M_Start = 75 + 12 * n"
| "main_rank n s M_Start_asleep = 74 + 12 * n"
| "main_rank n s M_Test = 60 + 12 * (Suc n - length (popped s))"
| "main_rank n s M_Pop = 57 + 12 * (Suc n - length (popped s))"
| "main_rank n s M_Pop_asleep = 56 + 12 * (Suc n - length (popped s))"
| "main_rank n s (M_Check f) = 50"
| "main_rank n s M_Get_error = 47"
| "main_rank n s (M_Batch ns) = 65 + 12 * (Suc n - length (popped s))"
| "main_rank n s M_Cleanup = 44"
| "main_rank n s M_Cancel_flag = 41"
| "main_rank n s M_Cancel_queue = 38"
| "main_rank n s M_Wait = 35"
| "main_rank n s M_Wait_asleep = 34"
| "main_rank n s M_Shutdown = 32"
| "main_rank n s M_Shutdown_queue = 29"
| "main_rank n s M_Join = 26"
| "main_rank n s M_Destroy = 23"
| "main_rank n s M_Return = 20"
| "main_rank n s (M_Done c) = 0"

definition work_left :: "nat \<Rightarrow> sys \<Rightarrow> nat" where
  "work_left n s = reader_rank n s (rpc s) + main_rank n s (mpc s)"

lemma reader_rank_wake: "reader_rank n s (wake_reader c r) \<le> reader_rank n s r + 1"
  by (cases c; cases r) simp_all

lemma main_rank_wake: "main_rank n s (wake_main c m) \<le> main_rank n s m + 1"
  by (cases c; cases m) simp_all

lemma reader_rank_cong:
  "\<lbrakk>track_taken s' = track_taken s; allocs s' = allocs s\<rbrakk> \<Longrightarrow> reader_rank n s' r = reader_rank n s r"
  by (cases r) simp_all

lemma main_rank_cong: "popped s' = popped s \<Longrightarrow> main_rank n s' m = main_rank n s m"
  by (cases m) simp_all

section \<open>Bounds from the specification\<close>

text \<open>Frames that are read without error and not the last cannot be more than the track has.\<close>

lemma frames_bound:
  assumes "track_spec env track n c" "frames_ok env track ns"
  shows "length ns \<le> n"
proof (rule ccontr)
  assume "\<not> length ns \<le> n"
  then have lt: "n < length ns" "ns \<noteq> []" by auto
  then have s: "seek_track env track = DSDPIPE_OK" and m: "buffer_alloc env n \<and> read_ok env n"
    using assms(2) by (simp_all add: frames_ok_def)
  have "\<not> (0 < n \<and> is_last_frame env (n - 1))" using assms(2) lt(1) unfolding frames_ok_def by (metis Suc_diff_1)
  then show False using assms(1) s m by (auto simp: track_spec_def split: if_split_asm)
qed

lemma alloc_bound:
  assumes "track_spec env track n c" "reading env track s a"
  shows "a \<le> n"
proof -
  have "frames_ok env track (pulled s)" "length (pulled s) = a" using assms(2) by (auto simp: reading_def frames_ok_def)
  then show ?thesis using frames_bound [OF assms(1)] by blast
qed

lemma popped_bound:
  assumes "track_spec env track n c" "threads_inv env track s"
  shows "length (popped s) + length (frames_in s) \<le> n"
  using frames_bound [OF assms(1) globalD(12) [OF threads_invD(1) [OF assms(2)]]] by (simp add: pulled_def)

section \<open>Steps\<close>

text \<open>A step of one thread that lowers its rank by three may wake the other.\<close>

lemma reader_works:
  assumes "reader_rank n s' (rpc s') + 3 \<le> reader_rank n s (rpc s)" "popped s' = popped s"
    "mpc s' = mpc s \<or> (\<exists>c. mpc s' = wake_main c (mpc s))"
  shows "work_left n s' < work_left n s"
proof -
  have "main_rank n s (mpc s') \<le> main_rank n s (mpc s) + 1"
    using assms(3) main_rank_wake [of n s _ "mpc s"] by auto
  then show ?thesis
    using assms(1) main_rank_cong [OF assms(2), of n "mpc s'"] by (simp add: work_left_def)
qed

lemma main_works:
  assumes "main_rank n s' (mpc s') + 3 \<le> main_rank n s (mpc s)" "track_taken s' = track_taken s" "allocs s' = allocs s"
    "rpc s' = rpc s \<or> (\<exists>c. rpc s' = wake_reader c (rpc s))"
  shows "work_left n s' < work_left n s"
proof -
  have "reader_rank n s (rpc s') \<le> reader_rank n s (rpc s) + 1"
    using assms(4) reader_rank_wake [of n s _ "rpc s"] by auto
  then show ?thesis
    using assms(1) reader_rank_cong [OF assms(2,3), of n "rpc s'"] by (simp add: work_left_def)
qed

lemma push_works:
  assumes "threads_inv env track s" "rpc s = R_Push k l"
  shows "work_left n (reader_push k l s) < work_left n s"
proof (rule fq.push_cases [OF globalD(2) [OF threads_invD(1) [OF assms(1)]], of k l])
  assume "dsdpipe_frame_queue_push (Some k) l (queue s) = (Ok (Blocked NotFull), queue s)"
  then have "reader_push k l s = s\<lparr>rpc := R_Push_asleep k l\<rparr>" by (simp add: reader_push_def on_queue_def)
  then show ?thesis using assms(2) main_rank_cong [of "s\<lparr>rpc := R_Push_asleep k l\<rparr>" s n] by (simp add: work_left_def)
next
  assume "dsdpipe_frame_queue_push (Some k) l (queue s) = (Err QUEUE_ERROR, queue s)"
  then show ?thesis using assms(2) by (intro reader_works) (simp_all add: reader_push_def on_queue_def)
next
  fix q assume "dsdpipe_frame_queue_push (Some k) l (queue s) = (Ok (Left () [Signal NotEmpty]), q)"
  then show ?thesis using assms(2) by (intro reader_works) (auto simp: reader_push_def on_queue_def)
qed

lemma await_works:
  assumes "threads_inv env track s" "rpc s = R_Await"
  shows "work_left n (reader_await s) < work_left n s"
proof -
  note inv = threads_invD [OF assms(1)]
  have b: "untouched s \<or> over s" using inv(2) assms(2) by simp
  consider "\<not> track_pending (reader s)" "\<not> rt_shutdown (reader s)" | "rt_shutdown (reader s)"
    | "track_pending (reader s)" "\<not> rt_shutdown (reader s)" by blast
  then show ?thesis
  proof cases
    case 1
    then show ?thesis
      using assms(2) main_rank_cong [of "s\<lparr>rpc := R_Await_asleep\<rparr>" s n]
      by (simp add: work_left_def reader_await_def Let_def)
  next
    case 2
    then show ?thesis using assms(2) by (intro reader_works) (simp_all add: reader_await_def Let_def)
  next
    case 3
    then have "\<not> track_taken s" by simp
    then show ?thesis using 3 assms(2) by (intro reader_works) (auto simp: reader_await_def Let_def)
  qed
qed

lemma reader_step_works:
  assumes "threads_inv env track s" "track_spec env track n c" "reader_step env s = Some s'"
  shows "work_left n s' < work_left n s"
proof -
  note inv = threads_invD [OF assms(1)]
  note st = assms(3) [unfolded reader_step_def]
  show ?thesis
  proof (cases "rpc s")
    case R_Top
    have "untouched s \<or> over s" using inv(2) R_Top by simp
    then have "rt_shutdown (reader s) \<longrightarrow> track_taken s" using globalD(9) [OF inv(1)] by blast
    then show ?thesis using R_Top st by (intro reader_works) auto
  next
    case R_Await
    then show ?thesis using await_works [OF assms(1)] st by auto
  next
    case (R_Reset t)
    then obtain q where "dsdpipe_frame_queue_reset (queue s) = (Ok (map fst (frames_in s)), q)"
      using reset_law [OF globalD(2) [OF inv(1)]] by blast
    then show ?thesis using R_Reset st by (intro reader_works) (auto simp: on_queue_def)
  next
    case (R_Seek t)
    then show ?thesis using inv(2) st by (intro reader_works) (auto split: if_splits)
  next
    case R_Alloc
    then have "allocs s \<le> n" using alloc_bound [OF assms(2)] inv(2) by simp
    then show ?thesis using R_Alloc st by (intro reader_works) (auto split: if_splits)
  next
    case (R_Push k l)
    then show ?thesis using push_works [OF assms(1)] st by auto
  next
    case (R_Finish e eof b)
    then show ?thesis using st by (intro reader_works) (auto simp: reader_finish_def Let_def)
  qed (use st inv(2) in \<open>auto simp: over_def begun_def intro!: reader_works split: if_splits\<close>)
qed

lemma pop_works:
  assumes "threads_inv env track s" "track_spec env track n c" "mpc s = M_Pop"
  shows "work_left n (main_pop s) < work_left n s"
proof (rule fq.pop_cases [OF globalD(2) [OF threads_invD(1) [OF assms(1)]], of 16])
  assume "dsdpipe_frame_queue_pop_batch 16 (queue s) = (Ok (Blocked NotEmpty), queue s)"
  then have "main_pop s = s\<lparr>mpc := M_Pop_asleep\<rparr>" by (simp add: main_pop_def on_queue_def)
  then show ?thesis using assms(3) reader_rank_cong [of "s\<lparr>mpc := M_Pop_asleep\<rparr>" s n] by (simp add: work_left_def)
next
  fix b q' assume q: "b \<noteq> []"
    "dsdpipe_frame_queue_pop_batch 16 (queue s) =
      (Ok (Left (map (Some \<circ> fst) b, \<exists>f. (f, True) \<in> set b) [Signal NotFull]), q')"
    "frames_in s = b @ queue_contents q'"
  then have e: "main_pop s = wake [Signal NotFull] (s\<lparr>queue := q', track_complete := (\<exists>f. (f, True) \<in> set b),
      popped := popped s @ map fst b, mpc := M_Batch (map fst b)\<rparr>)"
    by (auto simp: main_pop_def on_queue_def comp_def)
  have "length (popped s) + length b \<le> n" "1 \<le> length b"
    using popped_bound [OF assms(2,1)] q(1,3) by (simp_all add: Suc_le_eq del: length_contents)
  then show ?thesis unfolding e using assms(3) by (intro main_works) auto
qed (use assms(3) in \<open>auto intro!: main_works simp: main_pop_def on_queue_def\<close>)

lemma wait_works:
  assumes "mpc s = M_Wait"
  shows "work_left n (dsdpipe_reader_thread_wait s) < work_left n s"
proof -
  have "reader_rank n (s\<lparr>mpc := m\<rparr>) r = reader_rank n s r" for m r by (rule reader_rank_cong) simp_all
  then show ?thesis using assms by (simp add: work_left_def dsdpipe_reader_thread_wait_def Let_def)
qed

lemma start_works:
  assumes "threads_inv env track s" "mpc s = M_Start"
  shows "work_left n (dsdpipe_reader_thread_start_track track s) < work_left n s"
proof -
  have u: "untouched s" "\<not> track_started (reader s)" "\<not> rt_cancelled (reader s)" using threads_invD(3) [OF assms(1)] assms(2) by simp_all
  then have "\<not> rt_shutdown (reader s)" using globalD(9) [OF threads_invD(1) [OF assms(1)]] by blast
  then show ?thesis
    using u assms(2) by (intro main_works) (auto simp: dsdpipe_reader_thread_start_track_def Let_def untouched_def)
qed

lemma main_step_works:
  assumes "threads_inv env track s" "track_spec env track n c" "main_step env track s = Some s'"
  shows "work_left n s' < work_left n s"
proof -
  note st = assms(3) [unfolded main_step_def]
  show ?thesis
  proof (cases "mpc s")
    case M_Start
    then show ?thesis using start_works [OF assms(1)] st by auto
  next
    case M_Pop
    then show ?thesis using pop_works [OF assms(1,2)] st by auto
  next
    case M_Wait
    then show ?thesis using wait_works st by auto
  next
    case (M_Batch ns)
    then show ?thesis
      using st by (intro main_works) (auto simp: main_batch_def Let_def split: batch_outcome.splits)
  next
    case M_Destroy
    then have "s' = release (map fst (frames_in s)) (s\<lparr>mpc := M_Return\<rparr>)"
      using destroy_law [OF globalD(2) [OF threads_invD(1) [OF assms(1)]]] st by simp
    then show ?thesis using M_Destroy by (intro main_works) simp_all
  next
    case M_Cancel_queue
    then show ?thesis using st by (intro main_works) (auto simp: wake_reader_other)
  next
    case M_Shutdown_queue
    then show ?thesis using st by (intro main_works) (auto simp: wake_reader_other)
  next
    case M_Shutdown
    then show ?thesis using st by (intro main_works) (auto simp: wake_reader_other)
  qed (use st in \<open>auto intro!: main_works split: if_splits\<close>)
qed

section \<open>Runs\<close>

fun run_events :: "track_env \<Rightarrow> byte \<Rightarrow> event list \<Rightarrow> sys \<Rightarrow> sys option" where
  "run_events env track [] s = Some s"
| "run_events env track (e # es) s = (case sys_step env track e s of None \<Rightarrow> None | Some s' \<Rightarrow> run_events env track es s')"

definition thread_steps :: "event list \<Rightarrow> nat" where
  "thread_steps es = length (filter (\<lambda>e. e \<noteq> Cancel_called) es)"

lemma run_reachable:
  assumes "run_events env track es s' = Some s''" "sys_reachable env track s s'"
  shows "sys_reachable env track s s''"
  using assms
proof (induction es arbitrary: s')
  case (Cons e es)
  then show ?case by (auto split: option.splits intro: reachable_step)
qed simp

lemma bounded_work:
  "\<lbrakk>run_events env track es s = Some s'; threads_inv env track s; codes_ok env; track_spec env track n c;
    set es \<subseteq> {Reader_runs, Main_runs, Cancel_called}\<rbrakk> \<Longrightarrow> thread_steps es + work_left n s' \<le> work_left n s"
proof (induction es arbitrary: s)
  case Nil
  then show ?case by (simp add: thread_steps_def)
next
  case (Cons e es)
  then obtain s1 where s1: "sys_step env track e s = Some s1" "run_events env track es s1 = Some s'"
    by (auto split: option.splits)
  have ih: "thread_steps es + work_left n s' \<le> work_left n s1"
    using Cons.IH [OF s1(2) sys_step_inv [OF Cons.prems(2,3) s1(1)] Cons.prems(3,4)] Cons.prems(5) by simp
  show ?case
  proof (cases "e = Cancel_called")
    case True
    then have "s1 = s\<lparr>pipe_cancelled := True\<rparr>" using s1(1) by (simp add: dsdpipe_cancel_def)
    then have "work_left n s1 = work_left n s"
      using reader_rank_cong [of s1 s n] main_rank_cong [of s1 s n] by (simp add: work_left_def)
    then show ?thesis using ih True by (simp add: thread_steps_def)
  next
    case False
    then have "work_left n s1 < work_left n s"
      using Cons.prems(2,4,5) s1(1) reader_step_works main_step_works by auto
    then show ?thesis using ih False by (simp add: thread_steps_def)
  qed
qed

lemma setup_work: "work_left n (track_setup q) = 139 + 24 * n"
  by (simp add: work_left_def track_setup_def reader_created_def)

text \<open>A run can always be brought to its end.\<close>

lemma run_events_append:
  "run_events env track es s = Some s' \<Longrightarrow> run_events env track (es @ es') s = run_events env track es' s'"
  by (induction es arbitrary: s) (auto split: option.splits)

lemma run_to_end:
  "\<lbrakk>threads_inv env track s; codes_ok env; track_spec env track n c\<rbrakk> \<Longrightarrow>
     \<exists>es s' d. set es \<subseteq> {Reader_runs, Main_runs} \<and> run_events env track es s = Some s' \<and> mpc s' = M_Done d"
proof (induction "work_left n s" arbitrary: s rule: less_induct)
  case less
  show ?case
  proof (cases "\<exists>d. mpc s = M_Done d")
    case True
    then obtain d where "mpc s = M_Done d" by blast
    then show ?thesis by (intro exI [of _ "[]"] exI [of _ s] exI [of _ d]) simp
  next
    case False
    then obtain e s1 where e: "e \<in> {Reader_runs, Main_runs}" "sys_step env track e s = Some s1"
      using some_thread_runs [OF less.prems(1)] by (metis insertI1 insertI2 option.exhaust sys_step.simps(1,2))
    have "work_left n s1 < work_left n s"
      using e reader_step_works [OF less.prems(1,3)] main_step_works [OF less.prems(1,3)] by auto
    then obtain es s' d where es: "set es \<subseteq> {Reader_runs, Main_runs}" "run_events env track es s1 = Some s'"
      "mpc s' = M_Done d"
      using less.hyps sys_step_inv [OF less.prems(1,2) e(2)] less.prems(2,3) by blast
    then show ?thesis using e by (intro exI [of _ "e # es"] exI [of _ s'] exI [of _ d]) simp
  qed
qed

lemma thread_step_cancelled:
  assumes "\<forall>k. process_batch env k \<noteq> Batch_stop" "e \<in> {Reader_runs, Main_runs}" "sys_step env track e s = Some s'"
    "threads_inv env track s"
  shows "pipe_cancelled s' = pipe_cancelled s"
proof (cases "e = Reader_runs")
  case True
  then have st: "reader_step env s = Some s'" using assms(3) by simp
  show ?thesis
  proof (cases "rpc s")
    case (R_Push n l)
    then show ?thesis
      using st by (auto simp: reader_step_def reader_push_def on_queue_def split: prod.splits outcome.splits critical.splits)
  qed (use st in \<open>auto simp: reader_step_def reader_await_def reader_finish_def on_queue_def Let_def
      split: prod.splits outcome.splits if_splits\<close>)
next
  case False
  then have st: "main_step env track s = Some s'" using assms(2,3) by simp
  show ?thesis
  proof (cases "mpc s")
    case (M_Batch ns)
    have "process_batch env (batches s) \<noteq> Batch_stop" using assms(1) by blast
    then show ?thesis
      using st M_Batch by (cases "process_batch env (batches s)") (auto simp: main_step_def main_batch_def)
  next
    case M_Pop
    then show ?thesis
      using st by (auto simp: main_step_def main_pop_def on_queue_def split: prod.splits outcome.splits critical.splits if_splits)
  qed (use st in \<open>auto simp: main_step_def dsdpipe_reader_thread_start_track_def dsdpipe_reader_thread_wait_def Let_def
      split: prod.splits outcome.splits if_splits\<close>)
qed

lemma run_not_cancelled:
  "\<lbrakk>run_events env track es s = Some s'; set es \<subseteq> {Reader_runs, Main_runs}; \<forall>k. process_batch env k \<noteq> Batch_stop;
    threads_inv env track s; codes_ok env\<rbrakk> \<Longrightarrow> pipe_cancelled s' = pipe_cancelled s"
proof (induction es arbitrary: s)
  case (Cons e es)
  then obtain s1 where s1: "sys_step env track e s = Some s1" "run_events env track es s1 = Some s'"
    by (auto split: option.splits)
  have "pipe_cancelled s1 = pipe_cancelled s"
    using thread_step_cancelled [OF Cons.prems(3) _ s1(1) Cons.prems(4)] Cons.prems(2) by simp
  then show ?case
    using Cons.IH [OF s1(2)] Cons.prems sys_step_inv [OF Cons.prems(4,5) s1(1)] by simp
qed simp

end
