(* ===== verification/Pipe_Races.thy ===== *)
theory Pipe_Races
  imports Pipe_Progress
begin

text \<open>
  Which shared objects a step of the two threads of \<open>Pipe_Reader\<close> accesses and under which mutex, so that
  unsynchronised accesses can be told. The members \<^verbatim>\<open>cancelled\<close> and \<^verbatim>\<open>shutdown\<close> of the reader are plain
  \<^verbatim>\<open>volatile bool\<close>s, which the reader tests without a mutex: C leaves the behaviour undefined when the main thread
  writes one of them at the same time. The steps of the model take each access to be indivisible, which is
  what compilers make of a \<^verbatim>\<open>volatile bool\<close>; here it is proved that this is the only place where that matters. The flag
  \<^verbatim>\<open>pipe->cancelled\<close> is an \<^verbatim>\<open>atomic_bool\<close> and no shared object in this sense.
\<close>

section \<open>The accesses of a step\<close>

text \<open>\<open>Track_state\<close> are the members of the reader other than the two flags.\<close>

datatype shared = Frame_queue | Track_state | Cancelled_flag | Shutdown_flag

datatype mutex = State_mutex | Queue_mutex

record access =
  acc_object :: shared
  acc_writes :: bool
  acc_under :: "mutex option"

abbreviation (input) reads :: "shared \<Rightarrow> mutex option \<Rightarrow> access" where
  "reads x m \<equiv> \<lparr>acc_object = x, acc_writes = False, acc_under = m\<rparr>"

abbreviation (input) writes :: "shared \<Rightarrow> mutex option \<Rightarrow> access" where
  "writes x m \<equiv> \<lparr>acc_object = x, acc_writes = True, acc_under = m\<rparr>"

text \<open>A thread that sleeps or has ended accesses nothing.\<close>

fun reader_accesses :: "reader_pc \<Rightarrow> access list" where
  "reader_accesses R_Top = [reads Shutdown_flag None]"
| "reader_accesses R_Await = [reads Shutdown_flag (Some State_mutex), writes Track_state (Some State_mutex)]"
| "reader_accesses (R_Reset t) = [writes Frame_queue (Some Queue_mutex)]"
| "reader_accesses R_Test = [reads Cancelled_flag None, reads Shutdown_flag None]"
| "reader_accesses (R_Push n l) = [writes Frame_queue (Some Queue_mutex)]"
| "reader_accesses (R_Finish e eof back) = [writes Track_state (Some State_mutex)]"
| "reader_accesses (R_Eof back) = [writes Frame_queue (Some Queue_mutex)]"
| "reader_accesses R_After = [reads Cancelled_flag None, reads Shutdown_flag None]"
| "reader_accesses R_Cancel = [writes Track_state (Some State_mutex)]"
| "reader_accesses R_Cancel_queue = [writes Frame_queue (Some Queue_mutex)]"
| "reader_accesses _ = []"

text \<open>With \<open>M_Destroy\<close> the reader and the queue are freed, which counts as a write of everything.\<close>

fun main_accesses :: "main_pc \<Rightarrow> access list" where
  "main_accesses M_Start = [reads Shutdown_flag (Some State_mutex), writes Cancelled_flag (Some State_mutex),
     writes Track_state (Some State_mutex)]"
| "main_accesses M_Pop = [writes Frame_queue (Some Queue_mutex)]"
| "main_accesses (M_Check failed) = [reads Track_state (Some State_mutex)]"
| "main_accesses M_Get_error = [reads Track_state (Some State_mutex)]"
| "main_accesses M_Cancel_flag = [writes Cancelled_flag None]"
| "main_accesses M_Cancel_queue = [writes Frame_queue (Some Queue_mutex)]"
| "main_accesses M_Wait = [reads Shutdown_flag (Some State_mutex), reads Track_state (Some State_mutex)]"
| "main_accesses M_Shutdown = [writes Shutdown_flag (Some State_mutex), writes Cancelled_flag (Some State_mutex)]"
| "main_accesses M_Shutdown_queue = [writes Frame_queue (Some Queue_mutex)]"
| "main_accesses M_Destroy = [writes Frame_queue None, writes Track_state None, writes Cancelled_flag None, writes Shutdown_flag None]"
| "main_accesses _ = []"

section \<open>The lists are those of the steps\<close>

definition set_cancelled :: "bool \<Rightarrow> sys \<Rightarrow> sys" where
  "set_cancelled b s = s\<lparr>reader := (reader s)\<lparr>rt_cancelled := b\<rparr>\<rparr>"

definition set_shutdown :: "bool \<Rightarrow> sys \<Rightarrow> sys" where
  "set_shutdown b s = s\<lparr>reader := (reader s)\<lparr>rt_shutdown := b\<rparr>\<rparr>"

definition track_state :: "sys \<Rightarrow> byte \<times> bool \<times> bool \<times> bool \<times> int \<times> bool" where
  "track_state s = (let r = reader s in (current_track r, track_started r, track_pending r, track_finished r, last_error r, has_error r))"

definition writes_none :: "shared \<Rightarrow> access list \<Rightarrow> bool" where
  "writes_none x accs \<longleftrightarrow> (\<forall>a \<in> set accs. acc_object a = x \<longrightarrow> \<not> acc_writes a)"

text \<open>A step changes only what its list says.\<close>

definition changes_only :: "access list \<Rightarrow> sys \<Rightarrow> sys \<Rightarrow> bool" where
  "changes_only accs s s' \<longleftrightarrow> (writes_none Frame_queue accs \<longrightarrow> queue s' = queue s) \<and>
     (writes_none Track_state accs \<longrightarrow> track_state s' = track_state s) \<and>
     (writes_none Cancelled_flag accs \<longrightarrow> rt_cancelled (reader s') = rt_cancelled (reader s)) \<and>
     (writes_none Shutdown_flag accs \<longrightarrow> rt_shutdown (reader s') = rt_shutdown (reader s))"

lemmas access_simps = changes_only_def writes_none_def track_state_def wake_def release_def Let_def

lemma reader_changes: "reader_step env s = Some s' \<Longrightarrow> changes_only (reader_accesses (rpc s)) s s'"
  by (cases "rpc s")
    (auto simp: reader_step_def access_simps reader_await_def reader_finish_def reader_push_def on_queue_def queue_section_def
      split: if_splits option.splits prod.splits outcome.splits critical.splits)

lemma main_changes: "main_step env track s = Some s' \<Longrightarrow> changes_only (main_accesses (mpc s)) s s'"
  by (cases "mpc s")
    (auto simp: main_step_def access_simps dsdpipe_reader_thread_start_track_def dsdpipe_reader_thread_wait_def main_pop_def
      main_batch_def on_queue_def queue_section_def
      split: if_splits option.splits prod.splits outcome.splits critical.splits batch_outcome.splits)

text \<open>And a step does not depend on a flag that is not in its list.\<close>

lemma reader_ignores_cancelled:
  "Cancelled_flag \<notin> acc_object ` set (reader_accesses (rpc s)) \<Longrightarrow>
   reader_step env (set_cancelled b s) = map_option (set_cancelled b) (reader_step env s)"
  by (cases "rpc s")
    (auto simp: reader_step_def set_cancelled_def wake_def release_def Let_def reader_await_def reader_finish_def reader_push_def
      on_queue_def queue_section_def split: option.splits prod.splits outcome.splits critical.splits)

lemma reader_ignores_shutdown:
  "Shutdown_flag \<notin> acc_object ` set (reader_accesses (rpc s)) \<Longrightarrow>
   reader_step env (set_shutdown b s) = map_option (set_shutdown b) (reader_step env s)"
  by (cases "rpc s")
    (auto simp: reader_step_def set_shutdown_def wake_def release_def Let_def reader_await_def reader_finish_def reader_push_def
      on_queue_def queue_section_def split: option.splits prod.splits outcome.splits critical.splits)

lemma main_ignores_cancelled:
  "Cancelled_flag \<notin> acc_object ` set (main_accesses (mpc s)) \<Longrightarrow>
   main_step env track (set_cancelled b s) = map_option (set_cancelled b) (main_step env track s)"
  by (cases "mpc s")
    (auto simp: main_step_def set_cancelled_def wake_def release_def Let_def dsdpipe_reader_thread_wait_def main_pop_def
      main_batch_def on_queue_def queue_section_def
      split: option.splits prod.splits outcome.splits critical.splits batch_outcome.splits)

lemma main_ignores_shutdown:
  "Shutdown_flag \<notin> acc_object ` set (main_accesses (mpc s)) \<Longrightarrow>
   main_step env track (set_shutdown b s) = map_option (set_shutdown b) (main_step env track s)"
  by (cases "mpc s")
    (auto simp: main_step_def set_shutdown_def wake_def release_def Let_def main_pop_def
      main_batch_def on_queue_def queue_section_def
      split: option.splits prod.splits outcome.splits critical.splits batch_outcome.splits)

section \<open>Races\<close>

text \<open>Two accesses to the same object, one of them a write, which no common mutex keeps apart.\<close>

definition conflict :: "access \<Rightarrow> access \<Rightarrow> bool" where
  "conflict a b \<longleftrightarrow> acc_object a = acc_object b \<and> (acc_writes a \<or> acc_writes b) \<and>
     (acc_under a = None \<or> acc_under a \<noteq> acc_under b)"

text \<open>Those of the steps that the reader and the main thread are about to do.\<close>

definition races :: "sys \<Rightarrow> (access \<times> access) list" where
  "races s = filter (\<lambda>(a, b). conflict a b) (List.product (reader_accesses (rpc s)) (main_accesses (mpc s)))"

text \<open>A test of one of the two flags by the reader, outside the mutex.\<close>

definition flag_test :: "access \<Rightarrow> bool" where
  "flag_test a \<longleftrightarrow> a = reads Cancelled_flag None \<or> a = reads Shutdown_flag None"

lemma races_are_flag_tests:
  assumes "threads_inv env track s" "(a, b) \<in> set (races s)"
  shows "flag_test a"
proof -
  have "mpc s = M_Destroy \<Longrightarrow> rpc s = R_Exit"
    using threads_invD(3) [OF assms(1)] by simp
  then show ?thesis
    using assms(2) by (cases "rpc s"; cases "mpc s") (auto simp: races_def conflict_def flag_test_def)
qed

end
