(* ===== verification/Pipe_Properties.thy ===== *)
theory Pipe_Properties
  imports Pipe_Parse Pipe_Ends Pipe_Races
begin

text \<open>What the parts of \<^verbatim>\<open>libdsdpipe\<close> promise.\<close>

section \<open>Track specifications\<close>

text \<open>A fresh selection and a heap that never refuses, for the examples.\<close>

definition fresh_selection :: track_selection where
  "fresh_selection = \<lparr>ts_tracks = Ptr (replicate 16 0), ts_count = 0, ts_capacity = 16, ts_current_idx = 0\<rparr>"

definition plenty :: heap where
  "plenty = \<lparr>max_alloc_size = 1000, platform_alloc = (\<lambda>_. True)\<rparr>"

lemma fresh_selection_ok: "selection_ok fresh_selection"
  by (simp add: fresh_selection_def selection_ok_def selected_def)

lemma ample_plenty: "ample plenty"
  by (simp add: ample_def plenty_def sa_realloc_def)

text \<open>The tracks the specification of the header of \<^verbatim>\<open>track_select.c\<close> stands for.\<close>

lemma example_spec: "parse_accepts ''1-3,5, 9-7,'' 10 [1, 2, 3, 5, 9, 8, 7]"
proof -
  have n: "number_text (decimal d) (b @ d)" if "blank b" "d \<noteq> []" "list_all c_isdigit d" for b d
    unfolding number_text_def by (intro exI [of _ b] exI [of _ d] exI [of _ "[]"]) (use that in \<open>simp add: blank_def\<close>)
  have d: "decimal ''1'' = 1" "decimal ''3'' = 3" "decimal ''5'' = 5" "decimal ''9'' = 9" "decimal ''7'' = 7"
    by (simp_all add: decimal_def)
  have n': "number_text 1 ''1''" "number_text 3 ''3''" "number_text 5 ''5''" "number_text 9 '' 9''" "number_text 7 ''7''"
    using n [of "[]" "''1''"] n [of "[]" "''3''"] n [of "[]" "''5''"] n [of "'' ''" "''9''"] n [of "[]" "''7''"]
    by (simp_all add: d blank_def c_isspace_def c_isdigit_def)
  have "item_text (Range 1 3) (''1'' @ CHR ''-'' # ''3'')" "item_text (Range 9 7) ('' 9'' @ CHR ''-'' # ''7'')"
    unfolding item_text.simps using n' by blast+
  then have i: "item_text (Range 1 3) ''1-3''" "item_text (Single 5) ''5''" "item_text (Range 9 7) '' 9-7''"
    using n' by simp_all
  have "spec_text [] []" by (simp add: spec_text_Nil blank_def)
  then have "spec_text [Range 1 3, Single 5, Range 9 7] ''1-3,5, 9-7,''"
    using spec_more [OF i(1) spec_more [OF i(2) spec_more [OF i(3)]]] by simp
  moreover have "first_occurrences (concat (map expand [Range 1 3, Single 5, Range 9 7])) = [1, 2, 3, 5, 9, 8, 7]"
    by (simp add: wrap_def first_occurrences_def upt_rec)
  ultimately show ?thesis
    unfolding parse_accepts_def
    by (intro disjI2 exI [of _ "[Range 1 3, Single 5, Range 9 7]"]) (auto simp: in_range_def wrap_def)
qed

text \<open>C7. The parser accepts exactly the texts that are \<^verbatim>\<open>all\<close> (unless there are 255 tracks) or a
  list of numbers and ranges, separated by commas, whose numbers modulo 2^32 name tracks; it selects
  the tracks they stand for in the order of their first mention.\<close>

theorem parse_accepts_iff:
  assumes "selection_ok sel" "ample hp"
  shows "(\<exists>sel'. dsdpipe_track_selection_parse hp (Some s) m sel = Some (Ok (), sel') \<and> selected sel' = ns) \<longleftrightarrow>
    parse_accepts s m ns"
  using parse_sound [OF assms(1)] parse_complete [OF assms] by blast

theorem parse_accepts_iff_witness:
  "\<exists>sel'. dsdpipe_track_selection_parse plenty (Some ''1-3,5, 9-7,'') 10 fresh_selection = Some (Ok (), sel') \<and>
     selected sel' = [1, 2, 3, 5, 9, 8, 7]"
  using parse_accepts_iff [OF fresh_selection_ok ample_plenty] example_spec by blast

text \<open>C23. Whatever the text, the number of tracks and the memory that is granted, parsing into a
  well-formed selection returns, without undefined behaviour, and leaves a well-formed selection: its
  array has the size it claims, the tracks are distinct and none is 0.\<close>

theorem parse_returns:
  assumes "selection_ok sel"
  shows "\<exists>r sel'. dsdpipe_track_selection_parse hp str m sel = Some (r, sel') \<and> r \<noteq> Fault \<and> selection_ok sel'"
proof (cases str)
  case None
  then show ?thesis using assms by (simp add: dsdpipe_track_selection_parse_def)
next
  case (Some s)
  show ?thesis
  proof (cases "all_text s")
    case True
    then show ?thesis using parse_all [OF assms True, of hp m] Some by (auto split: if_splits)
  next
    case False
    obtain r sel' p where "repeat_lop (items_round hp m) (emptied sel, s) = Some (r, (sel', p))" "r \<noteq> Fault"
      "selection_ok sel'"
      using loop_parsed [OF emptied_ok(1) [OF assms]] by blast
    then show ?thesis using parse_items [of s hp m sel r sel' p] False Some by (simp add: loop_skip)
  qed
qed

theorem parse_returns_witness:
  "\<exists>r sel'. dsdpipe_track_selection_parse plenty (Some ''5-x'') 10 fresh_selection = Some (r, sel') \<and> r \<noteq> Fault \<and>
     selection_ok sel'"
  by (rule parse_returns [OF fresh_selection_ok])

text \<open>C29. On a disc with 255 tracks the specification \<^verbatim>\<open>all\<close> selects every track and then fails: the
  counter of 8 bits never exceeds 255, wraps to 0, and track 0 is refused.\<close>

theorem all_of_255_fails:
  assumes "selection_ok sel" "ample hp"
  shows "\<exists>sel'. dsdpipe_track_selection_parse hp (Some ''all'') 255 sel = Some (Err DSDPIPE_ERROR_INVALID_ARG, sel') \<and>
    selected sel' = [1..<256]"
proof -
  have "all_text ''all''" unfolding all_text_def by (intro exI [of _ "[]"]) (simp add: blank_def)
  from parse_all [OF assms(1) this, of hp 255] show ?thesis using assms(2) by auto
qed

theorem all_of_255_fails_witness:
  "\<exists>sel'. dsdpipe_track_selection_parse plenty (Some ''all'') 255 fresh_selection =
     Some (Err DSDPIPE_ERROR_INVALID_ARG, sel') \<and> selected sel' = [1..<256]"
  by (rule all_of_255_fails [OF fresh_selection_ok ample_plenty])

section \<open>The frame queue\<close>

text \<open>C16. The ring buffer is a first-in-first-out channel: after any calls of push and pop on a well-formed
  queue, in any order, the queue is well-formed and the frames that came out, followed by those inside,
  are the ones that were inside at first, followed by those that went in.\<close>

theorem queue_is_fifo:
  assumes "queue_ok q"
    "serve (\<lambda>f. dsdpipe_frame_queue_push (Some f)) dsdpipe_frame_queue_pop_batch calls q = (pushed, taken, q')"
  shows "queue_ok q' \<and> map Some (map fst (queue_contents q) @ pushed) = taken @ map Some (map fst (queue_contents q'))"
  by (rule fq.served_in_order [OF assms])

text \<open>A queue of three slots.\<close>

definition small_queue :: "nat frame_queue" where
  "small_queue = \<lparr>fq_frames = replicate 3 None, fq_capacity = 3, fq_head = 0, fq_tail = 0, fq_count = 0,
     fq_is_last = replicate 3 False, fq_eof = False, fq_cancelled = False\<rparr>"

lemma small_queue_ok: "queue_ok small_queue"
  by (simp add: small_queue_def queue_ok_def slot_def)

lemma small_queue_run:
  "serve (\<lambda>f. dsdpipe_frame_queue_push (Some f)) dsdpipe_frame_queue_pop_batch
     [Push 1 False, Push 2 False, Pop 1, Push 3 False, Push 4 True, Push 5 False, Pop 9] small_queue =
   ([1, 2, 3, 4], [Some 1, Some 2, Some 3, Some 4],
    \<lparr>fq_frames = [None, None, None], fq_capacity = 3, fq_head = 1, fq_tail = 1, fq_count = 0,
     fq_is_last = [False, False, False], fq_eof = False, fq_cancelled = False\<rparr>)"
  by code_simp

theorem queue_is_fifo_witness:
  "\<exists>q'. queue_ok q' \<and> map Some (map fst (queue_contents small_queue) @ [1, 2, 3, 4]) =
     [Some 1, Some 2, Some 3, Some 4] @ map Some (map fst (queue_contents (q' :: nat frame_queue)))"
  using queue_is_fifo [OF small_queue_ok small_queue_run] by blast

section \<open>Converting a track\<close>

text \<open>An example: a track of two frames, and sinks that take them.\<close>

definition example_platform :: platform where
  "example_platform = \<lparr>sizeof_queue = 200, sizeof_pointer = 8, mtx_init_ok = True, not_full_init_ok = True,
     not_empty_init_ok = True\<rparr>"

definition example_queue :: "nat frame_queue" where
  "example_queue = \<lparr>fq_frames = replicate 64 None, fq_capacity = 64, fq_head = 0, fq_tail = 0, fq_count = 0,
     fq_is_last = replicate 64 False, fq_eof = False, fq_cancelled = False\<rparr>"

definition example_env :: track_env where
  "example_env = \<lparr>seek_track = (\<lambda>_. 0), buffer_alloc = (\<lambda>_. True),
     read_frame = (\<lambda>n. (if n = 1 then 1 else 0, False)), process_batch = (\<lambda>_. Batch_done)\<rparr>"

lemma example_create: "dsdpipe_frame_queue_create plenty example_platform 64 = Some example_queue"
  by (simp add: dsdpipe_frame_queue_create_def sa_calloc_def sa_malloc_def plenty_def example_platform_def
      example_queue_def)

lemma example_codes: "codes_ok example_env"
  by (simp add: codes_ok_def example_env_def)

lemma example_spec_track: "track_spec example_env 3 2 0"
  by (simp add: track_spec_def example_env_def read_ok_def is_last_frame_def)

lemma example_end:
  "\<exists>es s d. set es \<subseteq> {Reader_runs, Main_runs} \<and> run_events example_env 3 es (track_setup example_queue) = Some s \<and>
     mpc s = M_Done d \<and> sys_reachable example_env 3 (track_setup example_queue) s \<and> \<not> pipe_cancelled s"
proof -
  note inv = setup_inv [OF example_create, of example_env 3]
  obtain es s d where r: "set es \<subseteq> {Reader_runs, Main_runs}"
    "run_events example_env 3 es (track_setup example_queue) = Some s" "mpc s = M_Done d"
    using run_to_end [OF inv example_codes example_spec_track] by blast
  have "\<not> pipe_cancelled s"
    using run_not_cancelled [OF r(2,1) _ inv example_codes] by (simp add: example_env_def track_setup_def)
  then show ?thesis using r run_reachable [OF r(2) reachable_start] by blast
qed

text \<open>C11. While a track is converted, whatever the interleaving of the two threads, spurious wake-ups and
  calls of \<^verbatim>\<open>dsdpipe_cancel\<close>, what the sinks have got are the first frames of the track, in order and each once,
  all of them read without error; no access of the frame queue leaves its arrays or meets a missing buffer; and whatever the
  threads share is accessed by one of them at a time, with one exception: the reader tests the flags
  \<^verbatim>\<open>cancelled\<close> and \<^verbatim>\<open>shutdown\<close> without the mutex, while the main thread may be writing them. That is a data race, undefined in C, and the
  steps take each access of the two flags to be indivisible.\<close>

theorem frames_in_order:
  assumes "dsdpipe_frame_queue_create hp pf DSDPIPE_FRAME_QUEUE_CAPACITY = Some q" "codes_ok env"
    "sys_reachable env track (track_setup q) s"
  shows "delivered s = [0..<length (delivered s)] \<and> (\<forall>n \<in> set (delivered s). read_ok env n) \<and> \<not> faulted s \<and>
    list_all (\<lambda>(a, b). flag_test a) (races s)"
proof -
  have inv: "threads_inv env track s" using reachable_inv [OF assms(3) setup_inv [OF assms(1)] assms(2)] .
  note gl = globalD [OF threads_invD(1) [OF inv]]
  obtain ns where ns: "pulled s = delivered s @ ns" using delivered_prefix(1) [OF inv] by blast
  have "read_ok env n" if "n \<in> set (delivered s)" for n
  proof -
    have "n < length (delivered s)" using that delivered_prefix(2) [OF inv] by (metis atLeastLessThan_iff set_upt)
    then show ?thesis using gl(12) ns by (simp add: frames_ok_def)
  qed
  moreover have "list_all (\<lambda>(a, b). flag_test a) (races s)"
    using races_are_flag_tests [OF inv] by (auto simp: list_all_iff)
  ultimately show ?thesis using gl(1) delivered_prefix(2) [OF inv] by blast
qed

theorem frames_in_order_witness:
  "\<exists>s d. sys_reachable example_env 3 (track_setup example_queue) s \<and> mpc s = M_Done d \<and> delivered s = [0..<length (delivered s)] \<and>
     list_all (read_ok example_env) (delivered s) \<and> \<not> faulted s \<and> list_all (\<lambda>(a, b). flag_test a) (races s)"
proof -
  obtain s d where s: "sys_reachable example_env 3 (track_setup example_queue) s" "mpc s = M_Done d"
    using example_end by blast
  from frames_in_order [OF example_create example_codes s(1)] s show ?thesis
    unfolding list_all_iff by blast
qed

text \<open>The races are there: when \<^verbatim>\<open>dsdpipe_cancel\<close> is called at the start of a track that can be sought, the reader may test
  \<^verbatim>\<open>cancelled\<close> while the main thread sets it, and at the end test \<^verbatim>\<open>shutdown\<close> while the main thread sets that.\<close>

lemma start_to_race:
  assumes "dsdpipe_frame_queue_create hp pf DSDPIPE_FRAME_QUEUE_CAPACITY = Some q" "seek_track env track = DSDPIPE_OK"
  shows "\<exists>s. run_events env track [Cancel_called, Main_runs, Main_runs, Main_runs, Reader_runs, Reader_runs, Reader_runs, Reader_runs]
      (track_setup q) = Some s \<and> rpc s = R_Test \<and> mpc s = M_Cancel_flag \<and> track_started (reader s) \<and>
      \<not> rt_shutdown (reader s)"
proof -
  have q: "fq_count q = 0" using assms(1) by (auto simp: dsdpipe_frame_queue_create_def Let_def split: if_splits)
  have reset: "\<exists>q'. dsdpipe_frame_queue_reset q = (Ok [], q')"
    by (simp add: dsdpipe_frame_queue_reset_def q)
  then show ?thesis
    using assms(2) by (auto simp: track_setup_def reader_created_def dsdpipe_cancel_def reader_step_def main_step_def
        dsdpipe_reader_thread_start_track_def wake_def reader_await_def on_queue_def release_def)
qed

theorem flags_race:
  assumes "dsdpipe_frame_queue_create hp pf DSDPIPE_FRAME_QUEUE_CAPACITY = Some q" "seek_track env track = DSDPIPE_OK"
  shows "(\<exists>s. sys_reachable env track (track_setup q) s \<and> (reads Cancelled_flag None, writes Cancelled_flag None) \<in> set (races s)) \<and>
    (\<exists>s. sys_reachable env track (track_setup q) s \<and>
      (reads Shutdown_flag None, writes Shutdown_flag (Some State_mutex)) \<in> set (races s))"
proof
  obtain s where s: "sys_reachable env track (track_setup q) s" "rpc s = R_Test" "mpc s = M_Cancel_flag"
    "track_started (reader s)" "\<not> rt_shutdown (reader s)"
    using start_to_race [OF assms] run_reachable [OF _ reachable_start] by blast
  then show "\<exists>s. sys_reachable env track (track_setup q) s \<and> (reads Cancelled_flag None, writes Cancelled_flag None) \<in> set (races s)"
    by (intro exI [of _ s]) (simp add: races_def conflict_def)
  obtain s' where s': "run_events env track [Main_runs, Main_runs, Reader_runs, Reader_runs, Reader_runs, Reader_runs, Main_runs] s = Some s'"
      "rpc s' = R_Top" "mpc s' = M_Shutdown"
    using s(2-5) by (simp add: reader_step_def main_step_def dsdpipe_reader_thread_wait_def wake_def
        dsdpipe_frame_queue_cancel_def queue_section_def on_queue_def)
  then show "\<exists>s. sys_reachable env track (track_setup q) s \<and>
      (reads Shutdown_flag None, writes Shutdown_flag (Some State_mutex)) \<in> set (races s)"
    using run_reachable [OF s'(1) s(1)] by (intro exI [of _ s']) (simp add: races_def conflict_def)
qed

text \<open>C4. The two threads never wait for each other: as long as the main thread has not returned, one of
  them can run without a spurious wake-up, so that no signal is lost and there is no deadlock.\<close>

theorem no_deadlock:
  assumes "dsdpipe_frame_queue_create hp pf DSDPIPE_FRAME_QUEUE_CAPACITY = Some q" "codes_ok env"
    "sys_reachable env track (track_setup q) s" "\<forall>c. mpc s \<noteq> M_Done c"
  shows "reader_step env s \<noteq> None \<or> main_step env track s \<noteq> None"
  by (rule some_thread_runs [OF reachable_inv [OF assms(3) setup_inv [OF assms(1)] assms(2)] assms(4)])

theorem no_deadlock_witness:
  "\<exists>s. sys_reachable example_env 3 (track_setup example_queue) s \<and>
     (reader_step example_env s \<noteq> None \<or> main_step example_env 3 s \<noteq> None)"
proof -
  have "\<forall>c. mpc (track_setup example_queue) \<noteq> M_Done c" by (simp add: track_setup_def)
  from no_deadlock [OF example_create example_codes reachable_start this] show ?thesis
    by (intro exI conjI) (rule reachable_start)
qed

text \<open>C10. A track that ends after \<open>n\<close> frames, with or without an error, is converted in at most
  \<open>24 n + 139\<close> steps of the threads, however they are scheduled and whenever \<^verbatim>\<open>dsdpipe_cancel\<close> is called,
  as long as no thread is woken without a signal; and when no thread can run, the main thread has returned.\<close>

theorem conversion_ends:
  assumes "dsdpipe_frame_queue_create hp pf DSDPIPE_FRAME_QUEUE_CAPACITY = Some q" "codes_ok env"
    "track_spec env track n c" "run_events env track es (track_setup q) = Some s"
    "set es \<subseteq> {Reader_runs, Main_runs, Cancel_called}"
  shows "thread_steps es \<le> 139 + 24 * n \<and>
    (reader_step env s \<noteq> None \<or> main_step env track s \<noteq> None \<or> (\<exists>d. mpc s = M_Done d))"
proof -
  note inv = setup_inv [OF assms(1), of env track]
  have "threads_inv env track s" using reachable_inv [OF run_reachable [OF assms(4) reachable_start] inv assms(2)] .
  then have "reader_step env s \<noteq> None \<or> main_step env track s \<noteq> None \<or> (\<exists>d. mpc s = M_Done d)"
    using some_thread_runs by blast
  moreover have "thread_steps es \<le> 139 + 24 * n"
    using bounded_work [OF assms(4) inv assms(2,3,5)] setup_work [of n q] by simp
  ultimately show ?thesis by blast
qed

theorem conversion_ends_witness:
  "\<exists>es s d. run_events example_env 3 es (track_setup example_queue) = Some s \<and> mpc s = M_Done d \<and>
     thread_steps es \<le> 139 + 24 * 2"
proof -
  obtain es s d where r: "set es \<subseteq> {Reader_runs, Main_runs}"
    "run_events example_env 3 es (track_setup example_queue) = Some s" "mpc s = M_Done d"
    using example_end by blast
  have "set es \<subseteq> {Reader_runs, Main_runs, Cancel_called}" using r(1) by blast
  from conversion_ends [OF example_create example_codes example_spec_track r(2) this] show ?thesis
    using r(2,3) by blast
qed

text \<open>C6. When nobody cancels and the sinks take all batches, the conversion of a track returns the code of
  its specification after it has delivered the specified frames: success with the whole track, or the error of the
  source or the buffers after all the frames before it.\<close>

theorem conversion_refines_spec:
  assumes "dsdpipe_frame_queue_create hp pf DSDPIPE_FRAME_QUEUE_CAPACITY = Some q"
    "\<forall>k. process_batch env k = Batch_done" "sys_reachable env track (track_setup q) s" "\<not> pipe_cancelled s"
    "mpc s = M_Done c"
  shows "delivered s = [0..<length (delivered s)] \<and> track_spec env track (length (delivered s)) c"
proof -
  have "codes_ok env" using assms(2) by (simp add: codes_ok_def)
  then have inv: "threads_inv env track s" using reachable_inv [OF assms(3) setup_inv [OF assms(1)]] by blast
  show ?thesis using delivered_prefix(2) [OF inv] outcome [OF inv assms(5,4,2)] by blast
qed

theorem conversion_refines_spec_witness:
  "\<exists>s. sys_reachable example_env 3 (track_setup example_queue) s \<and> mpc s = M_Done 0 \<and> delivered s = [0, 1]"
proof -
  obtain s d where r: "sys_reachable example_env 3 (track_setup example_queue) s" "mpc s = M_Done d" "\<not> pipe_cancelled s"
    using example_end by blast
  have "\<forall>k. process_batch example_env k = Batch_done" by (simp add: example_env_def)
  then have d: "delivered s = [0..<length (delivered s)]" "track_spec example_env 3 (length (delivered s)) d"
    using conversion_refines_spec [OF example_create _ r(1,3,2)] by blast+
  then have "length (delivered s) = 2" "d = 0" using track_spec_unique [OF d(2) example_spec_track] by simp_all
  then show ?thesis using r d(1) by (metis upt_conv_Cons upt_conv_Nil less_2_cases_iff numeral_2_eq_2 One_nat_def lessI order_refl zero_less_Suc)
qed

text \<open>C17. When the main thread has returned, every buffer that was allocated has been given up exactly once,
  in every interleaving and also after errors and cancellation, provided no write fails after the first frame of its
  batch.\<close>

theorem buffers_released_once:
  assumes "dsdpipe_frame_queue_create hp pf DSDPIPE_FRAME_QUEUE_CAPACITY = Some q" "codes_ok env"
    "\<forall>k j c. process_batch env k = Write_failed j c \<longrightarrow> j = 0" "sys_reachable env track (track_setup q) s"
    "mpc s = M_Done d"
  shows "mset (released s) = mset [0..<allocs s]"
proof -
  note inv = setup_inv [OF assms(1), of env track]
  have "threads_inv env track s" using reachable_inv [OF assms(4) inv assms(2)] .
  then have "rpc s = R_Exit" using threads_invD(3) assms(5) by fastforce
  moreover have "accounted [] s"
    using reachable_accounted [OF assms(4) inv assms(2) setup_accounted [OF assms(1)] assms(3)] .
  ultimately show ?thesis using assms(5) by (simp add: accounted_def queued_def)
qed

theorem buffers_released_once_witness:
  "\<exists>s d. mpc s = M_Done d \<and> sys_reachable example_env 3 (track_setup example_queue) s \<and>
     mset (released s) = mset [0..<allocs s]"
proof -
  have "\<forall>k j c. process_batch example_env k = Write_failed j c \<longrightarrow> j = 0" by (simp add: example_env_def)
  then show ?thesis using example_end buffers_released_once [OF example_create example_codes] by blast
qed

text \<open>Sinks that fail at the second frame of a batch.\<close>

definition failing_env :: track_env where
  "failing_env = example_env\<lparr>process_batch := (\<lambda>_. Write_failed 1 (-8))\<rparr>"

lemma failing_codes: "codes_ok failing_env"
  by (simp add: codes_ok_def failing_env_def)

lemma failing_spec: "track_spec failing_env 3 2 0"
  by (simp add: track_spec_def failing_env_def example_env_def read_ok_def is_last_frame_def)

lemma case_optionE_iff: "(case x of Some a \<Rightarrow> P a | None \<Rightarrow> False) \<longleftrightarrow> (\<exists>a. x = Some a \<and> P a)"
  by (cases x) simp_all

lemma failing_run:
  "\<exists>es s. run_events failing_env 3 es (track_setup example_queue) = Some s \<and> mpc s = M_Batch [0, 1]"
proof -
  let ?r = "run_events failing_env 3 (Main_runs # replicate 12 Reader_runs @ [Main_runs, Main_runs]) (track_setup example_queue)"
  have "case ?r of Some s \<Rightarrow> mpc s = M_Batch [0, 1] | None \<Rightarrow> False" by code_simp
  then show ?thesis unfolding case_optionE_iff by blast
qed

text \<open>C22. When a write fails at the \<open>j\<close>-th frame of a batch, the buffers of the frames before it are never given
  up: at the end everything is released but these.\<close>

theorem write_error_leaks:
  assumes "dsdpipe_frame_queue_create hp pf DSDPIPE_FRAME_QUEUE_CAPACITY = Some q" "codes_ok env"
    "sys_reachable env track (track_setup q) s" "mpc s = M_Batch ns" "process_batch env (batches s) = Write_failed j c"
    "main_step env track s = Some s1" "sys_reachable env track s1 s2" "mpc s2 = M_Done d"
  shows "mset (released s2) + mset (take j ns) = mset [0..<allocs s2]"
proof -
  note inv0 = setup_inv [OF assms(1), of env track]
  have inv: "threads_inv env track s" using reachable_inv [OF assms(3) inv0 assms(2)] .
  have inv1: "threads_inv env track s1" using main_step_inv [OF inv assms(2,6)] .
  have inv2: "threads_inv env track s2" using reachable_inv [OF assms(7) inv1 assms(2)] .
  have "accounted [] s" using loop_accounted [OF assms(3) inv0 assms(2) setup_accounted [OF assms(1)]] assms(4) by simp
  moreover have s1: "s1 = main_batch (Write_failed j c) ns s" using assms(4-6) by (simp add: main_step_def)
  ultimately have "accounted (take j ns) s1" using batch_accounted [OF _ assms(4), of "[]" env] assms(5) by simp
  moreover have "\<not> in_loop (mpc s1)" by (simp add: s1 main_batch_def)
  ultimately have "accounted (take j ns) s2" using after_accounted [OF assms(7) inv1 assms(2)] by blast
  moreover have "rpc s2 = R_Exit" using threads_invD(3) [OF inv2] assms(8) by simp
  ultimately show ?thesis using assms(8) by (simp add: accounted_def queued_def)
qed

theorem write_error_leaks_witness:
  "\<exists>s d. sys_reachable failing_env 3 (track_setup example_queue) s \<and> mpc s = M_Done d \<and>
     mset (released s) + mset [0] = mset [0..<allocs s]"
proof -
  obtain es s where s: "run_events failing_env 3 es (track_setup example_queue) = Some s" "mpc s = M_Batch [0, 1]"
    using failing_run by blast
  have r: "sys_reachable failing_env 3 (track_setup example_queue) s" using run_reachable [OF s(1) reachable_start] .
  have p: "process_batch failing_env (batches s) = Write_failed 1 (-8)" by (simp add: failing_env_def)
  obtain s1 where s1: "main_step failing_env 3 s = Some s1" using s(2) by (simp add: main_step_def)
  have r1: "sys_reachable failing_env 3 (track_setup example_queue) s1"
    by (rule reachable_step [OF r, of Main_runs]) (use s1 in simp)
  have "threads_inv failing_env 3 s1"
    using reachable_inv [OF r1 setup_inv [OF example_create] failing_codes] .
  then obtain es' s2 d where e: "run_events failing_env 3 es' s1 = Some s2" "mpc s2 = M_Done d"
    using run_to_end [OF _ failing_codes failing_spec] by blast
  have r2: "sys_reachable failing_env 3 (track_setup example_queue) s2" using run_reachable [OF e(1) r1] .
  have "mset (released s2) + mset (take 1 [0, 1]) = mset [0..<allocs s2]"
    by (rule write_error_leaks [OF example_create failing_codes r s(2) p s1 run_reachable [OF e(1) reachable_start] e(2)])
  then show ?thesis using r2 e(2) by auto
qed

end
