(* ===== verification/Sacd_Input.thy ===== *)
theory Sacd_Input
  imports Byte_Stream Sa_Util Op_Loops
begin

text \<open>
  The sources of sectors of libsacd: \<^verbatim>\<open>sacd_input.h\<close> (the table of operations a source provides
  and the calls through it), \<^verbatim>\<open>sacd_input.c\<close> (which kind of source a path names) and
  \<^verbatim>\<open>sacd_input_file.c\<close> (disc images in files). A read that returns gives its code, the number of
  sectors it reports and the bytes it has stored from the start of the buffer. The network and drive
  sources are calls into foreign code, so opening them is a parameter.
\<close>

section \<open>Codes and formats\<close>

datatype sacd_sector_format = SACD_SECTOR_2048 | SACD_SECTOR_2054 | SACD_SECTOR_2064

datatype sacd_input_type = SACD_INPUT_TYPE_UNKNOWN | SACD_INPUT_TYPE_FILE | SACD_INPUT_TYPE_MEMORY
  | SACD_INPUT_TYPE_NETWORK | SACD_INPUT_TYPE_DEVICE

datatype sacd_input_error = SACD_INPUT_OK | SACD_INPUT_ERR_NULL_PTR | SACD_INPUT_ERR_OPEN_FAILED
  | SACD_INPUT_ERR_READ_FAILED | SACD_INPUT_ERR_SEEK_FAILED | SACD_INPUT_ERR_AUTH_FAILED
  | SACD_INPUT_ERR_DECRYPT_FAILED | SACD_INPUT_ERR_NOT_SUPPORTED | SACD_INPUT_ERR_OUT_OF_MEMORY
  | SACD_INPUT_ERR_NETWORK | SACD_INPUT_ERR_TIMEOUT | SACD_INPUT_ERR_INVALID_ARG | SACD_INPUT_ERR_EOF
  | SACD_INPUT_ERR_CLOSED

fun sacd_input_error_string :: "sacd_input_error \<Rightarrow> string" where
  "sacd_input_error_string SACD_INPUT_OK = ''success''"
| "sacd_input_error_string SACD_INPUT_ERR_NULL_PTR = ''null pointer''"
| "sacd_input_error_string SACD_INPUT_ERR_OPEN_FAILED = ''open failed''"
| "sacd_input_error_string SACD_INPUT_ERR_READ_FAILED = ''read failed''"
| "sacd_input_error_string SACD_INPUT_ERR_SEEK_FAILED = ''seek failed''"
| "sacd_input_error_string SACD_INPUT_ERR_AUTH_FAILED = ''authentication failed''"
| "sacd_input_error_string SACD_INPUT_ERR_DECRYPT_FAILED = ''decryption failed''"
| "sacd_input_error_string SACD_INPUT_ERR_NOT_SUPPORTED = ''operation not supported''"
| "sacd_input_error_string SACD_INPUT_ERR_OUT_OF_MEMORY = ''out of memory''"
| "sacd_input_error_string SACD_INPUT_ERR_NETWORK = ''network error''"
| "sacd_input_error_string SACD_INPUT_ERR_TIMEOUT = ''timeout''"
| "sacd_input_error_string SACD_INPUT_ERR_INVALID_ARG = ''invalid argument''"
| "sacd_input_error_string SACD_INPUT_ERR_EOF = ''end of file''"
| "sacd_input_error_string SACD_INPUT_ERR_CLOSED = ''device closed''"

fun sacd_input_type_string :: "sacd_input_type \<Rightarrow> string" where
  "sacd_input_type_string SACD_INPUT_TYPE_FILE = ''file''"
| "sacd_input_type_string SACD_INPUT_TYPE_MEMORY = ''memory''"
| "sacd_input_type_string SACD_INPUT_TYPE_NETWORK = ''network''"
| "sacd_input_type_string SACD_INPUT_TYPE_DEVICE = ''device''"
| "sacd_input_type_string SACD_INPUT_TYPE_UNKNOWN = ''unknown''"

abbreviation (input) SACD_LSN_SIZE :: u32 where "SACD_LSN_SIZE \<equiv> 2048"
abbreviation (input) MASTER_TOC1_START :: u64 where "MASTER_TOC1_START \<equiv> 510"

section \<open>The operations of a source\<close>

type_synonym read_result = "sacd_input_error \<times> u32 \<times> byte list"

text \<open>An operation that a source does not support is \<open>None\<close>.\<close>

record 'd sacd_input_ops =
  op_close :: "('d \<Rightarrow> sacd_input_error \<times> 'd) option"
  op_read_sectors :: "(u32 \<Rightarrow> u32 \<Rightarrow> 'd \<Rightarrow> read_result \<times> 'd) option"
  op_total_sectors :: "('d \<Rightarrow> u32 \<times> 'd) option"
  op_authenticate :: "('d \<Rightarrow> sacd_input_error \<times> 'd) option"
  op_decrypt :: "(byte list \<Rightarrow> u32 \<Rightarrow> 'd \<Rightarrow> (sacd_input_error \<times> byte list) \<times> 'd) option"
  op_get_error :: "('d \<Rightarrow> string \<times> 'd) option"
  op_get_sector_format :: "('d \<Rightarrow> (sacd_input_error \<times> sacd_sector_format) \<times> 'd) option"
  op_get_sector_size :: "('d \<Rightarrow> (sacd_input_error \<times> u32) \<times> 'd) option"
  op_get_header_size :: "('d \<Rightarrow> (sacd_input_error \<times> int) \<times> 'd) option"
  op_get_trailer_size :: "('d \<Rightarrow> (sacd_input_error \<times> int) \<times> 'd) option"

record 'd sacd_input =
  in_ops :: "'d sacd_input_ops option"
  in_dev :: 'd

text \<open>A call through the table: \<open>null\<close> for a missing source or table, \<open>missing\<close> for an operation that is
  not supported.\<close>

definition on_input ::
  "'r \<Rightarrow> 'r \<Rightarrow> ('d sacd_input_ops \<Rightarrow> ('d \<Rightarrow> 'r \<times> 'd) option) \<Rightarrow> 'd sacd_input option \<Rightarrow> 'r \<times> 'd sacd_input option" where
  "on_input null missing sel input = (case input of
       None \<Rightarrow> (null, input)
     | Some i \<Rightarrow> (case in_ops i of
           None \<Rightarrow> (null, input)
         | Some ops \<Rightarrow> (case sel ops of
               None \<Rightarrow> (missing, input)
             | Some f \<Rightarrow> (case f (in_dev i) of (r, d) \<Rightarrow> (r, Some (i\<lparr>in_dev := d\<rparr>))))))"

definition sacd_input_close :: "'d sacd_input option \<Rightarrow> sacd_input_error \<times> 'd sacd_input option" where
  "sacd_input_close = on_input SACD_INPUT_ERR_NULL_PTR SACD_INPUT_ERR_NULL_PTR op_close"

definition sacd_input_total_sectors :: "'d sacd_input option \<Rightarrow> u32 \<times> 'd sacd_input option" where
  "sacd_input_total_sectors = on_input 0 0 op_total_sectors"

definition sacd_input_authenticate :: "'d sacd_input option \<Rightarrow> sacd_input_error \<times> 'd sacd_input option" where
  "sacd_input_authenticate = on_input SACD_INPUT_ERR_NULL_PTR SACD_INPUT_ERR_NOT_SUPPORTED op_authenticate"

definition sacd_input_decrypt ::
  "byte list \<Rightarrow> u32 \<Rightarrow> 'd sacd_input option \<Rightarrow> (sacd_input_error \<times> byte list) \<times> 'd sacd_input option" where
  "sacd_input_decrypt buffer block_count =
     on_input (SACD_INPUT_ERR_NULL_PTR, buffer) (SACD_INPUT_ERR_NOT_SUPPORTED, buffer)
       (\<lambda>ops. map_option (\<lambda>f. f buffer block_count) (op_decrypt ops))"

definition sacd_input_get_error :: "'d sacd_input option \<Rightarrow> string \<times> 'd sacd_input option" where
  "sacd_input_get_error = on_input ''null input'' ''null input'' op_get_error"

definition sacd_input_supports_sector_format :: "'d sacd_input option \<Rightarrow> bool" where
  "sacd_input_supports_sector_format input = (case input of None \<Rightarrow> False
     | Some i \<Rightarrow> (case in_ops i of None \<Rightarrow> False | Some ops \<Rightarrow> op_get_sector_format ops \<noteq> None))"

text \<open>The value of a query is \<open>None\<close> when the output variable is left as it was.\<close>

definition query_input ::
  "'v \<Rightarrow> ('d sacd_input_ops \<Rightarrow> ('d \<Rightarrow> (sacd_input_error \<times> 'v) \<times> 'd) option) \<Rightarrow> 'd sacd_input option \<Rightarrow>
   (sacd_input_error \<times> 'v option) \<times> 'd sacd_input option" where
  "query_input standard sel =
     on_input (SACD_INPUT_ERR_NULL_PTR, None) (SACD_INPUT_OK, Some standard)
       (\<lambda>ops. map_option (\<lambda>f d. case f d of ((c, v), d') \<Rightarrow> ((c, Some v), d')) (sel ops))"

definition sacd_input_get_sector_format ::
  "'d sacd_input option \<Rightarrow> (sacd_input_error \<times> sacd_sector_format option) \<times> 'd sacd_input option" where
  "sacd_input_get_sector_format = query_input SACD_SECTOR_2048 op_get_sector_format"

definition sacd_input_get_sector_size ::
  "'d sacd_input option \<Rightarrow> (sacd_input_error \<times> u32 option) \<times> 'd sacd_input option" where
  "sacd_input_get_sector_size = query_input SACD_LSN_SIZE op_get_sector_size"

definition sacd_input_get_header_size ::
  "'d sacd_input option \<Rightarrow> (sacd_input_error \<times> int option) \<times> 'd sacd_input option" where
  "sacd_input_get_header_size = query_input 0 op_get_header_size"

definition sacd_input_get_trailer_size ::
  "'d sacd_input option \<Rightarrow> (sacd_input_error \<times> int option) \<times> 'd sacd_input option" where
  "sacd_input_get_trailer_size = query_input 0 op_get_trailer_size"

definition sacd_input_read_sectors ::
  "u32 \<Rightarrow> u32 \<Rightarrow> 'd sacd_input option \<Rightarrow> read_result \<times> 'd sacd_input option" where
  "sacd_input_read_sectors sector_pos sector_count =
     on_input (SACD_INPUT_ERR_NULL_PTR, 0, []) (SACD_INPUT_ERR_NOT_SUPPORTED, 0, [])
       (\<lambda>ops. map_option (\<lambda>f. f sector_pos sector_count) (op_read_sectors ops))"

text \<open>Whether the table of the source offers decryption.\<close>

definition decrypts :: "'d sacd_input option \<Rightarrow> bool" where
  "decrypts input = (case input of None \<Rightarrow> False
     | Some i \<Rightarrow> (case in_ops i of None \<Rightarrow> False | Some ops \<Rightarrow> op_decrypt ops \<noteq> None))"

section \<open>Disc images in files\<close>

record sacd_input_file =
  last_error :: sacd_input_error
  error_msg :: string
  img_fp :: cfile
  img_size :: u64
  img_format :: sacd_sector_format
  format_detected :: bool

text \<open>Sector size, header and trailer of a format.\<close>

fun sector_format_table :: "sacd_sector_format \<Rightarrow> u32 \<times> int \<times> int" where
  "sector_format_table SACD_SECTOR_2048 = (2048, 0, 0)"
| "sector_format_table SACD_SECTOR_2054 = (2054, 6, 0)"
| "sector_format_table SACD_SECTOR_2064 = (2064, 12, 4)"

abbreviation format_size :: "sacd_sector_format \<Rightarrow> u32" where
  "format_size fmt \<equiv> fst (sector_format_table fmt)"

abbreviation format_header :: "sacd_sector_format \<Rightarrow> int" where
  "format_header fmt \<equiv> fst (snd (sector_format_table fmt))"

abbreviation format_trailer :: "sacd_sector_format \<Rightarrow> int" where
  "format_trailer fmt \<equiv> snd (snd (sector_format_table fmt))"

fun decimal_digits :: "nat \<Rightarrow> string" where
  "decimal_digits n = (if n < 10 then [char_of (48 + n)]
     else decimal_digits (n div 10) @ [char_of (48 + n mod 10)])"

declare decimal_digits.simps [simp del]

text \<open>The size of the structure is a parameter. A message for a failure is lost with the object.\<close>

definition sacd_input_open_file ::
  "heap \<Rightarrow> nat \<Rightarrow> string option \<Rightarrow> (disk, sacd_input_error, sacd_input_file) op" where
  "sacd_input_open_file hp sizeof path = (\<lambda>d. case path of
       None \<Rightarrow> (Err SACD_INPUT_ERR_INVALID_ARG, d)
     | Some name \<Rightarrow>
         if \<not> sa_calloc hp 1 sizeof then (Err SACD_INPUT_ERR_OUT_OF_MEMORY, d)
         else (case fopen name RB d of
             (None, d') \<Rightarrow> (Err SACD_INPUT_ERR_OPEN_FAILED, d')
           | (Some f, d') \<Rightarrow> (case fseek 0 SEEK_END f of
               (False, f') \<Rightarrow> (Err SACD_INPUT_ERR_OPEN_FAILED, fclose f' d')
             | (True, f') \<Rightarrow>
                 if ftell f' < 0 then (Err SACD_INPUT_ERR_OPEN_FAILED, fclose f' d')
                 else (Ok \<lparr>last_error = SACD_INPUT_OK, error_msg = '''', img_fp = snd (fseek 0 SEEK_SET f'),
                           img_size = of_int (ftell f'), img_format = SACD_SECTOR_2048,
                           format_detected = False\<rparr>, d'))))"

text \<open>The stream was opened for reading, so closing it leaves the disk alone.\<close>

definition file_close :: "sacd_input_file \<Rightarrow> sacd_input_error \<times> sacd_input_file" where
  "file_close self = (SACD_INPUT_OK, self)"

definition file_total_sectors :: "sacd_input_file \<Rightarrow> u32 \<times> sacd_input_file" where
  "file_total_sectors self = (ucast (img_size self div 2048), self)"

definition file_get_error :: "sacd_input_file \<Rightarrow> string \<times> sacd_input_file" where
  "file_get_error self =
     (if error_msg self \<noteq> '''' then error_msg self else sacd_input_error_string (last_error self), self)"

text \<open>\<^verbatim>\<open>ferror\<close> after a read that delivers nothing: the stream refuses reading.\<close>

definition file_read_bytes :: "u64 \<Rightarrow> u64 \<Rightarrow> sacd_input_file \<Rightarrow> byte list \<times> sacd_input_file" where
  "file_read_bytes offset sz self =
     (if sz = 0 then ([], self)
      else if img_size self \<le> offset then ([], self\<lparr>last_error := SACD_INPUT_ERR_EOF\<rparr>)
      else let n = (if img_size self < offset + sz then img_size self - offset else sz) in
        (case fseek (sint offset) SEEK_SET (img_fp self) of
           (False, f) \<Rightarrow> ([], self\<lparr>img_fp := f, last_error := SACD_INPUT_ERR_SEEK_FAILED,
               error_msg := ''seek failed at offset '' @ decimal_digits (unat offset)\<rparr>)
         | (True, f) \<Rightarrow> (case fread (unat n) f of (bs, f') \<Rightarrow>
             if bs = [] \<and> \<not> freadable f' then
               ([], self\<lparr>img_fp := f', last_error := SACD_INPUT_ERR_READ_FAILED,
                  error_msg := ''read failed at offset '' @ decimal_digits (unat offset)\<rparr>)
             else (bs, self\<lparr>img_fp := f'\<rparr>))))"

section \<open>The sector format of an image\<close>

definition MAKE_MARKER64 :: "string \<Rightarrow> u64" where
  "MAKE_MARKER64 s = of_nat (le_dec (map of_char s))"

definition MASTER_TOC_SIGN :: u64 where
  "MASTER_TOC_SIGN = MAKE_MARKER64 ''SACDMTOC''"

definition file_check_sacd_signature ::
  "sacd_sector_format \<Rightarrow> sacd_input_file \<Rightarrow> bool \<times> sacd_input_file" where
  "file_check_sacd_signature fmt self =
     (let offset = MASTER_TOC1_START * ucast (format_size fmt);
          bytes_to_read = (if 0 < format_header fmt then of_int (format_header fmt) + 8 else 8);
          signature_offset = (if 0 < format_header fmt then nat (format_header fmt) else 0)
      in case file_read_bytes offset bytes_to_read self of (buffer, self') \<Rightarrow>
           (of_nat (length buffer) = bytes_to_read \<and>
              of_nat (le_dec (bytes_at signature_offset 8 buffer)) = MASTER_TOC_SIGN, self'))"

fun try_formats :: "sacd_sector_format list \<Rightarrow> sacd_input_file \<Rightarrow> bool \<times> sacd_input_file" where
  "try_formats [] self = (False, self\<lparr>img_format := SACD_SECTOR_2048, format_detected := False\<rparr>)"
| "try_formats (fmt # fmts) self = (case file_check_sacd_signature fmt self of
       (True, self') \<Rightarrow> (True, self'\<lparr>img_format := fmt, format_detected := True\<rparr>)
     | (False, self') \<Rightarrow> try_formats fmts self')"

definition file_detect_sector_format :: "sacd_input_file \<Rightarrow> bool \<times> sacd_input_file" where
  "file_detect_sector_format = try_formats [SACD_SECTOR_2064, SACD_SECTOR_2054, SACD_SECTOR_2048]"

text \<open>\<^verbatim>\<open>if (!fself->format_detected) _file_detect_sector_format(fself);\<close>\<close>

definition ensure_format :: "sacd_input_file \<Rightarrow> sacd_input_file" where
  "ensure_format self = (if format_detected self then self else snd (file_detect_sector_format self))"

definition file_get_sector_format ::
  "sacd_input_file \<Rightarrow> (sacd_input_error \<times> sacd_sector_format) \<times> sacd_input_file" where
  "file_get_sector_format self = (let s = ensure_format self in ((SACD_INPUT_OK, img_format s), s))"

definition file_get_sector_size :: "sacd_input_file \<Rightarrow> (sacd_input_error \<times> u32) \<times> sacd_input_file" where
  "file_get_sector_size self = (let s = ensure_format self in ((SACD_INPUT_OK, format_size (img_format s)), s))"

definition file_get_header_size :: "sacd_input_file \<Rightarrow> (sacd_input_error \<times> int) \<times> sacd_input_file" where
  "file_get_header_size self = (let s = ensure_format self in ((SACD_INPUT_OK, format_header (img_format s)), s))"

definition file_get_trailer_size :: "sacd_input_file \<Rightarrow> (sacd_input_error \<times> int) \<times> sacd_input_file" where
  "file_get_trailer_size self = (let s = ensure_format self in ((SACD_INPUT_OK, format_trailer (img_format s)), s))"

definition file_read_sectors :: "u32 \<Rightarrow> u32 \<Rightarrow> sacd_input_file \<Rightarrow> read_result \<times> sacd_input_file" where
  "file_read_sectors sector_pos sector_count self =
     (if sector_count = 0 then ((SACD_INPUT_OK, 0, []), self)
      else let s = ensure_format self;
               sector_size = ucast (format_size (img_format s)) :: u64;
               offset = ucast sector_pos * sector_size;
               wanted = ucast sector_count * sector_size
        in if img_size s \<le> offset then ((SACD_INPUT_ERR_EOF, 0, []), s\<lparr>last_error := SACD_INPUT_ERR_EOF\<rparr>)
           else let bytes_to_read = (if img_size s < offset + wanted then img_size s - offset else wanted) in
             (case file_read_bytes offset bytes_to_read s of (bs, s') \<Rightarrow>
                let sectors_read = ucast (of_nat (length bs) div sector_size) in
                if of_nat (length bs) \<noteq> bytes_to_read
                then ((SACD_INPUT_ERR_READ_FAILED, sectors_read, bs), s')
                else ((SACD_INPUT_OK, sectors_read, bs), s')))"

text \<open>The table of file sources: no authentication and no decryption.\<close>

definition file_input_ops :: "sacd_input_file sacd_input_ops" where
  "file_input_ops =
     \<lparr>op_close = Some file_close, op_read_sectors = Some file_read_sectors,
      op_total_sectors = Some file_total_sectors, op_authenticate = None, op_decrypt = None,
      op_get_error = Some file_get_error, op_get_sector_format = Some file_get_sector_format,
      op_get_sector_size = Some file_get_sector_size, op_get_header_size = Some file_get_header_size,
      op_get_trailer_size = Some file_get_trailer_size\<rparr>"

section \<open>Paths\<close>

definition strrchr :: "string \<Rightarrow> char \<Rightarrow> nat option" where
  "strrchr s c = (case filter (\<lambda>i. s ! i = c) [0..<length s] of [] \<Rightarrow> None | i # is \<Rightarrow> Some (last (i # is)))"

definition is_digit :: "char \<Rightarrow> bool" where
  "is_digit c \<longleftrightarrow> (48 :: nat) \<le> of_char c \<and> of_char c \<le> (57 :: nat)"

definition is_network_path :: "string \<Rightarrow> bool" where
  "is_network_path path = (case strrchr path (CHR '':'') of
       None \<Rightarrow> False
     | Some i \<Rightarrow> i \<noteq> 0 \<and> list_all is_digit (drop (Suc i) path) \<and> drop (Suc i) path \<noteq> [] \<and>
         1 \<le> length (filter (\<lambda>c. c = CHR ''.'') (take i path)))"

definition is_device_path :: "string \<Rightarrow> bool" where
  "is_device_path path \<longleftrightarrow> take 5 path = ''/dev/''"

text \<open>\<^verbatim>\<open>atoi\<close> of digits; a value outside \<^verbatim>\<open>int\<close> is undefined.\<close>

definition digits_value :: "string \<Rightarrow> nat" where
  "digits_value s = foldl (\<lambda>v c. v * 10 + (of_char c - 48)) 0 s"

datatype opened_input = Opened_network string u16 | Opened_device string | Opened_file sacd_input_file

text \<open>Opening a network source or a drive is foreign code and given by its code and the disk it leaves.\<close>

definition sacd_input_open ::
  "(string \<Rightarrow> u16 \<Rightarrow> sacd_input_error) \<Rightarrow> (string \<Rightarrow> sacd_input_error) \<Rightarrow> heap \<Rightarrow> nat \<Rightarrow> string option \<Rightarrow>
   (disk, sacd_input_error, opened_input) op" where
  "sacd_input_open open_network open_device hp sizeof path = (case path of
       None \<Rightarrow> fail SACD_INPUT_ERR_INVALID_ARG
     | Some p \<Rightarrow>
         if is_network_path p then
           (let i = the (strrchr p (CHR '':'')); host = take (min i 255) p in
            seq (c_int (int (digits_value (drop (Suc i) p)))) (\<lambda>v.
              let port = of_int v in
              case open_network host port of SACD_INPUT_OK \<Rightarrow> ret (Opened_network host port) | e \<Rightarrow> fail e))
         else if is_device_path p then
           (case open_device p of SACD_INPUT_OK \<Rightarrow> ret (Opened_device p) | e \<Rightarrow> fail e)
         else seq (sacd_input_open_file hp sizeof path) (\<lambda>f. ret (Opened_file f)))"

end
