(* ===== verification/Sacd_Source.thy ===== *)
theory Sacd_Source
  imports Sacd_Input
begin

text \<open>
  What the readers of frames rely on in a source of sectors, as the locale \<open>sector_input\<close>: a source
  has contents of whole bytes and a sector size; a read delivers the bytes from the first sector
  wanted, as many as there are, reports the whole sectors among them, and leaves contents and
  sector size as they are. The disc images in files are such sources, with the sector size that
  their signatures give.
\<close>

section \<open>The interface\<close>

locale sector_input =
  fixes ops :: "'d sacd_input_ops"
    and rd :: "u32 \<Rightarrow> u32 \<Rightarrow> 'd \<Rightarrow> read_result \<times> 'd"
    and usable :: "'d \<Rightarrow> bool"
    and contents :: "'d \<Rightarrow> byte list"
    and sector_bytes :: "'d \<Rightarrow> nat"
  assumes has_read: "op_read_sectors ops = Some rd"
    and sector_bytes_pos: "usable d \<Longrightarrow> 0 < sector_bytes d"
    and rd_keeps: "usable d \<Longrightarrow> rd p n d = (r, d') \<Longrightarrow>
      usable d' \<and> contents d' = contents d \<and> sector_bytes d' = sector_bytes d"
    and rd_inside: "usable d \<Longrightarrow> 0 < n \<Longrightarrow> unat p * sector_bytes d < length (contents d) \<Longrightarrow>
      fst (rd p n d) =
        (let bs = bytes_at (unat p * sector_bytes d) (unat n * sector_bytes d) (contents d)
         in (SACD_INPUT_OK, of_nat (length bs div sector_bytes d), bs))"
    and rd_outside: "usable d \<Longrightarrow> 0 < n \<Longrightarrow> length (contents d) \<le> unat p * sector_bytes d \<Longrightarrow>
      fst (rd p n d) = (SACD_INPUT_ERR_EOF, 0, [])"
begin

text \<open>The source attached to a reader.\<close>

definition attached :: "'d \<Rightarrow> 'd sacd_input option" where
  "attached d = Some \<lparr>in_ops = Some ops, in_dev = d\<rparr>"

definition same :: "'d \<Rightarrow> 'd \<Rightarrow> bool" where
  "same d d' \<longleftrightarrow> usable d' \<and> contents d' = contents d \<and> sector_bytes d' = sector_bytes d"

lemma same_refl: "usable d \<Longrightarrow> same d d"
  by (simp add: same_def)

lemma same_trans: "same d d' \<Longrightarrow> same d' d'' \<Longrightarrow> same d d''"
  by (simp add: same_def)

text \<open>Sectors that are all there.\<close>

lemma read_sectors_ok:
  assumes "usable d" "0 < n" "(unat p + unat n) * sector_bytes d \<le> length (contents d)"
  shows "\<exists>d'. same d d' \<and> sacd_input_read_sectors p n (attached d) =
    ((SACD_INPUT_OK, n, bytes_at (unat p * sector_bytes d) (unat n * sector_bytes d) (contents d)), attached d')"
proof -
  let ?bs = "bytes_at (unat p * sector_bytes d) (unat n * sector_bytes d) (contents d)"
  have n0: "0 < unat n"
    using assms(2) by (simp add: unat_gt_0 word_neq_0_conv)
  have sb: "0 < sector_bytes d"
    using assms(1) by (rule sector_bytes_pos)
  have le: "unat p * sector_bytes d + unat n * sector_bytes d \<le> length (contents d)"
    using assms(3) by (simp add: add_mult_distrib)
  then have len: "length ?bs = unat n * sector_bytes d"
    by (rule length_bytes_at)
  have "0 < unat n * sector_bytes d"
    using n0 sb by simp
  then have lt: "unat p * sector_bytes d < length (contents d)"
    using le by linarith
  obtain r d' where rd: "rd p n d = (r, d')" by fastforce
  have r: "r = (SACD_INPUT_OK, n, ?bs)"
    using rd_inside [OF assms(1,2) lt] rd len sb by (simp add: Let_def)
  have "same d d'"
    using rd_keeps [OF assms(1) rd] by (simp add: same_def)
  then show ?thesis
    using rd r by (auto simp: sacd_input_read_sectors_def on_input_def attached_def has_read)
qed

text \<open>A sector that is not wholly there is not reported, and neither is one behind the end.\<close>

lemma read_sector_missing:
  assumes "usable d" "length (contents d) < (unat p + 1) * sector_bytes d"
  shows "\<exists>d' c bs. same d d' \<and> length bs \<le> sector_bytes d \<and>
    sacd_input_read_sectors p 1 (attached d) = ((c, 0, bs), attached d')"
proof -
  let ?bs = "bytes_at (unat p * sector_bytes d) (sector_bytes d) (contents d)"
  have sb: "0 < sector_bytes d"
    using assms(1) by (rule sector_bytes_pos)
  obtain r d' where rd: "rd p 1 d = (r, d')" by fastforce
  have s: "same d d'"
    using rd_keeps [OF assms(1) rd] by (simp add: same_def)
  have "\<exists>c bs. length bs \<le> sector_bytes d \<and> r = (c, 0, bs)"
  proof (cases "unat p * sector_bytes d < length (contents d)")
    case True
    have lt: "length ?bs < sector_bytes d"
      using assms(2) True by (simp add: bytes_at_def add_mult_distrib)
    have "r = (SACD_INPUT_OK, of_nat (length ?bs div sector_bytes d), ?bs)"
      using rd_inside [OF assms(1) _ True, of 1] rd by (simp add: Let_def)
    then have "r = (SACD_INPUT_OK, 0, ?bs)" using lt by simp
    then show ?thesis using lt by (intro exI [of _ SACD_INPUT_OK] exI [of _ ?bs]) simp
  next
    case False
    then show ?thesis
      using rd_outside [OF assms(1), of 1 p] rd by simp
  qed
  then obtain c bs where "length bs \<le> sector_bytes d" "r = (c, 0, bs)" by blast
  then show ?thesis
    using rd s by (auto simp: sacd_input_read_sectors_def on_input_def attached_def has_read)
qed

end

text \<open>A source without decryption.\<close>

locale plain_input = sector_input +
  assumes no_decrypt: "op_decrypt ops = None"
begin

lemma attached_decrypts: "decrypts (attached d) = False"
  by (simp add: decrypts_def attached_def no_decrypt)

end

section \<open>Images in files\<close>

text \<open>Where the signature of the master table of contents lies in an image of each format.\<close>

definition signature_at :: "sacd_sector_format \<Rightarrow> byte list \<Rightarrow> bool" where
  "signature_at fmt img \<longleftrightarrow>
     (let p = 510 * unat (format_size fmt) + nat (format_header fmt)
      in p + 8 \<le> length img \<and> bytes_at p 8 img = map of_char ''SACDMTOC'')"

definition image_format :: "byte list \<Rightarrow> sacd_sector_format" where
  "image_format img =
     (if signature_at SACD_SECTOR_2064 img then SACD_SECTOR_2064
      else if signature_at SACD_SECTOR_2054 img then SACD_SECTOR_2054 else SACD_SECTOR_2048)"

definition image_of :: "sacd_input_file \<Rightarrow> byte list" where
  "image_of f = fdata (img_fp f)"

definition image_sector_bytes :: "sacd_input_file \<Rightarrow> nat" where
  "image_sector_bytes f = unat (format_size (image_format (image_of f)))"

definition file_usable :: "sacd_input_file \<Rightarrow> bool" where
  "file_usable f \<longleftrightarrow> freadable (img_fp f) \<and> unat (img_size f) = length (image_of f) \<and>
     int (length (image_of f)) \<le> INT64_MAX \<and>
     (format_detected f \<longrightarrow> img_format f = image_format (image_of f))"

text \<open>Everything but the position of the stream and the error report is the same.\<close>

definition same_image :: "sacd_input_file \<Rightarrow> sacd_input_file \<Rightarrow> bool" where
  "same_image f f' \<longleftrightarrow> freadable (img_fp f') = freadable (img_fp f) \<and> fdata (img_fp f') = fdata (img_fp f) \<and>
     img_size f' = img_size f \<and> img_format f' = img_format f \<and> format_detected f' = format_detected f"

lemma same_image_refl: "same_image f f"
  by (simp add: same_image_def)

lemma same_image_trans: "same_image f g \<Longrightarrow> same_image g h \<Longrightarrow> same_image f h"
  by (simp add: same_image_def)

lemma same_image_usable: "same_image f f' \<Longrightarrow> file_usable f' = file_usable f"
  by (simp add: same_image_def file_usable_def image_of_def)

lemma same_image_image: "same_image f f' \<Longrightarrow> image_of f' = image_of f"
  by (simp add: same_image_def image_of_def)

lemma file_read_bytes_inside:
  assumes f: "file_usable f" and sz: "0 < unat sz" and fit: "unat off + unat sz \<le> length (image_of f)"
  shows "\<exists>f'. same_image f f' \<and> file_read_bytes off sz f = (bytes_at (unat off) (unat sz) (image_of f), f')"
proof -
  have len: "unat (img_size f) = length (image_of f)" "int (length (image_of f)) \<le> INT64_MAX"
    using f by (simp_all add: file_usable_def)
  have small: "unat off + unat sz < 2 ^ 64"
    using fit len by simp
  then have sum: "unat (off + sz) = unat off + unat sz"
    by (simp add: unat_word_ariths)
  have a: "\<not> img_size f \<le> off" "\<not> img_size f < off + sz"
    using fit sz len(1) sum by (simp_all add: word_le_nat_alt word_less_nat_alt)
  have z: "sz \<noteq> 0" using sz by auto
  have si: "sint off = int (unat off)"
    using fit len(2) by (intro sint_u64_unat) simp
  let ?f1 = "(img_fp f)\<lparr>fpos := unat off\<rparr>"
  have "int (unat off) \<le> INT64_MAX"
    using fit len(2) by linarith
  then have "uint off \<le> INT64_MAX" by simp
  then have seek: "fseek (sint off) SEEK_SET (img_fp f) = (True, ?f1)"
    by (simp add: fseek_def si Let_def)
  have rd: "fread (unat sz) ?f1 = (bytes_at (unat off) (unat sz) (image_of f),
      ?f1\<lparr>fpos := unat off + length (bytes_at (unat off) (unat sz) (image_of f))\<rparr>)"
    using f by (simp add: fread_def file_usable_def bytes_at_def image_of_def Let_def)
  show ?thesis
    using z a f by (auto simp: file_read_bytes_def seek rd Let_def same_image_def file_usable_def)
qed

text \<open>A read across the end delivers what is there.\<close>

lemma file_read_bytes_any:
  assumes f: "file_usable f" and fit: "unat off + unat sz < 2 ^ 64"
  shows "\<exists>f'. same_image f f' \<and> file_read_bytes off sz f = (bytes_at (unat off) (unat sz) (image_of f), f')"
proof -
  have len: "unat (img_size f) = length (image_of f)"
    using f by (simp add: file_usable_def)
  have sum: "unat (off + sz) = unat off + unat sz"
    using fit by (simp add: unat_word_ariths)
  consider "sz = 0" | "0 < unat sz" "length (image_of f) \<le> unat off"
    | "0 < unat sz" "unat off < length (image_of f)" "length (image_of f) < unat off + unat sz"
    | "0 < unat sz" "unat off + unat sz \<le> length (image_of f)"
    by (metis linorder_not_less unat_gt_0)
  then show ?thesis
  proof cases
    case 1
    then show ?thesis by (simp add: file_read_bytes_def bytes_at_def same_image_refl)
  next
    case 2
    then have "sz \<noteq> 0" "img_size f \<le> off" by (auto simp: word_le_nat_alt len)
    then show ?thesis
      using 2 by (simp add: file_read_bytes_def bytes_at_def same_image_def)
  next
    case 3
    let ?n = "img_size f - off"
    have n: "unat ?n = length (image_of f) - unat off"
      using 3 len by (simp add: unat_sub word_le_nat_alt)
    have "file_read_bytes off sz f = file_read_bytes off ?n f"
    proof -
      have "sz \<noteq> 0" "\<not> img_size f \<le> off" "img_size f < off + sz"
        using 3 len sum by (auto simp: word_le_nat_alt word_less_nat_alt)
      moreover have "?n \<noteq> 0" "\<not> img_size f < off + ?n"
        using 3 n by auto
      ultimately show ?thesis by (simp add: file_read_bytes_def)
    qed
    moreover have "bytes_at (unat off) (unat sz) (image_of f) = bytes_at (unat off) (unat ?n) (image_of f)"
      using 3 n by (simp add: bytes_at_def)
    ultimately show ?thesis
      using file_read_bytes_inside [OF f, of ?n off] 3 n by simp
  next
    case 4
    then show ?thesis by (rule file_read_bytes_inside [OF f])
  qed
qed

section \<open>The format that the signature gives\<close>

lemma format_size_cases: "unat (format_size fmt) \<in> {2048, 2054, 2064}"
  by (cases fmt) simp_all

lemma bytes_at_full: "length (bytes_at p (h + 8) d) = h + 8 \<longleftrightarrow> p + h + 8 \<le> length d"
  by (auto simp: bytes_at_def)

lemma bytes_at_nested: "q + m \<le> n \<Longrightarrow> bytes_at q m (bytes_at p n d) = bytes_at (p + q) m d"
  by (simp add: bytes_at_def drop_take add.commute)

lemma unat_ucast_of: "unat (w :: u64) = k \<Longrightarrow> ucast w = (of_nat k :: u32)"
  by (auto simp: of_nat_unat)

lemma power_256_8: "(256 :: nat) ^ 8 = 18446744073709551616"
  by simp

lemma sign_bytes:
  assumes "length bs = 8"
  shows "of_nat (le_dec bs) = MASTER_TOC_SIGN \<longleftrightarrow> bs = map of_char ''SACDMTOC''"
proof
  assume eq: "of_nat (le_dec bs) = MASTER_TOC_SIGN"
  have l: "length (map of_char ''SACDMTOC'' :: byte list) = 8" by simp
  have "le_dec bs < 256 ^ 8" "le_dec (map of_char ''SACDMTOC'') < 256 ^ 8"
    using le_dec_less [of bs] le_dec_less [of "map of_char ''SACDMTOC''"] assms l by (simp_all only:)
  moreover have "(of_nat (le_dec bs) :: u64) = of_nat (le_dec (map of_char ''SACDMTOC''))"
    using eq by (simp only: MASTER_TOC_SIGN_def MAKE_MARKER64_def)
  ultimately have "le_dec bs = le_dec (map of_char ''SACDMTOC'')"
    by (metis unat_of_nat_u64 power_256_8)
  then show "bs = map of_char ''SACDMTOC''"
    using le_enc_dec [OF assms] le_enc_dec [OF l] by metis
qed (simp add: MASTER_TOC_SIGN_def MAKE_MARKER64_def)

lemma file_check_signature:
  assumes "file_usable f"
  shows "\<exists>f'. same_image f f' \<and> file_check_sacd_signature fmt f = (signature_at fmt (image_of f), f')"
proof -
  let ?off = "MASTER_TOC1_START * ucast (format_size fmt)"
  let ?h = "nat (format_header fmt)"
  let ?n = "(if 0 < format_header fmt then of_int (format_header fmt) + 8 else 8) :: u64"
  have off: "unat ?off = 510 * unat (format_size fmt)" and n: "unat ?n = ?h + 8"
    and so: "(if 0 < format_header fmt then nat (format_header fmt) else 0) = ?h"
    by (cases fmt; simp)+
  have h: "?h \<le> 12"
    by (cases fmt) simp_all
  have "unat (format_size fmt) \<le> 2064"
    using format_size_cases [of fmt] by auto
  then have "unat ?off + unat ?n < 2 ^ 64"
    unfolding off n using h by simp
  then obtain f' where f': "same_image f f'"
    and rd: "file_read_bytes ?off ?n f = (bytes_at (unat ?off) (unat ?n) (image_of f), f')"
    using file_read_bytes_any [OF assms] by blast
  let ?b = "bytes_at (unat ?off) (?h + 8) (image_of f)"
  have len: "length ?b \<le> ?h + 8" by (simp add: bytes_at_def)
  have all: "of_nat (length ?b) = ?n \<longleftrightarrow> length ?b = ?h + 8"
  proof -
    have "unat (of_nat (length ?b) :: u64) = length ?b"
      using len h by (intro unat_of_nat_u64) linarith
    then show ?thesis using n by (simp only: word_unat_eq_iff)
  qed
  have there: "length ?b = ?h + 8 \<longleftrightarrow> unat ?off + ?h + 8 \<le> length (image_of f)"
    by (simp only: bytes_at_full)
  have part: "bytes_at ?h 8 ?b = bytes_at (unat ?off + ?h) 8 (image_of f)"
    by (rule bytes_at_nested) simp
  have sig: "of_nat (length ?b) = ?n \<and> of_nat (le_dec (bytes_at ?h 8 ?b)) = MASTER_TOC_SIGN \<longleftrightarrow>
      signature_at fmt (image_of f)"
  proof (cases "unat ?off + ?h + 8 \<le> length (image_of f)")
    case True
    then have "length (bytes_at (unat ?off + ?h) 8 (image_of f)) = 8"
      by (intro length_bytes_at) simp
    then show ?thesis
      using True by (simp add: all there part signature_at_def sign_bytes off [symmetric] Let_def)
  next
    case False
    then show ?thesis by (simp add: all there signature_at_def off [symmetric] Let_def)
  qed
  show ?thesis
    using f' rd unfolding file_check_sacd_signature_def Let_def n so
    by (simp only: prod.case sig) blast
qed

lemma try_formats_finds:
  assumes "file_usable f"
  shows "\<exists>f'. image_of f' = image_of f \<and> freadable (img_fp f') = freadable (img_fp f) \<and> img_size f' = img_size f \<and>
    img_format f' = (case filter (\<lambda>fmt. signature_at fmt (image_of f)) fmts of [] \<Rightarrow> SACD_SECTOR_2048 | fmt # _ \<Rightarrow> fmt) \<and>
    snd (try_formats fmts f) = f'"
  using assms
proof (induction fmts arbitrary: f)
  case Nil
  then show ?case by (simp add: image_of_def)
next
  case (Cons fmt fmts)
  obtain f1 where f1: "same_image f f1" and c: "file_check_sacd_signature fmt f = (signature_at fmt (image_of f), f1)"
    using file_check_signature [OF Cons.prems] by blast
  have im: "image_of f1 = image_of f" "img_size f1 = img_size f" "freadable (img_fp f1) = freadable (img_fp f)"
    using f1 by (simp_all add: same_image_def image_of_def)
  show ?case
  proof (cases "signature_at fmt (image_of f)")
    case True
    then show ?thesis using c im by (simp add: image_of_def)
  next
    case False
    then show ?thesis
      using c im Cons.IH [of f1] same_image_usable [OF f1] Cons.prems by simp
  qed
qed

text \<open>After the format has been asked for, it is the one the signature gives.\<close>

lemma ensure_format_ok:
  assumes "file_usable f"
  shows "file_usable (ensure_format f)" "image_of (ensure_format f) = image_of f"
    "img_format (ensure_format f) = image_format (image_of f)"
proof -
  have "file_usable (ensure_format f) \<and> image_of (ensure_format f) = image_of f \<and>
    img_format (ensure_format f) = image_format (image_of f)"
  proof (cases "format_detected f")
    case True
    then show ?thesis using assms by (simp add: ensure_format_def file_usable_def)
  next
    case False
    obtain f' where f': "image_of f' = image_of f" "freadable (img_fp f') = freadable (img_fp f)"
      "img_size f' = img_size f" "snd (file_detect_sector_format f) = f'"
      "img_format f' = image_format (image_of f)"
      using try_formats_finds [OF assms, of "[SACD_SECTOR_2064, SACD_SECTOR_2054, SACD_SECTOR_2048]"]
      by (auto simp: file_detect_sector_format_def image_format_def split: if_splits)
    then show ?thesis
      using assms False by (simp add: ensure_format_def file_usable_def)
  qed
  then show "file_usable (ensure_format f)" "image_of (ensure_format f) = image_of f"
    "img_format (ensure_format f) = image_format (image_of f)" by simp_all
qed

section \<open>Reading sectors of an image\<close>

lemma length_bytes_at_min: "length (bytes_at p n d) = min n (length d - p)"
  by (simp add: bytes_at_def)

lemma file_read_sectors_inside:
  assumes "n \<noteq> 0" "g = ensure_format f" "ss = ucast (format_size (img_format g))"
    and "\<not> img_size g \<le> ucast p * ss"
    and "k = (if img_size g < ucast p * ss + ucast n * ss then img_size g - ucast p * ss else ucast n * ss)"
    and "file_read_bytes (ucast p * ss) k g = (bs, f')" "of_nat (length bs) = k"
  shows "file_read_sectors p n f = ((SACD_INPUT_OK, ucast (of_nat (length bs) div ss), bs), f')"
  unfolding file_read_sectors_def Let_def assms(2) [symmetric] assms(3) [symmetric] assms(5) [symmetric]
  using assms(1,4,6,7) by simp

lemma file_read_sectors_eq:
  assumes f: "file_usable f" and n: "0 < n"
  shows "\<exists>f'. file_usable f' \<and> image_of f' = image_of f \<and> file_read_sectors p n f =
    ((let sb = image_sector_bytes f; bs = bytes_at (unat p * sb) (unat n * sb) (image_of f) in
      if unat p * sb < length (image_of f) then (SACD_INPUT_OK, of_nat (length bs div sb), bs)
      else (SACD_INPUT_ERR_EOF, 0, [])), f')"
proof -
  let ?g = "ensure_format f" and ?sb = "image_sector_bytes f" and ?img = "image_of f"
  let ?ss = "ucast (format_size (img_format ?g)) :: u64"
  let ?off = "ucast p * ?ss" and ?want = "ucast n * ?ss"
  note g = ensure_format_ok [OF f]
  have ss: "unat ?ss = ?sb" and sb: "?sb \<le> 2064" "0 < ?sb"
    using format_size_cases [of "image_format ?img"] by (auto simp: g(3) unat_ucast_u64 image_sector_bytes_def)
  have ss': "unat (format_size (img_format ?g)) = ?sb"
    by (simp add: g(3) image_sector_bytes_def)
  have prod: "unat (ucast (w :: u32) * ?ss) = unat w * ?sb" for w
  proof -
    have "unat w < 4294967296" using unat_bound [of w] by simp
    then have "unat w * ?sb \<le> 4294967296 * 2064" using sb by (intro mult_le_mono) simp_all
    then show ?thesis by (simp add: unat_word_ariths unat_ucast_u64 ss')
  qed
  have bound: "unat w * ?sb < 2 ^ 62" for w :: u32
  proof -
    have "unat w < 4294967296" using unat_bound [of w] by simp
    then have "unat w * ?sb \<le> 4294967296 * 2064" using sb by (intro mult_le_mono) simp_all
    then show ?thesis by simp
  qed
  have size: "unat (img_size ?g) = length ?img" "int (length ?img) \<le> INT64_MAX"
    using g by (simp_all add: file_usable_def)
  have sum: "unat (?off + ?want) = unat p * ?sb + unat n * ?sb"
    using bound [of p] bound [of n] by (simp add: unat_word_ariths(1) prod)
  have nz: "n \<noteq> 0" using n by auto
  show ?thesis
  proof (cases "unat p * ?sb < length ?img")
    case False
    then have "img_size ?g \<le> ?off"
      by (simp add: word_le_nat_alt prod size)
    then have "file_read_sectors p n f = ((SACD_INPUT_ERR_EOF, 0, []), ?g\<lparr>last_error := SACD_INPUT_ERR_EOF\<rparr>)"
      using nz by (simp add: file_read_sectors_def Let_def)
    moreover have "file_usable (?g\<lparr>last_error := SACD_INPUT_ERR_EOF\<rparr>) \<and>
        image_of (?g\<lparr>last_error := SACD_INPUT_ERR_EOF\<rparr>) = ?img"
      using g by (simp add: file_usable_def image_of_def)
    ultimately show ?thesis using False by (auto simp: Let_def)
  next
    case True
    let ?n = "if img_size ?g < ?off + ?want then img_size ?g - ?off else ?want"
    have inside: "\<not> img_size ?g \<le> ?off"
      using True by (simp add: word_le_nat_alt prod size)
    have n': "unat ?n = min (unat n * ?sb) (length ?img - unat p * ?sb)"
    proof (cases "img_size ?g < ?off + ?want")
      case True
      then have "length ?img < unat p * ?sb + unat n * ?sb"
        by (simp add: word_less_nat_alt sum size)
      moreover have "unat (img_size ?g - ?off) = length ?img - unat p * ?sb"
        using inside by (simp add: unat_sub size prod)
      ultimately show ?thesis using True by simp
    next
      case False
      then have "unat p * ?sb + unat n * ?sb \<le> length ?img"
        by (simp add: word_less_nat_alt sum size not_less)
      then show ?thesis using False by (simp add: prod)
    qed
    let ?bs = "bytes_at (unat p * ?sb) (unat n * ?sb) ?img"
    have lbs: "length ?bs = unat ?n"
      by (simp only: length_bytes_at_min n')
    obtain f' where f': "same_image ?g f'"
      and rd: "file_read_bytes ?off ?n ?g = (bytes_at (unat p * ?sb) (unat ?n) ?img, f')"
      using file_read_bytes_any [OF g(1), of ?off ?n] bound [of p] bound [of n] n'
      unfolding g(2) prod by fastforce
    have cut: "bytes_at (unat p * ?sb) (unat ?n) ?img = ?bs"
      unfolding n' by (simp add: bytes_at_def min_def)
    have whole: "of_nat (length ?bs) = ?n" by (simp only: lbs of_nat_unat ucast_id)
    have q: "ucast (of_nat (length ?bs) div ?ss) = (of_nat (length ?bs div ?sb) :: u32)"
    proof -
      have "unat (?n div ?ss) = length ?bs div ?sb"
        by (simp only: unat_div_distrib ss lbs)
      then show ?thesis unfolding whole by (metis unat_ucast_of)
    qed
    have "file_read_sectors p n f = ((SACD_INPUT_OK, of_nat (length ?bs div ?sb), ?bs), f')"
      using file_read_sectors_inside [OF nz refl refl inside refl rd [unfolded cut] whole] unfolding q .
    moreover have "file_usable f'" "image_of f' = ?img"
      using same_image_usable [OF f'] same_image_image [OF f'] g by simp_all
    ultimately show ?thesis using True by (auto simp: Let_def)
  qed
qed

text \<open>An image in a file is a source of sectors without decryption.\<close>

interpretation disc_file: plain_input file_input_ops file_read_sectors file_usable image_of image_sector_bytes
proof (unfold_locales, goal_cases)
  case (2 d)
  then show ?case
    using format_size_cases [of "image_format (image_of d)"] by (auto simp: image_sector_bytes_def)
next
  case (3 d p n r d')
  show ?case
  proof (cases "n = 0")
    case True
    then show ?thesis using 3 by (simp add: file_read_sectors_def)
  next
    case False
    then show ?thesis
      using 3 file_read_sectors_eq [of d n p] by (auto simp: image_sector_bytes_def word_neq_0_conv)
  qed
next
  case (4 d n p)
  then show ?case using file_read_sectors_eq [of d n p] by (auto simp: Let_def)
next
  case (5 d n p)
  then show ?case using file_read_sectors_eq [of d n p] by (auto simp: Let_def)
qed (simp_all add: file_input_ops_def)

text \<open>Opening an image gives a source with the contents of the file.\<close>

lemma open_file_usable:
  assumes "dfiles d name = Some img" "dreadable d name" "int (length img) \<le> INT64_MAX" "sa_calloc hp 1 sz"
  shows "\<exists>f. sacd_input_open_file hp sz (Some name) d = (Ok f, d) \<and> file_usable f \<and> image_of f = img"
  using assms
  by (auto simp: sacd_input_open_file_def fopen_def fseek_def ftell_def Let_def file_usable_def image_of_def unat_of_nat_u64)

end
