(* ===== verification/Sacd_Frames.thy ===== *)
theory Sacd_Frames
  imports Sacd_Source
begin

text \<open>
  The frame readers of libsacd (\<^verbatim>\<open>sacd_frame_reader.h\<close>) and the two of them for plain DSD
  (\<^verbatim>\<open>sacd_dsd_reader.c\<close>), where three frames of 9408 bytes lie in 14 or in 16 sectors. A reader
  has the range of sectors of its track area and the layout of a sector; the source of the sectors,
  which it shares with the disc, is part of the state of its operations. Codes are numbers, as the
  callers compare those of one enumeration with those of another.
\<close>

section \<open>Readers\<close>

datatype sacd_frame_reader_type = SACD_FRAME_READER_DSD14 | SACD_FRAME_READER_DSD16 | SACD_FRAME_READER_DST

record sacd_frame_reader =
  fr_type :: sacd_frame_reader_type
  fr_start :: u32
  fr_end :: u32
  fr_sector_count :: u32
  fr_last_read :: u32
  fr_sector_size :: int
  fr_header_size :: int
  fr_trailer_size :: int

text \<open>\<^verbatim>\<open>sa_calloc\<close>: all fields zero.\<close>

definition zero_reader :: sacd_frame_reader where
  "zero_reader = \<lparr>fr_type = SACD_FRAME_READER_DSD14, fr_start = 0, fr_end = 0, fr_sector_count = 0,
     fr_last_read = 0, fr_sector_size = 0, fr_header_size = 0, fr_trailer_size = 0\<rparr>"

abbreviation (input) SACD_FRAME_READER_ERR_OUT_OF_MEMORY :: int where "SACD_FRAME_READER_ERR_OUT_OF_MEMORY \<equiv> -1"
abbreviation (input) SACD_FRAME_READER_ERR_INVALID_ARG :: int where "SACD_FRAME_READER_ERR_INVALID_ARG \<equiv> -2"

text \<open>The fields that \<^verbatim>\<open>sacd_frame_reader_init\<close> sets before it calls the initialisation of the
  kind of reader.\<close>

definition reader_init_base ::
  "u32 \<Rightarrow> u32 \<Rightarrow> int \<Rightarrow> int \<Rightarrow> int \<Rightarrow> 'a sacd_frame_reader_scheme \<Rightarrow> 'a sacd_frame_reader_scheme" where
  "reader_init_base start_sector end_sector sector_size header_size trailer_size self =
     self\<lparr>fr_start := start_sector, fr_end := end_sector, fr_last_read := start_sector,
          fr_sector_count := (end_sector - start_sector) + 1, fr_sector_size := sector_size,
          fr_header_size := header_size, fr_trailer_size := trailer_size\<rparr>"

section \<open>Plain DSD\<close>

abbreviation (input) SACD_DSD_READER_OK :: int where "SACD_DSD_READER_OK \<equiv> 0"
abbreviation (input) SACD_DSD_READER_IO_ERROR :: int where "SACD_DSD_READER_IO_ERROR \<equiv> 2"
abbreviation (input) SACD_DSD_READER_MEMORY_ALLOCATION_ERROR :: int where
  "SACD_DSD_READER_MEMORY_ALLOCATION_ERROR \<equiv> 3"

record fixed_read_def =
  rd_offset :: nat
  rd_length :: nat

record fixed_read_state =
  st_sector_count :: nat
  st_sector_mul :: int
  st_sector_addition :: int
  st_state :: "fixed_read_def list"

abbreviation (input) read_def :: "nat \<Rightarrow> nat \<Rightarrow> fixed_read_def" where
  "read_def off len \<equiv> \<lparr>rd_offset = off, rd_length = len\<rparr>"

definition rdstate_3_in_14 :: "fixed_read_state list" where
  "rdstate_3_in_14 =
    [\<lparr>st_sector_count = 5, st_sector_mul = 14, st_sector_addition = 0,
      st_state = [read_def 32 2016, read_def 32 2016, read_def 32 2016, read_def 32 2016, read_def 32 1344,
                  read_def 0 0]\<rparr>,
     \<lparr>st_sector_count = 6, st_sector_mul = 14, st_sector_addition = 4,
      st_state = [read_def (32 + 1344) 672, read_def 32 2016, read_def 32 2016, read_def 32 2016,
                  read_def 32 2016, read_def 32 672]\<rparr>,
     \<lparr>st_sector_count = 5, st_sector_mul = 14, st_sector_addition = 9,
      st_state = [read_def (32 + 672) 1344, read_def 32 2016, read_def 32 2016, read_def 32 2016,
                  read_def 32 2016, read_def 0 0]\<rparr>]"

definition rdstate_3_in_16 :: "fixed_read_state list" where
  "rdstate_3_in_16 =
    [\<lparr>st_sector_count = 6, st_sector_mul = 16, st_sector_addition = 0,
      st_state = [read_def 284 1764, read_def 284 1764, read_def 284 1764, read_def 284 1764, read_def 284 1764,
                  read_def 284 588]\<rparr>,
     \<lparr>st_sector_count = 6, st_sector_mul = 16, st_sector_addition = 5,
      st_state = [read_def (284 + 588) 1176, read_def 284 1764, read_def 284 1764, read_def 284 1764,
                  read_def 284 1764, read_def 284 1176]\<rparr>,
     \<lparr>st_sector_count = 6, st_sector_mul = 16, st_sector_addition = 10,
      st_state = [read_def (284 + 1176) 588, read_def 284 1764, read_def 284 1764, read_def 284 1764,
                  read_def 284 1764, read_def 284 1764]\<rparr>]"

text \<open>
  The state of a read: the source, and the bytes that have been stored at \<^verbatim>\<open>p_data\<close>, whose number
  is \<^verbatim>\<open>*length\<close>. The room there is \<open>cap\<close> bytes, which the code does not look at. What is stored
  beyond the buffer for a sector, or taken from beyond the bytes of one, is undefined.
\<close>

type_synonym 'd frame_state = "'d sacd_input option \<times> byte list"

definition copy_range :: "nat \<Rightarrow> byte list \<Rightarrow> int \<Rightarrow> nat \<Rightarrow> ('d frame_state, int, unit) op" where
  "copy_range cap sector src len = (\<lambda>(input, out).
     if src < 0 \<or> int (length sector) < src + int len \<or> cap < length out + len then (Fault, (input, out))
     else (Ok (), (input, out @ bytes_at (nat src) len sector)))"

text \<open>The code of the read is not looked at, only the number of sectors.\<close>

definition fixed_read_step ::
  "fixed_read_state \<Rightarrow> 'a sacd_frame_reader_scheme \<Rightarrow> nat \<Rightarrow> int \<Rightarrow> nat \<Rightarrow> ('d frame_state, int, unit) op" where
  "fixed_read_step st self cap block_count i =
     seq (c_int (block_count * st_sector_mul st)) (\<lambda>m. \<lambda>(input, out).
       case sacd_input_read_sectors (fr_start self + of_int m + of_int (st_sector_addition st) + of_nat i) 1 input of
         ((_, num_sectors_read, sector), input') \<Rightarrow>
           if fr_sector_size self < int (length sector) then (Fault, (input', out))
           else if num_sectors_read \<noteq> 1 then (Err SACD_DSD_READER_IO_ERROR, (input', out))
           else copy_range cap sector (fr_header_size self + int (rd_offset (st_state st ! i)))
                  (rd_length (st_state st ! i)) (input', out))"

definition dsd_audio_fixed_read_frame ::
  "heap \<Rightarrow> fixed_read_state list \<Rightarrow> 'a sacd_frame_reader_scheme \<Rightarrow> nat \<Rightarrow> u32 \<Rightarrow> ('d frame_state, int, unit) op" where
  "dsd_audio_fixed_read_frame hp state self cap frame_num =
     (let block_count = int (unat (frame_num div 3)); block_idx = unat (frame_num mod 3); st = state ! block_idx in
      if \<not> sa_malloc hp (unat (of_int (fr_sector_size self) :: u64))
      then fail SACD_DSD_READER_MEMORY_ALLOCATION_ERROR
      else seq (modify (\<lambda>(input, _). (input, []))) (\<lambda>_.
           for_loop 0 (st_sector_count st) (fixed_read_step st self cap block_count)))"

definition dsd_audio_fixed_get_sector ::
  "fixed_read_state list \<Rightarrow> 'a sacd_frame_reader_scheme \<Rightarrow> u32 \<Rightarrow> u32 \<times> nat" where
  "dsd_audio_fixed_get_sector state self frame =
     (let st = state ! unat (frame mod 3) in
      (fr_start self + (frame div 3) * of_int (st_sector_mul st) + of_int (st_sector_addition st),
       st_sector_count st))"

definition dsd_audio_fixed14_read_frame ::
  "heap \<Rightarrow> 'a sacd_frame_reader_scheme \<Rightarrow> nat \<Rightarrow> u32 \<Rightarrow> ('d frame_state, int, unit) op" where
  "dsd_audio_fixed14_read_frame hp = dsd_audio_fixed_read_frame hp rdstate_3_in_14"

definition dsd_audio_fixed16_read_frame ::
  "heap \<Rightarrow> 'a sacd_frame_reader_scheme \<Rightarrow> nat \<Rightarrow> u32 \<Rightarrow> ('d frame_state, int, unit) op" where
  "dsd_audio_fixed16_read_frame hp = dsd_audio_fixed_read_frame hp rdstate_3_in_16"

definition dsd_audio_fixed14_get_sector :: "'a sacd_frame_reader_scheme \<Rightarrow> u32 \<Rightarrow> u32 \<times> nat" where
  "dsd_audio_fixed14_get_sector = dsd_audio_fixed_get_sector rdstate_3_in_14"

definition dsd_audio_fixed16_get_sector :: "'a sacd_frame_reader_scheme \<Rightarrow> u32 \<Rightarrow> u32 \<times> nat" where
  "dsd_audio_fixed16_get_sector = dsd_audio_fixed_get_sector rdstate_3_in_16"

definition dsd_reader_fixed14_init :: "sacd_frame_reader \<Rightarrow> sacd_frame_reader" where
  "dsd_reader_fixed14_init self = self\<lparr>fr_type := SACD_FRAME_READER_DSD14\<rparr>"

definition dsd_reader_fixed16_init :: "sacd_frame_reader \<Rightarrow> sacd_frame_reader" where
  "dsd_reader_fixed16_init self = self\<lparr>fr_type := SACD_FRAME_READER_DSD16\<rparr>"

text \<open>Both creators: \<open>sz\<close> is the size of the structure.\<close>

definition sacd_frame_reader_fixed14_create :: "heap \<Rightarrow> nat \<Rightarrow> (int, sacd_frame_reader) outcome" where
  "sacd_frame_reader_fixed14_create hp sz =
     (if sa_calloc hp 1 sz then Ok zero_reader else Err SACD_FRAME_READER_ERR_OUT_OF_MEMORY)"

definition sacd_frame_reader_fixed16_create :: "heap \<Rightarrow> nat \<Rightarrow> (int, sacd_frame_reader) outcome" where
  "sacd_frame_reader_fixed16_create hp sz =
     (if sa_calloc hp 1 sz then Ok zero_reader else Err SACD_FRAME_READER_ERR_OUT_OF_MEMORY)"

text \<open>The tables of operations of the two, through which they are called.\<close>

datatype dsd_reader_ops = dsd_reader_fixed14_ops | dsd_reader_fixed16_ops

fun dsd_read_frame :: "dsd_reader_ops \<Rightarrow> heap \<Rightarrow> 'a sacd_frame_reader_scheme \<Rightarrow> nat \<Rightarrow> u32 \<Rightarrow> ('d frame_state, int, unit) op" where
  "dsd_read_frame dsd_reader_fixed14_ops = dsd_audio_fixed14_read_frame"
| "dsd_read_frame dsd_reader_fixed16_ops = dsd_audio_fixed16_read_frame"

fun dsd_get_sector :: "dsd_reader_ops \<Rightarrow> 'a sacd_frame_reader_scheme \<Rightarrow> u32 \<Rightarrow> u32 \<times> nat" where
  "dsd_get_sector dsd_reader_fixed14_ops = dsd_audio_fixed14_get_sector"
| "dsd_get_sector dsd_reader_fixed16_ops = dsd_audio_fixed16_get_sector"

fun dsd_reader_init :: "dsd_reader_ops \<Rightarrow> sacd_frame_reader \<Rightarrow> sacd_frame_reader" where
  "dsd_reader_init dsd_reader_fixed14_ops = dsd_reader_fixed14_init"
| "dsd_reader_init dsd_reader_fixed16_ops = dsd_reader_fixed16_init"

end
