(* ===== verification/Sacd_Dsd.thy ===== *)
theory Sacd_Dsd
  imports Sacd_Frames
begin

text \<open>
  What the readers for plain DSD deliver. The audio of an area is one stream of bytes, cut into
  sectors of which each carries the same number of bytes after its header; frame \<open>n\<close> is the \<open>n\<close>-th
  piece of 9408 bytes of this stream. The tables of the code are proved to cut out exactly these.
\<close>

section \<open>The stream of an area\<close>

text \<open>The sectors from \<open>start\<close>, \<open>n\<close> of them, of \<open>sb\<close> bytes with a header of \<open>h\<close> bytes, and audio from
  offset \<open>off\<close> to the end of the 2048 bytes of data.\<close>

definition sector_payload :: "nat \<Rightarrow> nat \<Rightarrow> nat \<Rightarrow> byte list \<Rightarrow> nat \<Rightarrow> byte list" where
  "sector_payload sb h off img p = bytes_at (p * sb + h + off) (2048 - off) img"

definition dsd_stream :: "nat \<Rightarrow> nat \<Rightarrow> nat \<Rightarrow> nat \<Rightarrow> nat \<Rightarrow> byte list \<Rightarrow> byte list" where
  "dsd_stream sb h off start n img = concat (map (\<lambda>i. sector_payload sb h off img (start + i)) [0..<n])"

lemma length_concat_const: "(\<And>x. x \<in> set xs \<Longrightarrow> length (f x) = q) \<Longrightarrow> length (concat (map f xs)) = length xs * q"
  by (induction xs) simp_all

text \<open>A piece that lies inside one of the pieces of equal length.\<close>

lemma bytes_at_concat:
  assumes "\<And>i. i < n \<Longrightarrow> length (f i) = q" "i < n" "o1 + l \<le> q"
  shows "bytes_at (q * i + o1) l (concat (map f [0..<n])) = bytes_at o1 l (f i)"
proof -
  have upt: "[0..<n] = [0..<i] @ i # [Suc i..<n]"
    using upt_add_eq_append [of 0 i "n - i"] assms(2) by (simp add: upt_conv_Cons)
  have len: "length (concat (map f [0..<i])) = q * i"
    using assms(1,2) length_concat_const [of "[0..<i]" f q] by simp
  have "bytes_at (q * i + o1) l (concat (map f [0..<n])) = bytes_at o1 l (f i @ concat (map f [Suc i..<n]))"
    unfolding upt by (simp add: len [symmetric] bytes_at_append_right del: upt_Suc)
  also have "\<dots> = bytes_at o1 l (f i)"
    using assms by (intro bytes_at_append_left) simp
  finally show ?thesis .
qed

text \<open>A piece of a piece list, one after the other.\<close>

lemma bytes_at_pieces:
  "bytes_at p (sum_list ls) d = concat (map (\<lambda>i. bytes_at (p + sum_list (take i ls)) (ls ! i) d) [0..<length ls])"
proof (induction ls arbitrary: p)
  case Nil
  then show ?case by (simp add: bytes_at_def)
next
  case (Cons l ls)
  have "[0..<length (l # ls)] = 0 # map Suc [0..<length ls]"
    by (simp add: map_Suc_upt upt_conv_Cons del: upt_Suc)
  then show ?case
    using Cons [of "p + l"] by (simp add: bytes_at_split comp_def add.assoc del: upt_Suc)
qed

section \<open>The tables\<close>

text \<open>Row \<open>k\<close> of a table with \<open>q\<close> bytes of audio in a sector after \<open>off\<close> bytes cuts out the \<open>k\<close>-th third
  of the audio of \<open>mul\<close> sectors.\<close>

definition row_lengths :: "fixed_read_state \<Rightarrow> nat list" where
  "row_lengths st = map rd_length (take (st_sector_count st) (st_state st))"

definition row_fits :: "nat \<Rightarrow> nat \<Rightarrow> nat \<Rightarrow> fixed_read_state \<Rightarrow> bool" where
  "row_fits off mul k st \<longleftrightarrow>
     st_sector_mul st = int mul \<and> (2048 - off) * mul = 3 * 9408 \<and> 0 \<le> st_sector_addition st \<and>
     st_sector_count st \<le> length (st_state st) \<and> sum_list (row_lengths st) = 9408 \<and>
     nat (st_sector_addition st) + st_sector_count st \<le> mul \<and>
     list_all (\<lambda>i. off \<le> rd_offset (st_state st ! i) \<and>
       rd_offset (st_state st ! i) + rd_length (st_state st ! i) \<le> 2048 \<and>
       9408 * k + sum_list (take i (row_lengths st)) =
         (2048 - off) * (nat (st_sector_addition st) + i) + (rd_offset (st_state st ! i) - off))
       [0..<st_sector_count st]"

definition table_fits :: "nat \<Rightarrow> nat \<Rightarrow> fixed_read_state list \<Rightarrow> bool" where
  "table_fits off mul state \<longleftrightarrow> off \<le> 2048 \<and> mul \<le> 16 \<and> (\<forall>k < 3. row_fits off mul k (state ! k))"

lemma less_3_cases: "(\<forall>k < 3. P k) \<longleftrightarrow> P 0 \<and> P 1 \<and> P (2 :: nat)"
  by (auto simp: numeral_3_eq_3 numeral_2_eq_2 less_Suc_eq)

lemma rdstate_3_in_14_fits: "table_fits 32 14 rdstate_3_in_14"
  unfolding table_fits_def less_3_cases rdstate_3_in_14_def
  by (simp add: row_fits_def row_lengths_def upt_rec)

lemma rdstate_3_in_16_fits: "table_fits 284 16 rdstate_3_in_16"
  unfolding table_fits_def less_3_cases rdstate_3_in_16_def
  by (simp add: row_fits_def row_lengths_def upt_rec)

text \<open>What the sectors of a row deliver is the frame.\<close>

lemma row_delivers:
  assumes row: "row_fits off mul k st" and off: "off \<le> 2048"
    and n: "mul * b + nat (st_sector_addition st) + st_sector_count st \<le> n"
    and img: "(start + n) * sb \<le> length img" and h: "h + 2048 \<le> sb"
  shows "concat (map (\<lambda>i. bytes_at ((start + mul * b + nat (st_sector_addition st) + i) * sb + h + rd_offset (st_state st ! i))
           (rd_length (st_state st ! i)) img) [0..<st_sector_count st]) =
    bytes_at (9408 * (3 * b + k)) 9408 (dsd_stream sb h off start n img)"
proof -
  let ?q = "2048 - off" and ?a = "nat (st_sector_addition st)" and ?ls = "row_lengths st"
  let ?S = "dsd_stream sb h off start n img" and ?c = "st_sector_count st"
  have lens: "length ?ls = ?c" "\<And>i. i < ?c \<Longrightarrow> ?ls ! i = rd_length (st_state st ! i)"
    using row by (simp_all add: row_fits_def row_lengths_def)
  have payload: "length (sector_payload sb h off img (start + i)) = ?q" if "i < n" for i
  proof -
    have "(start + i) * sb + sb \<le> (start + n) * sb"
      using that by (metis Suc_leI add_Suc_right add_left_mono mult.commute mult_Suc_right mult_le_mono2 add.commute)
    then have "(start + i) * sb + h + off + ?q \<le> length img"
      using img h off by linarith
    then show ?thesis unfolding sector_payload_def by (rule length_bytes_at)
  qed
  have piece: "bytes_at (9408 * (3 * b + k) + sum_list (take i ?ls)) (?ls ! i) ?S =
      bytes_at ((start + mul * b + ?a + i) * sb + h + rd_offset (st_state st ! i)) (rd_length (st_state st ! i)) img"
    if i: "i < ?c" for i
  proof -
    let ?o = "rd_offset (st_state st ! i)" and ?l = "rd_length (st_state st ! i)"
    have f: "off \<le> ?o" "?o + ?l \<le> 2048"
      and pos: "9408 * k + sum_list (take i ?ls) = ?q * (?a + i) + (?o - off)"
      and mul: "?q * mul = 3 * 9408"
      using row i by (auto simp: row_fits_def list_all_iff)
    have "9408 * (3 * b + k) + sum_list (take i ?ls) = ?q * mul * b + (?q * (?a + i) + (?o - off))"
      unfolding mul pos [symmetric] by simp
    also have "\<dots> = ?q * (mul * b + ?a + i) + (?o - off)"
      by (simp only: add_mult_distrib2 mult.assoc add.assoc)
    finally have p: "9408 * (3 * b + k) + sum_list (take i ?ls) = ?q * (mul * b + ?a + i) + (?o - off)" .
    have "bytes_at (?q * (mul * b + ?a + i) + (?o - off)) ?l ?S =
        bytes_at (?o - off) ?l (sector_payload sb h off img (start + (mul * b + ?a + i)))"
      unfolding dsd_stream_def using payload i n f by (intro bytes_at_concat) auto
    also have "\<dots> = bytes_at ((start + (mul * b + ?a + i)) * sb + h + off + (?o - off)) ?l img"
      unfolding sector_payload_def using f by (intro bytes_at_nested) simp
    also have "(start + (mul * b + ?a + i)) * sb + h + off + (?o - off) = (start + mul * b + ?a + i) * sb + h + ?o"
      using f(1) by (simp add: add.assoc)
    finally show ?thesis by (simp only: p lens(2) [OF i])
  qed
  have "bytes_at (9408 * (3 * b + k)) 9408 ?S =
      concat (map (\<lambda>i. bytes_at (9408 * (3 * b + k) + sum_list (take i ?ls)) (?ls ! i) ?S) [0..<length ?ls])"
    using bytes_at_pieces [of "9408 * (3 * b + k)" ?ls ?S] row by (simp add: row_fits_def)
  also have "\<dots> = concat (map (\<lambda>i. bytes_at ((start + mul * b + ?a + i) * sb + h + rd_offset (st_state st ! i))
           (rd_length (st_state st ! i)) img) [0..<?c])"
    unfolding lens(1) by (intro arg_cong [where f = concat] map_cong refl piece) simp
  finally show ?thesis by simp
qed

lemma length_pieces_le:
  assumes "\<And>i. i < n \<Longrightarrow> length (f i) \<le> ls ! i" "n \<le> length ls"
  shows "length (concat (map f [0..<n])) \<le> sum_list (take n ls)"
  using assms
proof (induction n)
  case (Suc n)
  then show ?case using Suc.prems(1) [of n] by (simp add: take_Suc_conv_app_nth) (use Suc in force)
qed simp

section \<open>Reading a frame\<close>

text \<open>The sector that round \<open>i\<close> reads.\<close>

lemma fixed_lsn:
  assumes "unat (start :: u32) + m + a + i \<le> 2147483647" "0 \<le> ad" "nat ad = a"
  shows "unat (start + of_int (int m) + of_int ad + of_nat i) = unat start + m + a + i"
proof -
  have ad: "ad = int a" using assms by simp
  have "start + of_int (int m) + of_int ad + of_nat i = of_nat (unat start + m + a + i)"
    by (simp add: ad)
  moreover have "unat (of_nat (unat start + m + a + i) :: u32) = unat start + m + a + i"
    using assms(1) by (intro unat_of_nat_u32) linarith
  ultimately show ?thesis by (simp only:)
qed

text \<open>A reader of a source: its sectors are those of the source.\<close>

definition reads_sectors :: "'a sacd_frame_reader_scheme \<Rightarrow> nat \<Rightarrow> nat \<Rightarrow> bool" where
  "reads_sectors r sb h \<longleftrightarrow> fr_sector_size r = int sb \<and> fr_header_size r = int h \<and> h + 2048 \<le> sb"

context sector_input begin

lemma fixed_step_ok:
  assumes d: "usable d" and r: "reads_sectors r (sector_bytes d) h"
    and row: "row_fits off mul k st" and i: "i < st_sector_count st"
    and n: "unat (fr_start r) + mul * b + nat (st_sector_addition st) + st_sector_count st \<le> n" "n \<le> 2147483647"
    and img: "n * sector_bytes d \<le> length (contents d)"
    and room: "length out + rd_length (st_state st ! i) \<le> cap"
  shows "\<exists>d'. same d d' \<and> fixed_read_step st r cap (int b) i (attached d, out) = (Ok (), (attached d', out @
    bytes_at ((unat (fr_start r) + mul * b + nat (st_sector_addition st) + i) * sector_bytes d + h + rd_offset (st_state st ! i))
      (rd_length (st_state st ! i)) (contents d)))"
proof -
  let ?sb = "sector_bytes d" and ?a = "nat (st_sector_addition st)"
  let ?p = "unat (fr_start r) + mul * b + ?a + i"
  let ?lsn = "fr_start r + of_int (int b * int mul) + of_int (st_sector_addition st) + of_nat i"
  have mul: "st_sector_mul st = int mul" and ad: "0 \<le> st_sector_addition st"
    and seg: "rd_offset (st_state st ! i) + rd_length (st_state st ! i) \<le> 2048"
    using row i by (auto simp: row_fits_def list_all_iff)
  have lsn: "unat ?lsn = ?p"
    using fixed_lsn [of "fr_start r" "mul * b" ?a i "st_sector_addition st"] n i ad by (simp add: mult.commute)
  have "(?p + 1) * ?sb \<le> n * ?sb"
    using n i by (intro mult_le_mono1) linarith
  then have "(unat ?lsn + unat (1 :: u32)) * ?sb \<le> length (contents d)"
    using img lsn by simp
  then obtain d' where d': "same d d'"
    and rd: "sacd_input_read_sectors ?lsn 1 (attached d) = ((SACD_INPUT_OK, 1, bytes_at (?p * ?sb) ?sb (contents d)), attached d')"
    using read_sectors_ok [OF d, of 1 ?lsn] lsn by auto
  have len: "length (bytes_at (?p * ?sb) ?sb (contents d)) = ?sb"
    using \<open>(?p + 1) * ?sb \<le> n * ?sb\<close> img by (intro length_bytes_at) simp
  have small: "int b * int mul \<le> 2147483647"
    using n by (simp add: mult.commute flip: of_nat_mult)
  have nonneg: "- 2147483648 \<le> int b * int mul"
    by (rule order_trans [of _ 0]) simp_all
  have nest: "bytes_at (h + rd_offset (st_state st ! i)) (rd_length (st_state st ! i)) (bytes_at (?p * ?sb) ?sb (contents d)) =
      bytes_at (?p * ?sb + (h + rd_offset (st_state st ! i))) (rd_length (st_state st ! i)) (contents d)"
    using r seg by (intro bytes_at_nested) (simp add: reads_sectors_def)
  have src: "nat (int h + int (rd_offset (st_state st ! i))) = h + rd_offset (st_state st ! i)"
    by simp
  show ?thesis
    using d' rd small nonneg r len room seg nest
    by (auto simp: fixed_read_step_def mul seq_def c_int_def copy_range_def reads_sectors_def src add.assoc)
qed

lemma fixed_read_frame:
  assumes d: "usable d" and r: "reads_sectors r (sector_bytes d) h"
    and tab: "table_fits off mul state"
    and n: "mul * (unat f div 3) + mul \<le> n" "unat (fr_start r) + n \<le> 2147483647"
    and img: "(unat (fr_start r) + n) * sector_bytes d \<le> length (contents d)"
    and cap: "9408 \<le> cap" and hp: "sa_malloc hp (sector_bytes d)" "sector_bytes d < 2 ^ 64"
  shows "\<exists>d'. same d d' \<and> dsd_audio_fixed_read_frame hp state r cap f (attached d, out) =
    (Ok (), (attached d', bytes_at (9408 * unat f) 9408
       (dsd_stream (sector_bytes d) h off (unat (fr_start r)) n (contents d))))"
proof -
  let ?b = "unat f div 3" and ?k = "unat f mod 3" and ?sb = "sector_bytes d"
  let ?st = "state ! ?k"
  let ?a = "nat (st_sector_addition ?st)" and ?c = "st_sector_count ?st"
  have k3: "?k < 3" by simp
  have off: "off \<le> 2048" and row: "row_fits off mul ?k ?st"
    using tab k3 unfolding table_fits_def by blast+
  have ac: "?a + ?c \<le> mul" using row by (simp add: row_fits_def)
  let ?S = "\<lambda>i. bytes_at ((unat (fr_start r) + mul * ?b + ?a + i) * ?sb + h + rd_offset (st_state ?st ! i))
      (rd_length (st_state ?st ! i)) (contents d)"
  have lens: "length (row_lengths ?st) = ?c" "\<And>i. i < ?c \<Longrightarrow> row_lengths ?st ! i = rd_length (st_state ?st ! i)"
    and total: "sum_list (row_lengths ?st) = 9408"
    using row by (simp_all add: row_fits_def row_lengths_def)
  have lenS: "length (concat (map ?S [0..<i])) \<le> sum_list (take i (row_lengths ?st))" if "i \<le> ?c" for i
    using that lens by (intro length_pieces_le) (auto simp: length_bytes_at_min)
  have upto: "sum_list (take (Suc i) (row_lengths ?st)) \<le> 9408" for i
    by (metis append_take_drop_id le_add1 sum_list_append total)
  let ?I = "\<lambda>i s. \<exists>d'. same d d' \<and> s = (attached d', concat (map ?S [0..<i]))"
  have "wp False (for_loop 0 ?c (fixed_read_step ?st r cap (int ?b)))
     (\<lambda>_ s. ?I ?c s) (\<lambda>_ _. False) (attached d, [])"
  proof (rule wp_for_loop [where I = ?I])
    show "?I 0 (attached d, [])" using same_refl [OF d] by auto
    fix j s assume j: "j < ?c" and I: "?I j s"
    then obtain d1 where d1: "same d d1" and s: "s = (attached d1, concat (map ?S [0..<j]))" by blast
    have same1: "usable d1" "sector_bytes d1 = ?sb" "contents d1 = contents d"
      using d1 by (simp_all add: same_def)
    have "length (concat (map ?S [0..<j])) + rd_length (st_state ?st ! j) \<le> sum_list (take (Suc j) (row_lengths ?st))"
      using lenS [of j] j lens by (simp add: take_Suc_conv_app_nth)
    then have room: "length (concat (map ?S [0..<j])) + rd_length (st_state ?st ! j) \<le> cap"
      using upto [of j] cap by linarith
    have bound: "unat (fr_start r) + mul * ?b + ?a + ?c \<le> unat (fr_start r) + n"
      using n ac by linarith
    obtain d2 where d2: "same d1 d2" and st: "fixed_read_step ?st r cap (int ?b) j s =
        (Ok (), (attached d2, concat (map ?S [0..<j]) @ ?S j))"
      using fixed_step_ok [OF same1(1) _ row j bound n(2), of h "concat (map ?S [0..<j])" cap] r img room
      unfolding s same1 by blast
    show "wp False (fixed_read_step ?st r cap (int ?b) j) (\<lambda>_. ?I (Suc j)) (\<lambda>_ _. False) s"
      using same_trans [OF d1 d2] unfolding wp_def st by auto
  qed auto
  from wp_total [OF this] obtain s' where loop: "for_loop 0 ?c (fixed_read_step ?st r cap (int ?b)) (attached d, []) = (Ok (), s')"
    and "?I ?c s'" by auto
  then obtain d' where d': "same d d'" "s' = (attached d', concat (map ?S [0..<?c]))" by blast
  have "concat (map ?S [0..<?c]) = bytes_at (9408 * (3 * ?b + ?k)) 9408
      (dsd_stream ?sb h off (unat (fr_start r)) n (contents d))"
    using row_delivers [OF row off _ img, of ?b h] n ac r by (simp add: reads_sectors_def)
  also have "3 * ?b + ?k = unat f" by simp
  finally have frame: "concat (map ?S [0..<?c]) =
      bytes_at (9408 * unat f) 9408 (dsd_stream ?sb h off (unat (fr_start r)) n (contents d))" .
  have size: "unat (of_int (fr_sector_size r) :: u64) = ?sb"
    using r hp(2) by (simp add: reads_sectors_def unat_of_nat_u64)
  show ?thesis
    using d' loop frame hp(1)
    by (auto simp: dsd_audio_fixed_read_frame_def Let_def size unat_div_distrib unat_mod_distrib)
qed

end

text \<open>Bytes before the audio of a sector, and sectors for three frames.\<close>

fun layout_offset :: "dsd_reader_ops \<Rightarrow> nat" where
  "layout_offset dsd_reader_fixed14_ops = 32"
| "layout_offset dsd_reader_fixed16_ops = 284"

fun layout_sectors :: "dsd_reader_ops \<Rightarrow> nat" where
  "layout_sectors dsd_reader_fixed14_ops = 14"
| "layout_sectors dsd_reader_fixed16_ops = 16"

fun layout_table :: "dsd_reader_ops \<Rightarrow> fixed_read_state list" where
  "layout_table dsd_reader_fixed14_ops = rdstate_3_in_14"
| "layout_table dsd_reader_fixed16_ops = rdstate_3_in_16"

lemma layout_fits: "table_fits (layout_offset ops) (layout_sectors ops) (layout_table ops)"
  by (cases ops) (simp_all add: rdstate_3_in_14_fits rdstate_3_in_16_fits)

lemma dsd_read_frame_table: "dsd_read_frame ops hp = dsd_audio_fixed_read_frame hp (layout_table ops)"
  by (cases ops) (simp_all add: dsd_audio_fixed14_read_frame_def dsd_audio_fixed16_read_frame_def)

end
