(* ===== verification/Sacd_Dst.thy ===== *)
theory Sacd_Dst
  imports Sacd_Frames C_Loops
begin

text \<open>
  The reader for DST coded audio (\<^verbatim>\<open>sacd_dst_reader.c\<close>), with the access list of the area that
  it seeks by (\<^verbatim>\<open>sacd_area_toc_get_access_list_range\<close>) and the time codes of
  \<^verbatim>\<open>sacd.h\<close>. A function that returns a code of \<^verbatim>\<open>dst_reader_state_t\<close> yields the
  number, and \<open>Err c\<close> inside it is \<^verbatim>\<open>return c;\<close>. In that enumeration
  \<^verbatim>\<open>SACD_DST_READER_UNINITIALIZED\<close> is -1 and the next one, for I/O errors, therefore 0, the number of
  success. The search for a frame counts sectors with 32 bits and need not end, so the functions are of
  type \<open>lop\<close>. The reader is not given null pointers, and its debugging output is switched off.
\<close>

section \<open>Time codes\<close>

record time_sacd =
  tm_minutes :: byte
  tm_seconds :: byte
  tm_frames :: byte

definition time_to_frame :: "time_sacd \<Rightarrow> u32" where
  "time_to_frame t = of_nat (unat (tm_frames t) + (unat (tm_seconds t) + unat (tm_minutes t) * 60) * 75)"

definition frame_to_time :: "u32 \<Rightarrow> time_sacd" where
  "frame_to_time n = \<lparr>tm_minutes = ucast (n div 75 div 60), tm_seconds = ucast ((n div 75) mod 60),
     tm_frames = ucast (n mod 75)\<rparr>"

section \<open>The access list\<close>

record area_toc_frame_info =
  ai_step_size :: byte
  ai_num_entries :: u16
  ai_frame_start :: "u32 list option"
  ai_access_margin :: "u16 list option"

definition interpolated :: "u32 \<Rightarrow> u32 \<Rightarrow> u32 \<Rightarrow> u32" where
  "interpolated entry_lsn estimated_offset access_margin =
     (let lsn = entry_lsn + estimated_offset;
          from = (if access_margin < lsn then lsn - access_margin else entry_lsn)
      in if from < entry_lsn then entry_lsn else from)"

text \<open>The range of sectors to search, clamped to the area; the play time is the one of the area.\<close>

definition sacd_area_toc_get_access_list_range ::
  "area_toc_frame_info \<Rightarrow> u32 \<Rightarrow> u32 \<Rightarrow> u32 \<Rightarrow> u32 \<Rightarrow> ('s, int, u32 \<times> u32) op" where
  "sacd_area_toc_get_access_list_range info total_play_time frame start_lsn end_lsn =
     (case ai_frame_start info of
        None \<Rightarrow> ret (start_lsn, end_lsn)
      | Some starts \<Rightarrow>
          if ai_step_size info = 0 \<or> ai_num_entries info = 0 then ret (start_lsn, end_lsn)
          else let step_size = ucast (ai_step_size info) :: u32; entries = ucast (ai_num_entries info) :: u32;
                   idx = (if entries \<le> frame div step_size then entries - 1 else frame div step_size) in
            if length starts \<le> unat idx \<or> (\<exists>ms. ai_access_margin info = Some ms \<and> length ms \<le> unat idx) then fault
            else let entry_lsn = starts ! unat idx;
                     margin = (case ai_access_margin info of None \<Rightarrow> 0 | Some ms \<Rightarrow> ucast (ms ! unat idx));
                     clamp = (\<lambda>(from, to). (if from < start_lsn then start_lsn else from,
                                             if end_lsn < to then end_lsn else to)) in
              if idx + 1 < entries then
                (if length starts \<le> unat (idx + 1) then fault
                 else let next_lsn = starts ! unat (idx + 1);
                          est = ((frame mod step_size) * (next_lsn - entry_lsn)) div step_size
                      in ret (clamp (interpolated entry_lsn est margin, next_lsn)))
              else let remaining_frames = total_play_time - (idx * step_size) in
                if 0 < remaining_frames then
                  (let est = ((frame mod step_size) * (end_lsn - entry_lsn)) div remaining_frames
                   in ret (clamp (interpolated entry_lsn est margin, end_lsn)))
                else ret (clamp (entry_lsn, end_lsn)))"

section \<open>Audio sectors\<close>

type_synonym data_type = nat

abbreviation (input) DATA_TYPE_AUDIO :: data_type where "DATA_TYPE_AUDIO \<equiv> 2"
abbreviation (input) DATA_TYPE_SUPPLEMENTARY :: data_type where "DATA_TYPE_SUPPLEMENTARY \<equiv> 3"
abbreviation (input) DATA_TYPE_PADDING :: data_type where "DATA_TYPE_PADDING \<equiv> 7"

record audio_packet_info =
  pk_frame_start :: bool
  pk_data_type :: data_type
  pk_length :: nat

record frame_info =
  fi_time_code :: time_sacd
  fi_channel_bit_1 :: bool
  fi_sector_count :: nat
  fi_channel_bit_2 :: bool
  fi_channel_bit_3 :: bool

text \<open>The parsed header; the array of seven frame entries is cleared before.\<close>

record parsed_audio_sector =
  ps_dst_coded :: bool
  ps_frame_start_count :: nat
  ps_packets :: "audio_packet_info list"
  ps_frames :: "frame_info list"

definition zero_frame_info :: frame_info where
  "zero_frame_info = \<lparr>fi_time_code = \<lparr>tm_minutes = 0, tm_seconds = 0, tm_frames = 0\<rparr>, fi_channel_bit_1 = False,
     fi_sector_count = 0, fi_channel_bit_2 = False, fi_channel_bit_3 = False\<rparr>"

definition packet_info_of :: "byte list \<Rightarrow> audio_packet_info" where
  "packet_info_of bs = (let raw = be_dec bs in
     \<lparr>pk_frame_start = odd (raw div 32768), pk_data_type = raw div 2048 mod 8, pk_length = raw mod 2048\<rparr>)"

definition frame_info_of :: "bool \<Rightarrow> byte list \<Rightarrow> frame_info" where
  "frame_info_of dst bs =
     (let t = \<lparr>tm_minutes = bs ! 0, tm_seconds = bs ! 1, tm_frames = bs ! 2\<rparr> in
      if dst then let c = unat (bs ! 3) in
        \<lparr>fi_time_code = t, fi_channel_bit_1 = odd (c div 128), fi_sector_count = c div 4 mod 32,
         fi_channel_bit_2 = odd (c div 2), fi_channel_bit_3 = odd c\<rparr>
      else zero_frame_info\<lparr>fi_time_code := t, fi_sector_count := 1\<rparr>)"

text \<open>\<open>n\<close> records of \<open>w\<close> bytes each.\<close>

definition pieces :: "nat \<Rightarrow> nat \<Rightarrow> byte list \<Rightarrow> byte list list" where
  "pieces w n bs = map (\<lambda>i. bytes_at (w * i) w bs) [0..<n]"

text \<open>The header of the sector at \<open>bs\<close>, the rest of the buffer; with it the offset of the data.\<close>

definition parse_audio_sector_header :: "byte list \<Rightarrow> (int, parsed_audio_sector \<times> nat) outcome" where
  "parse_audio_sector_header bs =
     (if bs = [] then Fault
      else let h = unat (hd bs); packet_count = h div 32; frame_count = h div 4 mod 8; dst = odd h;
               width = (if dst then 4 else 3); frames_at = 1 + 2 * packet_count;
               data_offset = frames_at + width * frame_count in
        if packet_count = 0 \<or> 7 < packet_count then Err (-1)
        else if length bs < data_offset then Fault
        else Ok (\<lparr>ps_dst_coded = dst, ps_frame_start_count = frame_count,
                   ps_packets = map packet_info_of (pieces 2 packet_count (drop 1 bs)),
                   ps_frames = map (frame_info_of dst) (pieces width frame_count (drop frames_at bs)) @
                               replicate (7 - frame_count) zero_frame_info\<rparr>, data_offset))"

section \<open>The reader\<close>

record sacd_frame_reader_dst = sacd_frame_reader +
  dst_buffer :: "byte list option"
  dst_buffer_count :: u32
  cached_frame_num :: u32
  cached_frame_lsn :: u32
  position_valid :: bool
  next_frame_known :: bool

abbreviation (input) MAX_DST_SECTORS :: nat where "MAX_DST_SECTORS \<equiv> 16"

abbreviation (input) SACD_DST_READER_OK :: int where "SACD_DST_READER_OK \<equiv> 0"
abbreviation (input) SACD_DST_READER_UNINITIALIZED :: int where "SACD_DST_READER_UNINITIALIZED \<equiv> -1"
abbreviation (input) SACD_DST_READER_IO_ERROR :: int where "SACD_DST_READER_IO_ERROR \<equiv> 0"
abbreviation (input) SACD_DST_READER_MEMORY_ALLOCATION_ERROR :: int where
  "SACD_DST_READER_MEMORY_ALLOCATION_ERROR \<equiv> 1"
abbreviation (input) SACD_DST_READER_ACCESS_LIST_INVALID :: int where "SACD_DST_READER_ACCESS_LIST_INVALID \<equiv> 2"
abbreviation (input) SACD_DST_READER_FRAME_NOT_FOUND :: int where "SACD_DST_READER_FRAME_NOT_FOUND \<equiv> 5"
abbreviation (input) SACD_DST_READER_INVALID_ARG :: int where "SACD_DST_READER_INVALID_ARG \<equiv> 7"

definition sacd_frame_reader_dst_create :: "heap \<Rightarrow> nat \<Rightarrow> (int, sacd_frame_reader_dst) outcome" where
  "sacd_frame_reader_dst_create hp sz =
     (if sa_calloc hp 1 sz then Ok (sacd_frame_reader.extend zero_reader
        \<lparr>dst_buffer = None, dst_buffer_count = 0, cached_frame_num = 0, cached_frame_lsn = 0,
         position_valid = False, next_frame_known = False\<rparr>)
      else Err SACD_FRAME_READER_ERR_OUT_OF_MEMORY)"

definition dst_reader_init :: "heap \<Rightarrow> sacd_frame_reader_dst \<Rightarrow> sacd_frame_reader_dst" where
  "dst_reader_init hp self =
     (let sz = unat (of_int (fr_sector_size self) :: u64) in
      self\<lparr>fr_type := SACD_FRAME_READER_DST,
           dst_buffer := (if sa_calloc hp MAX_DST_SECTORS sz then Some (replicate (MAX_DST_SECTORS * sz) 0) else None),
           dst_buffer_count := 0, cached_frame_num := 0, cached_frame_lsn := 0, position_valid := False,
           next_frame_known := False\<rparr>)"

type_synonym 'd dst_state = "sacd_frame_reader_dst \<times> 'd sacd_input option"

text \<open>Reading sectors into the buffer, and decrypting the first \<open>n\<close> of them in place.\<close>

definition fill_buffer :: "u32 \<Rightarrow> u32 \<Rightarrow> ('d dst_state, int, sacd_input_error \<times> u32) op" where
  "fill_buffer lsn n = (\<lambda>(self, input). case dst_buffer self of
       None \<Rightarrow> (Ok (SACD_INPUT_ERR_NULL_PTR, 0), (self, input))
     | Some buf \<Rightarrow> (case sacd_input_read_sectors lsn n input of ((c, k, bs), input') \<Rightarrow>
         if length buf < length bs then (Fault, (self, input'))
         else (Ok (c, k), (self\<lparr>dst_buffer := Some (bs @ drop (length bs) buf)\<rparr>, input'))))"

definition decrypt_buffer :: "u32 \<Rightarrow> ('d dst_state, int, sacd_input_error) op" where
  "decrypt_buffer n = (\<lambda>(self, input). case dst_buffer self of
       None \<Rightarrow> (Fault, (self, input))
     | Some buf \<Rightarrow> (case sacd_input_decrypt buf n input of ((c, buf'), input') \<Rightarrow>
         if length buf' \<noteq> length buf then (Fault, (self, input'))
         else (Ok c, (self\<lparr>dst_buffer := Some buf'\<rparr>, input'))))"

text \<open>The bytes of the buffer from an offset on.\<close>

definition buffer_from :: "int \<Rightarrow> ('d dst_state, int, byte list) op" where
  "buffer_from off = (\<lambda>(self, input). case dst_buffer self of
       None \<Rightarrow> (Fault, (self, input))
     | Some buf \<Rightarrow> if off < 0 \<or> int (length buf) < off then (Fault, (self, input))
                   else (Ok (drop (nat off) buf), (self, input)))"

text \<open>The parser as an operation: a failure is answered with \<^verbatim>\<open>SACD_DST_READER_IO_ERROR\<close>.\<close>

definition parse_at :: "int \<Rightarrow> ('d dst_state, int, parsed_audio_sector \<times> nat \<times> byte list) op" where
  "parse_at off = seq (buffer_from off) (\<lambda>bs. case parse_audio_sector_header bs of
       Ok (p, data_offset) \<Rightarrow> ret (p, data_offset, bs) | Err _ \<Rightarrow> fail SACD_DST_READER_IO_ERROR | Fault \<Rightarrow> fault)"

section \<open>Finding a frame\<close>

datatype scan_result = Scan_found int | Scan_passed | Scan_through

text \<open>The packets of one sector; an entry of the frame array is used for each start of a frame.\<close>

fun scan_packets :: "u32 \<Rightarrow> frame_info list \<Rightarrow> nat \<Rightarrow> audio_packet_info list \<Rightarrow> scan_result" where
  "scan_packets frame infos k [] = Scan_through"
| "scan_packets frame infos k (p # ps) =
     (if pk_data_type p = DATA_TYPE_AUDIO \<and> pk_frame_start p then
        let current_frame = time_to_frame (fi_time_code (infos ! k)) in
        if frame < current_frame then Scan_passed
        else if current_frame = frame then
          Scan_found (if fi_sector_count (infos ! k) = 0 then 1 else int (fi_sector_count (infos ! k)))
        else scan_packets frame infos (Suc k) ps
      else scan_packets frame infos k ps)"

text \<open>One round of the search: the sector \<open>lsn\<close>.\<close>

definition find_round :: "u32 \<Rightarrow> u32 \<Rightarrow> ('d dst_state, int, int option) op" where
  "find_round frame lsn =
     seq (fill_buffer lsn 1) (\<lambda>(c, sectors_read).
     seq (ensure (c = SACD_INPUT_OK \<and> sectors_read = 1) SACD_DST_READER_IO_ERROR) (\<lambda>_.
     seq get (\<lambda>(self, input).
     seq (if decrypts input \<and> fr_start self \<le> lsn \<and> lsn \<le> fr_end self
          then seq (decrypt_buffer 1) (\<lambda>c. ensure (c = SACD_INPUT_OK) SACD_DST_READER_IO_ERROR) else ret ()) (\<lambda>_.
     seq (parse_at (fr_header_size self)) (\<lambda>(parsed, _, _).
       case scan_packets frame (ps_frames parsed) 0 (ps_packets parsed) of
         Scan_found n \<Rightarrow> ret (Some n)
       | Scan_passed \<Rightarrow> fail SACD_DST_READER_ACCESS_LIST_INVALID
       | Scan_through \<Rightarrow> ret None)))))"

text \<open>\<^verbatim>\<open>for (lsn = from_lsn; lsn <= to_lsn; lsn++)\<close>\<close>

definition find_body :: "u32 \<Rightarrow> u32 \<Rightarrow> (u32 \<times> 'd dst_state, int, (u32 \<times> int) option) lop" where
  "find_body frame to_lsn = (\<lambda>(lsn, s).
     if \<not> lsn \<le> to_lsn then Some (Err SACD_DST_READER_FRAME_NOT_FOUND, (lsn, s))
     else Some (case find_round frame lsn s of
         (Ok (Some n), s') \<Rightarrow> (Ok (Some (lsn, n)), (lsn, s'))
       | (Ok None, s') \<Rightarrow> (Ok None, (lsn + 1, s'))
       | (Err e, s') \<Rightarrow> (Err e, (lsn, s'))
       | (Fault, s') \<Rightarrow> (Fault, (lsn, s'))))"

text \<open>The code with \<^verbatim>\<open>*found_lsn\<close> and \<^verbatim>\<open>*sector_count\<close>, which are 0 and 1 unless the frame is found.\<close>

definition find_dst_frame :: "u32 \<Rightarrow> u32 \<Rightarrow> u32 \<Rightarrow> ('d dst_state, int, int \<times> u32 \<times> int) lop" where
  "find_dst_frame from_lsn to_lsn frame = (\<lambda>(self, input).
     if input = None \<or> dst_buffer self = None then Some (Ok (SACD_DST_READER_INVALID_ARG, 0, 0), (self, input))
     else map_option (\<lambda>(r, (_, s')).
            (case r of Ok (lsn, n) \<Rightarrow> Ok (SACD_DST_READER_OK, lsn, n) | Err e \<Rightarrow> Ok (e, 0, 1) | Fault \<Rightarrow> Fault, s'))
          (repeat_lop (find_body frame to_lsn) (from_lsn, (self, input))))"

text \<open>The search range comes from the access list; when that does not lead to the frame the whole area
  is searched, unless the range began with it.\<close>

definition dst_sector_seek ::
  "area_toc_frame_info \<Rightarrow> u32 \<Rightarrow> u32 \<Rightarrow> ('d dst_state, int, int \<times> u32 \<times> int) lop" where
  "dst_sector_seek info total_play_time frame =
     lseq (lift get) (\<lambda>(self, _).
     lseq (lift (sacd_area_toc_get_access_list_range info total_play_time frame (fr_start self) (fr_end self)))
       (\<lambda>(from_lsn, to_lsn).
     lseq (find_dst_frame from_lsn to_lsn frame) (\<lambda>(c, found_lsn, n).
       if (c = SACD_DST_READER_FRAME_NOT_FOUND \<or> c = SACD_DST_READER_ACCESS_LIST_INVALID) \<and> from_lsn \<noteq> fr_start self
       then find_dst_frame (fr_start self) (fr_end self) frame
       else lift (ret (c, found_lsn, n)))))"

section \<open>Reading a frame\<close>

text \<open>What has been taken from the packets so far.\<close>

record extraction =
  ex_started :: bool
  ex_complete :: bool
  ex_remaining :: int
  ex_out :: "byte list"
  ex_next_lsn :: u32

text \<open>
  The packets of one sector: \<open>k\<close> is the next entry of the frame array, \<open>pos\<close> the offset of the packet's
  data in \<open>bs\<close>, \<open>had\<close> whether bytes have been copied. At most \<open>max_length\<close> bytes are copied in all. A
  copy from beyond the buffer is undefined.
\<close>

fun process_packets ::
  "u32 \<Rightarrow> data_type \<Rightarrow> nat \<Rightarrow> u32 \<Rightarrow> frame_info list \<Rightarrow> byte list \<Rightarrow> nat \<Rightarrow> nat \<Rightarrow> bool \<Rightarrow> extraction \<Rightarrow>
   audio_packet_info list \<Rightarrow> (int, extraction \<times> bool) outcome" where
  "process_packets frame dtype max_length here infos bs k pos had ex [] = Ok (ex, had)"
| "process_packets frame dtype max_length here infos bs k pos had ex (p # ps) =
     (let starts = (pk_frame_start p \<and> pk_data_type p = DATA_TYPE_AUDIO) in
      if starts \<and> ex_started ex then Ok (ex\<lparr>ex_next_lsn := here, ex_complete := True\<rparr>, had)
      else
        let ex1 = (if starts \<and> time_to_frame (fi_time_code (infos ! k)) = frame
                   then ex\<lparr>ex_started := True, ex_remaining :=
                          (if fi_sector_count (infos ! k) = 0 then 1 else int (fi_sector_count (infos ! k)))\<rparr>
                   else ex);
            k1 = (if starts then Suc k else k);
            copy_len = (if max_length < length (ex_out ex1) + pk_length p then max_length - length (ex_out ex1)
                        else pk_length p) in
        if ex_started ex1 \<and> pk_data_type p = dtype \<and> 0 < copy_len then
          (if length bs < pos + copy_len then Fault
           else process_packets frame dtype max_length here infos bs k1 (pos + pk_length p) True
                  (ex1\<lparr>ex_out := ex_out ex1 @ bytes_at pos copy_len bs\<rparr>) ps)
        else process_packets frame dtype max_length here infos bs k1 (pos + pk_length p) had ex1 ps)"

text \<open>A coded frame ends with the last of the sectors that its header counts.\<close>

definition count_sector :: "parsed_audio_sector \<Rightarrow> u32 \<Rightarrow> extraction \<times> bool \<Rightarrow> extraction" where
  "count_sector parsed here = (\<lambda>(ex, had).
     if \<not> ex_complete ex \<and> ps_dst_coded parsed \<and> ex_started ex \<and> had then
       let remaining = ex_remaining ex - 1 in
       if remaining \<le> 0 then ex\<lparr>ex_remaining := remaining, ex_next_lsn := here + 1, ex_complete := True\<rparr>
       else ex\<lparr>ex_remaining := remaining\<rparr>
     else ex)"

text \<open>The \<open>n\<close> sectors of the buffer from number \<open>idx\<close> on.\<close>

fun process_sectors ::
  "u32 \<Rightarrow> data_type \<Rightarrow> nat \<Rightarrow> u32 \<Rightarrow> int \<Rightarrow> int \<Rightarrow> byte list \<Rightarrow> nat \<Rightarrow> nat \<Rightarrow> extraction \<Rightarrow> (int, extraction) outcome" where
  "process_sectors frame dtype max_length found_lsn sector_size header_size buf idx 0 ex = Ok ex"
| "process_sectors frame dtype max_length found_lsn sector_size header_size buf idx (Suc n) ex =
     (if ex_complete ex then Ok ex
      else let off = int idx * sector_size + header_size in
        if off < 0 \<or> int (length buf) < off then Fault
        else let bs = drop (nat off) buf; here = found_lsn + of_nat idx in
          (case parse_audio_sector_header bs of
             Fault \<Rightarrow> Fault
           | Err _ \<Rightarrow> Err SACD_DST_READER_IO_ERROR
           | Ok (parsed, data_offset) \<Rightarrow>
               (case process_packets frame dtype max_length here (ps_frames parsed) bs 0 data_offset False ex
                       (ps_packets parsed) of
                  Fault \<Rightarrow> Fault
                | Err e \<Rightarrow> Err e
                | Ok r \<Rightarrow> process_sectors frame dtype max_length found_lsn sector_size header_size buf (Suc idx) n
                            (count_sector parsed here r))))"

text \<open>The code and the bytes reported in \<^verbatim>\<open>*length\<close>, which has been set to 0 at the start.\<close>

definition give_up :: "int \<Rightarrow> ('d dst_state, int, int \<times> byte list) op" where
  "give_up c = seq (modify (\<lambda>(self, input). (self\<lparr>position_valid := False\<rparr>, input))) (\<lambda>_. ret (c, []))"

definition store_position :: "u32 \<Rightarrow> u32 \<Rightarrow> u32 \<Rightarrow> sacd_frame_reader_dst \<Rightarrow> sacd_frame_reader_dst" where
  "store_position frame found_lsn next_lsn self =
     (let known = (0 < next_lsn \<and> found_lsn < next_lsn) in
      self\<lparr>cached_frame_num := frame, next_frame_known := known,
           cached_frame_lsn := (if known then next_lsn else found_lsn), position_valid := True\<rparr>)"

text \<open>From the sector where the frame begins on.\<close>

definition read_found ::
  "nat \<Rightarrow> u32 \<Rightarrow> data_type \<Rightarrow> u32 \<Rightarrow> int \<Rightarrow> ('d dst_state, int, int \<times> byte list) op" where
  "read_found max_length frame dtype found_lsn sector_count =
     (let count = (if sector_count \<le> 0 \<or> int MAX_DST_SECTORS < sector_count then int MAX_DST_SECTORS else sector_count) in
      seq (fill_buffer found_lsn (of_int count)) (\<lambda>(c, sectors_read).
      if c \<noteq> SACD_INPUT_OK then give_up SACD_DST_READER_IO_ERROR
      else seq get (\<lambda>(self, input).
      seq (if decrypts input \<and> fr_start self \<le> found_lsn \<and> found_lsn + sectors_read - 1 \<le> fr_end self
           then decrypt_buffer sectors_read else ret SACD_INPUT_OK) (\<lambda>c.
      if c \<noteq> SACD_INPUT_OK then give_up SACD_DST_READER_IO_ERROR
      else seq (buffer_from 0) (\<lambda>buf.
        case process_sectors frame dtype max_length found_lsn (fr_sector_size self) (fr_header_size self) buf 0
               (unat sectors_read)
               \<lparr>ex_started = False, ex_complete = False, ex_remaining = count, ex_out = [], ex_next_lsn = 0\<rparr> of
          Fault \<Rightarrow> fault
        | Err e \<Rightarrow> give_up e
        | Ok ex \<Rightarrow> seq (modify (\<lambda>(self, input). (store_position frame found_lsn (ex_next_lsn ex) self, input)))
                     (\<lambda>_. ret (SACD_DST_READER_OK, ex_out ex)))))))"

definition dst_reader_read_frame ::
  "area_toc_frame_info \<Rightarrow> u32 \<Rightarrow> nat \<Rightarrow> u32 \<Rightarrow> data_type \<Rightarrow> ('d dst_state, int, int \<times> byte list) lop" where
  "dst_reader_read_frame info total_play_time max_length frame dtype =
     lseq (lift get) (\<lambda>(self, _).
       if dst_buffer self = None then lift (ret (SACD_DST_READER_MEMORY_ALLOCATION_ERROR, []))
       else lseq (if position_valid self \<and> next_frame_known self \<and> frame = cached_frame_num self + 1
                  then lift (ret (SACD_DST_READER_OK, cached_frame_lsn self, int MAX_DST_SECTORS))
                  else dst_sector_seek info total_play_time frame) (\<lambda>(c, found_lsn, n).
            lift (if c \<noteq> SACD_DST_READER_OK then give_up c else read_found max_length frame dtype found_lsn n)))"

definition dst_reader_get_sector ::
  "area_toc_frame_info \<Rightarrow> u32 \<Rightarrow> u32 \<Rightarrow> ('d dst_state, int, int \<times> u32 \<times> int) lop" where
  "dst_reader_get_sector info total_play_time frame =
     lseq (dst_sector_seek info total_play_time frame) (\<lambda>(c, found_lsn, n).
       lift (ret (if c \<noteq> SACD_DST_READER_OK then (c, 0, 0) else (SACD_DST_READER_OK, found_lsn, n))))"

end
