(* ===== verification/Sacd_Demux.thy ===== *)
theory Sacd_Demux
  imports Sacd_Dst
begin

text \<open>
  The specification of a DST coded track area. Its sectors carry packets; a frame is a packet that
  starts one together with the packets up to the next start; the audio of a frame is what its audio
  packets carry. An area is well formed when its frames are numbered by their time codes from 0 on, name
  the number of sectors they span, at most 16, and have audio in each of these. The passes of
  the reader over the packets of a sector are related to this.
\<close>

section \<open>Packets and frames\<close>

record packet =
  pt_starts :: bool
  pt_info :: frame_info
  pt_type :: data_type
  pt_data :: "byte list"

definition info_starts :: "audio_packet_info \<Rightarrow> bool" where
  "info_starts p \<longleftrightarrow> pk_frame_start p \<and> pk_data_type p = DATA_TYPE_AUDIO"

fun packets_of :: "frame_info list \<Rightarrow> nat \<Rightarrow> byte list \<Rightarrow> nat \<Rightarrow> audio_packet_info list \<Rightarrow> packet list" where
  "packets_of infos k bs pos [] = []"
| "packets_of infos k bs pos (p # ps) =
     \<lparr>pt_starts = info_starts p, pt_info = infos ! k, pt_type = pk_data_type p,
      pt_data = bytes_at pos (pk_length p) bs\<rparr>
     # packets_of infos (if info_starts p then Suc k else k) bs (pos + pk_length p) ps"

definition sector_packets :: "byte list \<Rightarrow> packet list" where
  "sector_packets bs = (case parse_audio_sector_header bs of
       Ok (p, data_offset) \<Rightarrow> packets_of (ps_frames p) 0 bs data_offset (ps_packets p) | _ \<Rightarrow> [])"

definition sector_good :: "byte list \<Rightarrow> bool" where
  "sector_good bs \<longleftrightarrow> length bs = 2048 \<and> (case parse_audio_sector_header bs of
       Ok (p, data_offset) \<Rightarrow> ps_dst_coded p \<and> data_offset + sum_list (map pk_length (ps_packets p)) \<le> 2048
     | _ \<Rightarrow> False)"

text \<open>The packets of an area with the sectors they lie in, and the frames.\<close>

definition area_packets :: "byte list list \<Rightarrow> (nat \<times> packet) list" where
  "area_packets area = concat (map (\<lambda>i. map (Pair i) (sector_packets (area ! i))) [0..<length area])"

abbreviation starts :: "nat \<times> packet \<Rightarrow> bool" where
  "starts x \<equiv> pt_starts (snd x)"

lemma dropWhile_shrinks [termination_simp]: "length (dropWhile P xs) < Suc (length xs)"
  using length_dropWhile_le [of P xs] by simp

fun group_frames :: "(nat \<times> packet) list \<Rightarrow> (nat \<times> packet) list list" where
  "group_frames [] = []"
| "group_frames (x # xs) = (x # takeWhile (\<lambda>y. \<not> starts y) xs) # group_frames (dropWhile (\<lambda>y. \<not> starts y) xs)"

definition area_frames :: "byte list list \<Rightarrow> (nat \<times> packet) list list" where
  "area_frames area = group_frames (area_packets area)"

abbreviation number_of :: "packet \<Rightarrow> nat" where
  "number_of p \<equiv> unat (time_to_frame (fi_time_code (pt_info p)))"

definition has_audio :: "packet \<Rightarrow> bool" where
  "has_audio p \<longleftrightarrow> pt_type p = DATA_TYPE_AUDIO \<and> pt_data p \<noteq> []"

definition frame_good :: "nat \<Rightarrow> (nat \<times> packet) list \<Rightarrow> bool" where
  "frame_good k g \<longleftrightarrow> starts (hd g) \<and> number_of (snd (hd g)) = k \<and>
     fi_sector_count (pt_info (snd (hd g))) = fst (last g) - fst (hd g) + 1 \<and>
     fst (last g) - fst (hd g) < 16 \<and>
     list_all (\<lambda>j. list_ex (\<lambda>x. fst x = j \<and> has_audio (snd x)) g) [fst (hd g)..<Suc (fst (last g))]"

definition area_good :: "byte list list \<Rightarrow> bool" where
  "area_good area \<longleftrightarrow> list_all sector_good area \<and>
     list_all (\<lambda>k. frame_good k (area_frames area ! k)) [0..<length (area_frames area)]"

definition audio_of :: "packet list \<Rightarrow> byte list" where
  "audio_of ps = concat (map pt_data (filter (\<lambda>p. pt_type p = DATA_TYPE_AUDIO) ps))"

definition frame_audio :: "byte list list \<Rightarrow> nat \<Rightarrow> byte list" where
  "frame_audio area n = audio_of (map snd (area_frames area ! n))"

text \<open>The first sector of a frame and the last.\<close>

definition frame_first :: "byte list list \<Rightarrow> nat \<Rightarrow> nat" where
  "frame_first area n = fst (hd (area_frames area ! n))"

definition frame_last :: "byte list list \<Rightarrow> nat \<Rightarrow> nat" where
  "frame_last area n = fst (last (area_frames area ! n))"

section \<open>Frames as groups of packets\<close>

lemma group_concat: "concat (group_frames xs) = xs"
  by (induction xs rule: group_frames.induct) simp_all

lemma group_nonempty: "g \<in> set (group_frames xs) \<Longrightarrow> g \<noteq> []"
  by (induction xs rule: group_frames.induct) auto

lemma group_tail: "g \<in> set (group_frames xs) \<Longrightarrow> y \<in> set (tl g) \<Longrightarrow> \<not> starts y"
  by (induction xs rule: group_frames.induct) (auto dest: set_takeWhileD)

lemma audio_of_append: "audio_of (ps @ qs) = audio_of ps @ audio_of qs"
  by (simp add: audio_of_def)

lemma audio_of_Nil [simp]: "audio_of [] = []"
  by (simp add: audio_of_def)

lemma audio_of_Cons: "audio_of (p # ps) = (if pt_type p = DATA_TYPE_AUDIO then pt_data p else []) @ audio_of ps"
  by (simp add: audio_of_def)

section \<open>Sectors and frames\<close>

text \<open>The packets of sector \<open>j\<close> among some.\<close>

definition in_sector :: "nat \<Rightarrow> (nat \<times> packet) list \<Rightarrow> packet list" where
  "in_sector j xs = map snd (filter (\<lambda>x. fst x = j) xs)"

lemma in_sector_append: "in_sector j (xs @ ys) = in_sector j xs @ in_sector j ys"
  by (simp add: in_sector_def)

lemma in_sector_none: "(\<And>x. x \<in> set xs \<Longrightarrow> fst x \<noteq> j) \<Longrightarrow> in_sector j xs = []"
  by (simp add: in_sector_def filter_empty_conv)

lemma in_sector_concat:
  "j < n \<Longrightarrow> in_sector j (concat (map (\<lambda>i. map (Pair i) (f i)) [0..<n])) = f j"
proof (induction n)
  case (Suc n)
  have own: "in_sector j (map (Pair n) (f n)) = (if j = n then f n else [])"
    by (simp add: in_sector_def filter_map comp_def)
  have "in_sector n (concat (map (\<lambda>i. map (Pair i) (f i)) [0..<n])) = []"
    by (rule in_sector_none) auto
  then show ?case
    using Suc own by (cases "j = n") (simp_all add: in_sector_append)
qed simp

lemma area_packets_in: "j < length area \<Longrightarrow> in_sector j (area_packets area) = sector_packets (area ! j)"
  unfolding area_packets_def by (rule in_sector_concat)

lemma area_packets_sorted: "sorted (map fst (area_packets area))"
proof -
  have "sorted (map fst (concat (map (\<lambda>i. map (Pair i) (f i)) [0..<n])))" for f :: "nat \<Rightarrow> packet list" and n
    by (induction n) (auto simp: sorted_append comp_def map_replicate_const)
  then show ?thesis by (simp add: area_packets_def)
qed

lemma area_packets_range: "x \<in> set (area_packets area) \<Longrightarrow> fst x < length area"
  by (auto simp: area_packets_def)

text \<open>An area is cut at a frame: what comes before it, the frame, what comes after it.\<close>

lemma area_cut:
  assumes "n < length (area_frames area)"
  shows "area_packets area = concat (take n (area_frames area)) @ area_frames area ! n @ concat (drop (Suc n) (area_frames area))"
proof -
  have "area_packets area = concat (area_frames area)"
    by (simp add: area_frames_def group_concat)
  also have "area_frames area = take n (area_frames area) @ area_frames area ! n # drop (Suc n) (area_frames area)"
    using assms by (rule id_take_nth_drop)
  finally show ?thesis by simp
qed

text \<open>The frames before a frame and after it, as packets.\<close>

definition before_frame :: "byte list list \<Rightarrow> nat \<Rightarrow> (nat \<times> packet) list" where
  "before_frame area n = concat (take n (area_frames area))"

definition after_frame :: "byte list list \<Rightarrow> nat \<Rightarrow> (nat \<times> packet) list" where
  "after_frame area n = concat (drop (Suc n) (area_frames area))"

lemma frame_nonempty: "n < length (area_frames area) \<Longrightarrow> area_frames area ! n \<noteq> []"
  unfolding area_frames_def by (rule group_nonempty) (rule nth_mem)

lemma frame_tail: "n < length (area_frames area) \<Longrightarrow> y \<in> set (tl (area_frames area ! n)) \<Longrightarrow> \<not> starts y"
  unfolding area_frames_def by (rule group_tail) (rule nth_mem)

lemma frame_good_nth: "area_good area \<Longrightarrow> n < length (area_frames area) \<Longrightarrow> frame_good n (area_frames area ! n)"
  by (simp add: area_good_def list_all_iff)

text \<open>The start of a frame, wherever it lies.\<close>

lemma starts_number:
  assumes "area_good area" "k < length (area_frames area)" "x \<in> set (area_frames area ! k)" "starts x"
  shows "number_of (snd x) = k"
proof -
  have "x = hd (area_frames area ! k)"
    using assms(3,4) frame_nonempty [OF assms(2)] frame_tail [OF assms(2), of x]
    by (metis list.collapse set_ConsD)
  then show ?thesis
    using frame_good_nth [OF assms(1,2)] by (simp add: frame_good_def)
qed

lemma before_starts:
  assumes "area_good area" "n < length (area_frames area)" "x \<in> set (before_frame area n)" "starts x"
  shows "number_of (snd x) < n"
proof -
  obtain k where k: "k < n" "x \<in> set (area_frames area ! k)"
    using assms(2,3) by (auto simp: before_frame_def) (metis in_set_conv_nth length_take min_less_iff_conj nth_take)
  then show ?thesis using starts_number [OF assms(1) _ k(2) assms(4)] assms(2) by simp
qed

lemma after_starts:
  assumes "area_good area" "x \<in> set (after_frame area n)" "starts x"
  shows "n < number_of (snd x)"
proof -
  obtain k where k: "Suc n \<le> k" "k < length (area_frames area)" "x \<in> set (area_frames area ! k)"
  proof -
    obtain g where g: "g \<in> set (drop (Suc n) (area_frames area))" "x \<in> set g"
      using assms(2) by (auto simp: after_frame_def)
    then obtain i where i: "i < length (area_frames area) - Suc n" "g = drop (Suc n) (area_frames area) ! i"
      by (auto simp: in_set_conv_nth)
    then show ?thesis using that [of "Suc n + i"] g(2) by simp
  qed
  then show ?thesis using starts_number [OF assms(1) k(2,3) assms(3)] by simp
qed

lemma after_first:
  assumes "Suc n < length (area_frames area)" "area_good area"
  shows "after_frame area n \<noteq> []" "starts (hd (after_frame area n))"
    "fst (hd (after_frame area n)) = frame_first area (Suc n)"
proof -
  have "drop (Suc n) (area_frames area) = area_frames area ! Suc n # drop (Suc (Suc n)) (area_frames area)"
    using assms(1) by (rule Cons_nth_drop_Suc [symmetric])
  then have a: "after_frame area n = area_frames area ! Suc n @ concat (drop (Suc (Suc n)) (area_frames area))"
    by (simp add: after_frame_def)
  have ne: "area_frames area ! Suc n \<noteq> []" using assms(1) by (rule frame_nonempty)
  have "frame_good (Suc n) (area_frames area ! Suc n)" using assms(2,1) by (rule frame_good_nth)
  then show "after_frame area n \<noteq> []" "starts (hd (after_frame area n))"
    "fst (hd (after_frame area n)) = frame_first area (Suc n)"
    using a ne by (simp_all add: frame_good_def frame_first_def)
qed

lemma after_none: "\<not> Suc n < length (area_frames area) \<Longrightarrow> after_frame area n = []"
  by (simp add: after_frame_def)

text \<open>Where they lie.\<close>

lemma sorted_hd_last: "sorted (map fst xs) \<Longrightarrow> x \<in> set xs \<Longrightarrow> fst (hd xs) \<le> fst x \<and> fst x \<le> fst (last xs)"
  by (induction xs arbitrary: x) (auto simp: last_conv_nth)

lemma frame_between:
  assumes n: "n < length (area_frames area)"
  shows "x \<in> set (before_frame area n) \<Longrightarrow> fst x \<le> frame_first area n"
    and "x \<in> set (area_frames area ! n) \<Longrightarrow> frame_first area n \<le> fst x \<and> fst x \<le> frame_last area n"
    and "x \<in> set (after_frame area n) \<Longrightarrow> frame_last area n \<le> fst x"
proof -
  let ?g = "area_frames area ! n"
  have ne: "?g \<noteq> []" using n by (rule frame_nonempty)
  have sorted: "sorted (map fst (before_frame area n @ ?g @ after_frame area n))"
    using area_packets_sorted [of area] area_cut [OF n] by (simp add: before_frame_def after_frame_def)
  have g: "sorted (map fst ?g)" using sorted by (simp add: sorted_append)
  show "x \<in> set ?g \<Longrightarrow> frame_first area n \<le> fst x \<and> fst x \<le> frame_last area n"
    using sorted_hd_last [OF g] by (simp add: frame_first_def frame_last_def)
  show "x \<in> set (before_frame area n) \<Longrightarrow> fst x \<le> frame_first area n"
    using sorted hd_in_set [OF ne] by (auto simp: sorted_append frame_first_def)
  show "x \<in> set (after_frame area n) \<Longrightarrow> frame_last area n \<le> fst x"
    using sorted last_in_set [OF ne] by (auto simp: sorted_append frame_last_def)
qed

text \<open>The packets of a sector: those of earlier frames, of the frame, of later frames.\<close>

lemma sector_cut:
  assumes "n < length (area_frames area)" "j < length area"
  shows "sector_packets (area ! j) = in_sector j (before_frame area n) @ in_sector j (area_frames area ! n) @
    in_sector j (after_frame area n)"
  using area_packets_in [OF assms(2)] area_cut [OF assms(1)]
  by (simp add: in_sector_append before_frame_def after_frame_def)

lemma nothing_before: "n < length (area_frames area) \<Longrightarrow> frame_first area n < j \<Longrightarrow> in_sector j (before_frame area n) = []"
  by (rule in_sector_none) (use frame_between(1) in fastforce)

lemma nothing_after: "n < length (area_frames area) \<Longrightarrow> j < frame_last area n \<Longrightarrow> in_sector j (after_frame area n) = []"
  by (rule in_sector_none) (use frame_between(3) in fastforce)

lemma frame_in_area:
  assumes "n < length (area_frames area)"
  shows "frame_first area n \<le> frame_last area n" "frame_last area n < length area"
proof -
  have g: "area_frames area ! n \<noteq> []" using assms by (rule frame_nonempty)
  show "frame_first area n \<le> frame_last area n"
    using frame_between(2) [OF assms hd_in_set [OF g]] by simp
  have "last (area_frames area ! n) \<in> set (area_packets area)"
    unfolding area_cut [OF assms] using last_in_set [OF g] by simp
  then show "frame_last area n < length area"
    using area_packets_range by (fastforce simp: frame_last_def)
qed

lemma frame_start_packet:
  assumes "area_good area" "n < length (area_frames area)"
  shows "in_sector (frame_first area n) (area_frames area ! n) =
    snd (hd (area_frames area ! n)) # in_sector (frame_first area n) (tl (area_frames area ! n))"
  using frame_nonempty [OF assms(2)]
  by (cases "area_frames area ! n") (simp_all add: in_sector_def frame_first_def)

text \<open>When later packets share the last sector of a frame, the first of them is a start.\<close>

lemma next_start:
  assumes "area_good area" "n < length (area_frames area)" "in_sector (frame_last area n) (after_frame area n) \<noteq> []"
  shows "pt_starts (hd (in_sector (frame_last area n) (after_frame area n)))"
    "Suc n < length (area_frames area)" "frame_first area (Suc n) = frame_last area n"
proof -
  let ?A = "after_frame area n" and ?Y = "frame_last area n"
  have ne: "?A \<noteq> []" using assms(3) by (auto simp: in_sector_def)
  then show N: "Suc n < length (area_frames area)" using after_none by blast
  obtain x where x: "x \<in> set ?A" "fst x = ?Y"
    using assms(3) by (auto simp: in_sector_def filter_empty_conv)
  have sorted: "sorted (map fst ?A)"
    using area_packets_sorted [of area] area_cut [OF assms(2)] by (simp add: after_frame_def sorted_append)
  have "fst (hd ?A) = ?Y"
    using sorted_hd_last [OF sorted x(1)] frame_between(3) [OF assms(2) hd_in_set [OF ne]] x(2) by simp
  then have h: "in_sector ?Y ?A = snd (hd ?A) # in_sector ?Y (tl ?A)"
    using ne by (cases ?A) (simp_all add: in_sector_def)
  show "pt_starts (hd (in_sector ?Y ?A))"
    using after_first(2) [OF N assms(1)] by (simp add: h)
  show "frame_first area (Suc n) = ?Y"
    using after_first(3) [OF N assms(1)] \<open>fst (hd ?A) = ?Y\<close> by simp
qed

lemma sector_nonempty:
  assumes "sector_good bs" shows "sector_packets bs \<noteq> []"
proof -
  obtain p off where p: "parse_audio_sector_header bs = Ok (p, off)"
    using assms by (auto simp: sector_good_def split: outcome.splits)
  then have "0 < length (ps_packets p)"
    by (auto simp: parse_audio_sector_header_def Let_def pieces_def split: if_splits)
  then show ?thesis
    using p by (cases "ps_packets p") (simp_all add: sector_packets_def)
qed

text \<open>Otherwise the next frame begins in the next sector.\<close>

lemma next_in_next_sector:
  assumes good: "area_good area" and N: "Suc n < length (area_frames area)"
    and none: "in_sector (frame_last area n) (after_frame area n) = []"
  shows "frame_first area (Suc n) = Suc (frame_last area n)"
proof -
  let ?A = "after_frame area n" and ?Y = "frame_last area n"
  have n: "n < length (area_frames area)" using N by simp
  note first = after_first [OF N good]
  have lo: "?Y < fst (hd ?A)"
    using frame_between(3) [OF n hd_in_set [OF first(1)]] none hd_in_set [OF first(1)]
    by (auto simp: in_sector_def filter_empty_conv intro: le_neq_implies_less)
  have "hd ?A \<in> set (area_packets area)"
    unfolding area_cut [OF n] using hd_in_set [OF first(1)] by (simp add: after_frame_def)
  then have "Suc ?Y < length area"
    using area_packets_range [of "hd ?A" area] lo by simp
  then have "in_sector (Suc ?Y) (area_packets area) \<noteq> []"
    using area_packets_in sector_nonempty good by (auto simp: area_good_def list_all_iff)
  moreover have "in_sector (Suc ?Y) (before_frame area n) = []" "in_sector (Suc ?Y) (area_frames area ! n) = []"
    using frame_between(1,2) [OF n] frame_in_area [OF n] by (fastforce intro!: in_sector_none)+
  ultimately have "in_sector (Suc ?Y) ?A \<noteq> []"
    using area_cut [OF n] by (simp add: in_sector_append before_frame_def after_frame_def)
  then obtain x where x: "x \<in> set ?A" "fst x = Suc ?Y"
    by (auto simp: in_sector_def filter_empty_conv)
  have "sorted (map fst ?A)"
    using area_packets_sorted [of area] area_cut [OF n] by (simp add: after_frame_def sorted_append)
  from sorted_hd_last [OF this x(1)] show ?thesis
    using lo x(2) first(3) by simp
qed

section \<open>Taking the packets of a sector\<close>

lemma time_frame_eq: "time_to_frame t = frame \<longleftrightarrow> unat (time_to_frame t) = unat frame"
  by (rule word_unat_eq_iff)

definition taken :: "u32 \<Rightarrow> extraction \<Rightarrow> packet list \<Rightarrow> extraction" where
  "taken here ex ps =
     (let ex' = ex\<lparr>ex_out := ex_out ex @ audio_of (takeWhile (\<lambda>p. \<not> pt_starts p) ps)\<rparr> in
      if list_ex pt_starts ps then ex'\<lparr>ex_next_lsn := here, ex_complete := True\<rparr> else ex')"

text \<open>Inside a frame: packets are taken up to the next start.\<close>

lemma process_inside:
  assumes "ex_started ex" "pos + sum_list (map pk_length ps) \<le> length bs"
    and "length (ex_out ex) + length (audio_of (takeWhile (\<lambda>p. \<not> pt_starts p) (packets_of infos k bs pos ps))) \<le> max_length"
  shows "process_packets frame DATA_TYPE_AUDIO max_length here infos bs k pos had ex ps =
    Ok (taken here ex (packets_of infos k bs pos ps),
        had \<or> audio_of (takeWhile (\<lambda>p. \<not> pt_starts p) (packets_of infos k bs pos ps)) \<noteq> [])"
  using assms
proof (induction ps arbitrary: k pos had ex)
  case Nil
  then show ?case by (simp add: taken_def)
next
  case (Cons p ps)
  let ?d = "bytes_at pos (pk_length p) bs"
  have len: "length ?d = pk_length p"
    using Cons.prems(2) by (intro length_bytes_at) simp
  show ?case
  proof (cases "info_starts p")
    case True
    then show ?thesis using Cons.prems(1) by (simp add: info_starts_def taken_def)
  next
    case False
    let ?rest = "packets_of infos k bs (pos + pk_length p) ps"
    show ?thesis
    proof (cases "pk_data_type p = DATA_TYPE_AUDIO")
      case True
      let ?ex = "ex\<lparr>ex_out := ex_out ex @ ?d\<rparr>"
      have fits: "length (ex_out ex) + pk_length p \<le> max_length"
        using Cons.prems(3) False True len by (simp add: audio_of_Cons)
      have IH: "process_packets frame DATA_TYPE_AUDIO max_length here infos bs k (pos + pk_length p) h' ?ex ps =
          Ok (taken here ?ex ?rest, h' \<or> audio_of (takeWhile (\<lambda>p. \<not> pt_starts p) ?rest) \<noteq> [])" for h'
        using Cons.prems False True len by (intro Cons.IH) (simp_all add: audio_of_Cons)
      have zero: "?d = [] \<Longrightarrow> ?ex = ex" by simp
      show ?thesis
        using IH fits False True Cons.prems len zero
        by (cases "pk_length p = 0") (auto simp: info_starts_def taken_def audio_of_Cons Let_def bytes_at_def)
    next
      case False' : False
      have "process_packets frame DATA_TYPE_AUDIO max_length here infos bs k (pos + pk_length p) had ex ps =
          Ok (taken here ex ?rest, had \<or> audio_of (takeWhile (\<lambda>p. \<not> pt_starts p) ?rest) \<noteq> [])"
        using Cons.prems False False' by (intro Cons.IH) (simp_all add: audio_of_Cons)
      then show ?thesis
        using False False' by (simp add: info_starts_def taken_def audio_of_Cons Let_def)
    qed
  qed
qed

text \<open>Before the frame: packets are passed over up to its start.\<close>

definition begun :: "extraction \<Rightarrow> packet \<Rightarrow> extraction" where
  "begun ex p = ex\<lparr>ex_started := True, ex_remaining := int (fi_sector_count (pt_info p)), ex_out := ex_out ex @ pt_data p\<rparr>"

lemma process_to_start:
  assumes "\<not> ex_started ex" "packets_of infos k bs pos ps = A @ s # B"
    and "\<And>a. a \<in> set A \<Longrightarrow> pt_starts a \<Longrightarrow> number_of a \<noteq> unat frame"
    and "pt_starts s" "number_of s = unat frame" "0 < fi_sector_count (pt_info s)"
    and "pos + sum_list (map pk_length ps) \<le> length bs"
    and "length (ex_out ex) + length (audio_of (s # takeWhile (\<lambda>p. \<not> pt_starts p) B)) \<le> max_length"
  shows "process_packets frame DATA_TYPE_AUDIO max_length here infos bs k pos had ex ps =
    Ok (taken here (begun ex s) B, had \<or> audio_of (s # takeWhile (\<lambda>p. \<not> pt_starts p) B) \<noteq> [])"
  using assms(2,3,7)
proof (induction A arbitrary: k pos ps)
  case Nil
  then obtain p ps' where ps: "ps = p # ps'" by (cases ps) auto
  let ?k = "if info_starts p then Suc k else k"
  have s: "s = \<lparr>pt_starts = info_starts p, pt_info = infos ! k, pt_type = pk_data_type p,
      pt_data = bytes_at pos (pk_length p) bs\<rparr>"
    and B: "B = packets_of infos ?k bs (pos + pk_length p) ps'"
    using Nil.prems(1) by (simp_all add: ps)
  have st: "info_starts p" "pk_data_type p = DATA_TYPE_AUDIO" "pk_frame_start p"
    using assms(4) by (simp_all add: s info_starts_def)
  have len: "length (pt_data s) = pk_length p"
    using Nil.prems(3) by (simp add: ps s length_bytes_at)
  have time: "time_to_frame (fi_time_code (infos ! k)) = frame"
    using assms(5) unfolding s packet.simps by (rule time_frame_eq [THEN iffD2])
  have fits: "length (ex_out ex) + pk_length p \<le> max_length"
    using assms(8) st len by (simp add: audio_of_Cons s)
  have inside: "process_packets frame DATA_TYPE_AUDIO max_length here infos bs (Suc k) (pos + pk_length p) h (begun ex s) ps' =
      Ok (taken here (begun ex s) B, h \<or> audio_of (takeWhile (\<lambda>p. \<not> pt_starts p) B) \<noteq> [])" for h
    using process_inside [of "begun ex s" "pos + pk_length p" ps' bs infos "Suc k" max_length frame here h]
      assms(8) Nil.prems(3) st B by (simp add: ps begun_def audio_of_Cons s)
  show ?case
    using inside [of True] inside [of had] assms(1,6) st time fits len
    by (cases "pk_length p = 0")
      (auto simp: ps begun_def s audio_of_Cons Let_def bytes_at_def info_starts_def)
next
  case (Cons a A)
  then obtain p ps' where ps: "ps = p # ps'" by (cases ps) auto
  let ?k = "if info_starts p then Suc k else k"
  have a: "a = \<lparr>pt_starts = info_starts p, pt_info = infos ! k, pt_type = pk_data_type p,
      pt_data = bytes_at pos (pk_length p) bs\<rparr>"
    and rest: "packets_of infos ?k bs (pos + pk_length p) ps' = A @ s # B"
    using Cons.prems(1) by (simp_all add: ps)
  have no: "info_starts p \<Longrightarrow> time_to_frame (fi_time_code (infos ! k)) \<noteq> frame"
    using Cons.prems(2) [of a] by (simp add: a time_frame_eq)
  have "process_packets frame DATA_TYPE_AUDIO max_length here infos bs ?k (pos + pk_length p) had ex ps' =
      Ok (taken here (begun ex s) B, had \<or> audio_of (s # takeWhile (\<lambda>p. \<not> pt_starts p) B) \<noteq> [])"
    using Cons.prems by (intro Cons.IH [OF rest]) (auto simp: ps)
  then show ?case
    using assms(1) no by (auto simp: ps info_starts_def Let_def)
qed

section \<open>Looking for a frame in a sector\<close>

lemma scan_packets_through:
  assumes "\<And>p. p \<in> set (packets_of infos k bs pos ps) \<Longrightarrow> pt_starts p \<Longrightarrow> number_of p < unat frame"
  shows "scan_packets frame infos k ps = Scan_through"
  using assms
proof (induction ps arbitrary: k pos)
  case (Cons p ps)
  have IH: "scan_packets frame infos k' ps = Scan_through" if "k' = (if info_starts p then Suc k else k)" for k'
    using Cons.prems that by (intro Cons.IH [of k' "pos + pk_length p"]) auto
  have "info_starts p \<Longrightarrow> unat (time_to_frame (fi_time_code (infos ! k))) < unat frame"
    using Cons.prems [of "\<lparr>pt_starts = info_starts p, pt_info = infos ! k, pt_type = pk_data_type p,
      pt_data = bytes_at pos (pk_length p) bs\<rparr>"] by simp
  then show ?case
    using IH by (auto simp: info_starts_def word_less_nat_alt Let_def)
qed simp

lemma scan_packets_found:
  assumes "packets_of infos k bs pos ps = A @ s # B"
    and "\<And>a. a \<in> set A \<Longrightarrow> pt_starts a \<Longrightarrow> number_of a < unat frame"
    and "pt_starts s" "number_of s = unat frame" "0 < fi_sector_count (pt_info s)"
  shows "scan_packets frame infos k ps = Scan_found (int (fi_sector_count (pt_info s)))"
  using assms(1,2)
proof (induction A arbitrary: k pos ps)
  case Nil
  then obtain p ps' where "ps = p # ps'" by (cases ps) auto
  moreover from this have "time_to_frame (fi_time_code (infos ! k)) = frame"
    using Nil.prems(1) assms(4) by (intro time_frame_eq [THEN iffD2]) auto
  ultimately show ?case
    using Nil.prems(1) assms(3,5) by (auto simp: info_starts_def Let_def)
next
  case (Cons a A)
  then obtain p ps' where ps: "ps = p # ps'" by (cases ps) auto
  let ?k = "if info_starts p then Suc k else k"
  have a: "a = \<lparr>pt_starts = info_starts p, pt_info = infos ! k, pt_type = pk_data_type p,
      pt_data = bytes_at pos (pk_length p) bs\<rparr>"
    and rest: "packets_of infos ?k bs (pos + pk_length p) ps' = A @ s # B"
    using Cons.prems(1) by (simp_all add: ps)
  have "scan_packets frame infos ?k ps' = Scan_found (int (fi_sector_count (pt_info s)))"
    using Cons.prems by (intro Cons.IH [OF rest]) auto
  moreover have "info_starts p \<Longrightarrow> unat (time_to_frame (fi_time_code (infos ! k))) < unat frame"
    using Cons.prems(2) [of a] by (simp add: a)
  ultimately show ?case
    by (auto simp: ps info_starts_def word_less_nat_alt Let_def)
qed

text \<open>A sector behind the frame: either no frame starts in it or the search has gone too far.\<close>

lemma scan_packets_behind:
  assumes "\<And>p. p \<in> set (packets_of infos k bs pos ps) \<Longrightarrow> pt_starts p \<Longrightarrow> unat frame < number_of p"
  shows "scan_packets frame infos k ps \<in> {Scan_through, Scan_passed}"
  using assms
proof (induction ps arbitrary: k pos)
  case (Cons p ps)
  show ?case
  proof (cases "info_starts p")
    case True
    then have "unat frame < unat (time_to_frame (fi_time_code (infos ! k)))"
      using Cons.prems [of "\<lparr>pt_starts = info_starts p, pt_info = infos ! k, pt_type = pk_data_type p,
        pt_data = bytes_at pos (pk_length p) bs\<rparr>"] by simp
    then have "frame < time_to_frame (fi_time_code (infos ! k))"
      by (simp only: word_less_nat_alt)
    then show ?thesis using True by (simp add: info_starts_def Let_def)
  next
    case False
    have "scan_packets frame infos k ps \<in> {Scan_through, Scan_passed}"
    proof (rule Cons.IH [of k "pos + pk_length p"])
      fix q assume "q \<in> set (packets_of infos k bs (pos + pk_length p) ps)" "pt_starts q"
      then show "unat frame < number_of q" using Cons.prems [of q] False by simp
    qed
    then show ?thesis using False by (auto simp: info_starts_def)
  qed
qed simp

end
