(* ===== verification/Sacd_Reading.thy ===== *)
theory Sacd_Reading
  imports Sacd_Demux
begin

text \<open>
  The reader for DST coded audio delivers the frames of a well-formed area: what the packets of the
  sectors of a frame add up to, the search for the first sector, and the two ways to it (the access
  list and the position kept from the frame before).
\<close>

section \<open>A sector at the front of the buffer\<close>

lemma pieces_append: "k + w * n \<le> length bs \<Longrightarrow> pieces w n (drop k (bs @ ys)) = pieces w n (drop k bs)"
proof -
  assume len: "k + w * n \<le> length bs"
  have "bytes_at (w * i) w (drop k bs @ ys) = bytes_at (w * i) w (drop k bs)" if "i < n" for i
  proof (rule bytes_at_append_left)
    have "w * i + w \<le> w * n" using that by (metis Suc_leI add.commute mult_Suc_right mult_le_mono2)
    then show "w * i + w \<le> length (drop k bs)" using len by simp
  qed
  then show ?thesis using len by (simp add: pieces_def)
qed

lemma parse_append:
  assumes "parse_audio_sector_header bs = Ok r"
  shows "parse_audio_sector_header (bs @ ys) = Ok r"
proof -
  let ?h = "unat (hd bs)"
  let ?pc = "?h div 32" and ?fc = "?h div 4 mod 8" and ?w = "if odd ?h then 4 else 3 :: nat"
  have bs: "bs \<noteq> []" and pc: "\<not> (?pc = 0 \<or> 7 < ?pc)" and len: "1 + 2 * ?pc + ?w * ?fc \<le> length bs"
    using assms by (auto simp: parse_audio_sector_header_def Let_def split: if_splits)
  have "pieces 2 ?pc (drop 1 (bs @ ys)) = pieces 2 ?pc (drop 1 bs)"
    "pieces ?w ?fc (drop (1 + 2 * ?pc) (bs @ ys)) = pieces ?w ?fc (drop (1 + 2 * ?pc) bs)"
    using len by (intro pieces_append; simp)+
  then show ?thesis
    using assms bs pc len unfolding parse_audio_sector_header_def Let_def hd_append2 [OF bs] by simp
qed

lemma packets_of_append:
  "pos + sum_list (map pk_length ps) \<le> length bs \<Longrightarrow> packets_of infos k (bs @ ys) pos ps = packets_of infos k bs pos ps"
  by (induction ps arbitrary: k pos) (simp_all add: bytes_at_append_left)

lemma packets_of_type: "q \<in> set (packets_of infos k bs pos ps) \<Longrightarrow> pt_starts q \<Longrightarrow> pt_type q = DATA_TYPE_AUDIO"
  by (induction ps arbitrary: k pos) (auto simp: info_starts_def)

lemma sector_in_front:
  assumes "sector_good bs"
  shows "\<exists>p off. parse_audio_sector_header (bs @ ys) = Ok (p, off) \<and> ps_dst_coded p \<and>
    off + sum_list (map pk_length (ps_packets p)) \<le> length (bs @ ys) \<and>
    packets_of (ps_frames p) 0 (bs @ ys) off (ps_packets p) = sector_packets bs"
proof -
  obtain p off where p: "parse_audio_sector_header bs = Ok (p, off)" "ps_dst_coded p"
    "off + sum_list (map pk_length (ps_packets p)) \<le> 2048" "length bs = 2048"
    using assms by (auto simp: sector_good_def split: outcome.splits)
  then show ?thesis
    using parse_append [OF p(1)] packets_of_append [of off "ps_packets p" bs "ps_frames p" 0 ys]
    by (auto simp: sector_packets_def)
qed

section \<open>The audio of a frame, sector by sector\<close>

definition frame_part :: "byte list list \<Rightarrow> nat \<Rightarrow> nat \<Rightarrow> byte list" where
  "frame_part area n j = audio_of (in_sector j (area_frames area ! n))"

lemma audio_of_concat: "audio_of (concat xss) = concat (map audio_of xss)"
  by (induction xss) (simp_all add: audio_of_append)

text \<open>Packets in the order of their sectors.\<close>

lemma by_sectors:
  assumes "sorted (map fst xs)" "\<And>x. x \<in> set xs \<Longrightarrow> a \<le> fst x \<and> fst x < b"
  shows "concat (map (\<lambda>j. in_sector j xs) [a..<b]) = map snd xs"
  using assms
proof (induction xs)
  case Nil
  have "map (\<lambda>j. in_sector j []) js = map (\<lambda>_. []) js" for js by (simp add: in_sector_def)
  then show ?case by (simp add: in_sector_def)
next
  case (Cons x xs)
  let ?j = "fst x"
  have j: "a \<le> ?j" "?j < b" using Cons.prems(2) by auto
  have upt: "[a..<b] = [a..<?j] @ ?j # [Suc ?j..<b]"
    using j upt_add_eq_append [of a ?j "b - ?j"] by (simp add: upt_conv_Cons)
  have low: "in_sector i (x # xs) = [] \<and> in_sector i xs = []" if "i < ?j" for i
    using that Cons.prems(1) by (fastforce intro!: in_sector_none)
  have other: "in_sector i (x # xs) = in_sector i xs" if "i \<noteq> ?j" for i
    using that by (simp add: in_sector_def)
  have lows: "concat (map (\<lambda>j. in_sector j (x # xs)) [a..<?j]) = []" "concat (map (\<lambda>j. in_sector j xs) [a..<?j]) = []"
    using low by (simp_all add: concat_eq_Nil_conv)
  have highs: "map (\<lambda>j. in_sector j (x # xs)) [Suc ?j..<b] = map (\<lambda>j. in_sector j xs) [Suc ?j..<b]"
    by (rule map_cong) (auto intro: other)
  have "concat (map (\<lambda>j. in_sector j xs) [a..<b]) = map snd xs"
    using Cons by auto
  moreover have "in_sector ?j (x # xs) = snd x # in_sector ?j xs"
    by (simp add: in_sector_def)
  ultimately show ?case
    unfolding upt by (simp only: map_append concat_append list.map concat.simps lows highs) simp
qed

lemma frame_sorted: "n < length (area_frames area) \<Longrightarrow> sorted (map fst (area_frames area ! n))"
  using area_packets_sorted [of area] area_cut [of n area] by (simp add: sorted_append)

lemma frame_audio_parts:
  assumes "n < length (area_frames area)"
  shows "frame_audio area n = concat (map (frame_part area n) [frame_first area n..<Suc (frame_last area n)])"
proof -
  have "map snd (area_frames area ! n) =
      concat (map (\<lambda>j. in_sector j (area_frames area ! n)) [frame_first area n..<Suc (frame_last area n)])"
    using frame_between(2) [OF assms] by (intro by_sectors [symmetric] frame_sorted assms) (auto simp: less_Suc_eq_le)
  moreover have "frame_part area n = (\<lambda>j. audio_of (in_sector j (area_frames area ! n)))"
    by (rule ext) (rule frame_part_def)
  ultimately show ?thesis
    by (simp only: frame_audio_def audio_of_concat map_map comp_def)
qed

lemma frame_part_nonempty:
  assumes good: "area_good area" and n: "n < length (area_frames area)"
    and j: "frame_first area n \<le> j" "j \<le> frame_last area n"
  shows "frame_part area n j \<noteq> []"
proof -
  have "list_ex (\<lambda>x. fst x = j \<and> has_audio (snd x)) (area_frames area ! n)"
    using frame_good_nth [OF good n] j
    by (simp add: frame_good_def list_all_iff frame_first_def frame_last_def del: upt_Suc)
  then obtain x where "x \<in> set (area_frames area ! n)" "fst x = j" "has_audio (snd x)"
    by (auto simp: list_ex_iff)
  then have "snd x \<in> set (in_sector j (area_frames area ! n))" "pt_type (snd x) = DATA_TYPE_AUDIO" "pt_data (snd x) \<noteq> []"
    by (auto simp: in_sector_def has_audio_def)
  then show ?thesis
    unfolding frame_part_def audio_of_def concat_eq_Nil_conv by fastforce
qed

section \<open>A sector of the frame\<close>

text \<open>After a sector of the frame it goes on to the next one, or the frame is complete and the sector where the
  next one begins is known.\<close>

lemma takeWhile_to_start:
  assumes "\<And>p. p \<in> set G \<Longrightarrow> \<not> P p" "A = [] \<or> P (hd A)"
  shows "takeWhile (\<lambda>p. \<not> P p) (G @ A) = G"
  using assms by (cases A) (simp_all add: takeWhile_append)

definition sector_taken :: "byte list list \<Rightarrow> nat \<Rightarrow> u32 \<Rightarrow> nat \<Rightarrow> extraction \<Rightarrow> extraction \<Rightarrow> bool" where
  "sector_taken area n here j ex ex' \<longleftrightarrow>
     ex_out ex' = ex_out ex @ frame_part area n j \<and> ex_started ex' \<and>
     (if j < frame_last area n
      then \<not> ex_complete ex' \<and> ex_remaining ex' = int (frame_last area n - j)
      else ex_complete ex' \<and> ex_next_lsn ex' =
        (if in_sector j (after_frame area n) = [] then here + 1 else here))"

lemma count_taken:
  assumes "area_good area" "n < length (area_frames area)" "j \<le> frame_last area n"
    and "ex_started ex" "\<not> ex_complete ex" "ex_remaining ex = int (Suc (frame_last area n) - j)"
    and "\<And>p. p \<in> set G \<Longrightarrow> \<not> pt_starts p" "ps_dst_coded parsed"
    and "ex_out ex @ audio_of G = out0 @ frame_part area n j" "ex_out ex0 = out0"
  shows "sector_taken area n here j ex0
    (count_sector parsed here (taken here ex (G @ in_sector j (after_frame area n)), True))"
proof -
  let ?A = "in_sector j (after_frame area n)"
  have A: "?A = [] \<or> pt_starts (hd ?A)" "j < frame_last area n \<Longrightarrow> ?A = []"
    using nothing_after [OF assms(2)] next_start(1) [OF assms(1,2)] assms(3) by (cases "j < frame_last area n"; force)+
  have "takeWhile (\<lambda>p. \<not> pt_starts p) (G @ ?A) = G"
    using assms(7) A(1) by (rule takeWhile_to_start)
  moreover have "list_ex pt_starts (G @ ?A) \<longleftrightarrow> ?A \<noteq> []"
    using assms(7) A(1) by (cases ?A) (auto simp: list_ex_iff)
  ultimately have tk: "taken here ex (G @ ?A) = (let ex' = ex\<lparr>ex_out := out0 @ frame_part area n j\<rparr> in
      if ?A \<noteq> [] then ex'\<lparr>ex_next_lsn := here, ex_complete := True\<rparr> else ex')"
    by (simp add: taken_def assms(9))
  show ?thesis
  proof (cases "?A = []")
    case True
    have "ex_remaining ex - 1 = int (frame_last area n - j)" using assms(3,6) by simp
    then show ?thesis
      using assms(3-6,8,10) True unfolding tk sector_taken_def count_sector_def by (auto simp: Let_def)
  next
    case False
    then have "\<not> j < frame_last area n" using A(2) by blast
    then show ?thesis
      using assms(4,10) False unfolding tk sector_taken_def count_sector_def by (simp add: Let_def)
  qed
qed

text \<open>The sectors after the first one, where no packet of the frame is a start.\<close>

lemma frame_no_start:
  assumes "n < length (area_frames area)" "frame_first area n < j" "q \<in> set (in_sector j (area_frames area ! n))"
  shows "\<not> pt_starts q"
proof -
  obtain x where x: "x \<in> set (area_frames area ! n)" "fst x = j" "q = snd x"
    using assms(3) by (auto simp: in_sector_def)
  then have "x \<noteq> hd (area_frames area ! n)" using assms(2) by (auto simp: frame_first_def)
  then have "x \<in> set (tl (area_frames area ! n))"
    using x(1) frame_nonempty [OF assms(1)] by (metis list.collapse set_ConsD)
  then show ?thesis using frame_tail [OF assms(1)] x(3) by simp
qed

lemma sector_inside:
  assumes good: "area_good area" and n: "n < length (area_frames area)"
    and j: "frame_first area n < j" "j \<le> frame_last area n"
    and ex: "ex_started ex" "\<not> ex_complete ex" "ex_remaining ex = int (Suc (frame_last area n) - j)"
    and room: "length (ex_out ex) + length (frame_part area n j) \<le> max_length"
    and p: "ps_dst_coded p" "off + sum_list (map pk_length (ps_packets p)) \<le> length bs"
      "packets_of (ps_frames p) 0 bs off (ps_packets p) = sector_packets (area ! j)"
  shows "\<exists>r. process_packets frame DATA_TYPE_AUDIO max_length here (ps_frames p) bs 0 off False ex (ps_packets p) = Ok r \<and>
    sector_taken area n here j ex (count_sector p here r)"
proof -
  let ?G = "in_sector j (area_frames area ! n)" and ?A = "in_sector j (after_frame area n)"
  have jl: "j < length area" using frame_in_area [OF n] j by simp
  have cut: "sector_packets (area ! j) = ?G @ ?A"
    using sector_cut [OF n jl] nothing_before [OF n j(1)] by simp
  note G = frame_no_start [OF n j(1)]
  have A: "?A = [] \<or> pt_starts (hd ?A)"
    using nothing_after [OF n] next_start(1) [OF good n] j(2) by (cases "j < frame_last area n"; force)
  have tw: "takeWhile (\<lambda>p. \<not> pt_starts p) (?G @ ?A) = ?G"
    using G A by (rule takeWhile_to_start)
  have part: "audio_of ?G = frame_part area n j" by (simp add: frame_part_def)
  have "process_packets frame DATA_TYPE_AUDIO max_length here (ps_frames p) bs 0 off False ex (ps_packets p) =
      Ok (taken here ex (?G @ ?A), True)"
    using process_inside [OF ex(1) p(2), of "ps_frames p" 0 max_length frame here False] room
      frame_part_nonempty [OF good n _ j(2)] j(1) unfolding p(3) cut tw part by simp
  moreover have "sector_taken area n here j ex (count_sector p here (taken here ex (?G @ ?A), True))"
    using count_taken [OF good n j(2) ex G p(1)] part by simp
  ultimately show ?thesis by blast
qed

text \<open>The first one.\<close>

lemma sector_start:
  assumes good: "area_good area" and n: "n < length (area_frames area)" "unat frame = n"
    and ex: "\<not> ex_started ex" "\<not> ex_complete ex"
    and room: "length (ex_out ex) + length (frame_part area n (frame_first area n)) \<le> max_length"
    and p: "ps_dst_coded p" "off + sum_list (map pk_length (ps_packets p)) \<le> length bs"
      "packets_of (ps_frames p) 0 bs off (ps_packets p) = sector_packets (area ! frame_first area n)"
  shows "\<exists>r. process_packets frame DATA_TYPE_AUDIO max_length here (ps_frames p) bs 0 off False ex (ps_packets p) = Ok r \<and>
    sector_taken area n here (frame_first area n) ex (count_sector p here r)"
proof -
  let ?X = "frame_first area n" and ?Y = "frame_last area n"
  let ?s = "snd (hd (area_frames area ! n))" and ?G = "in_sector ?X (tl (area_frames area ! n))"
  let ?A = "in_sector ?X (after_frame area n)" and ?B = "in_sector ?X (before_frame area n)"
  note X = frame_in_area [OF n(1)]
  have fg: "frame_good n (area_frames area ! n)" using good n(1) by (rule frame_good_nth)
  have s: "pt_starts ?s" "number_of ?s = unat frame" "fi_sector_count (pt_info ?s) = Suc (?Y - ?X)"
    using fg n(2) by (simp_all add: frame_good_def frame_first_def frame_last_def)
  have cut: "sector_packets (area ! ?X) = ?B @ ?s # (?G @ ?A)"
    using sector_cut [OF n(1), of ?X] frame_start_packet [OF good n(1)] X by simp
  have B: "number_of a \<noteq> unat frame" if "a \<in> set ?B" "pt_starts a" for a
    using that before_starts [OF good n(1)] n(2) by (fastforce simp: in_sector_def)
  have G: "\<not> pt_starts q" if "q \<in> set ?G" for q
    using that frame_tail [OF n(1)] by (auto simp: in_sector_def)
  have A: "?A = [] \<or> pt_starts (hd ?A)"
    using nothing_after [OF n(1)] next_start(1) [OF good n(1)] X(1) by (cases "?X < ?Y"; force)
  have tw: "takeWhile (\<lambda>p. \<not> pt_starts p) (?G @ ?A) = ?G"
    using G A by (rule takeWhile_to_start)
  have type: "pt_type ?s = DATA_TYPE_AUDIO"
    using packets_of_type [of ?s] s(1) cut p(3) by (metis in_set_conv_decomp)
  have part: "audio_of (?s # ?G) = frame_part area n ?X"
    by (simp add: frame_part_def frame_start_packet [OF good n(1)])
  have "process_packets frame DATA_TYPE_AUDIO max_length here (ps_frames p) bs 0 off False ex (ps_packets p) =
      Ok (taken here (begun ex ?s) (?G @ ?A), True)"
    using process_to_start [OF ex(1) p(3) [unfolded cut] B s(1,2) _ p(2), of max_length here False] room s(3)
      frame_part_nonempty [OF good n(1) _ X(1)] unfolding tw part by simp
  moreover have "sector_taken area n here ?X ex (count_sector p here (taken here (begun ex ?s) (?G @ ?A), True))"
  proof (rule count_taken [OF good n(1) X(1) _ _ _ G p(1) _ refl])
    show "ex_started (begun ex ?s)" "\<not> ex_complete (begun ex ?s)"
      using ex by (simp_all add: begun_def)
    show "ex_remaining (begun ex ?s) = int (Suc ?Y - ?X)" using s(3) X(1) by (simp add: begun_def Suc_diff_le)
    show "ex_out (begun ex ?s) @ audio_of ?G = ex_out ex @ frame_part area n ?X"
      unfolding part [symmetric] by (simp add: begun_def audio_of_Cons type)
  qed
  ultimately show ?thesis by blast
qed

section \<open>The sectors of a frame\<close>

text \<open>A buffer of sectors of \<open>sb\<close> bytes that holds the sectors of an area from number \<open>X\<close> on, as far as \<open>Y\<close>.\<close>

definition buffer_holds :: "nat \<Rightarrow> nat \<Rightarrow> byte list list \<Rightarrow> nat \<Rightarrow> nat \<Rightarrow> byte list \<Rightarrow> bool" where
  "buffer_holds sb h area X Y buf \<longleftrightarrow>
     (\<forall>j. X \<le> j \<longrightarrow> j \<le> Y \<longrightarrow> (j - X) * sb + h + 2048 \<le> length buf \<and> bytes_at ((j - X) * sb + h) 2048 buf = area ! j)"

lemma buffer_sector:
  assumes "buffer_holds sb h area X Y buf" "X \<le> j" "j \<le> Y"
  shows "\<exists>ys. drop ((j - X) * sb + h) buf = area ! j @ ys" "(j - X) * sb + h \<le> length buf"
proof -
  have b: "bytes_at ((j - X) * sb + h) 2048 buf = area ! j" and l: "(j - X) * sb + h + 2048 \<le> length buf"
    using assms unfolding buffer_holds_def by blast+
  show "\<exists>ys. drop ((j - X) * sb + h) buf = area ! j @ ys"
    using b by (metis append_take_drop_id bytes_at_def)
  show "(j - X) * sb + h \<le> length buf" using l by simp
qed

lemma good_sector: "area_good area \<Longrightarrow> j < length area \<Longrightarrow> sector_good (area ! j)"
  by (simp add: area_good_def list_all_iff)

text \<open>One round of the loop over the sectors.\<close>

lemma sector_bounds:
  assumes "i * sb + h \<le> length buf"
  shows "(int i * int sb + int h < 0 \<or> int (length buf) < int i * int sb + int h) = False"
    "drop (nat (int i * int sb + int h)) buf = drop (i * sb + h) buf"
proof -
  have off: "int i * int sb + int h = int (i * sb + h)" by simp
  show "(int i * int sb + int h < 0 \<or> int (length buf) < int i * int sb + int h) = False"
    unfolding off of_nat_less_iff using assms by (simp only: of_nat_less_0_iff simp_thms not_less)
  show "drop (nat (int i * int sb + int h)) buf = drop (i * sb + h) buf"
    unfolding off nat_int ..
qed

lemma process_round:
  assumes "\<not> ex_complete ex" "drop (i * sb + h) buf = bs" "i * sb + h \<le> length buf"
    and "parse_audio_sector_header bs = Ok (p, off)"
    and "process_packets frame dtype max_length (lsn + of_nat i) (ps_frames p) bs 0 off False ex (ps_packets p) = Ok r"
  shows "process_sectors frame dtype max_length lsn (int sb) (int h) buf i (Suc m) ex =
    process_sectors frame dtype max_length lsn (int sb) (int h) buf (Suc i) m (count_sector p (lsn + of_nat i) r)"
  by (simp only: process_sectors.simps Let_def sector_bounds [OF assms(3)] assms(1,2,4,5) outcome.case prod.case
      if_False simp_thms)

lemma process_bad:
  assumes "\<not> ex_complete ex" "i * sb + h \<le> length buf" "parse_audio_sector_header (drop (i * sb + h) buf) = Err e"
  shows "process_sectors frame dtype max_length lsn (int sb) (int h) buf i (Suc m) ex = Err SACD_DST_READER_IO_ERROR"
  by (simp only: process_sectors.simps Let_def sector_bounds [OF assms(2)] assms(1,3) outcome.case if_False simp_thms)

lemma process_done: "ex_complete ex \<Longrightarrow> process_sectors frame dtype max_length lsn ss hs buf i m ex = Ok ex"
  by (cases m) simp_all

lemma process_rest:
  assumes good: "area_good area" and n: "n < length (area_frames area)"
    and buf: "buffer_holds sb h area (frame_first area n) (frame_last area n) buf"
    and i: "0 < i" "frame_first area n + i \<le> Suc (frame_last area n)"
      "Suc (frame_last area n) - frame_first area n \<le> i + m"
    and ex: "if frame_first area n + i \<le> frame_last area n
      then \<not> ex_complete ex \<and> ex_remaining ex = int (Suc (frame_last area n) - (frame_first area n + i))
      else ex_complete ex \<and> ex_next_lsn ex = next" "ex_started ex"
    and "next": "next = lsn + of_nat (if in_sector (frame_last area n) (after_frame area n) = []
      then Suc (frame_last area n) - frame_first area n else frame_last area n - frame_first area n)"
    and room: "length (ex_out ex) +
      length (concat (map (frame_part area n) [frame_first area n + i..<Suc (frame_last area n)])) \<le> max_length"
  shows "\<exists>ex'. process_sectors frame DATA_TYPE_AUDIO max_length lsn (int sb) (int h) buf i m ex = Ok ex' \<and>
    ex_out ex' = ex_out ex @ concat (map (frame_part area n) [frame_first area n + i..<Suc (frame_last area n)]) \<and>
    ex_next_lsn ex' = next"
  using i ex room
proof (induction m arbitrary: i ex)
  case 0
  then have "frame_first area n + i = Suc (frame_last area n)" by simp
  then show ?case using "0" by (simp add: process_done)
next
  case (Suc m)
  let ?X = "frame_first area n" and ?Y = "frame_last area n"
  let ?j = "?X + i"
  show ?case
  proof (cases "?j \<le> ?Y")
    case False
    then show ?thesis using Suc.prems by (simp add: process_done)
  next
    case True
    have upt: "[?j..<Suc ?Y] = ?j # [?X + Suc i..<Suc ?Y]" using True by (simp add: upt_conv_Cons del: upt_Suc)
    have jl: "?j < length area" using frame_in_area [OF n] True by simp
    obtain ys where bs: "drop (i * sb + h) buf = area ! ?j @ ys"
      using buffer_sector(1) [OF buf, of ?j] True by auto
    have le: "i * sb + h \<le> length buf" using buffer_sector(2) [OF buf, of ?j] True by simp
    obtain p off where p: "parse_audio_sector_header (area ! ?j @ ys) = Ok (p, off)" "ps_dst_coded p"
      "off + sum_list (map pk_length (ps_packets p)) \<le> length (area ! ?j @ ys)"
      "packets_of (ps_frames p) 0 (area ! ?j @ ys) off (ps_packets p) = sector_packets (area ! ?j)"
      using sector_in_front [OF good_sector [OF good jl]] by blast
    have st: "\<not> ex_complete ex" "ex_remaining ex = int (Suc ?Y - ?j)" using Suc.prems(4) True by simp_all
    have j: "?X < ?j" using Suc.prems(1) by simp
    have room1: "length (ex_out ex) + length (frame_part area n ?j) \<le> max_length"
      using Suc.prems(6) unfolding upt by simp
    obtain r where r: "process_packets frame DATA_TYPE_AUDIO max_length (lsn + of_nat i) (ps_frames p) (area ! ?j @ ys) 0 off
        False ex (ps_packets p) = Ok r"
      and tk: "sector_taken area n (lsn + of_nat i) ?j ex (count_sector p (lsn + of_nat i) r)"
      using sector_inside [OF good n j True Suc.prems(5) st room1 p(2-4)] by blast
    let ?ex = "count_sector p (lsn + of_nat i) r"
    have step: "process_sectors frame DATA_TYPE_AUDIO max_length lsn (int sb) (int h) buf i (Suc m) ex =
        process_sectors frame DATA_TYPE_AUDIO max_length lsn (int sb) (int h) buf (Suc i) m ?ex"
      by (rule process_round [OF st(1) bs le p(1) r])
    have out: "ex_out ?ex = ex_out ex @ frame_part area n ?j" and started: "ex_started ?ex"
      using tk by (simp_all add: sector_taken_def)
    have inv: "if ?X + Suc i \<le> ?Y then \<not> ex_complete ?ex \<and> ex_remaining ?ex = int (Suc ?Y - (?X + Suc i))
        else ex_complete ?ex \<and> ex_next_lsn ?ex = next"
    proof (cases "?j < ?Y")
      case False
      then have "?Y = ?j" using True by simp
      then have "Suc ?Y - ?X = Suc i" "?Y - ?X = i" by simp_all
      then show ?thesis
        using tk False \<open>?Y = ?j\<close> unfolding sector_taken_def "next" by (simp add: algebra_simps)
    qed (use tk in \<open>simp add: sector_taken_def\<close>)
    have "\<exists>ex'. process_sectors frame DATA_TYPE_AUDIO max_length lsn (int sb) (int h) buf (Suc i) m ?ex = Ok ex' \<and>
        ex_out ex' = ex_out ?ex @ concat (map (frame_part area n) [?X + Suc i..<Suc ?Y]) \<and> ex_next_lsn ex' = next"
      using Suc.prems True out by (intro Suc.IH inv started) (simp_all add: upt del: upt_Suc)
    then show ?thesis unfolding step upt out by simp
  qed
qed

text \<open>All of them: the audio of the frame, and where the next one begins.\<close>

definition next_sector :: "byte list list \<Rightarrow> nat \<Rightarrow> nat" where
  "next_sector area n =
     (if in_sector (frame_last area n) (after_frame area n) = [] then Suc (frame_last area n) else frame_last area n)"

lemma next_sector_ok:
  assumes "area_good area" "Suc n < length (area_frames area)"
  shows "next_sector area n = frame_first area (Suc n)"
  using next_in_next_sector [OF assms] next_start(3) [OF assms(1)] assms(2) by (simp add: next_sector_def)

lemma process_frame:
  assumes good: "area_good area" and n: "n < length (area_frames area)" "unat frame = n"
    and buf: "buffer_holds sb h area (frame_first area n) (frame_last area n) buf"
    and m: "Suc (frame_last area n) - frame_first area n \<le> m"
    and room: "length (frame_audio area n) \<le> max_length"
    and ex: "\<not> ex_started ex" "\<not> ex_complete ex" "ex_out ex = []"
  shows "\<exists>ex'. process_sectors frame DATA_TYPE_AUDIO max_length lsn (int sb) (int h) buf 0 m ex = Ok ex' \<and>
    ex_out ex' = frame_audio area n \<and> ex_next_lsn ex' = lsn + of_nat (next_sector area n - frame_first area n)"
proof -
  let ?X = "frame_first area n" and ?Y = "frame_last area n"
  note X = frame_in_area [OF n(1)]
  obtain m' where m': "m = Suc m'" using m X by (cases m) auto
  have jl: "?X < length area" using X by simp
  obtain ys where bs: "drop h buf = area ! ?X @ ys"
    using buffer_sector(1) [OF buf le_refl X(1)] by auto
  have le: "h \<le> length buf" using buffer_sector(2) [OF buf le_refl X(1)] by simp
  obtain p off where p: "parse_audio_sector_header (area ! ?X @ ys) = Ok (p, off)" "ps_dst_coded p"
    "off + sum_list (map pk_length (ps_packets p)) \<le> length (area ! ?X @ ys)"
    "packets_of (ps_frames p) 0 (area ! ?X @ ys) off (ps_packets p) = sector_packets (area ! ?X)"
    using sector_in_front [OF good_sector [OF good jl]] by blast
  have audio: "frame_audio area n = frame_part area n ?X @ concat (map (frame_part area n) [?X + 1..<Suc ?Y])"
    unfolding frame_audio_parts [OF n(1)] using X(1) by (simp add: upt_conv_Cons del: upt_Suc)
  have room1: "length (ex_out ex) + length (frame_part area n ?X) \<le> max_length"
    using room ex(3) unfolding audio by simp
  obtain r where r: "process_packets frame DATA_TYPE_AUDIO max_length (lsn + of_nat 0) (ps_frames p) (area ! ?X @ ys) 0 off
      False ex (ps_packets p) = Ok r"
    and tk: "sector_taken area n (lsn + of_nat 0) ?X ex (count_sector p (lsn + of_nat 0) r)"
    using sector_start [OF good n ex(1,2) room1 p(2-4)] by blast
  let ?ex = "count_sector p (lsn + of_nat 0) r" and ?next = "lsn + of_nat (next_sector area n - ?X)"
  have step: "process_sectors frame DATA_TYPE_AUDIO max_length lsn (int sb) (int h) buf 0 m ex =
      process_sectors frame DATA_TYPE_AUDIO max_length lsn (int sb) (int h) buf (Suc 0) m' ?ex"
    unfolding m' using process_round [of ex 0 sb h buf, OF ex(2) _ _ p(1) r] bs le by simp
  have "\<exists>ex'. process_sectors frame DATA_TYPE_AUDIO max_length lsn (int sb) (int h) buf (Suc 0) m' ?ex = Ok ex' \<and>
      ex_out ex' = ex_out ?ex @ concat (map (frame_part area n) [?X + Suc 0..<Suc ?Y]) \<and> ex_next_lsn ex' = ?next"
  proof (rule process_rest [OF good n(1) buf])
    show "if ?X + Suc 0 \<le> ?Y then \<not> ex_complete ?ex \<and> ex_remaining ?ex = int (Suc ?Y - (?X + Suc 0))
        else ex_complete ?ex \<and> ex_next_lsn ?ex = ?next"
    proof (cases "?X < ?Y")
      case False
      then have "?Y = ?X" using X(1) by simp
      then show ?thesis using tk by (simp add: sector_taken_def next_sector_def)
    qed (use tk in \<open>simp add: sector_taken_def\<close>)
    show "?next = lsn + of_nat (if in_sector ?Y (after_frame area n) = [] then Suc ?Y - ?X else ?Y - ?X)"
      by (simp add: next_sector_def)
    show "length (ex_out ?ex) + length (concat (map (frame_part area n) [?X + Suc 0..<Suc ?Y])) \<le> max_length"
      using tk room ex(3) unfolding audio sector_taken_def by (simp del: upt_Suc)
    show "ex_started ?ex" using tk by (simp add: sector_taken_def)
    show "0 < Suc 0" "?X + Suc 0 \<le> Suc ?Y" "Suc ?Y - ?X \<le> Suc 0 + m'" using X m m' by simp_all
  qed
  then show ?thesis
    unfolding step audio using tk ex(3) by (simp add: sector_taken_def del: upt_Suc)
qed

section \<open>A sector in the search\<close>

lemma scan_sector_before:
  assumes good: "area_good area" and n: "n < length (area_frames area)" "unat frame = n"
    and j: "j < frame_first area n"
    and ps: "packets_of infos 0 bs off ps = sector_packets (area ! j)"
  shows "scan_packets frame infos 0 ps = Scan_through"
proof (rule scan_packets_through)
  note X = frame_in_area [OF n(1)]
  have "in_sector j (area_frames area ! n) = []"
    using frame_between(2) [OF n(1)] j by (fastforce intro!: in_sector_none)
  then have cut: "sector_packets (area ! j) = in_sector j (before_frame area n)"
    using sector_cut [OF n(1), of j] nothing_after [OF n(1), of j] X j by simp
  fix q assume "q \<in> set (packets_of infos 0 bs off ps)" "pt_starts q"
  then show "number_of q < unat frame"
    using before_starts [OF good n(1)] n(2) unfolding ps cut by (fastforce simp: in_sector_def)
qed

lemma scan_sector_first:
  assumes good: "area_good area" and n: "n < length (area_frames area)" "unat frame = n"
    and ps: "packets_of infos 0 bs off ps = sector_packets (area ! frame_first area n)"
  shows "scan_packets frame infos 0 ps = Scan_found (int (Suc (frame_last area n - frame_first area n)))"
proof -
  let ?X = "frame_first area n" and ?s = "snd (hd (area_frames area ! n))"
  note X = frame_in_area [OF n(1)]
  have fg: "frame_good n (area_frames area ! n)" using good n(1) by (rule frame_good_nth)
  have s: "pt_starts ?s" "number_of ?s = unat frame" "fi_sector_count (pt_info ?s) = Suc (frame_last area n - ?X)"
    using fg n(2) by (simp_all add: frame_good_def frame_first_def frame_last_def)
  have cut: "packets_of infos 0 bs off ps = in_sector ?X (before_frame area n) @ ?s #
      (in_sector ?X (tl (area_frames area ! n)) @ in_sector ?X (after_frame area n))"
    using sector_cut [OF n(1), of ?X] frame_start_packet [OF good n(1)] X unfolding ps by simp
  have "number_of a < unat frame" if "a \<in> set (in_sector ?X (before_frame area n))" "pt_starts a" for a
    using that before_starts [OF good n(1)] n(2) by (fastforce simp: in_sector_def)
  from scan_packets_found [OF cut this s(1,2)] show ?thesis by (simp add: s(3))
qed

lemma scan_sector_behind:
  assumes good: "area_good area" and n: "n < length (area_frames area)" "unat frame = n"
    and j: "frame_first area n < j" "j < length area"
    and ps: "packets_of infos 0 bs off ps = sector_packets (area ! j)"
  shows "scan_packets frame infos 0 ps \<in> {Scan_through, Scan_passed}"
proof (rule scan_packets_behind)
  have cut: "sector_packets (area ! j) = in_sector j (area_frames area ! n) @ in_sector j (after_frame area n)"
    using sector_cut [OF n(1) j(2)] nothing_before [OF n(1) j(1)] by simp
  fix q assume q: "q \<in> set (packets_of infos 0 bs off ps)" "pt_starts q"
  have "q \<notin> set (in_sector j (area_frames area ! n))"
    using frame_no_start [OF n(1) j(1)] q(2) by blast
  then obtain x where "x \<in> set (after_frame area n)" "q = snd x"
    using q(1) unfolding ps cut by (auto simp: in_sector_def)
  then show "unat frame < number_of q"
    using after_starts [OF good, of x n] q(2) n(2) by simp
qed

end
