(* ===== verification/Sacd_Seek.thy ===== *)
theory Sacd_Seek
  imports Sacd_Dsd Sacd_Reading
begin

text \<open>
  The reader for DST coded audio on a source of sectors without decryption: the search for a frame through the access list, with the
  search of the whole area behind it, and the frames it delivers. A reader keeps, beside its buffer,
  the sector where the frame after the last one begins; that this is right is the invariant of all reads.
\<close>

section \<open>A track area of a source\<close>

text \<open>The data of the sectors from \<open>start\<close>, \<open>n\<close> of them, of \<open>sb\<close> bytes with a header of \<open>h\<close> bytes.\<close>

definition dst_area :: "nat \<Rightarrow> nat \<Rightarrow> nat \<Rightarrow> nat \<Rightarrow> byte list \<Rightarrow> byte list list" where
  "dst_area sb h start n img = map (\<lambda>i. bytes_at ((start + i) * sb + h) 2048 img) [0..<n]"

lemma dst_area_nth: "j < n \<Longrightarrow> dst_area sb h start n img ! j = bytes_at ((start + j) * sb + h) 2048 img"
  and length_dst_area [simp]: "length (dst_area sb h start n img) = n"
  by (simp_all add: dst_area_def)

text \<open>An entry of the access list must not lie before a frame that precedes its own frames; where the
  entries lie beyond that makes the search shorter or longer.\<close>

definition access_list_ok :: "area_toc_frame_info \<Rightarrow> nat \<Rightarrow> byte list list \<Rightarrow> bool" where
  "access_list_ok info start area \<longleftrightarrow> (case ai_frame_start info of None \<Rightarrow> True
     | Some entries \<Rightarrow> unat (ai_num_entries info) \<le> length entries \<and>
         (case ai_access_margin info of None \<Rightarrow> True | Some ms \<Rightarrow> unat (ai_num_entries info) \<le> length ms) \<and>
         list_all (\<lambda>i. list_all (\<lambda>m. m < i * unat (ai_step_size info) \<longrightarrow> start + frame_first area m \<le> unat (entries ! i))
             [0..<length (area_frames area)]) [1..<unat (ai_num_entries info)])"

text \<open>The reader: the layout of the sectors, the buffer, the area.\<close>

definition reader_ready :: "nat \<Rightarrow> nat \<Rightarrow> nat \<Rightarrow> nat \<Rightarrow> sacd_frame_reader_dst \<Rightarrow> bool" where
  "reader_ready sb h start n r \<longleftrightarrow> reads_sectors r sb h \<and> unat (fr_start r) = start \<and>
     unat (fr_end r) + 1 = start + n \<and> (\<exists>buf. dst_buffer r = Some buf \<and> length buf = 16 * sb)"

text \<open>The position kept is that of the frame after the last one.\<close>

definition position_right :: "nat \<Rightarrow> byte list list \<Rightarrow> sacd_frame_reader_dst \<Rightarrow> bool" where
  "position_right start area r \<longleftrightarrow>
     (position_valid r \<and> next_frame_known r \<longrightarrow> unat (cached_frame_num r) < length (area_frames area) \<and>
      (unat (cached_frame_num r) + 1 < length (area_frames area) \<longrightarrow>
       unat (cached_frame_lsn r) = start + frame_first area (unat (cached_frame_num r) + 1)))"

text \<open>The numbers of frames do not wrap around.\<close>

lemma time_bound: "unat (time_to_frame t) < 2000000"
proof -
  have "unat (tm_frames t) \<le> 255" "unat (tm_seconds t) \<le> 255" "unat (tm_minutes t) \<le> 255"
    using unat_bound [of "tm_frames t"] unat_bound [of "tm_seconds t"] unat_bound [of "tm_minutes t"] by simp_all
  then have "unat (tm_seconds t) + unat (tm_minutes t) * 60 \<le> 15555" "unat (tm_frames t) \<le> 255" by linarith+
  then have "unat (tm_frames t) + (unat (tm_seconds t) + unat (tm_minutes t) * 60) * 75 \<le> 255 + 15555 * 75"
    by (intro add_le_mono mult_le_mono1)
  moreover have "255 + 15555 * 75 < (2000000 :: nat)" by simp
  ultimately have "unat (tm_frames t) + (unat (tm_seconds t) + unat (tm_minutes t) * 60) * 75 < 2000000"
    by (rule order_le_less_trans)
  moreover from this have "unat (of_nat (unat (tm_frames t) + (unat (tm_seconds t) + unat (tm_minutes t) * 60) * 75) :: u32) =
      unat (tm_frames t) + (unat (tm_seconds t) + unat (tm_minutes t) * 60) * 75"
    by (intro unat_of_nat_u32) (rule order_less_trans, assumption, simp)
  ultimately show ?thesis unfolding time_to_frame_def by (simp only:)
qed

lemma frame_bound:
  assumes "area_good area" "k < length (area_frames area)"
  shows "k < 2000000"
  using frame_good_nth [OF assms] time_bound [of "fi_time_code (pt_info (snd (hd (area_frames area ! k))))"]
  by (simp add: frame_good_def)

text \<open>What reading and searching change in the reader.\<close>

definition buffered :: "nat \<Rightarrow> sacd_frame_reader_dst \<Rightarrow> sacd_frame_reader_dst \<Rightarrow> bool" where
  "buffered sb r r' \<longleftrightarrow> (\<exists>buf. length buf = 16 * sb \<and> r' = r\<lparr>dst_buffer := Some buf\<rparr>)"

lemma buffered_ready: "buffered sb r r' \<Longrightarrow> reader_ready sb h start n r \<Longrightarrow> reader_ready sb h start n r'"
  by (auto simp: buffered_def reader_ready_def reads_sectors_def)

lemma buffered_trans: "buffered sb r r' \<Longrightarrow> buffered sb r' r'' \<Longrightarrow> buffered sb r r''"
  by (auto simp: buffered_def)

lemma buffered_refl: "reader_ready sb h start n r \<Longrightarrow> buffered sb r r"
  by (force simp: buffered_def reader_ready_def)

section \<open>The range of the access list\<close>

lemma unat_ucast_byte: "unat (ucast (a :: byte) :: u32) = unat a"
  and unat_ucast_u16: "unat (ucast (b :: u16) :: u32) = unat b"
  using unat_bound [of a] unat_bound [of b] by (simp_all add: unsigned_ucast_eq take_bit_nat_eq_self)

lemma unat_suc_u32: "unat (w :: u32) < 4294967295 \<Longrightarrow> unat (w + 1) = unat w + 1"
  by (simp add: unat_word_ariths)

lemma in_last_interval: "(0 :: nat) < step \<Longrightarrow> m < (m div step + 1) * step"
  using dividend_less_div_times [of step m] by simp

lemma access_range:
  assumes ok: "access_list_ok info start area" and n: "unat frame < length (area_frames area)"
    and s: "unat s = start" and e: "start + frame_first area (unat frame) \<le> unat e"
  shows "\<exists>from to. sacd_area_toc_get_access_list_range info t frame s e st = (Ok (from, to), st) \<and>
    s \<le> from \<and> to \<le> e \<and> (from = s \<longrightarrow> start + frame_first area (unat frame) \<le> unat to)"
proof (cases "ai_frame_start info = None \<or> ai_step_size info = 0 \<or> ai_num_entries info = 0")
  case True
  then show ?thesis
    using s e by (auto simp: sacd_area_toc_get_access_list_range_def ret_def word_le_nat_alt split: option.splits)
next
  case False
  then obtain entries where en: "ai_frame_start info = Some entries" and nz: "ai_step_size info \<noteq> 0" "ai_num_entries info \<noteq> 0"
    by auto
  let ?step = "ucast (ai_step_size info) :: u32" and ?num = "ucast (ai_num_entries info) :: u32"
  define idx where "idx = (if ?num \<le> frame div ?step then ?num - 1 else frame div ?step)"
  have step: "unat ?step = unat (ai_step_size info)" "0 < unat (ai_step_size info)"
    using nz(1) by (simp_all add: unat_ucast_byte unat_gt_0)
  have num: "unat ?num = unat (ai_num_entries info)" "0 < unat (ai_num_entries info)"
    using nz(2) by (simp_all add: unat_ucast_u16 unat_gt_0)
  have pred: "unat (?num - 1) = unat (ai_num_entries info) - 1"
    using num unat_sub [of 1 ?num] by (simp add: word_le_nat_alt Suc_le_eq)
  have idx: "unat idx < unat (ai_num_entries info)"
    using num pred by (cases "?num \<le> frame div ?step") (simp_all add: idx_def word_le_nat_alt)
  have bound: "unat (ai_num_entries info) < 65536" using unat_bound [of "ai_num_entries info"] by simp
  have suc: "unat (idx + 1) = unat idx + 1"
    using idx bound by (intro unat_suc_u32) linarith
  have len: "unat (ai_num_entries info) \<le> length entries"
    "ai_access_margin info = Some ms \<Longrightarrow> unat (ai_num_entries info) \<le> length ms" for ms
    using ok by (auto simp: access_list_ok_def en split: option.splits)
  have no_fault: "(length entries \<le> unat idx) = False" "(\<exists>ms. ai_access_margin info = Some ms \<and> length ms \<le> unat idx) = False"
    using idx len by (auto simp: not_le intro: order_less_le_trans)
  have clamp: "\<exists>from to. (Ok (if f0 < s then s else f0, if e < t0 then e else t0), st) = (Ok (from, to), st) \<and>
      s \<le> from \<and> to \<le> e \<and> (from = s \<longrightarrow> start + frame_first area (unat frame) \<le> unat to)"
    if "start + frame_first area (unat frame) \<le> unat t0" for f0 t0
    using that e by (auto simp: not_less)
  show ?thesis
  proof (cases "idx + 1 < ?num")
    case True
    then have lt: "unat idx + 1 < unat (ai_num_entries info)" using suc num by (simp add: word_less_nat_alt)
    then have "idx = frame div ?step" using pred num by (auto simp: idx_def split: if_splits)
    then have i: "unat idx = unat frame div unat (ai_step_size info)"
      by (simp only: unat_div_distrib step)
    have "\<not> length entries \<le> unat (idx + 1)" using lt suc len(1) by simp
    have "unat frame < (unat idx + 1) * unat (ai_step_size info)"
      unfolding i using step(2) by (rule in_last_interval)
    then have "start + frame_first area (unat frame) \<le> unat (entries ! (unat idx + 1))"
      using ok n lt by (auto simp: access_list_ok_def en list_all_iff split: option.splits)
    moreover have "\<exists>f0. sacd_area_toc_get_access_list_range info t frame s e st =
        (Ok (if f0 < s then s else f0, if e < entries ! (unat idx + 1) then e else entries ! (unat idx + 1)), st)"
      using en nz True \<open>\<not> length entries \<le> unat (idx + 1)\<close> suc
      unfolding sacd_area_toc_get_access_list_range_def Let_def idx_def [symmetric]
      by (simp add: ret_def no_fault split del: if_split) (simp only: Suc_eq_plus1, blast)
    ultimately show ?thesis using clamp by metis
  next
    case False
    have "\<exists>f0. sacd_area_toc_get_access_list_range info t frame s e st =
        (Ok (if f0 < s then s else f0, if e < e then e else e), st)"
      using en nz False
      unfolding sacd_area_toc_get_access_list_range_def Let_def idx_def [symmetric]
      by (cases "0 < t - idx * ucast (ai_step_size info)") (simp_all add: ret_def no_fault split del: if_split, blast+)
    then show ?thesis using clamp [OF e] by metis
  qed
qed

section \<open>A client\<close>

text \<open>Several frames, one after the other; what each call returns.\<close>

fun read_frames ::
  "area_toc_frame_info \<Rightarrow> u32 \<Rightarrow> nat \<Rightarrow> u32 list \<Rightarrow> ('d dst_state, int, (int \<times> byte list) list) lop" where
  "read_frames info total_play_time max_length [] = lift (ret [])"
| "read_frames info total_play_time max_length (frame # frames) =
     lseq (dst_reader_read_frame info total_play_time max_length frame DATA_TYPE_AUDIO) (\<lambda>x.
     lseq (read_frames info total_play_time max_length frames) (\<lambda>xs. lift (ret (x # xs))))"

section \<open>The sectors of the area in the buffer\<close>

context plain_input begin

definition area_there :: "'a \<Rightarrow> nat \<Rightarrow> nat \<Rightarrow> nat \<Rightarrow> byte list list \<Rightarrow> bool" where
  "area_there d h start n area \<longleftrightarrow> usable d \<and> (start + n) * sector_bytes d \<le> length (contents d) \<and>
     start + n + 16 \<le> 4294967295 \<and> area = dst_area (sector_bytes d) h start n (contents d) \<and> area_good area"

lemma area_thereD:
  assumes "area_there d h start n area"
  shows "usable d" "(start + n) * sector_bytes d \<le> length (contents d)" "start + n + 16 \<le> 4294967295"
    "area = dst_area (sector_bytes d) h start n (contents d)" "area_good area" "length area = n"
proof -
  have a: "usable d \<and> (start + n) * sector_bytes d \<le> length (contents d) \<and> start + n + 16 \<le> 4294967295 \<and>
      area = dst_area (sector_bytes d) h start n (contents d) \<and> area_good area"
    using assms unfolding area_there_def .
  then show "usable d" "(start + n) * sector_bytes d \<le> length (contents d)" "start + n + 16 \<le> 4294967295"
    "area = dst_area (sector_bytes d) h start n (contents d)" "area_good area" by blast+
  from this(4) show "length area = n" by (simp only: length_dst_area)
qed

lemma area_stays: "area_there d h start n area \<Longrightarrow> same d d' \<Longrightarrow> area_there d' h start n area"
  unfolding area_there_def same_def by (elim conjE) (simp only: simp_thms)

text \<open>Reading \<open>k\<close> sectors from number \<open>j\<close> of the area on, of which \<open>m\<close> at least are in the area.\<close>

lemma fill_from_area:
  assumes area: "area_there d h start n area" and r: "reader_ready (sector_bytes d) h start n r"
    and lsn: "unat lsn = start + j" and k: "0 < m" "m \<le> unat k" "unat k \<le> 16" "j + m \<le> n"
  shows "\<exists>r' d' got buf. buffered (sector_bytes d) r r' \<and> same d d' \<and> dst_buffer r' = Some buf \<and>
    m \<le> unat got \<and> got \<le> k \<and> buffer_holds (sector_bytes d) h area j (j + m - 1) buf \<and>
    fill_buffer lsn k (r, attached d) = (Ok (SACD_INPUT_OK, got), (r', attached d'))"
proof -
  let ?sb = "sector_bytes d" and ?img = "contents d"
  let ?bs = "bytes_at (unat lsn * ?sb) (unat k * ?sb) ?img"
  have d: "usable d" "(start + n) * ?sb \<le> length ?img" "area = dst_area ?sb h start n ?img"
    using area_thereD [OF area] by blast+
  have sb: "0 < ?sb" using d(1) by (rule sector_bytes_pos)
  have h: "h + 2048 \<le> ?sb" using r by (simp add: reader_ready_def reads_sectors_def)
  obtain buf where buf: "dst_buffer r = Some buf" "length buf = 16 * ?sb"
    using r by (auto simp: reader_ready_def)
  have there: "(unat lsn + m) * ?sb \<le> length ?img"
  proof -
    have "(unat lsn + m) * ?sb \<le> (start + n) * ?sb" using k(4) lsn by (intro mult_le_mono1) simp
    then show ?thesis using d(2) by (rule le_trans)
  qed
  have lt: "unat lsn * ?sb < length ?img"
    using there sb k(1) by (simp add: add_mult_distrib) (metis add_gr_0 less_le_trans less_add_same_cancel1 mult_pos_pos)
  have len: "m * ?sb \<le> length ?bs" "length ?bs \<le> unat k * ?sb"
    using there mult_le_mono1 [OF k(2), of ?sb] by (auto simp: bytes_at_def add_mult_distrib)
  have "0 < unat k" using k by simp
  then have "0 < k" by (simp add: unat_gt_0 word_neq_0_conv)
  obtain res d' where rd: "rd lsn k d = (res, d')" by fastforce
  have res: "res = (SACD_INPUT_OK, of_nat (length ?bs div ?sb), ?bs)"
    using rd_inside [OF d(1) \<open>0 < k\<close> lt] rd by (simp add: Let_def)
  have same: "same d d'" using rd_keeps [OF d(1) rd] by (simp add: same_def)
  let ?got = "of_nat (length ?bs div ?sb) :: u32" and ?buf = "?bs @ drop (length ?bs) buf"
  have q: "m \<le> length ?bs div ?sb" "length ?bs div ?sb \<le> unat k"
    using len(1) div_le_mono [OF len(2), of ?sb] sb by (simp_all add: less_eq_div_iff_mult_less_eq)
  have got: "unat ?got = length ?bs div ?sb" using q k(3) by (intro unat_of_nat_u32) simp
  have fits: "length ?bs \<le> length buf" using len(2) mult_le_mono1 [OF k(3), of ?sb] buf(2) by linarith
  have holds: "buffer_holds ?sb h area j (j + m - 1) ?buf"
  proof (unfold buffer_holds_def, intro allI impI)
    fix i assume i: "j \<le> i" "i \<le> j + m - 1"
    let ?o = "(i - j) * ?sb + h"
    have "Suc (i - j) \<le> m" using i k(1) by simp
    then have "Suc (i - j) * ?sb \<le> m * ?sb" by (rule mult_le_mono1)
    then have o: "?o + 2048 \<le> m * ?sb" using h by simp
    then have inside: "?o + 2048 \<le> length ?bs" using len(1) by simp
    have "bytes_at ?o 2048 ?buf = bytes_at ?o 2048 ?bs" using inside by (rule bytes_at_append_left)
    also have "\<dots> = bytes_at (unat lsn * ?sb + ?o) 2048 ?img"
      using o mult_le_mono1 [OF k(2), of ?sb] by (intro bytes_at_nested) linarith
    also have "unat lsn * ?sb + ?o = (start + i) * ?sb + h"
      unfolding lsn using i by (simp only: add.assoc [symmetric] add_mult_distrib [symmetric]) simp
    also have "bytes_at ((start + i) * ?sb + h) 2048 ?img = area ! i"
      unfolding d(3) using i k(1,4) by (intro dst_area_nth [symmetric]) simp
    finally show "?o + 2048 \<le> length ?buf \<and> bytes_at ?o 2048 ?buf = area ! i"
      using inside by simp
  qed
  have "fill_buffer lsn k (r, attached d) = (Ok (SACD_INPUT_OK, ?got), (r\<lparr>dst_buffer := Some ?buf\<rparr>, attached d'))"
    using rd res buf fits
    by (simp add: fill_buffer_def sacd_input_read_sectors_def on_input_def attached_def has_read)
  moreover have "buffered ?sb r (r\<lparr>dst_buffer := Some ?buf\<rparr>)"
    unfolding buffered_def using fits buf(2) by (intro exI [of _ ?buf]) simp
  ultimately show ?thesis
    using same holds got q word_le_nat_alt [of ?got k] by fastforce
qed

section \<open>The search\<close>

lemma find_round_eq:
  assumes area: "area_there d h start n area" and r: "reader_ready (sector_bytes d) h start n r"
    and lsn: "unat lsn = start + j" "j < n"
  shows "\<exists>r' d' infos bs off ps. buffered (sector_bytes d) r r' \<and> same d d' \<and>
    packets_of infos 0 bs off ps = sector_packets (area ! j) \<and>
    find_round frame lsn (r, attached d) = (case scan_packets frame infos 0 ps of
        Scan_found c \<Rightarrow> Ok (Some c) | Scan_passed \<Rightarrow> Err SACD_DST_READER_ACCESS_LIST_INVALID
      | Scan_through \<Rightarrow> Ok None, (r', attached d'))"
proof -
  let ?sb = "sector_bytes d"
  obtain r' d' got buf where f: "buffered ?sb r r'" "same d d'" "dst_buffer r' = Some buf" "1 \<le> unat got" "got \<le> 1"
    "buffer_holds ?sb h area j (j + 1 - 1) buf"
    "fill_buffer lsn 1 (r, attached d) = (Ok (SACD_INPUT_OK, got), (r', attached d'))"
    using fill_from_area [OF area r lsn(1), of 1 1] lsn(2) by auto
  have got: "got = 1" using f(4,5) by (intro word_unat_eq_iff [THEN iffD2]) (simp add: word_le_nat_alt)
  have hdr: "fr_header_size r' = int h"
    using buffered_ready [OF f(1) r] by (simp add: reader_ready_def reads_sectors_def)
  obtain ys where bs: "drop h buf = area ! j @ ys" and le: "h \<le> length buf"
    using buffer_sector [OF f(6), of j] by auto
  have len: "length area = n" "area_good area" using area_thereD [OF area] by blast+
  obtain p off where p: "parse_audio_sector_header (area ! j @ ys) = Ok (p, off)"
    "packets_of (ps_frames p) 0 (area ! j @ ys) off (ps_packets p) = sector_packets (area ! j)"
    using sector_in_front [OF good_sector [OF len(2)], of j ys] len(1) lsn(2) by auto
  have "find_round frame lsn (r, attached d) = (case scan_packets frame (ps_frames p) 0 (ps_packets p) of
        Scan_found c \<Rightarrow> Ok (Some c) | Scan_passed \<Rightarrow> Err SACD_DST_READER_ACCESS_LIST_INVALID
      | Scan_through \<Rightarrow> Ok None, (r', attached d'))"
    using f(3,7) p(1) bs le
    by (simp add: find_round_def parse_at_def buffer_from_def attached_decrypts got hdr op_simps seq_Ok
        split: scan_result.splits)
  then show ?thesis using f(1,2) p(2) by blast
qed

text \<open>The loop finds the frame when its first sector lies ahead in the range, and fails otherwise.\<close>

definition search_result :: "nat \<Rightarrow> byte list list \<Rightarrow> nat \<Rightarrow> nat \<Rightarrow> nat \<Rightarrow> (int, u32 \<times> int) outcome \<Rightarrow> bool" where
  "search_result start area k j to res \<longleftrightarrow>
     (if j \<le> frame_first area k \<and> start + frame_first area k \<le> to
      then \<exists>p. unat p = start + frame_first area k \<and> res = Ok (p, int (Suc (frame_last area k - frame_first area k)))
      else res \<in> {Err SACD_DST_READER_FRAME_NOT_FOUND, Err SACD_DST_READER_ACCESS_LIST_INVALID})"

lemma find_loop:
  assumes "area_there d h start n area" "reader_ready (sector_bytes d) h start n r"
    and k: "k < length (area_frames area)" "unat frame = k"
    and "unat lsn = start + j" and to: "unat to < start + n"
  shows "\<exists>r' d' lsn' res. buffered (sector_bytes d) r r' \<and> same d d' \<and> search_result start area k j (unat to) res \<and>
    repeat_lop (find_body frame to) (lsn, (r, attached d)) = Some (res, (lsn', (r', attached d')))"
  using assms(1,2,5)
proof (induction "Suc (unat to) - (start + j)" arbitrary: j lsn r d rule: less_induct)
  case less
  let ?X = "frame_first area k" and ?sb = "sector_bytes d"
  note A = area_thereD [OF less.prems(1)]
  show ?case
  proof (cases "lsn \<le> to")
    case False
    then have "find_body frame to (lsn, (r, attached d)) = Some (Err SACD_DST_READER_FRAME_NOT_FOUND, (lsn, (r, attached d)))"
      by (simp add: find_body_def)
    from repeat_error [of "find_body frame to", OF this] have "repeat_lop (find_body frame to) (lsn, (r, attached d)) =
        Some (Err SACD_DST_READER_FRAME_NOT_FOUND, (lsn, (r, attached d)))" .
    moreover have "search_result start area k j (unat to) (Err SACD_DST_READER_FRAME_NOT_FOUND)"
      using False less.prems(3) by (simp add: search_result_def word_le_nat_alt)
    ultimately show ?thesis
      using buffered_refl [OF less.prems(2)] same_refl [OF A(1)] by blast
  next
    case True
    then have le: "start + j \<le> unat to" using less.prems(3) by (simp add: word_le_nat_alt)
    then have j: "j < n" using to by simp
    obtain r1 d1 infos bs off ps where round: "buffered ?sb r r1" "same d d1"
      "packets_of infos 0 bs off ps = sector_packets (area ! j)"
      "find_round frame lsn (r, attached d) = (case scan_packets frame infos 0 ps of
        Scan_found c \<Rightarrow> Ok (Some c) | Scan_passed \<Rightarrow> Err SACD_DST_READER_ACCESS_LIST_INVALID
      | Scan_through \<Rightarrow> Ok None, (r1, attached d1))"
      using find_round_eq [OF less.prems(1,2,3) j] by blast
    have go_on: ?thesis if through: "scan_packets frame infos 0 ps = Scan_through" and ne: "j \<noteq> ?X"
    proof -
      have "find_body frame to (lsn, (r, attached d)) = Some (Ok None, (lsn + 1, (r1, attached d1)))"
        using True round(4) through by (simp add: find_body_def)
      note next_round = repeat_continue [of "find_body frame to", OF this]
      have sb: "sector_bytes d1 = ?sb" using round(2) by (simp add: same_def)
      have lsn: "unat (lsn + 1) = start + (j + 1)"
        using unat_suc_u32 [of lsn] less.prems(3) j A(3) by simp
      have "Suc (unat to) - (start + (j + 1)) < Suc (unat to) - (start + j)" using le by simp
      from less.hyps [OF this area_stays [OF less.prems(1) round(2)] _ lsn, of r1] obtain r' d' lsn' res where
        "buffered ?sb r1 r'" "same d1 d'" "search_result start area k (j + 1) (unat to) res"
        "repeat_lop (find_body frame to) (lsn + 1, (r1, attached d1)) = Some (res, (lsn', (r', attached d')))"
        using buffered_ready [OF round(1) less.prems(2)] by (auto simp: sb)
      moreover have "search_result start area k (j + 1) (unat to) res \<Longrightarrow> search_result start area k j (unat to) res"
        using ne by (auto simp: search_result_def)
      ultimately show ?thesis
        using buffered_trans [OF round(1)] same_trans [OF round(2)] next_round by auto
    qed
    consider "j < ?X" | "j = ?X" | "?X < j" by linarith
    then show ?thesis
    proof cases
      case 1
      then show ?thesis using scan_sector_before [OF A(5) k 1 round(3)] by (intro go_on) simp_all
    next
      case 2
      let ?c = "int (Suc (frame_last area k - ?X))"
      have "find_body frame to (lsn, (r, attached d)) = Some (Ok (Some (lsn, ?c)), (lsn, (r1, attached d1)))"
        using True round(4) scan_sector_first [OF A(5) k round(3) [unfolded 2]] by (simp add: find_body_def)
      from repeat_leave [of "find_body frame to", OF this] have "repeat_lop (find_body frame to) (lsn, (r, attached d)) =
          Some (Ok (lsn, ?c), (lsn, (r1, attached d1)))" .
      moreover have "search_result start area k j (unat to) (Ok (lsn, ?c))"
        using 2 le less.prems(3) by (simp add: search_result_def)
      ultimately show ?thesis using round(1,2) by blast
    next
      case 3
      from scan_sector_behind [OF A(5) k 3 _ round(3)] j A(6)
      consider "scan_packets frame infos 0 ps = Scan_through" | "scan_packets frame infos 0 ps = Scan_passed" by auto
      then show ?thesis
      proof cases
        case 1
        then show ?thesis using 3 by (intro go_on) simp_all
      next
        case 2
        then have "find_body frame to (lsn, (r, attached d)) =
            Some (Err SACD_DST_READER_ACCESS_LIST_INVALID, (lsn, (r1, attached d1)))"
          using True round(4) by (simp add: find_body_def)
        from repeat_error [of "find_body frame to", OF this] have "repeat_lop (find_body frame to) (lsn, (r, attached d)) =
            Some (Err SACD_DST_READER_ACCESS_LIST_INVALID, (lsn, (r1, attached d1)))" .
        moreover have "search_result start area k j (unat to) (Err SACD_DST_READER_ACCESS_LIST_INVALID)"
          using 3 by (simp add: search_result_def)
        ultimately show ?thesis using round(1,2) by blast
      qed
    qed
  qed
qed

lemma find_frame:
  assumes area: "area_there d h start n area" and r: "reader_ready (sector_bytes d) h start n r"
    and k: "k < length (area_frames area)" "unat frame = k"
    and lsn: "unat lo = start + j" and hi: "unat hi < start + n"
  shows "\<exists>r' d' c p m. buffered (sector_bytes d) r r' \<and> same d d' \<and>
    find_dst_frame lo hi frame (r, attached d) = Some (Ok (c, p, m), (r', attached d')) \<and>
    (if j \<le> frame_first area k \<and> start + frame_first area k \<le> unat hi
     then c = SACD_DST_READER_OK \<and> unat p = start + frame_first area k \<and> m = int (Suc (frame_last area k - frame_first area k))
     else c = SACD_DST_READER_FRAME_NOT_FOUND \<or> c = SACD_DST_READER_ACCESS_LIST_INVALID)"
proof -
  obtain r' d' lsn' res where l: "buffered (sector_bytes d) r r'" "same d d'" "search_result start area k j (unat hi) res"
    "repeat_lop (find_body frame hi) (lo, (r, attached d)) = Some (res, (lsn', (r', attached d')))"
    using find_loop [OF area r k lsn hi] by blast
  have "dst_buffer r \<noteq> None" "attached d \<noteq> None"
    using r by (auto simp: reader_ready_def attached_def)
  then have "find_dst_frame lo hi frame (r, attached d) =
      Some (case res of Ok (lsn, n) \<Rightarrow> Ok (SACD_DST_READER_OK, lsn, n) | Err e \<Rightarrow> Ok (e, 0, 1) | Fault \<Rightarrow> Fault, (r', attached d'))"
    by (simp add: find_dst_frame_def l(4) del: not_None_eq)
  moreover have "\<exists>c p m. (case res of Ok (lsn, n) \<Rightarrow> Ok (SACD_DST_READER_OK, lsn, n) | Err e \<Rightarrow> Ok (e, 0, 1) | Fault \<Rightarrow> Fault) =
      (Ok (c, p, m) :: (int, int \<times> u32 \<times> int) outcome) \<and>
    (if j \<le> frame_first area k \<and> start + frame_first area k \<le> unat hi
     then c = SACD_DST_READER_OK \<and> unat p = start + frame_first area k \<and> m = int (Suc (frame_last area k - frame_first area k))
     else c = SACD_DST_READER_FRAME_NOT_FOUND \<or> c = SACD_DST_READER_ACCESS_LIST_INVALID)"
    using l(3) by (auto simp: search_result_def split: if_splits)
  ultimately show ?thesis using l(1,2) by metis
qed

text \<open>Through the access list, or else in the whole area.\<close>

lemma seek_frame:
  assumes area: "area_there d h start n area" and r: "reader_ready (sector_bytes d) h start n r"
    and k: "k < length (area_frames area)" "unat frame = k" and list: "access_list_ok info start area"
  shows "\<exists>r' d' p. buffered (sector_bytes d) r r' \<and> same d d' \<and> unat p = start + frame_first area k \<and>
    dst_sector_seek info t frame (r, attached d) =
      Some (Ok (SACD_DST_READER_OK, p, int (Suc (frame_last area k - frame_first area k))), (r', attached d'))"
proof -
  let ?X = "frame_first area k" and ?sb = "sector_bytes d"
  note A = area_thereD [OF area]
  have s: "unat (fr_start r) = start" and e: "unat (fr_end r) + 1 = start + n"
    using r by (simp_all add: reader_ready_def)
  have X: "?X < n" using frame_in_area [OF k(1)] A(6) by simp
  then have inside: "start + frame_first area (unat frame) \<le> unat (fr_end r)" using e k(2) by simp
  have kf: "unat frame < length (area_frames area)" using k by simp
  obtain lo hi where range: "sacd_area_toc_get_access_list_range info t frame (fr_start r) (fr_end r) (r, attached d) =
      (Ok (lo, hi), (r, attached d))" "fr_start r \<le> lo" "hi \<le> fr_end r" "lo = fr_start r \<longrightarrow> start + ?X \<le> unat hi"
    using access_range [OF list kf s inside] unfolding k(2) by metis
  have hi: "unat hi < start + n" using range(3) e by (simp add: word_le_nat_alt)
  have lo: "unat lo = start + (unat lo - start)" using range(2) s by (simp add: word_le_nat_alt)
  obtain r1 d1 c p m where f: "buffered ?sb r r1" "same d d1"
    "find_dst_frame lo hi frame (r, attached d) = Some (Ok (c, p, m), (r1, attached d1))"
    "if unat lo - start \<le> ?X \<and> start + ?X \<le> unat hi
     then c = SACD_DST_READER_OK \<and> unat p = start + ?X \<and> m = int (Suc (frame_last area k - ?X))
     else c = SACD_DST_READER_FRAME_NOT_FOUND \<or> c = SACD_DST_READER_ACCESS_LIST_INVALID"
    using find_frame [OF area r k lo hi] by blast
  show ?thesis
  proof (cases "unat lo - start \<le> ?X \<and> start + ?X \<le> unat hi")
    case True
    then have "dst_sector_seek info t frame (r, attached d) = Some (Ok (c, p, m), (r1, attached d1))"
      using f(3,4) range(1) by (simp add: dst_sector_seek_def lseq_Ok [of "find_dst_frame lo hi frame", OF f(3)])
    then show ?thesis using f True by auto
  next
    case False
    then have "lo \<noteq> fr_start r" using range(4) s by auto
    have sb: "sector_bytes d1 = ?sb" using f(2) by (simp add: same_def)
    have r1: "reader_ready (sector_bytes d1) h start n r1" using buffered_ready [OF f(1) r] by (simp only: sb)
    obtain r2 d2 c2 p2 m2 where g: "buffered ?sb r1 r2" "same d1 d2"
      "find_dst_frame (fr_start r) (fr_end r) frame (r1, attached d1) = Some (Ok (c2, p2, m2), (r2, attached d2))"
      "c2 = SACD_DST_READER_OK" "unat p2 = start + ?X" "m2 = int (Suc (frame_last area k - ?X))"
      using find_frame [OF area_stays [OF area f(2)] r1 k, of "fr_start r" 0 "fr_end r"] s e inside k(2) by (auto simp: sb)
    have "dst_sector_seek info t frame (r, attached d) = Some (Ok (c2, p2, m2), (r2, attached d2))"
      using f(4) False range(1) \<open>lo \<noteq> fr_start r\<close> g(3) by (auto simp: dst_sector_seek_def lseq_Ok [of "find_dst_frame lo hi frame", OF f(3)])
    then show ?thesis
      using g buffered_trans [OF f(1) g(1)] same_trans [OF f(2) g(2)] by blast
  qed
qed

section \<open>Reading frames\<close>

lemma unat_add_u32: "unat (w :: u32) + q \<le> 4294967295 \<Longrightarrow> unat (w + of_nat q) = unat w + q"
  using unat_of_nat_u32 [of q] by (simp add: unat_word_ariths)

lemma position_stored:
  assumes area: "area_there d h start n area" and k: "k < length (area_frames area)" "unat frame = k"
    and p: "unat p = start + frame_first area k"
  shows "position_right start area
    (store_position frame p (p + of_nat (next_sector area k - frame_first area k)) r)"
proof (unfold position_right_def, intro impI conjI, goal_cases)
  case 1
  then show ?case using k by (simp add: store_position_def Let_def)
next
  case 2
  let ?q = "next_sector area k - frame_first area k"
  let ?r = "store_position frame p (p + of_nat ?q) r"
  have known: "next_frame_known ?r" and more: "unat (cached_frame_num ?r) + 1 < length (area_frames area)"
    using 2 by simp_all
  note A = area_thereD [OF area]
  have k1: "Suc k < length (area_frames area)" using more k(2) by (simp add: store_position_def Let_def)
  have le: "frame_first area k \<le> next_sector area k" "next_sector area k \<le> n"
    using frame_in_area [OF k(1)] A(6) by (auto simp: next_sector_def)
  have "unat (p + of_nat ?q) = unat p + ?q" using le A(3) p by (intro unat_add_u32) simp
  then have "unat (p + of_nat ?q) = start + frame_first area (Suc k)"
    using le(1) p next_sector_ok [OF A(5) k1] by simp
  then show "unat (cached_frame_lsn ?r) = start + frame_first area (unat (cached_frame_num ?r) + 1)"
    using known k(2) by (simp add: store_position_def Let_def)
qed

lemma read_found_frame:
  assumes area: "area_there d h start n area" and r: "reader_ready (sector_bytes d) h start n r"
    and k: "k < length (area_frames area)" "unat frame = k" and p: "unat p = start + frame_first area k"
    and c: "0 < c" "c \<le> 16" "Suc (frame_last area k) - frame_first area k \<le> nat c"
    and room: "length (frame_audio area k) \<le> max_length"
  shows "\<exists>r' d'. same d d' \<and> reader_ready (sector_bytes d) h start n r' \<and> position_right start area r' \<and>
    read_found max_length frame DATA_TYPE_AUDIO p c (r, attached d) =
      (Ok (SACD_DST_READER_OK, frame_audio area k), (r', attached d'))"
proof -
  let ?X = "frame_first area k" and ?Y = "frame_last area k" and ?sb = "sector_bytes d"
  let ?next = "p + of_nat (next_sector area k - ?X)"
  note A = area_thereD [OF area] and XY = frame_in_area [OF k(1)]
  have c16: "nat c \<le> 16" using c(2) by simp
  have uc: "unat (of_int c :: u32) = nat c" using c(1,2) unat_of_nat_u32 [of "nat c"] by simp
  obtain r1 d1 got buf where f: "buffered ?sb r r1" "same d d1" "dst_buffer r1 = Some buf"
    "Suc ?Y - ?X \<le> unat got" "buffer_holds ?sb h area ?X (?X + (Suc ?Y - ?X) - 1) buf"
    "fill_buffer p (of_int c) (r, attached d) = (Ok (SACD_INPUT_OK, got), (r1, attached d1))"
    using fill_from_area [OF area r p, of "Suc ?Y - ?X" "of_int c"] XY A(6) c c16 by (auto simp: uc)
  have last: "?X + (Suc ?Y - ?X) - 1 = ?Y" using XY(1) by simp
  have r1: "reader_ready ?sb h start n r1" using buffered_ready [OF f(1) r] .
  then have ss: "fr_sector_size r1 = int ?sb" "fr_header_size r1 = int h"
    by (simp_all add: reader_ready_def reads_sectors_def)
  let ?ex = "\<lparr>ex_started = False, ex_complete = False, ex_remaining = c, ex_out = [], ex_next_lsn = 0\<rparr>"
  obtain ex where ex: "process_sectors frame DATA_TYPE_AUDIO max_length p (int ?sb) (int h) buf 0 (unat got) ?ex = Ok ex"
    "ex_out ex = frame_audio area k" "ex_next_lsn ex = ?next"
    using process_frame [OF A(5) k f(5) [unfolded last] f(4) room, of ?ex p] by auto
  have count: "(if c \<le> 0 \<or> int MAX_DST_SECTORS < c then int MAX_DST_SECTORS else c) = c" using c(1,2) by simp
  have "read_found max_length frame DATA_TYPE_AUDIO p c (r, attached d) =
      (Ok (SACD_DST_READER_OK, frame_audio area k), (store_position frame p ?next r1, attached d1))"
    using f(3,6) ex ss unfolding read_found_def Let_def count
    by (simp add: attached_decrypts buffer_from_def)
  moreover have "reader_ready ?sb h start n (store_position frame p ?next r1)"
    using r1 by (simp add: reader_ready_def reads_sectors_def store_position_def Let_def)
  ultimately show ?thesis using f(2) position_stored [OF area k p] by blast
qed

lemma read_frame_ok:
  assumes area: "area_there d h start n area" and r: "reader_ready (sector_bytes d) h start n r" "position_right start area r"
    and k: "k < length (area_frames area)" "unat frame = k" and list: "access_list_ok info start area"
    and room: "length (frame_audio area k) \<le> max_length"
  shows "\<exists>r' d'. same d d' \<and> reader_ready (sector_bytes d) h start n r' \<and> position_right start area r' \<and>
    dst_reader_read_frame info t max_length frame DATA_TYPE_AUDIO (r, attached d) =
      Some (Ok (SACD_DST_READER_OK, frame_audio area k), (r', attached d'))"
proof -
  let ?X = "frame_first area k" and ?Y = "frame_last area k" and ?sb = "sector_bytes d"
  note A = area_thereD [OF area] and XY = frame_in_area [OF k(1)]
  have buf: "dst_buffer r \<noteq> None" using r(1) by (auto simp: reader_ready_def)
  have fg: "frame_good k (area_frames area ! k)" using A(5) k(1) by (rule frame_good_nth)
  have span: "?Y - ?X < 16" using fg by (simp add: frame_good_def frame_first_def frame_last_def)
  show ?thesis
  proof (cases "position_valid r \<and> next_frame_known r \<and> frame = cached_frame_num r + 1")
    case True
    then have "unat (cached_frame_num r) < 2000000"
      using frame_bound [OF A(5)] r(2) by (simp add: position_right_def)
    then have "unat frame = unat (cached_frame_num r) + 1"
      using True unat_suc_u32 [of "cached_frame_num r"] by simp
    then have p: "unat (cached_frame_lsn r) = start + ?X"
      using r(2) True k by (simp add: position_right_def)
    have c: "0 < int MAX_DST_SECTORS" "int MAX_DST_SECTORS \<le> 16" "Suc ?Y - ?X \<le> nat (int MAX_DST_SECTORS)" using span by simp_all
    show ?thesis
      using read_found_frame [OF area r(1) k p c room] buf True by (auto simp: dst_reader_read_frame_def)
  next
    case False
    obtain r1 d1 p where s: "buffered ?sb r r1" "same d d1" "unat p = start + ?X"
      "dst_sector_seek info t frame (r, attached d) = Some (Ok (SACD_DST_READER_OK, p, int (Suc (?Y - ?X))), (r1, attached d1))"
      using seek_frame [OF area r(1) k list] by blast
    have sb: "sector_bytes d1 = ?sb" using s(2) by (simp add: same_def)
    have r1: "reader_ready (sector_bytes d1) h start n r1" using buffered_ready [OF s(1) r(1)] by (simp only: sb)
    have c: "0 < int (Suc (?Y - ?X))" "int (Suc (?Y - ?X)) \<le> 16" "Suc ?Y - ?X \<le> nat (int (Suc (?Y - ?X)))" using span by simp_all
    obtain r2 d2 where f: "same d1 d2" "reader_ready ?sb h start n r2" "position_right start area r2"
      "read_found max_length frame DATA_TYPE_AUDIO p (int (Suc (?Y - ?X))) (r1, attached d1) =
        (Ok (SACD_DST_READER_OK, frame_audio area k), (r2, attached d2))"
      using read_found_frame [OF area_stays [OF area s(2)] r1 k s(3) c room] unfolding sb by blast
    have "dst_reader_read_frame info t max_length frame DATA_TYPE_AUDIO (r, attached d) =
        Some (Ok (SACD_DST_READER_OK, frame_audio area k), (r2, attached d2))"
      by (simp only: dst_reader_read_frame_def lseq_lift get_apply prod.case outcome.case buf False if_False
          lseq_Ok [of "dst_sector_seek info t frame", OF s(4)] lift_apply simp_thms f(4))
    then show ?thesis using f(2,3) same_trans [OF s(2) f(1)] by blast
  qed
qed

lemma read_frames_ok:
  assumes "area_there d h start n area" "reader_ready (sector_bytes d) h start n r" "position_right start area r"
    and list: "access_list_ok info start area"
    and fs: "\<And>f. f \<in> set fs \<Longrightarrow> unat f < length (area_frames area) \<and> length (frame_audio area (unat f)) \<le> max_length"
  shows "\<exists>r' d'. same d d' \<and> read_frames info t max_length fs (r, attached d) =
    Some (Ok (map (\<lambda>f. (SACD_DST_READER_OK, frame_audio area (unat f))) fs), (r', attached d'))"
  using assms(1-3) fs
proof (induction fs arbitrary: d r)
  case Nil
  then show ?case using same_refl [OF area_thereD(1) [OF Nil.prems(1)]] by auto
next
  case (Cons f fs)
  obtain r1 d1 where a: "same d d1" "reader_ready (sector_bytes d) h start n r1" "position_right start area r1"
    "dst_reader_read_frame info t max_length f DATA_TYPE_AUDIO (r, attached d) =
      Some (Ok (SACD_DST_READER_OK, frame_audio area (unat f)), (r1, attached d1))"
    using read_frame_ok [OF Cons.prems(1-3) _ refl list] Cons.prems(4) by (metis list.set_intros(1))
  have "reader_ready (sector_bytes d1) h start n r1" using a(1,2) by (simp add: same_def)
  then obtain r' d' where b: "same d1 d'" "read_frames info t max_length fs (r1, attached d1) =
      Some (Ok (map (\<lambda>f. (SACD_DST_READER_OK, frame_audio area (unat f))) fs), (r', attached d'))"
    using Cons.IH [OF area_stays [OF Cons.prems(1) a(1)] _ a(3)] Cons.prems(4) by auto
  have "read_frames info t max_length (f # fs) (r, attached d) =
      Some (Ok (map (\<lambda>f. (SACD_DST_READER_OK, frame_audio area (unat f))) (f # fs)), (r', attached d'))"
    by (simp add: lseq_Ok [of "dst_reader_read_frame info t max_length f 2", OF a(4)]
      lseq_Ok [of "read_frames info t max_length fs", OF b(2)])
  then show ?case using same_trans [OF a(1) b(1)] by blast
qed

lemma attached_some: "attached d \<noteq> None"
  by (simp add: attached_def)

text \<open>A search whose first sector cannot be read ends with the number of success and sector 0.\<close>

lemma unreadable_search:
  assumes d: "usable d" "length (contents d) < (unat lo + 1) * sector_bytes d" and "lo \<le> hi"
    and buf: "dst_buffer r = Some buf" "length buf = 16 * sector_bytes d"
  shows "\<exists>r' d'. buffered (sector_bytes d) r r' \<and> same d d' \<and>
    find_dst_frame lo hi frame (r, attached d) = Some (Ok (SACD_DST_READER_OK, 0, 1), (r', attached d'))"
proof -
  obtain d' c bs where rd: "same d d'" "length bs \<le> sector_bytes d"
    "sacd_input_read_sectors lo 1 (attached d) = ((c, 0, bs), attached d')"
    using read_sector_missing [OF d] by blast
  let ?r = "r\<lparr>dst_buffer := Some (bs @ drop (length bs) buf)\<rparr>"
  have fits: "length bs \<le> length buf" using rd(2) buf(2) by simp
  have "find_round frame lo (r, attached d) = (Err SACD_DST_READER_IO_ERROR, (?r, attached d'))"
    using fits by (simp add: find_round_def fill_buffer_def buf(1) rd(3))
  then have "find_body frame hi (lo, (r, attached d)) = Some (Err SACD_DST_READER_IO_ERROR, (lo, (?r, attached d')))"
    using assms(3) by (simp add: find_body_def)
  note loop = repeat_error [of "find_body frame hi", OF this]
  have "find_dst_frame lo hi frame (r, attached d) = Some (Ok (SACD_DST_READER_OK, 0, 1), (?r, attached d'))"
    using buf(1) attached_some by (simp add: find_dst_frame_def loop del: not_None_eq)
  moreover have "buffered (sector_bytes d) r ?r"
    unfolding buffered_def using fits buf(2) by (intro exI [of _ "bs @ drop (length bs) buf"]) simp
  ultimately show ?thesis using rd(1) by blast
qed

lemma unreadable_frame:
  assumes d: "usable d" "sector_bytes d \<le> length (contents d)" "unat (contents d ! h) < 32"
      "length (contents d) \<le> unat (fr_start r) * sector_bytes d"
    and r: "reads_sectors r (sector_bytes d) h" "dst_buffer r = Some buf" "length buf = 16 * sector_bytes d"
      "\<not> position_valid r" "fr_start r \<le> fr_end r"
    and list: "ai_frame_start info = None"
  shows "\<exists>r' d'. same d d' \<and> dst_reader_read_frame info t max_length frame dtype (r, attached d) =
    Some (Ok (SACD_DST_READER_OK, []), (r', attached d'))"
proof -
  let ?sb = "sector_bytes d"
  have sb: "0 < ?sb" using d(1) by (rule sector_bytes_pos)
  have short: "length (contents d) < (unat (fr_start r) + 1) * ?sb" using d(4) sb by simp
  obtain r1 d1 where f: "buffered ?sb r r1" "same d d1"
    "find_dst_frame (fr_start r) (fr_end r) frame (r, attached d) = Some (Ok (SACD_DST_READER_OK, 0, 1), (r1, attached d1))"
    using unreadable_search [OF d(1) short r(5,2,3)] by blast
  have seek: "dst_sector_seek info t frame (r, attached d) = Some (Ok (SACD_DST_READER_OK, 0, 1), (r1, attached d1))"
    by (simp add: dst_sector_seek_def sacd_area_toc_get_access_list_range_def list
        lseq_Ok [of "find_dst_frame (fr_start r) (fr_end r) frame", OF f(3)])
  obtain buf1 where b1: "dst_buffer r1 = Some buf1" "length buf1 = 16 * ?sb" using f(1) by (auto simp: buffered_def)
  have r1: "fr_sector_size r1 = int ?sb" "fr_header_size r1 = int h" "h + 2048 \<le> ?sb"
    using f(1) r(1) by (auto simp: buffered_def reads_sectors_def)
  have d1: "usable d1" "contents d1 = contents d" "sector_bytes d1 = ?sb" using f(2) by (simp_all add: same_def)
  obtain d2 where rd: "same d1 d2" "sacd_input_read_sectors 0 1 (attached d1) =
      ((SACD_INPUT_OK, 1, bytes_at 0 ?sb (contents d)), attached d2)"
    using read_sectors_ok [OF d1(1), of 1 0] d(2) by (auto simp: d1(2,3))
  let ?bs = "bytes_at 0 ?sb (contents d)"
  let ?buf = "?bs @ drop (length ?bs) buf1"
  have len: "length ?bs = ?sb" using d(2) by (intro length_bytes_at) simp
  have "h < length ?buf" using len r1(3) by simp
  then have "drop h ?buf \<noteq> []" by (simp only: drop_eq_Nil not_le)
  moreover have "hd (drop h ?buf) = contents d ! h"
  proof -
    have "h < length ?bs" using len r1(3) by linarith
    then have "?buf ! h = contents d ! h" by (simp only: nth_append if_True) (simp add: bytes_at_def)
    then show ?thesis by (simp only: hd_drop_conv_nth [OF \<open>h < length ?buf\<close>])
  qed
  ultimately have bad: "parse_audio_sector_header (drop h ?buf) = Err (-1)"
    using d(3) by (simp add: parse_audio_sector_header_def Let_def)
  have sect: "process_sectors frame dtype max_length 0 (int ?sb) (int h) ?buf 0 1 ex = Err SACD_DST_READER_IO_ERROR"
    if "\<not> ex_complete ex" for ex
    using process_bad [of ex 0 ?sb h ?buf, OF that] bad \<open>h < length ?buf\<close> by (simp only: mult_0 add_0 One_nat_def less_imp_le)
  have found: "read_found max_length frame dtype 0 1 (r1, attached d1) =
      (Ok (SACD_DST_READER_OK, []), (r1\<lparr>dst_buffer := Some ?buf, position_valid := False\<rparr>, attached d2))"
    using b1 len r1 sect by (simp add: read_found_def fill_buffer_def rd(2) attached_decrypts buffer_from_def give_up_def)
  have "dst_buffer r \<noteq> None" using r(2) by simp
  then have "dst_reader_read_frame info t max_length frame dtype (r, attached d) =
      Some (Ok (SACD_DST_READER_OK, []), (r1\<lparr>dst_buffer := Some ?buf, position_valid := False\<rparr>, attached d2))"
    using r(4) found by (simp add: dst_reader_read_frame_def lseq_Ok [of "dst_sector_seek info t frame", OF seek])
  then show ?thesis using same_trans [OF f(2) rd(1)] by blast
qed

end

section \<open>Every read returns\<close>

lemma access_range_end:
  "sacd_area_toc_get_access_list_range info t frame s e st = (Ok (from, to), st') \<Longrightarrow> to \<le> e"
  by (auto simp: sacd_area_toc_get_access_list_range_def Let_def ret_def fault_def
    split: option.splits if_splits)

lemma find_returns:
  assumes "unat hi < 4294967295"
  shows "\<exists>x s'. find_dst_frame lo hi frame s = Some (x, s')"
proof -
  have "\<exists>x u. repeat_lop (find_body frame hi) (lo, s) = Some (x, u)"
  proof (rule repeat_returns [where I = "\<lambda>_. True" and f = "\<lambda>(lsn, _). Suc (unat hi) - unat lsn"])
    fix u :: "u32 \<times> 'a dst_state"
    obtain lsn v where u: "u = (lsn, v)" by (rule prod.exhaust)
    have "unat (lsn + 1) = unat lsn + 1" if "lsn \<le> hi"
      using that assms by (intro unat_suc_u32) (simp add: word_le_nat_alt)
    then show "\<exists>x u'. find_body frame hi u = Some (x, u') \<and> (x = Ok None \<longrightarrow> True \<and>
        (case u' of (lsn, _) \<Rightarrow> Suc (unat hi) - unat lsn) < (case u of (lsn, _) \<Rightarrow> Suc (unat hi) - unat lsn))"
      by (auto simp: u find_body_def word_le_nat_alt split: prod.splits outcome.splits option.splits)
  qed simp
  then show ?thesis by (auto simp: find_dst_frame_def split: prod.splits)
qed

lemma seek_returns:
  assumes "unat (fr_end self) < 4294967295"
  shows "\<exists>x s'. dst_sector_seek info t frame (self, input) = Some (x, s')"
proof -
  obtain x s' where range: "sacd_area_toc_get_access_list_range info t frame (fr_start self) (fr_end self) (self, input) = (x, s')"
    by (rule prod.exhaust)
  show ?thesis
  proof (cases "\<exists>lo hi. x = Ok (lo, hi)")
    case True
    then obtain lo hi where x: "x = Ok (lo, hi)" by blast
    then have "hi \<le> fr_end self" using range by (intro access_range_end) (simp only:)
    then have "unat hi < 4294967295" using assms by (simp add: word_le_nat_alt)
    from find_returns [OF this, of lo frame s'] find_returns [OF assms, of "fr_start self" frame] show ?thesis
      using range x by (auto simp: dst_sector_seek_def lseq_def split: outcome.splits prod.splits)
  next
    case False
    then show ?thesis using range by (auto simp: dst_sector_seek_def split: outcome.splits)
  qed
qed

lemma read_returns:
  assumes "unat (fr_end self) < 4294967295"
  shows "\<exists>x s'. dst_reader_read_frame info t max_length frame dtype (self, input) = Some (x, s')"
proof -
  have lseq: "\<exists>x s'. lseq m k s = Some (x, s')" if "\<exists>x s'. m s = Some (x, s')" "\<And>a s'. \<exists>x u. k a s' = Some (x, u)"
    for m :: "('a dst_state, int, int \<times> u32 \<times> int) lop" and k :: "_ \<Rightarrow> ('a dst_state, int, int \<times> byte list) lop" and s
    using that by (fastforce simp: lseq_def split: outcome.splits)
  have seek: "\<exists>x s'. (if b then lift (ret y) else dst_sector_seek info t frame) (self, input) = Some (x, s')" for b y
    using seek_returns [OF assms, of info t frame input] by simp
  have rest: "\<exists>x u. lift m s' = Some (x, u)" for m :: "('a dst_state, int, int \<times> byte list) op" and s'
    by (cases "m s'") simp
  show ?thesis
  proof (cases "dst_buffer self = None")
    case True
    then show ?thesis by (simp add: dst_reader_read_frame_def)
  next
    case False
    then show ?thesis
      by (simp only: dst_reader_read_frame_def lseq_lift get_apply prod.case outcome.case if_False)
        (rule lseq, rule seek, simp only: split_beta, rule rest)
  qed
qed

end
