(* ===== verification/Sacd_Properties.thy ===== *)
theory Sacd_Properties
  imports Sacd_Seek
begin

text \<open>
  Properties of the readers of libsacd on disc images in files, with an image at which their
  hypotheses hold.
\<close>

section \<open>Example images\<close>

definition plenty_heap :: heap where
  "plenty_heap = \<lparr>max_alloc_size = 2147483647, platform_alloc = (\<lambda>_. True)\<rparr>"

definition image_file :: "byte list \<Rightarrow> sacd_input_file" where
  "image_file img = \<lparr>last_error = SACD_INPUT_OK, error_msg = '''',
     img_fp = \<lparr>fpath = ''a.iso'', fdata = img, fpos = 0, freadable = True, fwritable = False, fcap = 0\<rparr>,
     img_size = of_nat (length img), img_format = SACD_SECTOR_2048, format_detected = False\<rparr>"

lemma image_file_usable: "length img < 1000000 \<Longrightarrow> file_usable (image_file img)"
  by (simp add: file_usable_def image_file_def image_of_def unat_of_nat_u64)

lemma image_of_file: "image_of (image_file img) = img"
  by (simp add: image_of_def image_file_def)

text \<open>An image too short for the signature of the tables of contents has sectors of 2048 bytes.\<close>

lemma short_image: "length img < 1000000 \<Longrightarrow> image_sector_bytes (image_file img) = 2048"
  by (simp add: image_sector_bytes_def image_format_def signature_at_def image_of_file)

definition example_reader :: sacd_frame_reader where
  "example_reader = dsd_reader_fixed14_init (reader_init_base 2 15 2048 0 0 zero_reader)"

lemma example_reader_fields: "fr_start example_reader = 2" "reads_sectors example_reader 2048 0"
  by (simp_all add: example_reader_def dsd_reader_fixed14_init_def reader_init_base_def zero_reader_def reads_sectors_def)

section \<open>Plain DSD\<close>

text \<open>C18. A reader for plain DSD cuts the frame \<open>n\<close> out of the stream of its track area: it delivers the 9408
  bytes from position \<open>9408 n\<close> of the audio that the sectors carry side by side, for both layouts, all three
  positions in a block and all three sector formats of an image; the image stays as it is.\<close>

theorem dsd_frames_are_slices:
  assumes "file_usable f" "reads_sectors r (image_sector_bytes f) h"
    and "layout_sectors ops * (unat n div 3) + layout_sectors ops \<le> k" "unat (fr_start r) + k \<le> 2147483647"
    and "(unat (fr_start r) + k) * image_sector_bytes f \<le> length (image_of f)"
    and "9408 \<le> cap" "sa_malloc hp (image_sector_bytes f)"
  shows "\<exists>f'. file_usable f' \<and> image_of f' = image_of f \<and>
    dsd_read_frame ops hp r cap n (disc_file.attached f, out) =
      (Ok (), (disc_file.attached f', bytes_at (9408 * unat n) 9408
         (dsd_stream (image_sector_bytes f) h (layout_offset ops) (unat (fr_start r)) k (image_of f))))"
proof -
  have "image_sector_bytes f < 2 ^ 64"
    using format_size_cases [of "image_format (image_of f)"] by (auto simp: image_sector_bytes_def)
  from disc_file.fixed_read_frame [OF assms(1,2) layout_fits assms(3-7) this]
  show ?thesis by (auto simp: disc_file.same_def dsd_read_frame_table)
qed

theorem dsd_frames_are_slices_witness:
  "\<exists>f'. dsd_read_frame dsd_reader_fixed14_ops plenty_heap example_reader 9408 1
     (disc_file.attached (image_file (replicate 32768 5)), []) =
    (Ok (), (disc_file.attached f', bytes_at 9408 9408 (dsd_stream 2048 0 32 2 14 (replicate 32768 5))))"
proof -
  let ?f = "image_file (replicate 32768 5)"
  have "\<exists>f'. file_usable f' \<and> image_of f' = image_of ?f \<and>
    dsd_read_frame dsd_reader_fixed14_ops plenty_heap example_reader 9408 1 (disc_file.attached ?f, []) =
      (Ok (), (disc_file.attached f', bytes_at (9408 * unat (1 :: u32)) 9408
         (dsd_stream (image_sector_bytes ?f) 0 (layout_offset dsd_reader_fixed14_ops) (unat (fr_start example_reader)) 14 (image_of ?f))))"
    by (rule dsd_frames_are_slices)
      (simp_all add: image_file_usable short_image image_of_file example_reader_fields plenty_heap_def sa_malloc_def)
  then show ?thesis by (auto simp: short_image image_of_file example_reader_fields)
qed

section \<open>Coded audio\<close>

text \<open>An area of two sectors with three frames, of which the second one spans both.\<close>

definition sector_a :: "byte list" where
  "sector_a = [73, 144, 3, 144, 2, 0, 0, 0, 4, 0, 0, 1, 8, 10, 11, 12, 20, 21]"

definition sector_b :: "byte list" where
  "sector_b = [69, 16, 2, 144, 1, 0, 0, 2, 4, 22, 23, 30]"

definition example_area :: "byte list list" where
  "example_area = [sector_a @ replicate 2030 0, sector_b @ replicate 2036 0]"

definition example_packet :: "bool \<Rightarrow> byte \<Rightarrow> nat \<Rightarrow> byte list \<Rightarrow> packet" where
  "example_packet s t n bs = \<lparr>pt_starts = s, pt_info = \<lparr>fi_time_code = \<lparr>tm_minutes = 0, tm_seconds = 0, tm_frames = t\<rparr>,
     fi_channel_bit_1 = False, fi_sector_count = n, fi_channel_bit_2 = False, fi_channel_bit_3 = False\<rparr>,
     pt_type = DATA_TYPE_AUDIO, pt_data = bs\<rparr>"

lemma sector_padded:
  assumes "parse_audio_sector_header bs = Ok (p, off)" "off + sum_list (map pk_length (ps_packets p)) \<le> length bs"
  shows "sector_packets (bs @ ys) = packets_of (ps_frames p) 0 bs off (ps_packets p)"
    and "ps_dst_coded p \<Longrightarrow> length bs + length ys = 2048 \<Longrightarrow> sector_good (bs @ ys)"
  using assms parse_append [OF assms(1), of ys] packets_of_append [OF assms(2), of "ps_frames p" 0 ys]
  by (simp_all add: sector_packets_def sector_good_def)

lemma packet_infos:
  "packet_info_of [144, 3] = \<lparr>pk_frame_start = True, pk_data_type = DATA_TYPE_AUDIO, pk_length = 3\<rparr>"
  "packet_info_of [144, 2] = \<lparr>pk_frame_start = True, pk_data_type = DATA_TYPE_AUDIO, pk_length = 2\<rparr>"
  "packet_info_of [144, 1] = \<lparr>pk_frame_start = True, pk_data_type = DATA_TYPE_AUDIO, pk_length = 1\<rparr>"
  "packet_info_of [16, 2] = \<lparr>pk_frame_start = False, pk_data_type = DATA_TYPE_AUDIO, pk_length = 2\<rparr>"
  by (simp_all add: packet_info_of_def be_dec_def)

lemmas parse_simps = parse_audio_sector_header_def Let_def pieces_def bytes_at_def packet_infos frame_info_of_def upt_rec
  example_packet_def info_starts_def

lemma parsed_a: "\<exists>p. parse_audio_sector_header sector_a = Ok (p, 13) \<and> ps_dst_coded p \<and> map pk_length (ps_packets p) = [3, 2] \<and>
    packets_of (ps_frames p) 0 sector_a 13 (ps_packets p) =
      [example_packet True 0 1 [10, 11, 12], example_packet True 1 2 [20, 21]]"
  by (simp add: sector_a_def parse_simps)

lemma parsed_b: "\<exists>p. parse_audio_sector_header sector_b = Ok (p, 9) \<and> ps_dst_coded p \<and> map pk_length (ps_packets p) = [2, 1] \<and>
    packets_of (ps_frames p) 0 sector_b 9 (ps_packets p) =
      [example_packet False 2 1 [22, 23], example_packet True 2 1 [30]]"
  by (simp add: sector_b_def parse_simps)

lemma example_sectors:
  "sector_packets (sector_a @ ys) = [example_packet True 0 1 [10, 11, 12], example_packet True 1 2 [20, 21]]"
  "sector_packets (sector_b @ ys) = [example_packet False 2 1 [22, 23], example_packet True 2 1 [30]]"
  "length ys = 2030 \<Longrightarrow> sector_good (sector_a @ ys)" "length ys = 2036 \<Longrightarrow> sector_good (sector_b @ ys)"
proof -
  obtain p where p: "parse_audio_sector_header sector_a = Ok (p, 13)" "ps_dst_coded p" "map pk_length (ps_packets p) = [3, 2]"
    "packets_of (ps_frames p) 0 sector_a 13 (ps_packets p) = [example_packet True 0 1 [10, 11, 12], example_packet True 1 2 [20, 21]]"
    using parsed_a by (elim exE conjE) (rule that; assumption)
  obtain q where q: "parse_audio_sector_header sector_b = Ok (q, 9)" "ps_dst_coded q" "map pk_length (ps_packets q) = [2, 1]"
    "packets_of (ps_frames q) 0 sector_b 9 (ps_packets q) = [example_packet False 2 1 [22, 23], example_packet True 2 1 [30]]"
    using parsed_b by (elim exE conjE) (rule that; assumption)
  have len: "13 + sum_list (map pk_length (ps_packets p)) \<le> length sector_a" "9 + sum_list (map pk_length (ps_packets q)) \<le> length sector_b"
    by (simp_all add: p(3) q(3) sector_a_def sector_b_def)
  show "sector_packets (sector_a @ ys) = [example_packet True 0 1 [10, 11, 12], example_packet True 1 2 [20, 21]]"
    "sector_packets (sector_b @ ys) = [example_packet False 2 1 [22, 23], example_packet True 2 1 [30]]"
    using sector_padded(1) [OF p(1) len(1)] sector_padded(1) [OF q(1) len(2)] p(4) q(4) by simp_all
  show "length ys = 2030 \<Longrightarrow> sector_good (sector_a @ ys)" "length ys = 2036 \<Longrightarrow> sector_good (sector_b @ ys)"
    using sector_padded(2) [OF p(1) len(1) p(2)] sector_padded(2) [OF q(1) len(2) q(2)]
    by (simp_all add: sector_a_def sector_b_def)
qed

lemma example_frames:
  "area_frames example_area = [[(0, example_packet True 0 1 [10, 11, 12])],
     [(0, example_packet True 1 2 [20, 21]), (1, example_packet False 2 1 [22, 23])],
     [(1, example_packet True 2 1 [30])]]"
  by (simp add: area_frames_def area_packets_def example_area_def example_sectors) (simp add: example_packet_def)

lemma example_area_good: "area_good example_area"
  by (simp add: area_good_def example_frames numeral_2_eq_2)
    (simp add: example_area_def example_sectors frame_good_def example_packet_def has_audio_def time_to_frame_def)

lemma example_audio:
  "frame_audio example_area 0 = [10, 11, 12]" "frame_audio example_area 1 = [20, 21, 22, 23]" "frame_audio example_area 2 = [30]"
  by (simp_all add: frame_audio_def example_frames audio_of_def example_packet_def)

text \<open>The image with this area from sector 1 on, a reader for it and its access list.\<close>

definition example_image :: "byte list" where
  "example_image = replicate 2048 0 @ concat example_area"

definition example_dst_reader :: sacd_frame_reader_dst where
  "example_dst_reader = dst_reader_init plenty_heap (reader_init_base 1 2 2048 0 0
     (sacd_frame_reader.extend zero_reader \<lparr>dst_buffer = None, dst_buffer_count = 0, cached_frame_num = 0,
        cached_frame_lsn = 0, position_valid = False, next_frame_known = False\<rparr>))"

definition example_list :: area_toc_frame_info where
  "example_list = \<lparr>ai_step_size = 1, ai_num_entries = 3, ai_frame_start = Some [1, 1, 2], ai_access_margin = Some [0, 0, 0]\<rparr>"

lemma length_example: "length example_image = 6144"
  by (simp add: example_image_def example_area_def sector_a_def sector_b_def)

lemma example_dst_area: "dst_area 2048 0 1 2 example_image = example_area"
proof -
  have "length (sector_a @ replicate 2030 0) = 2048" "length (sector_b @ replicate 2036 0) = 2048"
    by (simp_all add: sector_a_def sector_b_def)
  then have "bytes_at 2048 2048 example_image = sector_a @ replicate 2030 0"
    "bytes_at 4096 2048 example_image = sector_b @ replicate 2036 0"
    by (simp_all add: example_image_def example_area_def bytes_at_def)
  then show ?thesis by (simp add: dst_area_def example_area_def numeral_2_eq_2)
qed

lemma example_dst_ready: "reader_ready 2048 0 1 2 example_dst_reader" "\<not> position_valid example_dst_reader"
  by (simp_all add: example_dst_reader_def dst_reader_init_def reader_init_base_def reader_ready_def reads_sectors_def
      sa_calloc_def sa_malloc_def plenty_heap_def zero_reader_def sacd_frame_reader.defs)

lemma example_list_ok: "access_list_ok example_list 1 example_area"
  by (simp add: access_list_ok_def example_list_def example_frames frame_first_def upt_rec)

text \<open>C5. The reader for coded audio delivers the frames of a well-formed track area whatever the order of the reads: each read reports
  success and the audio of its frame, the audio packets from the start of the frame to the start of the next one
  put together, whether the reader searches for it through the access list, behind a misleading one, or goes on from the
  position it has kept. The access list need only not point beyond the frames it precedes; the image stays as it is.\<close>

theorem dst_frames_in_any_order:
  assumes "file_usable f" "area_good area"
    and "area = dst_area (image_sector_bytes f) h start k (image_of f)"
    and "(start + k) * image_sector_bytes f \<le> length (image_of f)" "start + k + 16 \<le> 4294967295"
    and "reader_ready (image_sector_bytes f) h start k r" "\<not> position_valid r" "access_list_ok info start area"
    and "\<forall>n \<in> set ns. unat n < length (area_frames area) \<and> length (frame_audio area (unat n)) \<le> max_length"
  shows "\<exists>f' r'. file_usable f' \<and> image_of f' = image_of f \<and>
    read_frames info t max_length ns (r, disc_file.attached f) =
      Some (Ok (map (\<lambda>n. (SACD_DST_READER_OK, frame_audio area (unat n))) ns), (r', disc_file.attached f'))"
proof -
  have "disc_file.area_there f h start k area"
    unfolding disc_file.area_there_def using assms(1-5) by blast
  moreover have "position_right start area r"
    using assms(7) by (simp add: position_right_def)
  ultimately show ?thesis
    using disc_file.read_frames_ok [of f h start k area r info ns max_length t] assms(6,8,9)
    unfolding disc_file.same_def by blast
qed

theorem dst_frames_in_any_order_witness:
  "\<exists>f' r'. read_frames example_list 3 9408 [1, 2, 0, 1] (example_dst_reader, disc_file.attached (image_file example_image)) =
    Some (Ok [(0, [20, 21, 22, 23]), (0, [30]), (0, [10, 11, 12]), (0, [20, 21, 22, 23])], (r', disc_file.attached f'))"
proof -
  let ?f = "image_file example_image"
  have sb: "image_sector_bytes ?f = 2048" by (rule short_image) (simp add: length_example)
  have "\<exists>f' r'. file_usable f' \<and> image_of f' = image_of ?f \<and>
    read_frames example_list 3 9408 [1, 2, 0, 1] (example_dst_reader, disc_file.attached ?f) =
      Some (Ok (map (\<lambda>n. (SACD_DST_READER_OK, frame_audio example_area (unat n))) [1, 2, 0, 1 :: u32]), (r', disc_file.attached f'))"
    by (rule dst_frames_in_any_order [where start = 1 and k = 2 and h = 0])
      (simp_all add: sb image_of_file length_example image_file_usable example_dst_area example_area_good example_dst_ready
        example_list_ok example_frames example_audio del: One_nat_def)
  then show ?thesis by (auto simp: example_audio simp del: One_nat_def)
qed

text \<open>C19. A read of coded audio returns, whatever the source, the access list and the sectors hold, when the area does not end
  with the last sector number there is.\<close>

theorem dst_read_returns:
  assumes "unat (fr_end self) < 4294967295"
  shows "\<exists>x s. dst_reader_read_frame info t max_length frame dtype (self, input) = Some (x, s)"
  using assms by (rule read_returns)

theorem dst_read_returns_witness:
  "\<exists>x s. dst_reader_read_frame example_list 3 9408 1 DATA_TYPE_AUDIO
     (example_dst_reader, disc_file.attached (image_file example_image)) = Some (x, s)"
  by (rule dst_read_returns) (simp add: example_dst_reader_def dst_reader_init_def reader_init_base_def)

text \<open>C24. The number for I/O errors is that of success: when the sectors of a track area lie behind the end of
  the image, a read of any frame reports success and no bytes. The search, too, takes its failure for a success with sector 0
  as the result, and the reader goes on there; the first sector is taken to have no packets.\<close>

theorem dst_read_error_reported_ok:
  assumes "file_usable f" "image_sector_bytes f \<le> length (image_of f)" "unat (image_of f ! h) < 32"
    and "length (image_of f) \<le> unat (fr_start r) * image_sector_bytes f" "fr_start r \<le> fr_end r"
    and "reads_sectors r (image_sector_bytes f) h" "dst_buffer r = Some buf" "length buf = 16 * image_sector_bytes f"
    and "\<not> position_valid r" "ai_frame_start info = None"
  shows "\<exists>f' r'. image_of f' = image_of f \<and>
    dst_reader_read_frame info t max_length frame dtype (r, disc_file.attached f) =
      Some (Ok (SACD_DST_READER_OK, []), (r', disc_file.attached f'))"
  using disc_file.unreadable_frame [of f h r buf info t max_length frame dtype] assms
  unfolding disc_file.same_def by blast

theorem dst_read_error_reported_ok_witness:
  "\<exists>f' r'. dst_reader_read_frame (example_list\<lparr>ai_frame_start := None\<rparr>) 3 9408 1 DATA_TYPE_AUDIO
     (example_dst_reader, disc_file.attached (image_file (replicate 2048 0))) =
       Some (Ok (SACD_DST_READER_OK, []), (r', disc_file.attached f'))"
proof -
  let ?f = "image_file (replicate 2048 0)"
  have sb: "image_sector_bytes ?f = 2048" by (rule short_image) simp
  obtain buf where buf: "dst_buffer example_dst_reader = Some buf" "length buf = 16 * 2048"
    using example_dst_ready(1) by (auto simp: reader_ready_def)
  have "\<exists>f' r'. image_of f' = image_of ?f \<and> dst_reader_read_frame (example_list\<lparr>ai_frame_start := None\<rparr>) 3 9408 1
      DATA_TYPE_AUDIO (example_dst_reader, disc_file.attached ?f) = Some (Ok (SACD_DST_READER_OK, []), (r', disc_file.attached f'))"
    using example_dst_ready buf
    by (intro dst_read_error_reported_ok [where h = 0 and buf = buf])
      (simp_all add: sb image_of_file image_file_usable reader_ready_def example_dst_reader_def dst_reader_init_def reader_init_base_def)
  then show ?thesis by blast
qed

end
