(* ===== verification/Spec2Isabelle.thy ===== *)
theory Spec2Isabelle
  imports Dsf_Contracts Dst_Properties Dst_Contracts Dsdiff_Roundtrip Dsdiff_Handle Pipe_Properties
    Sacd_Properties
begin

text \<open>
  A model of the core libraries of dsd-nexus, a C code base for Direct Stream Digital audio, and the
  theorems that make them correct. The program reads and writes two container formats, DSF
  (\<^verbatim>\<open>src/libs/libdsf\<close>) and DSDIFF (\<^verbatim>\<open>src/libs/libdsdiff\<close>), decodes the compression
  of the second one, DST (\<^verbatim>\<open>src/libs/libdst\<close>), reads the audio of SACD disc images (\<^verbatim>\<open>src/libs/libsacd\<close>), and moves the tracks of an album from a source to sinks of these
  formats (\<^verbatim>\<open>src/libs/libdsdpipe\<close>); they rest on a support library
  (\<^verbatim>\<open>src/libs/libsautil\<close>). The file names below are relative to \<^verbatim>\<open>src/libs\<close>.

  \<^bold>\<open>How the code is modelled.\<close> A C function that may fail is an operation
  \<open>'s \<Rightarrow> ('e, 'a) outcome \<times> 's\<close> of \<open>Nexus_Prelude\<close>: the state is the objects the function may change,
  the outcome is \<open>Ok\<close> of its results, \<open>Err\<close> of its error code, or \<open>Fault\<close> for undefined behaviour (an
  access outside an array, a freed pointer, a signed overflow, a shift or a division that C does
  not define). \<open>seq\<close>, \<open>ensure\<close>, \<open>ignore\<close> and \<open>on_err\<close> are a call with the early return, a check, a call whose code is
  dropped, and a clean-up label. Integers are words of their C width. Structures are records with
  the members of the code, enumerations are datatypes, error codes with their numbers by a function.
  \<open>C_Stdio\<close> has the streams and the disk (a stream is its path, bytes, position and mode, with a capacity
  after which writes fall short), \<open>C_Pointers\<close> the pointers a structure owns (null, valid, dangling),
  \<open>C_Loops\<close> the loops that need not end (\<open>while_option\<close>, so \<open>None\<close> is a call that does not return),
  \<open>Op_Loops\<close> counted loops and weakest preconditions, \<open>Op_Frames\<close> frame rules, \<open>Sa_Util\<close> the allocator and strings of
  \<^verbatim>\<open>libsautil/mem.c\<close>, \<^verbatim>\<open>sastring.c\<close>, \<^verbatim>\<open>reverse.c\<close>. The allocator is a predicate on sizes, a
  parameter of every operation that allocates: each failure of it is covered.

  \<^bold>\<open>The interfaces.\<close> Both containers put their chunks on a thin layer over a stream. \<open>Byte_Stream\<close> states
  what that layer promises as the locale \<open>byte_stream\<close> (reading, writing, seeking, short reads, full
  devices) and proves the lemmas of consecutive fields and of patched header fields in it. \<open>Dsf_Io\<close> and \<open>Dsdiff_Io\<close>
  interpret it on the models of \<^verbatim>\<open>dsf_io.c\<close> and \<^verbatim>\<open>dsdiff_io.c\<close>. The second interface is the one between
  the two threads of a conversion: the locale \<open>bounded_channel\<close> of \<open>Pipe_Ring\<close>, interpreted there on the frame queue.
  The third is the source of sectors that the readers of disc images are given as a table of operations: the locale \<open>sector_input\<close> of
  \<open>Sacd_Source\<close> and its extension \<open>plain_input\<close> without decryption, interpreted there on the disc images in files.

  \<^bold>\<open>libdsf.\<close> \<open>Dsf_Types\<close> (constants, the file information, checked arithmetic), \<open>Dsf_Io\<close>, \<open>Dsf_Chunks\<close>
  (\<^verbatim>\<open>dsf_chunks.c\<close>) and \<open>Dsf_File\<close> (\<^verbatim>\<open>dsf.c\<close>) have every function of these files by its name.
  \<open>Dsf_Audio\<close> specifies the block layout of the audio and proves that the buffered writer implements appending to a
  stream; \<open>Dsf_Reader\<close> that the reader delivers it in order; \<open>Dsf_Session\<close> composes whole sessions;
  \<open>Dsf_Handle\<close> and \<open>Dsf_Lifecycle\<close> give the invariant of a handle and the state machine of all public calls;
  \<open>Dsf_Properties\<close> and \<open>Dsf_Contracts\<close> hold the properties: a recording session leaves exactly the specified
  image and is read back byte for byte, every sequence of calls is defined (with the exception that is
  proved: a block lost to a full device), and what opening for modification does to files. Sessions are
  limited to the 10 GiB that the code itself allows for the audio.

  \<^bold>\<open>libdsdiff.\<close> \<open>Dsdiff_Types\<close>, \<open>Dsdiff_Io\<close>, \<open>Dsdiff_Chunks\<close> (\<^verbatim>\<open>dsdiff_chunks.c\<close>), \<open>Dsdiff_Markers\<close>
  (\<^verbatim>\<open>dsdiff_markers.c\<close>) and, for \<^verbatim>\<open>dsdiff.c\<close>, \<open>Dsdiff_State\<close> (the handle), \<open>Dsdiff_Parse\<close> (the three parser
  loops), \<open>Dsdiff_File\<close> (create, open, modify, seek), \<open>Dsdiff_Audio\<close> (sound data, DST frames and their
  index, finalising, closing) and \<open>Dsdiff_Api\<close> (all accessors and the messages) have every function by its name.
  The marker list, intrusive and circular in C, is the sequence of its entries; its merge sort is
  proved equal to the stable sort by time in \<open>Dsdiff_Markers\<close>.
  \<open>Dsdiff_Codec\<close> and \<open>Dsdiff_Tags\<close> show, for every kind of chunk, which bytes the writer emits and what the reader
  takes from them; \<open>Dsdiff_Properties\<close> has the round trips and bounds that follow.
  \<open>Dsdiff_Forward\<close> and \<open>Dsdiff_Terminates\<close> prove that the parsers move forward on calm files, where no eight-byte number leads back
  as a signed offset, so that every loop ends; \<open>Dsdiff_Contracts\<close> states it and exhibits the files of 28
  bytes on which opening does not return. \<open>Dsdiff_Recording\<close>, \<open>Dsdiff_Playing\<close> and \<open>Dsdiff_Roundtrip\<close> follow a
  recording from \<^verbatim>\<open>dsdiff_new\<close> to \<^verbatim>\<open>dsdiff_close\<close>, give the exact bytes of the file, and
  lead them through both parser loops back to the blocks. \<open>Dsdiff_Handle\<close> is the well-formedness of handles that all
  setters and getters keep, with the two that are undefined on some well-formed handles (a tag asked for when there is none, a
  frame rate of 0). Texts of 4 GiB and more are not represented, the text pointers that
  \<^verbatim>\<open>dsdiff_get_comment\<close> shares with the caller are values, and the contents of a caller's buffer after a
  failed read are left out. The indeterminate \<^verbatim>\<open>name_len\<close> of \<^verbatim>\<open>dsdiff_chunk_read_cmpr\<close> is an argument of
  opening; opening a recording is proved for values of at least 14, the length of the name.

  \<^bold>\<open>libdst.\<close> \<open>Get_Bits\<close> is the checked big-endian bit reader of \<^verbatim>\<open>libsautil/get_bits.h\<close> as the decoder
  uses it, \<open>Bit_Reader\<close> its correctness against a stream of bits; \<open>Dst_Decoder\<close> is \<^verbatim>\<open>libdst/src/decoder.c\<close>
  function by function. \<open>Dst_Tables\<close> (mapping, Golomb codes, coefficient tables), \<open>Dst_Coder\<close> (the
  arithmetic decoder), \<open>Dst_Filter\<close> (the filter tables and the status bytes), \<open>Dst_Frame\<close> (the sample loop
  refines a reference decoder without tables), \<open>Dst_Object\<close> (what a call does to the decoder whatever the
  input) and \<open>Dst_Example\<close> (a concrete frame) lead to \<open>Dst_Properties\<close> and \<open>Dst_Contracts\<close>. The input
  buffer is padded by 64 bytes, as the bit reader asks for, and a frame has at most 268435391 bytes, so that its number of bits is an
  \<^verbatim>\<open>int\<close>.

  \<^bold>\<open>libdsdpipe.\<close> \<open>Pipe_Tracks\<close> is \<^verbatim>\<open>track_select.c\<close>, the track specifications such as
  \<^verbatim>\<open>1-3,5\<close>, with the entry point \<^verbatim>\<open>dsdpipe_select_tracks\<close>; \<open>Pipe_Select\<close> gives the language of the
  specifications and what a selection is as a set, and \<open>Pipe_Parse\<close> proves the hand-written parser sound and complete for
  it. \<open>Pipe_Queue\<close> is \<^verbatim>\<open>frame_queue.c\<close>, every call as the critical sections it consists of (up to a wait and after it);
  \<open>Pipe_Ring\<close> has the ring invariant and proves that the queue is a bounded channel.
  \<open>Pipe_Reader\<close> is the reader thread (\<^verbatim>\<open>reader_thread.c\<close>) and the loop of the main thread around it
  (\<^verbatim>\<open>dsdpipe_process_track\<close> of \<^verbatim>\<open>dsdpipe.c\<close>) as two threads, each with a program counter, over the queue and the flags they share; an
  atomic step is one critical section, one access of a flag or one call of the source, decoder or sinks, so that every interleaving
  of them, spurious wake-ups included, is a path of \<open>sys_step\<close>. The frames of the source, the outcomes of the
  decoder, the writes of the sinks and the moment of a cancellation are the parameter \<open>env\<close>.
  \<open>Pipe_Threads\<close> (steps of the reader) and \<open>Pipe_Main\<close> (steps of the main thread) prove one invariant of all reachable
  states; \<open>Pipe_Races\<close> tells which shared objects a step accesses under which mutex and proves that the only unsynchronised
  accesses are the reader's tests of its two \<^verbatim>\<open>volatile bool\<close> flags - a data race, undefined in C, behind which the steps
  go on with indivisible accesses; \<open>Pipe_Progress\<close> derives the order of the frames, the outcome, the absence of deadlocks and the account of the
  frame buffers; \<open>Pipe_Ends\<close> bounds every run of a source of \<open>n\<close> frames by \<open>24 n + 139\<close> steps that are not
  spurious wake-ups; \<open>Pipe_Properties\<close> has the properties. The queue has 64 slots and a batch 16 frames, as in the
  code. Each condition variable has one waiter, as there are two threads. A failing decoder or batch has a nonzero code (\<open>codes_ok\<close>).
  The sinks take DSD: the conversion to PCM, the figures of the progress callback and calls with a null queue or selection are left
  out.

  \<^bold>\<open>libsacd.\<close> \<open>Sacd_Input\<close> is the layer of sources: the table of operations and the calls through it
  (\<^verbatim>\<open>sacd_input.h\<close>), which kind of source a path names (\<^verbatim>\<open>sacd_input.c\<close>, the branch for Unix) and the images in files
  with sectors of 2048, 2054 or 2064 bytes (\<^verbatim>\<open>sacd_input_file.c\<close>); \<open>Sacd_Source\<close> proves that an image is a source of
  sectors in the format that its signature gives. \<open>Sacd_Frames\<close> has the base of the frame readers and the two for plain DSD
  (\<^verbatim>\<open>sacd_frame_reader.h\<close>, \<^verbatim>\<open>sacd_dsd_reader.c\<close>), \<open>Sacd_Dsd\<close> the stream of audio they cut
  frames from. \<open>Sacd_Dst\<close> is the reader for coded audio (\<^verbatim>\<open>sacd_dst_reader.c\<close>, and of
  \<^verbatim>\<open>sacd_area_toc.c\<close> the range that the access list gives); \<open>Sacd_Demux\<close> specifies a multiplexed track
  area, its packets and frames, and follows the two scans of the reader through a sector; \<open>Sacd_Reading\<close> adds the sectors of a
  frame up, \<open>Sacd_Seek\<close> has the search with its access list and the invariant of the position that a reader keeps, for any source that is
  a \<open>plain_input\<close>. \<open>Sacd_Properties\<close> has the properties, over images in files. Sector numbers in an area stay below \<open>2 ^ 31\<close> for plain DSD and
  below \<open>2 ^ 32 - 16\<close> for DST, which no disc comes near.

  \<^bold>\<open>Not modelled.\<close> The rest of libdsdpipe (sources, sinks, transforms, tags and the set-up of a pipeline) and the batch
  decoder of libdst are calls into the libraries above, into threads of the operating system and into vendored tag writers;
  the tables of contents and texts of libsacd are
  not followed, its network and drive sources, libsacdvfs and libps3drive depend on drives, protocols and encrypted sectors; libdsdpcm binds a
  generated or foreign resampler; the threads, logging, XML, time and path helpers of libsautil are thin layers over the operating system or
  vendored; the front ends are under \<^verbatim>\<open>extras\<close>. Diagnostics on stderr have no effect on the
  state and are left out.
\<close>

end
